(* ===== verification/Prelude.thy ===== *)
theory Prelude
  imports Complex_Main "HOL-Library.AList" "HOL-Library.Multiset"
begin

text \<open>
  What every component of the model shares: the part of the JavaScript value domain that the
  modelled code computes with (index arithmetic that can yield NaN, reads and slices that can be
  out of range, insertion-ordered objects), the theorem collections of the development, and the
  interface of a component that is driven by a sequence of operations.
\<close>

named_theorems js_simps \<open>evaluation rules of the JavaScript operations\<close>
named_theorems store_inv \<open>operations that keep the invariant of the player store\<close>
named_theorems list_inv \<open>operations that keep the invariant of the item list state\<close>

section \<open>Numbers used as indexes\<close>

text \<open>
  An index of the code is a number that is either an integer or NaN: reading an array out of range
  gives undefined, and arithmetic on undefined gives NaN. Comparisons with NaN are false, and
  sums with NaN are NaN.
\<close>

datatype jsnum = NaN | Num int

instantiation jsnum :: "{plus, minus, ord}"
begin

definition plus_jsnum :: "jsnum \<Rightarrow> jsnum \<Rightarrow> jsnum" where
  "plus_jsnum a b = (case a of NaN \<Rightarrow> NaN | Num i \<Rightarrow> (case b of NaN \<Rightarrow> NaN | Num j \<Rightarrow> Num (i + j)))"

definition minus_jsnum :: "jsnum \<Rightarrow> jsnum \<Rightarrow> jsnum" where
  "minus_jsnum a b = (case a of NaN \<Rightarrow> NaN | Num i \<Rightarrow> (case b of NaN \<Rightarrow> NaN | Num j \<Rightarrow> Num (i - j)))"

definition less_jsnum :: "jsnum \<Rightarrow> jsnum \<Rightarrow> bool" where
  "less_jsnum a b = (case a of NaN \<Rightarrow> False | Num i \<Rightarrow> (case b of NaN \<Rightarrow> False | Num j \<Rightarrow> i < j))"

definition less_eq_jsnum :: "jsnum \<Rightarrow> jsnum \<Rightarrow> bool" where
  "less_eq_jsnum a b = (case a of NaN \<Rightarrow> False | Num i \<Rightarrow> (case b of NaN \<Rightarrow> False | Num j \<Rightarrow> i \<le> j))"

instance ..

end

text \<open>Strict equality: NaN differs from everything, itself included.\<close>

definition js_eq :: "jsnum \<Rightarrow> jsnum \<Rightarrow> bool" where
  "js_eq a b = (a \<noteq> NaN \<and> a = b)"

definition js_min :: "jsnum \<Rightarrow> jsnum \<Rightarrow> jsnum" where
  "js_min a b = (case a of NaN \<Rightarrow> NaN | Num i \<Rightarrow> (case b of NaN \<Rightarrow> NaN | Num j \<Rightarrow> Num (min i j)))"

definition js_max :: "jsnum \<Rightarrow> jsnum \<Rightarrow> jsnum" where
  "js_max a b = (case a of NaN \<Rightarrow> NaN | Num i \<Rightarrow> (case b of NaN \<Rightarrow> NaN | Num j \<Rightarrow> Num (max i j)))"

lemma jsnum_arith [simp, js_simps]:
  "Num i + Num j = Num (i + j)" "Num i - Num j = Num (i - j)"
  "NaN + a = NaN" "a + NaN = NaN" "NaN - a = NaN" "a - NaN = NaN"
  by (auto simp: plus_jsnum_def minus_jsnum_def split: jsnum.splits)

lemma jsnum_order [simp, js_simps]:
  "Num i < Num j \<longleftrightarrow> i < j" "Num i \<le> Num j \<longleftrightarrow> i \<le> j"
  "\<not> NaN < a" "\<not> a < NaN" "\<not> NaN \<le> a" "\<not> a \<le> NaN"
  by (auto simp: less_jsnum_def less_eq_jsnum_def split: jsnum.splits)

lemma js_eq_simps [simp, js_simps]:
  "js_eq (Num i) (Num j) \<longleftrightarrow> i = j" "\<not> js_eq NaN a" "\<not> js_eq a NaN"
  by (auto simp: js_eq_def)

lemma js_minmax [simp, js_simps]:
  "js_min (Num i) (Num j) = Num (min i j)" "js_max (Num i) (Num j) = Num (max i j)"
  "js_min NaN a = NaN" "js_min a NaN = NaN" "js_max NaN a = NaN" "js_max a NaN = NaN"
  by (auto simp: js_min_def js_max_def split: jsnum.splits)

section \<open>Arrays\<close>

text \<open>Reading an element: undefined (None) outside the array, and at NaN.\<close>

definition js_nth :: "'a list \<Rightarrow> jsnum \<Rightarrow> 'a option" where
  "js_nth xs n = (case n of NaN \<Rightarrow> None
     | Num i \<Rightarrow> if 0 \<le> i \<and> i < int (length xs) then Some (xs ! nat i) else None)"

lemma js_nth_Num [simp, js_simps]:
  "js_nth xs (Num i) = (if 0 \<le> i \<and> i < int (length xs) then Some (xs ! nat i) else None)"
  by (simp add: js_nth_def)

lemma js_nth_NaN [simp, js_simps]: "js_nth xs NaN = None"
  by (simp add: js_nth_def)

lemma js_nth_in_set: "js_nth xs n = Some x \<Longrightarrow> x \<in> set xs"
  by (auto simp: js_nth_def split: jsnum.splits if_splits)

lemma js_nth_map: "js_nth (map f xs) n = map_option f (js_nth xs n)"
  by (auto simp: js_nth_def split: jsnum.splits)

text \<open>
  A bound of slice: NaN counts as 0, a negative bound counts from the end, and the result is
  clipped to the array.
\<close>

definition slice_bound :: "nat \<Rightarrow> jsnum \<Rightarrow> nat" where
  "slice_bound len n = (case n of NaN \<Rightarrow> 0
     | Num i \<Rightarrow> if i < 0 then nat (int len + i) else min len (nat i))"

definition slice_to :: "'a list \<Rightarrow> jsnum \<Rightarrow> 'a list" where
  "slice_to xs e = take (slice_bound (length xs) e) xs"

definition slice_from :: "'a list \<Rightarrow> jsnum \<Rightarrow> 'a list" where
  "slice_from xs b = drop (slice_bound (length xs) b) xs"

lemma slice_join [simp]: "slice_to xs n @ slice_from xs n = xs"
  by (simp add: slice_to_def slice_from_def)

lemma slice_NaN [simp, js_simps]: "slice_to xs NaN = []" "slice_from xs NaN = xs"
  by (simp_all add: slice_to_def slice_from_def slice_bound_def)

lemma slice_Num [js_simps]:
  "0 \<le> i \<Longrightarrow> slice_to xs (Num i) = take (nat i) xs"
  "0 \<le> i \<Longrightarrow> slice_from xs (Num i) = drop (nat i) xs"
  by (auto simp: slice_to_def slice_from_def slice_bound_def min_def)

lemma set_slices: "set (slice_to xs n) \<subseteq> set xs" "set (slice_from xs n) \<subseteq> set xs"
  by (auto simp: slice_to_def slice_from_def dest: in_set_takeD in_set_dropD)

text \<open>The index of the first element with a property, and -1 if there is none.\<close>

primrec findIndex :: "('a \<Rightarrow> bool) \<Rightarrow> 'a list \<Rightarrow> int" where
  "findIndex P [] = -1"
| "findIndex P (x # xs) =
     (if P x then 0 else (let i = findIndex P xs in if i = -1 then -1 else i + 1))"

lemma findIndex_ge: "-1 \<le> findIndex P xs"
  by (induction xs) (auto simp: Let_def)

lemma findIndex_less: "findIndex P xs < int (length xs)"
  by (induction xs) (auto simp: Let_def)

lemma findIndex_none: "findIndex P xs = -1 \<longleftrightarrow> (\<forall>x \<in> set xs. \<not> P x)"
proof (induction xs)
  case (Cons x xs)
  then show ?case using findIndex_ge [of P xs] by (auto simp: Let_def)
qed simp

lemma findIndex_nth: "findIndex P xs \<noteq> -1 \<Longrightarrow> P (xs ! nat (findIndex P xs))"
proof (induction xs)
  case (Cons x xs)
  show ?case
  proof (cases "P x \<or> findIndex P xs = -1")
    case True
    with Cons show ?thesis by (auto simp: Let_def split: if_splits)
  next
    case False
    then have "0 \<le> findIndex P xs" using findIndex_ge [of P xs] by linarith
    with Cons.IH False show ?thesis by (simp add: Let_def nat_add_distrib)
  qed
qed simp

lemma findIndex_found:
  "\<exists>x \<in> set xs. P x \<Longrightarrow>
     0 \<le> findIndex P xs \<and> findIndex P xs < int (length xs) \<and> P (xs ! nat (findIndex P xs))"
  using findIndex_nth [of P xs] findIndex_less [of P xs] findIndex_ge [of P xs] findIndex_none [of P xs]
  by (auto simp: order_le_less)

lemma findIndex_map: "findIndex P (map f xs) = findIndex (\<lambda>x. P (f x)) xs"
  by (induction xs) (simp_all add: Let_def)

lemma findIndex_distinct:
  "distinct xs \<Longrightarrow> i < length xs \<Longrightarrow> findIndex (\<lambda>x. x = xs ! i) xs = int i"
proof (induction xs arbitrary: i)
  case (Cons x xs)
  then show ?case by (cases i) (auto simp: Let_def)
qed simp

text \<open>The array of the indexes 0 to n - 1, shifted by an offset.\<close>

definition indexesFrom :: "jsnum \<Rightarrow> nat \<Rightarrow> jsnum list" where
  "indexesFrom b n = map (\<lambda>i. b + Num (int i)) [0..<n]"

abbreviation indexes :: "nat \<Rightarrow> jsnum list" where
  "indexes n \<equiv> map (\<lambda>i. Num (int i)) [0..<n]"

lemma length_indexesFrom [simp]: "length (indexesFrom b n) = n"
  by (simp add: indexesFrom_def)

lemma indexesFrom_Num: "indexesFrom (Num (int k)) n = map (\<lambda>i. Num (int i)) [k..<k + n]"
proof -
  have "[k..<k + n] = map (\<lambda>i. i + k) [0..<n]"
    by (simp add: map_add_upt add.commute)
  then show ?thesis by (simp add: indexesFrom_def o_def add.commute)
qed

section \<open>Objects used as maps\<close>

text \<open>
  An object from strings to values is an association list in insertion order: assigning to a
  present key keeps its place, a new key goes to the end (\<open>AList.update\<close>), the keys are
  \<open>map fst\<close> and the values \<open>map snd\<close>.
\<close>

type_synonym 'v obj = "(string \<times> 'v) list"

abbreviation obj_keys :: "'v obj \<Rightarrow> string list" where
  "obj_keys m \<equiv> map fst m"

abbreviation obj_values :: "'v obj \<Rightarrow> 'v list" where
  "obj_values m \<equiv> map snd m"

lemma list_all_update: "list_all P m \<Longrightarrow> P (k, v) \<Longrightarrow> list_all P (AList.update k v m)"
  by (induction m) auto

lemma list_all_delete: "list_all P m \<Longrightarrow> list_all P (AList.delete k m)"
  by (simp add: list_all_iff AList.delete_eq)

lemma obj_keys_update: "set (obj_keys (AList.update k v m)) = insert k (set (obj_keys m))"
  by (induction m) auto

lemma obj_update_elem: "p \<in> set (AList.update k v m) \<Longrightarrow> p = (k, v) \<or> p \<in> set m"
  by (induction m) (auto split: if_splits)

lemma obj_lookup_some: "k \<in> set (obj_keys m) \<Longrightarrow> \<exists>v. map_of m k = Some v"
  by (induction m) auto

lemma map_of_filter_key: "map_of (filter (\<lambda>p. Q (fst p)) m) k = (if Q k then map_of m k else None)"
  by (induction m) auto

section \<open>Truthiness and defaults\<close>

text \<open>A string property that may be undefined or null is truthy when it is a non-empty string.\<close>

definition truthy :: "string option \<Rightarrow> bool" where
  "truthy x = (x \<noteq> None \<and> x \<noteq> Some '''')"

text \<open>The operator \<open>a ?? b\<close>.\<close>

definition nullish_or :: "'a option \<Rightarrow> 'a \<Rightarrow> 'a" where
  "nullish_or a b = (case a of None \<Rightarrow> b | Some x \<Rightarrow> x)"

lemma truthy_simps [simp, js_simps]: "\<not> truthy None" "truthy (Some x) \<longleftrightarrow> x \<noteq> ''''"
  by (simp_all add: truthy_def)

lemma nullish_or_simps [simp, js_simps]: "nullish_or None b = b" "nullish_or (Some a) b = a"
  by (simp_all add: nullish_or_def)

section \<open>Components driven by operations\<close>

text \<open>
  A component is a state and a function that performs one operation on it. An invariant that every
  operation keeps holds after every sequence of operations; a measure that no operation decreases
  does not decrease along a sequence.
\<close>

locale driven_component =
  fixes step :: "'op \<Rightarrow> 's \<Rightarrow> 's"
    and inv :: "'s \<Rightarrow> bool"
  assumes step_inv: "inv s \<Longrightarrow> inv (step a s)"
begin

lemma run_inv: "inv s \<Longrightarrow> inv (fold step ops s)"
  by (induction ops arbitrary: s) (auto intro: step_inv)

lemma prefix_inv: "inv s \<Longrightarrow> inv (fold step (take n ops) s)"
  by (rule run_inv)

end

locale versioned_component = driven_component step inv
  for step :: "'op \<Rightarrow> 's \<Rightarrow> 's" and inv :: "'s \<Rightarrow> bool" +
  fixes version_of :: "'s \<Rightarrow> nat"
  assumes version_step: "version_of s \<le> version_of (step a s)"
begin

lemma version_run: "version_of s \<le> version_of (fold step ops s)"
proof (induction ops arbitrary: s)
  case (Cons a ops)
  have "version_of s \<le> version_of (step a s)" by (rule version_step)
  also have "\<dots> \<le> version_of (fold step ops (step a s))" by (rule Cons.IH)
  finally show ?case by simp
qed simp

end

end
