(* ===== verification/Shuffle.thy ===== *)
theory Shuffle
  imports Prelude "HOL-Library.Word"
begin

text \<open>
  The shuffle of \<^verbatim>\<open>utils/shuffle.ts\<close>: the Fisher-Yates loop from the last element to the first.
  \<^verbatim>\<open>Math.random()\<close> is an argument: the stream of the 53-bit fractions that the calls return, so that
  a value \<open>w\<close> stands for the number \<open>w / 2^53\<close> in [0, 1). The interface \<open>permuter\<close> is what the
  player store relies on: the result is a rearrangement of the argument.
\<close>

type_synonym draws = "nat \<Rightarrow> 53 word"

definition draws_rest :: "draws \<Rightarrow> draws" where
  "draws_rest r = (\<lambda>n. r (Suc n))"

text \<open>\<^verbatim>\<open>Math.floor(Math.random() * n)\<close> for the next draw.\<close>

definition random_below :: "nat \<Rightarrow> draws \<Rightarrow> nat" where
  "random_below n r = unat (r 0) * n div 2 ^ 53"

definition swap_at :: "nat \<Rightarrow> nat \<Rightarrow> 'a list \<Rightarrow> 'a list" where
  "swap_at i j xs = xs[i := xs ! j, j := xs ! i]"

text \<open>The loop with its counter: \<open>for (let i = n; i > 0; i--)\<close>.\<close>

primrec shuffleLoop :: "nat \<Rightarrow> 'a list \<Rightarrow> draws \<Rightarrow> 'a list \<times> draws" where
  "shuffleLoop 0 xs r = (xs, r)"
| "shuffleLoop (Suc n) xs r =
     (let i = Suc n; j = random_below (i + 1) r
      in shuffleLoop n (swap_at i j xs) (draws_rest r))"

definition shuffleInPlace :: "'a list \<Rightarrow> draws \<Rightarrow> 'a list \<times> draws" where
  "shuffleInPlace xs r = shuffleLoop (length xs - 1) xs r"

text \<open>
  The exported \<^verbatim>\<open>shuffle\<close> copies its argument and runs the same loop on the copy.
\<close>

definition shuffle :: "'a list \<Rightarrow> draws \<Rightarrow> 'a list \<times> draws" where
  "shuffle array r = (let shuffled = array in shuffleLoop (length shuffled - 1) shuffled r)"

lemma shuffle_eq: "shuffle xs r = shuffleInPlace xs r"
  by (simp add: shuffle_def shuffleInPlace_def)

section \<open>The result is a permutation\<close>

lemma random_below_less: "0 < n \<Longrightarrow> random_below n r < n"
proof -
  assume n: "0 < n"
  have "unat (r 0) < 2 ^ 53" using unsigned_less [of "r 0"] by simp
  then have "unat (r 0) * n < 2 ^ 53 * n" using n by (simp add: mult_less_mono1)
  then show ?thesis by (simp add: random_below_def less_mult_imp_div_less mult.commute)
qed

lemma length_swap_at [simp]: "length (swap_at i j xs) = length xs"
  by (simp add: swap_at_def)

lemma mset_swap_at: "i < length xs \<Longrightarrow> j < length xs \<Longrightarrow> mset (swap_at i j xs) = mset xs"
  by (cases "i = j") (simp_all add: swap_at_def mset_swap)

lemma nth_swap_at:
  "i < length xs \<Longrightarrow> j < length xs \<Longrightarrow>
     swap_at i j xs ! k = (if k = j then xs ! i else if k = i then xs ! j else xs ! k)"
  by (auto simp: swap_at_def nth_list_update)

lemma mset_shuffleLoop: "n < length xs \<or> n = 0 \<Longrightarrow> mset (fst (shuffleLoop n xs r)) = mset xs"
proof (induction n arbitrary: xs r)
  case (Suc n)
  let ?j = "random_below (Suc (Suc n)) r"
  have "?j < length xs" using random_below_less [of "Suc (Suc n)" r] Suc.prems by simp
  then show ?case using Suc by (simp add: Let_def mset_swap_at)
qed simp

lemma mset_shuffleInPlace: "mset (fst (shuffleInPlace xs r)) = mset xs"
  unfolding shuffleInPlace_def by (rule mset_shuffleLoop) (cases xs; simp)

locale permuter =
  fixes sh :: "'a list \<Rightarrow> 'r \<Rightarrow> 'a list \<times> 'r"
  assumes sh_mset: "mset (fst (sh xs r)) = mset xs"
begin

lemma sh_set [simp]: "set (fst (sh xs r)) = set xs"
  by (rule mset_eq_setD [OF sh_mset])

lemma sh_length [simp]: "length (fst (sh xs r)) = length xs"
  by (rule mset_eq_length [OF sh_mset])

lemma sh_distinct [simp]: "distinct (fst (sh xs r)) = distinct xs"
  by (rule mset_eq_imp_distinct_iff [OF sh_mset])

lemma sh_map_mset: "mset (map f (fst (sh xs r))) = mset (map f xs)"
  by (simp add: sh_mset)

lemma sh_Nil [simp]: "fst (sh [] r) = []"
  by (metis length_0_conv list.size(3) sh_length)

lemma sh_single [simp]: "fst (sh [x] r) = [x]"
  using sh_mset [of "[x]" r] by simp

lemma sh_eq_set: "sh xs r = (ys, r') \<Longrightarrow> set ys = set xs"
  using sh_set [of xs r] by simp

lemma sh_eq_mset: "sh xs r = (ys, r') \<Longrightarrow> mset ys = mset xs"
  using sh_mset [of xs r] by simp

end

interpretation shuf: permuter shuffleInPlace
  by unfold_locales (rule mset_shuffleInPlace)

interpretation shuf_copy: permuter shuffle
  by unfold_locales (simp add: shuffle_eq mset_shuffleInPlace)

section \<open>Every permutation can occur\<close>

text \<open>A draw that makes the loop pick a given index.\<close>

lemma random_below_hits:
  assumes j: "j < n" and n: "n \<le> 2 ^ 53"
  shows "\<exists>w :: 53 word. unat w * n div 2 ^ 53 = j"
proof -
  define k where "k = (j * 2 ^ 53 + n - 1) div n"
  have n0: "0 < n" using j by simp
  have lo: "j * 2 ^ 53 \<le> k * n"
  proof -
    have "j * 2 ^ 53 + n - 1 < (k + 1) * n"
      unfolding k_def using n0 by (metis Suc_eq_plus1 dividend_less_div_times mult.commute mult_Suc add.commute)
    then show ?thesis using n0 by (simp add: algebra_simps)
  qed
  have hi: "k * n \<le> j * 2 ^ 53 + n - 1"
    unfolding k_def by (rule div_times_less_eq_dividend)
  have up: "k * n < (j + 1) * 2 ^ 53" using hi n n0 by simp
  have "(j + 1) * 2 ^ 53 \<le> n * 2 ^ 53" using j by (intro mult_le_mono1) simp
  with up have "k * n < n * 2 ^ 53" by (rule less_le_trans)
  then have k: "k < 2 ^ 53" by (simp add: mult.commute)
  then have u: "unat (of_nat k :: 53 word) = k" by (simp add: unat_of_nat)
  have "k * n div 2 ^ 53 = j"
    using lo up by (intro div_nat_eqI) (simp_all add: algebra_simps)
  with u show ?thesis by metis
qed

lemma shuffleLoop_above: "n < k \<Longrightarrow> fst (shuffleLoop n xs r) ! k = xs ! k"
proof (induction n arbitrary: xs r)
  case (Suc n)
  have "random_below (Suc (Suc n)) r < Suc (Suc n)" by (rule random_below_less) simp
  with Suc show ?case by (simp add: Let_def swap_at_def nth_list_update)
qed simp

lemma take_swap_at_mset:
  assumes i: "Suc n < length xs" and j: "j \<le> Suc n" and y: "xs ! j = y"
  shows "mset (take (Suc n) (swap_at (Suc n) j xs)) = mset (take (Suc (Suc n)) xs) - {#y#}"
proof -
  let ?zs = "swap_at (Suc n) j xs"
  have "mset (take (Suc (Suc n)) ?zs) = mset (take (Suc (Suc n)) xs)"
  proof -
    have "take (Suc (Suc n)) ?zs = swap_at (Suc n) j (take (Suc (Suc n)) xs)"
      using i j by (simp add: swap_at_def take_update_swap)
    then show ?thesis using i j by (simp add: mset_swap_at)
  qed
  moreover have "take (Suc (Suc n)) ?zs = take (Suc n) ?zs @ [y]"
    using i j y by (simp add: take_Suc_conv_app_nth nth_swap_at)
  ultimately have "mset (take (Suc (Suc n)) xs) = mset (take (Suc n) ?zs) + {#y#}" by simp
  then show ?thesis by simp
qed

lemma drop_swap_at:
  "Suc n < length xs \<Longrightarrow> j \<le> Suc n \<Longrightarrow>
     drop (Suc n) (swap_at (Suc n) j xs) = xs ! j # drop (Suc (Suc n)) xs"
proof -
  assume a: "Suc n < length xs" "j \<le> Suc n"
  let ?zs = "swap_at (Suc n) j xs"
  have "drop (Suc n) ?zs = ?zs ! Suc n # drop (Suc (Suc n)) ?zs"
    using a by (intro Cons_nth_drop_Suc [symmetric]) simp
  moreover have "?zs ! Suc n = xs ! j" using a by (simp add: nth_swap_at)
  moreover have "drop (Suc (Suc n)) ?zs = drop (Suc (Suc n)) xs" using a by (simp add: swap_at_def)
  ultimately show ?thesis by simp
qed

lemma shuffleLoop_complete:
  assumes "n < length xs" and "length xs \<le> 2 ^ 53" and "length ys = length xs"
    and "mset (take (Suc n) ys) = mset (take (Suc n) xs)" and "drop (Suc n) ys = drop (Suc n) xs"
  shows "\<exists>r. fst (shuffleLoop n xs r) = ys"
  using assms
proof (induction n arbitrary: xs)
  case 0
  then have "take 1 ys = take 1 xs" by (cases xs; cases ys) auto
  with 0 have "ys = xs" by (metis One_nat_def append_take_drop_id)
  then show ?case by simp
next
  case (Suc n)
  let ?y = "ys ! Suc n"
  have "?y \<in> set (take (Suc (Suc n)) ys)"
    using Suc.prems by (auto simp: in_set_conv_nth intro!: exI [of _ "Suc n"])
  then have "?y \<in> set (take (Suc (Suc n)) xs)" using mset_eq_setD [OF Suc.prems(4)] by simp
  then obtain j where j: "j \<le> Suc n" "xs ! j = ?y" by (auto simp: in_set_conv_nth less_Suc_eq_le)
  let ?zs = "swap_at (Suc n) j xs"
  have "take (Suc (Suc n)) ys = take (Suc n) ys @ [?y]"
    using Suc.prems by (intro take_Suc_conv_app_nth) simp
  then have "mset (take (Suc (Suc n)) ys) = mset (take (Suc n) ys) + {#?y#}" by simp
  then have "mset (take (Suc n) ys) = mset (take (Suc (Suc n)) xs) - {#?y#}"
    using Suc.prems(4) by (metis add_diff_cancel_right')
  also have "\<dots> = mset (take (Suc n) ?zs)"
    using take_swap_at_mset [of n xs j ?y] j Suc.prems by simp
  finally have m: "mset (take (Suc n) ys) = mset (take (Suc n) ?zs)" .
  have d: "drop (Suc n) ys = drop (Suc n) ?zs"
    using drop_swap_at [of n xs j] j Suc.prems by (simp add: Cons_nth_drop_Suc [symmetric])
  obtain r where r: "fst (shuffleLoop n ?zs r) = ys"
    using Suc.IH [of ?zs] Suc.prems m d by auto
  obtain w :: "53 word" where w: "unat w * Suc (Suc n) div 2 ^ 53 = j"
    using random_below_hits [of j "Suc (Suc n)"] j Suc.prems by auto
  let ?r = "\<lambda>k. case k of 0 \<Rightarrow> w | Suc m \<Rightarrow> r m"
  have "random_below (Suc (Suc n)) ?r = j" "draws_rest ?r = r"
    using w by (simp_all add: random_below_def draws_rest_def)
  with r have "fst (shuffleLoop (Suc n) xs ?r) = ys" by (simp add: Let_def)
  then show ?case by blast
qed

lemma shuffleInPlace_complete:
  assumes "length xs \<le> 2 ^ 53" and "mset ys = mset xs"
  shows "\<exists>r. fst (shuffleInPlace xs r) = ys"
proof (cases "xs = []")
  case True
  with assms show ?thesis by (simp add: shuffleInPlace_def)
next
  case False
  have "length ys = length xs" using assms(2) by (rule mset_eq_length)
  with False assms show ?thesis
    unfolding shuffleInPlace_def by (intro shuffleLoop_complete) auto
qed

end
