(* ===== verification/PlayerTypes.thy ===== *)
theory PlayerTypes
  imports Shuffle
begin

text \<open>
  The data of the player: the enumerations of \<^verbatim>\<open>shared/types/types.ts\<close>, the song types of
  \<^verbatim>\<open>shared/types/domain-types.ts\<close>, the state of \<^verbatim>\<open>store/player.store.ts\<close>, and the world that its
  actions change: the timestamp store, the radio store, the events that are emitted, and the streams
  that \<^verbatim>\<open>nanoid\<close> and \<^verbatim>\<open>Math.random\<close> take their results from.
\<close>

section \<open>Enumerations\<close>

datatype CrossfadeStyle = CONSTANT_POWER | CONSTANT_POWER_SLOW_CUT | CONSTANT_POWER_SLOW_FADE
  | DIPPED | EQUAL_POWER | EXPONENTIAL | LINEAR | S_CURVE

datatype Play = Play_INDEX | Play_LAST | Play_LAST_SHUFFLE | Play_NEXT | Play_NEXT_SHUFFLE
  | Play_NOW | Play_SHUFFLE

datatype PlayerRepeat = Repeat_ALL | Repeat_NONE | Repeat_ONE

datatype PlayerShuffle = Shuffle_ALBUM | Shuffle_NONE | Shuffle_TRACK

datatype PlayerStatus = PAUSED | PLAYING

datatype PlayerStyle = CROSSFADE | GAPLESS

datatype PlayerType = LOCAL | WEB

datatype ServerType = JELLYFIN | NAVIDROME | SUBSONIC

datatype LibraryItem = ALBUM | ALBUM_ARTIST | ARTIST | FOLDER | GENRE | PLAYLIST | PLAYLIST_SONG
  | QUEUE_SONG | RADIO_STATION | SONG

datatype player_num = One | Two

section \<open>Songs\<close>

text \<open>
  The fields of a song that the modelled code reads or writes; \<open>s_rest\<close> stands for the others,
  which it only copies. A song object can carry a context playlist id before it is queued, so the
  optional property sits on the song. Durations are milliseconds. Of the artists and genres of a song
  the code reads the ids and names.
\<close>

record related =
  rel_id :: string
  rel_name :: string

record song =
  s_id :: string
  s_name :: string
  s_albumId :: string
  s_serverId :: string
  s_serverType :: ServerType
  s_itemType :: LibraryItem
  s_duration :: rat
  s_userFavorite :: bool
  s_userRating :: "rat option"
  s_playCount :: int
  s_contextPlaylistId :: "string option"
  s_albumArtists :: "related list"
  s_artistName :: string
  s_artists :: "related list"
  s_comment :: "string option"
  s_discNumber :: int
  s_genres :: "related list"
  s_path :: "string option"
  s_playlistItemId :: "string option"
  s_releaseYear :: "int option"
  s_trackNumber :: int
  s_rest :: string

record queue_song = song +
  uniqueId :: string

text \<open>\<open>{ ...item, _uniqueId: nanoid() }\<close>, with the id that the generator returned.\<close>

definition toQueueSong :: "string \<Rightarrow> song \<Rightarrow> queue_song" where
  "toQueueSong nid item = song.extend item (queue_song.fields nid)"

lemma toQueueSong_simps [simp]:
  "uniqueId (toQueueSong nid item) = nid"
  "s_id (toQueueSong nid item) = s_id item"
  "s_duration (toQueueSong nid item) = s_duration item"
  "song.truncate (toQueueSong nid item) = item"
  "s_serverId (toQueueSong nid item) = s_serverId item"
  "s_serverType (toQueueSong nid item) = s_serverType item"
  "s_itemType (toQueueSong nid item) = s_itemType item"
  by (cases item; simp add: toQueueSong_def song.defs queue_song.defs)+

text \<open>
  \<open>nanoid()\<close> is a stream of strings; \<open>items.map(toQueueSong)\<close> takes one per item.
\<close>

type_synonym id_stream = "nat \<Rightarrow> string"

definition ids_rest :: "id_stream \<Rightarrow> id_stream" where
  "ids_rest g = (\<lambda>n. g (Suc n))"

primrec toQueueSongs :: "song list \<Rightarrow> id_stream \<Rightarrow> queue_song list \<times> id_stream" where
  "toQueueSongs [] g = ([], g)"
| "toQueueSongs (item # items) g =
     (let (rest, g') = toQueueSongs items (ids_rest g) in (toQueueSong (g 0) item # rest, g'))"

section \<open>The state of the player store\<close>

text \<open>
  \<open>seekToTimestamp\<close> is the template string \<open>`${timestamp}-${nanoid()}`\<close>, kept as its two parts.
\<close>

record player =
  p_crossfadeDuration :: rat
  p_crossfadeStyle :: CrossfadeStyle
  p_index :: jsnum
  p_muted :: bool
  p_pauseOnNextSongEnd :: bool
  p_playerNum :: player_num
  p_repeat :: PlayerRepeat
  p_seekToTimestamp :: "rat \<times> string"
  p_shuffle :: PlayerShuffle
  p_speed :: rat
  p_status :: PlayerStatus
  p_transitionType :: PlayerStyle
  p_volume :: rat

record queue_data =
  q_default :: "string list"
  q_shuffled :: "jsnum list"
  q_songs :: "queue_song obj"

record store =
  hydrated :: bool
  player :: player
  queue :: queue_data

text \<open>
  Writes to a slice of the draft: \<open>state.player.index = i\<close> and the like.
\<close>

abbreviation set_index :: "jsnum \<Rightarrow> store \<Rightarrow> store" where
  "set_index i s \<equiv> s\<lparr>player := (player s)\<lparr>p_index := i\<rparr>\<rparr>"

abbreviation set_status :: "PlayerStatus \<Rightarrow> store \<Rightarrow> store" where
  "set_status x s \<equiv> s\<lparr>player := (player s)\<lparr>p_status := x\<rparr>\<rparr>"

abbreviation set_playerNum :: "player_num \<Rightarrow> store \<Rightarrow> store" where
  "set_playerNum x s \<equiv> s\<lparr>player := (player s)\<lparr>p_playerNum := x\<rparr>\<rparr>"

abbreviation set_default :: "string list \<Rightarrow> store \<Rightarrow> store" where
  "set_default x s \<equiv> s\<lparr>queue := (queue s)\<lparr>q_default := x\<rparr>\<rparr>"

abbreviation set_shuffled :: "jsnum list \<Rightarrow> store \<Rightarrow> store" where
  "set_shuffled x s \<equiv> s\<lparr>queue := (queue s)\<lparr>q_shuffled := x\<rparr>\<rparr>"

abbreviation set_songs :: "queue_song obj \<Rightarrow> store \<Rightarrow> store" where
  "set_songs x s \<equiv> s\<lparr>queue := (queue s)\<lparr>q_songs := x\<rparr>\<rparr>"

section \<open>The world of the actions\<close>

record radio_state =
  r_stationArt :: "string option"
  r_streamUrl :: "string option"
  r_isPlaying :: bool
  r_metadata :: "(string option \<times> string option) option"
  r_stationName :: "string option"

text \<open>The events of the player and the calls of the mpv bridge, in the order they are made.\<close>

datatype effect =
    PLAYER_PLAY string jsnum
  | PLAYER_REPEATED jsnum
  | MEDIA_NEXT jsnum jsnum
  | MEDIA_PREV jsnum jsnum
  | QUEUE_RESTORED "song list" jsnum rat
  | MPV_PAUSE
  | AUTODJ_QUEUE_ADDED nat

record world =
  w_store :: store
  w_timestamp :: rat
  w_radio :: radio_state
  w_skipForwardSeconds :: "rat option"
  w_skipBackwardSeconds :: "rat option"
  w_playbackType :: PlayerType
  w_hasMpv :: bool
  w_effects :: "effect list"
  w_ids :: id_stream
  w_draws :: draws

text \<open>\<^verbatim>\<open>setTimestamp\<close> of the timestamp store, and one call of \<^verbatim>\<open>nanoid\<close> for a seek stamp.\<close>

definition setTimestampStore :: "rat \<Rightarrow> world \<Rightarrow> world" where
  "setTimestampStore t w = w\<lparr>w_timestamp := t\<rparr>"

definition emit :: "effect \<Rightarrow> world \<Rightarrow> world" where
  "emit e w = w\<lparr>w_effects := w_effects w @ [e]\<rparr>"

abbreviation set_store :: "store \<Rightarrow> world \<Rightarrow> world" where
  "set_store s w \<equiv> w\<lparr>w_store := s\<rparr>"

definition seekTo :: "rat \<Rightarrow> world \<Rightarrow> world" where
  "seekTo t w =
     w\<lparr>w_store := (w_store w)\<lparr>player := (player (w_store w))\<lparr>p_seekToTimestamp := (t, w_ids w 0)\<rparr>\<rparr>,
       w_ids := ids_rest (w_ids w)\<rparr>"

text \<open>
  \<open>Number(timestamp.split('-')[0])\<close>: what precedes the first dash. For a negative timestamp that is
  the empty string, whose number is 0. (The decimal notation of the code's timestamps has no
  exponent, so no other dash can precede the id.)
\<close>

definition parseUniqueSeekToTimestamp :: "rat \<times> string \<Rightarrow> rat" where
  "parseUniqueSeekToTimestamp stamp = (if fst stamp < 0 then 0 else fst stamp)"

definition initialState :: "string \<Rightarrow> store" where
  "initialState nid =
     \<lparr>hydrated = False,
      player = \<lparr>p_crossfadeDuration = 5, p_crossfadeStyle = EQUAL_POWER, p_index = Num (-1),
        p_muted = False, p_pauseOnNextSongEnd = False, p_playerNum = One, p_repeat = Repeat_NONE,
        p_seekToTimestamp = (0, nid), p_shuffle = Shuffle_NONE, p_speed = 1, p_status = PAUSED,
        p_transitionType = GAPLESS, p_volume = 30\<rparr>,
      queue = \<lparr>q_default = [], q_shuffled = [], q_songs = []\<rparr>\<rparr>"

lemma length_toQueueSongs [simp]: "length (fst (toQueueSongs items g)) = length items"
  by (induction items arbitrary: g) (auto simp: split_beta)

lemma toQueueSongs_ids:
  "map uniqueId (fst (toQueueSongs items g)) = map g [0..<length items]"
proof (induction items arbitrary: g)
  case (Cons a items)
  have "map (\<lambda>n. g (Suc n)) [0..<length items] = map g [1..<Suc (length items)]"
    by (simp add: map_Suc_upt [symmetric] del: upt_Suc)
  with Cons show ?case
    by (simp add: split_beta ids_rest_def upt_conv_Cons del: upt_Suc)
qed simp

lemma toQueueSongs_stream: "snd (toQueueSongs items g) = (\<lambda>n. g (length items + n))"
  by (induction items arbitrary: g) (auto simp: split_beta ids_rest_def)

text \<open>A song for the examples.\<close>

definition exampleSong :: "string \<Rightarrow> song" where
  "exampleSong k = \<lparr>s_id = k, s_name = k, s_albumId = ''album'', s_serverId = ''server'',
     s_serverType = NAVIDROME, s_itemType = SONG, s_duration = 180000, s_userFavorite = False,
     s_userRating = None, s_playCount = 0, s_contextPlaylistId = None,
     s_albumArtists = [], s_artistName = ''artist'', s_artists = [], s_comment = None, s_discNumber = 1,
     s_genres = [], s_path = None, s_playlistItemId = None, s_releaseYear = None, s_trackNumber = 1,
     s_rest = ''''\<rparr>"

lemma exampleSong_fields [simp]:
  "s_id (exampleSong k) = k" "s_serverType (exampleSong k) = NAVIDROME"
  "s_itemType (exampleSong k) = SONG" "s_duration (exampleSong k) = 180000"
  by (simp_all add: exampleSong_def)

end
