(* ===== verification/PlayerQueries.thy ===== *)
theory PlayerQueries
  imports PlayerTypes
begin

text \<open>
  The reading side of \<^verbatim>\<open>store/player.store.ts\<close>: the queue in display order, the current song, the
  previous and next song in playback order, the two web players, and the grouped queue. An index of
  the player is a position of \<open>queue.shuffled\<close> while shuffle is enabled, and of the queue itself
  otherwise.
\<close>

section \<open>Helpers\<close>

definition calculateNextSong :: "jsnum \<Rightarrow> queue_song list \<Rightarrow> PlayerRepeat \<Rightarrow> queue_song option" where
  "calculateNextSong currentIndex queueItems rep =
     (if length queueItems = 0 then None
      else if rep = Repeat_ONE then js_nth queueItems currentIndex
      else if rep = Repeat_ALL then
        (let isLastTrack = js_eq currentIndex (Num (int (length queueItems)) - Num 1)
         in if isLastTrack then js_nth queueItems (Num 0)
            else js_nth queueItems (currentIndex + Num 1))
      else js_nth queueItems (currentIndex + Num 1))"

definition getDualPlayerSongs ::
    "player_num \<Rightarrow> queue_song option \<Rightarrow> queue_song option \<Rightarrow> PlayerRepeat
      \<Rightarrow> queue_song option \<times> queue_song option" where
  "getDualPlayerSongs playerNum currentSong nextSong rep =
     (if rep = Repeat_ONE then
        (if playerNum = One then currentSong else None,
         if playerNum = Two then currentSong else None)
      else
        (if playerNum = One then currentSong else nextSong,
         if playerNum = Two then currentSong else nextSong))"

definition isShuffleEnabled :: "store \<Rightarrow> bool" where
  "isShuffleEnabled s =
     (p_shuffle (player s) = Shuffle_TRACK \<and> length (q_shuffled (queue s)) > 0)"

text \<open>
  An element of \<open>shuffled\<close> is a number; the result is the position itself when it is out of range.
\<close>

definition mapShuffledToQueueIndex :: "jsnum \<Rightarrow> jsnum list \<Rightarrow> jsnum" where
  "mapShuffledToQueueIndex shuffledIndex shuffled =
     (case js_nth shuffled shuffledIndex of Some i \<Rightarrow> i | None \<Rightarrow> shuffledIndex)"

definition calculateNextIndex :: "jsnum \<Rightarrow> nat \<Rightarrow> PlayerRepeat \<Rightarrow> jsnum \<times> bool" where
  "calculateNextIndex currentIndex queueLength rep =
     (let isLastTrack = js_eq currentIndex (Num (int queueLength) - Num 1)
      in if rep = Repeat_ONE then (currentIndex, False)
         else if rep = Repeat_ALL then
           (if isLastTrack then (Num 0, False) else (currentIndex + Num 1, False))
         else (if isLastTrack then (currentIndex, True) else (currentIndex + Num 1, False)))"

text \<open>\<open>shuffled.findIndex((idx) => idx === queueIndex)\<close>, undefined when there is none.\<close>

definition shuffledPosition :: "jsnum \<Rightarrow> jsnum list \<Rightarrow> int" where
  "shuffledPosition queueIndex shuffled = findIndex (\<lambda>idx. js_eq idx queueIndex) shuffled"

definition findShuffledPositionForQueueIndex :: "jsnum \<Rightarrow> jsnum list \<Rightarrow> jsnum option" where
  "findShuffledPositionForQueueIndex queueIndex shuffled =
     (let p = shuffledPosition queueIndex shuffled in if p \<noteq> -1 then Some (Num p) else None)"

section \<open>The queue and the current song\<close>

text \<open>
  \<open>getQueueOrder\<close>: the songs of the ids of \<open>queue.default\<close>, in order; an id without a song is left
  out. The result carries the one group \<open>All\<close>.
\<close>

definition queueItems :: "store \<Rightarrow> queue_song list" where
  "queueItems s = List.map_filter (map_of (q_songs (queue s))) (q_default (queue s))"

definition getQueueOrder :: "store \<Rightarrow> (nat \<times> string) list \<times> queue_song list" where
  "getQueueOrder s =
     (let defaultQueue = queueItems s in ([(length defaultQueue, ''All'')], defaultQueue))"

text \<open>
  \<open>getQueue(groupBy)\<close>: the group of an item is \<open>String(item[groupBy] || 'Unknown')\<close>, given here as
  the function \<open>groupValue\<close>. The state of the loop is the groups, latest last, and the seen names.
\<close>

fun addToGroups ::
    "string \<Rightarrow> (nat \<times> string) list \<times> string list \<Rightarrow> (nat \<times> string) list \<times> string list" where
  "addToGroups groupValue (groups, seenGroups) =
     (if groupValue \<notin> set seenGroups then
        (groups @ [(1, groupValue)], groupValue # seenGroups)
      else
        (let lastIndex = findIndex (\<lambda>g. snd g = groupValue) (rev groups)
         in if lastIndex = -1 then (groups, seenGroups)
            else if snd (last groups) \<noteq> groupValue then
              (groups @ [(1, groupValue)], seenGroups)
            else (butlast groups @ [(Suc (fst (last groups)), groupValue)], seenGroups)))"

definition getQueue ::
    "(queue_song \<Rightarrow> string) option \<Rightarrow> store \<Rightarrow> (nat \<times> string) list \<times> queue_song list" where
  "getQueue groupBy s =
     (case groupBy of
        None \<Rightarrow> getQueueOrder s
      | Some groupValue \<Rightarrow>
          (let items = snd (getQueueOrder s);
               st = foldl (\<lambda>gs item. addToGroups (groupValue item) gs) ([], []) items
           in (fst st, items)))"

definition getCurrentSong :: "store \<Rightarrow> queue_song option" where
  "getCurrentSong s =
     (let items = snd (getQueue None s);
          index = p_index (player s);
          index = (if isShuffleEnabled s
                   then mapShuffledToQueueIndex index (q_shuffled (queue s)) else index)
      in js_nth items index)"

definition isFirstTrackInQueue :: "store \<Rightarrow> bool" where
  "isFirstTrackInQueue s = js_eq (p_index (player s)) (Num 0)"

definition isLastTrackInQueue :: "store \<Rightarrow> bool" where
  "isLastTrackInQueue s =
     (let items = snd (getQueueOrder s)
      in js_eq (p_index (player s)) (Num (int (length items)) - Num 1))"

section \<open>What is played before and after\<close>

text \<open>
  The shuffle-aware previous and next song of a playback position, as \<open>getPlayerData\<close>,
  \<open>usePlayerData\<close>, \<open>mediaAutoNext\<close> and \<open>subscribeNextSongInsertion\<close> compute them: \<open>isShuffle\<close> and
  the shuffled array are arguments.
\<close>

definition songAtShuffled :: "queue_song list \<Rightarrow> jsnum list \<Rightarrow> jsnum \<Rightarrow> queue_song option" where
  "songAtShuffled items shuffled pos =
     (case js_nth shuffled pos of None \<Rightarrow> None | Some i \<Rightarrow> js_nth items i)"

definition previousSongAt ::
    "bool \<Rightarrow> queue_song list \<Rightarrow> jsnum list \<Rightarrow> PlayerRepeat \<Rightarrow> jsnum \<Rightarrow> jsnum \<Rightarrow> queue_song option" where
  "previousSongAt isShuffle items shuffled rep index queueIndex =
     (if isShuffle then
        (let previousShuffledIndex = index - Num 1
         in if Num 0 \<le> previousShuffledIndex then songAtShuffled items shuffled previousShuffledIndex
            else if rep = Repeat_ALL then
              songAtShuffled items shuffled (Num (int (length shuffled)) - Num 1)
            else None)
      else if Num 0 < queueIndex then js_nth items (queueIndex - Num 1) else None)"

definition nextSongAt ::
    "bool \<Rightarrow> queue_song list \<Rightarrow> jsnum list \<Rightarrow> PlayerRepeat \<Rightarrow> jsnum \<Rightarrow> jsnum \<Rightarrow> queue_song option" where
  "nextSongAt isShuffle items shuffled rep index queueIndex =
     (if isShuffle \<and> rep \<noteq> Repeat_ONE then
        (let nextShuffledIndex = index + Num 1
         in if nextShuffledIndex < Num (int (length shuffled))
            then songAtShuffled items shuffled nextShuffledIndex
            else if rep = Repeat_ALL then songAtShuffled items shuffled (Num 0)
            else None)
      else calculateNextSong queueIndex items rep)"

record player_data =
  d_currentSong :: "queue_song option"
  d_index :: jsnum
  d_nextSong :: "queue_song option"
  d_num :: player_num
  d_player1 :: "queue_song option"
  d_player2 :: "queue_song option"
  d_previousSong :: "queue_song option"
  d_queueLength :: nat
  d_status :: PlayerStatus

definition getPlayerData :: "store \<Rightarrow> player_data" where
  "getPlayerData s =
     (let items = snd (getQueue None s);
          index = p_index (player s);
          shuffled = q_shuffled (queue s);
          queueIndex = (if isShuffleEnabled s then mapShuffledToQueueIndex index shuffled else index);
          currentSong = js_nth items queueIndex;
          rep = p_repeat (player s);
          previousSong = previousSongAt (isShuffleEnabled s) items shuffled rep index queueIndex;
          nextSong = nextSongAt (isShuffleEnabled s) items shuffled rep index queueIndex;
          (player1, player2) = getDualPlayerSongs (p_playerNum (player s)) currentSong nextSong rep
      in \<lparr>d_currentSong = currentSong, d_index = queueIndex, d_nextSong = nextSong,
          d_num = p_playerNum (player s), d_player1 = player1, d_player2 = player2,
          d_previousSong = previousSong, d_queueLength = length (q_default (queue s)),
          d_status = p_status (player s)\<rparr>)"

section \<open>Selectors and subscriptions\<close>

text \<open>The hook \<open>usePlayerData\<close> repeats the body of \<open>getPlayerData\<close> as a selector.\<close>

definition usePlayerData :: "store \<Rightarrow> player_data" where
  "usePlayerData s =
     (let items = snd (getQueue None s);
          index = p_index (player s);
          shuffled = q_shuffled (queue s);
          queueIndex = (if isShuffleEnabled s then mapShuffledToQueueIndex index shuffled else index);
          currentSong = js_nth items queueIndex;
          rep = p_repeat (player s);
          previousSong = previousSongAt (isShuffleEnabled s) items shuffled rep index queueIndex;
          nextSong = nextSongAt (isShuffleEnabled s) items shuffled rep index queueIndex;
          (player1, player2) = getDualPlayerSongs (p_playerNum (player s)) currentSong nextSong rep
      in \<lparr>d_currentSong = currentSong, d_index = queueIndex, d_nextSong = nextSong,
          d_num = p_playerNum (player s), d_player1 = player1, d_player2 = player2,
          d_previousSong = previousSong, d_queueLength = length (q_default (queue s)),
          d_status = p_status (player s)\<rparr>)"


text \<open>
  The hooks and subscriptions are selectors over the store. A subscription compares the state it last
  told its listener about with the new one; the model gives what is passed to the listener, if it is
  called at all.
\<close>

definition usePlayerDuration :: "store \<Rightarrow> rat option" where
  "usePlayerDuration s =
     (let items = snd (getQueue None s);
          index = p_index (player s);
          shuffled = q_shuffled (queue s);
          index = (if p_shuffle (player s) = Shuffle_TRACK \<and> length shuffled > 0
                   then (if Num 0 \<le> index \<and> index < Num (int (length shuffled))
                         then mapShuffledToQueueIndex index shuffled else index)
                   else index)
      in map_option s_duration (js_nth items index))"

definition usePlayerQueue :: "store \<Rightarrow> queue_song list" where
  "usePlayerQueue s = List.map_filter (map_of (q_songs (queue s))) (q_default (queue s))"

definition useCurrentPlaylistContextId :: "store \<Rightarrow> string option" where
  "useCurrentPlaylistContextId s = Option.bind (getCurrentSong s) s_contextPlaylistId"

definition nextSongSelection :: "store \<Rightarrow> string option \<times> queue_song option" where
  "nextSongSelection s =
     (let items = snd (getQueue None s);
          index = p_index (player s);
          shuffled = q_shuffled (queue s);
          queueIndex = (if isShuffleEnabled s then mapShuffledToQueueIndex index shuffled else index)
      in (map_option uniqueId (js_nth items queueIndex),
          nextSongAt (isShuffleEnabled s) items shuffled (p_repeat (player s)) index queueIndex))"

definition subscribeNextSongInsertion :: "store \<Rightarrow> store \<Rightarrow> queue_song option option" where
  "subscribeNextSongInsertion prev current =
     (let (curId, curNext) = nextSongSelection current;
          (prevId, prevNext) = nextSongSelection prev;
          sameTrackStillPlaying = (curId \<noteq> None \<and> curId = prevId)
      in if sameTrackStillPlaying \<and> map_option uniqueId curNext \<noteq> map_option uniqueId prevNext
         then Some curNext else None)"

definition subscribeCurrentTrack ::
    "store \<Rightarrow> store \<Rightarrow> ((jsnum \<times> queue_song option) \<times> (jsnum \<times> queue_song option)) option" where
  "subscribeCurrentTrack prev current =
     (let sel = (\<lambda>s. let index = p_index (player s);
                        index = (if isShuffleEnabled s
                          then mapShuffledToQueueIndex index (q_shuffled (queue s)) else index)
                    in (index, js_nth (snd (getQueue None s)) index))
      in if map_option uniqueId (snd (sel prev)) = map_option uniqueId (snd (sel current))
         then None else Some (sel current, sel prev))"

definition subscribeQueueCleared :: "store \<Rightarrow> store \<Rightarrow> bool" where
  "subscribeQueueCleared prev current =
     (let wasNotEmpty = length (q_default (queue prev)) > 0;
          isEmpty = (length (q_default (queue current)) = 0)
      in wasNotEmpty \<and> isEmpty)"

section \<open>Facts about the queries\<close>

lemma usePlayerData_getPlayerData: "usePlayerData s = getPlayerData s"
  by (simp only: usePlayerData_def getPlayerData_def)

text \<open>
  The well-formed stores: the songs form an object (no key twice), each song is filed under its own
  unique id, and every queued id has its song. The operations keep this invariant, and under it the
  displayed queue is exactly \<open>queue.default\<close>.
\<close>

definition store_ok :: "store \<Rightarrow> bool" where
  "store_ok s =
     (distinct (obj_keys (q_songs (queue s)))
      \<and> list_all (\<lambda>(k, v). uniqueId v = k) (q_songs (queue s))
      \<and> list_all (\<lambda>k. k \<in> set (obj_keys (q_songs (queue s)))) (q_default (queue s)))"

lemma getQueue_None [simp]: "snd (getQueue None s) = queueItems s"
  by (simp add: getQueue_def getQueueOrder_def Let_def)

lemma getQueueOrder_items [simp]: "snd (getQueueOrder s) = queueItems s"
  by (simp add: getQueueOrder_def Let_def)

lemma map_filter_all_some:
  "(\<And>x. x \<in> set xs \<Longrightarrow> \<exists>y. f x = Some y \<and> g y = x) \<Longrightarrow> map g (List.map_filter f xs) = xs"
proof (induction xs)
  case (Cons x xs)
  obtain y where "f x = Some y" "g y = x" using Cons.prems [of x] by auto
  with Cons show ?case by (simp add: map_filter_simps)
qed (simp add: map_filter_simps)

lemma store_ok_song:
  "store_ok s \<Longrightarrow> k \<in> set (q_default (queue s)) \<Longrightarrow>
     \<exists>v. map_of (q_songs (queue s)) k = Some v \<and> uniqueId v = k"
  by (force simp: store_ok_def list_all_iff dest: map_of_SomeD obj_lookup_some)

lemma queueItems_ids: "store_ok s \<Longrightarrow> map uniqueId (queueItems s) = q_default (queue s)"
  unfolding queueItems_def by (rule map_filter_all_some) (rule store_ok_song)

lemma length_queueItems: "store_ok s \<Longrightarrow> length (queueItems s) = length (q_default (queue s))"
  using queueItems_ids [of s] by (metis length_map)

lemma js_nth_queueItems_id:
  "store_ok s \<Longrightarrow> map_option uniqueId (js_nth (queueItems s) i) = js_nth (q_default (queue s)) i"
  by (simp add: queueItems_ids js_nth_map [symmetric])

text \<open>The queue position of the current song, and its unique id.\<close>

definition currentQueueIndex :: "store \<Rightarrow> jsnum" where
  "currentQueueIndex s =
     (if isShuffleEnabled s then mapShuffledToQueueIndex (p_index (player s)) (q_shuffled (queue s))
      else p_index (player s))"

definition currentId :: "store \<Rightarrow> string option" where
  "currentId s = map_option uniqueId (getCurrentSong s)"

lemma getCurrentSong_eq: "getCurrentSong s = js_nth (queueItems s) (currentQueueIndex s)"
  by (simp add: getCurrentSong_def currentQueueIndex_def)

lemma currentId_eq: "store_ok s \<Longrightarrow> currentId s = js_nth (q_default (queue s)) (currentQueueIndex s)"
  by (simp add: currentId_def getCurrentSong_eq js_nth_queueItems_id)

lemma getCurrentSong_in_queue: "getCurrentSong s = Some x \<Longrightarrow> x \<in> set (queueItems s)"
  by (auto simp: getCurrentSong_eq dest: js_nth_in_set)

end
