(* ===== verification/PlayerQueue.thy ===== *)
theory PlayerQueue
  imports PlayerQueries
begin

text \<open>
  The queue operations of \<^verbatim>\<open>store/player.store.ts\<close>, one definition per helper and per action, in
  the order of the code. An action is a function on the world. Inside \<open>set((state) => ...)\<close> the code
  reads the draft \<open>state\<close>, but \<open>state.getQueue()\<close> and \<open>state.getCurrentSong()\<close> call \<open>get()\<close>, which still
  is the store before the update: the operations that mix the two take both stores.
\<close>

section \<open>Helpers\<close>

text \<open>\<open>newItems.forEach((item) => { state.queue.songs[item._uniqueId] = item; })\<close>\<close>

definition addSong :: "queue_song obj \<Rightarrow> queue_song \<Rightarrow> queue_song obj" where
  "addSong m item = AList.update (uniqueId item) item m"

definition addSongs :: "queue_song list \<Rightarrow> store \<Rightarrow> store" where
  "addSongs items s = set_songs (foldl addSong (q_songs (queue s)) items) s"

text \<open>An array read used as a number: undefined counts as NaN in the arithmetic that follows.\<close>

definition readNum :: "jsnum list \<Rightarrow> jsnum \<Rightarrow> jsnum" where
  "readNum xs i = (case js_nth xs i of Some n \<Rightarrow> n | None \<Rightarrow> NaN)"

definition addIndexesToShuffled ::
    "jsnum list \<Rightarrow> jsnum \<Rightarrow> jsnum list \<Rightarrow> draws \<Rightarrow> jsnum list \<times> draws" where
  "addIndexesToShuffled shuffled currentShuffledIndex newIndexes r =
     (let beforeCurrent = slice_to shuffled (currentShuffledIndex + Num 1);
          afterCurrent = slice_from shuffled (currentShuffledIndex + Num 1);
          toShuffle = afterCurrent @ newIndexes;
          (tail, r') = shuffleInPlace toShuffle r
      in (beforeCurrent @ tail, r'))"

definition adjustShuffledIndexesForInsertion ::
    "jsnum list \<Rightarrow> jsnum \<Rightarrow> nat \<Rightarrow> jsnum list" where
  "adjustShuffledIndexesForInsertion shuffled insertPosition insertCount =
     map (\<lambda>idx. if insertPosition \<le> idx then idx + Num (int insertCount) else idx) shuffled"

definition generateShuffledIndexes :: "nat \<Rightarrow> draws \<Rightarrow> jsnum list \<times> draws" where
  "generateShuffledIndexes len r = shuffleInPlace (indexes len) r"

definition regenerateShuffledIndexesIfNeeded :: "store \<times> draws \<Rightarrow> store \<times> draws" where
  "regenerateShuffledIndexesIfNeeded sr =
     (let (s, r) = sr
      in if isShuffleEnabled s then
           (let (sh, r') = generateShuffledIndexes (length (q_default (queue s))) r
            in (set_shuffled sh s, r'))
         else (s, r))"

definition cleanupOrphanedSongs :: "store \<Rightarrow> bool \<times> store" where
  "cleanupOrphanedSongs s =
     (let songs = q_songs (queue s);
          orphanedIds = filter (\<lambda>k. k \<notin> set (q_default (queue s))) (obj_keys songs);
          hasOrphans = (orphanedIds \<noteq> [])
      in (hasOrphans,
          if hasOrphans then set_songs (filter (\<lambda>p. fst p \<notin> set orphanedIds) songs) s else s))"

text \<open>\<open>g\<close> is the store that \<open>get()\<close> sees, \<open>s\<close> the draft.\<close>

definition recalculatePlayerIndex :: "store \<Rightarrow> store \<Rightarrow> string list \<Rightarrow> store" where
  "recalculatePlayerIndex g s q =
     (case getCurrentSong g of
        None \<Rightarrow> s
      | Some currentTrack \<Rightarrow>
          (let index = findIndex (\<lambda>k. k = uniqueId currentTrack) q
           in set_index (Num (max 0 index)) s))"

text \<open>
  The playback position of a queued song, as \<open>mediaPlay\<close>, \<open>addToQueueByUniqueId\<close> and
  \<open>emitPlayerPlayEvent\<close> look it up; None when the song is not in the queue.
\<close>

definition playPosition :: "string \<Rightarrow> store \<Rightarrow> jsnum option" where
  "playPosition nid s =
     (let queueIndex = findIndex (\<lambda>item. uniqueId item = nid) (queueItems s)
      in if queueIndex \<noteq> -1 then
           (if p_shuffle (player s) = Shuffle_TRACK \<and> length (q_shuffled (queue s)) > 0 then
              (let position = shuffledPosition (Num queueIndex) (q_shuffled (queue s))
               in if position \<noteq> -1 then Some (Num position) else Some (Num queueIndex))
            else Some (Num queueIndex))
         else None)"

definition startSong :: "string \<Rightarrow> world \<Rightarrow> world" where
  "startSong nid w =
     (case playPosition nid (w_store w) of
        None \<Rightarrow> w
      | Some playIndex \<Rightarrow>
          emit (PLAYER_PLAY nid playIndex)
            (setTimestampStore 0
              (set_store (set_status PLAYING (set_index playIndex (w_store w))) w)))"

definition emitPlayerPlayEvent :: "string option \<Rightarrow> world \<Rightarrow> world" where
  "emitPlayerPlayEvent targetSongUniqueId w =
     (if truthy targetSongUniqueId then startSong (the targetSongUniqueId) w
      else
        (let currentIndex = p_index (player (w_store w))
         in case js_nth (snd (getQueue None (w_store w))) currentIndex of
              Some currentSong \<Rightarrow>
                (if Num 0 \<le> currentIndex then emit (PLAYER_PLAY (uniqueId currentSong) currentIndex) w
                 else w)
            | None \<Rightarrow> w))"

definition findTarget :: "string option \<Rightarrow> queue_song list \<Rightarrow> string option" where
  "findTarget playSongId newItems =
     (if truthy playSongId then
        map_option uniqueId (List.find (\<lambda>item. s_id item = the playSongId) newItems)
      else None)"

section \<open>Stopping, for the radio\<close>

definition mediaStop :: "bool option \<Rightarrow> world \<Rightarrow> world" where
  "mediaStop options w =
     (let reset = (options \<noteq> Some False);
          w1 = setTimestampStore 0 (set_store (set_status PAUSED (w_store w)) w)
      in if reset then seekTo 0 w1 else w1)"

definition noRadio :: radio_state where
  "noRadio = \<lparr>r_stationArt = None, r_streamUrl = None, r_isPlaying = False, r_metadata = None,
     r_stationName = None\<rparr>"

definition radioStop :: "world \<Rightarrow> world" where
  "radioStop w =
     (let w1 = w\<lparr>w_radio := noRadio\<rparr>
      in if w_playbackType w1 = LOCAL \<and> w_hasMpv w1 then emit MPV_PAUSE w1 else mediaStop None w1)"

definition stopRadioIfActive :: "world \<Rightarrow> world" where
  "stopRadioIfActive w = (if truthy (r_streamUrl (w_radio w)) then radioStop w else w)"

section \<open>Adding to the queue\<close>

definition addLast :: "queue_song list \<Rightarrow> store \<times> draws \<Rightarrow> store \<times> draws" where
  "addLast newItems sr =
     (let (s, r) = sr;
          newUniqueIds = map uniqueId newItems;
          s1 = addSongs newItems s;
          oldQueueLength = length (q_default (queue s1));
          s2 = set_default (q_default (queue s1) @ newUniqueIds) s1
      in if isShuffleEnabled s2 then
           (let newIndexes = indexesFrom (Num (int oldQueueLength)) (length newUniqueIds);
                (shuffledNewIndexes, r') = shuffleInPlace newIndexes r
            in (set_shuffled (q_shuffled (queue s2) @ shuffledNewIndexes) s2, r'))
         else (s2, r))"

definition addLastShuffle :: "queue_song list \<Rightarrow> store \<times> draws \<Rightarrow> store \<times> draws" where
  "addLastShuffle newItems sr =
     (let (s, r) = sr;
          newUniqueIds = map uniqueId newItems;
          s1 = addSongs newItems s;
          (shuffledIds, r1) = shuffleInPlace newUniqueIds r;
          oldQueueLength = length (q_default (queue s1));
          s2 = set_default (q_default (queue s1) @ shuffledIds) s1
      in if p_shuffle (player s2) = Shuffle_TRACK then
           (let newIndexes = indexesFrom (Num (int oldQueueLength)) (length shuffledIds);
                (shuffledNewIndexes, r2) = shuffleInPlace newIndexes r1
            in (set_shuffled (q_shuffled (queue s2) @ shuffledNewIndexes) s2, r2))
         else (s2, r1))"

text \<open>The update of \<open>shuffled\<close> that \<open>Play.NEXT\<close> and \<open>Play.NEXT_SHUFFLE\<close> share.\<close>

definition insertIntoShuffled ::
    "jsnum \<Rightarrow> jsnum \<Rightarrow> nat \<Rightarrow> store \<times> draws \<Rightarrow> store \<times> draws" where
  "insertIntoShuffled currentShuffledIndex insertPosition cnt sr =
     (let (s, r) = sr
      in if isShuffleEnabled s then
           (let adjustedShuffled =
                  adjustShuffledIndexesForInsertion (q_shuffled (queue s)) insertPosition cnt;
                newIndexes = indexesFrom insertPosition cnt;
                (shuffledNewIndexes, r') = shuffleInPlace newIndexes r
            in (set_shuffled
                  (slice_to adjustedShuffled (currentShuffledIndex + Num 1) @ shuffledNewIndexes
                    @ slice_from adjustedShuffled (currentShuffledIndex + Num 1)) s, r'))
         else (s, r))"

definition addNext :: "queue_song list \<Rightarrow> store \<times> draws \<Rightarrow> store \<times> draws" where
  "addNext newItems sr =
     (let (s, r) = sr;
          newUniqueIds = map uniqueId newItems;
          currentShuffledIndex = p_index (player s);
          s1 = addSongs newItems s;
          insertPosition =
            (if p_shuffle (player s1) = Shuffle_TRACK
             then readNum (q_shuffled (queue s1)) currentShuffledIndex + Num 1
             else currentShuffledIndex + Num 1);
          s2 = set_default (slice_to (q_default (queue s1)) insertPosition @ newUniqueIds
                 @ slice_from (q_default (queue s1)) insertPosition) s1
      in insertIntoShuffled currentShuffledIndex insertPosition (length newUniqueIds) (s2, r))"

definition addNextShuffle :: "queue_song list \<Rightarrow> store \<times> draws \<Rightarrow> store \<times> draws" where
  "addNextShuffle newItems sr =
     (let (s, r) = sr;
          newUniqueIds = map uniqueId newItems;
          currentShuffledIndex = p_index (player s);
          s1 = addSongs newItems s;
          (shuffledIds, r1) = shuffleInPlace newUniqueIds r;
          insertPosition =
            (if isShuffleEnabled s1
             then readNum (q_shuffled (queue s1)) currentShuffledIndex + Num 1
             else currentShuffledIndex + Num 1);
          s2 = set_default (slice_to (q_default (queue s1)) insertPosition @ shuffledIds
                 @ slice_from (q_default (queue s1)) insertPosition) s1
      in insertIntoShuffled currentShuffledIndex insertPosition (length shuffledIds) (s2, r1))"

text \<open>The start of playback that \<open>Play.NOW\<close> and \<open>Play.SHUFFLE\<close> write: the queue is replaced.\<close>

definition replaceQueue :: "string list \<Rightarrow> store \<Rightarrow> store" where
  "replaceQueue newIds s =
     set_default newIds (set_playerNum One (set_status PLAYING (set_index (Num 0) (set_default [] s))))"

definition addNow :: "queue_song list \<Rightarrow> string option \<Rightarrow> store \<times> draws \<Rightarrow> store \<times> draws" where
  "addNow newItems targetSongUniqueId sr =
     (let (s, r) = sr;
          newUniqueIds = map uniqueId newItems;
          s1 = replaceQueue newUniqueIds (addSongs newItems s)
      in if p_shuffle (player s1) = Shuffle_TRACK then
           (let initialIndex =
                  (if truthy targetSongUniqueId
                   then findIndex (\<lambda>k. k = the targetSongUniqueId) newUniqueIds else -1)
            in if truthy targetSongUniqueId \<and> initialIndex \<noteq> -1 then
                 (let remainingIndexes =
                        filter (\<lambda>idx. idx \<noteq> Num initialIndex) (indexes (length newUniqueIds));
                      (shuffledRemaining, r') = shuffleInPlace remainingIndexes r
                  in (set_shuffled (Num initialIndex # shuffledRemaining) s1, r'))
               else
                 (let (sh, r') = generateShuffledIndexes (length newUniqueIds) r
                  in (set_shuffled sh s1, r')))
         else (s1, r))"

definition addShuffle :: "queue_song list \<Rightarrow> store \<times> draws \<Rightarrow> store \<times> draws" where
  "addShuffle newItems sr =
     (let (s, r) = sr;
          newUniqueIds = map uniqueId newItems;
          s1 = addSongs newItems s;
          (shuffledIds, r1) = shuffleInPlace newUniqueIds r;
          s2 = replaceQueue shuffledIds s1;
          (sh, r2) = generateShuffledIndexes (length shuffledIds) r1
      in (set_shuffled sh s2, r2))"

text \<open>A store update that draws random numbers, run on the world.\<close>

definition set_with_draws :: "(store \<times> draws \<Rightarrow> store \<times> draws) \<Rightarrow> world \<Rightarrow> world" where
  "set_with_draws f w =
     (let (s, r) = f (w_store w, w_draws w) in w\<lparr>w_store := s, w_draws := r\<rparr>)"

definition addToQueueByType :: "song list \<Rightarrow> Play \<Rightarrow> string option \<Rightarrow> world \<Rightarrow> world" where
  "addToQueueByType items playType playSongId w0 =
     (let (newItems, g) = toQueueSongs items (w_ids w0);
          w = w0\<lparr>w_ids := g\<rparr>;
          targetSongUniqueId = findTarget playSongId newItems
      in case playType of
           Play_LAST \<Rightarrow> set_with_draws (addLast newItems) w
         | Play_LAST_SHUFFLE \<Rightarrow> set_with_draws (addLastShuffle newItems) w
         | Play_NEXT \<Rightarrow> set_with_draws (addNext newItems) w
         | Play_NEXT_SHUFFLE \<Rightarrow> set_with_draws (addNextShuffle newItems) w
         | Play_NOW \<Rightarrow>
             emitPlayerPlayEvent targetSongUniqueId
               (setTimestampStore 0
                 (set_with_draws (addNow newItems targetSongUniqueId) (stopRadioIfActive w)))
         | Play_SHUFFLE \<Rightarrow>
             emitPlayerPlayEvent targetSongUniqueId
               (setTimestampStore 0 (set_with_draws (addShuffle newItems) (stopRadioIfActive w)))
         | Play_INDEX \<Rightarrow> w)"

datatype edge = Edge_BOTTOM | Edge_TOP

definition insertIndexFor :: "string \<Rightarrow> edge \<Rightarrow> string list \<Rightarrow> nat" where
  "insertIndexFor target e q =
     (let index = findIndex (\<lambda>k. k = target) q
      in nat (max 0 (if e = Edge_TOP then index else index + 1)))"

definition insertByUniqueId ::
    "queue_song list \<Rightarrow> string \<Rightarrow> edge \<Rightarrow> store \<times> draws \<Rightarrow> store \<times> draws" where
  "insertByUniqueId newItems target e sr =
     (let (g, r) = sr;
          newUniqueIds = map uniqueId newItems;
          s1 = addSongs newItems g;
          insertIndex = insertIndexFor target e (q_default (queue s1));
          newQueue = take insertIndex (q_default (queue s1)) @ newUniqueIds
                       @ drop insertIndex (q_default (queue s1));
          s2 = set_default newQueue s1
      in if p_shuffle (player s2) = Shuffle_TRACK then
           (let currentTrackUniqueId = map_option uniqueId (getCurrentSong g)
            in if truthy currentTrackUniqueId then
                 (let adjustedShuffled = map (\<lambda>idx. if Num (int insertIndex) \<le> idx
                        then idx + Num (int (length newUniqueIds)) else idx) (q_shuffled (queue s2));
                      newIndexes = indexesFrom (Num (int insertIndex)) (length newUniqueIds);
                      (sh, r') = addIndexesToShuffled adjustedShuffled (p_index (player s2))
                                   newIndexes r;
                      s3 = set_shuffled sh s2;
                      queueIndex = findIndex (\<lambda>k. k = the currentTrackUniqueId) newQueue;
                      position = shuffledPosition (Num queueIndex) sh
                  in (if queueIndex \<noteq> -1 \<and> position \<noteq> -1 then set_index (Num position) s3 else s3, r'))
               else
                 (let (sh, r') = generateShuffledIndexes (length newQueue) r
                  in (set_shuffled sh s2, r')))
         else
           (let s3 = (if Num (int insertIndex) \<le> p_index (player s2)
                      then set_index (p_index (player s2) + Num (int (length newUniqueIds))) s2
                      else s2)
            in (recalculatePlayerIndex g s3 newQueue, r)))"

definition addToQueueByUniqueId ::
    "song list \<Rightarrow> string \<Rightarrow> edge \<Rightarrow> string option \<Rightarrow> world \<Rightarrow> world" where
  "addToQueueByUniqueId items target e playSongId w0 =
     (let (newItems, g) = toQueueSongs items (w_ids w0);
          w = set_with_draws (insertByUniqueId newItems target e) (w0\<lparr>w_ids := g\<rparr>);
          targetSongUniqueId = findTarget playSongId newItems
      in if truthy targetSongUniqueId then startSong (the targetSongUniqueId) w else w)"

datatype drop_edge = Drop_BOTTOM | Drop_LEFT | Drop_RIGHT | Drop_TOP | Drop_NULL

datatype AddToQueueType = AddToQueueByPlayType Play | AddToQueueByUniqueId drop_edge string

definition addToQueueByData :: "AddToQueueType \<Rightarrow> song list \<Rightarrow> world \<Rightarrow> world" where
  "addToQueueByData type data w0 =
     (let (items, g) = toQueueSongs data (w_ids w0);
          w = w0\<lparr>w_ids := g\<rparr>
      in case type of
           AddToQueueByPlayType playType \<Rightarrow>
             addToQueueByType (map song.truncate items) playType None w
         | AddToQueueByUniqueId e target \<Rightarrow>
             (let normalizedEdge = (if e = Drop_TOP then Edge_TOP else Edge_BOTTOM)
              in addToQueueByUniqueId (map song.truncate items) target normalizedEdge None w))"

end
