(* ===== verification/PlayerEdit.thy ===== *)
theory PlayerEdit
  imports PlayerQueue
begin

text \<open>
  The remaining queue operations of \<^verbatim>\<open>store/player.store.ts\<close>: clearing, moving, restoring and
  shuffling the queue, switching shuffle, and the updates of the queued songs. Each is a function on
  the store; those that shuffle also take the draws.
\<close>

section \<open>Clearing\<close>

definition clearQueue :: "store \<Rightarrow> store" where
  "clearQueue s = set_songs [] (set_shuffled [] (set_default [] (set_index (Num (-1)) s)))"

text \<open>The positions of the removed ids, and the number of them before an index.\<close>

definition indexesToRemove :: "string list \<Rightarrow> string list \<Rightarrow> nat list" where
  "indexesToRemove uniqueIds q = filter (\<lambda>i. q ! i \<in> set uniqueIds) [0..<length q]"

definition removedBefore :: "nat list \<Rightarrow> jsnum \<Rightarrow> nat" where
  "removedBefore removed idx = length (filter (\<lambda>k. Num (int k) < idx) removed)"

definition clearSelected :: "queue_song list \<Rightarrow> store \<Rightarrow> store" where
  "clearSelected items g =
     (let uniqueIds = map uniqueId items;
          removed = indexesToRemove uniqueIds (q_default (queue g));
          s1 = set_default (filter (\<lambda>k. k \<notin> set uniqueIds) (q_default (queue g))) g;
          s2 = (if isShuffleEnabled s1 then
                  (let newShuffled =
                         map (\<lambda>idx. idx - Num (int (removedBefore removed idx)))
                           (filter (\<lambda>idx. idx \<notin> (\<lambda>k. Num (int k)) ` set removed)
                             (q_shuffled (queue s1)))
                   in set_shuffled newShuffled s1)
                else set_shuffled [] s1);
          s3 = snd (cleanupOrphanedSongs s2)
      in recalculatePlayerIndex g s3 (q_default (queue s3)))"

section \<open>Moving\<close>

definition moveSelectedTo :: "queue_song list \<Rightarrow> string \<Rightarrow> edge \<Rightarrow> store \<Rightarrow> store" where
  "moveSelectedTo items target e g =
     (let itemUniqueIds = map uniqueId items;
          existingIds = obj_keys (q_songs (queue g));
          s1 = addSongs (filter (\<lambda>item. uniqueId item \<notin> set existingIds) items) g;
          insertIndex = insertIndexFor target e (q_default (queue s1));
          idsBefore = filter (\<lambda>k. k \<notin> set itemUniqueIds) (take insertIndex (q_default (queue s1)));
          idsAfter = filter (\<lambda>k. k \<notin> set itemUniqueIds) (drop insertIndex (q_default (queue s1)));
          newQueue = idsBefore @ itemUniqueIds @ idsAfter
      in set_default newQueue (recalculatePlayerIndex g s1 newQueue))"

definition moveSelectedToBottom :: "queue_song list \<Rightarrow> store \<Rightarrow> store" where
  "moveSelectedToBottom items g =
     (let uniqueIds = map uniqueId items;
          s1 = addSongs items g;
          filtered = filter (\<lambda>k. k \<notin> set uniqueIds) (q_default (queue s1));
          newQueue = filtered @ uniqueIds
      in set_default newQueue (recalculatePlayerIndex g s1 newQueue))"

definition moveSelectedToNext :: "queue_song list \<Rightarrow> store \<Rightarrow> store" where
  "moveSelectedToNext items g =
     (let uniqueIds = map uniqueId items;
          s1 = addSongs items g;
          currentIndex = p_index (player s1);
          q = q_default (queue s1);
          beforeCurrent =
            length (filter (\<lambda>i. q ! i \<in> set uniqueIds \<and> Num (int i) < currentIndex) [0..<length q]);
          filtered = filter (\<lambda>k. k \<notin> set uniqueIds) q;
          insertIndex = currentIndex + Num 1 - Num (int beforeCurrent);
          newQueue = slice_to filtered insertIndex @ uniqueIds @ slice_from filtered insertIndex
      in set_default newQueue (recalculatePlayerIndex g s1 newQueue))"

definition moveSelectedToTop :: "queue_song list \<Rightarrow> store \<Rightarrow> store" where
  "moveSelectedToTop items g =
     (let uniqueIds = map uniqueId items;
          s1 = addSongs items g;
          filtered = filter (\<lambda>k. k \<notin> set uniqueIds) (q_default (queue s1));
          newQueue = uniqueIds @ filtered
      in set_default newQueue (recalculatePlayerIndex g s1 newQueue))"

section \<open>Restoring a queue\<close>

definition restoreQueue :: "queue_song list \<Rightarrow> jsnum option \<Rightarrow> store \<Rightarrow> store" where
  "restoreQueue newItems index s =
     set_default (map uniqueId newItems)
       (set_playerNum One (set_status PLAYING
         (set_index (nullish_or index (Num 0)) (addSongs newItems s))))"

definition setQueue :: "song list \<Rightarrow> jsnum option \<Rightarrow> rat option \<Rightarrow> world \<Rightarrow> world" where
  "setQueue items index position w0 =
     (let (newItems, g) = toQueueSongs items (w_ids w0);
          w = set_store (restoreQueue newItems index (w_store w0)) (w0\<lparr>w_ids := g\<rparr>)
      in emit (QUEUE_RESTORED items (nullish_or index (Num 0)) (nullish_or position 0)) w)"

section \<open>Shuffling\<close>

text \<open>The position stored at the current shuffled position, when leaving shuffle.\<close>

definition leaveShuffle :: "bool \<Rightarrow> jsnum \<Rightarrow> store \<Rightarrow> store" where
  "leaveShuffle wasShuffled currentIndex s =
     (let shuffled = q_shuffled (queue s);
          s1 = (if wasShuffled \<and> Num 0 \<le> currentIndex \<and> currentIndex < Num (int (length shuffled))
                then (case js_nth shuffled currentIndex of
                        Some queuePosition \<Rightarrow> set_index queuePosition s
                      | None \<Rightarrow> s)
                else s)
      in set_shuffled [] s1)"

definition setShuffle :: "PlayerShuffle \<Rightarrow> store \<times> draws \<Rightarrow> store \<times> draws" where
  "setShuffle mode sr =
     (let (s, r) = sr;
          wasShuffled = (p_shuffle (player s) = Shuffle_TRACK);
          willBeShuffled = (mode = Shuffle_TRACK);
          currentIndex = p_index (player s);
          s1 = s\<lparr>player := (player s)\<lparr>p_shuffle := mode\<rparr>\<rparr>
      in if willBeShuffled then
           (let (sh, r') = generateShuffledIndexes (length (q_default (queue s1))) r;
                s2 = set_shuffled sh s1;
                s3 = (if Num 0 \<le> currentIndex
                         \<and> currentIndex < Num (int (length (q_default (queue s2))))
                      then (case findShuffledPositionForQueueIndex currentIndex sh of
                              Some position \<Rightarrow> set_index position s2
                            | None \<Rightarrow> s2)
                      else s2)
            in (snd (cleanupOrphanedSongs s3), r'))
         else (snd (cleanupOrphanedSongs (leaveShuffle wasShuffled currentIndex s1)), r))"

definition toggleShuffle :: "store \<times> draws \<Rightarrow> store \<times> draws" where
  "toggleShuffle sr =
     (let (s, r) = sr;
          wasShuffled = (p_shuffle (player s) = Shuffle_TRACK);
          willBeShuffled = (p_shuffle (player s) \<noteq> Shuffle_TRACK);
          currentIndex = p_index (player s);
          s1 = s\<lparr>player := (player s)\<lparr>p_shuffle :=
                 (if p_shuffle (player s) = Shuffle_NONE then Shuffle_TRACK else Shuffle_NONE)\<rparr>\<rparr>
      in if willBeShuffled then
           (let combinedLength = length (q_default (queue s1))
            in if combinedLength > 0 \<and> Num 0 \<le> currentIndex
                  \<and> currentIndex < Num (int combinedLength) then
                 (let remainingIndexes = filter (\<lambda>idx. \<not> js_eq idx currentIndex)
                        (indexes combinedLength);
                      (shuffledRemaining, r') = shuffleInPlace remainingIndexes r
                  in (set_index (Num 0) (set_shuffled (currentIndex # shuffledRemaining) s1), r'))
               else
                 (let (sh, r') = generateShuffledIndexes combinedLength r
                  in (set_shuffled sh s1, r')))
         else (leaveShuffle wasShuffled currentIndex s1, r))"

definition shuffleQueue :: "store \<times> draws \<Rightarrow> store \<times> draws" where
  "shuffleQueue sr =
     (let (s, r) = sr
      in if p_shuffle (player s) = Shuffle_TRACK then
           (let (sh, r') = generateShuffledIndexes (length (q_default (queue s))) r
            in (set_shuffled sh s, r'))
         else (s, r))"

definition shuffleDefaultAll :: "store \<times> draws \<Rightarrow> store \<times> draws" where
  "shuffleDefaultAll sr =
     (let (s, r) = sr; (ids, r') = shuffleInPlace (q_default (queue s)) r in (set_default ids s, r'))"

text \<open>The songs before the current one and those after it are shuffled apart.\<close>

definition shuffleAround :: "string \<Rightarrow> store \<times> draws \<Rightarrow> store \<times> draws" where
  "shuffleAround currentUniqueId sr =
     (let (s, r) = sr;
          q = q_default (queue s);
          currentQueueIndex = findIndex (\<lambda>k. k = currentUniqueId) q
      in if currentQueueIndex \<noteq> -1 then
           (let (shuffledBefore, r1) = shuffleInPlace (take (nat currentQueueIndex) q) r;
                (shuffledAfter, r2) = shuffleInPlace (drop (nat currentQueueIndex + 1) q) r1
            in (set_default (shuffledBefore @ currentUniqueId # shuffledAfter) s, r2))
         else shuffleDefaultAll (s, r))"

definition shuffleAll :: "store \<times> draws \<Rightarrow> store \<times> draws" where
  "shuffleAll sr =
     (let (s, r) = sr
      in regenerateShuffledIndexesIfNeeded
           (case js_nth (snd (getQueue None s)) (p_index (player s)) of
              None \<Rightarrow> shuffleDefaultAll (s, r)
            | Some currentSong \<Rightarrow> shuffleAround (uniqueId currentSong) (s, r)))"

definition selectedPositions :: "string list \<Rightarrow> string list \<Rightarrow> int list" where
  "selectedPositions itemUniqueIds q =
     sort (filter (\<lambda>idx. idx \<noteq> -1) (map (\<lambda>k. findIndex (\<lambda>i. i = k) q) itemUniqueIds))"

definition shuffleSelected :: "queue_song list \<Rightarrow> store \<times> draws \<Rightarrow> store \<times> draws" where
  "shuffleSelected items sr =
     (let (s, r) = sr;
          q = q_default (queue s);
          positions = selectedPositions (map uniqueId items) q
      in if length positions = 0 then (s, r)
         else
           (let selectedItems = map (\<lambda>p. q ! nat p) positions;
                (shuffledItems, r') = shuffleInPlace selectedItems r;
                newDefaultQueue = foldl (\<lambda>acc (p, x). acc[nat p := x]) q (zip positions shuffledItems)
            in regenerateShuffledIndexesIfNeeded (set_default newDefaultQueue s, r')))"

section \<open>Updates of the queued songs\<close>

definition map_songs :: "(queue_song \<Rightarrow> queue_song) \<Rightarrow> store \<Rightarrow> store" where
  "map_songs f s = set_songs (map (\<lambda>(k, v). (k, f v)) (q_songs (queue s))) s"

definition updateQueueFavorites :: "string list \<Rightarrow> bool \<Rightarrow> store \<Rightarrow> store" where
  "updateQueueFavorites ids favorite s =
     map_songs (\<lambda>song. if s_id song \<in> set ids then song\<lparr>s_userFavorite := favorite\<rparr> else song) s"

definition updateQueueRatings :: "string list \<Rightarrow> rat option \<Rightarrow> store \<Rightarrow> store" where
  "updateQueueRatings ids rating s =
     map_songs (\<lambda>song. if s_id song \<in> set ids then song\<lparr>s_userRating := rating\<rparr> else song) s"

definition incrementQueuePlayCount :: "string list \<Rightarrow> store \<Rightarrow> store" where
  "incrementQueuePlayCount ids s =
     map_songs (\<lambda>song. if s_id song \<in> set ids then song\<lparr>s_playCount := s_playCount song + 1\<rparr>
                       else song) s"

text \<open>
  \<open>{ ...updatedSong, _contextPlaylistId, _uniqueId }\<close>: the two queue properties of the old entry stay.
  The loop runs over the values at its start and writes under their own unique ids.
\<close>

definition replaceSong :: "song \<Rightarrow> queue_song \<Rightarrow> queue_song" where
  "replaceSong updatedSong song =
     toQueueSong (uniqueId song) (updatedSong\<lparr>s_contextPlaylistId := s_contextPlaylistId song\<rparr>)"

definition updateQueueSong :: "string \<Rightarrow> song \<Rightarrow> store \<Rightarrow> store" where
  "updateQueueSong songId updatedSong s =
     set_songs
       (foldl (\<lambda>m song. if s_id song = songId
                        then AList.update (uniqueId song) (replaceSong updatedSong song) m else m)
         (q_songs (queue s)) (obj_values (q_songs (queue s)))) s"

end
