(* ===== verification/PlayerMedia.thy ===== *)
theory PlayerMedia
  imports PlayerEdit
begin

text \<open>
  The transport operations of \<^verbatim>\<open>store/player.store.ts\<close> (next, previous, play, seek, skip, stop), its
  settings, and the actions of the radio store of \<^verbatim>\<open>radio/hooks/use-radio-player.ts\<close>, which pauses
  and resumes the player. Each is a function on the world.
\<close>

section \<open>Advancing\<close>

definition otherPlayer :: "player_num \<Rightarrow> player_num" where
  "otherPlayer n = (if n = One then Two else One)"

text \<open>
  \<open>mediaAutoNext\<close>: what happens when a track ends. The data it returns is computed from the snapshot
  of the store at its start and the new position.
\<close>

definition mediaAutoNext :: "world \<Rightarrow> world \<times> player_data" where
  "mediaAutoNext w =
     (let snapshot = w_store w;
          currentIndex = p_index (player snapshot);
          rep = p_repeat (player snapshot);
          items = snd (getQueueOrder snapshot);
          shuffled = q_shuffled (queue snapshot);
          isShuffle = isShuffleEnabled snapshot;
          playbackLength = (if isShuffle then length shuffled else length items);
          (nextPlaybackIndex, shouldPause) = calculateNextIndex currentIndex playbackLength rep;
          isRepeatOneSameTrack = (rep = Repeat_ONE \<and> js_eq nextPlaybackIndex currentIndex);
          num = p_playerNum (player snapshot);
          newPlayerNum = (if isRepeatOneSameTrack then num else otherPlayer num);
          pauseOnNext = p_pauseOnNextSongEnd (player snapshot);
          newStatus = (if shouldPause \<or> pauseOnNext then PAUSED else PLAYING);
          shouldSwapPlayer = (\<not> isRepeatOneSameTrack \<and> newStatus \<noteq> PAUSED);
          finalNum = (if shouldSwapPlayer then newPlayerNum else num);
          s1 = set_status newStatus (set_playerNum finalNum (set_index nextPlaybackIndex snapshot));
          s2 = (if pauseOnNext then s1\<lparr>player := (player s1)\<lparr>p_pauseOnNextSongEnd := False\<rparr>\<rparr> else s1);
          w1 = setTimestampStore 0 (set_store s2 w);
          w2 = (if rep = Repeat_ONE \<and> js_eq nextPlaybackIndex currentIndex
                then emit (PLAYER_REPEATED nextPlaybackIndex) w1 else w1);
          currentQueueIndex = (if isShuffle then mapShuffledToQueueIndex nextPlaybackIndex shuffled
                               else nextPlaybackIndex);
          currentSong = js_nth items currentQueueIndex;
          nextSong = nextSongAt isShuffle items shuffled rep nextPlaybackIndex currentQueueIndex;
          previousSong =
            previousSongAt isShuffle items shuffled rep nextPlaybackIndex currentQueueIndex;
          (player1, player2) = getDualPlayerSongs finalNum currentSong nextSong rep
      in (w2, \<lparr>d_currentSong = currentSong, d_index = currentQueueIndex, d_nextSong = nextSong,
               d_num = finalNum, d_player1 = player1, d_player2 = player2,
               d_previousSong = previousSong, d_queueLength = length items,
               d_status = newStatus\<rparr>))"

definition mediaNextIndex :: "store \<Rightarrow> jsnum" where
  "mediaNextIndex s =
     (let currentIndex = p_index (player s);
          items = snd (getQueueOrder s);
          lastIndex = Num (int (length items)) - Num 1;
          isLastTrack = js_eq currentIndex lastIndex
      in if p_repeat (player s) = Repeat_ALL \<and> isLastTrack then Num 0
         else if p_repeat (player s) = Repeat_NONE \<and> isLastTrack then currentIndex
         else js_min lastIndex (currentIndex + Num 1))"

definition mediaNext :: "world \<Rightarrow> world" where
  "mediaNext w =
     (let currentIndex = p_index (player (w_store w));
          nextIndex = mediaNextIndex (w_store w)
      in emit (MEDIA_NEXT currentIndex nextIndex)
           (setTimestampStore 0
             (set_store (set_playerNum One (set_index nextIndex (w_store w))) w)))"

definition mediaPreviousIndex :: "store \<Rightarrow> jsnum" where
  "mediaPreviousIndex s =
     (let currentIndex = p_index (player s);
          items = snd (getQueueOrder s);
          isFirstTrack = js_eq currentIndex (Num 0)
      in if p_repeat (player s) = Repeat_ALL \<and> isFirstTrack then Num (int (length items)) - Num 1
         else if p_repeat (player s) = Repeat_NONE \<and> isFirstTrack then currentIndex
         else js_max (Num 0) (currentIndex - Num 1))"

definition mediaPrevious :: "world \<Rightarrow> world" where
  "mediaPrevious w =
     (if w_timestamp w > 10 then seekTo 0 w
      else
        (let currentIndex = p_index (player (w_store w));
             previousIndex = mediaPreviousIndex (w_store w)
         in emit (MEDIA_PREV currentIndex previousIndex)
              (setTimestampStore 0
                (set_store (set_playerNum One (set_index previousIndex (w_store w))) w))))"

section \<open>Playing and pausing\<close>

definition mediaPause :: "world \<Rightarrow> world" where
  "mediaPause w = set_store (set_status PAUSED (w_store w)) w"

definition mediaPlay :: "string option \<Rightarrow> world \<Rightarrow> world" where
  "mediaPlay nid w =
     (case (if truthy nid then playPosition (the nid) (w_store w) else None) of
        None \<Rightarrow> set_store (set_status PLAYING (w_store w)) w
      | Some playIndex \<Rightarrow>
          emit (PLAYER_PLAY (the nid) playIndex)
            (setTimestampStore 0
              (set_store (set_status PLAYING (set_index playIndex (w_store w))) w)))"

definition mediaPlayByIndex :: "jsnum \<Rightarrow> world \<Rightarrow> world" where
  "mediaPlayByIndex index w =
     (let s = w_store w;
          items = snd (getQueue None s)
      in if js_eq index (Num (-1)) \<or> Num (int (length items)) \<le> index
         then set_store (set_status PAUSED s) w
         else
           (let songId = map_option uniqueId (js_nth items index);
                playIndex =
                  (if isShuffleEnabled s
                   then nullish_or (findShuffledPositionForQueueIndex index (q_shuffled (queue s))) index
                   else index);
                w1 = setTimestampStore 0 (set_store (set_status PLAYING (set_index playIndex s)) w)
            in if truthy songId then emit (PLAYER_PLAY (the songId) playIndex) w1 else w1))"

definition mediaTogglePlayPause :: "world \<Rightarrow> world" where
  "mediaTogglePlayPause w =
     (let s = w_store w
      in set_store (set_status (if p_status (player s) = PLAYING then PAUSED else PLAYING) s) w)"

definition mediaToggleMute :: "world \<Rightarrow> world" where
  "mediaToggleMute w =
     (let s = w_store w
      in set_store (s\<lparr>player := (player s)\<lparr>p_muted := \<not> p_muted (player s)\<rparr>\<rparr>) w)"

section \<open>Seeking\<close>

definition mediaSeekToTimestamp :: "rat \<Rightarrow> world \<Rightarrow> world" where
  "mediaSeekToTimestamp timestamp w = seekTo timestamp (setTimestampStore timestamp w)"

definition mediaSkipBackward :: "rat option \<Rightarrow> world \<Rightarrow> world" where
  "mediaSkipBackward offset w =
     (let timeToSkip = nullish_or offset (nullish_or (w_skipBackwardSeconds w) 5);
          newTimestamp = max 0 (w_timestamp w - timeToSkip)
      in seekTo newTimestamp (setTimestampStore newTimestamp w))"

text \<open>A song without a duration, or with duration 0, is not skipped.\<close>

definition mediaSkipForward :: "rat option \<Rightarrow> world \<Rightarrow> world" where
  "mediaSkipForward offset w =
     (let items = snd (getQueue None (w_store w));
          currentTrack = js_nth items (p_index (player (w_store w)));
          timeToSkip = nullish_or offset (nullish_or (w_skipForwardSeconds w) 5)
      in case map_option s_duration currentTrack of
           None \<Rightarrow> w
         | Some duration \<Rightarrow>
             (if duration = 0 then w
              else (let newTimestamp = min (duration - 1) (w_timestamp w + timeToSkip)
                    in seekTo newTimestamp (setTimestampStore newTimestamp w))))"

section \<open>Settings of the player\<close>

abbreviation upd_player :: "(player \<Rightarrow> player) \<Rightarrow> world \<Rightarrow> world" where
  "upd_player f w \<equiv> w\<lparr>w_store := (w_store w)\<lparr>player := f (player (w_store w))\<rparr>\<rparr>"

definition decreaseVolume :: "rat \<Rightarrow> world \<Rightarrow> world" where
  "decreaseVolume value w = upd_player (\<lambda>p. p\<lparr>p_volume := max 0 (p_volume p - value)\<rparr>) w"

definition increaseVolume :: "rat \<Rightarrow> world \<Rightarrow> world" where
  "increaseVolume value w = upd_player (\<lambda>p. p\<lparr>p_volume := min 100 (p_volume p + value)\<rparr>) w"

definition setCrossfadeDuration :: "rat \<Rightarrow> world \<Rightarrow> world" where
  "setCrossfadeDuration duration w =
     (let normalizedDuration = max 0 (min 10 duration)
      in upd_player (\<lambda>p. p\<lparr>p_crossfadeDuration := normalizedDuration\<rparr>) w)"

definition setCrossfadeStyle :: "CrossfadeStyle \<Rightarrow> world \<Rightarrow> world" where
  "setCrossfadeStyle style w = upd_player (\<lambda>p. p\<lparr>p_crossfadeStyle := style\<rparr>) w"

definition setPauseOnNextSongEnd :: "bool \<Rightarrow> world \<Rightarrow> world" where
  "setPauseOnNextSongEnd value w = upd_player (\<lambda>p. p\<lparr>p_pauseOnNextSongEnd := value\<rparr>) w"

definition setRepeat :: "PlayerRepeat \<Rightarrow> world \<Rightarrow> world" where
  "setRepeat rep w = upd_player (\<lambda>p. p\<lparr>p_repeat := rep\<rparr>) w"

definition setSpeed :: "rat \<Rightarrow> world \<Rightarrow> world" where
  "setSpeed speed w =
     (let normalizedSpeed = max (1 / 2) (min 2 speed)
      in upd_player (\<lambda>p. p\<lparr>p_speed := normalizedSpeed\<rparr>) w)"

definition setTransitionType :: "PlayerStyle \<Rightarrow> world \<Rightarrow> world" where
  "setTransitionType style w = upd_player (\<lambda>p. p\<lparr>p_transitionType := style\<rparr>) w"

definition setVolume :: "rat \<Rightarrow> world \<Rightarrow> world" where
  "setVolume volume w = upd_player (\<lambda>p. p\<lparr>p_volume := volume\<rparr>) w"

definition toggleRepeat :: "world \<Rightarrow> world" where
  "toggleRepeat w =
     upd_player (\<lambda>p. p\<lparr>p_repeat :=
       (if p_repeat p = Repeat_NONE then Repeat_ONE
        else if p_repeat p = Repeat_ONE then Repeat_ALL
        else Repeat_NONE)\<rparr>) w"

section \<open>The radio store\<close>

definition radioPause :: "world \<Rightarrow> world" where
  "radioPause w = mediaPause (w\<lparr>w_radio := (w_radio w)\<lparr>r_isPlaying := False\<rparr>\<rparr>)"

definition radioPlay ::
    "string option \<Rightarrow> string option \<Rightarrow> string option \<Rightarrow> world \<Rightarrow> world" where
  "radioPlay streamUrl stationName stationArt w =
     (let state = w_radio w;
          newStreamUrl = (if streamUrl = None then r_streamUrl state else streamUrl);
          newStationName = (if stationName = None then r_stationName state else stationName)
      in if \<not> truthy newStreamUrl then w
         else
           (let streamUrlExplicit = (streamUrl \<noteq> None);
                isSwitchingStation = (streamUrlExplicit \<and> streamUrl \<noteq> r_streamUrl state);
                nextStationArt = (if isSwitchingStation then stationArt else r_stationArt state);
                w1 = mediaPlay None w
            in w1\<lparr>w_radio := \<lparr>r_stationArt = nextStationArt, r_streamUrl = newStreamUrl,
                  r_isPlaying = True,
                  r_metadata = (if isSwitchingStation then None else r_metadata state),
                  r_stationName = newStationName\<rparr>\<rparr>))"

end
