(* ===== verification/PlayerStore.thy ===== *)
theory PlayerStore
  imports PlayerMedia
begin

text \<open>
  The player store as a component driven by its actions: every action of the store, the exported
  updates of the queued songs and the radio's calls are the operations of one step function. Each
  operation keeps the invariant \<open>store_ok\<close> (the queued ids have their songs, filed under their own
  unique ids), and hence so does every sequence of operations.
\<close>

section \<open>The invariant and the writes it allows\<close>

definition songs_ok :: "queue_song obj \<Rightarrow> bool" where
  "songs_ok m = (distinct (obj_keys m) \<and> list_all (\<lambda>(k, v). uniqueId v = k) m)"

lemma store_ok_iff:
  "store_ok s \<longleftrightarrow> songs_ok (q_songs (queue s))
     \<and> set (q_default (queue s)) \<subseteq> fst ` set (q_songs (queue s))"
  by (auto simp: store_ok_def songs_ok_def list_all_iff)

lemma store_ok_frame [simp]:
  "store_ok (s\<lparr>player := p\<rparr>) = store_ok s"
  "store_ok (s\<lparr>hydrated := h\<rparr>) = store_ok s"
  "store_ok (set_shuffled x s) = store_ok s"
  by (simp_all add: store_ok_def)

lemma songs_ok_addSong: "songs_ok m \<Longrightarrow> songs_ok (addSong m item)"
  by (auto simp: songs_ok_def addSong_def distinct_update list_all_iff dest!: obj_update_elem)

lemma keys_addSong: "fst ` set (addSong m item) = insert (uniqueId item) (fst ` set m)"
  using obj_keys_update [of "uniqueId item" item m] by (simp add: addSong_def)

lemma foldl_addSong:
  "songs_ok m \<Longrightarrow> songs_ok (foldl addSong m items)"
  "fst ` set (foldl addSong m items) = fst ` set m \<union> uniqueId ` set items"
  by (induction items arbitrary: m) (auto simp: songs_ok_addSong keys_addSong)

lemma addSongs_frame [simp]:
  "q_default (queue (addSongs items s)) = q_default (queue s)"
  "q_shuffled (queue (addSongs items s)) = q_shuffled (queue s)"
  "player (addSongs items s) = player s"
  "hydrated (addSongs items s) = hydrated s"
  "songs_ok (q_songs (queue s)) \<Longrightarrow> songs_ok (q_songs (queue (addSongs items s)))"
  "fst ` set (q_songs (queue (addSongs items s))) = fst ` set (q_songs (queue s)) \<union> uniqueId ` set items"
  by (simp_all add: addSongs_def foldl_addSong)

lemma cleanup_frame [simp]:
  "q_default (queue (snd (cleanupOrphanedSongs s))) = q_default (queue s)"
  "q_shuffled (queue (snd (cleanupOrphanedSongs s))) = q_shuffled (queue s)"
  "player (snd (cleanupOrphanedSongs s)) = player s"
  by (simp_all add: cleanupOrphanedSongs_def Let_def)

lemma cleanup_songs:
  "q_songs (queue (snd (cleanupOrphanedSongs s))) =
     filter (\<lambda>p. fst p \<in> set (q_default (queue s))) (q_songs (queue s))"
proof -
  let ?m = "q_songs (queue s)" and ?q = "q_default (queue s)"
  have "filter (\<lambda>p. fst p \<notin> set (filter (\<lambda>k. k \<notin> set ?q) (obj_keys ?m))) ?m
          = filter (\<lambda>p. fst p \<in> set ?q) ?m"
    by (rule filter_cong) auto
  moreover have "filter (\<lambda>k. k \<notin> set ?q) (obj_keys ?m) = [] \<Longrightarrow> filter (\<lambda>p. fst p \<in> set ?q) ?m = ?m"
    by (auto simp: filter_empty_conv filter_id_conv)
  ultimately show ?thesis by (simp add: cleanupOrphanedSongs_def Let_def)
qed

lemma songs_ok_filter: "songs_ok m \<Longrightarrow> songs_ok (filter P m)"
  by (auto simp: songs_ok_def list_all_iff distinct_map_filter)

lemma store_ok_cleanup [store_inv]: "store_ok s \<Longrightarrow> store_ok (snd (cleanupOrphanedSongs s))"
  by (auto simp: store_ok_iff cleanup_songs songs_ok_filter)

lemma recalculate_frame [simp]:
  "queue (recalculatePlayerIndex g s q) = queue s"
  "hydrated (recalculatePlayerIndex g s q) = hydrated s"
  by (auto simp: recalculatePlayerIndex_def Let_def split: option.splits)

section \<open>Every operation keeps the invariant\<close>

lemma store_ok_addLast [store_inv]: "store_ok s \<Longrightarrow> store_ok (fst (addLast items (s, r)))"
  by (auto simp: addLast_def Let_def store_ok_iff split: prod.splits)

lemma store_ok_addLastShuffle [store_inv]:
  "store_ok s \<Longrightarrow> store_ok (fst (addLastShuffle items (s, r)))"
  by (auto simp: addLastShuffle_def Let_def store_ok_iff split: prod.splits dest!: shuf.sh_eq_set)

lemma insertIntoShuffled_frame [simp]:
  "q_default (queue (fst (insertIntoShuffled c p k (s, r)))) = q_default (queue s)"
  "q_songs (queue (fst (insertIntoShuffled c p k (s, r)))) = q_songs (queue s)"
  "player (fst (insertIntoShuffled c p k (s, r))) = player s"
  "hydrated (fst (insertIntoShuffled c p k (s, r))) = hydrated s"
  by (simp_all add: insertIntoShuffled_def Let_def split: prod.splits)

lemma set_insert_at: "set (slice_to q p) \<union> (A \<union> set (slice_from q p)) = set q \<union> A"
proof -
  have "set (slice_to q p) \<union> set (slice_from q p) = set q" by (metis set_append slice_join)
  then show ?thesis by auto
qed

lemma store_ok_addNext [store_inv]: "store_ok s \<Longrightarrow> store_ok (fst (addNext items (s, r)))"
  by (auto simp: addNext_def Let_def store_ok_iff dest: subsetD [OF set_slices(1)]
      subsetD [OF set_slices(2)])

lemma store_ok_addNextShuffle [store_inv]:
  "store_ok s \<Longrightarrow> store_ok (fst (addNextShuffle items (s, r)))"
  by (auto simp: addNextShuffle_def Let_def store_ok_iff split: prod.splits dest!: shuf.sh_eq_set
      dest: subsetD [OF set_slices(1)] subsetD [OF set_slices(2)])

lemma replaceQueue_frame [simp]:
  "q_default (queue (replaceQueue ids s)) = ids"
  "q_shuffled (queue (replaceQueue ids s)) = q_shuffled (queue s)"
  "q_songs (queue (replaceQueue ids s)) = q_songs (queue s)"
  "p_index (player (replaceQueue ids s)) = Num 0"
  "p_status (player (replaceQueue ids s)) = PLAYING"
  "p_shuffle (player (replaceQueue ids s)) = p_shuffle (player s)"
  by (simp_all add: replaceQueue_def)

lemma store_ok_addNow [store_inv]: "store_ok s \<Longrightarrow> store_ok (fst (addNow items t (s, r)))"
  by (auto simp: addNow_def Let_def store_ok_iff split: prod.splits)

lemma store_ok_addShuffle [store_inv]: "store_ok s \<Longrightarrow> store_ok (fst (addShuffle items (s, r)))"
  by (auto simp: addShuffle_def Let_def store_ok_iff split: prod.splits dest!: shuf.sh_eq_set)

lemma insertByUniqueId_queue:
  "q_songs (queue (fst (insertByUniqueId items t e (s, r)))) = q_songs (queue (addSongs items s))"
  "q_default (queue (fst (insertByUniqueId items t e (s, r)))) =
     take (insertIndexFor t e (q_default (queue s))) (q_default (queue s)) @ map uniqueId items
       @ drop (insertIndexFor t e (q_default (queue s))) (q_default (queue s))"
  by (simp_all add: insertByUniqueId_def Let_def split: prod.splits)

lemma store_ok_insertByUniqueId [store_inv]:
  "store_ok s \<Longrightarrow> store_ok (fst (insertByUniqueId items t e (s, r)))"
  by (auto simp: store_ok_iff insertByUniqueId_queue dest: in_set_takeD in_set_dropD)

lemma store_ok_clearQueue [store_inv]: "store_ok (clearQueue s)"
  by (simp add: store_ok_def clearQueue_def)

lemma store_ok_clearSelected [store_inv]: "store_ok s \<Longrightarrow> store_ok (clearSelected items s)"
  by (auto simp: clearSelected_def Let_def store_ok_iff cleanup_songs songs_ok_filter)

lemma store_ok_moveSelectedTo [store_inv]: "store_ok s \<Longrightarrow> store_ok (moveSelectedTo items t e s)"
  by (auto simp: moveSelectedTo_def Let_def store_ok_iff dest: in_set_takeD in_set_dropD)

lemma store_ok_move [store_inv]:
  "store_ok s \<Longrightarrow> store_ok (moveSelectedToBottom items s)"
  "store_ok s \<Longrightarrow> store_ok (moveSelectedToTop items s)"
  "store_ok s \<Longrightarrow> store_ok (moveSelectedToNext items s)"
  by (auto simp: moveSelectedToBottom_def moveSelectedToTop_def moveSelectedToNext_def Let_def
      store_ok_iff dest!: subsetD [OF set_slices(1)] subsetD [OF set_slices(2)])

lemma store_ok_restoreQueue [store_inv]: "store_ok s \<Longrightarrow> store_ok (restoreQueue items i s)"
  by (auto simp: restoreQueue_def store_ok_iff)

lemma leaveShuffle_queue [simp]:
  "q_default (queue (leaveShuffle b i s)) = q_default (queue s)"
  "q_songs (queue (leaveShuffle b i s)) = q_songs (queue s)"
  "q_shuffled (queue (leaveShuffle b i s)) = []"
  by (auto simp: leaveShuffle_def Let_def split: option.splits)

lemma store_ok_setShuffle [store_inv]: "store_ok s \<Longrightarrow> store_ok (fst (setShuffle m (s, r)))"
  by (auto simp: setShuffle_def Let_def store_ok_iff cleanup_songs songs_ok_filter
      split: prod.splits option.splits)

lemma store_ok_toggleShuffle [store_inv]: "store_ok s \<Longrightarrow> store_ok (fst (toggleShuffle (s, r)))"
  by (auto simp: toggleShuffle_def Let_def store_ok_iff split: prod.splits)

lemma store_ok_shuffleQueue [store_inv]: "store_ok s \<Longrightarrow> store_ok (fst (shuffleQueue (s, r)))"
  by (auto simp: shuffleQueue_def Let_def split: prod.splits)

lemma regenerate_frame [simp]:
  "q_default (queue (fst (regenerateShuffledIndexesIfNeeded sr))) = q_default (queue (fst sr))"
  "q_songs (queue (fst (regenerateShuffledIndexesIfNeeded sr))) = q_songs (queue (fst sr))"
  "player (fst (regenerateShuffledIndexesIfNeeded sr)) = player (fst sr)"
  "hydrated (fst (regenerateShuffledIndexesIfNeeded sr)) = hydrated (fst sr)"
  by (simp_all add: regenerateShuffledIndexesIfNeeded_def Let_def split: prod.splits)

lemma store_ok_same_songs:
  "store_ok s \<Longrightarrow> q_songs (queue t) = q_songs (queue s) \<Longrightarrow>
     set (q_default (queue t)) \<subseteq> set (q_default (queue s)) \<Longrightarrow> store_ok t"
  by (auto simp: store_ok_iff)

lemma shuffleDefaultAll_props [simp]:
  "mset (q_default (queue (fst (shuffleDefaultAll (s, r))))) = mset (q_default (queue s))"
  "q_songs (queue (fst (shuffleDefaultAll (s, r)))) = q_songs (queue s)"
  "player (fst (shuffleDefaultAll (s, r))) = player s"
  "hydrated (fst (shuffleDefaultAll (s, r))) = hydrated s"
  by (auto simp: shuffleDefaultAll_def split: prod.splits dest!: shuf.sh_eq_mset)

lemma mset_split_at:
  assumes "findIndex (\<lambda>x. x = k) q = i" and "i \<noteq> -1"
  shows "mset (take (nat i) q) + add_mset k (mset (drop (Suc (nat i)) q)) = mset q"
proof -
  have i: "nat i < length q" "q ! nat i = k"
    using findIndex_nth [of "\<lambda>x. x = k" q] findIndex_less [of "\<lambda>x. x = k" q]
      findIndex_ge [of "\<lambda>x. x = k" q] assms by auto
  then have "q = take (nat i) q @ k # drop (Suc (nat i)) q"
    using id_take_nth_drop [of "nat i" q] by simp
  then have "mset q = mset (take (nat i) q @ k # drop (Suc (nat i)) q)" by (rule arg_cong)
  then show ?thesis by simp
qed

lemma shuffleAround_props [simp]:
  "mset (q_default (queue (fst (shuffleAround k (s, r))))) = mset (q_default (queue s))"
  "q_songs (queue (fst (shuffleAround k (s, r)))) = q_songs (queue s)"
  "player (fst (shuffleAround k (s, r))) = player s"
  "hydrated (fst (shuffleAround k (s, r))) = hydrated s"
  using mset_split_at [OF refl, of k "q_default (queue s)"]
  by (simp_all add: shuffleAround_def Let_def split_beta shuf.sh_mset)

lemma shuffleAll_mset:
  "mset (q_default (queue (fst (shuffleAll (s, r))))) = mset (q_default (queue s))"
  unfolding shuffleAll_def prod.case
  by (cases "js_nth (snd (getQueue None s)) (p_index (player s))") simp_all

lemma shuffleAll_songs: "q_songs (queue (fst (shuffleAll (s, r)))) = q_songs (queue s)"
  unfolding shuffleAll_def prod.case
  by (cases "js_nth (snd (getQueue None s)) (p_index (player s))") simp_all

lemma shuffleAll_player: "player (fst (shuffleAll (s, r))) = player s"
  unfolding shuffleAll_def prod.case
  by (cases "js_nth (snd (getQueue None s)) (p_index (player s))") simp_all

lemmas shuffleAll_props = shuffleAll_mset shuffleAll_songs shuffleAll_player

lemma store_ok_shuffleAll [store_inv]: "store_ok s \<Longrightarrow> store_ok (fst (shuffleAll (s, r)))"
  by (rule store_ok_same_songs [of s])
    (simp_all only: shuffleAll_songs mset_eq_setD [OF shuffleAll_mset] order_refl)

text \<open>Writing a list of values at a list of positions.\<close>

abbreviation write_at :: "string list \<Rightarrow> (int \<times> string) list \<Rightarrow> string list" where
  "write_at q ps \<equiv> foldl (\<lambda>acc (p, x). acc[nat p := x]) q ps"

lemma set_write_at: "set (write_at q ps) \<subseteq> set q \<union> snd ` set ps"
proof (induction ps arbitrary: q)
  case (Cons a ps)
  have "set (write_at q (a # ps)) \<subseteq> set (q[nat (fst a) := snd a]) \<union> snd ` set ps"
    using Cons [of "q[nat (fst a) := snd a]"] by (cases a) simp
  also have "\<dots> \<subseteq> set q \<union> snd ` set (a # ps)"
    using set_update_subset_insert [of q "nat (fst a)" "snd a"] by auto
  finally show ?case .
qed simp

lemma selectedPositions_in_queue:
  assumes "p \<in> set (selectedPositions ids q)"
  shows "0 \<le> p" "p < int (length q)" "q ! nat p \<in> set ids"
proof -
  obtain k where k: "k \<in> set ids" "p = findIndex (\<lambda>i. i = k) q" "p \<noteq> -1"
    using assms by (auto simp: selectedPositions_def)
  show "0 \<le> p" using k findIndex_ge [of "\<lambda>i. i = k" q] by simp
  show "p < int (length q)" using k findIndex_less [of "\<lambda>i. i = k" q] by simp
  show "q ! nat p \<in> set ids" using k findIndex_nth [of "\<lambda>i. i = k" q] by simp
qed

lemma shuffleSelected_eq:
  "fst (shuffleSelected items (s, r)) =
     (let q = q_default (queue s); ps = selectedPositions (map uniqueId items) q;
          sh = shuffleInPlace (map (\<lambda>p. q ! nat p) ps) r
      in if ps = [] then s
         else fst (regenerateShuffledIndexesIfNeeded
                (set_default (write_at q (zip ps (fst sh))) s, snd sh)))"
  unfolding shuffleSelected_def Let_def prod.case
  by (cases "shuffleInPlace (map (\<lambda>p. q_default (queue s) ! nat p)
        (selectedPositions (map uniqueId items) (q_default (queue s)))) r") simp

lemma shuffleSelected_default:
  "q_default (queue (fst (shuffleSelected items (s, r)))) =
     (let q = q_default (queue s); ps = selectedPositions (map uniqueId items) q
      in write_at q (zip ps (fst (shuffleInPlace (map (\<lambda>p. q ! nat p) ps) r))))"
  unfolding shuffleSelected_eq Let_def by simp

lemma shuffleSelected_songs: "q_songs (queue (fst (shuffleSelected items (s, r)))) = q_songs (queue s)"
  unfolding shuffleSelected_eq Let_def by simp

lemma shuffleSelected_player: "player (fst (shuffleSelected items (s, r))) = player s"
  unfolding shuffleSelected_eq Let_def by simp

lemma shuffleSelected_subset:
  "set (q_default (queue (fst (shuffleSelected items (s, r))))) \<subseteq> set (q_default (queue s))"
proof -
  let ?q = "q_default (queue s)"
  let ?ps = "selectedPositions (map uniqueId items) ?q"
  let ?xs = "map (\<lambda>p. ?q ! nat p) ?ps"
  let ?zs = "zip ?ps (fst (shuffleInPlace ?xs r))"
  have "?q ! nat p \<in> set ?q" if "p \<in> set ?ps" for p
    using selectedPositions_in_queue(1,2) [OF that] by simp
  then have "set ?xs \<subseteq> set ?q" by auto
  moreover have "snd ` set ?zs \<subseteq> set ?xs"
    using shuf.sh_set [of ?xs r] by (auto dest!: set_zip_rightD)
  ultimately have "set (write_at ?q ?zs) \<subseteq> set ?q"
    using set_write_at [of ?q ?zs] by blast
  then show ?thesis unfolding shuffleSelected_default Let_def .
qed

lemma store_ok_shuffleSelected [store_inv]:
  "store_ok s \<Longrightarrow> store_ok (fst (shuffleSelected items (s, r)))"
  by (rule store_ok_same_songs [of s]) (simp_all add: shuffleSelected_songs shuffleSelected_subset)

lemma map_songs_frame [simp]:
  "q_default (queue (map_songs f s)) = q_default (queue s)"
  "q_shuffled (queue (map_songs f s)) = q_shuffled (queue s)"
  "player (map_songs f s) = player s"
  "q_songs (queue (map_songs f s)) = map (\<lambda>(k, v). (k, f v)) (q_songs (queue s))"
  by (simp_all add: map_songs_def)

lemma map_snd_keys [simp]:
  "map fst (map (\<lambda>(k, v). (k, f v)) m) = map fst m"
  "map (fst \<circ> (\<lambda>(k, v). (k, f v))) m = map fst m"
  by (induction m) auto

lemma store_ok_map_songs:
  assumes "\<And>v. uniqueId (f v) = uniqueId v" and "store_ok s"
  shows "store_ok (map_songs f s)"
proof -
  have "fst ` (\<lambda>(k, v). (k, f v)) ` A = fst ` A" for A :: "(string \<times> queue_song) set"
    by force
  then show ?thesis
    using assms by (auto simp: store_ok_iff songs_ok_def list_all_iff)
qed

lemma store_ok_updates [store_inv]:
  "store_ok s \<Longrightarrow> store_ok (updateQueueFavorites ids fav s)"
  "store_ok s \<Longrightarrow> store_ok (updateQueueRatings ids rating s)"
  "store_ok s \<Longrightarrow> store_ok (incrementQueuePlayCount ids s)"
  by (simp_all add: updateQueueFavorites_def updateQueueRatings_def incrementQueuePlayCount_def
      store_ok_map_songs)

lemma uniqueId_replaceSong [simp]: "uniqueId (replaceSong u v) = uniqueId v"
  by (simp add: replaceSong_def)

lemma foldl_replaceSong:
  assumes "songs_ok m"
  shows "songs_ok (foldl (\<lambda>m v. if s_id v = i then AList.update (uniqueId v) (replaceSong u v) m
            else m) m vs)
         \<and> fst ` set m \<subseteq> fst ` set (foldl (\<lambda>m v. if s_id v = i
            then AList.update (uniqueId v) (replaceSong u v) m else m) m vs)"
  using assms
proof (induction vs arbitrary: m)
  case (Cons v vs)
  let ?m = "AList.update (uniqueId v) (replaceSong u v) m"
  have "songs_ok ?m" using songs_ok_addSong [OF Cons.prems, of "replaceSong u v"]
    by (simp add: addSong_def)
  moreover have "fst ` set m \<subseteq> fst ` set ?m"
    using obj_keys_update [of "uniqueId v" "replaceSong u v" m] by auto
  ultimately show ?case using Cons.IH [of ?m] Cons.IH [of m] Cons.prems by auto
qed simp

lemma store_ok_updateQueueSong [store_inv]: "store_ok s \<Longrightarrow> store_ok (updateQueueSong i u s)"
  using foldl_replaceSong [of "q_songs (queue s)" i u "obj_values (q_songs (queue s))"]
  by (auto simp: updateQueueSong_def store_ok_iff)

end
