(* ===== verification/PlayerActions.thy ===== *)
theory PlayerActions
  imports PlayerStore
begin

text \<open>
  The operations of the player as one type, and the step function that performs them on the world:
  the actions of \<^verbatim>\<open>store/player.store.ts\<close>, its exported updates of the queued songs, the restoring of
  the persisted state, and the actions of the radio store. The component interface of the prelude is
  interpreted here, so the invariant holds after every sequence of operations.
\<close>

datatype action =
    Do_addToQueueByType "song list" Play "string option"
  | Do_addToQueueByUniqueId "song list" string edge "string option"
  | Do_addToQueueByData AddToQueueType "song list"
  | Do_clearQueue
  | Do_clearSelected "queue_song list"
  | Do_decreaseVolume rat
  | Do_increaseVolume rat
  | Do_mediaAutoNext
  | Do_mediaNext
  | Do_mediaPause
  | Do_mediaPlay "string option"
  | Do_mediaPlayByIndex jsnum
  | Do_mediaPrevious
  | Do_mediaSeekToTimestamp rat
  | Do_mediaSkipBackward "rat option"
  | Do_mediaSkipForward "rat option"
  | Do_mediaStop "bool option"
  | Do_mediaToggleMute
  | Do_mediaTogglePlayPause
  | Do_moveSelectedTo "queue_song list" string edge
  | Do_moveSelectedToBottom "queue_song list"
  | Do_moveSelectedToNext "queue_song list"
  | Do_moveSelectedToTop "queue_song list"
  | Do_setCrossfadeDuration rat
  | Do_setCrossfadeStyle CrossfadeStyle
  | Do_setPauseOnNextSongEnd bool
  | Do_setQueue "song list" "jsnum option" "rat option"
  | Do_setRepeat PlayerRepeat
  | Do_setShuffle PlayerShuffle
  | Do_setSpeed rat
  | Do_setTransitionType PlayerStyle
  | Do_setVolume rat
  | Do_shuffle
  | Do_shuffleAll
  | Do_shuffleSelected "queue_song list"
  | Do_toggleRepeat
  | Do_toggleShuffle
  | Do_updateQueueFavorites "string list" bool
  | Do_updateQueueRatings "string list" "rat option"
  | Do_incrementQueuePlayCount "string list"
  | Do_updateQueueSong string song
  | Do_setTimestamp rat
  | Do_radioPause
  | Do_radioPlay "string option" "string option" "string option"
  | Do_radioStop

abbreviation on_store :: "(store \<Rightarrow> store) \<Rightarrow> world \<Rightarrow> world" where
  "on_store f w \<equiv> w\<lparr>w_store := f (w_store w)\<rparr>"

fun perform :: "action \<Rightarrow> world \<Rightarrow> world" where
  "perform (Do_addToQueueByType items playType playSongId) w =
     addToQueueByType items playType playSongId w"
| "perform (Do_addToQueueByUniqueId items target e playSongId) w =
     addToQueueByUniqueId items target e playSongId w"
| "perform (Do_addToQueueByData type data) w = addToQueueByData type data w"
| "perform Do_clearQueue w = on_store clearQueue w"
| "perform (Do_clearSelected items) w = on_store (clearSelected items) w"
| "perform (Do_decreaseVolume value) w = decreaseVolume value w"
| "perform (Do_increaseVolume value) w = increaseVolume value w"
| "perform Do_mediaAutoNext w = fst (mediaAutoNext w)"
| "perform Do_mediaNext w = mediaNext w"
| "perform Do_mediaPause w = mediaPause w"
| "perform (Do_mediaPlay nid) w = mediaPlay nid w"
| "perform (Do_mediaPlayByIndex index) w = mediaPlayByIndex index w"
| "perform Do_mediaPrevious w = mediaPrevious w"
| "perform (Do_mediaSeekToTimestamp timestamp) w = mediaSeekToTimestamp timestamp w"
| "perform (Do_mediaSkipBackward offset) w = mediaSkipBackward offset w"
| "perform (Do_mediaSkipForward offset) w = mediaSkipForward offset w"
| "perform (Do_mediaStop options) w = mediaStop options w"
| "perform Do_mediaToggleMute w = mediaToggleMute w"
| "perform Do_mediaTogglePlayPause w = mediaTogglePlayPause w"
| "perform (Do_moveSelectedTo items target e) w = on_store (moveSelectedTo items target e) w"
| "perform (Do_moveSelectedToBottom items) w = on_store (moveSelectedToBottom items) w"
| "perform (Do_moveSelectedToNext items) w = on_store (moveSelectedToNext items) w"
| "perform (Do_moveSelectedToTop items) w = on_store (moveSelectedToTop items) w"
| "perform (Do_setCrossfadeDuration duration) w = setCrossfadeDuration duration w"
| "perform (Do_setCrossfadeStyle style) w = setCrossfadeStyle style w"
| "perform (Do_setPauseOnNextSongEnd value) w = setPauseOnNextSongEnd value w"
| "perform (Do_setQueue items index position) w = setQueue items index position w"
| "perform (Do_setRepeat rep) w = setRepeat rep w"
| "perform (Do_setShuffle mode) w = set_with_draws (setShuffle mode) w"
| "perform (Do_setSpeed speed) w = setSpeed speed w"
| "perform (Do_setTransitionType style) w = setTransitionType style w"
| "perform (Do_setVolume volume) w = setVolume volume w"
| "perform Do_shuffle w = set_with_draws shuffleQueue w"
| "perform Do_shuffleAll w = set_with_draws shuffleAll w"
| "perform (Do_shuffleSelected items) w = set_with_draws (shuffleSelected items) w"
| "perform Do_toggleRepeat w = toggleRepeat w"
| "perform Do_toggleShuffle w = set_with_draws toggleShuffle w"
| "perform (Do_updateQueueFavorites ids favorite) w = on_store (updateQueueFavorites ids favorite) w"
| "perform (Do_updateQueueRatings ids rating) w = on_store (updateQueueRatings ids rating) w"
| "perform (Do_incrementQueuePlayCount ids) w = on_store (incrementQueuePlayCount ids) w"
| "perform (Do_updateQueueSong songId updated) w = on_store (updateQueueSong songId updated) w"
| "perform (Do_setTimestamp timestamp) w = setTimestampStore timestamp w"
| "perform Do_radioPause w = radioPause w"
| "perform (Do_radioPlay url name art) w = radioPlay url name art w"
| "perform Do_radioStop w = radioStop w"

definition initialWorld :: "id_stream \<Rightarrow> draws \<Rightarrow> world" where
  "initialWorld g r =
     \<lparr>w_store = initialState (g 0), w_timestamp = 0, w_radio = noRadio,
      w_skipForwardSeconds = Some 10, w_skipBackwardSeconds = Some 5, w_playbackType = WEB,
      w_hasMpv = False, w_effects = [], w_ids = ids_rest g, w_draws = r\<rparr>"

section \<open>The invariant of the world\<close>

text \<open>The settings of the player that the code clamps.\<close>

definition settings_ok :: "player \<Rightarrow> bool" where
  "settings_ok p = (0 \<le> p_crossfadeDuration p \<and> p_crossfadeDuration p \<le> 10
     \<and> 1 / 2 \<le> p_speed p \<and> p_speed p \<le> 2)"

definition world_ok :: "world \<Rightarrow> bool" where
  "world_ok w = (store_ok (w_store w) \<and> settings_ok (player (w_store w)))"

definition same_settings :: "store \<Rightarrow> store \<Rightarrow> bool" where
  "same_settings s t = (p_crossfadeDuration (player t) = p_crossfadeDuration (player s)
     \<and> p_speed (player t) = p_speed (player s))"

lemma settings_frame [simp]:
  "p_crossfadeDuration (player (recalculatePlayerIndex g t q)) = p_crossfadeDuration (player t)"
  "p_speed (player (recalculatePlayerIndex g t q)) = p_speed (player t)"
  "p_crossfadeDuration (player (leaveShuffle b i t)) = p_crossfadeDuration (player t)"
  "p_speed (player (leaveShuffle b i t)) = p_speed (player t)"
  "p_crossfadeDuration (player (replaceQueue ids t)) = p_crossfadeDuration (player t)"
  "p_speed (player (replaceQueue ids t)) = p_speed (player t)"
  by (auto simp: recalculatePlayerIndex_def leaveShuffle_def replaceQueue_def Let_def
      split: option.splits)

lemma keep_world_ok:
  "world_ok w \<Longrightarrow> store_ok s \<Longrightarrow> same_settings (w_store w) s \<Longrightarrow> w_store w' = s \<Longrightarrow> world_ok w'"
  by (auto simp: world_ok_def settings_ok_def same_settings_def)

lemma same_settings_adds:
  "same_settings s (fst (addLast items (s, r)))"
  "same_settings s (fst (addLastShuffle items (s, r)))"
  "same_settings s (fst (addNext items (s, r)))"
  "same_settings s (fst (addNextShuffle items (s, r)))"
  "same_settings s (fst (addNow items t (s, r)))"
  "same_settings s (fst (addShuffle items (s, r)))"
  by (simp_all add: addLast_def addLastShuffle_def addNext_def addNextShuffle_def
      addNow_def addShuffle_def Let_def same_settings_def split: prod.splits)

lemma same_settings_insert: "same_settings s (fst (insertByUniqueId items t e (s, r)))"
  by (simp add: insertByUniqueId_def Let_def same_settings_def split: prod.splits)

lemma same_settings_edits:
  "same_settings s (clearQueue s)"
  "same_settings s (clearSelected items s)"
  "same_settings s (moveSelectedTo items t e s)"
  "same_settings s (moveSelectedToBottom items s)"
  "same_settings s (moveSelectedToNext items s)"
  "same_settings s (moveSelectedToTop items s)"
  "same_settings s (restoreQueue qs i s)"
  by (simp_all add: clearQueue_def clearSelected_def moveSelectedTo_def moveSelectedToBottom_def
      moveSelectedToNext_def moveSelectedToTop_def restoreQueue_def Let_def same_settings_def)

lemma same_settings_updates:
  "same_settings s (updateQueueFavorites ids fav s)"
  "same_settings s (updateQueueRatings ids rating s)"
  "same_settings s (incrementQueuePlayCount ids s)"
  "same_settings s (updateQueueSong sid u s)"
  by (simp_all add: updateQueueFavorites_def updateQueueRatings_def incrementQueuePlayCount_def
      updateQueueSong_def same_settings_def)

lemma same_settings_shuffles:
  "same_settings s (fst (setShuffle m (s, r)))"
  "same_settings s (fst (toggleShuffle (s, r)))"
  "same_settings s (fst (shuffleQueue (s, r)))"
  "same_settings s (fst (shuffleAll (s, r)))"
  "same_settings s (fst (shuffleSelected items (s, r)))"
  by (simp_all add: setShuffle_def toggleShuffle_def shuffleQueue_def shuffleAll_player
      shuffleSelected_player same_settings_def Let_def split: prod.splits option.splits)

lemmas same_settings_all = same_settings_adds same_settings_insert same_settings_edits
  same_settings_updates same_settings_shuffles

text \<open>The calls that only move on to another world with the same store.\<close>

lemma world_ok_store: "w_store w' = w_store w \<Longrightarrow> world_ok w \<Longrightarrow> world_ok w'"
  by (simp add: world_ok_def)

lemma world_ok_effects [simp]:
  "world_ok (emit e w) = world_ok w"
  "world_ok (setTimestampStore t w) = world_ok w"
  "world_ok (w\<lparr>w_ids := g\<rparr>) = world_ok w"
  "world_ok (w\<lparr>w_radio := rd\<rparr>) = world_ok w"
  "world_ok (w\<lparr>w_draws := d\<rparr>) = world_ok w"
  by (simp_all add: world_ok_def emit_def setTimestampStore_def)

lemma world_ok_seekTo [simp]: "world_ok (seekTo t w) = world_ok w"
  by (simp add: world_ok_def seekTo_def settings_ok_def)

lemma world_ok_writes [simp]:
  "world_ok (set_store (set_index i (w_store w)) w) = world_ok w"
  "world_ok (set_store (set_status x (w_store w)) w) = world_ok w"
  "world_ok (set_store (set_status x (set_index i (w_store w))) w) = world_ok w"
  "world_ok (set_store (set_playerNum n (set_index i (w_store w))) w) = world_ok w"
  "world_ok (set_store ((w_store w)\<lparr>player := (player (w_store w))\<lparr>p_index := i, p_status := x\<rparr>\<rparr>) w)
     = world_ok w"
  "world_ok (set_store ((w_store w)\<lparr>player := (player (w_store w))\<lparr>p_index := i, p_playerNum := n\<rparr>\<rparr>) w)
     = world_ok w"
  by (simp_all add: world_ok_def settings_ok_def)

lemma world_ok_set_store:
  "world_ok w \<Longrightarrow> store_ok s \<Longrightarrow> same_settings (w_store w) s \<Longrightarrow> world_ok (set_store s w)"
  by (auto simp: world_ok_def settings_ok_def same_settings_def)

lemma world_ok_store_ok: "world_ok w \<Longrightarrow> store_ok (w_store w)"
  by (simp add: world_ok_def)

lemma world_ok_set_with_draws:
  assumes "world_ok w"
    and "\<And>r. store_ok (w_store w) \<Longrightarrow> store_ok (fst (f (w_store w, r)))"
    and "\<And>r. same_settings (w_store w) (fst (f (w_store w, r)))"
  shows "world_ok (set_with_draws f w)"
  using assms(1) assms(2) [OF world_ok_store_ok [OF assms(1)], of "w_draws w"]
    assms(3) [of "w_draws w"]
  by (auto simp: set_with_draws_def world_ok_def settings_ok_def same_settings_def
      split: prod.splits)

lemma world_ok_startSong [simp]: "world_ok (startSong nid w) = world_ok w"
  by (simp add: startSong_def split: option.splits)

lemma world_ok_emitPlay [simp]: "world_ok (emitPlayerPlayEvent t w) = world_ok w"
  by (simp add: emitPlayerPlayEvent_def Let_def split: option.splits)

lemma world_ok_mediaStop [simp]: "world_ok (mediaStop opt w) = world_ok w"
  by (simp add: mediaStop_def Let_def)

lemma world_ok_radioStop [simp]: "world_ok (radioStop w) = world_ok w"
  by (simp add: radioStop_def Let_def)

lemma world_ok_stopRadio [simp]: "world_ok (stopRadioIfActive w) = world_ok w"
  by (simp add: stopRadioIfActive_def)

lemmas world_ok_queue_intros = world_ok_set_with_draws store_inv same_settings_all

lemma world_ok_addToQueueByType: "world_ok w \<Longrightarrow> world_ok (addToQueueByType items t p w)"
  by (cases t) (auto simp: addToQueueByType_def Let_def split: prod.splits
      intro!: world_ok_queue_intros)

lemma world_ok_addToQueueByUniqueId:
  "world_ok w \<Longrightarrow> world_ok (addToQueueByUniqueId items t e p w)"
  by (auto simp: addToQueueByUniqueId_def Let_def split: prod.splits
      intro!: world_ok_queue_intros)

lemma world_ok_addToQueueByData: "world_ok w \<Longrightarrow> world_ok (addToQueueByData t d w)"
  by (auto simp: addToQueueByData_def Let_def split: prod.splits AddToQueueType.splits
      intro: world_ok_addToQueueByType world_ok_addToQueueByUniqueId)

lemma mediaAutoNext_frame [simp]:
  "queue (w_store (fst (mediaAutoNext w))) = queue (w_store w)"
  "p_crossfadeDuration (player (w_store (fst (mediaAutoNext w)))) =
     p_crossfadeDuration (player (w_store w))"
  "p_speed (player (w_store (fst (mediaAutoNext w)))) = p_speed (player (w_store w))"
  unfolding mediaAutoNext_def Let_def
  by (simp_all add: case_prod_beta if_distrib [of w_store] if_distrib [of player] if_distrib [of queue]
      emit_def setTimestampStore_def)

lemma world_ok_same_queue:
  "world_ok w \<Longrightarrow> queue (w_store w') = queue (w_store w) \<Longrightarrow>
     same_settings (w_store w) (w_store w') \<Longrightarrow> world_ok w'"
  by (simp add: world_ok_def store_ok_def settings_ok_def same_settings_def)

lemma world_ok_mediaAutoNext: "world_ok w \<Longrightarrow> world_ok (fst (mediaAutoNext w))"
  by (rule world_ok_same_queue) (simp_all add: same_settings_def)

lemma world_ok_media [simp]:
  "world_ok (mediaNext w) = world_ok w"
  "world_ok (mediaPrevious w) = world_ok w"
  "world_ok (mediaPause w) = world_ok w"
  "world_ok (mediaPlay nid w) = world_ok w"
  "world_ok (mediaPlayByIndex i w) = world_ok w"
  "world_ok (mediaSeekToTimestamp t w) = world_ok w"
  "world_ok (mediaSkipBackward off w) = world_ok w"
  "world_ok (mediaSkipForward off w) = world_ok w"
  "world_ok (mediaTogglePlayPause w) = world_ok w"
  by (simp_all add: mediaNext_def mediaPrevious_def mediaPause_def mediaPlay_def mediaPlayByIndex_def
      mediaSeekToTimestamp_def mediaSkipBackward_def mediaSkipForward_def mediaTogglePlayPause_def
      Let_def split: option.splits)

lemma world_ok_settings:
  "world_ok w \<Longrightarrow> world_ok (setCrossfadeDuration d w)"
  "world_ok w \<Longrightarrow> world_ok (setSpeed v w)"
  by (auto simp: world_ok_def settings_ok_def setCrossfadeDuration_def setSpeed_def Let_def)

lemma world_ok_other_settings [simp]:
  "world_ok (decreaseVolume v w) = world_ok w"
  "world_ok (increaseVolume v w) = world_ok w"
  "world_ok (setVolume v w) = world_ok w"
  "world_ok (setCrossfadeStyle st w) = world_ok w"
  "world_ok (setPauseOnNextSongEnd b w) = world_ok w"
  "world_ok (setRepeat rep w) = world_ok w"
  "world_ok (setTransitionType tt w) = world_ok w"
  "world_ok (toggleRepeat w) = world_ok w"
  "world_ok (mediaToggleMute w) = world_ok w"
  by (simp_all add: world_ok_def settings_ok_def decreaseVolume_def increaseVolume_def setVolume_def
      setCrossfadeStyle_def setPauseOnNextSongEnd_def setRepeat_def setTransitionType_def
      toggleRepeat_def mediaToggleMute_def Let_def)

lemma world_ok_setQueue: "world_ok w \<Longrightarrow> world_ok (setQueue items i p w)"
  by (auto simp: setQueue_def Let_def split: prod.splits
      intro!: world_ok_set_store store_inv same_settings_all world_ok_store_ok)

lemma world_ok_radio [simp]:
  "world_ok (radioPause w) = world_ok w"
  "world_ok (radioPlay u n a w) = world_ok w"
  by (simp_all add: radioPause_def radioPlay_def Let_def)

lemma world_ok_on_store:
  "world_ok w \<Longrightarrow> (store_ok (w_store w) \<Longrightarrow> store_ok (f (w_store w))) \<Longrightarrow>
     same_settings (w_store w) (f (w_store w)) \<Longrightarrow> world_ok (on_store f w)"
  by (rule world_ok_set_store) (auto simp: world_ok_store_ok)

lemma world_ok_perform: "world_ok w \<Longrightarrow> world_ok (perform a w)"
  by (cases a)
    (auto intro!: world_ok_on_store world_ok_queue_intros world_ok_addToQueueByType
      world_ok_addToQueueByUniqueId world_ok_addToQueueByData world_ok_mediaAutoNext
      world_ok_settings world_ok_setQueue)

lemma world_ok_initial: "world_ok (initialWorld g r)"
  by (simp add: world_ok_def store_ok_def settings_ok_def initialWorld_def initialState_def)

interpretation playerc: driven_component perform world_ok
  by unfold_locales (rule world_ok_perform)

end
