(* ===== verification/PlayOrder.thy ===== *)
theory PlayOrder
  imports PlayerActions
begin

text \<open>
  The abstract view of the player: the list of the unique ids in the order they are played, and a
  position in it. The store represents it by \<open>queue.default\<close>, \<open>queue.shuffled\<close> and \<open>player.index\<close>;
  the operations of the queue and of the transport refine operations on that list.
\<close>

section \<open>The playback order\<close>

definition playOrder :: "store \<Rightarrow> string list" where
  "playOrder s =
     (if isShuffleEnabled s
      then List.map_filter (js_nth (q_default (queue s))) (q_shuffled (queue s))
      else q_default (queue s))"

text \<open>While shuffle is enabled, \<open>shuffled\<close> is a permutation of the positions of the queue.\<close>

definition order_ok :: "store \<Rightarrow> bool" where
  "order_ok s =
     (isShuffleEnabled s \<longrightarrow>
        mset (q_shuffled (queue s)) = mset (indexes (length (q_default (queue s)))))"

text \<open>An index written into a playback order, as the position that the player reads.\<close>

definition index_ok :: "store \<Rightarrow> bool" where
  "index_ok s = (Num 0 \<le> p_index (player s)
     \<and> p_index (player s) < Num (int (length (q_default (queue s)))))"

lemma order_okD:
  "order_ok s \<Longrightarrow> isShuffleEnabled s \<Longrightarrow>
     mset (q_shuffled (queue s)) = mset (indexes (length (q_default (queue s))))"
  by (simp only: order_ok_def simp_thms)

lemma order_ok_length:
  "order_ok s \<Longrightarrow> isShuffleEnabled s \<Longrightarrow> length (q_shuffled (queue s)) = length (q_default (queue s))"
  using mset_eq_length [OF order_okD] by simp

lemma order_ok_elem:
  "order_ok s \<Longrightarrow> isShuffleEnabled s \<Longrightarrow> x \<in> set (q_shuffled (queue s)) \<Longrightarrow>
     \<exists>i < length (q_default (queue s)). x = Num (int i)"
  using mset_eq_setD [OF order_okD] by auto

definition id_at :: "string list \<Rightarrow> jsnum \<Rightarrow> string" where
  "id_at q x = the (js_nth q x)"

lemma map_filter_js_nth:
  "\<forall>x \<in> set xs. \<exists>i < length q. x = Num (int i) \<Longrightarrow> List.map_filter (js_nth q) xs = map (id_at q) xs"
  by (induction xs) (auto simp: map_filter_simps id_at_def)

lemma playOrder_shuffled:
  "order_ok s \<Longrightarrow> isShuffleEnabled s \<Longrightarrow>
     playOrder s = map (id_at (q_default (queue s))) (q_shuffled (queue s))"
  by (simp add: playOrder_def map_filter_js_nth order_ok_elem)

lemma map_id_at_indexes: "map (id_at q) (indexes (length q)) = q"
  by (rule nth_equalityI) (auto simp: id_at_def)

lemma playOrder_mset: "order_ok s \<Longrightarrow> mset (playOrder s) = mset (q_default (queue s))"
proof (cases "isShuffleEnabled s")
  case True
  assume ok: "order_ok s"
  have "mset (playOrder s) = image_mset (id_at (q_default (queue s))) (mset (q_shuffled (queue s)))"
    by (simp add: playOrder_shuffled [OF ok True])
  also have "mset (q_shuffled (queue s)) = mset (indexes (length (q_default (queue s))))"
    using ok True by (simp add: order_ok_def)
  also have "image_mset (id_at (q_default (queue s))) \<dots> =
      mset (map (id_at (q_default (queue s))) (indexes (length (q_default (queue s)))))"
    by (rule mset_map [symmetric])
  finally show ?thesis by (simp only: map_id_at_indexes)
qed (simp add: playOrder_def)

lemma length_playOrder: "order_ok s \<Longrightarrow> length (playOrder s) = length (q_default (queue s))"
  using playOrder_mset by (rule mset_eq_length)

text \<open>Reading the queue through the shuffled indexes is reading the playback order.\<close>

lemma js_nth_playOrder:
  assumes "order_ok s" and "isShuffleEnabled s"
  shows "js_nth (playOrder s) i =
     (case js_nth (q_shuffled (queue s)) i of None \<Rightarrow> None | Some x \<Rightarrow> js_nth (q_default (queue s)) x)"
proof (cases "js_nth (q_shuffled (queue s)) i")
  case None
  then show ?thesis by (simp add: playOrder_shuffled [OF assms] js_nth_map)
next
  case (Some x)
  then obtain k where "k < length (q_default (queue s))" "x = Num (int k)"
    using order_ok_elem [OF assms js_nth_in_set] by blast
  with Some show ?thesis by (simp add: playOrder_shuffled [OF assms] js_nth_map id_at_def)
qed

lemma currentId_playOrder:
  assumes "store_ok s" and "order_ok s"
  shows "currentId s = js_nth (playOrder s) (p_index (player s))"
proof (cases "isShuffleEnabled s")
  case True
  have "js_nth (q_shuffled (queue s)) (p_index (player s)) = None \<Longrightarrow>
      js_nth (q_default (queue s)) (p_index (player s)) = None"
    using order_ok_length [OF assms(2) True] by (auto simp: js_nth_def split: jsnum.splits if_splits)
  then show ?thesis
    by (auto simp: currentId_eq [OF assms(1)] currentQueueIndex_def True
        js_nth_playOrder [OF assms(2) True] mapShuffledToQueueIndex_def split: option.splits)
next
  case False
  then show ?thesis by (simp add: currentId_eq [OF assms(1)] currentQueueIndex_def playOrder_def)
qed

lemma songAtShuffled_playOrder:
  assumes "store_ok s" and "order_ok s" and "isShuffleEnabled s"
  shows "map_option uniqueId (songAtShuffled (queueItems s) (q_shuffled (queue s)) i) =
     js_nth (playOrder s) i"
  by (simp add: songAtShuffled_def js_nth_playOrder [OF assms(2,3)] js_nth_queueItems_id [OF assms(1)]
      split: option.splits)

section \<open>The songs before and after, abstractly\<close>

definition next_id :: "string list \<Rightarrow> int \<Rightarrow> PlayerRepeat \<Rightarrow> string option" where
  "next_id order i rep =
     (if rep = Repeat_ONE then js_nth order (Num i)
      else if i + 1 < int (length order) then js_nth order (Num (i + 1))
      else if rep = Repeat_ALL then js_nth order (Num 0) else None)"

definition prev_id :: "bool \<Rightarrow> string list \<Rightarrow> int \<Rightarrow> PlayerRepeat \<Rightarrow> string option" where
  "prev_id wraps order i rep =
     (if 0 < i then js_nth order (Num (i - 1))
      else if wraps \<and> rep = Repeat_ALL then js_nth order (Num (int (length order) - 1)) else None)"

lemma index_okE:
  assumes "index_ok s"
  obtains i where "p_index (player s) = Num i" "0 \<le> i" "i < int (length (q_default (queue s)))"
  using assms by (cases "p_index (player s)") (auto simp: index_ok_def)

lemma getPlayerData_ids:
  assumes "store_ok s" and "order_ok s" and "index_ok s"
  obtains i where "p_index (player s) = Num i" "0 \<le> i" "i < int (length (playOrder s))"
    "map_option uniqueId (d_currentSong (getPlayerData s)) = js_nth (playOrder s) (Num i)"
    "map_option uniqueId (d_nextSong (getPlayerData s)) = next_id (playOrder s) i (p_repeat (player s))"
    "map_option uniqueId (d_previousSong (getPlayerData s)) =
       prev_id (isShuffleEnabled s) (playOrder s) i (p_repeat (player s))"
proof -
  obtain i where i: "p_index (player s) = Num i" "0 \<le> i" "i < int (length (q_default (queue s)))"
    using assms(3) by (rule index_okE)
  have len: "length (playOrder s) = length (q_default (queue s))"
    "length (queueItems s) = length (q_default (queue s))"
    using assms by (simp_all add: length_playOrder length_queueItems)
  have cur: "d_currentSong (getPlayerData s) = getCurrentSong s"
    by (simp add: getPlayerData_def Let_def getCurrentSong_eq currentQueueIndex_def split: prod.splits)
  have nxt: "d_nextSong (getPlayerData s) =
      nextSongAt (isShuffleEnabled s) (queueItems s) (q_shuffled (queue s)) (p_repeat (player s))
        (Num i) (currentQueueIndex s)"
    by (simp add: getPlayerData_def Let_def currentQueueIndex_def i split: prod.splits)
  have prev: "d_previousSong (getPlayerData s) =
      previousSongAt (isShuffleEnabled s) (queueItems s) (q_shuffled (queue s)) (p_repeat (player s))
        (Num i) (currentQueueIndex s)"
    by (simp add: getPlayerData_def Let_def currentQueueIndex_def i split: prod.splits)
  show ?thesis
  proof (rule that [OF i(1,2)])
    show "i < int (length (playOrder s))" using i len by simp
    show "map_option uniqueId (d_currentSong (getPlayerData s)) = js_nth (playOrder s) (Num i)"
      using currentId_playOrder [OF assms(1,2)] by (simp only: cur currentId_def i)
    show "map_option uniqueId (d_nextSong (getPlayerData s)) =
        next_id (playOrder s) i (p_repeat (player s))"
    proof (cases "isShuffleEnabled s")
      case True
      note sh = songAtShuffled_playOrder [OF assms(1,2) True]
      have "map_option uniqueId (js_nth (queueItems s) (currentQueueIndex s)) =
          js_nth (playOrder s) (Num i)"
        using currentId_playOrder [OF assms(1,2)] by (simp only: currentId_def getCurrentSong_eq i)
      then show ?thesis
        using i len order_ok_length [OF assms(2) True] True
        by (auto simp: nxt nextSongAt_def next_id_def sh calculateNextSong_def simp del: js_nth_Num)
    next
      case False
      then have "playOrder s = q_default (queue s)" by (simp add: playOrder_def)
      with False i len show ?thesis
        by (auto simp: nxt nextSongAt_def next_id_def calculateNextSong_def currentQueueIndex_def
            js_nth_queueItems_id [OF assms(1)] Let_def simp del: js_nth_Num; simp)
    qed
    show "map_option uniqueId (d_previousSong (getPlayerData s)) =
       prev_id (isShuffleEnabled s) (playOrder s) i (p_repeat (player s))"
    proof (cases "isShuffleEnabled s")
      case True
      note sh = songAtShuffled_playOrder [OF assms(1,2) True]
      show ?thesis
        using i len order_ok_length [OF assms(2) True] True
        by (auto simp: prev previousSongAt_def prev_id_def sh simp del: js_nth_Num)
    next
      case False
      then have "playOrder s = q_default (queue s)" by (simp add: playOrder_def)
      with False i len show ?thesis
        by (auto simp: prev previousSongAt_def prev_id_def currentQueueIndex_def
            js_nth_queueItems_id [OF assms(1)] simp del: js_nth_Num)
    qed
  qed
qed

section \<open>A concrete store\<close>

text \<open>Three queued songs, shuffled or not, at a given position: the input of the examples.\<close>

definition exampleStore :: "PlayerShuffle \<Rightarrow> PlayerRepeat \<Rightarrow> jsnum \<Rightarrow> store" where
  "exampleStore sh rep i = \<lparr>hydrated = True,
     player = \<lparr>p_crossfadeDuration = 5, p_crossfadeStyle = EQUAL_POWER, p_index = i,
       p_muted = False, p_pauseOnNextSongEnd = False, p_playerNum = One, p_repeat = rep,
       p_seekToTimestamp = (0, ''n''), p_shuffle = sh, p_speed = 1, p_status = PLAYING,
       p_transitionType = GAPLESS, p_volume = 30\<rparr>,
     queue = \<lparr>q_default = [''u1'', ''u2'', ''u3''],
       q_shuffled = (if sh = Shuffle_TRACK then [Num 2, Num 0, Num 1] else []),
       q_songs = map (\<lambda>(k, i). (k, toQueueSong k (exampleSong i)))
         [(''u1'', ''a''), (''u2'', ''b''), (''u3'', ''c'')]\<rparr>\<rparr>"

definition exampleWorld :: "store \<Rightarrow> world" where
  "exampleWorld s = (initialWorld (\<lambda>n. replicate (Suc n) CHR ''x'') (\<lambda>n. 0))\<lparr>w_store := s\<rparr>"

lemma exampleWorld_simps [simp]:
  "w_store (exampleWorld s) = s"
  "w_draws (exampleWorld s) = (\<lambda>n. 0)"
  by (simp_all add: exampleWorld_def initialWorld_def)

lemma exampleStore_ok: "store_ok (exampleStore sh rep i)"
  by (simp add: exampleStore_def store_ok_def)

lemma exampleStore_order: "order_ok (exampleStore sh rep i)"
  by (simp add: exampleStore_def order_ok_def isShuffleEnabled_def)

lemma exampleStore_index:
  "0 \<le> i \<Longrightarrow> i < 3 \<Longrightarrow> index_ok (exampleStore sh rep (Num i))"
  by (simp add: exampleStore_def index_ok_def)

lemma exampleStore_player [simp]:
  "p_repeat (player (exampleStore sh rep i)) = rep"
  "p_shuffle (player (exampleStore sh rep i)) = sh"
  "p_index (player (exampleStore sh rep i)) = i"
  "p_status (player (exampleStore sh rep i)) = PLAYING"
  "p_pauseOnNextSongEnd (player (exampleStore sh rep i)) = False"
  "q_default (queue (exampleStore sh rep i)) = [''u1'', ''u2'', ''u3'']"
  by (simp_all add: exampleStore_def)

lemma exampleStore_shuffled [simp]:
  "isShuffleEnabled (exampleStore sh rep i) = (sh = Shuffle_TRACK)"
  "q_shuffled (queue (exampleStore Shuffle_TRACK rep i)) = [Num 2, Num 0, Num 1]"
  by (simp_all add: exampleStore_def isShuffleEnabled_def)

lemma exampleStore_playOrder:
  "playOrder (exampleStore sh rep i) =
     (if sh = Shuffle_TRACK then [''u3'', ''u1'', ''u2''] else [''u1'', ''u2'', ''u3''])"
  by (simp add: playOrder_def map_filter_simps)

lemma store_ok_same_queue: "queue t = queue s \<Longrightarrow> store_ok t = store_ok s"
  by (simp add: store_ok_def)

end
