(* ===== verification/QueueOrder.thy ===== *)
theory QueueOrder
  imports PlayOrder
begin

text \<open>
  The operations of the queue on the abstract view of \<^verbatim>\<open>PlayOrder\<close>: what each of them does to the list
  of the ids in playback order and to the current song.
\<close>

section \<open>Insertion into the queue and into the shuffled positions\<close>

lemma id_at_Num [simp]: "i < length q \<Longrightarrow> id_at q (Num (int i)) = q ! i"
  by (simp add: id_at_def)

definition shift_index :: "nat \<Rightarrow> nat \<Rightarrow> jsnum \<Rightarrow> jsnum" where
  "shift_index k c idx = (if Num (int k) \<le> idx then idx + Num (int c) else idx)"

definition insert_at :: "nat \<Rightarrow> 'a list \<Rightarrow> 'a list \<Rightarrow> 'a list" where
  "insert_at k ids q = take k q @ ids @ drop k q"

lemma length_insert_at [simp]: "length (insert_at k ids q) = length q + length ids"
  by (simp add: insert_at_def)

lemma mset_insert_at: "mset (insert_at k ids q) = mset q + mset ids"
  unfolding insert_at_def by (metis mset_append append_take_drop_id union_assoc union_commute)

lemma id_at_insert_old:
  assumes "k \<le> length q" and "j < length q"
  shows "id_at (insert_at k ids q) (shift_index k (length ids) (Num (int j))) = q ! j"
proof (cases "k \<le> j")
  case True
  then have "shift_index k (length ids) (Num (int j)) = Num (int (j + length ids))"
    by (simp add: shift_index_def)
  moreover have "insert_at k ids q ! (j + length ids) = q ! j"
    using True assms by (auto simp: insert_at_def nth_append)
  ultimately show ?thesis using assms by (simp del: of_nat_add)
next
  case False
  with assms show ?thesis by (simp add: shift_index_def insert_at_def nth_append)
qed

lemma map_id_at_new:
  "k \<le> length q \<Longrightarrow> map (id_at (insert_at k ids q)) (indexesFrom (Num (int k)) (length ids)) = ids"
  by (rule nth_equalityI)
    (simp_all add: indexesFrom_Num insert_at_def nth_append of_nat_add [symmetric] del: of_nat_add)

lemma map_id_at_old:
  assumes "k \<le> length q" and "\<forall>x \<in> set xs. \<exists>j < length q. x = Num (int j)"
  shows "map (id_at (insert_at k ids q)) (map (shift_index k (length ids)) xs) = map (id_at q) xs"
  using assms by (auto simp: id_at_insert_old)

lemma shift_indexes:
  "k \<le> n \<Longrightarrow> map (shift_index k c) (indexes n) =
     indexes k @ map (\<lambda>i. Num (int i)) [k + c..<n + c]"
proof -
  assume k: "k \<le> n"
  have "[0..<n] = [0..<k] @ [k..<n]" using k by (metis le_add_diff_inverse upt_add_eq_append zero_le)
  moreover have "map (\<lambda>i. Num (int i)) [k + c..<n + c] = map (\<lambda>i. Num (int (i + c))) [k..<n]"
    by (rule nth_equalityI) simp_all
  ultimately show ?thesis by (simp add: shift_index_def)
qed

lemma mset_shift_indexes:
  assumes "k \<le> n"
  shows "mset (map (shift_index k c) (indexes n)) + mset (indexesFrom (Num (int k)) c) = mset (indexes (n + c))"
proof -
  have "[0..<n + c] = [0..<k] @ [k..<k + c] @ [k + c..<n + c]"
    using assms by (metis append.assoc le_add1 le_add_diff_inverse2 add.commute add_le_mono1
        le_add_diff_inverse upt_add_eq_append zero_le)
  then have "indexes (n + c) = indexes k @ map (\<lambda>i. Num (int i)) [k..<k + c]
      @ map (\<lambda>i. Num (int i)) [k + c..<n + c]" by simp
  then show ?thesis
    by (simp only: shift_indexes [OF assms] indexesFrom_Num mset_append union_assoc union_commute union_lcomm)
qed

text \<open>
  A store whose queue and shuffled positions have had \<open>ids\<close> inserted: the positions are shifted and
  the new ones go, in some order, to the place \<open>m\<close> of the playback order.
\<close>

lemma playOrder_inserted:
  assumes ok: "order_ok s" "isShuffleEnabled s" "isShuffleEnabled t" and k: "k \<le> length (q_default (queue s))"
    and q: "q_default (queue t) = insert_at k ids (q_default (queue s))"
    and sh: "mset (q_shuffled (queue t)) =
      mset (map (shift_index k (length ids)) (q_shuffled (queue s)))
        + mset (indexesFrom (Num (int k)) (length ids))"
  shows "order_ok t"
proof -
  have "mset (map (shift_index k (length ids)) (q_shuffled (queue s))) =
      mset (map (shift_index k (length ids)) (indexes (length (q_default (queue s)))))"
    unfolding mset_map [of "shift_index k (length ids)"] by (simp only: order_okD [OF ok(1,2)])
  then have "mset (q_shuffled (queue t)) = mset (indexes (length (q_default (queue t))))"
    by (simp only: sh mset_shift_indexes [OF k] q length_insert_at)
  then show ?thesis by (simp only: order_ok_def simp_thms)
qed

lemma playOrder_insert_new:
  assumes ok: "order_ok s" "isShuffleEnabled s" "isShuffleEnabled t" and k: "k \<le> length (q_default (queue s))"
    and q: "q_default (queue t) = insert_at k ids (q_default (queue s))"
    and parts: "q_shuffled (queue s) = pre @ post"
    and sh: "q_shuffled (queue t) = map (shift_index k (length ids)) pre @ new
               @ map (shift_index k (length ids)) post"
    and new: "mset new = mset (indexesFrom (Num (int k)) (length ids))"
  shows "order_ok t"
    and "\<exists>ys. mset ys = mset ids \<and> playOrder t =
      take (length pre) (playOrder s) @ ys @ drop (length pre) (playOrder s)"
proof -
  let ?q = "q_default (queue s)" and ?q' = "q_default (queue t)"
  show t: "order_ok t"
    by (rule playOrder_inserted [OF ok k q]) (simp add: sh parts new union_ac)
  have old: "\<forall>x \<in> set pre. \<exists>j < length ?q. x = Num (int j)"
    "\<forall>x \<in> set post. \<exists>j < length ?q. x = Num (int j)"
    using order_ok_elem [OF ok(1,2)] by (simp_all add: parts)
  have po: "playOrder s = map (id_at ?q) pre @ map (id_at ?q) post"
    by (simp add: playOrder_shuffled [OF ok(1,2)] parts)
  have "playOrder t = map (id_at ?q) pre @ map (id_at ?q') new @ map (id_at ?q) post"
    unfolding playOrder_shuffled [OF t ok(3)] sh map_append
    using map_id_at_old [OF k old(1), of ids] map_id_at_old [OF k old(2), of ids] by (simp only: q)
  moreover have "mset (map (id_at ?q') new) = mset ids"
    unfolding mset_map new unfolding mset_map [symmetric] q map_id_at_new [OF k] ..
  ultimately show "\<exists>ys. mset ys = mset ids \<and> playOrder t =
      take (length pre) (playOrder s) @ ys @ drop (length pre) (playOrder s)"
    by (intro exI [of _ "map (id_at ?q') new"]) (simp add: po)
qed

lemma shift_index_all:
  "\<forall>x \<in> set xs. \<exists>j < k. x = Num (int j) \<Longrightarrow> map (shift_index k c) xs = xs"
  by (rule map_idI) (auto simp: shift_index_def)

section \<open>Adding at the end and after the current song\<close>

lemma addLast_fields:
  "q_default (queue (fst (addLast items (s, r)))) = q_default (queue s) @ map uniqueId items"
  "q_shuffled (queue (fst (addLast items (s, r)))) =
     (if isShuffleEnabled s
      then q_shuffled (queue s) @ fst (shuffleInPlace
        (indexesFrom (Num (int (length (q_default (queue s))))) (length items)) r)
      else q_shuffled (queue s))"
  "player (fst (addLast items (s, r))) = player s"
  by (auto simp: addLast_def Let_def isShuffleEnabled_def split: prod.splits)

lemma adjust_eq_shift: "adjustShuffledIndexesForInsertion xs (Num (int k)) c = map (shift_index k c) xs"
  by (simp add: adjustShuffledIndexesForInsertion_def shift_index_def cong: map_cong)

lemma insertIntoShuffled_shuffled:
  "q_shuffled (queue (fst (insertIntoShuffled c p k (s, r)))) =
     (if isShuffleEnabled s then
        slice_to (adjustShuffledIndexesForInsertion (q_shuffled (queue s)) p k) (c + Num 1)
          @ fst (shuffleInPlace (indexesFrom p k) r)
          @ slice_from (adjustShuffledIndexesForInsertion (q_shuffled (queue s)) p k) (c + Num 1)
      else q_shuffled (queue s))"
  by (simp add: insertIntoShuffled_def Let_def split: prod.splits)

lemma slice_insert:
  "p = Num (int k) \<Longrightarrow> slice_to q p @ ids @ slice_from q p = insert_at k ids q"
  by (simp add: slice_Num insert_at_def)

text \<open>The queue position after the current song.\<close>

lemma order_ok_current:
  assumes "order_ok s" and "isShuffleEnabled s" and "p_index (player s) = Num (int i)"
    and "i < length (q_default (queue s))"
  obtains k where "k < length (q_default (queue s))" "q_shuffled (queue s) ! i = Num (int k)"
    "js_nth (q_shuffled (queue s)) (p_index (player s)) = Some (Num (int k))"
proof -
  have i: "i < length (q_shuffled (queue s))" using assms by (simp add: order_ok_length)
  then obtain k where "k < length (q_default (queue s))" "q_shuffled (queue s) ! i = Num (int k)"
    using order_ok_elem [OF assms(1,2) nth_mem [OF i]] by blast
  with i assms(3) show thesis by (intro that) auto
qed

lemma insert_after_current:
  assumes ok: "order_ok s" "isShuffleEnabled s" and i: "p_index (player s) = Num (int i)"
    "i < length (q_default (queue s))"
    and k: "k < length (q_default (queue s))"
    and q: "q_default (queue t) = insert_at (Suc k) ids (q_default (queue s))"
    and sh: "q_shuffled (queue t) = slice_to (map (shift_index (Suc k) (length ids)) (q_shuffled (queue s)))
          (Num (int i) + Num 1)
        @ fst (shuffleInPlace (indexesFrom (Num (int (Suc k))) (length ids)) r)
        @ slice_from (map (shift_index (Suc k) (length ids)) (q_shuffled (queue s))) (Num (int i) + Num 1)"
    and p: "p_shuffle (player t) = p_shuffle (player s)"
  shows "order_ok t" and "\<exists>ys. mset ys = mset ids \<and> playOrder t = insert_at (Suc i) ys (playOrder s)"
proof -
  let ?sh = "q_shuffled (queue s)" and ?f = "shift_index (Suc k) (length ids)"
  have len: "length ?sh = length (q_default (queue s))" by (rule order_ok_length [OF ok])
  have "nat (1 + int i) = Suc i" by simp
  then have sh': "q_shuffled (queue t) = map ?f (take (Suc i) ?sh)
      @ fst (shuffleInPlace (indexesFrom (Num (int (Suc k))) (length ids)) r)
      @ map ?f (drop (Suc i) ?sh)"
    by (simp add: sh slice_Num take_map drop_map add.commute)
  have t: "isShuffleEnabled t" using ok(2) i(2) p len
    by (simp add: isShuffleEnabled_def sh')
  note new = playOrder_insert_new [OF ok t _ q append_take_drop_id [symmetric] sh' shuf.sh_mset]
  show "order_ok t" using k by (intro new) simp
  have "length (take (Suc i) ?sh) = Suc i" using len i by simp
  then show "\<exists>ys. mset ys = mset ids \<and> playOrder t = insert_at (Suc i) ys (playOrder s)"
    using new(2) k by (simp add: insert_at_def)
qed

lemma addNext_fields:
  assumes "isShuffleEnabled s"
    and "js_nth (q_shuffled (queue s)) (p_index (player s)) = Some (Num (int k))"
  shows "q_default (queue (fst (addNext items (s, r)))) =
      insert_at (Suc k) (map uniqueId items) (q_default (queue s))"
    and "q_shuffled (queue (fst (addNext items (s, r)))) =
      slice_to (map (shift_index (Suc k) (length items)) (q_shuffled (queue s)))
          (p_index (player s) + Num 1)
        @ fst (shuffleInPlace (indexesFrom (Num (int (Suc k))) (length items)) r)
        @ slice_from (map (shift_index (Suc k) (length items)) (q_shuffled (queue s)))
            (p_index (player s) + Num 1)"
    and "player (fst (addNext items (s, r))) = player s"
proof -
  have e: "Num (int k) + Num 1 = Num (int (Suc k))" by simp
  have tr: "p_shuffle (player s) = Shuffle_TRACK" "q_shuffled (queue s) \<noteq> []"
    using assms(1) by (auto simp: isShuffleEnabled_def)
  show "q_default (queue (fst (addNext items (s, r)))) =
      insert_at (Suc k) (map uniqueId items) (q_default (queue s))"
    "player (fst (addNext items (s, r))) = player s"
    unfolding addNext_def Let_def prod.case addSongs_frame tr(1) readNum_def assms(2) option.case e
      simp_thms if_True slice_insert [OF refl] by simp_all
  show "q_shuffled (queue (fst (addNext items (s, r)))) =
      slice_to (map (shift_index (Suc k) (length items)) (q_shuffled (queue s)))
          (p_index (player s) + Num 1)
        @ fst (shuffleInPlace (indexesFrom (Num (int (Suc k))) (length items)) r)
        @ slice_from (map (shift_index (Suc k) (length items)) (q_shuffled (queue s)))
            (p_index (player s) + Num 1)"
    using tr(2) unfolding addNext_def Let_def prod.case addSongs_frame tr(1) readNum_def assms(2)
      option.case e simp_thms if_True insertIntoShuffled_shuffled adjust_eq_shift length_map
    by (simp add: isShuffleEnabled_def tr(1) del: jsnum_arith)
qed

lemma addNext_unshuffled:
  assumes "p_shuffle (player s) \<noteq> Shuffle_TRACK" and "p_index (player s) = Num (int i)"
  shows "q_default (queue (fst (addNext items (s, r)))) =
      insert_at (Suc i) (map uniqueId items) (q_default (queue s))"
    and "player (fst (addNext items (s, r))) = player s"
  using assms slice_insert [OF refl, of "q_default (queue s)" "Suc i" "map uniqueId items"]
  by (simp_all add: addNext_def Let_def add.commute)

lemma addNext_at_top:
  assumes "p_shuffle (player s) = Shuffle_TRACK" and "q_shuffled (queue s) = []"
    and "p_index (player s) = Num (int i)"
  shows "playOrder (fst (addNext items (s, r))) = map uniqueId items @ playOrder s"
    and "player (fst (addNext items (s, r))) = player s" and "order_ok (fst (addNext items (s, r)))"
proof -
  let ?t = "fst (addNext items (s, r))"
  have t: "q_default (queue ?t) = map uniqueId items @ q_default (queue s)" "player ?t = player s"
    using assms by (simp_all add: addNext_def Let_def readNum_def)
  moreover have "q_shuffled (queue ?t) = []"
    using assms by (simp add: addNext_def Let_def insertIntoShuffled_shuffled isShuffleEnabled_def)
  ultimately show "playOrder ?t = map uniqueId items @ playOrder s" "player ?t = player s" "order_ok ?t"
    using assms(2) by (simp_all add: playOrder_def order_ok_def isShuffleEnabled_def)
qed

lemma isShuffleEnabled_track: "\<not> isShuffleEnabled s \<Longrightarrow> p_shuffle (player s) \<noteq> Shuffle_TRACK \<or> q_shuffled (queue s) = []"
  by (auto simp: isShuffleEnabled_def)

lemma nth_insert_at_before: "i < k \<Longrightarrow> k \<le> length q \<Longrightarrow> insert_at k ids q ! i = q ! i"
  by (simp add: insert_at_def nth_append)

lemma currentId_same_place:
  assumes "store_ok s" "order_ok s" "store_ok t" "order_ok t"
    and "p_index (player s) = Num (int i)" "p_index (player t) = Num (int i)"
    and "i < length (playOrder s)" "playOrder t = insert_at (Suc i) ys (playOrder s)"
  shows "currentId t = currentId s"
  using assms by (simp add: currentId_playOrder nth_insert_at_before)

lemma addLast_play_order:
  assumes "order_ok s"
  shows "\<exists>ys. mset ys = mset (map uniqueId items) \<and> (\<not> isShuffleEnabled s \<longrightarrow> ys = map uniqueId items)
    \<and> playOrder (fst (addLast items (s, r))) = playOrder s @ ys
    \<and> order_ok (fst (addLast items (s, r))) \<and> player (fst (addLast items (s, r))) = player s"
proof (cases "isShuffleEnabled s")
  case True
  let ?t = "fst (addLast items (s, r))" and ?n = "length (q_default (queue s))"
  have t: "isShuffleEnabled ?t" using True by (simp add: isShuffleEnabled_def addLast_fields)
  have "\<forall>x \<in> set (q_shuffled (queue s)). \<exists>j < ?n. x = Num (int j)"
    using order_ok_elem [OF assms True] by blast
  then have sh: "q_shuffled (queue ?t) =
      map (shift_index ?n (length (map uniqueId items))) (q_shuffled (queue s))
        @ fst (shuffleInPlace (indexesFrom (Num (int ?n)) (length (map uniqueId items))) r)
        @ map (shift_index ?n (length (map uniqueId items))) []"
    using True by (simp add: addLast_fields shift_index_all)
  have q: "q_default (queue ?t) = insert_at ?n (map uniqueId items) (q_default (queue s))"
    by (simp add: addLast_fields insert_at_def)
  note new = playOrder_insert_new [OF assms True t le_refl q append_Nil2 [symmetric] sh shuf.sh_mset]
  have "length (q_shuffled (queue s)) = length (playOrder s)"
    using assms True by (simp add: length_playOrder order_ok_length)
  then show ?thesis using new True by (simp add: addLast_fields)
next
  case False
  then have "\<not> isShuffleEnabled (fst (addLast items (s, r)))"
    by (auto simp: isShuffleEnabled_def addLast_fields)
  with False show ?thesis
    by (intro exI [of _ "map uniqueId items"]) (simp add: playOrder_def addLast_fields order_ok_def)
qed

text \<open>
  Adding at the end keeps the playback order and puts the new songs after it, in some order
  under shuffle and in the given one otherwise.
\<close>

theorem addLast_appends_to_play_order:
  assumes "order_ok s"
  shows "\<exists>ys. mset ys = mset (map uniqueId items) \<and> (\<not> isShuffleEnabled s \<longrightarrow> ys = map uniqueId items)
    \<and> playOrder (fst (addLast items (s, r))) = playOrder s @ ys
    \<and> order_ok (fst (addLast items (s, r))) \<and> player (fst (addLast items (s, r))) = player s"
  using assms by (rule addLast_play_order)

theorem addLast_appends_to_play_order_witness:
  "\<exists>ys. mset ys = mset [''u4''] \<and> playOrder (fst (addLast [toQueueSong ''u4'' (exampleSong ''d'')]
      (exampleStore Shuffle_TRACK Repeat_NONE (Num 0), \<lambda>n. 0))) = [''u3'', ''u1'', ''u2''] @ ys"
  using addLast_appends_to_play_order [OF exampleStore_order,
      of "[toQueueSong ''u4'' (exampleSong ''d'')]" Shuffle_TRACK Repeat_NONE "Num 0" "\<lambda>n. 0"]
  by (auto simp: exampleStore_playOrder)

text \<open>
  C5: Adding next inserts the new songs, and nothing else, directly after the current one in the
  playback order, with shuffle off, and with shuffle on when the queue has shuffled positions; the
  current song goes on. In shuffle mode a queue without shuffled positions (songs added at the end of an
  empty queue leave it so) gets the new songs at its top, in their order, and the index stays where it was.
\<close>

theorem addNext_inserts_after_current:
  assumes "store_ok s" and "order_ok s" and "p_index (player s) = Num (int i)"
    and "i < length (playOrder s)"
  shows "order_ok (fst (addNext items (s, r))) \<and> player (fst (addNext items (s, r))) = player s
    \<and> (if p_shuffle (player s) = Shuffle_TRACK \<and> q_shuffled (queue s) = []
        then playOrder (fst (addNext items (s, r))) = map uniqueId items @ playOrder s
        else currentId (fst (addNext items (s, r))) = currentId s
          \<and> (\<exists>ys. mset ys = mset (map uniqueId items)
            \<and> playOrder (fst (addNext items (s, r))) = insert_at (Suc i) ys (playOrder s)))"
proof (cases "p_shuffle (player s) = Shuffle_TRACK \<and> q_shuffled (queue s) = []")
  case True
  then show ?thesis using addNext_at_top [OF _ _ assms(3), of items r] by simp
next
  case placed: False
  let ?t = "fst (addNext items (s, r))" and ?ids = "map uniqueId items"
  have i: "i < length (q_default (queue s))" using assms(2,4) by (simp add: length_playOrder)
  have new: "order_ok ?t \<and> player ?t = player s
      \<and> (\<exists>ys. mset ys = mset ?ids \<and> playOrder ?t = insert_at (Suc i) ys (playOrder s))"
  proof (cases "isShuffleEnabled s")
    case True
    from assms(2) True assms(3) i obtain k where k: "k < length (q_default (queue s))"
      "js_nth (q_shuffled (queue s)) (p_index (player s)) = Some (Num (int k))"
      by (rule order_ok_current)
    note f = addNext_fields [OF True k(2), of items r]
    note new = insert_after_current [OF assms(2) True assms(3) i k(1) f(1)
        f(2) [unfolded assms(3) length_map [of uniqueId items, symmetric]]
        arg_cong [where f = p_shuffle, OF f(3)]]
    show ?thesis using new by (simp add: f(3))
  next
    case False
    then have sh: "p_shuffle (player s) \<noteq> Shuffle_TRACK" using placed by (auto simp: isShuffleEnabled_def)
    note f = addNext_unshuffled [OF sh assms(3), of items r]
    have "\<not> isShuffleEnabled ?t" using sh by (simp add: isShuffleEnabled_def f(2))
    with False f assms(3) show ?thesis
      by (auto simp: playOrder_def order_ok_def intro!: exI [of _ ?ids])
  qed
  then obtain ys where ys: "order_ok ?t" "player ?t = player s"
    "mset ys = mset ?ids" "playOrder ?t = insert_at (Suc i) ys (playOrder s)" by blast
  have index: "p_index (player ?t) = Num (int i)" using ys(2) assms(3) by simp
  have "currentId ?t = currentId s"
    by (rule currentId_same_place [OF assms(1,2) store_ok_addNext [OF assms(1)] ys(1) assms(3) index assms(4) ys(4)])
  with new show ?thesis by (simp only: placed if_False)
qed

theorem addNext_inserts_after_current_witness:
  "currentId (fst (addNext [toQueueSong ''u4'' (exampleSong ''d'')]
      (exampleStore Shuffle_TRACK Repeat_NONE (Num (int 1)), \<lambda>n. 0))) =
   currentId (exampleStore Shuffle_TRACK Repeat_NONE (Num (int 1)))"
  using addNext_inserts_after_current [of "exampleStore Shuffle_TRACK Repeat_NONE (Num (int 1))" 1
      "[toQueueSong ''u4'' (exampleSong ''d'')]" "\<lambda>n. 0"]
  by (auto simp: exampleStore_playOrder exampleStore_ok exampleStore_order split: if_splits)

text \<open>
  A flaw of adding next in shuffle mode. When the shuffled positions are empty although a song
  is playing (they stay empty when songs are added at the end of an empty queue), the insertion
  position is NaN and the new songs go to the top of the queue: the index is not moved, so the first
  of them becomes the current song in place of the one at the first position.
\<close>

theorem addNext_without_positions_goes_to_top:
  assumes "store_ok s" and "p_shuffle (player s) = Shuffle_TRACK" and "q_shuffled (queue s) = []"
    and "p_index (player s) = Num 0" and "items \<noteq> []"
  shows "q_default (queue (fst (addNext items (s, r)))) = map uniqueId items @ q_default (queue s)
    \<and> currentId s = js_nth (q_default (queue s)) (Num 0)
    \<and> currentId (fst (addNext items (s, r))) = Some (uniqueId (hd items))"
proof -
  let ?t = "fst (addNext items (s, r))"
  have t: "q_default (queue ?t) = map uniqueId items @ q_default (queue s)"
    "player ?t = player s"
    using assms by (simp_all add: addNext_def Let_def readNum_def)
  have "q_shuffled (queue ?t) = []"
    using assms by (simp add: addNext_def Let_def insertIntoShuffled_shuffled isShuffleEnabled_def)
  then have "\<not> isShuffleEnabled ?t" "\<not> isShuffleEnabled s"
    using assms(3) by (simp_all add: isShuffleEnabled_def)
  then show ?thesis
    using t assms store_ok_addNext [OF assms(1), of items r]
    by (cases items) (simp_all add: currentId_eq currentQueueIndex_def)
qed

theorem addNext_without_positions_goes_to_top_witness:
  "currentId (fst (addNext [toQueueSong ''u4'' (exampleSong ''d'')]
      (set_shuffled [] (exampleStore Shuffle_TRACK Repeat_NONE (Num 0)), \<lambda>n. 0))) = Some ''u4''"
  using addNext_without_positions_goes_to_top
      [of "set_shuffled [] (exampleStore Shuffle_TRACK Repeat_NONE (Num 0))"
        "[toQueueSong ''u4'' (exampleSong ''d'')]" "\<lambda>n. 0"]
  by (simp add: exampleStore_ok)

section \<open>Clearing the selection\<close>

lemma filter_take_nth:
  "j \<le> length q \<Longrightarrow> length (filter (\<lambda>i. P (q ! i)) [0..<j]) = length (filter P (take j q))"
proof -
  assume "j \<le> length q"
  then have "take j q = map (nth q) [0..<j]" by (intro nth_equalityI) simp_all
  then show ?thesis by (simp add: filter_map o_def)
qed

lemma removedBefore_take:
  assumes "j \<le> length q"
  shows "removedBefore (indexesToRemove ids q) (Num (int j)) =
     length (filter (\<lambda>k. k \<in> set ids) (take j q))"
proof -
  have "filter (\<lambda>k. Num (int k) < Num (int j)) (indexesToRemove ids q) =
      filter (\<lambda>i. q ! i \<in> set ids) (filter (\<lambda>k. k < j) [0..<length q])"
    unfolding indexesToRemove_def filter_filter by (rule filter_cong) auto
  also have "filter (\<lambda>k. k < j) [0..<length q] = [0..<j]"
  proof -
    have "[0..<length q] = [0..<j] @ [j..<length q]"
      using assms by (metis le_add_diff_inverse upt_add_eq_append zero_le)
    then show ?thesis by (simp add: filter_empty_conv)
  qed
  finally show ?thesis using filter_take_nth [OF assms] by (simp add: removedBefore_def)
qed

lemma filter_length_compl: "length (filter (\<lambda>k. \<not> P k) xs) = length xs - length (filter P xs)"
  using sum_length_filter_compl [of P xs] by simp

text \<open>The new position of a kept song: the number of kept songs before it.\<close>

abbreviation kept_before :: "string list \<Rightarrow> string list \<Rightarrow> nat \<Rightarrow> nat" where
  "kept_before ids q j \<equiv> length (filter (\<lambda>k. k \<notin> set ids) (take j q))"

lemma minus_removedBefore:
  assumes "j \<le> length q"
  shows "Num (int j) - Num (int (removedBefore (indexesToRemove ids q) (Num (int j)))) =
     Num (int (kept_before ids q j))"
proof -
  have "length (filter (\<lambda>k. k \<in> set ids) (take j q)) \<le> j"
    using length_filter_le [of _ "take j q"] assms by (metis length_take min.absorb2)
  then show ?thesis
    using assms unfolding removedBefore_take [OF assms] filter_length_compl
    by (simp add: of_nat_diff)
qed

lemma nth_filter_kept:
  assumes "j < length q" and "P (q ! j)"
  shows "filter P q ! length (filter P (take j q)) = q ! j"
    and "length (filter P (take j q)) < length (filter P q)"
proof -
  have q: "filter P q = filter P (take j q) @ q ! j # filter P (drop (Suc j) q)"
    using id_take_nth_drop [OF assms(1)] assms(2) by (metis filter.simps(2) filter_append)
  show "filter P q ! length (filter P (take j q)) = q ! j" by (simp add: q)
  show "length (filter P (take j q)) < length (filter P q)" unfolding q by simp
qed

lemma ranks_of_kept:
  "map (\<lambda>j. length (filter P (take j q))) (filter (\<lambda>j. P (q ! j)) [0..<length q]) =
     [0..<length (filter P q)]"
proof (induction q rule: rev_induct)
  case (snoc x q)
  have "filter (\<lambda>j. P ((q @ [x]) ! j)) [0..<length q] = filter (\<lambda>j. P (q ! j)) [0..<length q]"
    by (rule filter_cong) (auto simp: nth_append)
  moreover have "map (\<lambda>j. length (filter P (take j (q @ [x])))) (filter (\<lambda>j. P (q ! j)) [0..<length q]) =
      map (\<lambda>j. length (filter P (take j q))) (filter (\<lambda>j. P (q ! j)) [0..<length q])"
    by (rule map_cong) auto
  ultimately show ?case using snoc by simp
qed simp

definition keptPositions :: "string list \<Rightarrow> string list \<Rightarrow> jsnum list \<Rightarrow> jsnum list" where
  "keptPositions ids q shuffled =
     map (\<lambda>idx. idx - Num (int (removedBefore (indexesToRemove ids q) idx)))
       (filter (\<lambda>idx. idx \<notin> (\<lambda>k. Num (int k)) ` set (indexesToRemove ids q)) shuffled)"

lemma clearSelected_fields:
  "q_default (queue (clearSelected items s)) =
     filter (\<lambda>k. k \<notin> set (map uniqueId items)) (q_default (queue s))"
  "q_shuffled (queue (clearSelected items s)) =
     (if isShuffleEnabled s
      then keptPositions (map uniqueId items) (q_default (queue s)) (q_shuffled (queue s)) else [])"
  by (simp_all add: clearSelected_def Let_def keptPositions_def isShuffleEnabled_def)

lemma clearSelected_shuffle [simp]:
  "p_shuffle (player (clearSelected items s)) = p_shuffle (player s)"
  by (auto simp: clearSelected_def Let_def recalculatePlayerIndex_def split: option.splits)

lemma removed_iff:
  "j < length q \<Longrightarrow> Num (int j) \<in> (\<lambda>k. Num (int k)) ` set (indexesToRemove ids q) \<longleftrightarrow> q ! j \<in> set ids"
  by (auto simp: indexesToRemove_def)

lemma keptPositions_indexes:
  "keptPositions ids q (indexes (length q)) = indexes (length (filter (\<lambda>k. k \<notin> set ids) q))"
proof -
  let ?n = "length q"
  have "filter (\<lambda>idx. idx \<notin> (\<lambda>k. Num (int k)) ` set (indexesToRemove ids q)) (indexes ?n) =
      map (\<lambda>i. Num (int i)) (filter (\<lambda>j. q ! j \<notin> set ids) [0..<?n])"
    unfolding filter_map by (rule arg_cong [where f = "map _"], rule filter_cong) (auto simp: removed_iff)
  then have "keptPositions ids q (indexes ?n) =
      map (\<lambda>j. Num (int (kept_before ids q j))) (filter (\<lambda>j. q ! j \<notin> set ids) [0..<?n])"
    using minus_removedBefore [of _ q ids] by (auto simp: keptPositions_def)
  also have "\<dots> = map (\<lambda>i. Num (int i)) (map (\<lambda>j. kept_before ids q j)
      (filter (\<lambda>j. q ! j \<notin> set ids) [0..<?n]))" by simp
  also have "\<dots> = indexes (length (filter (\<lambda>k. k \<notin> set ids) q))"
    by (simp only: ranks_of_kept [of "\<lambda>k. k \<notin> set ids"])
  finally show ?thesis .
qed

lemma keptPositions_mset:
  "mset sh = mset sh' \<Longrightarrow> mset (keptPositions ids q sh) = mset (keptPositions ids q sh')"
  by (simp add: keptPositions_def mset_map mset_filter)

lemma keptPositions_ids:
  assumes "\<forall>x \<in> set sh. \<exists>j < length q. x = Num (int j)"
  shows "map (id_at (filter (\<lambda>k. k \<notin> set ids) q)) (keptPositions ids q sh) =
     filter (\<lambda>k. k \<notin> set ids) (map (id_at q) sh)"
  using assms
proof (induction sh)
  case (Cons x sh)
  then obtain j where j: "j < length q" "x = Num (int j)" by auto
  show ?case
  proof (cases "q ! j \<in> set ids")
    case True
    with Cons j removed_iff [OF j(1), of ids] show ?thesis by (simp add: keptPositions_def)
  next
    case False
    note kept = nth_filter_kept [of j q "\<lambda>k. k \<notin> set ids", OF j(1) False]
    have "id_at (filter (\<lambda>k. k \<notin> set ids) q)
        (x - Num (int (removedBefore (indexesToRemove ids q) x))) = id_at q x"
      unfolding j(2) minus_removedBefore [OF less_imp_le [OF j(1)]] using kept j(1) by simp
    with False Cons j removed_iff [OF j(1), of ids] show ?thesis by (simp add: keptPositions_def)
  qed
qed (simp add: keptPositions_def)

text \<open>
  C6: Clearing the selected songs removes exactly them from the playback order and keeps the others
  in the order in which they were going to be played, also under shuffle, where every shuffled
  position is renumbered; the shuffled positions stay a permutation of the queue.
\<close>

theorem clearSelected_filters_play_order:
  assumes "order_ok s"
  shows "playOrder (clearSelected items s) =
      filter (\<lambda>k. k \<notin> set (map uniqueId items)) (playOrder s)
    \<and> order_ok (clearSelected items s)"
proof (cases "isShuffleEnabled s")
  case True
  let ?ids = "map uniqueId items" and ?q = "q_default (queue s)" and ?t = "clearSelected items s"
  have sh: "q_shuffled (queue ?t) = keptPositions ?ids ?q (q_shuffled (queue s))"
    using True by (simp add: clearSelected_fields)
  have m: "mset (q_shuffled (queue ?t)) = mset (indexes (length (q_default (queue ?t))))"
    unfolding sh keptPositions_mset [OF order_okD [OF assms True]] keptPositions_indexes
    by (simp only: clearSelected_fields)
  then have ok: "order_ok ?t" by (simp only: order_ok_def simp_thms)
  have ids: "map (id_at (q_default (queue ?t))) (q_shuffled (queue ?t)) =
      filter (\<lambda>k. k \<notin> set ?ids) (playOrder s)"
    unfolding playOrder_shuffled [OF assms True] sh clearSelected_fields(1)
    by (rule keptPositions_ids) (use order_ok_elem [OF assms True] in blast)
  show ?thesis
  proof (cases "isShuffleEnabled ?t")
    case True
    with ok ids show ?thesis by (simp add: playOrder_shuffled)
  next
    case False
    with True have e: "q_shuffled (queue ?t) = []" by (auto simp: isShuffleEnabled_def)
    with mset_eq_length [OF m] have "q_default (queue ?t) = []" by simp
    with False e ids ok show ?thesis by (simp add: playOrder_def)
  qed
next
  case False
  then have "\<not> isShuffleEnabled (clearSelected items s)"
    by (simp add: isShuffleEnabled_def clearSelected_fields)
  with False show ?thesis by (simp add: playOrder_def order_ok_def clearSelected_fields)
qed

theorem clearSelected_filters_play_order_witness:
  "playOrder (clearSelected [toQueueSong ''u1'' (exampleSong ''a'')]
     (exampleStore Shuffle_TRACK Repeat_NONE (Num 0))) = [''u3'', ''u2'']"
  using clearSelected_filters_play_order [OF exampleStore_order,
      of "[toQueueSong ''u1'' (exampleSong ''a'')]" Shuffle_TRACK Repeat_NONE "Num 0"]
  by (simp add: exampleStore_playOrder)

text \<open>
  A flaw of clearing under shuffle. The index is recalculated as the position of the current
  song in the queue, while the player reads it as a position of the shuffled order; so the current
  song can change although it was not among the cleared ones.
\<close>

theorem clearSelected_sets_queue_index:
  assumes "store_ok s" and "currentId s = Some k"
  shows "p_index (player (clearSelected items s)) =
      Num (max 0 (findIndex (\<lambda>x. x = k) (q_default (queue (clearSelected items s)))))
    \<and> currentId (exampleStore Shuffle_TRACK Repeat_NONE (Num 1)) = Some ''u1''
    \<and> currentId (clearSelected [toQueueSong ''u2'' (exampleSong ''b'')]
        (exampleStore Shuffle_TRACK Repeat_NONE (Num 1))) = Some ''u3''"
proof (intro conjI)
  obtain x where x: "getCurrentSong s = Some x" "uniqueId x = k"
    using assms(2) by (auto simp: currentId_def)
  show "p_index (player (clearSelected items s)) =
      Num (max 0 (findIndex (\<lambda>x. x = k) (q_default (queue (clearSelected items s)))))"
    by (simp add: clearSelected_def Let_def recalculatePlayerIndex_def x)
qed (code_simp)+

theorem clearSelected_sets_queue_index_witness:
  "p_index (player (clearSelected [toQueueSong ''u2'' (exampleSong ''b'')]
     (exampleStore Shuffle_TRACK Repeat_NONE (Num 1)))) = Num 0"
  by (rule trans, rule clearSelected_sets_queue_index [where k = "''u1''", THEN conjunct1])
    (rule exampleStore_ok, code_simp+)

end
