(* ===== verification/QueueCurrent.thy ===== *)
theory QueueCurrent
  imports QueueOrder
begin

text \<open>
  What happens to the current song: switching shuffle, inserting at a place, moving and shuffling
  the queue, and starting a new one.
\<close>

section \<open>Switching shuffle\<close>

lemma mset_move_to_front:
  "distinct xs \<Longrightarrow> x \<in> set xs \<Longrightarrow> add_mset x (mset (filter (\<lambda>y. y \<noteq> x) xs)) = mset xs"
proof (induction xs)
  case (Cons a xs)
  show ?case
  proof (cases "a = x")
    case True
    with Cons.prems have "filter (\<lambda>y. y \<noteq> x) xs = xs" by (auto simp: filter_id_conv)
    with True show ?thesis by simp
  next
    case False
    with Cons show ?thesis by simp
  qed
qed simp

lemma distinct_indexes: "distinct (indexes n)"
  by (simp add: distinct_map inj_on_def)

lemma index_in_indexes: "i < n \<Longrightarrow> Num (int i) \<in> set (indexes n)"
  by auto

lemma index_okE':
  assumes "index_ok s"
  obtains i where "p_index (player s) = Num (int i)" "i < length (q_default (queue s))"
proof -
  obtain k where k: "p_index (player s) = Num k" "0 \<le> k" "k < int (length (q_default (queue s)))"
    using assms by (rule index_okE)
  show thesis by (rule that [of "nat k"]) (use k in auto)
qed

lemma toggleShuffle_on:
  assumes "p_shuffle (player s) = Shuffle_NONE" and "p_index (player s) = Num (int i)"
    and "i < length (q_default (queue s))"
  shows "fst (toggleShuffle (s, r)) =
    s\<lparr>player := (player s)\<lparr>p_shuffle := Shuffle_TRACK, p_index := Num 0\<rparr>,
      queue := (queue s)\<lparr>q_shuffled := Num (int i) # fst (shuffleInPlace
        (filter (\<lambda>idx. \<not> js_eq idx (Num (int i))) (indexes (length (q_default (queue s))))) r)\<rparr>\<rparr>"
  using assms by (auto simp: toggleShuffle_def Let_def split: prod.splits)

lemma toggleShuffle_off:
  assumes "p_shuffle (player s) = Shuffle_TRACK"
  shows "fst (toggleShuffle (s, r)) =
    s\<lparr>player := (player s)\<lparr>p_shuffle := Shuffle_NONE,
        p_index := nullish_or (js_nth (q_shuffled (queue s)) (p_index (player s))) (p_index (player s))\<rparr>,
      queue := (queue s)\<lparr>q_shuffled := []\<rparr>\<rparr>"
proof (cases "p_index (player s)")
  case (Num i)
  with assms show ?thesis by (auto simp: toggleShuffle_def Let_def leaveShuffle_def)
qed (use assms in \<open>simp add: toggleShuffle_def Let_def leaveShuffle_def\<close>)

lemma filter_js_eq: "filter (\<lambda>idx. \<not> js_eq idx (Num i)) xs = filter (\<lambda>y. y \<noteq> Num i) xs"
  by (rule filter_cong) (auto simp: js_eq_def)

text \<open>
  C4: Switching shuffle on or off keeps the current song, whatever is drawn, and the shuffled
  positions form a permutation of the queue afterwards. (From the album mode, which the player never
  sets itself, the switch goes to no shuffle and to the first song instead.)
\<close>

theorem toggleShuffle_keeps_current_song:
  assumes "store_ok s" and "order_ok s" and "index_ok s" and "p_shuffle (player s) \<noteq> Shuffle_ALBUM"
  shows "currentId (fst (toggleShuffle (s, r))) = currentId s
    \<and> order_ok (fst (toggleShuffle (s, r))) \<and> index_ok (fst (toggleShuffle (s, r)))"
proof -
  let ?t = "fst (toggleShuffle (s, r))" and ?n = "length (q_default (queue s))"
  obtain i where i: "p_index (player s) = Num (int i)" "i < ?n" using assms(3) by (rule index_okE')
  have store: "store_ok ?t" by (rule store_ok_toggleShuffle [OF assms(1)])
  show ?thesis
  proof (cases "p_shuffle (player s)")
    case Shuffle_NONE
    note on = toggleShuffle_on [OF Shuffle_NONE i, of r]
    have "mset (q_shuffled (queue ?t)) = mset (indexes ?n)"
      unfolding on using mset_move_to_front [OF distinct_indexes index_in_indexes [OF i(2)]]
      by (simp add: filter_js_eq shuf.sh_mset del: mset_map)
    then have "order_ok ?t" unfolding order_ok_def by (simp add: on del: mset_map)
    moreover have "currentId ?t = currentId s"
      unfolding currentId_eq [OF store] currentId_eq [OF assms(1)]
      using Shuffle_NONE i by (simp add: on currentQueueIndex_def isShuffleEnabled_def
          mapShuffledToQueueIndex_def)
    moreover have "index_ok ?t" using i by (auto simp: on index_ok_def)
    ultimately show ?thesis by blast
  next
    case Shuffle_TRACK
    note off = toggleShuffle_off [OF Shuffle_TRACK, of r]
    have "\<not> isShuffleEnabled ?t" by (simp add: off isShuffleEnabled_def)
    moreover have "currentId ?t = currentId s \<and> index_ok ?t"
    proof (cases "q_shuffled (queue s) = []")
      case True
      with Shuffle_TRACK i show ?thesis
        unfolding currentId_eq [OF store] currentId_eq [OF assms(1)]
        by (simp add: off currentQueueIndex_def isShuffleEnabled_def index_ok_def)
    next
      case False
      with Shuffle_TRACK have en: "isShuffleEnabled s" by (simp add: isShuffleEnabled_def)
      from assms(2) en i obtain k where "k < ?n"
        "js_nth (q_shuffled (queue s)) (p_index (player s)) = Some (Num (int k))"
        by (rule order_ok_current)
      then show ?thesis
        using Shuffle_TRACK en unfolding currentId_eq [OF store] currentId_eq [OF assms(1)]
        by (simp add: off currentQueueIndex_def isShuffleEnabled_def index_ok_def
            mapShuffledToQueueIndex_def)
    qed
    ultimately show ?thesis by (simp add: order_ok_def)
  qed (use assms in simp)
qed

theorem toggleShuffle_keeps_current_song_witness:
  "currentId (fst (toggleShuffle (exampleStore Shuffle_TRACK Repeat_ALL (Num 2), \<lambda>n. 0))) =
     currentId (exampleStore Shuffle_TRACK Repeat_ALL (Num 2))"
  by (rule toggleShuffle_keeps_current_song [THEN conjunct1])
    (simp_all add: exampleStore_ok exampleStore_order exampleStore_index)

text \<open>
  Switching shuffle on and off again gives back the very same store: the queue, the index and
  every setting, whatever was drawn in between.
\<close>

theorem toggleShuffle_twice:
  assumes "index_ok s" and "p_shuffle (player s) = Shuffle_NONE" and "q_shuffled (queue s) = []"
  shows "fst (toggleShuffle (fst (toggleShuffle (s, r)), r')) = s"
proof -
  obtain i where i: "p_index (player s) = Num (int i)" "i < length (q_default (queue s))"
    using assms(1) by (rule index_okE')
  let ?t = "fst (toggleShuffle (s, r))"
  note on = toggleShuffle_on [OF assms(2) i, of r]
  have tr: "p_shuffle (player ?t) = Shuffle_TRACK" by (simp add: on)
  show ?thesis
    unfolding toggleShuffle_off [OF tr] unfolding on using assms i
    by (cases s, cases "player s", cases "queue s") simp
qed

theorem toggleShuffle_twice_witness:
  "fst (toggleShuffle (fst (toggleShuffle (exampleStore Shuffle_NONE Repeat_ALL (Num 2), \<lambda>n. 0)), \<lambda>n. 1)) =
     exampleStore Shuffle_NONE Repeat_ALL (Num 2)"
  by (rule toggleShuffle_twice) (simp_all add: exampleStore_index, simp add: exampleStore_def)

section \<open>Inserting at a place\<close>

lemma insertIndexFor_le: "insertIndexFor target e q \<le> length q"
  using findIndex_less [of "\<lambda>k. k = target" q] by (auto simp: insertIndexFor_def Let_def)

lemma findIndex_mem:
  assumes "c \<in> set q"
  obtains k where "findIndex (\<lambda>x. x = c) q = int k" "k < length q" "q ! k = c"
proof -
  from assms have "0 \<le> findIndex (\<lambda>x. x = c) q" "findIndex (\<lambda>x. x = c) q < int (length q)"
    "q ! nat (findIndex (\<lambda>x. x = c) q) = c"
    using findIndex_found [of q "\<lambda>x. x = c"] by blast+
  then show thesis by (intro that [of "nat (findIndex (\<lambda>x. x = c) q)"]) auto
qed

lemma shuffledPosition_mem:
  assumes "Num (int k) \<in> set sh"
  obtains p where "shuffledPosition (Num (int k)) sh = int p" "p < length sh" "sh ! p = Num (int k)"
proof -
  let ?p = "shuffledPosition (Num (int k)) sh"
  have "0 \<le> ?p \<and> ?p < int (length sh) \<and> js_eq (sh ! nat ?p) (Num (int k))"
    unfolding shuffledPosition_def
    by (rule findIndex_found) (auto simp: js_eq_def intro: assms)
  then show thesis by (intro that [of "nat ?p"]) (auto simp: js_eq_def)
qed

lemma set_indexes: "set (indexes n) = {x. \<exists>i < n. x = Num (int i)}"
  by auto

lemma mset_take_drop_new: "mset (take m xs) + (mset (drop m xs) + A) = mset xs + A"
  unfolding union_assoc [symmetric] mset_append [symmetric] append_take_drop_id ..

lemma insertByUniqueId_shuffled:
  assumes "isShuffleEnabled s" and "currentId s = Some c" and "c \<noteq> ''''"
    and "p_index (player s) = Num (int i)"
  shows "\<exists>tl. mset tl = mset (drop (Suc i) (map (shift_index (insertIndexFor t e (q_default (queue s)))
          (length items)) (q_shuffled (queue s)))
        @ indexesFrom (Num (int (insertIndexFor t e (q_default (queue s))))) (length items))
      \<and> q_shuffled (queue (fst (insertByUniqueId items t e (s, r)))) =
        take (Suc i) (map (shift_index (insertIndexFor t e (q_default (queue s))) (length items))
          (q_shuffled (queue s))) @ tl"
    and "p_shuffle (player (fst (insertByUniqueId items t e (s, r)))) = Shuffle_TRACK"
    and "p_index (player (fst (insertByUniqueId items t e (s, r)))) =
      (let qi = findIndex (\<lambda>k. k = c) (q_default (queue (fst (insertByUniqueId items t e (s, r)))));
           p = shuffledPosition (Num qi) (q_shuffled (queue (fst (insertByUniqueId items t e (s, r)))))
       in if qi \<noteq> -1 \<and> p \<noteq> -1 then Num p else Num (int i))"
proof -
  have tr: "p_shuffle (player s) = Shuffle_TRACK" using assms(1) by (simp add: isShuffleEnabled_def)
  obtain x where x: "getCurrentSong s = Some x" "uniqueId x = c"
    using assms(2) by (auto simp: currentId_def)
  let ?k = "insertIndexFor t e (q_default (queue s))"
  let ?adj = "map (shift_index ?k (length items)) (q_shuffled (queue s))"
  let ?new = "indexesFrom (Num (int ?k)) (length items)"
  have adj: "map (\<lambda>idx. if Num (int ?k) \<le> idx then idx + Num (int (length items)) else idx)
      (q_shuffled (queue s)) = ?adj"
    by (simp add: shift_index_def cong: map_cong)
  have sl: "slice_to xs (Num (int i) + Num 1) = take (Suc i) xs"
    "slice_from xs (Num (int i) + Num 1) = drop (Suc i) xs" for xs :: "jsnum list"
    by (simp_all add: slice_Num nat_add_distrib)
  obtain tl r' where sh: "shuffleInPlace (drop (Suc i) ?adj @ ?new) r = (tl, r')" by fastforce
  have add: "addIndexesToShuffled ?adj (Num (int i)) ?new r = (take (Suc i) ?adj @ tl, r')"
    unfolding addIndexesToShuffled_def Let_def sl sh prod.case ..
  have e: "fst (insertByUniqueId items t e (s, r)) =
      (let s3 = set_shuffled (take (Suc i) ?adj @ tl) (set_default (take ?k (q_default (queue s))
             @ map uniqueId items @ drop ?k (q_default (queue s))) (addSongs items s));
           qi = findIndex (\<lambda>k. k = c) (q_default (queue s3));
           p = shuffledPosition (Num qi) (q_shuffled (queue s3))
       in if qi \<noteq> -1 \<and> p \<noteq> -1 then set_index (Num p) s3 else s3)"
    unfolding insertByUniqueId_def Let_def prod.case addSongs_frame length_map
    using add tr assms(3,4) by (simp add: adj x)
  show "p_shuffle (player (fst (insertByUniqueId items t e (s, r)))) = Shuffle_TRACK"
    by (simp add: e tr Let_def)
  have q: "q_shuffled (queue (fst (insertByUniqueId items t e (s, r)))) = take (Suc i) ?adj @ tl"
    by (simp add: e Let_def)
  then show "\<exists>tl. mset tl = mset (drop (Suc i) ?adj @ ?new)
      \<and> q_shuffled (queue (fst (insertByUniqueId items t e (s, r)))) = take (Suc i) ?adj @ tl"
    using shuf.sh_eq_mset [OF sh] by blast
  show "p_index (player (fst (insertByUniqueId items t e (s, r)))) =
      (let qi = findIndex (\<lambda>k. k = c) (q_default (queue (fst (insertByUniqueId items t e (s, r)))));
           p = shuffledPosition (Num qi) (q_shuffled (queue (fst (insertByUniqueId items t e (s, r)))))
       in if qi \<noteq> -1 \<and> p \<noteq> -1 then Num p else Num (int i))"
    unfolding q insertByUniqueId_queue(2) using assms(4) by (simp add: e Let_def)
qed

lemma insertByUniqueId_unshuffled:
  assumes "p_shuffle (player s) \<noteq> Shuffle_TRACK" and "currentId s = Some c"
  shows "p_shuffle (player (fst (insertByUniqueId items t e (s, r)))) = p_shuffle (player s)"
    and "p_index (player (fst (insertByUniqueId items t e (s, r)))) =
      Num (max 0 (findIndex (\<lambda>k. k = c) (q_default (queue (fst (insertByUniqueId items t e (s, r)))))))"
proof -
  obtain x where x: "getCurrentSong s = Some x" "uniqueId x = c"
    using assms(2) by (auto simp: currentId_def)
  show "p_shuffle (player (fst (insertByUniqueId items t e (s, r)))) = p_shuffle (player s)"
    "p_index (player (fst (insertByUniqueId items t e (s, r)))) =
      Num (max 0 (findIndex (\<lambda>k. k = c) (q_default (queue (fst (insertByUniqueId items t e (s, r)))))))"
    unfolding insertByUniqueId_queue(2) using assms(1)
    by (simp_all add: insertByUniqueId_def Let_def recalculatePlayerIndex_def x)
qed

lemma currentId_by_position:
  assumes "store_ok t" and "c \<in> set (q_default (queue t))" and "\<not> isShuffleEnabled t"
    and "p_index (player t) = Num (max 0 (findIndex (\<lambda>k. k = c) (q_default (queue t))))"
  shows "currentId t = Some c"
proof -
  from assms(2) obtain k where "findIndex (\<lambda>x. x = c) (q_default (queue t)) = int k"
    "k < length (q_default (queue t))" "q_default (queue t) ! k = c" by (rule findIndex_mem)
  then show ?thesis by (simp add: currentId_eq [OF assms(1)] currentQueueIndex_def assms)
qed

lemma currentId_in_queue: "store_ok s \<Longrightarrow> currentId s = Some c \<Longrightarrow> c \<in> set (q_default (queue s))"
  by (simp add: currentId_eq js_nth_in_set)

text \<open>
  Inserting songs next to a queued one keeps the current song. Under shuffle it also keeps
  everything played so far, mixes the new songs into what is still to come, and leaves the shuffled
  positions a permutation of the longer queue.
\<close>

theorem insertByUniqueId_keeps_current_song:
  assumes "store_ok s" and "order_ok s" and "p_index (player s) = Num (int i)"
    and "currentId s = Some c" and "c \<noteq> ''''"
    and "p_shuffle (player s) = Shuffle_TRACK \<longrightarrow> isShuffleEnabled s"
  shows "currentId (fst (insertByUniqueId items t e (s, r))) = Some c
    \<and> order_ok (fst (insertByUniqueId items t e (s, r)))
    \<and> mset (playOrder (fst (insertByUniqueId items t e (s, r)))) =
        mset (playOrder s) + mset (map uniqueId items)
    \<and> (isShuffleEnabled s \<longrightarrow>
        take (Suc i) (playOrder (fst (insertByUniqueId items t e (s, r)))) = take (Suc i) (playOrder s))"
proof -
  let ?t = "fst (insertByUniqueId items t e (s, r))" and ?ids = "map uniqueId items"
  let ?q = "q_default (queue s)" and ?k = "insertIndexFor t e (q_default (queue s))"
  have store: "store_ok ?t" by (rule store_ok_insertByUniqueId [OF assms(1)])
  have q: "q_default (queue ?t) = insert_at ?k ?ids ?q"
    by (simp add: insertByUniqueId_queue insert_at_def)
  have mem: "c \<in> set (q_default (queue ?t))"
    using currentId_in_queue [OF assms(1,4)] mset_eq_setD [OF mset_insert_at [of ?k ?ids ?q, folded mset_append]]
    by (simp add: q)
  have "currentId ?t = Some c \<and> order_ok ?t \<and> (isShuffleEnabled s \<longrightarrow>
      take (Suc i) (playOrder ?t) = take (Suc i) (playOrder s))"
  proof (cases "isShuffleEnabled s")
    case True
    let ?adj = "map (shift_index ?k (length items)) (q_shuffled (queue s))"
    note f = insertByUniqueId_shuffled [OF True assms(4,5,3), where t = t and e = e and items = items and r = r]
    obtain tl where tl: "mset tl = mset (drop (Suc i) ?adj @ indexesFrom (Num (int ?k)) (length items))"
      "q_shuffled (queue ?t) = take (Suc i) ?adj @ tl" using f(1) by blast
    have r: "i < length (q_shuffled (queue s))"
      using assms(4) order_ok_length [OF assms(2) True]
      by (simp add: currentId_playOrder [OF assms(1,2)] assms(3) length_playOrder [OF assms(2)] split: if_splits)
    have en: "isShuffleEnabled ?t" using r by (auto simp: isShuffleEnabled_def f(2) tl(2))
    have "mset (q_shuffled (queue ?t)) = mset (map (shift_index ?k (length ?ids)) (q_shuffled (queue s)))
        + mset (indexesFrom (Num (int ?k)) (length ?ids))"
      unfolding tl(2) mset_append tl(1) length_map by (rule mset_take_drop_new)
    from playOrder_inserted [OF assms(2) True en insertIndexFor_le q this]
    have ok: "order_ok ?t" .
    have "currentId ?t = Some c"
    proof -
      from mem obtain j where j: "findIndex (\<lambda>x. x = c) (q_default (queue ?t)) = int j"
        "j < length (q_default (queue ?t))" "q_default (queue ?t) ! j = c" by (rule findIndex_mem)
      have "Num (int j) \<in> set (q_shuffled (queue ?t))"
        unfolding mset_eq_setD [OF order_okD [OF ok en]] using j(2) by (rule index_in_indexes)
      then obtain p where "shuffledPosition (Num (int j)) (q_shuffled (queue ?t)) = int p"
        "p < length (q_shuffled (queue ?t))" "q_shuffled (queue ?t) ! p = Num (int j)"
        by (rule shuffledPosition_mem)
      then show ?thesis
        using f(3) j en by (simp add: currentId_eq [OF store] currentQueueIndex_def
            mapShuffledToQueueIndex_def Let_def)
    qed
    moreover have "take (Suc i) (playOrder ?t) = take (Suc i) (playOrder s)"
    proof -
      have "take (Suc i) (playOrder ?t) = map (id_at (insert_at ?k ?ids ?q)) (take (Suc i) ?adj)"
        using r by (simp add: playOrder_shuffled [OF ok en] tl(2) q take_map [symmetric] min_def)
      also have "\<dots> = map (id_at ?q) (take (Suc i) (q_shuffled (queue s)))"
        unfolding take_map using map_id_at_old [OF insertIndexFor_le,
            of "take (Suc i) (q_shuffled (queue s))" ?q t e ?ids] order_ok_elem [OF assms(2) True]
        by (auto dest: in_set_takeD)
      also have "\<dots> = take (Suc i) (playOrder s)"
        by (simp add: playOrder_shuffled [OF assms(2) True] take_map)
      finally show ?thesis .
    qed
    ultimately show ?thesis using ok by blast
  next
    case False
    then have "p_shuffle (player s) \<noteq> Shuffle_TRACK" using assms(6) by blast
    note f = insertByUniqueId_unshuffled [OF this assms(4), where t = t and e = e and items = items and r = r]
    have n: "\<not> isShuffleEnabled ?t" using \<open>p_shuffle (player s) \<noteq> Shuffle_TRACK\<close> f(1)
      by (simp add: isShuffleEnabled_def)
    with False show ?thesis using currentId_by_position [OF store mem n f(2)] by (simp add: order_ok_def)
  qed
  then show ?thesis
    using playOrder_mset [of ?t] playOrder_mset [OF assms(2)] mset_insert_at [of ?k ?ids ?q] by (simp add: q)
qed

theorem insertByUniqueId_keeps_current_song_witness:
  "currentId (fst (insertByUniqueId [toQueueSong ''u4'' (exampleSong ''d'')] ''u1'' Edge_TOP
     (exampleStore Shuffle_TRACK Repeat_ALL (Num (int 1)), \<lambda>n. 0))) = Some ''u1''"
proof (rule insertByUniqueId_keeps_current_song [where i = 1, THEN conjunct1])
  show "currentId (exampleStore Shuffle_TRACK Repeat_ALL (Num (int 1))) = Some ''u1''" by code_simp
qed (simp_all add: exampleStore_ok exampleStore_order)

section \<open>Moving the selection\<close>

text \<open>The queue of a move: the selected songs, in the given order, among the others in theirs.\<close>

definition moved :: "string list \<Rightarrow> string list \<Rightarrow> string list \<Rightarrow> bool" where
  "moved ids q q' = (\<exists>as bs. q' = as @ ids @ bs \<and> as @ bs = filter (\<lambda>k. k \<notin> set ids) q)"

lemma moved_mset:
  assumes "moved ids q q'" and "distinct q" and "distinct ids" and "set ids \<subseteq> set q"
  shows "mset q' = mset q" and "filter (\<lambda>k. k \<notin> set ids) q' = filter (\<lambda>k. k \<notin> set ids) q"
proof -
  obtain as bs where e: "q' = as @ ids @ bs" "as @ bs = filter (\<lambda>k. k \<notin> set ids) q"
    using assms(1) by (auto simp: moved_def)
  have rest: "set as \<union> set bs = set q - set ids" using arg_cong [OF e(2), of set] by auto
  moreover have "distinct (as @ bs)" unfolding e(2) using assms(2) by simp
  ultimately have "distinct q'" "set q' = set q" using e(1) assms(3,4) by auto
  with assms(2) show "mset q' = mset q" by (simp add: set_eq_iff_mset_eq_distinct)
  have "filter (\<lambda>k. k \<notin> set ids) (as @ bs) = as @ bs" unfolding e(2) by simp
  then show "filter (\<lambda>k. k \<notin> set ids) q' = filter (\<lambda>k. k \<notin> set ids) q"
    unfolding e(2) [symmetric] e(1) by (simp add: filter_empty_conv)
qed

lemma moved_fields:
  assumes "getCurrentSong g = Some x"
  shows "p_index (player (set_default nq (recalculatePlayerIndex g s nq))) =
      Num (max 0 (findIndex (\<lambda>k. k = uniqueId x) nq))"
    and "p_shuffle (player (set_default nq (recalculatePlayerIndex g s nq))) = p_shuffle (player s)"
  using assms by (simp_all add: recalculatePlayerIndex_def)

definition move_ops :: "queue_song list \<Rightarrow> string \<Rightarrow> edge \<Rightarrow> (store \<Rightarrow> store) list" where
  "move_ops items target e =
     [moveSelectedTo items target e, moveSelectedToBottom items, moveSelectedToNext items,
      moveSelectedToTop items]"

lemma move_ops_moved:
  assumes "f \<in> set (move_ops items target e)"
  shows "moved (map uniqueId items) (q_default (queue s)) (q_default (queue (f s)))"
    and "p_shuffle (player (f s)) = p_shuffle (player s)"
    and "getCurrentSong s = Some x \<Longrightarrow>
      p_index (player (f s)) = Num (max 0 (findIndex (\<lambda>k. k = uniqueId x) (q_default (queue (f s)))))"
    and "store_ok s \<Longrightarrow> store_ok (f s)"
    and "q_shuffled (queue (f s)) = q_shuffled (queue s)"
proof -
  consider "f = moveSelectedTo items target e" | "f = moveSelectedToBottom items"
    | "f = moveSelectedToNext items" | "f = moveSelectedToTop items"
    using assms by (auto simp: move_ops_def)
  note cases = this
  let ?ids = "map uniqueId items" and ?q = "q_default (queue s)"
  have m: "moved ?ids ?q (as @ ?ids @ bs)" if "as @ bs = filter (\<lambda>k. k \<notin> set ?ids) ?q" for as bs
    using that unfolding moved_def by blast
  show "moved ?ids ?q (q_default (queue (f s)))"
    by (rule cases)
      (auto simp: moveSelectedTo_def moveSelectedToBottom_def moveSelectedToNext_def
        moveSelectedToTop_def Let_def filter_append [symmetric] simp del: filter_append
        intro!: m m [of _ "[]", simplified] m [of "[]", simplified])
  show "p_shuffle (player (f s)) = p_shuffle (player s)"
    by (rule cases; cases "getCurrentSong s")
      (auto simp: moveSelectedTo_def moveSelectedToBottom_def moveSelectedToNext_def
        moveSelectedToTop_def Let_def recalculatePlayerIndex_def)
  show "getCurrentSong s = Some x \<Longrightarrow>
      p_index (player (f s)) = Num (max 0 (findIndex (\<lambda>k. k = uniqueId x) (q_default (queue (f s)))))"
    by (rule cases) (auto simp: moveSelectedTo_def moveSelectedToBottom_def moveSelectedToNext_def
        moveSelectedToTop_def Let_def recalculatePlayerIndex_def)
  show "store_ok s \<Longrightarrow> store_ok (f s)"
    by (rule cases) (simp_all add: store_ok_moveSelectedTo store_ok_move)
  show "q_shuffled (queue (f s)) = q_shuffled (queue s)"
    by (rule cases) (auto simp: moveSelectedTo_def moveSelectedToBottom_def moveSelectedToNext_def
        moveSelectedToTop_def Let_def)
qed

text \<open>
  Moving selected songs of the queue (to another song, to the top, to the bottom, or after the
  current song) only rearranges the queue: the songs are the same, the others keep their order, and
  without shuffle the current song goes on playing.
\<close>

theorem moves_rearrange_queue:
  assumes "store_ok s" and "distinct (q_default (queue s))"
    and "distinct (map uniqueId items)" and "set (map uniqueId items) \<subseteq> set (q_default (queue s))"
    and "currentId s = Some c" and "f \<in> set (move_ops items target e)"
  shows "mset (q_default (queue (f s))) = mset (q_default (queue s))
    \<and> filter (\<lambda>k. k \<notin> set (map uniqueId items)) (q_default (queue (f s))) =
        filter (\<lambda>k. k \<notin> set (map uniqueId items)) (q_default (queue s))
    \<and> (\<not> isShuffleEnabled s \<longrightarrow> currentId (f s) = Some c)"
proof (intro conjI impI)
  note f = move_ops_moved [OF assms(6)]
  show perm: "mset (q_default (queue (f s))) = mset (q_default (queue s))"
    by (rule moved_mset(1) [OF f(1) assms(2-4)])
  show "filter (\<lambda>k. k \<notin> set (map uniqueId items)) (q_default (queue (f s))) =
        filter (\<lambda>k. k \<notin> set (map uniqueId items)) (q_default (queue s))"
    by (rule moved_mset(2) [OF f(1) assms(2-4)])
  assume off: "\<not> isShuffleEnabled s"
  obtain x where x: "getCurrentSong s = Some x" "uniqueId x = c"
    using assms(5) by (auto simp: currentId_def)
  have "c \<in> set (q_default (queue (f s)))"
    unfolding mset_eq_setD [OF perm] by (rule currentId_in_queue [OF assms(1,5)])
  moreover have "\<not> isShuffleEnabled (f s)" using off by (simp add: isShuffleEnabled_def f(2,5))
  ultimately show "currentId (f s) = Some c"
    using currentId_by_position [OF f(4) [OF assms(1)]] f(3) [OF x(1)] by (simp add: x(2))
qed

theorem moves_rearrange_queue_witness:
  "currentId (moveSelectedToTop [toQueueSong ''u3'' (exampleSong ''c'')]
     (exampleStore Shuffle_NONE Repeat_ALL (Num 1))) = Some ''u2''"
proof (rule moves_rearrange_queue [where f = "moveSelectedToTop [toQueueSong ''u3'' (exampleSong ''c'')]"
      and items = "[toQueueSong ''u3'' (exampleSong ''c'')]", THEN conjunct2, THEN conjunct2, rule_format])
  show "currentId (exampleStore Shuffle_NONE Repeat_ALL (Num 1)) = Some ''u2''" by code_simp
qed (auto simp: exampleStore_ok move_ops_def)

text \<open>
  A flaw of moving under shuffle. The shuffled positions are left as they are and the index
  becomes a position of the queue, so moving songs changes which song is current.
\<close>

theorem move_under_shuffle_changes_song:
  assumes "getCurrentSong s = Some x" and "f \<in> set (move_ops items target e)"
  shows "q_shuffled (queue (f s)) = q_shuffled (queue s)
    \<and> p_index (player (f s)) = Num (max 0 (findIndex (\<lambda>k. k = uniqueId x) (q_default (queue (f s)))))
    \<and> currentId (exampleStore Shuffle_TRACK Repeat_NONE (Num 0)) = Some ''u3''
    \<and> currentId (moveSelectedToTop [toQueueSong ''u2'' (exampleSong ''b'')]
        (exampleStore Shuffle_TRACK Repeat_NONE (Num 0))) = Some ''u1''"
proof (intro conjI)
  show "q_shuffled (queue (f s)) = q_shuffled (queue s)"
    "p_index (player (f s)) = Num (max 0 (findIndex (\<lambda>k. k = uniqueId x) (q_default (queue (f s)))))"
    using move_ops_moved(3,5) [OF assms(2)] assms(1) by simp_all
qed (code_simp)+

theorem move_under_shuffle_changes_song_witness:
  "p_index (player (moveSelectedToTop [toQueueSong ''u2'' (exampleSong ''b'')]
     (exampleStore Shuffle_TRACK Repeat_NONE (Num 0)))) = Num 2"
  by (rule trans, rule move_under_shuffle_changes_song
      [where x = "toQueueSong ''u3'' (exampleSong ''c'')"
        and f = "moveSelectedToTop [toQueueSong ''u2'' (exampleSong ''b'')]"
        and items = "[toQueueSong ''u2'' (exampleSong ''b'')]", THEN conjunct2, THEN conjunct1])
    (code_simp, simp add: move_ops_def, code_simp)

section \<open>Shuffling the queue itself\<close>

lemma shuffleAround_before:
  assumes "distinct (q_default (queue s))" and "i < length (q_default (queue s))"
    and "k = q_default (queue s) ! i"
  shows "q_default (queue (fst (shuffleAround k (s, r)))) ! i = k"
proof -
  have f: "findIndex (\<lambda>x. x = k) (q_default (queue s)) = int i"
    using findIndex_distinct [OF assms(1,2)] assms(3) by simp
  have "length (fst (shuffleInPlace (take i (q_default (queue s))) r)) = i" using assms(2) by simp
  then show ?thesis
    by (simp add: shuffleAround_def f Let_def case_prod_beta nth_append)
qed

text \<open>
  Shuffling the whole queue rearranges it, and without the shuffle mode the current song keeps
  its place: only the songs before it and those after it are mixed, each among themselves.
\<close>

theorem shuffleAll_keeps_current_song:
  assumes "store_ok s" and "index_ok s" and "\<not> isShuffleEnabled s" and "distinct (q_default (queue s))"
  shows "mset (q_default (queue (fst (shuffleAll (s, r))))) = mset (q_default (queue s))
    \<and> p_index (player (fst (shuffleAll (s, r)))) = p_index (player s)
    \<and> currentId (fst (shuffleAll (s, r))) = currentId s"
proof -
  let ?t = "fst (shuffleAll (s, r))"
  obtain i where i: "p_index (player s) = Num (int i)" "i < length (q_default (queue s))"
    using assms(2) by (rule index_okE')
  have cur: "currentId s = Some (q_default (queue s) ! i)"
    using i assms(3) by (simp add: currentId_eq [OF assms(1)] currentQueueIndex_def)
  then obtain x where x: "js_nth (snd (getQueue None s)) (p_index (player s)) = Some x"
    "uniqueId x = q_default (queue s) ! i"
    using assms(3) by (auto simp: currentId_def getCurrentSong_eq currentQueueIndex_def)
  have q: "q_default (queue ?t) = q_default (queue (fst (shuffleAround (uniqueId x) (s, r))))"
    unfolding shuffleAll_def Let_def prod.case x(1) option.case by (rule regenerate_frame)
  have "isShuffleEnabled ?t = isShuffleEnabled s"
  proof -
    have sh: "q_shuffled (queue (fst (shuffleAround (uniqueId x) (s, r)))) = q_shuffled (queue s)"
      by (simp add: shuffleAround_def shuffleDefaultAll_def Let_def case_prod_beta)
    then have n: "\<not> isShuffleEnabled (fst (shuffleAround (uniqueId x) (s, r)))"
      using assms(3) by (simp add: isShuffleEnabled_def)
    then have "?t = fst (shuffleAround (uniqueId x) (s, r))"
      unfolding shuffleAll_def Let_def prod.case x(1) option.case
      by (simp add: regenerateShuffledIndexesIfNeeded_def case_prod_beta)
    with n assms(3) show ?thesis by simp
  qed
  moreover have "store_ok ?t" by (rule store_ok_shuffleAll [OF assms(1)])
  moreover have "length (q_default (queue ?t)) = length (q_default (queue s))"
    by (rule mset_eq_length [OF shuffleAll_mset])
  ultimately have "currentId ?t = currentId s"
    using i assms(3) shuffleAround_before [OF assms(4) i(2) x(2), of r] cur x(2)
    by (simp add: currentId_eq currentQueueIndex_def shuffleAll_player q)
  then show ?thesis by (simp only: shuffleAll_mset shuffleAll_player simp_thms)
qed

theorem shuffleAll_keeps_current_song_witness:
  "currentId (fst (shuffleAll (exampleStore Shuffle_NONE Repeat_ALL (Num 1), \<lambda>n. 0))) =
     currentId (exampleStore Shuffle_NONE Repeat_ALL (Num 1))"
  by (rule shuffleAll_keeps_current_song [THEN conjunct2, THEN conjunct2])
    (simp_all add: exampleStore_ok exampleStore_index)

lemma write_at_nth_other:
  "\<forall>p \<in> fst ` set ps. nat p \<noteq> j \<Longrightarrow> write_at q ps ! j = q ! j"
  by (induction ps arbitrary: q) auto

lemma length_write_at [simp]: "length (write_at q ps) = length q"
  by (induction ps arbitrary: q) auto

lemma write_at_nth_written:
  assumes "distinct (map fst ps)" and "\<forall>p \<in> fst ` set ps. 0 \<le> p \<and> p < int (length q)" and "(p, x) \<in> set ps"
  shows "write_at q ps ! nat p = x"
  using assms
proof (induction ps arbitrary: q)
  case (Cons a ps)
  obtain b y where a: "a = (b, y)" by (cases a)
  show ?case
  proof (cases "(p, x) = a")
    case True
    then have px: "b = p" "y = x" using a by auto
    have "\<forall>p' \<in> fst ` set ps. nat p' \<noteq> nat p"
      using Cons.prems(1,2) px a by (auto simp: nat_eq_iff)
    from write_at_nth_other [OF this, of "q[nat b := y]"] show ?thesis
      using Cons.prems(2) px a by (simp add: nat_less_iff)
  next
    case False
    then have "(p, x) \<in> set ps" using Cons.prems(3) by auto
    from Cons.IH [OF _ _ this, of "q[nat b := y]"] show ?thesis using Cons.prems(1,2) a by simp
  qed
qed simp

lemma distinct_selectedPositions:
  assumes "distinct ids"
  shows "distinct (selectedPositions ids q)"
proof -
  have "inj_on (\<lambda>k. findIndex (\<lambda>i. i = k) q) {k \<in> set ids. findIndex (\<lambda>i. i = k) q \<noteq> -1}"
  proof (rule inj_onI)
    fix k l
    assume k: "k \<in> {k \<in> set ids. findIndex (\<lambda>i. i = k) q \<noteq> -1}"
      and l: "l \<in> {k \<in> set ids. findIndex (\<lambda>i. i = k) q \<noteq> -1}"
      and e: "findIndex (\<lambda>i. i = k) q = findIndex (\<lambda>i. i = l) q"
    have "q ! nat (findIndex (\<lambda>i. i = k) q) = k" using k findIndex_nth [of "\<lambda>i. i = k" q] by blast
    moreover have "q ! nat (findIndex (\<lambda>i. i = l) q) = l" using l findIndex_nth [of "\<lambda>i. i = l" q] by blast
    ultimately show "k = l" unfolding e by simp
  qed
  moreover have "distinct (filter (\<lambda>k. findIndex (\<lambda>i. i = k) q \<noteq> -1) ids)" using assms by simp
  ultimately have "distinct (map (\<lambda>k. findIndex (\<lambda>i. i = k) q) (filter (\<lambda>k. findIndex (\<lambda>i. i = k) q \<noteq> -1) ids))"
    by (simp add: distinct_map)
  then show ?thesis by (simp add: selectedPositions_def filter_map o_def)
qed

lemma mset_by_positions:
  assumes "distinct ps" and "\<forall>p \<in> set ps. p < length q" and "length q' = length q"
    and "\<forall>j < length q. j \<notin> set ps \<longrightarrow> q' ! j = q ! j"
    and "mset (map ((!) q') ps) = mset (map ((!) q) ps)"
  shows "mset q' = mset q"
proof -
  let ?rest = "filter (\<lambda>j. j \<notin> set ps) [0..<length q]"
  have "mset [0..<length q] = mset (ps @ ?rest)"
    by (rule set_eq_iff_mset_eq_distinct [THEN iffD1]) (use assms(1,2) in auto)
  then have all: "mset (map ((!) l) [0..<length q]) = mset (map ((!) l) ps) + mset (map ((!) l) ?rest)"
    for l :: "'a list" by (metis mset_append mset_map map_append)
  have "map ((!) q') ?rest = map ((!) q) ?rest" using assms(4) by (intro map_cong) auto
  then have "mset (map ((!) q') [0..<length q]) = mset (map ((!) q) [0..<length q])"
    by (simp only: all assms(5))
  moreover have "map ((!) q') [0..<length q] = q'" using assms(3) by (metis map_nth)
  ultimately show ?thesis by (simp only: map_nth)
qed

text \<open>
  Shuffling the selected songs rearranges the queue among their positions only: no song is lost
  or doubled, and every song that is not selected stays where it is.
\<close>

theorem shuffleSelected_permutes_selection:
  assumes "distinct (map uniqueId items)"
  shows "mset (q_default (queue (fst (shuffleSelected items (s, r))))) = mset (q_default (queue s))
    \<and> (\<forall>j < length (q_default (queue s)). q_default (queue s) ! j \<notin> set (map uniqueId items) \<longrightarrow>
        q_default (queue (fst (shuffleSelected items (s, r)))) ! j = q_default (queue s) ! j)"
proof -
  let ?q = "q_default (queue s)" and ?ids = "map uniqueId items"
  let ?ps = "selectedPositions ?ids ?q"
  let ?xs = "fst (shuffleInPlace (map (\<lambda>p. ?q ! nat p) ?ps) r)"
  let ?q' = "write_at ?q (zip ?ps ?xs)"
  have q': "q_default (queue (fst (shuffleSelected items (s, r)))) = ?q'"
    by (simp only: shuffleSelected_default Let_def)
  have range: "0 \<le> p \<and> p < int (length ?q) \<and> ?q ! nat p \<in> set ?ids" if "p \<in> set ?ps" for p
    using selectedPositions_in_queue [OF that] by blast
  have d: "distinct ?ps" by (rule distinct_selectedPositions [OF assms])
  have zs: "map fst (zip ?ps ?xs) = ?ps" by simp
  have fs: "fst ` set (zip ?ps ?xs) = set ?ps" by (metis zs set_map)
  have other: "?q' ! j = ?q ! j" if "j < length ?q" "?q ! j \<notin> set ?ids" for j
    by (rule write_at_nth_other) (use range that in \<open>auto simp: fs\<close>)
  have written: "map ((!) ?q') (map nat ?ps) = ?xs"
  proof (rule nth_equalityI)
    fix n assume n: "n < length (map ((!) ?q') (map nat ?ps))"
    then have "(?ps ! n, ?xs ! n) \<in> set (zip ?ps ?xs)" by (auto simp: set_zip)
    from write_at_nth_written [OF _ _ this, of ?q] show "map ((!) ?q') (map nat ?ps) ! n = ?xs ! n"
      using n d range by (simp add: fs)
  qed simp
  have "mset ?q' = mset ?q"
  proof (rule mset_by_positions [of "map nat ?ps"])
    have "inj_on nat (set ?ps)" by (rule inj_onI) (metis range nat_0_le)
    with d show "distinct (map nat ?ps)" by (simp add: distinct_map)
    show "\<forall>p \<in> set (map nat ?ps). p < length ?q" using range by force
    show "\<forall>j < length ?q. j \<notin> set (map nat ?ps) \<longrightarrow> ?q' ! j = ?q ! j"
      by (intro allI impI write_at_nth_other, unfold fs) auto
    show "mset (map ((!) ?q') (map nat ?ps)) = mset (map ((!) ?q) (map nat ?ps))"
      unfolding written by (simp add: shuf.sh_mset o_def)
  qed simp
  then show ?thesis unfolding q' using other by simp
qed

theorem shuffleSelected_permutes_selection_witness:
  "mset (q_default (queue (fst (shuffleSelected
       [toQueueSong ''u3'' (exampleSong ''c''), toQueueSong ''u1'' (exampleSong ''a'')]
       (exampleStore Shuffle_NONE Repeat_ALL (Num 1), \<lambda>n. 0))))) = mset [''u1'', ''u2'', ''u3'']"
  using shuffleSelected_permutes_selection
      [of "[toQueueSong ''u3'' (exampleSong ''c''), toQueueSong ''u1'' (exampleSong ''a'')]"
        "exampleStore Shuffle_NONE Repeat_ALL (Num 1)" "\<lambda>n. 0"] by simp

end
