(* ===== verification/QueueStart.thy ===== *)
theory QueueStart
  imports QueueCurrent
begin

text \<open>
  Starting playback: a queued song by its unique id or by its place, a new queue, and the state of
  the whole world after any sequence of the player's operations.
\<close>

section \<open>Playing a queued song\<close>

lemma playPosition_current:
  assumes "store_ok s" and "order_ok s" and "k \<in> set (q_default (queue s))"
  obtains i where "playPosition k s = Some (Num (int i))" "i < length (q_default (queue s))"
    "\<forall>t. queue t = queue s \<longrightarrow> p_shuffle (player t) = p_shuffle (player s) \<longrightarrow>
       p_index (player t) = Num (int i) \<longrightarrow> currentId t = Some k"
proof -
  let ?q = "q_default (queue s)"
  obtain j where j: "findIndex (\<lambda>x. x = k) ?q = int j" "j < length ?q" "?q ! j = k"
    using assms(3) by (rule findIndex_mem)
  have fi: "findIndex (\<lambda>item. uniqueId item = k) (queueItems s) = int j"
    using findIndex_map [of "\<lambda>x. x = k" uniqueId "queueItems s"] j(1) queueItems_ids [OF assms(1)] by simp
  have ok: "store_ok t" if "queue t = queue s" for t
    using assms(1) store_ok_same_queue [OF that] by simp
  show thesis
  proof (cases "isShuffleEnabled s")
    case True
    have "Num (int j) \<in> set (q_shuffled (queue s))"
      unfolding mset_eq_setD [OF order_okD [OF assms(2) True]] using j(2) by (rule index_in_indexes)
    then obtain p where p: "shuffledPosition (Num (int j)) (q_shuffled (queue s)) = int p"
      "p < length (q_shuffled (queue s))" "q_shuffled (queue s) ! p = Num (int j)"
      by (rule shuffledPosition_mem)
    show thesis
    proof (rule that [of p])
      show "playPosition k s = Some (Num (int p))"
        using True by (simp add: playPosition_def fi p isShuffleEnabled_def)
      show "p < length ?q" using p(2) order_ok_length [OF assms(2) True] by simp
      show "\<forall>t. queue t = queue s \<longrightarrow> p_shuffle (player t) = p_shuffle (player s) \<longrightarrow>
         p_index (player t) = Num (int p) \<longrightarrow> currentId t = Some k"
        using True p j by (simp add: currentId_eq [OF ok] currentQueueIndex_def
            isShuffleEnabled_def mapShuffledToQueueIndex_def)
    qed
  next
    case False
    show thesis
    proof (rule that [of j])
      show "playPosition k s = Some (Num (int j))"
        using False by (auto simp: playPosition_def fi isShuffleEnabled_def)
      show "\<forall>t. queue t = queue s \<longrightarrow> p_shuffle (player t) = p_shuffle (player s) \<longrightarrow>
         p_index (player t) = Num (int j) \<longrightarrow> currentId t = Some k"
      proof (intro allI impI)
        fix t :: store assume t: "queue t = queue s" "p_shuffle (player t) = p_shuffle (player s)"
          "p_index (player t) = Num (int j)"
        then have "\<not> isShuffleEnabled t" using False by (simp add: isShuffleEnabled_def)
        with t j show "currentId t = Some k" by (simp add: currentId_eq [OF ok] currentQueueIndex_def)
      qed
    qed (rule j(2))
  qed
qed

text \<open>
  \<open>mediaPlay\<close> with the unique id of a queued song makes that song the current one, in either
  shuffle mode, starts playing from the beginning, and announces the position it wrote.
\<close>

theorem mediaPlay_plays_song:
  assumes "store_ok (w_store w)" and "order_ok (w_store w)"
    and "k \<in> set (q_default (queue (w_store w)))" and "k \<noteq> ''''"
  shows "currentId (w_store (mediaPlay (Some k) w)) = Some k
    \<and> p_status (player (w_store (mediaPlay (Some k) w))) = PLAYING
    \<and> w_timestamp (mediaPlay (Some k) w) = 0
    \<and> w_effects (mediaPlay (Some k) w) =
        w_effects w @ [PLAYER_PLAY k (p_index (player (w_store (mediaPlay (Some k) w))))]
    \<and> index_ok (w_store (mediaPlay (Some k) w))"
proof -
  from assms(1-3) obtain i where i: "playPosition k (w_store w) = Some (Num (int i))"
    "i < length (q_default (queue (w_store w)))"
    "\<forall>t. queue t = queue (w_store w) \<longrightarrow> p_shuffle (player t) = p_shuffle (player (w_store w)) \<longrightarrow>
       p_index (player t) = Num (int i) \<longrightarrow> currentId t = Some k" by (rule playPosition_current)
  have "currentId (w_store (mediaPlay (Some k) w)) = Some k"
    by (rule i(3) [rule_format]) (simp_all add: mediaPlay_def assms(4) i(1) emit_def setTimestampStore_def)
  then show ?thesis
    using assms(4) i(1,2) by (simp add: mediaPlay_def emit_def setTimestampStore_def index_ok_def)
qed

theorem mediaPlay_plays_song_witness:
  "currentId (w_store (mediaPlay (Some ''u2'') (exampleWorld (exampleStore Shuffle_TRACK Repeat_ALL (Num 0)))))
     = Some ''u2''"
  by (rule mediaPlay_plays_song [THEN conjunct1]) (simp_all add: exampleStore_ok exampleStore_order)

text \<open>
  \<open>mediaPlayByIndex\<close> with a position of the displayed queue plays the song shown there, in either
  shuffle mode; with -1 or a position beyond the end it only pauses.
\<close>

theorem mediaPlayByIndex_plays_shown_song:
  assumes "store_ok (w_store w)" and "order_ok (w_store w)"
  shows "(0 \<le> n \<and> n < int (length (q_default (queue (w_store w)))) \<longrightarrow>
      currentId (w_store (mediaPlayByIndex (Num n) w)) = Some (q_default (queue (w_store w)) ! nat n)
      \<and> p_status (player (w_store (mediaPlayByIndex (Num n) w))) = PLAYING)
    \<and> (n = -1 \<or> int (length (q_default (queue (w_store w)))) \<le> n \<longrightarrow>
      w_store (mediaPlayByIndex (Num n) w) = set_status PAUSED (w_store w))"
proof (intro conjI impI)
  let ?s = "w_store w" and ?q = "q_default (queue (w_store w))"
  let ?t = "w_store (mediaPlayByIndex (Num n) w)"
  note len = length_queueItems [OF assms(1)]
  assume n: "0 \<le> n \<and> n < int (length ?q)"
  have t: "?t = set_status PLAYING (set_index (if isShuffleEnabled ?s
      then nullish_or (findShuffledPositionForQueueIndex (Num n) (q_shuffled (queue ?s))) (Num n)
      else Num n) ?s)"
    using n len by (simp add: mediaPlayByIndex_def Let_def emit_def setTimestampStore_def)
  then show "p_status (player ?t) = PLAYING" by simp
  have ok: "store_ok ?t" using assms(1) by (simp add: t)
  show "currentId ?t = Some (?q ! nat n)"
  proof (cases "isShuffleEnabled ?s")
    case True
    have "Num (int (nat n)) \<in> set (q_shuffled (queue ?s))"
      unfolding mset_eq_setD [OF order_okD [OF assms(2) True]] using n by (intro index_in_indexes) (simp add: nat_less_iff)
    then obtain p where p: "shuffledPosition (Num (int (nat n))) (q_shuffled (queue ?s)) = int p"
      "p < length (q_shuffled (queue ?s))" "q_shuffled (queue ?s) ! p = Num (int (nat n))"
      by (rule shuffledPosition_mem)
    have "int (nat n) = n" using n by simp
    then have "findShuffledPositionForQueueIndex (Num n) (q_shuffled (queue ?s)) = Some (Num (int p))"
      using p(1) by (simp add: findShuffledPositionForQueueIndex_def)
    then have "p_index (player ?t) = Num (int p)" "queue ?t = queue ?s" "isShuffleEnabled ?t"
      using True by (simp_all add: t isShuffleEnabled_def)
    then show ?thesis
      using p n by (simp add: currentId_eq [OF ok] currentQueueIndex_def mapShuffledToQueueIndex_def)
  next
    case False
    then have "p_index (player ?t) = Num n" "queue ?t = queue ?s" by (simp_all add: t)
    moreover have "\<not> isShuffleEnabled ?t"
      using False unfolding t isShuffleEnabled_def by simp
    ultimately show ?thesis using n by (simp add: currentId_eq [OF ok] currentQueueIndex_def)
  qed
next
  assume "n = -1 \<or> int (length (q_default (queue (w_store w)))) \<le> n"
  then show "w_store (mediaPlayByIndex (Num n) w) = set_status PAUSED (w_store w)"
    using length_queueItems [OF assms(1)] by (auto simp: mediaPlayByIndex_def Let_def)
qed

theorem mediaPlayByIndex_plays_shown_song_witness:
  "currentId (w_store (mediaPlayByIndex (Num 1) (exampleWorld (exampleStore Shuffle_TRACK Repeat_ALL (Num 0)))))
     = Some ''u2''"
  using mediaPlayByIndex_plays_shown_song
      [of "exampleWorld (exampleStore Shuffle_TRACK Repeat_ALL (Num 0))" 1]
  by (simp add: exampleStore_ok exampleStore_order)

section \<open>Starting a new queue\<close>

lemma toQueueSongs_eq:
  "fst (toQueueSongs items g) = map (\<lambda>i. toQueueSong (g i) (items ! i)) [0..<length items]"
proof (induction items arbitrary: g)
  case (Cons item items)
  have "map (\<lambda>i. toQueueSong (g (Suc i)) (items ! i)) [0..<length items] =
      map (\<lambda>i. toQueueSong (g i) ((item # items) ! i)) [1..<Suc (length items)]"
    by (simp add: map_Suc_upt [symmetric] del: upt_Suc)
  with Cons show ?case by (simp add: case_prod_beta ids_rest_def upt_conv_Cons del: upt_Suc)
qed simp

lemma stopRadioIfActive_frame [simp]:
  "queue (w_store (stopRadioIfActive w)) = queue (w_store w)"
  "p_shuffle (player (w_store (stopRadioIfActive w))) = p_shuffle (player (w_store w))"
  "\<not> truthy (r_streamUrl (w_radio (stopRadioIfActive w)))"
  by (simp_all add: stopRadioIfActive_def radioStop_def mediaStop_def emit_def seekTo_def
      setTimestampStore_def noRadio_def Let_def)

lemma addNow_fields:
  "q_default (queue (fst (addNow items t (s, r)))) = map uniqueId items"
  "p_index (player (fst (addNow items t (s, r)))) = Num 0"
  "p_status (player (fst (addNow items t (s, r)))) = PLAYING"
  "p_shuffle (player (fst (addNow items t (s, r)))) = p_shuffle (player s)"
  by (simp_all add: addNow_def Let_def split: prod.splits)

lemma addNow_order_ok: "order_ok (fst (addNow items t (s, r)))"
proof (cases "p_shuffle (player s) = Shuffle_TRACK")
  case False
  then show ?thesis by (simp add: order_ok_def isShuffleEnabled_def addNow_fields)
next
  case True
  let ?ids = "map uniqueId items"
  have "mset (q_shuffled (queue (fst (addNow items t (s, r))))) = mset (indexes (length ?ids))"
  proof (cases "truthy t \<and> findIndex (\<lambda>k. k = the t) ?ids \<noteq> -1")
    case True
    then have "\<exists>k \<in> set ?ids. k = the t" using findIndex_none [of "\<lambda>k. k = the t" ?ids] by blast
    then have "the t \<in> set ?ids" by blast
    then obtain i where i: "findIndex (\<lambda>k. k = the t) ?ids = int i" "i < length ?ids"
      by (rule findIndex_mem)
    note front = mset_move_to_front [OF distinct_indexes index_in_indexes [OF i(2)]]
    show ?thesis
      using True \<open>p_shuffle (player s) = Shuffle_TRACK\<close> front i(1)
      by (simp add: addNow_def Let_def case_prod_beta shuf.sh_mset del: mset_map)
  next
    case False
    with \<open>p_shuffle (player s) = Shuffle_TRACK\<close> show ?thesis
      by (auto simp: addNow_def Let_def case_prod_beta shuf.sh_mset generateShuffledIndexes_def
          simp del: mset_map)
  qed
  then show ?thesis unfolding order_ok_def addNow_fields by blast
qed

lemma startSong_plays:
  assumes "store_ok (w_store w)" and "order_ok (w_store w)" and "k \<in> set (q_default (queue (w_store w)))"
  shows "currentId (w_store (startSong k w)) = Some k"
    and "queue (w_store (startSong k w)) = queue (w_store w)"
    and "p_shuffle (player (w_store (startSong k w))) = p_shuffle (player (w_store w))"
    and "p_status (player (w_store (startSong k w))) = PLAYING"
    and "w_timestamp (startSong k w) = 0" and "w_radio (startSong k w) = w_radio w"
proof -
  from assms obtain i where i: "playPosition k (w_store w) = Some (Num (int i))"
    "i < length (q_default (queue (w_store w)))"
    "\<forall>t. queue t = queue (w_store w) \<longrightarrow> p_shuffle (player t) = p_shuffle (player (w_store w)) \<longrightarrow>
       p_index (player t) = Num (int i) \<longrightarrow> currentId t = Some k" by (rule playPosition_current)
  show "currentId (w_store (startSong k w)) = Some k"
    by (rule i(3) [rule_format]) (simp_all add: startSong_def i(1) emit_def setTimestampStore_def)
  show "queue (w_store (startSong k w)) = queue (w_store w)"
    "p_shuffle (player (w_store (startSong k w))) = p_shuffle (player (w_store w))"
    "p_status (player (w_store (startSong k w))) = PLAYING"
    "w_timestamp (startSong k w) = 0" "w_radio (startSong k w) = w_radio w"
    by (simp_all add: startSong_def i(1) emit_def setTimestampStore_def)
qed

lemma order_ok_same:
  "queue t = queue s \<Longrightarrow> p_shuffle (player t) = p_shuffle (player s) \<Longrightarrow> order_ok t = order_ok s"
  by (simp add: order_ok_def isShuffleEnabled_def)

lemma set_with_draws_store:
  "w_store (set_with_draws f w) = fst (f (w_store w, w_draws w))"
  "w_radio (set_with_draws f w) = w_radio w"
  "w_effects (set_with_draws f w) = w_effects w"
  by (simp_all add: set_with_draws_def case_prod_beta)

text \<open>
  Playing songs now, from a chosen one, replaces the queue by these songs, stops the radio, and
  plays the first of them with the chosen id from its beginning; under shuffle the others follow in
  a drawn order.
\<close>

theorem play_now_starts_chosen_song:
  assumes "store_ok (w_store w)" and "\<exists>item \<in> set items. s_id item = p" and "p \<noteq> ''''"
    and "\<forall>i < length items. w_ids w i \<noteq> ''''"
  shows "\<exists>i < length items. s_id (items ! i) = p \<and> (\<forall>j < i. s_id (items ! j) \<noteq> p)
    \<and> (let w' = addToQueueByType items Play_NOW (Some p) w
       in currentId (w_store w') = Some (w_ids w i)
        \<and> q_default (queue (w_store w')) = map (w_ids w) [0..<length items]
        \<and> order_ok (w_store w')
        \<and> p_status (player (w_store w')) = PLAYING \<and> w_timestamp w' = 0
        \<and> \<not> truthy (r_streamUrl (w_radio w')))"
proof -
  obtain new g where n: "toQueueSongs items (w_ids w) = (new, g)" by (rule prod.exhaust)
  have new: "new = map (\<lambda>i. toQueueSong (w_ids w i) (items ! i)) [0..<length items]"
    using toQueueSongs_eq [of items "w_ids w"] by (simp add: n)
  have "\<exists>y \<in> set new. s_id y = p" using assms(2) by (force simp: new in_set_conv_nth)
  then have "List.find (\<lambda>item. s_id item = p) new \<noteq> None" unfolding find_None_iff by blast
  then obtain x where x: "List.find (\<lambda>item. s_id item = p) new = Some x" by blast
  then obtain i where i: "i < length items" "s_id (items ! i) = p" "\<forall>j < i. s_id (items ! j) \<noteq> p"
    "uniqueId x = w_ids w i"
    by (auto simp: find_Some_iff new)
  have tgt: "findTarget (Some p) new = Some (w_ids w i)" using assms(3) x i(4) by (simp add: findTarget_def)
  let ?w1 = "stopRadioIfActive (w\<lparr>w_ids := g\<rparr>)"
  let ?w2 = "setTimestampStore 0 (set_with_draws (addNow new (Some (w_ids w i))) ?w1)"
  have w2: "w_store ?w2 = fst (addNow new (Some (w_ids w i)) (w_store ?w1, w_draws ?w1))"
    "w_radio ?w2 = w_radio ?w1"
    by (simp_all add: setTimestampStore_def set_with_draws_store)
  have act: "addToQueueByType items Play_NOW (Some p) w = startSong (w_ids w i) ?w2"
    using assms(4) i(1) by (simp add: addToQueueByType_def n Let_def tgt emitPlayerPlayEvent_def)
  have "store_ok (w_store ?w1)" using assms(1) store_ok_same_queue [of "w_store ?w1" "w_store w"] by simp
  then have ok: "store_ok (w_store ?w2)" "order_ok (w_store ?w2)"
    unfolding w2 by (rule store_ok_addNow) (rule addNow_order_ok)
  have q: "q_default (queue (w_store ?w2)) = map (w_ids w) [0..<length items]"
    unfolding w2 addNow_fields unfolding new by simp
  have "w_ids w i \<in> set (q_default (queue (w_store ?w2)))" using i(1) by (simp add: q)
  note play = startSong_plays [OF ok this]
  show ?thesis
    using i play q ok(2) order_ok_same [OF play(2,3)]
    by (intro exI [of _ i]) (simp add: Let_def act w2)
qed

theorem play_now_starts_chosen_song_witness:
  "\<exists>i < 2. s_id ([exampleSong ''a'', exampleSong ''b''] ! i) = ''b''
     \<and> currentId (w_store (addToQueueByType [exampleSong ''a'', exampleSong ''b''] Play_NOW (Some ''b'')
          (exampleWorld (exampleStore Shuffle_TRACK Repeat_ALL (Num 0))))) =
        Some (w_ids (exampleWorld (exampleStore Shuffle_TRACK Repeat_ALL (Num 0))) i)"
  using play_now_starts_chosen_song [of "exampleWorld (exampleStore Shuffle_TRACK Repeat_ALL (Num 0))"
      "[exampleSong ''a'', exampleSong ''b'']" "''b''"]
  by (auto simp: exampleStore_ok Let_def exampleSong_def exampleWorld_def initialWorld_def ids_rest_def)

text \<open>
  A flaw of playing now under shuffle without a chosen song. The play event carries the first
  song of the new queue, whatever the drawn order is, while the song that is current is the one at
  the first shuffled position \<open>k\<close>.
\<close>

theorem play_now_announces_first_song:
  assumes "items \<noteq> []" and "store_ok (w_store w)" and "p_shuffle (player (w_store w)) = Shuffle_TRACK"
    and "hd (fst (generateShuffledIndexes (length items) (w_draws w))) = Num (int k)"
  shows "last (w_effects (addToQueueByType items Play_NOW None w)) = PLAYER_PLAY (w_ids w 0) (Num 0)
    \<and> currentId (w_store (addToQueueByType items Play_NOW None w)) = Some (w_ids w k)"
proof -
  obtain new g where n: "toQueueSongs items (w_ids w) = (new, g)" by (rule prod.exhaust)
  have new: "new = map (\<lambda>i. toQueueSong (w_ids w i) (items ! i)) [0..<length items]"
    using toQueueSongs_eq [of items "w_ids w"] by (simp add: n)
  let ?w1 = "stopRadioIfActive (w\<lparr>w_ids := g\<rparr>)"
  let ?w2 = "setTimestampStore 0 (set_with_draws (addNow new None) ?w1)"
  have draws: "w_draws ?w1 = w_draws w"
    by (simp add: stopRadioIfActive_def radioStop_def mediaStop_def emit_def seekTo_def
        setTimestampStore_def Let_def)
  have w2: "w_store ?w2 = fst (addNow new None (w_store ?w1, w_draws w))"
    by (simp add: setTimestampStore_def set_with_draws_store draws)
  have "store_ok (w_store ?w1)" using assms(2) store_ok_same_queue [of "w_store ?w1" "w_store w"] by simp
  then have ok: "store_ok (w_store ?w2)" unfolding w2 by (rule store_ok_addNow)
  have q: "q_default (queue (w_store ?w2)) = map (w_ids w) [0..<length items]"
    unfolding w2 addNow_fields unfolding new by simp
  have sh: "q_shuffled (queue (w_store ?w2)) = fst (generateShuffledIndexes (length items) (w_draws w))"
    unfolding w2 using assms(3) by (simp add: addNow_def Let_def case_prod_beta new)
  have len: "length (q_shuffled (queue (w_store ?w2))) = length items"
    unfolding sh generateShuffledIndexes_def by simp
  have "hd (q_shuffled (queue (w_store ?w2))) \<in> set (q_shuffled (queue (w_store ?w2)))"
    using len assms(1) by (intro hd_in_set) auto
  then have k: "k < length items" unfolding sh assms(4) by (auto simp: generateShuffledIndexes_def)
  have idx: "p_index (player (w_store ?w2)) = Num 0" unfolding w2 addNow_fields ..
  have tr: "p_shuffle (player (w_store ?w2)) = Shuffle_TRACK" unfolding w2 addNow_fields using assms(3) by simp
  have "js_nth (q_shuffled (queue (w_store ?w2))) (Num 0) = Some (Num (int k))"
  proof -
    have "fst (generateShuffledIndexes (length items) (w_draws w)) \<noteq> []"
      using len assms(1) unfolding sh by auto
    from hd_conv_nth [OF this] len assms(1,4) show ?thesis by (simp add: sh)
  qed
  then have cur: "currentId (w_store ?w2) = Some (w_ids w k)"
    using k tr len assms(1) by (simp add: currentId_eq [OF ok] currentQueueIndex_def idx q
        isShuffleEnabled_def mapShuffledToQueueIndex_def del: js_nth_Num) simp
  have "map_option uniqueId (js_nth (queueItems (w_store ?w2)) (Num 0)) = Some (w_ids w 0)"
    unfolding js_nth_queueItems_id [OF ok] unfolding q using assms(1) by simp
  then obtain x where x: "js_nth (queueItems (w_store ?w2)) (Num 0) = Some x" "uniqueId x = w_ids w 0"
    by blast
  have "addToQueueByType items Play_NOW None w = emitPlayerPlayEvent None ?w2"
    by (simp add: addToQueueByType_def n Let_def findTarget_def)
  also have "\<dots> = emit (PLAYER_PLAY (w_ids w 0) (Num 0)) ?w2"
    unfolding emitPlayerPlayEvent_def Let_def idx getQueue_None x(1) option.case by (simp add: x(2))
  finally show ?thesis using cur by (simp add: emit_def)
qed

theorem play_now_announces_first_song_witness:
  "currentId (w_store (addToQueueByType [exampleSong ''a'', exampleSong ''b''] Play_NOW None
      (exampleWorld (exampleStore Shuffle_TRACK Repeat_ALL (Num 0))))) =
     Some (w_ids (exampleWorld (exampleStore Shuffle_TRACK Repeat_ALL (Num 0))) 1)"
  by (rule play_now_announces_first_song [THEN conjunct2])
    (simp_all add: exampleStore_ok generateShuffledIndexes_def shuffleInPlace_def random_below_def swap_at_def
      Let_def)

section \<open>Every reachable world\<close>

text \<open>
  C3: Whatever sequence of operations is performed on the player from its start, the queue that is
  displayed is exactly the list of the queued ids (no song is missing, none is filed under another
  id), and the cross-fade duration and the speed stay in their bounds.
\<close>

theorem reachable_worlds_consistent:
  fixes actions :: "action list" and g :: id_stream and r :: draws
  defines "s \<equiv> w_store (fold perform actions (initialWorld g r))"
  shows "map uniqueId (snd (getQueue None s)) = q_default (queue s)
    \<and> distinct (obj_keys (q_songs (queue s)))
    \<and> 0 \<le> p_crossfadeDuration (player s) \<and> p_crossfadeDuration (player s) \<le> 10
    \<and> 1 / 2 \<le> p_speed (player s) \<and> p_speed (player s) \<le> 2"
proof -
  have "world_ok (fold perform actions (initialWorld g r))"
    by (rule playerc.run_inv [OF world_ok_initial])
  then have "store_ok s" "settings_ok (player s)" by (simp_all add: world_ok_def s_def)
  then show ?thesis using queueItems_ids [of s] by (simp add: store_ok_def settings_ok_def)
qed

theorem reachable_worlds_consistent_witness:
  "map uniqueId (snd (getQueue None (w_store (fold perform [Do_toggleShuffle, Do_clearQueue]
     (initialWorld (\<lambda>n. ''x'') (\<lambda>n. 0)))))) =
   q_default (queue (w_store (fold perform [Do_toggleShuffle, Do_clearQueue]
     (initialWorld (\<lambda>n. ''x'') (\<lambda>n. 0)))))"
  by (rule reachable_worlds_consistent [THEN conjunct1])

end
