(* ===== verification/PlayerFilters.thy ===== *)
theory PlayerFilters
  imports PlayerTypes
begin

text \<open>
  The filters of the player settings (\<^verbatim>\<open>features/player/utils.ts\<close>): songs that match one of them are left
  out when songs are queued. Text and number conversion and the regular expressions belong to the
  JavaScript engine; they are the fields of \<open>text_lib\<close>, an argument of the definitions.
\<close>

section \<open>Values\<close>

text \<open>
  \<open>stringToNumber\<close> is None for NaN, and \<open>regexTest pattern text\<close> is None when the pattern is invalid
  (the constructor throws).
\<close>

record text_lib =
  toLowerCase :: "string \<Rightarrow> string"
  numberToString :: "rat \<Rightarrow> string"
  stringToNumber :: "string \<Rightarrow> rat option"
  regexTest :: "string \<Rightarrow> string \<Rightarrow> bool option"

datatype filter_field = Field_name | Field_albumArtist | Field_artist | Field_duration | Field_genre
  | Field_year | Field_note | Field_path | Field_playCount | Field_favorite | Field_rating

datatype filter_operator = Opr_is | Opr_isNot | Opr_contains | Opr_notContains | Opr_startsWith
  | Opr_endsWith | Opr_regex | Opr_gt | Opr_lt | Opr_inTheRange | Opr_before | Opr_after
  | Opr_beforeDate | Opr_afterDate | Opr_inTheRangeDate | Opr_inTheLast | Opr_notInTheLast

datatype filter_value = FV_str string | FV_num rat | FV_bool bool | FV_arr "(string + rat) list"

text \<open>A filter that is being edited may lack its field, operator or value.\<close>

record player_filter =
  f_field :: "filter_field option"
  f_isEnabled :: "bool option"
  f_operator :: "filter_operator option"
  f_value :: "filter_value option"

datatype song_value = SV_str string | SV_num rat | SV_bool bool

definition boolToString :: "bool \<Rightarrow> string" where
  "boolToString b = (if b then ''true'' else ''false'')"

fun joinComma :: "string list \<Rightarrow> string" where
  "joinComma [] = ''''"
| "joinComma [x] = x"
| "joinComma (x # y # xs) = x @ '','' @ joinComma (y # xs)"

fun songValueString :: "text_lib \<Rightarrow> song_value \<Rightarrow> string" where
  "songValueString L (SV_str s) = s"
| "songValueString L (SV_num n) = numberToString L n"
| "songValueString L (SV_bool b) = boolToString b"

fun songValueNumber :: "text_lib \<Rightarrow> song_value \<Rightarrow> rat option" where
  "songValueNumber L (SV_str s) = stringToNumber L s"
| "songValueNumber L (SV_num n) = Some n"
| "songValueNumber L (SV_bool b) = Some (if b then 1 else 0)"

fun filterValueString :: "text_lib \<Rightarrow> filter_value \<Rightarrow> string" where
  "filterValueString L (FV_str s) = s"
| "filterValueString L (FV_num n) = numberToString L n"
| "filterValueString L (FV_bool b) = boolToString b"
| "filterValueString L (FV_arr xs) =
     joinComma (map (\<lambda>x. case x of Inl s \<Rightarrow> s | Inr n \<Rightarrow> numberToString L n) xs)"

fun filterValueNumber :: "text_lib \<Rightarrow> filter_value \<Rightarrow> rat option" where
  "filterValueNumber L (FV_num n) = Some n"
| "filterValueNumber L (FV_bool b) = Some (if b then 1 else 0)"
| "filterValueNumber L v = stringToNumber L (filterValueString L v)"

text \<open>Comparisons of numbers, false when one is NaN.\<close>

definition numLess :: "rat option \<Rightarrow> rat option \<Rightarrow> bool" where
  "numLess a b = (case (a, b) of (Some x, Some y) \<Rightarrow> x < y | _ \<Rightarrow> False)"

definition isPrefix :: "string \<Rightarrow> string \<Rightarrow> bool" where
  "isPrefix p s = (take (length p) s = p)"

fun isInfix :: "string \<Rightarrow> string \<Rightarrow> bool" where
  "isInfix p [] = (p = [])"
| "isInfix p (c # s) = (isPrefix p (c # s) \<or> isInfix p s)"

definition isSuffix :: "string \<Rightarrow> string \<Rightarrow> bool" where
  "isSuffix p s = isPrefix (rev p) (rev s)"

section \<open>The value of a field\<close>

definition orEmpty :: "string option \<Rightarrow> string" where
  "orEmpty s = nullish_or s ''''"

definition firstName :: "related list \<Rightarrow> string" where
  "firstName xs = (case xs of [] \<Rightarrow> '''' | x # _ \<Rightarrow> rel_name x)"

definition replacePathPrefix :: "string \<Rightarrow> string option \<Rightarrow> string option \<Rightarrow> string" where
  "replacePathPrefix path replacePrefix addPrefix =
     (let newPath = (if truthy replacePrefix \<and> isPrefix (the replacePrefix) path
                     then drop (length (the replacePrefix)) path else path)
      in if truthy addPrefix then the addPrefix @ newPath else newPath)"

text \<open>The settings of the path replacement: what is replaced and by what.\<close>

definition resolveSongPath :: "string option \<times> string option \<Rightarrow> string option \<Rightarrow> string option" where
  "resolveSongPath settings path =
     (if \<not> truthy path then None
      else Some (replacePathPrefix (the path) (fst settings) (snd settings)))"

fun getSongFieldValue :: "string option \<times> string option \<Rightarrow> song \<Rightarrow> filter_field \<Rightarrow> song_value" where
  "getSongFieldValue ps song Field_albumArtist = SV_str (firstName (s_albumArtists song))"
| "getSongFieldValue ps song Field_artist =
     SV_str (if s_artistName song \<noteq> '''' then s_artistName song else firstName (s_artists song))"
| "getSongFieldValue ps song Field_duration = SV_num (s_duration song)"
| "getSongFieldValue ps song Field_favorite = SV_bool (s_userFavorite song)"
| "getSongFieldValue ps song Field_genre = SV_str (firstName (s_genres song))"
| "getSongFieldValue ps song Field_name = SV_str (s_name song)"
| "getSongFieldValue ps song Field_note = SV_str (orEmpty (s_comment song))"
| "getSongFieldValue ps song Field_path = SV_str (orEmpty (resolveSongPath ps (s_path song)))"
| "getSongFieldValue ps song Field_playCount = SV_num (of_int (s_playCount song))"
| "getSongFieldValue ps song Field_rating = SV_num (nullish_or (s_userRating song) 0)"
| "getSongFieldValue ps song Field_year = SV_num (of_int (nullish_or (s_releaseYear song) 0))"

section \<open>Matching and filtering\<close>

definition matchesFilter ::
    "text_lib \<Rightarrow> string option \<times> string option \<Rightarrow> song \<Rightarrow> filter_field \<Rightarrow> filter_operator
       \<Rightarrow> filter_value \<Rightarrow> bool" where
  "matchesFilter L ps song field opr value =
     (let songValue = getSongFieldValue ps song field;
          sv = toLowerCase L (songValueString L songValue);
          fv = toLowerCase L (filterValueString L value)
      in case opr of
           Opr_contains \<Rightarrow> isInfix fv sv
         | Opr_endsWith \<Rightarrow> isSuffix fv sv
         | Opr_is \<Rightarrow> sv = fv
         | Opr_isNot \<Rightarrow> sv \<noteq> fv
         | Opr_lt \<Rightarrow> numLess (songValueNumber L songValue) (filterValueNumber L value)
         | Opr_notContains \<Rightarrow> \<not> isInfix fv sv
         | Opr_regex \<Rightarrow>
             (case regexTest L (filterValueString L value) (songValueString L songValue) of
                Some b \<Rightarrow> b | None \<Rightarrow> False)
         | Opr_gt \<Rightarrow> numLess (filterValueNumber L value) (songValueNumber L songValue)
         | Opr_startsWith \<Rightarrow> isPrefix fv sv
         | _ \<Rightarrow> True)"

definition validFilter :: "player_filter \<Rightarrow> bool" where
  "validFilter f = (f_isEnabled f = Some True \<and> f_field f \<noteq> None \<and> f_operator f \<noteq> None
     \<and> f_value f \<noteq> None \<and> f_value f \<noteq> Some (FV_str ''''))"

definition songMatches :: "text_lib \<Rightarrow> string option \<times> string option \<Rightarrow> song \<Rightarrow> player_filter \<Rightarrow> bool" where
  "songMatches L ps song f = matchesFilter L ps song (the (f_field f)) (the (f_operator f)) (the (f_value f))"

definition filterSongsByPlayerFilters ::
    "text_lib \<Rightarrow> string option \<times> string option \<Rightarrow> song list \<Rightarrow> player_filter list \<Rightarrow> song list" where
  "filterSongsByPlayerFilters L ps songs filters =
     (let validFilters = filter validFilter filters
      in if length validFilters = 0 then songs
         else filter (\<lambda>song. List.find (songMatches L ps song) validFilters = None) songs)"

section \<open>Properties\<close>

lemma filterSongs_filter:
  "filterSongsByPlayerFilters L ps songs filters =
     filter (\<lambda>song. \<forall>f \<in> set filters. validFilter f \<longrightarrow> \<not> songMatches L ps song f) songs"
  by (auto simp: filterSongsByPlayerFilters_def find_None_iff filter_empty_conv intro!: filter_cong
      [symmetric] filter_True [symmetric])

text \<open>
  Filtering keeps the order of the songs and is independent of the order of the filters: filtering
  with some filters and then with others is filtering with all of them, and doing it again changes
  nothing.
\<close>

theorem song_filters_compose:
  "filterSongsByPlayerFilters L ps (filterSongsByPlayerFilters L ps songs fs) gs =
     filterSongsByPlayerFilters L ps songs (gs @ fs)
   \<and> filterSongsByPlayerFilters L ps (filterSongsByPlayerFilters L ps songs fs) fs =
     filterSongsByPlayerFilters L ps songs fs"
  by (auto simp: filterSongs_filter intro!: filter_cong)

text \<open>
  A flaw of the filters. The operators for ranges and dates are offered by the schema of the
  settings but have no case: a filter with one of them matches every song, so nothing that is added
  reaches the queue.
\<close>

theorem song_filter_without_case_drops_all:
  assumes "opr \<in> {Opr_inTheRange, Opr_before, Opr_after, Opr_beforeDate, Opr_afterDate, Opr_inTheRangeDate,
      Opr_inTheLast, Opr_notInTheLast}"
    and "v \<noteq> FV_str ''''"
    and "\<lparr>f_field = Some field, f_isEnabled = Some True, f_operator = Some opr, f_value = Some v\<rparr> \<in> set fs"
  shows "filterSongsByPlayerFilters L ps songs fs = []"
proof -
  let ?f = "\<lparr>f_field = Some field, f_isEnabled = Some True, f_operator = Some opr, f_value = Some v\<rparr>"
  have "validFilter ?f" using assms(2) by (simp add: validFilter_def)
  moreover have "songMatches L ps song ?f" for song
    using assms(1) by (auto simp: songMatches_def matchesFilter_def)
  ultimately show ?thesis unfolding filterSongs_filter filter_empty_conv using assms(3) by blast
qed

theorem song_filter_without_case_drops_all_witness:
  "filterSongsByPlayerFilters \<lparr>toLowerCase = (\<lambda>s. s), numberToString = (\<lambda>_. ''0''),
       stringToNumber = (\<lambda>_. None), regexTest = (\<lambda>_ _. None)\<rparr> (None, None) [exampleSong ''a'']
     [\<lparr>f_field = Some Field_year, f_isEnabled = Some True, f_operator = Some Opr_inTheRange,
       f_value = Some (FV_num 1990)\<rparr>] = []"
  by (rule song_filter_without_case_drops_all [where opr = Opr_inTheRange and v = "FV_num 1990"
        and field = Field_year]) simp_all

end
