(* ===== verification/QueueFetch.thy ===== *)
theory QueueFetch
  imports PlayerFilters PlayerActions "HOL-Library.Product_Lexorder"
begin

text \<open>
  How songs get from the server into the queue (\<^verbatim>\<open>features/player/utils.ts\<close>,
  \<^verbatim>\<open>features/player/context/player-context.tsx\<close>, \<^verbatim>\<open>sortSongsByFetchedOrder\<close> of \<^verbatim>\<open>shared/api/utils.ts\<close>):
  the pages of a list query, the songs of a folder and its subfolders, their order, the filters of the
  settings, the tag with the playlist they come from, and the action of the store. What the server
  answers is an argument; a rejected request is None or \<open>Inl\<close>.
\<close>

section \<open>The order of fetched songs\<close>

definition matchedId :: "LibraryItem \<Rightarrow> string list \<Rightarrow> song \<Rightarrow> string option" where
  "matchedId itemType fetchedIds song =
     (case itemType of
        ALBUM \<Rightarrow> List.find (\<lambda>k. s_albumId song = k) fetchedIds
      | ALBUM_ARTIST \<Rightarrow> List.find (\<lambda>k. list_ex (\<lambda>artist. rel_id artist = k) (s_albumArtists song)) fetchedIds
      | ARTIST \<Rightarrow> List.find (\<lambda>k. list_ex (\<lambda>artist. rel_id artist = k) (s_artists song)) fetchedIds
      | GENRE \<Rightarrow> List.find (\<lambda>k. list_ex (\<lambda>genre. rel_id genre = k) (s_genres song)) fetchedIds
      | PLAYLIST \<Rightarrow> List.find (\<lambda>k. s_playlistItemId song = Some k) fetchedIds
      | _ \<Rightarrow> None)"

definition groupSong ::
    "LibraryItem \<Rightarrow> string list \<Rightarrow> song list obj \<Rightarrow> song \<Rightarrow> song list obj" where
  "groupSong itemType fetchedIds m song =
     (let k = matchedId itemType fetchedIds song
      in if truthy k
         then AList.update (the k) ((case map_of m (the k) of None \<Rightarrow> [] | Some g \<Rightarrow> g) @ [song]) m
         else m)"

text \<open>\<open>orderByTrack\<close> is \<open>orderBy(_, ['discNumber', 'trackNumber'], ['asc', 'asc'])\<close> of lodash.\<close>

definition sortSongsByFetchedOrder ::
    "(song list \<Rightarrow> song list) \<Rightarrow> song list \<Rightarrow> string list \<Rightarrow> LibraryItem \<Rightarrow> song list" where
  "sortSongsByFetchedOrder orderByTrack songs fetchedIds itemType =
     (if itemType = FOLDER then songs
      else
        (let grouped = foldl (groupSong itemType fetchedIds) [] songs;
             songsByFetchedId = (if itemType = ALBUM_ARTIST then grouped
               else map (\<lambda>(k, g). (k, orderByTrack g)) grouped);
             result = concat (map (\<lambda>k. case map_of songsByFetchedId k of Some g \<Rightarrow> g | None \<Rightarrow> [])
               fetchedIds);
             unmatchedSongs = filter (\<lambda>s. s_id s \<notin> s_id ` set result) songs
         in if length unmatchedSongs > 0
            then result @ (if itemType = ALBUM_ARTIST then unmatchedSongs else orderByTrack unmatchedSongs)
            else result))"

text \<open>What lodash documents: a stable sort by the two numbers.\<close>

definition order_by_track_ok :: "(song list \<Rightarrow> song list) \<Rightarrow> bool" where
  "order_by_track_ok ob = (\<forall>xs. mset (ob xs) = mset xs
     \<and> sorted_wrt (\<lambda>a b. s_discNumber a < s_discNumber b
         \<or> s_discNumber a = s_discNumber b \<and> s_trackNumber a \<le> s_trackNumber b) (ob xs))"

section \<open>Folders\<close>

text \<open>
  A folder has songs and subfolders. The recursion follows what the server says, so it ends only if
  the folders do: the result is None when \<open>fuel\<close> requests deep is not enough, and \<open>Inl\<close> when a
  request was rejected.
\<close>

record folder =
  fo_songs :: "song list"
  fo_folders :: "string list"

fun collectSongsFromFolder ::
    "(string \<Rightarrow> folder option) \<Rightarrow> nat \<Rightarrow> string \<Rightarrow> (string + song list) option"
  and collectSubFolders ::
    "(string \<Rightarrow> folder option) \<Rightarrow> nat \<Rightarrow> string list \<Rightarrow> (string + song list) option" where
  "collectSongsFromFolder fetch 0 folderId = None"
| "collectSongsFromFolder fetch (Suc fuel) folderId =
     (case fetch folderId of
        None \<Rightarrow> Some (Inl folderId)
      | Some f \<Rightarrow>
          (case collectSubFolders fetch fuel (fo_folders f) of
             Some (Inr rest) \<Rightarrow> Some (Inr (fo_songs f @ rest))
           | r \<Rightarrow> r))"
| "collectSubFolders fetch fuel [] = Some (Inr [])"
| "collectSubFolders fetch fuel (k # ks) =
     (case collectSongsFromFolder fetch fuel k of
        Some (Inr songs) \<Rightarrow>
          (case collectSubFolders fetch fuel ks of
             Some (Inr rest) \<Rightarrow> Some (Inr (songs @ rest))
           | r \<Rightarrow> r)
      | r \<Rightarrow> r)"

text \<open>The ids are processed in order; the songs and their number are collected.\<close>

definition getSongsByFolder ::
    "(string \<Rightarrow> folder option) \<Rightarrow> nat \<Rightarrow> string list \<Rightarrow> (string + song list \<times> nat) option" where
  "getSongsByFolder fetch fuel ids =
     (case collectSubFolders fetch fuel ids of
        None \<Rightarrow> None
      | Some (Inl e) \<Rightarrow> Some (Inl e)
      | Some (Inr items) \<Rightarrow> Some (Inr (items, length items)))"

section \<open>Pages\<close>

definition pageSize :: nat where
  "pageSize = 500"

text \<open>
  The loop of \<open>addToQueueByListQuery\<close>. The answer for a start index is \<open>Inl\<close> when the request is
  rejected and \<open>Inr None\<close> when it carries no items.
\<close>

function fetchPages ::
    "(nat \<Rightarrow> string + 'a list option) \<Rightarrow> nat \<Rightarrow> nat \<Rightarrow> 'a list \<Rightarrow> string + 'a list" where
  "fetchPages page totalCount startIndex allResults =
     (if startIndex < totalCount then
        (case page startIndex of
           Inl e \<Rightarrow> Inl e
         | Inr None \<Rightarrow> Inr allResults
         | Inr (Some items) \<Rightarrow>
             (if length items < pageSize then Inr (allResults @ items)
              else fetchPages page totalCount (startIndex + pageSize) (allResults @ items)))
      else Inr allResults)"
  by pat_completeness auto
termination
  by (relation "measure (\<lambda>(page, totalCount, startIndex, allResults). totalCount - startIndex)")
    (auto simp: pageSize_def)

declare fetchPages.simps [simp del]

section \<open>Into the queue\<close>

definition isReplaceQueueType :: "AddToQueueType \<Rightarrow> bool" where
  "isReplaceQueueType type =
     (case type of AddToQueueByUniqueId e target \<Rightarrow> False
      | AddToQueueByPlayType p \<Rightarrow> p = Play_NOW \<or> p = Play_SHUFFLE)"

text \<open>The hash of the location, and the id in a route of a playlist.\<close>

definition inferPlaylistContextFromUrl :: "string \<Rightarrow> string option" where
  "inferPlaylistContextFromUrl hash =
     (let route = (case hash of [] \<Rightarrow> [] | c # cs \<Rightarrow> if c = CHR ''#'' then cs else hash);
          seg = takeWhile (\<lambda>c. c \<noteq> CHR ''/'') (drop (length ''/playlists/'') route)
      in if isPrefix ''/playlists/'' route \<and> seg \<noteq> [] then Some seg else None)"

definition tagPlaylistContext :: "song list \<Rightarrow> string \<Rightarrow> song list" where
  "tagPlaylistContext songs contextPlaylistId =
     map (\<lambda>song. song\<lparr>s_contextPlaylistId := Some contextPlaylistId\<rparr>) songs"

text \<open>What the context reads: the filters and path settings, and the location.\<close>

record context_env =
  x_lib :: text_lib
  x_path :: "string option \<times> string option"
  x_filters :: "player_filter list"
  x_hash :: string

text \<open>
  The call of the store's action. A drop target without an edge is handed to \<open>addToQueueByType\<close>,
  where it matches no case, like \<open>Play_INDEX\<close>.
\<close>

definition queueSongs :: "song list \<Rightarrow> AddToQueueType \<Rightarrow> string option \<Rightarrow> world \<Rightarrow> world" where
  "queueSongs songs type playSongId w =
     (case type of
        AddToQueueByPlayType p \<Rightarrow> addToQueueByType songs p playSongId w
      | AddToQueueByUniqueId e target \<Rightarrow>
          (if e \<noteq> Drop_NULL
           then addToQueueByUniqueId songs target (if e = Drop_TOP then Edge_TOP else Edge_BOTTOM) playSongId w
           else addToQueueByType songs Play_INDEX playSongId w))"

definition tagIfContext :: "string option \<Rightarrow> song list \<Rightarrow> song list" where
  "tagIfContext resolvedContextId songs =
     (if truthy resolvedContextId then tagPlaylistContext songs (the resolvedContextId) else songs)"

definition contextAddToQueueByData ::
    "context_env \<Rightarrow> song list \<Rightarrow> AddToQueueType \<Rightarrow> string option \<Rightarrow> string option \<Rightarrow> world \<Rightarrow> world" where
  "contextAddToQueueByData x data type playSongId contextPlaylistId w =
     (let filteredData = filterSongsByPlayerFilters (x_lib x) (x_path x) data (x_filters x);
          resolvedContextId = (case contextPlaylistId of Some c \<Rightarrow> Some c
            | None \<Rightarrow> if isReplaceQueueType type then inferPlaylistContextFromUrl (x_hash x) else None)
      in queueSongs (tagIfContext resolvedContextId filteredData) type playSongId w)"

text \<open>
  \<open>addToQueueByFetch\<close>: \<open>fetched\<close> is what \<open>fetchSongsByItemType\<close> resolves to, None when it rejects (the
  error is shown, or ignored for a cancellation). The call takes one id for its timeout.
\<close>

definition contextAddToQueueByFetch ::
    "context_env \<Rightarrow> (song list \<Rightarrow> song list) \<Rightarrow> string list \<Rightarrow> LibraryItem \<Rightarrow> AddToQueueType
       \<Rightarrow> song list option \<Rightarrow> world \<Rightarrow> world" where
  "contextAddToQueueByFetch x orderByTrack ids itemType type fetched w0 =
     (let w = w0\<lparr>w_ids := ids_rest (w_ids w0)\<rparr>
      in case fetched of
           None \<Rightarrow> w
         | Some songs \<Rightarrow>
             (let sortedSongs = (if itemType = PLAYLIST then songs
                    else sortSongsByFetchedOrder orderByTrack songs ids itemType);
                  filteredSongs = filterSongsByPlayerFilters (x_lib x) (x_path x) sortedSongs (x_filters x);
                  isMultiPlaylist = (itemType = PLAYLIST \<and> length ids > 1);
                  explicitId = (if itemType = PLAYLIST \<and> length ids = 1 then Some (ids ! 0) else None);
                  resolvedContextId = (case explicitId of Some c \<Rightarrow> Some c
                    | None \<Rightarrow> if \<not> isMultiPlaylist \<and> isReplaceQueueType type
                             then inferPlaylistContextFromUrl (x_hash x) else None)
              in queueSongs (tagIfContext resolvedContextId filteredSongs) type None w))"

text \<open>
  \<open>addToQueueByListQuery\<close>: the number of items, the answer of the user when the fetch is large, whether
  albums are wanted in random order, the pages of songs or of ids, and what \<open>fetchSongsByItemType\<close> gives
  for ids. An unsupported item type throws before anything happens.
\<close>

datatype list_pages =
    SongPages "nat \<Rightarrow> string + song list option"
  | IdPages LibraryItem "nat \<Rightarrow> string + string list option"

definition addToQueueByListQuery ::
    "context_env \<Rightarrow> (song list \<Rightarrow> song list) \<Rightarrow> nat option \<Rightarrow> bool \<Rightarrow> bool \<Rightarrow> list_pages
       \<Rightarrow> (string list \<Rightarrow> song list option) \<Rightarrow> AddToQueueType \<Rightarrow> world \<Rightarrow> world" where
  "addToQueueByListQuery x orderByTrack countResult confirmed isRandomSort pages fetchSongs type w =
     (let supported = (case pages of SongPages p \<Rightarrow> True
            | IdPages itemType p \<Rightarrow> itemType \<in> {ALBUM, ALBUM_ARTIST, ARTIST, PLAYLIST})
      in if \<not> supported \<or> \<not> confirmed then w
         else case countResult of
           None \<Rightarrow> w
         | Some totalCount \<Rightarrow>
             (let w1 = w\<lparr>w_ids := ids_rest (w_ids w)\<rparr>
              in case pages of
                   SongPages page \<Rightarrow>
                     (case fetchPages page totalCount 0 [] of
                        Inl e \<Rightarrow> w1
                      | Inr songs \<Rightarrow> contextAddToQueueByData x songs type None None w1)
                 | IdPages itemType page \<Rightarrow>
                     (case fetchPages page totalCount 0 [] of
                        Inl e \<Rightarrow> w1
                      | Inr allResults \<Rightarrow>
                          (let (finalResults, r) = (if isRandomSort \<and> itemType = ALBUM
                                 then shuffle allResults (w_draws w1) else (allResults, w_draws w1))
                           in contextAddToQueueByFetch x orderByTrack finalResults itemType type
                                (fetchSongs finalResults) (w1\<lparr>w_draws := r\<rparr>)))))"

section \<open>Facts about the pages\<close>

text \<open>A server that holds a list and answers each request with the next items of it.\<close>

definition serves :: "'a list \<Rightarrow> nat \<Rightarrow> string + 'a list option" where
  "serves xs startIndex = Inr (Some (take pageSize (drop startIndex xs)))"

lemma fetchPages_serves:
  "length xs \<le> totalCount \<Longrightarrow> startIndex \<le> length xs \<Longrightarrow>
     fetchPages (serves xs) totalCount startIndex (take startIndex xs) = Inr xs"
proof (induction "totalCount - startIndex" arbitrary: startIndex rule: less_induct)
  case less
  show ?case
  proof (cases "startIndex < totalCount \<and> pageSize \<le> length xs - startIndex")
    case True
    then have "fetchPages (serves xs) totalCount (startIndex + pageSize) (take (startIndex + pageSize) xs) = Inr xs"
      using less by (intro less.hyps) (auto simp: pageSize_def)
    with True show ?thesis
      by (subst fetchPages.simps) (simp add: serves_def take_add)
  next
    case False
    with less.prems show ?thesis
      by (subst fetchPages.simps) (auto simp: serves_def)
  qed
qed

section \<open>Facts about folders\<close>

text \<open>The folders of a server as a tree, with its songs in the order of the traversal.\<close>

datatype folder_tree = Folder string "song list" "folder_tree list"

primrec tree_id :: "folder_tree \<Rightarrow> string" where
  "tree_id (Folder k songs subs) = k"

primrec tree_songs :: "folder_tree \<Rightarrow> song list" where
  "tree_songs (Folder k songs subs) = songs @ concat (map tree_songs subs)"

primrec tree_depth :: "folder_tree \<Rightarrow> nat" where
  "tree_depth (Folder k songs subs) = Suc (foldr max (map tree_depth subs) 0)"

primrec serves_tree :: "(string \<Rightarrow> folder option) \<Rightarrow> folder_tree \<Rightarrow> bool" where
  "serves_tree fetch (Folder k songs subs) =
     (fetch k = Some \<lparr>fo_songs = songs, fo_folders = map tree_id subs\<rparr>
      \<and> list_all id (map (serves_tree fetch) subs))"

lemma tree_depth_sub: "t \<in> set subs \<Longrightarrow> tree_depth t \<le> foldr max (map tree_depth subs) 0"
  by (induction subs) auto

lemma collect_list:
  "(\<And>t. t \<in> set subs \<Longrightarrow> collectSongsFromFolder fetch fuel (tree_id t) = Some (Inr (tree_songs t))) \<Longrightarrow>
     collectSubFolders fetch fuel (map tree_id subs) = Some (Inr (concat (map tree_songs subs)))"
  by (induction subs) auto

lemma collect_tree:
  "serves_tree fetch t \<Longrightarrow> tree_depth t \<le> fuel \<Longrightarrow>
     collectSongsFromFolder fetch fuel (tree_id t) = Some (Inr (tree_songs t))"
proof (induction t arbitrary: fuel)
  case (Folder k songs subs)
  then obtain n where n: "fuel = Suc n" by (cases fuel) auto
  have "collectSongsFromFolder fetch n (tree_id t) = Some (Inr (tree_songs t))" if "t \<in> set subs" for t
    using Folder that tree_depth_sub [OF that] by (auto simp: n list_all_iff)
  with Folder.prems show ?case by (simp add: n collect_list)
qed

lemma collectSub_members:
  "collectSubFolders fetch fuel ks = Some (Inr songs) \<Longrightarrow> k \<in> set ks \<Longrightarrow>
     \<exists>xs. collectSongsFromFolder fetch fuel k = Some (Inr xs)"
  by (induction ks arbitrary: songs) (auto split: option.splits sum.splits)

lemma collect_cycle:
  "fetch k = Some f \<Longrightarrow> k \<in> set (fo_folders f) \<Longrightarrow> collectSongsFromFolder fetch fuel k \<noteq> Some (Inr songs)"
proof (induction fuel arbitrary: songs)
  case (Suc fuel)
  show ?case
  proof
    assume "collectSongsFromFolder fetch (Suc fuel) k = Some (Inr songs)"
    with Suc.prems obtain rest where "collectSubFolders fetch fuel (fo_folders f) = Some (Inr rest)"
      by (auto split: option.splits sum.splits)
    from collectSub_members [OF this Suc.prems(2)] Suc.IH [OF Suc.prems] show False by blast
  qed
qed simp

section \<open>Facts about the order\<close>

lemma groupSong_lookup:
  "k \<noteq> '''' \<Longrightarrow> map_of (foldl (groupSong t ids) [] songs) k =
     (let g = filter (\<lambda>s. matchedId t ids s = Some k) songs in if g = [] then None else Some g)"
proof (induction songs rule: rev_induct)
  case (snoc s songs)
  then show ?case
    by (cases "matchedId t ids s") (auto simp: groupSong_def Let_def update_conv' split: option.splits if_splits)
qed simp

lemma matchedId_mem: "matchedId t ids s = Some k \<Longrightarrow> k \<in> set ids"
  by (cases t) (auto simp: matchedId_def find_Some_iff)

lemma mset_groups:
  "distinct ks \<Longrightarrow> (\<And>k. k \<in> set ks \<Longrightarrow> mset (g k) = filter_mset (\<lambda>s. m s = Some k) M) \<Longrightarrow>
     mset (concat (map g ks)) = filter_mset (\<lambda>s. \<exists>k \<in> set ks. m s = Some k) M"
proof (induction ks)
  case (Cons k ks)
  have "filter_mset (\<lambda>s. \<exists>j \<in> set (k # ks). m s = Some j) M =
      filter_mset (\<lambda>s. m s = Some k) M + filter_mset (\<lambda>s. \<exists>j \<in> set ks. m s = Some j) M"
    using Cons.prems(1) by (auto simp: multiset_eq_iff)
  with Cons show ?case by simp
qed simp

text \<open>The group of an id, and the songs that follow the groups.\<close>

definition sortedBy :: "(song list \<Rightarrow> song list) \<Rightarrow> LibraryItem \<Rightarrow> song list \<Rightarrow> song list" where
  "sortedBy ob t xs = (if t = ALBUM_ARTIST then xs else ob xs)"

definition songGroup ::
    "(song list \<Rightarrow> song list) \<Rightarrow> LibraryItem \<Rightarrow> string list \<Rightarrow> song list \<Rightarrow> string \<Rightarrow> song list" where
  "songGroup ob t ids songs k =
     (let xs = filter (\<lambda>s. matchedId t ids s = Some k) songs in if xs = [] then [] else sortedBy ob t xs)"

lemma mset_sortedBy: "order_by_track_ok ob \<Longrightarrow> mset (sortedBy ob t xs) = mset xs"
  by (simp add: sortedBy_def order_by_track_ok_def)

lemma mset_songGroup:
  "order_by_track_ok ob \<Longrightarrow>
     mset (songGroup ob t ids songs k) = filter_mset (\<lambda>s. matchedId t ids s = Some k) (mset songs)"
  by (auto simp: songGroup_def Let_def mset_sortedBy simp flip: mset_filter)

lemma group_lookup:
  assumes "k \<noteq> ''''"
  shows "(case map_of (if t = ALBUM_ARTIST then foldl (groupSong t ids) [] songs
      else map (\<lambda>(k, g). (k, ob g)) (foldl (groupSong t ids) [] songs)) k of Some g \<Rightarrow> g | None \<Rightarrow> [])
    = songGroup ob t ids songs k"
  using groupSong_lookup [OF assms, of t ids songs]
  by (cases "t = ALBUM_ARTIST") (simp_all add: songGroup_def sortedBy_def map_of_map Let_def split: if_splits)

lemma sortSongs_groups:
  fixes songs :: "song list"
  assumes "order_by_track_ok ob" and "'''' \<notin> set ids" and "t \<noteq> FOLDER"
  defines "res \<equiv> concat (map (songGroup ob t ids songs) ids)"
  shows "sortSongsByFetchedOrder ob songs ids t =
    res @ sortedBy ob t (filter (\<lambda>s. s_id s \<notin> s_id ` set res) songs)"
proof -
  have nil: "sortedBy ob t [] = []" using mset_sortedBy [OF assms(1), of t "[]"] by simp
  have "map (\<lambda>k. case map_of (if t = ALBUM_ARTIST then foldl (groupSong t ids) [] songs
        else map (\<lambda>(k, g). (k, ob g)) (foldl (groupSong t ids) [] songs)) k of Some g \<Rightarrow> g | None \<Rightarrow> []) ids
      = map (songGroup ob t ids songs) ids"
    using assms(2) by (intro map_cong [OF refl] group_lookup) metis
  then have "sortSongsByFetchedOrder ob songs ids t =
      (let un = filter (\<lambda>s. s_id s \<notin> s_id ` set res) songs
       in if length un > 0 then res @ (if t = ALBUM_ARTIST then un else ob un) else res)"
    using assms(3) by (simp only: sortSongsByFetchedOrder_def Let_def res_def if_False)
  then show ?thesis using nil by (auto simp: Let_def sortedBy_def)
qed

lemma groups_mset:
  assumes "order_by_track_ok ob" and "distinct ids"
  shows "mset (concat (map (songGroup ob t ids songs) ids)) = filter_mset (\<lambda>s. matchedId t ids s \<noteq> None) (mset songs)"
proof -
  have "(\<exists>k \<in> set ids. matchedId t ids s = Some k) \<longleftrightarrow> matchedId t ids s \<noteq> None" for s
    using matchedId_mem by fastforce
  then show ?thesis
    using mset_groups [OF assms(2) mset_songGroup [OF assms(1)], of t ids songs] by simp
qed

lemma unmatched_songs:
  fixes songs :: "song list"
  assumes "set res = {s \<in> set songs. m s \<noteq> None}"
    and "\<forall>a \<in> set songs. \<forall>b \<in> set songs. s_id a = s_id b \<longrightarrow> m a = m b"
  shows "filter (\<lambda>s. s_id s \<notin> s_id ` set res) songs = filter (\<lambda>s. m s = None) songs"
proof (rule filter_cong [OF refl])
  fix s :: song
  assume s: "s \<in> set songs"
  show "s_id s \<notin> s_id ` set res \<longleftrightarrow> m s = None"
  proof
    assume "s_id s \<notin> s_id ` set res"
    then show "m s = None" using s assms(1) by blast
  next
    assume none: "m s = None"
    show "s_id s \<notin> s_id ` set res"
    proof
      assume "s_id s \<in> s_id ` set res"
      then obtain a where "a \<in> set songs" "m a \<noteq> None" "s_id a = s_id s"
        unfolding assms(1) by auto
      with assms(2) s none show False by metis
    qed
  qed
qed

section \<open>Properties\<close>

text \<open>
  C21: The loop over the pages of a list query ends and collects the whole list, every item once and in
  order, when the server answers with pages of the list and the count it gave is at least the length
  of the list, also when the list has shrunk since it was counted.
\<close>

theorem list_query_fetches_whole_list:
  assumes "length xs \<le> totalCount"
  shows "fetchPages (serves xs) totalCount 0 [] = Inr xs"
  using fetchPages_serves [OF assms, of 0] by simp

theorem list_query_fetches_whole_list_witness:
  "fetchPages (serves (replicate 3 ''a'')) 1000 0 [] = Inr [''a'', ''a'', ''a'']"
  using list_query_fetches_whole_list [of "replicate 3 ''a''" 1000] by (simp add: numeral_3_eq_3)

text \<open>
  Fetching folders ends on a tree of folders, and gives the songs of each folder followed by those of
  its subfolders, in order. On a folder that contains itself no depth of the recursion is enough: the
  fetch never completes.
\<close>

theorem folder_fetch_follows_tree:
  assumes "serves_tree fetch t" and "tree_depth t \<le> fuel"
  shows "getSongsByFolder fetch fuel [tree_id t] = Some (Inr (tree_songs t, length (tree_songs t)))
    \<and> (\<forall>g k f n songs. g k = Some f \<and> k \<in> set (fo_folders f) \<longrightarrow>
        collectSongsFromFolder g n k \<noteq> Some (Inr songs))"
  using collect_tree [OF assms] collect_cycle by (auto simp: getSongsByFolder_def)

theorem folder_fetch_follows_tree_witness:
  "getSongsByFolder (\<lambda>k. if k = ''root'' then Some \<lparr>fo_songs = [exampleSong ''a''], fo_folders = [''sub'']\<rparr>
       else Some \<lparr>fo_songs = [exampleSong ''b''], fo_folders = []\<rparr>) 2 [''root'']
   = Some (Inr ([exampleSong ''a'', exampleSong ''b''], 2))"
  using folder_fetch_follows_tree [of "\<lambda>k. if k = ''root''
      then Some \<lparr>fo_songs = [exampleSong ''a''], fo_folders = [''sub'']\<rparr>
      else Some \<lparr>fo_songs = [exampleSong ''b''], fo_folders = []\<rparr>"
      "Folder ''root'' [exampleSong ''a''] [Folder ''sub'' [exampleSong ''b''] []]" 2, THEN conjunct1]
  by (simp add: numeral_2_eq_2)

text \<open>
  Fetched songs are queued in the order of the fetched ids: the result is one group per id, each
  with exactly the songs that belong to it, and then the songs that belong to none. No song is lost or
  doubled, provided that songs with the same id belong to the same group.
\<close>

theorem fetched_order_groups_songs:
  assumes "order_by_track_ok ob" and "distinct ids" and "'''' \<notin> set ids" and "t \<noteq> FOLDER"
    and "\<forall>a \<in> set songs. \<forall>b \<in> set songs. s_id a = s_id b \<longrightarrow> matchedId t ids a = matchedId t ids b"
  shows "\<exists>g rest. sortSongsByFetchedOrder ob songs ids t = concat (map g ids) @ rest
    \<and> (\<forall>k \<in> set ids. mset (g k) = filter_mset (\<lambda>s. matchedId t ids s = Some k) (mset songs))
    \<and> mset rest = filter_mset (\<lambda>s. matchedId t ids s = None) (mset songs)
    \<and> mset (sortSongsByFetchedOrder ob songs ids t) = mset songs"
proof -
  let ?g = "songGroup ob t ids songs"
  let ?rest = "sortedBy ob t (filter (\<lambda>s. matchedId t ids s = None) songs)"
  have "set (concat (map ?g ids)) = {s \<in> set songs. matchedId t ids s \<noteq> None}"
    using arg_cong [OF groups_mset [OF assms(1,2), of t songs], of set_mset] by simp
  from unmatched_songs [OF this assms(5)] sortSongs_groups [OF assms(1,3,4), of songs]
  have sort: "sortSongsByFetchedOrder ob songs ids t = concat (map ?g ids) @ ?rest" by simp
  have rest: "mset ?rest = filter_mset (\<lambda>s. matchedId t ids s = None) (mset songs)"
    by (simp add: mset_sortedBy [OF assms(1)])
  have "mset (concat (map ?g ids) @ ?rest) = mset songs"
    unfolding mset_append rest groups_mset [OF assms(1,2)]
    by (subst add.commute) (rule multiset_partition [symmetric])
  then show ?thesis
    by (intro exI [of _ ?g] exI [of _ ?rest] conjI)
      (use sort rest mset_songGroup [OF assms(1)] in simp_all)
qed

text \<open>The library's stable sort by the pair of the two numbers does what lodash documents.\<close>

definition trackSort :: "song list \<Rightarrow> song list" where
  "trackSort = sort_key (\<lambda>s. (s_discNumber s, s_trackNumber s))"

lemma trackSort_ok: "order_by_track_ok trackSort"
proof -
  have "sorted_wrt (\<lambda>a b. s_discNumber a < s_discNumber b
      \<or> s_discNumber a = s_discNumber b \<and> s_trackNumber a \<le> s_trackNumber b) (trackSort xs)" for xs
    using sorted_sort_key [of "\<lambda>s. (s_discNumber s, s_trackNumber s)" xs]
    by (auto simp: trackSort_def sorted_map less_eq_prod_def elim!: sorted_wrt_mono_rel [rotated])
  then show ?thesis by (simp add: order_by_track_ok_def trackSort_def)
qed

theorem fetched_order_groups_songs_witness:
  "mset (sortSongsByFetchedOrder trackSort
     [exampleSong ''a''\<lparr>s_albumId := ''y''\<rparr>, exampleSong ''b''\<lparr>s_albumId := ''x''\<rparr>] [''x'', ''y''] ALBUM)
   = {#exampleSong ''a''\<lparr>s_albumId := ''y''\<rparr>, exampleSong ''b''\<lparr>s_albumId := ''x''\<rparr>#}"
  using fetched_order_groups_songs [OF trackSort_ok, of "[''x'', ''y'']" ALBUM
      "[exampleSong ''a''\<lparr>s_albumId := ''y''\<rparr>, exampleSong ''b''\<lparr>s_albumId := ''x''\<rparr>]"]
  by auto

end
