(* ===== verification/AutoDj.thy ===== *)
theory AutoDj
  imports QueueFetch QueueOrder "HOL-Library.Monad_Syntax"
begin

text \<open>
  The auto DJ (\<^verbatim>\<open>features/player/auto-dj/*\<close> and \<^verbatim>\<open>features/player/hooks/use-auto-dj.ts\<close>): when few songs
  are left to play, it collects songs or albums that are not queued and adds them at the end. The
  requests are the fields of \<open>dj_api\<close>, an argument; None is a rejected request, which aborts the whole
  collection (the error is logged).
\<close>

section \<open>Settings and requests\<close>

datatype AutoDJMode = DJ_albums | DJ_songs

datatype AutoDJStrategy = LIBRARY_RANDOM | SIMILAR

text \<open>The number of items is a whole number, as the settings form enters it.\<close>

record dj_settings =
  dj_albumStrategy :: "AutoDJStrategy option"
  dj_enabled :: bool
  dj_itemCount :: nat
  dj_mode :: AutoDJMode
  dj_songStrategy :: "AutoDJStrategy option"
  dj_timing :: int

text \<open>
  \<open>similarSongs\<close> takes the number and the song, \<open>randomSongs\<close> the genre and the limit,
  \<open>artistSongs\<close> the album artist and the limit (in random order), and \<open>randomAlbums\<close> the genre ids,
  the artist ids, the music folders and the limit; of an album the code reads the id.
\<close>

record dj_api =
  similarSongs :: "nat \<Rightarrow> string \<Rightarrow> song list option"
  randomSongs :: "string option \<Rightarrow> nat \<Rightarrow> song list option"
  artistSongs :: "string \<Rightarrow> nat \<Rightarrow> song list option"
  randomAlbums :: "string list option \<Rightarrow> string list option \<Rightarrow> string list option \<Rightarrow> nat
    \<Rightarrow> string list option"

text \<open>The arguments of both collectors; the id set is that of the songs or of the albums.\<close>

record dj_args =
  a_currentSong :: queue_song
  a_itemCount :: nat
  a_musicFolderId :: "string list option"
  a_queueIdSet :: "string set"
  a_server :: "ServerType option"
  a_trySimilarSongs :: bool

section \<open>Songs\<close>

definition notQueued :: "dj_args \<Rightarrow> song list \<Rightarrow> song list" where
  "notQueued a songs = filter (\<lambda>song. s_id song \<notin> a_queueIdSet a) songs"

definition collectSongsLibraryRandom :: "dj_api \<Rightarrow> dj_args \<Rightarrow> draws \<Rightarrow> (song list \<times> draws) option" where
  "collectSongsLibraryRandom api a r =
     do {
       songs \<leftarrow> randomSongs api None (max (a_itemCount a * 3) 50);
       let (shuffled, r') = shuffleInPlace (notQueued a songs) r;
       Some (take (a_itemCount a) shuffled, r')
     }"

definition genreLimit :: nat where
  "genreLimit = 50"

definition mixLimit :: "nat \<Rightarrow> nat" where
  "mixLimit limit = max 1 (nat \<lceil>of_nat limit * (1 / 5 :: rat)\<rceil>)"

definition similarStep :: "dj_api \<Rightarrow> dj_args \<Rightarrow> song list option" where
  "similarStep api a =
     (if a_trySimilarSongs a
      then map_option (notQueued a) (similarSongs api (a_itemCount a) (s_id (a_currentSong a)))
      else Some [])"

definition genreStep :: "dj_api \<Rightarrow> dj_args \<Rightarrow> song list \<Rightarrow> song list option" where
  "genreStep api a unique =
     (if length unique < a_itemCount a then
        (case s_genres (a_currentSong a) of
           [] \<Rightarrow> Some unique
         | genre # _ \<Rightarrow>
             do {
               genreSongs \<leftarrow> map_option (notQueued a) (randomSongs api (Some (rel_id genre)) genreLimit);
               if \<not> a_trySimilarSongs a then
                 do {
                   uniqueRandom \<leftarrow> map_option (notQueued a) (randomSongs api None (mixLimit genreLimit));
                   Some (unique @ take (mixLimit genreLimit) uniqueRandom @ genreSongs)
                 }
               else Some (unique @ genreSongs)
             })
      else Some unique)"

definition artistStep :: "dj_api \<Rightarrow> dj_args \<Rightarrow> song list \<Rightarrow> song list option" where
  "artistStep api a unique =
     (if length unique < a_itemCount a then
        (case s_albumArtists (a_currentSong a) of
           [] \<Rightarrow> Some unique
         | albumArtist # _ \<Rightarrow>
             map_option (\<lambda>songs. unique @ notQueued a songs) (artistSongs api (rel_id albumArtist) 50))
      else Some unique)"

definition randomStep :: "dj_api \<Rightarrow> dj_args \<Rightarrow> song list \<Rightarrow> song list option" where
  "randomStep api a unique =
     (if length unique < a_itemCount a
      then map_option (\<lambda>songs. unique @ notQueued a songs) (randomSongs api None 50)
      else Some unique)"

definition collectSongsSimilar :: "dj_api \<Rightarrow> dj_args \<Rightarrow> draws \<Rightarrow> (song list \<times> draws) option" where
  "collectSongsSimilar api a r =
     do {
       similar \<leftarrow> similarStep api a;
       withGenre \<leftarrow> genreStep api a similar;
       withArtist \<leftarrow> artistStep api a withGenre;
       uniqueSimilarSongs \<leftarrow> randomStep api a withArtist;
       let (shuffledSongs, r') = shuffleInPlace uniqueSimilarSongs r;
       Some (take (a_itemCount a) shuffledSongs, r')
     }"

definition runAutoDjSongs ::
    "AutoDJStrategy \<Rightarrow> dj_api \<Rightarrow> dj_args \<Rightarrow> draws \<Rightarrow> (song list \<times> draws) option" where
  "runAutoDjSongs songStrategy api a r =
     (case songStrategy of
        LIBRARY_RANDOM \<Rightarrow> collectSongsLibraryRandom api a r
      | SIMILAR \<Rightarrow> collectSongsSimilar api a r)"

section \<open>Albums\<close>

text \<open>The accumulator and the seen ids are both updated in place by the loop.\<close>

primrec autoDjPushUniqueAlbumIds ::
    "string set \<Rightarrow> string list \<Rightarrow> string list \<times> string set \<Rightarrow> string list \<times> string set" where
  "autoDjPushUniqueAlbumIds queueIds [] st = st"
| "autoDjPushUniqueAlbumIds queueIds (k # ids) st =
     (if k = '''' \<or> k \<in> queueIds \<or> k \<in> snd st then autoDjPushUniqueAlbumIds queueIds ids st
      else autoDjPushUniqueAlbumIds queueIds ids (fst st @ [k], insert k (snd st)))"

definition autoDjGenreIdsForSongGenre :: "related \<Rightarrow> ServerType \<Rightarrow> string list" where
  "autoDjGenreIdsForSongGenre genre serverType =
     (if serverType = JELLYFIN then [rel_id genre]
      else if serverType = NAVIDROME \<or> serverType = SUBSONIC then [rel_name genre]
      else [rel_id genre])"

definition collectAlbumsLibraryRandom :: "dj_api \<Rightarrow> dj_args \<Rightarrow> draws \<Rightarrow> (string list \<times> draws) option" where
  "collectAlbumsLibraryRandom api a r =
     do {
       items \<leftarrow> randomAlbums api None None (a_musicFolderId a) (max (a_itemCount a) 1);
       let ids = filter (\<lambda>k. k \<noteq> '''' \<and> k \<notin> a_queueIdSet a) items;
       let (shuffled, r') = shuffle ids r;
       Some (take (a_itemCount a) shuffled, r')
     }"

type_synonym candidates = "string list \<times> string set"

definition similarAlbumStep :: "dj_api \<Rightarrow> dj_args \<Rightarrow> candidates option" where
  "similarAlbumStep api a =
     (if a_trySimilarSongs a \<and> s_id (a_currentSong a) \<noteq> ''''
      then map_option (\<lambda>songs. autoDjPushUniqueAlbumIds (a_queueIdSet a) (map s_albumId songs) ([], {}))
        (similarSongs api (a_itemCount a * 4) (s_id (a_currentSong a)))
      else Some ([], {}))"

text \<open>One request for albums, whose ids join the candidates.\<close>

definition pushAlbums ::
    "dj_api \<Rightarrow> dj_args \<Rightarrow> string list option \<Rightarrow> string list option \<Rightarrow> nat \<Rightarrow> candidates
       \<Rightarrow> candidates option" where
  "pushAlbums api a genreIds artistIds limit c =
     map_option (\<lambda>items. autoDjPushUniqueAlbumIds (a_queueIdSet a) items c)
       (randomAlbums api genreIds artistIds (a_musicFolderId a) limit)"

definition genreAlbumStep :: "dj_api \<Rightarrow> dj_args \<Rightarrow> candidates \<Rightarrow> candidates option" where
  "genreAlbumStep api a c =
     (if length (fst c) < a_itemCount a then
        (case (a_server a, s_genres (a_currentSong a)) of
           (Some serverType, genre # _) \<Rightarrow>
             do {
               c' \<leftarrow> pushAlbums api a (Some (autoDjGenreIdsForSongGenre genre serverType)) None 50 c;
               if \<not> a_trySimilarSongs a then pushAlbums api a None None (mixLimit 50) c' else Some c'
             }
         | _ \<Rightarrow> Some c)
      else Some c)"

definition artistAlbumStep :: "dj_api \<Rightarrow> dj_args \<Rightarrow> candidates \<Rightarrow> candidates option" where
  "artistAlbumStep api a c =
     (if length (fst c) < a_itemCount a then
        (case s_albumArtists (a_currentSong a) of
           [] \<Rightarrow> Some c
         | albumArtist # _ \<Rightarrow> pushAlbums api a None (Some [rel_id albumArtist]) 50 c)
      else Some c)"

definition randomAlbumStep :: "dj_api \<Rightarrow> dj_args \<Rightarrow> candidates \<Rightarrow> candidates option" where
  "randomAlbumStep api a c =
     (if length (fst c) < a_itemCount a then pushAlbums api a None None 80 c else Some c)"

definition collectAlbumsSimilar :: "dj_api \<Rightarrow> dj_args \<Rightarrow> draws \<Rightarrow> (string list \<times> draws) option" where
  "collectAlbumsSimilar api a r =
     do {
       similar \<leftarrow> similarAlbumStep api a;
       withGenre \<leftarrow> genreAlbumStep api a similar;
       withArtist \<leftarrow> artistAlbumStep api a withGenre;
       candidateAlbumIds \<leftarrow> randomAlbumStep api a withArtist;
       let (shuffledAlbums, r') = shuffle (fst candidateAlbumIds) r;
       Some (take (a_itemCount a) shuffledAlbums, r')
     }"

definition runAutoDjAlbumIds ::
    "AutoDJStrategy \<Rightarrow> dj_api \<Rightarrow> dj_args \<Rightarrow> draws \<Rightarrow> (string list \<times> draws) option" where
  "runAutoDjAlbumIds albumStrategy api a r =
     (case albumStrategy of
        LIBRARY_RANDOM \<Rightarrow> collectAlbumsLibraryRandom api a r
      | SIMILAR \<Rightarrow> collectAlbumsSimilar api a r)"

section \<open>The trigger\<close>

text \<open>
  The selector of the subscription gives the queue index, the number of songs that remain, and the
  current song; the listener is called when the song or the number has changed.
\<close>

record dj_selected =
  sel_index :: jsnum
  sel_remaining :: jsnum
  sel_song :: "queue_song option"

definition autoDjSelect :: "store \<Rightarrow> dj_selected" where
  "autoDjSelect s =
     (let items = snd (getQueue None s);
          index = p_index (player s);
          shuffled = q_shuffled (queue s);
          (index', remaining) =
            (if isShuffleEnabled s
             then (mapShuffledToQueueIndex index shuffled, Num (int (length shuffled)) - index - Num 1)
             else (index, Num (int (length (slice_from items (index + Num 1))))))
      in \<lparr>sel_index = index', sel_remaining = remaining, sel_song = js_nth items index'\<rparr>)"

definition autoDjEqual :: "dj_selected \<Rightarrow> dj_selected \<Rightarrow> bool" where
  "autoDjEqual x y = (map_option uniqueId (sel_song x) = map_option uniqueId (sel_song y)
     \<and> js_eq (sel_remaining x) (sel_remaining y))"

definition autoDjDue :: "dj_settings \<Rightarrow> dj_selected \<Rightarrow> bool" where
  "autoDjDue settings selected =
     (dj_enabled settings \<and> truthy (map_option s_id (sel_song selected))
      \<and> \<not> Num (dj_timing settings) \<le> sel_remaining selected)"

record dj_server =
  sv_type :: ServerType
  sv_musicFolderId :: "string list option"
  sv_similarSongsMusicFolder :: bool

text \<open>\<open>hasMusicFolder\<close>, and the arguments the two collectors share.\<close>

definition hasMusicFolder :: "dj_server option \<Rightarrow> bool" where
  "hasMusicFolder server = (case server of None \<Rightarrow> False
     | Some sv \<Rightarrow> sv_musicFolderId sv \<noteq> None \<and> sv_musicFolderId sv \<noteq> Some [])"

definition runnerArgs :: "dj_settings \<Rightarrow> dj_server option \<Rightarrow> queue_song \<Rightarrow> string set \<Rightarrow> dj_args" where
  "runnerArgs settings server song ids =
     \<lparr>a_currentSong = song, a_itemCount = dj_itemCount settings,
      a_musicFolderId = (if hasMusicFolder server then sv_musicFolderId (the server) else None),
      a_queueIdSet = ids, a_server = map_option sv_type server,
      a_trySimilarSongs = (\<not> hasMusicFolder server
        \<or> hasMusicFolder server \<and> sv_similarSongsMusicFolder (the server))\<rparr>"

text \<open>
  The listener, called with what was selected from the state \<open>s\<close>. The requests are answered later, in
  the world \<open>w\<close>: the ids that are excluded are those of the queue when it was called.
\<close>

definition autoDjListener ::
    "context_env \<Rightarrow> (song list \<Rightarrow> song list) \<Rightarrow> dj_settings \<Rightarrow> dj_server option \<Rightarrow> string option \<Rightarrow> dj_api
       \<Rightarrow> (string list \<Rightarrow> song list option) \<Rightarrow> dj_selected \<Rightarrow> store \<Rightarrow> world \<Rightarrow> world" where
  "autoDjListener x orderByTrack settings server serverId api fetchSongs selected s w =
     (if \<not> autoDjDue settings selected \<or> \<not> truthy serverId then w
      else
        (let song = the (sel_song selected); items = snd (getQueue None s)
         in case dj_mode settings of
              DJ_albums \<Rightarrow>
                (let queueAlbumIdSet = set (filter (\<lambda>k. k \<noteq> '''') (map s_albumId items))
                 in case runAutoDjAlbumIds (nullish_or (dj_albumStrategy settings) SIMILAR) api
                          (runnerArgs settings server song queueAlbumIdSet) (w_draws w) of
                      None \<Rightarrow> w
                    | Some (albumsToAdd, r) \<Rightarrow>
                        (if length albumsToAdd > 0 then
                           emit (AUTODJ_QUEUE_ADDED (length albumsToAdd))
                             (contextAddToQueueByFetch x orderByTrack albumsToAdd ALBUM
                               (AddToQueueByPlayType Play_LAST) (fetchSongs albumsToAdd) (w\<lparr>w_draws := r\<rparr>))
                         else w\<lparr>w_draws := r\<rparr>))
            | DJ_songs \<Rightarrow>
                (let queueSongIdSet = set (map s_id items)
                 in case runAutoDjSongs (nullish_or (dj_songStrategy settings) SIMILAR) api
                          (runnerArgs settings server song queueSongIdSet) (w_draws w) of
                      None \<Rightarrow> w
                    | Some (songsToAdd, r) \<Rightarrow>
                        (if length songsToAdd > 0 then
                           emit (AUTODJ_QUEUE_ADDED (length songsToAdd))
                             (contextAddToQueueByData x songsToAdd (AddToQueueByPlayType Play_LAST) None None
                               (w\<lparr>w_draws := r\<rparr>))
                         else w\<lparr>w_draws := r\<rparr>))))"

text \<open>
  The subscription: what the listener is called with, if at all, given what it was last called with.
\<close>

definition autoDjNotify :: "dj_selected \<Rightarrow> store \<Rightarrow> dj_selected option" where
  "autoDjNotify told s =
     (let selected = autoDjSelect s in if autoDjEqual selected told then None else Some selected)"
section \<open>Facts about the songs collected\<close>

lemma set_notQueued: "set (notQueued a xs) = {s \<in> set xs. s_id s \<notin> a_queueIdSet a}"
  by (auto simp: notQueued_def)

text \<open>
  What a step hands on: new songs after those it was given; a step that stops asking has found
  enough of them.
\<close>

definition new_songs :: "dj_args \<Rightarrow> song list \<Rightarrow> bool" where
  "new_songs a xs = (\<forall>s \<in> set xs. s_id s \<notin> a_queueIdSet a)"

lemma new_songs_simps [simp]:
  "new_songs a []" "new_songs a (xs @ ys) \<longleftrightarrow> new_songs a xs \<and> new_songs a ys"
  "new_songs a (notQueued a xs)" "new_songs a (take n (notQueued a xs))"
  by (auto simp: new_songs_def set_notQueued dest!: in_set_takeD)

lemma similarStep_new: "similarStep api a = Some v \<Longrightarrow> new_songs a v"
  by (auto simp: similarStep_def split: if_splits)

lemma genreStep_new: "genreStep api a u = Some v \<Longrightarrow> new_songs a u \<Longrightarrow> new_songs a v"
  by (auto simp: genreStep_def bind_eq_Some_conv split: if_splits list.splits)

lemma artistStep_new: "artistStep api a u = Some v \<Longrightarrow> new_songs a u \<Longrightarrow> new_songs a v"
  by (auto simp: artistStep_def split: if_splits list.splits)

lemma randomStep_new: "randomStep api a u = Some v \<Longrightarrow> new_songs a u \<Longrightarrow> new_songs a v"
  by (auto simp: randomStep_def split: if_splits)

lemma randomStep_last:
  "randomStep api a u = Some v \<Longrightarrow> length v < a_itemCount a \<Longrightarrow>
     \<exists>xs. randomSongs api None 50 = Some xs \<and> set (notQueued a xs) \<subseteq> set v"
  by (auto simp: randomStep_def split: if_splits)

lemma shuffled_pool:
  assumes "shuffleInPlace pool r = (shuffled, r')" and "songs = take n shuffled"
  shows "length songs = min n (length pool)" and "set songs \<subseteq> set pool"
    and "length songs < n \<Longrightarrow> set songs = set pool"
proof -
  have m: "mset shuffled = mset pool" using mset_shuffleInPlace [of pool r] assms(1) by simp
  then have l: "length shuffled = length pool" and s: "set shuffled = set pool"
    by (auto dest: mset_eq_length mset_eq_setD)
  show "length songs = min n (length pool)" by (simp add: assms(2) l min.commute)
  show "set songs \<subseteq> set pool" using set_take_subset [of n shuffled] by (simp add: assms(2) s)
  show "set songs = set pool" if "length songs < n" using that by (auto simp: assms(2) l s)
qed

lemma runAutoDjSongs_pool:
  assumes "runAutoDjSongs strategy api a r = Some (songs, r')"
  shows "\<exists>pool shuffled. shuffleInPlace pool r = (shuffled, r') \<and> songs = take (a_itemCount a) shuffled
    \<and> new_songs a pool
    \<and> (length pool < a_itemCount a \<longrightarrow>
        (\<exists>limit xs. randomSongs api None limit = Some xs \<and> set (notQueued a xs) \<subseteq> set pool))"
proof (cases strategy)
  case LIBRARY_RANDOM
  with assms obtain xs where xs: "randomSongs api None (max (a_itemCount a * 3) 50) = Some xs"
    and songs: "songs = take (a_itemCount a) (fst (shuffleInPlace (notQueued a xs) r))"
    "r' = snd (shuffleInPlace (notQueued a xs) r)"
    by (auto simp: runAutoDjSongs_def collectSongsLibraryRandom_def bind_eq_Some_conv case_prod_beta)
  show ?thesis
    by (intro exI [of _ "notQueued a xs"] exI [of _ "fst (shuffleInPlace (notQueued a xs) r)"] conjI impI
        exI [of _ "max (a_itemCount a * 3) 50"] exI [of _ xs]) (simp_all add: songs xs)
next
  case SIMILAR
  with assms have "collectSongsSimilar api a r = Some (songs, r')" by (simp add: runAutoDjSongs_def)
  then obtain u1 u2 u3 pool where steps: "similarStep api a = Some u1"
    "genreStep api a u1 = Some u2" "artistStep api a u2 = Some u3" "randomStep api a u3 = Some pool"
    and res: "songs = take (a_itemCount a) (fst (shuffleInPlace pool r))" "r' = snd (shuffleInPlace pool r)"
    unfolding collectSongsSimilar_def bind_eq_Some_conv Let_def case_prod_beta by (metis prod.inject option.inject)
  define shuffled where "shuffled = fst (shuffleInPlace pool r)"
  have r: "shuffleInPlace pool r = (shuffled, r')" "songs = take (a_itemCount a) shuffled"
    by (simp_all add: shuffled_def res)
  from steps have "new_songs a pool"
    using similarStep_new genreStep_new artistStep_new randomStep_new by blast
  with r randomStep_last [OF steps(4)] show ?thesis by blast
qed

section \<open>Facts about the albums collected\<close>

definition candidates_ok :: "string set \<Rightarrow> candidates \<Rightarrow> bool" where
  "candidates_ok Q c = (distinct (fst c) \<and> set (fst c) = snd c \<and> '''' \<notin> snd c \<and> snd c \<inter> Q = {})"

lemma push_ok: "candidates_ok Q c \<Longrightarrow> candidates_ok Q (autoDjPushUniqueAlbumIds Q ids c)"
proof (induction ids arbitrary: c)
  case (Cons k ids)
  have "candidates_ok Q (fst c @ [k], insert k (snd c))" if "k \<noteq> ''''" "k \<notin> Q" "k \<notin> snd c"
    using that Cons.prems by (auto simp: candidates_ok_def)
  with Cons show ?case by simp
qed simp

lemma push_all:
  "snd (autoDjPushUniqueAlbumIds Q ids c) = snd c \<union> {k \<in> set ids. k \<noteq> '''' \<and> k \<notin> Q}"
  by (induction ids arbitrary: c) auto

lemma candidates_ok_start: "candidates_ok Q ([], {})"
  by (simp add: candidates_ok_def)

lemma pushAlbums_ok:
  "pushAlbums api a g t limit c = Some d \<Longrightarrow> candidates_ok (a_queueIdSet a) c \<Longrightarrow> candidates_ok (a_queueIdSet a) d"
  by (auto simp: pushAlbums_def push_ok)

lemma similarAlbumStep_ok: "similarAlbumStep api a = Some d \<Longrightarrow> candidates_ok (a_queueIdSet a) d"
  by (auto simp: similarAlbumStep_def push_ok candidates_ok_start split: if_splits)

lemma genreAlbumStep_ok:
  "genreAlbumStep api a c = Some d \<Longrightarrow> candidates_ok (a_queueIdSet a) c \<Longrightarrow> candidates_ok (a_queueIdSet a) d"
  by (auto simp: genreAlbumStep_def bind_eq_Some_conv pushAlbums_ok split: if_splits option.splits list.splits)

lemma artistAlbumStep_ok:
  "artistAlbumStep api a c = Some d \<Longrightarrow> candidates_ok (a_queueIdSet a) c \<Longrightarrow> candidates_ok (a_queueIdSet a) d"
  by (auto simp: artistAlbumStep_def pushAlbums_ok split: if_splits list.splits)

lemma randomAlbumStep_ok:
  "randomAlbumStep api a c = Some d \<Longrightarrow> candidates_ok (a_queueIdSet a) c \<Longrightarrow> candidates_ok (a_queueIdSet a) d"
  by (auto simp: randomAlbumStep_def pushAlbums_ok split: if_splits)

lemma randomAlbumStep_last:
  "randomAlbumStep api a c = Some d \<Longrightarrow> length (fst d) < a_itemCount a \<Longrightarrow> candidates_ok (a_queueIdSet a) d \<Longrightarrow>
     \<exists>ids. randomAlbums api None None (a_musicFolderId a) 80 = Some ids
       \<and> {k \<in> set ids. k \<noteq> '''' \<and> k \<notin> a_queueIdSet a} \<subseteq> set (fst d)"
  by (auto simp: randomAlbumStep_def pushAlbums_def push_all candidates_ok_def split: if_splits)

lemma collectAlbumsSimilar_pool:
  assumes "collectAlbumsSimilar api a r = Some (albums, r')"
  shows "\<exists>pool shuffled. shuffle pool r = (shuffled, r') \<and> albums = take (a_itemCount a) shuffled
    \<and> candidates_ok (a_queueIdSet a) (pool, set pool)
    \<and> (length pool < a_itemCount a \<longrightarrow>
        (\<exists>ids. randomAlbums api None None (a_musicFolderId a) 80 = Some ids
          \<and> {k \<in> set ids. k \<noteq> '''' \<and> k \<notin> a_queueIdSet a} \<subseteq> set pool))"
proof -
  from assms obtain c1 c2 c3 d where steps: "similarAlbumStep api a = Some c1"
    "genreAlbumStep api a c1 = Some c2" "artistAlbumStep api a c2 = Some c3" "randomAlbumStep api a c3 = Some d"
    and res: "albums = take (a_itemCount a) (fst (shuffle (fst d) r))" "r' = snd (shuffle (fst d) r)"
    unfolding collectAlbumsSimilar_def bind_eq_Some_conv Let_def case_prod_beta by (metis prod.inject option.inject)
  define shuffled where "shuffled = fst (shuffle (fst d) r)"
  have r: "shuffle (fst d) r = (shuffled, r')" "albums = take (a_itemCount a) shuffled"
    by (simp_all add: shuffled_def res)
  from steps have ok: "candidates_ok (a_queueIdSet a) d"
    using similarAlbumStep_ok genreAlbumStep_ok artistAlbumStep_ok randomAlbumStep_ok by blast
  then have "candidates_ok (a_queueIdSet a) (fst d, set (fst d))" by (simp add: candidates_ok_def)
  with r randomAlbumStep_last [OF steps(4) _ ok] show ?thesis by blast
qed

section \<open>Facts about the queue\<close>

lemma addToQueueByType_last:
  "w_store (addToQueueByType songs Play_LAST k w) =
     fst (addLast (fst (toQueueSongs songs (w_ids w))) (w_store w, w_draws w))"
  by (simp add: addToQueueByType_def set_with_draws_def case_prod_beta Let_def)

text \<open>What adding at the end does to the player, whatever is added.\<close>

definition extends_order :: "store \<Rightarrow> store \<Rightarrow> nat \<Rightarrow> bool" where
  "extends_order s t n = (store_ok t \<and> order_ok t \<and> player t = player s
     \<and> (\<exists>ys. playOrder t = playOrder s @ ys \<and> length ys = n)
     \<and> (currentId s \<noteq> None \<longrightarrow> currentId t = currentId s))"

lemma extends_order_refl: "store_ok s \<Longrightarrow> order_ok s \<Longrightarrow> extends_order s s 0"
  by (simp add: extends_order_def)

lemma js_nth_append: "js_nth xs i = Some x \<Longrightarrow> js_nth (xs @ ys) i = Some x"
  by (auto simp: js_nth_def nth_append split: jsnum.splits if_splits)

lemma addToQueue_last_extends:
  assumes "store_ok (w_store w)" and "order_ok (w_store w)"
  shows "extends_order (w_store w) (w_store (addToQueueByType songs Play_LAST k w)) (length songs)"
proof -
  let ?t = "w_store (addToQueueByType songs Play_LAST k w)"
  let ?items = "fst (toQueueSongs songs (w_ids w))"
  obtain ys where ys: "mset ys = mset (map uniqueId ?items)" "playOrder ?t = playOrder (w_store w) @ ys"
    "order_ok ?t" "player ?t = player (w_store w)"
    using addLast_play_order [OF assms(2)] unfolding addToQueueByType_last by blast
  have ok: "store_ok ?t" unfolding addToQueueByType_last using assms(1) by (rule store_ok_addLast)
  have "length ys = length songs" using mset_eq_length [OF ys(1)] by simp
  moreover have "currentId ?t = currentId (w_store w)" if "currentId (w_store w) \<noteq> None"
    using that unfolding currentId_playOrder [OF assms] currentId_playOrder [OF ok ys(3)] ys(2,4)
    by (auto dest: js_nth_append)
  ultimately show ?thesis using ok ys by (auto simp: extends_order_def)
qed

lemma length_filterSongs: "length (filterSongsByPlayerFilters L ps songs fs) \<le> length songs"
  by (simp add: filterSongsByPlayerFilters_def Let_def)

lemma byData_extends:
  assumes "store_ok (w_store w)" and "order_ok (w_store w)"
  shows "\<exists>n \<le> length songs. extends_order (w_store w)
    (w_store (contextAddToQueueByData x songs (AddToQueueByPlayType Play_LAST) None None w)) n"
  using addToQueue_last_extends [OF assms]
  by (intro exI [of _ "length (filterSongsByPlayerFilters (x_lib x) (x_path x) songs (x_filters x))"])
    (simp add: contextAddToQueueByData_def queueSongs_def isReplaceQueueType_def tagIfContext_def length_filterSongs)

lemma byFetch_extends:
  assumes "store_ok (w_store w)" and "order_ok (w_store w)"
  shows "\<exists>n. extends_order (w_store w)
    (w_store (contextAddToQueueByFetch x ob ids ALBUM (AddToQueueByPlayType Play_LAST) fetched w)) n"
proof -
  have "store_ok (w_store (w\<lparr>w_ids := g\<rparr>))" "order_ok (w_store (w\<lparr>w_ids := g\<rparr>))" for g
    using assms by simp_all
  from addToQueue_last_extends [OF this] extends_order_refl [OF assms] show ?thesis
    by (fastforce simp: contextAddToQueueByFetch_def queueSongs_def isReplaceQueueType_def tagIfContext_def
        Let_def split: option.splits)
qed

lemma emit_store [simp]: "w_store (emit e w) = w_store w"
  by (simp add: emit_def)

lemma runAutoDjSongs_length: "runAutoDjSongs strategy api a r = Some (songs, r') \<Longrightarrow> length songs \<le> a_itemCount a"
  using runAutoDjSongs_pool shuffled_pool(1) by (metis min.cobounded1)

lemma runnerArgs_itemCount [simp]: "a_itemCount (runnerArgs settings server song ids) = dj_itemCount settings"
  by (simp add: runnerArgs_def)

lemma autoDjListener_albums:
  assumes "store_ok (w_store w)" and "order_ok (w_store w)" and "dj_mode settings = DJ_albums"
  shows "\<exists>n. extends_order (w_store w)
    (w_store (autoDjListener x ob settings server serverId api fetchSongs selected s w)) n"
proof -
  have "\<exists>n. extends_order (w_store w) (w_store (contextAddToQueueByFetch x ob ids ALBUM
      (AddToQueueByPlayType Play_LAST) fetched (w\<lparr>w_draws := r\<rparr>))) n" for ids fetched r
    using byFetch_extends [of "w\<lparr>w_draws := r\<rparr>"] assms(1,2) by simp
  with extends_order_refl [OF assms(1,2)] show ?thesis
    unfolding autoDjListener_def Let_def assms(3) by (auto split: option.splits)
qed

lemma autoDjListener_songs:
  assumes "store_ok (w_store w)" and "order_ok (w_store w)" and "dj_mode settings = DJ_songs"
  shows "\<exists>n \<le> dj_itemCount settings. extends_order (w_store w)
    (w_store (autoDjListener x ob settings server serverId api fetchSongs selected s w)) n"
proof (cases "autoDjDue settings selected \<and> truthy serverId")
  case True
  let ?a = "runnerArgs settings server (the (sel_song selected)) (set (map s_id (snd (getQueue None s))))"
  show ?thesis
  proof (cases "runAutoDjSongs (nullish_or (dj_songStrategy settings) SIMILAR) api ?a (w_draws w)")
    case None
    then show ?thesis using True extends_order_refl [OF assms(1,2)] assms(3)
      by (intro exI [of _ 0]) (simp add: autoDjListener_def Let_def)
  next
    case (Some p)
    obtain songs r where p: "p = (songs, r)" by (cases p)
    from runAutoDjSongs_length [OF Some [unfolded p]] have len: "length songs \<le> dj_itemCount settings" by simp
    obtain n where "n \<le> length songs" "extends_order (w_store w) (w_store (contextAddToQueueByData x songs
        (AddToQueueByPlayType Play_LAST) None None (w\<lparr>w_draws := r\<rparr>))) n"
      using byData_extends [of "w\<lparr>w_draws := r\<rparr>" songs x] assms(1,2) by auto
    with len show ?thesis
      using True Some p extends_order_refl [OF assms(1,2)] assms(3)
      by (cases "songs = []") (auto simp: autoDjListener_def Let_def intro: exI [of _ n] exI [of _ 0])
  qed
next
  case False
  then show ?thesis using extends_order_refl [OF assms(1,2)]
    by (intro exI [of _ 0]) (auto simp: autoDjListener_def)
qed

section \<open>Properties\<close>

text \<open>
  The auto DJ collects at most the number of songs that is set, none of which is in the queue, and
  returns fewer only when the last request for random songs had nothing else to offer: every song
  of its answer that is not queued is among those collected.
\<close>

theorem auto_dj_songs_are_new:
  assumes "runAutoDjSongs strategy api a r = Some (songs, r')"
  shows "length songs \<le> a_itemCount a \<and> (\<forall>s \<in> set songs. s_id s \<notin> a_queueIdSet a)
    \<and> (length songs < a_itemCount a \<longrightarrow>
        (\<exists>limit xs. randomSongs api None limit = Some xs
          \<and> (\<forall>s \<in> set xs. s_id s \<in> a_queueIdSet a \<or> s \<in> set songs)))"
proof -
  obtain pool shuffled where r: "shuffleInPlace pool r = (shuffled, r')" "songs = take (a_itemCount a) shuffled"
    and new: "new_songs a pool" and last: "length pool < a_itemCount a \<longrightarrow>
      (\<exists>limit xs. randomSongs api None limit = Some xs \<and> set (notQueued a xs) \<subseteq> set pool)"
    using runAutoDjSongs_pool [OF assms] by blast
  note sh = shuffled_pool [OF r]
  have "\<exists>limit xs. randomSongs api None limit = Some xs
      \<and> (\<forall>s \<in> set xs. s_id s \<in> a_queueIdSet a \<or> s \<in> set songs)" if "length songs < a_itemCount a"
    using that last sh by (auto simp: set_notQueued)
  then show ?thesis using sh(1,2) new by (auto simp: new_songs_def)
qed

definition exampleApi :: dj_api where
  "exampleApi = \<lparr>similarSongs = (\<lambda>n k. Some [exampleSong ''a'', exampleSong ''x'']),
     randomSongs = (\<lambda>g n. if g = None then Some [exampleSong ''b'', exampleSong ''x''] else None),
     artistSongs = (\<lambda>k n. None),
     randomAlbums = (\<lambda>g t m n. Some [''p'', ''q'', ''p''])\<rparr>"

definition exampleArgs :: "string set \<Rightarrow> dj_args" where
  "exampleArgs ids = \<lparr>a_currentSong = toQueueSong ''u1'' (exampleSong ''a''), a_itemCount = 4,
     a_musicFolderId = None, a_queueIdSet = ids, a_server = Some NAVIDROME, a_trySimilarSongs = True\<rparr>"

theorem auto_dj_songs_are_new_witness:
  "\<exists>songs. map_option fst (runAutoDjSongs SIMILAR exampleApi (exampleArgs {''a'', ''b''}) (\<lambda>n. 0)) = Some songs
    \<and> length songs \<le> 4 \<and> (\<forall>s \<in> set songs. s_id s \<notin> {''a'', ''b''})"
proof -
  have "\<exists>p. runAutoDjSongs SIMILAR exampleApi (exampleArgs {''a'', ''b''}) (\<lambda>n. 0) = Some p"
    by (simp add: runAutoDjSongs_def collectSongsSimilar_def similarStep_def genreStep_def artistStep_def
        randomStep_def exampleApi_def exampleArgs_def toQueueSong_def song.defs queue_song.defs exampleSong_def
        case_prod_beta)
  then obtain songs r where "runAutoDjSongs SIMILAR exampleApi (exampleArgs {''a'', ''b''}) (\<lambda>n. 0) = Some (songs, r)"
    by (metis prod.exhaust)
  with auto_dj_songs_are_new [OF this] show ?thesis by (simp add: exampleArgs_def)
qed

text \<open>
  Of similar albums the auto DJ collects at most the number that is set; they are different from each
  other and from the albums in the queue, and there are fewer only when the last request for random albums
  had no other album to offer.
\<close>

theorem auto_dj_albums_are_new:
  assumes "runAutoDjAlbumIds SIMILAR api a r = Some (albums, r')"
  shows "length albums \<le> a_itemCount a \<and> distinct albums \<and> '''' \<notin> set albums
    \<and> set albums \<inter> a_queueIdSet a = {}
    \<and> (length albums < a_itemCount a \<longrightarrow>
        (\<exists>ids. randomAlbums api None None (a_musicFolderId a) 80 = Some ids
          \<and> (\<forall>k \<in> set ids. k = '''' \<or> k \<in> a_queueIdSet a \<or> k \<in> set albums)))"
proof -
  have "collectAlbumsSimilar api a r = Some (albums, r')" using assms by (simp add: runAutoDjAlbumIds_def)
  then obtain pool shuffled where r: "shuffle pool r = (shuffled, r')" "albums = take (a_itemCount a) shuffled"
    and ok: "candidates_ok (a_queueIdSet a) (pool, set pool)"
    and last: "length pool < a_itemCount a \<longrightarrow>
        (\<exists>ids. randomAlbums api None None (a_musicFolderId a) 80 = Some ids
          \<and> {k \<in> set ids. k \<noteq> '''' \<and> k \<notin> a_queueIdSet a} \<subseteq> set pool)"
    using collectAlbumsSimilar_pool by blast
  note sh = shuffled_pool [OF r [unfolded shuffle_eq]]
  have "mset shuffled = mset pool" using mset_shuffleInPlace [of pool r] r(1) by (simp add: shuffle_eq)
  then have "distinct albums" 
    using ok mset_eq_imp_distinct_iff [of shuffled pool] by (simp add: r(2) candidates_ok_def)
  moreover have "\<exists>ids. randomAlbums api None None (a_musicFolderId a) 80 = Some ids
      \<and> (\<forall>k \<in> set ids. k = '''' \<or> k \<in> a_queueIdSet a \<or> k \<in> set albums)" if "length albums < a_itemCount a"
    using that last sh by auto
  ultimately show ?thesis using sh(1,2) ok by (auto simp: candidates_ok_def)
qed

theorem auto_dj_albums_are_new_witness:
  "\<exists>albums. map_option fst (runAutoDjAlbumIds SIMILAR exampleApi (exampleArgs {''q''}) (\<lambda>n. 0)) = Some albums
    \<and> distinct albums \<and> set albums \<inter> {''q''} = {}"
proof -
  have "\<exists>p. runAutoDjAlbumIds SIMILAR exampleApi (exampleArgs {''q''}) (\<lambda>n. 0) = Some p"
    by (simp add: runAutoDjAlbumIds_def collectAlbumsSimilar_def similarAlbumStep_def genreAlbumStep_def
        artistAlbumStep_def randomAlbumStep_def pushAlbums_def exampleApi_def exampleArgs_def toQueueSong_def
        song.defs queue_song.defs exampleSong_def case_prod_beta)
  then obtain albums r where "runAutoDjAlbumIds SIMILAR exampleApi (exampleArgs {''q''}) (\<lambda>n. 0) = Some (albums, r)"
    by (metis prod.exhaust)
  with auto_dj_albums_are_new [OF this] show ?thesis by (simp add: exampleArgs_def)
qed

text \<open>
  C20: Whatever the settings, the servers' answers and the filters are, the auto DJ only extends the
  playback order at its end: the player and the current song stay as they are, and the queue stays
  consistent. In song mode it adds no more songs than the number that is set.
\<close>

theorem auto_dj_extends_play_order:
  fixes w :: world
  assumes "store_ok (w_store w)" and "order_ok (w_store w)"
    and w': "w' = autoDjListener x ob settings server serverId api fetchSongs selected s w"
  shows "\<exists>ys. playOrder (w_store w') = playOrder (w_store w) @ ys
    \<and> (dj_mode settings = DJ_songs \<longrightarrow> length ys \<le> dj_itemCount settings)
    \<and> store_ok (w_store w') \<and> order_ok (w_store w') \<and> player (w_store w') = player (w_store w)
    \<and> (currentId (w_store w) \<noteq> None \<longrightarrow> currentId (w_store w') = currentId (w_store w))"
proof -
  have "\<exists>n. extends_order (w_store w) (w_store w') n \<and> (dj_mode settings = DJ_songs \<longrightarrow> n \<le> dj_itemCount settings)"
    using autoDjListener_albums [OF assms(1,2), of settings x ob server serverId api fetchSongs selected s]
      autoDjListener_songs [OF assms(1,2), of settings x ob server serverId api fetchSongs selected s]
    unfolding w' by (cases "dj_mode settings") auto
  then show ?thesis by (auto simp: extends_order_def)
qed

text \<open>The settings and the surroundings of the examples: random songs, without filters.\<close>

definition exampleSettings :: dj_settings where
  "exampleSettings = \<lparr>dj_albumStrategy = None, dj_enabled = True, dj_itemCount = 2, dj_mode = DJ_songs,
     dj_songStrategy = Some LIBRARY_RANDOM, dj_timing = 1\<rparr>"

definition exampleContext :: context_env where
  "exampleContext = \<lparr>x_lib = \<lparr>toLowerCase = (\<lambda>s. s), numberToString = (\<lambda>_. ''0''),
       stringToNumber = (\<lambda>_. None), regexTest = (\<lambda>_ _. None)\<rparr>, x_path = (None, None), x_filters = [], x_hash = ''#/''\<rparr>"

text \<open>The auto DJ in an example: of the last song, with nothing left to play.\<close>

definition exampleRun :: "PlayerShuffle \<Rightarrow> world" where
  "exampleRun sh = (let s = exampleStore sh Repeat_NONE (Num 2)
     in autoDjListener exampleContext (\<lambda>xs. xs) exampleSettings None (Some ''server'') exampleApi (\<lambda>ids. None)
          (autoDjSelect s) s (exampleWorld s))"

theorem auto_dj_extends_play_order_witness:
  "\<exists>ys. playOrder (w_store (exampleRun Shuffle_TRACK)) = [''u3'', ''u1'', ''u2''] @ ys \<and> length ys \<le> 2
    \<and> currentId (w_store (exampleRun Shuffle_TRACK)) = Some ''u2''"
proof -
  let ?s = "exampleStore Shuffle_TRACK Repeat_NONE (Num 2)"
  have "currentId ?s = Some ''u2''"
    by (simp add: currentId_playOrder [OF exampleStore_ok exampleStore_order] exampleStore_playOrder)
  with auto_dj_extends_play_order [OF _ _ exampleRun_def [of Shuffle_TRACK, unfolded Let_def]] show ?thesis
    by (auto simp: exampleStore_ok exampleStore_order exampleStore_playOrder exampleSettings_def)
qed

text \<open>
  The songs of the different requests are not compared with each other: a song that is both similar and
  random is queued twice.
\<close>

lemma auto_dj_may_repeat_songs:
  "map_option (\<lambda>p. distinct (map s_id (fst p)))
     (runAutoDjSongs SIMILAR exampleApi (exampleArgs {''a'', ''b''}) (\<lambda>n. 0)) = Some False"
proof -
  let ?pool = "[exampleSong ''x'', exampleSong ''x'']"
  have "mset (fst (shuffleInPlace ?pool (\<lambda>n. 0))) = mset ?pool" by (rule mset_shuffleInPlace)
  then have "length (fst (shuffleInPlace ?pool (\<lambda>n. 0))) = 2"
    "\<not> distinct (map s_id (fst (shuffleInPlace ?pool (\<lambda>n. 0))))"
    by (auto dest: mset_eq_length mset_eq_imp_distinct_iff [THEN iffD1] simp: distinct_map)
  then show ?thesis
    by (simp add: runAutoDjSongs_def collectSongsSimilar_def similarStep_def genreStep_def artistStep_def
        randomStep_def exampleApi_def exampleArgs_def toQueueSong_def song.defs queue_song.defs exampleSong_def
        case_prod_beta notQueued_def)
qed

end
