(* ===== verification/PlayerPersist.thy ===== *)
theory PlayerPersist
  imports PlayOrder
begin

text \<open>
  How the player survives a restart: what \<^verbatim>\<open>store/player.store.ts\<close> keeps of its state (\<open>partialize\<close>,
  \<open>migrate\<close>, \<open>merge\<close>) and \<^verbatim>\<open>store/utils.ts\<close>, which files it in IndexedDB: the player under the name of
  the store, the queue under a second key, written only when the queue is another object than last
  time. A write to the database may fail; the outcome of each is an argument.
\<close>

section \<open>What is saved\<close>

text \<open>
  The saved player has the properties that were not excluded; \<open>'n\<close> is the type of its numbers that
  can be NaN. Written as JSON, NaN becomes null: the documents have \<open>int option\<close> there.
\<close>

record 'n saved_player =
  sp_crossfadeDuration :: "rat option"
  sp_crossfadeStyle :: "CrossfadeStyle option"
  sp_index :: "'n option"
  sp_muted :: "bool option"
  sp_pauseOnNextSongEnd :: "bool option"
  sp_playerNum :: "player_num option"
  sp_repeat :: "PlayerRepeat option"
  sp_seekToTimestamp :: "(rat \<times> string) option"
  sp_shuffle :: "PlayerShuffle option"
  sp_speed :: "rat option"
  sp_status :: "PlayerStatus option"
  sp_transitionType :: "PlayerStyle option"
  sp_volume :: "rat option"

record 'n saved_queue =
  sq_default :: "string list"
  sq_shuffled :: "'n list"
  sq_songs :: "queue_song obj"

definition asSaved :: "queue_data \<Rightarrow> jsnum saved_queue" where
  "asSaved q = \<lparr>sq_default = q_default q, sq_shuffled = q_shuffled q, sq_songs = q_songs q\<rparr>"

definition jsonNum :: "jsnum \<Rightarrow> int option" where
  "jsonNum n = (case n of NaN \<Rightarrow> None | Num i \<Rightarrow> Some i)"

definition jsonQueue :: "jsnum saved_queue \<Rightarrow> int option saved_queue" where
  "jsonQueue q = \<lparr>sq_default = sq_default q, sq_shuffled = map jsonNum (sq_shuffled q), sq_songs = sq_songs q\<rparr>"

definition jsonPlayer :: "jsnum saved_player \<Rightarrow> int option saved_player" where
  "jsonPlayer p =
     \<lparr>sp_crossfadeDuration = sp_crossfadeDuration p, sp_crossfadeStyle = sp_crossfadeStyle p,
      sp_index = map_option jsonNum (sp_index p), sp_muted = sp_muted p,
      sp_pauseOnNextSongEnd = sp_pauseOnNextSongEnd p, sp_playerNum = sp_playerNum p,
      sp_repeat = sp_repeat p, sp_seekToTimestamp = sp_seekToTimestamp p, sp_shuffle = sp_shuffle p,
      sp_speed = sp_speed p, sp_status = sp_status p, sp_transitionType = sp_transitionType p,
      sp_volume = sp_volume p\<rparr>"

text \<open>\<open>partialize\<close>: the entries of the player whose keys are not excluded, and the queue object.\<close>

definition keepKey :: "string list \<Rightarrow> string \<Rightarrow> 'a \<Rightarrow> 'a option" where
  "keepKey excluded key x = (if key \<in> set excluded then None else Some x)"

definition savePlayer :: "string list \<Rightarrow> player \<Rightarrow> jsnum saved_player" where
  "savePlayer ex p =
     \<lparr>sp_crossfadeDuration = keepKey ex ''crossfadeDuration'' (p_crossfadeDuration p),
      sp_crossfadeStyle = keepKey ex ''crossfadeStyle'' (p_crossfadeStyle p),
      sp_index = keepKey ex ''index'' (p_index p),
      sp_muted = keepKey ex ''muted'' (p_muted p),
      sp_pauseOnNextSongEnd = keepKey ex ''pauseOnNextSongEnd'' (p_pauseOnNextSongEnd p),
      sp_playerNum = keepKey ex ''playerNum'' (p_playerNum p),
      sp_repeat = keepKey ex ''repeat'' (p_repeat p),
      sp_seekToTimestamp = keepKey ex ''seekToTimestamp'' (p_seekToTimestamp p),
      sp_shuffle = keepKey ex ''shuffle'' (p_shuffle p),
      sp_speed = keepKey ex ''speed'' (p_speed p),
      sp_status = keepKey ex ''status'' (p_status p),
      sp_transitionType = keepKey ex ''transitionType'' (p_transitionType p),
      sp_volume = keepKey ex ''volume'' (p_volume p)\<rparr>"

definition partialize :: "bool \<Rightarrow> store \<Rightarrow> jsnum saved_player \<times> queue_data option" where
  "partialize shouldRestorePlayQueue s =
     (let excludedPlayerKeys = [''playerNum'', ''seekToTimestamp'', ''status'']
            @ (if \<not> shouldRestorePlayQueue then [''index''] else []);
          player = savePlayer excludedPlayerKeys (player s)
      in if \<not> shouldRestorePlayQueue then (player, None) else (player, Some (queue s)))"

section \<open>The database\<close>

text \<open>
  A text in the database is broken or the JSON of a document. The key of the queue is the name of the
  store with a suffix; the two kinds of keys are two tables.
\<close>

datatype 'a stored_text = Broken | Json 'a

record main_doc =
  md_player :: "int option saved_player option"
  md_queue :: "int option saved_queue option"
  md_version :: "int option"

record idb =
  idb_main :: "string \<Rightarrow> main_doc stored_text option"
  idb_queue :: "string \<Rightarrow> int option saved_queue stored_text option"

text \<open>The module remembers which queue object it has written; an object is known by its number.\<close>

record storage =
  st_idb :: idb
  st_last :: "nat option"

definition putMain :: "string \<Rightarrow> main_doc \<Rightarrow> idb \<Rightarrow> idb" where
  "putMain name d b = b\<lparr>idb_main := (idb_main b)(name := Some (Json d))\<rparr>"

definition putQueue :: "string \<Rightarrow> int option saved_queue \<Rightarrow> idb \<Rightarrow> idb" where
  "putQueue name q b = b\<lparr>idb_queue := (idb_queue b)(name := Some (Json q))\<rparr>"

definition delQueue :: "string \<Rightarrow> idb \<Rightarrow> idb" where
  "delQueue name b = b\<lparr>idb_queue := (idb_queue b)(name := None)\<rparr>"

text \<open>Only the songs of queued ids are written.\<close>

definition cleanQueueForPersistence :: "'n saved_queue \<Rightarrow> 'n saved_queue" where
  "cleanQueueForPersistence q =
     (let allQueueIds = set (sq_default q);
          cleanedSongs = filter (\<lambda>(k, song). k \<in> allQueueIds) (sq_songs q)
      in q\<lparr>sq_songs := cleanedSongs\<rparr>)"

section \<open>The storage\<close>

type_synonym slice = "int option saved_player option \<times> int option saved_queue option"

definition getItem :: "string \<Rightarrow> idb \<Rightarrow> (slice \<times> int option) option" where
  "getItem name b =
     (case idb_main b name of
        None \<Rightarrow> None
      | Some Broken \<Rightarrow> None
      | Some (Json parsed) \<Rightarrow>
          (let queue = (case idb_queue b name of
                 Some (Json q) \<Rightarrow> Some q
               | Some Broken \<Rightarrow> None
               | None \<Rightarrow> md_queue parsed)
           in Some ((md_player parsed, queue), md_version parsed)))"

definition removeItem :: "string \<Rightarrow> bool \<Rightarrow> bool \<Rightarrow> storage \<Rightarrow> storage" where
  "removeItem name okMain okQueue st =
     (let st1 = st\<lparr>st_last := None\<rparr>
      in if \<not> okMain then st1
         else
           (let b = (st_idb st1)\<lparr>idb_main := (idb_main (st_idb st1))(name := None)\<rparr>
            in if \<not> okQueue then st1\<lparr>st_idb := b\<rparr> else st1\<lparr>st_idb := delQueue name b\<rparr>))"

text \<open>The queue of the value comes with the number of its object.\<close>

definition setItem ::
    "string \<Rightarrow> bool \<Rightarrow> bool \<Rightarrow> jsnum saved_player \<Rightarrow> (nat \<times> queue_data) option \<Rightarrow> int option
       \<Rightarrow> storage \<Rightarrow> storage" where
  "setItem name okMain okQueue saved q0 version st =
     (if \<not> okMain then st
      else
        (let b = putMain name \<lparr>md_player = Some (jsonPlayer saved), md_queue = None, md_version = version\<rparr>
               (st_idb st)
         in case q0 of
              None \<Rightarrow>
                (if \<not> okQueue then st\<lparr>st_idb := b, st_last := None\<rparr>
                 else st\<lparr>st_idb := delQueue name b, st_last := None\<rparr>)
            | Some (ref, q) \<Rightarrow>
                (if Some ref = st_last st then st\<lparr>st_idb := b\<rparr>
                 else if \<not> okQueue then st\<lparr>st_idb := b\<rparr>
                 else st\<lparr>st_idb := putQueue name (jsonQueue (cleanQueueForPersistence (asSaved q))) b,
                         st_last := Some ref\<rparr>)))"

text \<open>The migration from version 3, where the queue was part of the main document.\<close>

definition migratePlayerStorePersist :: "string \<Rightarrow> bool \<Rightarrow> bool \<Rightarrow> idb \<Rightarrow> idb" where
  "migratePlayerStorePersist storeName okQueue okMain b =
     (case idb_main b storeName of
        None \<Rightarrow> b
      | Some Broken \<Rightarrow> b
      | Some (Json parsed) \<Rightarrow>
          (case md_queue parsed of
             None \<Rightarrow> b
           | Some embeddedQueue \<Rightarrow>
               (let writes = (idb_queue b storeName = None)
                in if writes \<and> \<not> okQueue then b
                   else
                     (let b1 = (if writes then putQueue storeName (cleanQueueForPersistence embeddedQueue) b else b)
                      in if \<not> okMain then b1
                         else putMain storeName
                           \<lparr>md_player = md_player parsed, md_queue = None, md_version = md_version parsed\<rparr> b1))))"

definition migrate :: "bool \<Rightarrow> bool \<Rightarrow> slice \<Rightarrow> int \<Rightarrow> idb \<Rightarrow> slice \<times> idb" where
  "migrate okQueue okMain persistedState oldVersion b =
     (if oldVersion < 3 then ((None, None), b)
      else if oldVersion = 3 then
        (persistedState, migratePlayerStorePersist ''player-store'' okQueue okMain b)
      else (persistedState, b))"

section \<open>Starting\<close>

text \<open>
  The saved slice is merged into the initial state by lodash's \<open>merge\<close>, which is an argument. What it
  documents, for a slice without null numbers: a property of the slice replaces the one of the state,
  a missing one leaves it. The initial queue is empty.
\<close>

definition denull :: "int option \<Rightarrow> jsnum" where
  "denull n = (case n of None \<Rightarrow> NaN | Some i \<Rightarrow> Num i)"

definition overlayPlayer :: "player \<Rightarrow> int option saved_player \<Rightarrow> player" where
  "overlayPlayer p sp =
     \<lparr>p_crossfadeDuration = nullish_or (sp_crossfadeDuration sp) (p_crossfadeDuration p),
      p_crossfadeStyle = nullish_or (sp_crossfadeStyle sp) (p_crossfadeStyle p),
      p_index = nullish_or (map_option denull (sp_index sp)) (p_index p),
      p_muted = nullish_or (sp_muted sp) (p_muted p),
      p_pauseOnNextSongEnd = nullish_or (sp_pauseOnNextSongEnd sp) (p_pauseOnNextSongEnd p),
      p_playerNum = nullish_or (sp_playerNum sp) (p_playerNum p),
      p_repeat = nullish_or (sp_repeat sp) (p_repeat p),
      p_seekToTimestamp = nullish_or (sp_seekToTimestamp sp) (p_seekToTimestamp p),
      p_shuffle = nullish_or (sp_shuffle sp) (p_shuffle p),
      p_speed = nullish_or (sp_speed sp) (p_speed p),
      p_status = nullish_or (sp_status sp) (p_status p),
      p_transitionType = nullish_or (sp_transitionType sp) (p_transitionType p),
      p_volume = nullish_or (sp_volume sp) (p_volume p)\<rparr>"

definition overlay :: "store \<Rightarrow> slice \<Rightarrow> store" where
  "overlay s x =
     s\<lparr>player := (case fst x of None \<Rightarrow> player s | Some sp \<Rightarrow> overlayPlayer (player s) sp),
       queue := (case snd x of None \<Rightarrow> queue s
         | Some q \<Rightarrow> \<lparr>q_default = sq_default q, q_shuffled = map denull (sq_shuffled q), q_songs = sq_songs q\<rparr>)\<rparr>"

definition no_nulls :: "slice \<Rightarrow> bool" where
  "no_nulls x = ((\<forall>sp. fst x = Some sp \<longrightarrow> sp_index sp \<noteq> Some None)
     \<and> (\<forall>q. snd x = Some q \<longrightarrow> None \<notin> set (sq_shuffled q)))"

definition merges_initial :: "(store \<Rightarrow> slice \<Rightarrow> store) \<Rightarrow> bool" where
  "merges_initial lodashMerge = (\<forall>nid x. no_nulls x \<longrightarrow>
     lodashMerge (initialState nid) x = overlay (initialState nid) x)"

text \<open>What the store does with an item: merging, and the flag that the state has been restored.\<close>

definition rehydrate :: "(store \<Rightarrow> slice \<Rightarrow> store) \<Rightarrow> string \<Rightarrow> slice option \<Rightarrow> store" where
  "rehydrate lodashMerge nid item =
     (case item of None \<Rightarrow> initialState nid | Some x \<Rightarrow> lodashMerge (initialState nid) x)\<lparr>hydrated := True\<rparr>"

section \<open>The storage as a component\<close>

text \<open>
  The operations of the storage under one name. \<open>D\<close> gives the content of the queue objects: an object
  that is handed to the storage again has not changed, since the store's state is immutable.
\<close>

datatype storage_op =
    Op_set bool bool "jsnum saved_player" "nat option" "int option"
  | Op_remove bool bool

fun storage_step :: "(nat \<Rightarrow> queue_data) \<Rightarrow> string \<Rightarrow> storage_op \<Rightarrow> storage \<Rightarrow> storage" where
  "storage_step D name (Op_set okMain okQueue p r v) st =
     setItem name okMain okQueue p (map_option (\<lambda>k. (k, D k)) r) v st"
| "storage_step D name (Op_remove okMain okQueue) st = removeItem name okMain okQueue st"

abbreviation queueText :: "queue_data \<Rightarrow> int option saved_queue" where
  "queueText q \<equiv> jsonQueue (cleanQueueForPersistence (asSaved q))"

text \<open>The object that is remembered is the one that is in the database.\<close>

definition storage_ok :: "(nat \<Rightarrow> queue_data) \<Rightarrow> string \<Rightarrow> storage \<Rightarrow> bool" where
  "storage_ok D name st = (\<forall>r. st_last st = Some r \<longrightarrow>
     idb_queue (st_idb st) name = Some (Json (queueText (D r))))"

lemma idb_simps [simp]:
  "idb_queue (putMain name d b) = idb_queue b"
  "idb_queue (putQueue name q b) name = Some (Json q)"
  "idb_queue (delQueue name b) name = None"
  "idb_main (putQueue name q b) = idb_main b"
  "idb_main (delQueue name b) = idb_main b"
  "idb_main (putMain name d b) name = Some (Json d)"
  by (simp_all add: putMain_def putQueue_def delQueue_def)

interpretation persisted: driven_component "storage_step D name" "storage_ok D name"
proof (unfold_locales, goal_cases)
  case (1 st a)
  then show ?case
    by (cases a) (auto simp: setItem_def removeItem_def storage_ok_def Let_def split: option.splits)
qed

lemma getItem_after_set:
  assumes "storage_ok D name st"
  shows "getItem name (st_idb (storage_step D name (Op_set True True p r v) st)) =
    Some ((Some (jsonPlayer p), map_option (\<lambda>k. queueText (D k)) r), v)"
proof (cases "r \<noteq> None \<and> r = st_last st")
  case True
  then obtain k where "r = Some k" "st_last st = Some k" by auto
  moreover from this assms have "idb_queue (st_idb st) name = Some (Json (queueText (D k)))"
    by (simp add: storage_ok_def)
  ultimately show ?thesis by (simp add: setItem_def getItem_def Let_def)
next
  case False
  then show ?thesis by (cases r) (auto simp: setItem_def getItem_def Let_def)
qed

section \<open>The session after a restart\<close>

lemma jsonNum_denull: "n \<noteq> NaN \<Longrightarrow> denull (jsonNum n) = n"
  by (cases n) (simp_all add: denull_def jsonNum_def)

lemma jsonNum_None [simp]: "jsonNum n = None \<longleftrightarrow> n = NaN" "None = jsonNum n \<longleftrightarrow> n = NaN"
  by (cases n; simp add: jsonNum_def)+

lemma map_denull: "NaN \<notin> set xs \<Longrightarrow> map denull (map jsonNum xs) = xs"
  by (induction xs) (auto simp: jsonNum_denull)

text \<open>The slice that is saved of a session that resumes its queue, and the state made of it.\<close>

definition resumedSlice :: "store \<Rightarrow> slice" where
  "resumedSlice s = (Some (jsonPlayer (fst (partialize True s))), Some (queueText (queue s)))"

lemma resumedSlice_no_nulls:
  "p_index (player s) \<noteq> NaN \<Longrightarrow> NaN \<notin> set (q_shuffled (queue s)) \<Longrightarrow> no_nulls (resumedSlice s)"
  by (auto simp: no_nulls_def resumedSlice_def jsonPlayer_def partialize_def savePlayer_def keepKey_def
      jsonQueue_def cleanQueueForPersistence_def asSaved_def Let_def)

lemma overlay_resumed:
  assumes "p_index (player s) \<noteq> NaN" and "NaN \<notin> set (q_shuffled (queue s))"
  shows "player (overlay (initialState nid) (resumedSlice s)) =
      (player s)\<lparr>p_playerNum := One, p_seekToTimestamp := (0, nid), p_status := PAUSED\<rparr>"
    and "queue (overlay (initialState nid) (resumedSlice s)) =
      (queue s)\<lparr>q_songs := filter (\<lambda>(k, v). k \<in> set (q_default (queue s))) (q_songs (queue s))\<rparr>"
  using map_denull [OF assms(2)] jsonNum_denull [OF assms(1)]
  by (simp_all add: overlay_def overlayPlayer_def resumedSlice_def jsonPlayer_def partialize_def savePlayer_def
      keepKey_def jsonQueue_def cleanQueueForPersistence_def asSaved_def initialState_def Let_def)

lemma map_of_filter_keys:
  "k \<in> K \<Longrightarrow> map_of (filter (\<lambda>(k, v). k \<in> K) m) k = map_of m k"
  by (induction m) auto

lemma map_filter_cong: "(\<And>x. x \<in> set xs \<Longrightarrow> f x = g x) \<Longrightarrow> List.map_filter f xs = List.map_filter g xs"
  by (induction xs) (auto simp: map_filter_simps split: option.splits)

lemma queueItems_clean:
  "q_default (queue t) = q_default (queue s) \<Longrightarrow>
   q_songs (queue t) = filter (\<lambda>(k, v). k \<in> set (q_default (queue s))) (q_songs (queue s)) \<Longrightarrow>
     queueItems t = queueItems s"
  unfolding queueItems_def by (auto intro!: map_filter_cong simp: map_of_filter_keys)

text \<open>Two states of the store that show and play the same.\<close>

definition same_session :: "store \<Rightarrow> store \<Rightarrow> bool" where
  "same_session s t = (queueItems t = queueItems s \<and> playOrder t = playOrder s
     \<and> getCurrentSong t = getCurrentSong s
     \<and> (player t)\<lparr>p_playerNum := p_playerNum (player s), p_seekToTimestamp := p_seekToTimestamp (player s),
         p_status := p_status (player s)\<rparr> = player s)"

lemma same_session_intro:
  assumes "player t = (player s)\<lparr>p_playerNum := n, p_seekToTimestamp := x, p_status := y\<rparr>"
    and "queue t = (queue s)\<lparr>q_songs := filter (\<lambda>(k, v). k \<in> set (q_default (queue s))) (q_songs (queue s))\<rparr>"
  shows "same_session s t"
proof -
  have "isShuffleEnabled t = isShuffleEnabled s" by (simp add: isShuffleEnabled_def assms)
  moreover have "queueItems t = queueItems s" by (rule queueItems_clean) (simp_all add: assms)
  ultimately show ?thesis
    by (simp add: same_session_def playOrder_def getCurrentSong_def assms)
qed

text \<open>What the storage reads, without the songs that are not queued.\<close>

definition cleanItem :: "slice \<times> int option \<Rightarrow> slice \<times> int option" where
  "cleanItem item = ((fst (fst item), map_option cleanQueueForPersistence (snd (fst item))), snd item)"

section \<open>Properties\<close>

text \<open>
  C15: The session survives a restart. However the earlier saves went, failed or not, once the state has
  been saved, starting from the database shows the same queue in the same playback order, with the same
  current song and settings, paused and with the first web player in use. The index and the shuffled
  positions must be numbers.
\<close>

theorem session_round_trip:
  assumes "p_index (player s) \<noteq> NaN" and "NaN \<notin> set (q_shuffled (queue s))" and "D r = queue s"
    and "merges_initial lodashMerge" and "st_last st = None"
    and saved: "st' = storage_step D name (Op_set True True (fst (partialize True s)) (Some r) (Some 4))
      (fold (storage_step D name) ops st)"
    and started: "t = rehydrate lodashMerge nid (map_option fst (getItem name (st_idb st')))"
  shows "same_session s t \<and> p_status (player t) = PAUSED \<and> p_playerNum (player t) = One \<and> hydrated t"
proof -
  have "storage_ok D name (fold (storage_step D name) ops st)"
    by (rule persisted.run_inv) (simp add: storage_ok_def assms(5))
  from getItem_after_set [OF this, of "fst (partialize True s)" "Some r" "Some 4"] have t: "t = (overlay (initialState nid) (resumedSlice s))\<lparr>hydrated := True\<rparr>"
    using assms(4) resumedSlice_no_nulls [OF assms(1,2)]
    by (simp add: started saved rehydrate_def merges_initial_def resumedSlice_def assms(3))
  note ov = overlay_resumed [OF assms(1,2), of nid]
  have "same_session s t" by (rule same_session_intro) (simp_all add: t ov)
  then show ?thesis by (simp add: t ov)
qed

lemma overlay_merges: "merges_initial overlay"
  by (simp add: merges_initial_def)

theorem session_round_trip_witness:
  "same_session (exampleStore Shuffle_TRACK Repeat_ALL (Num 1))
     (rehydrate overlay ''n'' (map_option fst (getItem ''player-store'' (st_idb (storage_step
       (\<lambda>k. queue (exampleStore Shuffle_TRACK Repeat_ALL (Num 1))) ''player-store''
       (Op_set True True (fst (partialize True (exampleStore Shuffle_TRACK Repeat_ALL (Num 1)))) (Some 7) (Some 4))
       (fold (storage_step (\<lambda>k. queue (exampleStore Shuffle_TRACK Repeat_ALL (Num 1))) ''player-store'')
          [Op_set True False (fst (partialize True (exampleStore Shuffle_TRACK Repeat_ALL (Num 0)))) (Some 7) (Some 4)]
          \<lparr>st_idb = \<lparr>idb_main = (\<lambda>_. None), idb_queue = (\<lambda>_. None)\<rparr>, st_last = None\<rparr>))))))"
  by (rule session_round_trip [OF _ _ _ overlay_merges _ refl refl, THEN conjunct1]) simp_all

text \<open>
  Without the setting to resume the queue, a restart keeps the settings of the player and starts with an
  empty queue and no current song, also when a queue had been saved before.
\<close>

theorem settings_survive_without_queue:
  assumes "merges_initial lodashMerge"
    and saved: "st' = storage_step D name (Op_set True True (fst (partialize False s)) None v) st"
    and started: "t = rehydrate lodashMerge nid (map_option fst (getItem name (st_idb st')))"
  shows "queueItems t = [] \<and> getCurrentSong t = None
    \<and> player t = (player s)\<lparr>p_index := Num (-1), p_playerNum := One, p_seekToTimestamp := (0, nid), p_status := PAUSED\<rparr>"
proof -
  let ?x = "(Some (jsonPlayer (fst (partialize False s))), None) :: slice"
  have "no_nulls ?x"
    by (simp add: no_nulls_def jsonPlayer_def partialize_def savePlayer_def keepKey_def)
  then have t: "t = (overlay (initialState nid) ?x)\<lparr>hydrated := True\<rparr>"
    using assms(1) by (simp add: started saved setItem_def getItem_def rehydrate_def merges_initial_def Let_def)
  have "player (overlay (initialState nid) ?x) =
      (player s)\<lparr>p_index := Num (-1), p_playerNum := One, p_seekToTimestamp := (0, nid), p_status := PAUSED\<rparr>"
    "queue (overlay (initialState nid) ?x) = queue (initialState nid)"
    by (simp_all add: overlay_def overlayPlayer_def jsonPlayer_def partialize_def savePlayer_def keepKey_def
        initialState_def)
  then show ?thesis
    by (simp add: t queueItems_def initialState_def map_filter_simps getCurrentSong_def isShuffleEnabled_def)
qed

theorem settings_survive_without_queue_witness:
  "queueItems (rehydrate overlay ''n'' (map_option fst (getItem ''p'' (st_idb (storage_step
     (\<lambda>k. queue (initialState ''n'')) ''p'' (Op_set True True (fst (partialize False (initialState ''n''))) None None)
     \<lparr>st_idb = \<lparr>idb_main = (\<lambda>_. None), idb_queue = (\<lambda>_. None)\<rparr>, st_last = None\<rparr>))))) = []"
  by (rule settings_survive_without_queue [OF overlay_merges refl refl, THEN conjunct1])

text \<open>
  C25: The migration of the saved queue loses nothing, whichever of its two writes fails: afterwards the
  storage reads what it read before, except that songs which are not queued may be gone. When both
  writes succeed, the main document no longer holds a queue.
\<close>

theorem interrupted_migration_keeps_session:
  "getItem name (migratePlayerStorePersist name okQueue okMain b)
       \<in> {getItem name b, map_option cleanItem (getItem name b)}
    \<and> (case idb_main (migratePlayerStorePersist name True True b) name of
         Some (Json d) \<Rightarrow> md_queue d = None | _ \<Rightarrow> True)"
  by (auto simp: migratePlayerStorePersist_def getItem_def cleanItem_def Let_def split: option.splits stored_text.splits)

end
