(* ===== verification/Playback.thy ===== *)
theory Playback
  imports PlayOrder
begin

text \<open>
  The transport: what is announced as the next song, what becomes current when a track ends, and
  the index after next, previous and a run of track ends. The abstract view is a position in the
  playback order of \<^verbatim>\<open>PlayOrder\<close>.
\<close>

section \<open>The end of a track\<close>

definition playbackLength :: "store \<Rightarrow> nat" where
  "playbackLength s =
     (if isShuffleEnabled s then length (q_shuffled (queue s)) else length (queueItems s))"

definition autoNextIndex :: "store \<Rightarrow> jsnum \<times> bool" where
  "autoNextIndex s = calculateNextIndex (p_index (player s)) (playbackLength s) (p_repeat (player s))"

lemma mediaAutoNext_player:
  "p_index (player (w_store (fst (mediaAutoNext w)))) = fst (autoNextIndex (w_store w))"
  "p_repeat (player (w_store (fst (mediaAutoNext w)))) = p_repeat (player (w_store w))"
  "p_shuffle (player (w_store (fst (mediaAutoNext w)))) = p_shuffle (player (w_store w))"
  "p_status (player (w_store (fst (mediaAutoNext w)))) =
     (if snd (autoNextIndex (w_store w)) \<or> p_pauseOnNextSongEnd (player (w_store w))
      then PAUSED else PLAYING)"
  "p_pauseOnNextSongEnd (player (w_store (fst (mediaAutoNext w)))) = False"
  unfolding mediaAutoNext_def Let_def
  by (simp_all add: case_prod_beta if_distrib [of w_store] if_distrib [of player]
      autoNextIndex_def playbackLength_def emit_def setTimestampStore_def)

lemma autoNextIndex_unfold:
  "autoNextIndex s = (ni, stop) \<Longrightarrow>
     calculateNextIndex (p_index (player s))
       (if isShuffleEnabled s then length (q_shuffled (queue s)) else length (queueItems s))
       (p_repeat (player s)) = (ni, stop)"
  by (simp add: autoNextIndex_def playbackLength_def)

lemma mediaAutoNext_num:
  "p_playerNum (player (w_store (fst (mediaAutoNext w)))) =
     (if (p_repeat (player (w_store w)) = Repeat_ONE
            \<and> js_eq (fst (autoNextIndex (w_store w))) (p_index (player (w_store w))))
          \<or> snd (autoNextIndex (w_store w)) \<or> p_pauseOnNextSongEnd (player (w_store w))
      then p_playerNum (player (w_store w)) else otherPlayer (p_playerNum (player (w_store w))))"
proof -
  obtain ni stop where e: "autoNextIndex (w_store w) = (ni, stop)" by (rule prod.exhaust)
  note c = autoNextIndex_unfold [OF e]
  show ?thesis
    unfolding mediaAutoNext_def Let_def getQueueOrder_items c prod.case
    by (simp add: e if_distrib [of w_store] if_distrib [of player] emit_def setTimestampStore_def
        case_prod_beta)
qed

lemma mediaAutoNext_shuffle [simp]:
  "isShuffleEnabled (w_store (fst (mediaAutoNext w))) = isShuffleEnabled (w_store w)"
  "queueItems (w_store (fst (mediaAutoNext w))) = queueItems (w_store w)"
  by (simp_all add: isShuffleEnabled_def mediaAutoNext_player queueItems_def)

lemma mediaAutoNext_data:
  "snd (mediaAutoNext w) =
     (getPlayerData (w_store (fst (mediaAutoNext w))))\<lparr>d_queueLength := length (queueItems (w_store w))\<rparr>"
proof -
  obtain ni stop where e: "autoNextIndex (w_store w) = (ni, stop)" by (rule prod.exhaust)
  note c = autoNextIndex_unfold [OF e]
  show ?thesis
    unfolding getPlayerData_def Let_def mediaAutoNext_shuffle mediaAutoNext_frame
      mediaAutoNext_player mediaAutoNext_num getQueue_None e fst_conv snd_conv
    unfolding mediaAutoNext_def Let_def getQueueOrder_items c prod.case
    by (simp add: case_prod_beta)
qed

lemma playOrder_mediaAutoNext [simp]:
  "playOrder (w_store (fst (mediaAutoNext w))) = playOrder (w_store w)"
  "order_ok (w_store (fst (mediaAutoNext w))) = order_ok (w_store w)"
  by (simp_all add: playOrder_def order_ok_def)

lemma playbackLength_playOrder:
  "store_ok s \<Longrightarrow> order_ok s \<Longrightarrow> playbackLength s = length (playOrder s)"
  by (simp add: playbackLength_def length_playOrder order_ok_length length_queueItems)

section \<open>The position after a track end\<close>

text \<open>The position that follows a position of a playback order, and whether playback stops.\<close>

definition next_pos :: "nat \<Rightarrow> PlayerRepeat \<Rightarrow> nat \<Rightarrow> nat" where
  "next_pos n rep i =
     (if rep = Repeat_ONE then i else if Suc i = n then (if rep = Repeat_ALL then 0 else i) else Suc i)"

lemma calculateNextIndex_pos:
  "i < n \<Longrightarrow> calculateNextIndex (Num (int i)) n rep =
     (Num (int (next_pos n rep i)), rep = Repeat_NONE \<and> Suc i = n)"
  by (cases rep) (auto simp: calculateNextIndex_def next_pos_def Let_def)

lemma next_pos_less: "i < n \<Longrightarrow> next_pos n rep i < n"
  by (auto simp: next_pos_def)

lemma next_pos_all: "i < n \<Longrightarrow> next_pos n Repeat_ALL i = Suc i mod n"
  by (auto simp: next_pos_def)

lemma next_pos_none: "i < n \<Longrightarrow> next_pos n Repeat_NONE i = min (Suc i) (n - 1)"
  by (auto simp: next_pos_def)

text \<open>A store that plays position \<open>i\<close> of a playback order of length \<open>n\<close>.\<close>

definition plays :: "nat \<Rightarrow> nat \<Rightarrow> store \<Rightarrow> bool" where
  "plays n i s = (store_ok s \<and> order_ok s \<and> n = length (playOrder s) \<and> i < n
     \<and> p_index (player s) = Num (int i))"

lemma plays_index_ok: "plays n i s \<Longrightarrow> index_ok s"
  unfolding plays_def index_ok_def by (elim conjE) (simp add: length_playOrder)

lemma plays_exists:
  assumes "store_ok s" and "order_ok s" and "index_ok s"
  obtains i where "plays (length (playOrder s)) i s"
proof -
  obtain k where "p_index (player s) = Num k" "0 \<le> k" "k < int (length (q_default (queue s)))"
    using assms(3) by (rule index_okE)
  then have "plays (length (playOrder s)) (nat k) s"
    using assms by (simp add: plays_def length_playOrder)
  then show thesis by (rule that)
qed

lemma plays_currentId: "plays n i s \<Longrightarrow> currentId s = Some (playOrder s ! i)"
  by (simp add: plays_def currentId_playOrder)

lemma plays_autoNextIndex:
  "plays n i s \<Longrightarrow> autoNextIndex s = (Num (int (next_pos n (p_repeat (player s)) i)),
     p_repeat (player s) = Repeat_NONE \<and> Suc i = n)"
  unfolding plays_def autoNextIndex_def
  by (simp add: playbackLength_playOrder calculateNextIndex_pos)

lemma plays_mediaAutoNext:
  assumes "plays n i (w_store w)"
  shows "plays n (next_pos n (p_repeat (player (w_store w))) i) (w_store (fst (mediaAutoNext w)))"
proof -
  have "store_ok (w_store (fst (mediaAutoNext w)))"
    using assms store_ok_same_queue [OF mediaAutoNext_frame(1)] by (simp add: plays_def)
  then show ?thesis
    using assms unfolding plays_def
    by (simp add: mediaAutoNext_player next_pos_less plays_autoNextIndex [OF assms])
qed

lemma plays_mediaAutoNext_status:
  assumes "plays n i (w_store w)"
  shows "p_status (player (w_store (fst (mediaAutoNext w)))) =
    (if (p_repeat (player (w_store w)) = Repeat_NONE \<and> Suc i = n)
        \<or> p_pauseOnNextSongEnd (player (w_store w)) then PAUSED else PLAYING)"
  by (simp add: mediaAutoNext_player plays_autoNextIndex [OF assms])

text \<open>The track ends, again and again.\<close>

abbreviation trackEnds :: "nat \<Rightarrow> world \<Rightarrow> world" where
  "trackEnds k \<equiv> (\<lambda>w. fst (mediaAutoNext w)) ^^ k"

lemma trackEnds_frame:
  "p_repeat (player (w_store (trackEnds k w))) = p_repeat (player (w_store w))"
  "playOrder (w_store (trackEnds k w)) = playOrder (w_store w)"
  by (induction k) (simp_all add: mediaAutoNext_player)

lemma plays_trackEnds:
  "plays n i (w_store w) \<Longrightarrow>
     plays n ((next_pos n (p_repeat (player (w_store w))) ^^ k) i) (w_store (trackEnds k w))"
proof (induction k)
  case (Suc k)
  then show ?case
    using plays_mediaAutoNext [of n _ "trackEnds k w"] by (simp add: trackEnds_frame)
qed simp

lemma next_pos_all_iterate: "i < n \<Longrightarrow> (next_pos n Repeat_ALL ^^ k) i = (i + k) mod n"
proof (induction k)
  case (Suc k)
  then have "(next_pos n Repeat_ALL ^^ Suc k) i = next_pos n Repeat_ALL ((i + k) mod n)" by simp
  also have "\<dots> = Suc ((i + k) mod n) mod n" using Suc.prems by (intro next_pos_all) simp
  also have "\<dots> = (i + Suc k) mod n" by (simp add: mod_Suc_eq)
  finally show ?case .
qed simp

lemma next_pos_none_iterate: "i < n \<Longrightarrow> (next_pos n Repeat_NONE ^^ k) i = min (i + k) (n - 1)"
proof (induction k)
  case (Suc k)
  then have "(next_pos n Repeat_NONE ^^ Suc k) i = next_pos n Repeat_NONE (min (i + k) (n - 1))"
    by simp
  also have "\<dots> = min (Suc (min (i + k) (n - 1))) (n - 1)"
    using Suc.prems by (intro next_pos_none) auto
  also have "\<dots> = min (i + Suc k) (n - 1)" by (simp add: min_def)
  finally show ?case .
qed simp

lemma next_pos_one_iterate: "(next_pos n Repeat_ONE ^^ k) i = i"
  by (induction k) (simp_all add: next_pos_def)

lemma getPlayerData_plays:
  assumes "plays n i s"
  shows "map_option uniqueId (d_currentSong (getPlayerData s)) = Some (playOrder s ! i)"
    and "map_option uniqueId (d_nextSong (getPlayerData s)) =
      next_id (playOrder s) (int i) (p_repeat (player s))"
    and "map_option uniqueId (d_previousSong (getPlayerData s)) =
      prev_id (isShuffleEnabled s) (playOrder s) (int i) (p_repeat (player s))"
proof -
  have ok: "store_ok s" "order_ok s" "index_ok s"
    using assms plays_index_ok [OF assms] by (auto simp: plays_def)
  have p: "p_index (player s) = Num (int i)" "i < length (playOrder s)"
    using assms by (auto simp: plays_def)
  show "map_option uniqueId (d_currentSong (getPlayerData s)) = Some (playOrder s ! i)"
    "map_option uniqueId (d_nextSong (getPlayerData s)) =
      next_id (playOrder s) (int i) (p_repeat (player s))"
    "map_option uniqueId (d_previousSong (getPlayerData s)) =
      prev_id (isShuffleEnabled s) (playOrder s) (int i) (p_repeat (player s))"
    using getPlayerData_ids [OF ok] p by (metis jsnum.inject nat_int js_nth_Num of_nat_0_le_iff of_nat_less_iff)+
qed

lemma next_id_next_pos:
  "i < length order \<Longrightarrow> rep \<noteq> Repeat_NONE \<or> Suc i < length order \<Longrightarrow>
     next_id order (int i) rep = Some (order ! next_pos (length order) rep i)"
  by (cases rep) (auto simp: next_id_def next_pos_def nat_add_distrib)

text \<open>What the active and the waiting player hold.\<close>

lemma getPlayerData_players:
  "d_num (getPlayerData s) = p_playerNum (player s)"
  "d_status (getPlayerData s) = p_status (player s)"
  "(if p_playerNum (player s) = One then d_player1 (getPlayerData s) else d_player2 (getPlayerData s))
     = d_currentSong (getPlayerData s)"
  "p_repeat (player s) \<noteq> Repeat_ONE \<Longrightarrow>
     (if p_playerNum (player s) = One then d_player2 (getPlayerData s) else d_player1 (getPlayerData s))
       = d_nextSong (getPlayerData s)"
  by (cases "p_playerNum (player s)";
      simp add: getPlayerData_def getDualPlayerSongs_def case_prod_beta Let_def)+

section \<open>Properties of the transport\<close>

text \<open>
  C1: The data that \<open>getPlayerData\<close> hands to the audio engines refines the playback order: at a
  position in range, the current, next and previous song are those of the order, wrapped round as
  the repeat mode says. (The previous song wraps round at the first position only under shuffle.)
\<close>

theorem player_data_refines_play_order:
  assumes "store_ok s" and "order_ok s" and "index_ok s"
  shows "\<exists>i < length (playOrder s). p_index (player s) = Num (int i)
    \<and> map_option uniqueId (d_currentSong (getPlayerData s)) = Some (playOrder s ! i)
    \<and> map_option uniqueId (d_nextSong (getPlayerData s)) =
        next_id (playOrder s) (int i) (p_repeat (player s))
    \<and> map_option uniqueId (d_previousSong (getPlayerData s)) =
        prev_id (isShuffleEnabled s) (playOrder s) (int i) (p_repeat (player s))"
proof -
  obtain i where i: "plays (length (playOrder s)) i s" using plays_exists [OF assms] .
  then show ?thesis using getPlayerData_plays [OF i] by (auto simp: plays_def intro!: exI [of _ i])
qed

theorem player_data_refines_play_order_witness:
  "\<exists>i < length (playOrder (exampleStore Shuffle_TRACK Repeat_ALL (Num 2))).
     p_index (player (exampleStore Shuffle_TRACK Repeat_ALL (Num 2))) = Num (int i)
    \<and> map_option uniqueId (d_currentSong (getPlayerData (exampleStore Shuffle_TRACK Repeat_ALL (Num 2))))
       = Some (playOrder (exampleStore Shuffle_TRACK Repeat_ALL (Num 2)) ! i)"
  using player_data_refines_play_order
      [OF exampleStore_ok exampleStore_order exampleStore_index [of 2 Shuffle_TRACK Repeat_ALL]]
  by auto

text \<open>
  \<open>mediaAutoNext\<close> returns exactly the player data of the store that it leaves behind, although it
  computes them from the snapshot it took before the update.
\<close>

theorem mediaAutoNext_returns_player_data:
  assumes "store_ok (w_store w)"
  shows "snd (mediaAutoNext w) = getPlayerData (w_store (fst (mediaAutoNext w)))"
proof -
  have "d_queueLength (getPlayerData (w_store (fst (mediaAutoNext w)))) = length (queueItems (w_store w))"
    by (simp add: getPlayerData_def Let_def case_prod_beta length_queueItems [OF assms])
  then show ?thesis unfolding mediaAutoNext_data by simp
qed

theorem mediaAutoNext_returns_player_data_witness:
  "snd (mediaAutoNext (exampleWorld (exampleStore Shuffle_NONE Repeat_ALL (Num 2)))) =
     getPlayerData (w_store (fst (mediaAutoNext (exampleWorld (exampleStore Shuffle_NONE Repeat_ALL (Num 2))))))"
  by (rule mediaAutoNext_returns_player_data) (simp add: exampleStore_ok)

text \<open>
  C2: The song that \<open>getPlayerData\<close> announces as the next one is the song that is current once the
  track has ended, in every repeat and shuffle mode, unless the queue has come to its end.
\<close>

theorem announced_song_plays_next:
  assumes "store_ok (w_store w)" and "order_ok (w_store w)" and "index_ok (w_store w)"
    and "d_nextSong (getPlayerData (w_store w)) = Some song"
  shows "currentId (w_store (fst (mediaAutoNext w))) = Some (uniqueId song)"
proof -
  let ?s = "w_store w" and ?n = "length (playOrder (w_store w))" and ?rep = "p_repeat (player (w_store w))"
  obtain i where i: "plays ?n i ?s" using plays_exists [OF assms(1-3)] .
  have in_range: "i < ?n" using i by (simp add: plays_def)
  have "next_id (playOrder ?s) (int i) ?rep = Some (uniqueId song)"
    using getPlayerData_plays(2) [OF i] assms(4) by simp
  moreover from this have "?rep \<noteq> Repeat_NONE \<or> Suc i < ?n"
    by (auto simp: next_id_def split: if_splits)
  ultimately have "playOrder ?s ! next_pos ?n ?rep i = uniqueId song"
    using next_id_next_pos [OF in_range] by simp
  then show ?thesis using plays_currentId [OF plays_mediaAutoNext [OF i]] by simp
qed

theorem announced_song_plays_next_witness:
  "currentId (w_store (fst (mediaAutoNext (exampleWorld (exampleStore Shuffle_TRACK Repeat_NONE (Num 1))))))
     = Some (uniqueId (toQueueSong ''u2'' (exampleSong ''b'')))"
proof (rule announced_song_plays_next)
  show "d_nextSong (getPlayerData (w_store (exampleWorld (exampleStore Shuffle_TRACK Repeat_NONE (Num 1)))))
      = Some (toQueueSong ''u2'' (exampleSong ''b''))"
    unfolding exampleWorld_simps by code_simp
qed (simp_all add: exampleStore_ok exampleStore_order exampleStore_index)

lemma idle_player_takes_over:
  assumes "store_ok (w_store w)" and "order_ok (w_store w)" and "index_ok (w_store w)"
    and "p_repeat (player (w_store w)) \<noteq> Repeat_ONE"
    and "d_status (snd (mediaAutoNext w)) = PLAYING"
  shows "d_num (snd (mediaAutoNext w)) = otherPlayer (d_num (getPlayerData (w_store w)))
    \<and> map_option uniqueId (if d_num (snd (mediaAutoNext w)) = One
          then d_player1 (snd (mediaAutoNext w)) else d_player2 (snd (mediaAutoNext w))) =
        map_option uniqueId (if d_num (snd (mediaAutoNext w)) = One
          then d_player1 (getPlayerData (w_store w)) else d_player2 (getPlayerData (w_store w)))"
proof -
  let ?s = "w_store w" and ?n = "length (playOrder (w_store w))" and ?rep = "p_repeat (player (w_store w))"
  let ?t = "w_store (fst (mediaAutoNext w))"
  let ?held = "\<lambda>d. if p_playerNum (player ?t) = One then d_player1 d else d_player2 d"
  obtain i where i: "plays ?n i ?s" using plays_exists [OF assms(1-3)] .
  have r: "i < ?n" using i by (simp add: plays_def)
  have dn: "d_num (snd (mediaAutoNext w)) = p_playerNum (player ?t)"
    "d_status (snd (mediaAutoNext w)) = p_status (player ?t)"
    by (simp_all add: mediaAutoNext_data getPlayerData_players)
  have go: "\<not> (?rep = Repeat_NONE \<and> Suc i = ?n)" "\<not> p_pauseOnNextSongEnd (player ?s)"
    using assms(5) by (auto simp: dn plays_mediaAutoNext_status [OF i] split: if_splits)
  have num: "p_playerNum (player ?t) = otherPlayer (p_playerNum (player ?s))"
    using go assms(4) by (auto simp: mediaAutoNext_num plays_autoNextIndex [OF i])
  have "?held (snd (mediaAutoNext w)) = d_currentSong (getPlayerData ?t)"
    unfolding mediaAutoNext_data using getPlayerData_players(3) [of ?t]
    by (cases "p_playerNum (player ?t)") simp_all
  moreover have "?held (getPlayerData ?s) = d_nextSong (getPlayerData ?s)"
    unfolding num using getPlayerData_players(4) [OF assms(4)]
    by (cases "p_playerNum (player ?s)") (simp_all add: otherPlayer_def)
  moreover have "map_option uniqueId (d_currentSong (getPlayerData ?t)) =
      map_option uniqueId (d_nextSong (getPlayerData ?s))"
    using getPlayerData_plays(1) [OF plays_mediaAutoNext [OF i]] getPlayerData_plays(2) [OF i]
      next_id_next_pos [OF r, of ?rep] go r by auto
  ultimately show ?thesis using num
    by (simp add: dn getPlayerData_players(1))
qed

text \<open>
  With two web players, the one that does not play holds the announced song, and when the track
  ends and playback goes on, that player takes over: the active player changes, and its song is the
  one it had been given before.
\<close>

theorem preloaded_player_takes_over:
  assumes "store_ok (w_store w)" and "order_ok (w_store w)" and "index_ok (w_store w)"
    and "p_repeat (player (w_store w)) \<noteq> Repeat_ONE"
    and "d_status (snd (mediaAutoNext w)) = PLAYING"
  shows "d_num (snd (mediaAutoNext w)) = otherPlayer (d_num (getPlayerData (w_store w)))
    \<and> map_option uniqueId (if d_num (snd (mediaAutoNext w)) = One
          then d_player1 (snd (mediaAutoNext w)) else d_player2 (snd (mediaAutoNext w))) =
        map_option uniqueId (if d_num (snd (mediaAutoNext w)) = One
          then d_player1 (getPlayerData (w_store w)) else d_player2 (getPlayerData (w_store w)))"
  using assms by (rule idle_player_takes_over)

theorem preloaded_player_takes_over_witness:
  "d_num (snd (mediaAutoNext (exampleWorld (exampleStore Shuffle_TRACK Repeat_ALL (Num 2))))) =
     otherPlayer (d_num (getPlayerData (w_store (exampleWorld (exampleStore Shuffle_TRACK Repeat_ALL (Num 2))))))"
proof (rule preloaded_player_takes_over [THEN conjunct1])
  show "d_status (snd (mediaAutoNext (exampleWorld (exampleStore Shuffle_TRACK Repeat_ALL (Num 2))))) = PLAYING"
    unfolding mediaAutoNext_data
    by (simp add: getPlayerData_def Let_def case_prod_beta mediaAutoNext_player autoNextIndex_def
        playbackLength_def calculateNextIndex_def)
qed (simp_all add: exampleStore_ok exampleStore_order exampleStore_index)

text \<open>
  C7: With repeat set to all, a run of track ends walks through the playback order in a circle: after
  \<open>k\<close> of them the current song is \<open>k\<close> places further, modulo the length of the order, so every
  song of the queue comes up.
\<close>

theorem repeat_all_cycles:
  assumes "store_ok (w_store w)" and "order_ok (w_store w)"
    and "p_index (player (w_store w)) = Num (int i)" and "i < length (playOrder (w_store w))"
    and "p_repeat (player (w_store w)) = Repeat_ALL"
  shows "currentId (w_store (((\<lambda>w. fst (mediaAutoNext w)) ^^ k) w)) =
    Some (playOrder (w_store w) ! ((i + k) mod length (playOrder (w_store w))))"
proof -
  let ?n = "length (playOrder (w_store w))"
  have p: "plays ?n i (w_store w)" using assms by (simp add: plays_def)
  from plays_currentId [OF plays_trackEnds [OF p, of k]] show ?thesis
    by (simp add: trackEnds_frame assms(5) next_pos_all_iterate [OF assms(4)])
qed

theorem repeat_all_cycles_witness:
  "currentId (w_store (((\<lambda>w. fst (mediaAutoNext w)) ^^ 4)
     (exampleWorld (exampleStore Shuffle_TRACK Repeat_ALL (Num (int 1)))))) = Some ''u2''"
  by (rule trans, rule repeat_all_cycles [where i = 1])
    (simp_all add: exampleStore_ok exampleStore_order exampleStore_playOrder)

text \<open>
  Without repeat, a run of track ends plays each remaining song once and stays on the last one,
  and the player is paused exactly when the end of the last song has been reached.
\<close>

theorem repeat_none_stops_at_end:
  assumes "store_ok (w_store w)" and "order_ok (w_store w)"
    and "p_index (player (w_store w)) = Num (int i)" and "i < length (playOrder (w_store w))"
    and "p_repeat (player (w_store w)) = Repeat_NONE"
    and "\<not> p_pauseOnNextSongEnd (player (w_store w))"
  shows "currentId (w_store (((\<lambda>w. fst (mediaAutoNext w)) ^^ Suc k) w)) =
      Some (playOrder (w_store w) ! min (i + Suc k) (length (playOrder (w_store w)) - 1))
    \<and> (p_status (player (w_store (((\<lambda>w. fst (mediaAutoNext w)) ^^ Suc k) w))) = PAUSED \<longleftrightarrow>
        length (playOrder (w_store w)) \<le> i + Suc k)"
proof -
  let ?n = "length (playOrder (w_store w))"
  have p: "plays ?n i (w_store w)" using assms by (simp add: plays_def)
  have pk: "plays ?n (min (i + k) (?n - 1)) (w_store (trackEnds k w))"
    using plays_trackEnds [OF p, of k] by (simp add: assms(5) next_pos_none_iterate [OF assms(4)])
  have "\<not> p_pauseOnNextSongEnd (player (w_store (trackEnds k w)))"
    using assms(6) by (cases k) (simp_all add: mediaAutoNext_player)
  then have "p_status (player (w_store (trackEnds (Suc k) w))) = PAUSED \<longleftrightarrow> ?n \<le> i + Suc k"
    using plays_mediaAutoNext_status [OF pk] assms(4) by (auto simp: trackEnds_frame assms(5))
  moreover have "currentId (w_store (trackEnds (Suc k) w)) =
      Some (playOrder (w_store w) ! min (i + Suc k) (?n - 1))"
    using plays_currentId [OF plays_trackEnds [OF p, of "Suc k"]]
    by (simp only: trackEnds_frame assms(5) next_pos_none_iterate [OF assms(4)])
  ultimately show ?thesis by simp
qed

theorem repeat_none_stops_at_end_witness:
  "p_status (player (w_store (((\<lambda>w. fst (mediaAutoNext w)) ^^ Suc 1)
     (exampleWorld (exampleStore Shuffle_NONE Repeat_NONE (Num (int 1))))))) = PAUSED"
  by (rule iffD2 [OF repeat_none_stops_at_end [where i = 1, THEN conjunct2]])
    (simp_all add: exampleStore_ok exampleStore_order exampleStore_playOrder)

text \<open>
  \<open>mediaNext\<close> and \<open>mediaPrevious\<close> keep the index inside the queue, whatever the repeat mode, and
  skipping forward and back again returns to the same index wherever the queue does not end.
\<close>

theorem mediaNext_mediaPrevious:
  assumes "store_ok (w_store w)" and "index_ok (w_store w)"
  shows "index_ok (w_store (mediaNext w)) \<and> index_ok (w_store (mediaPrevious w))
    \<and> (p_repeat (player (w_store w)) = Repeat_ALL \<or> \<not> isLastTrackInQueue (w_store w) \<longrightarrow>
        p_index (player (w_store (mediaPrevious (mediaNext w)))) = p_index (player (w_store w)))"
proof -
  let ?s = "w_store w"
  obtain i where i: "p_index (player ?s) = Num i" "0 \<le> i" "i < int (length (q_default (queue ?s)))"
    using assms(2) by (rule index_okE)
  note len = length_queueItems [OF assms(1)]
  have items: "queueItems (w_store (mediaNext w)) = queueItems ?s"
    "p_repeat (player (w_store (mediaNext w))) = p_repeat (player ?s)"
    "w_timestamp (mediaNext w) = 0"
    "p_index (player (w_store (mediaNext w))) = mediaNextIndex ?s"
    by (simp_all add: mediaNext_def Let_def emit_def setTimestampStore_def queueItems_def)
  have nxt: "mediaNextIndex ?s = Num (if p_repeat (player ?s) = Repeat_ALL \<and> i = int (length (q_default (queue ?s))) - 1
      then 0 else min (int (length (q_default (queue ?s))) - 1) (i + 1))"
    using i len by (auto simp: mediaNextIndex_def Let_def)
  have "index_ok (w_store (mediaNext w))"
    using i nxt by (auto simp: mediaNext_def Let_def emit_def setTimestampStore_def index_ok_def)
  moreover have "index_ok (w_store (mediaPrevious w))"
    using i len assms(2) by (auto simp: mediaPrevious_def mediaPreviousIndex_def Let_def emit_def
        setTimestampStore_def seekTo_def index_ok_def)
  moreover have "p_index (player (w_store (mediaPrevious (mediaNext w)))) = p_index (player ?s)"
    if "p_repeat (player ?s) = Repeat_ALL \<or> \<not> isLastTrackInQueue ?s"
  proof -
    have "p_index (player (w_store (mediaPrevious (mediaNext w)))) = mediaPreviousIndex (w_store (mediaNext w))"
      by (simp add: mediaPrevious_def [of "mediaNext w"] Let_def emit_def setTimestampStore_def items)
    also have "\<dots> = p_index (player ?s)"
      using that i len unfolding mediaPreviousIndex_def Let_def getQueueOrder_items items nxt
      by (auto simp: isLastTrackInQueue_def)
    finally show ?thesis .
  qed
  ultimately show ?thesis by simp
qed

theorem mediaNext_mediaPrevious_witness:
  "p_index (player (w_store (mediaPrevious (mediaNext
     (exampleWorld (exampleStore Shuffle_NONE Repeat_ALL (Num 2))))))) = Num 2"
  by (rule trans, rule mediaNext_mediaPrevious [THEN conjunct2, THEN conjunct2, rule_format])
    (simp_all add: exampleStore_ok exampleStore_index)

text \<open>
  A divergence between the two readings of "previous" with repeat set to all and shuffle off. At
  the first song \<open>mediaPrevious\<close> goes to the last song of the queue, while the player data and
  hence the user interface say that there is no previous song. (Under shuffle they say the last.)
\<close>

theorem previous_song_missing_at_start:
  assumes "store_ok (w_store w)" and "\<not> isShuffleEnabled (w_store w)"
    and "p_repeat (player (w_store w)) = Repeat_ALL" and "p_index (player (w_store w)) = Num 0"
    and "q_default (queue (w_store w)) \<noteq> []" and "w_timestamp w \<le> 10"
  shows "d_previousSong (getPlayerData (w_store w)) = None
    \<and> currentId (w_store (mediaPrevious w)) = Some (last (q_default (queue (w_store w))))"
proof
  show "d_previousSong (getPlayerData (w_store w)) = None"
    using assms by (simp add: getPlayerData_def Let_def case_prod_beta previousSongAt_def)
  let ?t = "w_store (mediaPrevious w)"
  have t: "queue ?t = queue (w_store w)" "p_shuffle (player ?t) = p_shuffle (player (w_store w))"
    "p_index (player ?t) = Num (int (length (q_default (queue (w_store w)))) - 1)"
    using assms by (simp_all add: mediaPrevious_def mediaPreviousIndex_def Let_def emit_def
        setTimestampStore_def length_queueItems)
  have "\<not> isShuffleEnabled ?t" "store_ok ?t"
    using assms store_ok_same_queue [OF t(1)] by (simp_all add: isShuffleEnabled_def t)
  then show "currentId ?t = Some (last (q_default (queue (w_store w))))"
    using assms(5) by (simp add: currentId_eq currentQueueIndex_def t last_conv_nth nat_diff_distrib
        Suc_le_eq)
qed

theorem previous_song_missing_at_start_witness:
  "d_previousSong (getPlayerData (exampleStore Shuffle_NONE Repeat_ALL (Num 0))) = None"
  using previous_song_missing_at_start
      [of "exampleWorld (exampleStore Shuffle_NONE Repeat_ALL (Num 0))"]
  by (simp add: exampleStore_ok exampleWorld_def initialWorld_def)

end
