(* ===== verification/WebPlayer.thy ===== *)
theory WebPlayer
  imports Playback
begin

text \<open>
  The web player (\<^verbatim>\<open>features/player/audio-player/web-player.tsx\<close> and the engine's handle and effects in
  \<^verbatim>\<open>engine/web-player-engine.tsx\<close>): two audio elements that take turns, the crossfade between them, the
  fades on play and pause, replay gain, and the recovery from media errors. The handlers are closures
  of the last rendering; here they read the store at the time of the event. JavaScript's floating-point
  numbers are real numbers, with the quotients that leave them written out.
\<close>

section \<open>Quotients and easing\<close>

text \<open>A quotient by zero is infinite or NaN; the easing functions clamp their argument first.\<close>

datatype jsfloat = FNaN | FPlus | FMinus | Fin real

definition js_div :: "real \<Rightarrow> real \<Rightarrow> jsfloat" where
  "js_div a b = (if b = 0 then (if 0 < a then FPlus else if a < 0 then FMinus else FNaN) else Fin (a / b))"

definition clamp01 :: "jsfloat \<Rightarrow> real option" where
  "clamp01 t = (case t of FNaN \<Rightarrow> None | FPlus \<Rightarrow> Some 1 | FMinus \<Rightarrow> Some 0 | Fin x \<Rightarrow> Some (max 0 (min 1 x)))"

definition equalPowerEaseIn :: "jsfloat \<Rightarrow> real option" where
  "equalPowerEaseIn t = map_option (\<lambda>clampedT. sin (pi / 2 * clampedT)) (clamp01 t)"

definition equalPowerEaseOut :: "jsfloat \<Rightarrow> real option" where
  "equalPowerEaseOut t = map_option (\<lambda>clampedT. 1 - cos (pi / 2 * clampedT)) (clamp01 t)"

definition exponentialEaseIn :: "jsfloat \<Rightarrow> real option" where
  "exponentialEaseIn t = (let k = 5 in map_option (\<lambda>clampedT. 1 - exp (- k * clampedT)) (clamp01 t))"

definition exponentialEaseOut :: "jsfloat \<Rightarrow> real option" where
  "exponentialEaseOut t =
     (let k = 5; startValue = exp 0; endValue = exp (- k)
      in map_option (\<lambda>clampedT. (exp (- k * clampedT) - endValue) / (startValue - endValue)) (clamp01 t))"

definition linearEase :: "jsfloat \<Rightarrow> real option" where
  "linearEase t = clamp01 t"

definition sCurveEase :: "jsfloat \<Rightarrow> real option" where
  "sCurveEase t = map_option (\<lambda>clampedT. clampedT * clampedT * (3 - 2 * clampedT)) (clamp01 t)"

text \<open>The pair of the fade in and the fade out.\<close>

definition getCrossfadeEasing ::
    "CrossfadeStyle \<Rightarrow> (jsfloat \<Rightarrow> real option) \<times> (jsfloat \<Rightarrow> real option)" where
  "getCrossfadeEasing style =
     (case style of
        EQUAL_POWER \<Rightarrow> (equalPowerEaseIn, equalPowerEaseOut)
      | EXPONENTIAL \<Rightarrow> (exponentialEaseIn, exponentialEaseOut)
      | LINEAR \<Rightarrow> (linearEase, linearEase)
      | S_CURVE \<Rightarrow> (sCurveEase, sCurveEase)
      | _ \<Rightarrow> (equalPowerEaseIn, equalPowerEaseOut))"

section \<open>The engine\<close>

text \<open>
  Per player: the internal volume between 0 and 1, whether the audio element has been told to play, the
  position it was last sought to, and the retries after network errors.
\<close>

record engine =
  e_volume :: "player_num \<Rightarrow> real"
  e_playing :: "player_num \<Rightarrow> bool"
  e_seek :: "player_num \<Rightarrow> rat option"
  e_retries :: "player_num \<Rightarrow> nat"

text \<open>\<open>volume / 100 || 0\<close>: NaN becomes 0.\<close>

definition engineVolume :: "real option \<Rightarrow> real" where
  "engineVolume volume = (case volume of None \<Rightarrow> 0 | Some v \<Rightarrow> v / 100)"

definition setPlayerVolume :: "player_num \<Rightarrow> real option \<Rightarrow> engine \<Rightarrow> engine" where
  "setPlayerVolume n volume e = e\<lparr>e_volume := (e_volume e)(n := engineVolume volume)\<rparr>"

definition engineSetVolume :: "real option \<Rightarrow> engine \<Rightarrow> engine" where
  "engineSetVolume volume e = setPlayerVolume Two volume (setPlayerVolume One volume e)"

definition engineDecreaseVolume :: "real \<Rightarrow> engine \<Rightarrow> engine" where
  "engineDecreaseVolume amount e = e\<lparr>e_volume := (\<lambda>n. max 0 (e_volume e n - amount / 100))\<rparr>"

definition engineIncreaseVolume :: "real \<Rightarrow> engine \<Rightarrow> engine" where
  "engineIncreaseVolume amount e = e\<lparr>e_volume := (\<lambda>n. min 1 (e_volume e n + amount / 100))\<rparr>"

definition elementPlay :: "player_num \<Rightarrow> engine \<Rightarrow> engine" where
  "elementPlay n e = e\<lparr>e_playing := (e_playing e)(n := True)\<rparr>"

definition elementPause :: "player_num \<Rightarrow> engine \<Rightarrow> engine" where
  "elementPause n e = e\<lparr>e_playing := (e_playing e)(n := False)\<rparr>"

definition enginePause :: "engine \<Rightarrow> engine" where
  "enginePause e = elementPause Two (elementPause One e)"

definition enginePlay :: "player_num \<Rightarrow> engine \<Rightarrow> engine" where
  "enginePlay playerNum e = elementPlay playerNum (enginePause e)"

definition elementSeek :: "player_num \<Rightarrow> rat \<Rightarrow> engine \<Rightarrow> engine" where
  "elementSeek n t e = e\<lparr>e_seek := (e_seek e)(n := Some t)\<rparr>"

definition convertToLogVolume :: "real \<Rightarrow> real" where
  "convertToLogVolume linearVolume = linearVolume ^ 2"

section \<open>The state of the component\<close>

text \<open>\<open>isTransitioning\<close> is false, true (gapless), or the name of the player that fades out.\<close>

datatype transition = NotTransitioning | Transitioning | TransitioningFrom player_num

text \<open>A fade that is under way: its ends, the steps, those done, and the status that asked for it.\<close>

record fade =
  fd_start :: real
  fd_end :: real
  fd_steps :: real
  fd_current :: nat
  fd_status :: PlayerStatus

record web_player =
  wp_engine :: engine
  wp_localStatus :: PlayerStatus
  wp_isTransitioning :: transition
  wp_repeatOneProgress :: "player_num \<Rightarrow> real"
  wp_fade :: "fade option"

abbreviation on_engine :: "(engine \<Rightarrow> engine) \<Rightarrow> web_player \<Rightarrow> web_player" where
  "on_engine f p \<equiv> p\<lparr>wp_engine := f (wp_engine p)\<rparr>"

abbreviation storeVolume :: "world \<Rightarrow> real" where
  "storeVolume w \<equiv> of_rat (p_volume (player (w_store w)))"

section \<open>Transitions\<close>

definition crossfadeHandler ::
    "real \<Rightarrow> CrossfadeStyle \<Rightarrow> bool \<Rightarrow> player_num \<Rightarrow> real \<Rightarrow> real \<Rightarrow> bool \<Rightarrow> player_num \<Rightarrow> real
       \<Rightarrow> web_player \<Rightarrow> web_player" where
  "crossfadeHandler crossfadeDuration crossfadeStyle pauseOnNextSongEnd currentPlayerNum currentTime duration
       hasNextSong playerNum volume p =
     (let current = playerNum; nextPlayer = otherPlayer playerNum
      in if \<not> hasNextSong then
           (let p1 = on_engine (elementPause nextPlayer \<circ> setPlayerVolume nextPlayer (Some 0)
                  \<circ> setPlayerVolume current (Some volume)) p
            in if wp_isTransitioning p \<noteq> NotTransitioning then p1\<lparr>wp_isTransitioning := NotTransitioning\<rparr> else p1)
         else if wp_isTransitioning p = NotTransitioning then
           (if 0 < duration \<and> duration - crossfadeDuration < currentTime then
              (if pauseOnNextSongEnd then p
               else (on_engine (elementPlay nextPlayer \<circ> setPlayerVolume nextPlayer (Some 0)) p)
                 \<lparr>wp_isTransitioning := TransitioningFrom playerNum\<rparr>)
            else p)
         else if wp_isTransitioning p \<noteq> TransitioningFrom playerNum \<and> currentPlayerNum \<noteq> playerNum then p
         else
           (let timeLeft = duration - currentTime;
                progress = js_div (crossfadeDuration - timeLeft) crossfadeDuration;
                (easeIn, easeOut) = getCrossfadeEasing crossfadeStyle;
                currentPlayerVolume = map_option (\<lambda>x. (1 - x) * volume) (easeOut progress);
                nextPlayerVolume = map_option (\<lambda>x. x * volume) (easeIn progress)
            in on_engine (setPlayerVolume nextPlayer nextPlayerVolume
                 \<circ> setPlayerVolume current currentPlayerVolume) p))"

definition getDurationPadding :: "bool \<Rightarrow> real" where
  "getDurationPadding isFlac = (if isFlac then 65 / 1000 else 116 / 1000)"

definition gaplessHandler ::
    "bool \<Rightarrow> real \<Rightarrow> real \<Rightarrow> bool \<Rightarrow> bool \<Rightarrow> player_num \<Rightarrow> web_player \<Rightarrow> web_player" where
  "gaplessHandler pauseOnNextSongEnd currentTime duration hasNextSong isFlac nextPlayer p =
     (if \<not> hasNextSong then p
      else if wp_isTransitioning p = NotTransitioning then
        (if duration - 2 < currentTime then p\<lparr>wp_isTransitioning := Transitioning\<rparr> else p)
      else if duration \<le> currentTime + getDurationPadding isFlac then
        (if pauseOnNextSongEnd then p else on_engine (elementPlay nextPlayer) p)
      else p)"

definition handleRepeatOne ::
    "player_num \<Rightarrow> real \<Rightarrow> real \<Rightarrow> world \<times> web_player \<Rightarrow> world \<times> web_player" where
  "handleRepeatOne playerId playedSeconds duration wp =
     (let (w, p) = wp; s = w_store w
      in if p_repeat (player s) \<noteq> Repeat_ONE \<or> duration \<le> 0 \<or> p_playerNum (player s) \<noteq> playerId then (w, p)
         else
           (let lastSeen = wp_repeatOneProgress p playerId;
                p1 = p\<lparr>wp_repeatOneProgress := (wp_repeatOneProgress p)(playerId := playedSeconds)\<rparr>
            in if duration * (85 / 100) < lastSeen \<and> playedSeconds < duration * (15 / 100)
               then (emit (PLAYER_REPEATED (p_index (player s))) (setTimestampStore 0 w), p1)
               else (w, p1)))"

text \<open>The song in a player, as \<open>usePlayerData\<close> gives it.\<close>

definition playerSong :: "player_num \<Rightarrow> store \<Rightarrow> queue_song option" where
  "playerSong n s = (case n of One \<Rightarrow> d_player1 (usePlayerData s) | Two \<Rightarrow> d_player2 (usePlayerData s))"

text \<open>
  \<open>onProgressPlayer1\<close> and \<open>onProgressPlayer2\<close> mirror each other; the duration of an element that has
  none is 0.
\<close>

definition onProgressPlayer ::
    "player_num \<Rightarrow> real \<Rightarrow> real \<Rightarrow> world \<times> web_player \<Rightarrow> world \<times> web_player" where
  "onProgressPlayer n playedSeconds duration wp =
     (let (w, p) = wp; s = w_store w; pl = player s
      in if p_repeat pl = Repeat_ONE then handleRepeatOne n playedSeconds duration (w, p)
         else case p_transitionType pl of
           CROSSFADE \<Rightarrow> (w, crossfadeHandler (of_rat (p_crossfadeDuration pl)) (p_crossfadeStyle pl)
             (p_pauseOnNextSongEnd pl) (p_playerNum pl) playedSeconds duration
             (playerSong (otherPlayer n) s \<noteq> None) n (storeVolume w) p)
         | GAPLESS \<Rightarrow> (w, gaplessHandler (p_pauseOnNextSongEnd pl) playedSeconds duration
             (playerSong (otherPlayer n) s \<noteq> None) False (otherPlayer n) p))"

text \<open>
  \<open>handleOnEndedPlayer1\<close> and \<open>handleOnEndedPlayer2\<close>, as the engine calls them: not for a player
  without a source or that loops, nor for the silent placeholder of less than a second.
\<close>

definition handleOnEndedPlayer :: "player_num \<Rightarrow> world \<times> web_player \<Rightarrow> world \<times> web_player" where
  "handleOnEndedPlayer n wp =
     (let (w, p) = wp;
          volume = storeVolume w;
          w1 = fst (mediaAutoNext w);
          p1 = on_engine (elementPause n) p;
          p2 = (if p_status (player (w_store w1)) = PAUSED then on_engine enginePause p1
                else on_engine (engineSetVolume (Some volume)) p1)
      in (w1, p2\<lparr>wp_isTransitioning := NotTransitioning\<rparr>))"

definition onEndedPlayer :: "player_num \<Rightarrow> real option \<Rightarrow> world \<times> web_player \<Rightarrow> world \<times> web_player" where
  "onEndedPlayer n duration wp =
     (let s = w_store (fst wp); loops = (p_repeat (player s) = Repeat_ONE \<and> p_playerNum (player s) = n)
      in if playerSong n s = None \<or> loops then wp
         else case duration of
           Some d \<Rightarrow> if d \<noteq> 0 \<and> d < 1 then wp else handleOnEndedPlayer n wp
         | None \<Rightarrow> handleOnEndedPlayer n wp)"

section \<open>Fades on play and pause\<close>

definition PLAY_PAUSE_FADE_DURATION :: real where
  "PLAY_PAUSE_FADE_DURATION = 300"

definition PLAY_PAUSE_FADE_INTERVAL :: real where
  "PLAY_PAUSE_FADE_INTERVAL = 10"

text \<open>
  A new fade replaces the one under way, whose promise is then never resolved. A fade to pause keeps
  the local status until it has ended.
\<close>

definition fadeAndSetStatus :: "real \<Rightarrow> real \<Rightarrow> real \<Rightarrow> PlayerStatus \<Rightarrow> web_player \<Rightarrow> web_player" where
  "fadeAndSetStatus startVolume endVolume duration status p =
     (let p1 = on_engine (engineSetVolume (Some startVolume)) p;
          steps = duration / PLAY_PAUSE_FADE_INTERVAL;
          p2 = p1\<lparr>wp_fade := Some \<lparr>fd_start = startVolume, fd_end = endVolume, fd_steps = steps, fd_current = 0,
                 fd_status = status\<rparr>\<rparr>
      in if status = PLAYING then p2\<lparr>wp_localStatus := status\<rparr> else p2)"

text \<open>One call of the interval.\<close>

definition fadeTick :: "web_player \<Rightarrow> web_player" where
  "fadeTick p =
     (case wp_fade p of
        None \<Rightarrow> p
      | Some f \<Rightarrow>
          (let volumeStep = (fd_end f - fd_start f) / fd_steps f;
               currentStep = Suc (fd_current f);
               newVolume = fd_start f + volumeStep * of_nat currentStep;
               p1 = (on_engine (engineSetVolume (Some newVolume)) p)\<lparr>wp_fade := Some (f\<lparr>fd_current := currentStep\<rparr>)\<rparr>
           in if fd_steps f \<le> of_nat currentStep then
                (let p2 = (on_engine (engineSetVolume (Some (fd_end f))) p1)\<lparr>wp_fade := None\<rparr>
                 in if fd_status f = PAUSED
                    then on_engine (engineSetVolume (Some (fd_start f))) (p2\<lparr>wp_localStatus := PAUSED\<rparr>)
                    else p2)
              else p1))"

section \<open>Player events\<close>

text \<open>What a pause or a seek during a crossfade does: only the active player stays audible.\<close>

definition resetCrossfade :: "player_num \<Rightarrow> real \<Rightarrow> web_player \<Rightarrow> web_player" where
  "resetCrossfade num volume p =
     on_engine (elementPause (otherPlayer num) \<circ> setPlayerVolume (otherPlayer num) (Some 0)
       \<circ> setPlayerVolume num (Some volume)) p"

definition onCurrentSongChange :: "web_player \<Rightarrow> web_player" where
  "onCurrentSongChange p = p\<lparr>wp_isTransitioning := NotTransitioning\<rparr>"

definition onPlayerSeekToTimestamp :: "rat \<Rightarrow> world \<Rightarrow> web_player \<Rightarrow> web_player" where
  "onPlayerSeekToTimestamp timestamp w p =
     (let pl = player (w_store w); num = p_playerNum pl;
          p1 = p\<lparr>wp_isTransitioning := NotTransitioning\<rparr>;
          p2 = (if wp_isTransitioning p \<noteq> NotTransitioning \<and> p_transitionType pl = CROSSFADE
                then resetCrossfade num (storeVolume w) p1 else p1)
      in on_engine (elementSeek num timestamp) p2)"

definition onPlayerStatus :: "bool \<Rightarrow> PlayerStatus \<Rightarrow> world \<Rightarrow> web_player \<Rightarrow> web_player" where
  "onPlayerStatus audioFadeOnStatusChange status w p =
     (let pl = player (w_store w); num = p_playerNum pl; volume = storeVolume w;
          p1 = p\<lparr>wp_isTransitioning := NotTransitioning\<rparr>;
          p2 = (if status = PAUSED \<and> wp_isTransitioning p \<noteq> NotTransitioning \<and> p_transitionType pl = CROSSFADE
                then resetCrossfade num volume p1 else p1)
      in if audioFadeOnStatusChange then
           (if status = PAUSED then fadeAndSetStatus volume 0 PLAY_PAUSE_FADE_DURATION PAUSED p2
            else fadeAndSetStatus 0 volume PLAY_PAUSE_FADE_DURATION PLAYING p2)
         else (on_engine (engineSetVolume (Some volume)) p2)\<lparr>wp_localStatus := status\<rparr>)"

definition onPlayerVolume :: "world \<Rightarrow> web_player \<Rightarrow> web_player" where
  "onPlayerVolume w p = on_engine (engineSetVolume (Some (storeVolume w))) p"

text \<open>The effect of the engine: outside a transition, only the active player may play.\<close>

definition engineEffect :: "player_num \<Rightarrow> web_player \<Rightarrow> web_player" where
  "engineEffect playerNum p =
     (if wp_isTransitioning p \<noteq> NotTransitioning then p
      else if wp_localStatus p \<noteq> PLAYING then on_engine enginePause p
      else on_engine (elementPause (otherPlayer playerNum)) p)"

text \<open>The interval that reports the position of the active element, \<open>Number(currentTime.toFixed(0))\<close>.\<close>

definition reportTimestamp :: "real \<Rightarrow> world \<times> web_player \<Rightarrow> world \<times> web_player" where
  "reportTimestamp currentTime wp =
     (let (w, p) = wp
      in if wp_localStatus p \<noteq> PLAYING then (w, p)
         else (setTimestampStore (of_int \<lfloor>currentTime + 1 / 2\<rfloor>) w, p))"

section \<open>Media errors\<close>

datatype media_error = ERR_ABORTED | ERR_NETWORK | ERR_DECODE | ERR_SRC_NOT_SUPPORTED

definition MAX_NETWORK_RETRIES :: nat where
  "MAX_NETWORK_RETRIES = 5"

text \<open>
  The handler of an element's error event. A retry is a timeout, \<open>retryTimeout\<close>; the flag of the result
  says whether it was set.
\<close>

definition handleOnError ::
    "player_num \<Rightarrow> media_error option \<Rightarrow> world \<times> web_player \<Rightarrow> (world \<times> web_player) \<times> bool" where
  "handleOnError n error wp =
     (let (w, p) = wp;
          isNetworkError = (error = Some ERR_NETWORK \<or> error = Some ERR_SRC_NOT_SUPPORTED);
          tries = e_retries (wp_engine p) n
      in if isNetworkError \<and> tries < MAX_NETWORK_RETRIES then
           ((w, on_engine (\<lambda>e. e\<lparr>e_retries := (e_retries e)(n := Suc tries)\<rparr>) p), True)
         else if error \<noteq> Some ERR_DECODE \<and> \<not> isNetworkError then ((w, p), False)
         else
           (let p1 = on_engine enginePause p
            in if error = Some ERR_DECODE then (handleOnEndedPlayer n (w, p1), False)
               else ((mediaPause w, p1), False)))"

definition retryTimeout :: "player_num \<Rightarrow> web_player \<Rightarrow> web_player" where
  "retryTimeout n p = on_engine (elementPlay n \<circ> enginePause) p"

text \<open>The effect that runs when a source has changed.\<close>

definition resetRetries :: "web_player \<Rightarrow> web_player" where
  "resetRetries p = on_engine (\<lambda>e. e\<lparr>e_retries := (\<lambda>n. 0)\<rparr>) p"

section \<open>Replay gain\<close>

datatype replayGainMode = RG_album | RG_no | RG_track

record gain_settings =
  g_clip :: bool
  g_fallbackDB :: "real option"
  g_mode :: replayGainMode
  g_preampDB :: "real option"

text \<open>The gain and the peak of a song, of its track and of its album.\<close>

record gain_info =
  g_albumGain :: "real option"
  g_trackGain :: "real option"
  g_albumPeak :: "real option"
  g_trackPeak :: "real option"

definition orElse :: "'a option \<Rightarrow> 'a option \<Rightarrow> 'a option" where
  "orElse a b = (case a of None \<Rightarrow> b | Some x \<Rightarrow> Some x)"

definition calculateReplayGain :: "gain_settings \<Rightarrow> gain_info \<Rightarrow> real" where
  "calculateReplayGain playback song =
     (if g_mode playback = RG_no then 1
      else
        (let (gain0, peak0) = (if g_mode playback = RG_track
               then (orElse (g_trackGain song) (g_albumGain song), orElse (g_trackPeak song) (g_albumPeak song))
               else (orElse (g_albumGain song) (g_trackGain song), orElse (g_albumPeak song) (g_trackPeak song)));
             gain = (case gain0 of None \<Rightarrow> g_fallbackDB playback | Some x \<Rightarrow> Some x)
         in if gain0 = None \<and> (gain = None \<or> gain = Some 0) then 1
            else
              (let peak = nullish_or peak0 1;
                   preAmp = nullish_or (g_preampDB playback) 0;
                   expectedGain = 10 powr ((the gain + preAmp) / 20)
               in if g_clip playback then
                    (case js_div 1 peak of Fin x \<Rightarrow> min expectedGain x | _ \<Rightarrow> expectedGain)
                  else expectedGain)))"

text \<open>What is set on the gain node.\<close>

definition appliedGain :: "gain_settings \<Rightarrow> gain_info \<Rightarrow> real" where
  "appliedGain playback song = max 0 (calculateReplayGain playback song)"

section \<open>The component as a state machine\<close>

datatype web_event =
    Ev_progress player_num real real
  | Ev_ended player_num "real option"
  | Ev_songChange
  | Ev_seek rat
  | Ev_status bool PlayerStatus
  | Ev_volume
  | Ev_queueCleared
  | Ev_effect
  | Ev_fadeTick
  | Ev_report real
  | Ev_error player_num "media_error option"
  | Ev_retry player_num
  | Ev_sourceChange

fun web_step :: "web_event \<Rightarrow> world \<times> web_player \<Rightarrow> world \<times> web_player" where
  "web_step (Ev_progress n t d) wp = onProgressPlayer n t d wp"
| "web_step (Ev_ended n d) wp = onEndedPlayer n d wp"
| "web_step Ev_songChange (w, p) = (w, onCurrentSongChange p)"
| "web_step (Ev_seek t) (w, p) = (w, onPlayerSeekToTimestamp t w p)"
| "web_step (Ev_status fades status) (w, p) = (w, onPlayerStatus fades status w p)"
| "web_step Ev_volume (w, p) = (w, onPlayerVolume w p)"
| "web_step Ev_queueCleared (w, p) = (mediaStop None w, p)"
| "web_step Ev_effect (w, p) = (w, engineEffect (p_playerNum (player (w_store w))) p)"
| "web_step Ev_fadeTick (w, p) = (w, fadeTick p)"
| "web_step (Ev_report t) wp = reportTimestamp t wp"
| "web_step (Ev_error n e) wp = fst (handleOnError n e wp)"
| "web_step (Ev_retry n) (w, p) = (w, retryTimeout n p)"
| "web_step Ev_sourceChange (w, p) = (w, resetRetries p)"

section \<open>Facts about the easing functions\<close>

definition unit_real :: "real \<Rightarrow> bool" where
  "unit_real x = (0 \<le> x \<and> x \<le> 1)"

lemma clamp01_unit: "clamp01 t = Some x \<Longrightarrow> unit_real x"
  by (auto simp: clamp01_def unit_real_def split: jsfloat.splits)

lemma sin_unit: "unit_real c \<Longrightarrow> unit_real (sin (pi / 2 * c))"
  by (auto simp: unit_real_def intro!: sin_ge_zero mult_left_le)

lemma cos_unit: "unit_real c \<Longrightarrow> unit_real (1 - cos (pi / 2 * c))"
proof -
  assume "unit_real c"
  then have "0 \<le> cos (pi / 2 * c)"
    by (intro cos_ge_zero) (auto simp: unit_real_def intro: order_trans [of _ 0] mult_left_le)
  then show ?thesis by (simp add: unit_real_def)
qed

lemma exp_in_unit: "unit_real c \<Longrightarrow> unit_real (1 - exp (- 5 * c))"
  by (simp add: unit_real_def)

lemma exp_out_unit: "unit_real c \<Longrightarrow> unit_real ((exp (- 5 * c) - exp (- 5)) / (exp 0 - exp (- 5)))"
proof -
  assume c: "unit_real c"
  then have "exp (- 5) \<le> exp (- 5 * c)" "exp (- 5 * c) \<le> exp 0" by (simp_all add: unit_real_def)
  moreover have "exp (- 5) < exp (0 :: real)" by simp
  ultimately show ?thesis by (simp add: unit_real_def divide_le_eq_1)
qed

lemma s_curve_unit: "unit_real c \<Longrightarrow> unit_real (c * c * (3 - 2 * c))"
proof -
  assume c: "unit_real c"
  have "1 - c * c * (3 - 2 * c) = (1 - c) * (1 - c) * (1 + 2 * c)" by algebra
  moreover have "0 \<le> (1 - c) * (1 - c) * (1 + 2 * c)" using c by (simp add: unit_real_def)
  ultimately have "c * c * (3 - 2 * c) \<le> 1" by linarith
  then show ?thesis using c by (simp add: unit_real_def)
qed

text \<open>The fades of a style as functions of the clamped progress.\<close>

definition fadeIn :: "CrossfadeStyle \<Rightarrow> real \<Rightarrow> real" where
  "fadeIn style c = (case style of EXPONENTIAL \<Rightarrow> 1 - exp (- 5 * c) | LINEAR \<Rightarrow> c
     | S_CURVE \<Rightarrow> c * c * (3 - 2 * c) | _ \<Rightarrow> sin (pi / 2 * c))"

definition fadeOut :: "CrossfadeStyle \<Rightarrow> real \<Rightarrow> real" where
  "fadeOut style c = (case style of
       EXPONENTIAL \<Rightarrow> (exp (- 5 * c) - exp (- 5)) / (exp 0 - exp (- 5)) | LINEAR \<Rightarrow> c
     | S_CURVE \<Rightarrow> c * c * (3 - 2 * c) | _ \<Rightarrow> 1 - cos (pi / 2 * c))"

lemma getCrossfadeEasing_fades:
  "fst (getCrossfadeEasing style) t = map_option (fadeIn style) (clamp01 t)"
  "snd (getCrossfadeEasing style) t = map_option (fadeOut style) (clamp01 t)"
  by (cases style; cases "clamp01 t"; simp only: getCrossfadeEasing_def fadeIn_def fadeOut_def equalPowerEaseIn_def
      equalPowerEaseOut_def exponentialEaseIn_def exponentialEaseOut_def linearEase_def sCurveEase_def Let_def
      CrossfadeStyle.case option.map fst_conv snd_conv)+

lemma fades_unit: "unit_real c \<Longrightarrow> unit_real (fadeIn style c)" "unit_real c \<Longrightarrow> unit_real (fadeOut style c)"
  by (cases style; simp only: fadeIn_def fadeOut_def CrossfadeStyle.case sin_unit cos_unit exp_in_unit exp_out_unit
      s_curve_unit)+

section \<open>The volumes\<close>

definition volume_ok :: "real \<Rightarrow> bool" where
  "volume_ok v = (0 \<le> v \<and> v \<le> 100)"

definition fade_ok :: "fade \<Rightarrow> bool" where
  "fade_ok f = (volume_ok (fd_start f) \<and> volume_ok (fd_end f) \<and> of_nat (fd_current f) < fd_steps f)"

definition web_ok :: "world \<times> web_player \<Rightarrow> bool" where
  "web_ok wp = (volume_ok (storeVolume (fst wp)) \<and> (\<forall>n. unit_real (e_volume (wp_engine (snd wp)) n))
     \<and> (\<forall>f. wp_fade (snd wp) = Some f \<longrightarrow> fade_ok f))"

definition volumes_in :: "engine \<Rightarrow> bool" where
  "volumes_in e = (\<forall>n. unit_real (e_volume e n))"

lemma volumes_in_set [intro, simp]:
  "volumes_in e \<Longrightarrow> volume_ok v \<Longrightarrow> volumes_in (setPlayerVolume n (Some v) e)"
  "volumes_in e \<Longrightarrow> volumes_in (setPlayerVolume n None e)"
  "volume_ok v \<Longrightarrow> volumes_in (engineSetVolume (Some v) e)"
proof -
  show "volume_ok v \<Longrightarrow> volumes_in (engineSetVolume (Some v) e)"
    by (simp add: volumes_in_def setPlayerVolume_def engineSetVolume_def engineVolume_def unit_real_def volume_ok_def)
      (metis player_num.exhaust)
qed (auto simp: volumes_in_def setPlayerVolume_def engineVolume_def unit_real_def volume_ok_def)

lemma volumes_in_play [simp]:
  "volumes_in (elementPlay n e) = volumes_in e" "volumes_in (elementPause n e) = volumes_in e"
  "volumes_in (enginePause e) = volumes_in e" "volumes_in (elementSeek n t e) = volumes_in e"
  "volumes_in (e\<lparr>e_retries := k\<rparr>) = volumes_in e"
  by (simp_all add: volumes_in_def elementPlay_def elementPause_def enginePause_def elementSeek_def)

lemma volume_ok_0 [simp]: "volume_ok 0"
  by (simp add: volume_ok_def)

lemma volume_ok_scaled: "unit_real x \<Longrightarrow> volume_ok v \<Longrightarrow> volume_ok (x * v)"
  by (auto simp: unit_real_def volume_ok_def intro: order_trans [OF mult_left_le_one_le])

lemma unit_real_compl: "unit_real x \<Longrightarrow> unit_real (1 - x)"
  by (auto simp: unit_real_def)

section \<open>Every event keeps the volumes in range\<close>

lemma web_ok_iff: "web_ok (w, p) \<longleftrightarrow> volume_ok (storeVolume w) \<and> volumes_in (wp_engine p)
    \<and> (\<forall>f. wp_fade p = Some f \<longrightarrow> fade_ok f)"
  by (simp add: web_ok_def volumes_in_def)

lemma crossfade_engine:
  assumes "volumes_in (wp_engine p)" and "volume_ok v"
  shows "volumes_in (wp_engine (crossfadeHandler D style pause num t d has n v p))"
    and "wp_fade (crossfadeHandler D style pause num t d has n v p) = wp_fade p"
proof -
  let ?t = "js_div (D - (d - t)) D"
  have "volumes_in (setPlayerVolume (otherPlayer n) (map_option (\<lambda>x. x * v) (map_option (fadeIn style) (clamp01 ?t)))
      (setPlayerVolume n (map_option (\<lambda>x. (1 - x) * v) (map_option (fadeOut style) (clamp01 ?t))) (wp_engine p)))"
    using assms clamp01_unit [of ?t] fades_unit [of _ style]
    by (cases "clamp01 ?t") (simp_all add: volume_ok_scaled unit_real_compl)
  then show "volumes_in (wp_engine (crossfadeHandler D style pause num t d has n v p))"
    using assms by (simp add: crossfadeHandler_def Let_def case_prod_beta getCrossfadeEasing_fades)
  show "wp_fade (crossfadeHandler D style pause num t d has n v p) = wp_fade p"
    by (simp add: crossfadeHandler_def Let_def case_prod_beta)
qed

lemma gapless_engine:
  "volumes_in (wp_engine p) \<Longrightarrow> volumes_in (wp_engine (gaplessHandler pause t d has flac n p))"
  "wp_fade (gaplessHandler pause t d has flac n p) = wp_fade p"
  by (simp_all add: gaplessHandler_def)

lemma repeatOne_frame:
  "w_store (fst (handleRepeatOne n t d (w, p))) = w_store w"
  "wp_engine (snd (handleRepeatOne n t d (w, p))) = wp_engine p"
  "wp_fade (snd (handleRepeatOne n t d (w, p))) = wp_fade p"
  by (simp_all add: handleRepeatOne_def Let_def emit_def setTimestampStore_def)

lemma web_ok_progress: "web_ok (w, p) \<Longrightarrow> web_ok (onProgressPlayer n t d (w, p))"
proof -
  assume ok: "web_ok (w, p)"
  show ?thesis
  proof (cases "p_repeat (player (w_store w)) = Repeat_ONE")
    case True
    obtain w' p' where e: "handleRepeatOne n t d (w, p) = (w', p')" by (rule prod.exhaust)
    then show ?thesis using ok True repeatOne_frame [of n t d w p]
      by (simp add: onProgressPlayer_def web_ok_iff)
  next
    case False
    with ok show ?thesis
      by (cases "p_transitionType (player (w_store w))")
        (simp_all add: onProgressPlayer_def web_ok_iff Let_def crossfade_engine gapless_engine)
  qed
qed

lemma mediaAutoNext_volume [simp]: "p_volume (player (w_store (fst (mediaAutoNext w)))) = p_volume (player (w_store w))"
  by (simp add: mediaAutoNext_def Let_def case_prod_beta emit_def setTimestampStore_def)

lemma web_ok_handleOnEnded: "web_ok (w, p) \<Longrightarrow> web_ok (handleOnEndedPlayer n (w, p))"
  by (simp add: handleOnEndedPlayer_def web_ok_iff Let_def)

lemma web_ok_ended: "web_ok wp \<Longrightarrow> web_ok (onEndedPlayer n d wp)"
  by (cases wp) (auto simp: onEndedPlayer_def Let_def web_ok_handleOnEnded split: option.splits)

lemma resetCrossfade_engine:
  "volumes_in (wp_engine p) \<Longrightarrow> volume_ok v \<Longrightarrow> volumes_in (wp_engine (resetCrossfade n v p))"
  "wp_fade (resetCrossfade n v p) = wp_fade p"
  by (simp_all add: resetCrossfade_def)

lemma fadeAndSetStatus_ok:
  "volume_ok a \<Longrightarrow> volumes_in (wp_engine (fadeAndSetStatus a b d status p))"
  "wp_fade (fadeAndSetStatus a b 300 status p) =
     Some \<lparr>fd_start = a, fd_end = b, fd_steps = 30, fd_current = 0, fd_status = status\<rparr>"
  by (simp_all add: fadeAndSetStatus_def PLAY_PAUSE_FADE_INTERVAL_def Let_def)

lemma web_ok_seek: "web_ok (w, p) \<Longrightarrow> web_ok (w, onPlayerSeekToTimestamp t w p)"
  by (simp add: onPlayerSeekToTimestamp_def web_ok_iff Let_def resetCrossfade_engine)

lemma web_ok_status: "web_ok (w, p) \<Longrightarrow> web_ok (w, onPlayerStatus fades status w p)"
  by (simp add: onPlayerStatus_def web_ok_iff Let_def resetCrossfade_engine fadeAndSetStatus_ok
      PLAY_PAUSE_FADE_DURATION_def fade_ok_def)

text \<open>The volume after a number of steps of a fade lies between its ends.\<close>

lemma fade_between:
  assumes "volume_ok a" and "volume_ok b" and "real k \<le> n" and "0 < n"
  shows "volume_ok (a + (b - a) / n * real k)"
proof -
  define u where "u = real k / n"
  have u: "0 \<le> u" "u \<le> 1" using assms(3,4) by (simp_all add: u_def)
  have "a + (b - a) / n * real k = (1 - u) * a + u * b"
    using assms(4) by (simp add: u_def field_simps)
  moreover have "(1 - u) * a + u * b \<le> 100"
    using u assms(1,2) by (intro convex_bound_le) (auto simp: volume_ok_def)
  moreover have "0 \<le> (1 - u) * a + u * b" using u assms(1,2) by (simp add: volume_ok_def)
  ultimately show ?thesis by (simp add: volume_ok_def)
qed

lemma web_ok_fadeTick: "web_ok (w, p) \<Longrightarrow> web_ok (w, fadeTick p)"
proof (cases "wp_fade p")
  case (Some f)
  assume "web_ok (w, p)"
  with Some have f: "fade_ok f" "volumes_in (wp_engine p)" "volume_ok (storeVolume w)"
    by (simp_all add: web_ok_iff)
  let ?k = "Suc (fd_current f)"
  show ?thesis
  proof (cases "fd_steps f \<le> of_nat ?k")
    case True
    with f Some show ?thesis by (simp add: fadeTick_def web_ok_iff Let_def fade_ok_def)
  next
    case False
    then have "volume_ok (fd_start f + (fd_end f - fd_start f) / fd_steps f * real ?k)"
      using f(1) by (intro fade_between) (auto simp: fade_ok_def)
    with f Some False show ?thesis by (simp add: fadeTick_def web_ok_iff Let_def fade_ok_def)
  qed
qed (simp add: fadeTick_def)

lemma web_ok_error: "web_ok (w, p) \<Longrightarrow> web_ok (fst (handleOnError n e (w, p)))"
  by (simp add: handleOnError_def Let_def web_ok_handleOnEnded [unfolded web_ok_iff] web_ok_iff mediaPause_def
      web_ok_handleOnEnded)

lemma web_ok_step: "web_ok wp \<Longrightarrow> web_ok (web_step ev wp)"
proof (cases wp)
  case (Pair w p)
  assume "web_ok wp"
  with Pair have ok: "web_ok (w, p)" by simp
  show ?thesis
  proof (cases ev)
    case (Ev_error n e)
    then show ?thesis using ok by (simp add: Pair web_ok_error)
  next
    case Ev_queueCleared
    then show ?thesis using ok by (simp add: Pair mediaStop_def seekTo_def setTimestampStore_def web_ok_iff Let_def)
  qed (use ok in \<open>simp_all add: Pair web_ok_progress web_ok_ended web_ok_seek web_ok_status web_ok_fadeTick,
      simp_all add: web_ok_iff onCurrentSongChange_def onPlayerVolume_def engineEffect_def reportTimestamp_def
        retryTimeout_def resetRetries_def setTimestampStore_def\<close>)
qed

interpretation web: driven_component web_step web_ok
  by unfold_locales (rule web_ok_step)

section \<open>The course of a crossfade\<close>

text \<open>How far a crossfade of length \<open>D\<close> is at the time \<open>t\<close> of a track of length \<open>d\<close>.\<close>

definition fadeProgress :: "real \<Rightarrow> real \<Rightarrow> real \<Rightarrow> real" where
  "fadeProgress D d t = max 0 (min 1 ((D - (d - t)) / D))"

lemma otherPlayer_neq [simp]: "otherPlayer n \<noteq> n" "n \<noteq> otherPlayer n"
  by (cases n; simp add: otherPlayer_def)+

lemma crossfade_volumes:
  assumes "D \<noteq> 0" and "wp_isTransitioning p = TransitioningFrom n"
  shows "e_volume (wp_engine (crossfadeHandler D style pause num t d True n v p)) n =
      (1 - fadeOut style (fadeProgress D d t)) * v / 100"
    and "e_volume (wp_engine (crossfadeHandler D style pause num t d True n v p)) (otherPlayer n) =
      fadeIn style (fadeProgress D d t) * v / 100"
  using assms
  by (simp_all add: crossfadeHandler_def Let_def case_prod_beta getCrossfadeEasing_fades js_div_def clamp01_def
      fadeProgress_def setPlayerVolume_def engineVolume_def)

lemma fadeProgress_unit: "unit_real (fadeProgress D d t)"
  by (simp add: fadeProgress_def unit_real_def)

lemma fadeProgress_ends: "0 < D \<Longrightarrow> fadeProgress D d (d - D) = 0" "0 < D \<Longrightarrow> fadeProgress D d d = 1"
  by (simp_all add: fadeProgress_def)

lemma fadeProgress_mono: "0 < D \<Longrightarrow> t \<le> u \<Longrightarrow> fadeProgress D d t \<le> fadeProgress D d u"
  unfolding fadeProgress_def by (intro max.mono min.mono divide_right_mono) auto

lemma s_curve_mono:
  assumes "unit_real x" and "unit_real y" and "x \<le> y"
  shows "x * x * (3 - 2 * x) \<le> y * y * (3 - 2 * y)"
proof -
  have sq: "x * x \<le> x" "y * y \<le> y" "x * y \<le> x"
    using assms by (simp_all add: unit_real_def mult_left_le)
  have "y * y * (3 - 2 * y) - x * x * (3 - 2 * x) = (y - x) * (3 * (x + y) - 2 * (x * x + x * y + y * y))"
    by algebra
  moreover have "0 \<le> 3 * (x + y) - 2 * (x * x + x * y + y * y)" using sq assms by (simp add: unit_real_def)
  then have "0 \<le> (y - x) * (3 * (x + y) - 2 * (x * x + x * y + y * y))" using assms(3) by simp
  ultimately show ?thesis by linarith
qed

lemma quarter_turn_mono:
  assumes "unit_real x" and "unit_real y" and "x \<le> y"
  shows "sin (pi / 2 * x) \<le> sin (pi / 2 * y)" and "cos (pi / 2 * y) \<le> cos (pi / 2 * x)"
proof -
  have "pi / 2 * x \<le> pi / 2 * y" "0 \<le> pi / 2 * x" "pi / 2 * y \<le> pi / 2 * 1"
    using assms by (auto simp: unit_real_def intro!: mult_left_mono)
  moreover from this(2) have "- (pi / 2) \<le> pi / 2 * x" using pi_gt_zero by linarith
  moreover from calculation(3) have "pi / 2 * y \<le> pi" using pi_gt_zero by linarith
  ultimately show "sin (pi / 2 * x) \<le> sin (pi / 2 * y)" "cos (pi / 2 * y) \<le> cos (pi / 2 * x)"
    by (intro sin_monotone_2pi_le cos_monotone_0_pi_le; linarith)+
qed

lemma fades_mono:
  assumes "style \<noteq> EXPONENTIAL" and "unit_real x" and "unit_real y" and "x \<le> y"
  shows "fadeIn style x \<le> fadeIn style y" and "fadeOut style x \<le> fadeOut style y"
  using assms(1) quarter_turn_mono [OF assms(2-4)] s_curve_mono [OF assms(2-4)] assms(4)
  by (cases style; simp add: fadeIn_def fadeOut_def)+

lemma fades_ends:
  assumes "style \<noteq> EXPONENTIAL"
  shows "fadeIn style 0 = 0" "fadeOut style 0 = 0" "fadeIn style 1 = 1" "fadeOut style 1 = 1"
  using assms by (cases style; simp add: fadeIn_def fadeOut_def)+

section \<open>A web player for the examples\<close>

definition exampleWeb :: "transition \<Rightarrow> web_player" where
  "exampleWeb x = \<lparr>wp_engine = \<lparr>e_volume = (\<lambda>n. 3 / 10), e_playing = (\<lambda>n. True), e_seek = (\<lambda>n. None),
       e_retries = (\<lambda>n. 0)\<rparr>,
     wp_localStatus = PLAYING, wp_isTransitioning = x, wp_repeatOneProgress = (\<lambda>n. 0), wp_fade = None\<rparr>"

lemma exampleWeb_ok: "web_ok (exampleWorld (exampleStore sh rep i), exampleWeb x)"
  by (simp add: web_ok_def exampleWeb_def exampleStore_def volume_ok_def unit_real_def)

section \<open>Properties\<close>

text \<open>
  Whatever the web player goes through (progress, ends, seeks, pauses, fades, errors and their
  retries, in any order), the volumes of both players stay between 0 and 1, while the volume that is
  set lies between 0 and 100.
\<close>

theorem web_volumes_bounded:
  assumes "web_ok wp"
  shows "0 \<le> e_volume (wp_engine (snd (fold web_step evs wp))) n
    \<and> e_volume (wp_engine (snd (fold web_step evs wp))) n \<le> 1"
  using web.run_inv [OF assms, of evs] by (auto simp: web_ok_def unit_real_def)

theorem web_volumes_bounded_witness:
  "e_volume (wp_engine (snd (fold web_step [Ev_progress One 170 180, Ev_progress One 178 180, Ev_status True PAUSED,
      Ev_fadeTick, Ev_error Two (Some ERR_NETWORK), Ev_ended One (Some 180)]
      (exampleWorld (exampleStore Shuffle_TRACK Repeat_ALL (Num 0)), exampleWeb NotTransitioning)))) Two \<le> 1"
  by (rule web_volumes_bounded [OF exampleWeb_ok, THEN conjunct2])

text \<open>
  A crossfade of a style that is meant to keep the power (equal power, and the styles that fall back
  on it) does so: the squares of the two volumes add up to the square of the volume that is set, at
  every moment.
\<close>

theorem crossfade_keeps_power:
  assumes "style \<notin> {EXPONENTIAL, LINEAR, S_CURVE}" and "D \<noteq> 0" and "wp_isTransitioning p = TransitioningFrom n"
  shows "(e_volume (wp_engine (crossfadeHandler D style pause num t d True n v p)) n)\<^sup>2
    + (e_volume (wp_engine (crossfadeHandler D style pause num t d True n v p)) (otherPlayer n))\<^sup>2 = (v / 100)\<^sup>2"
proof -
  let ?x = "pi / 2 * fadeProgress D d t"
  have "fadeIn style (fadeProgress D d t) = sin ?x" "1 - fadeOut style (fadeProgress D d t) = cos ?x"
    using assms(1) by (cases style; simp add: fadeIn_def fadeOut_def)+
  moreover have "(cos ?x * (v / 100))\<^sup>2 + (sin ?x * (v / 100))\<^sup>2 = ((sin ?x)\<^sup>2 + (cos ?x)\<^sup>2) * (v / 100)\<^sup>2"
    by (simp only: power_mult_distrib distrib_right add.commute)
  ultimately show ?thesis by (simp add: crossfade_volumes [OF assms(2,3)])
qed

theorem crossfade_keeps_power_witness:
  "(e_volume (wp_engine (crossfadeHandler 5 DIPPED False One 177 180 True One 30
       (exampleWeb (TransitioningFrom One)))) One)\<^sup>2
   + (e_volume (wp_engine (crossfadeHandler 5 DIPPED False One 177 180 True One 30
       (exampleWeb (TransitioningFrom One)))) (otherPlayer One))\<^sup>2 = (30 / 100)\<^sup>2"
  by (rule crossfade_keeps_power) (simp_all add: exampleWeb_def)

text \<open>
  A crossfade of every style but the exponential one takes the volume from one player to the other:
  it starts with the current player at full volume and the next one silent, ends the other way round,
  and in between the current one only gets quieter and the next one only louder.
\<close>

theorem crossfade_hands_over_volume:
  assumes "style \<noteq> EXPONENTIAL" and "0 < D" and "wp_isTransitioning p = TransitioningFrom n"
    and "0 \<le> v" and "t \<le> u"
    and F: "F = (\<lambda>t. e_volume (wp_engine (crossfadeHandler D style pause num t d True n v p)))"
  shows "F (d - D) n = v / 100 \<and> F (d - D) (otherPlayer n) = 0
    \<and> F d n = 0 \<and> F d (otherPlayer n) = v / 100
    \<and> F u n \<le> F t n \<and> F t (otherPlayer n) \<le> F u (otherPlayer n)"
proof -
  have F: "F t n = (1 - fadeOut style (fadeProgress D d t)) * v / 100"
    "F t (otherPlayer n) = fadeIn style (fadeProgress D d t) * v / 100" for t
    using assms(2) crossfade_volumes [OF _ assms(3)] by (simp_all add: F)
  note mono = fades_mono [OF assms(1) fadeProgress_unit fadeProgress_unit fadeProgress_mono [OF assms(2,5)], of d]
  have "F u n \<le> F t n" "F t (otherPlayer n) \<le> F u (otherPlayer n)"
    unfolding F using mono assms(4) by (simp_all add: divide_right_mono mult_right_mono)
  then show ?thesis using assms(2) by (simp add: F fadeProgress_ends fades_ends [OF assms(1)])
qed

theorem crossfade_hands_over_volume_witness:
  "e_volume (wp_engine (crossfadeHandler 5 S_CURVE False One 175 180 True One 30
       (exampleWeb (TransitioningFrom One)))) One = 30 / 100"
  using crossfade_hands_over_volume [OF _ _ _ _ _ refl, of S_CURVE 5 "exampleWeb (TransitioningFrom One)" One 30 0 0
      False One 180] by (simp add: exampleWeb_def)

text \<open>
  A flaw of the exponential crossfade. Its fade out runs from 1 to 0, but the handler takes it from 1:
  the song that ends is silent as soon as the crossfade begins, and back at full volume at its end.
\<close>

theorem exponential_crossfade_inverted:
  assumes "0 < D" and "wp_isTransitioning p = TransitioningFrom n"
  shows "e_volume (wp_engine (crossfadeHandler D EXPONENTIAL pause num (d - D) d True n v p)) n = 0
    \<and> e_volume (wp_engine (crossfadeHandler D EXPONENTIAL pause num d d True n v p)) n = v / 100"
proof -
  have "(exp (0 :: real) - exp (- 5)) \<noteq> 0" by simp
  with assms show ?thesis by (simp add: crossfade_volumes fadeProgress_ends fadeOut_def)
qed

theorem exponential_crossfade_inverted_witness:
  "e_volume (wp_engine (crossfadeHandler 5 EXPONENTIAL False One (180 - 5) 180 True One 30
       (exampleWeb (TransitioningFrom One)))) One = 0"
  by (rule exponential_crossfade_inverted [THEN conjunct1]) (simp_all add: exampleWeb_def)

text \<open>
  While playback is to pause after the current song, no progress of either player starts the other
  one, whatever the transition style: a player that was silent stays silent.
\<close>

theorem pause_on_end_prevents_prestart:
  assumes "p_pauseOnNextSongEnd (player (w_store w))"
    and "e_playing (wp_engine (snd (onProgressPlayer n t d (w, p)))) m"
  shows "e_playing (wp_engine p) m"
proof (cases "p_repeat (player (w_store w)) = Repeat_ONE")
  case True
  with assms(2) show ?thesis by (simp add: onProgressPlayer_def repeatOne_frame Let_def)
next
  case False
  with assms show ?thesis
    by (cases "p_transitionType (player (w_store w))")
      (auto simp: onProgressPlayer_def gaplessHandler_def crossfadeHandler_def elementPause_def setPlayerVolume_def
        Let_def case_prod_beta split: if_splits)
qed

theorem pause_on_end_prevents_prestart_witness:
  "\<not> e_playing (wp_engine (snd (onProgressPlayer One 179 180
     (exampleWorld ((\<lambda>s. s\<lparr>player := (player s)\<lparr>p_pauseOnNextSongEnd := True\<rparr>\<rparr>)
        (exampleStore Shuffle_NONE Repeat_ALL (Num 0))),
      on_engine enginePause (exampleWeb Transitioning))))) Two"
proof
  assume "e_playing (wp_engine (snd (onProgressPlayer One 179 180
     (exampleWorld ((\<lambda>s. s\<lparr>player := (player s)\<lparr>p_pauseOnNextSongEnd := True\<rparr>\<rparr>)
        (exampleStore Shuffle_NONE Repeat_ALL (Num 0))),
      on_engine enginePause (exampleWeb Transitioning))))) Two"
  from pause_on_end_prevents_prestart [OF _ this] show False
    by (simp add: exampleWeb_def enginePause_def elementPause_def)
qed

lemma usePlayerData_eq: "usePlayerData s = getPlayerData s"
  by (simp add: usePlayerData_def getPlayerData_def)

lemma getPlayerData_current: "d_currentSong (getPlayerData s) = getCurrentSong s"
  by (simp add: getPlayerData_def getCurrentSong_def Let_def case_prod_beta)

lemma playerSong_eq: "playerSong n s = (if n = One then d_player1 (getPlayerData s) else d_player2 (getPlayerData s))"
  by (cases n) (simp_all add: playerSong_def usePlayerData_eq)

lemma active_player_song: "playerSong (p_playerNum (player s)) s = getCurrentSong s"
  using getPlayerData_players(3) [of s] by (simp add: playerSong_eq getPlayerData_current)

lemma idle_player_song:
  assumes "store_ok (w_store w)" and "order_ok (w_store w)" and "index_ok (w_store w)"
    and "p_repeat (player (w_store w)) \<noteq> Repeat_ONE"
    and "p_status (player (w_store (fst (mediaAutoNext w)))) = PLAYING"
  shows "p_playerNum (player (w_store (fst (mediaAutoNext w)))) = otherPlayer (p_playerNum (player (w_store w)))
    \<and> map_option uniqueId (getCurrentSong (w_store (fst (mediaAutoNext w)))) =
      map_option uniqueId (playerSong (otherPlayer (p_playerNum (player (w_store w)))) (w_store w))"
proof -
  let ?t = "w_store (fst (mediaAutoNext w))"
  have d: "d_num (snd (mediaAutoNext w)) = p_playerNum (player ?t)" "d_status (snd (mediaAutoNext w)) = PLAYING"
    "d_player1 (snd (mediaAutoNext w)) = d_player1 (getPlayerData ?t)"
    "d_player2 (snd (mediaAutoNext w)) = d_player2 (getPlayerData ?t)"
    unfolding mediaAutoNext_data by (simp_all add: getPlayerData_players assms(5))
  from idle_player_takes_over [OF assms(1-4) d(2)]
  have num: "p_playerNum (player ?t) = otherPlayer (p_playerNum (player (w_store w)))"
    and "map_option uniqueId (playerSong (p_playerNum (player ?t)) ?t) =
      map_option uniqueId (playerSong (p_playerNum (player ?t)) (w_store w))"
    unfolding d getPlayerData_players(1) playerSong_eq by blast+
  then show ?thesis using active_player_song [of ?t, unfolded num] by simp
qed

text \<open>
  At the end of a track the two players change roles: when playback goes on, the player that
  was idle becomes the active one, holding the song it had been given; if it had been started early it
  keeps playing, at the full volume, and the ended player is stopped. When playback does not go on,
  both players are stopped.
\<close>

theorem track_end_hands_over:
  assumes "store_ok (w_store w)" and "order_ok (w_store w)" and "index_ok (w_store w)"
    and "p_repeat (player (w_store w)) \<noteq> Repeat_ONE" and "n = p_playerNum (player (w_store w))"
    and "e_playing (wp_engine p) (otherPlayer n)"
    and res: "(w', p') = handleOnEndedPlayer n (w, p)"
  shows "wp_isTransitioning p' = NotTransitioning \<and> \<not> e_playing (wp_engine p') n
    \<and> (p_status (player (w_store w')) = PAUSED \<longrightarrow> \<not> e_playing (wp_engine p') (otherPlayer n))
    \<and> (p_status (player (w_store w')) = PLAYING \<longrightarrow>
        p_playerNum (player (w_store w')) = otherPlayer n
        \<and> e_playing (wp_engine p') (otherPlayer n)
        \<and> e_volume (wp_engine p') (otherPlayer n) = storeVolume w' / 100
        \<and> map_option uniqueId (getCurrentSong (w_store w')) = map_option uniqueId (playerSong (otherPlayer n) (w_store w)))"
proof -
  have w': "w' = fst (mediaAutoNext w)" using res by (simp add: handleOnEndedPlayer_def Let_def)
  have p': "wp_isTransitioning p' = NotTransitioning \<and> \<not> e_playing (wp_engine p') n
    \<and> (p_status (player (w_store w')) = PAUSED \<longrightarrow> \<not> e_playing (wp_engine p') (otherPlayer n))
    \<and> (p_status (player (w_store w')) = PLAYING \<longrightarrow> e_playing (wp_engine p') (otherPlayer n)
        \<and> e_volume (wp_engine p') (otherPlayer n) = storeVolume w' / 100)"
    using res assms(6) unfolding w'
    by (cases n) (auto simp: handleOnEndedPlayer_def Let_def otherPlayer_def elementPause_def enginePause_def
        engineSetVolume_def setPlayerVolume_def engineVolume_def)
  have "p_playerNum (player (w_store w')) = otherPlayer n
      \<and> map_option uniqueId (getCurrentSong (w_store w')) = map_option uniqueId (playerSong (otherPlayer n) (w_store w))"
    if "p_status (player (w_store w')) = PLAYING"
    using idle_player_song [OF assms(1-4)] that by (simp add: w' assms(5))
  with p' show ?thesis by blast
qed

theorem track_end_hands_over_witness:
  "\<exists>w' p'. (w', p') = handleOnEndedPlayer One
      (exampleWorld (exampleStore Shuffle_TRACK Repeat_ALL (Num 2)), exampleWeb (TransitioningFrom One))
    \<and> map_option uniqueId (getCurrentSong (w_store w')) = map_option uniqueId
        (playerSong (otherPlayer One) (w_store (exampleWorld (exampleStore Shuffle_TRACK Repeat_ALL (Num 2)))))"
proof -
  let ?w = "exampleWorld (exampleStore Shuffle_TRACK Repeat_ALL (Num 2))" and ?p = "exampleWeb (TransitioningFrom One)"
  obtain w' p' where res: "(w', p') = handleOnEndedPlayer One (?w, ?p)" by (metis prod.exhaust)
  have "w' = fst (mediaAutoNext ?w)" using res by (simp add: handleOnEndedPlayer_def Let_def)
  then have "p_status (player (w_store w')) = PLAYING"
    by (simp add: mediaAutoNext_player autoNextIndex_def playbackLength_def calculateNextIndex_def)
  moreover have "p_playerNum (player (w_store ?w)) = One" "e_playing (wp_engine ?p) (otherPlayer One)"
    by (simp_all add: exampleStore_def exampleWeb_def)
  ultimately show ?thesis
    using track_end_hands_over [OF _ _ _ _ _ _ res] res
    by (intro exI [of _ w'] exI [of _ p']) (simp add: exampleStore_ok exampleStore_order exampleStore_index)
qed

text \<open>
  The source of an element fails, and the timeout, if one was set, fires before it fails again; the number tells how
  often the element was loaded and played again.
\<close>

definition sourceFails :: "player_num \<Rightarrow> media_error \<Rightarrow> (world \<times> web_player) \<times> nat \<Rightarrow> (world \<times> web_player) \<times> nat" where
  "sourceFails n error s =
     (let (wp, nloads) = s; ((w, p), timeout) = handleOnError n (Some error) wp
      in if timeout then ((w, retryTimeout n p), Suc nloads) else ((w, p), nloads))"

definition network_error :: "media_error \<Rightarrow> bool" where
  "network_error e \<longleftrightarrow> e = ERR_NETWORK \<or> e = ERR_SRC_NOT_SUPPORTED"

lemma retry_engine [simp]:
  "e_retries (wp_engine (retryTimeout n p)) = e_retries (wp_engine p)"
  "e_playing (wp_engine (retryTimeout n p)) = (\<lambda>m. m = n)"
  by (auto simp: retryTimeout_def elementPlay_def enginePause_def elementPause_def fun_eq_iff)
    (metis player_num.exhaust)+

lemma sourceFails_retries:
  assumes "network_error e" and "e_retries (wp_engine p) n < 5"
  shows "\<exists>p'. sourceFails n e ((w, p), nloads) = ((w, p'), Suc nloads) \<and> e_retries (wp_engine p') n = Suc (e_retries (wp_engine p) n)
    \<and> e_playing (wp_engine p') = (\<lambda>m. m = n)"
  using assms by (auto simp: sourceFails_def handleOnError_def network_error_def MAX_NETWORK_RETRIES_def Let_def)

lemma sourceFails_gives_up:
  assumes "network_error e" and "5 \<le> e_retries (wp_engine p) n"
  shows "\<exists>p'. sourceFails n e ((w, p), nloads) = ((mediaPause w, p'), nloads) \<and> e_retries (wp_engine p') = e_retries (wp_engine p)
    \<and> e_playing (wp_engine p') = (\<lambda>m. False)"
proof -
  have "e_playing (enginePause x) m = False" for x m by (cases m) (simp_all add: enginePause_def elementPause_def)
  then have "e_playing (enginePause x) = (\<lambda>m. False)" for x by blast
  moreover have "e_retries (enginePause x) = e_retries x" for x by (simp add: enginePause_def elementPause_def)
  ultimately show ?thesis
    using assms by (auto simp: sourceFails_def handleOnError_def network_error_def MAX_NETWORK_RETRIES_def Let_def)
qed

lemma few_failures:
  "list_all network_error es \<Longrightarrow> e_retries (wp_engine p) n + length es \<le> 5 \<Longrightarrow>
     \<exists>p'. fold (sourceFails n) es ((w, p), nloads) = ((w, p'), nloads + length es)
       \<and> e_retries (wp_engine p') n = e_retries (wp_engine p) n + length es
       \<and> (es \<noteq> [] \<longrightarrow> e_playing (wp_engine p') = (\<lambda>m. m = n))"
proof (induction es arbitrary: p nloads)
  case (Cons e es)
  then obtain p1 where p1: "sourceFails n e ((w, p), nloads) = ((w, p1), Suc nloads)"
    "e_retries (wp_engine p1) n = Suc (e_retries (wp_engine p) n)" "e_playing (wp_engine p1) = (\<lambda>m. m = n)"
    using sourceFails_retries [of e p n w nloads] by auto
  have "list_all network_error es" "e_retries (wp_engine p1) n + length es \<le> 5" using Cons.prems p1(2) by simp_all
  from Cons.IH [OF this, of "Suc nloads"] show ?case using p1 by (cases "es = []") auto
qed simp

lemma more_failures:
  "list_all network_error es \<Longrightarrow> es \<noteq> [] \<Longrightarrow> 5 \<le> e_retries (wp_engine p) n \<Longrightarrow>
     \<exists>w' p'. fold (sourceFails n) es ((w, p), nloads) = ((w', p'), nloads) \<and> p_status (player (w_store w')) = PAUSED
       \<and> e_playing (wp_engine p') = (\<lambda>m. False)"
proof (induction es arbitrary: w p)
  case (Cons e es)
  then obtain p1 where p1: "sourceFails n e ((w, p), nloads) = ((mediaPause w, p1), nloads)"
    "e_retries (wp_engine p1) = e_retries (wp_engine p)" "e_playing (wp_engine p1) = (\<lambda>m. False)"
    using sourceFails_gives_up [of e p n w nloads] by auto
  show ?case
  proof (cases "es = []")
    case True
    with p1 show ?thesis by (simp add: mediaPause_def)
  next
    case False
    with Cons p1 show ?thesis by simp
  qed
qed simp

text \<open>
  C29: A source that fails with network errors, of the network or because it cannot be read, is loaded and played again
  after each of the first five errors and not after others. Up to then the playback status is untouched and the element plays,
  alone; the sixth error and those after it pause playback and stop both players.
\<close>

theorem network_retries_bounded:
  assumes "e_retries (wp_engine p) n = 0" and "list_all network_error es" and "es \<noteq> []"
    and "fold (sourceFails n) es ((w, p), 0) = ((w', p'), nloads)"
  shows "nloads = min (length es) 5
    \<and> (if length es \<le> 5 then w' = w \<and> e_playing (wp_engine p') = (\<lambda>m. m = n)
       else p_status (player (w_store w')) = PAUSED \<and> e_playing (wp_engine p') = (\<lambda>m. False))"
proof (cases "length es \<le> 5")
  case True
  then show ?thesis using few_failures [of es p n w 0] assms by auto
next
  case False
  have es: "es = take 5 es @ drop 5 es" by simp
  have parts: "list_all network_error (take 5 es)" "list_all network_error (drop 5 es)"
    using assms(2) by (auto simp: list_all_iff dest: in_set_takeD in_set_dropD)
  obtain p1 where p1: "fold (sourceFails n) (take 5 es) ((w, p), 0) = ((w, p1), 5)" "e_retries (wp_engine p1) n = 5"
    using few_failures [OF parts(1), of p n w 0] False assms(1) by auto
  have "fold (sourceFails n) (drop 5 es) ((w, p1), 5) = ((w', p'), nloads)"
    using assms(4) p1(1) by (subst (asm) es) (simp only: fold_append comp_def)
  then show ?thesis using more_failures [OF parts(2), of p1 n w 5] False p1(2) by auto
qed

theorem network_retries_bounded_witness:
  "snd (fold (sourceFails Two) (replicate 7 ERR_NETWORK)
     ((exampleWorld (exampleStore Shuffle_NONE Repeat_ALL (Num 0)), exampleWeb NotTransitioning), 0)) = 5"
proof -
  let ?s = "((exampleWorld (exampleStore Shuffle_NONE Repeat_ALL (Num 0)), exampleWeb NotTransitioning), 0 :: nat)"
  obtain w' p' nloads where r: "fold (sourceFails Two) (replicate 7 ERR_NETWORK) ?s = ((w', p'), nloads)"
    by (metis prod.exhaust)
  have "nloads = min (length (replicate 7 ERR_NETWORK)) 5"
    using network_retries_bounded [OF _ _ _ r] by (simp add: exampleWeb_def list_all_iff network_error_def)
  then show ?thesis using r by simp
qed

text \<open>
  With clipping prevention, replay gain never makes a song louder than full scale: the gain that is
  applied, times the peak the settings select (1 if the song has none), is at most 1.
\<close>

theorem replay_gain_never_clips:
  assumes "g_clip playback" and "g_mode playback \<noteq> RG_no"
    and "peak = nullish_or (if g_mode playback = RG_track then orElse (g_trackPeak song) (g_albumPeak song)
      else orElse (g_albumPeak song) (g_trackPeak song)) 1"
    and "0 \<le> peak" and "\<exists>g. orElse (g_trackGain song) (g_albumGain song) = Some g"
  shows "appliedGain playback song * peak \<le> 1"
proof -
  have "calculateReplayGain playback song \<le> 1 / peak \<or> peak = 0"
    using assms(1,2,3,5)
    by (auto simp: calculateReplayGain_def js_div_def Let_def orElse_def split: option.splits if_splits)
  then show ?thesis
  proof
    assume "calculateReplayGain playback song \<le> 1 / peak"
    with assms(4) show ?thesis
      by (cases "peak = 0") (auto simp: appliedGain_def max_def field_simps)
  qed (simp add: appliedGain_def)
qed

theorem replay_gain_never_clips_witness:
  "appliedGain \<lparr>g_clip = True, g_fallbackDB = None, g_mode = RG_track, g_preampDB = Some 6\<rparr>
     \<lparr>g_albumGain = None, g_trackGain = Some 3, g_albumPeak = Some (8 / 10), g_trackPeak = None\<rparr> * (8 / 10) \<le> 1"
  by (rule replay_gain_never_clips) (simp_all add: orElse_def)

lemma fadeTick_step:
  assumes "wp_fade r = Some \<lparr>fd_start = a, fd_end = b, fd_steps = m, fd_current = k, fd_status = PAUSED\<rparr>"
  shows "real (Suc k) < m \<Longrightarrow> wp_localStatus (fadeTick r) = wp_localStatus r
      \<and> e_volume (wp_engine (fadeTick r)) n = (a + (b - a) / m * real (Suc k)) / 100
      \<and> wp_fade (fadeTick r) =
          Some \<lparr>fd_start = a, fd_end = b, fd_steps = m, fd_current = Suc k, fd_status = PAUSED\<rparr>"
    and "m \<le> real (Suc k) \<Longrightarrow> wp_localStatus (fadeTick r) = PAUSED \<and> wp_fade (fadeTick r) = None
      \<and> e_volume (wp_engine (fadeTick r)) n = a / 100"
  using assms
  by (cases n; simp add: fadeTick_def engineSetVolume_def setPlayerVolume_def engineVolume_def Let_def)+

text \<open>
  A fade to pause lasts 30 steps: at each step before the last the volume has gone down by the same
  amount and the player still plays, and the last one pauses it, ends the fade, and restores the volume
  for the next start.
\<close>

theorem fade_to_pause_completes:
  assumes "q = fadeAndSetStatus v 0 PLAY_PAUSE_FADE_DURATION PAUSED p"
  shows "(k < 30 \<longrightarrow> wp_localStatus ((fadeTick ^^ k) q) = wp_localStatus p
      \<and> e_volume (wp_engine ((fadeTick ^^ k) q)) n = v * (1 - real k / 30) / 100)
    \<and> wp_localStatus ((fadeTick ^^ 30) q) = PAUSED \<and> wp_fade ((fadeTick ^^ 30) q) = None
    \<and> e_volume (wp_engine ((fadeTick ^^ 30) q)) n = v / 100"
proof -
  have run: "wp_localStatus ((fadeTick ^^ k) q) = wp_localStatus p
    \<and> e_volume (wp_engine ((fadeTick ^^ k) q)) n = v * (1 - real k / 30) / 100
    \<and> wp_fade ((fadeTick ^^ k) q) = Some \<lparr>fd_start = v, fd_end = 0, fd_steps = 30, fd_current = k, fd_status = PAUSED\<rparr>"
    if "k < 30" for k
    using that
  proof (induction k)
    case 0
    then show ?case
      by (cases n) (simp_all add: assms fadeAndSetStatus_def PLAY_PAUSE_FADE_DURATION_def PLAY_PAUSE_FADE_INTERVAL_def
          engineSetVolume_def setPlayerVolume_def engineVolume_def Let_def)
  next
  next
    case (Suc k)
    then have "wp_localStatus ((fadeTick ^^ k) q) = wp_localStatus p"
      "wp_fade ((fadeTick ^^ k) q) = Some \<lparr>fd_start = v, fd_end = 0, fd_steps = 30, fd_current = k, fd_status = PAUSED\<rparr>"
      by simp_all
    with fadeTick_step(1) [OF this(2), of n] Suc.prems show ?case
      unfolding funpow.simps o_apply by (simp add: algebra_simps)
  qed
  have "(fadeTick ^^ 30) q = fadeTick ((fadeTick ^^ 29) q)"
    by (simp add: numeral_eq_Suc)
  with fadeTick_step(2) [OF run [of 29, THEN conjunct2, THEN conjunct2], of n]
  have "wp_localStatus ((fadeTick ^^ 30) q) = PAUSED \<and> wp_fade ((fadeTick ^^ 30) q) = None
    \<and> e_volume (wp_engine ((fadeTick ^^ 30) q)) n = v / 100" by simp
  with run [of k] show ?thesis by blast
qed

theorem fade_to_pause_completes_witness:
  "wp_localStatus ((fadeTick ^^ 30) (fadeAndSetStatus 30 0 PLAY_PAUSE_FADE_DURATION PAUSED
     (exampleWeb NotTransitioning))) = PAUSED"
  using fade_to_pause_completes [OF refl, of 0 30 "exampleWeb NotTransitioning" One] by simp

end
