(* ===== verification/SleepTimer.thy ===== *)
theory SleepTimer
  imports Playback
begin

text \<open>
  The sleep timer (\<^verbatim>\<open>store/sleep-timer.store.ts\<close>, \<^verbatim>\<open>features/player/components/sleep-timer-button.tsx\<close>):
  its store, the handlers and the effect of the hook, which run while the timer is active, and what it
  does to the player when tracks end. The mode for which the effect has run is the one the
  handlers see: they are closures of the last rendering.
\<close>

section \<open>The store\<close>

datatype SleepTimerMode = endOfAlbum | endOfSong | timed

record sleep_timer =
  sl_active :: bool
  sl_mode :: SleepTimerMode
  sl_remaining :: rat
  sl_targetAlbumId :: "string option"

definition cancelTimer :: "sleep_timer \<Rightarrow> sleep_timer" where
  "cancelTimer t = \<lparr>sl_active = False, sl_mode = timed, sl_remaining = 0, sl_targetAlbumId = None\<rparr>"

definition setRemaining :: "rat \<Rightarrow> sleep_timer \<Rightarrow> sleep_timer" where
  "setRemaining remaining t = t\<lparr>sl_remaining := remaining\<rparr>"

definition setTargetAlbumId :: "string option \<Rightarrow> sleep_timer \<Rightarrow> sleep_timer" where
  "setTargetAlbumId albumId t = t\<lparr>sl_targetAlbumId := albumId\<rparr>"

definition startEndOfAlbumTimer :: "sleep_timer \<Rightarrow> sleep_timer" where
  "startEndOfAlbumTimer t =
     \<lparr>sl_active = True, sl_mode = endOfAlbum, sl_remaining = 0, sl_targetAlbumId = None\<rparr>"

definition startEndOfSongTimer :: "sleep_timer \<Rightarrow> sleep_timer" where
  "startEndOfSongTimer t =
     \<lparr>sl_active = True, sl_mode = endOfSong, sl_remaining = 0, sl_targetAlbumId = None\<rparr>"

definition startTimedTimer :: "rat \<Rightarrow> sleep_timer \<Rightarrow> sleep_timer" where
  "startTimedTimer durationSeconds t =
     \<lparr>sl_active = True, sl_mode = timed, sl_remaining = durationSeconds, sl_targetAlbumId = None\<rparr>"

definition initialTimer :: sleep_timer where
  "initialTimer = \<lparr>sl_active = False, sl_mode = timed, sl_remaining = 0, sl_targetAlbumId = None\<rparr>"

section \<open>The hook\<close>

text \<open>The world of the player, the store, and the mode that is rendered (None: the hook is not mounted).\<close>

record sleeper =
  sl_world :: world
  sl_timer :: sleep_timer
  sl_rendered :: "SleepTimerMode option"

definition evaluateEndOfAlbum :: "world \<times> sleep_timer \<Rightarrow> world \<times> sleep_timer" where
  "evaluateEndOfAlbum wt =
     (let (w, t) = wt; d = getPlayerData (w_store w)
      in case d_currentSong d of
           None \<Rightarrow> (w, t)
         | Some currentSong \<Rightarrow>
             (let (target, t1) = (case sl_targetAlbumId t of
                    None \<Rightarrow> (s_albumId currentSong, setTargetAlbumId (Some (s_albumId currentSong)) t)
                  | Some albumId \<Rightarrow> (albumId, t))
              in if s_albumId currentSong \<noteq> target
                 then (setPauseOnNextSongEnd False w, cancelTimer t1)
                 else
                   (let isLastOfAlbum = (case d_nextSong d of None \<Rightarrow> True
                          | Some nextSong \<Rightarrow> s_albumId nextSong \<noteq> s_albumId currentSong)
                    in (setPauseOnNextSongEnd isLastOfAlbum w, t1))))"

abbreviation on_sleeper :: "(world \<times> sleep_timer \<Rightarrow> world \<times> sleep_timer) \<Rightarrow> sleeper \<Rightarrow> sleeper" where
  "on_sleeper f x \<equiv> x\<lparr>sl_world := fst (f (sl_world x, sl_timer x)), sl_timer := snd (f (sl_world x, sl_timer x))\<rparr>"

definition sleepOnCurrentSongChange :: "sleeper \<Rightarrow> sleeper" where
  "sleepOnCurrentSongChange x =
     (case sl_rendered x of
        None \<Rightarrow> x
      | Some endOfSong \<Rightarrow> x\<lparr>sl_timer := cancelTimer (sl_timer x), sl_world := mediaPause (sl_world x)\<rparr>
      | Some endOfAlbum \<Rightarrow> on_sleeper evaluateEndOfAlbum x
      | Some timed \<Rightarrow> x)"

definition sleepOnPlayerProgress :: "sleeper \<Rightarrow> sleeper" where
  "sleepOnPlayerProgress x =
     (if sl_rendered x = None \<or> p_status (player (w_store (sl_world x))) \<noteq> PLAYING then x
      else if sl_rendered x = Some timed then
        (let remaining = sl_remaining (sl_timer x)
         in if remaining \<le> 0
            then x\<lparr>sl_timer := cancelTimer (sl_timer x), sl_world := mediaPause (sl_world x)\<rparr>
            else x\<lparr>sl_timer := setRemaining (max 0 (remaining - 1)) (sl_timer x)\<rparr>)
      else x)"

text \<open>The effect and its clean-up, which run when the mode or the activity has changed.\<close>

definition sleepCleanup :: "SleepTimerMode option \<Rightarrow> world \<Rightarrow> world" where
  "sleepCleanup rendered w =
     (if rendered = Some endOfSong \<or> rendered = Some endOfAlbum then setPauseOnNextSongEnd False w else w)"

definition sleepEffect :: "SleepTimerMode option \<Rightarrow> world \<times> sleep_timer \<Rightarrow> world \<times> sleep_timer" where
  "sleepEffect mode wt =
     (case mode of
        Some endOfSong \<Rightarrow> (setPauseOnNextSongEnd True (fst wt), snd wt)
      | Some endOfAlbum \<Rightarrow> evaluateEndOfAlbum wt
      | _ \<Rightarrow> wt)"

definition renderSleepTimer :: "sleeper \<Rightarrow> sleeper" where
  "renderSleepTimer x =
     (let mode = (if sl_active (sl_timer x) then Some (sl_mode (sl_timer x)) else None)
      in if mode = sl_rendered x then x
         else (on_sleeper (\<lambda>(w, t). sleepEffect mode (sleepCleanup (sl_rendered x) w, t)) x)
           \<lparr>sl_rendered := mode\<rparr>)"

section \<open>The button and the player\<close>

datatype sleep_preset = Preset_endOfSong | Preset_endOfAlbum | Preset_minutes nat

definition handlePreset :: "sleep_preset \<Rightarrow> sleep_timer \<Rightarrow> sleep_timer" where
  "handlePreset preset t =
     (case preset of
        Preset_endOfSong \<Rightarrow> startEndOfSongTimer t
      | Preset_endOfAlbum \<Rightarrow> startEndOfAlbumTimer t
      | Preset_minutes m \<Rightarrow> startTimedTimer (of_nat (m * 60)) t)"

definition handleCustomStart :: "nat \<Rightarrow> nat \<Rightarrow> nat \<Rightarrow> sleep_timer \<Rightarrow> sleep_timer" where
  "handleCustomStart customHours customMinutes customSeconds t =
     (let totalSeconds = customHours * 3600 + customMinutes * 60 + customSeconds
      in if 0 < totalSeconds then startTimedTimer (of_nat totalSeconds) t else t)"

text \<open>
  An action of the player: when the current song changes, the subscription calls the handler of the
  rendered hook; then the hook renders.
\<close>

definition sleepPlayer :: "(world \<Rightarrow> world) \<Rightarrow> sleeper \<Rightarrow> sleeper" where
  "sleepPlayer f x =
     (let w = f (sl_world x); x1 = x\<lparr>sl_world := w\<rparr>
      in renderSleepTimer
           (if subscribeCurrentTrack (w_store (sl_world x)) (w_store w) \<noteq> None
            then sleepOnCurrentSongChange x1 else x1))"

datatype sleep_op =
    Sl_preset sleep_preset
  | Sl_custom nat nat nat
  | Sl_cancel
  | Sl_progress
  | Sl_trackEnd
  | Sl_next
  | Sl_play "string option"
  | Sl_pause

fun sleep_step :: "sleep_op \<Rightarrow> sleeper \<Rightarrow> sleeper" where
  "sleep_step (Sl_preset preset) x = renderSleepTimer (x\<lparr>sl_timer := handlePreset preset (sl_timer x)\<rparr>)"
| "sleep_step (Sl_custom h m s) x = renderSleepTimer (x\<lparr>sl_timer := handleCustomStart h m s (sl_timer x)\<rparr>)"
| "sleep_step Sl_cancel x = renderSleepTimer (x\<lparr>sl_timer := cancelTimer (sl_timer x)\<rparr>)"
| "sleep_step Sl_progress x = renderSleepTimer (sleepOnPlayerProgress x)"
| "sleep_step Sl_trackEnd x = sleepPlayer (\<lambda>w. fst (mediaAutoNext w)) x"
| "sleep_step Sl_next x = sleepPlayer mediaNext x"
| "sleep_step (Sl_play k) x = sleepPlayer (mediaPlay k) x"
| "sleep_step Sl_pause x = sleepPlayer mediaPause x"

section \<open>The invariant\<close>

abbreviation pauseFlag :: "world \<Rightarrow> bool" where
  "pauseFlag w \<equiv> p_pauseOnNextSongEnd (player (w_store w))"

definition timer_mode :: "sleep_timer \<Rightarrow> SleepTimerMode option" where
  "timer_mode t = (if sl_active t then Some (sl_mode t) else None)"

text \<open>
  The hook is rendered for the mode of the store, and without a mode that ends with a song or an album
  no flag is left behind that would pause the player.
\<close>

definition sleeper_ok :: "sleeper \<Rightarrow> bool" where
  "sleeper_ok x = (sl_rendered x = timer_mode (sl_timer x)
     \<and> (sl_rendered x \<noteq> Some endOfSong \<and> sl_rendered x \<noteq> Some endOfAlbum \<longrightarrow> \<not> pauseFlag (sl_world x)))"

lemma timer_mode_simps [simp]:
  "timer_mode (cancelTimer t) = None"
  "timer_mode (startEndOfAlbumTimer t) = Some endOfAlbum"
  "timer_mode (startEndOfSongTimer t) = Some endOfSong"
  "timer_mode (startTimedTimer n t) = Some timed"
  "timer_mode (setRemaining n t) = timer_mode t"
  "timer_mode (setTargetAlbumId a t) = timer_mode t"
  by (simp_all add: timer_mode_def cancelTimer_def startEndOfAlbumTimer_def startEndOfSongTimer_def
      startTimedTimer_def setRemaining_def setTargetAlbumId_def)

lemma pauseFlag_simps [simp]:
  "pauseFlag (setPauseOnNextSongEnd b w) = b"
  "pauseFlag (mediaPause w) = pauseFlag w"
  by (simp_all add: setPauseOnNextSongEnd_def mediaPause_def)

lemma pauseFlag_player [simp]:
  "pauseFlag (mediaNext w) = pauseFlag w"
  "pauseFlag (mediaPlay k w) = pauseFlag w"
  "pauseFlag (fst (mediaAutoNext w)) = False"
  by (simp_all add: mediaNext_def mediaPlay_def Let_def emit_def setTimestampStore_def
      mediaAutoNext_player split: option.split)

lemma evaluate_mode:
  "sl_targetAlbumId t = None \<Longrightarrow> timer_mode (snd (evaluateEndOfAlbum (w, t))) = timer_mode t"
  by (simp add: evaluateEndOfAlbum_def Let_def split: option.split)

lemma evaluate_cases:
  "timer_mode (snd (evaluateEndOfAlbum (w, t))) = timer_mode t
   \<or> timer_mode (snd (evaluateEndOfAlbum (w, t))) = None \<and> \<not> pauseFlag (fst (evaluateEndOfAlbum (w, t)))"
  by (auto simp: evaluateEndOfAlbum_def Let_def split: option.split prod.split)

lemma renderSleepTimer_ok:
  assumes "timer_mode (sl_timer x) = Some endOfAlbum \<Longrightarrow> sl_rendered x \<noteq> Some endOfAlbum
      \<Longrightarrow> sl_targetAlbumId (sl_timer x) = None"
    and "sl_rendered x \<noteq> Some endOfSong \<Longrightarrow> sl_rendered x \<noteq> Some endOfAlbum \<Longrightarrow> \<not> pauseFlag (sl_world x)"
  shows "sleeper_ok (renderSleepTimer x)"
proof (cases "timer_mode (sl_timer x) = sl_rendered x")
  case True
  then show ?thesis using assms(2)
    by (simp add: renderSleepTimer_def Let_def timer_mode_def [symmetric] sleeper_ok_def)
next
  case False
  have clean: "\<not> pauseFlag (sleepCleanup (sl_rendered x) (sl_world x))"
    using assms(2) by (auto simp: sleepCleanup_def)
  have target: "sl_targetAlbumId (sl_timer x) = None" if "timer_mode (sl_timer x) = Some endOfAlbum"
    using assms(1) that False by auto
  show ?thesis
  proof (cases "timer_mode (sl_timer x)")
    case None
    then show ?thesis using False clean
      by (simp add: renderSleepTimer_def Let_def timer_mode_def [symmetric] sleeper_ok_def sleepEffect_def)
  next
    case (Some m)
    then show ?thesis using False clean target
      by (cases m) (simp_all add: renderSleepTimer_def Let_def timer_mode_def [symmetric] sleeper_ok_def
          sleepEffect_def evaluate_mode)
  qed
qed

lemma start_target [simp]:
  "sl_targetAlbumId (handlePreset preset t) = None"
  "sl_targetAlbumId (cancelTimer t) = None"
  by (cases preset; simp add: handlePreset_def startEndOfAlbumTimer_def startEndOfSongTimer_def startTimedTimer_def)
    (simp add: cancelTimer_def)

lemma sleeper_ok_player:
  assumes "sleeper_ok x" and "pauseFlag (f (sl_world x)) \<Longrightarrow> pauseFlag (sl_world x)"
  shows "sleeper_ok (sleepPlayer f x)"
proof -
  let ?w = "f (sl_world x)"
  let ?x1 = "x\<lparr>sl_world := ?w\<rparr>"
  have ok: "sl_rendered x = timer_mode (sl_timer x)"
    "sl_rendered x \<noteq> Some endOfSong \<Longrightarrow> sl_rendered x \<noteq> Some endOfAlbum \<Longrightarrow> \<not> pauseFlag ?w"
    using assms by (auto simp: sleeper_ok_def)
  have "sleeper_ok (renderSleepTimer ?x1)"
    by (rule renderSleepTimer_ok) (use ok in auto)
  moreover have "sleeper_ok (renderSleepTimer (sleepOnCurrentSongChange ?x1))"
  proof (rule renderSleepTimer_ok, goal_cases)
    case 1
    then show ?case
      using ok evaluate_cases [of ?w "sl_timer x"]
      by (auto simp: sleepOnCurrentSongChange_def split: option.splits SleepTimerMode.splits)
  next
    case 2
    then show ?case
      using ok by (auto simp: sleepOnCurrentSongChange_def split: option.splits SleepTimerMode.splits)
  qed
  ultimately show ?thesis by (simp add: sleepPlayer_def Let_def)
qed

lemma sleeper_ok_step: "sleeper_ok x \<Longrightarrow> sleeper_ok (sleep_step a x)"
proof (cases a)
  case Sl_progress
  assume ok: "sleeper_ok x"
  show ?thesis unfolding Sl_progress sleep_step.simps
    by (rule renderSleepTimer_ok; use ok in \<open>auto simp: sleepOnPlayerProgress_def sleeper_ok_def Let_def split: if_splits\<close>)
next
  case (Sl_custom h m s)
  assume ok: "sleeper_ok x"
  show ?thesis unfolding Sl_custom sleep_step.simps
    by (rule renderSleepTimer_ok; use ok in \<open>auto simp: handleCustomStart_def sleeper_ok_def Let_def split: if_splits\<close>)
next
  case (Sl_preset preset)
  assume ok: "sleeper_ok x"
  show ?thesis unfolding Sl_preset sleep_step.simps
    by (rule renderSleepTimer_ok; use ok in \<open>auto simp: sleeper_ok_def\<close>)
next
  case Sl_cancel
  assume ok: "sleeper_ok x"
  show ?thesis unfolding Sl_cancel sleep_step.simps
    by (rule renderSleepTimer_ok; use ok in \<open>auto simp: sleeper_ok_def\<close>)
qed (simp_all only: sleep_step.simps; rule sleeper_ok_player; simp)+

interpretation sleeping: driven_component sleep_step sleeper_ok
  by unfold_locales (rule sleeper_ok_step)

section \<open>Albums of the playback order\<close>

definition albumAt :: "store \<Rightarrow> nat \<Rightarrow> string option" where
  "albumAt s j = map_option s_albumId (map_of (q_songs (queue s)) (playOrder s ! j))"

lemma queueItems_lookup:
  assumes "store_ok s" and "x \<in> set (queueItems s)"
  shows "map_of (q_songs (queue s)) (uniqueId x) = Some x"
proof -
  obtain k where k: "map_of (q_songs (queue s)) k = Some x"
    using assms(2) unfolding queueItems_def by (force simp: List.map_filter_def)
  then have "(k, x) \<in> set (q_songs (queue s))" by (rule map_of_SomeD)
  then have "uniqueId x = k" using assms(1) by (auto simp: store_ok_def list_all_iff)
  with k show ?thesis by simp
qed

lemma nextSongAt_in_queue:
  "nextSongAt sh items shuffled rep i qi = Some y \<Longrightarrow> y \<in> set items"
  by (auto simp: nextSongAt_def songAtShuffled_def calculateNextSong_def Let_def
      split: if_splits option.splits dest: js_nth_in_set)

lemma getPlayerData_in_queue:
  "d_currentSong (getPlayerData s) = Some x \<Longrightarrow> x \<in> set (queueItems s)"
  "d_nextSong (getPlayerData s) = Some x \<Longrightarrow> x \<in> set (queueItems s)"
  by (auto simp: getPlayerData_def Let_def case_prod_beta dest: js_nth_in_set nextSongAt_in_queue)

lemma getPlayerData_album:
  assumes "plays n i s"
  shows "map_option s_albumId (d_currentSong (getPlayerData s)) = albumAt s i"
    and "Suc i < n \<Longrightarrow> p_repeat (player s) \<noteq> Repeat_ONE \<Longrightarrow>
      map_option s_albumId (d_nextSong (getPlayerData s)) = albumAt s (Suc i)"
proof -
  have ok: "store_ok s" and n: "n = length (playOrder s)" using assms by (simp_all add: plays_def)
  have album: "map_option s_albumId d = map_option s_albumId (map_of (q_songs (queue s)) k)"
    if "map_option uniqueId d = Some k" and "\<And>x. d = Some x \<Longrightarrow> x \<in> set (queueItems s)" for d k
    using that queueItems_lookup [OF ok] by auto
  show "map_option s_albumId (d_currentSong (getPlayerData s)) = albumAt s i"
    unfolding albumAt_def
    by (rule album [OF getPlayerData_plays(1) [OF assms]]) (rule getPlayerData_in_queue)
  assume nxt: "Suc i < n" "p_repeat (player s) \<noteq> Repeat_ONE"
  then have "next_id (playOrder s) (int i) (p_repeat (player s)) = Some (playOrder s ! Suc i)"
    by (cases "p_repeat (player s)") (simp_all add: next_id_next_pos n next_pos_def)
  then have "map_option uniqueId (d_nextSong (getPlayerData s)) = Some (playOrder s ! Suc i)"
    using getPlayerData_plays(2) [OF assms] by simp
  then show "map_option s_albumId (d_nextSong (getPlayerData s)) = albumAt s (Suc i)"
    unfolding albumAt_def by (rule album) (rule getPlayerData_in_queue)
qed

lemma evaluate_at:
  assumes "plays n i (w_store w)" and "Suc i < n" and "p_repeat (player (w_store w)) \<noteq> Repeat_ONE"
    and "albumAt (w_store w) i = Some a" and "sl_targetAlbumId t = None \<or> sl_targetAlbumId t = Some a"
  shows "evaluateEndOfAlbum (w, t) =
    (setPauseOnNextSongEnd (albumAt (w_store w) (Suc i) \<noteq> Some a) w, t\<lparr>sl_targetAlbumId := Some a\<rparr>)"
proof -
  obtain x where x: "d_currentSong (getPlayerData (w_store w)) = Some x" "s_albumId x = a"
    using getPlayerData_album(1) [OF assms(1)] assms(4) by auto
  have nxt: "map_option s_albumId (d_nextSong (getPlayerData (w_store w))) = albumAt (w_store w) (Suc i)"
    by (rule getPlayerData_album(2) [OF assms(1-3)])
  have t: "t = t\<lparr>sl_targetAlbumId := Some a\<rparr>" if "sl_targetAlbumId t = Some a" using that by simp
  show ?thesis
    unfolding nxt [symmetric] using assms(5) x t
    by (cases "d_nextSong (getPlayerData (w_store w))")
      (auto simp: evaluateEndOfAlbum_def Let_def setTargetAlbumId_def)
qed

lemma evaluate_other_album:
  assumes "plays n i (w_store w)" and "sl_targetAlbumId t = Some a" and "albumAt (w_store w) i = Some b" and "b \<noteq> a"
  shows "evaluateEndOfAlbum (w, t) = (setPauseOnNextSongEnd False w, cancelTimer t)"
proof -
  obtain x where "d_currentSong (getPlayerData (w_store w)) = Some x" "s_albumId x = b"
    using getPlayerData_album(1) [OF assms(1)] assms(3) by auto
  then show ?thesis using assms(2,4) by (simp add: evaluateEndOfAlbum_def)
qed

section \<open>Tracks that end\<close>

lemma subscribeCurrentTrack_ids: "subscribeCurrentTrack s t \<noteq> None \<longleftrightarrow> currentId s \<noteq> currentId t"
  by (auto simp: subscribeCurrentTrack_def Let_def currentId_def getCurrentSong_eq currentQueueIndex_def)

lemma subscribeCurrentTrack_same: "currentId s = currentId t \<Longrightarrow> subscribeCurrentTrack s t = None"
  using subscribeCurrentTrack_ids [of s t] by (cases "subscribeCurrentTrack s t") simp_all

lemma plays_status [simp]: "plays n i (set_status st s) = plays n i s"
  by (simp add: plays_def order_ok_def playOrder_def isShuffleEnabled_def)

lemma currentId_status [simp]: "currentId (set_status st s) = currentId s"
  by (simp add: currentId_def getCurrentSong_eq currentQueueIndex_def isShuffleEnabled_def queueItems_def)

text \<open>While one song is repeated its end changes nothing that the hook is told of.\<close>

lemma repeat_one_ends:
  assumes "plays n i (w_store w)" and "p_repeat (player (w_store w)) = Repeat_ONE"
  defines "v \<equiv> fst (mediaAutoNext w)"
  shows "plays n i (w_store v)" "p_repeat (player (w_store v)) = Repeat_ONE"
    "subscribeCurrentTrack (w_store w) (w_store v) = None"
proof -
  show v: "plays n i (w_store v)"
    using plays_mediaAutoNext [OF assms(1)] by (simp add: assms(2) next_pos_def v_def)
  show "p_repeat (player (w_store v)) = Repeat_ONE" by (simp add: v_def mediaAutoNext_player assms(2))
  show "subscribeCurrentTrack (w_store w) (w_store v) = None"
    by (rule subscribeCurrentTrack_same) (simp add: plays_currentId [OF assms(1)] plays_currentId [OF v], simp add: v_def)
qed

lemma trackEnd_plays:
  assumes "plays n i (w_store w)" and "Suc i < n" and "p_repeat (player (w_store w)) \<noteq> Repeat_ONE"
  defines "t \<equiv> w_store (fst (mediaAutoNext w))"
  shows "plays n (Suc i) t" and "p_repeat (player t) = p_repeat (player (w_store w))"
    and "p_status (player t) = (if pauseFlag w then PAUSED else PLAYING)"
    and "albumAt t j = albumAt (w_store w) j"
    and "distinct (playOrder (w_store w)) \<Longrightarrow> subscribeCurrentTrack (w_store w) t \<noteq> None"
proof -
  have pos: "next_pos n (p_repeat (player (w_store w))) i = Suc i"
    using assms(2,3) by (cases "p_repeat (player (w_store w))") (simp_all add: next_pos_def)
  show plays: "plays n (Suc i) t" using plays_mediaAutoNext [OF assms(1)] by (simp add: pos t_def)
  show "p_repeat (player t) = p_repeat (player (w_store w))" by (simp add: t_def mediaAutoNext_player)
  show "p_status (player t) = (if pauseFlag w then PAUSED else PLAYING)"
    using assms(2) by (simp add: t_def plays_mediaAutoNext_status [OF assms(1)])
  have order: "playOrder t = playOrder (w_store w)" by (simp add: t_def)
  show "albumAt t j = albumAt (w_store w) j"
    by (simp add: albumAt_def order) (simp add: t_def mediaAutoNext_frame)
  assume "distinct (playOrder (w_store w))"
  then show "subscribeCurrentTrack (w_store w) t \<noteq> None"
    unfolding subscribeCurrentTrack_ids plays_currentId [OF assms(1)] plays_currentId [OF plays] order
    using assms(1,2) by (simp add: plays_def nth_eq_iff_index_eq)
qed

text \<open>
  The timer waits for the end of album \<open>a\<close> while position \<open>i\<close> plays: the flag is set when the next
  position is another album's.
\<close>

definition awaits_album :: "string \<Rightarrow> nat \<Rightarrow> nat \<Rightarrow> sleeper \<Rightarrow> bool" where
  "awaits_album a n i x = (plays n i (w_store (sl_world x)) \<and> Suc i < n
     \<and> p_repeat (player (w_store (sl_world x))) \<noteq> Repeat_ONE
     \<and> distinct (playOrder (w_store (sl_world x)))
     \<and> albumAt (w_store (sl_world x)) i = Some a
     \<and> sl_timer x = \<lparr>sl_active = True, sl_mode = endOfAlbum, sl_remaining = 0, sl_targetAlbumId = Some a\<rparr>
     \<and> sl_rendered x = Some endOfAlbum
     \<and> (pauseFlag (sl_world x) \<longleftrightarrow> albumAt (w_store (sl_world x)) (Suc i) \<noteq> Some a))"

lemma setPause_store [simp]:
  "plays n i (w_store (setPauseOnNextSongEnd b w)) = plays n i (w_store w)"
  "albumAt (w_store (setPauseOnNextSongEnd b w)) j = albumAt (w_store w) j"
  "playOrder (w_store (setPauseOnNextSongEnd b w)) = playOrder (w_store w)"
  "p_repeat (player (w_store (setPauseOnNextSongEnd b w))) = p_repeat (player (w_store w))"
  "p_status (player (w_store (setPauseOnNextSongEnd b w))) = p_status (player (w_store w))"
  by (simp_all add: setPauseOnNextSongEnd_def plays_def albumAt_def order_ok_def playOrder_def isShuffleEnabled_def)

lemma render_same [simp]:
  "sl_rendered x = timer_mode (sl_timer x) \<Longrightarrow> renderSleepTimer x = x"
  by (simp add: renderSleepTimer_def timer_mode_def [symmetric])

lemma render_cancelled:
  "timer_mode (sl_timer x) = None \<Longrightarrow> sl_rendered x = Some m \<Longrightarrow> m \<noteq> timed \<Longrightarrow>
     renderSleepTimer x = x\<lparr>sl_world := setPauseOnNextSongEnd False (sl_world x), sl_rendered := None\<rparr>"
  by (cases m) (auto simp: renderSleepTimer_def timer_mode_def [symmetric] sleepEffect_def sleepCleanup_def)

lemma awaits_album_step:
  assumes "awaits_album a n i x" and "albumAt (w_store (sl_world x)) (Suc i) = Some a" and "Suc (Suc i) < n"
  shows "awaits_album a n (Suc i) (sleep_step Sl_trackEnd x)"
    and "p_status (player (w_store (sl_world (sleep_step Sl_trackEnd x)))) = PLAYING"
proof -
  let ?w = "sl_world x" and ?t = "sl_timer x"
  let ?v = "fst (mediaAutoNext ?w)"
  have x: "plays n i (w_store ?w)" "Suc i < n" "p_repeat (player (w_store ?w)) \<noteq> Repeat_ONE"
      "distinct (playOrder (w_store ?w))" "sl_rendered x = Some endOfAlbum" "\<not> pauseFlag ?w"
      "?t = \<lparr>sl_active = True, sl_mode = endOfAlbum, sl_remaining = 0, sl_targetAlbumId = Some a\<rparr>"
    using assms(1,2) by (simp_all add: awaits_album_def)
  note fin = trackEnd_plays [OF x(1-3)]
  have ev: "evaluateEndOfAlbum (?v, ?t) =
      (setPauseOnNextSongEnd (albumAt (w_store ?v) (Suc (Suc i)) \<noteq> Some a) ?v, ?t)"
    using evaluate_at [OF fin(1) assms(3), of a ?t] x(3,7) assms(2) by (simp add: fin(2,4))
  have step: "sleep_step Sl_trackEnd x =
      x\<lparr>sl_world := setPauseOnNextSongEnd (albumAt (w_store ?v) (Suc (Suc i)) \<noteq> Some a) ?v, sl_timer := ?t\<rparr>"
    using fin(5) [OF x(4)] x(5)
    by (simp add: sleepPlayer_def Let_def sleepOnCurrentSongChange_def ev) (simp add: x(7) timer_mode_def)
  show "awaits_album a n (Suc i) (sleep_step Sl_trackEnd x)"
    unfolding step using x fin assms(2,3) by (simp add: awaits_album_def)
  show "p_status (player (w_store (sl_world (sleep_step Sl_trackEnd x)))) = PLAYING"
    unfolding step using x(6) fin(3) by simp
qed

lemma evaluate_frame:
  "albumAt (w_store (fst (evaluateEndOfAlbum (w, t)))) = albumAt (w_store w)"
  by (simp add: fun_eq_iff evaluateEndOfAlbum_def Let_def split: option.split)

lemma render_frame:
  "albumAt (w_store (sl_world (renderSleepTimer x))) = albumAt (w_store (sl_world x))"
  by (simp add: fun_eq_iff renderSleepTimer_def Let_def case_prod_beta sleepEffect_def sleepCleanup_def
      evaluate_frame split: option.split SleepTimerMode.split)

lemma trackEnd_albums:
  "albumAt (w_store (sl_world (sleep_step Sl_trackEnd x))) = albumAt (w_store (sl_world x))"
proof -
  have auto_next: "albumAt (w_store (fst (mediaAutoNext w))) = albumAt (w_store w)" for w
    by (simp add: fun_eq_iff albumAt_def mediaAutoNext_frame)
  have pause: "albumAt (w_store (mediaPause w)) = albumAt (w_store w)" for w
    by (simp add: fun_eq_iff albumAt_def mediaPause_def playOrder_def isShuffleEnabled_def)
  show ?thesis
    by (simp add: sleepPlayer_def Let_def render_frame sleepOnCurrentSongChange_def evaluate_frame auto_next pause
        split: option.split SleepTimerMode.split)
qed

lemma awaits_album_run:
  assumes "awaits_album a n i x" and "\<And>j. j \<le> m \<Longrightarrow> albumAt (w_store (sl_world x)) (i + j) = Some a"
    and "Suc (i + m) < n"
  shows "awaits_album a n (i + m) ((sleep_step Sl_trackEnd ^^ m) x)
    \<and> albumAt (w_store (sl_world ((sleep_step Sl_trackEnd ^^ m) x))) = albumAt (w_store (sl_world x))"
  using assms(2,3)
proof (induction m)
  case (Suc m)
  let ?y = "(sleep_step Sl_trackEnd ^^ m) x"
  have y: "awaits_album a n (i + m) ?y" "albumAt (w_store (sl_world ?y)) = albumAt (w_store (sl_world x))"
    using Suc by (simp_all del: sleep_step.simps)
  have nxt: "albumAt (w_store (sl_world ?y)) (Suc (i + m)) = Some a"
    using Suc.prems(1) [of "Suc m"] by (simp add: y(2))
  have frame: "albumAt (w_store (sl_world (sleep_step Sl_trackEnd ?y))) = albumAt (w_store (sl_world ?y))"
    by (rule trackEnd_albums)
  show ?case using awaits_album_step(1) [OF y(1) nxt] Suc.prems(2)
    by (simp add: frame y(2) del: sleep_step.simps)
qed (simp add: assms(1))

lemma evaluate_status:
  "p_status (player (w_store (fst (evaluateEndOfAlbum (w, t))))) = p_status (player (w_store w))"
  by (simp add: evaluateEndOfAlbum_def Let_def split: option.split)

lemma render_status:
  "p_status (player (w_store (sl_world (renderSleepTimer x)))) = p_status (player (w_store (sl_world x)))"
  by (simp add: renderSleepTimer_def Let_def case_prod_beta sleepEffect_def sleepCleanup_def
      evaluate_status split: option.split SleepTimerMode.split)

lemma awaits_album_status:
  assumes "awaits_album a n i x" and "p_status (player (w_store (sl_world x))) = PLAYING"
    and "\<And>j. j \<le> m \<Longrightarrow> albumAt (w_store (sl_world x)) (i + j) = Some a" and "Suc (i + m) < n"
  shows "p_status (player (w_store (sl_world ((sleep_step Sl_trackEnd ^^ m) x)))) = PLAYING"
proof (cases m)
  case (Suc k)
  let ?y = "(sleep_step Sl_trackEnd ^^ k) x"
  have y: "awaits_album a n (i + k) ?y" "albumAt (w_store (sl_world ?y)) = albumAt (w_store (sl_world x))"
    using awaits_album_run [OF assms(1), of k] assms(3,4) by (simp_all add: Suc del: sleep_step.simps)
  then show ?thesis
    using awaits_album_step(2) [OF y(1)] assms(3) [of m] assms(4) by (simp add: Suc y(2) del: sleep_step.simps)
qed (simp add: assms(2))

lemma awaits_album_end:
  assumes "awaits_album a n i x" and "albumAt (w_store (sl_world x)) (Suc i) = Some b" and "b \<noteq> a"
  defines "y \<equiv> sleep_step Sl_trackEnd x"
  shows "p_status (player (w_store (sl_world y))) = PAUSED \<and> plays n (Suc i) (w_store (sl_world y))
    \<and> \<not> sl_active (sl_timer y) \<and> sl_rendered y = None \<and> \<not> pauseFlag (sl_world y)"
proof -
  let ?w = "sl_world x" and ?t = "sl_timer x"
  let ?v = "fst (mediaAutoNext ?w)"
  have x: "plays n i (w_store ?w)" "Suc i < n" "p_repeat (player (w_store ?w)) \<noteq> Repeat_ONE"
      "distinct (playOrder (w_store ?w))" "sl_rendered x = Some endOfAlbum" "pauseFlag ?w"
      "sl_targetAlbumId ?t = Some a"
    using assms(1-3) by (simp_all add: awaits_album_def)
  note fin = trackEnd_plays [OF x(1-3)]
  have ev: "evaluateEndOfAlbum (?v, ?t) = (setPauseOnNextSongEnd False ?v, cancelTimer ?t)"
    using assms(2,3) by (intro evaluate_other_album [OF fin(1) x(7)]) (simp_all add: fin(4))
  have "y = x\<lparr>sl_world := setPauseOnNextSongEnd False (setPauseOnNextSongEnd False ?v),
      sl_timer := cancelTimer ?t, sl_rendered := None\<rparr>"
    unfolding y_def using fin(5) [OF x(4)] x(5)
    by (simp add: sleepPlayer_def Let_def sleepOnCurrentSongChange_def ev render_cancelled)
  then show ?thesis using fin(1,3) x(6) by (simp add: cancelTimer_def)
qed

lemma start_end_of_album:
  assumes "plays n i (w_store w)" and "Suc i < n" and "p_repeat (player (w_store w)) \<noteq> Repeat_ONE"
    and "distinct (playOrder (w_store w))" and "albumAt (w_store w) i = Some a"
    and "sl_world x = w" and "sl_rendered x \<noteq> Some endOfAlbum"
  shows "awaits_album a n i (sleep_step (Sl_preset Preset_endOfAlbum) x)"
proof -
  let ?t = "startEndOfAlbumTimer (sl_timer x)" and ?c = "sleepCleanup (sl_rendered x) w"
  have c: "plays n i (w_store ?c)" "p_repeat (player (w_store ?c)) \<noteq> Repeat_ONE" "distinct (playOrder (w_store ?c))"
    "albumAt (w_store ?c) = albumAt (w_store w)"
    using assms(1,3,4) by (simp_all add: sleepCleanup_def fun_eq_iff)
  have ev: "evaluateEndOfAlbum (?c, ?t) =
      (setPauseOnNextSongEnd (albumAt (w_store ?c) (Suc i) \<noteq> Some a) ?c, ?t\<lparr>sl_targetAlbumId := Some a\<rparr>)"
    by (rule evaluate_at [OF c(1) assms(2) c(2)]) (simp_all add: startEndOfAlbumTimer_def c(4) assms(5))
  have "sleep_step (Sl_preset Preset_endOfAlbum) x =
      x\<lparr>sl_world := setPauseOnNextSongEnd (albumAt (w_store ?c) (Suc i) \<noteq> Some a) ?c,
        sl_timer := ?t\<lparr>sl_targetAlbumId := Some a\<rparr>, sl_rendered := Some endOfAlbum\<rparr>"
    using assms(6,7) ev by (auto simp: handlePreset_def renderSleepTimer_def sleepEffect_def startEndOfAlbumTimer_def)
  then show ?thesis using c assms(2,5) by (simp add: awaits_album_def startEndOfAlbumTimer_def)
qed

lemma timer_cleanup_frame [simp]:
  "albumAt (w_store (sleepCleanup r w)) = albumAt (w_store w)"
  "p_status (player (w_store (sleepCleanup r w))) = p_status (player (w_store w))"
  by (simp_all add: sleepCleanup_def fun_eq_iff)

section \<open>Properties\<close>

text \<open>
  C18: The timer for the end of the album lets the rest of the album play and then pauses: started
  at a song of an album that goes on for \<open>m\<close> more songs in the playback order, which then has a song of another album, it lets \<open>m\<close>
  track ends pass, and the next one leaves the player paused at the first song of the other album, the timer switched off.
  It may replace a timer of another kind. The player plays in a queue without repetitions and does not repeat one
  song, and no timer for the end of the album is active already: started again, that timer can go on into the next album.
\<close>

theorem sleep_timer_ends_with_album:
  assumes "plays n i (w_store w)" and "p_repeat (player (w_store w)) \<noteq> Repeat_ONE"
    and "distinct (playOrder (w_store w))" and "p_status (player (w_store w)) = PLAYING"
    and "\<And>j. j \<le> m \<Longrightarrow> albumAt (w_store w) (i + j) = Some a"
    and "Suc (i + m) < n" and "albumAt (w_store w) (Suc (i + m)) = Some b" and "b \<noteq> a"
    and "sl_world x0 = w" and "sl_rendered x0 \<noteq> Some endOfAlbum"
    and "x = sleep_step (Sl_preset Preset_endOfAlbum) x0"
    and "y = (sleep_step Sl_trackEnd ^^ m) x" and "z = sleep_step Sl_trackEnd y"
  shows "plays n (i + m) (w_store (sl_world y)) \<and> p_status (player (w_store (sl_world y))) = PLAYING
    \<and> sl_active (sl_timer y)
    \<and> plays n (Suc (i + m)) (w_store (sl_world z)) \<and> p_status (player (w_store (sl_world z))) = PAUSED
    \<and> \<not> sl_active (sl_timer z) \<and> \<not> pauseFlag (sl_world z)"
proof -
  have start: "awaits_album a n i x"
    unfolding assms(11)
    by (rule start_end_of_album [OF assms(1) _ assms(2,3) _ assms(9,10)]) (use assms(5) [of 0] assms(6) in simp_all)
  have albums: "albumAt (w_store (sl_world x)) = albumAt (w_store w)"
    by (simp add: assms(11) render_frame assms(9))
  have status: "p_status (player (w_store (sl_world x))) = PLAYING"
    using assms(4) by (simp add: assms(11) render_status assms(9))
  have run: "awaits_album a n (i + m) y" "albumAt (w_store (sl_world y)) = albumAt (w_store w)"
    using awaits_album_run [OF start, of m] assms(5,6) by (simp_all add: assms(12) albums)
  have "p_status (player (w_store (sl_world y))) = PLAYING"
    unfolding assms(12) by (rule awaits_album_status [OF start status]) (use assms(5,6) in \<open>simp_all add: albums\<close>)
  moreover note awaits_album_end [OF run(1), of b] assms(7,8) run
  ultimately show ?thesis by (simp add: assms(13) awaits_album_def)
qed

text \<open>
  A flaw of starting the timer for the end of the album again. The hook is rendered for the same mode, so that it does
  not look at the album, but the album of the timer is forgotten: at the end of the last song of the album, the timer takes the
  next album as its own and stays active.
\<close>

lemma restarted_album_timer_goes_on:
  assumes "awaits_album a n i x" and "albumAt (w_store (sl_world x)) (Suc i) = Some b" and "Suc (Suc i) < n"
  defines "y \<equiv> sleep_step Sl_trackEnd (sleep_step (Sl_preset Preset_endOfAlbum) x)"
  shows "sl_active (sl_timer y) \<and> sl_targetAlbumId (sl_timer y) = Some b"
proof -
  let ?w = "sl_world x" and ?t = "startEndOfAlbumTimer (sl_timer x)"
  let ?v = "fst (mediaAutoNext ?w)"
  have x: "plays n i (w_store ?w)" "Suc i < n" "p_repeat (player (w_store ?w)) \<noteq> Repeat_ONE"
      "distinct (playOrder (w_store ?w))" "sl_rendered x = Some endOfAlbum"
    using assms(1) by (simp_all add: awaits_album_def)
  have again: "sleep_step (Sl_preset Preset_endOfAlbum) x = x\<lparr>sl_timer := ?t\<rparr>"
    using x(5) by (simp add: handlePreset_def)
  note fin = trackEnd_plays [OF x(1-3)]
  have ev: "evaluateEndOfAlbum (?v, ?t) =
      (setPauseOnNextSongEnd (albumAt (w_store ?v) (Suc (Suc i)) \<noteq> Some b) ?v, ?t\<lparr>sl_targetAlbumId := Some b\<rparr>)"
    by (rule evaluate_at [OF fin(1) assms(3)]) (use x(3) assms(2) in \<open>simp_all add: fin(2,4) startEndOfAlbumTimer_def\<close>)
  have "sl_timer y = ?t\<lparr>sl_targetAlbumId := Some b\<rparr>"
    unfolding y_def again using fin(5) [OF x(4)] x(5)
    by (simp add: sleepPlayer_def Let_def sleepOnCurrentSongChange_def ev) (simp add: startEndOfAlbumTimer_def timer_mode_def)
  then show ?thesis by (simp add: startEndOfAlbumTimer_def)
qed

text \<open>The example: three songs, the first of album A, the others of album B.\<close>

definition exampleAlbums :: world where
  "exampleAlbums = (let s = exampleStore Shuffle_NONE Repeat_NONE (Num 0)
     in exampleWorld (set_songs (map (\<lambda>(k, song). (k, song\<lparr>s_albumId := if k = ''u1'' then ''A'' else ''B''\<rparr>))
          (q_songs (queue s))) s))"

lemma exampleAlbums_plays: "plays 3 0 (w_store exampleAlbums)"
  by (simp add: exampleAlbums_def plays_def store_ok_def order_ok_def playOrder_def isShuffleEnabled_def exampleStore_def)

lemma exampleAlbums_albums [simp]:
  "playOrder (w_store exampleAlbums) = [''u1'', ''u2'', ''u3'']"
  "p_repeat (player (w_store exampleAlbums)) = Repeat_NONE"
  "p_status (player (w_store exampleAlbums)) = PLAYING"
  "albumAt (w_store exampleAlbums) 0 = Some ''A''" "albumAt (w_store exampleAlbums) (Suc 0) = Some ''B''"
  by (simp_all add: exampleAlbums_def albumAt_def playOrder_def isShuffleEnabled_def exampleStore_def)

theorem sleep_timer_ends_with_album_witness:
  "\<not> sl_active (sl_timer (sleep_step Sl_trackEnd ((sleep_step Sl_trackEnd ^^ 0)
     (sleep_step (Sl_preset Preset_endOfAlbum) \<lparr>sl_world = exampleAlbums, sl_timer = initialTimer, sl_rendered = None\<rparr>))))"
  by (rule sleep_timer_ends_with_album [of 3 0 exampleAlbums 0 "''A''" "''B''", OF exampleAlbums_plays,
        OF _ _ _ _ _ _ _ _ _ refl refl refl, THEN conjunct2, THEN conjunct2, THEN conjunct2, THEN conjunct2,
        THEN conjunct2, THEN conjunct1]) simp_all

text \<open>
  The timer for the end of the song stops the player at the end of the song: the next song is
  current and paused, the timer is switched off, and no flag is left to pause the player again.
\<close>

theorem sleep_timer_ends_with_song:
  assumes "plays n i (w_store w)" and "Suc i < n" and "p_repeat (player (w_store w)) \<noteq> Repeat_ONE"
    and "distinct (playOrder (w_store w))"
    and "x = sleep_step (Sl_preset Preset_endOfSong) \<lparr>sl_world = w, sl_timer = t, sl_rendered = None\<rparr>"
    and "y = sleep_step Sl_trackEnd x"
  shows "plays n (Suc i) (w_store (sl_world y)) \<and> p_status (player (w_store (sl_world y))) = PAUSED
    \<and> \<not> sl_active (sl_timer y) \<and> \<not> pauseFlag (sl_world y)"
proof -
  let ?u = "setPauseOnNextSongEnd True w"
  have x: "x = \<lparr>sl_world = ?u, sl_timer = startEndOfSongTimer t, sl_rendered = Some endOfSong\<rparr>"
    by (simp add: assms(5) handlePreset_def renderSleepTimer_def startEndOfSongTimer_def sleepEffect_def sleepCleanup_def)
  have u: "plays n i (w_store ?u)" "p_repeat (player (w_store ?u)) \<noteq> Repeat_ONE" "distinct (playOrder (w_store ?u))"
    using assms(1,3,4) by simp_all
  note fin = trackEnd_plays [OF u(1) assms(2) u(2)]
  have "y = \<lparr>sl_world = setPauseOnNextSongEnd False (mediaPause (fst (mediaAutoNext ?u))),
      sl_timer = cancelTimer (startEndOfSongTimer t), sl_rendered = None\<rparr>"
    using fin(5) [OF u(3)] by (simp add: assms(6) x sleepPlayer_def Let_def sleepOnCurrentSongChange_def render_cancelled)
  then show ?thesis using fin(1) by (simp add: cancelTimer_def mediaPause_def)
qed

theorem sleep_timer_ends_with_song_witness:
  "p_status (player (w_store (sl_world (sleep_step Sl_trackEnd (sleep_step (Sl_preset Preset_endOfSong)
     \<lparr>sl_world = exampleAlbums, sl_timer = initialTimer, sl_rendered = None\<rparr>))))) = PAUSED"
  by (rule sleep_timer_ends_with_song [OF exampleAlbums_plays _ _ _ refl refl, THEN conjunct2, THEN conjunct1]) simp_all

text \<open>
  A flaw of the timer for the end of the song: while one song is repeated the current song does not
  change, so the timer stays active after it has paused the player once, but the flag is gone: playback that
  is resumed goes on past the next end.
\<close>

theorem sleep_timer_repeat_one_stays_active:
  assumes "plays n i (w_store w)" and "p_repeat (player (w_store w)) = Repeat_ONE"
    and "x = sleep_step (Sl_preset Preset_endOfSong) \<lparr>sl_world = w, sl_timer = t, sl_rendered = None\<rparr>"
    and "y = sleep_step Sl_trackEnd x" and "z = sleep_step Sl_trackEnd (sleep_step (Sl_play None) y)"
  shows "p_status (player (w_store (sl_world y))) = PAUSED \<and> sl_active (sl_timer y)
    \<and> sl_active (sl_timer z) \<and> p_status (player (w_store (sl_world z))) = PLAYING"
proof -
  let ?u = "setPauseOnNextSongEnd True w" and ?t = "startEndOfSongTimer t"
  let ?v = "fst (mediaAutoNext ?u)"
  let ?p = "mediaPlay None ?v"
  have x: "x = \<lparr>sl_world = ?u, sl_timer = ?t, sl_rendered = Some endOfSong\<rparr>"
    by (simp add: assms(3) handlePreset_def renderSleepTimer_def startEndOfSongTimer_def sleepEffect_def sleepCleanup_def)
  have u: "plays n i (w_store ?u)" "p_repeat (player (w_store ?u)) = Repeat_ONE" using assms(1,2) by simp_all
  note v = repeat_one_ends [OF u]
  have p: "plays n i (w_store ?p)" "p_repeat (player (w_store ?p)) = Repeat_ONE" "\<not> pauseFlag ?p"
    using v(1,2) by (simp_all add: mediaPlay_def)
  have play: "subscribeCurrentTrack (w_store ?v) (w_store ?p) = None"
    by (rule subscribeCurrentTrack_same) (simp add: mediaPlay_def)
  have mode: "timer_mode ?t = Some endOfSong" "sl_active ?t" by simp (simp add: startEndOfSongTimer_def)
  have y: "y = \<lparr>sl_world = ?v, sl_timer = ?t, sl_rendered = Some endOfSong\<rparr>"
    using v(3) mode by (simp add: assms(4) x sleepPlayer_def Let_def)
  have z: "z = \<lparr>sl_world = fst (mediaAutoNext ?p), sl_timer = ?t, sl_rendered = Some endOfSong\<rparr>"
    using repeat_one_ends(3) [OF p(1,2)] mode play by (simp add: assms(5) y sleepPlayer_def Let_def)
  show ?thesis
    using mode p plays_mediaAutoNext_status [OF u(1)] plays_mediaAutoNext_status [OF p(1)] by (simp add: y z)
qed

theorem sleep_timer_repeat_one_stays_active_witness:
  "sl_active (sl_timer (sleep_step Sl_trackEnd (sleep_step (Sl_preset Preset_endOfSong)
     \<lparr>sl_world = exampleWorld (exampleStore Shuffle_NONE Repeat_ONE (Num 0)), sl_timer = initialTimer, sl_rendered = None\<rparr>)))"
proof -
  have "plays 3 0 (exampleStore Shuffle_NONE Repeat_ONE (Num 0))"
    by (simp add: plays_def exampleStore_ok exampleStore_order exampleStore_playOrder)
  then show ?thesis
    by (intro sleep_timer_repeat_one_stays_active [where n = 3 and i = 0, OF _ _ refl refl refl, THEN conjunct2, THEN conjunct1]) simp_all
qed

lemma sleep_cancel_inactive: "\<not> sl_active (sl_timer (sleep_step Sl_cancel x))"
  by (simp add: renderSleepTimer_def cancelTimer_def sleepEffect_def case_prod_beta)

text \<open>The seconds that are left after some progress while the player plays.\<close>

lemma progress_run:
  assumes "p_status (player (w_store w)) = PLAYING" and "k \<le> N"
  shows "(sleep_step Sl_progress ^^ k)
      \<lparr>sl_world = w, sl_timer = startTimedTimer (of_nat N) t, sl_rendered = Some timed\<rparr> =
    \<lparr>sl_world = w, sl_timer = startTimedTimer (of_nat (N - k)) t, sl_rendered = Some timed\<rparr>"
  using assms(2)
proof (induction k)
  case (Suc k)
  have "(of_nat (N - k) :: rat) > 0" "max 0 ((of_nat (N - k) :: rat) - 1) = of_nat (N - Suc k)"
    using Suc.prems by (simp_all add: of_nat_diff)
  then show ?case
    using Suc assms(1) by (simp add: sleepOnPlayerProgress_def) (simp add: timer_mode_def startTimedTimer_def setRemaining_def)
qed simp

text \<open>
  A timer of \<open>N\<close> seconds pauses the player: while the player plays, the first \<open>N\<close> progress events count
  down and change nothing else, and the next one pauses playback and switches the timer off.
\<close>

theorem timed_sleep_pauses:
  assumes "p_status (player (w_store w)) = PLAYING" and "\<not> pauseFlag w" and "0 < N"
    and "N = h * 3600 + m * 60 + s"
    and "x = sleep_step (Sl_custom h m s) \<lparr>sl_world = w, sl_timer = t, sl_rendered = None\<rparr>"
    and "k \<le> N" and "y = (sleep_step Sl_progress ^^ k) x" and "z = sleep_step Sl_progress ((sleep_step Sl_progress ^^ N) x)"
  shows "sl_world y = w \<and> sl_active (sl_timer y) \<and> sl_remaining (sl_timer y) = of_nat (N - k)
    \<and> sl_world z = mediaPause w \<and> \<not> sl_active (sl_timer z)"
proof -
  have x: "x = \<lparr>sl_world = w, sl_timer = startTimedTimer (of_nat N) t, sl_rendered = Some timed\<rparr>"
    using assms(3) unfolding assms(5)
    by (simp add: assms(4) handleCustomStart_def Let_def) (simp add: renderSleepTimer_def startTimedTimer_def sleepEffect_def sleepCleanup_def)
  note run = progress_run [OF assms(1), of _ N t, folded x]
  have "sl_world z = mediaPause w \<and> \<not> sl_active (sl_timer z)"
    unfolding assms(8) run [OF order_refl] using assms(1)
    by (simp add: sleepOnPlayerProgress_def startTimedTimer_def renderSleepTimer_def cancelTimer_def
        sleepEffect_def sleepCleanup_def)
  then show ?thesis unfolding assms(7) run [OF assms(6)] by (simp add: startTimedTimer_def)
qed

theorem timed_sleep_pauses_witness:
  "\<not> sl_active (sl_timer (sleep_step Sl_progress ((sleep_step Sl_progress ^^ 90) (sleep_step (Sl_custom 0 1 30)
     \<lparr>sl_world = exampleAlbums, sl_timer = initialTimer, sl_rendered = None\<rparr>))))"
  by (rule timed_sleep_pauses [of exampleAlbums 90 0 1 30, OF _ _ _ _ refl order_refl refl refl,
        THEN conjunct2, THEN conjunct2, THEN conjunct2, THEN conjunct2])
    (simp_all add: exampleAlbums_def exampleStore_def)

text \<open>
  Whatever timers are started, replaced and cancelled, while tracks end, are skipped, played and
  paused: when no timer is active, or only one that counts down, no flag is left behind that would pause the
  player at the end of a track.
\<close>

theorem no_timer_no_flag:
  assumes "\<not> pauseFlag w" and "x = fold sleep_step ops \<lparr>sl_world = w, sl_timer = initialTimer, sl_rendered = None\<rparr>"
    and "\<not> sl_active (sl_timer x) \<or> sl_mode (sl_timer x) = timed"
  shows "\<not> pauseFlag (sl_world x)"
proof -
  have "sleeper_ok x"
    unfolding assms(2) by (rule sleeping.run_inv) (simp add: sleeper_ok_def timer_mode_def initialTimer_def assms(1))
  then show ?thesis using assms(3) by (auto simp: sleeper_ok_def timer_mode_def)
qed

theorem no_timer_no_flag_witness:
  "\<not> pauseFlag (sl_world (fold sleep_step [Sl_preset Preset_endOfSong, Sl_next, Sl_preset Preset_endOfAlbum, Sl_cancel]
      \<lparr>sl_world = exampleAlbums, sl_timer = initialTimer, sl_rendered = None\<rparr>))"
  by (rule no_timer_no_flag [of exampleAlbums, OF _ refl])
    (simp add: exampleAlbums_def exampleStore_def, simp add: sleep_cancel_inactive del: sleep_step.simps)

end
