(* ===== verification/ItemList.thy ===== *)
theory ItemList
  imports PlayerTypes "HOL-Library.Extended_Nat"
begin

text \<open>
  The state of an item list (\<^verbatim>\<open>item-list/helpers/item-list-state.ts\<close> and
  \<^verbatim>\<open>item-list-reducer-utils.ts\<close>): which rows are selected, expanded and dragged, the external store
  that holds this state with its cache and its listeners, and the operations and queries of the hook
  \<^verbatim>\<open>useItemListState\<close>. The row id of an item is computed by a function of the list's owner, which is
  an argument.
\<close>

section \<open>Data\<close>

text \<open>
  The required properties of an item; \<open>li_rest\<close> stands for the others. An entry of the data of a list
  is unknown to the code: it may be null or undefined (a header row), or not an object.
\<close>

record list_item =
  li_itemType :: LibraryItem
  li_serverId :: string
  li_id :: string
  li_rest :: string

datatype datum = Nullish | Primitive string | Obj list_item

type_synonym row_id = "list_item \<Rightarrow> string option"

text \<open>
  A JavaScript Set is a list without repetitions in insertion order, a Map an \<open>obj\<close>.
\<close>

definition set_add :: "string \<Rightarrow> string list \<Rightarrow> string list" where
  "set_add x xs = (if x \<in> set xs then xs else xs @ [x])"

definition set_delete :: "string \<Rightarrow> string list \<Rightarrow> string list" where
  "set_delete x xs = filter (\<lambda>y. y \<noteq> x) xs"

definition map_delete :: "string \<Rightarrow> 'v obj \<Rightarrow> 'v obj" where
  "map_delete k m = filter (\<lambda>p. fst p \<noteq> k) m"

record item_list_state =
  l_dragging :: "string list"
  l_draggingItems :: "list_item obj"
  l_expanded :: "string list"
  l_expandedItems :: "list_item obj"
  l_selected :: "string list"
  l_selectedItems :: "list_item obj"
  l_version :: nat

datatype list_action =
    TOGGLE_EXPANDED row_id list_item
  | TOGGLE_SELECTED row_id list_item
  | SET_DRAGGING row_id "list_item list"
  | SET_EXPANDED row_id "list_item list"
  | SET_SELECTED row_id "list_item list"
  | CLEAR_ALL | CLEAR_DRAGGING | CLEAR_EXPANDED | CLEAR_SELECTED

section \<open>The reducer\<close>

text \<open>The two collections that a loop over the payload fills in parallel.\<close>

definition collectItem :: "row_id \<Rightarrow> string list \<times> list_item obj \<Rightarrow> list_item \<Rightarrow> string list \<times> list_item obj"
  where
  "collectItem extractRowId sm item =
     (let (ids, items) = sm; rowId = extractRowId item
      in if truthy rowId then (set_add (the rowId) ids, AList.update (the rowId) item items)
         else (ids, items))"

definition collectItems :: "row_id \<Rightarrow> list_item list \<Rightarrow> string list \<times> list_item obj" where
  "collectItems extractRowId payload = foldl (collectItem extractRowId) ([], []) payload"

definition bump :: "item_list_state \<Rightarrow> item_list_state" where
  "bump s = s\<lparr>l_version := l_version s + 1\<rparr>"

fun itemListReducer :: "item_list_state \<Rightarrow> list_action \<Rightarrow> item_list_state" where
  "itemListReducer s CLEAR_ALL =
     bump (s\<lparr>l_dragging := [], l_draggingItems := [], l_expanded := [], l_expandedItems := [],
       l_selected := [], l_selectedItems := []\<rparr>)"
| "itemListReducer s CLEAR_DRAGGING = bump (s\<lparr>l_dragging := [], l_draggingItems := []\<rparr>)"
| "itemListReducer s CLEAR_EXPANDED = bump (s\<lparr>l_expanded := [], l_expandedItems := []\<rparr>)"
| "itemListReducer s CLEAR_SELECTED = bump (s\<lparr>l_selected := [], l_selectedItems := []\<rparr>)"
| "itemListReducer s (SET_DRAGGING extractRowId payload) =
     (let (newDragging, newDraggingItems) = collectItems extractRowId payload
      in bump (s\<lparr>l_dragging := newDragging, l_draggingItems := newDraggingItems\<rparr>))"
| "itemListReducer s (SET_EXPANDED extractRowId payload) =
     (let (newExpanded, newExpandedItems) =
            (if length payload > 0 then
               (let firstItem = hd payload; rowId = extractRowId firstItem
                in if truthy rowId then ([the rowId], [(the rowId, firstItem)]) else ([], []))
             else ([], []))
      in bump (s\<lparr>l_expanded := newExpanded, l_expandedItems := newExpandedItems\<rparr>))"
| "itemListReducer s (SET_SELECTED extractRowId payload) =
     (let (newSelected, newSelectedItems) = collectItems extractRowId payload
      in bump (s\<lparr>l_selected := newSelected, l_selectedItems := newSelectedItems\<rparr>))"
| "itemListReducer s (TOGGLE_EXPANDED extractRowId item) =
     (let rowId = extractRowId item
      in if \<not> truthy rowId then s
         else if the rowId \<in> set (l_expanded s)
         then bump (s\<lparr>l_expanded := [], l_expandedItems := []\<rparr>)
         else bump (s\<lparr>l_expanded := [the rowId], l_expandedItems := [(the rowId, item)]\<rparr>))"
| "itemListReducer s (TOGGLE_SELECTED extractRowId item) =
     (let rowId = extractRowId item
      in if \<not> truthy rowId then s
         else if the rowId \<in> set (l_selected s)
         then bump (s\<lparr>l_selected := set_delete (the rowId) (l_selected s),
                l_selectedItems := map_delete (the rowId) (l_selectedItems s)\<rparr>)
         else bump (s\<lparr>l_selected := set_add (the rowId) (l_selected s),
                l_selectedItems := AList.update (the rowId) item (l_selectedItems s)\<rparr>))"

definition initialItemListState :: item_list_state where
  "initialItemListState = \<lparr>l_dragging = [], l_draggingItems = [], l_expanded = [],
     l_expandedItems = [], l_selected = [], l_selectedItems = [], l_version = 0\<rparr>"

section \<open>Selectors and utilities\<close>

definition areAllSelected :: "item_list_state \<Rightarrow> string list \<Rightarrow> bool" where
  "areAllSelected s rowIds = list_all (\<lambda>k. k \<in> set (l_selected s)) rowIds"

definition areAnySelected :: "item_list_state \<Rightarrow> string list \<Rightarrow> bool" where
  "areAnySelected s rowIds = list_ex (\<lambda>k. k \<in> set (l_selected s)) rowIds"

definition isMultiExpand :: "item_list_state \<Rightarrow> bool" where
  "isMultiExpand s = (length (l_expanded s) > 1)"

definition isMultiSelect :: "item_list_state \<Rightarrow> bool" where
  "isMultiSelect s = (length (l_selected s) > 1)"

definition getExpanded :: "item_list_state \<Rightarrow> list_item list" where
  "getExpanded s = obj_values (l_expandedItems s)"

definition getDragging :: "item_list_state \<Rightarrow> list_item list" where
  "getDragging s = obj_values (l_draggingItems s)"

definition toggleAllExpanded :: "list_item list \<Rightarrow> item_list_state \<Rightarrow> row_id \<Rightarrow> list_action" where
  "toggleAllExpanded items s extractRowId =
     (let allExpanded = list_all (\<lambda>item. let rowId = extractRowId item
            in if truthy rowId then the rowId \<in> set (l_expanded s) else False) items
      in if allExpanded then CLEAR_EXPANDED else SET_EXPANDED extractRowId items)"

definition toggleAllSelected :: "list_item list \<Rightarrow> item_list_state \<Rightarrow> row_id \<Rightarrow> list_action" where
  "toggleAllSelected items s extractRowId =
     (let allSelected = list_all (\<lambda>item. let rowId = extractRowId item
            in if truthy rowId then the rowId \<in> set (l_selected s) else False) items
      in if allSelected then CLEAR_SELECTED else SET_SELECTED extractRowId items)"

section \<open>The order of the data\<close>

definition rowIdToIndex :: "row_id \<Rightarrow> datum list \<Rightarrow> nat obj" where
  "rowIdToIndex extractRowId data =
     foldl (\<lambda>m (index, d). case d of
         Obj item \<Rightarrow> (let itemRowId = extractRowId item
                     in if truthy itemRowId then AList.update (the itemRowId) index m else m)
       | _ \<Rightarrow> m) [] (zip [0..<length data] data)"

text \<open>
  The comparator \<open>indexA - indexB\<close> with Infinity for an unknown row: the array's sort is stable, so
  it sorts by this key. \<open>rowIdOf\<close> is the row id of an element: itself for an array of ids.
\<close>

definition sortByDataOrder ::
    "('a \<Rightarrow> string option) \<Rightarrow> row_id \<Rightarrow> datum list \<Rightarrow> 'a list \<Rightarrow> 'a list" where
  "sortByDataOrder rowIdOf extractRowId data items =
     (let m = rowIdToIndex extractRowId data
      in sort_key (\<lambda>a. let rowId = rowIdOf a
                       in if truthy rowId
                          then (case map_of m (the rowId) of Some i \<Rightarrow> enat i | None \<Rightarrow> \<infinity>)
                          else \<infinity>) items)"

section \<open>The external store\<close>

text \<open>
  \<open>ItemListStateStore\<close>: the state, the cached array of the expanded items with the version it was
  made for, and the listeners. A dispatch returns the listeners that it calls.
\<close>

record 'l list_store =
  ls_expandedItemsCache :: "list_item list option"
  ls_expandedItemsCacheVersion :: int
  ls_listeners :: "'l list"
  ls_state :: item_list_state

definition newListStore :: "'l list_store" where
  "newListStore = \<lparr>ls_expandedItemsCache = None, ls_expandedItemsCacheVersion = -1,
     ls_listeners = [], ls_state = initialItemListState\<rparr>"

definition dispatch :: "list_action \<Rightarrow> 'l list_store \<Rightarrow> 'l list_store \<times> 'l list" where
  "dispatch a st =
     (let st' = st\<lparr>ls_state := itemListReducer (ls_state st) a, ls_expandedItemsCache := None\<rparr>
      in (st', ls_listeners st'))"

definition getExpandedItems :: "'l list_store \<Rightarrow> 'l list_store \<times> list_item list" where
  "getExpandedItems st =
     (case ls_expandedItemsCache st of
        Some c \<Rightarrow>
          (if ls_expandedItemsCacheVersion st = int (l_version (ls_state st)) then (st, c)
           else (let c' = obj_values (l_expandedItems (ls_state st))
                 in (st\<lparr>ls_expandedItemsCache := Some c',
                      ls_expandedItemsCacheVersion := int (l_version (ls_state st))\<rparr>, c')))
      | None \<Rightarrow>
          (let c' = obj_values (l_expandedItems (ls_state st))
           in (st\<lparr>ls_expandedItemsCache := Some c',
                ls_expandedItemsCacheVersion := int (l_version (ls_state st))\<rparr>, c')))"

definition subscribe :: "'l \<Rightarrow> 'l list_store \<Rightarrow> 'l list_store" where
  "subscribe l st = st\<lparr>ls_listeners :=
     (if l \<in> set (ls_listeners st) then ls_listeners st else ls_listeners st @ [l])\<rparr>"

definition unsubscribe :: "'l \<Rightarrow> 'l list_store \<Rightarrow> 'l list_store" where
  "unsubscribe l st = st\<lparr>ls_listeners := filter (\<lambda>x. x \<noteq> l) (ls_listeners st)\<rparr>"

section \<open>The operations of the hook\<close>

definition extractRowIdFn :: "row_id option \<Rightarrow> row_id" where
  "extractRowIdFn extractRowId item =
     (case extractRowId of Some f \<Rightarrow> f item | None \<Rightarrow> Some (li_id item))"

definition objects :: "datum list \<Rightarrow> list_item list" where
  "objects data = List.map_filter (\<lambda>d. case d of Obj item \<Rightarrow> Some item | _ \<Rightarrow> None) data"

datatype 'l list_op =
    Op_setExpanded "list_item list"
  | Op_setDragging "list_item list"
  | Op_setSelected "list_item list"
  | Op_toggleExpanded list_item
  | Op_toggleSelected list_item
  | Op_clearExpanded | Op_clearDragging | Op_clearSelected | Op_clearAll | Op_deselectAll
  | Op_selectAll "datum list"
  | Op_getExpandedItemsCached
  | Op_subscribe 'l
  | Op_unsubscribe 'l

fun list_perform :: "row_id option \<Rightarrow> 'l list_op \<Rightarrow> 'l list_store \<Rightarrow> 'l list_store" where
  "list_perform f (Op_setExpanded items) st = fst (dispatch (SET_EXPANDED (extractRowIdFn f) items) st)"
| "list_perform f (Op_setDragging items) st = fst (dispatch (SET_DRAGGING (extractRowIdFn f) items) st)"
| "list_perform f (Op_setSelected items) st = fst (dispatch (SET_SELECTED (extractRowIdFn f) items) st)"
| "list_perform f (Op_toggleExpanded item) st = fst (dispatch (TOGGLE_EXPANDED (extractRowIdFn f) item) st)"
| "list_perform f (Op_toggleSelected item) st = fst (dispatch (TOGGLE_SELECTED (extractRowIdFn f) item) st)"
| "list_perform f Op_clearExpanded st = fst (dispatch CLEAR_EXPANDED st)"
| "list_perform f Op_clearDragging st = fst (dispatch CLEAR_DRAGGING st)"
| "list_perform f Op_clearSelected st = fst (dispatch CLEAR_SELECTED st)"
| "list_perform f Op_clearAll st = fst (dispatch CLEAR_ALL st)"
| "list_perform f Op_deselectAll st = fst (dispatch CLEAR_SELECTED st)"
| "list_perform f (Op_selectAll data) st =
     fst (dispatch (SET_SELECTED (extractRowIdFn f) (objects data)) st)"
| "list_perform f Op_getExpandedItemsCached st = fst (getExpandedItems st)"
| "list_perform f (Op_subscribe l) st = subscribe l st"
| "list_perform f (Op_unsubscribe l) st = unsubscribe l st"

definition list_getSelected :: "row_id option \<Rightarrow> datum list \<Rightarrow> 'l list_store \<Rightarrow> list_item list" where
  "list_getSelected f data st =
     sortByDataOrder (extractRowIdFn f) (extractRowIdFn f) data (obj_values (l_selectedItems (ls_state st)))"

definition list_getSelectedIds :: "row_id option \<Rightarrow> datum list \<Rightarrow> 'l list_store \<Rightarrow> string list" where
  "list_getSelectedIds f data st =
     sortByDataOrder Some (extractRowIdFn f) data (l_selected (ls_state st))"

definition list_getData :: "datum list \<Rightarrow> datum list" where
  "list_getData data = filter (\<lambda>d. d \<noteq> Nullish) data"

definition list_findItemIndex :: "row_id option \<Rightarrow> datum list \<Rightarrow> string \<Rightarrow> int" where
  "list_findItemIndex f data rowId =
     (let validData = objects data
      in case f of
           None \<Rightarrow> findIndex (\<lambda>d. li_id d = rowId) validData
         | Some extractRowId \<Rightarrow> findIndex (\<lambda>d. extractRowId d = Some rowId) validData)"

definition list_isAllSelected :: "datum list \<Rightarrow> 'l list_store \<Rightarrow> bool" where
  "list_isAllSelected data st = (length (l_selected (ls_state st)) = length (objects data))"

definition list_isSomeSelected :: "'l list_store \<Rightarrow> bool" where
  "list_isSomeSelected st = (length (l_selected (ls_state st)) > 0)"

section \<open>The invariant\<close>

text \<open>
  A set of row ids and the map of its items agree, in content and order; the items are filed under
  their own row ids.
\<close>

definition sync :: "row_id \<Rightarrow> string list \<Rightarrow> list_item obj \<Rightarrow> bool" where
  "sync f ids items = (ids = obj_keys items \<and> distinct ids
     \<and> list_all (\<lambda>(k, v). truthy (Some k) \<and> f v = Some k) items)"

definition list_ok :: "row_id \<Rightarrow> item_list_state \<Rightarrow> bool" where
  "list_ok f s = (sync f (l_dragging s) (l_draggingItems s)
     \<and> sync f (l_expanded s) (l_expandedItems s) \<and> sync f (l_selected s) (l_selectedItems s)
     \<and> length (l_expanded s) \<le> 1)"

text \<open>A cached array is the one that would be computed now, whenever its version is the current one.\<close>

definition cache_ok :: "'l list_store \<Rightarrow> bool" where
  "cache_ok st = (ls_expandedItemsCache st \<noteq> None \<longrightarrow>
     ls_expandedItemsCacheVersion st = int (l_version (ls_state st)) \<longrightarrow>
     ls_expandedItemsCache st = Some (obj_values (l_expandedItems (ls_state st))))"

definition list_store_ok :: "row_id option \<Rightarrow> 'l list_store \<Rightarrow> bool" where
  "list_store_ok f st = (list_ok (extractRowIdFn f) (ls_state st) \<and> cache_ok st
     \<and> distinct (ls_listeners st))"

lemma sync_Nil [simp, list_inv]: "sync f [] []"
  by (simp add: sync_def)

lemma update_new: "k \<notin> fst ` set m \<Longrightarrow> AList.update k v m = m @ [(k, v)]"
  by (induction m) auto

lemma update_keys_present: "k \<in> fst ` set m \<Longrightarrow> map fst (AList.update k v m) = map fst m"
  by (induction m) auto

lemma sync_add [list_inv]:
  assumes "sync f ids items" and "f item = Some k" and "k \<noteq> ''''"
  shows "sync f (set_add k ids) (AList.update k item items)"
proof (cases "k \<in> set ids")
  case True
  then show ?thesis using assms
    by (auto simp: sync_def set_add_def update_keys_present list_all_iff dest!: obj_update_elem)
next
  case False
  then have "k \<notin> fst ` set items" using assms(1) by (simp add: sync_def)
  then show ?thesis using assms False by (auto simp: sync_def set_add_def update_new)
qed

lemma sync_delete [list_inv]: "sync f ids items \<Longrightarrow> sync f (set_delete k ids) (map_delete k items)"
  by (auto simp: sync_def set_delete_def map_delete_def filter_map o_def list_all_iff
      intro: distinct_map_filter)

lemma sync_single [list_inv]: "f item = Some k \<Longrightarrow> k \<noteq> '''' \<Longrightarrow> sync f [k] [(k, item)]"
  by (simp add: sync_def)

lemma sync_collect_from:
  "sync f ids items \<Longrightarrow> case foldl (collectItem f) (ids, items) payload of (ids', items') \<Rightarrow> sync f ids' items'"
proof (induction payload arbitrary: ids items)
  case (Cons item payload)
  show ?case
  proof (cases "truthy (f item)")
    case True
    then obtain k where k: "f item = Some k" "k \<noteq> ''''" by (cases "f item") auto
    from Cons.IH [OF sync_add [OF Cons.prems k]] show ?thesis by (simp add: collectItem_def k)
  next
    case False
    with Cons show ?thesis by (simp add: collectItem_def)
  qed
qed simp

lemma sync_collectItems [list_inv]:
  "collectItems f payload = (ids, items) \<Longrightarrow> sync f ids items"
  using sync_collect_from [OF sync_Nil, of f payload] by (simp add: collectItems_def)

lemma bump_fields [simp]:
  "l_dragging (bump s) = l_dragging s" "l_draggingItems (bump s) = l_draggingItems s"
  "l_expanded (bump s) = l_expanded s" "l_expandedItems (bump s) = l_expandedItems s"
  "l_selected (bump s) = l_selected s" "l_selectedItems (bump s) = l_selectedItems s"
  "l_version (bump s) = Suc (l_version s)"
  by (simp_all add: bump_def)

lemma truthyE: "truthy x \<Longrightarrow> (\<And>k. x = Some k \<Longrightarrow> k \<noteq> '''' \<Longrightarrow> P) \<Longrightarrow> P"
  by (cases x) auto

definition action_with :: "row_id \<Rightarrow> list_action \<Rightarrow> bool" where
  "action_with f a = (case a of
       TOGGLE_EXPANDED g _ \<Rightarrow> g = f | TOGGLE_SELECTED g _ \<Rightarrow> g = f | SET_DRAGGING g _ \<Rightarrow> g = f
     | SET_EXPANDED g _ \<Rightarrow> g = f | SET_SELECTED g _ \<Rightarrow> g = f | _ \<Rightarrow> True)"

lemma list_ok_reducer [list_inv]: "list_ok f s \<Longrightarrow> action_with f a \<Longrightarrow> list_ok f (itemListReducer s a)"
  by (cases a) (auto simp: list_ok_def action_with_def Let_def list_inv elim!: truthyE
      split: prod.splits if_splits)

lemma version_reducer:
  "l_version (itemListReducer s a) = l_version s \<and> itemListReducer s a = s
     \<or> l_version (itemListReducer s a) = Suc (l_version s)"
  by (cases a) (auto simp: Let_def split: prod.splits)

lemma cache_ok_dispatch [list_inv]: "cache_ok (fst (dispatch a st))"
  by (simp add: cache_ok_def dispatch_def)

lemma getExpandedItems_value:
  "cache_ok st \<Longrightarrow> snd (getExpandedItems st) = obj_values (l_expandedItems (ls_state st))"
  by (auto simp: getExpandedItems_def cache_ok_def Let_def split: option.splits)

lemma getExpandedItems_frame [simp]:
  "ls_state (fst (getExpandedItems st)) = ls_state st"
  "ls_listeners (fst (getExpandedItems st)) = ls_listeners st"
  by (auto simp: getExpandedItems_def Let_def split: option.splits)

lemma cache_ok_getExpandedItems [list_inv]: "cache_ok st \<Longrightarrow> cache_ok (fst (getExpandedItems st))"
  by (auto simp: getExpandedItems_def cache_ok_def Let_def split: option.splits)

lemma dispatch_frame [simp]:
  "ls_state (fst (dispatch a st)) = itemListReducer (ls_state st) a"
  "ls_listeners (fst (dispatch a st)) = ls_listeners st"
  by (simp_all add: dispatch_def)

lemma subscribe_frame [simp]:
  "ls_state (subscribe l st) = ls_state st" "ls_state (unsubscribe l st) = ls_state st"
  "cache_ok (subscribe l st) = cache_ok st" "cache_ok (unsubscribe l st) = cache_ok st"
  by (simp_all add: subscribe_def unsubscribe_def cache_ok_def)

lemma list_store_ok_dispatch [list_inv]:
  "list_store_ok f st \<Longrightarrow> action_with (extractRowIdFn f) a \<Longrightarrow> list_store_ok f (fst (dispatch a st))"
  by (simp add: list_store_ok_def list_inv del: dispatch_frame(1)) (simp add: list_inv)

lemma list_store_ok_perform: "list_store_ok f st \<Longrightarrow> list_store_ok f (list_perform f a st)"
proof (cases a)
  case (Op_subscribe l)
  assume "list_store_ok f st"
  with Op_subscribe show ?thesis by (simp add: list_store_ok_def) (simp add: subscribe_def)
next
  case (Op_unsubscribe l)
  assume "list_store_ok f st"
  with Op_unsubscribe show ?thesis by (simp add: list_store_ok_def) (simp add: unsubscribe_def)
next
  case Op_getExpandedItemsCached
  assume "list_store_ok f st"
  with Op_getExpandedItemsCached show ?thesis by (simp add: list_store_ok_def list_inv)
qed (simp_all add: list_store_ok_dispatch action_with_def)

lemma version_mono: "l_version s \<le> l_version (itemListReducer s a)"
  using version_reducer [of s a] by auto

lemma list_version_perform:
  "l_version (ls_state st) \<le> l_version (ls_state (list_perform f a st))"
  by (cases a) (simp_all add: version_mono del: itemListReducer.simps)

lemma list_store_ok_new: "list_store_ok f newListStore"
  by (simp add: list_store_ok_def newListStore_def initialItemListState_def list_ok_def cache_ok_def)

interpretation itemlist: versioned_component "list_perform f" "list_store_ok f"
    "\<lambda>st. l_version (ls_state st)" for f
  by unfold_locales (rule list_store_ok_perform, assumption, rule list_version_perform)

section \<open>Properties\<close>

text \<open>
  C10: In every state that a list can reach by the operations of its hook, for the selected, the expanded
  and the dragged rows alike the set of row ids and the map of items agree and every item is filed under its
  own row id; at most one row is expanded, and the cached array of expanded items is the current one:
  \<open>getExpandedItemsCached\<close> is never stale. No listener is subscribed twice.
\<close>

theorem item_list_reachable_ok:
  fixes ops :: "nat list_op list" and f :: "row_id option"
  defines "st \<equiv> fold (list_perform f) ops newListStore"
  shows "(l_selected (ls_state st) = obj_keys (l_selectedItems (ls_state st))
      \<and> l_expanded (ls_state st) = obj_keys (l_expandedItems (ls_state st))
      \<and> l_dragging (ls_state st) = obj_keys (l_draggingItems (ls_state st)))
    \<and> (distinct (l_selected (ls_state st)) \<and> distinct (l_dragging (ls_state st)))
    \<and> list_all (\<lambda>(k, v). extractRowIdFn f v = Some k)
        (l_selectedItems (ls_state st) @ l_expandedItems (ls_state st) @ l_draggingItems (ls_state st))
    \<and> \<not> isMultiExpand (ls_state st)
    \<and> snd (getExpandedItems st) = getExpanded (ls_state st)
    \<and> distinct (ls_listeners st)"
proof -
  have "list_store_ok f st" unfolding st_def by (rule itemlist.run_inv [OF list_store_ok_new])
  then show ?thesis
    by (auto simp: list_store_ok_def list_ok_def sync_def isMultiExpand_def getExpanded_def
        getExpandedItems_value list_all_iff)
qed

theorem item_list_reachable_ok_witness:
  "\<not> isMultiExpand (ls_state (fold (list_perform None)
      [Op_setExpanded [\<lparr>li_itemType = SONG, li_serverId = ''s'', li_id = ''a'', li_rest = ''''\<rparr>],
       Op_getExpandedItemsCached, Op_subscribe (1 :: nat)] newListStore))"
  by (rule item_list_reachable_ok [THEN conjunct2, THEN conjunct2, THEN conjunct2, THEN conjunct1])

text \<open>
  The version of a list never decreases, and a dispatch that leaves it as it is has changed
  nothing: consumers may use it to detect changes.
\<close>

theorem item_list_version_detects_changes:
  fixes ops :: "nat list_op list"
  shows "l_version (ls_state st) \<le> l_version (ls_state (fold (list_perform f) ops st))
    \<and> (l_version (itemListReducer s a) = l_version s \<longrightarrow> itemListReducer s a = s)"
  using itemlist.version_run [of st f ops] version_reducer [of s a] by auto

theorem item_list_version_detects_changes_witness:
  "itemListReducer initialItemListState (TOGGLE_SELECTED (\<lambda>_. None)
      \<lparr>li_itemType = SONG, li_serverId = ''s'', li_id = ''a'', li_rest = ''''\<rparr>) = initialItemListState"
  by (rule item_list_version_detects_changes [THEN conjunct2, rule_format]) simp

text \<open>
  Toggling the selection of a row twice gives back the state, up to the version, when the row was
  not selected, and the same set of selected rows in any case.
\<close>

theorem toggle_selected_twice:
  fixes f :: row_id and item :: list_item and s :: item_list_state
  assumes "list_ok f s"
  defines "t \<equiv> itemListReducer (itemListReducer s (TOGGLE_SELECTED f item)) (TOGGLE_SELECTED f item)"
  shows "set (l_selected t) = set (l_selected s)
    \<and> (f item = None \<or> the (f item) \<notin> set (l_selected s) \<longrightarrow> t\<lparr>l_version := l_version s\<rparr> = s)"
proof (cases "truthy (f item)")
  case True
  then obtain k where k: "f item = Some k" "k \<noteq> ''''" by (rule truthyE)
  have keys: "l_selected s = obj_keys (l_selectedItems s)" using assms(1) by (simp add: list_ok_def sync_def)
  show ?thesis
  proof (cases "k \<in> set (l_selected s)")
    case True
    then show ?thesis using k by (auto simp: t_def set_delete_def set_add_def)
  next
    case False
    then have new: "k \<notin> fst ` set (l_selectedItems s)" by (simp add: keys)
    have "set_delete k (l_selected s @ [k]) = l_selected s"
      "map_delete k (l_selectedItems s @ [(k, item)]) = l_selectedItems s"
      using False new by (auto simp: set_delete_def map_delete_def filter_id_conv)
    then show ?thesis using k False new by (simp add: t_def set_add_def update_new bump_def)
  qed
next
  case False
  then show ?thesis by (cases "f item") (auto simp: t_def)
qed

theorem toggle_selected_twice_witness:
  "set (l_selected (itemListReducer (itemListReducer initialItemListState
       (TOGGLE_SELECTED (Some \<circ> li_id) \<lparr>li_itemType = SONG, li_serverId = ''s'', li_id = ''a'', li_rest = ''''\<rparr>))
       (TOGGLE_SELECTED (Some \<circ> li_id) \<lparr>li_itemType = SONG, li_serverId = ''s'', li_id = ''a'', li_rest = ''''\<rparr>)))
     = {}"
  by (rule trans, rule toggle_selected_twice [THEN conjunct1])
    (simp_all add: list_ok_def initialItemListState_def)

lemma foldl_collect_ids:
  "fst (foldl (collectItem f) (ids, items) payload) =
     foldl (\<lambda>acc k. set_add k acc) ids (map (\<lambda>x. the (f x)) (filter (\<lambda>x. truthy (f x)) payload))"
  by (induction payload arbitrary: ids items) (auto simp: collectItem_def Let_def)

lemma foldl_set_add_set: "set (foldl (\<lambda>acc k. set_add k acc) ids ks) = set ids \<union> set ks"
  by (induction ks arbitrary: ids) (auto simp: set_add_def)

lemma foldl_set_add_distinct: "distinct ids \<Longrightarrow> distinct (foldl (\<lambda>acc k. set_add k acc) ids ks)"
  by (induction ks arbitrary: ids) (auto simp: set_add_def)

lemma foldl_set_add_new:
  "distinct (ids @ ks) \<Longrightarrow> foldl (\<lambda>acc k. set_add k acc) ids ks = ids @ ks"
  by (induction ks arbitrary: ids) (auto simp: set_add_def)

text \<open>The row ids of the payload that count.\<close>

definition rowIds :: "row_id \<Rightarrow> list_item list \<Rightarrow> string list" where
  "rowIds f items = map (\<lambda>x. the (f x)) (filter (\<lambda>x. truthy (f x)) items)"

lemma collectItems_ids: "fst (collectItems f payload) = foldl (\<lambda>acc k. set_add k acc) [] (rowIds f payload)"
  by (simp add: collectItems_def foldl_collect_ids rowIds_def)

lemma collectItems_set: "set (fst (collectItems f payload)) = set (rowIds f payload)"
  by (simp add: collectItems_ids foldl_set_add_set)

lemma collectItems_card: "length (fst (collectItems f payload)) = card (set (rowIds f payload))"
proof -
  have "distinct (fst (collectItems f payload))"
    unfolding collectItems_ids by (rule foldl_set_add_distinct) simp
  then show ?thesis using distinct_card collectItems_set [of f payload] by metis
qed

lemma select_fields:
  "l_selected (itemListReducer s (SET_SELECTED f items)) = fst (collectItems f items)"
  "l_selectedItems (itemListReducer s (SET_SELECTED f items)) = snd (collectItems f items)"
  by (simp_all add: case_prod_beta)

lemma length_rowIds: "length (rowIds f items) \<le> length items"
  by (simp add: rowIds_def)

text \<open>
  After \<open>selectAll\<close> the list reports that all rows are selected exactly when every row of the data
  has a row id and no two rows share one; otherwise the count of the selection falls short.
\<close>

theorem selectAll_then_isAllSelected:
  "list_isAllSelected data (list_perform f (Op_selectAll data) st) \<longleftrightarrow>
     (\<forall>x \<in> set (objects data). truthy (extractRowIdFn f x))
       \<and> distinct (map (extractRowIdFn f) (objects data))"
proof -
  let ?f = "extractRowIdFn f" and ?xs = "objects data"
  have "list_isAllSelected data (list_perform f (Op_selectAll data) st) \<longleftrightarrow>
      card (set (rowIds ?f ?xs)) = length ?xs"
    by (simp add: list_isAllSelected_def select_fields collectItems_card del: itemListReducer.simps)
  also have "\<dots> \<longleftrightarrow> length (rowIds ?f ?xs) = length ?xs \<and> distinct (rowIds ?f ?xs)"
    using card_length [of "rowIds ?f ?xs"] length_rowIds [of ?f ?xs]
    by (auto simp: distinct_card intro: card_distinct)
  also have "length (rowIds ?f ?xs) = length ?xs \<longleftrightarrow> (\<forall>x \<in> set ?xs. truthy (?f x))"
    unfolding rowIds_def length_map using length_filter_less [of _ ?xs] by (metis filter_True less_irrefl)
  finally have main: "list_isAllSelected data (list_perform f (Op_selectAll data) st) \<longleftrightarrow>
      (\<forall>x \<in> set ?xs. truthy (?f x)) \<and> distinct (rowIds ?f ?xs)" .
  show ?thesis
  proof -
    have "distinct (rowIds ?f ?xs) = distinct (map ?f ?xs)" if "\<forall>x \<in> set ?xs. truthy (?f x)"
    proof -
      have "map ?f ?xs = map Some (rowIds ?f ?xs)"
        using that by (auto simp: rowIds_def filter_True elim!: truthyE)
      then show ?thesis by (simp add: distinct_map)
    qed
    with main show ?thesis by blast
  qed
qed

theorem selectAll_then_isAllSelected_witness:
  "list_isAllSelected [Obj \<lparr>li_itemType = SONG, li_serverId = ''s'', li_id = ''a'', li_rest = ''''\<rparr>, Nullish]
     (list_perform None
       (Op_selectAll [Obj \<lparr>li_itemType = SONG, li_serverId = ''s'', li_id = ''a'', li_rest = ''''\<rparr>, Nullish])
       (newListStore :: nat list_store))"
  by (rule selectAll_then_isAllSelected [THEN iffD2])
    (simp add: objects_def map_filter_simps extractRowIdFn_def)

text \<open>
  A flaw of \<open>toggleAllExpanded\<close>. As only one row can be expanded, items with two different row
  ids are never all expanded: the action is to expand them, again and again, and never to collapse.
\<close>

theorem toggleAllExpanded_never_collapses:
  assumes "list_ok f s" and "x \<in> set items" and "y \<in> set items" and "f x \<noteq> f y"
  shows "toggleAllExpanded items s f = SET_EXPANDED f items"
proof -
  have "length (l_expanded s) \<le> 1" using assms(1) by (simp add: list_ok_def)
  then have "\<exists>k. set (l_expanded s) \<subseteq> {k}" by (cases "l_expanded s") auto
  then obtain k where k: "set (l_expanded s) \<subseteq> {k}" by blast
  have "\<not> list_all (\<lambda>item. let rowId = f item
      in if truthy rowId then the rowId \<in> set (l_expanded s) else False) items"
  proof
    assume "list_all (\<lambda>item. let rowId = f item
      in if truthy rowId then the rowId \<in> set (l_expanded s) else False) items"
    then have "truthy (f x) \<and> the (f x) \<in> {k}" "truthy (f y) \<and> the (f y) \<in> {k}"
      using k assms(2,3) by (auto simp: list_all_iff Let_def split: if_splits)
    then show False using assms(4) by (auto elim!: truthyE)
  qed
  then show ?thesis by (simp only: toggleAllExpanded_def Let_def if_False)
qed

theorem toggleAllExpanded_never_collapses_witness:
  "toggleAllExpanded
     [\<lparr>li_itemType = SONG, li_serverId = ''s'', li_id = ''a'', li_rest = ''''\<rparr>,
      \<lparr>li_itemType = SONG, li_serverId = ''s'', li_id = ''b'', li_rest = ''''\<rparr>]
     initialItemListState (\<lambda>x. Some (li_id x)) =
   SET_EXPANDED (\<lambda>x. Some (li_id x))
     [\<lparr>li_itemType = SONG, li_serverId = ''s'', li_id = ''a'', li_rest = ''''\<rparr>,
      \<lparr>li_itemType = SONG, li_serverId = ''s'', li_id = ''b'', li_rest = ''''\<rparr>]"
  by (rule toggleAllExpanded_never_collapses
      [where x = "\<lparr>li_itemType = SONG, li_serverId = ''s'', li_id = ''a'', li_rest = ''''\<rparr>"
        and y = "\<lparr>li_itemType = SONG, li_serverId = ''s'', li_id = ''b'', li_rest = ''''\<rparr>"])
    (simp_all add: list_ok_def initialItemListState_def)

section \<open>The selection in the order of the data\<close>

text \<open>The positions of the row ids in the data: with distinct row ids, the position of the row.\<close>

definition index_step :: "row_id \<Rightarrow> nat obj \<Rightarrow> nat \<times> datum \<Rightarrow> nat obj" where
  "index_step f m p = (case snd p of
       Obj item \<Rightarrow> (if truthy (f item) then AList.update (the (f item)) (fst p) m else m) | _ \<Rightarrow> m)"

lemma rowIdToIndex_foldl: "rowIdToIndex f data = foldl (index_step f) [] (zip [0..<length data] data)"
  unfolding rowIdToIndex_def Let_def
  by (rule foldl_cong [OF refl refl]) (simp add: index_step_def split: datum.splits prod.splits)

definition holds_id :: "row_id \<Rightarrow> string \<Rightarrow> datum \<Rightarrow> bool" where
  "holds_id f k d = (\<exists>item. d = Obj item \<and> f item = Some k)"

lemma index_step_lookup:
  assumes "k \<noteq> ''''"
  shows "map_of (index_step f m (i, d)) k = (if holds_id f k d then Some i else map_of m k)"
proof (cases d)
  case (Obj item)
  then show ?thesis using assms
    by (cases "f item") (auto simp: index_step_def holds_id_def update_conv')
qed (simp_all add: index_step_def holds_id_def)

text \<open>Each row id is mapped to the last position that holds it.\<close>

lemma index_foldl_lookup:
  assumes "k \<noteq> ''''"
  shows "map_of (foldl (index_step f) m ps) k =
    (case List.find (\<lambda>p. holds_id f k (snd p)) (rev ps) of Some p \<Rightarrow> Some (fst p) | None \<Rightarrow> map_of m k)"
proof (induction ps rule: rev_induct)
  case (snoc p ps)
  then show ?case using index_step_lookup [OF assms, of f _ "fst p" "snd p"] by (cases p) simp
qed simp

lemma rowIdToIndex_at:
  assumes "n < length data" and "holds_id f k (data ! n)" and "k \<noteq> ''''"
    and "\<forall>m < length data. holds_id f k (data ! m) \<longrightarrow> m = n"
  shows "map_of (rowIdToIndex f data) k = Some n"
proof -
  let ?ps = "zip [0..<length data] data"
  have in_ps: "(n, data ! n) \<in> set ?ps" using assms(1) by (force simp: set_zip)
  obtain p where p: "List.find (\<lambda>p. holds_id f k (snd p)) (rev ?ps) = Some p"
    using in_ps assms(2) by (cases "List.find (\<lambda>p. holds_id f k (snd p)) (rev ?ps)")
      (auto simp: find_None_iff)
  then have "holds_id f k (snd p)" "p \<in> set (rev ?ps)"
    unfolding find_Some_iff by (blast, metis nth_mem)
  then have "fst p = n" using assms(4) by (auto simp: set_zip)
  then show ?thesis using p index_foldl_lookup [OF assms(3), of f "[]" ?ps] by (simp add: rowIdToIndex_foldl)
qed

fun item_of :: "datum \<Rightarrow> list_item" where
  "item_of (Obj item) = item"
| "item_of _ = undefined"

abbreviation is_object :: "datum \<Rightarrow> bool" where
  "is_object d \<equiv> (\<exists>item. d = Obj item)"

lemma map_filter_append: "List.map_filter g (xs @ ys) = List.map_filter g xs @ List.map_filter g ys"
  by (induction xs) (auto simp: map_filter_simps split: option.splits)

lemma objects_positions:
  "objects data = map (\<lambda>n. item_of (data ! n)) (filter (\<lambda>n. is_object (data ! n)) [0..<length data])"
proof (induction data rule: rev_induct)
  case (snoc d data)
  have "filter (\<lambda>n. is_object ((data @ [d]) ! n)) [0..<length data] =
      filter (\<lambda>n. is_object (data ! n)) [0..<length data]"
    by (rule filter_cong) (auto simp: nth_append)
  moreover have "map (\<lambda>n. item_of ((data @ [d]) ! n)) (filter (\<lambda>n. is_object (data ! n)) [0..<length data]) =
      map (\<lambda>n. item_of (data ! n)) (filter (\<lambda>n. is_object (data ! n)) [0..<length data])"
    by (rule map_cong) (auto simp: nth_append)
  moreover have "objects (data @ [d]) = objects data @ objects [d]"
    by (simp add: objects_def map_filter_append)
  ultimately show ?case using snoc by (cases d) (auto simp: objects_def map_filter_simps)
qed (simp add: objects_def map_filter_simps)

definition data_key :: "row_id \<Rightarrow> datum list \<Rightarrow> list_item \<Rightarrow> enat" where
  "data_key f data x = (if truthy (f x)
     then (case map_of (rowIdToIndex f data) (the (f x)) of Some i \<Rightarrow> enat i | None \<Rightarrow> \<infinity>) else \<infinity>)"

lemma sortByDataOrder_key: "sortByDataOrder f f data items = sort_key (data_key f data) items"
  by (simp add: sortByDataOrder_def data_key_def [abs_def] Let_def)

lemma data_keys_are_positions:
  assumes "\<forall>x \<in> set (objects data). truthy (f x)" and "distinct (map f (objects data))"
  shows "map (data_key f data) (objects data) =
     map enat (filter (\<lambda>n. is_object (data ! n)) [0..<length data])"
proof -
  let ?ns = "filter (\<lambda>n. is_object (data ! n)) [0..<length data]"
  have "data_key f data (item_of (data ! n)) = enat n" if "n \<in> set ?ns" for n
  proof -
    from that obtain x where x: "n < length data" "data ! n = Obj x" by auto
    have "item_of (data ! n) \<in> set (objects data)"
      unfolding objects_positions set_map using that by (rule imageI)
    then have "x \<in> set (objects data)" by (simp add: x)
    with assms(1) obtain k where k: "f x = Some k" "k \<noteq> ''''" by (blast elim: truthyE)
    have inj: "inj_on (\<lambda>n. f (item_of (data ! n))) (set ?ns)"
      using assms(2) unfolding objects_positions distinct_map map_map o_def by blast
    have "m = n" if m: "m < length data" "holds_id f k (data ! m)" for m
    proof (rule inj_onD [OF inj _ _ \<open>n \<in> set ?ns\<close>])
      from m(2) obtain y where y: "data ! m = Obj y" "f y = Some k" by (auto simp: holds_id_def)
      then show "f (item_of (data ! m)) = f (item_of (data ! n))" using x k by simp
      show "m \<in> set ?ns" using m(1) y(1) by simp
    qed
    then have "\<forall>m < length data. holds_id f k (data ! m) \<longrightarrow> m = n" by blast
    moreover have "holds_id f k (data ! n)" unfolding holds_id_def using x k by blast
    ultimately have "map_of (rowIdToIndex f data) k = Some n"
      using rowIdToIndex_at [OF x(1) _ k(2)] by blast
    with k x show ?thesis by (simp add: data_key_def)
  qed
  then have "map (\<lambda>n. data_key f data (item_of (data ! n))) ?ns = map enat ?ns" by simp
  then show ?thesis by (simp only: objects_positions map_map o_def)
qed

lemma collectItems_distinct:
  assumes "\<forall>x \<in> set items. truthy (f x)" and "distinct (map f items)"
  shows "snd (collectItems f items) = map (\<lambda>x. (the (f x), x)) items"
proof -
  have "foldl (collectItem f) (ids, m) xs = (ids @ map (\<lambda>x. the (f x)) xs, m @ map (\<lambda>x. (the (f x), x)) xs)"
    if "\<forall>x \<in> set xs. truthy (f x)" "distinct (map f xs)"
      "\<forall>x \<in> set xs. the (f x) \<notin> set ids" "ids = map fst m" for xs ids m
    using that
  proof (induction xs arbitrary: ids m)
    case (Cons x xs)
    then have x: "truthy (f x)" "the (f x) \<notin> set ids" "the (f x) \<notin> fst ` set m" by auto
    have "\<forall>y \<in> set xs. the (f y) \<noteq> the (f x)"
    proof
      fix y assume "y \<in> set xs"
      with Cons.prems(1,2) have "truthy (f y)" "f y \<noteq> f x" by auto (metis image_eqI)
      with x(1) show "the (f y) \<noteq> the (f x)" by (auto elim!: truthyE)
    qed
    with Cons.IH [of "ids @ [the (f x)]" "m @ [(the (f x), x)]"] Cons.prems x show ?case
      by (simp add: collectItem_def Let_def set_add_def update_new)
  qed simp
  from this [of items "[]" "[]"] assms show ?thesis by (simp add: collectItems_def)
qed

lemma selected_in_data_order:
  assumes "\<forall>x \<in> set (objects data). truthy (extractRowIdFn f x)"
    and "distinct (map (extractRowIdFn f) (objects data))"
    and "set items \<subseteq> set (objects data)" and "distinct items"
  shows "list_getSelected f data (list_perform f (Op_setSelected items) st) =
    filter (\<lambda>x. x \<in> set items) (objects data)"
proof -
  let ?f = "extractRowIdFn f" and ?ys = "filter (\<lambda>x. x \<in> set items) (objects data)"
  let ?key = "data_key ?f data"
  have d: "distinct (objects data)" using assms(2) by (simp add: distinct_map)
  have "distinct (map ?f items)"
    using assms(2-4) by (auto simp: distinct_map intro: inj_on_subset)
  moreover have "\<forall>x \<in> set items. truthy (?f x)" using assms(1,3) by blast
  ultimately have "obj_values (snd (collectItems ?f items)) = items"
    by (simp add: collectItems_distinct o_def)
  then have "list_getSelected f data (list_perform f (Op_setSelected items) st) = sort_key ?key items"
    by (simp add: list_getSelected_def select_fields sortByDataOrder_key del: itemListReducer.simps)
  also have "\<dots> = ?ys"
  proof (rule sort_key_inj_key_eq)
    have "set items = set ?ys" using assms(3) by auto
    moreover have "distinct ?ys" using d by simp
    ultimately show "mset items = mset ?ys" using assms(4) set_eq_iff_mset_eq_distinct by blast
    note keys = data_keys_are_positions [OF assms(1,2)]
    have "distinct (map ?key (objects data))" unfolding keys by (simp add: distinct_map inj_on_def)
    then show "inj_on ?key (set items)"
      using assms(3) by (auto simp: distinct_map intro: inj_on_subset)
    have "sorted (map ?key (objects data))" unfolding keys
      by (simp add: sorted_map sorted_wrt_filter sorted_wrt_mono_rel [OF _ sorted_wrt_upt])
    then show "sorted (map ?key ?ys)" by (rule sorted_filter)
  qed
  finally show ?thesis .
qed

text \<open>
  \<open>getSelected\<close> gives the selected items in the order of the data, whatever the order in which they
  were selected, when the rows have distinct row ids.
\<close>

theorem getSelected_in_data_order:
  assumes "\<forall>x \<in> set (objects data). truthy (extractRowIdFn f x)"
    and "distinct (map (extractRowIdFn f) (objects data))"
    and "set items \<subseteq> set (objects data)" and "distinct items"
  shows "list_getSelected f data (list_perform f (Op_setSelected items) st) =
    filter (\<lambda>x. x \<in> set items) (objects data)"
  using assms by (rule selected_in_data_order)

theorem getSelected_in_data_order_witness:
  "list_getSelected None
     [Obj \<lparr>li_itemType = SONG, li_serverId = ''s'', li_id = ''a'', li_rest = ''''\<rparr>, Nullish,
      Obj \<lparr>li_itemType = SONG, li_serverId = ''s'', li_id = ''b'', li_rest = ''''\<rparr>]
     (list_perform None (Op_setSelected
       [\<lparr>li_itemType = SONG, li_serverId = ''s'', li_id = ''b'', li_rest = ''''\<rparr>,
        \<lparr>li_itemType = SONG, li_serverId = ''s'', li_id = ''a'', li_rest = ''''\<rparr>])
       (newListStore :: nat list_store)) =
   [\<lparr>li_itemType = SONG, li_serverId = ''s'', li_id = ''a'', li_rest = ''''\<rparr>,
    \<lparr>li_itemType = SONG, li_serverId = ''s'', li_id = ''b'', li_rest = ''''\<rparr>]"
  by (rule trans, rule getSelected_in_data_order)
    (simp_all add: objects_def map_filter_simps extractRowIdFn_def)

end
