(* ===== verification/ListControls.thy ===== *)
theory ListControls
  imports ItemList
begin

text \<open>
  What clicks and buttons on the rows of an item list do
  (\<^verbatim>\<open>components/item-list/helpers/item-list-controls.ts\<close>): the selection with and without modifier keys,
  the double click that opens an item or plays from it, and the buttons for favourites, ratings, playing, the
  context menu and the expansion. The calls of the player, the router, the mutations and the menu are effects.
\<close>

section \<open>Clicks\<close>

record click_event =
  ce_ctrlKey :: bool
  ce_metaKey :: bool
  ce_shiftKey :: bool

definition list_isSelected :: "string \<Rightarrow> 'l list_store \<Rightarrow> bool" where
  "list_isSelected rowId st = (rowId \<in> set (l_selected (ls_state st)))"

text \<open>The loop that merges the range into the selection, avoiding duplicates.\<close>

definition mergeRange :: "row_id \<Rightarrow> list_item list \<Rightarrow> list_item list \<Rightarrow> list_item list" where
  "mergeRange extractRowId selected rangeItems =
     foldl (\<lambda>newSelected rangeItem.
         let rangeRowId = extractRowId rangeItem
         in if truthy rangeRowId \<and> \<not> list_ex (\<lambda>s. extractRowId s = rangeRowId) newSelected
            then newSelected @ [rangeItem] else newSelected) selected rangeItems"

definition onClick ::
    "row_id option \<Rightarrow> datum list \<Rightarrow> click_event \<Rightarrow> list_item \<Rightarrow> 'l list_store \<Rightarrow> 'l list_store" where
  "onClick f data event item st =
     (let extractRowId = extractRowIdFn f; rowId = extractRowId item
      in if \<not> truthy rowId then st
         else if ce_ctrlKey event \<or> ce_metaKey event then
           (if list_isSelected (the rowId) st
            then list_perform f (Op_setSelected
                   (filter (\<lambda>selectedItem. extractRowId selectedItem \<noteq> rowId) (list_getSelected f data st))) st
            else list_perform f (Op_setSelected (list_getSelected f data st @ [item])) st)
         else if ce_shiftKey event then
           (let selectedItems = list_getSelected f data st
            in if selectedItems = [] then list_perform f (Op_setSelected [item]) st
               else
                 (let lastSelectedItem = last selectedItems;
                      validData = objects (list_getData data);
                      lastRowId = extractRowId lastSelectedItem
                  in if \<not> truthy lastRowId then st
                     else
                       (let lastIndex = list_findItemIndex f data (the lastRowId);
                            currentIndex = list_findItemIndex f data (the rowId)
                        in if lastIndex \<noteq> -1 \<and> currentIndex \<noteq> -1 then
                             (let startIndex = nat (min lastIndex currentIndex);
                                  stopIndex = nat (max lastIndex currentIndex);
                                  rangeItems = filter (\<lambda>x. truthy (extractRowId x))
                                    (take (Suc stopIndex - startIndex) (drop startIndex validData))
                              in list_perform f (Op_setSelected (mergeRange extractRowId selectedItems rangeItems)) st)
                           else st)))
         else
           (let selectedItems = list_getSelected f data st;
                isOnlySelected = (length selectedItems = 1 \<and> extractRowId (hd selectedItems) = rowId)
            in if isOnlySelected then list_perform f Op_clearSelected st
               else list_perform f (Op_setSelected [item]) st))"

section \<open>Double clicks and buttons\<close>

datatype control_effect =
    Navigate string list_item
  | AddToQueueByData "list_item list" Play string
  | MediaPlay string
  | SetFavorite string "string list" LibraryItem bool
  | SetRating string "string list" LibraryItem rat
  | ContextMenu "list_item list" LibraryItem
  | AddToQueueByFetch string "string list" LibraryItem Play

definition itemTypeMapping :: "LibraryItem \<Rightarrow> LibraryItem option" where
  "itemTypeMapping t =
     (case t of
        ALBUM \<Rightarrow> Some ALBUM | ALBUM_ARTIST \<Rightarrow> Some ALBUM_ARTIST | ARTIST \<Rightarrow> Some ARTIST
      | GENRE \<Rightarrow> Some GENRE | PLAYLIST \<Rightarrow> Some PLAYLIST | PLAYLIST_SONG \<Rightarrow> Some SONG
      | QUEUE_SONG \<Rightarrow> Some SONG | _ \<Rightarrow> None)"

abbreviation apiItemType :: "LibraryItem \<Rightarrow> LibraryItem" where
  "apiItemType t \<equiv> nullish_or (itemTypeMapping t) t"

text \<open>\<open>generatePath\<close> of the router fills in the parameter of a route.\<close>

definition getTitlePath :: "(string \<Rightarrow> string \<Rightarrow> string) \<Rightarrow> LibraryItem \<Rightarrow> string \<Rightarrow> string option" where
  "getTitlePath generatePath itemType k =
     (case itemType of
        ALBUM \<Rightarrow> Some (generatePath ''/library/albums/:albumId'' k)
      | ALBUM_ARTIST \<Rightarrow> Some (generatePath ''/library/album-artists/:albumArtistId'' k)
      | ARTIST \<Rightarrow> Some (generatePath ''/library/artists/:artistId'' k)
      | GENRE \<Rightarrow> Some (generatePath ''/library/genres/:genreId'' k)
      | PLAYLIST \<Rightarrow> Some (generatePath ''/playlists/:playlistId/songs'' k)
      | _ \<Rightarrow> None)"

text \<open>The songs that are added when a song is double clicked: it alone, or those around it.\<close>

definition songsBefore :: nat where "songsBefore = 50"
definition songsAfter :: nat where "songsAfter = 50"

definition songsToAdd :: "list_item list \<Rightarrow> nat \<Rightarrow> list_item \<Rightarrow> Play \<Rightarrow> bool \<Rightarrow> list_item list" where
  "songsToAdd validSongs clickedIndex item playType singleSongOnly =
     (if singleSongOnly \<or> playType \<in> {Play_NEXT, Play_LAST, Play_NEXT_SHUFFLE, Play_LAST_SHUFFLE} then [item]
      else
        (let startIndex = clickedIndex - songsBefore;
             endIndex = min (length validSongs) (clickedIndex + songsAfter + 1)
         in take (endIndex - startIndex) (drop startIndex validSongs)))"

text \<open>
  The unique id of a queue song is a field that other items lack; \<open>meta\<close> holds the play type and the
  flag for a single song.
\<close>

definition onDoubleClick ::
    "(string \<Rightarrow> string \<Rightarrow> string) \<Rightarrow> (list_item \<Rightarrow> string option) \<Rightarrow> row_id option \<Rightarrow> datum list \<Rightarrow> LibraryItem
       \<Rightarrow> Play option \<Rightarrow> bool \<Rightarrow> list_item \<Rightarrow> 'l list_store \<Rightarrow> 'l list_store \<times> control_effect list" where
  "onDoubleClick generatePath uniqueIdOf f data itemType playMeta singleSongOnly item st =
     (let st1 = list_perform f (Op_setSelected [item]) st;
          path = getTitlePath generatePath itemType (li_id item)
      in if itemType \<in> {ALBUM, ALBUM_ARTIST, ARTIST, GENRE, PLAYLIST} \<and> truthy path
         then (st1, [Navigate (the path) item])
         else if itemType = SONG \<or> itemType = PLAYLIST_SONG then
           (let validSongs = filter (\<lambda>d. li_itemType d = SONG) (objects (list_getData data))
            in if validSongs = [] then (st1, [])
               else
                 (let clickedIndex = findIndex (\<lambda>song. li_id song = li_id item) validSongs
                  in if clickedIndex = -1 then (st1, [])
                     else
                       (let playType = nullish_or playMeta Play_NOW;
                            songs = songsToAdd validSongs (nat clickedIndex) item playType singleSongOnly
                        in if songs = [] then (st1, []) else (st1, [AddToQueueByData songs playType (li_id item)]))))
         else if itemType = QUEUE_SONG \<and> truthy (uniqueIdOf item) then (st1, [MediaPlay (the (uniqueIdOf item))])
         else (st1, []))"

text \<open>The item that is expanded in the application's store.\<close>

definition onExpand ::
    "LibraryItem \<Rightarrow> list_item \<Rightarrow> (list_item \<times> LibraryItem) option \<Rightarrow> (list_item \<times> LibraryItem) option" where
  "onExpand itemType item globalExpanded =
     (if map_option (li_id \<circ> fst) globalExpanded = Some (li_id item) then None else Some (item, itemType))"

definition onFavorite :: "LibraryItem \<Rightarrow> bool \<Rightarrow> list_item \<Rightarrow> control_effect list" where
  "onFavorite itemType favorite item =
     (if li_id item = '''' \<or> li_serverId item = '''' then []
      else [SetFavorite (li_serverId item) [li_id item] (apiItemType itemType) favorite])"

text \<open>A rating is a property of the item; giving it again takes it away.\<close>

definition onRating :: "(list_item \<Rightarrow> rat option) \<Rightarrow> LibraryItem \<Rightarrow> rat \<Rightarrow> list_item \<Rightarrow> control_effect list" where
  "onRating userRating itemType rating item =
     (if li_id item = '''' \<or> li_serverId item = '''' then []
      else
        (let previousRating = nullish_or (userRating item) 0;
             newRating = (if previousRating = rating then 0 else rating)
         in [SetRating (li_serverId item) [li_id item] (apiItemType itemType) newRating]))"

definition onPlay :: "LibraryItem \<Rightarrow> Play \<Rightarrow> list_item \<Rightarrow> control_effect list" where
  "onPlay itemType playType item = [AddToQueueByFetch (li_serverId item) [li_id item] itemType playType]"

text \<open>The type the context menu is for: that of the list for playlist and queue songs, else the item's.\<close>

definition menuItemType :: "LibraryItem \<Rightarrow> list_item \<Rightarrow> LibraryItem" where
  "menuItemType itemType item =
     (if itemType = PLAYLIST_SONG \<or> itemType = QUEUE_SONG then itemType else li_itemType item)"

definition onMore ::
    "bool \<Rightarrow> row_id option \<Rightarrow> datum list \<Rightarrow> LibraryItem \<Rightarrow> list_item \<Rightarrow> 'l list_store
       \<Rightarrow> 'l list_store \<times> control_effect list" where
  "onMore enableMultiSelect f data itemType item st =
     (let rowId = extractRowIdFn f item; alone = [ContextMenu [item] (menuItemType itemType item)]
      in if \<not> truthy rowId then (st, [])
         else if \<not> enableMultiSelect then (st, alone)
         else if list_getSelected f data st = [] \<or> \<not> list_isSelected (the rowId) st
         then (list_perform f (Op_setSelected [item]) st, alone)
         else
           (let selectedItems = list_getSelected f data st
            in (st, [ContextMenu selectedItems (menuItemType itemType (hd selectedItems))])))"

section \<open>The selection as a set of rows\<close>

text \<open>The rows of a list, each with a row id of its own.\<close>

definition rows_ok :: "row_id option \<Rightarrow> datum list \<Rightarrow> bool" where
  "rows_ok f data = ((\<forall>x \<in> set (objects data). truthy (extractRowIdFn f x))
     \<and> distinct (map (extractRowIdFn f) (objects data)))"

definition selects :: "row_id option \<Rightarrow> datum list \<Rightarrow> list_item set \<Rightarrow> 'l list_store \<Rightarrow> bool" where
  "selects f data S st = (list_getSelected f data st = filter (\<lambda>x. x \<in> S) (objects data)
     \<and> (\<forall>x \<in> set (objects data). list_isSelected (the (extractRowIdFn f x)) st \<longleftrightarrow> x \<in> S))"

text \<open>
  What a click means: with control or command it adds or removes the row; with shift it adds the rows
  between it and the last selected one; else it selects this row only, or nothing if that is selected already.
\<close>

definition rowRange :: "list_item list \<Rightarrow> nat \<Rightarrow> nat \<Rightarrow> list_item set" where
  "rowRange rows i j = (!) rows ` {min i j..max i j}"

definition clickSpec :: "list_item list \<Rightarrow> click_event \<Rightarrow> nat \<Rightarrow> list_item set \<Rightarrow> list_item set" where
  "clickSpec rows event n S =
     (let x = rows ! n
      in if ce_ctrlKey event \<or> ce_metaKey event then (if x \<in> S then S - {x} else insert x S)
         else if ce_shiftKey event then
           (if S \<inter> set rows = {} then {x}
            else S \<union> rowRange rows (Max {k. k < length rows \<and> rows ! k \<in> S}) n)
         else if S \<inter> set rows = {x} then {} else {x})"

lemma rows_distinct: "rows_ok f data \<Longrightarrow> distinct (objects data)"
  by (simp add: rows_ok_def distinct_map)

lemma rows_inj:
  "rows_ok f data \<Longrightarrow> x \<in> set (objects data) \<Longrightarrow> y \<in> set (objects data) \<Longrightarrow>
     extractRowIdFn f x = extractRowIdFn f y \<longleftrightarrow> x = y"
  by (auto simp: rows_ok_def distinct_map inj_on_def)

lemma rows_truthy: "rows_ok f data \<Longrightarrow> x \<in> set (objects data) \<Longrightarrow> truthy (extractRowIdFn f x)"
  by (simp add: rows_ok_def)

lemma selects_setSelected:
  assumes "rows_ok f data" and "set items \<subseteq> set (objects data)" and "distinct items"
    and "S \<inter> set (objects data) = set items"
  shows "selects f data S (list_perform f (Op_setSelected items) st)"
proof -
  have "list_getSelected f data (list_perform f (Op_setSelected items) st) = filter (\<lambda>x. x \<in> set items) (objects data)"
    using assms(1-3) by (intro selected_in_data_order) (simp_all add: rows_ok_def)
  also have "\<dots> = filter (\<lambda>x. x \<in> S) (objects data)" using assms(4) by (intro filter_cong) auto
  finally have sel: "list_getSelected f data (list_perform f (Op_setSelected items) st) = filter (\<lambda>x. x \<in> S) (objects data)" .
  have "list_isSelected (the (extractRowIdFn f x)) (list_perform f (Op_setSelected items) st) \<longleftrightarrow> x \<in> S"
    if x: "x \<in> set (objects data)" for x
  proof -
    have "the (extractRowIdFn f x) = the (extractRowIdFn f y) \<longleftrightarrow> x = y" if "y \<in> set items" for y
    proof -
      have y: "y \<in> set (objects data)" using that assms(2) by auto
      show ?thesis using rows_inj [OF assms(1) x y] rows_truthy [OF assms(1) x] rows_truthy [OF assms(1) y]
        by (auto elim!: truthyE)
    qed
    moreover have "truthy (extractRowIdFn f y)" if "y \<in> set items" for y
      using that assms(2) by (intro rows_truthy [OF assms(1)]) auto
    ultimately have "list_isSelected (the (extractRowIdFn f x)) (list_perform f (Op_setSelected items) st) \<longleftrightarrow> x \<in> set items"
      by (auto simp: list_isSelected_def select_fields collectItems_set rowIds_def simp del: itemListReducer.simps)
    then show ?thesis using x assms(4) by auto
  qed
  with sel show ?thesis by (simp add: selects_def)
qed

lemma selects_cleared:
  assumes "S \<inter> set (objects data) = {}"
  shows "selects f data S (list_perform f Op_clearSelected st)"
proof -
  have "filter (\<lambda>x. x \<in> S) (objects data) = []" using assms by (auto simp: filter_empty_conv)
  then show ?thesis
    using assms by (auto simp: selects_def list_getSelected_def list_isSelected_def sortByDataOrder_def)
qed

lemma list_getData_objects [simp]: "objects (list_getData data) = objects data"
  by (induction data) (auto simp: objects_def list_getData_def map_filter_simps split: datum.split)

lemma findItemIndex_row:
  assumes "rows_ok f data" and "n < length (objects data)"
  shows "list_findItemIndex f data (the (extractRowIdFn f (objects data ! n))) = int n"
proof -
  let ?xs = "objects data"
  have t: "truthy (extractRowIdFn f (?xs ! n))" by (rule rows_truthy [OF assms(1)]) (simp add: assms(2))
  have id: "findIndex (\<lambda>d. extractRowIdFn f d = extractRowIdFn f (?xs ! n)) ?xs = int n"
    using findIndex_map [of "\<lambda>y. y = extractRowIdFn f (?xs ! n)" "extractRowIdFn f" ?xs]
      findIndex_distinct [of "map (extractRowIdFn f) ?xs" n] assms by (simp add: rows_ok_def)
  show ?thesis
  proof (cases f)
    case None
    then show ?thesis using id by (simp add: list_findItemIndex_def extractRowIdFn_def)
  next
    case (Some g)
    then obtain k where "g (?xs ! n) = Some k" using t by (auto simp: extractRowIdFn_def elim: truthyE)
    then show ?thesis using id Some by (simp add: list_findItemIndex_def extractRowIdFn_def)
  qed
qed

lemma mergeRange_fresh:
  assumes "rows_ok f data" and "set xs \<union> set ys \<subseteq> set (objects data)" and "distinct xs"
  shows "distinct (mergeRange (extractRowIdFn f) xs ys)
    \<and> set (mergeRange (extractRowIdFn f) xs ys) = set xs \<union> set ys"
  using assms(2,3)
proof (induction ys arbitrary: xs)
  case (Cons y ys)
  have "list_ex (\<lambda>s. extractRowIdFn f s = extractRowIdFn f y) xs \<longleftrightarrow> y \<in> set xs"
    using Cons.prems rows_inj [OF assms(1)] by (auto simp: list_ex_iff)
  moreover have "truthy (extractRowIdFn f y)" using Cons.prems by (intro rows_truthy [OF assms(1)]) simp
  ultimately show ?case
    using Cons.IH [of xs] Cons.IH [of "xs @ [y]"] Cons.prems by (auto simp: mergeRange_def)
qed (simp add: mergeRange_def)

lemma last_filter_Max:
  "filter P xs \<noteq> [] \<Longrightarrow> Max {k. k < length xs \<and> P (xs ! k)} < length xs
     \<and> last (filter P xs) = xs ! Max {k. k < length xs \<and> P (xs ! k)}"
proof (induction xs rule: rev_induct)
  case (snoc x xs)
  have old: "{k. k < length xs \<and> P ((xs @ [x]) ! k)} = {k. k < length xs \<and> P (xs ! k)}"
    by (auto simp: nth_append)
  show ?case
  proof (cases "P x")
    case True
    then have set: "{k. k < length (xs @ [x]) \<and> P ((xs @ [x]) ! k)} = insert (length xs) {k. k < length xs \<and> P (xs ! k)}"
      by (auto simp: nth_append less_Suc_eq)
    have "Max (insert (length xs) {k. k < length xs \<and> P (xs ! k)}) = length xs"
      by (intro Max_eqI) auto
    then show ?thesis unfolding set using True by simp
  next
    case False
    then have "{k. k < length (xs @ [x]) \<and> P ((xs @ [x]) ! k)} = {k. k < length xs \<and> P (xs ! k)}"
      by (auto simp: nth_append less_Suc_eq)
    then show ?thesis using snoc False by (auto simp: nth_append)
  qed
qed simp

lemma set_slice: "j < length xs \<Longrightarrow> set (take (Suc j - i) (drop i xs)) = (!) xs ` {i..j}"
proof (induction xs arbitrary: i j)
  case (Cons x xs)
  show ?case
  proof (cases i)
    case 0
    have "{0..j} = insert 0 (Suc ` {0..<j})" by (auto simp: image_iff dest: gr0_implies_Suc)
    moreover have "set (take j xs) = (!) xs ` {0..<j}" using Cons.prems by (simp add: nth_image)
    ultimately have "(!) (x # xs) ` {0..j} = set (x # take j xs)"
      by (simp only: image_insert image_image nth_Cons_0 nth_Cons_Suc list.set)
    then show ?thesis by (simp add: 0)
  next
    case (Suc k)
    show ?thesis
    proof (cases j)
      case (Suc m)
      then have "(!) (x # xs) ` {Suc k..Suc m} = (!) xs ` {k..m}"
        by (simp only: image_Suc_atLeastAtMost [symmetric] image_image nth_Cons_Suc)
      then show ?thesis using Cons.IH [of m k] Cons.prems by (simp add: \<open>i = Suc k\<close> Suc)
    qed (simp add: Suc)
  qed
qed simp

lemma onClick_range:
  assumes "rows_ok f data" and "n < length (objects data)" and "selects f data S st"
    and "S \<inter> set (objects data) \<noteq> {}"
    and k: "k = Max {k. k < length (objects data) \<and> objects data ! k \<in> S}"
  shows "k < length (objects data)"
    and "last (list_getSelected f data st) = objects data ! k"
    and "selects f data (S \<union> rowRange (objects data) k n) (list_perform f (Op_setSelected
      (mergeRange (extractRowIdFn f) (list_getSelected f data st)
        (filter (\<lambda>x. truthy (extractRowIdFn f x))
          (take (Suc (max k n) - min k n) (drop (min k n) (objects data)))))) st)"
proof -
  let ?xs = "objects data"
  have got: "list_getSelected f data st = filter (\<lambda>y. y \<in> S) ?xs" using assms(3) by (simp add: selects_def)
  have "filter (\<lambda>y. y \<in> S) ?xs \<noteq> []" using assms(4) by (auto simp: filter_empty_conv)
  then have last: "k < length ?xs" "last (list_getSelected f data st) = ?xs ! k"
    using last_filter_Max [of "\<lambda>y. y \<in> S" ?xs] by (simp_all add: k got)
  show "k < length ?xs" "last (list_getSelected f data st) = ?xs ! k" by (rule last)+
  have slice: "set (take (Suc (max k n) - min k n) (drop (min k n) ?xs)) = rowRange ?xs k n"
    using set_slice [of "max k n" ?xs "min k n"] last(1) assms(2) by (simp add: rowRange_def)
  then have sub: "rowRange ?xs k n \<subseteq> set ?xs" by (metis set_take_subset set_drop_subset subset_trans)
  let ?range = "filter (\<lambda>x. truthy (extractRowIdFn f x)) (take (Suc (max k n) - min k n) (drop (min k n) ?xs))"
  have range: "set ?range = rowRange ?xs k n"
    using slice sub rows_truthy [OF assms(1)] by auto
  note merged = mergeRange_fresh [OF assms(1), of "list_getSelected f data st" ?range]
  have m: "distinct (mergeRange (extractRowIdFn f) (list_getSelected f data st) ?range)"
    "set (mergeRange (extractRowIdFn f) (list_getSelected f data st) ?range) = (S \<inter> set ?xs) \<union> rowRange ?xs k n"
    using merged sub rows_distinct [OF assms(1)] unfolding range got by auto
  show "selects f data (S \<union> rowRange ?xs k n) (list_perform f (Op_setSelected
      (mergeRange (extractRowIdFn f) (list_getSelected f data st) ?range)) st)"
    by (rule selects_setSelected [OF assms(1) _ m(1)]) (use m(2) sub in auto)
qed

lemma onClick_toggle:
  assumes "rows_ok f data" and "x \<in> set (objects data)" and "selects f data S st"
  shows "selects f data (if x \<in> S then S - {x} else insert x S)
    (list_perform f (Op_setSelected
       (if list_isSelected (the (extractRowIdFn f x)) st
        then filter (\<lambda>y. extractRowIdFn f y \<noteq> extractRowIdFn f x) (list_getSelected f data st)
        else list_getSelected f data st @ [x])) st)"
proof (rule selects_setSelected [OF assms(1)])
  have sel: "list_isSelected (the (extractRowIdFn f x)) st \<longleftrightarrow> x \<in> S"
    and got: "list_getSelected f data st = filter (\<lambda>y. y \<in> S) (objects data)"
    using assms(2,3) by (simp_all add: selects_def)
  let ?items = "if list_isSelected (the (extractRowIdFn f x)) st
    then filter (\<lambda>y. extractRowIdFn f y \<noteq> extractRowIdFn f x) (list_getSelected f data st)
    else list_getSelected f data st @ [x]"
  show "set ?items \<subseteq> set (objects data)" using assms(2) by (auto simp: got)
  show "distinct ?items" using rows_distinct [OF assms(1)] by (auto simp: got sel)
  show "(if x \<in> S then S - {x} else insert x S) \<inter> set (objects data) = set ?items"
    using assms(2) rows_inj [OF assms(1) _ assms(2)] by (auto simp: got sel)
qed

lemma only_selected:
  assumes "rows_ok f data" and "x \<in> set (objects data)"
  shows "length (filter (\<lambda>y. y \<in> S) (objects data)) = 1
      \<and> extractRowIdFn f (hd (filter (\<lambda>y. y \<in> S) (objects data))) = extractRowIdFn f x
    \<longleftrightarrow> S \<inter> set (objects data) = {x}"
proof -
  let ?ys = "filter (\<lambda>y. y \<in> S) (objects data)"
  have set: "set ?ys = S \<inter> set (objects data)" by auto
  have d: "distinct ?ys" using rows_distinct [OF assms(1)] by simp
  show ?thesis
  proof
    assume "length ?ys = 1 \<and> extractRowIdFn f (hd ?ys) = extractRowIdFn f x"
    then obtain y where y: "?ys = [y]" "extractRowIdFn f y = extractRowIdFn f x"
      by (cases ?ys) auto
    moreover have "y \<in> set (objects data)" using y(1) by (metis filter_is_subset list.set_intros(1) subsetD)
    ultimately have "y = x" using rows_inj [OF assms(1) _ assms(2)] by blast
    with y(1) show "S \<inter> set (objects data) = {x}" using set by simp
  next
    assume "S \<inter> set (objects data) = {x}"
    with set have "set ?ys = {x}" by simp
    with d have "?ys = [x]" by (cases ?ys; cases "tl ?ys") auto
    then show "length ?ys = 1 \<and> extractRowIdFn f (hd ?ys) = extractRowIdFn f x" by simp
  qed
qed

section \<open>Properties\<close>

lemma onClick_refines:
  assumes "rows_ok f data" and "n < length (objects data)" and "selects f data S st"
  shows "selects f data (clickSpec (objects data) event n S) (onClick f data event (objects data ! n) st)"
proof -
  let ?xs = "objects data" and ?x = "objects data ! n"
  have x: "?x \<in> set ?xs" using assms(2) by simp
  have t: "truthy (extractRowIdFn f ?x)" by (rule rows_truthy [OF assms(1) x])
  have got: "list_getSelected f data st = filter (\<lambda>y. y \<in> S) ?xs" using assms(3) by (simp add: selects_def)
  have single: "selects f data {?x} (list_perform f (Op_setSelected [?x]) st)"
    using x by (intro selects_setSelected [OF assms(1)]) auto
  consider (ctrl) "ce_ctrlKey event \<or> ce_metaKey event"
    | (shift) "\<not> (ce_ctrlKey event \<or> ce_metaKey event)" "ce_shiftKey event"
    | (plain) "\<not> (ce_ctrlKey event \<or> ce_metaKey event)" "\<not> ce_shiftKey event" by blast
  then show ?thesis
  proof cases
    case ctrl
    then have "onClick f data event ?x st = list_perform f (Op_setSelected
        (if list_isSelected (the (extractRowIdFn f ?x)) st
         then filter (\<lambda>y. extractRowIdFn f y \<noteq> extractRowIdFn f ?x) (list_getSelected f data st)
         else list_getSelected f data st @ [?x])) st"
      using t by (simp add: onClick_def Let_def del: list_perform.simps)
    then show ?thesis using onClick_toggle [OF assms(1) x assms(3)] ctrl
      by (simp add: clickSpec_def Let_def del: list_perform.simps)
  next
    case shift
    show ?thesis
    proof (cases "S \<inter> set ?xs = {}")
      case True
      then have "list_getSelected f data st = []" by (auto simp: got filter_empty_conv)
      then show ?thesis using shift True t single
        by (simp add: onClick_def clickSpec_def Let_def del: list_perform.simps)
    next
      case False
      define k where "k = Max {k. k < length ?xs \<and> ?xs ! k \<in> S}"
      note range = onClick_range [OF assms False k_def]
      have "truthy (extractRowIdFn f (?xs ! k))" using range(1) by (intro rows_truthy [OF assms(1)]) simp
      moreover have "list_getSelected f data st \<noteq> []" using False by (auto simp: got filter_empty_conv)
      moreover have "nat (min (int k) (int n)) = min k n" "nat (max (int k) (int n)) = max k n" by auto
      ultimately have "onClick f data event ?x st = list_perform f (Op_setSelected
          (mergeRange (extractRowIdFn f) (list_getSelected f data st)
            (filter (\<lambda>x. truthy (extractRowIdFn f x)) (take (Suc (max k n) - min k n) (drop (min k n) ?xs))))) st"
        using shift t by (simp add: onClick_def Let_def range(2) findItemIndex_row [OF assms(1)] range(1) assms(2)
            del: list_perform.simps)
      then show ?thesis using range(3) shift False
        by (simp add: clickSpec_def Let_def k_def [symmetric] del: list_perform.simps)
    qed
  next
    case plain
    have only: "length (filter (\<lambda>y. y \<in> S) ?xs) = 1 \<and> extractRowIdFn f (hd (filter (\<lambda>y. y \<in> S) ?xs)) = extractRowIdFn f ?x
        \<longleftrightarrow> S \<inter> set ?xs = {?x}"
      by (rule only_selected [OF assms(1) x])
    show ?thesis using plain t single only
      by (simp add: onClick_def clickSpec_def got Let_def selects_cleared del: list_perform.simps)
  qed
qed

lemma findIndex_first:
  "k < length xs \<Longrightarrow> P (xs ! k) \<Longrightarrow> (\<And>j. j < k \<Longrightarrow> \<not> P (xs ! j)) \<Longrightarrow> findIndex P xs = int k"
proof (induction xs arbitrary: k)
  case (Cons x xs)
  show ?case
  proof (cases k)
    case (Suc m)
    have "\<not> P (xs ! j)" if "j < m" for j using Cons.prems(3) [of "Suc j"] that Suc by simp
    then have "findIndex P xs = int m" using Cons.prems(1,2) Suc by (intro Cons.IH) simp_all
    moreover have "\<not> P x" using Cons.prems(3) [of 0] Suc by simp
    ultimately show ?thesis by (simp add: Suc)
  qed (use Cons.prems in simp)
qed simp

lemma distinct_filter_eq: "distinct xs \<Longrightarrow> x \<in> set xs \<Longrightarrow> filter (\<lambda>y. y = x) xs = [x]"
  by (induction xs) (auto simp: filter_empty_conv)

text \<open>A sequence of clicks, each with the position of the row.\<close>

definition onClicks ::
    "row_id option \<Rightarrow> datum list \<Rightarrow> (click_event \<times> nat) list \<Rightarrow> 'l list_store \<Rightarrow> 'l list_store" where
  "onClicks f data clicks st = fold (\<lambda>c. onClick f data (fst c) (objects data ! snd c)) clicks st"

definition clicksSpec :: "list_item list \<Rightarrow> (click_event \<times> nat) list \<Rightarrow> list_item set \<Rightarrow> list_item set" where
  "clicksSpec rows clicks S = fold (\<lambda>c. clickSpec rows (fst c) (snd c)) clicks S"

lemma clicks_refine:
  assumes "rows_ok f data" and "list_all (\<lambda>c. snd c < length (objects data)) clicks" and "selects f data S st"
  shows "selects f data (clicksSpec (objects data) clicks S) (onClicks f data clicks st)"
  using assms(2,3) unfolding clicksSpec_def onClicks_def
proof (induction clicks arbitrary: S st)
  case (Cons c clicks)
  then show ?case using onClick_refines [OF assms(1), of "snd c" S st "fst c"] by simp
qed simp

lemma selects_new: "selects f data {} (newListStore :: 'l list_store)"
  by (simp add: selects_def list_getSelected_def list_isSelected_def sortByDataOrder_def newListStore_def
      initialItemListState_def)

text \<open>
  C13: Clicking refines operations on the set of rows: after any sequence of clicks with and without
  modifier keys on a new list, the selected items are, in the order of the list, the rows of the set that the
  clicks make of the empty one, where control adds or removes a row, shift adds the rows up to the last
  selected one, and a plain click selects one row or, if it is the only one already, none.
\<close>

theorem clicks_refine_selection:
  assumes "rows_ok f data" and "list_all (\<lambda>c. snd c < length (objects data)) clicks"
  shows "list_getSelected f data (onClicks f data clicks (newListStore :: 'l list_store)) =
    filter (\<lambda>x. x \<in> clicksSpec (objects data) clicks {}) (objects data)"
  using clicks_refine [OF assms selects_new [where 'l = 'l]] by (simp add: selects_def)

definition exampleRow :: "string \<Rightarrow> list_item" where
  "exampleRow k = \<lparr>li_itemType = SONG, li_serverId = ''s'', li_id = k, li_rest = ''''\<rparr>"

definition exampleRows :: "datum list" where
  "exampleRows = [Nullish, Obj (exampleRow ''a''), Obj (exampleRow ''b''), Obj (exampleRow ''c'')]"

definition plainClick :: click_event where
  "plainClick = \<lparr>ce_ctrlKey = False, ce_metaKey = False, ce_shiftKey = False\<rparr>"

lemma exampleRows_objects: "objects exampleRows = [exampleRow ''a'', exampleRow ''b'', exampleRow ''c'']"
  by (simp add: exampleRows_def objects_def map_filter_simps)

lemma exampleRows_ok: "rows_ok None exampleRows"
  by (simp add: rows_ok_def exampleRows_objects extractRowIdFn_def exampleRow_def)

theorem clicks_refine_selection_witness:
  "list_getSelected None exampleRows
     (onClicks None exampleRows
        [(plainClick, 2), (plainClick\<lparr>ce_ctrlKey := True\<rparr>, 0), (plainClick\<lparr>ce_ctrlKey := True\<rparr>, 2)]
        (newListStore :: nat list_store)) = [exampleRow ''a'']"
  by (rule trans, rule clicks_refine_selection [OF exampleRows_ok])
    (simp_all add: exampleRows_objects clicksSpec_def clickSpec_def Let_def plainClick_def exampleRow_def)

text \<open>
  The context menu acts on what is selected: opening it on a row leaves this row selected, and the
  menu is for exactly the selected rows; a row of the selection keeps the selection as it is.
\<close>

theorem context_menu_acts_on_selection:
  assumes "rows_ok f data" and "n < length (objects data)" and "selects f data S st"
    and "(st', effects) = onMore True f data itemType (objects data ! n) st"
  shows "(\<exists>t. effects = [ContextMenu (list_getSelected f data st') t])
    \<and> objects data ! n \<in> set (list_getSelected f data st') \<and> (objects data ! n \<in> S \<longrightarrow> st' = st)"
proof -
  let ?x = "objects data ! n"
  have x: "?x \<in> set (objects data)" using assms(2) by simp
  have t: "truthy (extractRowIdFn f ?x)" by (rule rows_truthy [OF assms(1) x])
  have got: "list_getSelected f data st = filter (\<lambda>y. y \<in> S) (objects data)"
      "list_isSelected (the (extractRowIdFn f ?x)) st \<longleftrightarrow> ?x \<in> S"
    using assms(3) x by (simp_all add: selects_def)
  have alone: "list_getSelected f data (list_perform f (Op_setSelected [?x]) st) = [?x]"
  proof -
    have "filter (\<lambda>y. y \<in> {?x}) (objects data) = [?x]"
      using rows_distinct [OF assms(1)] x by (simp add: distinct_filter_eq)
    then show ?thesis
      using selects_setSelected [OF assms(1), of "[?x]" "{?x}" st] x by (auto simp: selects_def)
  qed
  show ?thesis
  proof (cases "?x \<in> S")
    case True
    then have "list_getSelected f data st \<noteq> []" using x by (auto simp: got filter_empty_conv)
    with True t assms(4) x show ?thesis by (auto simp: onMore_def Let_def got)
  next
    case False
    with t assms(4) alone show ?thesis by (auto simp: onMore_def Let_def got simp del: list_perform.simps)
  qed
qed

theorem context_menu_acts_on_selection_witness:
  "list_getSelected None exampleRows (fst (onMore True None exampleRows SONG (objects exampleRows ! 1)
     (newListStore :: nat list_store))) \<noteq> []"
  using context_menu_acts_on_selection [OF exampleRows_ok _ selects_new [where 'l = nat], of 1, OF _ surjective_pairing [symmetric],
      of SONG]
  by (auto simp: exampleRows_objects)

text \<open>
  A double click on a song plays from it: the songs that are added are those of the list up to 50
  places before and after the first song with its id, in order, that one among them, and it is the song to start with.
\<close>

theorem double_click_plays_around_song:
  assumes "validSongs = filter (\<lambda>d. li_itemType d = SONG) (objects data)"
    and "k < length validSongs" and "li_id (validSongs ! k) = li_id item"
    and "\<And>j. j < k \<Longrightarrow> li_id (validSongs ! j) \<noteq> li_id item"
  shows "\<exists>songs. snd (onDoubleClick generatePath uniqueIdOf f data SONG None False item st) =
      [AddToQueueByData songs Play_NOW (li_id item)]
    \<and> (\<exists>before after. validSongs = before @ songs @ after \<and> length before = k - 50
        \<and> length songs = min (length validSongs) (k + 51) - (k - 50))
    \<and> validSongs ! k \<in> set songs \<and> length songs \<le> 101"
proof -
  let ?songs = "songsToAdd validSongs k item Play_NOW False"
  have idx: "findIndex (\<lambda>song. li_id song = li_id item) validSongs = int k"
    by (rule findIndex_first) (use assms(2-4) in simp_all)
  have songs: "?songs = take (min (length validSongs) (k + 51) - (k - 50)) (drop (k - 50) validSongs)"
    by (simp add: songsToAdd_def songsBefore_def songsAfter_def Let_def add.commute)
  have len: "length ?songs = min (length validSongs) (k + 51) - (k - 50)" using assms(2) by (simp add: songs min_def) arith
  have split: "validSongs = take (k - 50) validSongs @ ?songs
      @ drop (min (length validSongs) (k + 51) - (k - 50)) (drop (k - 50) validSongs)"
    by (simp only: songs append_take_drop_id)
  have "?songs ! (k - (k - 50)) = validSongs ! k" "k - (k - 50) < length ?songs"
    using assms(2) len by (simp_all add: songs)
  then have mem: "validSongs ! k \<in> set ?songs" by (metis nth_mem)
  have "validSongs \<noteq> []" "?songs \<noteq> []" using assms(2) mem by auto
  then have "snd (onDoubleClick generatePath uniqueIdOf f data SONG None False item st) =
      [AddToQueueByData ?songs Play_NOW (li_id item)]"
    using idx by (simp add: onDoubleClick_def Let_def assms(1) [symmetric])
  moreover have "length (take (k - 50) validSongs) = k - 50" using assms(2) by simp
  ultimately show ?thesis using mem len split by (intro exI [of _ ?songs]) (auto intro: exI)
qed

theorem double_click_plays_around_song_witness:
  "\<exists>songs. snd (onDoubleClick (\<lambda>p k. p) (\<lambda>_. None) None exampleRows SONG None False (exampleRow ''b'') (newListStore :: nat list_store)) =
      [AddToQueueByData songs Play_NOW (li_id (exampleRow ''b''))]"
proof -
  have "filter (\<lambda>d. li_itemType d = SONG) (objects exampleRows) = [exampleRow ''a'', exampleRow ''b'', exampleRow ''c'']"
    by (simp add: exampleRows_objects exampleRow_def)
  from double_click_plays_around_song [OF this [symmetric], of 1 "exampleRow ''b''" "\<lambda>p k. p" "\<lambda>_. None" None newListStore]
  show ?thesis by (fastforce simp: exampleRow_def)
qed

end
