(* ===== verification/ListLoader.thy ===== *)
theory ListLoader
  imports Prelude
begin

text \<open>
  The loaders of the item lists (\<^verbatim>\<open>components/item-list/helpers/item-list-infinite-loader.ts\<close> and
  \<^verbatim>\<open>item-list-paginated-loader.ts\<close>): which pages are fetched for the visible rows, how an answer is
  filed in the cache, the reset when the query changes, the refresh, and the updates of single rows
  when favourites and ratings change. The server's answer for a page is an argument; None is a rejected
  request, which ends the asynchronous function it belongs to. The result of such a function says
  whether it came to its end.
\<close>

section \<open>The cached list\<close>

record loader_item =
  li_id :: string
  li_userFavorite :: bool
  li_userRating :: "rat option"
  li_rest :: string

text \<open>The maps keep their entries in the order of insertion.\<close>

record loader_data =
  ld_dataMap :: "(nat \<times> loader_item) list"
  ld_idToIndexMap :: "(string \<times> nat) list"
  ld_pagesLoaded :: "nat set"
  ld_version :: nat

definition getInitialData :: loader_data where
  "getInitialData = \<lparr>ld_dataMap = [], ld_idToIndexMap = [], ld_pagesLoaded = {}, ld_version = 0\<rparr>"

text \<open>The loop over the items of an answer.\<close>

primrec fileItems ::
    "nat \<Rightarrow> loader_item list \<Rightarrow> (nat \<times> loader_item) list \<times> (string \<times> nat) list
       \<Rightarrow> (nat \<times> loader_item) list \<times> (string \<times> nat) list" where
  "fileItems index [] maps = maps"
| "fileItems index (item # items) maps =
     fileItems (Suc index) items (AList.update index item (fst maps), AList.update (li_id item) index (snd maps))"

definition storePage :: "nat \<Rightarrow> nat \<Rightarrow> loader_item list \<Rightarrow> loader_data \<Rightarrow> loader_data" where
  "storePage itemsPerPage pageNumber items oldData =
     (let startIndex = pageNumber * itemsPerPage;
          (nextDataMap, nextIdToIndexMap) =
            fileItems startIndex items (ld_dataMap oldData, ld_idToIndexMap oldData)
      in \<lparr>ld_dataMap = nextDataMap, ld_idToIndexMap = nextIdToIndexMap,
          ld_pagesLoaded = insert pageNumber (ld_pagesLoaded oldData), ld_version = ld_version oldData + 1\<rparr>)"

definition resetData :: "loader_data \<Rightarrow> loader_data" where
  "resetData oldData = \<lparr>ld_dataMap = [], ld_idToIndexMap = [], ld_pagesLoaded = {}, ld_version = ld_version oldData + 1\<rparr>"

section \<open>The state of the loader\<close>

text \<open>The query cache by the key of the query, and the refs of the hook.\<close>

record loader =
  lo_cache :: "string \<Rightarrow> loader_data option"
  lo_lastFetchedPage :: int
  lo_visibleRange :: "(nat \<times> nat) option"
  lo_previousKey :: string
  lo_isRefetching :: bool

text \<open>What the hook is called with: the size of a page, the threshold, random order, the key, the count.\<close>

record loader_props =
  lp_itemsPerPage :: nat
  lp_fetchThreshold :: rat
  lp_isRandomSort :: bool
  lp_dataQueryKey :: string
  lp_totalItemCount :: nat

definition loadedPages :: "loader_props \<Rightarrow> loader \<Rightarrow> nat set" where
  "loadedPages P st = (case lo_cache st (lp_dataQueryKey P) of None \<Rightarrow> {} | Some d \<Rightarrow> ld_pagesLoaded d)"

definition touchPage :: "nat \<Rightarrow> loader \<Rightarrow> loader" where
  "touchPage pageNumber st = st\<lparr>lo_lastFetchedPage := max (lo_lastFetchedPage st) (int pageNumber)\<rparr>"

definition set_data :: "string \<Rightarrow> loader_data option \<Rightarrow> loader \<Rightarrow> loader" where
  "set_data key d st = st\<lparr>lo_cache := (lo_cache st)(key := d)\<rparr>"

text \<open>The updater reads the maps of the data, which are there since the query has initial data.\<close>

definition fetchPage ::
    "loader_props \<Rightarrow> (nat \<Rightarrow> loader_item list option) \<Rightarrow> nat \<Rightarrow> loader \<Rightarrow> loader \<times> bool" where
  "fetchPage P fetch pageNumber st =
     (if lp_isRandomSort P \<and> pageNumber \<in> loadedPages P st then (touchPage pageNumber st, True)
      else
        (case fetch pageNumber of
           None \<Rightarrow> (st, False)
         | Some items \<Rightarrow>
             (case lo_cache st (lp_dataQueryKey P) of
                None \<Rightarrow> (st, False)
              | Some oldData \<Rightarrow>
                  (touchPage pageNumber
                     (set_data (lp_dataQueryKey P) (Some (storePage (lp_itemsPerPage P) pageNumber items oldData)) st),
                   True))))"

fun fetchAll ::
    "loader_props \<Rightarrow> (nat \<Rightarrow> loader_item list option) \<Rightarrow> nat list \<Rightarrow> loader \<Rightarrow> loader \<times> bool" where
  "fetchAll P fetch [] st = (st, True)"
| "fetchAll P fetch (n # ns) st =
     (let (st', ok) = fetchPage P fetch n st in if ok then fetchAll P fetch ns st' else (st', False))"

section \<open>The visible range\<close>

definition pagesToFetch :: "nat \<Rightarrow> rat \<Rightarrow> nat set \<Rightarrow> nat \<Rightarrow> nat \<Rightarrow> nat list" where
  "pagesToFetch itemsPerPage fetchThreshold pagesLoaded startIndex stopIndex =
     (let pageNumber = startIndex div itemsPerPage;
          startPageBoundary = pageNumber * itemsPerPage;
          endPageBoundary = (pageNumber + 1) * itemsPerPage;
          distanceFromStartBoundary = int startIndex - int startPageBoundary;
          distanceToEndBoundary = int endPageBoundary - int stopIndex;
          thresholdDistance = \<lfloor>of_nat itemsPerPage * fetchThreshold\<rfloor>
      in if pageNumber \<notin> pagesLoaded then [pageNumber]
         else (if distanceFromStartBoundary \<le> thresholdDistance \<and> pageNumber > 0
                  \<and> pageNumber - 1 \<notin> pagesLoaded then [pageNumber - 1] else [])
            @ (if distanceToEndBoundary \<le> thresholdDistance \<and> pageNumber + 1 \<notin> pagesLoaded
               then [pageNumber + 1] else []))"

definition onRangeChangedBase ::
    "loader_props \<Rightarrow> (nat \<Rightarrow> loader_item list option) \<Rightarrow> nat \<Rightarrow> nat \<Rightarrow> loader \<Rightarrow> loader \<times> bool" where
  "onRangeChangedBase P fetch startIndex stopIndex st =
     (let st1 = st\<lparr>lo_visibleRange := Some (startIndex, stopIndex)\<rparr>
      in fetchAll P fetch (pagesToFetch (lp_itemsPerPage P) (lp_fetchThreshold P) (loadedPages P st1)
           startIndex stopIndex) st1)"

section \<open>Reset and refresh\<close>

text \<open>
  The effect that runs when the query has changed: its synchronous part, which gives the page that is
  fetched when the count is known (None when nothing is to be done), and its end.
\<close>

definition queryChanged :: "loader_props \<Rightarrow> loader \<Rightarrow> loader \<times> nat option" where
  "queryChanged P st =
     (let key = lp_dataQueryKey P
      in if lp_isRandomSort P \<and> (case lo_cache st key of None \<Rightarrow> False | Some d \<Rightarrow> ld_dataMap d \<noteq> [])
         then (st\<lparr>lo_previousKey := key\<rparr>, None)
         else if lo_previousKey st = key \<or> lo_isRefetching st then (st, None)
         else
           (let pageToFetch = (case lo_visibleRange st of None \<Rightarrow> 0
                  | Some (startIndex, _) \<Rightarrow> startIndex div lp_itemsPerPage P);
                st1 = set_data key (map_option resetData (lo_cache st key)) st
            in (st1\<lparr>lo_previousKey := key, lo_isRefetching := True, lo_lastFetchedPage := -1,
                   lo_visibleRange := None\<rparr>, Some pageToFetch)))"

definition queryChangedEnd ::
    "loader_props \<Rightarrow> (nat \<Rightarrow> loader_item list option) \<Rightarrow> nat \<Rightarrow> loader \<Rightarrow> loader" where
  "queryChangedEnd P fetch pageToFetch st = (fst (fetchPage P fetch pageToFetch st))\<lparr>lo_isRefetching := False\<rparr>"

definition refresh ::
    "loader_props \<Rightarrow> (nat \<Rightarrow> loader_item list option) \<Rightarrow> bool \<Rightarrow> loader \<Rightarrow> loader \<times> bool" where
  "refresh P fetch force st =
     (let key = lp_dataQueryKey P; itemsPerPage = lp_itemsPerPage P;
          currentData = lo_cache st key;
          st1 = (if force \<or> currentData \<noteq> None then
                   (set_data key (Some (case currentData of None \<Rightarrow> getInitialData | Some d \<Rightarrow> resetData d)) st)
                     \<lparr>lo_lastFetchedPage := -1\<rparr>
                 else st);
          pageToFetch = (case lo_visibleRange st1 of
              Some (startIndex, _) \<Rightarrow> startIndex div itemsPerPage
            | None \<Rightarrow> if 0 \<le> lo_lastFetchedPage st1 then nat (lo_lastFetchedPage st1) else 0);
          (st2, ok) = fetchPage P fetch pageToFetch st1
      in if ok then
           onRangeChangedBase P fetch (pageToFetch * itemsPerPage)
             (min ((pageToFetch + 1) * itemsPerPage) (lp_totalItemCount P)) st2
         else (st2, False))"

section \<open>Rows\<close>

definition updateRow :: "(loader_item \<Rightarrow> loader_item) \<Rightarrow> (nat \<times> loader_item) list \<Rightarrow> nat \<Rightarrow> (nat \<times> loader_item) list" where
  "updateRow value_of m index =
     (case map_of m index of None \<Rightarrow> m | Some existing \<Rightarrow> AList.update index (value_of existing) m)"

text \<open>The object that is merged into the rows is given as the function that merges it.\<close>

definition updateItems ::
    "loader_props \<Rightarrow> nat list \<Rightarrow> (loader_item \<Rightarrow> loader_item) \<Rightarrow> loader \<Rightarrow> loader" where
  "updateItems P rows value_of st =
     (case lo_cache st (lp_dataQueryKey P) of
        None \<Rightarrow> st
      | Some prev \<Rightarrow>
          set_data (lp_dataQueryKey P)
            (Some (prev\<lparr>ld_dataMap := foldl (updateRow value_of) (ld_dataMap prev) rows,
               ld_version := ld_version prev + 1\<rparr>)) st)"

definition rowsOf :: "loader_data \<Rightarrow> string list \<Rightarrow> nat list" where
  "rowsOf d ids = List.map_filter (map_of (ld_idToIndexMap d)) ids"

text \<open>The handlers of the favourite and rating events; \<open>concerns\<close> is the test of item type and server.\<close>

definition handleRowEvent ::
    "loader_props \<Rightarrow> bool \<Rightarrow> string list \<Rightarrow> (loader_item \<Rightarrow> loader_item) \<Rightarrow> loader \<Rightarrow> loader" where
  "handleRowEvent P concerns ids value_of st =
     (if \<not> concerns then st
      else
        (case lo_cache st (lp_dataQueryKey P) of
           None \<Rightarrow> st
         | Some d \<Rightarrow>
             (let dataIndexes = rowsOf d ids
              in if dataIndexes = [] then st else updateItems P dataIndexes value_of st)))"

definition handleFavorite :: "loader_props \<Rightarrow> bool \<Rightarrow> string list \<Rightarrow> bool \<Rightarrow> loader \<Rightarrow> loader" where
  "handleFavorite P concerns ids favorite = handleRowEvent P concerns ids (\<lambda>x. x\<lparr>li_userFavorite := favorite\<rparr>)"

definition handleRating :: "loader_props \<Rightarrow> bool \<Rightarrow> string list \<Rightarrow> rat option \<Rightarrow> loader \<Rightarrow> loader" where
  "handleRating P concerns ids rating = handleRowEvent P concerns ids (\<lambda>x. x\<lparr>li_userRating := rating\<rparr>)"

definition loader_getItem :: "loader_props \<Rightarrow> loader \<Rightarrow> nat \<Rightarrow> loader_item option" where
  "loader_getItem P st index = (case lo_cache st (lp_dataQueryKey P) of None \<Rightarrow> None | Some d \<Rightarrow> map_of (ld_dataMap d) index)"

definition loader_getItemIndex :: "loader_props \<Rightarrow> loader \<Rightarrow> string \<Rightarrow> nat option" where
  "loader_getItemIndex P st k = (case lo_cache st (lp_dataQueryKey P) of None \<Rightarrow> None | Some d \<Rightarrow> map_of (ld_idToIndexMap d) k)"

definition loadedItems :: "loader_props \<Rightarrow> loader \<Rightarrow> loader_item list" where
  "loadedItems P st = (case lo_cache st (lp_dataQueryKey P) of None \<Rightarrow> []
     | Some d \<Rightarrow> map snd (sort_key fst (ld_dataMap d)))"

section \<open>The paginated loader\<close>

text \<open>
  The rows of the page that is shown; a row of the placeholder is undefined (None). A rating event reads
  the id of every row, so that it throws (None) on a row that is undefined; a favourite event skips
  those, and so numbers the rows after them too low.
\<close>

type_synonym page_rows = "loader_item option list"

definition pageUpdateItems :: "nat list \<Rightarrow> (loader_item \<Rightarrow> loader_item) \<Rightarrow> page_rows \<Rightarrow> page_rows" where
  "pageUpdateItems rows value_of items =
     map (\<lambda>(item, index). case item of None \<Rightarrow> None
        | Some x \<Rightarrow> if index \<notin> set rows then Some x else Some (value_of x)) (zip items [0..<length items])"

definition idToIndexOf :: "loader_item list \<Rightarrow> (string \<times> nat) list" where
  "idToIndexOf items = foldl (\<lambda>acc (item, index). AList.update (li_id item) index acc) []
     (zip items [0..<length items])"

definition pageRowEvent ::
    "(string \<times> nat) list \<Rightarrow> string list \<Rightarrow> (loader_item \<Rightarrow> loader_item) \<Rightarrow> page_rows \<Rightarrow> page_rows" where
  "pageRowEvent idToIndexMap ids value_of items =
     (let dataIndexes = List.map_filter (map_of idToIndexMap) ids
      in if dataIndexes = [] then items else pageUpdateItems dataIndexes value_of items)"

definition pageHandleFavorite :: "bool \<Rightarrow> string list \<Rightarrow> bool \<Rightarrow> page_rows \<Rightarrow> page_rows" where
  "pageHandleFavorite concerns ids favorite items =
     (if \<not> concerns then items
      else pageRowEvent (idToIndexOf (List.map_filter id items)) ids (\<lambda>x. x\<lparr>li_userFavorite := favorite\<rparr>) items)"

definition pageHandleRating :: "bool \<Rightarrow> string list \<Rightarrow> rat option \<Rightarrow> page_rows \<Rightarrow> page_rows option" where
  "pageHandleRating concerns ids rating items =
     (if \<not> concerns then Some items
      else if None \<in> set items then None
      else Some (pageRowEvent (idToIndexOf (List.map_filter id items)) ids (\<lambda>x. x\<lparr>li_userRating := rating\<rparr>) items))"

definition getFetchRange :: "nat \<Rightarrow> nat \<Rightarrow> nat \<times> nat" where
  "getFetchRange pageIndex itemsPerPage = (itemsPerPage, pageIndex * itemsPerPage)"

text \<open>\<open>Math.ceil(totalItemCount / itemsPerPage)\<close>\<close>

definition pageCount :: "nat \<Rightarrow> nat \<Rightarrow> nat" where
  "pageCount totalItemCount itemsPerPage = nat \<lceil>(of_nat totalItemCount / of_nat itemsPerPage :: rat)\<rceil>"

section \<open>The loader as a component\<close>

text \<open>The query of the data is there as soon as the hook is rendered with its key.\<close>

definition ensureData :: "loader_props \<Rightarrow> loader \<Rightarrow> loader" where
  "ensureData P st =
     (if lo_cache st (lp_dataQueryKey P) = None then set_data (lp_dataQueryKey P) (Some getInitialData) st else st)"

datatype loader_op =
    Lo_render
  | Lo_range nat nat
  | Lo_refresh bool
  | Lo_changed
  | Lo_changedEnd nat
  | Lo_favorite bool "string list" bool
  | Lo_rating bool "string list" "rat option"

fun loader_step ::
    "loader_props \<Rightarrow> (nat \<Rightarrow> loader_item list option) \<Rightarrow> loader_op \<Rightarrow> loader \<Rightarrow> loader" where
  "loader_step P fetch Lo_render st = ensureData P st"
| "loader_step P fetch (Lo_range startIndex stopIndex) st = fst (onRangeChangedBase P fetch startIndex stopIndex st)"
| "loader_step P fetch (Lo_refresh force) st = fst (refresh P fetch force st)"
| "loader_step P fetch Lo_changed st = fst (queryChanged P st)"
| "loader_step P fetch (Lo_changedEnd pageToFetch) st = queryChangedEnd P fetch pageToFetch st"
| "loader_step P fetch (Lo_favorite concerns ids favorite) st = handleFavorite P concerns ids favorite st"
| "loader_step P fetch (Lo_rating concerns ids rating) st = handleRating P concerns ids rating st"

text \<open>
  The hook is called with other properties when the query changes, and what it started before goes on with the old ones: every
  operation has the properties and the server's answers of the rendering it belongs to.
\<close>

type_synonym loader_event = "loader_props \<times> (nat \<Rightarrow> loader_item list option) \<times> loader_op"

fun loader_event_step :: "loader_event \<Rightarrow> loader \<Rightarrow> loader" where
  "loader_event_step (P, fetch, a) st = loader_step P fetch a st"

section \<open>The invariant\<close>

text \<open>
  A server that holds the list \<open>xs\<close>, of rows with different ids, and answers a page with its rows, or
  not at all.
\<close>

definition answers :: "loader_props \<Rightarrow> (nat \<Rightarrow> loader_item list option) \<Rightarrow> loader_item list \<Rightarrow> bool" where
  "answers P fetch xs = (0 < lp_itemsPerPage P \<and> distinct (map li_id xs)
     \<and> (\<forall>p items. fetch p = Some items \<longrightarrow> items = take (lp_itemsPerPage P) (drop (p * lp_itemsPerPage P) xs)))"

text \<open>The rows are those of the list, up to their favourite and rating, and the two maps agree.\<close>

definition same_row :: "loader_item \<Rightarrow> loader_item \<Rightarrow> bool" where
  "same_row x y \<longleftrightarrow> x\<lparr>li_userFavorite := False, li_userRating := None\<rparr> = y\<lparr>li_userFavorite := False, li_userRating := None\<rparr>"

lemma same_row_simps [simp]:
  "same_row x x" "same_row (x\<lparr>li_userFavorite := b\<rparr>) y = same_row x y" "same_row (x\<lparr>li_userRating := r\<rparr>) y = same_row x y"
  by (cases x, cases y, auto simp: same_row_def)+

lemma same_row_id: "same_row x y \<Longrightarrow> li_id x = li_id y"
  by (cases x, cases y) (simp add: same_row_def)

definition maps_ok :: "loader_item list \<Rightarrow> (nat \<times> loader_item) list \<times> (string \<times> nat) list \<Rightarrow> bool" where
  "maps_ok xs maps =
     ((\<forall>i x. map_of (fst maps) i = Some x \<longrightarrow> i < length xs \<and> same_row x (xs ! i))
      \<and> (\<forall>s i. map_of (snd maps) s = Some i \<longleftrightarrow> (\<exists>x. map_of (fst maps) i = Some x \<and> li_id x = s)))"

definition data_ok :: "nat \<Rightarrow> loader_item list \<Rightarrow> loader_data \<Rightarrow> bool" where
  "data_ok itemsPerPage xs d = (maps_ok xs (ld_dataMap d, ld_idToIndexMap d)
     \<and> (\<forall>i < length xs. i div itemsPerPage \<in> ld_pagesLoaded d \<longrightarrow> map_of (ld_dataMap d) i \<noteq> None))"

definition loader_ok :: "loader_props \<Rightarrow> loader_item list \<Rightarrow> loader \<Rightarrow> bool" where
  "loader_ok P xs st = (\<forall>d. lo_cache st (lp_dataQueryKey P) = Some d \<longrightarrow> data_ok (lp_itemsPerPage P) xs d)"

lemma fileItems_lookup:
  "map_of (fst (fileItems k items maps)) i =
     (if k \<le> i \<and> i < k + length items then Some (items ! (i - k)) else map_of (fst maps) i)"
proof (induction items arbitrary: k maps)
  case (Cons x items)
  show ?case by (auto simp: Cons.IH update_conv' nth_Cons' not_less_eq_eq Suc_le_eq)
qed auto

lemma maps_ok_file:
  assumes "maps_ok xs maps" and "k < length xs" and "distinct (map li_id xs)"
  shows "maps_ok xs (AList.update k (xs ! k) (fst maps), AList.update (li_id (xs ! k)) k (snd maps))"
proof -
  have inj: "i = j" if "i < length xs" "j < length xs" "li_id (xs ! i) = li_id (xs ! j)" for i j
    using assms(3) that by (auto simp: distinct_conv_nth)
  have ids: "i < length xs \<and> li_id x = li_id (xs ! i)" if "map_of (fst maps) i = Some x" for i x
    using assms(1) that by (auto simp: maps_ok_def dest: same_row_id)
  show ?thesis
    using assms(1,2) inj ids unfolding maps_ok_def fst_conv snd_conv update_conv' fun_upd_def
    by (auto split: if_splits)
qed

lemma fileItems_ok:
  "maps_ok xs maps \<Longrightarrow> distinct (map li_id xs) \<Longrightarrow> items = take n (drop k xs) \<Longrightarrow> maps_ok xs (fileItems k items maps)"
proof (induction items arbitrary: k n maps)
  case (Cons x items)
  then have k: "k < length xs" by (cases "k < length xs") auto
  with Cons.prems(3) obtain m where "n = Suc m" "x = xs ! k" "items = take m (drop (Suc k) xs)"
    by (cases n) (simp_all add: Cons_nth_drop_Suc [symmetric])
  with maps_ok_file [OF Cons.prems(1) k Cons.prems(2)] Cons.IH [of _ m "Suc k"] Cons.prems(2) show ?case by simp
qed simp


lemma data_ok_initial: "data_ok n xs getInitialData" "data_ok n xs (resetData d)"
  by (simp_all add: data_ok_def maps_ok_def getInitialData_def resetData_def)

lemma page_covers:
  fixes n :: nat
  assumes "0 < n" and "i < length xs" and "i div n = p"
  shows "p * n \<le> i \<and> i < p * n + length (take n (drop (p * n) xs))"
proof -
  have "p * n \<le> i" using div_times_less_eq_dividend [of i n] by (simp add: assms(3))
  moreover have "i < p * n + n"
    using assms(1) dividend_less_div_times [of n i] by (simp add: assms(3) algebra_simps)
  ultimately show ?thesis using assms(2) by simp
qed

lemma data_ok_storePage:
  assumes "data_ok n xs d" and "0 < n" and "distinct (map li_id xs)"
  shows "data_ok n xs (storePage n p (take n (drop (p * n) xs)) d)"
proof -
  let ?items = "take n (drop (p * n) xs)" and ?maps = "(ld_dataMap d, ld_idToIndexMap d)"
  have "maps_ok xs (fileItems (p * n) ?items ?maps)"
    using assms(1,3) by (intro fileItems_ok [OF _ _ refl]) (simp_all add: data_ok_def)
  moreover have "map_of (fst (fileItems (p * n) ?items ?maps)) i \<noteq> None"
    if "i < length xs" "i div n = p \<or> i div n \<in> ld_pagesLoaded d" for i
    using that assms(1) page_covers [OF assms(2) that(1)] by (auto simp: fileItems_lookup data_ok_def)
  ultimately show ?thesis
    by (simp add: data_ok_def storePage_def Let_def case_prod_beta)
qed

lemma loader_ok_frame [simp]:
  "loader_ok P xs (st\<lparr>lo_visibleRange := r\<rparr>) = loader_ok P xs st"
  "loader_ok P xs (st\<lparr>lo_isRefetching := b\<rparr>) = loader_ok P xs st"
  "loader_ok P xs (st\<lparr>lo_previousKey := k\<rparr>) = loader_ok P xs st"
  "loader_ok P xs (st\<lparr>lo_lastFetchedPage := p\<rparr>) = loader_ok P xs st"
  "loader_ok P xs (touchPage n st) = loader_ok P xs st"
  by (simp_all add: loader_ok_def touchPage_def)

lemma loader_ok_set:
  "loader_ok P xs (set_data (lp_dataQueryKey P) d st) =
     (\<forall>x. d = Some x \<longrightarrow> data_ok (lp_itemsPerPage P) xs x)"
  by (simp add: loader_ok_def set_data_def)

lemma fetchPage_ok:
  assumes "answers P fetch xs" and "loader_ok P xs st"
  shows "loader_ok P xs (fst (fetchPage P fetch n st))"
proof (cases "fetch n")
  case (Some items)
  with assms(1) have items: "items = take (lp_itemsPerPage P) (drop (n * lp_itemsPerPage P) xs)"
      and pos: "0 < lp_itemsPerPage P" "distinct (map li_id xs)"
    by (auto simp: answers_def)
  show ?thesis
  proof (cases "lo_cache st (lp_dataQueryKey P)")
    case (Some d)
    then have "data_ok (lp_itemsPerPage P) xs d" using assms(2) by (simp add: loader_ok_def)
    from data_ok_storePage [OF this pos, of n] Some \<open>fetch n = Some items\<close> assms(2) show ?thesis
      by (simp add: fetchPage_def loader_ok_set items [symmetric])
  qed (simp add: fetchPage_def Some assms(2))
qed (simp add: assms(2) fetchPage_def)

lemma fetchAll_ok:
  "answers P fetch xs \<Longrightarrow> loader_ok P xs st \<Longrightarrow> loader_ok P xs (fst (fetchAll P fetch ns st))"
proof (induction ns arbitrary: st)
  case (Cons n ns)
  then have "loader_ok P xs (fst (fetchPage P fetch n st))" by (intro fetchPage_ok)
  with Cons show ?case by (auto simp: Let_def case_prod_beta)
qed simp

lemma onRangeChanged_ok:
  "answers P fetch xs \<Longrightarrow> loader_ok P xs st \<Longrightarrow> loader_ok P xs (fst (onRangeChangedBase P fetch a b st))"
  by (simp add: onRangeChangedBase_def Let_def fetchAll_ok)

lemma refresh_ok:
  assumes "answers P fetch xs" and "loader_ok P xs st"
  shows "loader_ok P xs (fst (refresh P fetch force st))"
proof -
  let ?st = "if force \<or> lo_cache st (lp_dataQueryKey P) \<noteq> None then
       (set_data (lp_dataQueryKey P) (Some (case lo_cache st (lp_dataQueryKey P) of
          None \<Rightarrow> getInitialData | Some d \<Rightarrow> resetData d)) st)\<lparr>lo_lastFetchedPage := -1\<rparr>
     else st"
  have ok: "loader_ok P xs ?st"
    using assms(2) by (simp add: loader_ok_set data_ok_initial split: option.split)
  then obtain n where eq: "refresh P fetch force st =
      (if snd (fetchPage P fetch n ?st)
       then onRangeChangedBase P fetch (n * lp_itemsPerPage P)
         (min ((n + 1) * lp_itemsPerPage P) (lp_totalItemCount P)) (fst (fetchPage P fetch n ?st))
       else (fst (fetchPage P fetch n ?st), False))"
    unfolding refresh_def Let_def case_prod_beta by blast
  note fetched = fetchPage_ok [OF assms(1) ok, of n]
  then show ?thesis
    unfolding eq by (cases "snd (fetchPage P fetch n ?st)") (simp_all only: if_True if_False fst_conv onRangeChanged_ok [OF assms(1) fetched])
qed

lemma queryChanged_ok: "loader_ok P xs st \<Longrightarrow> loader_ok P xs (fst (queryChanged P st))"
  by (auto simp: queryChanged_def Let_def loader_ok_set data_ok_initial)

section \<open>Updates of rows\<close>

lemma updateRow_lookup:
  "map_of (updateRow f m i) k = (if k = i then map_option f (map_of m i) else map_of m k)"
  by (auto simp: updateRow_def update_conv' split: option.splits)

lemma updateRows_lookup:
  assumes "f \<circ> f = f"
  shows "map_of (foldl (updateRow f) m rows) k = (if k \<in> set rows then map_option f (map_of m k) else map_of m k)"
proof (induction rows rule: rev_induct)
  case (snoc i rows)
  have "map_option f (map_option f x) = map_option f x" for x
    using assms by (cases x) (auto simp: fun_eq_iff)
  with snoc show ?case by (auto simp: updateRow_lookup)
qed simp

lemma data_ok_rows:
  assumes "data_ok n xs d" and "f \<circ> f = f" and "\<And>x y. same_row (f x) y = same_row x y" "\<And>x. li_id (f x) = li_id x"
  shows "data_ok n xs (d\<lparr>ld_dataMap := foldl (updateRow f) (ld_dataMap d) rows, ld_version := v\<rparr>)"
  using assms(1,3,4) by (auto simp: data_ok_def maps_ok_def updateRows_lookup [OF assms(2)])

lemma rowEvent_ok:
  assumes "loader_ok P xs st" and "f \<circ> f = f" and "\<And>x y. same_row (f x) y = same_row x y" "\<And>x. li_id (f x) = li_id x"
  shows "loader_ok P xs (handleRowEvent P c ids f st)"
  using assms(1) data_ok_rows [OF _ assms(2-4)]
  by (auto simp: handleRowEvent_def updateItems_def Let_def loader_ok_set loader_ok_def [of P xs st] split: option.split)

lemma merges [simp]:
  "(\<lambda>x. x\<lparr>li_userFavorite := b\<rparr>) \<circ> (\<lambda>x. x\<lparr>li_userFavorite := b\<rparr>) = (\<lambda>x. x\<lparr>li_userFavorite := b\<rparr>)"
  "(\<lambda>x. x\<lparr>li_userRating := r\<rparr>) \<circ> (\<lambda>x. x\<lparr>li_userRating := r\<rparr>) = (\<lambda>x. x\<lparr>li_userRating := r\<rparr>)"
  by auto

lemma ensureData_ok: "loader_ok P xs st \<Longrightarrow> loader_ok P xs (ensureData P st)"
  by (simp add: ensureData_def loader_ok_set data_ok_initial)

lemma loader_step_ok:
  assumes "answers P fetch xs" and "loader_ok P xs st"
  shows "loader_ok P xs (loader_step P fetch a st)"
  using assms
  by (cases a) (simp_all add: ensureData_ok onRangeChanged_ok refresh_ok queryChanged_ok queryChangedEnd_def fetchPage_ok
      handleFavorite_def handleRating_def rowEvent_ok)

text \<open>An operation leaves the data of other keys alone.\<close>

lemma set_data_other: "k \<noteq> key \<Longrightarrow> lo_cache (set_data key d st) k = lo_cache st k"
  by (simp add: set_data_def)

lemma touch_cache [simp]: "lo_cache (touchPage n st) = lo_cache st"
  by (simp add: touchPage_def)

lemma fetchPage_other:
  "k \<noteq> lp_dataQueryKey P \<Longrightarrow> lo_cache (fst (fetchPage P fetch n st)) k = lo_cache st k"
  by (simp add: fetchPage_def set_data_other split: option.split)

lemma fetchAll_other:
  "k \<noteq> lp_dataQueryKey P \<Longrightarrow> lo_cache (fst (fetchAll P fetch ns st)) k = lo_cache st k"
  by (induction ns arbitrary: st) (simp_all add: Let_def case_prod_beta fetchPage_other)

lemma onRangeChanged_other:
  "k \<noteq> lp_dataQueryKey P \<Longrightarrow> lo_cache (fst (onRangeChangedBase P fetch a b st)) k = lo_cache st k"
  by (simp add: onRangeChangedBase_def Let_def fetchAll_other)

lemma refresh_other:
  assumes "k \<noteq> lp_dataQueryKey P"
  shows "lo_cache (fst (refresh P fetch force st)) k = lo_cache st k"
  using assms by (simp add: refresh_def Let_def case_prod_beta onRangeChanged_other fetchPage_other set_data_other)

lemma loader_step_other:
  assumes "k \<noteq> lp_dataQueryKey P"
  shows "lo_cache (loader_step P fetch a st) k = lo_cache st k"
  using assms
  by (cases a) (simp_all add: ensureData_def onRangeChanged_other refresh_other queryChanged_def queryChangedEnd_def
      fetchPage_other handleFavorite_def handleRating_def handleRowEvent_def updateItems_def set_data_other Let_def
      split: option.split)

text \<open>The lists of the server by the key of the query, and the data that is cached of them.\<close>

definition cache_ok :: "nat \<Rightarrow> (string \<Rightarrow> loader_item list) \<Rightarrow> loader \<Rightarrow> bool" where
  "cache_ok n X st \<longleftrightarrow> (\<forall>key d. lo_cache st key = Some d \<longrightarrow> data_ok n (X key) d)"

definition served :: "nat \<Rightarrow> (string \<Rightarrow> loader_item list) \<Rightarrow> loader_event \<Rightarrow> bool" where
  "served n X e = (case e of (P, fetch, a) \<Rightarrow> lp_itemsPerPage P = n \<and> answers P fetch (X (lp_dataQueryKey P)))"

lemma loader_event_ok: "served n X e \<Longrightarrow> cache_ok n X st \<Longrightarrow> cache_ok n X (loader_event_step e st)"
proof (cases e)
  case (fields P fetch a)
  assume e: "served n X e" "cache_ok n X st"
  then have s: "lp_itemsPerPage P = n" "answers P fetch (X (lp_dataQueryKey P))" by (simp_all add: fields served_def)
  have "loader_ok P (X (lp_dataQueryKey P)) (loader_step P fetch a st)"
    by (rule loader_step_ok [OF s(2)]) (use e(2) s(1) in \<open>simp add: loader_ok_def cache_ok_def\<close>)
  then show ?thesis
    using e(2) s(1) loader_step_other [of _ P fetch a st]
    unfolding fields loader_event_step.simps cache_ok_def loader_ok_def by metis
qed

definition loader_inv :: "loader_props \<Rightarrow> (nat \<Rightarrow> loader_item list option) \<Rightarrow> loader_item list \<Rightarrow> loader \<Rightarrow> bool" where
  "loader_inv P fetch xs st = (answers P fetch xs \<longrightarrow> loader_ok P xs st)"

interpretation rows: driven_component "loader_step P fetch" "loader_inv P fetch xs"
  by unfold_locales (simp add: loader_inv_def loader_step_ok)

section \<open>Loading the visible rows\<close>

text \<open>A server that answers every request.\<close>

definition reachable_server :: "(nat \<Rightarrow> loader_item list option) \<Rightarrow> bool" where
  "reachable_server fetch = (\<forall>p. fetch p \<noteq> None)"

definition has_data :: "loader_props \<Rightarrow> loader \<Rightarrow> bool" where
  "has_data P st = (lo_cache st (lp_dataQueryKey P) \<noteq> None)"

lemma touchPage_frame [simp]:
  "loadedPages P (touchPage n st) = loadedPages P st" "has_data P (touchPage n st) = has_data P st"
  "loadedPages P (st\<lparr>lo_visibleRange := r\<rparr>) = loadedPages P st" "has_data P (st\<lparr>lo_visibleRange := r\<rparr>) = has_data P st"
  by (simp_all add: touchPage_def loadedPages_def has_data_def)

lemma storePage_pages [simp]: "ld_pagesLoaded (storePage k n items d) = insert n (ld_pagesLoaded d)"
  by (simp add: storePage_def Let_def case_prod_beta)

lemma fetchPage_loads:
  assumes "reachable_server fetch" and "has_data P st"
  shows "snd (fetchPage P fetch n st) \<and> has_data P (fst (fetchPage P fetch n st))
    \<and> loadedPages P (fst (fetchPage P fetch n st)) = insert n (loadedPages P st)"
proof -
  obtain items d where "fetch n = Some items" "lo_cache st (lp_dataQueryKey P) = Some d"
    using assms by (fastforce simp: reachable_server_def has_data_def)
  then show ?thesis
    using assms(2) by (auto simp: fetchPage_def) (auto simp: loadedPages_def has_data_def set_data_def)
qed

lemma fetchAll_loads:
  "reachable_server fetch \<Longrightarrow> has_data P st \<Longrightarrow>
     snd (fetchAll P fetch ns st) \<and> has_data P (fst (fetchAll P fetch ns st))
     \<and> loadedPages P (fst (fetchAll P fetch ns st)) = set ns \<union> loadedPages P st"
proof (induction ns arbitrary: st)
  case (Cons n ns)
  note step = fetchPage_loads [OF Cons.prems, of n]
  with Cons.IH [OF Cons.prems(1), of "fst (fetchPage P fetch n st)"] show ?case
    by (simp add: Let_def case_prod_beta)
qed simp

lemma onRangeChanged_loads:
  assumes "reachable_server fetch" and "has_data P st"
  shows "has_data P (fst (onRangeChangedBase P fetch a b st))"
    and "loadedPages P (fst (onRangeChangedBase P fetch a b st)) =
      set (pagesToFetch (lp_itemsPerPage P) (lp_fetchThreshold P) (loadedPages P st) a b) \<union> loadedPages P st"
  using assms fetchAll_loads [OF assms(1), of P "st\<lparr>lo_visibleRange := Some (a, b)\<rparr>"]
  by (simp_all add: onRangeChangedBase_def Let_def)

lemma pagesToFetch_current: "a div n \<in> set (pagesToFetch n thr loaded a b) \<union> loaded"
  by (simp add: pagesToFetch_def Let_def)

lemma pagesToFetch_next:
  assumes "a div n \<in> loaded" and "0 \<le> thr" and "(a div n + 1) * n \<le> b"
  shows "a div n + 1 \<in> set (pagesToFetch n thr loaded a b) \<union> loaded"
proof -
  have "int ((a div n + 1) * n) - int b \<le> 0" using assms(3) by (simp only: of_nat_diff of_nat_le_iff diff_le_0_iff_le)
  also have "0 \<le> \<lfloor>of_nat n * thr\<rfloor>" using assms(2) by simp
  finally have "int ((a div n + 1) * n) - int b \<le> \<lfloor>of_nat n * thr\<rfloor>" .
  with assms(1) show ?thesis by (auto simp: pagesToFetch_def Let_def)
qed

lemma loaded_row:
  assumes "loader_ok P xs st" and "i < length xs" and "i div lp_itemsPerPage P \<in> loadedPages P st"
  shows "loader_getItem P st i \<noteq> None"
  using assms by (auto simp: loader_ok_def data_ok_def loadedPages_def loader_getItem_def split: option.splits)

lemma row_event_updates:
  assumes "loader_ok P xs st" and "f \<circ> f = f"
  shows "loader_getItem P (handleRowEvent P True ids f st) i =
    map_option (\<lambda>x. if li_id x \<in> set ids then f x else x) (loader_getItem P st i)"
proof (cases "lo_cache st (lp_dataQueryKey P)")
  case (Some d)
  then have maps: "map_of (ld_idToIndexMap d) s = Some j \<longleftrightarrow> (\<exists>x. map_of (ld_dataMap d) j = Some x \<and> li_id x = s)" for s j
    using assms(1) by (simp add: loader_ok_def data_ok_def maps_ok_def)
  have "j \<in> set (rowsOf d ids) \<longleftrightarrow> (\<exists>s\<in>set ids. map_of (ld_idToIndexMap d) s = Some j)" for j
    unfolding rowsOf_def List.map_filter_def by (force simp del: map_of_eq_Some_iff)
  then have rows: "j \<in> set (rowsOf d ids) \<longleftrightarrow> (\<exists>x. map_of (ld_dataMap d) j = Some x \<and> li_id x \<in> set ids)" for j
    unfolding maps by blast
  have new: "loader_getItem P (handleRowEvent P True ids f st) i =
      map_of (foldl (updateRow f) (ld_dataMap d) (rowsOf d ids)) i"
    using Some by (cases "rowsOf d ids = []")
      (simp_all add: handleRowEvent_def updateItems_def Let_def loader_getItem_def set_data_def)
  show ?thesis
    unfolding new updateRows_lookup [OF assms(2)] rows
    using Some by (cases "map_of (ld_dataMap d) i") (auto simp: loader_getItem_def)
qed (simp add: handleRowEvent_def loader_getItem_def)

section \<open>Properties\<close>

lemma loader_run_ok:
  assumes "answers P fetch xs" and "lo_cache st (lp_dataQueryKey P) = Some getInitialData"
  shows "loader_ok P xs (fold (loader_step P fetch) ops st)"
  using assms rows.run_inv [of P fetch xs st ops] by (simp add: loader_inv_def loader_ok_def data_ok_initial)

lemma loader_events_ok:
  "list_all (served n X) events \<Longrightarrow> cache_ok n X st \<Longrightarrow> cache_ok n X (fold loader_event_step events st)"
  by (induction events arbitrary: st) (auto intro: loader_event_ok)

text \<open>
  C19: Starting from an empty cache, after any sequence of renderings with any queries, visible ranges, refreshes, changes of the
  query and favourite and rating events, in which an operation that began before a change may also end after it, a row that is
  shown for a query is the row at its position in the list that the server has for that query, but for its favourite and
  its rating, and the table of positions finds it. The server is one that has a list of rows with different ids for each query and
  answers a page of the fixed size with its rows, or not at all.
\<close>

theorem loader_shows_server_rows:
  assumes "list_all (served (lp_itemsPerPage P) X) events" and "lo_cache st = Map.empty"
    and "loader_getItem P (fold loader_event_step events st) i = Some x"
  shows "i < length (X (lp_dataQueryKey P)) \<and> same_row x (X (lp_dataQueryKey P) ! i)
    \<and> loader_getItemIndex P (fold loader_event_step events st) (li_id x) = Some i"
proof -
  have "cache_ok (lp_itemsPerPage P) X (fold loader_event_step events st)"
    by (rule loader_events_ok [OF assms(1)]) (simp add: cache_ok_def assms(2))
  then show ?thesis
    using assms(3)
    by (auto simp: cache_ok_def data_ok_def maps_ok_def loader_getItem_def loader_getItemIndex_def split: option.splits)
qed

definition sample_rows :: "loader_item list" where
  "sample_rows = map (\<lambda>s. \<lparr>li_id = s, li_userFavorite = False, li_userRating = None, li_rest = ''''\<rparr>)
     [''a'', ''b'', ''c'', ''d'', ''e'']"

definition sample_loader_props :: loader_props where
  "sample_loader_props = \<lparr>lp_itemsPerPage = 2, lp_fetchThreshold = 1 / 2, lp_isRandomSort = False,
     lp_dataQueryKey = ''k'', lp_totalItemCount = 5\<rparr>"

definition sample_fetch :: "nat \<Rightarrow> loader_item list option" where
  "sample_fetch p = Some (take 2 (drop (p * 2) sample_rows))"

definition sample_loader :: loader where
  "sample_loader = \<lparr>lo_cache = (\<lambda>_. None)(''k'' \<mapsto> getInitialData), lo_lastFetchedPage = -1,
     lo_visibleRange = None, lo_previousKey = ''k'', lo_isRefetching = False\<rparr>"

lemmas sample_loader_defs = sample_rows_def sample_loader_props_def sample_fetch_def sample_loader_def

lemma sample_answers: "answers sample_loader_props sample_fetch sample_rows"
  by (simp add: answers_def sample_loader_defs)

lemma sample_has_data: "lo_cache sample_loader (lp_dataQueryKey sample_loader_props) = Some getInitialData"
  by (simp add: sample_loader_defs)

lemma sample_ok: "loader_ok sample_loader_props sample_rows sample_loader"
  by (simp add: loader_ok_def sample_has_data data_ok_initial)

text \<open>Two queries, of which the second has the list of the first turned round; the hook changes from one to the other and back.\<close>

definition other_props :: loader_props where
  "other_props = sample_loader_props\<lparr>lp_dataQueryKey := ''l''\<rparr>"

definition other_fetch :: "nat \<Rightarrow> loader_item list option" where
  "other_fetch p = Some (take 2 (drop (p * 2) (rev sample_rows)))"

definition sample_events :: "loader_event list" where
  "sample_events =
     [(sample_loader_props, sample_fetch, Lo_render), (other_props, other_fetch, Lo_render),
      (other_props, other_fetch, Lo_changed), (sample_loader_props, sample_fetch, Lo_range 2 3),
      (other_props, other_fetch, Lo_changedEnd 1), (sample_loader_props, sample_fetch, Lo_favorite True [''c''] True)]"

definition sample_lists :: "string \<Rightarrow> loader_item list" where
  "sample_lists key = (if key = ''l'' then rev sample_rows else sample_rows)"

definition empty_loader :: loader where
  "empty_loader = sample_loader\<lparr>lo_cache := Map.empty\<rparr>"

lemma sample_served: "list_all (served (lp_itemsPerPage sample_loader_props) sample_lists) sample_events"
  by (simp add: sample_events_def served_def answers_def sample_lists_def other_props_def other_fetch_def sample_loader_defs)

theorem loader_shows_server_rows_witness:
  "loader_getItemIndex sample_loader_props (fold loader_event_step sample_events empty_loader) ''c'' = Some 2"
proof -
  have row: "loader_getItem sample_loader_props (fold loader_event_step sample_events empty_loader) 2
    = Some \<lparr>li_id = ''c'', li_userFavorite = True, li_userRating = None, li_rest = ''''\<rparr>"
    by code_simp
  have empty: "lo_cache empty_loader = Map.empty" by (simp add: empty_loader_def)
  show ?thesis
    using loader_shows_server_rows [OF sample_served empty row]
    unfolding loader_item.select_convs by blast
qed

text \<open>
  A favourite event of the item type and the server of the list changes exactly the loaded rows with
  the given ids, at whatever position they are shown.
\<close>

theorem favorite_event_updates_rows:
  assumes "answers P fetch xs" and "lo_cache st (lp_dataQueryKey P) = Some getInitialData"
    and "st' = fold (loader_step P fetch) ops st"
  shows "loader_getItem P (handleFavorite P True ids favorite st') i =
    map_option (\<lambda>x. if li_id x \<in> set ids then x\<lparr>li_userFavorite := favorite\<rparr> else x) (loader_getItem P st' i)"
  using row_event_updates [OF loader_run_ok [OF assms(1,2), of ops]]
  by (simp add: handleFavorite_def assms(3))

theorem favorite_event_updates_rows_witness:
  "loader_getItem sample_loader_props
     (handleFavorite sample_loader_props True [''x'', ''d''] True
        (fold (loader_step sample_loader_props sample_fetch) [Lo_range 2 3] sample_loader)) 3
   = Some \<lparr>li_id = ''d'', li_userFavorite = True, li_userRating = None, li_rest = ''''\<rparr>"
proof -
  have row: "loader_getItem sample_loader_props
      (fold (loader_step sample_loader_props sample_fetch) [Lo_range 2 3] sample_loader) 3
    = Some \<lparr>li_id = ''d'', li_userFavorite = False, li_userRating = None, li_rest = ''''\<rparr>"
    by code_simp
  show ?thesis
    using favorite_event_updates_rows [OF sample_answers sample_has_data refl, of "[''x'', ''d'']" True "[Lo_range 2 3]" 3]
    by (simp only: row) simp
qed

text \<open>
  When the server answers, two events for the same visible range, which reaches over at most one page
  boundary, load every row of it: the first event fetches the page of the first visible row and, when
  that page is there, the second one fetches its neighbours.
\<close>

theorem visible_rows_get_loaded:
  assumes "answers P fetch xs" and "reachable_server fetch" and "loader_ok P xs st" and "has_data P st"
    and "0 \<le> lp_fetchThreshold P" and "b div lp_itemsPerPage P \<le> a div lp_itemsPerPage P + 1"
    and "a \<le> i" and "i \<le> b" and "i < length xs"
  shows "loader_getItem P
    (fst (onRangeChangedBase P fetch a b (fst (onRangeChangedBase P fetch a b st)))) i \<noteq> None"
proof -
  let ?st1 = "fst (onRangeChangedBase P fetch a b st)"
  let ?st2 = "fst (onRangeChangedBase P fetch a b ?st1)"
  have ok: "loader_ok P xs ?st2" by (intro onRangeChanged_ok assms)
  note loads = onRangeChanged_loads [OF assms(2)]
  have first: "a div lp_itemsPerPage P \<in> loadedPages P ?st1"
    unfolding loads(2) [OF assms(4)] by (rule pagesToFetch_current)
  have "i div lp_itemsPerPage P \<in> loadedPages P ?st2"
  proof (cases "i div lp_itemsPerPage P = a div lp_itemsPerPage P")
    case True
    then show ?thesis using first by (simp add: loads(2) [OF loads(1) [OF assms(4)]])
  next
    case False
    have le: "a div lp_itemsPerPage P \<le> i div lp_itemsPerPage P" "i div lp_itemsPerPage P \<le> b div lp_itemsPerPage P"
      using assms(7,8) by (simp_all add: div_le_mono)
    then have page: "i div lp_itemsPerPage P = a div lp_itemsPerPage P + 1"
      using False assms(6) by linarith
    have "(i div lp_itemsPerPage P) * lp_itemsPerPage P \<le> b"
      using div_times_less_eq_dividend [of i "lp_itemsPerPage P"] assms(8) by (rule order_trans)
    then show ?thesis
      unfolding loads(2) [OF loads(1) [OF assms(4)]] page by (intro pagesToFetch_next [OF first assms(5)])
  qed
  with ok assms(9) show ?thesis by (intro loaded_row)
qed

theorem visible_rows_get_loaded_witness:
  "loader_getItem sample_loader_props
    (fst (onRangeChangedBase sample_loader_props sample_fetch 1 3
      (fst (onRangeChangedBase sample_loader_props sample_fetch 1 3 sample_loader)))) 2 \<noteq> None"
proof (rule visible_rows_get_loaded [OF sample_answers _ sample_ok])
  show "reachable_server sample_fetch" by (simp add: reachable_server_def sample_fetch_def)
  show "has_data sample_loader_props sample_loader" by (simp add: has_data_def sample_has_data)
qed (simp_all add: sample_loader_defs)

text \<open>One event alone leaves the rows of the second page unfetched.\<close>

lemma one_range_event_may_miss_rows:
  "loader_getItem sample_loader_props
    (fst (onRangeChangedBase sample_loader_props sample_fetch 1 3 sample_loader)) 2 = None"
  by code_simp

text \<open>
  The pages of the paginated list hold the rows of the library and no other page does: a row belongs
  to the library just when the page that is fetched for it is one of the pages that are offered.
\<close>

theorem page_count_covers_rows:
  assumes "0 < itemsPerPage" and "i = snd (getFetchRange page itemsPerPage) + offset" and "offset < itemsPerPage"
  shows "(i < totalItemCount \<longrightarrow> page < pageCount totalItemCount itemsPerPage)
    \<and> (page < pageCount totalItemCount itemsPerPage \<longrightarrow> snd (getFetchRange page itemsPerPage) < totalItemCount)"
proof -
  have "page < pageCount totalItemCount itemsPerPage \<longleftrightarrow> page * itemsPerPage < totalItemCount"
  proof -
    have "page < pageCount totalItemCount itemsPerPage \<longleftrightarrow>
        (of_nat page :: rat) < of_nat totalItemCount / of_nat itemsPerPage"
      unfolding pageCount_def by (simp add: zless_nat_eq_int_zless less_ceiling_iff)
    also have "\<dots> \<longleftrightarrow> (of_nat (page * itemsPerPage) :: rat) < of_nat totalItemCount"
      using assms(1) by (simp add: pos_less_divide_eq)
    finally show ?thesis by (simp only: of_nat_less_iff)
  qed
  then show ?thesis using assms(2) by (auto simp: getFetchRange_def)
qed

theorem page_count_covers_rows_witness: "(1 :: nat) < pageCount 5 3"
  using page_count_covers_rows [of 3 4 1 1 5] by (simp add: getFetchRange_def)

text \<open>
  While the rows of a page are still undefined, a rating event for the list throws where a favourite
  event does nothing.
\<close>

theorem rating_event_throws_on_placeholder:
  assumes "0 < itemsPerPage"
  shows "pageHandleRating True ids rating (replicate itemsPerPage None) = None
    \<and> pageHandleFavorite True ids favorite (replicate itemsPerPage None) = replicate itemsPerPage None"
proof -
  have "List.map_filter id (replicate n None) = ([] :: loader_item list)" for n
    by (induction n) (simp_all add: List.map_filter_simps)
  then show ?thesis
    using assms by (simp add: pageHandleRating_def pageHandleFavorite_def pageRowEvent_def idToIndexOf_def
        List.map_filter_def Let_def)
qed

theorem rating_event_throws_on_placeholder_witness:
  "pageHandleRating True [''a''] None (replicate 2 None) = None"
  using rating_event_throws_on_placeholder [of 2 "[''a'']" None True] by simp

end
