(* ===== verification/Scrobble.thy ===== *)
theory Scrobble
  imports PlayerTypes
begin

text \<open>
  The scrobbling hook (\<^verbatim>\<open>player/hooks/use-scrobble.ts\<close>): how long the current track has been listened
  to, when a play is submitted, and what is reported to the server at the start, the stop, a seek and
  a pause. The refs of the hook are the state; what the handlers read elsewhere (settings, the player
  store, the timestamp store, the server's features, the clock) is the environment. Seconds and
  milliseconds are rationals, standing for the numbers of the code.
\<close>

section \<open>Environment and state\<close>

text \<open>\<open>e_reportsPlayback\<close> is \<open>hasFeature(getServerById(serverId), REPORT_PLAYBACK)\<close>.\<close>

record scrobble_env =
  e_enabled :: bool
  e_privateMode :: bool
  e_notify :: bool
  e_currentSong :: "queue_song option"
  e_status :: PlayerStatus
  e_speed :: rat
  e_timestamp :: rat
  e_now :: int
  e_reportsPlayback :: "string \<Rightarrow> bool"

datatype scrobble_event = EV_start | EV_stop | EV_pause | EV_unpause

record scrobble_query =
  sq_serverId :: string
  sq_albumId :: string
  sq_event :: "scrobble_event option"
  sq_id :: string
  sq_mediaType :: string
  sq_playbackRate :: rat
  sq_position :: rat
  sq_submission :: bool

text \<open>What \<open>flushScrobbleDebug\<close> publishes.\<close>

record scrobble_debug =
  sd_eligibilityMet :: bool
  sd_lastListenSampleTimeSec :: "rat option"
  sd_listenedMs :: rat
  sd_playerStatus :: PlayerStatus
  sd_positionSec :: rat
  sd_songId :: "string option"
  sd_submitted :: bool
  sd_targetDurationSec :: rat
  sd_targetPercentage :: rat
  sd_trackDurationMs :: rat

text \<open>
  The closure of the delayed part of a song change: the new song, the previous one and the position
  it was left at, and the playback rate.
\<close>

record change_timer =
  ct_song :: "queue_song option"
  ct_previousSong :: "queue_song option"
  ct_previousPositionSec :: rat
  ct_playbackRate :: rat

record notify_timer =
  nt_song :: queue_song
  nt_previousSong :: "queue_song option"
  nt_index :: jsnum
  nt_prevIndex :: jsnum

record scrobble_state =
  c_isCurrentSongScrobbled :: bool
  c_listenedMs :: rat
  c_lastListenSampleTime :: "rat option"
  c_scrobbleAtDurationMs :: rat
  c_scrobbleAtPercentage :: rat
  c_previousSong :: "queue_song option"
  c_previousTimestamp :: rat
  c_stopPosition :: rat
  c_lastProgressEvent :: rat
  c_lastSeekEvent :: int
  c_songChangeTimeout :: "change_timer option"
  c_notifyTimeout :: "notify_timer option"
  c_sent :: "scrobble_query list"
  c_notifications :: "string list"
  c_debug :: "scrobble_debug option"

definition initialScrobble :: scrobble_state where
  "initialScrobble = \<lparr>c_isCurrentSongScrobbled = False, c_listenedMs = 0,
     c_lastListenSampleTime = None, c_scrobbleAtDurationMs = 0, c_scrobbleAtPercentage = 75,
     c_previousSong = None, c_previousTimestamp = 0, c_stopPosition = 0, c_lastProgressEvent = 0,
     c_lastSeekEvent = 0, c_songChangeTimeout = None, c_notifyTimeout = None, c_sent = [],
     c_notifications = [], c_debug = None\<rparr>"

section \<open>Helpers\<close>

definition math_round :: "rat \<Rightarrow> rat" where
  "math_round x = of_int \<lfloor>x + 1 / 2\<rfloor>"

definition getPositionValue :: "rat \<Rightarrow> bool \<Rightarrow> rat" where
  "getPositionValue seconds useTicks =
     (if useTicks then math_round (seconds * 10000000) else seconds * 1000)"

definition SCROBBLE_TRACK_BEGIN_SEC :: rat where "SCROBBLE_TRACK_BEGIN_SEC = 5"
definition SCROBBLE_RESTART_PREVIOUS_MIN_SEC :: rat where "SCROBBLE_RESTART_PREVIOUS_MIN_SEC = 10"
definition MAX_LISTEN_DELTA_SEC :: rat where "MAX_LISTEN_DELTA_SEC = 5"

definition checkScrobbleConditions :: "rat \<Rightarrow> rat \<Rightarrow> rat \<Rightarrow> rat \<Rightarrow> bool" where
  "checkScrobbleConditions scrobbleAtDurationMs scrobbleAtPercentage songCompletedDurationMs songDurationMs =
     (let percentageOfSongCompleted =
            (if songDurationMs \<noteq> 0 then (songCompletedDurationMs / songDurationMs) * 100 else 0);
          shouldScrobbleBasedOnPercentage = (scrobbleAtPercentage \<le> percentageOfSongCompleted);
          shouldScrobbleBasedOnDuration = (scrobbleAtDurationMs \<le> songCompletedDurationMs)
      in shouldScrobbleBasedOnPercentage \<or> shouldScrobbleBasedOnDuration)"

text \<open>\<open>_itemType.includes('song')\<close>: of the item types only \<open>song\<close> contains it.\<close>

definition mediaTypeOf :: "queue_song option \<Rightarrow> string" where
  "mediaTypeOf s = (case s of Some x \<Rightarrow> if s_itemType x = SONG then ''song'' else ''podcast''
     | None \<Rightarrow> ''podcast'')"

definition useTicksOf :: "queue_song option \<Rightarrow> bool" where
  "useTicksOf s = (map_option s_serverType s = Some JELLYFIN)"

text \<open>A song that is there and has a (non-empty) id.\<close>

definition songWithId :: "queue_song option \<Rightarrow> queue_song option" where
  "songWithId s = (case s of Some x \<Rightarrow> if s_id x = '''' then None else Some x | None \<Rightarrow> None)"

definition sendScrobble :: "scrobble_query \<Rightarrow> scrobble_state \<Rightarrow> scrobble_state" where
  "sendScrobble q c = c\<lparr>c_sent := c_sent c @ [q]\<rparr>"

definition queryFor ::
    "queue_song \<Rightarrow> scrobble_event option \<Rightarrow> rat \<Rightarrow> rat \<Rightarrow> bool \<Rightarrow> scrobble_query" where
  "queryFor song ev playbackRate position submission =
     \<lparr>sq_serverId = s_serverId song, sq_albumId = s_albumId song, sq_event = ev, sq_id = s_id song,
      sq_mediaType = mediaTypeOf (Some song), sq_playbackRate = playbackRate,
      sq_position = position, sq_submission = submission\<rparr>"

text \<open>\<open>if (!isScrobbleEnabled || isPrivateModeEnabled) return;\<close>\<close>

definition scrobbles :: "scrobble_env \<Rightarrow> bool" where
  "scrobbles e = (e_enabled e \<and> \<not> e_privateMode e)"

definition flushScrobbleDebug :: "scrobble_env \<Rightarrow> scrobble_state \<Rightarrow> scrobble_state" where
  "flushScrobbleDebug e c =
     (let trackDurationMs = (case e_currentSong e of Some x \<Rightarrow> s_duration x | None \<Rightarrow> 0);
          eligibilityMet = (songWithId (e_currentSong e) \<noteq> None
            \<and> checkScrobbleConditions (c_scrobbleAtDurationMs c) (c_scrobbleAtPercentage c)
                (c_listenedMs c) trackDurationMs)
      in c\<lparr>c_debug := Some \<lparr>sd_eligibilityMet = eligibilityMet,
            sd_lastListenSampleTimeSec = c_lastListenSampleTime c, sd_listenedMs = c_listenedMs c,
            sd_playerStatus = e_status e, sd_positionSec = e_timestamp e,
            sd_songId = map_option s_id (e_currentSong e), sd_submitted = c_isCurrentSongScrobbled c,
            sd_targetDurationSec = c_scrobbleAtDurationMs c / 1000,
            sd_targetPercentage = c_scrobbleAtPercentage c, sd_trackDurationMs = trackDurationMs\<rparr>\<rparr>)"

section \<open>The handlers\<close>

definition settingsChanged :: "rat option \<Rightarrow> rat option \<Rightarrow> scrobble_state \<Rightarrow> scrobble_state" where
  "settingsChanged scrobbleAtDuration scrobbleAtPercentage c =
     c\<lparr>c_scrobbleAtDurationMs := nullish_or scrobbleAtDuration 0 * 1000,
       c_scrobbleAtPercentage := nullish_or scrobbleAtPercentage 75\<rparr>"

text \<open>The update of the listen time from one timestamp sample, while playing.\<close>

definition listenSample :: "rat \<Rightarrow> rat \<Rightarrow> scrobble_state \<Rightarrow> scrobble_state" where
  "listenSample currentTime prevSec c =
     (case c_lastListenSampleTime c of
        None \<Rightarrow>
          (let c1 = (if prevSec < currentTime \<and> currentTime - prevSec \<le> MAX_LISTEN_DELTA_SEC
                     then c\<lparr>c_listenedMs := c_listenedMs c + (currentTime - prevSec) * 1000\<rparr> else c)
           in c1\<lparr>c_lastListenSampleTime := Some currentTime\<rparr>)
      | Some lastSample \<Rightarrow>
          (let deltaSec = currentTime - lastSample;
               jumpedBackToTrackStart = (currentTime < lastSample
                 \<and> currentTime < SCROBBLE_TRACK_BEGIN_SEC \<and> SCROBBLE_TRACK_BEGIN_SEC \<le> lastSample)
           in if jumpedBackToTrackStart then
                c\<lparr>c_listenedMs := 0, c_isCurrentSongScrobbled := False, c_lastProgressEvent := 0,
                  c_lastListenSampleTime := Some currentTime\<rparr>
              else if currentTime < lastSample \<or> deltaSec > MAX_LISTEN_DELTA_SEC then
                c\<lparr>c_lastListenSampleTime := Some currentTime\<rparr>
              else if deltaSec > 0 then
                c\<lparr>c_listenedMs := c_listenedMs c + deltaSec * 1000,
                  c_lastListenSampleTime := Some currentTime\<rparr>
              else c))"

definition submitIfEligible :: "scrobble_env \<Rightarrow> queue_song \<Rightarrow> scrobble_state \<Rightarrow> scrobble_state" where
  "submitIfEligible e currentSong c =
     (if \<not> c_isCurrentSongScrobbled c then
        (if checkScrobbleConditions (c_scrobbleAtDurationMs c) (c_scrobbleAtPercentage c)
              (c_listenedMs c) (s_duration currentSong)
         then (sendScrobble (queryFor currentSong None (e_speed e)
                 (getPositionValue (s_duration currentSong) (useTicksOf (Some currentSong))) True) c)
                \<lparr>c_isCurrentSongScrobbled := True\<rparr>
         else c)
      else c)"

definition handleScrobbleFromProgress ::
    "scrobble_env \<Rightarrow> rat \<Rightarrow> rat \<Rightarrow> scrobble_state \<Rightarrow> scrobble_state" where
  "handleScrobbleFromProgress e currentTime previousTime c =
     (if \<not> scrobbles e then c
      else case songWithId (e_currentSong e) of
        None \<Rightarrow> c
      | Some currentSong \<Rightarrow>
          (if e_status e \<noteq> PLAYING then c\<lparr>c_lastListenSampleTime := Some currentTime\<rparr>
           else if currentTime < previousTime \<and> currentTime < SCROBBLE_TRACK_BEGIN_SEC
                   \<and> SCROBBLE_RESTART_PREVIOUS_MIN_SEC \<le> previousTime then
             c\<lparr>c_isCurrentSongScrobbled := False, c_lastProgressEvent := 0, c_previousTimestamp := 0,
               c_listenedMs := 0, c_lastListenSampleTime := None\<rparr>
           else submitIfEligible e currentSong (listenSample currentTime previousTime c)))"

text \<open>The positions are kept for the report of the track's end.\<close>

definition handleProgressUpdate ::
    "scrobble_env \<Rightarrow> rat \<Rightarrow> rat \<Rightarrow> scrobble_state \<Rightarrow> scrobble_state" where
  "handleProgressUpdate e timestamp prev c =
     (let c1 = (if timestamp < SCROBBLE_TRACK_BEGIN_SEC \<and> SCROBBLE_TRACK_BEGIN_SEC \<le> prev
                then c\<lparr>c_stopPosition := prev\<rparr> else c\<lparr>c_stopPosition := timestamp\<rparr>);
          c2 = c1\<lparr>c_previousTimestamp := timestamp\<rparr>
      in flushScrobbleDebug e (handleScrobbleFromProgress e timestamp prev c2))"

text \<open>
  A song change: the notification and the reports of start and stop are delayed by timeouts, which a
  further change within the delay replaces.
\<close>

definition handleScrobbleFromSongChange ::
    "scrobble_env \<Rightarrow> jsnum \<times> queue_song option \<Rightarrow> jsnum \<Rightarrow> scrobble_state \<Rightarrow> scrobble_state" where
  "handleScrobbleFromSongChange e properties prevIndex c =
     (let (index, currentSong) = properties;
          previousSong = c_previousSong c;
          previousPositionSec = c_stopPosition c;
          c1 = (case songWithId currentSong of
                  Some song \<Rightarrow>
                    (if e_notify e
                     then c\<lparr>c_notifyTimeout := Some \<lparr>nt_song = song, nt_previousSong = previousSong,
                            nt_index = index, nt_prevIndex = prevIndex\<rparr>\<rparr> else c)
                | None \<Rightarrow> c)
      in if \<not> scrobbles e then
           flushScrobbleDebug e (c1\<lparr>c_previousSong := currentSong, c_previousTimestamp := 0,
             c_stopPosition := 0, c_listenedMs := 0, c_lastListenSampleTime := None\<rparr>)
         else
           flushScrobbleDebug e (c1\<lparr>c_isCurrentSongScrobbled := False, c_lastProgressEvent := 0,
             c_listenedMs := 0, c_lastListenSampleTime := None,
             c_songChangeTimeout := Some \<lparr>ct_song = currentSong, ct_previousSong = previousSong,
               ct_previousPositionSec = previousPositionSec, ct_playbackRate = e_speed e\<rparr>,
             c_previousSong := currentSong, c_previousTimestamp := 0, c_stopPosition := 0\<rparr>))"

definition fireNotifyTimeout :: "scrobble_state \<Rightarrow> scrobble_state" where
  "fireNotifyTimeout c =
     (case c_notifyTimeout c of
        None \<Rightarrow> c
      | Some t \<Rightarrow>
          (let c1 = c\<lparr>c_notifyTimeout := None\<rparr>
           in if Some (uniqueId (nt_song t)) \<noteq> map_option uniqueId (nt_previousSong t)
                 \<or> \<not> js_eq (nt_index t) (nt_prevIndex t)
              then c1\<lparr>c_notifications := c_notifications c1 @ [s_name (nt_song t)]\<rparr>
              else c1))"

definition fireSongChangeTimeout :: "scrobble_env \<Rightarrow> scrobble_state \<Rightarrow> scrobble_state" where
  "fireSongChangeTimeout e c =
     (case c_songChangeTimeout c of
        None \<Rightarrow> c
      | Some t \<Rightarrow>
          (let c1 = c\<lparr>c_songChangeTimeout := None\<rparr>;
               c2 = (case songWithId (ct_song t) of
                       Some song \<Rightarrow>
                         (if e_status e = PLAYING
                          then sendScrobble (queryFor song (Some EV_start) (ct_playbackRate t) 0 False) c1
                          else c1)
                     | None \<Rightarrow> c1)
           in case songWithId (ct_previousSong t) of
                Some song \<Rightarrow>
                  sendScrobble (queryFor song (Some EV_stop) (ct_playbackRate t)
                    (getPositionValue (ct_previousPositionSec t) (useTicksOf (Some song))) False) c2
              | None \<Rightarrow> c2))"

definition handleScrobbleFromSeek :: "scrobble_env \<Rightarrow> rat \<Rightarrow> scrobble_state \<Rightarrow> scrobble_state" where
  "handleScrobbleFromSeek e timestamp c =
     (if \<not> scrobbles e then c
      else case songWithId (e_currentSong e) of
        None \<Rightarrow> c
      | Some currentSong \<Rightarrow>
          (let sampleBeforeSeek = c_lastListenSampleTime c;
               c1 = c\<lparr>c_lastListenSampleTime := Some timestamp\<rparr>;
               c2 = (if timestamp < SCROBBLE_TRACK_BEGIN_SEC
                        \<and> (case sampleBeforeSeek of None \<Rightarrow> True | Some t \<Rightarrow> SCROBBLE_TRACK_BEGIN_SEC \<le> t)
                     then c1\<lparr>c_listenedMs := 0, c_isCurrentSongScrobbled := False,
                            c_lastProgressEvent := 0\<rparr>
                     else c1)
           in if \<not> e_reportsPlayback e (s_serverId currentSong) then flushScrobbleDebug e c2
              else if e_now e - c_lastSeekEvent c2 < 1000 then flushScrobbleDebug e c2
              else flushScrobbleDebug e
                (sendScrobble (queryFor currentSong
                    (Some (if e_status e = PLAYING then EV_unpause else EV_pause)) (e_speed e)
                    (getPositionValue timestamp (useTicksOf (Some currentSong))) False)
                  (c2\<lparr>c_lastProgressEvent := timestamp, c_lastSeekEvent := e_now e\<rparr>))))"

definition handleScrobbleFromStatus ::
    "scrobble_env \<Rightarrow> PlayerStatus \<Rightarrow> PlayerStatus \<Rightarrow> scrobble_state \<Rightarrow> scrobble_state" where
  "handleScrobbleFromStatus e status prevStatus c =
     (if \<not> scrobbles e then c
      else case songWithId (e_currentSong e) of
        None \<Rightarrow> c
      | Some currentSong \<Rightarrow>
          (if \<not> e_reportsPlayback e (s_serverId currentSong) then c
           else
             (let report = (\<lambda>ev. sendScrobble (queryFor currentSong (Some ev) (e_speed e)
                    (getPositionValue (e_timestamp e) (useTicksOf (Some currentSong))) False));
                  c1 = (if status = PAUSED \<and> prevStatus = PLAYING then report EV_pause c else c);
                  c2 = (if status = PLAYING \<and> prevStatus = PAUSED then report EV_unpause c1 else c1)
              in flushScrobbleDebug e c2)))"

definition handleScrobbleFromRepeat :: "scrobble_env \<Rightarrow> scrobble_state \<Rightarrow> scrobble_state" where
  "handleScrobbleFromRepeat e c =
     (if \<not> scrobbles e then c
      else case songWithId (e_currentSong e) of
        None \<Rightarrow> c
      | Some currentSong \<Rightarrow>
          (if e_status e \<noteq> PLAYING then c
           else flushScrobbleDebug e
             (sendScrobble (queryFor currentSong (Some EV_start) (e_speed e) 0 False)
               (c\<lparr>c_isCurrentSongScrobbled := False, c_lastProgressEvent := 0,
                  c_previousTimestamp := 0, c_stopPosition := 0, c_listenedMs := 0,
                  c_lastListenSampleTime := None\<rparr>))))"

definition forceSubmitScrobble :: "scrobble_env \<Rightarrow> scrobble_state \<Rightarrow> scrobble_state" where
  "forceSubmitScrobble e c =
     (if \<not> scrobbles e then c
      else case songWithId (e_currentSong e) of
        None \<Rightarrow> c
      | Some song \<Rightarrow>
          flushScrobbleDebug e
            ((sendScrobble (queryFor song None (e_speed e)
                (getPositionValue (s_duration song) (useTicksOf (Some song))) True) c)
              \<lparr>c_isCurrentSongScrobbled := True\<rparr>))"

definition resetListenedState :: "scrobble_env \<Rightarrow> scrobble_state \<Rightarrow> scrobble_state" where
  "resetListenedState e c =
     (if \<not> scrobbles e then c
      else case songWithId (e_currentSong e) of
        None \<Rightarrow> c
      | Some song \<Rightarrow>
          flushScrobbleDebug e
            (c\<lparr>c_listenedMs := 0, c_isCurrentSongScrobbled := False, c_lastProgressEvent := 0,
               c_lastListenSampleTime := Some (e_timestamp e)\<rparr>))"

section \<open>The hook as a machine\<close>

datatype scrobble_op =
    On_settings "rat option" "rat option"
  | On_progress rat rat
  | On_songChange "jsnum \<times> queue_song option" jsnum
  | On_seek rat
  | On_status PlayerStatus PlayerStatus
  | On_repeat
  | On_songChangeTimeout
  | On_notifyTimeout
  | On_forceSubmit
  | On_resetListened

fun scrobble_step :: "scrobble_env \<times> scrobble_op \<Rightarrow> scrobble_state \<Rightarrow> scrobble_state" where
  "scrobble_step (e, On_settings d p) c = settingsChanged d p c"
| "scrobble_step (e, On_progress t prev) c = handleProgressUpdate e t prev c"
| "scrobble_step (e, On_songChange p prev) c = handleScrobbleFromSongChange e p prev c"
| "scrobble_step (e, On_seek t) c = handleScrobbleFromSeek e t c"
| "scrobble_step (e, On_status s prev) c = handleScrobbleFromStatus e s prev c"
| "scrobble_step (e, On_repeat) c = handleScrobbleFromRepeat e c"
| "scrobble_step (e, On_songChangeTimeout) c = fireSongChangeTimeout e c"
| "scrobble_step (e, On_notifyTimeout) c = fireNotifyTimeout c"
| "scrobble_step (e, On_forceSubmit) c = forceSubmitScrobble e c"
| "scrobble_step (e, On_resetListened) c = resetListenedState e c"

section \<open>What the handlers change\<close>

definition submissions :: "scrobble_state \<Rightarrow> nat" where
  "submissions c = length (filter sq_submission (c_sent c))"

lemma flush_frame [simp]:
  "c_isCurrentSongScrobbled (flushScrobbleDebug e c) = c_isCurrentSongScrobbled c"
  "c_listenedMs (flushScrobbleDebug e c) = c_listenedMs c"
  "c_lastListenSampleTime (flushScrobbleDebug e c) = c_lastListenSampleTime c"
  "c_scrobbleAtDurationMs (flushScrobbleDebug e c) = c_scrobbleAtDurationMs c"
  "c_scrobbleAtPercentage (flushScrobbleDebug e c) = c_scrobbleAtPercentage c"
  "c_sent (flushScrobbleDebug e c) = c_sent c"
  "c_songChangeTimeout (flushScrobbleDebug e c) = c_songChangeTimeout c"
  "c_previousSong (flushScrobbleDebug e c) = c_previousSong c"
  "c_stopPosition (flushScrobbleDebug e c) = c_stopPosition c"
  by (simp_all add: flushScrobbleDebug_def Let_def)

lemma send_frame [simp]:
  "c_isCurrentSongScrobbled (sendScrobble q c) = c_isCurrentSongScrobbled c"
  "c_listenedMs (sendScrobble q c) = c_listenedMs c"
  "c_scrobbleAtDurationMs (sendScrobble q c) = c_scrobbleAtDurationMs c"
  "c_scrobbleAtPercentage (sendScrobble q c) = c_scrobbleAtPercentage c"
  "c_lastListenSampleTime (sendScrobble q c) = c_lastListenSampleTime c"
  "c_sent (sendScrobble q c) = c_sent c @ [q]"
  by (simp_all add: sendScrobble_def)

lemma query_submission [simp]: "sq_submission (queryFor song ev r p b) = b" "sq_id (queryFor song ev r p b) = s_id song"
  "sq_position (queryFor song ev r p b) = p"
  by (simp_all add: queryFor_def)

text \<open>The places where the listen time starts to count from, for a sample at \<open>t\<close>.\<close>

definition baseline :: "rat \<Rightarrow> scrobble_state \<Rightarrow> rat" where
  "baseline prev c = nullish_or (c_lastListenSampleTime c) prev"

lemma listenSample_frame [simp]:
  "c_sent (listenSample t prev c) = c_sent c"
  "c_scrobbleAtDurationMs (listenSample t prev c) = c_scrobbleAtDurationMs c"
  "c_scrobbleAtPercentage (listenSample t prev c) = c_scrobbleAtPercentage c"
  by (auto simp: listenSample_def Let_def split: option.splits)

lemma listenSample_cases:
  "(c_listenedMs (listenSample t prev c) = c_listenedMs c
      \<and> c_isCurrentSongScrobbled (listenSample t prev c) = c_isCurrentSongScrobbled c)
   \<or> (c_listenedMs (listenSample t prev c) = 0 \<and> \<not> c_isCurrentSongScrobbled (listenSample t prev c))
   \<or> (c_listenedMs (listenSample t prev c) = c_listenedMs c + (t - baseline prev c) * 1000
      \<and> 0 < t - baseline prev c \<and> t - baseline prev c \<le> 5
      \<and> c_isCurrentSongScrobbled (listenSample t prev c) = c_isCurrentSongScrobbled c)"
  by (auto simp: listenSample_def baseline_def Let_def MAX_LISTEN_DELTA_SEC_def split: option.splits)

lemma submitIfEligible_cases:
  "submitIfEligible e song c = c \<or>
   (\<not> c_isCurrentSongScrobbled c \<and> checkScrobbleConditions (c_scrobbleAtDurationMs c)
        (c_scrobbleAtPercentage c) (c_listenedMs c) (s_duration song)
      \<and> submitIfEligible e song c = (sendScrobble (queryFor song None (e_speed e)
          (getPositionValue (s_duration song) (useTicksOf (Some song))) True) c)
            \<lparr>c_isCurrentSongScrobbled := True\<rparr>)"
  by (auto simp: submitIfEligible_def)

lemma submitIfEligible_frame [simp]:
  "c_listenedMs (submitIfEligible e song c) = c_listenedMs c"
  "c_scrobbleAtDurationMs (submitIfEligible e song c) = c_scrobbleAtDurationMs c"
  "c_scrobbleAtPercentage (submitIfEligible e song c) = c_scrobbleAtPercentage c"
  "c_lastListenSampleTime (submitIfEligible e song c) = c_lastListenSampleTime c"
  by (auto simp: submitIfEligible_def)

lemma songWithId_some: "songWithId x = Some song \<longleftrightarrow> x = Some song \<and> s_id song \<noteq> ''''"
  by (auto simp: songWithId_def split: option.splits)

section \<open>The listen time\<close>

lemma progress_listened:
  "c_listenedMs (handleProgressUpdate e t prev c) = c_listenedMs c
   \<or> c_listenedMs (handleProgressUpdate e t prev c) = 0
   \<or> (c_listenedMs (handleProgressUpdate e t prev c) = c_listenedMs c + (t - baseline prev c) * 1000
      \<and> 0 < t - baseline prev c \<and> t - baseline prev c \<le> 5 \<and> scrobbles e \<and> e_status e = PLAYING
      \<and> songWithId (e_currentSong e) \<noteq> None)"
proof -
  let ?c2 = "(if t < SCROBBLE_TRACK_BEGIN_SEC \<and> SCROBBLE_TRACK_BEGIN_SEC \<le> prev
      then c\<lparr>c_stopPosition := prev\<rparr> else c\<lparr>c_stopPosition := t\<rparr>)\<lparr>c_previousTimestamp := t\<rparr>"
  have f: "c_listenedMs ?c2 = c_listenedMs c" "baseline prev ?c2 = baseline prev c"
    by (simp_all add: baseline_def)
  have "c_listenedMs (handleScrobbleFromProgress e t prev ?c2) = c_listenedMs ?c2
     \<or> c_listenedMs (handleScrobbleFromProgress e t prev ?c2) = 0
     \<or> (c_listenedMs (handleScrobbleFromProgress e t prev ?c2) = c_listenedMs ?c2 + (t - baseline prev ?c2) * 1000
        \<and> 0 < t - baseline prev ?c2 \<and> t - baseline prev ?c2 \<le> 5 \<and> scrobbles e \<and> e_status e = PLAYING
        \<and> songWithId (e_currentSong e) \<noteq> None)"
    using listenSample_cases [of t prev ?c2]
    by (cases "songWithId (e_currentSong e)"; cases "e_status e") (auto simp: handleScrobbleFromProgress_def)
  then show ?thesis unfolding f by (simp add: handleProgressUpdate_def Let_def)
qed

lemma progress_counts:
  assumes "baseline prev c < t" and "t - baseline prev c \<le> 5" and "prev \<le> t"
    and "scrobbles e" and "e_status e = PLAYING" and "songWithId (e_currentSong e) \<noteq> None"
  shows "c_listenedMs (handleProgressUpdate e t prev c) = c_listenedMs c + (t - baseline prev c) * 1000"
  using assms
  by (auto simp: handleProgressUpdate_def handleScrobbleFromProgress_def listenSample_def baseline_def Let_def
      MAX_LISTEN_DELTA_SEC_def split: option.splits)

text \<open>The other operations leave the listen time alone or reset it.\<close>

lemma other_listened:
  assumes "\<forall>t prev. op \<noteq> On_progress t prev"
  shows "c_listenedMs (scrobble_step (e, op) c) = c_listenedMs c
    \<or> c_listenedMs (scrobble_step (e, op) c) = 0"
  using assms
  by (cases op) (auto simp: settingsChanged_def handleScrobbleFromSongChange_def handleScrobbleFromSeek_def
      handleScrobbleFromStatus_def handleScrobbleFromRepeat_def fireSongChangeTimeout_def
      fireNotifyTimeout_def forceSubmitScrobble_def resetListenedState_def Let_def
      split: option.splits prod.splits)

definition progress_count :: "(scrobble_env \<times> scrobble_op) list \<Rightarrow> nat" where
  "progress_count ops = length (filter (\<lambda>(e, op). \<exists>t prev. op = On_progress t prev) ops)"

lemma step_listened_bound:
  assumes "0 \<le> c_listenedMs c"
  shows "0 \<le> c_listenedMs (scrobble_step (e, op) c)
    \<and> c_listenedMs (scrobble_step (e, op) c) \<le> c_listenedMs c + (if \<exists>t prev. op = On_progress t prev then 5000 else 0)"
proof (cases "\<exists>t prev. op = On_progress t prev")
  case True
  then obtain t prev where op: "op = On_progress t prev" by blast
  show ?thesis using progress_listened [of e t prev c] assms by (auto simp: op)
next
  case False
  with other_listened [of op e c] assms show ?thesis by auto
qed

text \<open>
  C8: A timestamp sample adds to a listen time that is not negative only while scrobbling is on and the player
  plays a song with an id, and then exactly the time since the last sample (or, when there is none, since the previous
  timestamp). It adds nothing when that is more than five seconds or when the timeline went back; a shorter jump
  forward counts as if it had been played. Over any sequence of events the listen time does not get negative and grows
  by at most five seconds per sample.
\<close>

theorem listen_time_bounded:
  assumes "0 \<le> c_listenedMs c"
  shows "(c_listenedMs c < c_listenedMs (handleProgressUpdate e t prev c) \<longrightarrow>
      c_listenedMs (handleProgressUpdate e t prev c) = c_listenedMs c + (t - baseline prev c) * 1000
      \<and> 0 < t - baseline prev c \<and> t - baseline prev c \<le> 5 \<and> scrobbles e \<and> e_status e = PLAYING
      \<and> songWithId (e_currentSong e) \<noteq> None)
    \<and> (baseline prev c < t \<and> t - baseline prev c \<le> 5 \<and> scrobbles e \<and> e_status e = PLAYING
        \<and> songWithId (e_currentSong e) \<noteq> None \<and> prev \<le> t \<longrightarrow>
      c_listenedMs (handleProgressUpdate e t prev c) = c_listenedMs c + (t - baseline prev c) * 1000)
    \<and> 0 \<le> c_listenedMs (fold scrobble_step ops c)
    \<and> c_listenedMs (fold scrobble_step ops c) \<le> c_listenedMs c + 5000 * of_nat (progress_count ops)"
proof -
  have "0 \<le> c_listenedMs (fold scrobble_step ops c)
      \<and> c_listenedMs (fold scrobble_step ops c) \<le> c_listenedMs c + 5000 * of_nat (progress_count ops)"
    using assms
  proof (induction ops arbitrary: c)
    case (Cons p ops)
    obtain e op where p: "p = (e, op)" by (cases p)
    note step = step_listened_bound [OF Cons.prems, of e op]
    note ih = Cons.IH [of "scrobble_step (e, op) c"]
    show ?case using step ih by (auto simp: p progress_count_def algebra_simps split: if_splits)
  qed (simp add: progress_count_def)
  then show ?thesis using progress_listened [of e t prev c] progress_counts [of prev c t e] assms by auto
qed

text \<open>
  A jump of at most five seconds counts: the actions that skip and seek set the timestamp first, so that the sample comes
  before the event of the seek.
\<close>

lemma short_jump_counts:
  assumes "c_lastListenSampleTime c = Some x" and "0 < d" and "d \<le> 5"
    and "scrobbles e" and "e_status e = PLAYING" and "songWithId (e_currentSong e) \<noteq> None"
  shows "c_listenedMs (scrobble_step (e, On_seek (x + d)) (scrobble_step (e, On_progress (x + d) x) c)) =
      c_listenedMs c + d * 1000
    \<or> c_listenedMs (scrobble_step (e, On_seek (x + d)) (scrobble_step (e, On_progress (x + d) x) c)) = 0"
proof -
  have "c_listenedMs (handleProgressUpdate e (x + d) x c) = c_listenedMs c + d * 1000"
    using progress_counts [of x c "x + d" e] assms by (simp add: baseline_def)
  with other_listened [of "On_seek (x + d)" e "handleProgressUpdate e (x + d) x c"] show ?thesis by auto
qed

definition exampleEnv :: scrobble_env where
  "exampleEnv = \<lparr>e_enabled = True, e_privateMode = False, e_notify = False,
     e_currentSong = Some (toQueueSong ''u1'' (exampleSong ''a'')), e_status = PLAYING, e_speed = 1,
     e_timestamp = 200, e_now = 0, e_reportsPlayback = (\<lambda>_. True)\<rparr>"

theorem listen_time_bounded_witness:
  "c_listenedMs (fold scrobble_step [(exampleEnv, On_progress 3 0), (exampleEnv, On_progress 90 3)] initialScrobble)
     \<le> 10000"
  using listen_time_bounded [of initialScrobble exampleEnv 3 0
      "[(exampleEnv, On_progress 3 0), (exampleEnv, On_progress 90 3)]"]
  by (simp add: initialScrobble_def progress_count_def)

section \<open>Submissions\<close>

definition flag :: "scrobble_state \<Rightarrow> nat" where
  "flag c = (if c_isCurrentSongScrobbled c then 1 else 0)"

text \<open>
  What takes the flag back: a sample of the timeline that went back to the start of the track, or an operation after which
  the flag is not set any more.
\<close>

definition backAtStart :: "rat \<Rightarrow> rat \<Rightarrow> scrobble_state \<Rightarrow> bool" where
  "backAtStart t prev c \<longleftrightarrow> t < 5 \<and>
     (t < prev \<and> 10 \<le> prev \<or> (case c_lastListenSampleTime c of None \<Rightarrow> False | Some l \<Rightarrow> t < l \<and> 5 \<le> l))"

fun takesBack :: "scrobble_env \<times> scrobble_op \<Rightarrow> scrobble_state \<Rightarrow> bool" where
  "takesBack (e, On_progress t prev) c = backAtStart t prev c"
| "takesBack (e, op) c = (\<not> c_isCurrentSongScrobbled (scrobble_step (e, op) c))"

text \<open>A submission by progress sets the flag; the flag is set by nothing else.\<close>

lemma progress_submissions:
  shows "submissions (handleScrobbleFromProgress e t prev c) + flag c \<le>
     submissions c + flag (handleScrobbleFromProgress e t prev c)
       + (if c_isCurrentSongScrobbled c \<and> backAtStart t prev c then 1 else 0)"
proof (cases "songWithId (e_currentSong e)")
  case None
  then show ?thesis by (simp add: handleScrobbleFromProgress_def)
next
  case (Some song)
  let ?l = "listenSample t prev c"
  have l: "submissions ?l = submissions c" by (simp add: submissions_def)
  have keep: "c_isCurrentSongScrobbled ?l = c_isCurrentSongScrobbled c \<or> backAtStart t prev c"
    by (auto simp: listenSample_def backAtStart_def SCROBBLE_TRACK_BEGIN_SEC_def Let_def split: option.splits)
  have "submissions (submitIfEligible e song ?l) + flag c \<le> submissions c + flag (submitIfEligible e song ?l)
       + (if c_isCurrentSongScrobbled c \<and> backAtStart t prev c then 1 else 0)"
    using keep l submitIfEligible_cases [of e song ?l] by (auto simp: flag_def submissions_def)
  then show ?thesis using Some
    by (auto simp: handleScrobbleFromProgress_def flag_def submissions_def backAtStart_def
        SCROBBLE_TRACK_BEGIN_SEC_def SCROBBLE_RESTART_PREVIOUS_MIN_SEC_def)
qed

lemma step_submissions:
  assumes "op \<noteq> On_forceSubmit"
  shows "submissions (scrobble_step (e, op) c) + flag c \<le> submissions c + flag (scrobble_step (e, op) c)
    + (if c_isCurrentSongScrobbled c \<and> takesBack (e, op) c then 1 else 0)"
proof (cases "\<exists>t prev. op = On_progress t prev")
  case True
  then obtain t prev where op: "op = On_progress t prev" by blast
  let ?c2 = "(if t < SCROBBLE_TRACK_BEGIN_SEC \<and> SCROBBLE_TRACK_BEGIN_SEC \<le> prev
      then c\<lparr>c_stopPosition := prev\<rparr> else c\<lparr>c_stopPosition := t\<rparr>)\<lparr>c_previousTimestamp := t\<rparr>"
  have f: "submissions ?c2 = submissions c" "flag ?c2 = flag c"
    "c_isCurrentSongScrobbled ?c2 = c_isCurrentSongScrobbled c" "backAtStart t prev ?c2 = backAtStart t prev c"
    by (simp_all add: submissions_def flag_def backAtStart_def)
  have g: "submissions (flushScrobbleDebug e x) = submissions x" "flag (flushScrobbleDebug e x) = flag x" for x
    by (simp_all add: submissions_def flag_def)
  show ?thesis
    using progress_submissions [of e t prev ?c2] unfolding f
    by (simp add: op handleProgressUpdate_def Let_def g)
next
  case False
  with assms show ?thesis
    by (cases op) (auto simp: submissions_def flag_def settingsChanged_def
        handleScrobbleFromSongChange_def handleScrobbleFromSeek_def handleScrobbleFromStatus_def
        handleScrobbleFromRepeat_def fireSongChangeTimeout_def fireNotifyTimeout_def
        resetListenedState_def Let_def split: option.splits prod.splits)
qed

lemma submissions_mono: "submissions c \<le> submissions (scrobble_step p c)"
proof -
  obtain e op where p: "p = (e, op)" by (cases p)
  have "submissions c \<le> submissions (handleProgressUpdate e t prev c)" for t prev
    by (auto simp: handleProgressUpdate_def handleScrobbleFromProgress_def submitIfEligible_def submissions_def Let_def
        split: option.splits)
  then show ?thesis unfolding p
    by (cases op) (auto simp: submissions_def settingsChanged_def
        handleScrobbleFromSongChange_def handleScrobbleFromSeek_def handleScrobbleFromStatus_def
        handleScrobbleFromRepeat_def fireSongChangeTimeout_def fireNotifyTimeout_def forceSubmitScrobble_def
        resetListenedState_def Let_def split: option.splits prod.splits)
qed

text \<open>How often the flag is taken back along a run.\<close>

primrec resets :: "(scrobble_env \<times> scrobble_op) list \<Rightarrow> scrobble_state \<Rightarrow> nat" where
  "resets [] c = 0"
| "resets (p # ops) c = (if c_isCurrentSongScrobbled c \<and> takesBack p c then 1 else 0) + resets ops (scrobble_step p c)"

lemma run_submissions:
  "On_forceSubmit \<notin> snd ` set ops \<Longrightarrow>
     submissions (fold scrobble_step ops c) + flag c \<le> submissions c + flag (fold scrobble_step ops c) + resets ops c"
proof (induction ops arbitrary: c)
  case (Cons p ops)
  obtain e op where p: "p = (e, op)" by (cases p)
  have "submissions (scrobble_step p c) + flag c \<le> submissions c + flag (scrobble_step p c)
    + (if c_isCurrentSongScrobbled c \<and> takesBack p c then 1 else 0)"
    unfolding p using Cons.prems by (intro step_submissions) (auto simp: p)
  moreover have "submissions (fold scrobble_step ops (scrobble_step p c)) + flag (scrobble_step p c) \<le>
      submissions (scrobble_step p c) + flag (fold scrobble_step ops (scrobble_step p c))
        + resets ops (scrobble_step p c)"
    using Cons.IH Cons.prems by simp
  ultimately show ?case by simp
qed simp

lemma run_submissions_mono: "submissions c \<le> submissions (fold scrobble_step ops c)"
  by (induction ops arbitrary: c) (auto intro: order_trans [OF submissions_mono])

text \<open>
  C9: A play is submitted at most once until the listen state is reset, whatever the thresholds are. Along any run of
  events in which no submission is forced, the number of submissions is at most one more than that of the resets: the
  samples at which the timeline is back at the start of the track, and the operations that take the flag of a submitted
  song back. Without a reset, a song that is submitted is not submitted again.
\<close>

theorem at_most_one_submission_per_play:
  assumes "On_forceSubmit \<notin> snd ` set ops"
  shows "submissions (fold scrobble_step ops c) \<le> submissions c + resets ops c + 1
    \<and> (c_isCurrentSongScrobbled c \<and> resets ops c = 0 \<longrightarrow>
        submissions (fold scrobble_step ops c) = submissions c)"
  using run_submissions [OF assms, of c] run_submissions_mono [of c ops] by (auto simp: flag_def split: if_splits)

theorem at_most_one_submission_per_play_witness:
  "submissions (fold scrobble_step [(exampleEnv, On_progress 200 199), (exampleEnv, On_progress 201 200)]
      (initialScrobble\<lparr>c_scrobbleAtDurationMs := 240000, c_listenedMs := 239500\<rparr>)) \<le> 1"
proof -
  let ?c = "initialScrobble\<lparr>c_scrobbleAtDurationMs := 240000, c_listenedMs := 239500\<rparr>"
  let ?ops = "[(exampleEnv, On_progress 200 199), (exampleEnv, On_progress 201 200)]"
  have "On_forceSubmit \<notin> snd ` set ?ops" by simp
  moreover have "resets ?ops ?c = 0" "submissions ?c = 0"
    by (simp_all add: backAtStart_def submissions_def initialScrobble_def exampleEnv_def handleProgressUpdate_def
        handleScrobbleFromProgress_def listenSample_def submitIfEligible_def scrobbles_def songWithId_def
        checkScrobbleConditions_def MAX_LISTEN_DELTA_SEC_def SCROBBLE_TRACK_BEGIN_SEC_def
        SCROBBLE_RESTART_PREVIOUS_MIN_SEC_def Let_def)
  ultimately show ?thesis using at_most_one_submission_per_play [of ?ops ?c] by simp
qed

text \<open>
  A progress event submits a play only when scrobbling is on and not private, the player plays a
  song with an id, that song was not submitted since the last reset, and the listened time meets the
  threshold in percent of its duration or in seconds; the submission is for that song.
\<close>

theorem submission_only_when_eligible:
  assumes "handleProgressUpdate e t prev c = c'" and "c_sent c' \<noteq> c_sent c"
  shows "\<exists>song q. e_currentSong e = Some song \<and> s_id song \<noteq> '''' \<and> scrobbles e \<and> e_status e = PLAYING
    \<and> c_sent c' = c_sent c @ [q] \<and> sq_submission q \<and> sq_id q = s_id song
    \<and> c_isCurrentSongScrobbled c'
    \<and> checkScrobbleConditions (c_scrobbleAtDurationMs c) (c_scrobbleAtPercentage c)
        (c_listenedMs c') (s_duration song)"
proof -
  let ?c2 = "(if t < SCROBBLE_TRACK_BEGIN_SEC \<and> SCROBBLE_TRACK_BEGIN_SEC \<le> prev
      then c\<lparr>c_stopPosition := prev\<rparr> else c\<lparr>c_stopPosition := t\<rparr>)\<lparr>c_previousTimestamp := t\<rparr>"
  have c': "c' = flushScrobbleDebug e (handleScrobbleFromProgress e t prev ?c2)"
    using assms(1) by (simp add: handleProgressUpdate_def Let_def)
  have f: "c_sent ?c2 = c_sent c" "c_scrobbleAtDurationMs ?c2 = c_scrobbleAtDurationMs c"
    "c_scrobbleAtPercentage ?c2 = c_scrobbleAtPercentage c" by simp_all
  obtain song where song: "songWithId (e_currentSong e) = Some song" and on: "scrobbles e" "e_status e = PLAYING"
    and hp: "handleScrobbleFromProgress e t prev ?c2 = submitIfEligible e song (listenSample t prev ?c2)"
    using assms(2) unfolding c'
    by (cases "songWithId (e_currentSong e)")
      (auto simp: handleScrobbleFromProgress_def split: if_splits)
  have "submitIfEligible e song (listenSample t prev ?c2) \<noteq> listenSample t prev ?c2"
    using assms(2) unfolding c' hp by auto
  with submitIfEligible_cases [of e song "listenSample t prev ?c2"]
  show ?thesis using song on unfolding c' hp songWithId_some by auto
qed

theorem submission_only_when_eligible_witness:
  "\<exists>q. c_sent (handleProgressUpdate
        \<lparr>e_enabled = True, e_privateMode = False, e_notify = False,
         e_currentSong = Some (toQueueSong ''u1'' (exampleSong ''a'')), e_status = PLAYING, e_speed = 1,
         e_timestamp = 200, e_now = 0, e_reportsPlayback = (\<lambda>_. False)\<rparr> 200 199
        (initialScrobble\<lparr>c_scrobbleAtDurationMs := 240000, c_listenedMs := 239500\<rparr>)) = [q] \<and> sq_id q = ''a''"
proof -
  let ?e = "\<lparr>e_enabled = True, e_privateMode = False, e_notify = False,
         e_currentSong = Some (toQueueSong ''u1'' (exampleSong ''a'')), e_status = PLAYING, e_speed = 1,
         e_timestamp = 200, e_now = 0, e_reportsPlayback = (\<lambda>_. False)\<rparr>"
  let ?c = "initialScrobble\<lparr>c_scrobbleAtDurationMs := 240000, c_listenedMs := 239500\<rparr>"
  have "c_sent (handleProgressUpdate ?e 200 199 ?c) \<noteq> c_sent ?c"
    by (simp add: handleProgressUpdate_def handleScrobbleFromProgress_def scrobbles_def songWithId_def
        listenSample_def initialScrobble_def submitIfEligible_def Let_def
        SCROBBLE_TRACK_BEGIN_SEC_def MAX_LISTEN_DELTA_SEC_def checkScrobbleConditions_def)
  from submission_only_when_eligible [OF refl this] show ?thesis
    by (auto simp: initialScrobble_def)
qed

text \<open>
  While scrobbling is off or the private mode is on, no event of the player makes the hook send
  anything, and no forced submission does; only a timeout that is already running still can.
\<close>

theorem private_mode_silences_handlers:
  assumes "\<not> scrobbles e" and "op \<noteq> On_songChangeTimeout"
  shows "c_sent (scrobble_step (e, op) c) = c_sent c"
  using assms by (cases op) (auto simp: settingsChanged_def handleProgressUpdate_def
      handleScrobbleFromProgress_def handleScrobbleFromSongChange_def handleScrobbleFromSeek_def
      handleScrobbleFromStatus_def handleScrobbleFromRepeat_def fireNotifyTimeout_def
      forceSubmitScrobble_def resetListenedState_def Let_def split: option.splits prod.splits)

theorem private_mode_silences_handlers_witness:
  "c_sent (scrobble_step (\<lparr>e_enabled = True, e_privateMode = True, e_notify = False,
     e_currentSong = Some (toQueueSong ''u1'' (exampleSong ''a'')), e_status = PLAYING, e_speed = 1,
     e_timestamp = 200, e_now = 0, e_reportsPlayback = (\<lambda>_. True)\<rparr>, On_forceSubmit) initialScrobble) = []"
  by (rule trans, rule private_mode_silences_handlers) (simp_all add: scrobbles_def initialScrobble_def)

text \<open>
  A flaw of the private mode. A song change starts a timeout of two seconds, and its callback asks
  neither for the private mode nor whether scrobbling is still on: the start of the new song is sent
  although the private mode was switched on in between.
\<close>

theorem private_mode_pending_start_is_sent:
  assumes "scrobbles e" and "s_id x \<noteq> ''''" and "e_status e' = PLAYING" and "\<not> scrobbles e'"
  shows "\<exists>qs. c_sent (scrobble_step (e', On_songChangeTimeout)
        (scrobble_step (e, On_songChange (i, Some x) j) c)) = c_sent c @ qs
    \<and> sq_event (hd qs) = Some EV_start \<and> sq_id (hd qs) = s_id x \<and> qs \<noteq> []"
proof -
  let ?d = "handleScrobbleFromSongChange e (i, Some x) j c"
  have d: "c_sent ?d = c_sent c" "c_songChangeTimeout ?d = Some \<lparr>ct_song = Some x,
      ct_previousSong = c_previousSong c, ct_previousPositionSec = c_stopPosition c,
      ct_playbackRate = e_speed e\<rparr>"
    using assms(1,2) by (auto simp: handleScrobbleFromSongChange_def Let_def songWithId_def)
  then show ?thesis using assms(2,3)
    by (auto simp: fireSongChangeTimeout_def Let_def songWithId_def queryFor_def split: option.splits)
qed

theorem private_mode_pending_start_is_sent_witness:
  "\<exists>qs. c_sent (scrobble_step
       (\<lparr>e_enabled = True, e_privateMode = True, e_notify = False, e_currentSong = None,
         e_status = PLAYING, e_speed = 1, e_timestamp = 1, e_now = 2000,
         e_reportsPlayback = (\<lambda>_. True)\<rparr>, On_songChangeTimeout)
       (scrobble_step (\<lparr>e_enabled = True, e_privateMode = False, e_notify = False,
         e_currentSong = None, e_status = PLAYING, e_speed = 1, e_timestamp = 1, e_now = 0,
         e_reportsPlayback = (\<lambda>_. True)\<rparr>,
         On_songChange (Num 0, Some (toQueueSong ''u1'' (exampleSong ''a''))) (Num 1)) initialScrobble)) =
     c_sent initialScrobble @ qs \<and> sq_event (hd qs) = Some EV_start
     \<and> sq_id (hd qs) = s_id (toQueueSong ''u1'' (exampleSong ''a'')) \<and> qs \<noteq> []"
  by (rule private_mode_pending_start_is_sent) (simp_all add: scrobbles_def)

text \<open>
  A song change that is not followed by another one is reported once the timeout fires: the start
  of the new song if the player plays, and the stop of the previous one at the position where it was
  left. Of two changes within the timeout only the second is reported, so the song that was playing
  before the first never gets its stop.
\<close>

theorem song_change_reports:
  assumes "scrobbles e" and "s_id x \<noteq> ''''" and "s_id y \<noteq> ''''" and "e_status e' = PLAYING"
    and "c_previousSong c = Some y"
  shows "c_sent (fireSongChangeTimeout e' (handleScrobbleFromSongChange e (i, Some x) j c)) =
      c_sent c @ [queryFor x (Some EV_start) (e_speed e) 0 False,
        queryFor y (Some EV_stop) (e_speed e)
          (getPositionValue (c_stopPosition c) (useTicksOf (Some y))) False]
    \<and> c_sent (fireSongChangeTimeout e' (handleScrobbleFromSongChange e (k, Some y) i
          (handleScrobbleFromSongChange e (i, Some x) j c))) =
      c_sent c @ [queryFor y (Some EV_start) (e_speed e) 0 False,
        queryFor x (Some EV_stop) (e_speed e) (getPositionValue 0 (useTicksOf (Some x))) False]"
proof -
  have d: "c_sent (handleScrobbleFromSongChange e (i, Some z) j c) = c_sent c"
    "c_previousSong (handleScrobbleFromSongChange e (i, Some z) j c) = Some z"
    "c_stopPosition (handleScrobbleFromSongChange e (i, Some z) j c) = 0"
    "c_songChangeTimeout (handleScrobbleFromSongChange e (i, Some z) j c) = Some \<lparr>ct_song = Some z,
      ct_previousSong = c_previousSong c, ct_previousPositionSec = c_stopPosition c,
      ct_playbackRate = e_speed e\<rparr>" for i j z c
    using assms(1) by (auto simp: handleScrobbleFromSongChange_def Let_def songWithId_def)
  show ?thesis using assms(2-5) by (simp add: fireSongChangeTimeout_def d Let_def songWithId_def)
qed

theorem song_change_reports_witness:
  "map sq_id (c_sent (fireSongChangeTimeout
     \<lparr>e_enabled = True, e_privateMode = False, e_notify = False, e_currentSong = None,
      e_status = PLAYING, e_speed = 1, e_timestamp = 1, e_now = 2000, e_reportsPlayback = (\<lambda>_. True)\<rparr>
     (handleScrobbleFromSongChange
       \<lparr>e_enabled = True, e_privateMode = False, e_notify = False, e_currentSong = None,
        e_status = PLAYING, e_speed = 1, e_timestamp = 1, e_now = 0, e_reportsPlayback = (\<lambda>_. True)\<rparr>
       (Num 1, Some (toQueueSong ''u2'' (exampleSong ''b''))) (Num 0)
       (initialScrobble\<lparr>c_previousSong := Some (toQueueSong ''u1'' (exampleSong ''a''))\<rparr>)))) = [''b'', ''a'']"
  by (subst song_change_reports [where y = "toQueueSong ''u1'' (exampleSong ''a'')", THEN conjunct1])
    (simp_all add: scrobbles_def initialScrobble_def)

text \<open>
  A flaw of the submitted position. The duration of a song is in milliseconds, but it is passed
  where seconds are expected: the submission carries a thousand times the position at the end of the
  track, while the position of a stop there is right.
\<close>

theorem submission_position_is_thousandfold:
  assumes "scrobbles e" and "e_currentSong e = Some x" and "s_id x \<noteq> ''''" and "s_serverType x \<noteq> JELLYFIN"
  shows "sq_position (last (c_sent (forceSubmitScrobble e c))) = 1000 * s_duration x
    \<and> getPositionValue (s_duration x / 1000) (useTicksOf (Some x)) = s_duration x"
  using assms by (simp add: forceSubmitScrobble_def songWithId_def getPositionValue_def useTicksOf_def)

theorem submission_position_is_thousandfold_witness:
  "sq_position (last (c_sent (forceSubmitScrobble
     \<lparr>e_enabled = True, e_privateMode = False, e_notify = False,
      e_currentSong = Some (toQueueSong ''u1'' (exampleSong ''a'')), e_status = PLAYING, e_speed = 1,
      e_timestamp = 1, e_now = 0, e_reportsPlayback = (\<lambda>_. False)\<rparr> initialScrobble))) = 180000000"
  by (rule trans, rule submission_position_is_thousandfold
      [where x = "toQueueSong ''u1'' (exampleSong ''a'')", THEN conjunct1])
    (simp_all add: scrobbles_def)

end
