(* ===== verification/Optimistic.thy ===== *)
theory Optimistic
  imports PlayerTypes
begin

text \<open>
  The optimistic updates of the query cache when a favourite or a rating is set
  (\<^verbatim>\<open>shared/mutations/favorite-optimistic-updates.ts\<close> and \<^verbatim>\<open>rating-optimistic-updates.ts\<close>): which cached
  queries are rewritten, how, and how a failed mutation restores them. The query client is a library,
  so its two operations are arguments of the definitions; \<open>client_ok\<close> states what their documentation
  promises. Reading a property of null or undefined is a type error, an explicit result.
\<close>

section \<open>Cached data\<close>

record q_item =
  qi_id :: string
  qi_userFavorite :: "bool option"
  qi_userRating :: "rat option"
  qi_rest :: string

text \<open>An entry of a cached array may be null or undefined.\<close>

type_synonym q_items = "q_item option list"

record q_page =
  pg_items :: "q_items option"
  pg_rest :: string

text \<open>
  The object cached for a query, with the properties that the updaters look for: the details of an
  entity, a list, an infinite list, the rows of an infinite loader, the similar artists.
\<close>

record qdata =
  qd_id :: "string option"
  qd_userFavorite :: "bool option"
  qd_userRating :: "rat option"
  qd_songs :: "q_items option"
  qd_similarArtists :: "q_items option"
  qd_items :: "q_items option"
  qd_pages :: "q_page option list option"
  qd_data :: "q_items option"
  qd_rest :: string

datatype js_error = TypeError

text \<open>The query client: keys of cached queries are \<open>'k\<close>, base keys are lists of strings.\<close>

record ('k, 'c) query_client =
  getQueriesData :: "string list \<Rightarrow> 'c \<Rightarrow> ('k \<times> qdata option) list"
  getQueryData :: "'k \<Rightarrow> 'c \<Rightarrow> qdata option"
  setQueryData :: "'k \<Rightarrow> qdata option \<Rightarrow> 'c \<Rightarrow> 'c"

text \<open>
  Documented behaviour: \<open>getQueriesData\<close> returns the matching queries with their current data, and
  \<open>setQueryData\<close> changes the data of its key only, and not at all when the new value is undefined.
\<close>

definition client_ok :: "('k, 'c) query_client \<Rightarrow> bool" where
  "client_ok cl =
     ((\<forall>base c. \<forall>(k, d) \<in> set (getQueriesData cl base c). getQueryData cl k c = d)
      \<and> (\<forall>k k' d c. getQueryData cl k' (setQueryData cl k d c) =
           (if k' = k \<and> d \<noteq> None then d else getQueryData cl k' c)))"

type_synonym updater = "qdata option \<Rightarrow> js_error + qdata option"

section \<open>Updating arrays and pages\<close>

text \<open>
  The loop reads the id of every item, so a null item is a type error; without a change the result is
  null (\<open>None\<close>).
\<close>

fun updateItemInArray ::
    "q_items option \<Rightarrow> string set \<Rightarrow> (q_item \<Rightarrow> q_item) \<Rightarrow> js_error + q_items option" where
  "updateItemInArray None itemIdSet u = Inl TypeError"
| "updateItemInArray (Some items) itemIdSet u =
     (if None \<in> set items then Inl TypeError
      else if \<exists>x \<in> set items. qi_id (the x) \<in> itemIdSet
      then Inr (Some (map (map_option (\<lambda>item. if qi_id item \<in> itemIdSet then u item else item)) items))
      else Inr None)"

fun updatePage ::
    "string set \<Rightarrow> (q_item \<Rightarrow> q_item) \<Rightarrow> q_page option \<Rightarrow> js_error + bool \<times> q_page option" where
  "updatePage itemIdSet u None = Inr (False, None)"
| "updatePage itemIdSet u (Some page) =
     (case updateItemInArray (pg_items page) itemIdSet u of
        Inl e \<Rightarrow> Inl e
      | Inr (Some updatedItems) \<Rightarrow> Inr (True, Some (page\<lparr>pg_items := Some updatedItems\<rparr>))
      | Inr None \<Rightarrow> Inr (False, Some page))"

fun updatePagesLoop ::
    "string set \<Rightarrow> (q_item \<Rightarrow> q_item) \<Rightarrow> q_page option list \<Rightarrow> js_error + bool \<times> q_page option list" where
  "updatePagesLoop itemIdSet u [] = Inr (False, [])"
| "updatePagesLoop itemIdSet u (page # pages) =
     (case updatePage itemIdSet u page of
        Inl e \<Rightarrow> Inl e
      | Inr (ch, page') \<Rightarrow>
          (case updatePagesLoop itemIdSet u pages of
             Inl e \<Rightarrow> Inl e
           | Inr (chs, pages') \<Rightarrow> Inr (ch \<or> chs, page' # pages')))"

definition updateItemsInPages ::
    "q_page option list \<Rightarrow> string set \<Rightarrow> (q_item \<Rightarrow> q_item) \<Rightarrow> js_error + q_page option list option" where
  "updateItemsInPages pages itemIdSet u =
     (case updatePagesLoop itemIdSet u pages of
        Inl e \<Rightarrow> Inl e
      | Inr (hasChanges, updatedPages) \<Rightarrow> Inr (if hasChanges then Some updatedPages else None))"

section \<open>The updaters\<close>

text \<open>
  What is written: a property of an item and the same property of a detail object. The favourites
  and the ratings differ only in this.
\<close>

record writer =
  wr_item :: "q_item \<Rightarrow> q_item"
  wr_detail :: "qdata \<Rightarrow> qdata"

definition favoriteWriter :: "bool \<Rightarrow> writer" where
  "favoriteWriter isFavorite = \<lparr>wr_item = (\<lambda>item. item\<lparr>qi_userFavorite := Some isFavorite\<rparr>),
     wr_detail = (\<lambda>d. d\<lparr>qd_userFavorite := Some isFavorite\<rparr>)\<rparr>"

definition ratingWriter :: "rat \<Rightarrow> writer" where
  "ratingWriter rating = \<lparr>wr_item = (\<lambda>item. item\<lparr>qi_userRating := Some rating\<rparr>),
     wr_detail = (\<lambda>d. d\<lparr>qd_userRating := Some rating\<rparr>)\<rparr>"

definition detailUpdater :: "writer \<Rightarrow> string set \<Rightarrow> updater" where
  "detailUpdater w itemIdSet prev =
     (case prev of
        Some d \<Rightarrow> Inr (Some (if qd_id d \<in> Some ` itemIdSet then wr_detail w d else d))
      | None \<Rightarrow> Inr None)"

definition listUpdater :: "writer \<Rightarrow> string set \<Rightarrow> updater" where
  "listUpdater w itemIdSet current =
     (case current of
        None \<Rightarrow> Inr None
      | Some d \<Rightarrow>
          (case updateItemInArray (qd_items d) itemIdSet (wr_item w) of
             Inl e \<Rightarrow> Inl e
           | Inr (Some updatedItems) \<Rightarrow> Inr (Some (d\<lparr>qd_items := Some updatedItems\<rparr>))
           | Inr None \<Rightarrow> Inr (Some d)))"

text \<open>The list of album artists drops its null entries first.\<close>

definition filteredListUpdater :: "writer \<Rightarrow> string set \<Rightarrow> updater" where
  "filteredListUpdater w itemIdSet prev =
     (case prev of
        None \<Rightarrow> Inr None
      | Some d \<Rightarrow>
          (case updateItemInArray (map_option (filter (\<lambda>item. item \<noteq> None)) (qd_items d)) itemIdSet
                  (wr_item w) of
             Inl e \<Rightarrow> Inl e
           | Inr (Some updatedItems) \<Rightarrow> Inr (Some (d\<lparr>qd_items := Some updatedItems\<rparr>))
           | Inr None \<Rightarrow> Inr (Some d)))"

definition infiniteListUpdater :: "writer \<Rightarrow> string set \<Rightarrow> updater" where
  "infiniteListUpdater w itemIdSet current =
     (case current of
        None \<Rightarrow> Inr None
      | Some d \<Rightarrow>
          (case qd_pages d of
             None \<Rightarrow> Inl TypeError
           | Some pages \<Rightarrow>
               (case updateItemsInPages (filter (\<lambda>p. p \<noteq> None) pages) itemIdSet (wr_item w) of
                  Inl e \<Rightarrow> Inl e
                | Inr (Some updatedPages) \<Rightarrow> Inr (Some (d\<lparr>qd_pages := Some updatedPages\<rparr>))
                | Inr None \<Rightarrow> Inr (Some d))))"

definition infiniteLoaderUpdater :: "writer \<Rightarrow> string set \<Rightarrow> updater" where
  "infiniteLoaderUpdater w itemIdSet prev =
     (case prev of
        None \<Rightarrow> Inr None
      | Some d \<Rightarrow>
          (if qd_data d = None then Inr (Some d)
           else
             (case updateItemInArray (qd_data d) itemIdSet (wr_item w) of
                Inl e \<Rightarrow> Inl e
              | Inr (Some updatedData) \<Rightarrow> Inr (Some (d\<lparr>qd_data := Some updatedData\<rparr>))
              | Inr None \<Rightarrow> Inr (Some d))))"

definition artistInfoUpdater :: "writer \<Rightarrow> string set \<Rightarrow> updater" where
  "artistInfoUpdater w itemIdSet prev =
     (case prev of
        None \<Rightarrow> Inr None
      | Some d \<Rightarrow>
          (case qd_similarArtists d of
             None \<Rightarrow> Inr (Some d)
           | Some artists \<Rightarrow>
               (if length artists = 0 then Inr (Some d)
                else
                  (case updateItemInArray (Some artists) itemIdSet (wr_item w) of
                     Inl e \<Rightarrow> Inl e
                   | Inr None \<Rightarrow> Inr (Some d)
                   | Inr (Some updated) \<Rightarrow> Inr (Some (d\<lparr>qd_similarArtists := Some updated\<rparr>))))))"

definition albumSongsUpdater :: "writer \<Rightarrow> string set \<Rightarrow> updater" where
  "albumSongsUpdater w itemIdSet prev =
     (case prev of
        None \<Rightarrow> Inr None
      | Some d \<Rightarrow>
          (if qd_songs d = None then Inr (Some d)
           else
             (case updateItemInArray (qd_songs d) itemIdSet (wr_item w) of
                Inl e \<Rightarrow> Inl e
              | Inr (Some updatedSongs) \<Rightarrow> Inr (Some (d\<lparr>qd_songs := Some updatedSongs\<rparr>))
              | Inr None \<Rightarrow> Inr (Some d))))"

section \<open>Collecting and applying\<close>

record 'k pending_update =
  pu_previousData :: qdata
  pu_queryKey :: 'k
  pu_updater :: updater

type_synonym 'k previous_query_data = "('k \<times> qdata) list"

definition pendingFor ::
    "('k, 'c) query_client \<Rightarrow> 'c \<Rightarrow> string list \<Rightarrow> updater \<Rightarrow> 'k pending_update list" where
  "pendingFor cl c base u =
     List.map_filter (\<lambda>(queryKey, data). case data of
         Some d \<Rightarrow> Some \<lparr>pu_previousData = d, pu_queryKey = queryKey, pu_updater = u\<rparr>
       | None \<Rightarrow> None) (getQueriesData cl base c)"

text \<open>
  The updates run in order on the cache; a type error of an updater ends the loop with the updates
  made so far in place and nothing returned.
\<close>

fun collectAndApplyUpdates ::
    "('k, 'c) query_client \<Rightarrow> 'k pending_update list \<Rightarrow> 'c \<Rightarrow> 'c \<times> (js_error + 'k previous_query_data)" where
  "collectAndApplyUpdates cl [] c = (c, Inr [])"
| "collectAndApplyUpdates cl (p # ps) c =
     (case pu_updater p (getQueryData cl (pu_queryKey p) c) of
        Inl e \<Rightarrow> (c, Inl e)
      | Inr d \<Rightarrow>
          (case collectAndApplyUpdates cl ps (setQueryData cl (pu_queryKey p) d c) of
             (c', Inl e) \<Rightarrow> (c', Inl e)
           | (c', Inr prev) \<Rightarrow> (c', Inr ((pu_queryKey p, pu_previousData p) # prev))))"

definition restoreQueryData ::
    "('k, 'c) query_client \<Rightarrow> 'k previous_query_data \<Rightarrow> 'c \<Rightarrow> 'c" where
  "restoreQueryData cl previousQueries c =
     foldl (\<lambda>c (queryKey, data). setQueryData cl queryKey (Some data) c) c previousQueries"

definition restoreFavoriteQueryData ::
    "('k, 'c) query_client \<Rightarrow> 'k previous_query_data \<Rightarrow> 'c \<Rightarrow> 'c" where
  "restoreFavoriteQueryData = restoreQueryData"

definition restoreRatingQueryData ::
    "('k, 'c) query_client \<Rightarrow> 'k previous_query_data \<Rightarrow> 'c \<Rightarrow> 'c" where
  "restoreRatingQueryData = restoreQueryData"

section \<open>Favourites\<close>

text \<open>The base keys of \<^verbatim>\<open>api/query-keys.ts\<close> that are used, without a query.\<close>

definition albumsKey :: "string \<Rightarrow> string \<Rightarrow> string list" where
  "albumsKey serverId part = [serverId, ''albums'', part]"

definition albumArtistsKey :: "string \<Rightarrow> string \<Rightarrow> string list" where
  "albumArtistsKey serverId part = [serverId, ''albumArtists'', part]"

definition artistsKey :: "string \<Rightarrow> string \<Rightarrow> string list" where
  "artistsKey serverId part = [serverId, ''artists'', part]"

definition songsKey :: "string \<Rightarrow> string \<Rightarrow> string list" where
  "songsKey serverId part = [serverId, ''songs'', part]"

definition playlistSongListKey :: "string \<Rightarrow> string list" where
  "playlistSongListKey serverId = [serverId, ''playlists'', ''songList'']"

definition infiniteLoaderDataQueryKey :: "string \<Rightarrow> string \<Rightarrow> string list" where
  "infiniteLoaderDataQueryKey serverId itemType = [serverId, ''item-list-infinite-loader'', itemType]"

definition favoriteAlbumUpdates ::
    "('k, 'c) query_client \<Rightarrow> 'c \<Rightarrow> string \<Rightarrow> string set \<Rightarrow> writer \<Rightarrow> 'k pending_update list" where
  "favoriteAlbumUpdates cl c serverId itemIdSet w =
     pendingFor cl c (albumsKey serverId ''detail'') (detailUpdater w itemIdSet)
       @ pendingFor cl c (albumsKey serverId ''list'') (listUpdater w itemIdSet)
       @ pendingFor cl c (albumsKey serverId ''infiniteList'') (infiniteListUpdater w itemIdSet)
       @ pendingFor cl c [''home'', ''album''] (infiniteListUpdater w itemIdSet)
       @ pendingFor cl c (infiniteLoaderDataQueryKey serverId ''album'') (infiniteLoaderUpdater w itemIdSet)"

definition favoriteAlbumArtistUpdates ::
    "('k, 'c) query_client \<Rightarrow> 'c \<Rightarrow> string \<Rightarrow> string set \<Rightarrow> writer \<Rightarrow> 'k pending_update list" where
  "favoriteAlbumArtistUpdates cl c serverId itemIdSet w =
     pendingFor cl c (albumArtistsKey serverId ''detail'') (detailUpdater w itemIdSet)
       @ pendingFor cl c (albumArtistsKey serverId ''info'') (artistInfoUpdater w itemIdSet)
       @ pendingFor cl c (albumArtistsKey serverId ''list'') (filteredListUpdater w itemIdSet)
       @ pendingFor cl c (albumArtistsKey serverId ''infiniteList'') (infiniteListUpdater w itemIdSet)
       @ pendingFor cl c (infiniteLoaderDataQueryKey serverId ''albumArtist'')
           (infiniteLoaderUpdater w itemIdSet)"

definition favoriteArtistUpdates ::
    "('k, 'c) query_client \<Rightarrow> 'c \<Rightarrow> string \<Rightarrow> string set \<Rightarrow> writer \<Rightarrow> 'k pending_update list" where
  "favoriteArtistUpdates cl c serverId itemIdSet w =
     pendingFor cl c (artistsKey serverId ''list'') (listUpdater w itemIdSet)
       @ pendingFor cl c (artistsKey serverId ''infiniteList'') (infiniteListUpdater w itemIdSet)
       @ pendingFor cl c (infiniteLoaderDataQueryKey serverId ''artist'') (infiniteLoaderUpdater w itemIdSet)"

text \<open>The queries of the home page are concatenated with themselves.\<close>

definition favoriteSongUpdates ::
    "('k, 'c) query_client \<Rightarrow> 'c \<Rightarrow> string \<Rightarrow> string set \<Rightarrow> writer \<Rightarrow> 'k pending_update list" where
  "favoriteSongUpdates cl c serverId itemIdSet w =
     pendingFor cl c (albumsKey serverId ''detail'') (albumSongsUpdater w itemIdSet)
       @ pendingFor cl c (songsKey serverId ''detail'') (detailUpdater w itemIdSet)
       @ pendingFor cl c (playlistSongListKey serverId) (listUpdater w itemIdSet)
       @ pendingFor cl c (songsKey serverId ''list'') (listUpdater w itemIdSet)
       @ pendingFor cl c (albumArtistsKey serverId ''topSongs'') (listUpdater w itemIdSet)
       @ pendingFor cl c [''home'', ''song''] (infiniteListUpdater w itemIdSet)
       @ pendingFor cl c [''home'', ''song''] (infiniteListUpdater w itemIdSet)"

definition favoritePending ::
    "('k, 'c) query_client \<Rightarrow> 'c \<Rightarrow> string \<Rightarrow> LibraryItem \<Rightarrow> string set \<Rightarrow> writer \<Rightarrow> 'k pending_update list" where
  "favoritePending cl c serverId type itemIdSet w =
     (case type of
        ALBUM \<Rightarrow> favoriteAlbumUpdates cl c serverId itemIdSet w
      | ALBUM_ARTIST \<Rightarrow> favoriteAlbumArtistUpdates cl c serverId itemIdSet w
      | ARTIST \<Rightarrow> favoriteArtistUpdates cl c serverId itemIdSet w
      | PLAYLIST_SONG \<Rightarrow> favoriteSongUpdates cl c serverId itemIdSet w
      | QUEUE_SONG \<Rightarrow> favoriteSongUpdates cl c serverId itemIdSet w
      | SONG \<Rightarrow> favoriteSongUpdates cl c serverId itemIdSet w
      | _ \<Rightarrow> [])"

definition applyFavoriteOptimisticUpdates ::
    "('k, 'c) query_client \<Rightarrow> string \<Rightarrow> string list \<Rightarrow> LibraryItem \<Rightarrow> bool \<Rightarrow> 'c
       \<Rightarrow> 'c \<times> (js_error + 'k previous_query_data)" where
  "applyFavoriteOptimisticUpdates cl serverId ids type isFavorite c =
     collectAndApplyUpdates cl
       (favoritePending cl c serverId type (set ids) (favoriteWriter isFavorite)) c"

section \<open>Ratings\<close>

definition ratingAlbumUpdates ::
    "('k, 'c) query_client \<Rightarrow> 'c \<Rightarrow> string \<Rightarrow> string set \<Rightarrow> writer \<Rightarrow> 'k pending_update list" where
  "ratingAlbumUpdates cl c serverId itemIdSet w =
     pendingFor cl c (albumsKey serverId ''detail'') (detailUpdater w itemIdSet)
       @ pendingFor cl c (albumsKey serverId ''list'') (listUpdater w itemIdSet)
       @ pendingFor cl c (albumsKey serverId ''infiniteList'') (infiniteListUpdater w itemIdSet)
       @ pendingFor cl c [''home'', ''album''] (infiniteListUpdater w itemIdSet)
       @ pendingFor cl c [serverId, ''item-list-infinite-loader'', ''album''] (infiniteLoaderUpdater w itemIdSet)"

definition ratingAlbumArtistUpdates ::
    "('k, 'c) query_client \<Rightarrow> 'c \<Rightarrow> string \<Rightarrow> string set \<Rightarrow> writer \<Rightarrow> 'k pending_update list" where
  "ratingAlbumArtistUpdates cl c serverId itemIdSet w =
     pendingFor cl c (albumArtistsKey serverId ''detail'') (detailUpdater w itemIdSet)
       @ pendingFor cl c (albumArtistsKey serverId ''info'') (artistInfoUpdater w itemIdSet)
       @ pendingFor cl c (albumArtistsKey serverId ''list'') (filteredListUpdater w itemIdSet)
       @ pendingFor cl c (albumArtistsKey serverId ''infiniteList'') (infiniteListUpdater w itemIdSet)
       @ pendingFor cl c [serverId, ''item-list-infinite-loader'', ''albumArtist'']
           (infiniteLoaderUpdater w itemIdSet)"

definition ratingArtistUpdates ::
    "('k, 'c) query_client \<Rightarrow> 'c \<Rightarrow> string \<Rightarrow> string set \<Rightarrow> writer \<Rightarrow> 'k pending_update list" where
  "ratingArtistUpdates cl c serverId itemIdSet w =
     pendingFor cl c (artistsKey serverId ''list'') (listUpdater w itemIdSet)
       @ pendingFor cl c (artistsKey serverId ''infiniteList'') (infiniteListUpdater w itemIdSet)
       @ pendingFor cl c [serverId, ''item-list-infinite-loader'', ''artist''] (infiniteLoaderUpdater w itemIdSet)"

definition ratingSongUpdates ::
    "('k, 'c) query_client \<Rightarrow> 'c \<Rightarrow> string \<Rightarrow> string set \<Rightarrow> writer \<Rightarrow> 'k pending_update list" where
  "ratingSongUpdates cl c serverId itemIdSet w =
     pendingFor cl c (albumsKey serverId ''detail'') (albumSongsUpdater w itemIdSet)
       @ pendingFor cl c (songsKey serverId ''detail'') (detailUpdater w itemIdSet)
       @ pendingFor cl c (playlistSongListKey serverId) (listUpdater w itemIdSet)
       @ pendingFor cl c (songsKey serverId ''list'') (listUpdater w itemIdSet)
       @ pendingFor cl c (albumArtistsKey serverId ''topSongs'') (listUpdater w itemIdSet)"

definition ratingPending ::
    "('k, 'c) query_client \<Rightarrow> 'c \<Rightarrow> string \<Rightarrow> LibraryItem \<Rightarrow> string set \<Rightarrow> writer \<Rightarrow> 'k pending_update list" where
  "ratingPending cl c serverId type itemIdSet w =
     (case type of
        ALBUM \<Rightarrow> ratingAlbumUpdates cl c serverId itemIdSet w
      | ALBUM_ARTIST \<Rightarrow> ratingAlbumArtistUpdates cl c serverId itemIdSet w
      | ARTIST \<Rightarrow> ratingArtistUpdates cl c serverId itemIdSet w
      | PLAYLIST_SONG \<Rightarrow> ratingSongUpdates cl c serverId itemIdSet w
      | QUEUE_SONG \<Rightarrow> ratingSongUpdates cl c serverId itemIdSet w
      | SONG \<Rightarrow> ratingSongUpdates cl c serverId itemIdSet w
      | _ \<Rightarrow> [])"

definition applyRatingOptimisticUpdates ::
    "('k, 'c) query_client \<Rightarrow> string \<Rightarrow> string list \<Rightarrow> LibraryItem \<Rightarrow> rat \<Rightarrow> 'c
       \<Rightarrow> 'c \<times> (js_error + 'k previous_query_data)" where
  "applyRatingOptimisticUpdates cl serverId ids type rating c =
     collectAndApplyUpdates cl
       (ratingPending cl c serverId type (set ids) (ratingWriter rating)) c"

section \<open>The deferred variants\<close>

text \<open>
  These return what to restore at once, and rewrite the cache in a microtask: the updater of a query
  is chosen by the type it was collected with.
\<close>

datatype deferred_type =
    AlbumArtistDetail | AlbumDetail | SongDetail
  | AlbumArtistInfiniteList | AlbumInfiniteList | ArtistInfiniteList
  | AlbumArtistInfiniteLoader | AlbumInfiniteLoader | ArtistInfiniteLoader
  | AlbumArtistInfo | AlbumArtistList | AlbumList | ArtistList | PlaylistSongList | SongList | TopSongs

definition collectQueries ::
    "('k, 'c) query_client \<Rightarrow> 'c \<Rightarrow> string list \<times> deferred_type \<Rightarrow> ('k \<times> qdata \<times> deferred_type) list" where
  "collectQueries cl c base =
     List.map_filter (\<lambda>(queryKey, data). case data of
         Some d \<Rightarrow> Some (queryKey, d, snd base) | None \<Rightarrow> None) (getQueriesData cl (fst base) c)"

definition favoriteDeferredKeys :: "string \<Rightarrow> LibraryItem \<Rightarrow> (string list \<times> deferred_type) list" where
  "favoriteDeferredKeys serverId type =
     (let songKeys =
        [(albumsKey serverId ''detail'', AlbumDetail), (songsKey serverId ''detail'', SongDetail),
         (playlistSongListKey serverId, PlaylistSongList), (songsKey serverId ''list'', SongList),
         (albumArtistsKey serverId ''topSongs'', TopSongs)]
      in case type of
        ALBUM \<Rightarrow>
          [(albumsKey serverId ''detail'', AlbumDetail), (albumsKey serverId ''list'', AlbumList),
           (albumsKey serverId ''infiniteList'', AlbumInfiniteList),
           (infiniteLoaderDataQueryKey serverId ''album'', AlbumInfiniteLoader)]
      | ALBUM_ARTIST \<Rightarrow>
          [(albumArtistsKey serverId ''detail'', AlbumArtistDetail),
           (albumArtistsKey serverId ''info'', AlbumArtistInfo),
           (albumArtistsKey serverId ''list'', AlbumArtistList),
           (albumArtistsKey serverId ''infiniteList'', AlbumArtistInfiniteList),
           (infiniteLoaderDataQueryKey serverId ''albumArtist'', AlbumArtistInfiniteLoader)]
      | ARTIST \<Rightarrow>
          [(artistsKey serverId ''list'', ArtistList), (artistsKey serverId ''infiniteList'', ArtistInfiniteList),
           (infiniteLoaderDataQueryKey serverId ''artist'', ArtistInfiniteLoader)]
      | PLAYLIST_SONG \<Rightarrow> songKeys | QUEUE_SONG \<Rightarrow> songKeys | SONG \<Rightarrow> songKeys
      | _ \<Rightarrow> [])"

definition ratingDeferredKeys :: "string \<Rightarrow> LibraryItem \<Rightarrow> (string list \<times> deferred_type) list" where
  "ratingDeferredKeys serverId type =
     (let songKeys =
        [(albumsKey serverId ''detail'', AlbumDetail), (songsKey serverId ''detail'', SongDetail),
         (songsKey serverId ''list'', SongList), (albumArtistsKey serverId ''topSongs'', TopSongs)]
      in case type of
        ALBUM \<Rightarrow>
          [(albumsKey serverId ''detail'', AlbumDetail), (albumsKey serverId ''list'', AlbumList),
           (albumsKey serverId ''infiniteList'', AlbumInfiniteList),
           ([serverId, ''item-list-infinite-loader'', ''album''], AlbumInfiniteLoader)]
      | ALBUM_ARTIST \<Rightarrow>
          [(albumArtistsKey serverId ''detail'', AlbumArtistDetail),
           (albumArtistsKey serverId ''info'', AlbumArtistInfo),
           (albumArtistsKey serverId ''list'', AlbumArtistList),
           (albumArtistsKey serverId ''infiniteList'', AlbumArtistInfiniteList),
           ([serverId, ''item-list-infinite-loader'', ''albumArtist''], AlbumArtistInfiniteLoader)]
      | ARTIST \<Rightarrow>
          [(artistsKey serverId ''list'', ArtistList), (artistsKey serverId ''infiniteList'', ArtistInfiniteList),
           ([serverId, ''item-list-infinite-loader'', ''artist''], ArtistInfiniteLoader)]
      | PLAYLIST_SONG \<Rightarrow> songKeys | QUEUE_SONG \<Rightarrow> songKeys | SONG \<Rightarrow> songKeys
      | _ \<Rightarrow> [])"

text \<open>The branches for pages, rows and items use an empty array when the property is missing.\<close>

definition deferredPages :: "writer \<Rightarrow> string set \<Rightarrow> qdata \<Rightarrow> js_error + qdata option" where
  "deferredPages w itemIdSet d =
     (case updateItemsInPages (nullish_or (qd_pages d) []) itemIdSet (wr_item w) of
        Inl e \<Rightarrow> Inl e
      | Inr (Some updatedPages) \<Rightarrow> Inr (Some (d\<lparr>qd_pages := Some updatedPages\<rparr>))
      | Inr None \<Rightarrow> Inr (Some d))"

definition deferredItems :: "writer \<Rightarrow> string set \<Rightarrow> qdata \<Rightarrow> js_error + qdata option" where
  "deferredItems w itemIdSet d =
     (case updateItemInArray (Some (nullish_or (qd_items d) [])) itemIdSet (wr_item w) of
        Inl e \<Rightarrow> Inl e
      | Inr (Some updatedItems) \<Rightarrow> Inr (Some (d\<lparr>qd_items := Some updatedItems\<rparr>))
      | Inr None \<Rightarrow> Inr (Some d))"

definition deferredSimilarArtists :: "writer \<Rightarrow> string set \<Rightarrow> qdata \<Rightarrow> js_error + qdata option" where
  "deferredSimilarArtists w itemIdSet d =
     (if qd_similarArtists d = None then Inr (Some d)
      else
        (case updateItemInArray (qd_similarArtists d) itemIdSet (wr_item w) of
           Inl e \<Rightarrow> Inl e
         | Inr (Some updated) \<Rightarrow> Inr (Some (d\<lparr>qd_similarArtists := Some updated\<rparr>))
         | Inr None \<Rightarrow> Inr (Some d)))"

fun favoriteDeferredUpdater :: "writer \<Rightarrow> string set \<Rightarrow> deferred_type \<Rightarrow> updater" where
  "favoriteDeferredUpdater w itemIdSet type None = Inr None"
| "favoriteDeferredUpdater w itemIdSet type (Some d) =
     (if type \<in> {AlbumArtistDetail, AlbumDetail, SongDetail} then
        (if qd_id d \<in> Some ` itemIdSet then Inr (Some (wr_detail w d))
         else deferredSimilarArtists w itemIdSet d)
      else if type \<in> {AlbumArtistInfiniteList, AlbumInfiniteList, ArtistInfiniteList} then
        deferredPages w itemIdSet d
      else if type \<in> {AlbumArtistInfiniteLoader, AlbumInfiniteLoader, ArtistInfiniteLoader} then
        infiniteLoaderUpdater w itemIdSet (Some d)
      else if type \<in> {AlbumArtistList, AlbumList, ArtistList, PlaylistSongList, SongList, TopSongs} then
        deferredItems w itemIdSet d
      else Inr (Some d))"

fun ratingDeferredUpdater :: "writer \<Rightarrow> string set \<Rightarrow> deferred_type \<Rightarrow> updater" where
  "ratingDeferredUpdater w itemIdSet type None = Inr None"
| "ratingDeferredUpdater w itemIdSet type (Some d) =
     (if type \<in> {AlbumArtistDetail, AlbumDetail, SongDetail} then
        Inr (Some (if qd_id d \<in> Some ` itemIdSet then wr_detail w d else d))
      else if type \<in> {AlbumArtistInfiniteList, AlbumInfiniteList, ArtistInfiniteList} then
        deferredPages w itemIdSet d
      else if type \<in> {AlbumArtistInfiniteLoader, AlbumInfiniteLoader, ArtistInfiniteLoader} then
        infiniteLoaderUpdater w itemIdSet (Some d)
      else if type = AlbumArtistInfo then artistInfoUpdater w itemIdSet (Some d)
      else if type \<in> {AlbumArtistList, AlbumList, ArtistList, SongList, TopSongs} then
        deferredItems w itemIdSet d
      else Inr (Some d))"

text \<open>The microtask: the cache after it, and the type error that ended it early, if any.\<close>

fun runMicrotask ::
    "('k, 'c) query_client \<Rightarrow> (deferred_type \<Rightarrow> updater) \<Rightarrow> ('k \<times> qdata \<times> deferred_type) list \<Rightarrow> 'c
       \<Rightarrow> 'c \<times> js_error option" where
  "runMicrotask cl u [] c = (c, None)"
| "runMicrotask cl u ((queryKey, d, type) # rest) c =
     (case u type (getQueryData cl queryKey c) of
        Inl e \<Rightarrow> (c, Some e)
      | Inr d' \<Rightarrow> runMicrotask cl u rest (setQueryData cl queryKey d' c))"

definition deferredCollect ::
    "('k, 'c) query_client \<Rightarrow> (string list \<times> deferred_type) list \<Rightarrow> 'c \<Rightarrow> ('k \<times> qdata \<times> deferred_type) list" where
  "deferredCollect cl keys c = concat (map (collectQueries cl c) keys)"

text \<open>The previous data, returned at once, and the microtask that is queued.\<close>

definition applyFavoriteOptimisticUpdatesDeferred ::
    "('k, 'c) query_client \<Rightarrow> string \<Rightarrow> string list \<Rightarrow> LibraryItem \<Rightarrow> bool \<Rightarrow> 'c
       \<Rightarrow> 'k previous_query_data \<times> ('c \<Rightarrow> 'c \<times> js_error option)" where
  "applyFavoriteOptimisticUpdatesDeferred cl serverId ids type isFavorite c =
     (let queryKeysToUpdate = deferredCollect cl (favoriteDeferredKeys serverId type) c
      in (map (\<lambda>(k, d, t). (k, d)) queryKeysToUpdate,
          runMicrotask cl (favoriteDeferredUpdater (favoriteWriter isFavorite) (set ids)) queryKeysToUpdate))"

definition applyRatingOptimisticUpdatesDeferred ::
    "('k, 'c) query_client \<Rightarrow> string \<Rightarrow> string list \<Rightarrow> LibraryItem \<Rightarrow> rat \<Rightarrow> 'c
       \<Rightarrow> 'k previous_query_data \<times> ('c \<Rightarrow> 'c \<times> js_error option)" where
  "applyRatingOptimisticUpdatesDeferred cl serverId ids type rating c =
     (let queryKeysToUpdate = deferredCollect cl (ratingDeferredKeys serverId type) c
      in (map (\<lambda>(k, d, t). (k, d)) queryKeysToUpdate,
          runMicrotask cl (ratingDeferredUpdater (ratingWriter rating) (set ids)) queryKeysToUpdate))"

section \<open>Restoring\<close>

lemma client_lookup:
  "client_ok cl \<Longrightarrow> getQueryData cl k' (setQueryData cl k d c) =
     (if k' = k \<and> d \<noteq> None then d else getQueryData cl k' c)"
  unfolding client_ok_def by blast

lemma client_query: "client_ok cl \<Longrightarrow> (k, d) \<in> set (getQueriesData cl base c) \<Longrightarrow> getQueryData cl k c = d"
  unfolding client_ok_def by fastforce

lemma in_map_filter: "y \<in> set (List.map_filter f xs) \<longleftrightarrow> (\<exists>x \<in> set xs. f x = Some y)"
  by (induction xs) (auto simp: map_filter_simps split: option.splits)

text \<open>The pending updates remember the data that their keys hold.\<close>

definition remembers :: "('k, 'c) query_client \<Rightarrow> 'c \<Rightarrow> 'k pending_update list \<Rightarrow> bool" where
  "remembers cl c ps = (\<forall>p \<in> set ps. getQueryData cl (pu_queryKey p) c = Some (pu_previousData p))"

lemma remembers_pendingFor: "client_ok cl \<Longrightarrow> remembers cl c (pendingFor cl c base u)"
proof -
  assume ok: "client_ok cl"
  have "getQueryData cl (pu_queryKey p) c = Some (pu_previousData p)"
    if "p \<in> set (pendingFor cl c base u)" for p
  proof -
    from that obtain k d where "(k, d) \<in> set (getQueriesData cl base c)"
      "(case d of Some d \<Rightarrow> Some \<lparr>pu_previousData = d, pu_queryKey = k, pu_updater = u\<rparr>
         | None \<Rightarrow> None) = Some p"
      by (auto simp: pendingFor_def in_map_filter)
    with client_query [OF ok] show ?thesis by (cases d) auto
  qed
  then show ?thesis by (simp add: remembers_def)
qed

lemma remembers_append [simp]: "remembers cl c (ps @ qs) \<longleftrightarrow> remembers cl c ps \<and> remembers cl c qs"
  by (auto simp: remembers_def)

lemma remembers_favorite: "client_ok cl \<Longrightarrow> remembers cl c (favoritePending cl c s type ids w)"
  by (cases type) (simp_all add: favoritePending_def favoriteAlbumUpdates_def favoriteAlbumArtistUpdates_def
      favoriteArtistUpdates_def favoriteSongUpdates_def remembers_pendingFor, simp_all add: remembers_def)

lemma remembers_rating: "client_ok cl \<Longrightarrow> remembers cl c (ratingPending cl c s type ids w)"
  by (cases type) (simp_all add: ratingPending_def ratingAlbumUpdates_def ratingAlbumArtistUpdates_def
      ratingArtistUpdates_def ratingSongUpdates_def remembers_pendingFor, simp_all add: remembers_def)

lemma apply_success:
  assumes "client_ok cl" and "collectAndApplyUpdates cl ps c = (c', Inr prev)"
  shows "prev = map (\<lambda>p. (pu_queryKey p, pu_previousData p)) ps
    \<and> (\<forall>k. k \<notin> pu_queryKey ` set ps \<longrightarrow> getQueryData cl k c' = getQueryData cl k c)"
  using assms(2)
proof (induction ps arbitrary: c prev)
  case (Cons p ps)
  obtain d where d: "pu_updater p (getQueryData cl (pu_queryKey p) c) = Inr d"
    using Cons.prems by (cases "pu_updater p (getQueryData cl (pu_queryKey p) c)") auto
  obtain prev' where p': "collectAndApplyUpdates cl ps (setQueryData cl (pu_queryKey p) d c) = (c', Inr prev')"
    "prev = (pu_queryKey p, pu_previousData p) # prev'"
    using Cons.prems d by (auto split: prod.splits sum.splits)
  from Cons.IH [OF p'(1)] show ?case
    using p'(2) by (auto simp: client_lookup [OF assms(1)])
qed simp

lemma restore_other:
  "client_ok cl \<Longrightarrow> k \<notin> fst ` set prev \<Longrightarrow>
     getQueryData cl k (restoreQueryData cl prev c) = getQueryData cl k c"
  by (induction prev arbitrary: c) (auto simp: restoreQueryData_def client_lookup)

lemma restore_consistent:
  "client_ok cl \<Longrightarrow> \<forall>(k', d) \<in> set prev. k' = k \<longrightarrow> d = v \<Longrightarrow> k \<in> fst ` set prev \<Longrightarrow>
     getQueryData cl k (restoreQueryData cl prev c) = Some v"
proof (induction prev arbitrary: c)
  case (Cons q prev)
  obtain k' d where q: "q = (k', d)" by (cases q)
  show ?case
  proof (cases "k \<in> fst ` set prev")
    case True
    with Cons show ?thesis by (simp add: q restoreQueryData_def)
  next
    case False
    then have k: "k' = k" using Cons.prems(3) by (simp add: q)
    then have "d = v" using Cons.prems(2) by (simp add: q)
    with k False restore_other [OF Cons.prems(1) False, of "setQueryData cl k' (Some d) c"]
    show ?thesis by (simp add: q restoreQueryData_def client_lookup [OF Cons.prems(1)])
  qed
qed simp

lemma restore_after_apply:
  assumes "client_ok cl" and "remembers cl c ps" and "collectAndApplyUpdates cl ps c = (c', Inr prev)"
  shows "getQueryData cl k (restoreQueryData cl prev c') = getQueryData cl k c"
proof -
  have prev: "prev = map (\<lambda>p. (pu_queryKey p, pu_previousData p)) ps"
    and rest: "k \<notin> pu_queryKey ` set ps \<Longrightarrow> getQueryData cl k c' = getQueryData cl k c"
    using apply_success [OF assms(1,3)] by blast+
  show ?thesis
  proof (cases "k \<in> pu_queryKey ` set ps")
    case True
    then obtain p where p: "p \<in> set ps" "pu_queryKey p = k" by blast
    have "getQueryData cl k (restoreQueryData cl prev c') = Some (pu_previousData p)"
    proof (rule restore_consistent [OF assms(1)])
      show "k \<in> fst ` set prev" using True by (force simp: prev)
      show "\<forall>(k', d) \<in> set prev. k' = k \<longrightarrow> d = pu_previousData p"
        using assms(2) p by (auto simp: prev remembers_def) (metis option.inject)
    qed
    moreover have "getQueryData cl k c = Some (pu_previousData p)" using assms(2) p by (auto simp: remembers_def)
    ultimately show ?thesis by simp
  next
    case False
    then have "k \<notin> fst ` set prev" by (auto simp: prev)
    with restore_other [OF assms(1)] rest [OF False] show ?thesis by metis
  qed
qed

section \<open>A query client for the examples\<close>

text \<open>A cache as an association list whose keys are lists of strings, matched by prefix.\<close>

type_synonym alist_cache = "(string list \<times> qdata option) list"

definition alistClient :: "(string list, alist_cache) query_client" where
  "alistClient = \<lparr>
     getQueriesData = (\<lambda>base c. map (\<lambda>k. (k, Option.bind (map_of c k) id))
       (filter (\<lambda>k. take (length base) k = base) (remdups (map fst c)))),
     getQueryData = (\<lambda>k c. Option.bind (map_of c k) id),
     setQueryData = (\<lambda>k d c. case d of None \<Rightarrow> c | Some x \<Rightarrow> AList.update k (Some x) c)\<rparr>"

lemma alistClient_ok: "client_ok alistClient"
  by (auto simp: client_ok_def alistClient_def update_conv' split: option.splits)

definition exampleItem :: "string \<Rightarrow> q_item" where
  "exampleItem k = \<lparr>qi_id = k, qi_userFavorite = None, qi_userRating = None, qi_rest = ''''\<rparr>"

definition emptyData :: qdata where
  "emptyData = \<lparr>qd_id = None, qd_userFavorite = None, qd_userRating = None, qd_songs = None,
     qd_similarArtists = None, qd_items = None, qd_pages = None, qd_data = None, qd_rest = ''''\<rparr>"

lemma microtask_other:
  "client_ok cl \<Longrightarrow> k \<notin> fst ` set qs \<Longrightarrow>
     getQueryData cl k (fst (runMicrotask cl u qs c)) = getQueryData cl k c"
  by (induction cl u qs c rule: runMicrotask.induct) (auto simp: client_lookup split: sum.splits)

lemma collected_holds:
  "client_ok cl \<Longrightarrow> (k, d, t) \<in> set (deferredCollect cl keys c) \<Longrightarrow> getQueryData cl k c = Some d"
proof -
  assume ok: "client_ok cl" and "(k, d, t) \<in> set (deferredCollect cl keys c)"
  then obtain base d' where "(k, d') \<in> set (getQueriesData cl base c)"
    "(case d' of Some d \<Rightarrow> Some (k, d, t) | None \<Rightarrow> None) = Some (k, d, t)"
    by (auto simp: deferredCollect_def collectQueries_def in_map_filter split: option.splits)
  with client_query [OF ok] show ?thesis by (cases d') auto
qed

lemma restore_after_microtask:
  assumes "client_ok cl" and "qs = deferredCollect cl keys c"
  shows "getQueryData cl k (restoreQueryData cl (map (\<lambda>(k, d, t). (k, d)) qs) (fst (runMicrotask cl u qs c)))
    = getQueryData cl k c"
proof (cases "k \<in> fst ` set qs")
  case True
  then obtain d t where d: "(k, d, t) \<in> set qs" by auto
  have holds: "\<And>d t. (k, d, t) \<in> set qs \<Longrightarrow> getQueryData cl k c = Some d"
    using collected_holds [OF assms(1)] assms(2) by blast
  have "getQueryData cl k (restoreQueryData cl (map (\<lambda>(k, d, t). (k, d)) qs) (fst (runMicrotask cl u qs c)))
      = Some d"
  proof (rule restore_consistent [OF assms(1)])
    show "\<forall>(k', d') \<in> set (map (\<lambda>(k, d, t). (k, d)) qs). k' = k \<longrightarrow> d' = d"
    proof (intro ballI, clarify)
      fix k' d'
      assume "(k, d') \<in> set (map (\<lambda>(k, d, t). (k, d)) qs)"
      then obtain t' where "(k, d', t') \<in> set qs" by auto
      from holds [OF this] holds [OF d] show "d' = d" by simp
    qed
    show "k \<in> fst ` set (map (\<lambda>(k, d, t). (k, d)) qs)" using d by force
  qed
  with holds [OF d] show ?thesis by simp
next
  case False
  moreover from False have "k \<notin> fst ` set (map (\<lambda>(k, d, t). (k, d)) qs)" by force
  ultimately show ?thesis by (simp add: restore_other [OF assms(1)] microtask_other [OF assms(1)])
qed

lemma apply_distinct:
  assumes "client_ok cl" and "collectAndApplyUpdates cl ps c = (c', Inr prev)"
    and "distinct (map pu_queryKey ps)" and "p \<in> set ps"
    and "pu_updater p (getQueryData cl (pu_queryKey p) c) = Inr (Some d)"
  shows "getQueryData cl (pu_queryKey p) c' = Some d"
  using assms(2-)
proof (induction ps arbitrary: c prev)
  case (Cons q qs)
  obtain e where e: "pu_updater q (getQueryData cl (pu_queryKey q) c) = Inr e"
    using Cons.prems(1) by (cases "pu_updater q (getQueryData cl (pu_queryKey q) c)") auto
  obtain prev' where r: "collectAndApplyUpdates cl qs (setQueryData cl (pu_queryKey q) e c) = (c', Inr prev')"
    using Cons.prems(1) e by (auto split: prod.splits sum.splits)
  show ?case
  proof (cases "p = q")
    case True
    then have "pu_queryKey p \<notin> pu_queryKey ` set qs" using Cons.prems(2) by auto
    with apply_success [OF assms(1) r] True e Cons.prems(4) show ?thesis
      by (auto simp: client_lookup [OF assms(1)])
  next
    case False
    then have "p \<in> set qs" "pu_queryKey p \<noteq> pu_queryKey q"
      using Cons.prems(2,3) by (auto simp: image_iff)
    then show ?thesis using Cons.IH [OF r] Cons.prems(2,4) by (simp add: client_lookup [OF assms(1)])
  qed
qed simp

section \<open>Properties\<close>

text \<open>C14: After an optimistic favourite update (applied at once, or collected at once and applied in a
  microtask), restoring from the data it returned leaves every cached query with the data it had
  before, whatever queries matched.\<close>

theorem favorite_restore_undoes_update:
  assumes "client_ok cl"
  shows "(case applyFavoriteOptimisticUpdates cl s ids type isFavorite c of
            (c', Inr prev) \<Rightarrow> getQueryData cl k (restoreFavoriteQueryData cl prev c') = getQueryData cl k c
          | (c', Inl e) \<Rightarrow> True)
    \<and> (case applyFavoriteOptimisticUpdatesDeferred cl s ids type isFavorite c of
         (prev, task) \<Rightarrow>
           getQueryData cl k (restoreFavoriteQueryData cl prev (fst (task c))) = getQueryData cl k c)"
  using restore_after_apply [OF assms remembers_favorite [OF assms]]
    restore_after_microtask [OF assms refl]
  by (auto simp: applyFavoriteOptimisticUpdates_def applyFavoriteOptimisticUpdatesDeferred_def
      restoreFavoriteQueryData_def Let_def split: prod.splits sum.splits)

text \<open>The same for an optimistic rating update.\<close>

theorem rating_restore_undoes_update:
  assumes "client_ok cl"
  shows "(case applyRatingOptimisticUpdates cl s ids type rating c of
            (c', Inr prev) \<Rightarrow> getQueryData cl k (restoreRatingQueryData cl prev c') = getQueryData cl k c
          | (c', Inl e) \<Rightarrow> True)
    \<and> (case applyRatingOptimisticUpdatesDeferred cl s ids type rating c of
         (prev, task) \<Rightarrow>
           getQueryData cl k (restoreRatingQueryData cl prev (fst (task c))) = getQueryData cl k c)"
  using restore_after_apply [OF assms remembers_rating [OF assms]]
    restore_after_microtask [OF assms refl]
  by (auto simp: applyRatingOptimisticUpdates_def applyRatingOptimisticUpdatesDeferred_def
      restoreRatingQueryData_def Let_def split: prod.splits sum.splits)

lemma wr_item_favorite: "wr_item (favoriteWriter b) x = x\<lparr>qi_userFavorite := Some b\<rparr>"
  by (simp add: favoriteWriter_def)

lemma unmarked_items:
  "None \<notin> set items \<Longrightarrow> \<forall>x \<in> set items. qi_id (the x) \<notin> ids \<Longrightarrow>
     map (map_option (\<lambda>item. if qi_id item \<in> ids then u item else item)) items = items"
proof (induction items)
  case (Cons x items)
  then show ?case by (cases x) simp_all
qed simp

lemma list_updater_marks:
  assumes "qd_items d = Some items" and "None \<notin> set items"
  shows "listUpdater w ids (Some d) = Inr (Some (d\<lparr>qd_items := Some (map (map_option
       (\<lambda>item. if qi_id item \<in> ids then wr_item w item else item)) items)\<rparr>))"
proof (cases "\<exists>x \<in> set items. qi_id (the x) \<in> ids")
  case False
  have "d\<lparr>qd_items := Some items\<rparr> = d" using assms(1) by (cases d) simp
  then show ?thesis using assms False by (simp add: listUpdater_def unmarked_items)
qed (simp add: listUpdater_def assms)

text \<open>Writing again with the same property: the second write decides, and ids are kept.\<close>

definition overwrites :: "writer \<Rightarrow> writer \<Rightarrow> bool" where
  "overwrites w2 w1 = (\<forall>x. wr_item w2 (wr_item w1 x) = wr_item w2 x \<and> qi_id (wr_item w1 x) = qi_id x)"

lemma overwrites_writers:
  "overwrites (favoriteWriter b) (favoriteWriter a)" "overwrites (ratingWriter r) (ratingWriter q)"
  by (simp_all add: overwrites_def favoriteWriter_def ratingWriter_def)

lemma array_changes:
  "updateItemInArray xs ids u = Inr r \<Longrightarrow>
     \<exists>items. xs = Some items \<and> None \<notin> set items
       \<and> (r = None \<longleftrightarrow> (\<forall>x \<in> set items. qi_id (the x) \<notin> ids))
       \<and> (r \<noteq> None \<longrightarrow> r = Some (map (map_option (\<lambda>x. if qi_id x \<in> ids then u x else x)) items))"
  by (cases xs) (auto split: if_splits)

lemma array_again:
  assumes "overwrites w2 w1" and "updateItemInArray xs ids (wr_item w1) = Inr (Some ys)"
  shows "updateItemInArray (Some ys) ids (wr_item w2) = updateItemInArray xs ids (wr_item w2)"
proof -
  obtain items where i: "xs = Some items" "None \<notin> set items" "\<exists>x \<in> set items. qi_id (the x) \<in> ids"
    and ys: "ys = map (map_option (\<lambda>x. if qi_id x \<in> ids then wr_item w1 x else x)) items"
    using array_changes [OF assms(2)] by auto
  have id: "qi_id (the (map_option (\<lambda>x. if qi_id x \<in> ids then wr_item w1 x else x) y)) = qi_id (the y)"
    if "y \<in> set items" for y
  proof -
    from that i(2) have "y \<noteq> None" by metis
    with assms(1) show ?thesis by (auto simp: overwrites_def)
  qed
  have none: "None \<notin> set ys" using i(2) by (auto simp: ys)
  have hit: "\<exists>x \<in> set ys. qi_id (the x) \<in> ids" using i(3) id by (auto simp: ys)
  have "map (map_option (\<lambda>x. if qi_id x \<in> ids then wr_item w2 x else x)) ys
      = map (map_option (\<lambda>x. if qi_id x \<in> ids then wr_item w2 x else x)) items"
    using assms(1) by (simp add: ys option.map_comp comp_def overwrites_def if_distrib cong: if_cong)
  then show ?thesis using i none hit by simp
qed

lemma page_again:
  assumes "overwrites w2 w1" and "updatePage ids (wr_item w1) page = Inr (ch, page')"
  shows "updatePage ids (wr_item w2) page' = updatePage ids (wr_item w2) page \<and> (page' = None \<longleftrightarrow> page = None)
    \<and> (ch \<longrightarrow> (\<exists>q. updatePage ids (wr_item w2) page = Inr (True, q))) \<and> (\<not> ch \<longrightarrow> page' = page)"
proof (cases page)
  case (Some pg)
  from assms(2) obtain r where r: "updateItemInArray (pg_items pg) ids (wr_item w1) = Inr r"
    by (cases "updateItemInArray (pg_items pg) ids (wr_item w1)") (auto simp: Some)
  show ?thesis
  proof (cases r)
    case None
    with assms(2) r show ?thesis by (simp add: Some)
  next
    case (Some ys)
    have "\<exists>zs. updateItemInArray (pg_items pg) ids (wr_item w2) = Inr (Some zs)"
      using array_changes [OF r] Some by auto
    then show ?thesis using assms(2) r Some array_again [OF assms(1), of "pg_items pg" ids ys] \<open>page = Some pg\<close>
      by auto
  qed
qed (use assms(2) in simp)

lemma pages_again:
  assumes "overwrites w2 w1" and "updatePagesLoop ids (wr_item w1) ps = Inr (ch, ps')"
  shows "updatePagesLoop ids (wr_item w2) ps' = updatePagesLoop ids (wr_item w2) ps
    \<and> (None \<notin> set ps \<longrightarrow> None \<notin> set ps') \<and> (\<not> ch \<longrightarrow> ps' = ps)
    \<and> (ch \<longrightarrow> (\<forall>chs qs. updatePagesLoop ids (wr_item w2) ps = Inr (chs, qs) \<longrightarrow> chs))"
  using assms(2)
proof (induction ps arbitrary: ch ps')
  case (Cons p ps)
  obtain c1 p' where p: "updatePage ids (wr_item w1) p = Inr (c1, p')"
    using Cons.prems by (cases "updatePage ids (wr_item w1) p") auto
  obtain c2 qs where q: "updatePagesLoop ids (wr_item w1) ps = Inr (c2, qs)"
    "ch = (c1 \<or> c2)" "ps' = p' # qs"
    using Cons.prems p by (cases "updatePagesLoop ids (wr_item w1) ps") auto
  from page_again [OF assms(1) p] Cons.IH [OF q(1)] show ?case
    by (auto simp: q(2,3) split: sum.splits prod.splits)
qed simp

lemma infinite_again:
  assumes "overwrites w2 w1" and "infiniteListUpdater w1 ids (Some d) = Inr (Some d1)"
  shows "infiniteListUpdater w2 ids (Some d1) = infiniteListUpdater w2 ids (Some d)"
proof -
  from assms(2) obtain pages where pages: "qd_pages d = Some pages"
    by (auto simp: infiniteListUpdater_def split: option.splits)
  let ?ps = "filter (\<lambda>p. p \<noteq> None) pages"
  obtain ch ps' where l: "updatePagesLoop ids (wr_item w1) ?ps = Inr (ch, ps')"
    using assms(2) pages
    by (cases "updatePagesLoop ids (wr_item w1) ?ps") (auto simp: infiniteListUpdater_def updateItemsInPages_def)
  note again = pages_again [OF assms(1) l]
  show ?thesis
  proof (cases ch)
    case False
    with assms(2) pages l show ?thesis by (simp add: infiniteListUpdater_def updateItemsInPages_def)
  next
    case True
    with assms(2) pages l have d1: "d1 = d\<lparr>qd_pages := Some ps'\<rparr>"
      by (simp add: infiniteListUpdater_def updateItemsInPages_def)
    have "filter (\<lambda>p. p \<noteq> None) ps' = ps'" using again by (metis (mono_tags, lifting) filter_True mem_Collect_eq set_filter)
    with again True show ?thesis
      by (auto simp: infiniteListUpdater_def updateItemsInPages_def pages d1 split: sum.splits prod.splits)
  qed
qed

text \<open>On an infinite list the last optimistic update of the same property decides: after a successful
  favourite (or rating) update, a second one for the same items gives what it gives on the original
  data, so a repeated update, like the one of the home page queries, which are updated twice, changes nothing more.\<close>

theorem last_update_wins:
  "(\<forall>d1. infiniteListUpdater (favoriteWriter a) ids (Some d) = Inr (Some d1) \<longrightarrow>
      infiniteListUpdater (favoriteWriter b) ids (Some d1) = infiniteListUpdater (favoriteWriter b) ids (Some d))
   \<and> (\<forall>d1. infiniteListUpdater (ratingWriter q) ids (Some d) = Inr (Some d1) \<longrightarrow>
      infiniteListUpdater (ratingWriter r) ids (Some d1) = infiniteListUpdater (ratingWriter r) ids (Some d))"
  using infinite_again overwrites_writers by blast

text \<open>A favourite update of albums that succeeds rewrites every cached album list: exactly the items
  with one of the ids get the favourite flag, in place, and the rest of the query's data is kept. The
  keys of the queries involved are assumed to be distinct.\<close>

theorem favorite_marks_album_lists:
  assumes "client_ok cl"
    and "distinct (map pu_queryKey (favoritePending cl c s ALBUM (set ids) (favoriteWriter isFavorite)))"
    and "applyFavoriteOptimisticUpdates cl s ids ALBUM isFavorite c = (c', Inr prev)"
    and "(k, Some d) \<in> set (getQueriesData cl (albumsKey s ''list'') c)"
    and "qd_items d = Some items" and "None \<notin> set items"
  shows "getQueryData cl k c' = Some (d\<lparr>qd_items := Some (map (map_option
      (\<lambda>item. if qi_id item \<in> set ids then item\<lparr>qi_userFavorite := Some isFavorite\<rparr> else item)) items)\<rparr>)"
proof -
  let ?w = "favoriteWriter isFavorite"
  let ?p = "\<lparr>pu_previousData = d, pu_queryKey = k, pu_updater = listUpdater ?w (set ids)\<rparr>"
  have "?p \<in> set (favoritePending cl c s ALBUM (set ids) ?w)"
    using assms(4) by (force simp: favoritePending_def favoriteAlbumUpdates_def pendingFor_def in_map_filter)
  from apply_distinct [OF assms(1) assms(3) [unfolded applyFavoriteOptimisticUpdates_def] assms(2) this]
  show ?thesis using client_query [OF assms(1,4)] list_updater_marks [OF assms(5,6), of ?w "set ids"]
    by (simp add: wr_item_favorite cong: if_cong)
qed

lemma microtask_unchanged:
  assumes "client_ok cl" and "\<forall>d t. (k, d, t) \<in> set qs \<longrightarrow> (\<forall>prev. u t prev = Inr prev)"
  shows "getQueryData cl k (fst (runMicrotask cl u qs c)) = getQueryData cl k c"
  using assms(2)
proof (induction qs arbitrary: c)
  case (Cons q qs)
  obtain k' d t where q: "q = (k', d, t)" by (cases q)
  have IH: "\<And>c. getQueryData cl k (fst (runMicrotask cl u qs c)) = getQueryData cl k c"
    using Cons by auto
  show ?case
  proof (cases "k' = k")
    case True
    then have "u t (getQueryData cl k c) = Inr (getQueryData cl k c)" using Cons.prems by (simp add: q)
    then show ?thesis using True by (simp add: q IH client_lookup [OF assms(1)])
  next
    case False
    then show ?thesis by (auto simp: q IH client_lookup [OF assms(1)] split: sum.splits)
  qed
qed simp

lemma skipped: "favoriteDeferredUpdater w ids AlbumArtistInfo prev = Inr prev"
  by (cases prev) simp_all

text \<open>The deferred favourite update collects the queries with an album artist's info, and its microtask
  then leaves them as they are (there is no case for their type), while the update that is applied at
  once puts the marked similar artists there. The keys of the queries involved are assumed to be
  distinct.\<close>

theorem deferred_favorite_skips_similar_artists:
  assumes "client_ok cl"
    and "(k, Some d) \<in> set (getQueriesData cl (albumArtistsKey s ''info'') c)"
    and "\<forall>(base, t) \<in> set (favoriteDeferredKeys s ALBUM_ARTIST). t \<noteq> AlbumArtistInfo \<longrightarrow>
      k \<notin> fst ` set (getQueriesData cl base c)"
    and "applyFavoriteOptimisticUpdatesDeferred cl s ids ALBUM_ARTIST isFavorite c = (prev, task)"
    and "distinct (map pu_queryKey (favoritePending cl c s ALBUM_ARTIST (set ids) (favoriteWriter isFavorite)))"
    and "applyFavoriteOptimisticUpdates cl s ids ALBUM_ARTIST isFavorite c = (c', Inr prev')"
    and "artistInfoUpdater (favoriteWriter isFavorite) (set ids) (Some d) = Inr (Some marked)"
  shows "getQueryData cl k (fst (task c)) = Some d \<and> getQueryData cl k c' = Some marked"
proof
  let ?w = "favoriteWriter isFavorite"
  let ?qs = "deferredCollect cl (favoriteDeferredKeys s ALBUM_ARTIST) c"
  have "t = AlbumArtistInfo" if "(k, e, t) \<in> set ?qs" for e t
    using that assms(3) by (force simp: deferredCollect_def collectQueries_def in_map_filter split: option.splits)
  then have "getQueryData cl k (fst (runMicrotask cl (favoriteDeferredUpdater ?w (set ids)) ?qs c)) = getQueryData cl k c"
    
    by (intro microtask_unchanged [OF assms(1)] allI impI) (metis skipped)
  then show "getQueryData cl k (fst (task c)) = Some d"
    using assms(4) client_query [OF assms(1,2)] by (simp add: applyFavoriteOptimisticUpdatesDeferred_def Let_def)
  let ?p = "\<lparr>pu_previousData = d, pu_queryKey = k, pu_updater = artistInfoUpdater ?w (set ids)\<rparr>"
  have "?p \<in> set (favoritePending cl c s ALBUM_ARTIST (set ids) ?w)"
    using assms(2) by (force simp: favoritePending_def favoriteAlbumArtistUpdates_def pendingFor_def in_map_filter)
  from apply_distinct [OF assms(1) assms(6) [unfolded applyFavoriteOptimisticUpdates_def] assms(5) this]
  show "getQueryData cl k c' = Some marked" using client_query [OF assms(1,2)] assms(7) by simp
qed

text \<open>
  The cache of the witnesses: a list of albums, the info of an album artist and an infinite list of
  the home page.
\<close>

definition exampleCache :: alist_cache where
  "exampleCache =
     [([''s'', ''albums'', ''list''], Some (emptyData\<lparr>qd_items := Some [Some (exampleItem ''a''), Some (exampleItem ''b'')]\<rparr>)),
      ([''s'', ''albumArtists'', ''info''], Some (emptyData\<lparr>qd_similarArtists := Some [Some (exampleItem ''a'')]\<rparr>))]"

lemmas example_cache = exampleCache_def alistClient_def albumsKey_def albumArtistsKey_def
  infiniteLoaderDataQueryKey_def emptyData_def exampleItem_def

lemma favorite_restore_undoes_update_witness:
  "getQueryData alistClient [''s'', ''albums'', ''list''] (restoreFavoriteQueryData alistClient
     (fst (applyFavoriteOptimisticUpdatesDeferred alistClient ''s'' [''a''] ALBUM True exampleCache))
     (fst (snd (applyFavoriteOptimisticUpdatesDeferred alistClient ''s'' [''a''] ALBUM True exampleCache) exampleCache)))
   = getQueryData alistClient [''s'', ''albums'', ''list''] exampleCache"
  using favorite_restore_undoes_update [OF alistClient_ok, where s = "''s''" and ids = "[''a'']"
      and type = ALBUM and isFavorite = True and c = exampleCache and k = "[''s'', ''albums'', ''list'']"]
  by (simp add: split_beta)

lemma rating_restore_undoes_update_witness:
  "getQueryData alistClient [''s'', ''albums'', ''list''] (restoreRatingQueryData alistClient
     (fst (applyRatingOptimisticUpdatesDeferred alistClient ''s'' [''a''] ALBUM 5 exampleCache))
     (fst (snd (applyRatingOptimisticUpdatesDeferred alistClient ''s'' [''a''] ALBUM 5 exampleCache) exampleCache)))
   = getQueryData alistClient [''s'', ''albums'', ''list''] exampleCache"
  using rating_restore_undoes_update [OF alistClient_ok, where s = "''s''" and ids = "[''a'']"
      and type = ALBUM and rating = 5 and c = exampleCache and k = "[''s'', ''albums'', ''list'']"]
  by (simp add: split_beta)

lemma example_album_update:
  "favoritePending alistClient exampleCache ''s'' ALBUM {''a''} w =
     [\<lparr>pu_previousData = emptyData\<lparr>qd_items := Some [Some (exampleItem ''a''), Some (exampleItem ''b'')]\<rparr>,
       pu_queryKey = [''s'', ''albums'', ''list''], pu_updater = listUpdater w {''a''}\<rparr>]"
  by (simp add: favoritePending_def favoriteAlbumUpdates_def pendingFor_def example_cache map_filter_simps)

lemma example_artist_update:
  "favoritePending alistClient exampleCache ''s'' ALBUM_ARTIST {''a''} w =
     [\<lparr>pu_previousData = emptyData\<lparr>qd_similarArtists := Some [Some (exampleItem ''a'')]\<rparr>,
       pu_queryKey = [''s'', ''albumArtists'', ''info''], pu_updater = artistInfoUpdater w {''a''}\<rparr>]"
  by (simp add: favoritePending_def favoriteAlbumArtistUpdates_def pendingFor_def example_cache map_filter_simps)

lemma last_update_wins_witness:
  "infiniteListUpdater (favoriteWriter False) {''a''} (Some (emptyData\<lparr>qd_pages := Some
      [Some \<lparr>pg_items = Some [Some (exampleItem ''a'')], pg_rest = ''''\<rparr>]\<rparr>))
   = infiniteListUpdater (favoriteWriter False) {''a''} (Some (emptyData\<lparr>qd_pages := Some
      [Some \<lparr>pg_items = Some [Some (exampleItem ''a''\<lparr>qi_userFavorite := Some True\<rparr>)], pg_rest = ''''\<rparr>]\<rparr>))"
proof -
  let ?d = "\<lambda>x. emptyData\<lparr>qd_pages := Some [Some \<lparr>pg_items = Some [Some x], pg_rest = ''''\<rparr>]\<rparr>"
  have "infiniteListUpdater (favoriteWriter True) {''a''} (Some (?d (exampleItem ''a'')))
      = Inr (Some (?d (exampleItem ''a''\<lparr>qi_userFavorite := Some True\<rparr>)))"
    by (simp add: infiniteListUpdater_def updateItemsInPages_def exampleItem_def emptyData_def favoriteWriter_def)
  with last_update_wins [of True "{''a''}" "?d (exampleItem ''a'')" False] show ?thesis by auto
qed

lemma favorite_marks_album_lists_witness:
  "\<exists>d. getQueryData alistClient [''s'', ''albums'', ''list'']
      (fst (applyFavoriteOptimisticUpdates alistClient ''s'' [''a''] ALBUM True exampleCache)) = Some d
    \<and> qd_items d = Some [Some (exampleItem ''a''\<lparr>qi_userFavorite := Some True\<rparr>), Some (exampleItem ''b'')]"
proof -
  obtain c' prev where r: "applyFavoriteOptimisticUpdates alistClient ''s'' [''a''] ALBUM True exampleCache = (c', Inr prev)"
    by (simp add: applyFavoriteOptimisticUpdates_def example_album_update, simp add: example_cache listUpdater_def)
  show ?thesis
    using favorite_marks_album_lists [OF alistClient_ok _ r, of "[''s'', ''albums'', ''list'']"
        "emptyData\<lparr>qd_items := Some [Some (exampleItem ''a''), Some (exampleItem ''b'')]\<rparr>"]
    by (simp add: example_album_update r, simp add: example_cache)
qed

lemma deferred_favorite_skips_similar_artists_witness:
  "getQueryData alistClient [''s'', ''albumArtists'', ''info'']
     (fst (snd (applyFavoriteOptimisticUpdatesDeferred alistClient ''s'' [''a''] ALBUM_ARTIST True exampleCache) exampleCache))
   \<noteq> getQueryData alistClient [''s'', ''albumArtists'', ''info'']
     (fst (applyFavoriteOptimisticUpdates alistClient ''s'' [''a''] ALBUM_ARTIST True exampleCache))"
proof -
  let ?d = "\<lambda>x. emptyData\<lparr>qd_similarArtists := Some [Some x]\<rparr>"
  obtain c' prev' where r: "applyFavoriteOptimisticUpdates alistClient ''s'' [''a''] ALBUM_ARTIST True exampleCache = (c', Inr prev')"
    by (simp add: applyFavoriteOptimisticUpdates_def example_artist_update, simp add: example_cache artistInfoUpdater_def)
  obtain prev task where t: "applyFavoriteOptimisticUpdatesDeferred alistClient ''s'' [''a''] ALBUM_ARTIST True exampleCache = (prev, task)"
    by (cases "applyFavoriteOptimisticUpdatesDeferred alistClient ''s'' [''a''] ALBUM_ARTIST True exampleCache")
  have "artistInfoUpdater (favoriteWriter True) (set [''a'']) (Some (?d (exampleItem ''a'')))
      = Inr (Some (?d (exampleItem ''a''\<lparr>qi_userFavorite := Some True\<rparr>)))"
    by (simp add: artistInfoUpdater_def exampleItem_def emptyData_def favoriteWriter_def)
  from deferred_favorite_skips_similar_artists [OF alistClient_ok _ _ t _ r this, of "[''s'', ''albumArtists'', ''info'']"]
  have "getQueryData alistClient [''s'', ''albumArtists'', ''info''] (fst (task exampleCache)) = Some (?d (exampleItem ''a''))
    \<and> getQueryData alistClient [''s'', ''albumArtists'', ''info''] c' = Some (?d (exampleItem ''a''\<lparr>qi_userFavorite := Some True\<rparr>))"
    by (simp add: example_artist_update, simp add: example_cache favoriteDeferredKeys_def)
  then show ?thesis by (simp add: t r, simp add: example_cache)
qed

end
