(* ===== verification/JsText.thy ===== *)
theory JsText
  imports Prelude
begin

text \<open>
  Characters and numbers in texts: digits and white space of one byte, trimming, the number that a run of
  digits denotes (\<open>parseInt\<close> with radix 10), and decimal notation with and without leading zeros.
\<close>

definition isDigit :: "char \<Rightarrow> bool" where
  "isDigit c = (48 \<le> (of_char c :: nat) \<and> (of_char c :: nat) \<le> 57)"

definition isWhite :: "char \<Rightarrow> bool" where
  "isWhite c = (of_char c \<in> {9 :: nat, 10, 11, 12, 13, 32, 160})"

definition trim :: "string \<Rightarrow> string" where
  "trim s = rev (dropWhile isWhite (rev (dropWhile isWhite s)))"

definition digitOf :: "nat \<Rightarrow> char" where
  "digitOf d = char_of (48 + d)"

definition digitValue :: "char \<Rightarrow> nat" where
  "digitValue c = of_char c - 48"

definition numberOf :: "string \<Rightarrow> nat" where
  "numberOf ds = foldl (\<lambda>n c. n * 10 + digitValue c) 0 ds"

fun decimal :: "nat \<Rightarrow> string" where
  "decimal n = (if n < 10 then [digitOf n] else decimal (n div 10) @ [digitOf (n mod 10)])"

declare decimal.simps [simp del]

definition padZeros :: "nat \<Rightarrow> string \<Rightarrow> string" where
  "padZeros w s = replicate (w - length s) CHR ''0'' @ s"

lemma digitOf [simp]:
  assumes "d < 10"
  shows "isDigit (digitOf d)" and "digitValue (digitOf d) = d"
  using assms by (simp_all add: isDigit_def digitOf_def digitValue_def)

lemma digit_zero [simp]: "isDigit CHR ''0''" "digitValue CHR ''0'' = 0"
  by (simp_all add: isDigit_def digitValue_def)

lemma numberOf_append: "numberOf (ds @ [c]) = numberOf ds * 10 + digitValue c"
  by (simp add: numberOf_def)

lemma decimal_digits: "list_all isDigit (decimal n)"
proof (induction n rule: decimal.induct)
  case (1 n)
  then show ?case by (subst decimal.simps) simp
qed

lemma numberOf_decimal: "numberOf (decimal n) = n"
proof (induction n rule: decimal.induct)
  case (1 n)
  show ?case
  proof (cases "n < 10")
    case True
    then show ?thesis by (subst decimal.simps) (simp add: numberOf_def)
  next
    case False
    with 1 show ?thesis by (subst decimal.simps) (simp add: numberOf_append)
  qed
qed

lemma numberOf_zeros: "numberOf (replicate k CHR ''0'' @ ds) = numberOf ds"
  by (induction k) (simp_all add: numberOf_def)

lemma numberOf_padZeros: "numberOf (padZeros w (decimal n)) = n"
  by (simp add: padZeros_def numberOf_zeros numberOf_decimal)

lemma padZeros_digits: "list_all isDigit (padZeros w (decimal n))"
  by (simp add: padZeros_def decimal_digits list_all_append list_all_iff)
    (auto simp: decimal_digits [unfolded list_all_iff])

lemma length_padZeros: "length (padZeros w s) = max w (length s)"
  by (simp add: padZeros_def)

lemma length_decimal: "n < 10 ^ Suc k \<Longrightarrow> length (decimal n) \<le> Suc k"
proof (induction k arbitrary: n)
  case 0
  then show ?case by (subst decimal.simps) simp
next
  case (Suc k)
  have "n div 10 < 10 ^ Suc k" using Suc.prems by (simp add: less_mult_imp_div_less)
  from Suc.IH [OF this] show ?case by (subst decimal.simps) simp
qed

lemma length_padded: "n < 10 ^ Suc k \<Longrightarrow> length (padZeros (Suc k) (decimal n)) = Suc k"
  using length_decimal [of n k] by (simp add: length_padZeros)

end
