(* ===== verification/QueryBuilder.thy ===== *)
theory QueryBuilder
  imports JsText
begin

text \<open>
  The queries of smart playlists (\<^verbatim>\<open>features/playlists/utils.ts\<close>): the groups of rules that are edited are
  turned into queries of the server and back. The unique ids of groups and rules, drawn by \<^verbatim>\<open>nanoid\<close> for the editor,
  are left out. Turning a value into a string or a date are arguments where the value is not a string or boolean.
\<close>

section \<open>Data\<close>

datatype qb_value = V_null | V_bool bool | V_str string | V_num rat | V_date string | V_list "qb_value list"

datatype qb_type = all | any

record qb_rule =
  qr_field :: "string option"
  qr_operator :: "string option"
  qr_value :: qb_value

datatype qb_group = QGroup (qg_type: qb_type) (qg_rules: "qb_rule list") (qg_group: "qb_group list")

text \<open>An entry of a query: an operator with a field and a value, or a query.\<close>

datatype nd_entry = NDRule string string qb_value | NDQuery qb_type "nd_entry list"

section \<open>The fields\<close>

datatype field_type = F_boolean | F_date | F_number | F_playlist | F_string

text \<open>Label, type and value.\<close>

definition NDSongQueryFields :: "(string \<times> field_type \<times> string) list" where
  "NDSongQueryFields =
     [(''Album'', F_string, ''album''),
      (''Album Artist'', F_string, ''albumartist''),
      (''Album Artists'', F_string, ''albumartists''),
      (''Album Comment'', F_string, ''albumcomment''),
      (''Album Date Favorited'', F_date, ''albumdateloved''),
      (''Album Date Last Played'', F_date, ''albumlastplayed''),
      (''Album Date Rated'', F_date, ''albumdaterated''),
      (''Album Is Favorite'', F_boolean, ''albumloved''),
      (''Album Play Count'', F_number, ''albumplaycount''),
      (''Album Rating'', F_number, ''albumrating''),
      (''Album Type'', F_string, ''albumtype''),
      (''Album Version'', F_string, ''albumversion''),
      (''Arranger'', F_string, ''arranger''),
      (''Artist'', F_string, ''artist''),
      (''Artist Date Favorited'', F_date, ''artistdateloved''),
      (''Artist Date Last Played'', F_date, ''artistlastplayed''),
      (''Artist Date Rated'', F_date, ''artistdaterated''),
      (''Artist Is Favorite'', F_boolean, ''artistloved''),
      (''Artist Play Count'', F_number, ''artistplaycount''),
      (''Artist Rating'', F_number, ''artistrating''),
      (''Artists'', F_string, ''artists''),
      (''ASIN'', F_string, ''asin''),
      (''Average Rating'', F_number, ''averagerating''),
      (''Barcode'', F_string, ''barcode''),
      (''Bit Depth'', F_number, ''bitdepth''),
      (''Bitrate'', F_number, ''bitrate''),
      (''BPM'', F_number, ''bpm''),
      (''Catalog Number'', F_string, ''catalognumber''),
      (''Channels'', F_number, ''channels''),
      (''Comment'', F_string, ''comment''),
      (''Composer'', F_string, ''composer''),
      (''Codec'', F_string, ''codec''),
      (''Conductor'', F_string, ''conductor''),
      (''Copyright'', F_string, ''copyright''),
      (''Date Added'', F_date, ''dateadded''),
      (''Date Favorited'', F_date, ''dateloved''),
      (''Date Last Played'', F_date, ''lastplayed''),
      (''Date Modified'', F_date, ''datemodified''),
      (''DJ Mixer'', F_string, ''djmixer''),
      (''Director'', F_string, ''director''),
      (''Disc Number'', F_number, ''discnumber''),
      (''Disc Subtitle'', F_string, ''discsubtitle''),
      (''Disc Total'', F_number, ''disctotal''),
      (''Duration'', F_number, ''duration''),
      (''Encoded By'', F_string, ''encodedby''),
      (''Encoder Settings'', F_string, ''encodersettings''),
      (''Engineer'', F_string, ''engineer''),
      (''Explicit Status'', F_string, ''explicitstatus''),
      (''File Path'', F_string, ''filepath''),
      (''File Type'', F_string, ''filetype''),
      (''Genre'', F_string, ''genre''),
      (''Grouping'', F_string, ''grouping''),
      (''Has CoverArt'', F_boolean, ''hascoverart''),
      (''Is Compilation'', F_boolean, ''compilation''),
      (''Is Favorite'', F_boolean, ''loved''),
      (''ISRC'', F_string, ''isrc''),
      (''Key'', F_string, ''key''),
      (''Language'', F_string, ''language''),
      (''License'', F_string, ''license''),
      (''Library Id'', F_string, ''library_id''),
      (''Lyricist'', F_string, ''lyricist''),
      (''Lyrics'', F_string, ''lyrics''),
      (''Media'', F_string, ''media''),
      (''Missing'', F_boolean, ''missing''),
      (''Mixer'', F_string, ''mixer''),
      (''Mood'', F_string, ''mood''),
      (''Movement'', F_string, ''movement''),
      (''Movement Name'', F_string, ''movementname''),
      (''Movement Total'', F_number, ''movementtotal''),
      (''MusicBrainz Album Artist Id'', F_string, ''mbz_album_artist_id''),
      (''MusicBrainz Album Id'', F_string, ''mbz_album_id''),
      (''MusicBrainz Artist Id'', F_string, ''mbz_artist_id''),
      (''MusicBrainz Arranger Id'', F_string, ''musicbrainz_arrangerid''),
      (''MusicBrainz Composer Id'', F_string, ''musicbrainz_composerid''),
      (''MusicBrainz Conductor Id'', F_string, ''musicbrainz_conductorid''),
      (''MusicBrainz Director Id'', F_string, ''musicbrainz_directorid''),
      (''MusicBrainz Disc Id'', F_string, ''musicbrainz_discid''),
      (''MusicBrainz DJ Mixer Id'', F_string, ''musicbrainz_djmixerid''),
      (''MusicBrainz Engineer Id'', F_string, ''musicbrainz_engineerid''),
      (''MusicBrainz Lyricist Id'', F_string, ''musicbrainz_lyricistid''),
      (''MusicBrainz Mixer Id'', F_string, ''musicbrainz_mixerid''),
      (''MusicBrainz Performer Id'', F_string, ''musicbrainz_performerid''),
      (''MusicBrainz Producer Id'', F_string, ''musicbrainz_producerid''),
      (''MusicBrainz Recording Id'', F_string, ''mbz_recording_id''),
      (''MusicBrainz Release Group Id'', F_string, ''mbz_release_group_id''),
      (''MusicBrainz Release Track Id'', F_string, ''mbz_release_track_id''),
      (''MusicBrainz Remixer Id'', F_string, ''musicbrainz_remixerid''),
      (''MusicBrainz Track Id'', F_string, ''musicbrainz_trackid''),
      (''MusicBrainz Work Id'', F_string, ''musicbrainz_workid''),
      (''Name'', F_string, ''title''),
      (''Original Date'', F_date, ''originaldate''),
      (''Original Year'', F_number, ''originalyear''),
      (''Performer'', F_string, ''performer''),
      (''Play Count'', F_number, ''playcount''),
      (''Playlist'', F_playlist, ''id''),
      (''Producer'', F_string, ''producer''),
      (''R128 Album Gain'', F_number, ''r128_album_gain''),
      (''R128 Track Gain'', F_number, ''r128_track_gain''),
      (''Rating'', F_number, ''rating''),
      (''Record Label'', F_string, ''recordlabel''),
      (''Recording Date'', F_date, ''recordingdate''),
      (''Release Country'', F_string, ''releasecountry''),
      (''Release Date'', F_date, ''releasedate''),
      (''Release Status'', F_string, ''releasestatus''),
      (''Release Type'', F_string, ''releasetype''),
      (''ReplayGain Album Gain'', F_number, ''replaygain_album_gain''),
      (''ReplayGain Album Peak'', F_number, ''replaygain_album_peak''),
      (''ReplayGain Track Gain'', F_number, ''replaygain_track_gain''),
      (''ReplayGain Track Peak'', F_number, ''replaygain_track_peak''),
      (''Remixer'', F_string, ''remixer''),
      (''Script'', F_string, ''script''),
      (''Sample Rate'', F_number, ''samplerate''),
      (''Size'', F_number, ''size''),
      (''Sort Album'', F_string, ''sortalbum''),
      (''Sort Album Artist'', F_string, ''sortalbumartist''),
      (''Sort Album Artists'', F_string, ''albumartistssort''),
      (''Sort Artist'', F_string, ''sortartist''),
      (''Sort Artists'', F_string, ''artistssort''),
      (''Sort Composer'', F_string, ''composersort''),
      (''Sort Lyricist'', F_string, ''lyricistsort''),
      (''Sort Name'', F_string, ''sorttitle''),
      (''Subtitle'', F_string, ''subtitle''),
      (''Track Number'', F_number, ''tracknumber''),
      (''Track Total'', F_number, ''tracktotal''),
      (''Website'', F_string, ''website''),
      (''Work'', F_string, ''work''),
      (''Year'', F_number, ''year'')]"

definition booleanFields :: "string list" where
  "booleanFields = map (snd \<circ> snd) (filter (\<lambda>f. fst (snd f) = F_boolean) NDSongQueryFields)"

section \<open>Operators\<close>

text \<open>The pattern of a date.\<close>

definition isDateString :: "string \<Rightarrow> bool" where
  "isDateString s = (length s = 10 \<and> s ! 4 = CHR ''-'' \<and> s ! 7 = CHR ''-''
     \<and> list_all isDigit (take 4 s @ take 2 (drop 5 s) @ drop 8 s))"

fun isDateLikeValue :: "qb_value \<Rightarrow> bool" where
  "isDateLikeValue (V_date _) = True"
| "isDateLikeValue (V_str s) = isDateString (trim s)"
| "isDateLikeValue _ = False"

fun isDateRangeValue :: "qb_value \<Rightarrow> bool" where
  "isDateRangeValue (V_list [a, b]) = ((a = V_null \<or> isDateLikeValue a) \<and> (b = V_null \<or> isDateLikeValue b))"
| "isDateRangeValue _ = False"

definition mapApiOperatorToDatePicker :: "string \<Rightarrow> qb_value \<Rightarrow> string" where
  "mapApiOperatorToDatePicker opr v =
     (if opr = ''before'' \<and> isDateLikeValue v then ''beforeDate''
      else if opr = ''after'' \<and> isDateLikeValue v then ''afterDate''
      else if opr = ''inTheRange'' \<and> isDateRangeValue v then ''inTheRangeDate''
      else opr)"

definition mapDatePickerOperatorToApi :: "string \<Rightarrow> string" where
  "mapDatePickerOperatorToApi opr =
     (if opr = ''beforeDate'' then ''before''
      else if opr = ''afterDate'' then ''after''
      else if opr = ''inTheRangeDate'' then ''inTheRange''
      else opr)"

section \<open>From groups to queries\<close>

text \<open>The first and the second part of \<open>field.split('.')\<close>.\<close>

definition firstPart :: "string \<Rightarrow> string" where
  "firstPart s = takeWhile (\<lambda>c. c \<noteq> CHR ''.'') s"

definition secondPart :: "string \<Rightarrow> string option" where
  "secondPart s = (case dropWhile (\<lambda>c. c \<noteq> CHR ''.'') s of [] \<Rightarrow> None | _ # rest \<Rightarrow> Some (firstPart rest))"

definition childRule :: "(qb_value \<Rightarrow> qb_value) \<Rightarrow> qb_rule \<Rightarrow> nd_entry list" where
  "childRule newDate rule =
     (if truthy (qr_field rule) \<and> truthy (qr_operator rule) then
        (let field = the (qr_field rule); opr = mapDatePickerOperatorToApi (the (qr_operator rule));
             v = (if secondPart field \<noteq> Some ''releaseDate'' then qr_value rule else newDate (qr_value rule))
         in [NDRule opr (firstPart field) v])
      else [])"

text \<open>The result and the array \<open>data\<close>, to which every query is pushed too.\<close>

fun childQuery ::
    "(qb_value \<Rightarrow> qb_value) \<Rightarrow> qb_group \<Rightarrow> nd_entry list \<Rightarrow> nd_entry \<times> nd_entry list"
  and childQueries ::
    "(qb_value \<Rightarrow> qb_value) \<Rightarrow> qb_group list \<Rightarrow> nd_entry list \<Rightarrow> nd_entry list \<times> nd_entry list" where
  "childQuery newDate (QGroup t rules groups) acc =
     (let own = concat (map (childRule newDate) rules);
          (b, acc') = (if length groups > 0 then childQueries newDate groups acc else ([], acc));
          query = NDQuery t (own @ b)
      in (query, acc' @ [query]))"
| "childQueries newDate [] acc = ([], acc)"
| "childQueries newDate (g # gs) acc =
     (let (query, acc1) = childQuery newDate g acc; (rest, acc2) = childQueries newDate gs acc1
      in (query # rest, acc2))"

definition parseQueryBuilderChildren ::
    "(qb_value \<Rightarrow> qb_value) \<Rightarrow> qb_group list \<Rightarrow> nd_entry list \<Rightarrow> nd_entry list \<times> nd_entry list" where
  "parseQueryBuilderChildren newDate groups acc =
     (if length groups = 0 then (acc, acc) else childQueries newDate groups acc)"

definition rootRule :: "qb_rule \<Rightarrow> nd_entry list" where
  "rootRule rule =
     (if truthy (qr_field rule) \<and> truthy (qr_operator rule) then
        (let field = firstPart (the (qr_field rule)); opr = mapDatePickerOperatorToApi (the (qr_operator rule));
             v = (if field \<in> set booleanFields then V_bool (qr_value rule = V_str ''true'') else qr_value rule)
         in [NDRule opr field v])
      else [])"

definition convertQueryGroupToNDQuery :: "(qb_value \<Rightarrow> qb_value) \<Rightarrow> qb_group \<Rightarrow> nd_entry" where
  "convertQueryGroupToNDQuery newDate g =
     NDQuery (qg_type g)
       (concat (map rootRule (qg_rules g)) @ fst (parseQueryBuilderChildren newDate (qg_group g) []))"

section \<open>From queries to groups\<close>

text \<open>\<open>value.toString()\<close>, which throws for null; strings of other values are an argument.\<close>

fun toStringValue :: "(qb_value \<Rightarrow> string) \<Rightarrow> qb_value \<Rightarrow> qb_value option" where
  "toStringValue L V_null = None"
| "toStringValue L (V_bool b) = Some (V_str (if b then ''true'' else ''false''))"
| "toStringValue L (V_str s) = Some (V_str s)"
| "toStringValue L v = Some (V_str (L v))"

definition ruleOf :: "(qb_value \<Rightarrow> string) \<Rightarrow> string \<Rightarrow> string \<Rightarrow> qb_value \<Rightarrow> qb_rule option" where
  "ruleOf L opr field v =
     (case (if field \<in> set booleanFields then toStringValue L v else Some v) of
        None \<Rightarrow> None
      | Some v' \<Rightarrow> Some \<lparr>qr_field = Some field, qr_operator = Some (mapApiOperatorToDatePicker opr v'), qr_value = v'\<rparr>)"

text \<open>
  The loop over the entries fills the rules and the groups; None is a thrown error. An operator called
  like a type would be taken for a group, whose field is no array.
\<close>

fun convertNDQueryToQueryGroup :: "(qb_value \<Rightarrow> string) \<Rightarrow> nd_entry \<Rightarrow> qb_group option"
  and convertEntries :: "(qb_value \<Rightarrow> string) \<Rightarrow> nd_entry list \<Rightarrow> (qb_rule list \<times> qb_group list) option" where
  "convertNDQueryToQueryGroup L (NDQuery t entries) =
     (case convertEntries L entries of None \<Rightarrow> None | Some (rules, groups) \<Rightarrow> Some (QGroup t rules groups))"
| "convertNDQueryToQueryGroup L (NDRule opr field v) = None"
| "convertEntries L [] = Some ([], [])"
| "convertEntries L (NDQuery t entries # rest) =
     (case convertNDQueryToQueryGroup L (NDQuery t entries) of
        None \<Rightarrow> None
      | Some g \<Rightarrow>
          (case convertEntries L rest of None \<Rightarrow> None | Some (rules, groups) \<Rightarrow> Some (rules, g # groups)))"
| "convertEntries L (NDRule opr field v # rest) =
     (if opr = ''any'' \<or> opr = ''all'' then None
      else
        (case ruleOf L opr field v of
           None \<Rightarrow> None
         | Some r \<Rightarrow>
             (case convertEntries L rest of None \<Rightarrow> None | Some (rules, groups) \<Rightarrow> Some (r # rules, groups))))"

section \<open>Groups that are edited completely\<close>

text \<open>
  A rule is complete when its field, without a dot, and its operator are set, the operator is the one the
  editor shows for the value, and the value of a boolean field is a string: at the root one of the two words.
\<close>

definition is_str :: "qb_value \<Rightarrow> bool" where
  "is_str v = (case v of V_str _ \<Rightarrow> True | _ \<Rightarrow> False)"

lemma is_str_iff: "is_str v \<longleftrightarrow> (\<exists>s. v = V_str s)"
  by (cases v) (simp_all add: is_str_def)

definition cleanRule :: "bool \<Rightarrow> qb_rule \<Rightarrow> bool" where
  "cleanRule atRoot r =
     (case (qr_field r, qr_operator r) of
        (Some field, Some opr) \<Rightarrow>
          field \<noteq> '''' \<and> CHR ''.'' \<notin> set field \<and> opr \<noteq> '''' \<and> opr \<noteq> ''any'' \<and> opr \<noteq> ''all''
          \<and> mapApiOperatorToDatePicker (mapDatePickerOperatorToApi opr) (qr_value r) = opr
          \<and> (field \<in> set booleanFields \<longrightarrow>
               (if atRoot then qr_value r = V_str ''true'' \<or> qr_value r = V_str ''false''
                else is_str (qr_value r)))
      | _ \<Rightarrow> False)"

fun cleanChild :: "qb_group \<Rightarrow> bool" where
  "cleanChild (QGroup t rules groups) = (list_all (cleanRule False) rules \<and> list_all cleanChild groups)"

definition cleanGroup :: "qb_group \<Rightarrow> bool" where
  "cleanGroup g = (list_all (cleanRule True) (qg_rules g) \<and> list_all cleanChild (qg_group g))"

lemma parts_plain:
  assumes "CHR ''.'' \<notin> set s"
  shows "firstPart s = s" and "secondPart s = None"
proof -
  have "\<forall>c \<in> set s. c \<noteq> CHR ''.''" using assms by auto
  then show "firstPart s = s" "secondPart s = None"
    by (simp_all add: firstPart_def secondPart_def takeWhile_eq_all_conv [THEN iffD2] dropWhile_eq_Nil_conv [THEN iffD2])
qed

lemma mapDatePicker_plain: "opr \<noteq> ''any'' \<Longrightarrow> opr \<noteq> ''all'' \<Longrightarrow>
    mapDatePickerOperatorToApi opr \<noteq> ''any'' \<and> mapDatePickerOperatorToApi opr \<noteq> ''all''"
  by (simp add: mapDatePickerOperatorToApi_def)

lemma ruleOf_string:
  "mapApiOperatorToDatePicker opr v = opr' \<Longrightarrow> (field \<in> set booleanFields \<Longrightarrow> \<exists>s. v = V_str s) \<Longrightarrow>
     ruleOf L opr field v = Some \<lparr>qr_field = Some field, qr_operator = Some opr', qr_value = v\<rparr>"
  by (auto simp: ruleOf_def)

lemma cleanRuleE:
  assumes "cleanRule b r"
  obtains field opr where "r = \<lparr>qr_field = Some field, qr_operator = Some opr, qr_value = qr_value r\<rparr>"
    "field \<noteq> ''''" "CHR ''.'' \<notin> set field" "opr \<noteq> ''''" "opr \<noteq> ''any''" "opr \<noteq> ''all''"
    "mapApiOperatorToDatePicker (mapDatePickerOperatorToApi opr) (qr_value r) = opr"
    "field \<in> set booleanFields \<Longrightarrow> if b then qr_value r = V_str ''true'' \<or> qr_value r = V_str ''false''
       else \<exists>s. qr_value r = V_str s"
  using assms by (cases r) (auto simp: cleanRule_def is_str_iff split: option.splits if_splits)

lemma childRule_clean:
  assumes "cleanRule False r"
  shows "convertEntries L (childRule newDate r @ rest) = map_option (apfst ((#) r)) (convertEntries L rest)"
proof -
  obtain field opr where r: "r = \<lparr>qr_field = Some field, qr_operator = Some opr, qr_value = qr_value r\<rparr>"
    and f: "field \<noteq> ''''" "CHR ''.'' \<notin> set field" and o: "opr \<noteq> ''''" "opr \<noteq> ''any''" "opr \<noteq> ''all''"
    and v: "mapApiOperatorToDatePicker (mapDatePickerOperatorToApi opr) (qr_value r) = opr"
      "field \<in> set booleanFields \<Longrightarrow> \<exists>s. qr_value r = V_str s"
    using assms by (rule cleanRuleE) auto
  have "childRule newDate r = [NDRule (mapDatePickerOperatorToApi opr) field (qr_value r)]"
    using f o parts_plain [OF f(2)] by (subst r) (simp add: childRule_def Let_def)
  moreover have "ruleOf L (mapDatePickerOperatorToApi opr) field (qr_value r) = Some r"
    using ruleOf_string [OF v(1), of field L] v(2) r by simp
  ultimately show ?thesis
    using mapDatePicker_plain [OF o(2,3)] by (auto split: option.split)
qed

lemma boolean_word:
  "v = V_str ''true'' \<or> v = V_str ''false'' \<Longrightarrow> toStringValue L (V_bool (v = V_str ''true'')) = Some v"
  by auto

lemma rootRule_clean:
  assumes "cleanRule True r"
  shows "convertEntries L (rootRule r @ rest) = map_option (apfst ((#) r)) (convertEntries L rest)"
proof -
  obtain field opr where r: "r = \<lparr>qr_field = Some field, qr_operator = Some opr, qr_value = qr_value r\<rparr>"
    and f: "field \<noteq> ''''" "CHR ''.'' \<notin> set field" and o: "opr \<noteq> ''''" "opr \<noteq> ''any''" "opr \<noteq> ''all''"
    and v: "mapApiOperatorToDatePicker (mapDatePickerOperatorToApi opr) (qr_value r) = opr"
      "field \<in> set booleanFields \<Longrightarrow> qr_value r = V_str ''true'' \<or> qr_value r = V_str ''false''"
    using assms by (rule cleanRuleE) auto
  let ?v = "if field \<in> set booleanFields then V_bool (qr_value r = V_str ''true'') else qr_value r"
  have "rootRule r = [NDRule (mapDatePickerOperatorToApi opr) field ?v]"
    using f o parts_plain [OF f(2)] by (subst (1) r) (simp add: rootRule_def Let_def)
  moreover have "ruleOf L (mapDatePickerOperatorToApi opr) field ?v = Some r"
    using boolean_word [OF v(2)] v(1) r by (simp add: ruleOf_def)
  ultimately show ?thesis
    using mapDatePicker_plain [OF o(2,3)] by (auto split: option.split)
qed

lemma rules_clean:
  assumes "\<And>r rest. r \<in> set rules \<Longrightarrow> convertEntries L (f r @ rest) = map_option (apfst ((#) r)) (convertEntries L rest)"
  shows "convertEntries L (concat (map f rules) @ rest) = map_option (apfst ((@) rules)) (convertEntries L rest)"
  using assms
proof (induction rules)
  case Nil
  show ?case by (cases "convertEntries L rest") (auto simp: apfst_def map_prod_def)
next
  case (Cons r rules)
  then show ?case by (cases "convertEntries L rest") (auto simp: apfst_def map_prod_def split: prod.split)
qed

lemma childQueries_clean:
  "cleanChild g \<Longrightarrow> convertNDQueryToQueryGroup L (fst (childQuery newDate g acc)) = Some g"
  "list_all cleanChild gs \<Longrightarrow> convertEntries L (fst (childQueries newDate gs acc)) = Some ([], gs)"
proof (induction newDate g acc and newDate gs acc rule: childQuery_childQueries.induct)
  case (1 newDate t rules groups acc)
  have rules: "convertEntries L (concat (map (childRule newDate) rules) @ rest) =
      map_option (apfst ((@) rules)) (convertEntries L rest)" for rest
    using 1(2) by (intro rules_clean childRule_clean) (simp add: list_all_iff)
  show ?case
  proof (cases "groups = []")
    case True
    have "convertEntries L (concat (map (childRule newDate) rules)) = Some (rules, [])"
      using rules [of "[]"] by simp
    then show ?thesis unfolding True by (simp add: Let_def)
  next
    case False
    with 1 have "convertEntries L (fst (childQueries newDate groups acc)) = Some ([], groups)" by simp
    then show ?thesis using rules False by (simp add: case_prod_beta Let_def)
  qed
next
  case (3 newDate g gs acc)
  obtain t es where q: "fst (childQuery newDate g acc) = NDQuery t es"
    by (cases g) (auto simp: Let_def case_prod_beta)
  have "convertNDQueryToQueryGroup L (NDQuery t es) = Some g"
    using 3 q by (simp add: case_prod_beta)
  moreover have "convertEntries L (fst (childQueries newDate gs (snd (childQuery newDate g acc)))) = Some ([], gs)"
    using 3(2) [OF surjective_pairing [symmetric] refl] 3(3) by simp
  ultimately show ?case by (simp add: case_prod_beta Let_def q del: convertNDQueryToQueryGroup.simps)
qed simp

section \<open>Properties\<close>

text \<open>
  C17: A smart playlist survives saving: a group of complete rules, however deep its groups are nested, is
  turned into a query that is turned back into the same group.
\<close>

theorem query_group_round_trip:
  assumes "cleanGroup g"
  shows "convertNDQueryToQueryGroup L (convertQueryGroupToNDQuery newDate g) = Some g"
proof -
  obtain t rules groups where g: "g = QGroup t rules groups" by (cases g)
  have "convertEntries L (concat (map rootRule rules) @ rest) = map_option (apfst ((@) rules)) (convertEntries L rest)" for rest
    using assms by (intro rules_clean rootRule_clean) (simp add: g cleanGroup_def list_all_iff)
  moreover have "convertEntries L (fst (parseQueryBuilderChildren newDate groups [])) = Some ([], groups)"
    using childQueries_clean(2) [of groups L newDate "[]"] assms
    by (cases "groups = []") (simp_all add: g cleanGroup_def parseQueryBuilderChildren_def)
  ultimately show ?thesis by (simp add: g convertQueryGroupToNDQuery_def)
qed

definition exampleRule :: "string \<Rightarrow> string \<Rightarrow> qb_value \<Rightarrow> qb_rule" where
  "exampleRule field opr v = \<lparr>qr_field = Some field, qr_operator = Some opr, qr_value = v\<rparr>"

definition exampleGroup :: qb_group where
  "exampleGroup = QGroup all [exampleRule ''loved'' ''is'' (V_str ''true''),
       exampleRule ''dateadded'' ''afterDate'' (V_str ''2024-01-31'')]
     [QGroup any [exampleRule ''title'' ''contains'' (V_str ''live''),
        exampleRule ''rating'' ''inTheRange'' (V_list [V_num 3, V_num 5])] []]"

theorem query_group_round_trip_witness:
  "convertNDQueryToQueryGroup (\<lambda>_. '''') (convertQueryGroupToNDQuery (\<lambda>v. v) exampleGroup) = Some exampleGroup"
  by (rule query_group_round_trip) code_simp

text \<open>
  A flaw of nested groups. A rule for a boolean field is sent as a boolean at the root, but as the string
  that the editor shows in a group; a saved query that has a boolean there comes back with a string.
\<close>

theorem nested_boolean_becomes_string:
  assumes "field \<in> set booleanFields" and "opr \<notin> {''any'', ''all'', '''', ''beforeDate'', ''afterDate'', ''inTheRangeDate''}"
    and "\<And>v. mapApiOperatorToDatePicker opr v = opr"
  shows "convertQueryGroupToNDQuery newDate (QGroup t [exampleRule field opr (V_str ''true'')] []) =
      NDQuery t [NDRule opr field (V_bool True)]
    \<and> map_option (convertQueryGroupToNDQuery newDate)
        (convertNDQueryToQueryGroup L (NDQuery t [NDQuery u [NDRule opr field (V_bool True)]])) =
      Some (NDQuery t [NDQuery u [NDRule opr field (V_str ''true'')]])"
proof -
  have f: "field \<noteq> ''''" "CHR ''.'' \<notin> set field" using assms(1) by (auto simp: booleanFields_def NDSongQueryFields_def)
  have o: "mapDatePickerOperatorToApi opr = opr" using assms(2) by (simp add: mapDatePickerOperatorToApi_def)
  show ?thesis
    using assms(1,2) f parts_plain [OF f(2)]
    by (simp add: convertQueryGroupToNDQuery_def rootRule_def exampleRule_def parseQueryBuilderChildren_def
        ruleOf_def assms(3) childRule_def o Let_def)
qed

theorem nested_boolean_becomes_string_witness:
  "convertQueryGroupToNDQuery (\<lambda>v. v) (QGroup all [exampleRule ''loved'' ''is'' (V_str ''true'')] []) =
     NDQuery all [NDRule ''is'' ''loved'' (V_bool True)]"
  by (rule nested_boolean_becomes_string [THEN conjunct1])
    (code_simp, simp, simp add: mapApiOperatorToDatePicker_def)

text \<open>
  Incomplete rules are not sent: what becomes of a group is independent of its rules without a field or
  an operator.
\<close>

theorem incomplete_rules_are_dropped:
  "convertQueryGroupToNDQuery newDate (QGroup t rules groups) =
   convertQueryGroupToNDQuery newDate
     (QGroup t (filter (\<lambda>r. truthy (qr_field r) \<and> truthy (qr_operator r)) rules) groups)"
proof -
  have "concat (map rootRule rules) =
      concat (map rootRule (filter (\<lambda>r. truthy (qr_field r) \<and> truthy (qr_operator r)) rules))"
    by (induction rules) (auto simp: rootRule_def)
  then show ?thesis by (simp add: convertQueryGroupToNDQuery_def)
qed

end
