(* ===== verification/Lyrics.thy ===== *)
theory Lyrics
  imports JsText
begin

text \<open>
  Lyrics (\<^verbatim>\<open>features/lyrics/api/lyrics-api.ts\<close>): reading synchronized lyrics from a text, and which of
  the local, remote and chosen lyrics of a song are shown. The two regular expressions are written out as matchers;
  requests to the server and to the providers are arguments.
\<close>

section \<open>Scanning\<close>

text \<open>
  \<open>matchAll\<close> with a global pattern: the matcher gives what a match at the start of the text captures, and
  its length. An empty match would advance by one character.
\<close>

function matchAll :: "(string \<Rightarrow> ('a \<times> nat) option) \<Rightarrow> string \<Rightarrow> 'a list" where
  "matchAll m [] = []"
| "matchAll m (c # cs) =
     (case m (c # cs) of
        None \<Rightarrow> matchAll m cs
      | Some (x, n) \<Rightarrow> x # matchAll m (drop (n - 1) cs))"
  by pat_completeness auto

termination
  by (relation "measure (\<lambda>(m, s). length s)") auto

text \<open>\<open>replaceAll\<close> with a global pattern, given by the length of its match, and a constant text.\<close>

function replaceAll :: "(string \<Rightarrow> nat option) \<Rightarrow> string \<Rightarrow> string \<Rightarrow> string" where
  "replaceAll m replacement [] = []"
| "replaceAll m replacement (c # cs) =
     (case m (c # cs) of
        None \<Rightarrow> c # replaceAll m replacement cs
      | Some n \<Rightarrow> replacement @ replaceAll m replacement (drop (n - 1) cs))"
  by pat_completeness auto

termination
  by (relation "measure (\<lambda>(m, r, s). length s)") auto

definition takeDigits :: "string \<Rightarrow> string \<times> string" where
  "takeDigits s = (takeWhile isDigit s, dropWhile isDigit s)"

text \<open>The end of both patterns: a bracket, text up to the end of the line, and the line break if there is one.\<close>

definition restOfLine :: "string \<Rightarrow> (string \<times> string) option" where
  "restOfLine s =
     (case s of
        [] \<Rightarrow> None
      | c # s' \<Rightarrow>
          (let tx = takeWhile (\<lambda>c. c \<noteq> CHR 0x0A) s'
           in if c \<noteq> CHR '']'' \<or> tx = [] then None else Some (tx, tl (dropWhile (\<lambda>c. c \<noteq> CHR 0x0A) s'))))"

text \<open>Minutes of two or more digits, seconds of two, and perhaps a fraction of two or three.\<close>

definition fraction :: "string \<Rightarrow> (string option \<times> string) option" where
  "fraction s =
     (if s \<noteq> [] \<and> hd s = CHR ''.'' then
        (let (ms, s') = takeDigits (tl s)
         in if length ms = 2 \<or> length ms = 3 then Some (Some ms, s') else None)
      else Some (None, s))"

definition timeExp :: "string \<Rightarrow> ((string \<times> string \<times> string option \<times> string) \<times> nat) option" where
  "timeExp s =
     (if s = [] \<or> hd s \<noteq> CHR ''['' then None
      else
        (let (minute, s2) = takeDigits (tl s)
         in if length minute < 2 \<or> s2 = [] \<or> hd s2 \<noteq> CHR '':'' then None
            else
              (let (sec, s4) = takeDigits (tl s2)
               in if length sec \<noteq> 2 then None
                  else
                    (case fraction s4 of
                       None \<Rightarrow> None
                     | Some (ms, s5) \<Rightarrow>
                         (case restOfLine s5 of
                            None \<Rightarrow> None
                          | Some (tx, s6) \<Rightarrow> Some ((minute, sec, ms, tx), length s - length s6))))))"

definition alternateTimeExp :: "string \<Rightarrow> ((string \<times> string) \<times> nat) option" where
  "alternateTimeExp s =
     (if s = [] \<or> hd s \<noteq> CHR ''['' then None
      else
        (let (timeInMilis, s2) = takeDigits (tl s)
         in if s2 = [] \<or> hd s2 \<noteq> CHR '','' then None
            else
              (case restOfLine (snd (takeDigits (tl s2))) of
                 None \<Rightarrow> None
               | Some (tx, s4) \<Rightarrow> Some ((timeInMilis, tx), length s - length s4))))"

section \<open>Synchronized lyrics\<close>

text \<open>Milliseconds are NaN when the fraction is missing.\<close>

definition timeInMilis :: "string \<Rightarrow> string \<Rightarrow> string option \<Rightarrow> jsnum" where
  "timeInMilis minute sec ms =
     (let minutes = int (numberOf minute); seconds = int (numberOf sec);
          milis = (case ms of None \<Rightarrow> NaN
            | Some d \<Rightarrow> if length d = 3 then Num (int (numberOf d)) else Num (int (numberOf d) * 10))
      in Num ((minutes * 60 + seconds) * 1000) + milis)"

text \<open>The pattern for the times of single words, and a character after white space.\<close>

definition wordTime :: "string \<Rightarrow> nat option" where
  "wordTime s =
     (if s = [] \<or> hd s \<noteq> CHR ''('' then None
      else
        (let (a, s2) = takeDigits (tl s)
         in if a = [] \<or> s2 = [] \<or> hd s2 \<noteq> CHR '','' then None
            else
              (let (b, s4) = takeDigits (tl s2)
               in if b = [] \<or> s4 = [] \<or> hd s4 \<noteq> CHR '')'' then None
                  else Some (length a + length b + 3))))"

definition spaceBefore :: "char \<Rightarrow> string \<Rightarrow> nat option" where
  "spaceBefore c s = (case s of a # b # _ \<Rightarrow> if isWhite a \<and> b = c then Some 2 else None | _ \<Rightarrow> None)"

definition cleanText :: "string \<Rightarrow> string" where
  "cleanText s =
     replaceAll (spaceBefore CHR ''.'') ''.'' (replaceAll (spaceBefore CHR '','') '','' (replaceAll wordTime [] s))"

datatype lyrics_text = Unsynced string | Synced "(jsnum \<times> string) list"

definition formatLyrics :: "string \<Rightarrow> lyrics_text" where
  "formatLyrics lyrics =
     (let formattedLyrics = map (\<lambda>(minute, sec, ms, tx). (timeInMilis minute sec ms, tx)) (matchAll timeExp lyrics)
      in if length formattedLyrics > 0 then Synced formattedLyrics
         else
           (let alternate = map (\<lambda>(t, tx). (Num (int (numberOf t)), cleanText tx)) (matchAll alternateTimeExp lyrics)
            in if length alternate > 0 then Synced alternate else Unsynced lyrics))"

section \<open>The lyrics of a song\<close>

record full_lyrics =
  fl_artist :: "string option"
  fl_lyrics :: lyrics_text
  fl_name :: string
  fl_offsetMs :: "int option"
  fl_remote :: bool
  fl_source :: string

record structured_lyric = full_lyrics +
  sy_lang :: string
  sy_synced :: bool

datatype local_lyrics = No_local | Local_full full_lyrics | Local_structured "structured_lyric list"

datatype selected_lyrics = No_lyrics | Full full_lyrics | Structured structured_lyric

text \<open>The lyrics that the user chose: their id and what is shown about them.\<close>

record lyrics_override =
  ov_artist :: string
  ov_id :: string
  ov_name :: string
  ov_remote :: "bool option"
  ov_source :: string

record lyrics_result =
  lr_local :: local_lyrics
  lr_overrideData :: "lyrics_text option"
  lr_overrideSelection :: "lyrics_override option"
  lr_remoteAuto :: "full_lyrics option"
  lr_selected :: selected_lyrics
  lr_selectedOffsetMs :: int
  lr_selectedStructuredIndex :: nat
  lr_selectedSynced :: bool
  lr_suppressRemoteAuto :: bool

text \<open>An empty text is falsy, an array is not.\<close>

fun truthyLyrics :: "lyrics_text \<Rightarrow> bool" where
  "truthyLyrics (Unsynced s) = (s \<noteq> '''')"
| "truthyLyrics (Synced _) = True"

fun isSynced :: "lyrics_text \<Rightarrow> bool" where
  "isSynced (Synced _) = True"
| "isSynced (Unsynced _) = False"

fun hasLocalLyrics :: "local_lyrics \<Rightarrow> bool" where
  "hasLocalLyrics (Local_structured ls) = (length ls > 0)"
| "hasLocalLyrics (Local_full l) = truthyLyrics (fl_lyrics l)"
| "hasLocalLyrics No_local = False"

text \<open>The two cases in which local lyrics are selected.\<close>

fun selectLocal :: "local_lyrics \<Rightarrow> nat \<Rightarrow> (selected_lyrics \<times> bool) option" where
  "selectLocal (Local_structured ls) k =
     (if length ls > 0 then (let item = ls ! min k (length ls - 1) in Some (Structured item, sy_synced item)) else None)"
| "selectLocal (Local_full l) k =
     (if truthyLyrics (fl_lyrics l) then Some (Full l, isSynced (fl_lyrics l)) else None)"
| "selectLocal No_local k = None"

definition withoutOverride ::
    "local_lyrics \<Rightarrow> full_lyrics option \<Rightarrow> bool \<Rightarrow> nat \<Rightarrow> selected_lyrics \<times> bool" where
  "withoutOverride local remoteAuto preferLocalLyrics selectedStructuredIndex =
     (if preferLocalLyrics \<and> hasLocalLyrics local \<and> selectLocal local selectedStructuredIndex \<noteq> None
      then the (selectLocal local selectedStructuredIndex)
      else
        (case remoteAuto of
           Some remote \<Rightarrow> (Full remote, isSynced (fl_lyrics remote))
         | None \<Rightarrow> nullish_or (selectLocal local selectedStructuredIndex) (No_lyrics, False)))"

definition computeSelectedFromResult ::
    "local_lyrics \<Rightarrow> lyrics_text option \<Rightarrow> lyrics_override option \<Rightarrow> full_lyrics option \<Rightarrow> int
       \<Rightarrow> bool \<Rightarrow> nat \<Rightarrow> selected_lyrics \<times> bool" where
  "computeSelectedFromResult local overrideData overrideSelection remoteAuto selectedOffsetMs
       preferLocalLyrics selectedStructuredIndex =
     (case (overrideSelection, overrideData) of
        (Some sel, Some d) \<Rightarrow>
          (if truthyLyrics d then
             (Full \<lparr>fl_artist = Some (ov_artist sel), fl_lyrics = d, fl_name = ov_name sel,
                fl_offsetMs = Some selectedOffsetMs, fl_remote = nullish_or (ov_remote sel) True,
                fl_source = ov_source sel\<rparr>, isSynced d)
           else withoutOverride local remoteAuto preferLocalLyrics selectedStructuredIndex)
      | _ \<Rightarrow> withoutOverride local remoteAuto preferLocalLyrics selectedStructuredIndex)"

section \<open>Fetching\<close>

text \<open>
  What the server knows: its name and which of the two features it has. A rejected request for lyrics is
  logged and counts as no answer.
\<close>

record lyrics_server =
  ls_name :: string
  ls_multipleStructured :: bool
  ls_singleStructured :: bool

definition serverLyrics :: "lyrics_server \<Rightarrow> string option \<Rightarrow> string \<Rightarrow> lyrics_text \<Rightarrow> full_lyrics" where
  "serverLyrics server artist name lyrics =
     \<lparr>fl_artist = artist, fl_lyrics = lyrics, fl_name = name, fl_offsetMs = None, fl_remote = False,
      fl_source = ls_name server\<rparr>"

text \<open>The result is None when the server is unknown, which throws. The song gives its artist, name and lyrics.\<close>

definition fetchLocalLyrics ::
    "lyrics_server option \<Rightarrow> structured_lyric list option \<Rightarrow> lyrics_text option
       \<Rightarrow> string option \<times> string \<times> string option \<Rightarrow> local_lyrics option" where
  "fetchLocalLyrics server0 structuredAnswer lyricsAnswer song =
     (case server0 of
        None \<Rightarrow> None
      | Some server \<Rightarrow>
          (let (artist, name, lyrics) = song
           in Some (if ls_multipleStructured server then
                (case structuredAnswer of
                   Some ls \<Rightarrow> if length ls > 0 then Local_structured ls else No_local
                 | None \<Rightarrow> No_local)
              else if ls_singleStructured server then
                (case lyricsAnswer of
                   Some l \<Rightarrow> if truthyLyrics l then Local_full (serverLyrics server artist name l) else No_local
                 | None \<Rightarrow> No_local)
              else if truthy lyrics
              then Local_full (serverLyrics server artist name (formatLyrics (the lyrics)))
              else No_local)))"

text \<open>An answer of a provider: artist, lyrics, name and source.\<close>

type_synonym provider_answer = "string \<times> string \<times> string \<times> string"

definition fetchRemoteLyricsAuto :: "bool \<Rightarrow> provider_answer option \<Rightarrow> full_lyrics option" where
  "fetchRemoteLyricsAuto fetch answer =
     (if \<not> fetch then None
      else map_option (\<lambda>(artist, lyrics, name, source).
         \<lparr>fl_artist = Some artist, fl_lyrics = formatLyrics lyrics, fl_name = name, fl_offsetMs = None,
          fl_remote = True, fl_source = source\<rparr>) answer)"

definition fetchRemoteLyricsById :: "string option \<Rightarrow> lyrics_text option" where
  "fetchRemoteLyricsById result = (if truthy result then Some (formatLyrics (the result)) else None)"

fun selectedOffset :: "selected_lyrics \<Rightarrow> int option" where
  "selectedOffset (Full l) = fl_offsetMs l"
| "selectedOffset (Structured l) = fl_offsetMs l"
| "selectedOffset No_lyrics = None"

definition getDisplayOffset :: "selected_lyrics \<Rightarrow> int \<Rightarrow> nat \<Rightarrow> local_lyrics \<Rightarrow> int" where
  "getDisplayOffset selected storedOffsetMs selectedStructuredIndex local =
     (case selectedOffset selected of
        Some offset \<Rightarrow> offset
      | None \<Rightarrow>
          (case local of
             Local_structured ls \<Rightarrow>
               (if length ls > 0
                then nullish_or (fl_offsetMs (ls ! min selectedStructuredIndex (length ls - 1))) storedOffsetMs
                else storedOffsetMs)
           | _ \<Rightarrow> storedOffsetMs))"

definition emptyResult :: lyrics_result where
  "emptyResult = \<lparr>lr_local = No_local, lr_overrideData = None, lr_overrideSelection = None, lr_remoteAuto = None,
     lr_selected = No_lyrics, lr_selectedOffsetMs = 0, lr_selectedStructuredIndex = 0,
     lr_selectedSynced = False, lr_suppressRemoteAuto = False\<rparr>"

text \<open>
  The query, for a song (without one it gives the empty result). The answers are None for a rejected promise, which rejects the query where it is
  awaited. The automatic remote lyrics are not awaited when local ones are preferred and there.
\<close>

definition awaitedRemoteAuto ::
    "lyrics_result \<Rightarrow> bool \<Rightarrow> bool \<Rightarrow> local_lyrics \<Rightarrow> full_lyrics option option \<Rightarrow> full_lyrics option option" where
  "awaitedRemoteAuto p preferLocalLyrics fetch local remoteAnswer =
     (if preferLocalLyrics \<and> hasLocalLyrics local then Some None
      else if lr_suppressRemoteAuto p \<or> \<not> fetch then Some None
      else remoteAnswer)"

definition awaitedOverride :: "lyrics_result \<Rightarrow> lyrics_text option option \<Rightarrow> lyrics_text option option" where
  "awaitedOverride p overrideAnswer = (if lr_overrideSelection p = None then Some None else overrideAnswer)"

definition songLyricsResult ::
    "lyrics_result \<Rightarrow> bool \<Rightarrow> local_lyrics \<Rightarrow> full_lyrics option \<Rightarrow> lyrics_text option \<Rightarrow> lyrics_result" where
  "songLyricsResult p preferLocalLyrics local remoteAuto overrideData =
     (let sel = computeSelectedFromResult local overrideData (lr_overrideSelection p) remoteAuto
            (lr_selectedOffsetMs p) preferLocalLyrics (lr_selectedStructuredIndex p)
      in emptyResult
           \<lparr>lr_local := local, lr_overrideData := overrideData, lr_overrideSelection := lr_overrideSelection p,
            lr_remoteAuto := remoteAuto, lr_selected := fst sel,
            lr_selectedOffsetMs :=
              getDisplayOffset (fst sel) (lr_selectedOffsetMs p) (lr_selectedStructuredIndex p) local,
            lr_selectedStructuredIndex := lr_selectedStructuredIndex p, lr_selectedSynced := snd sel,
            lr_suppressRemoteAuto := lr_suppressRemoteAuto p\<rparr>)"

definition songLyrics ::
    "lyrics_result option \<Rightarrow> bool \<Rightarrow> bool \<Rightarrow> local_lyrics option \<Rightarrow> full_lyrics option option
       \<Rightarrow> lyrics_text option option \<Rightarrow> lyrics_result option" where
  "songLyrics prev preferLocalLyrics fetch localAnswer remoteAnswer overrideAnswer =
     (let p = nullish_or prev emptyResult
      in case localAnswer of
           None \<Rightarrow> None
         | Some local \<Rightarrow>
             (case awaitedRemoteAuto p preferLocalLyrics fetch local remoteAnswer of
                None \<Rightarrow> None
              | Some remoteAuto \<Rightarrow>
                  map_option (songLyricsResult p preferLocalLyrics local remoteAuto)
                    (awaitedOverride p overrideAnswer)))"

text \<open>
  When local lyrics are shown before the providers have answered, their late answer is only remembered, for
  the next time that the selection is computed.
\<close>

definition lateRemoteAuto :: "bool \<Rightarrow> full_lyrics option \<Rightarrow> lyrics_result option \<Rightarrow> lyrics_result option" where
  "lateRemoteAuto aborted fetched prev =
     (if aborted \<or> fetched = None then prev else map_option (\<lambda>r. r\<lparr>lr_remoteAuto := fetched\<rparr>) prev)"

section \<open>Reading what was written\<close>

text \<open>A line in the usual notation: minutes, seconds, milliseconds and the text.\<close>

definition printLine :: "nat \<times> nat \<times> nat \<times> string \<Rightarrow> string" where
  "printLine l =
     (let (m, s, ms, tx) = l
      in ''['' @ padZeros 2 (decimal m) @ '':'' @ padZeros 2 (decimal s) @ ''.'' @ padZeros 3 (decimal ms) @ '']''
         @ tx @ [CHR 0x0A])"

definition line_ok :: "nat \<times> nat \<times> nat \<times> string \<Rightarrow> bool" where
  "line_ok l = (case l of (m, s, ms, tx) \<Rightarrow> s < 100 \<and> ms < 1000 \<and> tx \<noteq> [] \<and> CHR 0x0A \<notin> set tx)"

lemma takeDigits_run:
  "list_all isDigit ds \<Longrightarrow> \<not> isDigit c \<Longrightarrow> takeDigits (ds @ c # s) = (ds, c # s)"
  by (induction ds) (auto simp: takeDigits_def)

lemma restOfLine_line:
  assumes "tx \<noteq> []" and "CHR 0x0A \<notin> set tx"
  shows "restOfLine (CHR '']'' # tx @ CHR 0x0A # s) = Some (tx, s)"
proof -
  have "\<forall>c \<in> set tx. c \<noteq> CHR 0x0A" using assms(2) by auto
  then show ?thesis using assms(1) by (simp add: restOfLine_def)
qed

lemma not_digits [simp]: "\<not> isDigit CHR '':''" "\<not> isDigit CHR ''.''" "\<not> isDigit CHR '']''"
  by (simp_all add: isDigit_def)

lemma timeExp_line:
  assumes "line_ok (m, s, ms, tx)"
  shows "timeExp (printLine (m, s, ms, tx) @ rest) =
    Some ((padZeros 2 (decimal m), padZeros 2 (decimal s), Some (padZeros 3 (decimal ms)), tx),
      length (printLine (m, s, ms, tx)))"
proof -
  have ok: "s < 100" "ms < 1000" "tx \<noteq> []" "CHR 0x0A \<notin> set tx" using assms by (simp_all add: line_ok_def)
  have len: "length (padZeros 2 (decimal m)) \<ge> 2" "length (padZeros 2 (decimal s)) = 2"
    "length (padZeros 3 (decimal ms)) = 3"
    using length_padded [of s 1] length_padded [of ms 2] ok(1,2)
    by (simp_all add: length_padZeros numeral_2_eq_2 numeral_3_eq_3)
  note run = takeDigits_run [OF padZeros_digits]
  show ?thesis
    using len by (simp add: printLine_def timeExp_def run fraction_def restOfLine_line [OF ok(3,4)])
qed

lemma matchAll_step: "m s = Some (x, n) \<Longrightarrow> s \<noteq> [] \<Longrightarrow> 0 < n \<Longrightarrow> matchAll m s = x # matchAll m (drop n s)"
  by (cases s) (auto simp: drop_Cons')

lemma printLine_ne [simp]: "printLine l \<noteq> []"
  by (cases l) (simp add: printLine_def)

lemma matchAll_lines:
  "list_all line_ok ls \<Longrightarrow> matchAll timeExp (concat (map printLine ls)) =
     map (\<lambda>(m, s, ms, tx). (padZeros 2 (decimal m), padZeros 2 (decimal s), Some (padZeros 3 (decimal ms)), tx)) ls"
proof (induction ls)
  case (Cons l ls)
  obtain m s ms tx where l: "l = (m, s, ms, tx)" by (cases l)
  have "timeExp (printLine l @ concat (map printLine ls)) =
      Some ((padZeros 2 (decimal m), padZeros 2 (decimal s), Some (padZeros 3 (decimal ms)), tx), length (printLine l))"
    using Cons.prems timeExp_line [of m s ms tx] by (simp add: l)
  from matchAll_step [where m = timeExp, OF this] Cons show ?case by (simp add: l)
qed simp

lemma timeInMilis_print:
  "ms < 1000 \<Longrightarrow> timeInMilis (padZeros 2 (decimal m)) (padZeros 2 (decimal s)) (Some (padZeros 3 (decimal ms))) =
     Num ((int m * 60 + int s) * 1000 + int ms)"
  using length_padded [of ms 2]
  by (simp add: timeInMilis_def numberOf_padZeros numeral_3_eq_3 del: of_nat_numeral)

text \<open>reading back lyrics in the usual notation gives every line its time in milliseconds and its text, in
  the order of the lines.\<close>

theorem lrc_round_trip:
  assumes "ls \<noteq> []" and "list_all line_ok ls"
  shows "formatLyrics (concat (map printLine ls)) =
    Synced (map (\<lambda>(m, s, ms, tx). (Num ((int m * 60 + int s) * 1000 + int ms), tx)) ls)"
proof -
  have "map (\<lambda>(minute, sec, ms, tx). (timeInMilis minute sec ms, tx)) (matchAll timeExp (concat (map printLine ls))) =
      map (\<lambda>(m, s, ms, tx). (Num ((int m * 60 + int s) * 1000 + int ms), tx)) ls"
    using assms(2) by (auto simp: matchAll_lines line_ok_def list_all_iff timeInMilis_print)
  with assms(1) show ?thesis by (simp add: formatLyrics_def)
qed

lemma lrc_round_trip_witness:
  "formatLyrics (concat (map printLine [(1, 2, 30, ''Hey''), (12, 5, 400, ''Jude'')])) =
     Synced [(Num 62030, ''Hey''), (Num 725400, ''Jude'')]"
  by (subst lrc_round_trip) (simp_all add: line_ok_def)

lemma no_bracket_no_match:
  assumes "CHR ''['' \<notin> set s" and "\<And>s. s \<noteq> [] \<Longrightarrow> hd s \<noteq> CHR ''['' \<Longrightarrow> m s = None"
  shows "matchAll m s = []"
  using assms(1)
proof (induction s)
  case (Cons c s)
  then have "m (c # s) = None" using assms(2) [of "c # s"] by auto
  then show ?case using Cons by simp
qed simp

text \<open>a text without an opening bracket is shown as it is.\<close>

theorem plain_lyrics_unchanged:
  assumes "CHR ''['' \<notin> set s"
  shows "formatLyrics s = Unsynced s"
proof -
  have "matchAll timeExp s = []" "matchAll alternateTimeExp s = []"
    using assms by (auto intro!: no_bracket_no_match simp: timeExp_def alternateTimeExp_def)
  then show ?thesis by (simp add: formatLyrics_def)
qed

lemma plain_lyrics_unchanged_witness: "formatLyrics ''Hey (Jude)'' = Unsynced ''Hey (Jude)''"
  by (rule plain_lyrics_unchanged) simp

text \<open>a line without a fraction of a second is accepted, but its time is not a number.\<close>

theorem line_without_fraction_untimed:
  assumes "s < 100" and "tx \<noteq> []" and "CHR 0x0A \<notin> set tx"
  shows "formatLyrics (''['' @ padZeros 2 (decimal m) @ '':'' @ padZeros 2 (decimal s) @ '']'' @ tx @ [CHR 0x0A]) =
    Synced [(NaN, tx)]" (is "formatLyrics ?l = _")
proof -
  have len: "length (padZeros 2 (decimal m)) \<ge> 2" "length (padZeros 2 (decimal s)) = 2"
    using length_padded [of s 1] assms(1) by (simp_all add: length_padZeros numeral_2_eq_2)
  note run = takeDigits_run [OF padZeros_digits]
  have "timeExp ?l = Some ((padZeros 2 (decimal m), padZeros 2 (decimal s), None, tx), length ?l)"
    using len restOfLine_line [OF assms(2,3), of "[]"] by (simp add: timeExp_def run fraction_def)
  from matchAll_step [where m = timeExp, OF this] show ?thesis
    by (simp add: formatLyrics_def timeInMilis_def)
qed

lemma line_without_fraction_untimed_witness:
  "formatLyrics (''['' @ padZeros 2 (decimal 1) @ '':'' @ padZeros 2 (decimal 5) @ '']'' @ ''Hey'' @ [CHR 0x0A]) =
     Synced [(NaN, ''Hey'')]"
  by (rule line_without_fraction_untimed) simp_all

section \<open>Which lyrics are shown\<close>

lemma hasLocalLyrics_selects: "hasLocalLyrics local \<longleftrightarrow> selectLocal local k \<noteq> None"
  by (cases local) (auto simp: Let_def)

lemma selectLocal_shown: "selectLocal local k = Some x \<Longrightarrow> fst x \<noteq> No_lyrics"
  by (cases local) (auto simp: Let_def split: if_splits)

lemma withoutOverride_none:
  "fst (withoutOverride local remote p k) = No_lyrics \<longleftrightarrow> remote = None \<and> \<not> hasLocalLyrics local"
  using hasLocalLyrics_selects [of local k] selectLocal_shown [of local k]
  by (cases "selectLocal local k") (auto simp: withoutOverride_def split: option.splits)

lemma computeSelected_none:
  "fst (computeSelectedFromResult local d sel remote off p k) = No_lyrics \<longleftrightarrow>
     \<not> (sel \<noteq> None \<and> (case d of None \<Rightarrow> False | Some t \<Rightarrow> truthyLyrics t)) \<and> remote = None \<and> \<not> hasLocalLyrics local"
  by (cases sel; cases d) (simp_all add: computeSelectedFromResult_def withoutOverride_none)

lemma songLyricsResult_selected:
  "lr_selected (songLyricsResult p b local remote d) = No_lyrics \<longleftrightarrow>
     \<not> (lr_overrideSelection p \<noteq> None \<and> (case d of None \<Rightarrow> False | Some t \<Rightarrow> truthyLyrics t))
     \<and> remote = None \<and> \<not> hasLocalLyrics local"
  by (simp add: songLyricsResult_def Let_def computeSelected_none)

lemma songLyricsResult_fields [simp]:
  "lr_local (songLyricsResult p b local remote d) = local"
  "lr_overrideData (songLyricsResult p b local remote d) = d"
  "lr_remoteAuto (songLyricsResult p b local remote d) = remote"
  "lr_overrideSelection (songLyricsResult p b local remote d) = lr_overrideSelection p"
  "lr_selectedStructuredIndex (songLyricsResult p b local remote d) = lr_selectedStructuredIndex p"
  by (simp_all add: songLyricsResult_def Let_def)

text \<open>the query of a song shows no lyrics only if there are none: no text of the chosen lyrics, none
  from a provider, and none from the server.\<close>

theorem lyrics_shown_when_any:
  assumes "songLyrics prev p fetch localAnswer remoteAnswer overrideAnswer = Some r"
  shows "lr_selected r = No_lyrics \<longleftrightarrow>
    \<not> (lr_overrideSelection r \<noteq> None
      \<and> (case lr_overrideData r of None \<Rightarrow> False | Some t \<Rightarrow> truthyLyrics t))
    \<and> lr_remoteAuto r = None \<and> \<not> hasLocalLyrics (lr_local r)"
  using assms
  by (auto simp: songLyrics_def Let_def songLyricsResult_selected split: option.split_asm)

text \<open>preferred local lyrics are shown as soon as the server has answered, whatever the providers do,
  unless the user chose others.\<close>

theorem preferred_local_lyrics_shown:
  assumes "hasLocalLyrics local" and "prev = None \<or> lr_overrideSelection (the prev) = None"
  shows "\<exists>r. songLyrics prev True fetch (Some local) remoteAnswer overrideAnswer = Some r
    \<and> Some (lr_selected r, lr_selectedSynced r) = selectLocal local (lr_selectedStructuredIndex r)"
proof -
  define p where "p = nullish_or prev emptyResult"
  have sel: "lr_overrideSelection p = None" using assms(2) by (cases prev) (simp_all add: p_def emptyResult_def)
  obtain x where x: "selectLocal local (lr_selectedStructuredIndex p) = Some x"
    using hasLocalLyrics_selects assms(1) by fastforce
  have "songLyrics prev True fetch (Some local) remoteAnswer overrideAnswer =
      Some (songLyricsResult p True local None None)"
    by (simp add: songLyrics_def Let_def p_def [symmetric] awaitedRemoteAuto_def awaitedOverride_def assms(1) sel)
  moreover have "(lr_selected (songLyricsResult p True local None None),
      lr_selectedSynced (songLyricsResult p True local None None)) = x"
    by (simp add: songLyricsResult_def Let_def computeSelectedFromResult_def withoutOverride_def sel assms(1) x)
  ultimately show ?thesis using x by simp
qed

definition plain_line :: full_lyrics where
  "plain_line = \<lparr>fl_artist = None, fl_lyrics = Unsynced ''Hey'', fl_name = ''a'', fl_offsetMs = None,
     fl_remote = False, fl_source = ''home''\<rparr>"

lemma preferred_local_lyrics_shown_witness:
  "\<exists>r. songLyrics None True True (Some (Local_full plain_line)) None None = Some r
     \<and> Some (lr_selected r, lr_selectedSynced r) = selectLocal (Local_full plain_line) (lr_selectedStructuredIndex r)"
  by (rule preferred_local_lyrics_shown) (simp_all add: plain_line_def)

lemma lyrics_shown_when_any_witness:
  "\<exists>r. songLyrics None False False (Some No_local) None None = Some r \<and> lr_selected r = No_lyrics"
proof -
  have e: "songLyrics None False False (Some No_local) None None =
      Some (songLyricsResult emptyResult False No_local None None)"
    by (simp add: songLyrics_def awaitedRemoteAuto_def awaitedOverride_def emptyResult_def)
  show ?thesis using lyrics_shown_when_any [OF e] e by simp
qed

end
