(* ===== verification/EventEmitter.thy ===== *)
theory EventEmitter
  imports Prelude
begin

text \<open>
  The event emitter (\<^verbatim>\<open>events/event-emitter.ts\<close>). The registered callbacks of an event are an array that
  an emission goes through while the callbacks may change it, so arrays are kept in a heap and the map of the
  events holds their addresses. A callback is an arbitrary function on the emitter, which may also throw;
  in that way it can register and remove callbacks and emit other events.
\<close>

section \<open>The emitter\<close>

type_synonym addr = nat

text \<open>What is done with an error: the handler if there is one, or the console, is called.\<close>

datatype ('p, 'e) handled = By_handler 'e string 'p | On_console 'e string 'p

record ('c, 'p, 'e) emitter =
  em_events :: "string \<Rightarrow> addr option"
  em_heap :: "addr \<Rightarrow> 'c list"
  em_free :: addr
  em_hasHandler :: bool
  em_handled :: "('p, 'e) handled list"

definition newEmitter :: "('c, 'p, 'e) emitter" where
  "newEmitter = \<lparr>em_events = Map.empty, em_heap = (\<lambda>_. []), em_free = 0, em_hasHandler = False, em_handled = []\<rparr>"

definition on :: "string \<Rightarrow> 'c \<Rightarrow> ('c, 'p, 'e) emitter \<Rightarrow> ('c, 'p, 'e) emitter" where
  "on eventKey callback e =
     (let e1 = (if em_events e eventKey = None
                then e\<lparr>em_events := (em_events e)(eventKey \<mapsto> em_free e),
                       em_heap := (em_heap e)(em_free e := []), em_free := Suc (em_free e)\<rparr>
                else e);
          a = the (em_events e1 eventKey)
      in e1\<lparr>em_heap := (em_heap e1)(a := em_heap e1 a @ [callback])\<rparr>)"

text \<open>\<open>indexOf\<close> and \<open>splice(index, 1)\<close> remove the first occurrence.\<close>

definition off :: "string \<Rightarrow> 'c \<Rightarrow> ('c, 'p, 'e) emitter \<Rightarrow> ('c, 'p, 'e) emitter" where
  "off event callback e =
     (case em_events e event of
        None \<Rightarrow> e
      | Some a \<Rightarrow>
          (let index = findIndex (\<lambda>c. c = callback) (em_heap e a)
           in if index > -1
              then e\<lparr>em_heap := (em_heap e)(a := take (nat index) (em_heap e a) @ drop (Suc (nat index)) (em_heap e a))\<rparr>
              else e))"

text \<open>Without an event, or with the empty name, all are removed. The arrays themselves are not touched.\<close>

definition removeAllListeners :: "string option \<Rightarrow> ('c, 'p, 'e) emitter \<Rightarrow> ('c, 'p, 'e) emitter" where
  "removeAllListeners event e =
     (if truthy event then e\<lparr>em_events := (em_events e)(the event := None)\<rparr> else e\<lparr>em_events := Map.empty\<rparr>)"

definition setErrorHandler :: "('c, 'p, 'e) emitter \<Rightarrow> ('c, 'p, 'e) emitter" where
  "setErrorHandler e = e\<lparr>em_hasHandler := True\<rparr>"

definition handleError :: "'e \<Rightarrow> string \<Rightarrow> 'p \<Rightarrow> ('c, 'p, 'e) emitter \<Rightarrow> ('c, 'p, 'e) emitter" where
  "handleError err event payload e =
     e\<lparr>em_handled := em_handled e @ [if em_hasHandler e then By_handler err event payload else On_console err event payload]\<rparr>"

text \<open>What a call of a callback does: the emitter afterwards, and the error if it throws.\<close>

type_synonym ('c, 'p, 'e) behaviour = "'c \<Rightarrow> 'p \<Rightarrow> ('c, 'p, 'e) emitter \<Rightarrow> ('c, 'p, 'e) emitter \<times> 'e option"

definition callGuarded ::
    "('c, 'p, 'e) behaviour \<Rightarrow> string \<Rightarrow> 'p \<Rightarrow> 'c \<Rightarrow> ('c, 'p, 'e) emitter \<Rightarrow> ('c, 'p, 'e) emitter" where
  "callGuarded run event payload callback e =
     (case run callback payload e of
        (e', None) \<Rightarrow> e'
      | (e', Some err) \<Rightarrow> handleError err event payload e')"

text \<open>\<open>forEach\<close> visits the indexes up to the length that the array had at first, if they are still there.\<close>

primrec forEachFrom ::
    "('c \<Rightarrow> ('c, 'p, 'e) emitter \<Rightarrow> ('c, 'p, 'e) emitter) \<Rightarrow> addr \<Rightarrow> nat \<Rightarrow> nat
       \<Rightarrow> ('c, 'p, 'e) emitter \<Rightarrow> ('c, 'p, 'e) emitter" where
  "forEachFrom call a 0 k e = e"
| "forEachFrom call a (Suc n) k e =
     forEachFrom call a n (Suc k) (if k < length (em_heap e a) then call (em_heap e a ! k) e else e)"

definition emit_event ::
    "('c, 'p, 'e) behaviour \<Rightarrow> string \<Rightarrow> 'p \<Rightarrow> ('c, 'p, 'e) emitter \<Rightarrow> ('c, 'p, 'e) emitter" where
  "emit_event run event payload e =
     (case em_events e event of
        None \<Rightarrow> e
      | Some a \<Rightarrow> forEachFrom (callGuarded run event payload) a (length (em_heap e a)) 0 e)"

section \<open>The specification\<close>

text \<open>For every event, the registered callbacks in the order of their registration.\<close>

definition listeners :: "('c, 'p, 'e) emitter \<Rightarrow> string \<Rightarrow> 'c list" where
  "listeners e event = (case em_events e event of None \<Rightarrow> [] | Some a \<Rightarrow> em_heap e a)"

text \<open>Every event has an array of its own, below the first free address.\<close>

definition emitter_ok :: "('c, 'p, 'e) emitter \<Rightarrow> bool" where
  "emitter_ok e \<longleftrightarrow>
     (\<forall>ev a. em_events e ev = Some a \<longrightarrow> a < em_free e)
     \<and> (\<forall>ev ev' a. em_events e ev = Some a \<longrightarrow> em_events e ev' = Some a \<longrightarrow> ev = ev')"

datatype 'c emitter_op = Em_on string 'c | Em_off string 'c | Em_remove "string option" | Em_handler

fun emitter_step :: "'c emitter_op \<Rightarrow> ('c, 'p, 'e) emitter \<Rightarrow> ('c, 'p, 'e) emitter" where
  "emitter_step (Em_on event callback) e = on event callback e"
| "emitter_step (Em_off event callback) e = off event callback e"
| "emitter_step (Em_remove event) e = removeAllListeners event e"
| "emitter_step Em_handler e = setErrorHandler e"

fun listeners_step :: "'c emitter_op \<Rightarrow> (string \<Rightarrow> 'c list) \<Rightarrow> string \<Rightarrow> 'c list" where
  "listeners_step (Em_on event callback) l = l(event := l event @ [callback])"
| "listeners_step (Em_off event callback) l = l(event := remove1 callback (l event))"
| "listeners_step (Em_remove event) l = (if truthy event then l(the event := []) else (\<lambda>_. []))"
| "listeners_step Em_handler l = l"

lemma splice_first:
  "findIndex (\<lambda>c. c = x) xs > -1 \<Longrightarrow>
     take (nat (findIndex (\<lambda>c. c = x) xs)) xs @ drop (Suc (nat (findIndex (\<lambda>c. c = x) xs))) xs = remove1 x xs"
proof (induction xs)
  case (Cons y ys)
  show ?case
  proof (cases "y = x")
    case False
    with Cons.prems have "findIndex (\<lambda>c. c = x) ys > -1"
      using findIndex_ge [of "\<lambda>c. c = x" ys] by (auto simp: Let_def split: if_splits)
    with Cons.IH False show ?thesis by (simp add: Let_def nat_add_distrib)
  qed simp
qed simp

lemma splice_none: "\<not> findIndex (\<lambda>c. c = x) xs > -1 \<Longrightarrow> x \<notin> set xs"
  using findIndex_ge [of "\<lambda>c. c = x" xs] findIndex_none [of "\<lambda>c. c = x" xs] by auto

lemma off_heap:
  "em_events e event = Some a \<Longrightarrow>
     off event callback e = e\<lparr>em_heap := (em_heap e)(a := remove1 callback (em_heap e a))\<rparr>"
  by (auto simp: off_def Let_def splice_first splice_none remove1_idem)

lemma off_none: "em_events e event = None \<Longrightarrow> off event callback e = e"
  by (simp add: off_def)

lemma on_new:
  "em_events e event = None \<Longrightarrow>
     on event callback e = e\<lparr>em_events := (em_events e)(event \<mapsto> em_free e),
       em_heap := (em_heap e)(em_free e := [callback]), em_free := Suc (em_free e)\<rparr>"
  by (simp add: on_def Let_def)

lemma on_old:
  "em_events e event = Some a \<Longrightarrow>
     on event callback e = e\<lparr>em_heap := (em_heap e)(a := em_heap e a @ [callback])\<rparr>"
  by (simp add: on_def)

lemma emitter_step_ok: "emitter_ok e \<Longrightarrow> emitter_ok (emitter_step x e)"
proof (cases x)
  case (Em_on ev c)
  moreover assume "emitter_ok e"
  ultimately show ?thesis
    by (cases "em_events e ev") (auto simp: on_new on_old emitter_ok_def less_Suc_eq)
next
  case (Em_off ev c)
  moreover assume "emitter_ok e"
  ultimately show ?thesis
    by (cases "em_events e ev") (auto simp: off_heap off_none emitter_ok_def)
qed (auto simp: emitter_ok_def removeAllListeners_def setErrorHandler_def)

lemma listeners_refine:
  assumes "emitter_ok e"
  shows "listeners (emitter_step x e) = listeners_step x (listeners e)"
proof (cases x)
  case (Em_on ev c)
  with assms show ?thesis
    by (cases "em_events e ev")
      (auto simp: on_new on_old listeners_def emitter_ok_def fun_eq_iff split: option.splits)
next
  case (Em_off ev c)
  with assms show ?thesis
    by (cases "em_events e ev")
      (auto simp: off_heap off_none listeners_def emitter_ok_def fun_eq_iff split: option.splits)
qed (auto simp: listeners_def removeAllListeners_def setErrorHandler_def fun_eq_iff split: option.split)

interpretation emitter: driven_component emitter_step emitter_ok
  by unfold_locales (rule emitter_step_ok)

lemma newEmitter_ok [simp]: "emitter_ok newEmitter" "listeners newEmitter = (\<lambda>_. [])"
  by (auto simp: emitter_ok_def newEmitter_def listeners_def)

lemma listeners_run:
  "emitter_ok e \<Longrightarrow> listeners (fold emitter_step ops e) = fold listeners_step ops (listeners e)"
  by (induction ops arbitrary: e) (simp_all add: emitter_step_ok listeners_refine)

text \<open>
  C11: The emitter refines a map from events to lists of callbacks: after any sequence of registrations and
  removals, which ones are registered for an event, and in which order, is what the list operations say;
  the arrays of different events never mix.
\<close>

theorem emitter_refines_listeners:
  "listeners (fold emitter_step ops newEmitter) = fold listeners_step ops (\<lambda>_. [])"
  by (simp add: listeners_run)

section \<open>Emitting\<close>

text \<open>Callbacks that leave the array alone; all of them then run, in order, whether or not some throw.\<close>

definition keeps_array :: "('c \<Rightarrow> ('c, 'p, 'e) emitter \<Rightarrow> ('c, 'p, 'e) emitter) \<Rightarrow> addr \<Rightarrow> 'c set \<Rightarrow> bool" where
  "keeps_array call a C \<longleftrightarrow> (\<forall>c \<in> C. \<forall>e. em_heap (call c e) a = em_heap e a)"

lemma forEach_add:
  "forEachFrom call a (m + n) k e = forEachFrom call a n (k + m) (forEachFrom call a m k e)"
  by (induction m arbitrary: k e) simp_all

lemma forEach_past: "length (em_heap e a) \<le> k \<Longrightarrow> forEachFrom call a n k e = e"
  by (induction n arbitrary: k) simp_all

lemma fold_keeps: "keeps_array call a (set cs) \<Longrightarrow> em_heap (fold call cs e) a = em_heap e a"
  by (induction cs arbitrary: e) (simp_all add: keeps_array_def)

lemma forEach_run:
  assumes "keeps_array call a (set cs)" and "em_heap e a = pre @ cs @ post"
  shows "forEachFrom call a (length cs) (length pre) e = fold call cs e"
  using assms
proof (induction cs arbitrary: pre e)
  case (Cons c cs)
  have h: "em_heap (call c e) a = (pre @ [c]) @ cs @ post" and k: "keeps_array call a (set cs)"
    using Cons.prems by (simp_all add: keeps_array_def)
  from Cons.IH [OF k h] Cons.prems(2) show ?case by (simp add: nth_append)
qed simp

lemma handleError_heap [simp]: "em_heap (handleError err event payload e) = em_heap e"
  by (simp add: handleError_def)

lemma callGuarded_heap: "em_heap (callGuarded run event payload c e) = em_heap (fst (run c payload e))"
  by (auto simp: callGuarded_def split: prod.splits option.splits)

text \<open>
  An emission calls every registered callback once, in the order of registration, with the payload,
  although some of them throw, as long as they do not change what is registered for the event.
\<close>

theorem emit_calls_all_in_order:
  assumes "em_events e0 event = Some a"
    and "\<forall>c \<in> set (listeners e0 event). \<forall>e. em_heap (fst (run c payload e)) a = em_heap e a"
  shows "emit_event run event payload e0 = fold (callGuarded run event payload) (listeners e0 event) e0"
proof -
  have "keeps_array (callGuarded run event payload) a (set (em_heap e0 a))"
    using assms by (simp add: keeps_array_def callGuarded_heap listeners_def)
  from forEach_run [OF this, of e0 "[]" "[]"] assms(1) show ?thesis by (simp add: emit_event_def listeners_def)
qed

text \<open>Two callbacks for the examples: one logs by throwing, the other does nothing.\<close>

definition exampleRun :: "(nat, nat, nat) behaviour" where
  "exampleRun c p e = (e, if even c then Some (c + p) else None)"

theorem emit_calls_all_in_order_witness:
  "em_handled (emit_event exampleRun ''PLAYER_PLAY'' 10 (on ''PLAYER_PLAY'' 4 (on ''PLAYER_PLAY'' 3 (on ''PLAYER_PLAY'' 2 newEmitter)))) =
     [On_console 12 ''PLAYER_PLAY'' 10, On_console 14 ''PLAYER_PLAY'' 10]"
  by (subst emit_calls_all_in_order [where a = 0])
    (simp_all add: on_def newEmitter_def exampleRun_def listeners_def callGuarded_def handleError_def)

text \<open>
  A flaw of the emission: a callback that removes itself while it is called hides the one that was
  registered after it, because the array is changed while \<open>forEach\<close> goes through it.
\<close>

theorem self_removal_hides_next_listener:
  assumes "em_events e0 event = Some a" and "listeners e0 event = pre @ c # d # post" and "c \<notin> set pre"
    and "\<forall>x \<in> set (pre @ post). \<forall>e. em_heap (fst (run x payload e)) a = em_heap e a"
    and "\<forall>e. em_heap (fst (run c payload e)) a = remove1 c (em_heap e a)"
  shows "emit_event run event payload e0 = fold (callGuarded run event payload) (pre @ c # post) e0"
proof -
  let ?call = "callGuarded run event payload"
  have h: "em_heap e0 a = pre @ (c # d # post)" using assms(1,2) by (simp add: listeners_def)
  have keep: "keeps_array ?call a (set pre)" "keeps_array ?call a (set post)"
    using assms(4) by (auto simp: keeps_array_def callGuarded_heap)
  let ?e1 = "fold ?call pre e0" and ?e2 = "?call c (fold ?call pre e0)"
  have e1: "em_heap ?e1 a = pre @ c # d # post" using fold_keeps [OF keep(1)] h by simp
  have e2: "em_heap ?e2 a = (pre @ [d]) @ post @ []"
    using assms(3,5) e1 by (simp add: callGuarded_heap remove1_append)
  have "emit_event run event payload e0 =
      forEachFrom ?call a (length pre + (1 + (length post + 1))) 0 e0"
    using assms(1) h by (simp add: emit_event_def)
  also have "\<dots> = forEachFrom ?call a (length post + 1) (Suc (length pre)) ?e2"
    using forEach_run [OF keep(1), of e0 "[]"] h e1 by (simp only: forEach_add) simp
  also have "\<dots> = forEachFrom ?call a 1 (Suc (length pre) + length post) (fold ?call post ?e2)"
    using forEach_run [OF keep(2) e2] by (simp only: forEach_add) simp
  also have "\<dots> = fold ?call post ?e2"
    using fold_keeps [OF keep(2)] e2 by (intro forEach_past) simp
  finally show ?thesis by simp
qed

definition selfRemoving :: "(nat, nat, nat) behaviour" where
  "selfRemoving c p e = (if c = 1 then (e\<lparr>em_heap := (em_heap e)(0 := remove1 1 (em_heap e 0))\<rparr>, Some c) else (e, Some c))"

theorem self_removal_hides_next_listener_witness:
  "em_handled (emit_event selfRemoving ''A'' 0 (on ''A'' 3 (on ''A'' 2 (on ''A'' 1 newEmitter)))) =
     [On_console 1 ''A'' 0, On_console 3 ''A'' 0]"
  by (subst self_removal_hides_next_listener [where a = 0 and pre = "[]" and c = 1 and d = 2 and post = "[3]"])
    (simp_all add: on_def newEmitter_def selfRemoving_def listeners_def callGuarded_def handleError_def)

end
