(* ===== verification/MediaTypes.thy ===== *)
theory MediaTypes
  imports PlayerTypes
begin

text \<open>
  The items of the library as the adapters deliver them (\<^verbatim>\<open>shared/types/domain-types.ts\<close>): songs with all
  their fields, albums, artists, playlists, genres, folders and radio stations; the enumerations by which lists
  are sorted; the answers of paginated requests.
\<close>

section \<open>Items\<close>

datatype ExplicitStatus = CLEAN | EXPLICIT

record song_gain =
  gi_album :: "rat option"
  gi_track :: "rat option"

text \<open>The fields of a song beyond those that the player reads; \<open>s_rest\<close> of such a song is unused.\<close>

record full_song = song +
  so_album :: "string option"
  so_albumArtistName :: string
  so_bitDepth :: "rat option"
  so_bitRate :: rat
  so_bpm :: "rat option"
  so_channels :: "rat option"
  so_compilation :: "bool option"
  so_container :: "string option"
  so_createdAt :: string
  so_discSubtitle :: "string option"
  so_explicitStatus :: "ExplicitStatus option"
  so_gain :: "song_gain option"
  so_imageId :: "string option"
  so_imageUrl :: "string option"
  so_lastPlayedAt :: "string option"
  so_lyrics :: "string option"
  so_mbzRecordingId :: "string option"
  so_mbzTrackId :: "string option"
  so_participants :: "related list obj option"
  so_peak :: "song_gain option"
  so_releaseDate :: "string option"
  so_sampleRate :: "rat option"
  so_size :: rat
  so_sortName :: string
  so_tags :: "string list obj option"
  so_trackSubtitle :: "string option"
  so_updatedAt :: string

record genre =
  ge_serverId :: string
  ge_serverType :: ServerType
  ge_itemType :: LibraryItem
  ge_albumCount :: "nat option"
  ge_id :: string
  ge_imageId :: "string option"
  ge_imageUrl :: "string option"
  ge_name :: string
  ge_songCount :: "nat option"

record album =
  al_serverId :: string
  al_serverType :: ServerType
  al_itemType :: LibraryItem
  al_albumArtistName :: string
  al_albumArtists :: "related list"
  al_artists :: "related list"
  al_comment :: "string option"
  al_createdAt :: string
  al_duration :: "rat option"
  al_explicitStatus :: "ExplicitStatus option"
  al_genres :: "genre list"
  al_id :: string
  al_imageId :: "string option"
  al_imageUrl :: "string option"
  al_isCompilation :: "bool option"
  al_lastPlayedAt :: "string option"
  al_mbzId :: "string option"
  al_mbzReleaseGroupId :: "string option"
  al_name :: string
  al_originalDate :: "string option"
  al_originalYear :: nat
  al_participants :: "related list obj option"
  al_playCount :: "rat option"
  al_recordLabels :: "string list"
  al_releaseDate :: "string option"
  al_releaseType :: "string option"
  al_releaseTypes :: "string list"
  al_releaseYear :: "nat option"
  al_size :: "rat option"
  al_songCount :: "nat option"
  al_songs :: "full_song list"
  al_sortName :: string
  al_tags :: "string list obj option"
  al_updatedAt :: string
  al_userFavorite :: bool
  al_userRating :: "rat option"
  al_version :: "string option"

record album_artist =
  ar_serverId :: string
  ar_serverType :: ServerType
  ar_itemType :: LibraryItem
  ar_albumCount :: "nat option"
  ar_biography :: "string option"
  ar_duration :: "rat option"
  ar_genres :: "genre list"
  ar_id :: string
  ar_imageId :: "string option"
  ar_imageUrl :: "string option"
  ar_lastPlayedAt :: "string option"
  ar_mbz :: "string option"
  ar_name :: string
  ar_playCount :: "rat option"
  ar_similarArtists :: "related list"
  ar_songCount :: "nat option"
  ar_userFavorite :: bool
  ar_userRating :: "rat option"

record playlist =
  pl_serverId :: string
  pl_serverType :: ServerType
  pl_itemType :: LibraryItem
  pl_description :: "string option"
  pl_duration :: "rat option"
  pl_genres :: "genre list"
  pl_id :: string
  pl_imageId :: "string option"
  pl_imageUrl :: "string option"
  pl_name :: string
  pl_owner :: "string option"
  pl_ownerId :: "string option"
  pl_public :: "bool option"
  pl_size :: "rat option"
  pl_songCount :: "nat option"

text \<open>Server id, server type, subfolders, songs, id, image id, name, and the id of the parent.\<close>

datatype media_folder = Folder (fo_serverId: string) (fo_serverType: ServerType) (fo_folders: "media_folder list")
  (fo_songs: "full_song list") (fo_id: string) (fo_imageId: "string option") (fo_name: string)
  (fo_parentId: "string option")

record radio_station =
  rs_homepageUrl :: "string option"
  rs_id :: string
  rs_imageId :: "string option"
  rs_imageUrl :: "string option"
  rs_name :: string
  rs_streamUrl :: string

section \<open>Sorting and pages\<close>

datatype SortOrder = ASC | DESC

datatype SongListSort = Song_ALBUM | Song_ALBUM_ARTIST | Song_ARTIST | Song_BPM | Song_CHANNELS | Song_COMMENT
  | Song_DURATION | Song_EXPLICIT_STATUS | Song_FAVORITED | Song_GENRE | Song_ID | Song_NAME | Song_PLAY_COUNT
  | Song_RANDOM | Song_RATING | Song_RECENTLY_ADDED | Song_RECENTLY_PLAYED | Song_RELEASE_DATE | Song_SORT_NAME
  | Song_YEAR

datatype AlbumListSort = Album_ALBUM_ARTIST | Album_ARTIST | Album_COMMUNITY_RATING | Album_CRITIC_RATING
  | Album_DURATION | Album_EXPLICIT_STATUS | Album_FAVORITED | Album_ID | Album_NAME | Album_PLAY_COUNT
  | Album_RANDOM | Album_RATING | Album_RECENTLY_ADDED | Album_RECENTLY_PLAYED | Album_RELEASE_DATE
  | Album_SONG_COUNT | Album_SORT_NAME | Album_YEAR

datatype AlbumArtistListSort = Artist_ALBUM | Artist_ALBUM_COUNT | Artist_DURATION | Artist_FAVORITED | Artist_NAME
  | Artist_PLAY_COUNT | Artist_RANDOM | Artist_RATING | Artist_RECENTLY_ADDED | Artist_RELEASE_DATE
  | Artist_SONG_COUNT

datatype RadioListSort = Radio_ID | Radio_NAME

datatype PlaylistListSort = Playlist_DURATION | Playlist_NAME | Playlist_OWNER | Playlist_PUBLIC
  | Playlist_SONG_COUNT | Playlist_UPDATED_AT

text \<open>An answer with one page of a list; the total is null when it is not known.\<close>

record 'a page =
  pg_items :: "'a list"
  pg_startIndex :: nat
  pg_totalRecordCount :: "nat option"

end
