(* ===== verification/ClientSort.thy ===== *)
theory ClientSort
  imports MediaTypes "HOL-Library.Sorting_Algorithms"
begin

text \<open>
  The lists that are sorted by the client (\<^verbatim>\<open>shared/api/utils.ts\<close>). Sorting itself is lodash's \<open>orderBy\<close> and
  shuffling its \<open>shuffle\<close>, which are arguments; \<open>ordersBy\<close> states what is documented of the first: the
  result is sorted by the keys, and stable. Dates are compared by times that are arguments as well.
\<close>

section \<open>Keys\<close>

datatype sort_value = Key_undefined | Key_null | Key_num rat | Key_text string | Key_bool bool

type_synonym 'a key = "'a \<Rightarrow> sort_value"

text \<open>The keys, for each whether it descends, and the list.\<close>

type_synonym 'a order_by = "'a key list \<Rightarrow> bool list \<Rightarrow> 'a list \<Rightarrow> 'a list"

text \<open>Lower case; the time of the midnight before a date; the time of a date; the time of the first of a year.\<close>

record sort_lib =
  lo_lower :: "string \<Rightarrow> string"
  lo_day :: "string \<Rightarrow> rat"
  lo_time :: "string \<Rightarrow> rat"
  lo_year :: "int \<Rightarrow> rat"

definition opt_num :: "rat option \<Rightarrow> sort_value" where
  "opt_num x = (case x of None \<Rightarrow> Key_null | Some n \<Rightarrow> Key_num n)"

definition opt_text :: "string option \<Rightarrow> sort_value" where
  "opt_text x = (case x of None \<Rightarrow> Key_null | Some s \<Rightarrow> Key_text s)"

text \<open>\<open>x?.toLowerCase()\<close>, undefined when there is no text.\<close>

definition lowered :: "sort_lib \<Rightarrow> string option \<Rightarrow> sort_value" where
  "lowered L x = (case x of None \<Rightarrow> Key_undefined | Some s \<Rightarrow> Key_text (lo_lower L s))"

definition albumKey :: "sort_lib \<Rightarrow> full_song key" where
  "albumKey L v = lowered L (so_album v)"

definition nameKey :: "sort_lib \<Rightarrow> full_song key" where
  "nameKey L v = Key_text (lo_lower L (s_name v))"

definition discKey :: "full_song key" where
  "discKey v = Key_num (of_int (s_discNumber v))"

definition trackKey :: "full_song key" where
  "trackKey v = Key_num (of_int (s_trackNumber v))"

text \<open>\<open>v.albumArtists[0]?.name\<close> and the like.\<close>

definition firstNameKey :: "sort_lib \<Rightarrow> related list \<Rightarrow> sort_value" where
  "firstNameKey L xs = lowered L (case xs of [] \<Rightarrow> None | x # _ \<Rightarrow> Some (rel_name x))"

section \<open>Songs\<close>

definition sortSongList ::
    "sort_lib \<Rightarrow> full_song order_by \<Rightarrow> (full_song list \<Rightarrow> full_song list) \<Rightarrow> full_song list \<Rightarrow> SongListSort
       \<Rightarrow> SortOrder \<Rightarrow> full_song list" where
  "sortSongList L orderBy shuffled songs sortBy sortOrder =
     (let desc = (sortOrder \<noteq> ASC);
          by_keys = (\<lambda>keys. orderBy keys (replicate (length keys) desc) songs);
          rest = [albumKey L, discKey, trackKey]
      in case sortBy of
           Song_ALBUM \<Rightarrow> by_keys rest
         | Song_ALBUM_ARTIST \<Rightarrow> by_keys ((\<lambda>v. firstNameKey L (s_albumArtists v)) # rest)
         | Song_ARTIST \<Rightarrow> by_keys [\<lambda>v. Key_text (lo_lower L (s_artistName v)), discKey, trackKey]
         | Song_BPM \<Rightarrow> by_keys ((\<lambda>v. opt_num (so_bpm v)) # rest)
         | Song_CHANNELS \<Rightarrow> by_keys ((\<lambda>v. opt_num (so_channels v)) # rest)
         | Song_COMMENT \<Rightarrow> by_keys ((\<lambda>v. opt_text (s_comment v)) # rest)
         | Song_DURATION \<Rightarrow> by_keys ((\<lambda>v. Key_num (s_duration v)) # rest)
         | Song_FAVORITED \<Rightarrow> by_keys ((\<lambda>v. Key_bool (s_userFavorite v)) # nameKey L # rest)
         | Song_GENRE \<Rightarrow> by_keys ((\<lambda>v. firstNameKey L (s_genres v)) # rest)
         | Song_ID \<Rightarrow> (if desc then rev songs else songs)
         | Song_NAME \<Rightarrow> by_keys [nameKey L, albumKey L]
         | Song_PLAY_COUNT \<Rightarrow> by_keys ((\<lambda>v. Key_num (of_int (s_playCount v))) # rest)
         | Song_RANDOM \<Rightarrow> shuffled songs
         | Song_RATING \<Rightarrow> by_keys ((\<lambda>v. opt_num (s_userRating v)) # nameKey L # rest)
         | Song_RECENTLY_ADDED \<Rightarrow> by_keys ((\<lambda>v. Key_num (lo_day L (so_createdAt v))) # rest)
         | Song_RECENTLY_PLAYED \<Rightarrow> by_keys ((\<lambda>v. opt_text (so_lastPlayedAt v)) # rest)
         | Song_RELEASE_DATE \<Rightarrow> by_keys ((\<lambda>v. opt_text (so_releaseDate v)) # rest)
         | Song_SORT_NAME \<Rightarrow> by_keys [\<lambda>v. Key_text (so_sortName v)]
         | Song_YEAR \<Rightarrow> by_keys ((\<lambda>v. opt_num (map_option of_int (s_releaseYear v))) # rest)
         | Song_EXPLICIT_STATUS \<Rightarrow> songs)"

section \<open>Artists, albums and stations\<close>

text \<open>
  Two of the keys name properties that these items do not have, \<open>starred\<close> of artists and albums and
  \<open>albumArtist\<close> of albums: their value is undefined.
\<close>

definition missingKey :: "'a key" where
  "missingKey v = Key_undefined"

definition sortAlbumArtistList ::
    "sort_lib \<Rightarrow> album_artist order_by \<Rightarrow> album_artist list \<Rightarrow> AlbumArtistListSort \<Rightarrow> SortOrder \<Rightarrow> album_artist list" where
  "sortAlbumArtistList L orderBy artists sortBy sortOrder =
     (let desc = (sortOrder \<noteq> ASC); name = (\<lambda>v. Key_text (lo_lower L (ar_name v)))
      in case sortBy of
           Artist_ALBUM_COUNT \<Rightarrow> orderBy [\<lambda>v. opt_num (map_option of_nat (ar_albumCount v)), name] [desc, False] artists
         | Artist_FAVORITED \<Rightarrow> orderBy [missingKey] [desc] artists
         | Artist_NAME \<Rightarrow> orderBy [name] [desc] artists
         | Artist_RATING \<Rightarrow> orderBy [\<lambda>v. opt_num (ar_userRating v)] [desc] artists
         | _ \<Rightarrow> artists)"

definition originalTime :: "sort_lib \<Rightarrow> album key" where
  "originalTime L v =
     Key_num (if truthy (al_originalDate v) then lo_time L (the (al_originalDate v))
       else if al_originalYear v \<noteq> 0 then lo_year L (int (al_originalYear v)) else 0)"

definition releaseTime :: "sort_lib \<Rightarrow> album key" where
  "releaseTime L v =
     Key_num (if truthy (al_releaseDate v) then lo_time L (the (al_releaseDate v))
       else if nullish_or (al_releaseYear v) 0 \<noteq> 0 then lo_year L (int (the (al_releaseYear v))) else 0)"

definition sortAlbumList ::
    "sort_lib \<Rightarrow> album order_by \<Rightarrow> (album list \<Rightarrow> album list) \<Rightarrow> album list \<Rightarrow> AlbumListSort \<Rightarrow> SortOrder \<Rightarrow> album list" where
  "sortAlbumList L orderBy shuffled albums sortBy sortOrder =
     (let desc = (sortOrder \<noteq> ASC); name = (\<lambda>v. Key_text (lo_lower L (al_name v)))
      in case sortBy of
           Album_ALBUM_ARTIST \<Rightarrow> orderBy [missingKey, name] [desc, False] albums
         | Album_DURATION \<Rightarrow> orderBy [\<lambda>v. opt_num (al_duration v)] [desc] albums
         | Album_FAVORITED \<Rightarrow> orderBy [missingKey] [desc] albums
         | Album_ID \<Rightarrow> (if sortOrder = DESC then rev albums else albums)
         | Album_NAME \<Rightarrow> orderBy [name] [desc] albums
         | Album_PLAY_COUNT \<Rightarrow> orderBy [\<lambda>v. opt_num (al_playCount v)] [desc] albums
         | Album_RANDOM \<Rightarrow> shuffled albums
         | Album_RATING \<Rightarrow> orderBy [\<lambda>v. opt_num (al_userRating v)] [desc] albums
         | Album_RECENTLY_ADDED \<Rightarrow> orderBy [\<lambda>v. Key_text (al_createdAt v)] [desc] albums
         | Album_RECENTLY_PLAYED \<Rightarrow> orderBy [\<lambda>v. opt_text (al_lastPlayedAt v)] [desc] albums
         | Album_RELEASE_DATE \<Rightarrow> orderBy [originalTime L, releaseTime L, name] [desc, desc, False] albums
         | Album_SONG_COUNT \<Rightarrow> orderBy [\<lambda>v. opt_num (map_option of_nat (al_songCount v))] [desc] albums
         | Album_SORT_NAME \<Rightarrow> orderBy [\<lambda>v. Key_text (al_sortName v)] [desc] albums
         | Album_YEAR \<Rightarrow> orderBy [\<lambda>v. opt_num (map_option of_nat (al_releaseYear v))] [desc] albums
         | _ \<Rightarrow> albums)"

definition sortRadioList ::
    "sort_lib \<Rightarrow> radio_station order_by \<Rightarrow> radio_station list \<Rightarrow> RadioListSort \<Rightarrow> SortOrder \<Rightarrow> radio_station list" where
  "sortRadioList L orderBy stations sortBy sortOrder =
     (case sortBy of
        Radio_ID \<Rightarrow> (if sortOrder \<noteq> ASC then rev stations else stations)
      | Radio_NAME \<Rightarrow> orderBy [\<lambda>v. Key_text (lo_lower L (rs_name v))] [sortOrder \<noteq> ASC] stations)"

section \<open>What is documented of orderBy\<close>

text \<open>The keys compare in their order, a descending one the other way round.\<close>

primrec keysCmp :: "sort_value comparator \<Rightarrow> ('a key \<times> bool) list \<Rightarrow> 'a comparator" where
  "keysCmp cmp [] = flat"
| "keysCmp cmp (k # ks) =
     key (\<lambda>v. (fst k v, v)) (prod_lex (if snd k then reversed cmp else cmp) (keysCmp cmp ks))"

definition ordersBy :: "sort_value comparator \<Rightarrow> 'a order_by \<Rightarrow> bool" where
  "ordersBy cmp ob \<longleftrightarrow> (\<forall>keys ds xs. let c = keysCmp cmp (zip keys ds)
     in mset (ob keys ds xs) = mset xs \<and> Sorting_Algorithms.sorted c (ob keys ds xs)
        \<and> (\<forall>x. stable_segment c x (ob keys ds xs) = stable_segment c x xs))"

text \<open>A stable sort by a comparator is unique, so \<open>orderBy\<close> agrees with that of the library.\<close>

lemma ordersBy_sort:
  assumes "ordersBy cmp ob"
  shows "ob keys ds xs = Sorting_Algorithms.sort (keysCmp cmp (zip keys ds)) xs"
  using assms by (intro sort_eqI [symmetric]) (simp_all add: ordersBy_def Let_def)

lemma ordersBy_library: "ordersBy cmp (\<lambda>keys ds. Sorting_Algorithms.sort (keysCmp cmp (zip keys ds)))"
  by (simp add: ordersBy_def Let_def stable_sort)

lemma keysCmp_Cons:
  "compare (keysCmp cmp (k # ks)) x y =
     (case compare (if snd k then reversed cmp else cmp) (fst k x) (fst k y) of
        Less \<Rightarrow> Less | Equiv \<Rightarrow> compare (keysCmp cmp ks) x y | Greater \<Rightarrow> Greater)"
  by (simp add: compare_prod_lex_apply split: comp.split)

lemma insort_cong:
  "(\<And>y. y \<in> set ys \<Longrightarrow> compare c x y = compare c' x y) \<Longrightarrow>
     Sorting_Algorithms.insort c x ys = Sorting_Algorithms.insort c' x ys"
  by (induction ys) simp_all

lemma sort_cong:
  "(\<And>x y. x \<in> set xs \<Longrightarrow> y \<in> set xs \<Longrightarrow> compare c x y = compare c' x y) \<Longrightarrow>
     Sorting_Algorithms.sort c xs = Sorting_Algorithms.sort c' xs"
proof (induction xs)
  case (Cons x xs)
  then have "Sorting_Algorithms.sort c xs = Sorting_Algorithms.sort c' xs" by simp
  then show ?case using Cons.prems by (auto intro!: insort_cong)
qed simp

text \<open>A key on which all elements agree can be left out.\<close>

lemma sort_equal_key:
  assumes "\<forall>x \<in> set xs. \<forall>y \<in> set xs. fst k x = fst k y"
  shows "Sorting_Algorithms.sort (keysCmp cmp (k # ks)) xs = Sorting_Algorithms.sort (keysCmp cmp ks) xs"
proof (rule sort_cong)
  fix x y assume "x \<in> set xs" "y \<in> set xs"
  with assms have "fst k x = fst k y" by blast
  then show "compare (keysCmp cmp (k # ks)) x y = compare (keysCmp cmp ks) x y"
    unfolding keysCmp_Cons by simp
qed

lemma compare_flat: "compare flat x y = Equiv"
  by transfer simp

lemma insort_flat: "Sorting_Algorithms.insort flat x xs = x # xs"
  by (cases xs) (simp_all add: compare_flat)

lemma sort_no_keys: "Sorting_Algorithms.sort (keysCmp cmp []) xs = xs"
  by (induction xs) (simp_all add: insort_flat)

section \<open>What the lists satisfy\<close>

lemma mset_ordersBy: "ordersBy cmp ob \<Longrightarrow> mset (ob keys ds xs) = mset xs"
  by (simp add: ordersBy_def Let_def)

lemma mset_sortSongList:
  "ordersBy cmp ob \<Longrightarrow> \<forall>xs. mset (sh xs) = mset xs \<Longrightarrow> mset (sortSongList L ob sh songs sb ord) = mset songs"
  by (cases sb) (simp_all add: sortSongList_def Let_def mset_ordersBy)

lemma mset_sortAlbumList:
  "ordersBy cmp ob \<Longrightarrow> \<forall>xs. mset (sh xs) = mset xs \<Longrightarrow> mset (sortAlbumList L ob sh albums sb ord) = mset albums"
  by (cases sb) (simp_all add: sortAlbumList_def Let_def mset_ordersBy)

lemma mset_sortAlbumArtistList:
  "ordersBy cmp ob \<Longrightarrow> mset (sortAlbumArtistList L ob artists sb ord) = mset artists"
  by (cases sb) (simp_all add: sortAlbumArtistList_def Let_def mset_ordersBy)

lemma mset_sortRadioList: "ordersBy cmp ob \<Longrightarrow> mset (sortRadioList L ob stations sb ord) = mset stations"
  by (cases sb) (simp_all add: sortRadioList_def mset_ordersBy)

text \<open>
  However a list is sorted, the result has the same items: nothing is lost and nothing doubled, for songs, albums,
  artists and stations, every criterion and both directions.
\<close>

theorem sorting_keeps_items:
  assumes "ordersBy cmp oS" "ordersBy cmp oA" "ordersBy cmp oR" "ordersBy cmp oX"
    and "\<forall>xs. mset (shS xs) = mset xs" "\<forall>xs. mset (shA xs) = mset xs"
  shows "mset (sortSongList L oS shS songs sb1 ord) = mset songs
    \<and> mset (sortAlbumList L oA shA albums sb2 ord) = mset albums
    \<and> mset (sortAlbumArtistList L oR artists sb3 ord) = mset artists
    \<and> mset (sortRadioList L oX stations sb4 ord) = mset stations"
  using assms
  by (intro conjI mset_sortSongList mset_sortAlbumList mset_sortAlbumArtistList mset_sortRadioList)

text \<open>
  Songs that are sorted by album stay together in the order of the record: the songs of one
  album are sorted by disc and track, whatever comes before and after them.
\<close>

theorem album_sort_orders_tracks:
  assumes "ordersBy cmp ob"
  shows "filter (\<lambda>v. albumKey L v = k) (sortSongList L ob sh songs Song_ALBUM ASC) =
    ob [discKey, trackKey] [False, False] (filter (\<lambda>v. albumKey L v = k) songs)"
  using assms
  by (simp add: sortSongList_def Let_def ordersBy_sort filter_sort sort_equal_key numeral_3_eq_3 del: keysCmp.simps)

text \<open>
  Two criteria do nothing: lists of albums and of artists that are sorted by favourites stay as they are,
  because the key names a property that the items do not have; for the same reason albums sorted by album
  artist are sorted by name.
\<close>

theorem missing_keys_do_not_sort:
  assumes "ordersBy cmp oA" "ordersBy cmp oR"
  shows "sortAlbumList L oA sh albums Album_FAVORITED ord = albums
    \<and> sortAlbumArtistList L oR artists Artist_FAVORITED ord = artists
    \<and> sortAlbumList L oA sh albums Album_ALBUM_ARTIST ord = sortAlbumList L oA sh albums Album_NAME ASC"
  using assms
  by (simp add: sortAlbumList_def sortAlbumArtistList_def Let_def ordersBy_sort sort_equal_key missingKey_def
      sort_no_keys del: keysCmp.simps)

section \<open>Examples\<close>

definition numberCmp :: "sort_value comparator" where
  "numberCmp = key (\<lambda>v. case v of Key_num x \<Rightarrow> x | _ \<Rightarrow> 0) (default :: rat comparator)"

definition libraryOrderBy :: "'a order_by" where
  "libraryOrderBy keys ds = Sorting_Algorithms.sort (keysCmp numberCmp (zip keys ds))"

lemma libraryOrderBy: "ordersBy numberCmp libraryOrderBy"
  unfolding libraryOrderBy_def [abs_def] by (rule ordersBy_library)

definition exampleLib :: sort_lib where
  "exampleLib = \<lparr>lo_lower = (\<lambda>s. s), lo_day = (\<lambda>_. 0), lo_time = (\<lambda>_. 0), lo_year = of_int\<rparr>"

definition exampleTrack :: "string \<Rightarrow> int \<Rightarrow> full_song" where
  "exampleTrack k n = song.extend ((exampleSong k)\<lparr>s_trackNumber := n\<rparr>)
     (full_song.fields (Some ''Abbey Road'') ''The Beatles'' None 0 None None None None ''2020'' None None None None None
       None None None None None None None None 0 k None None ''2020'')"

definition exampleStation :: "string \<Rightarrow> radio_station" where
  "exampleStation k = \<lparr>rs_homepageUrl = None, rs_id = k, rs_imageId = None, rs_imageUrl = None, rs_name = k,
     rs_streamUrl = k\<rparr>"

lemma sorting_keeps_items_witness:
  "mset (sortSongList exampleLib libraryOrderBy rev [exampleTrack ''a'' 2, exampleTrack ''b'' 1] Song_ALBUM DESC) =
     mset [exampleTrack ''a'' 2, exampleTrack ''b'' 1]
   \<and> mset (sortRadioList exampleLib libraryOrderBy [exampleStation ''x'', exampleStation ''y''] Radio_ID DESC) =
     mset [exampleStation ''x'', exampleStation ''y'']"
  using sorting_keeps_items [OF libraryOrderBy libraryOrderBy libraryOrderBy libraryOrderBy,
      of rev rev exampleLib "[exampleTrack ''a'' 2, exampleTrack ''b'' 1]" Song_ALBUM DESC "[]" Album_NAME "[]"
      Artist_NAME "[exampleStation ''x'', exampleStation ''y'']" Radio_ID]
  by simp

lemma exampleTrack_fields [simp]:
  "so_album (exampleTrack k n) = Some ''Abbey Road''" "s_trackNumber (exampleTrack k n) = n"
  "s_discNumber (exampleTrack k n) = 1"
  by (simp_all add: exampleTrack_def exampleSong_def song.defs full_song.defs)

lemma album_sort_orders_tracks_witness:
  "filter (\<lambda>v. albumKey exampleLib v = Key_text ''Abbey Road'')
     (sortSongList exampleLib libraryOrderBy rev [exampleTrack ''a'' 2, exampleTrack ''b'' 1] Song_ALBUM ASC) =
   [exampleTrack ''b'' 1, exampleTrack ''a'' 2]"
proof -
  have "compare (default :: rat comparator) 2 1 = Greater" by simp
  note greater = this
  show ?thesis
    by (subst album_sort_orders_tracks [OF libraryOrderBy])
    (simp add: libraryOrderBy_def albumKey_def lowered_def exampleLib_def keysCmp_Cons discKey_def trackKey_def
      numberCmp_def greater del: keysCmp.simps)
qed

definition exampleArtist :: "string \<Rightarrow> album_artist" where
  "exampleArtist k = \<lparr>ar_serverId = ''server'', ar_serverType = SUBSONIC, ar_itemType = ALBUM_ARTIST,
     ar_albumCount = Some 1, ar_biography = None, ar_duration = None, ar_genres = [], ar_id = k, ar_imageId = None,
     ar_imageUrl = None, ar_lastPlayedAt = None, ar_mbz = None, ar_name = k, ar_playCount = None,
     ar_similarArtists = [], ar_songCount = None, ar_userFavorite = (k = ''b''), ar_userRating = None\<rparr>"

lemma missing_keys_do_not_sort_witness:
  "sortAlbumArtistList exampleLib libraryOrderBy [exampleArtist ''a'', exampleArtist ''b''] Artist_FAVORITED DESC =
     [exampleArtist ''a'', exampleArtist ''b'']"
  using missing_keys_do_not_sort [OF libraryOrderBy libraryOrderBy,
      of exampleLib rev "[]" DESC "[exampleArtist ''a'', exampleArtist ''b'']"]
  by simp

end
