(* ===== verification/SubsonicNormalize.thy ===== *)
theory SubsonicNormalize
  imports MediaTypes JsText
begin

text \<open>
  The normalisation of what a Subsonic server answers (\<^verbatim>\<open>shared/api/subsonic/subsonic-normalize.ts\<close>,
  \<^verbatim>\<open>shared/api/partial-iso-date.ts\<close>; the answers are described in \<^verbatim>\<open>subsonic-types.ts\<close>). A field that may be
  missing is an option.
\<close>

section \<open>Partial dates\<close>

text \<open>\<open>YYYY\<close>, \<open>YYYY-MM\<close> or \<open>YYYY-MM-DD\<close>.\<close>

definition isPartialIso :: "string \<Rightarrow> bool" where
  "isPartialIso s =
     (let dashes = (\<lambda>i c. if i = 4 \<or> i = 7 then c = CHR ''-'' else isDigit c)
      in (length s = 4 \<or> length s = 7 \<or> length s = 10) \<and> list_all (\<lambda>i. dashes i (s ! i)) [0..<length s])"

definition coerceYear :: "nat option \<Rightarrow> nat" where
  "coerceYear y = nullish_or y 0"

definition parsePartialIsoDate :: "string option \<Rightarrow> string option \<times> nat" where
  "parsePartialIsoDate input =
     (case input of
        None \<Rightarrow> (None, 0)
      | Some i \<Rightarrow>
          (let s = trim i
           in if s = '''' \<or> \<not> isPartialIso s then (None, 0) else (Some s, numberOf (take 4 s))))"

definition parsePartialIsoDateFromApi :: "string option \<Rightarrow> string option \<times> nat" where
  "parsePartialIsoDateFromApi input =
     (let direct = parsePartialIsoDate input
      in if truthy (fst direct) then direct
         else if input \<noteq> None \<and> length (the input) \<ge> 10 then parsePartialIsoDate (Some (take 10 (the input)))
         else (None, 0))"

lemma partial_year: "parsePartialIsoDate d = (x, y) \<Longrightarrow> y > 0 \<Longrightarrow> x \<noteq> None"
  by (auto simp: parsePartialIsoDate_def Let_def split: option.splits if_splits)

section \<open>Answers of the server\<close>

text \<open>An id is a number or a string.\<close>

datatype ss_id = Id_num nat | Id_str string

fun idString :: "ss_id \<Rightarrow> string" where
  "idString (Id_num n) = decimal n"
| "idString (Id_str s) = s"

record ss_contributor =
  co_artist :: related
  co_role :: string
  co_subRole :: "string option"

record ss_gain =
  sg_albumGain :: "rat option"
  sg_albumPeak :: "rat option"
  sg_trackGain :: "rat option"
  sg_trackPeak :: "rat option"

record ss_song =
  ss_album :: "string option"
  ss_albumArtists :: "related list option"
  ss_albumId :: "ss_id option"
  ss_artist :: "string option"
  ss_artistId :: "ss_id option"
  ss_artists :: "related list option"
  ss_bitDepth :: "rat option"
  ss_bitRate :: "rat option"
  ss_bpm :: "rat option"
  ss_channelCount :: "rat option"
  ss_contentType :: string
  ss_contributors :: "ss_contributor list option"
  ss_coverArt :: "string option"
  ss_created :: string
  ss_discNumber :: "int option"
  ss_duration :: "rat option"
  ss_explicitStatus :: "string option"
  ss_genre :: "string option"
  ss_genres :: "string list option"
  ss_songId :: ss_id
  ss_musicBrainzId :: "string option"
  ss_path :: "string option"
  ss_playCount :: "nat option"
  ss_replayGain :: "ss_gain option"
  ss_samplingRate :: "rat option"
  ss_size :: rat
  ss_starred :: "bool option"
  ss_title :: string
  ss_track :: "int option"
  ss_userRating :: "rat option"
  ss_year :: "nat option"
  ss_releaseDate :: "(nat option \<times> nat option \<times> nat option) option"

text \<open>Disc titles are pairs of a disc number and a title; the entry of a list has no songs.\<close>

record ss_albumEntry =
  sa_artist :: string
  sa_artistId :: "ss_id option"
  sa_artists :: "related list option"
  sa_contributors :: "ss_contributor list option"
  sa_coverArt :: "string option"
  sa_created :: string
  sa_discTitles :: "(int \<times> string) list option"
  sa_duration :: rat
  sa_explicitStatus :: "string option"
  sa_genre :: "string option"
  sa_genres :: "string list option"
  sa_id :: ss_id
  sa_name :: string
  sa_recordLabels :: "string list option"
  sa_releaseDate :: "(nat option \<times> nat option \<times> nat option) option"
  sa_releaseTypes :: "string list option"
  sa_song :: "ss_song list option"
  sa_songCount :: nat
  sa_starred :: "bool option"
  sa_title :: string
  sa_userRating :: "rat option"
  sa_version :: "string option"
  sa_year :: "nat option"

record ss_artistEntry =
  st_album :: "ss_albumEntry list option"
  st_albumCount :: "nat option"
  st_coverArt :: "string option"
  st_id :: ss_id
  st_name :: string
  st_roles :: "string list option"
  st_starred :: "string option"
  st_similarArtists :: "related list option"

record ss_playlist =
  sp_changed :: "string option"
  sp_comment :: "string option"
  sp_coverArt :: "string option"
  sp_duration :: rat
  sp_entry :: "ss_song list option"
  sp_id :: ss_id
  sp_name :: string
  sp_owner :: string
  sp_public :: bool
  sp_songCount :: nat

record ss_genreEntry =
  sn_albumCount :: nat
  sn_songCount :: nat
  sn_value :: string

text \<open>A child of a directory whose \<open>isDir\<close> is true is a directory, any other one a song.\<close>

datatype ss_directory =
    Directory (di_id: ss_id) (di_title: string) (di_parent: "string option") (di_coverArt: "string option")
      (di_child: "ss_child list option")
  and ss_child = Child_dir ss_directory | Child_song ss_song

record ss_station =
  sx_coverArt :: "string option"
  sx_homepageUrl :: "string option"
  sx_id :: string
  sx_name :: string
  sx_streamUrl :: string

section \<open>Parts of an item\<close>

text \<open>\<open>x || null\<close> for numbers and texts: zero and the empty text count as missing.\<close>

definition num_or_null :: "rat option \<Rightarrow> rat option" where
  "num_or_null x = (if x = Some 0 then None else x)"

definition text_or_null :: "string option \<Rightarrow> string option" where
  "text_or_null x = (if truthy x then x else None)"

definition text_or :: "string option \<Rightarrow> string \<Rightarrow> string" where
  "text_or x d = (if truthy x then the x else d)"

text \<open>The id of the server, or what stands for it.\<close>

definition serverIdOf :: "string option \<Rightarrow> string" where
  "serverIdOf server = text_or server ''unknown''"

definition getArtistListOf ::
    "related list option \<Rightarrow> ss_id option \<Rightarrow> string option \<Rightarrow> related list obj option \<Rightarrow> related list" where
  "getArtistListOf artists artistId artistName participants =
     (if artists = None \<and> participants = None
      then [\<lparr>rel_id = text_or (map_option idString artistId) '''', rel_name = text_or artistName ''''\<rparr>]
      else
        (let result = nullish_or artists [];
             existingIds = map rel_id result;
             remixers = (case participants of None \<Rightarrow> [] | Some p \<Rightarrow> nullish_or (map_of p ''remixer'') [])
         in result @ filter (\<lambda>participant. rel_id participant \<notin> set existingIds) remixers))"

definition roleOf :: "ss_contributor \<Rightarrow> string" where
  "roleOf c = (if truthy (co_subRole c) then co_role c @ '' ('' @ the (co_subRole c) @ '')'' else co_role c)"

definition addParticipant :: "ss_contributor \<Rightarrow> related list obj \<Rightarrow> related list obj" where
  "addParticipant c p = AList.update (roleOf c) (nullish_or (map_of p (roleOf c)) [] @ [co_artist c]) p"

definition getParticipants :: "ss_contributor list option \<Rightarrow> related list obj option" where
  "getParticipants contributors = map_option (\<lambda>cs. fold addParticipant cs []) contributors"

definition genreNames :: "string list option \<Rightarrow> string option \<Rightarrow> string list" where
  "genreNames gs g = (case gs of Some names \<Rightarrow> names | None \<Rightarrow> if truthy g then [the g] else [])"

definition genreItem :: "string option \<Rightarrow> string \<Rightarrow> genre" where
  "genreItem server name =
     \<lparr>ge_serverId = serverIdOf server, ge_serverType = SUBSONIC, ge_itemType = GENRE, ge_albumCount = None,
      ge_id = name, ge_imageId = None, ge_imageUrl = None, ge_name = name, ge_songCount = None\<rparr>"

definition pad2 :: "nat \<Rightarrow> string" where
  "pad2 n = padZeros 2 (decimal n)"

definition subsonicReleaseFields ::
    "(nat option \<times> nat option \<times> nat option) option \<Rightarrow> nat option \<Rightarrow> string option \<times> nat option" where
  "subsonicReleaseFields releaseDate year =
     (case releaseDate of
        Some (Some y, Some m, Some d) \<Rightarrow>
          (let parsed = parsePartialIsoDate (Some (decimal y @ ''-'' @ pad2 m @ ''-'' @ pad2 d))
           in (fst parsed, Some (snd parsed)))
      | _ \<Rightarrow>
          (let y = coerceYear year
           in if y > 0 then (Some (decimal y), Some y) else (None, None)))"

definition explicitOf :: "string option \<Rightarrow> ExplicitStatus option" where
  "explicitOf x = (if x = Some ''explicit'' then Some EXPLICIT else if x = Some ''clean'' then Some CLEAN else None)"

text \<open>What follows \<open>audio/\<close>, up to another slash.\<close>

definition containerOf :: "string \<Rightarrow> string option" where
  "containerOf contentType =
     (if take 6 contentType = ''audio/'' then Some (takeWhile (\<lambda>c. c \<noteq> CHR ''/'') (drop 6 contentType)) else None)"

definition gainPair :: "rat option \<Rightarrow> rat option \<Rightarrow> song_gain option" where
  "gainPair a t =
     (if num_or_null a \<noteq> None \<or> num_or_null t \<noteq> None then Some \<lparr>gi_album = a, gi_track = t\<rparr> else None)"

definition commaJoin :: "string list \<Rightarrow> string" where
  "commaJoin names = (case names of [] \<Rightarrow> '''' | n # ns \<Rightarrow> n @ concat (map (\<lambda>x. '', '' @ x) ns))"

section \<open>The items\<close>

definition nat_or :: "nat option \<Rightarrow> nat \<Rightarrow> nat" where
  "nat_or x d = (case x of None \<Rightarrow> d | Some n \<Rightarrow> if n = 0 then d else n)"

definition int_or :: "int option \<Rightarrow> int \<Rightarrow> int" where
  "int_or x d = (case x of None \<Rightarrow> d | Some n \<Rightarrow> if n = 0 then d else n)"

text \<open>The titles of the discs; a later entry replaces an earlier one.\<close>

definition discTitleMap :: "(int \<times> string) list option \<Rightarrow> int \<Rightarrow> string option" where
  "discTitleMap titles = map_of (rev (nullish_or titles []))"

definition normalizeSong ::
    "ss_song \<Rightarrow> string option \<Rightarrow> nat option \<Rightarrow> (int \<Rightarrow> string option) \<Rightarrow> full_song" where
  "normalizeSong item server playlistIndex discTitles =
     (let participants = getParticipants (ss_contributors item);
          release = subsonicReleaseFields (ss_releaseDate item) (ss_year item)
      in \<lparr>s_id = idString (ss_songId item),
          s_name = ss_title item,
          s_albumId = text_or (map_option idString (ss_albumId item)) '''',
          s_serverId = serverIdOf server,
          s_serverType = SUBSONIC,
          s_itemType = SONG,
          s_duration = (case ss_duration item of None \<Rightarrow> 0 | Some d \<Rightarrow> d * 1000),
          s_userFavorite = (ss_starred item = Some True),
          s_userRating = num_or_null (ss_userRating item),
          s_playCount = int (nat_or (ss_playCount item) 0),
          s_contextPlaylistId = None,
          s_albumArtists = getArtistListOf (ss_albumArtists item) (ss_artistId item) (ss_artist item) None,
          s_artistName = text_or (ss_artist item) '''',
          s_artists = getArtistListOf (ss_artists item) (ss_artistId item) (ss_artist item) participants,
          s_comment = None,
          s_discNumber = int_or (ss_discNumber item) 1,
          s_genres = map (\<lambda>n. \<lparr>rel_id = n, rel_name = n\<rparr>) (genreNames (ss_genres item) (ss_genre item)),
          s_path = Some (text_or (ss_path item) ''''),
          s_playlistItemId = map_option decimal playlistIndex,
          s_releaseYear = map_option int (snd release),
          s_trackNumber = int_or (ss_track item) 1,
          s_rest = '''',
          so_album = Some (text_or (ss_album item) ''''),
          so_albumArtistName =
            (if nullish_or (ss_albumArtists item) [] \<noteq> []
             then commaJoin (map rel_name (the (ss_albumArtists item))) else text_or (ss_artist item) ''''),
          so_bitDepth = num_or_null (ss_bitDepth item),
          so_bitRate = nullish_or (ss_bitRate item) 0,
          so_bpm = num_or_null (ss_bpm item),
          so_channels = num_or_null (ss_channelCount item),
          so_compilation = None,
          so_container = containerOf (ss_contentType item),
          so_createdAt = ss_created item,
          so_discSubtitle = discTitles (nullish_or (ss_discNumber item) 1),
          so_explicitStatus = explicitOf (ss_explicitStatus item),
          so_gain = (case ss_replayGain item of None \<Rightarrow> None
            | Some g \<Rightarrow> gainPair (sg_albumGain g) (sg_trackGain g)),
          so_imageId = text_or_null (ss_coverArt item),
          so_imageUrl = None,
          so_lastPlayedAt = None,
          so_lyrics = None,
          so_mbzRecordingId = text_or_null (ss_musicBrainzId item),
          so_mbzTrackId = None,
          so_participants = participants,
          so_peak = (case ss_replayGain item of None \<Rightarrow> None
            | Some g \<Rightarrow> gainPair (sg_albumPeak g) (sg_trackPeak g)),
          so_releaseDate = fst release,
          so_sampleRate = num_or_null (ss_samplingRate item),
          so_size = ss_size item,
          so_sortName = ss_title item,
          so_tags = None,
          so_trackSubtitle = None,
          so_updatedAt = ''''\<rparr>)"

definition normalizeAlbumArtist :: "ss_artistEntry \<Rightarrow> string option \<Rightarrow> album_artist" where
  "normalizeAlbumArtist item server =
     \<lparr>ar_serverId = serverIdOf server, ar_serverType = SUBSONIC, ar_itemType = ALBUM_ARTIST,
      ar_albumCount = Some (nullish_or (st_albumCount item) 0),
      ar_biography = None, ar_duration = None, ar_genres = [], ar_id = idString (st_id item),
      ar_imageId = text_or_null (st_coverArt item), ar_imageUrl = None, ar_lastPlayedAt = None, ar_mbz = None,
      ar_name = st_name item, ar_playCount = None, ar_similarArtists = nullish_or (st_similarArtists item) [],
      ar_songCount = None, ar_userFavorite = truthy (st_starred item), ar_userRating = None\<rparr>"

definition PRIMARY_RELEASE_TYPES :: "string list" where
  "PRIMARY_RELEASE_TYPES = [''album'', ''ep'', ''single'', ''broadcast'', ''other'']"

definition getReleaseType :: "string list option \<Rightarrow> string option" where
  "getReleaseType types =
     (case types of None \<Rightarrow> None | Some ts \<Rightarrow> List.find (\<lambda>t. t \<in> set PRIMARY_RELEASE_TYPES) ts)"

definition normalizeAlbum :: "ss_albumEntry \<Rightarrow> string option \<Rightarrow> album" where
  "normalizeAlbum item server =
     (let titles = discTitleMap (sa_discTitles item);
          release = subsonicReleaseFields (sa_releaseDate item) (sa_year item)
      in \<lparr>al_serverId = serverIdOf server, al_serverType = SUBSONIC, al_itemType = ALBUM,
          al_albumArtistName = sa_artist item,
          al_albumArtists = getArtistListOf (sa_artists item) (sa_artistId item) (Some (sa_artist item)) None,
          al_artists = [], al_comment = None, al_createdAt = sa_created item,
          al_duration = Some (sa_duration item * 1000),
          al_explicitStatus = explicitOf (sa_explicitStatus item),
          al_genres = map (genreItem server) (genreNames (sa_genres item) (sa_genre item)),
          al_id = idString (sa_id item), al_imageId = text_or_null (sa_coverArt item), al_imageUrl = None,
          al_isCompilation = None, al_lastPlayedAt = None, al_mbzId = None, al_mbzReleaseGroupId = None,
          al_name = sa_name item, al_originalDate = fst release, al_originalYear = nullish_or (snd release) 0,
          al_participants = getParticipants (sa_contributors item), al_playCount = None,
          al_recordLabels = nullish_or (sa_recordLabels item) [],
          al_releaseDate = fst release, al_releaseType = getReleaseType (sa_releaseTypes item),
          al_releaseTypes = nullish_or (sa_releaseTypes item) [], al_releaseYear = snd release,
          al_size = None, al_songCount = Some (sa_songCount item),
          al_songs = map (\<lambda>song. normalizeSong song server None titles) (nullish_or (sa_song item) []),
          al_sortName = sa_title item, al_tags = None, al_updatedAt = sa_created item,
          al_userFavorite = (sa_starred item = Some True), al_userRating = num_or_null (sa_userRating item),
          al_version = text_or_null (sa_version item)\<rparr>)"

definition normalizePlaylist :: "ss_playlist \<Rightarrow> string option \<Rightarrow> playlist" where
  "normalizePlaylist item server =
     \<lparr>pl_serverId = serverIdOf server, pl_serverType = SUBSONIC, pl_itemType = PLAYLIST,
      pl_description = text_or_null (sp_comment item), pl_duration = Some (sp_duration item * 1000), pl_genres = [],
      pl_id = idString (sp_id item), pl_imageId = text_or_null (sp_coverArt item), pl_imageUrl = None,
      pl_name = sp_name item, pl_owner = Some (sp_owner item), pl_ownerId = Some (sp_owner item),
      pl_public = Some (sp_public item), pl_size = None, pl_songCount = Some (sp_songCount item)\<rparr>"

definition normalizeGenre :: "ss_genreEntry \<Rightarrow> string option \<Rightarrow> genre" where
  "normalizeGenre item server =
     \<lparr>ge_serverId = serverIdOf server, ge_serverType = SUBSONIC, ge_itemType = GENRE,
      ge_albumCount = Some (sn_albumCount item), ge_id = sn_value item, ge_imageId = None, ge_imageUrl = None,
      ge_name = sn_value item, ge_songCount = Some (sn_songCount item)\<rparr>"

text \<open>The children are distributed to folders and songs, each in their order; subfolders likewise.\<close>

lemma child_size [termination_simp]:
  "Child_dir d \<in> set (nullish_or child []) \<Longrightarrow> size d < Suc (size_option (size_list size) child)"
  by (cases child) (auto dest!: size_list_estimation' [where f = size, OF _ order_refl])

fun normalizeFolder :: "ss_directory \<Rightarrow> string option \<Rightarrow> media_folder" where
  "normalizeFolder (Directory k title parent coverArt child) server =
     (let children = nullish_or child []
      in Folder (serverIdOf server) SUBSONIC
           (concat (map (\<lambda>c. case c of Child_dir d \<Rightarrow> [normalizeFolder d server] | Child_song s \<Rightarrow> []) children))
           (concat (map (\<lambda>c. case c of Child_dir d \<Rightarrow> [] | Child_song s \<Rightarrow> [normalizeSong s server None (\<lambda>_. None)]) children))
           (idString k) (text_or_null coverArt) title parent)"

definition normalizeInternetRadioStation :: "ss_station \<Rightarrow> radio_station" where
  "normalizeInternetRadioStation item =
     \<lparr>rs_homepageUrl = text_or_null (sx_homepageUrl item), rs_id = sx_id item,
      rs_imageId = text_or_null (sx_coverArt item), rs_imageUrl = None, rs_name = sx_name item,
      rs_streamUrl = sx_streamUrl item\<rparr>"

section \<open>What normalised items satisfy\<close>

definition song_ok :: "full_song \<Rightarrow> bool" where
  "song_ok s \<longleftrightarrow> s_itemType s = SONG \<and> s_serverType s = SUBSONIC \<and> s_serverId s \<noteq> ''''
     \<and> s_discNumber s \<noteq> 0 \<and> s_trackNumber s \<noteq> 0
     \<and> s_userRating s \<noteq> Some 0 \<and> so_bpm s \<noteq> Some 0 \<and> so_bitDepth s \<noteq> Some 0
     \<and> so_channels s \<noteq> Some 0 \<and> so_sampleRate s \<noteq> Some 0 \<and> so_imageId s \<noteq> Some ''''
     \<and> (case so_gain s of None \<Rightarrow> True | Some g \<Rightarrow> num_or_null (gi_album g) \<noteq> None \<or> num_or_null (gi_track g) \<noteq> None)"

definition album_ok :: "album \<Rightarrow> bool" where
  "album_ok a \<longleftrightarrow> al_itemType a = ALBUM \<and> al_serverId a \<noteq> '''' \<and> list_all song_ok (al_songs a)
     \<and> al_userRating a \<noteq> Some 0 \<and> list_all (\<lambda>g. ge_id g = ge_name g \<and> ge_serverId g = al_serverId a) (al_genres a)
     \<and> (case al_releaseType a of None \<Rightarrow> True | Some t \<Rightarrow> t \<in> set PRIMARY_RELEASE_TYPES \<and> t \<in> set (al_releaseTypes a))"

fun folder_ok :: "media_folder \<Rightarrow> bool" where
  "folder_ok (Folder sid ty folders songs k img nm par) \<longleftrightarrow>
     sid \<noteq> '''' \<and> list_all song_ok songs \<and> list_all (\<lambda>f. folder_ok f \<and> fo_serverId f = sid) folders"

lemma or_null [simp]: "num_or_null x \<noteq> Some 0" "text_or_null y \<noteq> Some ''''"
  by (auto simp: num_or_null_def text_or_null_def)

lemma nat_or_pos: "0 < d \<Longrightarrow> 0 < nat_or x d"
  by (auto simp: nat_or_def split: option.splits)

lemma int_or_nonzero: "d \<noteq> 0 \<Longrightarrow> int_or x d \<noteq> 0"
  by (auto simp: int_or_def split: option.splits)

lemma serverIdOf_ne [simp]: "serverIdOf server \<noteq> ''''"
  by (auto simp: serverIdOf_def text_or_def truthy_def)

lemma gainPair_ok:
  "gainPair a t = Some g \<Longrightarrow> num_or_null (gi_album g) \<noteq> None \<or> num_or_null (gi_track g) \<noteq> None"
  by (auto simp: gainPair_def split: if_splits)

lemma normalizeSong_ok: "song_ok (normalizeSong item server i titles)"
proof -
  have "int_or (ss_discNumber item) 1 \<noteq> 0" "int_or (ss_track item) 1 \<noteq> 0" by (simp_all add: int_or_nonzero)
  then show ?thesis
    by (auto simp: song_ok_def normalizeSong_def Let_def dest: gainPair_ok split: option.splits)
qed

lemma normalizeFolder_serverId [simp]: "fo_serverId (normalizeFolder d server) = serverIdOf server"
  by (cases d) (simp add: Let_def)

lemma normalizeFolder_ok: "folder_ok (normalizeFolder d server)"
proof (induction d server rule: normalizeFolder.induct)
  case (1 k title parent coverArt child server)
  then show ?case
    by (auto simp: Let_def list_all_iff normalizeSong_ok split: ss_child.splits)
qed

text \<open>
  C12: The items that come out of the normalisation are well formed whatever the server leaves out or sends as zero:
  songs, also those inside of albums and folders at any depth, have disc and track numbers that are not zero; a rating, a
  bit depth, a tempo, a number of channels and a sample rate that are zero are absent (a bit rate or a duration that is not
  known is zero), an image has an id that is not empty, and a gain is there only with a value; genres carry the server
  of their album, and the release type is one of the primary types among those of the album.
\<close>

theorem normalized_items_ok:
  "song_ok (normalizeSong item server i titles) \<and> album_ok (normalizeAlbum entry server)
     \<and> folder_ok (normalizeFolder d server)"
  by (auto simp: normalizeSong_ok normalizeFolder_ok album_ok_def normalizeAlbum_def Let_def list_all_iff
      genreItem_def getReleaseType_def find_Some_iff split: option.splits)

text \<open>
  No child of a directory is lost: the folders and the songs of the result are the children that are
  directories and those that are not, each in the order of the server.
\<close>

theorem normalizeFolder_splits_children:
  "di_child d = Some children \<Longrightarrow>
     map fo_id (fo_folders (normalizeFolder d server)) = [idString (di_id e). Child_dir e \<leftarrow> children]
     \<and> map s_id (fo_songs (normalizeFolder d server)) = [idString (ss_songId s). Child_song s \<leftarrow> children]"
proof (cases d)
  case (Directory k title parent coverArt child)
  have "fo_id (normalizeFolder e server) = idString (di_id e)" for e by (cases e) (simp add: Let_def)
  moreover have "s_id (normalizeSong s server None t) = idString (ss_songId s)" for s t
    by (simp add: normalizeSong_def Let_def)
  moreover assume "di_child d = Some children"
  ultimately show ?thesis
    using Directory by (auto simp: Let_def map_concat intro!: arg_cong [where f = concat] split: ss_child.splits)
qed

section \<open>Dates\<close>

lemma trim_id: "s \<noteq> [] \<Longrightarrow> \<not> isWhite (hd s) \<Longrightarrow> \<not> isWhite (last s) \<Longrightarrow> trim s = s"
proof -
  assume s: "s \<noteq> []" "\<not> isWhite (hd s)" "\<not> isWhite (last s)"
  have "dropWhile isWhite s = s" using s by (simp add: dropWhile_eq_self_iff)
  moreover have "dropWhile isWhite (rev s) = rev s" using s by (simp add: dropWhile_eq_self_iff hd_rev)
  ultimately show "trim s = s" by (simp add: trim_def)
qed

lemma decimal_ne [simp]: "decimal n \<noteq> []"
  by (subst decimal.simps) simp

lemma digit_not_white: "isDigit c \<Longrightarrow> \<not> isWhite c"
  by (auto simp: isDigit_def isWhite_def)

lemma digits_ends:
  assumes "list_all isDigit ds" and "ds \<noteq> []"
  shows "\<not> isWhite (hd ds)" and "\<not> isWhite (last ds)"
  using assms by (auto simp: list_all_iff digit_not_white)

lemma length_decimal_ge: "10 ^ k \<le> n \<Longrightarrow> Suc k \<le> length (decimal n)"
proof (induction k arbitrary: n)
  case 0
  then show ?case by (cases "decimal n") simp_all
next
  case (Suc k)
  then have "10 ^ k \<le> n div 10" and "\<not> n < 10"
    by (simp_all add: less_eq_div_iff_mult_less_eq mult.commute) (metis le_trans less_le_not_le one_le_power mult_le_mono2 mult.right_neutral one_le_numeral)
  with Suc.IH [of "n div 10"] show ?case by (subst decimal.simps) simp
qed

lemma length_year: "1000 \<le> y \<Longrightarrow> y < 10000 \<Longrightarrow> length (decimal y) = 4"
  using length_decimal [of y 3] length_decimal_ge [of 3 y] by simp

lemma length_pad2: "m < 100 \<Longrightarrow> length (pad2 m) = 2"
  using length_padded [of m 1] by (simp add: pad2_def numeral_2_eq_2)

lemma parse_year:
  assumes "1000 \<le> y" and "y < 10000"
  shows "parsePartialIsoDate (Some (decimal y)) = (Some (decimal y), y)"
proof -
  have len: "length (decimal y) = 4" by (rule length_year [OF assms])
  have "trim (decimal y) = decimal y" by (rule trim_id) (simp_all add: digits_ends decimal_digits)
  moreover have "isPartialIso (decimal y)"
    using decimal_digits [of y] len by (auto simp: isPartialIso_def list_all_iff)
  ultimately show ?thesis using len by (simp add: parsePartialIsoDate_def numberOf_decimal)
qed

lemma isPartialIso_full:
  assumes "length a = 4" "length b = 2" "length c = 2" "list_all isDigit a" "list_all isDigit b" "list_all isDigit c"
  shows "isPartialIso (a @ ''-'' @ b @ ''-'' @ c)"
proof -
  obtain a0 a1 a2 a3 where a: "a = [a0, a1, a2, a3]"
    using assms(1) by (auto simp: numeral_eq_Suc length_Suc_conv)
  obtain b0 b1 c0 c1 where bc: "b = [b0, b1]" "c = [c0, c1]"
    using assms(2,3) by (auto simp: numeral_eq_Suc length_Suc_conv)
  show ?thesis using assms(4-6) unfolding a bc by (simp add: isPartialIso_def upt_rec)
qed

lemma parse_date:
  assumes "1000 \<le> y" "y < 10000" "m < 100" "d < 100"
  defines "s \<equiv> decimal y @ ''-'' @ pad2 m @ ''-'' @ pad2 d"
  shows "parsePartialIsoDate (Some s) = (Some s, y)"
proof -
  have digits: "list_all isDigit (pad2 n)" for n by (simp add: pad2_def padZeros_digits)
  have ne: "pad2 d \<noteq> []" using length_pad2 [of d] assms(4) by auto
  have "trim s = s"
    unfolding s_def using ne by (intro trim_id) (simp_all add: digits_ends decimal_digits digits)
  moreover have "isPartialIso s"
    unfolding s_def using assms(1-4)
    by (intro isPartialIso_full) (simp_all add: length_year length_pad2 decimal_digits digits)
  moreover have "take 4 s = decimal y" using length_year assms(1,2) by (simp add: s_def)
  ultimately show ?thesis by (simp add: parsePartialIsoDate_def numberOf_decimal s_def)
qed

text \<open>
  The release date that is made from the numbers of the server is a partial date, and reading it gives back
  its year, for complete dates and for those with only a year.
\<close>

theorem release_date_round_trip:
  assumes "1000 \<le> y" "y < 10000" "m < 100" "d < 100"
  shows "(\<exists>s. subsonicReleaseFields (Some (Some y, Some m, Some d)) year = (Some s, Some y)
      \<and> parsePartialIsoDate (Some s) = (Some s, y))
    \<and> subsonicReleaseFields None (Some y) = (Some (decimal y), Some y)
      \<and> parsePartialIsoDate (Some (decimal y)) = (Some (decimal y), y)"
  using assms by (auto simp: subsonicReleaseFields_def Let_def parse_date [simplified] parse_year coerceYear_def)

lemma release_date_round_trip_witness:
  "subsonicReleaseFields None (Some 1969) = (Some (decimal 1969), Some 1969)"
  using release_date_round_trip [of 1969 1 1] by simp

end
