(* ===== verification/SubsonicLists.thy ===== *)
theory SubsonicLists
  imports ClientSort SubsonicNormalize PlayerFilters
begin

text \<open>
  The lists and their counts for Subsonic servers (\<^verbatim>\<open>api/subsonic/subsonic-controller.ts\<close>). What the server
  answers to each request is an argument: a body with status 200, or another status. The counts that the server
  does not tell are found by asking for pages until one is not full; these loops run on fuel.
\<close>

section \<open>The server\<close>

datatype 'a reply = Reply 'a | Refused

text \<open>Errors are those that the controller throws, with their message, and reading a property of undefined.\<close>

datatype api_error = Api string | Type_error

record search3_query =
  sq_albumCount :: "nat option"
  sq_albumOffset :: nat
  sq_artistCount :: nat
  sq_artistOffset :: nat
  sq_musicFolderId :: "string option"
  sq_query :: string
  sq_songCount :: "nat option"
  sq_songOffset :: nat

record search3_result =
  sr_album :: "ss_albumEntry list option"
  sr_song :: "ss_song list option"

datatype AlbumListSortType = ALPHABETICAL_BY_ARTIST | ALPHABETICAL_BY_NAME | BY_GENRE | BY_YEAR | FREQUENT
  | NEWEST | RANDOM | RECENT | STARRED

record album_list_query =
  aq_fromYear :: "nat option"
  aq_genre :: "string option"
  aq_musicFolderId :: "string option"
  aq_offset :: nat
  aq_size :: "nat option"
  aq_toYear :: "nat option"
  aq_type :: AlbumListSortType

text \<open>The parameters of \<open>getSongsByGenre\<close>: count, genre, music folder and offset.\<close>

type_synonym genre_query = "nat option \<times> string option \<times> string option \<times> nat"

text \<open>The starred albums and songs; the album list with the header of the total.\<close>

record ss_server =
  sv_search3 :: "search3_query \<Rightarrow> search3_result option reply"
  sv_artist :: "string \<Rightarrow> ss_artistEntry reply"
  sv_album :: "string \<Rightarrow> ss_albumEntry reply"
  sv_starred :: "string option \<Rightarrow> (ss_albumEntry list option \<times> ss_song list option) option reply"
  sv_songsByGenre :: "genre_query \<Rightarrow> ss_song list option reply"
  sv_albumList2 :: "album_list_query \<Rightarrow> nat option \<times> ss_albumEntry list option reply"
  sv_artists :: "string option \<Rightarrow> ss_artistEntry list list option reply"
  sv_playlists :: "ss_playlist list option reply"
  sv_genres :: "ss_genreEntry list option reply"

text \<open>The functions of the libraries, the present year, and the id of the server.\<close>

record ss_client =
  cl_sort :: sort_lib
  cl_songs :: "full_song order_by"
  cl_albums :: "album order_by"
  cl_artists :: "album_artist order_by"
  cl_playlists :: "ss_playlist order_by"
  cl_genres :: "ss_genreEntry order_by"
  cl_shuffleSongs :: "full_song list \<Rightarrow> full_song list"
  cl_shuffleAlbums :: "album list \<Rightarrow> album list"
  cl_thisYear :: nat
  cl_serverId :: "string option"

section \<open>Queries\<close>

datatype folder_ids = One_folder string | Many_folders "string list"

definition getLibraryId :: "folder_ids option \<Rightarrow> string option" where
  "getLibraryId musicFolderId =
     (case musicFolderId of
        None \<Rightarrow> None
      | Some (One_folder f) \<Rightarrow> Some f
      | Some (Many_folders fs) \<Rightarrow> (case fs of [] \<Rightarrow> None | f # _ \<Rightarrow> Some f))"

record list_query =
  lq_limit :: "nat option"
  lq_musicFolderId :: "folder_ids option"
  lq_searchTerm :: "string option"
  lq_sortOrder :: SortOrder
  lq_startIndex :: nat
  lq_favorite :: bool

record song_query = list_query +
  sq_albumArtistIds :: "string list option"
  sq_albumIds :: "string list option"
  sq_artistIds :: "string list option"
  sq_genreIds :: "string list option"
  sq_sortBy :: SongListSort

record album_query = list_query +
  bq_artistIds :: "string list option"
  bq_genreIds :: "string list option"
  bq_maxYear :: "nat option"
  bq_minYear :: "nat option"
  bq_sortBy :: AlbumListSort

record artist_query = list_query +
  rq_role :: "string option"
  rq_sortBy :: AlbumArtistListSort

record playlist_query = list_query +
  pq_sortBy :: "PlaylistListSort option"

text \<open>\<open>genreIds[0]\<close>, undefined for an empty array.\<close>

definition firstOf :: "string list \<Rightarrow> string option" where
  "firstOf ks = (case ks of [] \<Rightarrow> None | k # _ \<Rightarrow> Some k)"

definition MAX_SUBSONIC_ITEMS :: nat where "MAX_SUBSONIC_ITEMS = 500"

definition SUBSONIC_FAST_BATCH_SIZE :: nat where "SUBSONIC_FAST_BATCH_SIZE = MAX_SUBSONIC_ITEMS * 10"

text \<open>A limit of zero counts as none. The function that sorts is applied to its criteria.\<close>

definition sortAndPaginate :: "'a list \<Rightarrow> nat option \<Rightarrow> ('a list \<Rightarrow> 'a list) option \<Rightarrow> nat \<Rightarrow> 'a page" where
  "sortAndPaginate items limit0 sortFn startIndex =
     (let sortedItems = (case sortFn of None \<Rightarrow> items | Some f \<Rightarrow> f items);
          totalCount = length sortedItems;
          limit = (case limit0 of None \<Rightarrow> totalCount | Some n \<Rightarrow> if n = 0 then totalCount else n)
      in \<lparr>pg_items = take limit (drop startIndex sortedItems), pg_startIndex = startIndex,
          pg_totalRecordCount = Some totalCount\<rparr>)"

definition reply_or :: "string \<Rightarrow> 'a reply \<Rightarrow> ('a \<Rightarrow> api_error + 'b) \<Rightarrow> api_error + 'b" where
  "reply_or message r f = (case r of Refused \<Rightarrow> Inl (Api message) | Reply x \<Rightarrow> f x)"

text \<open>The bodies of those requests that succeeded.\<close>

definition replies :: "'a reply list \<Rightarrow> 'a list" where
  "replies rs = concat (map (\<lambda>r. case r of Refused \<Rightarrow> [] | Reply x \<Rightarrow> [x]) rs)"

definition songOf :: "ss_client \<Rightarrow> ss_song \<Rightarrow> full_song" where
  "songOf C song = normalizeSong song (cl_serverId C) None (\<lambda>_. None)"

definition albumOf :: "ss_client \<Rightarrow> ss_albumEntry \<Rightarrow> album" where
  "albumOf C item = normalizeAlbum item (cl_serverId C)"

text \<open>\<open>searchResult3?.song\<close> and \<open>searchResult3?.album\<close>, or the empty list.\<close>

definition searchedSongs :: "search3_result option \<Rightarrow> ss_song list" where
  "searchedSongs r = nullish_or (Option.bind r sr_song) []"

definition searchedAlbums :: "search3_result option \<Rightarrow> ss_albumEntry list" where
  "searchedAlbums r = nullish_or (Option.bind r sr_album) []"

definition starredSongs :: "(ss_albumEntry list option \<times> ss_song list option) option \<Rightarrow> ss_song list" where
  "starredSongs r = nullish_or (Option.bind r snd) []"

definition starredAlbums :: "(ss_albumEntry list option \<times> ss_song list option) option \<Rightarrow> ss_albumEntry list" where
  "starredAlbums r = nullish_or (Option.bind r fst) []"

section \<open>Counting by pages\<close>

text \<open>
  A page is asked for from an offset; its length, or an error, is the answer. The total that is accumulated is always
  the next offset. None stands for running out of fuel.
\<close>

primrec countPages :: "(nat \<Rightarrow> api_error + nat) \<Rightarrow> nat \<Rightarrow> nat \<Rightarrow> (api_error + nat) option" where
  "countPages fetch 0 startIndex = None"
| "countPages fetch (Suc fuel) startIndex =
     (case fetch startIndex of
        Inl e \<Rightarrow> Some (Inl e)
      | Inr n \<Rightarrow>
          if n = MAX_SUBSONIC_ITEMS then countPages fetch fuel (startIndex + n) else Some (Inr (startIndex + n)))"

text \<open>
  The fast count first asks for single items at offsets ten pages apart, and goes back to the last offset at which
  there was one.
\<close>

primrec findSection :: "(nat \<Rightarrow> api_error + nat) \<Rightarrow> nat \<Rightarrow> nat \<Rightarrow> (api_error + nat) option" where
  "findSection probe 0 sectionIndex = None"
| "findSection probe (Suc fuel) sectionIndex =
     (case probe sectionIndex of
        Inl e \<Rightarrow> Some (Inl e)
      | Inr n \<Rightarrow>
          if n \<noteq> 1 then Some (Inr (if sectionIndex = 0 then 0 else sectionIndex - SUBSONIC_FAST_BATCH_SIZE))
          else findSection probe fuel (sectionIndex + SUBSONIC_FAST_BATCH_SIZE))"

definition fastCount ::
    "(nat \<Rightarrow> api_error + nat) \<Rightarrow> (nat \<Rightarrow> api_error + nat) \<Rightarrow> nat \<Rightarrow> (api_error + nat) option" where
  "fastCount probe fetch fuel =
     (case findSection probe fuel 0 of
        None \<Rightarrow> None
      | Some (Inl e) \<Rightarrow> Some (Inl e)
      | Some (Inr startIndex) \<Rightarrow> countPages fetch fuel startIndex)"

section \<open>Songs\<close>

text \<open>The artists by whom is filtered: \<open>albumArtistIds || artistIds\<close>, where an empty array counts.\<close>

definition artistFilter :: "'m song_query_scheme \<Rightarrow> string list option" where
  "artistFilter q = (case sq_albumArtistIds q of Some ks \<Rightarrow> Some ks | None \<Rightarrow> sq_artistIds q)"

definition searchSongs :: "'m song_query_scheme \<Rightarrow> nat option \<Rightarrow> nat \<Rightarrow> search3_query" where
  "searchSongs q n offset =
     \<lparr>sq_albumCount = Some 0, sq_albumOffset = 0, sq_artistCount = 0, sq_artistOffset = 0,
      sq_musicFolderId = getLibraryId (lq_musicFolderId q), sq_query = text_or (lq_searchTerm q) '''',
      sq_songCount = n, sq_songOffset = offset\<rparr>"

text \<open>The albums of those artists whose request succeeded.\<close>

definition albumsOfArtists :: "ss_server \<Rightarrow> string list \<Rightarrow> ss_albumEntry list" where
  "albumsOfArtists S artistIds = concat (map (\<lambda>a. nullish_or (st_album a) []) (replies (map (sv_artist S) artistIds)))"

text \<open>The songs of the given albums and of the albums of the given artists. An album without an array of songs gives
  undefined as an element of the result.\<close>

definition songsOfAlbums :: "ss_server \<Rightarrow> 'm song_query_scheme \<Rightarrow> ss_song option list" where
  "songsOfAlbums S q =
     (let albumIds = nullish_or (sq_albumIds q) [];
          ofArtists = (case artistFilter q of None \<Rightarrow> [] | Some ks \<Rightarrow> map (\<lambda>a. idString (sa_id a)) (albumsOfArtists S ks))
      in concat (map (\<lambda>a. case sa_song a of None \<Rightarrow> [None] | Some songs \<Rightarrow> map Some songs)
           (replies (map (sv_album S) (albumIds @ ofArtists)))))"

definition favoriteSongs :: "ss_client \<Rightarrow> 'm song_query_scheme \<Rightarrow> ss_song list \<Rightarrow> full_song list" where
  "favoriteSongs C q songs =
     (let allResults = map (songOf C) songs
      in case artistFilter q of
           Some ks \<Rightarrow>
             if length ks > 0
             then filter (\<lambda>song. list_ex (\<lambda>aa. rel_id aa \<in> set ks) (s_albumArtists song)) allResults
             else allResults
         | None \<Rightarrow> allResults)"

definition songSort :: "ss_client \<Rightarrow> SongListSort \<Rightarrow> SortOrder \<Rightarrow> full_song list \<Rightarrow> full_song list" where
  "songSort C sortBy sortOrder songs = sortSongList (cl_sort C) (cl_songs C) (cl_shuffleSongs C) songs sortBy sortOrder"

definition getSongList :: "ss_server \<Rightarrow> ss_client \<Rightarrow> 'm song_query_scheme \<Rightarrow> api_error + full_song page" where
  "getSongList S C q =
     (if truthy (lq_searchTerm q) then
        reply_or ''Failed to get song list'' (sv_search3 S (searchSongs q (lq_limit q) (lq_startIndex q))) (\<lambda>body.
          Inr \<lparr>pg_items = map (songOf C) (searchedSongs body), pg_startIndex = lq_startIndex q,
               pg_totalRecordCount = None\<rparr>)
      else if sq_genreIds q \<noteq> None then
        reply_or ''Failed to get song list''
          (sv_songsByGenre S (lq_limit q, firstOf (the (sq_genreIds q)), getLibraryId (lq_musicFolderId q), lq_startIndex q))
          (\<lambda>songs. Inr \<lparr>pg_items = map (songOf C) (nullish_or songs []), pg_startIndex = 0, pg_totalRecordCount = None\<rparr>)
      else if lq_favorite q then
        reply_or ''Failed to get song list'' (sv_starred S (getLibraryId (lq_musicFolderId q))) (\<lambda>body.
          Inr (sortAndPaginate (favoriteSongs C q (starredSongs body)) (lq_limit q)
                 (Some (songSort C (sq_sortBy q) (lq_sortOrder q))) (lq_startIndex q)))
      else if sq_albumIds q \<noteq> None \<or> artistFilter q \<noteq> None then
        (let results = songsOfAlbums S q
         in if None \<in> set results then Inl Type_error
            else Inr \<lparr>pg_items = map (\<lambda>song. songOf C (the song)) results, pg_startIndex = 0,
                      pg_totalRecordCount = Some (length results)\<rparr>)
      else
        reply_or ''Failed to get song list'' (sv_search3 S (searchSongs q (lq_limit q) (lq_startIndex q))) (\<lambda>body.
          Inr \<lparr>pg_items = map (songOf C) (searchedSongs body), pg_startIndex = 0, pg_totalRecordCount = None\<rparr>))"

text \<open>One request of the loops that count, for songs by search and by genre.\<close>

definition countSearched :: "ss_server \<Rightarrow> 'm song_query_scheme \<Rightarrow> nat \<Rightarrow> nat \<Rightarrow> api_error + nat" where
  "countSearched S q n offset =
     reply_or ''Failed to get song list count'' (sv_search3 S (searchSongs q (Some n) offset)) (\<lambda>body.
       Inr (length (searchedSongs body)))"

definition countByGenre :: "ss_server \<Rightarrow> 'm song_query_scheme \<Rightarrow> nat \<Rightarrow> nat \<Rightarrow> api_error + nat" where
  "countByGenre S q n offset =
     reply_or ''Failed to get song list count''
       (sv_songsByGenre S (Some n, firstOf (nullish_or (sq_genreIds q) []), getLibraryId (lq_musicFolderId q), offset))
       (\<lambda>songs. Inr (length (nullish_or songs [])))"

definition getSongListCount :: "ss_server \<Rightarrow> nat \<Rightarrow> 'm song_query_scheme \<Rightarrow> (api_error + nat) option" where
  "getSongListCount S fuel q =
     (if truthy (lq_searchTerm q) then countPages (countSearched S q MAX_SUBSONIC_ITEMS) fuel 0
      else if sq_genreIds q \<noteq> None then fastCount (countByGenre S q 1) (countByGenre S q MAX_SUBSONIC_ITEMS) fuel
      else if lq_favorite q then
        Some (reply_or ''Failed to get song list'' (sv_starred S (getLibraryId (lq_musicFolderId q))) (\<lambda>body.
          Inr (length (starredSongs body))))
      else if sq_albumIds q \<noteq> None \<or> artistFilter q \<noteq> None then Some (Inr (length (songsOfAlbums S q)))
      else fastCount (countSearched S q 1) (countSearched S q MAX_SUBSONIC_ITEMS) fuel)"

section \<open>Albums\<close>

fun ALBUM_LIST_SORT_MAPPING :: "AlbumListSort \<Rightarrow> AlbumListSortType option" where
  "ALBUM_LIST_SORT_MAPPING Album_ALBUM_ARTIST = Some ALPHABETICAL_BY_ARTIST"
| "ALBUM_LIST_SORT_MAPPING Album_FAVORITED = Some STARRED"
| "ALBUM_LIST_SORT_MAPPING Album_NAME = Some ALPHABETICAL_BY_NAME"
| "ALBUM_LIST_SORT_MAPPING Album_PLAY_COUNT = Some FREQUENT"
| "ALBUM_LIST_SORT_MAPPING Album_RANDOM = Some RANDOM"
| "ALBUM_LIST_SORT_MAPPING Album_RECENTLY_ADDED = Some NEWEST"
| "ALBUM_LIST_SORT_MAPPING Album_RECENTLY_PLAYED = Some RECENT"
| "ALBUM_LIST_SORT_MAPPING Album_RELEASE_DATE = Some BY_YEAR"
| "ALBUM_LIST_SORT_MAPPING Album_SORT_NAME = Some ALPHABETICAL_BY_NAME"
| "ALBUM_LIST_SORT_MAPPING Album_YEAR = Some BY_YEAR"
| "ALBUM_LIST_SORT_MAPPING _ = None"

definition searchAlbums :: "'m album_query_scheme \<Rightarrow> nat option \<Rightarrow> nat \<Rightarrow> search3_query" where
  "searchAlbums q n offset =
     \<lparr>sq_albumCount = n, sq_albumOffset = offset, sq_artistCount = 0, sq_artistOffset = 0,
      sq_musicFolderId = getLibraryId (lq_musicFolderId q), sq_query = text_or (lq_searchTerm q) '''',
      sq_songCount = Some 0, sq_songOffset = 0\<rparr>"

text \<open>A year of zero counts as none. The range of years of a query, given the present year.\<close>

definition truthy_year :: "nat option \<Rightarrow> bool" where
  "truthy_year y = (nullish_or y 0 \<noteq> 0)"

definition yearRange :: "nat \<Rightarrow> 'm album_query_scheme \<Rightarrow> nat option \<times> nat option" where
  "yearRange thisYear q =
     (let (fromYear, toYear) = (if truthy_year (bq_minYear q) then (bq_minYear q, Some thisYear) else (None, None))
      in if truthy_year (bq_maxYear q)
         then (if truthy_year (bq_minYear q) then fromYear else Some 0, bq_maxYear q)
         else (fromYear, toYear))"

text \<open>By genre and by year override the sort that was chosen.\<close>

definition listType :: "AlbumListSortType \<Rightarrow> 'm album_query_scheme \<Rightarrow> AlbumListSortType" where
  "listType type0 q =
     (if truthy_year (bq_minYear q) \<or> truthy_year (bq_maxYear q) then BY_YEAR
      else if nullish_or (bq_genreIds q) [] \<noteq> [] then BY_GENRE
      else type0)"

definition albumListQuery ::
    "'m album_query_scheme \<Rightarrow> AlbumListSortType \<Rightarrow> nat option \<times> nat option \<Rightarrow> nat option \<Rightarrow> nat \<Rightarrow> album_list_query" where
  "albumListQuery q type1 years n offset =
     \<lparr>aq_fromYear = fst years, aq_genre = firstOf (nullish_or (bq_genreIds q) []),
      aq_musicFolderId = getLibraryId (lq_musicFolderId q), aq_offset = offset, aq_size = n,
      aq_toYear = snd years, aq_type = type1\<rparr>"

definition albumSort :: "ss_client \<Rightarrow> AlbumListSort \<Rightarrow> SortOrder \<Rightarrow> album list \<Rightarrow> album list" where
  "albumSort C sortBy sortOrder albums =
     sortAlbumList (cl_sort C) (cl_albums C) (cl_shuffleAlbums C) albums sortBy sortOrder"

definition getAlbumList :: "ss_server \<Rightarrow> ss_client \<Rightarrow> 'm album_query_scheme \<Rightarrow> api_error + album page" where
  "getAlbumList S C q =
     (if truthy (lq_searchTerm q) then
        reply_or ''Failed to get album list'' (sv_search3 S (searchAlbums q (lq_limit q) (lq_startIndex q))) (\<lambda>body.
          Inr \<lparr>pg_items = map (albumOf C) (searchedAlbums body), pg_startIndex = lq_startIndex q,
               pg_totalRecordCount = None\<rparr>)
      else if bq_artistIds q \<noteq> None then
        (let albums = albumsOfArtists S (the (bq_artistIds q))
         in Inr \<lparr>pg_items = albumSort C (bq_sortBy q) (lq_sortOrder q) (map (albumOf C) albums), pg_startIndex = 0,
                 pg_totalRecordCount = Some (length albums)\<rparr>)
      else if lq_favorite q then
        reply_or ''Failed to get album list'' (sv_starred S (getLibraryId (lq_musicFolderId q))) (\<lambda>body.
          Inr (sortAndPaginate (map (albumOf C) (starredAlbums body)) (lq_limit q)
                 (Some (albumSort C (bq_sortBy q) (lq_sortOrder q))) (lq_startIndex q)))
      else
        (let type1 = listType (nullish_or (ALBUM_LIST_SORT_MAPPING (bq_sortBy q)) ALPHABETICAL_BY_NAME) q;
             years0 = yearRange (cl_thisYear C) q;
             years = (if type1 = BY_YEAR \<and> \<not> truthy_year (fst years0) \<and> \<not> truthy_year (snd years0)
               then (if lq_sortOrder q = ASC then (Some 0, Some (cl_thisYear C)) else (Some (cl_thisYear C), Some 0))
               else years0)
         in reply_or ''Failed to get album list''
              (snd (sv_albumList2 S (albumListQuery q type1 years (lq_limit q) (lq_startIndex q)))) (\<lambda>albums.
                Inr \<lparr>pg_items = map (albumOf C) (nullish_or albums []), pg_startIndex = lq_startIndex q,
                     pg_totalRecordCount = None\<rparr>)))"

text \<open>The reduction over the answers of the artists: a refused one starts the total again at zero.\<close>

definition artistAlbumTotal :: "ss_artistEntry reply list \<Rightarrow> nat" where
  "artistAlbumTotal rs =
     foldl (\<lambda>total r. case r of Refused \<Rightarrow> 0 | Reply a \<Rightarrow> length (nullish_or (st_album a) []) + total) 0 rs"

text \<open>
  One request of the count: Navidrome tells the total in a header, whatever the status; otherwise the length of
  the page, where a missing list is an error.
\<close>

primrec countAlbumPages ::
    "(nat \<Rightarrow> nat option \<times> ss_albumEntry list option reply) \<Rightarrow> nat \<Rightarrow> nat \<Rightarrow> (api_error + nat) option" where
  "countAlbumPages fetch 0 startIndex = None"
| "countAlbumPages fetch (Suc fuel) startIndex =
     (case fetch startIndex of
        (Some recorded, _) \<Rightarrow> Some (Inr recorded)
      | (None, Refused) \<Rightarrow> Some (Inl (Api ''Failed to get album list count''))
      | (None, Reply None) \<Rightarrow> Some (Inl Type_error)
      | (None, Reply (Some albums)) \<Rightarrow>
          if length albums = MAX_SUBSONIC_ITEMS then countAlbumPages fetch fuel (startIndex + length albums)
          else Some (Inr (startIndex + length albums)))"

definition countSearchedAlbums :: "ss_server \<Rightarrow> 'm album_query_scheme \<Rightarrow> nat \<Rightarrow> api_error + nat" where
  "countSearchedAlbums S q offset =
     reply_or ''Failed to get album list count'' (sv_search3 S (searchAlbums q (Some MAX_SUBSONIC_ITEMS) offset))
       (\<lambda>body. Inr (length (searchedAlbums body)))"

definition getAlbumListCount ::
    "ss_server \<Rightarrow> ss_client \<Rightarrow> nat \<Rightarrow> 'm album_query_scheme \<Rightarrow> (api_error + nat) option" where
  "getAlbumListCount S C fuel q =
     (if truthy (lq_searchTerm q) then countPages (countSearchedAlbums S q) fuel 0
      else if bq_artistIds q \<noteq> None then
        Some (Inr (artistAlbumTotal (map (sv_artist S) (the (bq_artistIds q)))))
      else if lq_favorite q then
        Some (reply_or ''Failed to get album list'' (sv_starred S (getLibraryId (lq_musicFolderId q))) (\<lambda>body.
          Inr (length (starredAlbums body))))
      else
        countAlbumPages (\<lambda>offset. sv_albumList2 S
          (albumListQuery q (listType ALPHABETICAL_BY_NAME q) (yearRange (cl_thisYear C) q)
            (Some MAX_SUBSONIC_ITEMS) offset)) fuel 0)"

section \<open>Artists, playlists and genres\<close>

text \<open>The entries whose name contains the search term, without regard to case.\<close>

definition searchNames :: "ss_client \<Rightarrow> ('a \<Rightarrow> string) \<Rightarrow> string option \<Rightarrow> 'a list \<Rightarrow> 'a list" where
  "searchNames C name term0 xs =
     (if truthy term0
      then filter (\<lambda>x. isInfix (lo_lower (cl_sort C) (the term0)) (lo_lower (cl_sort C) (name x))) xs else xs)"

definition artistSort :: "ss_client \<Rightarrow> AlbumArtistListSort \<Rightarrow> SortOrder \<Rightarrow> album_artist list \<Rightarrow> album_artist list" where
  "artistSort C sortBy sortOrder artists = sortAlbumArtistList (cl_sort C) (cl_artists C) artists sortBy sortOrder"

definition getAlbumArtistList ::
    "ss_server \<Rightarrow> ss_client \<Rightarrow> 'm artist_query_scheme \<Rightarrow> api_error + album_artist page" where
  "getAlbumArtistList S C q =
     reply_or ''Failed to get album artist list'' (sv_artists S (getLibraryId (lq_musicFolderId q))) (\<lambda>indexes.
       (let results = map (\<lambda>a. normalizeAlbumArtist a (cl_serverId C)) (concat (nullish_or indexes []));
            found = searchNames C ar_name (lq_searchTerm q) results;
            kept = (if lq_favorite q then filter ar_userFavorite found else found)
        in Inr (sortAndPaginate kept (lq_limit q) (Some (artistSort C (rq_sortBy q) (lq_sortOrder q))) (lq_startIndex q))))"

text \<open>The artists that have a role, and those of which no roles are known.\<close>

definition withRole :: "string option \<Rightarrow> ss_artistEntry list \<Rightarrow> ss_artistEntry list" where
  "withRole role artists =
     (if truthy role
      then filter (\<lambda>a. case st_roles a of None \<Rightarrow> True | Some rs \<Rightarrow> the role \<in> set rs) artists
      else artists)"

definition getArtistList ::
    "ss_server \<Rightarrow> ss_client \<Rightarrow> 'm artist_query_scheme \<Rightarrow> api_error + album_artist page" where
  "getArtistList S C q =
     reply_or ''Failed to get artist list'' (sv_artists S (getLibraryId (lq_musicFolderId q))) (\<lambda>indexes.
       (let artists = concat (nullish_or indexes []);
            results = map (\<lambda>a. normalizeAlbumArtist a (cl_serverId C)) (withRole (rq_role q) artists);
            found = searchNames C ar_name (lq_searchTerm q) results
        in Inr (sortAndPaginate found (lq_limit q) (Some (artistSort C (rq_sortBy q) (lq_sortOrder q))) (lq_startIndex q))))"

text \<open>The counts ask for the list from its start.\<close>

definition totalOf :: "api_error + 'a page \<Rightarrow> api_error + nat option" where
  "totalOf r = (case r of Inl e \<Rightarrow> Inl e | Inr p \<Rightarrow> Inr (pg_totalRecordCount p))"

definition getAlbumArtistListCount ::
    "ss_server \<Rightarrow> ss_client \<Rightarrow> 'm artist_query_scheme \<Rightarrow> api_error + nat option" where
  "getAlbumArtistListCount S C q = totalOf (getAlbumArtistList S C (q\<lparr>lq_startIndex := 0\<rparr>))"

definition getArtistListCount ::
    "ss_server \<Rightarrow> ss_client \<Rightarrow> 'm artist_query_scheme \<Rightarrow> api_error + nat option" where
  "getArtistListCount S C q = totalOf (getArtistList S C (q\<lparr>lq_startIndex := 0\<rparr>))"

definition playlistSort :: "ss_client \<Rightarrow> PlaylistListSort option \<Rightarrow> SortOrder \<Rightarrow> ss_playlist list \<Rightarrow> ss_playlist list" where
  "playlistSort C sortBy sortOrder playlists =
     (let by = (\<lambda>k. cl_playlists C [k] [sortOrder = DESC] playlists)
      in case sortBy of
           Some Playlist_DURATION \<Rightarrow> by (\<lambda>v. Key_num (sp_duration v))
         | Some Playlist_NAME \<Rightarrow> by (\<lambda>v. Key_text (lo_lower (cl_sort C) (sp_name v)))
         | Some Playlist_OWNER \<Rightarrow> by (\<lambda>v. Key_text (lo_lower (cl_sort C) (sp_owner v)))
         | Some Playlist_PUBLIC \<Rightarrow> by (\<lambda>v. Key_bool (sp_public v))
         | Some Playlist_SONG_COUNT \<Rightarrow> by (\<lambda>v. Key_num (of_nat (sp_songCount v)))
         | Some Playlist_UPDATED_AT \<Rightarrow> by (\<lambda>v. opt_text (sp_changed v))
         | None \<Rightarrow> playlists)"

definition getPlaylistList ::
    "ss_server \<Rightarrow> ss_client \<Rightarrow> 'm playlist_query_scheme \<Rightarrow> api_error + playlist page" where
  "getPlaylistList S C q =
     reply_or ''Failed to get playlist list'' (sv_playlists S) (\<lambda>playlists.
       (let results = searchNames C sp_name (lq_searchTerm q) (nullish_or playlists []);
            sorted1 = playlistSort C (pq_sortBy q) (lq_sortOrder q) results
        in Inr (sortAndPaginate (map (\<lambda>p. normalizePlaylist p (cl_serverId C)) sorted1) (lq_limit q) None
                  (lq_startIndex q))))"

definition getPlaylistListCount :: "ss_server \<Rightarrow> ss_client \<Rightarrow> 'm list_query_scheme \<Rightarrow> api_error + nat" where
  "getPlaylistListCount S C q =
     reply_or ''Failed to get playlist list'' (sv_playlists S) (\<lambda>playlists.
       Inr (length (searchNames C sp_name (lq_searchTerm q) (nullish_or playlists []))))"

text \<open>Genres can be sorted by name only.\<close>

definition getGenreList :: "ss_server \<Rightarrow> ss_client \<Rightarrow> bool \<Rightarrow> 'm list_query_scheme \<Rightarrow> api_error + genre page" where
  "getGenreList S C byName q =
     reply_or ''Failed to get genre list'' (sv_genres S) (\<lambda>genres.
       (let results = searchNames C sn_value (lq_searchTerm q) (nullish_or genres []);
            sorted1 = (if byName
              then cl_genres C [\<lambda>v. Key_text (lo_lower (cl_sort C) (sn_value v))] [lq_sortOrder q = DESC] results
              else results)
        in Inr (sortAndPaginate (map (\<lambda>g. normalizeGenre g (cl_serverId C)) sorted1) (lq_limit q) None
                  (lq_startIndex q))))"

section \<open>Counting is exact\<close>

lemma max_items [simp]: "0 < MAX_SUBSONIC_ITEMS" "SUBSONIC_FAST_BATCH_SIZE = MAX_SUBSONIC_ITEMS * 10"
  by (simp_all add: MAX_SUBSONIC_ITEMS_def SUBSONIC_FAST_BATCH_SIZE_def)

lemma countPages_total:
  assumes "\<And>offset. fetch offset = Inr (min MAX_SUBSONIC_ITEMS (N - offset))"
    and "startIndex \<le> N" and "(N - startIndex) div MAX_SUBSONIC_ITEMS < fuel"
  shows "countPages fetch fuel startIndex = Some (Inr N)"
  using assms(2,3)
proof (induction fuel arbitrary: startIndex)
  case (Suc fuel)
  let ?M = MAX_SUBSONIC_ITEMS
  show ?case
  proof (cases "?M \<le> N - startIndex")
    case True
    have "(N - startIndex) div ?M = Suc ((N - startIndex - ?M) div ?M)"
      using True by (intro le_div_geq) simp_all
    then have "(N - (startIndex + ?M)) div ?M < fuel"
      using Suc.prems(2) by (simp only: diff_diff_eq)
    moreover have "startIndex + ?M \<le> N" using True max_items(1) by linarith
    ultimately have "countPages fetch fuel (startIndex + ?M) = Some (Inr N)" by (intro Suc.IH)
    moreover have "fetch startIndex = Inr ?M" using True by (simp add: assms(1) min_absorb1)
    ultimately show ?thesis by simp
  next
    case False
    then have "fetch startIndex = Inr (N - startIndex)" by (simp add: assms(1) min_absorb2)
    then show ?thesis using False Suc.prems(1) by simp
  qed
qed simp

lemma findSection_near_end:
  assumes "\<And>offset. probe offset = Inr (min 1 (N - offset))"
    and "k = 0 \<or> (k - 1) * SUBSONIC_FAST_BATCH_SIZE < N" and "0 < fuel"
    and "N \<le> (k + fuel - 1) * SUBSONIC_FAST_BATCH_SIZE"
  shows "\<exists>s. findSection probe fuel (k * SUBSONIC_FAST_BATCH_SIZE) = Some (Inr s) \<and> s \<le> N
    \<and> N - s \<le> SUBSONIC_FAST_BATCH_SIZE"
  using assms(2-4)
proof (induction fuel arbitrary: k)
  case (Suc fuel)
  let ?B = SUBSONIC_FAST_BATCH_SIZE
  show ?case
  proof (cases "k * ?B < N")
    case True
    have fuel: "0 < fuel"
    proof (rule ccontr)
      assume "\<not> 0 < fuel"
      then show False using Suc.prems(3) True by simp
    qed
    then have "\<exists>s. findSection probe fuel (Suc k * ?B) = Some (Inr s) \<and> s \<le> N \<and> N - s \<le> ?B"
      using True Suc.prems(3) by (intro Suc.IH) simp_all
    moreover have "probe (k * ?B) = Inr 1" using True by (simp add: assms(1) min_absorb1 del: max_items(2))
    ultimately show ?thesis by (simp add: add.commute del: max_items(2))
  next
    case False
    then have "probe (k * ?B) = Inr 0" by (simp add: assms(1) del: max_items(2))
    moreover have "k \<noteq> 0 \<Longrightarrow> k * ?B - ?B = (k - 1) * ?B" by (simp add: diff_mult_distrib del: max_items(2))
    ultimately show ?thesis
      using Suc.prems(1) False max_items by (cases k) (auto simp del: max_items(2))
  qed
qed simp

lemma fastCount_total:
  assumes "\<And>offset. probe offset = Inr (min 1 (N - offset))"
    and "\<And>offset. fetch offset = Inr (min MAX_SUBSONIC_ITEMS (N - offset))"
    and "N div SUBSONIC_FAST_BATCH_SIZE + 11 \<le> fuel"
  shows "fastCount probe fetch fuel = Some (Inr N)"
proof -
  let ?B = SUBSONIC_FAST_BATCH_SIZE
  have B: "0 < ?B" by simp
  have "N < (N div ?B + 1) * ?B" using dividend_less_div_times [OF B, of N] by (simp only: add_mult_distrib mult_1)
  also have "\<dots> \<le> (fuel - 1) * ?B" using assms(3) by (intro mult_right_mono) simp_all
  finally have fuel: "N \<le> (0 + fuel - 1) * ?B" "0 < fuel" using assms(3) by simp_all
  obtain s where s: "findSection probe fuel 0 = Some (Inr s)" "s \<le> N" "N - s \<le> ?B"
    using findSection_near_end [of probe N 0 fuel, OF assms(1) _ fuel(2,1)] by (auto simp del: max_items(2))
  have "(N - s) div MAX_SUBSONIC_ITEMS \<le> ?B div MAX_SUBSONIC_ITEMS" by (rule div_le_mono [OF s(3)])
  also have "\<dots> < fuel" using assms(3) by simp
  finally show ?thesis using countPages_total [OF assms(2) s(2)] s(1) by (simp add: fastCount_def)
qed

text \<open>What the server documents: a request with a count and an offset answers with that part of the list.\<close>

definition serves_songs :: "ss_server \<Rightarrow> 'm song_query_scheme \<Rightarrow> ss_song list \<Rightarrow> bool" where
  "serves_songs S q songs \<longleftrightarrow>
     (\<forall>n offset. \<exists>r. sv_search3 S (searchSongs q (Some n) offset) = Reply r
        \<and> searchedSongs r = take n (drop offset songs))"

text \<open>Of the songs of a genre a request gets at most 500, whatever its count is.\<close>

definition serves_genre :: "ss_server \<Rightarrow> 'm song_query_scheme \<Rightarrow> ss_song list \<Rightarrow> bool" where
  "serves_genre S q songs \<longleftrightarrow>
     (\<forall>n offset. \<exists>r. sv_songsByGenre S (Some n, firstOf (nullish_or (sq_genreIds q) []),
          getLibraryId (lq_musicFolderId q), offset) = Reply r
        \<and> nullish_or r [] = take (min n 500) (drop offset songs))"

lemma countSearched_served:
  "serves_songs S q songs \<Longrightarrow> countSearched S q n offset = Inr (min n (length songs - offset))"
  unfolding serves_songs_def countSearched_def by (drule spec [of _ n], drule spec [of _ offset]) (auto simp: reply_or_def)

lemma countByGenre_served:
  "serves_genre S q songs \<Longrightarrow> n \<le> 500 \<Longrightarrow> countByGenre S q n offset = Inr (min n (length songs - offset))"
  unfolding serves_genre_def countByGenre_def by (drule spec [of _ n], drule spec [of _ offset]) (auto simp: reply_or_def)

text \<open>A query for all songs, and one for those of a genre.\<close>

definition plain_query :: "'m song_query_scheme \<Rightarrow> bool" where
  "plain_query q \<longleftrightarrow> \<not> truthy (lq_searchTerm q) \<and> sq_genreIds q = None \<and> \<not> lq_favorite q \<and> sq_albumIds q = None
     \<and> artistFilter q = None"

definition genre_songs_query :: "'m song_query_scheme \<Rightarrow> bool" where
  "genre_songs_query q \<longleftrightarrow> \<not> truthy (lq_searchTerm q) \<and> sq_genreIds q \<noteq> None"

text \<open>
  C22: The fast count of songs is exact. It jumps ahead by ten pages, goes back, and counts the rest page by page;
  if the server answers every request with the part of its list that was asked for, of the songs of a genre at most 500 of them, the
  result is the length of the list, for all songs and for those of a genre, also for an empty list and one that ends at a
  page. For a list of \<open>n\<close> songs each of the two loops makes at most \<open>n div 5000 + 11\<close> requests.
\<close>

theorem song_count_exact:
  assumes "plain_query q \<and> serves_songs S q songs \<or> genre_songs_query q \<and> serves_genre S q songs"
    and "length songs div SUBSONIC_FAST_BATCH_SIZE + 11 \<le> fuel"
  shows "getSongListCount S fuel q = Some (Inr (length songs))"
  using assms(1)
proof
  assume a: "plain_query q \<and> serves_songs S q songs"
  then show ?thesis
    using fastCount_total [OF _ _ assms(2)]
    by (simp add: getSongListCount_def plain_query_def countSearched_served)
next
  assume a: "genre_songs_query q \<and> serves_genre S q songs"
  then show ?thesis
    using fastCount_total [OF _ _ assms(2)]
    by (simp add: getSongListCount_def genre_songs_query_def countByGenre_served MAX_SUBSONIC_ITEMS_def)
qed

text \<open>
  C24: The fast count agrees with the plain one that asks for every page from the start, whenever both have enough
  fuel.
\<close>

theorem fast_count_equals_slow_count:
  assumes "plain_query q" and "serves_songs S q songs" and "length songs div MAX_SUBSONIC_ITEMS + 11 \<le> fuel"
  shows "getSongListCount S fuel q = countPages (countSearched S q MAX_SUBSONIC_ITEMS) fuel 0"
proof -
  have "length songs div SUBSONIC_FAST_BATCH_SIZE \<le> length songs div MAX_SUBSONIC_ITEMS"
    by (rule div_le_mono2) simp_all
  then have "getSongListCount S fuel q = Some (Inr (length songs))"
    using assms fastCount_total by (simp add: getSongListCount_def plain_query_def countSearched_served)
  moreover have "countPages (countSearched S q MAX_SUBSONIC_ITEMS) fuel 0 = Some (Inr (length songs))"
    using assms by (intro countPages_total) (simp_all add: countSearched_served)
  ultimately show ?thesis by simp
qed

section \<open>Pages\<close>

lemma concat_pages: "concat (map (\<lambda>i. take n (drop (i * n) xs)) [0..<k]) = take (k * n) xs"
proof (induction k)
  case (Suc k)
  have "take (Suc k * n) xs = take (k * n) xs @ take n (drop (k * n) xs)"
    by (simp only: take_add [symmetric] mult_Suc add.commute)
  with Suc show ?case by simp
qed simp

definition itemsOf :: "api_error + 'a page \<Rightarrow> 'a list" where
  "itemsOf r = (case r of Inl e \<Rightarrow> [] | Inr p \<Rightarrow> pg_items p)"

abbreviation song_page :: "nat \<Rightarrow> nat \<Rightarrow> 'm song_query_scheme \<Rightarrow> 'm song_query_scheme" where
  "song_page n i q \<equiv> q\<lparr>lq_limit := Some n, lq_startIndex := i * n\<rparr>"

lemma page_queries [simp]:
  "searchSongs (song_page n i q) m offset = searchSongs q m offset"
  "artistFilter (song_page n i q) = artistFilter q" "plain_query (song_page n i q) = plain_query q"
  by (auto simp: searchSongs_def artistFilter_def plain_query_def split: option.splits)

text \<open>
  C23: The pages of all songs, put one after the other, are the list of the server: no song is missing at the
  border of two pages and none is there twice.
\<close>

theorem song_pages_cover_library:
  assumes "plain_query q" and "serves_songs S q songs" and "length songs \<le> k * n"
  shows "concat (map (\<lambda>i. itemsOf (getSongList S C (song_page n i q))) [0..<k]) = map (songOf C) songs"
proof -
  have "itemsOf (getSongList S C (song_page n i q)) = map (songOf C) (take n (drop (i * n) songs))" for i
  proof -
    obtain r where "sv_search3 S (searchSongs q (Some n) (i * n)) = Reply r" "searchedSongs r = take n (drop (i * n) songs)"
      using assms(2) unfolding serves_songs_def by blast
    then show ?thesis
      using assms(1) page_queries(3) [of n i q] by (simp add: getSongList_def plain_query_def itemsOf_def reply_or_def)
  qed
  then show ?thesis
    using assms(3) concat_pages [of n "map (songOf C) songs" k] by (simp add: take_map drop_map o_def)
qed

text \<open>
  The favourite songs are paged by the client: the pages, put one after the other, are the sorted list of the
  favourites by the chosen artists.
\<close>

theorem favorite_pages_cover:
  assumes "\<not> truthy (lq_searchTerm q)" "sq_genreIds q = None" "lq_favorite q" "0 < n"
    and "sv_starred S (getLibraryId (lq_musicFolderId q)) = Reply body"
    and "fav = songSort C (sq_sortBy q) (lq_sortOrder q) (favoriteSongs C q (starredSongs body))"
    and "length fav \<le> k * n"
  shows "concat (map (\<lambda>i. itemsOf (getSongList S C (song_page n i q))) [0..<k]) = fav"
proof -
  have "itemsOf (getSongList S C (song_page n i q)) = take n (drop (i * n) fav)" for i
    using assms(1-6)
    by (simp add: getSongList_def itemsOf_def reply_or_def sortAndPaginate_def Let_def favoriteSongs_def)
  then show ?thesis using assms(7) by (simp add: concat_pages)
qed

section \<open>Lists and their counts\<close>

text \<open>
  For songs of albums and artists the list is complete and its total is right, and the count that is asked for
  separately agrees with it.
\<close>

theorem album_songs_and_count_agree:
  assumes "\<not> truthy (lq_searchTerm q)" "sq_genreIds q = None" "\<not> lq_favorite q"
    and "sq_albumIds q \<noteq> None \<or> artistFilter q \<noteq> None" and "getSongList S C q = Inr p"
  shows "pg_totalRecordCount p = Some (length (pg_items p)) \<and> getSongListCount S fuel q = Some (Inr (length (pg_items p)))"
  using assms by (auto simp: getSongList_def getSongListCount_def Let_def split: if_splits)

lemma sortAndPaginate_total [simp]:
  "pg_totalRecordCount (sortAndPaginate xs n f i) = Some (length (case f of None \<Rightarrow> xs | Some g \<Rightarrow> g xs))"
  by (simp add: sortAndPaginate_def Let_def)

text \<open>
  The separate counts of artists and album artists are the totals that every page of their lists carries.
\<close>

theorem artist_counts_agree:
  "(getArtistList S C q = Inr p \<longrightarrow> getArtistListCount S C q = Inr (pg_totalRecordCount p))
   \<and> (getAlbumArtistList S C q = Inr p' \<longrightarrow> getAlbumArtistListCount S C q = Inr (pg_totalRecordCount p'))"
  by (auto simp: getArtistList_def getArtistListCount_def getAlbumArtistList_def getAlbumArtistListCount_def totalOf_def
      reply_or_def Let_def split: reply.splits)

text \<open>
  A flaw of the count of the albums of several artists: when the request for one artist is refused, the albums
  of all artists before it are forgotten, while the list still has them.
\<close>

theorem refused_artist_resets_count:
  assumes "\<not> truthy (lq_searchTerm q)" "bq_artistIds q = Some (ks @ k # ks')" "sv_artist S k = Refused"
  shows "getAlbumListCount S C fuel q = Some (Inr (artistAlbumTotal (map (sv_artist S) ks')))
    \<and> (\<exists>p. getAlbumList S C q = Inr p
         \<and> pg_totalRecordCount p = Some (length (albumsOfArtists S ks) + length (albumsOfArtists S ks')))"
  using assms
  by (simp add: getAlbumListCount_def getAlbumList_def artistAlbumTotal_def albumsOfArtists_def replies_def Let_def)

section \<open>Examples\<close>

definition exampleRaw :: "nat \<Rightarrow> ss_song" where
  "exampleRaw n = \<lparr>ss_album = Some ''Help'', ss_albumArtists = None, ss_albumId = Some (Id_num 7),
     ss_artist = Some ''The Beatles'', ss_artistId = None, ss_artists = None, ss_bitDepth = None, ss_bitRate = None,
     ss_bpm = None, ss_channelCount = None, ss_contentType = ''audio/flac'', ss_contributors = None,
     ss_coverArt = None, ss_created = ''2020'', ss_discNumber = None, ss_duration = Some 120, ss_explicitStatus = None,
     ss_genre = None, ss_genres = None, ss_songId = Id_num n, ss_musicBrainzId = None, ss_path = None,
     ss_playCount = None, ss_replayGain = None, ss_samplingRate = None, ss_size = 1, ss_starred = Some True,
     ss_title = ''Help'', ss_track = Some (int n), ss_userRating = None, ss_year = Some 1965, ss_releaseDate = None\<rparr>"

definition exampleEntry :: "ss_albumEntry" where
  "exampleEntry = \<lparr>sa_artist = ''The Beatles'', sa_artistId = None, sa_artists = None, sa_contributors = None,
     sa_coverArt = None, sa_created = ''2020'', sa_discTitles = None, sa_duration = 240, sa_explicitStatus = None,
     sa_genre = None, sa_genres = None, sa_id = Id_num 7, sa_name = ''Help'', sa_recordLabels = None,
     sa_releaseDate = None, sa_releaseTypes = None, sa_song = Some [exampleRaw 1, exampleRaw 2], sa_songCount = 2,
     sa_starred = None, sa_title = ''Help'', sa_userRating = None, sa_version = None, sa_year = Some 1965\<rparr>"

definition exampleArtistEntry :: "ss_artistEntry" where
  "exampleArtistEntry = \<lparr>st_album = Some [exampleEntry], st_albumCount = Some 1, st_coverArt = None,
     st_id = Id_str ''a'', st_name = ''The Beatles'', st_roles = None, st_starred = None, st_similarArtists = None\<rparr>"

definition exampleServer :: "ss_song list \<Rightarrow> ss_server" where
  "exampleServer songs =
     \<lparr>sv_search3 = (\<lambda>q. Reply (Some \<lparr>sr_album = None,
        sr_song = Some (take (nullish_or (sq_songCount q) 20) (drop (sq_songOffset q) songs))\<rparr>)),
      sv_artist = (\<lambda>k. if k = ''b'' then Refused else Reply exampleArtistEntry),
      sv_album = (\<lambda>k. Reply exampleEntry),
      sv_starred = (\<lambda>f. Reply (Some (None, Some songs))),
      sv_songsByGenre = (\<lambda>(n, g, f, offset). Reply (Some (take (min (nullish_or n 10) 500) (drop offset songs)))),
      sv_albumList2 = (\<lambda>q. (None, Reply None)),
      sv_artists = (\<lambda>f. Reply (Some [[exampleArtistEntry], [exampleArtistEntry]])),
      sv_playlists = Reply None, sv_genres = Reply None\<rparr>"

definition exampleClient :: ss_client where
  "exampleClient = \<lparr>cl_sort = exampleLib, cl_songs = libraryOrderBy, cl_albums = libraryOrderBy,
     cl_artists = libraryOrderBy, cl_playlists = libraryOrderBy, cl_genres = libraryOrderBy, cl_shuffleSongs = rev,
     cl_shuffleAlbums = rev, cl_thisYear = 2026, cl_serverId = Some ''server''\<rparr>"

definition exampleQuery :: song_query where
  "exampleQuery = \<lparr>lq_limit = None, lq_musicFolderId = None, lq_searchTerm = None, lq_sortOrder = ASC,
     lq_startIndex = 0, lq_favorite = False, sq_albumArtistIds = None, sq_albumIds = None, sq_artistIds = None,
     sq_genreIds = None, sq_sortBy = Song_ID\<rparr>"

definition exampleArtistQuery :: artist_query where
  "exampleArtistQuery = \<lparr>lq_limit = Some 1, lq_musicFolderId = None, lq_searchTerm = None, lq_sortOrder = ASC,
     lq_startIndex = 1, lq_favorite = False, rq_role = None, rq_sortBy = Artist_FAVORITED\<rparr>"

definition exampleAlbumQuery :: album_query where
  "exampleAlbumQuery = \<lparr>lq_limit = None, lq_musicFolderId = None, lq_searchTerm = None, lq_sortOrder = ASC,
     lq_startIndex = 0, lq_favorite = False, bq_artistIds = Some [''a'', ''b'', ''c''], bq_genreIds = None,
     bq_maxYear = None, bq_minYear = None, bq_sortBy = Album_NAME\<rparr>"

lemma example_serves: "plain_query exampleQuery" "serves_songs (exampleServer songs) exampleQuery songs"
  by (simp_all add: plain_query_def exampleQuery_def artistFilter_def serves_songs_def exampleServer_def
      searchSongs_def searchedSongs_def)

definition exampleGenreQuery :: song_query where
  "exampleGenreQuery = exampleQuery\<lparr>sq_genreIds := Some [''Rock'']\<rparr>"

lemma example_serves_genre:
  "genre_songs_query exampleGenreQuery" "serves_genre (exampleServer songs) exampleGenreQuery songs"
  by (simp_all add: genre_songs_query_def exampleGenreQuery_def exampleQuery_def serves_genre_def exampleServer_def)

lemma song_count_exact_witness:
  "getSongListCount (exampleServer [exampleRaw 1, exampleRaw 2]) 11 exampleQuery = Some (Inr 2)
   \<and> getSongListCount (exampleServer (replicate 5500 (exampleRaw 1))) 12 exampleGenreQuery = Some (Inr 5500)"
proof
  show "getSongListCount (exampleServer [exampleRaw 1, exampleRaw 2]) 11 exampleQuery = Some (Inr 2)"
    using song_count_exact [of exampleQuery "exampleServer [exampleRaw 1, exampleRaw 2]" "[exampleRaw 1, exampleRaw 2]" 11]
      example_serves by (simp add: MAX_SUBSONIC_ITEMS_def)
  show "getSongListCount (exampleServer (replicate 5500 (exampleRaw 1))) 12 exampleGenreQuery = Some (Inr 5500)"
    using song_count_exact [of exampleGenreQuery "exampleServer (replicate 5500 (exampleRaw 1))" "replicate 5500 (exampleRaw 1)" 12]
      example_serves_genre by (simp add: MAX_SUBSONIC_ITEMS_def del: replicate.simps)
qed

lemma fast_count_equals_slow_count_witness:
  "getSongListCount (exampleServer [exampleRaw 1]) 11 exampleQuery =
     countPages (countSearched (exampleServer [exampleRaw 1]) exampleQuery MAX_SUBSONIC_ITEMS) 11 0"
  by (rule fast_count_equals_slow_count [OF example_serves]) (simp add: MAX_SUBSONIC_ITEMS_def)

lemma song_pages_cover_library_witness:
  "concat (map (\<lambda>i. itemsOf (getSongList (exampleServer [exampleRaw 1, exampleRaw 2]) exampleClient
       (song_page 1 i exampleQuery))) [0..<2]) =
     map (songOf exampleClient) [exampleRaw 1, exampleRaw 2]"
  by (rule song_pages_cover_library [OF example_serves]) simp

lemma favorite_pages_cover_witness:
  "concat (map (\<lambda>i. itemsOf (getSongList (exampleServer [exampleRaw 1, exampleRaw 2]) exampleClient
       (song_page 1 i (exampleQuery\<lparr>lq_favorite := True\<rparr>)))) [0..<2]) =
     songSort exampleClient Song_ID ASC (map (songOf exampleClient) [exampleRaw 1, exampleRaw 2])"
  by (rule favorite_pages_cover [where body = "Some (None, Some [exampleRaw 1, exampleRaw 2])"])
    (simp_all add: exampleQuery_def exampleServer_def favoriteSongs_def artistFilter_def starredSongs_def
      songSort_def sortSongList_def)

lemma album_songs_and_count_agree_witness:
  "getSongListCount (exampleServer []) 0 (exampleQuery\<lparr>sq_albumIds := Some [''x'']\<rparr>) = Some (Inr 2)"
proof -
  let ?q = "exampleQuery\<lparr>sq_albumIds := Some [''x'']\<rparr>"
  let ?p = "\<lparr>pg_items = map (songOf exampleClient) [exampleRaw 1, exampleRaw 2], pg_startIndex = 0,
    pg_totalRecordCount = Some 2\<rparr>"
  have "getSongList (exampleServer []) exampleClient ?q = Inr ?p"
    by (simp add: getSongList_def exampleQuery_def songsOfAlbums_def artistFilter_def replies_def exampleServer_def
        exampleEntry_def Let_def)
  from album_songs_and_count_agree [OF _ _ _ _ this, of 0] show ?thesis by (simp add: exampleQuery_def)
qed

lemma artist_counts_agree_witness:
  "getArtistListCount (exampleServer []) exampleClient exampleArtistQuery = Inr (Some 2)"
proof -
  obtain p where p: "getArtistList (exampleServer []) exampleClient exampleArtistQuery = Inr p"
    by (simp add: getArtistList_def exampleServer_def reply_or_def Let_def)
  have "pg_totalRecordCount p = Some 2"
    using p by (auto simp: getArtistList_def exampleServer_def reply_or_def Let_def exampleArtistQuery_def
        withRole_def searchNames_def artistSort_def sortAlbumArtistList_def exampleClient_def libraryOrderBy_def
        missingKey_def)
  then show ?thesis using artist_counts_agree [THEN conjunct1, THEN mp, OF p] by simp
qed

lemma refused_artist_resets_count_witness:
  "getAlbumListCount (exampleServer []) exampleClient 0 exampleAlbumQuery = Some (Inr 1)"
  using refused_artist_resets_count [of exampleAlbumQuery "[''a'']" "''b''" "[''c'']" "exampleServer []" exampleClient 0]
  by (simp add: exampleAlbumQuery_def exampleServer_def artistAlbumTotal_def exampleArtistEntry_def)

end
