(* ===== verification/ServerFeatures.thy ===== *)
theory ServerFeatures
  imports SubsonicLists
begin

text \<open>
  What a server can do (\<^verbatim>\<open>shared/types/features-types.ts\<close>, \<^verbatim>\<open>shared/api/utils.ts\<close>): the features that are
  derived from the version of the server, those that a Subsonic server announces as extensions, and how the
  adapters for Navidrome and Jellyfin join them. The comparison of versions (\<^verbatim>\<open>semver\<close>) is an argument.
\<close>

section \<open>Features\<close>

datatype ServerFeature = ALBUM_YES_NO_RATING_FILTER | ARTIST_IMAGE_UPLOAD | BFR | INTERNET_RADIO_IMAGE_UPLOAD
  | LYRICS_MULTIPLE_STRUCTURED | LYRICS_SINGLE_STRUCTURED | MUSIC_FOLDER_MULTISELECT | OS_FORM_POST
  | OS_TRANSCODE_DECISION | PLAYLIST_IMAGE_UPLOAD | PLAYLISTS_SMART | PUBLIC_PLAYLIST | REPORT_PLAYBACK
  | SERVER_PLAY_QUEUE | SHARING_ALBUM_SONG | SIMILAR_SONGS_MUSIC_FOLDER | TAGS | TRACK_ALBUM_ARTIST_SEARCH
  | TRACK_YES_NO_RATING_FILTER

text \<open>An object from features to their versions, in no particular order.\<close>

type_synonym features = "ServerFeature \<rightharpoonup> nat list"

text \<open>The server of a request and its \<open>features\<close> can both be missing.\<close>

definition hasFeature :: "features option option \<Rightarrow> ServerFeature \<Rightarrow> bool" where
  "hasFeature server feature =
     (case Option.bind server (\<lambda>fs. fs) of
        None \<Rightarrow> False
      | Some fs \<Rightarrow> (case fs feature of None \<Rightarrow> 0 | Some versions \<Rightarrow> length versions) > 0)"

definition hasFeatureWithVersion :: "features option option \<Rightarrow> ServerFeature \<Rightarrow> nat \<Rightarrow> bool" where
  "hasFeatureWithVersion server feature version =
     (case Option.bind server (\<lambda>fs. fs) of
        None \<Rightarrow> False
      | Some fs \<Rightarrow> version \<in> set (nullish_or (fs feature) []))"

section \<open>Features by version\<close>

text \<open>The features that come with a version, in decreasing order of versions.\<close>

type_synonym version_info = "(string \<times> (ServerFeature \<times> nat list) list) list"

definition addFeature :: "ServerFeature \<times> nat list \<Rightarrow> features \<Rightarrow> features" where
  "addFeature entry features =
     (case entry of (feature, feat) \<Rightarrow>
        (case features feature of
           Some old \<Rightarrow> features(feature \<mapsto> old @ feat)
         | None \<Rightarrow> features(feature \<mapsto> feat)))"

definition matchVersion ::
    "('v \<Rightarrow> string \<Rightarrow> bool) \<Rightarrow> 'v option \<Rightarrow> string \<times> (ServerFeature \<times> nat list) list
      \<Rightarrow> bool \<times> features \<Rightarrow> bool \<times> features" where
  "matchVersion semverGte cleanVersion entry st =
     (case entry of (version, supportedFeatures) \<Rightarrow> case st of (matched0, features) \<Rightarrow>
        let matched = (matched0 \<or> semverGte (the cleanVersion) version)
        in (matched, if matched then fold addFeature supportedFeatures features else features))"

text \<open>A version that cannot be read counts as the newest.\<close>

definition getFeatures ::
    "('s \<Rightarrow> 'v option) \<Rightarrow> ('v \<Rightarrow> string \<Rightarrow> bool) \<Rightarrow> version_info \<Rightarrow> 's \<Rightarrow> features" where
  "getFeatures semverCoerce semverGte versionInfo version =
     (let cleanVersion = semverCoerce version
      in snd (fold (matchVersion semverGte cleanVersion) versionInfo (cleanVersion = None, (\<lambda>_. None))))"

definition ND_VERSION_INFO :: version_info where
  "ND_VERSION_INFO =
     [(''0.61.0'', [(ARTIST_IMAGE_UPLOAD, [1]), (INTERNET_RADIO_IMAGE_UPLOAD, [1]), (PLAYLIST_IMAGE_UPLOAD, [1])]),
      (''0.60.4'', [(TRACK_YES_NO_RATING_FILTER, [1])]),
      (''0.57.0'', [(SERVER_PLAY_QUEUE, [2])]),
      (''0.56.0'', [(TRACK_ALBUM_ARTIST_SEARCH, [1])]),
      (''0.55.0'', [(BFR, [1]), (TAGS, [1])]),
      (''0.49.3'', [(SHARING_ALBUM_SONG, [1])]),
      (''0.48.0'', [(PLAYLISTS_SMART, [1])])]"

definition JF_VERSION_INFO :: version_info where
  "JF_VERSION_INFO =
     [(''10.9.0'', [(LYRICS_SINGLE_STRUCTURED, [1]), (PUBLIC_PLAYLIST, [1])]),
      (''10.0.0'', [(ARTIST_IMAGE_UPLOAD, [1]), (PLAYLIST_IMAGE_UPLOAD, [1]), (TAGS, [1])])]"

section \<open>What the servers announce\<close>

record server_info =
  si_features :: features
  si_id :: "string option"
  si_version :: "string option"

text \<open>The answer to a ping; the versions of an extension are not looked at.\<close>

record ping_body =
  pi_openSubsonic :: "bool option"
  pi_serverVersion :: "string option"
  pi_version :: string

definition FORM_POST :: string where "FORM_POST = ''formPost''"
definition INDEX_BASED_QUEUE :: string where "INDEX_BASED_QUEUE = ''indexBasedQueue''"
definition PLAYBACK_REPORT :: string where "PLAYBACK_REPORT = ''playbackReport''"
definition SONG_LYRICS :: string where "SONG_LYRICS = ''songLyrics''"
definition TRANSCODING :: string where "TRANSCODING = ''transcoding''"

definition extensionFeatures :: "(string \<times> nat list) list option \<Rightarrow> features" where
  "extensionFeatures extensions =
     (let names = set (map fst (nullish_or extensions []))
      in (\<lambda>feature. case feature of
            OS_TRANSCODE_DECISION \<Rightarrow> if TRANSCODING \<in> names then Some [1] else None
          | LYRICS_MULTIPLE_STRUCTURED \<Rightarrow> if SONG_LYRICS \<in> names then Some [1] else None
          | OS_FORM_POST \<Rightarrow> if FORM_POST \<in> names then Some [1] else None
          | SERVER_PLAY_QUEUE \<Rightarrow> if INDEX_BASED_QUEUE \<in> names then Some [1] else None
          | REPORT_PLAYBACK \<Rightarrow> if PLAYBACK_REPORT \<in> names then Some [1] else None
          | _ \<Rightarrow> None))"

definition ssGetServerInfo ::
    "ping_body reply \<Rightarrow> (string \<times> nat list) list option reply \<Rightarrow> string option \<Rightarrow> api_error + server_info" where
  "ssGetServerInfo ping extensions serverId =
     reply_or ''Failed to ping server'' ping (\<lambda>body.
       if pi_openSubsonic body \<noteq> Some True \<or> \<not> truthy (pi_serverVersion body)
       then Inr \<lparr>si_features = (\<lambda>_. None), si_id = None, si_version = Some (pi_version body)\<rparr>
       else reply_or ''Failed to get server extensions'' extensions (\<lambda>exts.
         Inr \<lparr>si_features = extensionFeatures exts, si_id = serverId, si_version = pi_serverVersion body\<rparr>))"

text \<open>
  Navidrome: a build of a certain pull request counts as version 0.55.0, for the features by version and for the
  version that is returned.
\<close>

definition isDevBuild :: "string option \<Rightarrow> bool" where
  "isDevBuild version = (case version of None \<Rightarrow> False | Some v \<Rightarrow> isInfix ''pr-2709'' v)"

definition joinFeatures :: "features \<Rightarrow> features \<Rightarrow> features" where
  "joinFeatures subsonicFeatures navidromeFeatures =
     (let features = (subsonicFeatures ++ navidromeFeatures)
            (PUBLIC_PLAYLIST \<mapsto> [1], ALBUM_YES_NO_RATING_FILTER \<mapsto> [1], MUSIC_FOLDER_MULTISELECT \<mapsto> [1])
      in case (subsonicFeatures SERVER_PLAY_QUEUE, navidromeFeatures SERVER_PLAY_QUEUE) of
           (Some ss, Some nd) \<Rightarrow> features(SERVER_PLAY_QUEUE \<mapsto> nd @ ss)
         | _ \<Rightarrow> features)"

definition ndGetServerInfo ::
    "(string option \<Rightarrow> 'v option) \<Rightarrow> ('v \<Rightarrow> string \<Rightarrow> bool) \<Rightarrow> ping_body reply \<Rightarrow> ping_body reply
      \<Rightarrow> (string \<times> nat list) list option reply \<Rightarrow> string \<Rightarrow> api_error + server_info" where
  "ndGetServerInfo semverCoerce semverGte ping subsonicPing extensions serverId =
     reply_or ''Failed to ping server'' ping (\<lambda>body.
       let version = (if isDevBuild (pi_serverVersion body) then Some ''0.55.0'' else pi_serverVersion body);
           navidromeFeatures = getFeatures semverCoerce semverGte ND_VERSION_INFO version
       in case ssGetServerInfo subsonicPing extensions (Some serverId) of
            Inl e \<Rightarrow> Inl e
          | Inr subsonicArgs \<Rightarrow>
              Inr \<lparr>si_features = joinFeatures (si_features subsonicArgs) navidromeFeatures,
                   si_id = Some serverId, si_version = version\<rparr>)"

definition jfGetServerInfo ::
    "(string \<Rightarrow> 'v option) \<Rightarrow> ('v \<Rightarrow> string \<Rightarrow> bool) \<Rightarrow> string reply \<Rightarrow> string option \<Rightarrow> api_error + server_info" where
  "jfGetServerInfo semverCoerce semverGte info serverId =
     reply_or ''Failed to get server info'' info (\<lambda>version.
       Inr \<lparr>si_features = [REPORT_PLAYBACK \<mapsto> [1]] ++ getFeatures semverCoerce semverGte JF_VERSION_INFO version,
            si_id = serverId, si_version = Some version\<rparr>)"

section \<open>Which features a version has\<close>

text \<open>The versions of a feature that a list of entries gives.\<close>

definition featureVersions :: "ServerFeature \<Rightarrow> version_info \<Rightarrow> nat list" where
  "featureVersions f info = concat (map (\<lambda>e. concat (map (\<lambda>p. if fst p = f then snd p else []) (snd e))) info)"

lemma featureVersions_simps [simp]:
  "featureVersions f [] = []"
  "featureVersions f (e # info) =
     concat (map (\<lambda>p. if fst p = f then snd p else []) (snd e)) @ featureVersions f info"
  by (simp_all add: featureVersions_def)

lemma addFeature_versions:
  "nullish_or (addFeature p fs f) [] = nullish_or (fs f) [] @ (if fst p = f then snd p else [])"
  by (cases p) (simp add: addFeature_def split: option.split)

lemma addFeatures_versions:
  "nullish_or (fold addFeature ps fs f) [] =
     nullish_or (fs f) [] @ concat (map (\<lambda>p. if fst p = f then snd p else []) ps)"
  by (induction ps arbitrary: fs) (simp_all add: addFeature_versions)

lemma matchVersion_simps:
  "matchVersion gte v e (m, fs) =
     (m \<or> gte (the v) (fst e), if m \<or> gte (the v) (fst e) then fold addFeature (snd e) fs else fs)"
  by (cases e) (simp add: matchVersion_def Let_def)

lemma matched_versions:
  "nullish_or (snd (fold (matchVersion gte v) info (True, fs)) f) [] =
     nullish_or (fs f) [] @ featureVersions f info"
  by (induction info arbitrary: fs) (simp_all add: matchVersion_simps addFeatures_versions)

lemma unmatched_versions:
  assumes "sorted_wrt (\<lambda>a b. gte v (fst a) \<longrightarrow> gte v (fst b)) info"
  shows "nullish_or (snd (fold (matchVersion gte (Some v)) info (False, fs)) f) [] =
     nullish_or (fs f) [] @ featureVersions f (filter (\<lambda>e. gte v (fst e)) info)"
  using assms
proof (induction info)
  case (Cons e info)
  show ?case
  proof (cases "gte v (fst e)")
    case True
    then have "filter (\<lambda>e. gte v (fst e)) info = info" using Cons.prems by (auto intro: filter_True)
    with True show ?thesis by (simp add: matchVersion_simps matched_versions addFeatures_versions)
  next
    case False
    with Cons show ?thesis by (simp add: matchVersion_simps)
  qed
qed simp

lemma getFeatures_reached:
  assumes "semverCoerce version = Some v"
    and "sorted_wrt (\<lambda>a b. semverGte v (fst a) \<longrightarrow> semverGte v (fst b)) versionInfo"
  shows "nullish_or (getFeatures semverCoerce semverGte versionInfo version f) [] =
     featureVersions f (filter (\<lambda>e. semverGte v (fst e)) versionInfo)"
  using unmatched_versions [where v = v and gte = semverGte and info = versionInfo and fs = "\<lambda>_. None" and f = f]
    assms
  by (simp add: getFeatures_def Let_def)

text \<open>
  A list of features by version that is in decreasing order gives a server exactly the features of the versions
  that its own version has reached, each with the versions that the matching entries list, newest first.
\<close>

theorem features_of_reached_versions:
  assumes "semverCoerce version = Some v"
    and "sorted_wrt (\<lambda>a b. semverGte v (fst a) \<longrightarrow> semverGte v (fst b)) versionInfo"
  shows "nullish_or (getFeatures semverCoerce semverGte versionInfo version f) [] =
     featureVersions f (filter (\<lambda>e. semverGte v (fst e)) versionInfo)"
  using assms by (rule getFeatures_reached)

text \<open>Without the order, the entries after the first match count as well; a version that cannot be read has all.\<close>

theorem unreadable_version_has_all:
  assumes "semverCoerce version = None"
  shows "nullish_or (getFeatures semverCoerce semverGte versionInfo version f) [] = featureVersions f versionInfo"
  using assms by (simp add: getFeatures_def Let_def matched_versions)

section \<open>The queue kept on a Navidrome server\<close>

lemma extensionFeatures_queue:
  "extensionFeatures exts SERVER_PLAY_QUEUE =
     (if INDEX_BASED_QUEUE \<in> set (map fst (nullish_or exts [])) then Some [1] else None)"
  by (simp add: extensionFeatures_def Let_def)

lemma nullish_set: "x \<in> set (nullish_or m []) \<longleftrightarrow> (\<exists>xs. m = Some xs \<and> x \<in> set xs)"
  by (cases m) simp_all

lemma joinFeatures_queue:
  "nullish_or (joinFeatures ss nd SERVER_PLAY_QUEUE) [] =
     nullish_or (nd SERVER_PLAY_QUEUE) [] @ nullish_or (ss SERVER_PLAY_QUEUE) []"
  by (simp add: joinFeatures_def Let_def map_add_def split: option.split)

lemma nd_queue_versions:
  "set (featureVersions SERVER_PLAY_QUEUE (filter P ND_VERSION_INFO)) =
     (if P (''0.57.0'', [(SERVER_PLAY_QUEUE, [2])]) then {2} else {})"
  by (simp add: ND_VERSION_INFO_def)

text \<open>
  The features of a Navidrome server tell the two ways to keep the queue apart: version 2 stands for its own
  endpoint, which there is from 0.57.0 on, and version 1 for the extension that the server announces.
\<close>

theorem navidrome_queue_features:
  assumes "ndGetServerInfo semverCoerce semverGte (Reply body) (Reply body') (Reply exts) serverId = Inr info"
    and "\<not> isDevBuild (pi_serverVersion body)" and "semverCoerce (pi_serverVersion body) = Some v"
    and "sorted_wrt (\<lambda>a b. semverGte v (fst a) \<longrightarrow> semverGte v (fst b)) ND_VERSION_INFO"
    and "pi_openSubsonic body' = Some True" and "truthy (pi_serverVersion body')"
  shows "hasFeatureWithVersion (Some (Some (si_features info))) SERVER_PLAY_QUEUE 2 = semverGte v ''0.57.0''
    \<and> hasFeatureWithVersion (Some (Some (si_features info))) SERVER_PLAY_QUEUE 1 =
        (INDEX_BASED_QUEUE \<in> set (map fst (nullish_or exts [])))"
proof -
  let ?nd = "getFeatures semverCoerce semverGte ND_VERSION_INFO (pi_serverVersion body)"
  have info: "si_features info = joinFeatures (extensionFeatures exts) ?nd"
    using assms(1,2,5,6) by (auto simp: ndGetServerInfo_def ssGetServerInfo_def reply_or_def Let_def)
  have "set (nullish_or (?nd SERVER_PLAY_QUEUE) []) = (if semverGte v ''0.57.0'' then {2} else {})"
    using getFeatures_reached [where semverCoerce = semverCoerce and semverGte = semverGte and v = v
        and versionInfo = ND_VERSION_INFO and f = SERVER_PLAY_QUEUE] assms(3,4) nd_queue_versions by simp
  then show ?thesis
    by (auto simp: hasFeatureWithVersion_def info joinFeatures_queue extensionFeatures_queue)
qed

section \<open>Concrete servers\<close>

text \<open>Versions as numbers, compared as such.\<close>

definition exampleVersion :: "string \<Rightarrow> nat" where
  "exampleVersion s = the (map_of [(''0.61.0'', 6100), (''0.60.4'', 6004), (''0.57.0'', 5700), (''0.56.0'', 5600),
     (''0.55.0'', 5500), (''0.49.3'', 4903), (''0.48.0'', 4800)] s)"

definition exampleGte :: "nat \<Rightarrow> string \<Rightarrow> bool" where
  "exampleGte v s = (exampleVersion s \<le> v)"

lemma example_decreasing:
  "sorted_wrt (\<lambda>a b. exampleGte v (fst a) \<longrightarrow> exampleGte v (fst b)) ND_VERSION_INFO"
  by (simp add: exampleGte_def exampleVersion_def ND_VERSION_INFO_def)

theorem features_of_reached_versions_witness:
  "nullish_or (getFeatures (\<lambda>n. Some n) exampleGte ND_VERSION_INFO 5600 TAGS) [] = [1]
   \<and> nullish_or (getFeatures (\<lambda>n. Some n) exampleGte ND_VERSION_INFO 5600 SERVER_PLAY_QUEUE) [] = []"
  using features_of_reached_versions [where semverCoerce = "\<lambda>n. Some n" and semverGte = exampleGte
      and versionInfo = ND_VERSION_INFO and version = 5600 and v = 5600 and f = TAGS]
    features_of_reached_versions [where semverCoerce = "\<lambda>n. Some n" and semverGte = exampleGte
      and versionInfo = ND_VERSION_INFO and version = 5600 and v = 5600 and f = SERVER_PLAY_QUEUE]
    example_decreasing
  by (simp add: ND_VERSION_INFO_def exampleGte_def exampleVersion_def)

definition examplePing :: "ping_body reply" where
  "examplePing = Reply \<lparr>pi_openSubsonic = Some True, pi_serverVersion = Some ''0.60.0'', pi_version = ''1.16.1''\<rparr>"

definition exampleInfo :: server_info where
  "exampleInfo = \<lparr>si_features = joinFeatures (extensionFeatures (Some [(INDEX_BASED_QUEUE, [1])]))
       (getFeatures (\<lambda>_. Some 6000) exampleGte ND_VERSION_INFO (Some ''0.60.0'')),
     si_id = Some ''server'', si_version = Some ''0.60.0''\<rparr>"

theorem navidrome_queue_features_witness:
  "hasFeatureWithVersion (Some (Some (si_features exampleInfo))) SERVER_PLAY_QUEUE 2
   \<and> hasFeatureWithVersion (Some (Some (si_features exampleInfo))) SERVER_PLAY_QUEUE 1"
proof -
  have "\<not> isDevBuild (Some ''0.60.0'')" by code_simp
  then have "ndGetServerInfo (\<lambda>_. Some 6000) exampleGte examplePing examplePing
      (Reply (Some [(INDEX_BASED_QUEUE, [1])])) ''server'' = Inr exampleInfo"
    by (simp add: ndGetServerInfo_def ssGetServerInfo_def reply_or_def examplePing_def exampleInfo_def Let_def)
  with \<open>\<not> isDevBuild (Some ''0.60.0'')\<close> show ?thesis
    using navidrome_queue_features [where semverCoerce = "\<lambda>_. Some 6000" and semverGte = exampleGte
        and exts = "Some [(INDEX_BASED_QUEUE, [1])]" and serverId = "''server''" and info = exampleInfo and v = 6000
        and body = "\<lparr>pi_openSubsonic = Some True, pi_serverVersion = Some ''0.60.0'', pi_version = ''1.16.1''\<rparr>"
        and body' = "\<lparr>pi_openSubsonic = Some True, pi_serverVersion = Some ''0.60.0'', pi_version = ''1.16.1''\<rparr>"]
      example_decreasing
    by (simp add: examplePing_def exampleGte_def exampleVersion_def)
qed

end
