(* ===== verification/QueueRestore.thy ===== *)
theory QueueRestore
  imports ServerFeatures QueueStart
begin

text \<open>
  Keeping the queue on a Subsonic server (\<^verbatim>\<open>features/player/hooks/use-queue-restore.ts\<close>; \<open>savePlayQueue\<close> and
  \<open>getPlayQueue\<close> of \<^verbatim>\<open>api/subsonic/subsonic-controller.ts\<close>), and going back to the position of the last session
  when the program starts. The four requests that the server answers are functions on its state.
\<close>

section \<open>Requests\<close>

record queue_by_index_body =
  qb_changed :: string
  qb_changedBy :: string
  qb_currentIndex :: "jsnum option"
  qb_entry :: "ss_song list option"
  qb_position :: "rat option"
  qb_username :: string

text \<open>The ids of the entries are read as numbers or strings, the one of the current song as a string.\<close>

record queue_body =
  qo_changed :: string
  qo_changedBy :: string
  qo_current :: "string option"
  qo_entry :: "ss_song list"
  qo_position :: "rat option"
  qo_username :: string

text \<open>The queue that is saved: the index or the id of the current song, the ids, and the position.\<close>

record 'v queue_api =
  qa_saveByIndex :: "jsnum option \<Rightarrow> string list \<Rightarrow> rat option \<Rightarrow> 'v \<Rightarrow> unit reply \<times> 'v"
  qa_save :: "string option \<Rightarrow> string list \<Rightarrow> rat option \<Rightarrow> 'v \<Rightarrow> unit reply \<times> 'v"
  qa_getByIndex :: "'v \<Rightarrow> queue_by_index_body option reply"
  qa_get :: "'v \<Rightarrow> queue_body reply"

record save_queue_query =
  vq_currentIndex :: "jsnum option"
  vq_positionMs :: "rat option"
  vq_songs :: "string list"

record queue_response =
  vr_changed :: string
  vr_changedBy :: string
  vr_currentIndex :: jsnum
  vr_entry :: "full_song list"
  vr_positionMs :: rat
  vr_username :: string

definition savePlayQueue ::
    "'v queue_api \<Rightarrow> features option option \<Rightarrow> save_queue_query \<Rightarrow> 'v \<Rightarrow> (api_error + unit) \<times> 'v" where
  "savePlayQueue A server query v =
     (let (res, v') =
        (if hasFeature server SERVER_PLAY_QUEUE
         then qa_saveByIndex A (vq_currentIndex query) (vq_songs query) (vq_positionMs query) v
         else qa_save A
           (case vq_currentIndex query of
              None \<Rightarrow> None
            | Some i \<Rightarrow> if i < Num (int (length (vq_songs query))) then js_nth (vq_songs query) i else None)
           (vq_songs query) (vq_positionMs query) v)
      in (reply_or ''Failed to save play queue'' res Inr, v'))"

definition responseByIndex :: "string option \<Rightarrow> queue_by_index_body option \<Rightarrow> queue_response" where
  "responseByIndex serverId body =
     \<lparr>vr_changed = nullish_or (map_option qb_changed body) '''',
      vr_changedBy = nullish_or (map_option qb_changedBy body) '''',
      vr_currentIndex = nullish_or (Option.bind body qb_currentIndex) (Num 0),
      vr_entry = map (\<lambda>song. normalizeSong song serverId None (\<lambda>_. None))
        (nullish_or (Option.bind body qb_entry) []),
      vr_positionMs = nullish_or (Option.bind body qb_position) 0,
      vr_username = nullish_or (map_option qb_username body) ''''\<rparr>"

definition responseOf :: "string option \<Rightarrow> queue_body \<Rightarrow> queue_response" where
  "responseOf serverId body =
     \<lparr>vr_changed = qo_changed body, vr_changedBy = qo_changedBy body,
      vr_currentIndex = (if truthy (qo_current body)
        then Num (findIndex (\<lambda>item. ss_songId item = Id_str (the (qo_current body))) (qo_entry body)) else Num 0),
      vr_entry = map (\<lambda>song. normalizeSong song serverId None (\<lambda>_. None)) (qo_entry body),
      vr_positionMs = nullish_or (qo_position body) 0, vr_username = qo_username body\<rparr>"

definition getPlayQueue ::
    "'v queue_api \<Rightarrow> features option option \<Rightarrow> string option \<Rightarrow> 'v \<Rightarrow> api_error + queue_response" where
  "getPlayQueue A server serverId v =
     (if hasFeature server SERVER_PLAY_QUEUE
      then reply_or ''Failed to get play queue'' (qa_getByIndex A v) (\<lambda>body. Inr (responseByIndex serverId body))
      else reply_or ''Failed to get play queue'' (qa_get A v) (\<lambda>body. Inr (responseOf serverId body)))"

section \<open>Saving and restoring\<close>

text \<open>A toast is shown with a message and a title; both are keys of the translations, or a message of the adapter.\<close>

datatype toast = Toast string string

definition messageOf :: "api_error \<Rightarrow> string" where
  "messageOf e = (case e of Api m \<Rightarrow> m | Type_error \<Rightarrow> ''TypeError'')"

definition saveQueue ::
    "'v queue_api \<Rightarrow> features option option \<Rightarrow> string option \<Rightarrow> world \<Rightarrow> 'v \<Rightarrow> toast list \<times> 'v" where
  "saveQueue A server serverId w v =
     (if \<not> truthy serverId then ([Toast ''error.serverRequired'' ''error.saveQueueFailed''], v)
      else
        let items = queueItems (w_store w)
        in if list_ex (\<lambda>item. Some (s_serverId item) \<noteq> serverId) items
           then ([Toast ''error.multipleServerSaveQueueError'' ''error.genericError'',
                  Toast ''error.multipleServerSaveQueueError'' ''error.saveQueueFailed''], v)
           else
             let (r, v') = savePlayQueue A server
               \<lparr>vq_currentIndex = (if length items > 0 then Some (p_index (player (w_store w))) else None),
                vq_positionMs = Some (w_timestamp w * 1000), vq_songs = map s_id items\<rparr> v
             in case r of Inl e \<Rightarrow> ([Toast (messageOf e) ''error.saveQueueFailed''], v') | Inr _ \<Rightarrow> ([], v'))"

definition handleRestoreQueue ::
    "'v queue_api \<Rightarrow> features option option \<Rightarrow> string option \<Rightarrow> 'v \<Rightarrow> world \<Rightarrow> toast list \<times> world" where
  "handleRestoreQueue A server serverId v w =
     (if \<not> truthy serverId then ([], w)
      else case getPlayQueue A server serverId v of
        Inl e \<Rightarrow> ([Toast (messageOf e) ''error.genericError''], w)
      | Inr q \<Rightarrow> ([], setQueue (map song.truncate (vr_entry q)) (Some (vr_currentIndex q))
                        (Some (vr_positionMs q / 1000)) w))"

text \<open>The listener of the event that \<open>setQueue\<close> emits; it waits for 100 ms.\<close>

definition onQueueRestored :: "effect \<Rightarrow> world \<Rightarrow> world" where
  "onQueueRestored e w =
     (case e of
        QUEUE_RESTORED items index position \<Rightarrow> mediaSeekToTimestamp position (setTimestampStore position w)
      | _ \<Rightarrow> w)"

section \<open>The position of the last session\<close>

text \<open>
  The refs of \<open>useInitialTimestampRestore\<close>, the flag of the module, and the seeks that were ordered, each with the
  unique id of the item that the player was at.
\<close>

record startup =
  su_sessionHandled :: bool
  su_initialized :: bool
  su_armed :: "rat option"
  su_target :: "string option"
  su_applied :: bool
  su_seeks :: "(rat \<times> string option) list"

definition mountStartup :: "startup \<Rightarrow> startup" where
  "mountStartup s = s\<lparr>su_initialized := False, su_armed := None, su_target := None, su_applied := False\<rparr>"

definition cancelStartupSeek :: "startup \<Rightarrow> startup" where
  "cancelStartupSeek s =
     (if su_applied s then s else s\<lparr>su_applied := True, su_armed := None, su_target := None\<rparr>)"

text \<open>The unique id of \<open>getQueue().items[player.index]\<close>.\<close>

definition itemAtIndex :: "store \<Rightarrow> string option" where
  "itemAtIndex s = map_option uniqueId (js_nth (queueItems s) (p_index (player s)))"

definition applyStartupSeek :: "store \<Rightarrow> startup \<Rightarrow> startup" where
  "applyStartupSeek st s =
     (if su_applied s then s
      else case su_armed s of
        None \<Rightarrow> s
      | Some seekTimestamp \<Rightarrow>
          if seekTimestamp \<le> 0 then s
          else if truthy (su_target s) \<and> itemAtIndex st \<noteq> su_target s then cancelStartupSeek s
          else s\<lparr>su_applied := True, su_armed := None, su_target := None,
                 su_seeks := su_seeks s @ [(seekTimestamp, itemAtIndex st)]\<rparr>)"

text \<open>The two effects, with what the hook read from the stores when it rendered.\<close>

definition trackEffect :: "queue_song option \<Rightarrow> startup \<Rightarrow> startup" where
  "trackEffect currentSong s =
     (case currentSong of
        None \<Rightarrow> s
      | Some song \<Rightarrow>
          if \<not> truthy (su_target s) \<or> su_applied s \<or> Some (uniqueId song) = su_target s then s
          else cancelStartupSeek s)"

definition initEffect ::
    "bool \<Rightarrow> queue_song option \<Rightarrow> PlayerStatus \<Rightarrow> rat \<Rightarrow> store \<Rightarrow> startup \<Rightarrow> startup" where
  "initEffect playerHydrated currentSong playerStatus timestamp st s =
     (if su_initialized s \<or> su_sessionHandled s then s
      else if \<not> playerHydrated \<or> currentSong = None then s
      else
        let s1 = s\<lparr>su_initialized := True, su_sessionHandled := True\<rparr>;
            s2 = (if timestamp > 0 then s1\<lparr>su_armed := Some timestamp, su_target := Some (uniqueId (the currentSong))\<rparr>
                  else s1)
        in if playerStatus = PLAYING then applyStartupSeek st s2 else s2)"

text \<open>
  What happens to the hook: it is mounted, one of its effects runs, or the player reports its status. Effects run when
  what they depend on has changed; here they may run at any time.
\<close>

datatype startup_event =
    SE_mount
  | SE_track "queue_song option"
  | SE_init bool "queue_song option" PlayerStatus rat store
  | SE_status PlayerStatus store

fun startupStep :: "startup_event \<Rightarrow> startup \<Rightarrow> startup" where
  "startupStep SE_mount s = mountStartup s"
| "startupStep (SE_track currentSong) s = trackEffect currentSong s"
| "startupStep (SE_init playerHydrated currentSong playerStatus timestamp st) s =
     initEffect playerHydrated currentSong playerStatus timestamp st s"
| "startupStep (SE_status status st) s = (if status = PLAYING then applyStartupSeek st s else s)"

definition initialStartup :: startup where
  "initialStartup = \<lparr>su_sessionHandled = False, su_initialized = False, su_armed = None, su_target = None,
     su_applied = False, su_seeks = []\<rparr>"

section \<open>A saved queue comes back\<close>

text \<open>
  What is relied on, as \<^verbatim>\<open>server/subsonic/bookmarks.go\<close> has it: the server returns the queue that it saved last, with its ids
  as strings, when it has all of the songs and the current one is among them. It reads the position as a whole number of
  milliseconds, and takes 0 for what is none. Of other queues, of which it leaves songs out, nothing is relied on.
\<close>

definition wholeOr0 :: "rat \<Rightarrow> rat" where
  "wholeOr0 p = (if p = of_int \<lfloor>p\<rfloor> then p else 0)"

definition keeps_queue :: "('v \<Rightarrow> string set) \<Rightarrow> 'v queue_api \<Rightarrow> bool" where
  "keeps_queue known A =
     ((\<forall>i ids p v v'. qa_saveByIndex A (Some (Num (int i))) ids (Some p) v = (Reply (), v') \<longrightarrow>
         i < length ids \<longrightarrow> set ids \<subseteq> known v' \<longrightarrow>
         (\<exists>body. qa_getByIndex A v' = Reply (Some body) \<and> qb_currentIndex body = Some (Num (int i))
            \<and> qb_position body = Some (wholeOr0 p)
            \<and> map (\<lambda>e. ss_songId e) (nullish_or (qb_entry body) []) = map Id_str ids))
      \<and> (\<forall>k ids p v v'. qa_save A (Some k) ids (Some p) v = (Reply (), v') \<longrightarrow> k \<in> set ids \<longrightarrow> set ids \<subseteq> known v' \<longrightarrow>
         (\<exists>body. qa_get A v' = Reply body \<and> qo_current body = Some k \<and> qo_position body = Some (wholeOr0 p)
            \<and> map (\<lambda>e. ss_songId e) (qo_entry body) = map Id_str ids)))"

lemma map_of_addSongs:
  "k \<notin> uniqueId ` set items \<Longrightarrow> map_of (foldl addSong m items) k = map_of m k"
  by (induction items arbitrary: m) (auto simp: addSong_def update_conv)

lemma addSongs_lookup:
  "distinct (map uniqueId items) \<Longrightarrow> x \<in> set items \<Longrightarrow> map_of (foldl addSong m items) (uniqueId x) = Some x"
proof (induction items arbitrary: m)
  case (Cons item items)
  show ?case
  proof (cases "x \<in> set items")
    case True
    with Cons show ?thesis by simp
  next
    case False
    with Cons.prems have "x = item" "uniqueId x \<notin> uniqueId ` set items" by auto
    then show ?thesis
      using map_of_addSongs [of "uniqueId item" items "addSong m item"] by (simp add: addSong_def [of m item] update_conv)
  qed
qed simp

lemma map_filter_lookup: "(\<And>x. x \<in> set items \<Longrightarrow> f (g x) = Some x) \<Longrightarrow> List.map_filter f (map g items) = items"
  by (induction items) (simp_all add: List.map_filter_simps)

lemma setQueue_restores:
  assumes "inj_on (w_ids w) {..<length items}"
  shows "queueItems (w_store (setQueue items i p w)) =
      map (\<lambda>j. toQueueSong (w_ids w j) (items ! j)) [0..<length items]"
    and "p_index (player (w_store (setQueue items i p w))) = nullish_or i (Num 0)"
    and "p_status (player (w_store (setQueue items i p w))) = PLAYING"
    and "w_effects (setQueue items i p w) =
      w_effects w @ [QUEUE_RESTORED items (nullish_or i (Num 0)) (nullish_or p 0)]"
proof -
  let ?new = "fst (toQueueSongs items (w_ids w))"
  have new: "?new = map (\<lambda>j. toQueueSong (w_ids w j) (items ! j)) [0..<length items]" by (rule toQueueSongs_eq)
  have "distinct (map uniqueId ?new)"
    using assms unfolding new by (simp add: comp_def distinct_map atLeast0LessThan)
  then have "List.map_filter (map_of (foldl addSong (q_songs (queue (w_store w))) ?new)) (map uniqueId ?new) = ?new"
    by (intro map_filter_lookup addSongs_lookup)
  then show "queueItems (w_store (setQueue items i p w)) = map (\<lambda>j. toQueueSong (w_ids w j) (items ! j)) [0..<length items]"
    unfolding new [symmetric]
    by (simp add: setQueue_def restoreQueue_def queueItems_def addSongs_def emit_def case_prod_beta)
  show "p_index (player (w_store (setQueue items i p w))) = nullish_or i (Num 0)"
    "p_status (player (w_store (setQueue items i p w))) = PLAYING"
    "w_effects (setQueue items i p w) =
      w_effects w @ [QUEUE_RESTORED items (nullish_or i (Num 0)) (nullish_or p 0)]"
    by (simp_all add: setQueue_def restoreQueue_def emit_def case_prod_beta Let_def)
qed

lemma response_ids:
  "map ss_songId es = map Id_str ids \<Longrightarrow> map s_id (map (\<lambda>song. normalizeSong song sid None t) es) = ids"
proof -
  assume ids: "map ss_songId es = map Id_str ids"
  have "s_id (normalizeSong e sid None t) = idString (ss_songId e)" for e
    by (simp add: normalizeSong_def Let_def)
  then have "map s_id (map (\<lambda>song. normalizeSong song sid None t) es) = map idString (map ss_songId es)"
    by (simp add: comp_def)
  also have "\<dots> = map idString (map Id_str ids)" unfolding ids ..
  also have "\<dots> = ids" by (induction ids) simp_all
  finally show ?thesis .
qed

lemma findIndex_ss_id:
  assumes "map ss_songId es = map Id_str ids" and "distinct ids" and "i < length ids"
  shows "findIndex (\<lambda>e. ss_songId e = Id_str (ids ! i)) es = int i"
proof -
  have "findIndex (\<lambda>e. ss_songId e = Id_str (ids ! i)) es =
      findIndex (\<lambda>k. k = Id_str (ids ! i)) (map ss_songId es)" by (simp add: findIndex_map)
  also have "\<dots> = findIndex (\<lambda>k. k = ids ! i) ids" unfolding assms(1) by (simp add: findIndex_map)
  finally show ?thesis by (simp add: findIndex_distinct assms(2,3))
qed

lemma save_refused: "reply_or m res (Inr :: unit \<Rightarrow> api_error + unit) = Inr () \<longleftrightarrow> res = Reply ()"
  by (cases res) (simp_all add: reply_or_def)

lemma save_then_get:
  assumes "keeps_queue known A" and "savePlayQueue A server q v = (Inr (), v')"
    and "vq_currentIndex q = Some (Num (int i))" and "i < length (vq_songs q)" and "vq_positionMs q = Some p"
    and "hasFeature server SERVER_PLAY_QUEUE \<or> distinct (vq_songs q) \<and> '''' \<notin> set (vq_songs q)"
    and "set (vq_songs q) \<subseteq> known v'"
  obtains r where "getPlayQueue A server sid v' = Inr r" "map s_id (vr_entry r) = vq_songs q"
    "vr_currentIndex r = Num (int i)" "vr_positionMs r = wholeOr0 p"
proof (cases "hasFeature server SERVER_PLAY_QUEUE")
  case True
  then have "qa_saveByIndex A (Some (Num (int i))) (vq_songs q) (Some p) v = (Reply (), v')"
    using assms(2,3,5) by (simp add: savePlayQueue_def save_refused case_prod_beta prod_eq_iff)
  from assms(1) [unfolded keeps_queue_def, THEN conjunct1, rule_format, OF this assms(4,7)]
  obtain body where body: "qa_getByIndex A v' = Reply (Some body)" "qb_currentIndex body = Some (Num (int i))"
    "qb_position body = Some (wholeOr0 p)" "map ss_songId (nullish_or (qb_entry body) []) = map Id_str (vq_songs q)"
    by blast
  show ?thesis
  proof (rule that [of "responseByIndex sid (Some body)"])
    show "getPlayQueue A server sid v' = Inr (responseByIndex sid (Some body))"
      by (simp add: getPlayQueue_def reply_or_def True body(1))
    show "map s_id (vr_entry (responseByIndex sid (Some body))) = vq_songs q"
      using response_ids [OF body(4)] by (simp add: responseByIndex_def del: map_map)
  qed (simp_all add: responseByIndex_def body(2,3) assms(3,5))
next
  case False
  let ?k = "vq_songs q ! i"
  from False assms(3,4,5) have "qa_save A (Some ?k) (vq_songs q) (Some p) v = (Reply (), v')"
    using assms(2) by (simp add: savePlayQueue_def save_refused case_prod_beta prod_eq_iff)
  from assms(1) [unfolded keeps_queue_def, THEN conjunct2, rule_format, OF this nth_mem [OF assms(4)] assms(7)]
  obtain body where body: "qa_get A v' = Reply body" "qo_current body = Some ?k"
    "qo_position body = Some (wholeOr0 p)" "map ss_songId (qo_entry body) = map Id_str (vq_songs q)"
    by blast
  have k: "distinct (vq_songs q)" "?k \<noteq> ''''" using assms(4,6) False nth_mem by fastforce+
  show ?thesis
  proof (rule that [of "responseOf sid body"])
    show "getPlayQueue A server sid v' = Inr (responseOf sid body)"
      by (simp add: getPlayQueue_def reply_or_def False body(1))
    show "map s_id (vr_entry (responseOf sid body)) = vq_songs q"
      using response_ids [OF body(4)] by (simp add: responseOf_def del: map_map)
  qed (simp_all add: responseOf_def body(2,3) assms(5) k(2) findIndex_ss_id [OF body(4) k(1) assms(4)])
qed


text \<open>
  A flaw of saving under shuffle. The index of the player is then a position among the shuffled ones, yet it is
  saved beside the songs in the order of the queue: the server is told another song than the one that is current.
\<close>

theorem shuffled_queue_saves_other_song:
  assumes "store_ok (w_store w)" and "isShuffleEnabled (w_store w)" and "\<not> hasFeature server SERVER_PLAY_QUEUE"
    and "p_index (player (w_store w)) = Num (int i)" and "i < length (queueItems (w_store w))"
    and "js_nth (q_shuffled (queue (w_store w))) (Num (int i)) = Some (Num (int j))"
    and "j < length (queueItems (w_store w))" and "sid \<noteq> ''''"
    and "list_all (\<lambda>x. s_serverId x = sid) (queueItems (w_store w))"
  shows "snd (saveQueue A server (Some sid) w v) =
      snd (qa_save A (Some (s_id (queueItems (w_store w) ! i))) (map s_id (queueItems (w_store w)))
        (Some (w_timestamp w * 1000)) v)
    \<and> getCurrentSong (w_store w) = Some (queueItems (w_store w) ! j)"
proof
  have "\<not> list_ex (\<lambda>x. Some (s_serverId x) \<noteq> Some sid) (queueItems (w_store w))"
    using assms(9) by (auto simp: list_ex_iff list_all_iff)
  moreover have "queueItems (w_store w) \<noteq> []" using assms(5) by auto
  ultimately show "snd (saveQueue A server (Some sid) w v) =
      snd (qa_save A (Some (s_id (queueItems (w_store w) ! i))) (map s_id (queueItems (w_store w)))
        (Some (w_timestamp w * 1000)) v)"
    using assms(3,4,5,8) by (simp add: saveQueue_def savePlayQueue_def Let_def split: prod.split sum.split)
  show "getCurrentSong (w_store w) = Some (queueItems (w_store w) ! j)"
    using assms(2,4,6,7) by (simp add: getCurrentSong_eq currentQueueIndex_def mapShuffledToQueueIndex_def
      del: js_nth_Num) simp
qed

section \<open>Seeking at the start\<close>

text \<open>Before the session is handled nothing is armed; what is armed was armed by the effect of the start.\<close>

definition armedBy :: "startup_event list \<Rightarrow> rat \<Rightarrow> string option \<Rightarrow> bool" where
  "armedBy past t k =
     (\<exists>song status st. SE_init True (Some song) status t st \<in> set past \<and> t > 0 \<and> k = Some (uniqueId song))"

definition startup_inv :: "startup_event list \<Rightarrow> startup \<Rightarrow> bool" where
  "startup_inv past s =
     (length (su_seeks s) \<le> 1
      \<and> (su_armed s \<noteq> None \<or> su_seeks s \<noteq> [] \<longrightarrow> su_sessionHandled s)
      \<and> (su_armed s \<noteq> None \<longrightarrow> su_seeks s = [])
      \<and> (\<forall>t. su_armed s = Some t \<longrightarrow> armedBy past t (su_target s))
      \<and> (\<forall>t k. (t, k) \<in> set (su_seeks s) \<longrightarrow> armedBy past t k \<or> armedBy past t (Some '''')))"

lemma armedBy_more: "armedBy past t k \<Longrightarrow> armedBy (past @ [e]) t k"
  unfolding armedBy_def by auto

lemma armedBy_target: "armedBy past t k \<Longrightarrow> \<exists>u. k = Some u"
  unfolding armedBy_def by auto

lemma startup_inv_apply: "startup_inv past s \<Longrightarrow> startup_inv past (applyStartupSeek st s)"
  unfolding applyStartupSeek_def startup_inv_def
  by (auto simp: cancelStartupSeek_def truthy_def dest: armedBy_target split: option.splits)

lemma startup_inv_more: "startup_inv past s \<Longrightarrow> startup_inv (past @ [e]) s"
  unfolding startup_inv_def using armedBy_more [of past _ _ e] by blast

lemma startup_inv_calm:
  "startup_inv past s \<Longrightarrow> startup_inv past (mountStartup s)"
  "startup_inv past s \<Longrightarrow> startup_inv past (trackEffect song s)"
  by (auto simp: startup_inv_def mountStartup_def trackEffect_def cancelStartupSeek_def split: option.splits)

lemma startup_inv_init:
  "startup_inv past s \<Longrightarrow>
     startup_inv (past @ [SE_init h song status t st]) (initEffect h song status t st s)"
proof -
  assume inv: "startup_inv past s"
  show ?thesis
  proof (cases "su_initialized s \<or> su_sessionHandled s \<or> \<not> h \<or> song = None")
    case True
    with startup_inv_more [OF inv] show ?thesis by (auto simp: initEffect_def)
  next
    case False
    then obtain x where x: "song = Some x" "h" "\<not> su_sessionHandled s" "\<not> su_initialized s" by blast
    with inv have quiet: "su_seeks s = []" "su_armed s = None" by (auto simp: startup_inv_def)
    let ?s1 = "s\<lparr>su_initialized := True, su_sessionHandled := True\<rparr>"
    let ?s2 = "if t > 0 then ?s1\<lparr>su_armed := Some t, su_target := Some (uniqueId x)\<rparr> else ?s1"
    have "t > 0 \<Longrightarrow> armedBy (past @ [SE_init h song status t st]) t (Some (uniqueId x))"
      using x by (auto simp: armedBy_def)
    then have inv2: "startup_inv (past @ [SE_init h song status t st]) ?s2"
      using quiet by (auto simp: startup_inv_def)
    have "initEffect h song status t st s = (if status = PLAYING then applyStartupSeek st ?s2 else ?s2)"
      unfolding initEffect_def Let_def using x by simp
    with inv2 startup_inv_apply [OF inv2, of st] show ?thesis by (cases "status = PLAYING") simp_all
  qed
qed

lemma startup_inv_step: "startup_inv past s \<Longrightarrow> startup_inv (past @ [e]) (startupStep e s)"
proof (cases e)
  case SE_mount
  then show "startup_inv past s \<Longrightarrow> ?thesis"
    using startup_inv_calm(1) [OF startup_inv_more] by simp
next
  case (SE_track song)
  then show "startup_inv past s \<Longrightarrow> ?thesis"
    using startup_inv_calm(2) [OF startup_inv_more] by simp
next
  case (SE_init h song status t st)
  then show "startup_inv past s \<Longrightarrow> ?thesis" by (simp add: startup_inv_init)
next
  case (SE_status status st)
  then show "startup_inv past s \<Longrightarrow> ?thesis"
    using startup_inv_apply [of past s st] by (simp add: startup_inv_more)
qed

lemma startup_inv_run: "startup_inv events (fold startupStep events initialStartup)"
proof (induction events rule: rev_induct)
  case Nil
  show ?case by (simp add: startup_inv_def initialStartup_def)
next
  case (snoc e events)
  then show ?case using startup_inv_step [OF snoc] by simp
qed

text \<open>
  However the hook is mounted, its effects run and the player reports its status, the player is sent to the position of
  the last session at most once.
\<close>

theorem startup_seeks_at_most_once:
  "length (su_seeks (fold startupStep events initialStartup)) \<le> 1"
  using startup_inv_run [of events] by (simp add: startup_inv_def)

text \<open>
  And it is sent only to a positive position that the effect of the start found in the store, while it is still
  at the song that was current then.
\<close>

theorem startup_seek_is_saved_position:
  assumes "(t, k) \<in> set (su_seeks (fold startupStep events initialStartup))"
  shows "\<exists>song status st. SE_init True (Some song) status t st \<in> set events \<and> t > 0
    \<and> (k = Some (uniqueId song) \<or> uniqueId song = '''')"
  using startup_inv_run [of events] assms unfolding startup_inv_def armedBy_def by fastforce

lemma handled_stays_quiet:
  "su_sessionHandled s \<and> su_armed s = None \<Longrightarrow>
     su_sessionHandled (startupStep e s) \<and> su_armed (startupStep e s) = None \<and> su_seeks (startupStep e s) = su_seeks s"
  by (cases e) (auto simp: mountStartup_def trackEffect_def cancelStartupSeek_def initEffect_def applyStartupSeek_def
      split: option.splits)

lemma handled_run_quiet:
  "su_sessionHandled s \<and> su_armed s = None \<Longrightarrow> su_seeks (fold startupStep events s) = su_seeks s"
proof (induction events arbitrary: s)
  case (Cons e events)
  from handled_stays_quiet [OF Cons.prems, of e] Cons.IH [of "startupStep e s"] show ?case by simp
qed simp

text \<open>
  A flaw of the same kind: under shuffle the item that the index of the player reads is not the song that is current.
  When they differ, the position of the last session is given up as soon as the player plays.
\<close>

theorem startup_seek_lost_under_shuffle:
  assumes "store_ok st" and "isShuffleEnabled st" and "distinct (q_default (queue st))"
    and "p_index (player st) = Num (int i)" and "js_nth (q_shuffled (queue st)) (Num (int i)) = Some (Num (int j))"
    and "i < length (q_default (queue st))" and "j < length (q_default (queue st))" and "i \<noteq> j"
    and "q_default (queue st) ! j \<noteq> ''''"
  shows "su_seeks (fold startupStep (SE_init True (getCurrentSong st) PLAYING t st # events) initialStartup) = []"
proof -
  have len: "length (queueItems st) = length (q_default (queue st))" by (rule length_queueItems [OF assms(1)])
  have "currentQueueIndex st = Num (int j)"
    using assms(2,4,5) by (simp add: currentQueueIndex_def mapShuffledToQueueIndex_def)
  then have song: "getCurrentSong st = Some (queueItems st ! j)" by (simp add: getCurrentSong_eq len assms(7))
  have ids: "uniqueId (queueItems st ! n) = q_default (queue st) ! n" if "n < length (q_default (queue st))" for n
    using nth_map [of n "queueItems st" uniqueId] that by (simp add: queueItems_ids [OF assms(1)] len)
  have item: "itemAtIndex st = Some (q_default (queue st) ! i)"
    by (simp add: itemAtIndex_def assms(4,6) len ids)
  have ne: "q_default (queue st) ! i \<noteq> q_default (queue st) ! j"
    using assms(3,6-8) by (simp add: nth_eq_iff_index_eq)
  let ?s = "initEffect True (getCurrentSong st) PLAYING t st initialStartup"
  have "su_sessionHandled ?s \<and> su_armed ?s = None \<and> su_seeks ?s = []"
    using assms(7,9) ne
    by (simp add: initEffect_def initialStartup_def song applyStartupSeek_def cancelStartupSeek_def item ids Let_def)
  with handled_run_quiet [of ?s events] show ?thesis by simp
qed

section \<open>A concrete server\<close>

text \<open>It keeps the last queue: the index, the id of the current song, the ids and the position.\<close>

definition exampleQueueSong :: "string \<Rightarrow> ss_song" where
  "exampleQueueSong k = (exampleRaw 1)\<lparr>ss_songId := Id_str k\<rparr>"

definition exampleApi :: "(jsnum option \<times> string option \<times> string list \<times> rat option) option queue_api" where
  "exampleApi =
     \<lparr>qa_saveByIndex = (\<lambda>index ids position v. (Reply (), Some (index, None, ids, map_option wholeOr0 position))),
      qa_save = (\<lambda>current ids position v. (Reply (), Some (None, current, ids, map_option wholeOr0 position))),
      qa_getByIndex = (\<lambda>v. Reply (case v of None \<Rightarrow> None
        | Some (index, current, ids, position) \<Rightarrow> Some \<lparr>qb_changed = ''2024'', qb_changedBy = ''app'',
            qb_currentIndex = index, qb_entry = Some (map exampleQueueSong ids), qb_position = position,
            qb_username = ''me''\<rparr>)),
      qa_get = (\<lambda>v. case v of None \<Rightarrow> Refused
        | Some (index, current, ids, position) \<Rightarrow> Reply \<lparr>qo_changed = ''2024'', qo_changedBy = ''app'',
            qo_current = current, qo_entry = map exampleQueueSong ids, qo_position = position,
            qo_username = ''me''\<rparr>)\<rparr>"

lemma exampleApi_keeps: "keeps_queue (\<lambda>_. UNIV) exampleApi"
  by (simp add: keeps_queue_def exampleApi_def exampleQueueSong_def comp_def)

lemma exampleStore_items:
  "queueItems (exampleStore sh rep i) =
     [toQueueSong ''u1'' (exampleSong ''a''), toQueueSong ''u2'' (exampleSong ''b''), toQueueSong ''u3'' (exampleSong ''c'')]"
  by (simp add: queueItems_def exampleStore_def List.map_filter_simps)

lemma exampleSong_server: "s_serverId (exampleSong k) = ''server''"
  by (simp add: exampleSong_def)

text \<open>Three songs with the second one current, at 40 seconds, saved without and with the extension.\<close>

definition exampleSession :: "PlayerShuffle \<Rightarrow> nat \<Rightarrow> world" where
  "exampleSession sh i = (exampleWorld (exampleStore sh Repeat_ALL (Num (int i))))\<lparr>w_timestamp := 40\<rparr>"

lemma exampleSession_simps [simp]:
  "w_store (exampleSession sh i) = exampleStore sh Repeat_ALL (Num (int i))"
  "w_timestamp (exampleSession sh i) = 40"
  by (simp_all add: exampleSession_def)

lemma exampleWorld_ids: "inj_on (w_ids (exampleWorld s)) A"
  by (auto simp: exampleWorld_def initialWorld_def ids_rest_def inj_on_def dest: arg_cong [where f = length])


theorem shuffled_queue_saves_other_song_witness:
  "snd (saveQueue exampleApi None (Some ''server'') (exampleSession Shuffle_TRACK 1) None) =
     Some (None, Some ''b'', [''a'', ''b'', ''c''], Some 40000)
   \<and> map_option s_id (getCurrentSong (w_store (exampleSession Shuffle_TRACK 1))) = Some ''a''"
  using shuffled_queue_saves_other_song [of "exampleSession Shuffle_TRACK 1" None 1 0 "''server''" exampleApi None]
  by (simp add: exampleStore_ok hasFeature_def exampleStore_items exampleSong_server exampleApi_def wholeOr0_def)

definition exampleStartup :: "startup_event list" where
  "exampleStartup =
     (let s = exampleStore Shuffle_NONE Repeat_NONE (Num 1)
      in [SE_mount, SE_init True (getCurrentSong s) PAUSED 40 s, SE_status PLAYING s, SE_status PLAYING s])"

lemma exampleStore_current:
  "getCurrentSong (exampleStore Shuffle_NONE rep (Num 1)) = Some (toQueueSong ''u2'' (exampleSong ''b''))"
  by (simp add: getCurrentSong_eq currentQueueIndex_def exampleStore_items)

theorem startup_seek_is_saved_position_witness:
  "\<exists>song status st. SE_init True (Some song) status 40 st \<in> set exampleStartup \<and> (40 :: rat) > 0
     \<and> (Some ''u2'' = Some (uniqueId song) \<or> uniqueId song = '''')"
proof (rule startup_seek_is_saved_position)
  show "(40, Some ''u2'') \<in> set (su_seeks (fold startupStep exampleStartup initialStartup))"
    by (simp add: exampleStartup_def initialStartup_def mountStartup_def initEffect_def applyStartupSeek_def
        itemAtIndex_def exampleStore_items exampleStore_current Let_def)
qed

theorem startup_seek_lost_under_shuffle_witness:
  "su_seeks (fold startupStep (SE_init True (getCurrentSong (exampleStore Shuffle_TRACK Repeat_NONE (Num 1))) PLAYING 40
       (exampleStore Shuffle_TRACK Repeat_NONE (Num 1)) # exampleStartup) initialStartup) = []"
  by (rule startup_seek_lost_under_shuffle [of _ 1 0]) (simp_all add: exampleStore_ok)

end
