(* ===== verification/SubsonicChanges.thy ===== *)
theory SubsonicChanges
  imports ServerFeatures Scrobble
begin

text \<open>
  The requests by which a Subsonic server is changed (\<^verbatim>\<open>api/subsonic/subsonic-controller.ts\<close>): playlists,
  favourites, ratings, radio stations, and what is played. The server is a state on which the requests are functions;
  each tells whether its status was 200. What \<open>replacePlaylist\<close> keeps in the IndexedDB is a map.
\<close>

section \<open>Requests\<close>

record update_playlist_query =
  uq_comment :: "string option"
  uq_name :: "string option"
  uq_playlistId :: string
  uq_public :: "bool option"
  uq_songIdToAdd :: "string list option"
  uq_songIndexToRemove :: "string list option"

record create_playlist_query =
  cq_name :: "string option"
  cq_playlistId :: "string option"
  cq_songId :: "string list option"

record star_query =
  tq_albumId :: "string list option"
  tq_artistId :: "string list option"
  tq_id :: "string list option"

record station_body =
  tb_homepageUrl :: "string option"
  tb_name :: string
  tb_streamUrl :: string

datatype playback_state = State_starting | State_playing | State_paused | State_stopped

record report_query =
  rq_ignoreScrobble :: bool
  rq_mediaId :: string
  rq_mediaType :: string
  rq_playbackRate :: rat
  rq_positionMs :: rat
  rq_state :: playback_state

record 'v ss_api =
  ap_updatePlaylist :: "update_playlist_query \<Rightarrow> 'v \<Rightarrow> bool \<times> 'v"
  ap_createPlaylist :: "create_playlist_query \<Rightarrow> 'v \<Rightarrow> (ss_id \<times> string) reply \<times> 'v"
  ap_deletePlaylist :: "string \<Rightarrow> 'v \<Rightarrow> bool \<times> 'v"
  ap_getPlaylist :: "string \<Rightarrow> 'v \<Rightarrow> ss_playlist reply"
  ap_star :: "star_query \<Rightarrow> 'v \<Rightarrow> bool \<times> 'v"
  ap_unstar :: "star_query \<Rightarrow> 'v \<Rightarrow> bool \<times> 'v"
  ap_setRating :: "string \<Rightarrow> nat \<Rightarrow> 'v \<Rightarrow> bool \<times> 'v"
  ap_createStation :: "station_body \<Rightarrow> 'v \<Rightarrow> bool \<times> 'v"
  ap_updateStation :: "string \<Rightarrow> station_body \<Rightarrow> 'v \<Rightarrow> bool \<times> 'v"
  ap_deleteStation :: "string \<Rightarrow> 'v \<Rightarrow> bool \<times> 'v"
  ap_scrobble :: "string \<Rightarrow> bool \<Rightarrow> 'v \<Rightarrow> bool \<times> 'v"
  ap_reportPlayback :: "report_query \<Rightarrow> 'v \<Rightarrow> bool \<times> 'v"

text \<open>A request whose status is not 200 throws with a message.\<close>

definition demand :: "string \<Rightarrow> bool \<times> 'v \<Rightarrow> (api_error + unit) \<times> 'v" where
  "demand message r = (if fst r then Inr () else Inl (Api message), snd r)"

definition emptyUpdate :: "string \<Rightarrow> update_playlist_query" where
  "emptyUpdate k = \<lparr>uq_comment = None, uq_name = None, uq_playlistId = k, uq_public = None, uq_songIdToAdd = None,
     uq_songIndexToRemove = None\<rparr>"

section \<open>Playlists\<close>

definition addToPlaylist :: "'v ss_api \<Rightarrow> string \<Rightarrow> string list \<Rightarrow> 'v \<Rightarrow> (api_error + unit) \<times> 'v" where
  "addToPlaylist A playlistId songId v =
     demand ''Failed to add to playlist''
       (ap_updatePlaylist A ((emptyUpdate playlistId)\<lparr>uq_songIdToAdd := Some songId\<rparr>) v)"

definition removeFromPlaylist :: "'v ss_api \<Rightarrow> string \<Rightarrow> string list \<Rightarrow> 'v \<Rightarrow> (api_error + unit) \<times> 'v" where
  "removeFromPlaylist A playlistId songId v =
     demand ''Failed to add to playlist''
       (ap_updatePlaylist A ((emptyUpdate playlistId)\<lparr>uq_songIndexToRemove := Some songId\<rparr>) v)"

definition updatePlaylist ::
    "'v ss_api \<Rightarrow> string \<Rightarrow> string option \<Rightarrow> string option \<Rightarrow> bool option \<Rightarrow> 'v \<Rightarrow> (api_error + unit) \<times> 'v" where
  "updatePlaylist A playlistId comment name public v =
     demand ''Failed to add to playlist''
       (ap_updatePlaylist A ((emptyUpdate playlistId)\<lparr>uq_comment := comment, uq_name := name, uq_public := public\<rparr>) v)"

definition createPlaylist :: "'v ss_api \<Rightarrow> string \<Rightarrow> 'v \<Rightarrow> (api_error + string \<times> string) \<times> 'v" where
  "createPlaylist A name v =
     (let (res, v') = ap_createPlaylist A \<lparr>cq_name = Some name, cq_playlistId = None, cq_songId = None\<rparr> v
      in (reply_or ''Failed to create playlist'' res (\<lambda>(k, n). Inr (idString k, n)), v'))"

definition setPlaylistSongs :: "'v ss_api \<Rightarrow> string \<Rightarrow> string list \<Rightarrow> 'v \<Rightarrow> (api_error + unit) \<times> 'v" where
  "setPlaylistSongs A playlistId songIds v =
     (let (res, v') = ap_createPlaylist A \<lparr>cq_name = None, cq_playlistId = Some playlistId, cq_songId = Some songIds\<rparr> v
      in (reply_or ''Failed to update playlist songs'' res (\<lambda>_. Inr ()), v'))"

definition deletePlaylist :: "'v ss_api \<Rightarrow> string \<Rightarrow> 'v \<Rightarrow> (api_error + unit) \<times> 'v" where
  "deletePlaylist A playlistId v = demand ''Failed to delete playlist'' (ap_deletePlaylist A playlistId v)"

record playlist_backup =
  bk_id :: string
  bk_name :: string
  bk_songIds :: "string list"
  bk_timestamp :: nat

definition backupKey :: "string \<Rightarrow> string" where
  "backupKey playlistId = ''playlist-backup-'' @ playlistId"

text \<open>The last two steps; a request is only made when there is something to remove or to add.\<close>

definition clearPlaylist :: "'v ss_api \<Rightarrow> string \<Rightarrow> string list \<Rightarrow> 'v \<Rightarrow> (api_error + unit) \<times> 'v" where
  "clearPlaylist A playlistId existingSongs v =
     (if length existingSongs > 0 then
        demand ''Failed to remove songs from playlist''
          (ap_updatePlaylist A ((emptyUpdate playlistId)
             \<lparr>uq_songIndexToRemove := Some (map decimal (rev [0..<length existingSongs]))\<rparr>) v)
      else (Inr (), v))"

definition fillPlaylist :: "'v ss_api \<Rightarrow> string \<Rightarrow> string list \<Rightarrow> 'v \<Rightarrow> (api_error + unit) \<times> 'v" where
  "fillPlaylist A playlistId songId v =
     (if length songId > 0 then
        demand ''Failed to add songs to playlist''
          (ap_updatePlaylist A ((emptyUpdate playlistId)\<lparr>uq_songIdToAdd := Some songId\<rparr>) v)
      else (Inr (), v))"

definition replacePlaylist ::
    "'v ss_api \<Rightarrow> string option \<Rightarrow> string \<Rightarrow> string list \<Rightarrow> nat \<Rightarrow> 'v \<Rightarrow> (string \<rightharpoonup> playlist_backup)
      \<Rightarrow> (api_error + unit) \<times> 'v \<times> (string \<rightharpoonup> playlist_backup)" where
  "replacePlaylist A serverId playlistId songId now v idb =
     (case ap_getPlaylist A playlistId v of
        Refused \<Rightarrow> (Inl (Api ''Failed to fetch existing playlist songs''), v, idb)
      | Reply existing \<Rightarrow>
          (let existingSongs = map (\<lambda>song. s_id (normalizeSong song serverId None (\<lambda>_. None)))
                 (nullish_or (sp_entry existing) [])
           in case ap_getPlaylist A playlistId v of
                Refused \<Rightarrow> (Inl (Api ''Failed to get playlist detail''), v, idb)
              | Reply detail \<Rightarrow>
                  let backup = \<lparr>bk_id = playlistId, bk_name = pl_name (normalizePlaylist detail serverId),
                        bk_songIds = existingSongs, bk_timestamp = now\<rparr>;
                      idb' = idb(backupKey playlistId \<mapsto> backup)
                  in case clearPlaylist A playlistId existingSongs v of
                       (Inl e, v1) \<Rightarrow> (Inl e, v1, idb')
                     | (Inr _, v1) \<Rightarrow>
                         (case fillPlaylist A playlistId songId v1 of (r, v2) \<Rightarrow> (r, v2, idb'))))"

section \<open>Favourites, ratings and stations\<close>

definition starOf :: "LibraryItem \<Rightarrow> string list \<Rightarrow> star_query" where
  "starOf kind k =
     \<lparr>tq_albumId = (if kind = ALBUM then Some k else None),
      tq_artistId = (if kind = ALBUM_ARTIST \<or> kind = ARTIST then Some k else None),
      tq_id = (if kind = SONG \<or> kind = PLAYLIST_SONG then Some k else None)\<rparr>"

definition createFavorite :: "'v ss_api \<Rightarrow> LibraryItem \<Rightarrow> string list \<Rightarrow> 'v \<Rightarrow> (api_error + unit) \<times> 'v" where
  "createFavorite A kind k v = demand ''Failed to create favorite'' (ap_star A (starOf kind k) v)"

definition deleteFavorite :: "'v ss_api \<Rightarrow> LibraryItem \<Rightarrow> string list \<Rightarrow> 'v \<Rightarrow> (api_error + unit) \<times> 'v" where
  "deleteFavorite A kind k v = demand ''Failed to delete favorite'' (ap_unstar A (starOf kind k) v)"

text \<open>The status of a rating is not looked at.\<close>

definition setRating :: "'v ss_api \<Rightarrow> string list \<Rightarrow> nat \<Rightarrow> 'v \<Rightarrow> (api_error + unit) \<times> 'v" where
  "setRating A itemIds rating v = (Inr (), fold (\<lambda>k v. snd (ap_setRating A k rating v)) itemIds v)"

definition createInternetRadioStation :: "'v ss_api \<Rightarrow> station_body \<Rightarrow> 'v \<Rightarrow> (api_error + unit) \<times> 'v" where
  "createInternetRadioStation A body v =
     demand ''Failed to create internet radio station'' (ap_createStation A body v)"

definition updateInternetRadioStation :: "'v ss_api \<Rightarrow> string \<Rightarrow> station_body \<Rightarrow> 'v \<Rightarrow> (api_error + unit) \<times> 'v" where
  "updateInternetRadioStation A k body v =
     demand ''Failed to update internet radio station'' (ap_updateStation A k body v)"

definition deleteInternetRadioStation :: "'v ss_api \<Rightarrow> string \<Rightarrow> 'v \<Rightarrow> (api_error + unit) \<times> 'v" where
  "deleteInternetRadioStation A k v = demand ''Failed to delete internet radio station'' (ap_deleteStation A k v)"

section \<open>Scrobbling\<close>

text \<open>The states that an event reports; the requests are made one after the other before the first answer is awaited.\<close>

definition reportedStates :: "scrobble_event option \<Rightarrow> playback_state list" where
  "reportedStates event =
     (case event of
        Some EV_pause \<Rightarrow> [State_paused]
      | Some EV_start \<Rightarrow> [State_starting, State_playing]
      | Some EV_stop \<Rightarrow> [State_stopped]
      | Some EV_unpause \<Rightarrow> [State_playing]
      | None \<Rightarrow> [])"

definition reportPlayback :: "'v ss_api \<Rightarrow> scrobble_query \<Rightarrow> playback_state \<Rightarrow> 'v \<Rightarrow> bool \<times> 'v" where
  "reportPlayback A q state v =
     ap_reportPlayback A \<lparr>rq_ignoreScrobble = True, rq_mediaId = sq_id q, rq_mediaType = sq_mediaType q,
       rq_playbackRate = sq_playbackRate q, rq_positionMs = sq_position q, rq_state = state\<rparr> v"

primrec reportAll :: "'v ss_api \<Rightarrow> scrobble_query \<Rightarrow> playback_state list \<Rightarrow> 'v \<Rightarrow> bool \<times> 'v" where
  "reportAll A q [] v = (True, v)"
| "reportAll A q (state # states) v =
     (let (ok, v1) = reportPlayback A q state v; (rest, v2) = reportAll A q states v1 in (ok \<and> rest, v2))"

definition ssScrobble :: "'v ss_api \<Rightarrow> features option option \<Rightarrow> scrobble_query \<Rightarrow> 'v \<Rightarrow> (api_error + unit) \<times> 'v" where
  "ssScrobble A server q v =
     (if hasFeature server REPORT_PLAYBACK then
        (let (ok, v1) = (if sq_submission q \<or> sq_event q = Some EV_start then ap_scrobble A (sq_id q) (sq_submission q) v
                         else (True, v))
         in if \<not> ok then (Inl (Api ''Failed to scrobble''), v1)
            else if sq_submission q then (Inr (), v1)
            else demand ''Failed to report playback'' (reportAll A q (reportedStates (sq_event q)) v1))
      else demand ''Failed to scrobble'' (ap_scrobble A (sq_id q) (sq_submission q) v))"

section \<open>What the server does with a playlist\<close>

text \<open>
  The documented behaviour of the requests for playlists, with the ids of the songs of each: a request without
  success changes nothing; an update first removes the songs at the given positions and then appends; creating with
  the id of a playlist sets its songs; a playlist is answered with its songs.
\<close>

definition updatedSongs :: "update_playlist_query \<Rightarrow> string list \<Rightarrow> string list" where
  "updatedSongs q songs =
     map snd (filter (\<lambda>(j, x). decimal j \<notin> set (nullish_or (uq_songIndexToRemove q) [])) (enumerate 0 songs))
       @ nullish_or (uq_songIdToAdd q) []"

definition keeps_playlists :: "'v ss_api \<Rightarrow> ('v \<Rightarrow> string \<Rightarrow> string list) \<Rightarrow> bool" where
  "keeps_playlists A songsOf \<longleftrightarrow>
     (\<forall>q v. songsOf (snd (ap_updatePlaylist A q v)) =
        (if fst (ap_updatePlaylist A q v)
         then (songsOf v)(uq_playlistId q := updatedSongs q (songsOf v (uq_playlistId q))) else songsOf v))
     \<and> (\<forall>name k songs v. songsOf (snd (ap_createPlaylist A \<lparr>cq_name = name, cq_playlistId = Some k, cq_songId = Some songs\<rparr> v)) =
        (if fst (ap_createPlaylist A \<lparr>cq_name = name, cq_playlistId = Some k, cq_songId = Some songs\<rparr> v) = Refused
         then songsOf v else (songsOf v)(k := songs)))
     \<and> (\<forall>k v p. ap_getPlaylist A k v = Reply p \<longrightarrow>
        map (\<lambda>e. idString (ss_songId e)) (nullish_or (sp_entry p) []) = songsOf v k)"

lemma keeps_update:
  "keeps_playlists A songsOf \<Longrightarrow> songsOf (snd (ap_updatePlaylist A q v)) =
     (if fst (ap_updatePlaylist A q v)
      then (songsOf v)(uq_playlistId q := updatedSongs q (songsOf v (uq_playlistId q))) else songsOf v)"
  unfolding keeps_playlists_def by blast

lemma keeps_set:
  "keeps_playlists A songsOf \<Longrightarrow>
     songsOf (snd (ap_createPlaylist A \<lparr>cq_name = name, cq_playlistId = Some k, cq_songId = Some songs\<rparr> v)) =
       (if fst (ap_createPlaylist A \<lparr>cq_name = name, cq_playlistId = Some k, cq_songId = Some songs\<rparr> v) = Refused
        then songsOf v else (songsOf v)(k := songs))"
  unfolding keeps_playlists_def by blast

lemma keeps_get:
  "keeps_playlists A songsOf \<Longrightarrow> ap_getPlaylist A k v = Reply p \<Longrightarrow>
     map (\<lambda>e. idString (ss_songId e)) (nullish_or (sp_entry p) []) = songsOf v k"
  unfolding keeps_playlists_def by blast

lemma updatedSongs_none:
  "updatedSongs ((emptyUpdate k)\<lparr>uq_songIdToAdd := Some songs\<rparr>) xs = xs @ songs"
  by (simp add: updatedSongs_def emptyUpdate_def)

lemma updatedSongs_all:
  "updatedSongs ((emptyUpdate k)\<lparr>uq_songIndexToRemove := Some (map decimal (rev [0..<length xs]))\<rparr>) xs = []"
proof -
  have "(j, x) \<in> set (enumerate 0 xs) \<Longrightarrow> j < length xs" for j x by (auto simp: in_set_enumerate_eq)
  then show ?thesis by (force simp: updatedSongs_def emptyUpdate_def filter_empty_conv)
qed

lemma emptyUpdate_id [simp]:
  "uq_playlistId ((emptyUpdate k)\<lparr>uq_songIdToAdd := a\<rparr>) = k"
  "uq_playlistId ((emptyUpdate k)\<lparr>uq_songIndexToRemove := r\<rparr>) = k"
  by (simp_all add: emptyUpdate_def)

lemma clearPlaylist_songs:
  assumes "keeps_playlists A songsOf" and "clearPlaylist A k (songsOf v k) v = (r, v')"
  shows "songsOf v' = (case r of Inl e \<Rightarrow> songsOf v | Inr _ \<Rightarrow> (songsOf v)(k := []))"
proof (cases "songsOf v k = []")
  case True
  with assms(2) show ?thesis by (auto simp: clearPlaylist_def fun_upd_idem)
next
  case False
  let ?q = "(emptyUpdate k)\<lparr>uq_songIndexToRemove := Some (map decimal (rev [0..<length (songsOf v k)]))\<rparr>"
  from False assms(2) have "demand ''Failed to remove songs from playlist'' (ap_updatePlaylist A ?q v) = (r, v')"
    by (simp add: clearPlaylist_def)
  then show ?thesis
    using keeps_update [OF assms(1), of ?q v] updatedSongs_all [where k = k and xs = "songsOf v k"]
    by (cases "fst (ap_updatePlaylist A ?q v)") (auto simp: demand_def)
qed

lemma fillPlaylist_songs:
  assumes "keeps_playlists A songsOf" and "fillPlaylist A k songs v = (r, v')"
  shows "songsOf v' = (case r of Inl e \<Rightarrow> songsOf v | Inr _ \<Rightarrow> (songsOf v)(k := songsOf v k @ songs))"
proof (cases "songs = []")
  case True
  with assms(2) show ?thesis by (auto simp: fillPlaylist_def fun_upd_idem)
next
  case False
  let ?q = "(emptyUpdate k)\<lparr>uq_songIdToAdd := Some songs\<rparr>"
  from False assms(2) have "demand ''Failed to add songs to playlist'' (ap_updatePlaylist A ?q v) = (r, v')"
    by (simp add: fillPlaylist_def)
  then show ?thesis
    using keeps_update [OF assms(1), of ?q v] updatedSongs_none [where k = k and songs = songs and xs = "songsOf v k"]
    by (cases "fst (ap_updatePlaylist A ?q v)") (auto simp: demand_def)
qed

lemma fetched_ids:
  "keeps_playlists A songsOf \<Longrightarrow> ap_getPlaylist A k v = Reply p \<Longrightarrow>
     map (\<lambda>song. s_id (normalizeSong song sid None (\<lambda>_. None))) (nullish_or (sp_entry p) []) = songsOf v k"
proof -
  assume k: "keeps_playlists A songsOf" "ap_getPlaylist A k v = Reply p"
  have "s_id (normalizeSong e sid None (\<lambda>_. None)) = idString (ss_songId e)" for e
    by (simp add: normalizeSong_def Let_def)
  then show ?thesis using keeps_get [OF k] by simp
qed

lemma replacePlaylist_cases:
  assumes "keeps_playlists A songsOf" and "replacePlaylist A sid k songs now v idb = (r, v', idb')"
  obtains e where "r = Inl e" "v' = v" "idb' = idb"
  | p e where "clearPlaylist A k (songsOf v k) v = (Inl e, v')" "r = Inl e"
      "idb' = idb(backupKey k \<mapsto> \<lparr>bk_id = k, bk_name = sp_name (p :: ss_playlist), bk_songIds = songsOf v k, bk_timestamp = now\<rparr>)"
  | p v1 where "clearPlaylist A k (songsOf v k) v = (Inr (), v1)" "fillPlaylist A k songs v1 = (r, v')"
      "idb' = idb(backupKey k \<mapsto> \<lparr>bk_id = k, bk_name = sp_name (p :: ss_playlist), bk_songIds = songsOf v k, bk_timestamp = now\<rparr>)"
proof (cases "ap_getPlaylist A k v")
  case Refused
  then show ?thesis using assms(2) by (intro that(1)) (auto simp: replacePlaylist_def)
next
  case (Reply p)
  obtain r1 v1 where clr: "clearPlaylist A k (songsOf v k) v = (r1, v1)" by (cases "clearPlaylist A k (songsOf v k) v")
  note ids = fetched_ids [OF assms(1) Reply, of sid]
  show ?thesis
  proof (cases r1)
    case (Inl e)
    then show ?thesis
      using assms(2) Reply clr by (intro that(2) [of e p]) (auto simp: replacePlaylist_def ids Let_def normalizePlaylist_def)
  next
    case (Inr u)
    then show ?thesis
      using assms(2) Reply clr
      by (intro that(3) [of v1 p])
        (auto simp: replacePlaylist_def ids Let_def normalizePlaylist_def split: prod.splits)
  qed
qed

section \<open>Replacing the songs of a playlist\<close>

text \<open>
  When replacing the songs of a playlist reports success, the playlist on the server has exactly the new songs, no other
  playlist changed, and the backup holds the old ones.
\<close>

theorem replacePlaylist_replaces:
  assumes "keeps_playlists A songsOf" and "replacePlaylist A sid k songs now v idb = (Inr (), v', idb')"
  shows "songsOf v' = (songsOf v)(k := songs) \<and> map_option bk_songIds (idb' (backupKey k)) = Some (songsOf v k)"
  using assms(1,2)
proof (cases rule: replacePlaylist_cases)
  case (3 p v1)
  from clearPlaylist_songs [OF assms(1) 3(1)] fillPlaylist_songs [OF assms(1) 3(2)] 3(3) show ?thesis by simp
qed simp_all

text \<open>
  C26: When it throws, no song is lost: either nothing changed on the server, or the playlist is empty and the backup in the
  database holds its songs.
\<close>

theorem failed_replace_loses_nothing:
  assumes "keeps_playlists A songsOf" and "replacePlaylist A sid k songs now v idb = (Inl e, v', idb')"
  shows "songsOf v' = songsOf v
    \<or> songsOf v' = (songsOf v)(k := []) \<and> map_option bk_songIds (idb' (backupKey k)) = Some (songsOf v k)"
  using assms(1,2)
proof (cases rule: replacePlaylist_cases)
  case 1
  then show ?thesis by simp
next
  case (2 p e)
  from clearPlaylist_songs [OF assms(1) 2(1)] show ?thesis by simp
next
  case (3 p v1)
  from clearPlaylist_songs [OF assms(1) 3(1)] fillPlaylist_songs [OF assms(1) 3(2)] 3(3) show ?thesis by simp
qed

text \<open>Setting the songs with one request has the same effect as replacing them step by step.\<close>

theorem set_and_replace_agree:
  assumes "keeps_playlists A songsOf" and "replacePlaylist A sid k songs now v idb = (Inr (), v', idb')"
    and "setPlaylistSongs A k songs v = (Inr (), v'')"
  shows "songsOf v'' = songsOf v'"
  using assms(1,2)
proof (cases rule: replacePlaylist_cases)
  case (3 p v1)
  have "songsOf v'' = (songsOf v)(k := songs)"
    using assms(3) keeps_set [OF assms(1), of None k songs v]
    by (auto simp: setPlaylistSongs_def reply_or_def split: prod.splits reply.splits)
  moreover from clearPlaylist_songs [OF assms(1) 3(1)] fillPlaylist_songs [OF assms(1) 3(2)]
  have "songsOf v' = (songsOf v)(k := songs)" by simp
  ultimately show ?thesis by simp
qed simp_all

text \<open>A flaw of rating: it reports success whatever the server answers, so that its callers never undo a rating.\<close>

theorem rating_never_fails:
  "fst (setRating A itemIds rating v) = Inr ()"
  by (simp add: setRating_def)

section \<open>What is reported of a play\<close>

text \<open>
  A submitted play is one request for it and nothing else, with or without the extension for reports; it succeeds when
  that request does.
\<close>

theorem submission_is_one_request:
  assumes "sq_submission q"
  shows "ssScrobble A server q v = demand ''Failed to scrobble'' (ap_scrobble A (sq_id q) True v)"
  using assms by (simp add: ssScrobble_def demand_def case_prod_beta Let_def)

text \<open>A server that keeps a log of the states that were reported, and refuses some of them.\<close>

definition logApi :: "(playback_state \<Rightarrow> bool) \<Rightarrow> (string \<times> playback_state option) list ss_api" where
  "logApi ok =
     \<lparr>ap_updatePlaylist = (\<lambda>q v. (True, v)), ap_createPlaylist = (\<lambda>q v. (Refused, v)),
      ap_deletePlaylist = (\<lambda>k v. (True, v)), ap_getPlaylist = (\<lambda>k v. Refused),
      ap_star = (\<lambda>q v. (True, v)), ap_unstar = (\<lambda>q v. (True, v)), ap_setRating = (\<lambda>k r v. (False, v)),
      ap_createStation = (\<lambda>b v. (True, v)), ap_updateStation = (\<lambda>k b v. (True, v)),
      ap_deleteStation = (\<lambda>k v. (True, v)),
      ap_scrobble = (\<lambda>k submission v. (True, v @ [(k, None)])),
      ap_reportPlayback = (\<lambda>q v. (ok (rq_state q), v @ [(rq_mediaId q, Some (rq_state q))]))\<rparr>"

lemma reportAll_log:
  "reportAll (logApi ok) q states v = (list_all ok states, v @ map (\<lambda>state. (sq_id q, Some state)) states)"
  by (induction states arbitrary: v) (simp_all add: reportPlayback_def logApi_def Let_def)

lemma logApi_scrobble: "ap_scrobble (logApi ok) k s v = (True, v @ [(k, None)])"
  by (simp add: logApi_def)

text \<open>
  On a server with the extension, the start of a song is announced by a scrobble that is not submitted and by two
  reports, the other events by one report; a report that the server refuses does not keep back those after it.
\<close>

theorem events_are_reported:
  assumes "hasFeature server REPORT_PLAYBACK" and "\<not> sq_submission q"
  shows "ssScrobble (logApi ok) server q [] =
     (if list_all ok (reportedStates (sq_event q)) then Inr () else Inl (Api ''Failed to report playback''),
      (if sq_event q = Some EV_start then [(sq_id q, None)] else [])
        @ map (\<lambda>state. (sq_id q, Some state)) (reportedStates (sq_event q)))"
  using assms by (simp add: ssScrobble_def reportAll_log logApi_scrobble demand_def Let_def)

section \<open>A concrete server\<close>

text \<open>A server that knows the songs of its playlists and accepts the updates that satisfy a condition.\<close>

definition examplePlaylist :: "string list \<Rightarrow> ss_playlist" where
  "examplePlaylist songs =
     \<lparr>sp_changed = None, sp_comment = None, sp_coverArt = None, sp_duration = 0,
      sp_entry = Some (map (\<lambda>k. (exampleRaw 1)\<lparr>ss_songId := Id_str k\<rparr>) songs), sp_id = Id_str ''p'',
      sp_name = ''mix'', sp_owner = ''me'', sp_public = False, sp_songCount = length songs\<rparr>"

definition exampleLists :: "(update_playlist_query \<Rightarrow> bool) \<Rightarrow> (string \<Rightarrow> string list) ss_api" where
  "exampleLists ok =
     \<lparr>ap_updatePlaylist = (\<lambda>q v. if ok q then (True, v(uq_playlistId q := updatedSongs q (v (uq_playlistId q)))) else (False, v)),
      ap_createPlaylist = (\<lambda>q v. (Reply (Id_str ''p'', ''mix''),
        case (cq_playlistId q, cq_songId q) of (Some k, Some songs) \<Rightarrow> v(k := songs) | _ \<Rightarrow> v)),
      ap_deletePlaylist = (\<lambda>k v. (True, v(k := []))),
      ap_getPlaylist = (\<lambda>k v. Reply (examplePlaylist (v k))),
      ap_star = (\<lambda>q v. (True, v)), ap_unstar = (\<lambda>q v. (True, v)), ap_setRating = (\<lambda>k r v. (False, v)),
      ap_createStation = (\<lambda>b v. (True, v)), ap_updateStation = (\<lambda>k b v. (True, v)),
      ap_deleteStation = (\<lambda>k v. (True, v)), ap_scrobble = (\<lambda>k submission v. (True, v)),
      ap_reportPlayback = (\<lambda>q v. (True, v))\<rparr>"

lemma exampleLists_keeps: "keeps_playlists (exampleLists ok) (\<lambda>v. v)"
  by (simp add: keeps_playlists_def exampleLists_def examplePlaylist_def comp_def)

definition exampleBackup :: "string \<Rightarrow> string list \<Rightarrow> playlist_backup" where
  "exampleBackup k songs = \<lparr>bk_id = k, bk_name = ''mix'', bk_songIds = songs, bk_timestamp = 7\<rparr>"

lemma example_fetched:
  "map (\<lambda>song. s_id (normalizeSong song sid None (\<lambda>_. None))) (nullish_or (sp_entry (examplePlaylist songs)) []) = songs"
  using fetched_ids [OF exampleLists_keeps, of _ "''p''" "\<lambda>_. songs" "examplePlaylist songs"]
  by (simp add: exampleLists_def)

lemma exampleLists_get: "ap_getPlaylist (exampleLists ok) k v = Reply (examplePlaylist (v k))"
  "ap_updatePlaylist (exampleLists ok) q v =
     (if ok q then (True, v(uq_playlistId q := updatedSongs q (v (uq_playlistId q)))) else (False, v))"
  by (simp_all add: exampleLists_def)

lemma examplePlaylist_name: "sp_name (examplePlaylist songs) = ''mix''"
  by (simp add: examplePlaylist_def)

lemma example_replace:
  "replacePlaylist (exampleLists ok) sid ''p'' [''c''] 7 (\<lambda>_. [''a'', ''b'']) (\<lambda>_. None) =
     (if \<not> ok ((emptyUpdate ''p'')\<lparr>uq_songIndexToRemove := Some (map decimal (rev [0..<2]))\<rparr>)
      then (Inl (Api ''Failed to remove songs from playlist''), \<lambda>_. [''a'', ''b''],
        [backupKey ''p'' \<mapsto> exampleBackup ''p'' [''a'', ''b'']])
      else if \<not> ok ((emptyUpdate ''p'')\<lparr>uq_songIdToAdd := Some [''c'']\<rparr>)
      then (Inl (Api ''Failed to add songs to playlist''), (\<lambda>_. [''a'', ''b''])(''p'' := []),
        [backupKey ''p'' \<mapsto> exampleBackup ''p'' [''a'', ''b'']])
      else (Inr (), (\<lambda>_. [''a'', ''b''])(''p'' := [''c'']), [backupKey ''p'' \<mapsto> exampleBackup ''p'' [''a'', ''b'']]))"
  using updatedSongs_all [where k = "''p''" and xs = "[''a'', ''b'']"]
    updatedSongs_none [where k = "''p''" and songs = "[''c'']" and xs = "[]"]
  by (simp add: replacePlaylist_def exampleLists_get example_fetched clearPlaylist_def fillPlaylist_def demand_def
      normalizePlaylist_def examplePlaylist_name Let_def exampleBackup_def numeral_2_eq_2 del: upt_Suc)

theorem replacePlaylist_replaces_witness:
  "let (r, v, idb) = replacePlaylist (exampleLists (\<lambda>_. True)) None ''p'' [''c''] 7 (\<lambda>_. [''a'', ''b'']) (\<lambda>_. None)
   in r = Inr () \<and> v ''p'' = [''c''] \<and> v ''q'' = [''a'', ''b'']
     \<and> map_option bk_songIds (idb (backupKey ''p'')) = Some [''a'', ''b'']"
proof -
  let ?v = "(\<lambda>_. [''a'', ''b''])(''p'' := [''c''])" and ?idb = "[backupKey ''p'' \<mapsto> exampleBackup ''p'' [''a'', ''b'']]"
  have ok_run: "replacePlaylist (exampleLists (\<lambda>_. True)) None ''p'' [''c''] 7 (\<lambda>_. [''a'', ''b'']) (\<lambda>_. None) =
      (Inr (), ?v, ?idb)" by (simp add: example_replace)
  show ?thesis using replacePlaylist_replaces [OF exampleLists_keeps ok_run] ok_run by simp
qed

text \<open>The server refuses to append songs, so that the playlist stays empty.\<close>

theorem failed_replace_loses_nothing_witness:
  "let (r, v, idb) = replacePlaylist (exampleLists (\<lambda>q. uq_songIdToAdd q = None)) None ''p'' [''c''] 7
        (\<lambda>_. [''a'', ''b'']) (\<lambda>_. None)
   in r = Inl (Api ''Failed to add songs to playlist'') \<and> v ''p'' = []
     \<and> map_option bk_songIds (idb (backupKey ''p'')) = Some [''a'', ''b'']"
proof -
  let ?v = "(\<lambda>_. [''a'', ''b''])(''p'' := [])" and ?idb = "[backupKey ''p'' \<mapsto> exampleBackup ''p'' [''a'', ''b'']]"
  have failed: "replacePlaylist (exampleLists (\<lambda>q. uq_songIdToAdd q = None)) None ''p'' [''c''] 7
      (\<lambda>_. [''a'', ''b'']) (\<lambda>_. None) = (Inl (Api ''Failed to add songs to playlist''), ?v, ?idb)"
    by (simp add: example_replace) (simp add: emptyUpdate_def)
  have "?v \<noteq> (\<lambda>_. [''a'', ''b''])" by (auto dest: fun_cong [where x = "''p''"])
  then show ?thesis using failed_replace_loses_nothing [OF exampleLists_keeps failed] failed by simp
qed

theorem set_and_replace_agree_witness:
  "snd (setPlaylistSongs (exampleLists (\<lambda>_. True)) ''p'' [''c''] (\<lambda>_. [''a'', ''b''])) =
     fst (snd (replacePlaylist (exampleLists (\<lambda>_. True)) None ''p'' [''c''] 7 (\<lambda>_. [''a'', ''b'']) (\<lambda>_. None)))"
proof -
  let ?v = "(\<lambda>_. [''a'', ''b''])(''p'' := [''c''])" and ?idb = "[backupKey ''p'' \<mapsto> exampleBackup ''p'' [''a'', ''b'']]"
  have ok_run: "replacePlaylist (exampleLists (\<lambda>_. True)) None ''p'' [''c''] 7 (\<lambda>_. [''a'', ''b'']) (\<lambda>_. None) =
      (Inr (), ?v, ?idb)" by (simp add: example_replace)
  have "fst (setPlaylistSongs (exampleLists (\<lambda>_. True)) ''p'' [''c''] (\<lambda>_. [''a'', ''b''])) = Inr ()"
    by (simp add: setPlaylistSongs_def exampleLists_def reply_or_def)
  from set_and_replace_agree [OF exampleLists_keeps ok_run prod_eqI, of "snd (setPlaylistSongs _ _ _ _)"] this
  show ?thesis by (simp add: ok_run)
qed

theorem events_are_reported_witness:
  "ssScrobble (logApi (\<lambda>state. state \<noteq> State_starting)) (Some (Some [REPORT_PLAYBACK \<mapsto> [1]]))
     \<lparr>sq_serverId = ''server'', sq_albumId = ''al'', sq_event = Some EV_start, sq_id = ''a'', sq_mediaType = ''song'',
      sq_playbackRate = 1, sq_position = 0, sq_submission = False\<rparr> [] =
     (Inl (Api ''Failed to report playback''),
      [(''a'', None), (''a'', Some State_starting), (''a'', Some State_playing)])"
  using events_are_reported [where server = "Some (Some [REPORT_PLAYBACK \<mapsto> [1]])"
      and ok = "\<lambda>state. state \<noteq> State_starting"
      and q = "\<lparr>sq_serverId = ''server'', sq_albumId = ''al'', sq_event = Some EV_start, sq_id = ''a'',
        sq_mediaType = ''song'', sq_playbackRate = 1, sq_position = 0, sq_submission = False\<rparr>"]
  by (simp add: hasFeature_def reportedStates_def)

theorem submission_is_one_request_witness:
  "\<exists>q. sq_submission q \<and> ssScrobble (logApi (\<lambda>_. True)) None q [] = (Inr (), [(sq_id q, None)])"
proof (intro exI conjI)
  let ?q = "\<lparr>sq_serverId = ''server'', sq_albumId = ''al'', sq_event = None, sq_id = ''a'', sq_mediaType = ''song'',
    sq_playbackRate = 1, sq_position = 0, sq_submission = True\<rparr>"
  show "sq_submission ?q" by simp
  then show "ssScrobble (logApi (\<lambda>_. True)) None ?q [] = (Inr (), [(sq_id ?q, None)])"
    using submission_is_one_request [of ?q "logApi (\<lambda>_. True)" None "[]"] by (simp add: demand_def logApi_scrobble)
qed

end
