(* ===== verification/SubsonicMedia.thy ===== *)
theory SubsonicMedia
  imports SubsonicChanges Lyrics
begin

text \<open>
  What is read from a Subsonic server beside the lists (\<^verbatim>\<open>api/subsonic/subsonic-controller.ts\<close>): addresses of
  streams, covers and downloads, lyrics, folders, details of items, search, similar and top songs, and
  the songs of a playlist. The server's answers are arguments.
\<close>

section \<open>Addresses\<close>

text \<open>A missing part of a template is written as \<open>undefined\<close>.\<close>

record stream_server =
  vs_url :: "string option"
  vs_credential :: "string option"
  vs_features :: "features option"

definition template :: "string option \<Rightarrow> string" where
  "template x = (case x of None \<Rightarrow> ''undefined'' | Some s \<Rightarrow> s)"

definition serverUrl :: "stream_server option \<Rightarrow> string" where
  "serverUrl server = template (Option.bind server vs_url)"

definition serverCredential :: "stream_server option \<Rightarrow> string" where
  "serverCredential server = template (Option.bind server vs_credential)"

definition appendTranscodeParams :: "string \<Rightarrow> string option \<Rightarrow> nat option \<Rightarrow> string" where
  "appendTranscodeParams url format bitrate =
     (let streamUrl = (if truthy format then url @ ''&format='' @ the format else url)
      in case bitrate of None \<Rightarrow> streamUrl | Some b \<Rightarrow> streamUrl @ ''&maxBitRate='' @ decimal b)"

text \<open>The encoding of the parameters is that of \<open>URLSearchParams\<close>, an argument.\<close>

definition buildGetTranscodeStreamUrl ::
    "((string \<times> string) list \<Rightarrow> string) \<Rightarrow> stream_server option \<Rightarrow> string \<Rightarrow> string \<Rightarrow> nat \<Rightarrow> string \<Rightarrow> string" where
  "buildGetTranscodeStreamUrl encode server mediaId mediaType offset transcodeParams =
     serverUrl server @ ''/rest/getTranscodeStream.view?''
       @ encode [(''c'', ''Feishin''), (''mediaId'', mediaId), (''mediaType'', mediaType), (''offset'', decimal offset),
           (''transcodeParams'', transcodeParams), (''v'', ''1.13.0'')]
       @ ''&'' @ serverCredential server"

record stream_query =
  gq_bitrate :: "nat option"
  gq_format :: "string option"
  gq_id :: string
  gq_mediaType :: "string option"
  gq_skipAutoTranscode :: bool
  gq_transcode :: bool

record transcode_decision =
  td_canDirectPlay :: bool
  td_transcodeParams :: "string option"

definition streamUrlOf :: "stream_server option \<Rightarrow> string \<Rightarrow> string" where
  "streamUrlOf server k =
     serverUrl server @ ''/rest/stream.view?id='' @ k @ ''&v=1.13.0&c=Feishin&'' @ serverCredential server"

text \<open>The decision is asked for a song and a type of media; a reply without one is read all the same.\<close>

definition getStreamUrl ::
    "((string \<times> string) list \<Rightarrow> string) \<Rightarrow> (string \<Rightarrow> string \<Rightarrow> transcode_decision option reply) \<Rightarrow> stream_server option
      \<Rightarrow> stream_query \<Rightarrow> api_error + string" where
  "getStreamUrl encode decide server q =
     (let streamUrl = streamUrlOf server (gq_id q); mediaType = nullish_or (gq_mediaType q) ''song''
      in if gq_transcode q then Inr (appendTranscodeParams streamUrl (gq_format q) (gq_bitrate q))
         else if gq_skipAutoTranscode q then Inr streamUrl
         else if hasFeature (map_option vs_features server) OS_TRANSCODE_DECISION then
           (case decide (gq_id q) mediaType of
              Refused \<Rightarrow> Inr streamUrl
            | Reply None \<Rightarrow> Inl Type_error
            | Reply (Some td) \<Rightarrow>
                if td_canDirectPlay td then Inr streamUrl
                else if \<not> truthy (td_transcodeParams td)
                then Inr (appendTranscodeParams streamUrl (gq_format q) (gq_bitrate q))
                else Inr (buildGetTranscodeStreamUrl encode server (gq_id q) mediaType 0 (the (td_transcodeParams td))))
         else Inr streamUrl)"

definition getDownloadUrl :: "stream_server option \<Rightarrow> string \<Rightarrow> string" where
  "getDownloadUrl server k =
     serverUrl server @ ''/rest/download.view'' @ ''?id='' @ k @ ''&'' @ serverCredential server @ ''&v=1.13.0'' @ ''&c=Feishin''"

text \<open>The address of a server: the remote one where it is preferred or asked for, and known.\<close>

record url_server =
  ur_id :: string
  ur_credential :: "string option"
  ur_preferRemoteUrl :: bool
  ur_remoteUrl :: "string option"
  ur_url :: string

definition normalizeServerUrl :: "string \<Rightarrow> string" where
  "normalizeServerUrl url = (if url \<noteq> [] \<and> last url = CHR ''/'' then butlast url else url)"

definition getServerUrl :: "url_server option \<Rightarrow> bool \<Rightarrow> string option" where
  "getServerUrl server forceRemoteUrl =
     (case server of
        None \<Rightarrow> None
      | Some s \<Rightarrow>
          if \<not> forceRemoteUrl \<and> \<not> ur_preferRemoteUrl s then Some (ur_url s)
          else if \<not> truthy (ur_remoteUrl s) then Some (ur_url s) else ur_remoteUrl s)"

definition placeholderImage :: string where
  "placeholderImage = ''2a96cbd8b46e442fc41c2b86b821562f''"

text \<open>The key for the cache and the url of an image; the placeholder has none. A size of zero counts as none.\<close>

definition getSubsonicImageRequest ::
    "string option \<Rightarrow> url_server option \<Rightarrow> string \<Rightarrow> nat option \<Rightarrow> (string \<times> string) option" where
  "getSubsonicImageRequest baseUrl server k size0 =
     (let url = (if truthy baseUrl then baseUrl else getServerUrl server False);
          credential = Option.bind server ur_credential;
          imageSize = (if nullish_or size0 0 = 0 then '''' else decimal (the size0))
      in if \<not> truthy url \<or> \<not> truthy credential \<or> isInfix placeholderImage k then None
         else Some (''subsonic:'' @ ur_id (the server) @ '':'' @ text_or baseUrl '''' @ '':'' @ k @ '':'' @ imageSize,
           the url @ ''/rest/getCoverArt.view'' @ ''?id='' @ k @ ''&'' @ the credential @ ''&v=1.13.0'' @ ''&c=Feishin''
             @ (if imageSize = '''' then '''' else ''&size='' @ imageSize)))"

section \<open>Lyrics\<close>

record ss_lyric =
  ly_displayArtist :: "string option"
  ly_displayTitle :: "string option"
  ly_lang :: string
  ly_line :: "(int option \<times> string) list"
  ly_synced :: bool

text \<open>A line without a start has the time undefined, which is no number.\<close>

definition lineTime :: "int option \<Rightarrow> jsnum" where
  "lineTime start = (case start of None \<Rightarrow> NaN | Some t \<Rightarrow> Num t)"

definition joinLines :: "string list \<Rightarrow> string" where
  "joinLines ls = (case ls of [] \<Rightarrow> '''' | l # rest \<Rightarrow> l @ concat (map (\<lambda>x. CHR 0x0A # x) rest))"

definition structuredOf :: "string option \<Rightarrow> ss_lyric \<Rightarrow> structured_lyric" where
  "structuredOf serverName lyric =
     \<lparr>fl_artist = Some (text_or (ly_displayArtist lyric) ''''),
      fl_lyrics = (if ly_synced lyric then Synced (map (\<lambda>(start, line). (lineTime start, line)) (ly_line lyric))
        else Unsynced (joinLines (map snd (ly_line lyric)))),
      fl_name = text_or (ly_displayTitle lyric) '''', fl_offsetMs = None, fl_remote = False,
      fl_source = text_or serverName ''music server'', sy_lang = ly_lang lyric, sy_synced = ly_synced lyric\<rparr>"

definition getStructuredLyrics ::
    "ss_lyric list option reply \<Rightarrow> string option \<Rightarrow> api_error + structured_lyric list" where
  "getStructuredLyrics res serverName =
     reply_or ''Failed to get structured lyrics'' res (\<lambda>lyrics.
       Inr (case lyrics of None \<Rightarrow> [] | Some ls \<Rightarrow> map (structuredOf serverName) ls))"

section \<open>Songs\<close>

definition songPage :: "full_song list \<Rightarrow> full_song page" where
  "songPage songs = \<lparr>pg_items = songs, pg_startIndex = 0, pg_totalRecordCount = Some (length songs)\<rparr>"

text \<open>The songs of a playlist carry their positions as item ids.\<close>

definition getPlaylistSongList ::
    "'v ss_api \<Rightarrow> string option \<Rightarrow> string \<Rightarrow> 'v \<Rightarrow> api_error + full_song page" where
  "getPlaylistSongList A serverId k v =
     reply_or ''Failed to get playlist song list'' (ap_getPlaylist A k v) (\<lambda>p.
       Inr (songPage (map (\<lambda>(i, song). normalizeSong song serverId (Some i) (\<lambda>_. None))
         (enumerate 0 (nullish_or (sp_entry p) [])))))"

definition getPlaylistDetail :: "'v ss_api \<Rightarrow> string option \<Rightarrow> string \<Rightarrow> 'v \<Rightarrow> api_error + playlist" where
  "getPlaylistDetail A serverId k v =
     reply_or ''Failed to get playlist detail'' (ap_getPlaylist A k v) (\<lambda>p. Inr (normalizePlaylist p serverId))"

definition getRandomSongList :: "ss_client \<Rightarrow> ss_song list option reply \<Rightarrow> api_error + full_song page" where
  "getRandomSongList C res =
     reply_or ''Failed to get random songs'' res (\<lambda>songs. Inr (songPage (map (songOf C) (nullish_or songs []))))"

text \<open>The song itself is left out when its id is given as a text.\<close>

definition getSimilarSongs :: "ss_client \<Rightarrow> string \<Rightarrow> ss_song list option reply \<Rightarrow> api_error + full_song list" where
  "getSimilarSongs C songId res =
     reply_or ''Failed to get similar songs'' res (\<lambda>songs.
       Inr (map (songOf C) (filter (\<lambda>song. ss_songId song \<noteq> Id_str songId) (nullish_or songs []))))"

definition getArtistRadio :: "ss_client \<Rightarrow> ss_song list option reply \<Rightarrow> api_error + full_song list" where
  "getArtistRadio C res =
     reply_or ''Failed to get artist radio songs'' res (\<lambda>songs. Inr (map (songOf C) (nullish_or songs [])))"

definition getAlbumRadio :: "ss_client \<Rightarrow> ss_song list option reply \<Rightarrow> api_error + full_song list" where
  "getAlbumRadio C res =
     reply_or ''Failed to get album radio songs'' res (\<lambda>songs. Inr (map (songOf C) (nullish_or songs [])))"

definition getSongDetail :: "ss_client \<Rightarrow> ss_song reply \<Rightarrow> api_error + full_song" where
  "getSongDetail C res = reply_or ''Failed to get song detail'' res (\<lambda>song. Inr (songOf C song))"

text \<open>The personal top songs are those of the artist that were played; the total is that of all of them.\<close>

definition playedSongs :: "ss_client \<Rightarrow> full_song list \<Rightarrow> full_song list" where
  "playedSongs C songs =
     cl_songs C [\<lambda>v. Key_num (of_int (s_playCount v)), \<lambda>v. Key_text (s_albumId v), trackKey] [True, False, False]
       (filter (\<lambda>song. s_playCount song > 0) songs)"

definition artistSongsQuery :: "string \<Rightarrow> song_query" where
  "artistSongsQuery artistId =
     \<lparr>lq_limit = None, lq_musicFolderId = None, lq_searchTerm = None, lq_sortOrder = DESC, lq_startIndex = 0,
      lq_favorite = False, sq_albumArtistIds = None, sq_albumIds = None, sq_artistIds = Some [artistId],
      sq_genreIds = None, sq_sortBy = Song_PLAY_COUNT\<rparr>"

definition getTopSongs ::
    "ss_server \<Rightarrow> ss_client \<Rightarrow> bool \<Rightarrow> string \<Rightarrow> ss_song list option reply \<Rightarrow> api_error + full_song page" where
  "getTopSongs S C personal artistId res =
     (if \<not> personal then
        reply_or ''Failed to get top songs'' res (\<lambda>songs. Inr (songPage (map (songOf C) (nullish_or songs []))))
      else case getSongList S C (artistSongsQuery artistId) of
        Inl e \<Rightarrow> Inl e
      | Inr p \<Rightarrow> Inr (p\<lparr>pg_items := playedSongs C (pg_items p), pg_startIndex := 0\<rparr>))"

section \<open>Search, details and roles\<close>

text \<open>What is found: artists, albums and songs.\<close>

definition ssSearch ::
    "ss_client \<Rightarrow> (ss_artistEntry list option \<times> ss_albumEntry list option \<times> ss_song list option) option reply
      \<Rightarrow> api_error + album_artist list \<times> album list \<times> full_song list" where
  "ssSearch C res =
     reply_or ''Failed to search'' res (\<lambda>found.
       (let (artists, albums, songs) = nullish_or found (None, None, None)
        in Inr (map (\<lambda>a. normalizeAlbumArtist a (cl_serverId C)) (nullish_or artists []),
                map (albumOf C) (nullish_or albums []), map (songOf C) (nullish_or songs []))))"

definition getAlbumDetail :: "ss_client \<Rightarrow> ss_albumEntry reply \<Rightarrow> api_error + album" where
  "getAlbumDetail C res = reply_or ''Failed to get album detail'' res (\<lambda>item. Inr (albumOf C item))"

text \<open>The detail of an artist comes with its albums, and with no similar artists.\<close>

definition getAlbumArtistDetail ::
    "ss_client \<Rightarrow> ss_artistEntry reply \<Rightarrow> api_error + album_artist \<times> album list option" where
  "getAlbumArtistDetail C res =
     reply_or ''Failed to get album artist detail'' res (\<lambda>artist.
       Inr ((normalizeAlbumArtist artist (cl_serverId C))\<lparr>ar_similarArtists := []\<rparr>,
            map_option (map (albumOf C)) (st_album artist)))"

record similar_entry =
  se_id :: string
  se_coverArt :: "string option"
  se_name :: string
  se_starred :: "string option"
  se_userRating :: "rat option"

record similar_artist =
  sm_id :: string
  sm_imageId :: string
  sm_name :: string
  sm_userFavorite :: bool
  sm_userRating :: "rat option"

text \<open>The biography and the similar artists; a refused request has no result but does not throw.\<close>

definition getAlbumArtistInfo ::
    "(string option \<times> similar_entry list option) option reply \<Rightarrow> (string option \<times> similar_artist list option) option" where
  "getAlbumArtistInfo res =
     (case res of
        Refused \<Rightarrow> None
      | Reply info \<Rightarrow>
          Some (text_or_null (Option.bind info fst),
            map_option (map (\<lambda>artist. \<lparr>sm_id = se_id artist, sm_imageId = nullish_or (se_coverArt artist) (se_id artist),
                sm_name = se_name artist, sm_userFavorite = truthy (se_starred artist), sm_userRating = se_userRating artist\<rparr>))
              (Option.bind info snd)))"

text \<open>The roles of the artists, sorted by the comparison that is an argument, after the entry for all of them.\<close>

definition getRoles ::
    "(string list \<Rightarrow> string list) \<Rightarrow> ss_artistEntry list list option reply \<Rightarrow> api_error + (string \<times> string) list" where
  "getRoles sorted_texts res =
     reply_or ''Failed to get artist list'' res (\<lambda>indexes.
       (let roles = remdups (concat (map (\<lambda>a. nullish_or (st_roles a) []) (concat (nullish_or indexes []))))
        in Inr ((''all artists'', '''') # map (\<lambda>r. (r, r)) (sorted_texts roles))))"

definition getInternetRadioStations :: "ss_station list option reply \<Rightarrow> api_error + radio_station list" where
  "getInternetRadioStations res =
     reply_or ''Failed to get internet radio stations'' res (\<lambda>stations.
       Inr (map normalizeInternetRadioStation (nullish_or stations [])))"

definition getMusicFolderList :: "(ss_id \<times> string) list reply \<Rightarrow> api_error + (string \<times> string) page" where
  "getMusicFolderList res =
     reply_or ''Failed to get music folder list'' res (\<lambda>folders.
       Inr \<lparr>pg_items = map (\<lambda>(k, n). (idString k, n)) folders, pg_startIndex = 0,
            pg_totalRecordCount = Some (length folders)\<rparr>)"

text \<open>The id, whether the user is an administrator, and the name.\<close>

definition getUserInfo :: "(bool option \<times> string) reply \<Rightarrow> api_error + string \<times> bool \<times> string" where
  "getUserInfo res =
     reply_or ''Failed to get user info'' res (\<lambda>(admin, username). Inr (username, nullish_or admin False, username))"

section \<open>Logging in\<close>

record auth_body =
  au_legacy :: bool
  au_password :: string
  au_username :: string

text \<open>Encoding of components, the hash, and the random salt are arguments.\<close>

definition cleanServerUrl :: "string \<Rightarrow> string" where
  "cleanServerUrl url = (if url \<noteq> [] \<and> last url = CHR ''/'' then butlast url else url) @ ''/rest''"

definition credentialOf :: "(string \<Rightarrow> string) \<Rightarrow> (string \<Rightarrow> string) \<Rightarrow> string \<Rightarrow> auth_body \<Rightarrow> string" where
  "credentialOf enc md5 salt body =
     (if au_legacy body then ''u='' @ enc (au_username body) @ ''&p='' @ enc (au_password body)
      else ''u='' @ enc (au_username body) @ ''&s='' @ enc salt @ ''&t='' @ enc (md5 (au_password body @ salt)))"

text \<open>The parameters of the request: password, or salt and token, with the user.\<close>

definition credentialParams :: "(string \<Rightarrow> string) \<Rightarrow> string \<Rightarrow> auth_body \<Rightarrow> (string \<times> string) list" where
  "credentialParams md5 salt body =
     (if au_legacy body then [(''p'', au_password body), (''u'', au_username body)]
      else [(''s'', salt), (''t'', md5 (au_password body @ salt)), (''u'', au_username body)])"

definition authenticate ::
    "(string \<Rightarrow> string) \<Rightarrow> (string \<Rightarrow> string) \<Rightarrow> string
      \<Rightarrow> (string \<Rightarrow> (string \<times> string) list \<Rightarrow> (bool option \<times> string) reply) \<Rightarrow> string \<Rightarrow> auth_body
      \<Rightarrow> api_error + string \<times> bool \<times> string \<times> string" where
  "authenticate enc md5 salt request url body =
     reply_or ''Failed to log in''
       (request (cleanServerUrl url)
         ([(''c'', ''Feishin''), (''f'', ''json''), (''username'', au_username body), (''v'', ''1.13.0'')]
            @ credentialParams md5 salt body))
       (\<lambda>(admin, username). Inr (credentialOf enc md5 salt body, nullish_or admin False, username, au_username body))"

section \<open>Folders\<close>

record folder_query =
  fq_id :: string
  fq_musicFolderId :: "folder_ids option"
  fq_searchTerm :: "string option"
  fq_sortBy :: "SongListSort option"
  fq_sortOrder :: "SortOrder option"

text \<open>An artist of the indexes counts as a directory: its id, name and cover.\<close>

type_synonym index_artist = "ss_id \<times> string \<times> string option"

text \<open>A folder is answered with its subfolders and songs, its id, name and the id of its parent.\<close>

record folder_listing =
  fd_serverId :: string
  fd_folders :: "media_folder list"
  fd_songs :: "full_song list"
  fd_id :: string
  fd_imageId :: "string option"
  fd_name :: string
  fd_parentId :: "string option"

text \<open>\<open>x.toLowerCase().includes(term)\<close> for a name, and for the texts of a song.\<close>

definition nameMatches :: "ss_client \<Rightarrow> string \<Rightarrow> string \<Rightarrow> bool" where
  "nameMatches C term0 name = isInfix (lo_lower (cl_sort C) term0) (lo_lower (cl_sort C) name)"

definition listedSongMatches :: "ss_client \<Rightarrow> string \<Rightarrow> full_song \<Rightarrow> bool" where
  "listedSongMatches C term0 s =
     (nameMatches C term0 (s_name s)
      \<or> isInfix (lo_lower (cl_sort C) term0) (text_or (map_option (lo_lower (cl_sort C)) (so_album s)) '''')
      \<or> nameMatches C term0 (s_artistName s))"

definition sortFolders :: "ss_client \<Rightarrow> media_folder order_by \<Rightarrow> SortOrder option \<Rightarrow> media_folder list \<Rightarrow> media_folder list" where
  "sortFolders C orderFolders sortOrder folders =
     orderFolders [\<lambda>v. Key_text (lo_lower (cl_sort C) (fo_name v))] [sortOrder = Some DESC] folders"

definition rootFolder ::
    "ss_client \<Rightarrow> media_folder order_by \<Rightarrow> folder_query \<Rightarrow> index_artist list list option \<Rightarrow> folder_listing" where
  "rootFolder C orderFolders q found_artists =
     (let items = concat (nullish_or found_artists []);
          found = (if truthy (fq_searchTerm q)
            then filter (\<lambda>(k, name, cover). nameMatches C (the (fq_searchTerm q)) name) items else items);
          folders = map (\<lambda>(k, name, cover).
            normalizeFolder (Directory (Id_str (idString k)) name None cover None) (cl_serverId C)) found
      in \<lparr>fd_serverId = serverIdOf (cl_serverId C), fd_folders = sortFolders C orderFolders (fq_sortOrder q) folders,
          fd_songs = [], fd_id = fq_id q, fd_imageId = None, fd_name = ''~'', fd_parentId = None\<rparr>)"

definition listedFolder ::
    "ss_client \<Rightarrow> media_folder order_by \<Rightarrow> folder_query \<Rightarrow> media_folder \<Rightarrow> folder_listing" where
  "listedFolder C orderFolders q folder =
     (let search = truthy (fq_searchTerm q);
          folders = (if search then filter (\<lambda>f. nameMatches C (the (fq_searchTerm q)) (fo_name f)) (fo_folders folder)
            else fo_folders folder);
          songs = (if search then filter (listedSongMatches C (the (fq_searchTerm q))) (fo_songs folder) else fo_songs folder)
      in \<lparr>fd_serverId = fo_serverId folder, fd_folders = sortFolders C orderFolders (fq_sortOrder q) folders,
          fd_songs = (if length songs > 0
            then songSort C (nullish_or (fq_sortBy q) Song_NAME) (nullish_or (fq_sortOrder q) ASC) songs else songs),
          fd_id = fo_id folder, fd_imageId = fo_imageId folder, fd_name = fo_name folder,
          fd_parentId = fo_parentId folder\<rparr>)"

text \<open>The refusal of the root is reported with the body of the answer.\<close>

definition getFolder ::
    "ss_client \<Rightarrow> media_folder order_by \<Rightarrow> (string option \<Rightarrow> index_artist list list option reply)
      \<Rightarrow> (string \<Rightarrow> ss_directory reply) \<Rightarrow> string \<Rightarrow> folder_query \<Rightarrow> api_error + folder_listing" where
  "getFolder C orderFolders getIndexes getMusicDirectory refusedBody q =
     (if fq_id q = ''0'' then
        reply_or (''Failed to get folder list: '' @ refusedBody) (getIndexes (getLibraryId (fq_musicFolderId q)))
          (\<lambda>indexes. Inr (rootFolder C orderFolders q indexes))
      else
        reply_or ''Failed to get folder'' (getMusicDirectory (fq_id q))
          (\<lambda>d. Inr (listedFolder C orderFolders q (normalizeFolder d (cl_serverId C)))))"

section \<open>Removing songs by their item ids\<close>

lemma decimal_inj: "decimal m = decimal n \<Longrightarrow> m = n"
  using numberOf_decimal by metis

lemma playlist_items:
  assumes "keeps_playlists A songsOf" and "getPlaylistSongList A sid k v = Inr page"
  shows "map s_id (pg_items page) = songsOf v k"
    and "map s_playlistItemId (pg_items page) = map (\<lambda>i. Some (decimal i)) [0..<length (songsOf v k)]"
    and "pg_totalRecordCount page = Some (length (songsOf v k))"
proof -
  obtain p where p: "ap_getPlaylist A k v = Reply p"
    "page = songPage (map (\<lambda>(i, song). normalizeSong song sid (Some i) (\<lambda>_. None)) (enumerate 0 (nullish_or (sp_entry p) [])))"
    using assms(2) by (cases "ap_getPlaylist A k v") (auto simp: getPlaylistSongList_def reply_or_def)
  let ?es = "nullish_or (sp_entry p) []"
  note ids = keeps_get [OF assms(1) p(1)]
  have "s_id (normalizeSong e sid i (\<lambda>_. None)) = idString (ss_songId e)"
    "s_playlistItemId (normalizeSong e sid i (\<lambda>_. None)) = map_option decimal i" for e i
    by (simp_all add: normalizeSong_def Let_def)
  then have items: "map s_id (pg_items page) = map (\<lambda>x. idString (ss_songId (snd x))) (enumerate 0 ?es)"
    "map s_playlistItemId (pg_items page) = map (\<lambda>x. Some (decimal (fst x))) (enumerate 0 ?es)"
    by (simp_all add: p(2) songPage_def case_prod_beta)
  have "map (\<lambda>x. idString (ss_songId (snd x))) (enumerate 0 ?es) = map (\<lambda>e. idString (ss_songId e)) (map snd (enumerate 0 ?es))"
    unfolding map_map comp_def ..
  then show "map s_id (pg_items page) = songsOf v k" unfolding items using ids by simp
  have "map (\<lambda>x. Some (decimal (fst x))) (enumerate 0 ?es) = map (\<lambda>i. Some (decimal i)) (map fst (enumerate 0 ?es))"
    unfolding map_map comp_def ..
  moreover have "length ?es = length (songsOf v k)" using ids by (metis length_map)
  ultimately show "map s_playlistItemId (pg_items page) = map (\<lambda>i. Some (decimal i)) [0..<length (songsOf v k)]"
    unfolding items by simp
  show "pg_totalRecordCount page = Some (length (songsOf v k))"
    using \<open>length ?es = length (songsOf v k)\<close> by (simp add: p(2) songPage_def)
qed

text \<open>
  The item ids with which the songs of a playlist are shown are those by which they are removed: whichever of
  the listed songs are removed by their item ids, the playlist keeps exactly the others, in their order, also when it
  holds a song several times.
\<close>

theorem listed_songs_are_removed:
  assumes "keeps_playlists A songsOf" and "getPlaylistSongList A sid k v = Inr page"
    and "list_all (\<lambda>i. i < length (pg_items page)) chosen"
    and "removeFromPlaylist A k (map (\<lambda>i. the (s_playlistItemId (pg_items page ! i))) chosen) v = (Inr (), v')"
  shows "songsOf v' = (songsOf v)(k := map (\<lambda>i. s_id (pg_items page ! i))
    (filter (\<lambda>i. i \<notin> set chosen) [0..<length (pg_items page)]))"
proof -
  note items = playlist_items [OF assms(1,2)]
  have len: "length (pg_items page) = length (songsOf v k)" using items(1) by (metis length_map)
  have item: "s_playlistItemId (pg_items page ! i) = Some (decimal i)" "s_id (pg_items page ! i) = songsOf v k ! i"
    if "i < length (songsOf v k)" for i
    using arg_cong [OF items(2), of "\<lambda>xs. xs ! i"] arg_cong [OF items(1), of "\<lambda>xs. xs ! i"] that len by simp_all
  let ?ids = "map (\<lambda>i. the (s_playlistItemId (pg_items page ! i))) chosen"
  have ids: "?ids = map decimal chosen" using assms(3) item(1) len by (auto simp: list_all_iff)
  let ?q = "(emptyUpdate k)\<lparr>uq_songIndexToRemove := Some ?ids\<rparr>"
  have "songsOf v' = (songsOf v)(k := updatedSongs ?q (songsOf v k))"
    using keeps_update [OF assms(1), of ?q v] assms(4)
    by (auto simp: removeFromPlaylist_def demand_def split: if_splits)
  moreover have "updatedSongs ?q (songsOf v k) =
      map (\<lambda>i. songsOf v k ! i) (filter (\<lambda>i. i \<notin> set chosen) [0..<length (songsOf v k)])"
  proof -
    have mem: "decimal j \<in> set ?ids \<longleftrightarrow> j \<in> set chosen" for j unfolding ids using decimal_inj by auto
    have q: "nullish_or (uq_songIndexToRemove ?q) [] = ?ids" "nullish_or (uq_songIdToAdd ?q) [] = []"
      by (simp_all add: emptyUpdate_def)
    have "updatedSongs ?q (songsOf v k) = map snd (filter (\<lambda>(j, x). j \<notin> set chosen) (enumerate 0 (songsOf v k)))"
      unfolding updatedSongs_def q mem by (rule append_Nil2)
    also have "enumerate 0 (songsOf v k) = map (\<lambda>i. (i, songsOf v k ! i)) [0..<length (songsOf v k)]"
      by (intro nth_equalityI) (simp_all add: nth_enumerate_eq)
    finally show ?thesis by (simp add: filter_map comp_def)
  qed
  ultimately show ?thesis using item(2) len by (auto cong: map_cong)
qed

section \<open>Listing a folder, top songs and streams\<close>

lemma mset_songSort:
  "ordersBy cmp (cl_songs C) \<Longrightarrow> \<forall>xs. mset (cl_shuffleSongs C xs) = mset xs \<Longrightarrow>
     mset (songSort C sortBy sortOrder songs) = mset songs"
  by (simp add: songSort_def mset_sortSongList)

text \<open>
  The listing of a folder holds, in some order, exactly the subfolders and the songs directly inside of it that match the
  search, and its songs are well formed.
\<close>

theorem folder_listing_shows_matches:
  assumes "ordersBy cmp orderFolders" and "ordersBy cmp (cl_songs C)" and "\<forall>xs. mset (cl_shuffleSongs C xs) = mset xs"
    and "fq_id q \<noteq> ''0''" and "getMusicDirectory (fq_id q) = Reply d"
    and "getFolder C orderFolders getIndexes getMusicDirectory refusedBody q = Inr listing"
  shows "mset (fd_folders listing) =
      filter_mset (\<lambda>f. truthy (fq_searchTerm q) \<longrightarrow> nameMatches C (the (fq_searchTerm q)) (fo_name f))
        (mset (fo_folders (normalizeFolder d (cl_serverId C))))
    \<and> mset (fd_songs listing) =
      filter_mset (\<lambda>s. truthy (fq_searchTerm q) \<longrightarrow> listedSongMatches C (the (fq_searchTerm q)) s)
        (mset (fo_songs (normalizeFolder d (cl_serverId C))))
    \<and> list_all song_ok (fd_songs listing)"
proof -
  let ?f = "normalizeFolder d (cl_serverId C)"
  have l: "listing = listedFolder C orderFolders q ?f"
    using assms(4-6) by (simp add: getFolder_def reply_or_def)
  have folders: "mset (sortFolders C orderFolders ord fs) = mset fs" for ord fs
    by (simp add: sortFolders_def mset_ordersBy [OF assms(1)])
  note songs = mset_songSort [OF assms(2,3)]
  have shown: "mset (fd_songs listing) = filter_mset (\<lambda>s. truthy (fq_searchTerm q) \<longrightarrow>
      listedSongMatches C (the (fq_searchTerm q)) s) (mset (fo_songs ?f))"
    unfolding l by (cases "truthy (fq_searchTerm q)") (auto simp: listedFolder_def songs Let_def filter_empty_conv)
  moreover have "mset (fd_folders listing) = filter_mset (\<lambda>f. truthy (fq_searchTerm q) \<longrightarrow>
      nameMatches C (the (fq_searchTerm q)) (fo_name f)) (mset (fo_folders ?f))"
    unfolding l by (cases "truthy (fq_searchTerm q)") (simp_all add: listedFolder_def folders Let_def)
  moreover have "list_all song_ok (fo_songs ?f)"
    using normalizeFolder_ok [of d "cl_serverId C"] by (cases ?f) simp
  then have "list_all song_ok (fd_songs listing)"
    using arg_cong [OF shown, of set_mset] by (auto simp: list_all_iff)
  ultimately show ?thesis by blast
qed

text \<open>
  A flaw of the personal top songs: they are the songs of the artist that were played, but the total that is returned
  with them counts all of its songs.
\<close>

theorem top_songs_total_counts_unplayed:
  assumes "ordersBy cmp (cl_songs C)" and "getSongList S C (artistSongsQuery artistId) = Inr p"
  shows "\<exists>t. getTopSongs S C True artistId res = Inr t
    \<and> mset (pg_items t) = filter_mset (\<lambda>song. s_playCount song > 0) (mset (pg_items p))
    \<and> pg_totalRecordCount t = pg_totalRecordCount p"
  using assms by (simp add: getTopSongs_def playedSongs_def mset_ordersBy)

text \<open>
  A stream can always be started, whether or not the server can tell how: without an explicit wish to transcode a
  refused or positive decision leads to the stream itself, and the parameters of the server are used as they are.
\<close>

theorem stream_url_decision:
  assumes "\<not> gq_transcode q" and "\<And>k m. decide k m \<noteq> Reply None"
  shows "getStreamUrl encode decide server q =
    (case decide (gq_id q) (nullish_or (gq_mediaType q) ''song'') of
       Reply (Some td) \<Rightarrow>
         if gq_skipAutoTranscode q \<or> \<not> hasFeature (map_option vs_features server) OS_TRANSCODE_DECISION \<or> td_canDirectPlay td
         then Inr (streamUrlOf server (gq_id q))
         else if truthy (td_transcodeParams td)
         then Inr (buildGetTranscodeStreamUrl encode server (gq_id q) (nullish_or (gq_mediaType q) ''song'') 0
           (the (td_transcodeParams td)))
         else getStreamUrl encode decide server (q\<lparr>gq_transcode := True\<rparr>)
     | _ \<Rightarrow> Inr (streamUrlOf server (gq_id q)))"
  using assms by (auto simp: getStreamUrl_def Let_def split: reply.split option.split)

section \<open>Examples\<close>

lemma example_digits: "decimal 0 = ''0''" "decimal 1 = ''1''" "decimal 2 = ''2''"
  by code_simp+

lemma example_listing:
  obtains page where "getPlaylistSongList (exampleLists (\<lambda>_. True)) None ''p'' (\<lambda>_. [''a'', ''b'', ''a'']) = Inr page"
    "length (pg_items page) = 3" "s_id (pg_items page ! 0) = ''a''" "s_id (pg_items page ! 2) = ''a''"
    "s_playlistItemId (pg_items page ! 1) = Some ''1''"
proof -
  let ?v = "\<lambda>_ :: string. [''a'', ''b'', ''a'']" and ?A = "exampleLists (\<lambda>_. True)"
  obtain page where page: "getPlaylistSongList ?A None ''p'' ?v = Inr page"
    by (simp add: getPlaylistSongList_def exampleLists_get reply_or_def)
  note items = playlist_items [OF exampleLists_keeps page]
  have len: "length (pg_items page) = 3" using arg_cong [OF items(1), of length] by simp
  have "map s_playlistItemId (pg_items page) ! 1 = Some ''1''" unfolding items(2) by (simp add: example_digits(2) [simplified])
  moreover have "map s_id (pg_items page) ! 0 = ''a''" "map s_id (pg_items page) ! 2 = ''a''"
    unfolding items(1) by simp_all
  ultimately show ?thesis using page len by (intro that [of page]) simp_all
qed

theorem listed_songs_are_removed_witness:
  "snd (removeFromPlaylist (exampleLists (\<lambda>_. True)) ''p'' [''1''] (\<lambda>_. [''a'', ''b'', ''a''])) =
     (\<lambda>_. [''a'', ''b'', ''a''])(''p'' := [''a'', ''a''])"
proof -
  let ?v = "\<lambda>_ :: string. [''a'', ''b'', ''a'']" and ?A = "exampleLists (\<lambda>_. True)"
  from example_listing obtain page where page: "getPlaylistSongList ?A None ''p'' ?v = Inr page"
    "length (pg_items page) = 3" "s_id (pg_items page ! 0) = ''a''" "s_id (pg_items page ! 2) = ''a''"
    "s_playlistItemId (pg_items page ! 1) = Some ''1''" .
  have "removeFromPlaylist ?A ''p'' [''1''] ?v = (Inr (), snd (removeFromPlaylist ?A ''p'' [''1''] ?v))"
    by (simp add: removeFromPlaylist_def exampleLists_get demand_def)
  then have "snd (removeFromPlaylist ?A ''p'' [''1''] ?v) =
      ?v(''p'' := map (\<lambda>i. s_id (pg_items page ! i)) (filter (\<lambda>i. i \<notin> set [1]) [0..<length (pg_items page)]))"
    by (intro listed_songs_are_removed [OF exampleLists_keeps page(1)]) (simp_all add: page(2) page(5) [simplified])
  also have "filter (\<lambda>i. i \<notin> set [1]) [0..<length (pg_items page)] = [0, 2]"
    unfolding page(2) by code_simp
  finally show ?thesis by (simp add: page(3,4) fun_upd_def)
qed

text \<open>A folder with one matching song and one that does not match.\<close>

definition exampleDirectory :: ss_directory where
  "exampleDirectory = Directory (Id_str ''d'') ''Beatles'' None None
     (Some [Child_song (exampleRaw 1), Child_song ((exampleRaw 2)\<lparr>ss_title := ''Yesterday'', ss_album := Some ''X''\<rparr>)])"

definition exampleFolderQuery :: folder_query where
  "exampleFolderQuery = \<lparr>fq_id = ''d'', fq_musicFolderId = None, fq_searchTerm = Some ''Yes'', fq_sortBy = None,
     fq_sortOrder = None\<rparr>"

theorem folder_listing_shows_matches_witness:
  "\<exists>listing. getFolder exampleClient libraryOrderBy (\<lambda>_. Refused) (\<lambda>_. Reply exampleDirectory) '''' exampleFolderQuery =
      Inr listing
    \<and> list_all song_ok (fd_songs listing)"
proof -
  obtain listing where l: "getFolder exampleClient libraryOrderBy (\<lambda>_. Refused) (\<lambda>_. Reply exampleDirectory) ''''
      exampleFolderQuery = Inr listing"
    by (simp add: getFolder_def reply_or_def exampleFolderQuery_def)
  have "ordersBy numberCmp (cl_songs exampleClient)" "\<forall>xs. mset (cl_shuffleSongs exampleClient xs) = mset xs"
    "fq_id exampleFolderQuery \<noteq> ''0''"
    by (simp_all add: exampleClient_def libraryOrderBy exampleFolderQuery_def)
  with folder_listing_shows_matches [OF libraryOrderBy _ _ _ _ l, of exampleDirectory] l show ?thesis by simp
qed

end
