(* ===== verification/JellyfinNormalize.thy ===== *)
theory JellyfinNormalize
  imports SubsonicNormalize
begin

text \<open>
  The normalisation of what a Jellyfin server answers (\<^verbatim>\<open>shared/api/jellyfin/jellyfin-normalize.ts\<close>; the answers are
  described in \<^verbatim>\<open>jellyfin-types.ts\<close>). A list that the server leaves out counts as empty.
\<close>

section \<open>Answers of the server\<close>

text \<open>A person has a name and perhaps a type; the data of the user are whether an item is a favourite and its plays.\<close>

type_synonym jf_person = "string \<times> string option"

record jf_userData =
  ud_IsFavorite :: bool
  ud_PlayCount :: nat

record jf_stream =
  jm_BitDepth :: "rat option"
  jm_BitRate :: "nat option"
  jm_Channels :: "rat option"
  jm_SampleRate :: "rat option"
  jm_Type :: string

record jf_source =
  ju_Container :: string
  ju_MediaStreams :: "jf_stream list"
  ju_Path :: string
  ju_Size :: rat

record jf_song =
  jo_Album :: string
  jo_AlbumArtist :: string
  jo_AlbumArtists :: "related list"
  jo_AlbumId :: "string option"
  jo_AlbumPrimaryImageTag :: "string option"
  jo_ArtistItems :: "related list"
  jo_DateCreated :: string
  jo_GenreItems :: "related list"
  jo_Id :: string
  jo_ImageTag :: "string option"
  jo_IndexNumber :: nat
  jo_LUFS :: "rat option"
  jo_MediaSources :: "jf_source list"
  jo_Name :: string
  jo_NormalizationGain :: "rat option"
  jo_ParentIndexNumber :: "nat option"
  jo_People :: "jf_person list option"
  jo_PlaylistItemId :: "string option"
  jo_PremiereDate :: "string option"
  jo_ProductionYear :: "nat option"
  jo_MusicBrainzTrack :: "string option"
  jo_RunTimeTicks :: nat
  jo_SortName :: "string option"
  jo_Tags :: "string list option"
  jo_Type :: string
  jo_UserData :: "jf_userData option"

record jf_album =
  jb_AlbumArtist :: string
  jb_AlbumArtists :: "related list"
  jb_ArtistItems :: "related list"
  jb_ChildCount :: "nat option"
  jb_DateCreated :: string
  jb_DateLastMediaAdded :: "string option"
  jb_GenreItems :: "related list"
  jb_Id :: string
  jb_ImageTag :: "string option"
  jb_Name :: string
  jb_People :: "jf_person list option"
  jb_PremiereDate :: "string option"
  jb_ProductionYear :: "nat option"
  jb_MusicBrainzAlbum :: "string option"
  jb_MusicBrainzReleaseGroup :: "string option"
  jb_RunTimeTicks :: nat
  jb_Songs :: "jf_song list"
  jb_SortName :: "string option"
  jb_Studios :: "string list"
  jb_Tags :: "string list option"
  jb_UserData :: "jf_userData option"

record jf_artist =
  jt_AlbumCount :: "nat option"
  jt_GenreItems :: "related list"
  jt_Id :: string
  jt_ImageTag :: "string option"
  jt_MusicBrainzArtist :: "string option"
  jt_Name :: string
  jt_Overview :: "string option"
  jt_RunTimeTicks :: nat
  jt_SongCount :: "nat option"
  jt_UserData :: "jf_userData option"

record jf_playlist =
  jp_ChildCount :: "nat option"
  jp_GenreItems :: "related list"
  jp_Id :: string
  jp_ImageTag :: "string option"
  jp_Name :: string
  jp_Overview :: "string option"
  jp_RunTimeTicks :: nat

record jf_genre =
  je_Id :: string
  je_ImageTag :: "string option"
  je_Name :: string

text \<open>An item of a folder.\<close>

record jf_folder =
  jx_Id :: string
  jx_Name :: "string option"
  jx_ParentId :: "string option"
  jx_Type :: string

section \<open>Parts of an item\<close>

definition TICKS_PER_MS :: rat where "TICKS_PER_MS = 10000"

definition KEYS_TO_OMIT :: "string set" where "KEYS_TO_OMIT = {''AlbumArtist'', ''Artist''}"

text \<open>A person is shown under its role without an id.\<close>

definition addPerson :: "jf_person \<Rightarrow> related list obj \<Rightarrow> related list obj" where
  "addPerson person participants =
     (let role = text_or (snd person) '''';
          item = \<lparr>rel_id = '''', rel_name = fst person\<rparr>
      in if role \<in> KEYS_TO_OMIT then participants
         else AList.update role (nullish_or (map_of participants role) [] @ [item]) participants)"

definition getPeople :: "jf_person list option \<Rightarrow> related list obj option" where
  "getPeople people = map_option (\<lambda>ps. fold addPerson ps []) people"

definition getTags :: "string list option \<Rightarrow> string list obj option" where
  "getTags tags = map_option (\<lambda>ts. fold (\<lambda>t m. AList.update t [] m) ts []) tags"

definition getSongImageId :: "jf_song \<Rightarrow> string option" where
  "getSongImageId item =
     (if truthy (jo_ImageTag item) then Some (jo_Id item)
      else if truthy (jo_AlbumPrimaryImageTag item) \<and> truthy (jo_AlbumId item) then jo_AlbumId item else None)"

text \<open>The id of an item that has an image: albums, artists, playlists and genres.\<close>

definition getImageIdOf :: "string option \<Rightarrow> string \<Rightarrow> string option" where
  "getImageIdOf imageTag k = (if truthy imageTag then Some k else None)"

definition jfGetArtists :: "jf_song \<Rightarrow> related list obj option \<Rightarrow> related list" where
  "jfGetArtists item participants =
     (let result = (if jo_ArtistItems item \<noteq> [] then jo_ArtistItems item else jo_AlbumArtists item);
          existingIds = map rel_id result;
          remixers = (case participants of None \<Rightarrow> [] | Some p \<Rightarrow> nullish_or (map_of p ''Remixer'') [])
      in result @ filter (\<lambda>participant. rel_id participant \<notin> set existingIds) remixers)"

text \<open>The original year, the release date and the release year.\<close>

definition jellyfinPremiereFields :: "string option \<Rightarrow> nat option \<Rightarrow> nat \<times> string option \<times> nat option" where
  "jellyfinPremiereFields premiereDate productionYear =
     (let premiere = parsePartialIsoDateFromApi premiereDate;
          prodYear = coerceYear productionYear;
          releaseYear = (if snd premiere > 0 then Some (snd premiere) else if prodYear > 0 then Some prodYear else None);
          releaseDate = (case fst premiere of Some d \<Rightarrow> Some d
            | None \<Rightarrow> if prodYear > 0 then Some (decimal prodYear) else None);
          originalYear = (if snd premiere > 0 then snd premiere else prodYear)
      in (originalYear, releaseDate, releaseYear))"

text \<open>The first audio stream of the first source.\<close>

definition audioStream :: "jf_song \<Rightarrow> jf_stream option" where
  "audioStream item =
     (case jo_MediaSources item of [] \<Rightarrow> None
      | source # _ \<Rightarrow> List.find (\<lambda>stream. jm_Type stream = ''Audio'') (ju_MediaStreams source))"

definition jfGenreItem :: "string option \<Rightarrow> related \<Rightarrow> genre" where
  "jfGenreItem server entry =
     \<lparr>ge_serverId = text_or server '''', ge_serverType = JELLYFIN, ge_itemType = GENRE, ge_albumCount = None,
      ge_id = rel_id entry, ge_imageId = None, ge_imageUrl = None, ge_name = rel_name entry, ge_songCount = None\<rparr>"

definition jfGain :: "jf_song \<Rightarrow> song_gain option" where
  "jfGain item =
     (case jo_NormalizationGain item of
        Some g \<Rightarrow> Some \<lparr>gi_album = None, gi_track = Some g\<rparr>
      | None \<Rightarrow> map_option (\<lambda>l. \<lparr>gi_album = None, gi_track = Some (-18 - l)\<rparr>) (num_or_null (jo_LUFS item)))"

definition jfPlays :: "jf_userData option \<Rightarrow> nat" where
  "jfPlays u = (case u of None \<Rightarrow> 0 | Some d \<Rightarrow> ud_PlayCount d)"

definition favored :: "jf_userData option \<Rightarrow> bool" where
  "favored u = (case u of None \<Rightarrow> False | Some d \<Rightarrow> ud_IsFavorite d)"

section \<open>The items\<close>

definition jfNormalizeSong :: "jf_song \<Rightarrow> string option \<Rightarrow> full_song" where
  "jfNormalizeSong item server =
     (let participants = getPeople (jo_People item);
          (originalYear, releaseDate, releaseYear) = jellyfinPremiereFields (jo_PremiereDate item) (jo_ProductionYear item);
          stream = audioStream item;
          source = (case jo_MediaSources item of [] \<Rightarrow> None | m # _ \<Rightarrow> Some m)
      in \<lparr>s_id = jo_Id item, s_name = jo_Name item,
          s_albumId = text_or (jo_AlbumId item) (''dummy/'' @ jo_Id item), s_serverId = text_or server '''',
          s_serverType = JELLYFIN, s_itemType = SONG, s_duration = of_nat (jo_RunTimeTicks item) / TICKS_PER_MS,
          s_userFavorite = favored (jo_UserData item), s_userRating = None, s_playCount = int (jfPlays (jo_UserData item)),
          s_contextPlaylistId = None, s_albumArtists = jo_AlbumArtists item,
          s_artistName = commaJoin (map rel_name (jo_ArtistItems item)), s_artists = jfGetArtists item participants,
          s_comment = None, s_discNumber = int (nat_or (jo_ParentIndexNumber item) 1), s_genres = jo_GenreItems item,
          s_path = Some (case source of None \<Rightarrow> '''' | Some m \<Rightarrow> ju_Path m), s_playlistItemId = jo_PlaylistItemId item,
          s_releaseYear = map_option int releaseYear, s_trackNumber = int (jo_IndexNumber item), s_rest = '''',
          so_album = Some (jo_Album item), so_albumArtistName = jo_AlbumArtist item,
          so_bitDepth = Option.bind stream (\<lambda>m. num_or_null (jm_BitDepth m)),
          so_bitRate = (case Option.bind stream jm_BitRate of None \<Rightarrow> 0 | Some b \<Rightarrow> of_nat (b div 1000)),
          so_bpm = None, so_channels = Option.bind stream (\<lambda>m. num_or_null (jm_Channels m)), so_compilation = None,
          so_container = map_option ju_Container source, so_createdAt = jo_DateCreated item, so_discSubtitle = None,
          so_explicitStatus = None, so_gain = jfGain item, so_imageId = getSongImageId item, so_imageUrl = None,
          so_lastPlayedAt = None, so_lyrics = None, so_mbzRecordingId = None,
          so_mbzTrackId = text_or_null (jo_MusicBrainzTrack item), so_participants = participants, so_peak = None,
          so_releaseDate = releaseDate, so_sampleRate = Option.bind stream (\<lambda>m. num_or_null (jm_SampleRate m)),
          so_size = (case source of None \<Rightarrow> 0 | Some m \<Rightarrow> ju_Size m),
          so_sortName = text_or (jo_SortName item) (jo_Name item), so_tags = getTags (jo_Tags item),
          so_trackSubtitle = None, so_updatedAt = jo_DateCreated item\<rparr>)"

definition jfNormalizeAlbum :: "jf_album \<Rightarrow> string option \<Rightarrow> album" where
  "jfNormalizeAlbum item server =
     (let (originalYear, releaseDate, releaseYear) = jellyfinPremiereFields (jb_PremiereDate item) (jb_ProductionYear item)
      in \<lparr>al_serverId = text_or server '''', al_serverType = JELLYFIN, al_itemType = ALBUM,
          al_albumArtistName = jb_AlbumArtist item, al_albumArtists = jb_AlbumArtists item,
          al_artists = (if jb_ArtistItems item \<noteq> [] then jb_ArtistItems item else jb_AlbumArtists item),
          al_comment = None, al_createdAt = jb_DateCreated item,
          al_duration = Some (of_nat (jb_RunTimeTicks item) / TICKS_PER_MS), al_explicitStatus = None,
          al_genres = map (jfGenreItem server) (jb_GenreItems item), al_id = jb_Id item,
          al_imageId = getImageIdOf (jb_ImageTag item) (jb_Id item), al_imageUrl = None, al_isCompilation = None,
          al_lastPlayedAt = None, al_mbzId = text_or_null (jb_MusicBrainzAlbum item),
          al_mbzReleaseGroupId = text_or_null (jb_MusicBrainzReleaseGroup item), al_name = jb_Name item,
          al_originalDate = releaseDate, al_originalYear = originalYear, al_participants = getPeople (jb_People item),
          al_playCount = Some (of_nat (jfPlays (jb_UserData item))), al_recordLabels = jb_Studios item,
          al_releaseDate = releaseDate, al_releaseType = None, al_releaseTypes = [], al_releaseYear = releaseYear,
          al_size = None, al_songCount = (if jb_ChildCount item = Some 0 then None else jb_ChildCount item),
          al_songs = map (\<lambda>song. jfNormalizeSong song server) (jb_Songs item),
          al_sortName = text_or (jb_SortName item) (jb_Name item), al_tags = getTags (jb_Tags item),
          al_updatedAt = text_or (jb_DateLastMediaAdded item) (jb_DateCreated item),
          al_userFavorite = favored (jb_UserData item), al_userRating = None, al_version = None\<rparr>)"

text \<open>Of a similar artist the id and the name are kept.\<close>

definition similarOf :: "jf_artist list \<Rightarrow> related list" where
  "similarOf artists = map (\<lambda>entry. \<lparr>rel_id = jt_Id entry, rel_name = jt_Name entry\<rparr>)
     (filter (\<lambda>entry. jt_Name entry \<noteq> ''Various Artists'') artists)"

definition jfNormalizeAlbumArtist :: "jf_artist \<Rightarrow> jf_artist list \<Rightarrow> string option \<Rightarrow> album_artist" where
  "jfNormalizeAlbumArtist item similarArtists server =
     \<lparr>ar_serverId = text_or server '''', ar_serverType = JELLYFIN, ar_itemType = ALBUM_ARTIST,
      ar_albumCount = jt_AlbumCount item, ar_biography = text_or_null (jt_Overview item),
      ar_duration = Some (of_nat (jt_RunTimeTicks item) / TICKS_PER_MS),
      ar_genres = map (jfGenreItem server) (jt_GenreItems item), ar_id = jt_Id item,
      ar_imageId = getImageIdOf (jt_ImageTag item) (jt_Id item), ar_imageUrl = None, ar_lastPlayedAt = None,
      ar_mbz = text_or_null (jt_MusicBrainzArtist item), ar_name = jt_Name item,
      ar_playCount = Some (of_nat (jfPlays (jt_UserData item))), ar_similarArtists = similarOf similarArtists,
      ar_songCount = jt_SongCount item, ar_userFavorite = favored (jt_UserData item), ar_userRating = None\<rparr>"

definition jfNormalizePlaylist :: "jf_playlist \<Rightarrow> string option \<Rightarrow> playlist" where
  "jfNormalizePlaylist item server =
     \<lparr>pl_serverId = text_or server '''', pl_serverType = JELLYFIN, pl_itemType = PLAYLIST,
      pl_description = text_or_null (jp_Overview item), pl_duration = Some (of_nat (jp_RunTimeTicks item) / TICKS_PER_MS),
      pl_genres = map (jfGenreItem server) (jp_GenreItems item), pl_id = jp_Id item,
      pl_imageId = getImageIdOf (jp_ImageTag item) (jp_Id item), pl_imageUrl = None, pl_name = jp_Name item,
      pl_owner = None, pl_ownerId = None, pl_public = None, pl_size = None,
      pl_songCount = (if jp_ChildCount item = Some 0 then None else jp_ChildCount item)\<rparr>"

definition jfNormalizeGenre :: "jf_genre \<Rightarrow> string option \<Rightarrow> genre" where
  "jfNormalizeGenre item server =
     \<lparr>ge_serverId = text_or server '''', ge_serverType = JELLYFIN, ge_itemType = GENRE, ge_albumCount = None,
      ge_id = je_Id item, ge_imageId = getImageIdOf (je_ImageTag item) (je_Id item), ge_imageUrl = None,
      ge_name = je_Name item, ge_songCount = None\<rparr>"

text \<open>A folder comes without children.\<close>

definition jfNormalizeFolder :: "jf_folder \<Rightarrow> string option \<Rightarrow> media_folder" where
  "jfNormalizeFolder item server =
     Folder (serverIdOf server) JELLYFIN [] [] (jx_Id item) None (text_or (jx_Name item) ''Unknown folder'')
       (jx_ParentId item)"

section \<open>What normalised items satisfy\<close>

text \<open>A song whose server is known is well formed; the role of a participant is never one that is shown elsewhere.\<close>

definition jf_song_ok :: "full_song \<Rightarrow> bool" where
  "jf_song_ok s \<longleftrightarrow> s_itemType s = SONG \<and> s_serverType s = JELLYFIN \<and> s_albumId s \<noteq> ''''
     \<and> s_discNumber s \<ge> 1 \<and> s_trackNumber s \<ge> 0 \<and> s_playCount s \<ge> 0 \<and> s_duration s \<ge> 0
     \<and> so_bitDepth s \<noteq> Some 0 \<and> so_channels s \<noteq> Some 0 \<and> so_sampleRate s \<noteq> Some 0
     \<and> (case so_participants s of None \<Rightarrow> True | Some p \<Rightarrow> set (obj_keys p) \<inter> KEYS_TO_OMIT = {} \<and> distinct (obj_keys p))
     \<and> (s_releaseYear s \<noteq> None \<longrightarrow> so_releaseDate s \<noteq> None)"

definition jf_album_ok :: "album \<Rightarrow> bool" where
  "jf_album_ok a \<longleftrightarrow> al_itemType a = ALBUM \<and> al_serverType a = JELLYFIN \<and> list_all jf_song_ok (al_songs a)
     \<and> al_songCount a \<noteq> Some 0 \<and> al_originalDate a = al_releaseDate a
     \<and> al_originalYear a = nullish_or (al_releaseYear a) 0
     \<and> list_all (\<lambda>s. s_serverId s = al_serverId a) (al_songs a)"

lemma people_keys:
  "set (obj_keys m) \<inter> KEYS_TO_OMIT = {} \<and> distinct (obj_keys m) \<Longrightarrow>
     set (obj_keys (fold addPerson ps m)) \<inter> KEYS_TO_OMIT = {} \<and> distinct (obj_keys (fold addPerson ps m))"
proof (induction ps arbitrary: m)
  case (Cons p ps)
  have "set (obj_keys (addPerson p m)) \<inter> KEYS_TO_OMIT = {} \<and> distinct (obj_keys (addPerson p m))"
    using Cons.prems unfolding addPerson_def Let_def
    by (cases "text_or (snd p) [] \<in> KEYS_TO_OMIT") (simp_all only: if_True if_False obj_keys_update distinct_update, auto)
  with Cons.IH show ?case by simp
qed simp

lemma getPeople_ok: "getPeople ps = Some p \<Longrightarrow> set (obj_keys p) \<inter> KEYS_TO_OMIT = {} \<and> distinct (obj_keys p)"
  using people_keys [of "[]"] by (auto simp: getPeople_def)

lemma partial_api_year: "parsePartialIsoDateFromApi d = (x, y) \<Longrightarrow> y > 0 \<Longrightarrow> x \<noteq> None"
  using partial_year by (auto simp: parsePartialIsoDateFromApi_def Let_def split: if_splits)

lemma premiere_year_date:
  "jellyfinPremiereFields d n = (y0, x, y) \<Longrightarrow> (y \<noteq> None \<longrightarrow> x \<noteq> None) \<and> y0 = nullish_or y 0"
  using partial_api_year [of d "fst (parsePartialIsoDateFromApi d)" "snd (parsePartialIsoDateFromApi d)"]
  by (cases "parsePartialIsoDateFromApi d"; cases "fst (parsePartialIsoDateFromApi d)")
    (auto simp: jellyfinPremiereFields_def Let_def split: if_splits)

lemma jfNormalizeSong_ok: "jf_song_ok (jfNormalizeSong item server)"
proof -
  obtain y0 x y where f: "jellyfinPremiereFields (jo_PremiereDate item) (jo_ProductionYear item) = (y0, x, y)"
    by (rule prod_cases3)
  note dates = premiere_year_date [OF f]
  have bound: "Option.bind z (\<lambda>m. num_or_null (g m)) \<noteq> Some 0" for z :: "jf_stream option" and g
    by (cases z) simp_all
  have disc: "1 \<le> int (nat_or (jo_ParentIndexNumber item) 1)"
    using nat_or_pos [of 1 "jo_ParentIndexNumber item"] by simp
  have people: "case getPeople (jo_People item) of None \<Rightarrow> True
      | Some p \<Rightarrow> set (obj_keys p) \<inter> KEYS_TO_OMIT = {} \<and> distinct (obj_keys p)"
    using getPeople_ok [of "jo_People item"] by (cases "getPeople (jo_People item)") simp_all
  have ids: "text_or (jo_AlbumId item) (''dummy/'' @ jo_Id item) \<noteq> ''''" by (auto simp: text_or_def truthy_def)
  show ?thesis
    unfolding jf_song_ok_def jfNormalizeSong_def Let_def f prod.case
    using dates bound disc people ids by (simp add: TICKS_PER_MS_def)
qed

text \<open>
  The items that come out of the normalisation for Jellyfin are well formed whatever the server leaves out: songs,
  also inside of albums, have an album id, positive disc numbers and no technical values that are zero, each role of
  the participants occurs once and none of those that are shown elsewhere, and a release year comes with a release date; an
  album has the server of its songs, and its original year is the year of its date.
\<close>

theorem jf_items_ok:
  "jf_song_ok (jfNormalizeSong item server) \<and> jf_album_ok (jfNormalizeAlbum entry server)"
proof -
  obtain y0 x y where f: "jellyfinPremiereFields (jb_PremiereDate entry) (jb_ProductionYear entry) = (y0, x, y)"
    by (rule prod_cases3)
  have server: "s_serverId (jfNormalizeSong s server) = text_or server ''''" for s
    by (simp add: jfNormalizeSong_def Let_def case_prod_beta)
  have "jf_album_ok (jfNormalizeAlbum entry server)"
    unfolding jf_album_ok_def jfNormalizeAlbum_def f prod.case
    using premiere_year_date [OF f] by (simp add: list_all_iff jfNormalizeSong_ok server)
  then show ?thesis using jfNormalizeSong_ok by blast
qed

text \<open>Both adapters call the same song by the same id and title, whatever else their servers tell.\<close>

lemma jf_song_fields [simp]:
  "s_id (jfNormalizeSong item server) = jo_Id item" "s_name (jfNormalizeSong item server) = jo_Name item"
  "s_playlistItemId (jfNormalizeSong item server) = jo_PlaylistItemId item"
  "s_playCount (jfNormalizeSong item server) = int (jfPlays (jo_UserData item))"
  by (simp_all add: jfNormalizeSong_def Let_def case_prod_beta)

end
