(* ===== verification/JsArrays.thy ===== *)
theory JsArrays
  imports JsText "HOL-Library.Word"
begin

text \<open>
  Joining and splitting text, lodash \<open>chunk\<close>, and the text that bytes are sent as, as the adapters for servers use
  them. JavaScript strings of which only single bytes are used are strings here.
\<close>

section \<open>Joining and splitting\<close>

fun joinWith :: "string \<Rightarrow> string list \<Rightarrow> string" where
  "joinWith sep [] = []"
| "joinWith sep [x] = x"
| "joinWith sep (x # y # xs) = x @ sep @ joinWith sep (y # xs)"

text \<open>\<open>split\<close> by a single character; text without it is one piece.\<close>

fun splitOn :: "char \<Rightarrow> string \<Rightarrow> string list" where
  "splitOn c [] = [[]]"
| "splitOn c (d # cs) =
     (if d = c then [] # splitOn c cs
      else case splitOn c cs of [] \<Rightarrow> [[d]] | p # ps \<Rightarrow> (d # p) # ps)"

definition plain_for :: "char \<Rightarrow> string list \<Rightarrow> bool" where
  "plain_for c xs \<longleftrightarrow> (\<forall>x \<in> set xs. c \<notin> set x)"

lemma plain_for_simps [simp]:
  "plain_for c []" "plain_for c (x # xs) \<longleftrightarrow> c \<notin> set x \<and> plain_for c xs"
  "plain_for c (xs @ ys) \<longleftrightarrow> plain_for c xs \<and> plain_for c ys"
  by (auto simp: plain_for_def)

lemma splitOn_nonempty [simp]: "splitOn c cs \<noteq> []"
  by (cases cs) (auto split: list.split)

lemma splitOn_plain: "c \<notin> set x \<Longrightarrow> splitOn c x = [x]"
  by (induction x) auto

lemma splitOn_piece: "c \<notin> set x \<Longrightarrow> splitOn c (x @ c # rest) = x # splitOn c rest"
  by (induction x) auto

lemma split_join:
  "xs \<noteq> [] \<Longrightarrow> plain_for c xs \<Longrightarrow> splitOn c (joinWith [c] xs) = xs"
  by (induction "[c]" xs rule: joinWith.induct) (auto simp: splitOn_plain splitOn_piece)

lemma join_split: "joinWith [c] (splitOn c cs) = cs"
proof (induction c cs rule: splitOn.induct)
  case (2 c d cs)
  obtain p ps where sp: "splitOn c cs = p # ps" by (cases "splitOn c cs") auto
  have "joinWith [c] ((d # p) # ps) = d # joinWith [c] (p # ps)" by (cases ps) auto
  with 2 sp show ?case by auto
qed simp

text \<open>\<open>replace\<close> with text as its pattern: the first occurrence. What is put in has no dollar sign.\<close>

fun replaceFirst :: "string \<Rightarrow> string \<Rightarrow> string \<Rightarrow> string" where
  "replaceFirst pat new [] = (if pat = [] then new else [])"
| "replaceFirst pat new (c # cs) =
     (if take (length pat) (c # cs) = pat then new @ drop (length pat) (c # cs) else c # replaceFirst pat new cs)"

section \<open>Chunks\<close>

function chunk :: "'a list \<Rightarrow> nat \<Rightarrow> 'a list list" where
  "chunk xs n = (if xs = [] \<or> n = 0 then [] else take n xs # chunk (drop n xs) n)"
  by auto
termination by (relation "measure (\<lambda>(xs, n). length xs)") auto

declare chunk.simps [simp del]

lemma chunk_Nil [simp]: "chunk [] n = []" by (simp add: chunk.simps)

lemma chunk_step: "xs \<noteq> [] \<Longrightarrow> 0 < n \<Longrightarrow> chunk xs n = take n xs # chunk (drop n xs) n"
  by (simp add: chunk.simps [of xs])

lemma concat_chunk: "0 < n \<Longrightarrow> concat (chunk xs n) = xs"
proof (induction xs n rule: chunk.induct)
  case (1 xs n)
  then show ?case by (cases "xs = []") (simp_all add: chunk_step)
qed

lemma chunk_bounds: "c \<in> set (chunk xs n) \<Longrightarrow> c \<noteq> [] \<and> length c \<le> n \<and> set c \<subseteq> set xs"
proof (induction xs n rule: chunk.induct)
  case (1 xs n)
  show ?case
  proof (cases "xs = [] \<or> n = 0")
    case True
    with 1(2) show ?thesis by (auto simp: chunk.simps [of xs])
  next
    case False
    with 1(2) have "c = take n xs \<or> c \<in> set (chunk (drop n xs) n)" by (simp add: chunk.simps [of xs])
    with False 1(1) show ?thesis by (auto dest: in_set_takeD in_set_dropD)
  qed
qed

lemma chunk_prefix: "0 < n \<Longrightarrow> concat (take j (chunk xs n)) = take (j * n) xs"
proof (induction xs n arbitrary: j rule: chunk.induct)
  case (1 xs n)
  then show ?case
    by (cases "xs = []"; cases j) (simp_all add: chunk_step take_add add.commute)
qed

section \<open>Bytes as text\<close>

definition base64Alphabet :: string where
  "base64Alphabet = ''ABCDEFGHIJKLMNOPQRSTUVWXYZabcdefghijklmnopqrstuvwxyz0123456789+/''"

definition base64Char :: "nat \<Rightarrow> char" where
  "base64Char n = base64Alphabet ! n"

text \<open>\<open>btoa\<close>: three bytes are four characters, and what is missing at the end is filled up.\<close>

fun btoaBytes :: "nat list \<Rightarrow> string" where
  "btoaBytes [] = []"
| "btoaBytes [a] = [base64Char (a div 4), base64Char (a mod 4 * 16), CHR ''='', CHR ''='']"
| "btoaBytes [a, b] =
     [base64Char (a div 4), base64Char (a mod 4 * 16 + b div 16), base64Char (b mod 16 * 4), CHR ''='']"
| "btoaBytes (a # b # c # rest) =
     base64Char (a div 4) # base64Char (a mod 4 * 16 + b div 16) # base64Char (b mod 16 * 4 + c div 64)
       # base64Char (c mod 64) # btoaBytes rest"

definition btoa :: "string \<Rightarrow> string" where
  "btoa binary = btoaBytes (map of_char binary)"

text \<open>The text is built up by chunks, so that no call has too many arguments.\<close>

definition uint8ArrayToBase64 :: "8 word list \<Rightarrow> string" where
  "uint8ArrayToBase64 bytes =
     btoa (fold (\<lambda>c binary. binary @ map (\<lambda>b. char_of (unat b)) c) (chunk bytes 0x8000) [])"

text \<open>The decoder of the standard.\<close>

definition base64Index :: "char \<Rightarrow> nat" where
  "base64Index c = length (takeWhile (\<lambda>d. d \<noteq> c) base64Alphabet)"

fun base64Decode :: "string \<Rightarrow> nat list" where
  "base64Decode (p # q # r # s # rest) =
     (if r = CHR ''='' then [base64Index p * 4 + base64Index q div 16]
      else if s = CHR ''='' then
        [base64Index p * 4 + base64Index q div 16, base64Index q mod 16 * 16 + base64Index r div 4]
      else (base64Index p * 4 + base64Index q div 16) # (base64Index q mod 16 * 16 + base64Index r div 4)
        # (base64Index r mod 4 * 64 + base64Index s) # base64Decode rest)"
| "base64Decode _ = []"

lemma base64_digits:
  assumes "n < 64"
  shows "base64Index (base64Char n) = n \<and> base64Char n \<noteq> CHR ''=''"
proof -
  have "list_all (\<lambda>n. base64Index (base64Char n) = n \<and> base64Char n \<noteq> CHR ''='') [0..<64]" by code_simp
  then show ?thesis using assms by (simp add: list_all_iff)
qed

lemmas base64_digit [simp] = base64_digits [THEN conjunct1] base64_digits [THEN conjunct2]

lemma base64_bytes: "\<forall>b \<in> set bs. b < 256 \<Longrightarrow> base64Decode (btoaBytes bs) = bs"
proof (induction bs rule: btoaBytes.induct)
  case (2 a)
  then have "a div 4 < 64" "a mod 4 * 16 < 64" "a div 4 * 4 + a mod 4 * 16 div 16 = a" by auto
  then show ?case by simp
next
  case (3 a b)
  then have r: "a div 4 < 64" "a mod 4 * 16 + b div 16 < 64" "b mod 16 * 4 < 64" by auto
  have "a div 4 * 4 + (a mod 4 * 16 + b div 16) div 16 = a" "(a mod 4 * 16 + b div 16) mod 16 * 16 + b mod 16 * 4 div 4 = b"
    using 3 by auto
  with r show ?case by simp
next
  case (4 a b c rest)
  then have r: "a div 4 < 64" "a mod 4 * 16 + b div 16 < 64" "b mod 16 * 4 + c div 64 < 64" "c mod 64 < 64" by auto
  have "a div 4 * 4 + (a mod 4 * 16 + b div 16) div 16 = a"
    "(a mod 4 * 16 + b div 16) mod 16 * 16 + (b mod 16 * 4 + c div 64) div 4 = b"
    "(b mod 16 * 4 + c div 64) mod 4 * 64 + c mod 64 = c"
    using 4 by auto
  with r 4 show ?case by simp
qed simp

lemma unat_byte: "unat (b :: 8 word) < 256"
proof -
  have "unat b < 2 ^ LENGTH(8)" by (rule unsigned_less)
  then show ?thesis by simp
qed

lemma binary_chunks:
  "fold (\<lambda>c binary. binary @ map f c) cs xs = xs @ map f (concat cs)"
  by (induction cs arbitrary: xs) simp_all

lemma btoa_bytes:
  "uint8ArrayToBase64 bytes = btoaBytes (map unat bytes)"
proof -
  have "of_char \<circ> (\<lambda>b :: 8 word. char_of (unat b)) = unat"
    using unat_byte by (auto simp: fun_eq_iff)
  then show ?thesis by (simp add: uint8ArrayToBase64_def btoa_def binary_chunks concat_chunk)
qed

text \<open>What is decoded from the text is the image, whatever its length.\<close>

theorem image_text_is_the_image:
  "map of_nat (base64Decode (uint8ArrayToBase64 bytes)) = bytes"
proof -
  have "\<forall>b \<in> set (map unat bytes). b < 256" using unat_byte by auto
  then show ?thesis by (simp add: btoa_bytes base64_bytes comp_def)
qed

end
