(* ===== verification/JellyfinChanges.thy ===== *)
theory JellyfinChanges
  imports SubsonicMedia JellyfinNormalize JsArrays
begin

text \<open>
  The requests by which a Jellyfin server is changed (\<^verbatim>\<open>api/jellyfin/jellyfin-controller.ts\<close>): playlists,
  favourites, images, and what is played. The server is a state on which the requests are functions, as for Subsonic;
  the ids of items are sent as one text, in chunks.
\<close>

section \<open>Requests\<close>

record jf_update =
  ju_Ids :: "string list option"
  ju_IsPublic :: "bool option"
  ju_Name :: "string option"

record jf_create =
  jn_IsPublic :: "bool option"
  jn_MediaType :: string
  jn_Name :: string
  jn_UserId :: string

record jf_upload =
  jl_url :: string
  jl_body :: string
  jl_Authorization :: string
  jl_ContentType :: string

record 'v jf_api =
  ja_addToPlaylist :: "string \<Rightarrow> string \<Rightarrow> string \<Rightarrow> 'v \<Rightarrow> bool \<times> 'v"
  ja_removeFromPlaylist :: "string \<Rightarrow> string \<Rightarrow> 'v \<Rightarrow> bool \<times> 'v"
  ja_movePlaylistItem :: "string \<Rightarrow> string \<Rightarrow> string \<Rightarrow> 'v \<Rightarrow> bool \<times> 'v"
  ja_updatePlaylist :: "string \<Rightarrow> jf_update \<Rightarrow> 'v \<Rightarrow> bool \<times> 'v"
  ja_createPlaylist :: "jf_create \<Rightarrow> 'v \<Rightarrow> string reply \<times> 'v"
  ja_deletePlaylist :: "string \<Rightarrow> 'v \<Rightarrow> bool \<times> 'v"
  ja_getPlaylistSongList :: "string \<Rightarrow> 'v \<Rightarrow> jf_song list reply"
  ja_getPlaylistDetail :: "string \<Rightarrow> 'v \<Rightarrow> jf_playlist reply"
  ja_createFavorite :: "string \<Rightarrow> string \<Rightarrow> 'v \<Rightarrow> bool \<times> 'v"
  ja_removeFavorite :: "string \<Rightarrow> string \<Rightarrow> 'v \<Rightarrow> bool \<times> 'v"
  ja_deleteImage :: "string \<Rightarrow> 'v \<Rightarrow> bool \<times> 'v"
  ja_uploadImage :: "jf_upload \<Rightarrow> 'v \<Rightarrow> bool \<times> 'v"

text \<open>The server of a call, its user, and the header that the client identifies itself with.\<close>

record jf_client =
  jc_server :: "url_server option"
  jc_userId :: "string option"
  jc_preferInstantMix :: bool
  jc_authHeader :: string

definition jfServerId :: "jf_client \<Rightarrow> string option" where
  "jfServerId C = map_option ur_id (jc_server C)"

definition withUser :: "jf_client \<Rightarrow> (string \<Rightarrow> 'v \<Rightarrow> (api_error + 'a) \<times> 'w) \<Rightarrow> 'v \<Rightarrow> ('v \<Rightarrow> 'w) \<Rightarrow> (api_error + 'a) \<times> 'w" where
  "withUser C f v same =
     (if truthy (jc_userId C) then f (the (jc_userId C)) v else (Inl (Api ''No userId found''), same v))"

definition MAX_ITEMS_PER_PLAYLIST_ADD :: nat where "MAX_ITEMS_PER_PLAYLIST_ADD = 50"

text \<open>One request for each chunk; the first that fails ends the loop.\<close>

primrec perChunk :: "string \<Rightarrow> (string list \<Rightarrow> 'v \<Rightarrow> bool \<times> 'v) \<Rightarrow> string list list \<Rightarrow> 'v \<Rightarrow> (api_error + unit) \<times> 'v" where
  "perChunk message request [] v = (Inr (), v)"
| "perChunk message request (c # cs) v =
     (case demand message (request c v) of
        (Inl e, v1) \<Rightarrow> (Inl e, v1)
      | (Inr _, v1) \<Rightarrow> perChunk message request cs v1)"

section \<open>Playlists\<close>

definition addChunk :: "'v jf_api \<Rightarrow> string \<Rightarrow> string \<Rightarrow> string list \<Rightarrow> 'v \<Rightarrow> bool \<times> 'v" where
  "addChunk A playlistId userId c v = ja_addToPlaylist A playlistId (joinWith '','' c) userId v"

definition removeChunk :: "'v jf_api \<Rightarrow> string \<Rightarrow> string list \<Rightarrow> 'v \<Rightarrow> bool \<times> 'v" where
  "removeChunk A playlistId c v = ja_removeFromPlaylist A playlistId (joinWith '','' c) v"

definition jfAddToPlaylist :: "'v jf_api \<Rightarrow> jf_client \<Rightarrow> string \<Rightarrow> string list \<Rightarrow> 'v \<Rightarrow> (api_error + unit) \<times> 'v" where
  "jfAddToPlaylist A C playlistId songId v =
     withUser C (\<lambda>userId. perChunk ''Failed to add to playlist'' (addChunk A playlistId userId)
       (chunk songId MAX_ITEMS_PER_PLAYLIST_ADD)) v id"

definition jfRemoveFromPlaylist :: "'v jf_api \<Rightarrow> string \<Rightarrow> string list \<Rightarrow> 'v \<Rightarrow> (api_error + unit) \<times> 'v" where
  "jfRemoveFromPlaylist A playlistId songId v =
     perChunk ''Failed to remove from playlist'' (removeChunk A playlistId) (chunk songId MAX_ITEMS_PER_PLAYLIST_ADD) v"

definition jfMovePlaylistItem :: "'v jf_api \<Rightarrow> string \<Rightarrow> string \<Rightarrow> nat \<Rightarrow> 'v \<Rightarrow> (api_error + unit) \<times> 'v" where
  "jfMovePlaylistItem A playlistId trackId endingIndex v =
     demand ''Failed to move item in playlist'' (ja_movePlaylistItem A trackId (decimal endingIndex) playlistId v)"

definition jfSetPlaylistSongs :: "'v jf_api \<Rightarrow> string \<Rightarrow> string list \<Rightarrow> 'v \<Rightarrow> (api_error + unit) \<times> 'v" where
  "jfSetPlaylistSongs A playlistId songIds v =
     demand ''Failed to update playlist songs''
       (ja_updatePlaylist A playlistId \<lparr>ju_Ids = Some songIds, ju_IsPublic = None, ju_Name = None\<rparr> v)"

definition jfUpdatePlaylist ::
    "'v jf_api \<Rightarrow> jf_client \<Rightarrow> string \<Rightarrow> string \<Rightarrow> bool option \<Rightarrow> 'v \<Rightarrow> (api_error + unit) \<times> 'v" where
  "jfUpdatePlaylist A C playlistId name public v =
     withUser C (\<lambda>_ v. demand ''Failed to update playlist''
       (ja_updatePlaylist A playlistId \<lparr>ju_Ids = None, ju_IsPublic = public, ju_Name = Some name\<rparr> v)) v id"

definition jfCreatePlaylist :: "'v jf_api \<Rightarrow> jf_client \<Rightarrow> string \<Rightarrow> bool option \<Rightarrow> 'v \<Rightarrow> (api_error + string) \<times> 'v" where
  "jfCreatePlaylist A C name public v =
     withUser C (\<lambda>userId v.
       let (res, v') = ja_createPlaylist A
             \<lparr>jn_IsPublic = public, jn_MediaType = ''Audio'', jn_Name = name, jn_UserId = userId\<rparr> v
       in (reply_or ''Failed to create playlist'' res Inr, v')) v id"

definition jfDeletePlaylist :: "'v jf_api \<Rightarrow> string \<Rightarrow> 'v \<Rightarrow> (api_error + unit) \<times> 'v" where
  "jfDeletePlaylist A playlistId v = demand ''Failed to delete playlist'' (ja_deletePlaylist A playlistId v)"

text \<open>The ids of the entries of a playlist, where they are known.\<close>

definition knownIds :: "string option list \<Rightarrow> string list" where
  "knownIds ks = map the (filter (\<lambda>k. k \<noteq> None) ks)"

definition jfClearPlaylist :: "'v jf_api \<Rightarrow> string \<Rightarrow> full_song list \<Rightarrow> 'v \<Rightarrow> (api_error + unit) \<times> 'v" where
  "jfClearPlaylist A playlistId existingSongs v =
     perChunk ''Failed to remove songs from playlist'' (removeChunk A playlistId)
       (chunk (knownIds (map s_playlistItemId existingSongs)) MAX_ITEMS_PER_PLAYLIST_ADD) v"

definition jfFillPlaylist :: "'v jf_api \<Rightarrow> string \<Rightarrow> string \<Rightarrow> string list \<Rightarrow> 'v \<Rightarrow> (api_error + unit) \<times> 'v" where
  "jfFillPlaylist A userId playlistId songId v =
     perChunk ''Failed to add songs to playlist'' (addChunk A playlistId userId) (chunk songId MAX_ITEMS_PER_PLAYLIST_ADD) v"

text \<open>Removing and adding after the backup is stored; an empty list has no chunk, as where the code leaves a step out.\<close>

definition jfRefill :: "'v jf_api \<Rightarrow> string \<Rightarrow> string \<Rightarrow> full_song list \<Rightarrow> string list \<Rightarrow> 'v \<Rightarrow> (api_error + unit) \<times> 'v" where
  "jfRefill A userId playlistId existingSongs songId v =
     (case jfClearPlaylist A playlistId existingSongs v of
        (Inl e, v1) \<Rightarrow> (Inl e, v1)
      | (Inr _, v1) \<Rightarrow> jfFillPlaylist A userId playlistId songId v1)"

definition jfReplacePlaylist ::
    "'v jf_api \<Rightarrow> jf_client \<Rightarrow> string \<Rightarrow> string list \<Rightarrow> nat \<Rightarrow> 'v \<Rightarrow> (string \<rightharpoonup> playlist_backup)
      \<Rightarrow> (api_error + unit) \<times> 'v \<times> (string \<rightharpoonup> playlist_backup)" where
  "jfReplacePlaylist A C playlistId songId now v idb =
     withUser C (\<lambda>userId v.
       case ja_getPlaylistSongList A playlistId v of
         Refused \<Rightarrow> (Inl (Api ''Failed to fetch existing playlist songs''), v, idb)
       | Reply entries \<Rightarrow>
           (let existingSongs = map (\<lambda>item. jfNormalizeSong item (jfServerId C)) entries
            in case ja_getPlaylistDetail A playlistId v of
                 Refused \<Rightarrow> (Inl (Api ''Failed to get playlist detail''), v, idb)
               | Reply detail \<Rightarrow>
                   let backup = \<lparr>bk_id = playlistId, bk_name = pl_name (jfNormalizePlaylist detail (jfServerId C)),
                         bk_songIds = map s_id existingSongs, bk_timestamp = now\<rparr>;
                       (r, v1) = jfRefill A userId playlistId existingSongs songId v
                   in (r, v1, idb(backupKey playlistId \<mapsto> backup)))) v (\<lambda>v. (v, idb))"

section \<open>Favourites and images\<close>

text \<open>The status of a request for a favourite is not looked at.\<close>

definition jfCreateFavorite :: "'v jf_api \<Rightarrow> jf_client \<Rightarrow> string list \<Rightarrow> 'v \<Rightarrow> (api_error + unit) \<times> 'v" where
  "jfCreateFavorite A C ks v =
     withUser C (\<lambda>userId v. (Inr (), fold (\<lambda>k v. snd (ja_createFavorite A k userId v)) ks v)) v id"

definition jfDeleteFavorite :: "'v jf_api \<Rightarrow> jf_client \<Rightarrow> string list \<Rightarrow> 'v \<Rightarrow> (api_error + unit) \<times> 'v" where
  "jfDeleteFavorite A C ks v =
     withUser C (\<lambda>userId v. (Inr (), fold (\<lambda>k v. snd (ja_removeFavorite A k userId v)) ks v)) v id"

definition byteIs :: "8 word list \<Rightarrow> nat \<Rightarrow> 8 word \<Rightarrow> bool" where
  "byteIs bytes n b \<longleftrightarrow> n < length bytes \<and> bytes ! n = b"

definition getImageContentType :: "8 word list \<Rightarrow> string" where
  "getImageContentType bytes =
     (if byteIs bytes 0 0x89 \<and> byteIs bytes 1 0x50 then ''image/png''
      else if byteIs bytes 0 0xff \<and> byteIs bytes 1 0xd8 then ''image/jpeg''
      else if byteIs bytes 0 0x47 \<and> byteIs bytes 1 0x49 then ''image/gif''
      else if byteIs bytes 0 0x52 \<and> byteIs bytes 1 0x49 then ''image/webp''
      else ''image/jpeg'')"

definition withToken :: "jf_client \<Rightarrow> string" where
  "withToken C =
     (case Option.bind (jc_server C) ur_credential of
        None \<Rightarrow> jc_authHeader C
      | Some token \<Rightarrow>
          if token = '''' then jc_authHeader C else jc_authHeader C @ '', Token='' @ [CHR 0x22] @ token @ [CHR 0x22])"

definition deleteItemPrimaryImage :: "'v jf_api \<Rightarrow> string \<Rightarrow> string \<Rightarrow> 'v \<Rightarrow> (api_error + unit) \<times> 'v" where
  "deleteItemPrimaryImage A k errorMessage v = demand errorMessage (ja_deleteImage A k v)"

definition uploadItemPrimaryImage ::
    "'v jf_api \<Rightarrow> jf_client \<Rightarrow> string \<Rightarrow> 8 word list \<Rightarrow> string \<Rightarrow> 'v \<Rightarrow> (api_error + unit) \<times> 'v" where
  "uploadItemPrimaryImage A C k bytes errorMessage v =
     (case getServerUrl (jc_server C) False of
        None \<Rightarrow> (Inl (Api ''Server is required''), v)
      | Some url \<Rightarrow>
          if url = '''' then (Inl (Api ''Server is required''), v)
          else demand errorMessage
            (ja_uploadImage A \<lparr>jl_url = url @ ''/Items/'' @ k @ ''/Images/Primary'', jl_body = uint8ArrayToBase64 bytes,
               jl_Authorization = withToken C, jl_ContentType = getImageContentType bytes\<rparr> v))"

text \<open>The four operations on images differ in their messages.\<close>

definition jfDeleteArtistImage :: "'v jf_api \<Rightarrow> string \<Rightarrow> 'v \<Rightarrow> (api_error + unit) \<times> 'v" where
  "jfDeleteArtistImage A k v = deleteItemPrimaryImage A k ''Failed to delete artist image'' v"

definition jfDeletePlaylistImage :: "'v jf_api \<Rightarrow> string \<Rightarrow> 'v \<Rightarrow> (api_error + unit) \<times> 'v" where
  "jfDeletePlaylistImage A k v = deleteItemPrimaryImage A k ''Failed to delete playlist image'' v"

definition jfUploadArtistImage :: "'v jf_api \<Rightarrow> jf_client \<Rightarrow> string \<Rightarrow> 8 word list \<Rightarrow> 'v \<Rightarrow> (api_error + unit) \<times> 'v" where
  "jfUploadArtistImage A C k bytes v = uploadItemPrimaryImage A C k bytes ''Failed to upload artist image'' v"

definition jfUploadPlaylistImage :: "'v jf_api \<Rightarrow> jf_client \<Rightarrow> string \<Rightarrow> 8 word list \<Rightarrow> 'v \<Rightarrow> (api_error + unit) \<times> 'v" where
  "jfUploadPlaylistImage A C k bytes v = uploadItemPrimaryImage A C k bytes ''Failed to upload playlist image'' v"

section \<open>Scrobbling\<close>

record jf_scrobble =
  js_EventName :: "scrobble_event option"
  js_IsPaused :: "bool option"
  js_ItemId :: string
  js_PositionTicks :: rat

datatype jf_report = Report_playing (rp_body: jf_scrobble) | Report_progress (rp_body: jf_scrobble) | Report_stopped (rp_body: jf_scrobble)

text \<open>The one request that is made for an event. It is not awaited, and its answer is not looked at.\<close>

definition jfScrobble :: "scrobble_query \<Rightarrow> jf_report" where
  "jfScrobble q =
     (let position = math_round (sq_position q);
          body = (\<lambda>event paused. \<lparr>js_EventName = event, js_IsPaused = paused, js_ItemId = sq_id q, js_PositionTicks = position\<rparr>)
      in if sq_submission q then Report_stopped (body None (Some True))
         else case sq_event q of
                Some EV_start \<Rightarrow> Report_playing (body None None)
              | Some EV_pause \<Rightarrow> Report_progress (body (Some EV_pause) (Some True))
              | Some EV_unpause \<Rightarrow> Report_progress (body (Some EV_unpause) (Some False))
              | Some EV_stop \<Rightarrow> Report_stopped (body None None)
              | None \<Rightarrow> Report_progress (body None None))"

section \<open>What the server does with a playlist\<close>

text \<open>
  The documented behaviour of the requests for playlists, with the entries of each: the id of an entry and that of its
  item. A request without success changes nothing. What adding does to the items is the server's own, since some
  versions leave out those that are there already; but adding in two steps is adding in one. Removing takes away the
  entries with the ids that are sent, and a playlist is answered with its entries.
\<close>

definition addingInSteps :: "(string list \<Rightarrow> string list \<Rightarrow> string list) \<Rightarrow> bool" where
  "addingInSteps adds \<longleftrightarrow> (\<forall>xs. adds xs [] = xs) \<and> (\<forall>xs a b. adds (adds xs a) b = adds xs (a @ b))"

definition changed_only :: "string \<Rightarrow> (string \<Rightarrow> 'e) \<Rightarrow> (string \<Rightarrow> 'e) \<Rightarrow> bool" where
  "changed_only k p p' \<longleftrightarrow> (\<forall>j. j \<noteq> k \<longrightarrow> p' j = p j)"

definition keeps_jf_playlists ::
    "'v jf_api \<Rightarrow> (string list \<Rightarrow> string list \<Rightarrow> string list) \<Rightarrow> ('v \<Rightarrow> string \<Rightarrow> (string \<times> string) list) \<Rightarrow> bool" where
  "keeps_jf_playlists A adds entriesOf \<longleftrightarrow>
     (\<forall>k ks u v. let (ok, v') = ja_addToPlaylist A k ks u v
        in if ok then changed_only k (entriesOf v) (entriesOf v')
                    \<and> map snd (entriesOf v' k) = adds (map snd (entriesOf v k)) (splitOn (CHR '','') ks)
           else entriesOf v' = entriesOf v)
     \<and> (\<forall>k ks v. let (ok, v') = ja_removeFromPlaylist A k ks v
        in entriesOf v' = (if ok then (entriesOf v)(k := filter (\<lambda>e. fst e \<notin> set (splitOn (CHR '','') ks)) (entriesOf v k))
                           else entriesOf v))
     \<and> (\<forall>k v items. ja_getPlaylistSongList A k v = Reply items \<longrightarrow>
          map (\<lambda>item. (jo_PlaylistItemId item, jo_Id item)) items = map (\<lambda>(e, s). (Some e, s)) (entriesOf v k)
          \<and> plain_for (CHR '','') (map fst (entriesOf v k)))"

lemma keeps_jf_add:
  assumes "keeps_jf_playlists A adds entriesOf" and "c \<noteq> []" and "plain_for (CHR '','') c"
    and "demand m (addChunk A k u c v) = (r, v')"
  shows "changed_only k (entriesOf v) (entriesOf v')
    \<and> map snd (entriesOf v' k) = (case r of Inl e \<Rightarrow> map snd (entriesOf v k) | Inr _ \<Rightarrow> adds (map snd (entriesOf v k)) c)"
proof -
  have law: "let (ok, v') = ja_addToPlaylist A k ks u v
    in if ok then changed_only k (entriesOf v) (entriesOf v')
         \<and> map snd (entriesOf v' k) = adds (map snd (entriesOf v k)) (splitOn (CHR '','') ks)
       else entriesOf v' = entriesOf v" for ks
    using assms(1) unfolding keeps_jf_playlists_def by blast
  show ?thesis
    using law [of "joinWith '','' c"] assms(2-4)
    by (cases "ja_addToPlaylist A k (joinWith '','' c) u v")
      (auto simp: addChunk_def demand_def split_join changed_only_def split: if_splits)
qed

lemma keeps_jf_remove:
  assumes "keeps_jf_playlists A adds entriesOf" and "c \<noteq> []" and "plain_for (CHR '','') c"
    and "demand m (removeChunk A k c v) = (r, v')"
  shows "entriesOf v' = (case r of Inl e \<Rightarrow> entriesOf v
    | Inr _ \<Rightarrow> (entriesOf v)(k := filter (\<lambda>e. fst e \<notin> set c) (entriesOf v k)))"
proof -
  have law: "let (ok, v') = ja_removeFromPlaylist A k ks v
    in entriesOf v' = (if ok then (entriesOf v)(k := filter (\<lambda>e. fst e \<notin> set (splitOn (CHR '','') ks)) (entriesOf v k))
                       else entriesOf v)" for ks
    using assms(1) unfolding keeps_jf_playlists_def by blast
  show ?thesis
    using law [of "joinWith '','' c"] assms(2-4)
    by (cases "ja_removeFromPlaylist A k (joinWith '','' c) v")
      (auto simp: removeChunk_def demand_def split_join split: if_splits)
qed

definition sendable :: "string list list \<Rightarrow> bool" where
  "sendable cs \<longleftrightarrow> (\<forall>c \<in> set cs. c \<noteq> [] \<and> plain_for (CHR '','') c)"

lemma sendable_simps [simp]: "sendable []" "sendable (c # cs) \<longleftrightarrow> c \<noteq> [] \<and> plain_for (CHR '','') c \<and> sendable cs"
  by (auto simp: sendable_def)

lemma sendable_chunk: "plain_for (CHR '','') xs \<Longrightarrow> sendable (chunk xs n)"
  unfolding sendable_def plain_for_def using chunk_bounds [of _ xs n] by blast

text \<open>Adding by chunks: all of them, or, after an error, those before the one that failed.\<close>

lemma perChunk_adds:
  assumes "keeps_jf_playlists A adds entriesOf" and "addingInSteps adds" and "sendable cs"
    and "perChunk m (addChunk A k u) cs v = (r, v')"
  shows "changed_only k (entriesOf v) (entriesOf v')
    \<and> (\<exists>j. map snd (entriesOf v' k) = adds (map snd (entriesOf v k)) (concat (take j cs)) \<and> (r = Inr () \<longrightarrow> length cs \<le> j))"
  using assms(3,4)
proof (induction cs arbitrary: v)
  case Nil
  with assms(2) show ?case by (auto simp: addingInSteps_def changed_only_def)
next
  case (Cons c cs)
  obtain r1 v1 where d: "demand m (addChunk A k u c v) = (r1, v1)" by (cases "demand m (addChunk A k u c v)")
  note step = keeps_jf_add [OF assms(1) _ _ d]
  show ?case
  proof (cases r1)
    case (Inl e)
    with Cons d step have "changed_only k (entriesOf v) (entriesOf v') \<and> map snd (entriesOf v' k) = adds (map snd (entriesOf v k)) []
      \<and> r = Inl e"
      using assms(2) by (auto simp: addingInSteps_def)
    then show ?thesis by (intro conjI exI [of _ 0]) simp_all
  next
    case (Inr x)
    with Cons d have rest: "perChunk m (addChunk A k u) cs v1 = (r, v')" and s: "sendable cs" by simp_all
    from Cons.IH [OF s rest] obtain j where j: "changed_only k (entriesOf v1) (entriesOf v')"
      "map snd (entriesOf v' k) = adds (map snd (entriesOf v1 k)) (concat (take j cs))" "r = Inr () \<longrightarrow> length cs \<le> j"
      by blast
    from step Cons(2) Inr have st: "changed_only k (entriesOf v) (entriesOf v1)"
      "map snd (entriesOf v1 k) = adds (map snd (entriesOf v k)) c" by simp_all
    have "map snd (entriesOf v' k) = adds (map snd (entriesOf v k)) (concat (take (Suc j) (c # cs)))"
      using j(2) st(2) assms(2) by (simp add: addingInSteps_def)
    with j st show ?thesis by (intro conjI exI [of _ "Suc j"]) (simp_all add: changed_only_def)
  qed
qed

text \<open>Removing by chunks: only entries that are sent are gone, and after success all of them.\<close>

lemma perChunk_removes:
  assumes "keeps_jf_playlists A adds entriesOf" and "sendable cs" and "perChunk m (removeChunk A k) cs v = (r, v')"
  shows "\<exists>j. entriesOf v' = (entriesOf v)(k := filter (\<lambda>e. fst e \<notin> set (concat (take j cs))) (entriesOf v k))
    \<and> (r = Inr () \<longrightarrow> length cs \<le> j)"
  using assms(2,3)
proof (induction cs arbitrary: v)
  case (Cons c cs)
  obtain r1 v1 where d: "demand m (removeChunk A k c v) = (r1, v1)" by (cases "demand m (removeChunk A k c v)")
  note step = keeps_jf_remove [OF assms(1) _ _ d]
  show ?case
  proof (cases r1)
    case (Inl e)
    with Cons d step show ?thesis by (intro exI [of _ 0]) auto
  next
    case (Inr x)
    with Cons d have rest: "perChunk m (removeChunk A k) cs v1 = (r, v')" and s: "sendable cs" by simp_all
    from Cons.IH [OF s rest] obtain j where j:
      "entriesOf v' = (entriesOf v1)(k := filter (\<lambda>e. fst e \<notin> set (concat (take j cs))) (entriesOf v1 k))"
      "r = Inr () \<longrightarrow> length cs \<le> j" by blast
    from step Cons(2) Inr have "entriesOf v1 = (entriesOf v)(k := filter (\<lambda>e. fst e \<notin> set c) (entriesOf v k))" by simp
    with j show ?thesis by (intro exI [of _ "Suc j"]) (auto simp: conj_commute)
  qed
qed (auto intro!: exI [of _ 0])

lemma max_items_pos [simp]: "0 < MAX_ITEMS_PER_PLAYLIST_ADD" by (simp add: MAX_ITEMS_PER_PLAYLIST_ADD_def)

lemma chunked_add:
  assumes "keeps_jf_playlists A adds entriesOf" and "addingInSteps adds" and "plain_for (CHR '','') songs"
    and "perChunk m (addChunk A k u) (chunk songs MAX_ITEMS_PER_PLAYLIST_ADD) v = (r, v')"
  shows "changed_only k (entriesOf v) (entriesOf v')
    \<and> (\<exists>j. map snd (entriesOf v' k) = adds (map snd (entriesOf v k)) (take (j * MAX_ITEMS_PER_PLAYLIST_ADD) songs)
        \<and> (r = Inr () \<longrightarrow> length songs \<le> j * MAX_ITEMS_PER_PLAYLIST_ADD))"
proof -
  let ?n = MAX_ITEMS_PER_PLAYLIST_ADD
  from perChunk_adds [OF assms(1,2) sendable_chunk [OF assms(3)] assms(4)] obtain j where
    j: "changed_only k (entriesOf v) (entriesOf v')"
       "map snd (entriesOf v' k) = adds (map snd (entriesOf v k)) (concat (take j (chunk songs ?n)))"
       "r = Inr () \<longrightarrow> length (chunk songs ?n) \<le> j" by blast
  have "length (chunk songs ?n) \<le> j \<Longrightarrow> take (j * ?n) songs = songs"
    using chunk_prefix [of ?n j songs] concat_chunk [of ?n songs] by simp
  then have "length (chunk songs ?n) \<le> j \<Longrightarrow> length songs \<le> j * ?n" by (metis length_take min.cobounded2)
  with j show ?thesis using chunk_prefix [of ?n j songs] by auto
qed

lemma knownIds_entries:
  "map (\<lambda>item. (jo_PlaylistItemId item, jo_Id item)) items = map (\<lambda>(e, s). (Some e, s)) es \<Longrightarrow>
     knownIds (map (\<lambda>item. s_playlistItemId (jfNormalizeSong item server)) items) = map fst es
       \<and> map (\<lambda>item. s_id (jfNormalizeSong item server)) items = map snd es"
proof (induction items arbitrary: es)
  case (Cons item items)
  then show ?case by (cases es) (auto simp: knownIds_def)
qed (simp add: knownIds_def)

lemma jfClearPlaylist_entries:
  assumes "keeps_jf_playlists A adds entriesOf" and "ja_getPlaylistSongList A k v = Reply items"
    and "jfClearPlaylist A k (map (\<lambda>item. jfNormalizeSong item server) items) v = (r, v')"
  shows "changed_only k (entriesOf v) (entriesOf v') \<and> (r = Inr () \<longrightarrow> entriesOf v' k = [])"
proof -
  let ?ks = "map fst (entriesOf v k)"
  have got: "map (\<lambda>item. (jo_PlaylistItemId item, jo_Id item)) items = map (\<lambda>(e, s). (Some e, s)) (entriesOf v k)"
    "plain_for (CHR '','') ?ks"
    using assms(1,2) unfolding keeps_jf_playlists_def by blast+
  from assms(3) knownIds_entries [OF got(1), of server]
  have run: "perChunk ''Failed to remove songs from playlist'' (removeChunk A k) (chunk ?ks MAX_ITEMS_PER_PLAYLIST_ADD) v = (r, v')"
    by (simp add: jfClearPlaylist_def comp_def)
  from perChunk_removes [OF assms(1) sendable_chunk [OF got(2)] run] obtain j where
    j: "entriesOf v' = (entriesOf v)(k := filter (\<lambda>e. fst e \<notin> set (concat (take j (chunk ?ks MAX_ITEMS_PER_PLAYLIST_ADD)))) (entriesOf v k))"
       "r = Inr () \<longrightarrow> length (chunk ?ks MAX_ITEMS_PER_PLAYLIST_ADD) \<le> j" by blast
  show ?thesis
  proof (intro conjI impI)
    show "changed_only k (entriesOf v) (entriesOf v')" using j(1) by (simp add: changed_only_def)
    assume "r = Inr ()"
    with j(2) have "concat (take j (chunk ?ks MAX_ITEMS_PER_PLAYLIST_ADD)) = ?ks" using concat_chunk [of _ ?ks] by simp
    then show "entriesOf v' k = []" using j(1) by (auto simp: filter_empty_conv)
  qed
qed

text \<open>What remains of a playlist after the last two steps of replacing it.\<close>

lemma jfRefill_entries:
  assumes "keeps_jf_playlists A adds entriesOf" and "addingInSteps adds" and "plain_for (CHR '','') songs"
    and "ja_getPlaylistSongList A k v = Reply items"
    and "jfRefill A u k (map (\<lambda>item. jfNormalizeSong item server) items) songs v = (r, v')"
  shows "changed_only k (entriesOf v) (entriesOf v') \<and> (r = Inr () \<longrightarrow> map snd (entriesOf v' k) = adds [] songs)"
proof -
  obtain r1 v1 where clr: "jfClearPlaylist A k (map (\<lambda>item. jfNormalizeSong item server) items) v = (r1, v1)"
    by (cases "jfClearPlaylist A k (map (\<lambda>item. jfNormalizeSong item server) items) v")
  note cleared = jfClearPlaylist_entries [OF assms(1,4) clr]
  show ?thesis
  proof (cases r1)
    case (Inl e)
    with assms(5) clr cleared show ?thesis by (auto simp: jfRefill_def)
  next
    case (Inr x)
    with assms(5) clr have "perChunk ''Failed to add songs to playlist'' (addChunk A k u) (chunk songs MAX_ITEMS_PER_PLAYLIST_ADD) v1 = (r, v')"
      by (simp add: jfRefill_def jfFillPlaylist_def)
    from chunked_add [OF assms(1-3) this] cleared Inr show ?thesis by (auto simp: changed_only_def)
  qed
qed

lemma jfReplace_cases:
  assumes "jfReplacePlaylist A C k songs now v idb = (r, v', idb')"
  obtains e where "r = Inl e" "v' = v" "idb' = idb"
  | items detail where "ja_getPlaylistSongList A k v = Reply items"
      "jfRefill A (the (jc_userId C)) k (map (\<lambda>item. jfNormalizeSong item (jfServerId C)) items) songs v = (r, v')"
      "idb' = idb(backupKey k \<mapsto> \<lparr>bk_id = k, bk_name = jp_Name (detail :: jf_playlist), bk_songIds = map jo_Id items, bk_timestamp = now\<rparr>)"
proof (cases "truthy (jc_userId C)")
  case False
  with assms show ?thesis by (intro that(1)) (auto simp: jfReplacePlaylist_def withUser_def)
next
  case user: True
  show ?thesis
  proof (cases "ja_getPlaylistSongList A k v")
    case Refused
    with assms user show ?thesis by (intro that(1)) (auto simp: jfReplacePlaylist_def withUser_def)
  next
    case got: (Reply items)
    show ?thesis
    proof (cases "ja_getPlaylistDetail A k v")
      case Refused
      with assms user got show ?thesis by (intro that(1)) (auto simp: jfReplacePlaylist_def withUser_def)
    next
      case (Reply detail)
      with assms user got show ?thesis
        by (intro that(2) [OF got, of detail])
          (auto simp: jfReplacePlaylist_def withUser_def jfNormalizePlaylist_def comp_def split: prod.splits)
    qed
  qed
qed

section \<open>Adding to and replacing a playlist\<close>

text \<open>
  Adding songs in chunks of fifty changes no other playlist. After success the playlist is as if all of them were added
  at once, and after an error as if those of the first chunks were.
\<close>

theorem chunked_add_adds_a_prefix:
  assumes "keeps_jf_playlists A adds entriesOf" and "addingInSteps adds" and "plain_for (CHR '','') songs"
    and "jfAddToPlaylist A C k songs v = (r, v')"
  shows "changed_only k (entriesOf v) (entriesOf v')
    \<and> (\<exists>j. map snd (entriesOf v' k) = adds (map snd (entriesOf v k)) (take (j * 50) songs) \<and> (r = Inr () \<longrightarrow> length songs \<le> j * 50))"
proof (cases "truthy (jc_userId C)")
  case True
  with assms(4) chunked_add [OF assms(1-3)] show ?thesis
    by (simp add: jfAddToPlaylist_def withUser_def MAX_ITEMS_PER_PLAYLIST_ADD_def)
next
  case False
  with assms(2,4) show ?thesis
    by (auto simp: jfAddToPlaylist_def withUser_def changed_only_def addingInSteps_def intro!: exI [of _ 0])
qed

text \<open>
  When replacing reports success, the playlist is as if the new songs were added to an empty one, no other changed, and
  the backup holds the songs it had.
\<close>

theorem jf_replace_replaces:
  assumes "keeps_jf_playlists A adds entriesOf" and "addingInSteps adds" and "plain_for (CHR '','') songs"
    and "jfReplacePlaylist A C k songs now v idb = (Inr (), v', idb')"
  shows "map snd (entriesOf v' k) = adds [] songs \<and> changed_only k (entriesOf v) (entriesOf v')
    \<and> map_option bk_songIds (idb' (backupKey k)) = Some (map snd (entriesOf v k))"
  using assms(4)
proof (cases rule: jfReplace_cases)
  case (2 items detail)
  have "map (\<lambda>item. (jo_PlaylistItemId item, jo_Id item)) items = map (\<lambda>(e, s). (Some e, s)) (entriesOf v k)"
    using assms(1) 2(1) unfolding keeps_jf_playlists_def by blast
  from knownIds_entries [OF this] jfRefill_entries [OF assms(1-3) 2(1,2)] 2(3) show ?thesis by simp
qed simp_all

text \<open>When it throws, either nothing changed or the backup holds the songs the playlist had.\<close>

theorem jf_failed_replace_loses_nothing:
  assumes "keeps_jf_playlists A adds entriesOf" and "addingInSteps adds" and "plain_for (CHR '','') songs"
    and "jfReplacePlaylist A C k songs now v idb = (Inl e, v', idb')"
  shows "entriesOf v' = entriesOf v
    \<or> changed_only k (entriesOf v) (entriesOf v')
      \<and> map_option bk_songIds (idb' (backupKey k)) = Some (map snd (entriesOf v k))"
  using assms(4)
proof (cases rule: jfReplace_cases)
  case (2 items detail)
  have "map (\<lambda>item. (jo_PlaylistItemId item, jo_Id item)) items = map (\<lambda>(e, s). (Some e, s)) (entriesOf v k)"
    using assms(1) 2(1) unfolding keeps_jf_playlists_def by blast
  from knownIds_entries [OF this] jfRefill_entries [OF assms(1-3) 2(1,2)] 2(3) show ?thesis by simp
qed simp

section \<open>A server\<close>

text \<open>
  A server that numbers the entries of its playlists in the order in which they are added, and refuses to change the
  playlist with the id \<^verbatim>\<open>locked\<close>.
\<close>

type_synonym numbered = "nat \<times> (string \<Rightarrow> (nat \<times> string) list)"

definition numberedEntries :: "numbered \<Rightarrow> string \<Rightarrow> (string \<times> string) list" where
  "numberedEntries v k = map (\<lambda>(n, s). (decimal n, s)) (snd v k)"

definition songNamed :: "nat \<times> string \<Rightarrow> jf_song" where
  "songNamed e =
     \<lparr>jo_Album = '''', jo_AlbumArtist = '''', jo_AlbumArtists = [], jo_AlbumId = None, jo_AlbumPrimaryImageTag = None,
      jo_ArtistItems = [], jo_DateCreated = '''', jo_GenreItems = [], jo_Id = snd e, jo_ImageTag = None, jo_IndexNumber = 1,
      jo_LUFS = None, jo_MediaSources = [], jo_Name = '''', jo_NormalizationGain = None, jo_ParentIndexNumber = None,
      jo_People = None, jo_PlaylistItemId = Some (decimal (fst e)), jo_PremiereDate = None, jo_ProductionYear = None,
      jo_MusicBrainzTrack = None, jo_RunTimeTicks = 0, jo_SortName = None, jo_Tags = None, jo_Type = '''', jo_UserData = None\<rparr>"

definition numberedApi :: "numbered jf_api" where
  "numberedApi =
     \<lparr>ja_addToPlaylist = (\<lambda>k ks u (n, p).
        if k = ''locked'' then (False, (n, p))
        else (True, (n + length (splitOn (CHR '','') ks), p(k := p k @ enumerate n (splitOn (CHR '','') ks))))),
      ja_removeFromPlaylist = (\<lambda>k ks (n, p).
        (True, (n, p(k := filter (\<lambda>e. decimal (fst e) \<notin> set (splitOn (CHR '','') ks)) (p k))))),
      ja_movePlaylistItem = (\<lambda>s j k v. (False, v)), ja_updatePlaylist = (\<lambda>k q v. (False, v)),
      ja_createPlaylist = (\<lambda>q v. (Refused, v)), ja_deletePlaylist = (\<lambda>k v. (False, v)),
      ja_getPlaylistSongList = (\<lambda>k (n, p). Reply (map songNamed (p k))),
      ja_getPlaylistDetail = (\<lambda>k v. Reply \<lparr>jp_ChildCount = None, jp_GenreItems = [], jp_Id = k, jp_ImageTag = None,
        jp_Name = k, jp_Overview = None, jp_RunTimeTicks = 0\<rparr>),
      ja_createFavorite = (\<lambda>k u v. (False, v)), ja_removeFavorite = (\<lambda>k u v. (False, v)),
      ja_deleteImage = (\<lambda>k v. (False, v)), ja_uploadImage = (\<lambda>q v. (False, v))\<rparr>"

definition exampleUser :: jf_client where
  "exampleUser = \<lparr>jc_server = None, jc_userId = Some ''me'', jc_preferInstantMix = False, jc_authHeader = ''''\<rparr>"

lemma decimal_plain: "CHR '','' \<notin> set (decimal n)"
  using decimal_digits [of n] by (auto simp: list_all_iff isDigit_def)

lemma appending_in_steps: "addingInSteps (@)"
  by (simp add: addingInSteps_def)

lemma numbered_keeps: "keeps_jf_playlists numberedApi (@) numberedEntries"
  unfolding keeps_jf_playlists_def
  by (auto simp: numberedApi_def numberedEntries_def changed_only_def songNamed_def plain_for_def decimal_plain
      map_snd_enumerate filter_map comp_def case_prod_beta fun_eq_iff intro!: arg_cong [where f = "map _"] filter_cong)

definition exampleEntries :: numbered where
  "exampleEntries = (2, (\<lambda>k. [])(''mix'' := [(0, ''a''), (1, ''b'')], ''locked'' := [(7, ''c'')]))"

lemma chunked_add_adds_a_prefix_witness:
  "let v' = snd (jfAddToPlaylist numberedApi exampleUser ''mix'' [''x'', ''y''] exampleEntries)
   in changed_only ''mix'' (numberedEntries exampleEntries) (numberedEntries v')
     \<and> (\<exists>j. map snd (numberedEntries v' ''mix'') = map snd (numberedEntries exampleEntries ''mix'') @ take (j * 50) [''x'', ''y'']
        \<and> (fst (jfAddToPlaylist numberedApi exampleUser ''mix'' [''x'', ''y''] exampleEntries) = Inr ()
            \<longrightarrow> length [''x'', ''y''] \<le> j * 50))"
proof -
  have "plain_for (CHR '','') [''x'', ''y'']" by simp
  from chunked_add_adds_a_prefix [OF numbered_keeps appending_in_steps this
      surjective_pairing [of "jfAddToPlaylist numberedApi exampleUser ''mix'' [''x'', ''y''] exampleEntries"]]
  show ?thesis unfolding Let_def .
qed

lemma jf_replace_replaces_witness:
  "let (r, v', idb') = jfReplacePlaylist numberedApi exampleUser ''mix'' [''x'', ''y''] 5 exampleEntries (\<lambda>_. None)
   in r = Inr () \<and> map snd (numberedEntries v' ''mix'') = [''x'', ''y'']
     \<and> map_option bk_songIds (idb' (backupKey ''mix'')) = Some [''a'', ''b'']"
proof -
  obtain r v' idb' where run: "jfReplacePlaylist numberedApi exampleUser ''mix'' [''x'', ''y''] 5 exampleEntries (\<lambda>_. None) = (r, v', idb')"
    by (metis surj_pair)
  have "fst (jfReplacePlaylist numberedApi exampleUser ''mix'' [''x'', ''y''] 5 exampleEntries (\<lambda>_. None)) = Inr ()" by code_simp
  with run have r: "r = Inr ()" by simp
  have "map snd (numberedEntries exampleEntries ''mix'') = [''a'', ''b'']" by code_simp
  with jf_replace_replaces [OF numbered_keeps appending_in_steps _ run [unfolded r]] show ?thesis by (simp add: run r)
qed

lemma jf_failed_replace_loses_nothing_witness:
  "let (r, v', idb') = jfReplacePlaylist numberedApi exampleUser ''locked'' [''x''] 5 exampleEntries (\<lambda>_. None)
   in r \<noteq> Inr () \<and> (numberedEntries v' = numberedEntries exampleEntries
     \<or> changed_only ''locked'' (numberedEntries exampleEntries) (numberedEntries v')
       \<and> map_option bk_songIds (idb' (backupKey ''locked'')) = Some [''c''])"
proof -
  let ?run = "jfReplacePlaylist numberedApi exampleUser ''locked'' [''x''] 5 exampleEntries (\<lambda>_. None)"
  obtain r v' idb' where run: "?run = (r, v', idb')" by (metis surj_pair)
  have "case fst ?run of Inl e \<Rightarrow> True | Inr _ \<Rightarrow> False" by code_simp
  with run obtain e where r: "r = Inl e" by (auto split: sum.splits)
  have "map snd (numberedEntries exampleEntries ''locked'') = [''c'']" by code_simp
  with jf_failed_replace_loses_nothing [OF numbered_keeps appending_in_steps _ run [unfolded r]] show ?thesis
    by (simp add: run r)
qed

text \<open>Of a favourite, as of a rating for Subsonic, the caller does not learn that the server refused it.\<close>

lemma favorites_never_fail:
  "truthy (jc_userId C) \<Longrightarrow> fst (jfCreateFavorite A C ks v) = Inr () \<and> fst (jfDeleteFavorite A C ks v) = Inr ()"
  by (simp add: jfCreateFavorite_def jfDeleteFavorite_def withUser_def)

text \<open>A report is about the song of the query, at the rounded position.\<close>

lemma report_of_the_song:
  "js_ItemId (rp_body (jfScrobble q)) = sq_id q \<and> js_PositionTicks (rp_body (jfScrobble q)) = math_round (sq_position q)"
  by (simp add: jfScrobble_def Let_def split: option.split scrobble_event.split)

end
