(* ===== verification/JellyfinLists.thy ===== *)
theory JellyfinLists
  imports JellyfinChanges
begin

text \<open>
  The lists, details and folders of Jellyfin servers (\<^verbatim>\<open>api/jellyfin/jellyfin-controller.ts\<close>, with the maps of sort
  orders in \<^verbatim>\<open>shared/types/domain-types.ts\<close> and \<^verbatim>\<open>jellyfin-types.ts\<close>). What the server answers to each request
  is an argument. Unlike Subsonic, the server itself filters, sorts and pages, and tells the total of a list.
\<close>

section \<open>Sort orders\<close>

fun jfAlbumSort :: "AlbumListSort \<Rightarrow> string option" where
  "jfAlbumSort Album_ALBUM_ARTIST = Some ''AlbumArtist,SortName''"
| "jfAlbumSort Album_COMMUNITY_RATING = Some ''CommunityRating,SortName''"
| "jfAlbumSort Album_CRITIC_RATING = Some ''CriticRating,SortName''"
| "jfAlbumSort Album_NAME = Some ''SortName''"
| "jfAlbumSort Album_PLAY_COUNT = Some ''PlayCount''"
| "jfAlbumSort Album_RANDOM = Some ''Random,SortName''"
| "jfAlbumSort Album_RECENTLY_ADDED = Some ''DateCreated,SortName''"
| "jfAlbumSort Album_RELEASE_DATE = Some ''ProductionYear,PremiereDate,SortName''"
| "jfAlbumSort Album_SORT_NAME = Some ''SortName''"
| "jfAlbumSort _ = None"

fun jfSongSort :: "SongListSort \<Rightarrow> string option" where
  "jfSongSort Song_ALBUM = Some ''Album,SortName''"
| "jfSongSort Song_ALBUM_ARTIST = Some ''AlbumArtist,Album,SortName''"
| "jfSongSort Song_ARTIST = Some ''Artist,Album,SortName''"
| "jfSongSort Song_DURATION = Some ''Runtime,AlbumArtist,Album,SortName''"
| "jfSongSort Song_NAME = Some ''Name''"
| "jfSongSort Song_PLAY_COUNT = Some ''PlayCount,SortName''"
| "jfSongSort Song_RANDOM = Some ''Random,SortName''"
| "jfSongSort Song_RECENTLY_ADDED = Some ''DateCreated,SortName''"
| "jfSongSort Song_RECENTLY_PLAYED = Some ''DatePlayed,SortName''"
| "jfSongSort Song_RELEASE_DATE = Some ''PremiereDate,AlbumArtist,Album,SortName''"
| "jfSongSort Song_SORT_NAME = Some ''Name''"
| "jfSongSort _ = None"

fun jfArtistSort :: "AlbumArtistListSort \<Rightarrow> string option" where
  "jfArtistSort Artist_ALBUM = Some ''Album,SortName''"
| "jfArtistSort Artist_DURATION = Some ''Runtime,AlbumArtist,Album,SortName''"
| "jfArtistSort Artist_NAME = Some ''SortName,Name''"
| "jfArtistSort Artist_RANDOM = Some ''Random,SortName''"
| "jfArtistSort Artist_RECENTLY_ADDED = Some ''DateCreated,SortName''"
| "jfArtistSort _ = None"

fun jfPlaylistSort :: "PlaylistListSort \<Rightarrow> string option" where
  "jfPlaylistSort Playlist_DURATION = Some ''Runtime''"
| "jfPlaylistSort Playlist_NAME = Some ''SortName''"
| "jfPlaylistSort Playlist_SONG_COUNT = Some ''ChildCount''"
| "jfPlaylistSort _ = None"

fun jfSortOrder :: "SortOrder \<Rightarrow> string" where
  "jfSortOrder ASC = ''Ascending''"
| "jfSortOrder DESC = ''Descending''"

section \<open>Requests\<close>

text \<open>The parameters that select, sort and page; those that no request leaves open, like the fields, are left out.\<close>

record jf_items =
  ji_AlbumIds :: "string option"
  ji_AlbumArtistIds :: "string option"
  ji_ArtistIds :: "string option"
  ji_ContributingArtistIds :: "string option"
  ji_GenreIds :: "string option"
  ji_IsFavorite :: "bool option"
  ji_IsPlayed :: "bool option"
  ji_Limit :: "nat option"
  ji_ParentId :: "string option"
  ji_SearchTerm :: "string option"
  ji_SortBy :: "string option"
  ji_SortOrder :: "string option"
  ji_StartIndex :: "nat option"
  ji_UserId :: "string option"
  ji_Years :: "string option"

definition noItems :: jf_items where
  "noItems = \<lparr>ji_AlbumIds = None, ji_AlbumArtistIds = None, ji_ArtistIds = None, ji_ContributingArtistIds = None,
     ji_GenreIds = None, ji_IsFavorite = None, ji_IsPlayed = None, ji_Limit = None, ji_ParentId = None,
     ji_SearchTerm = None, ji_SortBy = None, ji_SortOrder = None, ji_StartIndex = None, ji_UserId = None, ji_Years = None\<rparr>"

text \<open>An item of a folder, and the song that it is when it has sources; the libraries with their kind.\<close>

type_synonym jf_child = "jf_folder \<times> jf_song option"

type_synonym jf_library = "string \<times> string \<times> string option"

text \<open>Lists are answered with their total. The instant mix and the similar songs are asked for by an id, the
  user and a number.\<close>

record jf_server =
  jv_songs :: "string \<Rightarrow> jf_items \<Rightarrow> (jf_song list \<times> nat) reply"
  jv_albums :: "string \<Rightarrow> jf_items \<Rightarrow> (jf_album list \<times> nat) reply"
  jv_album :: "string \<Rightarrow> string \<Rightarrow> jf_album reply"
  jv_albumArtists :: "jf_items \<Rightarrow> (jf_artist list \<times> nat) reply"
  jv_albumArtist :: "string \<Rightarrow> string \<Rightarrow> jf_artist reply"
  jv_artists :: "jf_items \<Rightarrow> (jf_artist list \<times> nat) reply"
  jv_genres :: "jf_items \<Rightarrow> (jf_genre list \<times> nat) reply"
  jv_playlists :: "string \<Rightarrow> jf_items \<Rightarrow> (jf_playlist list \<times> nat) reply"
  jv_playlistSongs :: "string \<Rightarrow> string \<Rightarrow> (jf_song list \<times> nat) reply"
  jv_playlist :: "string \<Rightarrow> string \<Rightarrow> jf_playlist reply"
  jv_song :: "string \<Rightarrow> string \<Rightarrow> jf_song reply"
  jv_similarSongs :: "string \<Rightarrow> string option \<Rightarrow> nat option \<Rightarrow> jf_song list reply"
  jv_instantMix :: "string \<Rightarrow> string option \<Rightarrow> nat option \<Rightarrow> jf_song list reply"
  jv_similarArtists :: "string \<Rightarrow> nat \<Rightarrow> jf_artist list option reply"
  jv_libraries :: "string \<Rightarrow> jf_child list reply"
  jv_collections :: "string \<Rightarrow> jf_library list reply"
  jv_folder :: "string \<Rightarrow> jf_items \<Rightarrow> jf_child list reply"
  jv_lyrics :: "string \<Rightarrow> (rat option \<times> string) list reply"
  jv_user :: "string \<Rightarrow> (string \<times> bool option \<times> string) reply"

text \<open>
  The query of a list as the client states it. A limit of minus one, which albums, songs and genres know, is none, and \<open>_custom\<close> is what its
  entries make of the request.
\<close>

record jf_query =
  qy_limit :: "nat option"
  qy_musicFolderId :: "folder_ids option"
  qy_searchTerm :: "string option"
  qy_sortOrder :: SortOrder
  qy_startIndex :: nat
  qy_favorite :: "bool option"
  qy_minYear :: "nat option"
  qy_maxYear :: "nat option"
  qy_custom :: "jf_items \<Rightarrow> jf_items"

record jf_song_query = jf_query +
  qs_albumArtistIds :: "string list option"
  qs_albumIds :: "string list option"
  qs_artistIds :: "string list option"
  qs_genreIds :: "string list option"
  qs_sortBy :: SongListSort

record jf_album_query = jf_query +
  qa_artistIds :: "string list option"
  qa_compilation :: "bool option"
  qa_genreIds :: "string list option"
  qa_sortBy :: AlbumListSort

record jf_artist_query = jf_query +
  qr_sortBy :: AlbumArtistListSort

definition formatCommaDelimitedString :: "string list \<Rightarrow> string" where
  "formatCommaDelimitedString xs = joinWith '','' xs"

text \<open>The years from the first to the last; both have to be given, and not zero.\<close>

definition yearsFilter :: "nat option \<Rightarrow> nat option \<Rightarrow> string option" where
  "yearsFilter minYear maxYear =
     (let yearsGroup = (if truthy_year minYear \<and> truthy_year maxYear
            then map decimal [the minYear..<Suc (the maxYear)] else [])
      in if yearsGroup \<noteq> [] then Some (formatCommaDelimitedString yearsGroup) else None)"

text \<open>What the lists of songs, albums and artists have in common.\<close>

definition pagedItems :: "'m jf_query_scheme \<Rightarrow> string \<Rightarrow> jf_items" where
  "pagedItems q sortBy = noItems
     \<lparr>ji_Limit := qy_limit q, ji_ParentId := getLibraryId (qy_musicFolderId q), ji_SearchTerm := qy_searchTerm q,
      ji_SortBy := Some sortBy, ji_SortOrder := Some (jfSortOrder (qy_sortOrder q)), ji_StartIndex := Some (qy_startIndex q)\<rparr>"

definition jfPage :: "'m jf_query_scheme \<Rightarrow> ('a \<Rightarrow> 'b) \<Rightarrow> 'a list \<times> nat \<Rightarrow> 'b page" where
  "jfPage q f res =
     \<lparr>pg_items = map f (fst res), pg_startIndex = qy_startIndex q, pg_totalRecordCount = Some (snd res)\<rparr>"

definition needUser :: "jf_client \<Rightarrow> (string \<Rightarrow> api_error + 'a) \<Rightarrow> api_error + 'a" where
  "needUser C f = (if truthy (jc_userId C) then f (the (jc_userId C)) else Inl (Api ''No userId found''))"

definition userOrUndefined :: "jf_client \<Rightarrow> string option" where
  "userOrUndefined C = text_or_null (jc_userId C)"

definition jfSong :: "jf_client \<Rightarrow> jf_song \<Rightarrow> full_song" where
  "jfSong C item = jfNormalizeSong item (jfServerId C)"

definition jfAlbum :: "jf_client \<Rightarrow> jf_album \<Rightarrow> album" where
  "jfAlbum C item = jfNormalizeAlbum item (jfServerId C)"

definition jfArtist :: "jf_client \<Rightarrow> jf_artist \<Rightarrow> album_artist" where
  "jfArtist C item = jfNormalizeAlbumArtist item [] (jfServerId C)"

text \<open>A count asks for a page with one item, and returns the total that comes with it.\<close>

definition countQuery :: "'m jf_query_scheme \<Rightarrow> 'm jf_query_scheme" where
  "countQuery q = q\<lparr>qy_limit := Some 1, qy_startIndex := 0\<rparr>"

definition countOf :: "api_error + 'a page \<Rightarrow> api_error + nat option" where
  "countOf r = (case r of Inl e \<Rightarrow> Inl e | Inr p \<Rightarrow> Inr (pg_totalRecordCount p))"

section \<open>Artists, albums, genres and playlists\<close>

definition artistItems :: "jf_client \<Rightarrow> 'm jf_artist_query_scheme \<Rightarrow> jf_items" where
  "artistItems C q =
     (pagedItems q (text_or (jfArtistSort (qr_sortBy q)) ''SortName,Name''))\<lparr>ji_UserId := userOrUndefined C\<rparr>"

definition jfGetAlbumArtistList :: "jf_server \<Rightarrow> jf_client \<Rightarrow> 'm jf_artist_query_scheme \<Rightarrow> api_error + album_artist page" where
  "jfGetAlbumArtistList S C q =
     reply_or ''Failed to get album artist list''
       (jv_albumArtists S ((artistItems C q)\<lparr>ji_IsFavorite := qy_favorite q\<rparr>)) (\<lambda>res. Inr (jfPage q (jfArtist C) res))"

definition jfGetAlbumArtistListCount :: "jf_server \<Rightarrow> jf_client \<Rightarrow> 'm jf_artist_query_scheme \<Rightarrow> api_error + nat option" where
  "jfGetAlbumArtistListCount S C q = countOf (jfGetAlbumArtistList S C (countQuery q))"

definition jfGetArtistList :: "jf_server \<Rightarrow> jf_client \<Rightarrow> 'm jf_artist_query_scheme \<Rightarrow> api_error + album_artist page" where
  "jfGetArtistList S C q =
     reply_or ''Failed to get album artist list'' (jv_artists S (artistItems C q)) (\<lambda>res. Inr (jfPage q (jfArtist C) res))"

definition jfGetArtistListCount :: "jf_server \<Rightarrow> jf_client \<Rightarrow> 'm jf_artist_query_scheme \<Rightarrow> api_error + nat option" where
  "jfGetArtistListCount S C q = countOf (jfGetArtistList S C (countQuery q))"

text \<open>The artists are those who contribute to compilations, those of the albums, or all that are credited.\<close>

definition artistParameters :: "'m jf_album_query_scheme \<Rightarrow> jf_items \<Rightarrow> jf_items" where
  "artistParameters q r =
     (case qa_artistIds q of
        None \<Rightarrow> r
      | Some ks \<Rightarrow>
          let artists = Some (formatCommaDelimitedString ks)
          in case qa_compilation q of
               Some True \<Rightarrow> r\<lparr>ji_ContributingArtistIds := artists\<rparr>
             | Some False \<Rightarrow> r\<lparr>ji_AlbumArtistIds := artists\<rparr>
             | None \<Rightarrow> r\<lparr>ji_ArtistIds := artists\<rparr>)"

definition albumItems :: "'m jf_album_query_scheme \<Rightarrow> jf_items" where
  "albumItems q =
     (qy_custom q ((artistParameters q (pagedItems q (text_or (jfAlbumSort (qa_sortBy q)) ''SortName'')))
        \<lparr>ji_GenreIds := map_option formatCommaDelimitedString (qa_genreIds q), ji_IsFavorite := qy_favorite q\<rparr>))
     \<lparr>ji_Years := yearsFilter (qy_minYear q) (qy_maxYear q)\<rparr>"

definition jfGetAlbumList :: "jf_server \<Rightarrow> jf_client \<Rightarrow> 'm jf_album_query_scheme \<Rightarrow> api_error + album page" where
  "jfGetAlbumList S C q =
     needUser C (\<lambda>u. reply_or ''Failed to get album list'' (jv_albums S u (albumItems q)) (\<lambda>res. Inr (jfPage q (jfAlbum C) res)))"

definition jfGetAlbumListCount :: "jf_server \<Rightarrow> jf_client \<Rightarrow> 'm jf_album_query_scheme \<Rightarrow> api_error + nat option" where
  "jfGetAlbumListCount S C q = countOf (jfGetAlbumList S C (countQuery q))"

text \<open>Both requests are made before either is looked at; of the songs only those of the album itself are kept.\<close>

definition albumSongsItems :: "string \<Rightarrow> string \<Rightarrow> jf_items" where
  "albumSongsItems u k = noItems\<lparr>ji_AlbumIds := Some k, ji_SortBy := Some ''ParentIndexNumber,IndexNumber,SortName'',
     ji_SortOrder := Some ''Ascending'', ji_StartIndex := Some 0, ji_UserId := Some u\<rparr>"

definition jfGetAlbumDetail :: "jf_server \<Rightarrow> jf_client \<Rightarrow> string \<Rightarrow> api_error + album" where
  "jfGetAlbumDetail S C k =
     needUser C (\<lambda>u. reply_or ''Failed to get album detail'' (jv_album S u k) (\<lambda>res.
       reply_or ''Failed to get album detail'' (jv_songs S u (albumSongsItems u k)) (\<lambda>(items, total0).
         Inr (jfAlbum C (res\<lparr>jb_Songs := filter (\<lambda>item. jo_AlbumId item = Some k) items\<rparr>)))))"

definition jfGetAlbumArtistDetail :: "jf_server \<Rightarrow> jf_client \<Rightarrow> string \<Rightarrow> api_error + album_artist" where
  "jfGetAlbumArtistDetail S C k =
     needUser C (\<lambda>u. reply_or ''Failed to get album artist detail'' (jv_albumArtist S u k) (\<lambda>res. Inr (jfArtist C res)))"

text \<open>A refused request for similar artists gives null, and does not throw.\<close>

record jf_similar =
  jz_id :: string
  jz_imageId :: "string option"
  jz_name :: string
  jz_userFavorite :: bool

definition similarArtist :: "jf_artist \<Rightarrow> jf_similar" where
  "similarArtist entry =
     \<lparr>jz_id = jt_Id entry, jz_imageId = getImageIdOf (jt_ImageTag entry) (jt_Id entry), jz_name = jt_Name entry,
      jz_userFavorite = favored (jt_UserData entry)\<rparr>"

definition jfGetAlbumArtistInfo :: "jf_server \<Rightarrow> string \<Rightarrow> nat option \<Rightarrow> jf_similar list option option" where
  "jfGetAlbumArtistInfo S k limit0 =
     (case jv_similarArtists S k (nullish_or limit0 10) of
        Refused \<Rightarrow> None
      | Reply items \<Rightarrow>
          Some (map_option (\<lambda>xs. map similarArtist (filter (\<lambda>entry. jt_Name entry \<noteq> ''Various Artists'') xs)) items))"

definition jfGetGenreList :: "jf_server \<Rightarrow> jf_client \<Rightarrow> 'm jf_query_scheme \<Rightarrow> api_error + genre page" where
  "jfGetGenreList S C q =
     needUser C (\<lambda>u. reply_or ''Failed to get genre list''
       (jv_genres S ((pagedItems q ''SortName'')\<lparr>ji_UserId := Some u\<rparr>))
       (\<lambda>res. Inr (jfPage q (\<lambda>item. jfNormalizeGenre item (jfServerId C)) res)))"

definition jfGetPlaylistList ::
    "jf_server \<Rightarrow> jf_client \<Rightarrow> 'm jf_query_scheme \<Rightarrow> PlaylistListSort \<Rightarrow> api_error + playlist page" where
  "jfGetPlaylistList S C q sortBy =
     needUser C (\<lambda>u. reply_or ''Failed to get playlist list''
       (jv_playlists S u ((pagedItems q '''')\<lparr>ji_ParentId := None, ji_SortBy := jfPlaylistSort sortBy\<rparr>))
       (\<lambda>res. Inr ((jfPage q (\<lambda>item. jfNormalizePlaylist item (jfServerId C)) res)\<lparr>pg_startIndex := 0\<rparr>)))"

definition jfGetPlaylistListCount ::
    "jf_server \<Rightarrow> jf_client \<Rightarrow> 'm jf_query_scheme \<Rightarrow> PlaylistListSort \<Rightarrow> api_error + nat option" where
  "jfGetPlaylistListCount S C q sortBy = countOf (jfGetPlaylistList S C (countQuery q) sortBy)"

definition jfGetPlaylistDetail :: "jf_server \<Rightarrow> jf_client \<Rightarrow> string \<Rightarrow> api_error + playlist" where
  "jfGetPlaylistDetail S C k =
     needUser C (\<lambda>u. reply_or ''Failed to get playlist detail'' (jv_playlist S u k)
       (\<lambda>res. Inr (jfNormalizePlaylist res (jfServerId C))))"

definition jfGetPlaylistSongList :: "jf_server \<Rightarrow> jf_client \<Rightarrow> string \<Rightarrow> api_error + full_song page" where
  "jfGetPlaylistSongList S C k =
     needUser C (\<lambda>u. reply_or ''Failed to get playlist song list'' (jv_playlistSongs S u k)
       (\<lambda>(items, n). Inr \<lparr>pg_items = map (jfSong C) items, pg_startIndex = 0, pg_totalRecordCount = Some n\<rparr>))"

section \<open>Songs\<close>

definition songArtists :: "'m jf_song_query_scheme \<Rightarrow> string option" where
  "songArtists q =
     (case qs_artistIds q of
        Some ks \<Rightarrow> Some (formatCommaDelimitedString ks)
      | None \<Rightarrow> map_option formatCommaDelimitedString (qs_albumArtistIds q))"

definition songItems :: "'m jf_song_query_scheme \<Rightarrow> string option \<Rightarrow> jf_items" where
  "songItems q albumIdsFilter =
     (qy_custom q ((pagedItems q (text_or (jfSongSort (qs_sortBy q)) ''Album,SortName''))
        \<lparr>ji_AlbumIds := albumIdsFilter, ji_ArtistIds := songArtists q,
         ji_GenreIds := map_option formatCommaDelimitedString (qs_genreIds q), ji_IsFavorite := qy_favorite q\<rparr>))
     \<lparr>ji_Years := yearsFilter (qy_minYear q) (qy_maxYear q)\<rparr>"

text \<open>One request for each batch of albums; the answers are joined, and any that is refused ends the loop.\<close>

primrec songBatches :: "(string list \<Rightarrow> (jf_song list \<times> nat) reply) \<Rightarrow> string list list \<Rightarrow> api_error + jf_song list" where
  "songBatches fetch [] = Inr []"
| "songBatches fetch (batch # batches) =
     reply_or ''Failed to get song list'' (fetch batch) (\<lambda>(items, total0).
       case songBatches fetch batches of Inl e \<Rightarrow> Inl e | Inr rest \<Rightarrow> Inr (items @ rest))"

definition batchSize :: nat where "batchSize = 50"

text \<open>A few albums are asked for at once, and songs of other albums with the same name are taken out.\<close>

definition songsAtOnce ::
    "(string option \<Rightarrow> (jf_song list \<times> nat) reply) \<Rightarrow> string list option \<Rightarrow> api_error + jf_song list \<times> nat" where
  "songsAtOnce fetch albumIds =
     reply_or ''Failed to get song list'' (fetch (map_option formatCommaDelimitedString albumIds)) (\<lambda>(items, n).
       case albumIds of
         None \<Rightarrow> Inr (items, n)
       | Some ks \<Rightarrow>
           let own = filter (\<lambda>item. jo_AlbumId item \<in> Some ` set ks) items in Inr (own, length own))"

definition jfGetSongList :: "jf_server \<Rightarrow> jf_client \<Rightarrow> 'm jf_song_query_scheme \<Rightarrow> api_error + full_song page" where
  "jfGetSongList S C q =
     needUser C (\<lambda>u.
       let albumIds = nullish_or (qs_albumIds q) [];
           found = (if length albumIds > batchSize
             then map_sum id (\<lambda>items. (items, length items))
               (songBatches (\<lambda>batch. jv_songs S u (songItems q (Some (formatCommaDelimitedString batch)))) (chunk albumIds batchSize))
             else songsAtOnce (\<lambda>ks. jv_songs S u (songItems q ks)) (qs_albumIds q))
       in map_sum id (jfPage q (jfSong C)) found)"

definition jfGetSongListCount :: "jf_server \<Rightarrow> jf_client \<Rightarrow> 'm jf_song_query_scheme \<Rightarrow> api_error + nat option" where
  "jfGetSongListCount S C q = countOf (jfGetSongList S C (countQuery q))"

datatype played_filter = Played_all | Played_never | Played_played

text \<open>Random songs come in one page from the start.\<close>

record jf_random_query =
  jq_genre :: "string option"
  jq_limit :: "nat option"
  jq_maxYear :: "nat option"
  jq_minYear :: "nat option"
  jq_musicFolderId :: "folder_ids option"
  jq_played :: played_filter

definition randomItems :: "jf_random_query \<Rightarrow> jf_items" where
  "randomItems q = noItems
     \<lparr>ji_GenreIds := text_or_null (jq_genre q),
      ji_IsPlayed := (case jq_played q of Played_never \<Rightarrow> Some False | Played_played \<Rightarrow> Some True | Played_all \<Rightarrow> None),
      ji_Limit := jq_limit q, ji_ParentId := getLibraryId (jq_musicFolderId q), ji_SortBy := Some ''Random,SortName'',
      ji_SortOrder := Some ''Ascending'', ji_StartIndex := Some 0, ji_Years := yearsFilter (jq_minYear q) (jq_maxYear q)\<rparr>"

definition jfGetRandomSongList :: "jf_server \<Rightarrow> jf_client \<Rightarrow> jf_random_query \<Rightarrow> api_error + full_song page" where
  "jfGetRandomSongList S C q =
     needUser C (\<lambda>u. reply_or ''Failed to get random songs'' (jv_songs S u (randomItems q))
       (\<lambda>(items, n). Inr (songPage (map (jfSong C) items))))"

text \<open>The songs of an answer but for the one that is asked about.\<close>

definition otherSongs :: "jf_client \<Rightarrow> string \<Rightarrow> jf_song list \<Rightarrow> full_song list" where
  "otherSongs C songId items = map (jfSong C) (filter (\<lambda>song. jo_Id song \<noteq> songId) items)"

text \<open>Similar songs, or, when the user prefers it or there are none, an instant mix.\<close>

definition jfGetSimilarSongs :: "jf_server \<Rightarrow> jf_client \<Rightarrow> string \<Rightarrow> nat option \<Rightarrow> api_error + full_song list" where
  "jfGetSimilarSongs S C songId n =
     (let results = (if jc_preferInstantMix C then []
            else case jv_similarSongs S songId (userOrUndefined C) n of
                   Refused \<Rightarrow> [] | Reply items \<Rightarrow> otherSongs C songId items)
      in if results \<noteq> [] then Inr results
         else reply_or ''Failed to get similar songs'' (jv_instantMix S songId (userOrUndefined C) n)
           (\<lambda>items. Inr (otherSongs C songId items)))"

definition jfGetAlbumRadio :: "jf_server \<Rightarrow> jf_client \<Rightarrow> string \<Rightarrow> nat option \<Rightarrow> api_error + full_song list" where
  "jfGetAlbumRadio S C albumId n =
     reply_or ''Failed to get album radio songs'' (jv_instantMix S albumId (userOrUndefined C) n)
       (\<lambda>items. Inr (map (jfSong C) items))"

definition jfGetArtistRadio :: "jf_server \<Rightarrow> jf_client \<Rightarrow> string \<Rightarrow> nat option \<Rightarrow> api_error + full_song list" where
  "jfGetArtistRadio S C artistId n =
     reply_or ''Failed to get artist radio songs'' (jv_instantMix S artistId (userOrUndefined C) n)
       (\<lambda>items. Inr (map (jfSong C) items))"

definition jfGetSongDetail :: "jf_server \<Rightarrow> jf_client \<Rightarrow> string \<Rightarrow> api_error + full_song" where
  "jfGetSongDetail S C k =
     reply_or ''Failed to get song detail'' (jv_song S (nullish_or (jc_userId C) '''') k) (\<lambda>res. Inr (jfSong C res))"

text \<open>The personal top songs are sorted again on the client.\<close>

definition topItems :: "bool \<Rightarrow> string \<Rightarrow> nat option \<Rightarrow> string \<Rightarrow> jf_items" where
  "topItems personal artistId limit0 u = noItems
     \<lparr>ji_ArtistIds := Some artistId, ji_Limit := limit0,
      ji_SortBy := Some (if personal then ''PlayCount,SortName'' else ''CommunityRating,SortName''),
      ji_SortOrder := Some ''Descending'', ji_UserId := Some u\<rparr>"

definition jfGetTopSongs ::
    "jf_server \<Rightarrow> full_song order_by \<Rightarrow> jf_client \<Rightarrow> bool \<Rightarrow> string \<Rightarrow> nat option \<Rightarrow> api_error + full_song page" where
  "jfGetTopSongs S orderSongs C personal artistId limit0 =
     needUser C (\<lambda>u. reply_or ''Failed to get top song list'' (jv_songs S u (topItems personal artistId limit0 u)) (\<lambda>(res, n).
       let items = map (jfSong C) res;
           sorted_items = (if personal
             then orderSongs [\<lambda>v. Key_num (of_int (s_playCount v)), \<lambda>v. Key_text (s_albumId v), trackKey] [True, False, False] items
             else items)
       in Inr \<lparr>pg_items = sorted_items, pg_startIndex = 0, pg_totalRecordCount = Some n\<rparr>))"

section \<open>Search, lyrics and users\<close>

record jf_search_query =
  jh_albumArtistLimit :: "nat option"
  jh_albumArtistStartIndex :: "nat option"
  jh_albumLimit :: "nat option"
  jh_albumStartIndex :: "nat option"
  jh_query :: "string option"
  jh_songLimit :: "nat option"
  jh_songStartIndex :: "nat option"

text \<open>A part with no limit, or with zero, is not asked for.\<close>

definition searchPart ::
    "string \<Rightarrow> nat option \<Rightarrow> (jf_items \<Rightarrow> ('a list \<times> nat) reply) \<Rightarrow> string option \<Rightarrow> nat option \<Rightarrow> api_error + 'a list" where
  "searchPart message limit0 fetch term0 startIndex =
     (if nullish_or limit0 0 = 0 then Inr []
      else reply_or message
        (fetch (noItems\<lparr>ji_Limit := limit0, ji_SearchTerm := term0, ji_StartIndex := Some (nullish_or startIndex 0)\<rparr>))
        (\<lambda>res. Inr (fst res)))"

definition ascendingBy :: "string \<Rightarrow> jf_items \<Rightarrow> jf_items" where
  "ascendingBy sortBy r = r\<lparr>ji_SortBy := Some sortBy, ji_SortOrder := Some ''Ascending''\<rparr>"

definition jfSearch ::
    "jf_server \<Rightarrow> jf_client \<Rightarrow> jf_search_query \<Rightarrow> api_error + album_artist list \<times> album list \<times> full_song list" where
  "jfSearch S C q =
     needUser C (\<lambda>u.
       case searchPart ''Failed to get album list'' (jh_albumLimit q)
              (\<lambda>r. jv_albums S u (ascendingBy ''SortName'' r)) (jh_query q) (jh_albumStartIndex q) of
         Inl e \<Rightarrow> Inl e
       | Inr albums \<Rightarrow>
           (case searchPart ''Failed to get album artist list'' (jh_albumArtistLimit q)
                  (\<lambda>r. jv_albumArtists S (r\<lparr>ji_UserId := Some u\<rparr>)) (jh_query q) (jh_albumArtistStartIndex q) of
              Inl e \<Rightarrow> Inl e
            | Inr albumArtists \<Rightarrow>
                (case searchPart ''Failed to get song list'' (jh_songLimit q)
                       (\<lambda>r. jv_songs S u ((ascendingBy ''Album,SortName'' r)\<lparr>ji_UserId := Some u\<rparr>))
                       (jh_query q) (jh_songStartIndex q) of
                   Inl e \<Rightarrow> Inl e
                 | Inr songs \<Rightarrow> Inr (map (jfArtist C) albumArtists, map (jfAlbum C) albums, map (jfSong C) songs))))"

datatype jf_lyrics = Unsynced string | Synced "(rat option \<times> string) list"

text \<open>Lyrics whose first line has no time are a text; a time is a number of ticks, told in milliseconds.\<close>

definition jfGetLyrics :: "jf_server \<Rightarrow> jf_client \<Rightarrow> string \<Rightarrow> api_error + jf_lyrics" where
  "jfGetLyrics S C songId =
     needUser C (\<lambda>u. reply_or ''Failed to get lyrics'' (jv_lyrics S songId) (\<lambda>ls.
       Inr (if ls \<noteq> [] \<and> fst (hd ls) = None then Unsynced (joinLines (map snd ls))
            else Synced (map (\<lambda>(start, line). (map_option (\<lambda>t. t / 10000) start, line)) ls))))"

text \<open>Only the libraries for music are folders of music: their ids and names.\<close>

definition jfGetMusicFolderList :: "jf_server \<Rightarrow> jf_client \<Rightarrow> api_error + (string \<times> string) page" where
  "jfGetMusicFolderList S C =
     needUser C (\<lambda>u. reply_or ''Failed to get genre list'' (jv_collections S u) (\<lambda>items.
       let musicFolders = filter (\<lambda>(k, n, kind). kind = Some ''music'') items
       in Inr \<lparr>pg_items = map (\<lambda>(k, n, kind). (k, n)) musicFolders, pg_startIndex = 0,
               pg_totalRecordCount = Some (length musicFolders)\<rparr>))"

definition jfGetUserInfo :: "jf_server \<Rightarrow> string \<Rightarrow> api_error + string \<times> bool \<times> string" where
  "jfGetUserInfo S k =
     reply_or ''Failed to get user info'' (jv_user S k) (\<lambda>(u, admin, name). Inr (u, nullish_or admin False, name))"

section \<open>Folders\<close>

definition truthy_folders :: "folder_ids option \<Rightarrow> bool" where
  "truthy_folders f = (case f of None \<Rightarrow> False | Some (One_folder k) \<Rightarrow> k \<noteq> '''' | Some (Many_folders ks) \<Rightarrow> True)"

definition notAudio :: "jf_child list \<Rightarrow> jf_folder list" where
  "notAudio items = filter (\<lambda>item. jx_Type item \<noteq> ''Audio'') (map fst items)"

definition jfListing :: "jf_client \<Rightarrow> media_folder list \<Rightarrow> full_song list \<Rightarrow> string \<Rightarrow> string \<Rightarrow> string option \<Rightarrow> media_folder" where
  "jfListing C folders songs k name parentId = Folder (serverIdOf (jfServerId C)) JELLYFIN folders songs k None name parentId"

text \<open>The folders at the root; to search among them reads their names before they are normalised.\<close>

definition jfRootFolder ::
    "ss_client \<Rightarrow> media_folder order_by \<Rightarrow> jf_client \<Rightarrow> folder_query \<Rightarrow> jf_child list \<Rightarrow> api_error + folder_listing" where
  "jfRootFolder L orderFolders C q children =
     (let items = notAudio children;
          search = truthy (fq_searchTerm q);
          found = (if search then filter (\<lambda>item. nameMatches L (the (fq_searchTerm q)) (the (jx_Name item))) items else items);
          folders = map (\<lambda>item. jfNormalizeFolder item (jfServerId C)) found
      in if search \<and> list_ex (\<lambda>item. jx_Name item = None) items then Inl Type_error
         else Inr \<lparr>fd_serverId = serverIdOf (jfServerId C), fd_folders = sortFolders L orderFolders (fq_sortOrder q) folders,
                   fd_songs = [], fd_id = fq_id q, fd_imageId = None, fd_name = ''~'', fd_parentId = None\<rparr>)"

text \<open>The name and the parent of a folder are looked up among the children of the parent of its first child.\<close>

definition folderPlace :: "jf_server \<Rightarrow> string \<Rightarrow> string \<Rightarrow> jf_child list \<Rightarrow> string \<times> string option" where
  "folderPlace S u k items =
     (case items of
        [] \<Rightarrow> (''Unknown folder'', None)
      | firstItem # _ \<Rightarrow>
          let parentId = jx_ParentId (fst firstItem)
          in if \<not> truthy parentId then (''Unknown folder'', parentId)
             else case jv_folder S u (noItems\<lparr>ji_ParentId := parentId\<rparr>) of
                    Refused \<Rightarrow> (''Unknown folder'', parentId)
                  | Reply siblings \<Rightarrow>
                      (case List.find (\<lambda>c. jx_Id (fst c) = k) siblings of
                         None \<Rightarrow> (''Unknown folder'', parentId)
                       | Some c \<Rightarrow> (text_or (jx_Name (fst c)) ''Unknown folder'', jx_ParentId (fst c))))"

definition folderItems :: "folder_query \<Rightarrow> jf_items" where
  "folderItems q = noItems
     \<lparr>ji_ParentId := Some (fq_id q),
      ji_SortBy := Some (text_or (Option.bind (fq_sortBy q) jfSongSort) ''SortName''),
      ji_SortOrder := Some (jfSortOrder (nullish_or (fq_sortOrder q) ASC))\<rparr>"

text \<open>The songs are the items of type audio that have sources.\<close>

definition childSongs :: "jf_child list \<Rightarrow> jf_song list" where
  "childSongs items = map (\<lambda>c. the (snd c)) (filter (\<lambda>c. jx_Type (fst c) = ''Audio'' \<and> snd c \<noteq> None) items)"

definition jfGetFolder ::
    "jf_server \<Rightarrow> ss_client \<Rightarrow> media_folder order_by \<Rightarrow> jf_client \<Rightarrow> folder_query \<Rightarrow> api_error + folder_listing" where
  "jfGetFolder S L orderFolders C q =
     needUser C (\<lambda>u.
       if fq_id q = ''0'' then
         reply_or ''Failed to get music folder list''
           (if truthy_folders (fq_musicFolderId q)
            then jv_folder S u (noItems\<lparr>ji_ParentId := getLibraryId (fq_musicFolderId q)\<rparr>) else jv_libraries S u)
           (jfRootFolder L orderFolders C q)
       else reply_or ''Failed to get folder'' (jv_folder S u (folderItems q)) (\<lambda>items.
         let (folderName, parentId) = folderPlace S u (fq_id q) items
         in Inr (listedFolder L orderFolders q
              (jfListing C (map (\<lambda>item. jfNormalizeFolder item (jfServerId C)) (notAudio items))
                 (map (jfSong C) (childSongs items)) (fq_id q) folderName parentId))))"

section \<open>Urls, tags and logging in\<close>

text \<open>\<open>replace\<close> reads a dollar sign in the new text specially; formats have none.\<close>

definition jfGetStreamUrl :: "jf_client \<Rightarrow> string \<Rightarrow> bool \<Rightarrow> string option \<Rightarrow> nat option \<Rightarrow> string" where
  "jfGetStreamUrl C k transcode format bitrate =
     (let url = template (map_option ur_url (jc_server C));
          credential = template (Option.bind (jc_server C) ur_credential);
          realFormat = text_or format ''mp3'';
          universal = url @ ''/audio'' @ ''/'' @ k @ ''/universal'' @ ''?userId='' @ template (jc_userId C)
            @ ''&deviceId='' @ ''&audioCodec=aac'' @ ''&apiKey='' @ credential @ ''&playSessionId=''
            @ ''&container=opus,mp3,aac,m4a,m4b,flac,wav,ogg''
            @ ''&transcodingProtocol=http&transcodingContainer='' @ realFormat
      in if \<not> transcode then url @ ''/Items/'' @ k @ ''/Download?apiKey='' @ credential @ ''&playSessionId=''
         else replaceFirst ''&container=opus,mp3,aac,m4a,m4b,flac,wav,ogg'' (''&container='' @ realFormat)
                (replaceFirst ''audioCodec=aac'' (''audioCodec='' @ realFormat) universal)
              @ (case bitrate of None \<Rightarrow> '''' | Some b \<Rightarrow> ''&maxStreamingBitrate='' @ decimal (b * 1000)))"

definition jfGetDownloadUrl :: "jf_client \<Rightarrow> string \<Rightarrow> string" where
  "jfGetDownloadUrl C k =
     template (map_option ur_url (jc_server C)) @ ''/items/'' @ k @ ''/download?apiKey=''
       @ template (Option.bind (jc_server C) ur_credential)"

text \<open>The key for the cache, the header that authorises and the url of an image.\<close>

definition getJellyfinImageRequest ::
    "string option \<Rightarrow> jf_client \<Rightarrow> string \<Rightarrow> nat option \<Rightarrow> (string \<times> string \<times> string) option" where
  "getJellyfinImageRequest baseUrl C k size0 =
     (case jc_server C of
        None \<Rightarrow> None
      | Some server \<Rightarrow>
          let url = (if truthy baseUrl then baseUrl else getServerUrl (Some server) False);
              imageSize = (if nullish_or size0 0 = 0 then '''' else decimal (the size0))
          in if \<not> truthy url then None
             else Some (joinWith '':'' [''jellyfin'', ur_id server, text_or baseUrl '''', k, imageSize], withToken C,
               the url @ ''/Items/'' @ k @ ''/Images/Primary?quality=96''
                 @ (if imageSize = '''' then '''' else ''&width='' @ imageSize)))"

definition jfGetImageUrl :: "string option \<Rightarrow> jf_client \<Rightarrow> string \<Rightarrow> nat option \<Rightarrow> string option" where
  "jfGetImageUrl baseUrl C k size0 =
     (case getJellyfinImageRequest baseUrl C k size0 of
        None \<Rightarrow> None | Some (cacheKey, header, url) \<Rightarrow> text_or_null (Some url))"

text \<open>
  Tags and studios, each sorted by the comparison that is an argument; a kind of tag without any is left out. A server
  that does not know tags has none.
\<close>

definition jfGetTagList ::
    "features option option \<Rightarrow> (string list \<Rightarrow> string list) \<Rightarrow> (string list \<Rightarrow> string list)
      \<Rightarrow> string list option reply \<Rightarrow> string list reply \<Rightarrow> api_error + (string \<times> string list) list option" where
  "jfGetTagList server sortTags sortStudios res studioRes =
     (if \<not> hasFeature server TAGS then Inr None
      else reply_or ''failed to get tags'' res (\<lambda>tags0. reply_or ''failed to get studios'' studioRes (\<lambda>studios.
        Inr (Some ((case tags0 of None \<Rightarrow> [] | Some ts \<Rightarrow> if ts = [] then [] else [(''Tags'', sortTags ts)])
                   @ (if studios = [] then [] else [(''Studios'', sortStudios studios)]))))))"

definition jfAuthenticate ::
    "(string \<Rightarrow> string \<Rightarrow> string \<Rightarrow> (string \<times> bool option \<times> string \<times> string) reply) \<Rightarrow> string \<Rightarrow> auth_body
      \<Rightarrow> api_error + string \<times> bool \<times> string \<times> string" where
  "jfAuthenticate request url body =
     reply_or ''Failed to authenticate'' (request (normalizeServerUrl url) (au_password body) (au_username body))
       (\<lambda>(token, admin, u, name). Inr (token, nullish_or admin False, u, name))"

section \<open>Similar songs\<close>

lemma otherSongs_excludes: "songId \<notin> set (map s_id (otherSongs C songId items))"
  by (auto simp: otherSongs_def jfSong_def)

text \<open>Songs that are similar to a song do not include it, whether they are found as such or by an instant mix.\<close>

theorem similar_songs_are_others:
  assumes "jfGetSimilarSongs S C songId n = Inr songs"
  shows "songId \<notin> set (map s_id songs)"
  using assms otherSongs_excludes [of songId C]
  by (auto simp: jfGetSimilarSongs_def reply_or_def Let_def split: if_splits reply.splits)

section \<open>Pages and their count\<close>

definition unpaged :: "jf_items \<Rightarrow> jf_items" where
  "unpaged r = r\<lparr>ji_Limit := None, ji_StartIndex := None\<rparr>"

text \<open>The documented paging: a request is answered with its part of the list of all that it selects, and their number.\<close>

definition answers_in_pages :: "(jf_items \<Rightarrow> ('a list \<times> nat) reply) \<Rightarrow> (jf_items \<Rightarrow> 'a list) \<Rightarrow> bool" where
  "answers_in_pages fetch all \<longleftrightarrow>
     (\<forall>r. fetch r = Reply
        ((case ji_Limit r of None \<Rightarrow> id | Some n \<Rightarrow> take n) (drop (nullish_or (ji_StartIndex r) 0) (all (unpaged r))),
         length (all (unpaged r))))"

definition albumPage :: "jf_server \<Rightarrow> jf_client \<Rightarrow> jf_album_query \<Rightarrow> nat \<Rightarrow> nat \<Rightarrow> album list" where
  "albumPage S C q n i =
     (case jfGetAlbumList S C (q\<lparr>qy_limit := Some n, qy_startIndex := i * n\<rparr>) of Inl e \<Rightarrow> [] | Inr p \<Rightarrow> pg_items p)"

lemma artistParameters_paging [simp]:
  "artistParameters (q\<lparr>qy_limit := l, qy_startIndex := s\<rparr>) r = artistParameters q r"
  "ji_Limit (artistParameters q r) = ji_Limit r" "ji_StartIndex (artistParameters q r) = ji_StartIndex r"
  "unpaged (artistParameters q r) = artistParameters q (unpaged r)"
  by (auto simp: artistParameters_def unpaged_def Let_def split: option.split bool.split)

lemma albumItems_paging:
  assumes "qy_custom q = id"
  shows "ji_Limit (albumItems (q\<lparr>qy_limit := l, qy_startIndex := s\<rparr>)) = l"
    and "ji_StartIndex (albumItems (q\<lparr>qy_limit := l, qy_startIndex := s\<rparr>)) = Some s"
    and "unpaged (albumItems (q\<lparr>qy_limit := l, qy_startIndex := s\<rparr>)) = unpaged (albumItems q)"
proof -
  have up: "unpaged (r\<lparr>ji_GenreIds := g, ji_IsFavorite := f, ji_Years := y\<rparr>) = (unpaged r)\<lparr>ji_GenreIds := g, ji_IsFavorite := f, ji_Years := y\<rparr>"
    for r g f y by (simp add: unpaged_def)
  have base: "unpaged (pagedItems (q\<lparr>qy_limit := l, qy_startIndex := s\<rparr>) t) = unpaged (pagedItems q t)" for t
    by (simp add: unpaged_def pagedItems_def noItems_def)
  show "ji_Limit (albumItems (q\<lparr>qy_limit := l, qy_startIndex := s\<rparr>)) = l"
    "ji_StartIndex (albumItems (q\<lparr>qy_limit := l, qy_startIndex := s\<rparr>)) = Some s"
    using assms by (simp_all add: albumItems_def pagedItems_def noItems_def)
  show "unpaged (albumItems (q\<lparr>qy_limit := l, qy_startIndex := s\<rparr>)) = unpaged (albumItems q)"
    using assms by (simp add: albumItems_def up base)
qed

text \<open>
  The pages of the albums that a query selects are together the list of all of them, in its order and with none twice
  or left out; and their count is its length.
\<close>

theorem album_pages_cover_list:
  assumes "answers_in_pages (jv_albums S u) all" and "jc_userId C = Some u" and "u \<noteq> ''''"
    and "qy_custom q = id" and "length (all (unpaged (albumItems q))) \<le> m * n"
  shows "concat (map (albumPage S C q n) [0..<m]) = map (jfAlbum C) (all (unpaged (albumItems q)))
    \<and> jfGetAlbumListCount S C q = Inr (Some (length (all (unpaged (albumItems q)))))"
proof -
  let ?all = "all (unpaged (albumItems q))"
  note items = albumItems_paging [OF assms(4)]
  have got: "jv_albums S u r = Reply
      ((case ji_Limit r of None \<Rightarrow> id | Some n \<Rightarrow> take n) (drop (nullish_or (ji_StartIndex r) 0) (all (unpaged r))),
       length (all (unpaged r)))" for r
    using assms(1) unfolding answers_in_pages_def by blast
  have "albumPage S C q n = (\<lambda>i. map (jfAlbum C) (take n (drop (i * n) ?all)))"
    using assms(2,3) by (simp add: fun_eq_iff albumPage_def jfGetAlbumList_def needUser_def got items reply_or_def jfPage_def)
  then have "concat (map (albumPage S C q n) [0..<m]) = map (jfAlbum C) (concat (map (\<lambda>i. take n (drop (i * n) ?all)) [0..<m]))"
    by (simp add: map_concat comp_def)
  moreover have "jfGetAlbumListCount S C q = Inr (Some (length ?all))"
    using assms(2,3) items [where l = "Some 1" and s = 0]
    by (simp add: jfGetAlbumListCount_def countQuery_def countOf_def jfGetAlbumList_def needUser_def got reply_or_def jfPage_def)
  ultimately show ?thesis using assms(5) by (simp add: concat_pages)
qed

section \<open>Songs of many albums\<close>

text \<open>
  A server that answers with exactly the songs of the albums it is asked for; the rest of the request selects from a
  list. Jellyfin does so as long as no other album has the name of one that is asked for: it also answers with the songs of
  those (as the controller notes), which a single request leaves out afterwards and the batches do not.
\<close>

definition answers_by_albums :: "(jf_items \<Rightarrow> (jf_song list \<times> nat) reply) \<Rightarrow> (jf_items \<Rightarrow> jf_song list) \<Rightarrow> bool" where
  "answers_by_albums fetch library \<longleftrightarrow>
     (\<forall>r ks. ji_AlbumIds r = Some ks \<longrightarrow> ji_Limit r = None \<longrightarrow> ji_StartIndex r = Some 0 \<longrightarrow>
        (\<exists>n. fetch r = Reply (filter (\<lambda>s. jo_AlbumId s \<in> Some ` set (splitOn (CHR '','') ks))
                (library (r\<lparr>ji_AlbumIds := None\<rparr>)), n)))"

definition songsOfThese :: "string list \<Rightarrow> jf_song list \<Rightarrow> jf_song list" where
  "songsOfThese ks songs = filter (\<lambda>s. jo_AlbumId s \<in> Some ` set ks) songs"

lemma songItems_albums:
  assumes "qy_custom q = id" and "qy_limit q = None" and "qy_startIndex q = 0"
  shows "ji_AlbumIds (songItems q ks) = ks" and "ji_Limit (songItems q ks) = None"
    and "ji_StartIndex (songItems q ks) = Some 0" and "(songItems q ks)\<lparr>ji_AlbumIds := None\<rparr> = songItems q None"
  using assms by (simp_all add: songItems_def pagedItems_def noItems_def)

lemma fetch_albums:
  assumes "answers_by_albums fetch library" and "qy_custom q = id" and "qy_limit q = None" and "qy_startIndex q = 0"
    and "ks \<noteq> []" and "plain_for (CHR '','') ks"
  shows "\<exists>n. fetch (songItems q (Some (formatCommaDelimitedString ks))) =
    Reply (songsOfThese ks (library (songItems q None)), n)"
proof -
  note fields = songItems_albums [OF assms(2-4), of "Some (formatCommaDelimitedString ks)"]
  have "splitOn (CHR '','') (formatCommaDelimitedString ks) = ks"
    unfolding formatCommaDelimitedString_def by (rule split_join [OF assms(5,6)])
  with assms(1) fields show ?thesis unfolding answers_by_albums_def songsOfThese_def by metis
qed

lemma songsOfThese_append:
  assumes "set a \<inter> set b = {}"
  shows "mset (songsOfThese (a @ b) xs) = mset (songsOfThese a xs) + mset (songsOfThese b xs)"
proof -
  have "Some ` set a \<inter> Some ` set b = {}" using assms by auto
  then show ?thesis unfolding songsOfThese_def by (induction xs) auto
qed

lemma songBatches_all:
  assumes "answers_by_albums fetch library" and "qy_custom q = id" and "qy_limit q = None" and "qy_startIndex q = 0"
    and "sendable batches" and "distinct (concat batches)"
  shows "\<exists>items. songBatches (\<lambda>batch. fetch (songItems q (Some (formatCommaDelimitedString batch)))) batches = Inr items
    \<and> mset items = mset (songsOfThese (concat batches) (library (songItems q None)))"
  using assms(5,6)
proof (induction batches)
  case Nil
  then show ?case by (simp add: songsOfThese_def)
next
  case (Cons b bs)
  then obtain rest where rest: "songBatches (\<lambda>batch. fetch (songItems q (Some (formatCommaDelimitedString batch)))) bs = Inr rest"
    "mset rest = mset (songsOfThese (concat bs) (library (songItems q None)))" by auto
  from Cons(2) obtain n where n: "fetch (songItems q (Some (formatCommaDelimitedString b))) =
      Reply (songsOfThese b (library (songItems q None)), n)"
    using fetch_albums [OF assms(1-4), of b] by auto
  from Cons(3) have "set b \<inter> set (concat bs) = {}" by auto
  from rest n songsOfThese_append [OF this] show ?case by (simp add: reply_or_def)
qed

text \<open>
  From such a server, without a limit and from the start, the songs of any number of albums are found, each once, however
  many requests it takes: the batches give in some order what one request with all the ids would.
\<close>

theorem songs_of_albums_in_batches:
  assumes "answers_by_albums (jv_songs S u) library" and "jc_userId C = Some u" and "u \<noteq> ''''"
    and "qy_custom q = id" and "qy_limit q = None" and "qy_startIndex q = 0"
    and "qs_albumIds q = Some ks" and "distinct ks" and "plain_for (CHR '','') ks"
  shows "\<exists>p. jfGetSongList S C q = Inr p
    \<and> mset (pg_items p) = mset (map (jfSong C) (songsOfThese ks (library (songItems q None))))
    \<and> pg_totalRecordCount p = Some (length (songsOfThese ks (library (songItems q None))))"
proof (cases "length ks > batchSize")
  case True
  have b: "0 < batchSize" by (simp add: batchSize_def)
  from songBatches_all [OF assms(1,4-6) sendable_chunk [OF assms(9)], of batchSize] assms(8) obtain items where
    items: "songBatches (\<lambda>batch. jv_songs S u (songItems q (Some (formatCommaDelimitedString batch)))) (chunk ks batchSize) = Inr items"
      "mset items = mset (songsOfThese ks (library (songItems q None)))"
    by (auto simp: concat_chunk [OF b])
  from items(2) have "length items = length (songsOfThese ks (library (songItems q None)))" by (metis size_mset)
  with True items assms(2,3,7) show ?thesis by (simp add: jfGetSongList_def needUser_def jfPage_def)
next
  case False
  show ?thesis
  proof (cases "ks = []")
    case True
    note fields = songItems_albums [OF assms(4-6), of "Some []"]
    from assms(1) fields obtain n where "jv_songs S u (songItems q (Some [])) =
        Reply (filter (\<lambda>s. jo_AlbumId s \<in> Some ` set (splitOn (CHR '','') [])) (library (songItems q None)), n)"
      unfolding answers_by_albums_def by metis
    with True assms(2,3,7) show ?thesis
      by (simp add: jfGetSongList_def needUser_def jfPage_def songsAtOnce_def reply_or_def formatCommaDelimitedString_def
          songsOfThese_def)
  next
    case ks: False
    from fetch_albums [OF assms(1,4-6) ks assms(9)] obtain n where
      "jv_songs S u (songItems q (Some (formatCommaDelimitedString ks))) = Reply (songsOfThese ks (library (songItems q None)), n)"
      by blast
    with False assms(2,3,7) show ?thesis
      by (simp add: jfGetSongList_def needUser_def jfPage_def songsAtOnce_def reply_or_def songsOfThese_def Let_def)
  qed
qed

section \<open>Flaws\<close>

text \<open>A server that heeds the limit of a request.\<close>

definition heeds_limit :: "(jf_items \<Rightarrow> ('a list \<times> nat) reply) \<Rightarrow> bool" where
  "heeds_limit fetch \<longleftrightarrow> (\<forall>r n items t. ji_Limit r = Some n \<longrightarrow> fetch r = Reply (items, t) \<longrightarrow> length items \<le> n)"

lemma songBatches_limited:
  assumes "\<And>b items t. fetch b = Reply (items, t) \<Longrightarrow> length items \<le> 1" and "songBatches fetch bs = Inr items"
  shows "length items \<le> length bs"
  using assms(2)
proof (induction bs arbitrary: items)
  case (Cons b bs)
  then obtain x t rest where "fetch b = Reply (x, t)" "songBatches fetch bs = Inr rest" "items = x @ rest"
    by (auto simp: reply_or_def split: reply.splits sum.splits)
  with Cons.IH assms(1) show ?case by (fastforce dest: add_mono)
qed simp

text \<open>
  The count of the songs of given albums is not their number: it is found from requests with a limit of one, of which
  the items are counted, so that it is at most one for fifty albums.
\<close>

theorem album_songs_are_undercounted:
  assumes "heeds_limit (jv_songs S u)" and "jc_userId C = Some u" and "qy_custom q = id"
    and "qs_albumIds q = Some ks" and "jfGetSongListCount S C q = Inr (Some n)"
  shows "n \<le> max 1 (length (chunk ks 50))"
proof -
  have one: "length items \<le> 1" if "jv_songs S u (songItems (countQuery q) a) = Reply (items, t)" for a items t
  proof -
    have "ji_Limit (songItems (countQuery q) a) = Some 1"
      using assms(3) by (simp add: songItems_def pagedItems_def countQuery_def)
    with that assms(1) show ?thesis unfolding heeds_limit_def by blast
  qed
  from assms(5) obtain p where p: "jfGetSongList S C (countQuery q) = Inr p" "pg_totalRecordCount p = Some n"
    by (auto simp: jfGetSongListCount_def countOf_def split: sum.splits)
  have ks: "qs_albumIds (countQuery q) = Some ks" using assms(4) by (simp add: countQuery_def)
  show ?thesis
  proof (cases "length ks > batchSize")
    case True
    with p ks assms(2) obtain items where
      "songBatches (\<lambda>b. jv_songs S u (songItems (countQuery q) (Some (formatCommaDelimitedString b)))) (chunk ks batchSize) = Inr items"
      "n = length items"
      by (auto simp: jfGetSongList_def needUser_def jfPage_def map_sum_def split: if_splits sum.splits)
    with songBatches_limited [OF one] show ?thesis by (fastforce simp: batchSize_def)
  next
    case False
    with p ks assms(2) obtain items t where "jv_songs S u (songItems (countQuery q) (Some (formatCommaDelimitedString ks))) = Reply (items, t)"
      "n = length (filter (\<lambda>item. jo_AlbumId item \<in> Some ` set ks) items)"
      by (auto simp: jfGetSongList_def needUser_def jfPage_def map_sum_def songsAtOnce_def reply_or_def Let_def
          split: if_splits sum.splits reply.splits)
    with one show ?thesis by (metis le_max_iff_disj length_filter_le order_trans)
  qed
qed

text \<open>Children name the folder they are in as their parent, and no folder is in itself.\<close>

definition children_know_parent :: "(jf_items \<Rightarrow> jf_child list reply) \<Rightarrow> bool" where
  "children_know_parent fetch \<longleftrightarrow>
     (\<forall>r k items. ji_ParentId r = Some k \<longrightarrow> fetch r = Reply items \<longrightarrow>
        (\<forall>c \<in> set items. jx_ParentId (fst c) = Some k \<and> jx_Id (fst c) \<noteq> k))"

text \<open>
  A folder is never shown with its name: the parent of its first child, among whose children it is looked for, is the
  folder itself. The parent that is shown is then the folder as well.
\<close>

theorem folder_names_are_not_found:
  assumes "children_know_parent (jv_folder S u)" and "jc_userId C = Some u" and "fq_id q \<noteq> ''0''"
    and "jfGetFolder S L orderFolders C q = Inr listing"
  shows "fd_name listing = ''Unknown folder'' \<and> fd_parentId listing \<in> {None, Some (fq_id q)}"
proof -
  from assms(2-4) obtain items where items: "jv_folder S u (folderItems q) = Reply items"
    "listing = listedFolder L orderFolders q
       (jfListing C (map (\<lambda>item. jfNormalizeFolder item (jfServerId C)) (notAudio items)) (map (jfSong C) (childSongs items))
          (fq_id q) (fst (folderPlace S u (fq_id q) items)) (snd (folderPlace S u (fq_id q) items)))"
    by (auto simp: jfGetFolder_def needUser_def reply_or_def case_prod_beta split: if_splits reply.splits)
  have law: "ji_ParentId r = Some k \<Longrightarrow> jv_folder S u r = Reply cs \<Longrightarrow> c \<in> set cs \<Longrightarrow>
      jx_ParentId (fst c) = Some k \<and> jx_Id (fst c) \<noteq> k" for r k cs c
    using assms(1) unfolding children_know_parent_def by blast
  have "ji_ParentId (folderItems q) = Some (fq_id q)" by (simp add: folderItems_def)
  from law [OF this items(1)] have child: "c \<in> set items \<Longrightarrow> jx_ParentId (fst c) = Some (fq_id q)" for c by blast
  have place: "fst (folderPlace S u (fq_id q) items) = ''Unknown folder''
      \<and> snd (folderPlace S u (fq_id q) items) \<in> {None, Some (fq_id q)}"
  proof (cases items)
    case (Cons c cs)
    have none: "List.find (\<lambda>c. jx_Id (fst c) = fq_id q) sib = None"
      if "jv_folder S u (noItems\<lparr>ji_ParentId := Some (fq_id q)\<rparr>) = Reply sib" for sib
      using law [OF _ that, of "fq_id q"] by (auto simp: find_None_iff)
    from Cons child [of c] none show ?thesis by (auto simp: folderPlace_def Let_def split: reply.split)
  qed (simp add: folderPlace_def)
  then show ?thesis by (simp add: items(2) listedFolder_def jfListing_def Let_def)
qed

section \<open>Examples\<close>

definition paged :: "jf_items \<Rightarrow> 'a list \<Rightarrow> ('a list \<times> nat) reply" where
  "paged r xs =
     Reply ((case ji_Limit r of None \<Rightarrow> id | Some n \<Rightarrow> take n) (drop (nullish_or (ji_StartIndex r) 0) xs), length xs)"

definition trackOf :: "string \<Rightarrow> string \<Rightarrow> jf_song" where
  "trackOf albumId k = (songNamed (0, k))\<lparr>jo_AlbumId := Some albumId\<rparr>"

definition albumWithId :: "string \<Rightarrow> jf_album" where
  "albumWithId k =
     \<lparr>jb_AlbumArtist = '''', jb_AlbumArtists = [], jb_ArtistItems = [], jb_ChildCount = None, jb_DateCreated = '''',
      jb_DateLastMediaAdded = None, jb_GenreItems = [], jb_Id = k, jb_ImageTag = None, jb_Name = '''', jb_People = None,
      jb_PremiereDate = None, jb_ProductionYear = None, jb_MusicBrainzAlbum = None, jb_MusicBrainzReleaseGroup = None,
      jb_RunTimeTicks = 0, jb_Songs = [], jb_SortName = None, jb_Studios = [], jb_Tags = None, jb_UserData = None\<rparr>"

text \<open>Two albums, with two songs and one; a folder with one file; what is similar to a song begins with the song.\<close>

definition exampleAlbums :: "jf_album list" where
  "exampleAlbums = [albumWithId ''A'', albumWithId ''B'']"

definition exampleTracks :: "jf_song list" where
  "exampleTracks = [trackOf ''A'' ''s'', trackOf ''A'' ''t'', trackOf ''B'' ''u'']"

definition selected :: "jf_items \<Rightarrow> jf_song list" where
  "selected r = (case ji_AlbumIds r of None \<Rightarrow> exampleTracks
     | Some ks \<Rightarrow> filter (\<lambda>s. jo_AlbumId s \<in> Some ` set (splitOn (CHR '','') ks)) exampleTracks)"

definition exampleChildren :: "jf_items \<Rightarrow> jf_child list" where
  "exampleChildren r = (if ji_ParentId r = Some ''f''
     then [(\<lparr>jx_Id = ''s'', jx_Name = Some ''Song'', jx_ParentId = Some ''f'', jx_Type = ''Audio''\<rparr>, Some (trackOf ''A'' ''s''))]
     else [])"

definition exampleJellyfin :: jf_server where
  "exampleJellyfin =
     \<lparr>jv_songs = (\<lambda>u r. paged r (selected r)), jv_albums = (\<lambda>u r. paged r exampleAlbums), jv_album = (\<lambda>u k. Refused),
      jv_albumArtists = (\<lambda>r. Refused), jv_albumArtist = (\<lambda>u k. Refused), jv_artists = (\<lambda>r. Refused),
      jv_genres = (\<lambda>r. Refused), jv_playlists = (\<lambda>u r. Refused), jv_playlistSongs = (\<lambda>u k. Refused),
      jv_playlist = (\<lambda>u k. Refused), jv_song = (\<lambda>u k. Refused), jv_similarSongs = (\<lambda>k u n. Reply [trackOf ''A'' k]),
      jv_instantMix = (\<lambda>k u n. Reply exampleTracks), jv_similarArtists = (\<lambda>k n. Refused),
      jv_libraries = (\<lambda>u. Refused), jv_collections = (\<lambda>u. Refused), jv_folder = (\<lambda>u r. Reply (exampleChildren r)),
      jv_lyrics = (\<lambda>k. Refused), jv_user = (\<lambda>k. Refused)\<rparr>"

definition exampleJfQuery :: jf_query where
  "exampleJfQuery = \<lparr>qy_limit = None, qy_musicFolderId = None, qy_searchTerm = None, qy_sortOrder = ASC, qy_startIndex = 0,
     qy_favorite = None, qy_minYear = None, qy_maxYear = None, qy_custom = id\<rparr>"

definition exampleAlbumQuery :: jf_album_query where
  "exampleAlbumQuery = jf_query.extend exampleJfQuery
     \<lparr>qa_artistIds = None, qa_compilation = None, qa_genreIds = None, qa_sortBy = Album_NAME\<rparr>"

definition exampleSongQuery :: "string list \<Rightarrow> jf_song_query" where
  "exampleSongQuery ks = jf_query.extend exampleJfQuery
     \<lparr>qs_albumArtistIds = None, qs_albumIds = Some ks, qs_artistIds = None, qs_genreIds = None, qs_sortBy = Song_NAME\<rparr>"

lemma example_queries [simp]:
  "qy_custom exampleAlbumQuery = id" "qy_custom (exampleSongQuery ks) = id" "qy_limit (exampleSongQuery ks) = None"
  "qy_startIndex (exampleSongQuery ks) = 0" "qs_albumIds (exampleSongQuery ks) = Some ks"
  "jc_userId exampleUser = Some ''me''"
  by (simp_all add: exampleAlbumQuery_def exampleSongQuery_def exampleJfQuery_def exampleUser_def jf_query.defs)

lemma example_pages: "answers_in_pages (jv_albums exampleJellyfin u) (\<lambda>r. exampleAlbums)"
  by (simp add: answers_in_pages_def exampleJellyfin_def paged_def)

lemma example_albums: "answers_by_albums (jv_songs exampleJellyfin u) (\<lambda>r. exampleTracks)"
  by (simp add: answers_by_albums_def exampleJellyfin_def paged_def selected_def)

lemma example_limits: "heeds_limit (jv_songs exampleJellyfin u)"
  by (auto simp: heeds_limit_def exampleJellyfin_def paged_def)

lemma example_parents: "children_know_parent (jv_folder exampleJellyfin u)"
  by (auto simp: children_know_parent_def exampleJellyfin_def exampleChildren_def)

lemma similar_songs_are_others_witness:
  "\<exists>songs. jfGetSimilarSongs exampleJellyfin exampleUser ''s'' None = Inr songs \<and> ''s'' \<notin> set (map s_id songs)"
proof -
  have "case jfGetSimilarSongs exampleJellyfin exampleUser ''s'' None of Inl e \<Rightarrow> False | Inr _ \<Rightarrow> True" by code_simp
  then obtain songs where songs: "jfGetSimilarSongs exampleJellyfin exampleUser ''s'' None = Inr songs"
    by (auto split: sum.splits)
  with similar_songs_are_others [OF this] show ?thesis by blast
qed

lemma album_pages_cover_list_witness:
  "map al_id (concat (map (albumPage exampleJellyfin exampleUser exampleAlbumQuery 1) [0..<2])) = [''A'', ''B'']"
proof -
  have "concat (map (albumPage exampleJellyfin exampleUser exampleAlbumQuery 1) [0..<2]) = map (jfAlbum exampleUser) exampleAlbums"
    by (rule album_pages_cover_list [OF example_pages [of "''me''"], of exampleUser exampleAlbumQuery 2 1, THEN conjunct1])
      (simp_all add: exampleAlbums_def)
  moreover have "map al_id (map (jfAlbum exampleUser) exampleAlbums) = [''A'', ''B'']" by code_simp
  ultimately show ?thesis by simp
qed

lemma songs_of_albums_in_batches_witness:
  "\<exists>p. jfGetSongList exampleJellyfin exampleUser (exampleSongQuery [''B'', ''A'']) = Inr p
    \<and> mset (pg_items p) = mset (map (jfSong exampleUser) (songsOfThese [''B'', ''A''] exampleTracks))
    \<and> pg_totalRecordCount p = Some (length (songsOfThese [''B'', ''A''] exampleTracks))"
  by (rule songs_of_albums_in_batches [OF example_albums [of "''me''"]]) simp_all

lemma album_songs_are_undercounted_witness:
  "\<exists>n. jfGetSongListCount exampleJellyfin exampleUser (exampleSongQuery [''A'']) = Inr (Some n) \<and> n \<le> 1
    \<and> length (songsOfThese [''A''] exampleTracks) = 2"
proof -
  have c: "jfGetSongListCount exampleJellyfin exampleUser (exampleSongQuery [''A'']) = Inr (Some 1)" by code_simp
  have "1 \<le> max 1 (length (chunk [''A''] 50))"
    by (rule album_songs_are_undercounted [OF example_limits _ _ _ c]) simp_all
  moreover have "length (songsOfThese [''A''] exampleTracks) = 2" by code_simp
  ultimately show ?thesis using c by blast
qed

definition exampleFolder :: folder_query where
  "exampleFolder = \<lparr>fq_id = ''f'', fq_musicFolderId = None, fq_searchTerm = None, fq_sortBy = None, fq_sortOrder = None\<rparr>"

lemma folder_names_are_not_found_witness:
  "\<exists>listing. jfGetFolder exampleJellyfin exampleClient libraryOrderBy exampleUser exampleFolder = Inr listing
    \<and> fd_name listing = ''Unknown folder'' \<and> fd_parentId listing \<in> {None, Some ''f''}"
proof -
  have "jv_folder exampleJellyfin ''me'' r = Reply (exampleChildren r)" for r by (simp add: exampleJellyfin_def)
  then obtain listing where l: "jfGetFolder exampleJellyfin exampleClient libraryOrderBy exampleUser exampleFolder = Inr listing"
    by (simp add: jfGetFolder_def needUser_def reply_or_def exampleFolder_def case_prod_beta)
  have "fq_id exampleFolder \<noteq> ''0''" "fq_id exampleFolder = ''f''" by (simp_all add: exampleFolder_def)
  with folder_names_are_not_found [OF example_parents _ _ l] l show ?thesis by simp
qed

end
