(* ===== verification/NavidromeNormalize.thy ===== *)
theory NavidromeNormalize
  imports SubsonicNormalize JsArrays PlayerFilters
begin

text \<open>
  The normalisation of what Navidrome's own interface answers (\<^verbatim>\<open>shared/api/navidrome/navidrome-normalize.ts\<close>; the
  answers are described in \<^verbatim>\<open>navidrome-types.ts\<close>).
\<close>

section \<open>Answers of the server\<close>

record nd_participant =
  np_artist :: related
  np_subRole :: "string option"

record nd_item =
  ni_id :: string
  ni_albumArtist :: string
  ni_albumArtistId :: string
  ni_artist :: string
  ni_artistId :: string
  ni_comment :: "string option"
  ni_compilation :: bool
  ni_createdAt :: string
  ni_explicitStatus :: "string option"
  ni_genres :: "related list option"
  ni_participants :: "nd_participant list obj option"
  ni_playCount :: "nat option"
  ni_playDate :: "string option"
  ni_rating :: "rat option"
  ni_releaseDate :: "string option"
  ni_size :: rat
  ni_starred :: bool
  ni_tags :: "string list obj option"
  ni_updatedAt :: string

text \<open>A song of a playlist has the id of its file beside its own.\<close>

record nd_song = nd_item +
  ns_album :: string
  ns_albumId :: string
  ns_bitDepth :: "rat option"
  ns_bitRate :: rat
  ns_bpm :: "rat option"
  ns_channels :: "rat option"
  ns_discNumber :: nat
  ns_discSubtitle :: "string option"
  ns_duration :: rat
  ns_libraryPath :: "string option"
  ns_lyrics :: "string option"
  ns_mbzReleaseTrackId :: "string option"
  ns_mediaFileId :: "string option"
  ns_orderTitle :: string
  ns_path :: string
  ns_rgAlbumGain :: "rat option"
  ns_rgAlbumPeak :: "rat option"
  ns_rgTrackGain :: "rat option"
  ns_rgTrackPeak :: "rat option"
  ns_sampleRate :: "rat option"
  ns_suffix :: string
  ns_title :: string
  ns_trackNumber :: nat
  ns_year :: "nat option"

record nd_album = nd_item +
  na_coverArtId :: "string option"
  na_date :: "string option"
  na_duration :: "rat option"
  na_mbzAlbumId :: "string option"
  na_mbzAlbumType :: "string option"
  na_mbzReleaseGroupId :: "string option"
  na_minOriginalYear :: "nat option"
  na_minYear :: "nat option"
  na_name :: string
  na_orderAlbumName :: string
  na_originalDate :: "string option"
  na_songCount :: nat
  na_songs :: "nd_song list"

text \<open>The statistics are the numbers of albums and songs by role; similar artists come from a Subsonic answer.\<close>

record nd_artist =
  nt_albumCount :: nat
  nt_biography :: "string option"
  nt_externalInfoUpdatedAt :: "string option"
  nt_genres :: "related list option"
  nt_id :: string
  nt_mbzArtistId :: "string option"
  nt_name :: string
  nt_playCount :: "nat option"
  nt_playDate :: "string option"
  nt_rating :: "rat option"
  nt_songCount :: nat
  nt_starred :: bool
  nt_stats :: "(nat \<times> nat) obj option"
  nt_updatedAt :: "string option"
  nt_uploadedImage :: "string option"

record nd_playlist =
  nl_comment :: string
  nl_duration :: rat
  nl_id :: string
  nl_name :: string
  nl_ownerId :: string
  nl_ownerName :: string
  nl_public :: bool
  nl_rules :: "string option"
  nl_size :: rat
  nl_songCount :: nat
  nl_sync :: bool
  nl_updatedAt :: "string option"
  nl_uploadedImage :: "string option"

record nd_genre =
  ng_albumCount :: "nat option"
  ng_id :: string
  ng_name :: string
  ng_songCount :: "nat option"

record nd_user =
  nu_createdAt :: string
  nu_email :: "string option"
  nu_id :: string
  nu_isAdmin :: bool
  nu_lastLoginAt :: string
  nu_updatedAt :: string
  nu_userName :: string

record nd_station =
  nr_homePageUrl :: "string option"
  nr_id :: string
  nr_name :: string
  nr_streamUrl :: string
  nr_updatedAt :: "string option"
  nr_uploadedImage :: "string option"

text \<open>What an item has besides the fields that every server's have: an image that was uploaded, rules and whether it is synced.\<close>

record nd_artist_item = album_artist +
  ai_uploadedImage :: "string option"

record nd_playlist_item = playlist +
  pi_rules :: "string option"
  pi_sync :: bool
  pi_uploadedImage :: "string option"

record nd_station_item = radio_station +
  si_uploadedImage :: "string option"

record media_user =
  mu_createdAt :: string
  mu_email :: "string option"
  mu_id :: string
  mu_isAdmin :: bool
  mu_lastLoginAt :: string
  mu_name :: string
  mu_updatedAt :: string

section \<open>Parts of an item\<close>

definition navidromeImageIdWithCacheBust :: "string \<Rightarrow> string option \<Rightarrow> string option \<Rightarrow> string" where
  "navidromeImageIdWithCacheBust k uploadedImage updatedAt =
     (if \<not> truthy uploadedImage then k else k @ ''&_='' @ nullish_or updatedAt '''')"

text \<open>The date of a play, unless it is that of the year one.\<close>

definition normalizePlayDate :: "string option \<Rightarrow> string option" where
  "normalizePlayDate d = (if \<not> truthy d \<or> isInfix ''0001-'' (the d) then None else d)"

text \<open>The first of some dates that can be read, or else a year.\<close>

fun firstDate :: "string option list \<Rightarrow> nat option \<Rightarrow> string option \<times> nat" where
  "firstDate [] y = (if coerceYear y > 0 then (Some (decimal (coerceYear y)), coerceYear y) else (None, 0))"
| "firstDate (d # ds) y = (if truthy (fst (parsePartialIsoDate d)) then parsePartialIsoDate d else firstDate ds y)"

definition normalizeNavidromeReleaseDate :: "'m nd_album_scheme \<Rightarrow> string option \<times> nat" where
  "normalizeNavidromeReleaseDate item = firstDate [ni_releaseDate item, na_date item] (na_minYear item)"

definition normalizeNavidromeOriginalDate :: "'m nd_album_scheme \<Rightarrow> string option \<times> nat" where
  "normalizeNavidromeOriginalDate item =
     firstDate [na_originalDate item, ni_releaseDate item, na_date item]
       (case na_minOriginalYear item of None \<Rightarrow> na_minYear item | Some y \<Rightarrow> Some y)"

text \<open>What is collected about the artists of an item.\<close>

record nd_artists =
  xa_albumArtists :: "related list option"
  xa_artists :: "related list option"
  xa_remixers :: "related list option"
  xa_participants :: "related list obj"

text \<open>The participants with one role, by their further role, in the order in which those come.\<close>

definition addSubRole :: "nd_participant \<Rightarrow> (string option \<times> related list) list \<Rightarrow> (string option \<times> related list) list" where
  "addSubRole p m = AList.update (np_subRole p) (nullish_or (map_of m (np_subRole p)) [] @ [np_artist p]) m"

definition nameSubRole :: "string \<Rightarrow> string option \<times> related list \<Rightarrow> related list obj \<Rightarrow> related list obj" where
  "nameSubRole role entry participants =
     AList.update (if truthy (fst entry) then role @ '' ('' @ the (fst entry) @ '')'' else role) (snd entry) participants"

definition addRole :: "bool \<Rightarrow> string \<times> nd_participant list \<Rightarrow> nd_artists \<Rightarrow> nd_artists" where
  "addRole includeRemixers entry s =
     (let (role, ps) = entry; roleList = map np_artist ps
      in if role = ''albumartist'' then s\<lparr>xa_albumArtists := Some roleList\<rparr>
         else if role = ''remixer'' \<and> includeRemixers then
           s\<lparr>xa_remixers := Some roleList, xa_participants := AList.update ''remixer'' roleList (xa_participants s)\<rparr>
         else if role = ''artist'' \<or> role = ''remixer'' then s\<lparr>xa_artists := Some roleList\<rparr>
         else s\<lparr>xa_participants := fold (nameSubRole role) (fold addSubRole ps []) (xa_participants s)\<rparr>)"

definition collectArtists :: "bool \<Rightarrow> 'm nd_item_scheme \<Rightarrow> nd_artists" where
  "collectArtists includeRemixers item =
     fold (addRole includeRemixers) (nullish_or (ni_participants item) [])
       \<lparr>xa_albumArtists = None, xa_artists = None, xa_remixers = None, xa_participants = []\<rparr>"

text \<open>Album artists, artists and participants.\<close>

definition ndGetArtists :: "'m nd_item_scheme \<Rightarrow> bool \<Rightarrow> related list \<times> related list \<times> related list obj option" where
  "ndGetArtists item includeRemixers =
     (let s = collectArtists includeRemixers item;
          albumArtists = nullish_or (xa_albumArtists s) [\<lparr>rel_id = ni_albumArtistId item, rel_name = ni_albumArtist item\<rparr>];
          artists = nullish_or (xa_artists s) [\<lparr>rel_id = ni_artistId item, rel_name = ni_artist item\<rparr>];
          remixers = (if includeRemixers then nullish_or (xa_remixers s) [] else [])
      in (albumArtists,
          artists @ filter (\<lambda>remixer. rel_id remixer \<notin> set (map rel_id artists)) remixers,
          if ni_participants item = None then None else Some (xa_participants s)))"

definition ndExplicit :: "string option \<Rightarrow> ExplicitStatus option" where
  "ndExplicit x = (if x = Some ''e'' then Some EXPLICIT else if x = Some ''c'' then Some CLEAN else None)"

definition ndGenreItem :: "string option \<Rightarrow> related \<Rightarrow> genre" where
  "ndGenreItem server g =
     \<lparr>ge_serverId = serverIdOf server, ge_serverType = NAVIDROME, ge_itemType = GENRE, ge_albumCount = None,
      ge_id = rel_id g, ge_imageId = None, ge_imageUrl = None, ge_name = rel_name g, ge_songCount = None\<rparr>"

text \<open>Texts are joined by a middle dot.\<close>

definition dotJoin :: "string list \<Rightarrow> string" where
  "dotJoin xs = joinWith [CHR '' '', CHR 0xB7, CHR '' ''] xs"

section \<open>The items\<close>

definition ndNormalizeSong :: "nd_song \<Rightarrow> string option \<Rightarrow> full_song" where
  "ndNormalizeSong item server =
     (let (k, playlistItemId) = (case ns_mediaFileId item of Some f \<Rightarrow> (f, Some (ni_id item)) | None \<Rightarrow> (ni_id item, None));
          fromRelease = parsePartialIsoDate (ni_releaseDate item);
          apiYear = coerceYear (ns_year item);
          releaseYear = (if snd fromRelease > 0 then Some (snd fromRelease) else if apiYear > 0 then Some apiYear else None);
          releaseDate = (case fst fromRelease of Some d \<Rightarrow> Some d
            | None \<Rightarrow> if apiYear > 0 then Some (decimal apiYear) else None);
          (albumArtists, artists, participants) = ndGetArtists item True
      in \<lparr>s_id = k, s_name = ns_title item, s_albumId = ns_albumId item, s_serverId = serverIdOf server,
          s_serverType = NAVIDROME, s_itemType = SONG, s_duration = ns_duration item * 1000,
          s_userFavorite = ni_starred item, s_userRating = num_or_null (ni_rating item),
          s_playCount = int (nullish_or (ni_playCount item) 0), s_contextPlaylistId = None, s_albumArtists = albumArtists,
          s_artistName = ni_artist item, s_artists = artists, s_comment = text_or_null (ni_comment item),
          s_discNumber = int (ns_discNumber item), s_genres = nullish_or (ni_genres item) [],
          s_path = (if ns_path item \<noteq> ''''
            then Some (nullish_or (ns_libraryPath item) ''undefined'' @ ''/'' @ ns_path item) else None),
          s_playlistItemId = playlistItemId, s_releaseYear = map_option int releaseYear,
          s_trackNumber = int (ns_trackNumber item), s_rest = '''', so_album = Some (ns_album item),
          so_albumArtistName = ni_albumArtist item, so_bitDepth = num_or_null (ns_bitDepth item),
          so_bitRate = ns_bitRate item, so_bpm = num_or_null (ns_bpm item), so_channels = num_or_null (ns_channels item),
          so_compilation = Some (ni_compilation item), so_container = Some (ns_suffix item),
          so_createdAt = ni_createdAt item, so_discSubtitle = text_or_null (ns_discSubtitle item),
          so_explicitStatus = ndExplicit (ni_explicitStatus item),
          so_gain = gainPair (ns_rgAlbumGain item) (ns_rgTrackGain item), so_imageId = Some k, so_imageUrl = None,
          so_lastPlayedAt = normalizePlayDate (ni_playDate item), so_lyrics = text_or_null (ns_lyrics item),
          so_mbzRecordingId = text_or_null (ns_mbzReleaseTrackId item),
          so_mbzTrackId = text_or_null (ns_mbzReleaseTrackId item), so_participants = participants,
          so_peak = gainPair (ns_rgAlbumPeak item) (ns_rgTrackPeak item), so_releaseDate = releaseDate,
          so_sampleRate = num_or_null (ns_sampleRate item), so_size = ni_size item, so_sortName = ns_orderTitle item,
          so_tags = ni_tags item,
          so_trackSubtitle = map_option dotJoin (Option.bind (ni_tags item) (\<lambda>ts. map_of ts ''subtitle'')),
          so_updatedAt = ni_updatedAt item\<rparr>)"

text \<open>Some tags are taken out of the others, which are those that remain.\<close>

definition parseAlbumTags ::
    "string list obj option \<Rightarrow> string list \<times> string list \<times> string list obj option \<times> string option" where
  "parseAlbumTags tags =
     (case tags of
        None \<Rightarrow> ([], [], None, None)
      | Some ts \<Rightarrow>
          (nullish_or (map_of ts ''recordlabel'') [], nullish_or (map_of ts ''releasetype'') [],
           Some (filter (\<lambda>(k, v). k \<notin> {''genre'', ''recordlabel'', ''releasetype'', ''albumversion''}) ts),
           map_option dotJoin (map_of ts ''albumversion'')))"

definition ndNormalizeAlbum :: "nd_album \<Rightarrow> string option \<Rightarrow> album" where
  "ndNormalizeAlbum item server =
     (let releaseDate = normalizeNavidromeReleaseDate item; originalDate = normalizeNavidromeOriginalDate item;
          (recordLabels, releaseTypes, tags, version) = parseAlbumTags (ni_tags item);
          (albumArtists, artists, participants) = ndGetArtists item False
      in \<lparr>al_serverId = serverIdOf server, al_serverType = NAVIDROME, al_itemType = ALBUM,
          al_albumArtistName = ni_albumArtist item, al_albumArtists = albumArtists, al_artists = artists,
          al_comment = text_or_null (ni_comment item), al_createdAt = ni_createdAt item,
          al_duration = map_option (\<lambda>d. d * 1000) (na_duration item), al_explicitStatus = ndExplicit (ni_explicitStatus item),
          al_genres = map (ndGenreItem server) (nullish_or (ni_genres item) []), al_id = ni_id item,
          al_imageId = Some (text_or (na_coverArtId item) (ni_id item)), al_imageUrl = None,
          al_isCompilation = Some (ni_compilation item), al_lastPlayedAt = normalizePlayDate (ni_playDate item),
          al_mbzId = text_or_null (na_mbzAlbumId item), al_mbzReleaseGroupId = text_or_null (na_mbzReleaseGroupId item),
          al_name = na_name item, al_originalDate = fst originalDate, al_originalYear = snd originalDate,
          al_participants = participants, al_playCount = Some (of_nat (nullish_or (ni_playCount item) 0)),
          al_recordLabels = recordLabels, al_releaseDate = fst releaseDate,
          al_releaseType = text_or_null (na_mbzAlbumType item), al_releaseTypes = releaseTypes,
          al_releaseYear = (if snd releaseDate > 0 then Some (snd releaseDate) else None), al_size = Some (ni_size item),
          al_songCount = Some (na_songCount item), al_songs = map (\<lambda>song. ndNormalizeSong song server) (na_songs item),
          al_sortName = na_orderAlbumName item, al_tags = tags, al_updatedAt = ni_updatedAt item,
          al_userFavorite = ni_starred item, al_userRating = num_or_null (ni_rating item), al_version = version\<rparr>)"

text \<open>The greater of the numbers as an album artist and as an artist.\<close>

definition statOf :: "(nat \<times> nat \<Rightarrow> nat) \<Rightarrow> (nat \<times> nat) obj \<Rightarrow> nat" where
  "statOf f stats = max (nullish_or (map_option f (map_of stats ''albumartist'')) 0)
     (nullish_or (map_option f (map_of stats ''artist'')) 0)"

definition ndNormalizeAlbumArtist :: "nd_artist \<Rightarrow> related list \<Rightarrow> string option \<Rightarrow> nd_artist_item" where
  "ndNormalizeAlbumArtist item similarArtists server =
     \<lparr>ar_serverId = serverIdOf server, ar_serverType = NAVIDROME, ar_itemType = ALBUM_ARTIST,
      ar_albumCount = Some (case nt_stats item of None \<Rightarrow> nt_albumCount item | Some st \<Rightarrow> statOf fst st),
      ar_biography = text_or_null (nt_biography item), ar_duration = None,
      ar_genres = map (ndGenreItem server) (nullish_or (nt_genres item) []), ar_id = nt_id item,
      ar_imageId = Some (navidromeImageIdWithCacheBust (nt_id item) (nt_uploadedImage item)
        (case nt_updatedAt item of None \<Rightarrow> nt_externalInfoUpdatedAt item | Some d \<Rightarrow> Some d)),
      ar_imageUrl = None, ar_lastPlayedAt = normalizePlayDate (nt_playDate item), ar_mbz = text_or_null (nt_mbzArtistId item),
      ar_name = nt_name item, ar_playCount = Some (of_nat (nullish_or (nt_playCount item) 0)),
      ar_similarArtists = similarArtists,
      ar_songCount = Some (case nt_stats item of None \<Rightarrow> nt_songCount item | Some st \<Rightarrow> statOf snd st),
      ar_userFavorite = nt_starred item, ar_userRating = num_or_null (nt_rating item),
      ai_uploadedImage = nt_uploadedImage item\<rparr>"

definition ndNormalizePlaylist :: "nd_playlist \<Rightarrow> string option \<Rightarrow> nd_playlist_item" where
  "ndNormalizePlaylist item server =
     \<lparr>pl_serverId = serverIdOf server, pl_serverType = NAVIDROME, pl_itemType = PLAYLIST,
      pl_description = Some (nl_comment item), pl_duration = Some (nl_duration item * 1000), pl_genres = [],
      pl_id = nl_id item,
      pl_imageId = Some (navidromeImageIdWithCacheBust (nl_id item) (nl_uploadedImage item) (nl_updatedAt item)),
      pl_imageUrl = None, pl_name = nl_name item, pl_owner = Some (nl_ownerName item), pl_ownerId = Some (nl_ownerId item),
      pl_public = Some (nl_public item), pl_size = Some (nl_size item), pl_songCount = Some (nl_songCount item),
      pi_rules = nl_rules item, pi_sync = nl_sync item, pi_uploadedImage = nl_uploadedImage item\<rparr>"

definition ndNormalizeGenre :: "nd_genre \<Rightarrow> string option \<Rightarrow> genre" where
  "ndNormalizeGenre item server =
     \<lparr>ge_serverId = serverIdOf server, ge_serverType = NAVIDROME, ge_itemType = GENRE, ge_albumCount = ng_albumCount item,
      ge_id = ng_id item, ge_imageId = None, ge_imageUrl = None, ge_name = ng_name item, ge_songCount = ng_songCount item\<rparr>"

definition ndNormalizeUser :: "nd_user \<Rightarrow> media_user" where
  "ndNormalizeUser item =
     \<lparr>mu_createdAt = nu_createdAt item, mu_email = text_or_null (nu_email item), mu_id = nu_id item,
      mu_isAdmin = nu_isAdmin item, mu_lastLoginAt = nu_lastLoginAt item, mu_name = nu_userName item,
      mu_updatedAt = nu_updatedAt item\<rparr>"

definition ndNormalizeStation :: "nd_station \<Rightarrow> nd_station_item" where
  "ndNormalizeStation item =
     \<lparr>rs_homepageUrl = (if truthy (map_option trim (nr_homePageUrl item)) then nr_homePageUrl item else None),
      rs_id = nr_id item,
      rs_imageId = Some (navidromeImageIdWithCacheBust (nr_id item) (nr_uploadedImage item) (nr_updatedAt item)),
      rs_imageUrl = None, rs_name = nr_name item, rs_streamUrl = nr_streamUrl item,
      si_uploadedImage = text_or_null (nr_uploadedImage item)\<rparr>"

section \<open>What normalised items satisfy\<close>

definition nd_song_ok :: "full_song \<Rightarrow> bool" where
  "nd_song_ok s \<longleftrightarrow> s_itemType s = SONG \<and> s_serverType s = NAVIDROME \<and> s_serverId s \<noteq> '''' \<and> so_imageId s = Some (s_id s)
     \<and> s_discNumber s \<ge> 0 \<and> s_trackNumber s \<ge> 0 \<and> s_playCount s \<ge> 0
     \<and> so_bitDepth s \<noteq> Some 0 \<and> so_bpm s \<noteq> Some 0 \<and> so_channels s \<noteq> Some 0 \<and> so_sampleRate s \<noteq> Some 0
     \<and> s_path s \<noteq> Some '''' \<and> distinct (obj_keys (nullish_or (so_participants s) []))
     \<and> (s_releaseYear s \<noteq> None \<longrightarrow> so_releaseDate s \<noteq> None)"

definition nd_album_ok :: "album \<Rightarrow> bool" where
  "nd_album_ok a \<longleftrightarrow> al_itemType a = ALBUM \<and> al_serverType a = NAVIDROME \<and> list_all nd_song_ok (al_songs a)
     \<and> set (obj_keys (nullish_or (al_tags a) [])) \<inter> {''genre'', ''recordlabel'', ''releasetype'', ''albumversion''} = {}
     \<and> (al_releaseYear a \<noteq> None \<longrightarrow> al_releaseDate a \<noteq> None) \<and> (al_originalYear a > 0 \<longrightarrow> al_originalDate a \<noteq> None)
     \<and> list_all (\<lambda>s. s_serverId s = al_serverId a) (al_songs a)"

lemma named_keys: "distinct (obj_keys m) \<Longrightarrow> distinct (obj_keys (fold (nameSubRole role) es m))"
  by (induction es arbitrary: m) (simp_all add: nameSubRole_def distinct_update)

lemma added_keys: "distinct (obj_keys (xa_participants s)) \<Longrightarrow> distinct (obj_keys (xa_participants (addRole b e s)))"
  by (cases e) (simp add: addRole_def Let_def distinct_update named_keys)

lemma collected_keys: "distinct (obj_keys (xa_participants (collectArtists b item)))"
proof -
  have "distinct (obj_keys (xa_participants s)) \<Longrightarrow> distinct (obj_keys (xa_participants (fold (addRole b) es s)))" for es s
    by (induction es arbitrary: s) (simp_all add: added_keys)
  then show ?thesis unfolding collectArtists_def by simp
qed

lemma firstDate_year: "firstDate ds y = (x, n) \<Longrightarrow> n > 0 \<Longrightarrow> x \<noteq> None"
proof (induction ds)
  case (Cons d ds)
  then show ?case using partial_year [of d x n] by (cases "truthy (fst (parsePartialIsoDate d))") simp_all
qed (auto split: if_splits)

lemma ndNormalizeSong_ok: "nd_song_ok (ndNormalizeSong item server)"
proof -
  obtain aa ar p where a: "ndGetArtists item True = (aa, ar, p)" by (rule prod_cases3)
  have keys: "distinct (obj_keys (nullish_or p []))"
    using a collected_keys [of True item] by (auto simp: ndGetArtists_def Let_def split: if_splits)
  obtain x y where d: "parsePartialIsoDate (ni_releaseDate item) = (x, y)" by (cases "parsePartialIsoDate (ni_releaseDate item)")
  have server: "serverIdOf server \<noteq> ''''" by (auto simp: serverIdOf_def text_or_def truthy_def)
  have num: "num_or_null z \<noteq> Some 0" for z by (simp add: num_or_null_def)
  obtain k pid where k: "(case ns_mediaFileId item of Some f \<Rightarrow> (f, Some (ni_id item)) | None \<Rightarrow> (ni_id item, None)) = (k, pid)"
    by (rule prod.exhaust)
  show ?thesis
    unfolding nd_song_ok_def ndNormalizeSong_def k a d Let_def prod.case
    using keys server num partial_year [OF d] by (cases x; cases "y > 0") simp_all
qed

text \<open>
  The items that come out of the normalisation for Navidrome are well formed: no technical value is zero, each role of
  the participants occurs once, a year comes with a date, and the tags that are shown elsewhere are gone.
\<close>

theorem nd_items_ok:
  "nd_song_ok (ndNormalizeSong item server) \<and> nd_album_ok (ndNormalizeAlbum entry server)"
proof -
  obtain aa ar p where a: "ndGetArtists entry False = (aa, ar, p)" by (rule prod_cases3)
  obtain rl rt tags ver where t: "parseAlbumTags (ni_tags entry) = (rl, rt, tags, ver)" by (rule prod_cases4)
  then have tags: "set (obj_keys (nullish_or tags [])) \<inter> {''genre'', ''recordlabel'', ''releasetype'', ''albumversion''} = {}"
    by (auto simp: parseAlbumTags_def split: option.splits)
  have server: "s_serverId (ndNormalizeSong s server) = serverIdOf server" for s
    by (simp add: ndNormalizeSong_def Let_def case_prod_beta)
  have years: "snd (normalizeNavidromeReleaseDate entry) > 0 \<Longrightarrow> fst (normalizeNavidromeReleaseDate entry) \<noteq> None"
    "snd (normalizeNavidromeOriginalDate entry) > 0 \<Longrightarrow> fst (normalizeNavidromeOriginalDate entry) \<noteq> None"
    unfolding normalizeNavidromeReleaseDate_def normalizeNavidromeOriginalDate_def
    using firstDate_year surjective_pairing by metis+
  have "nd_album_ok (ndNormalizeAlbum entry server)"
    unfolding nd_album_ok_def ndNormalizeAlbum_def a t Let_def prod.case
    using tags years by (simp add: list_all_iff ndNormalizeSong_ok server)
  then show ?thesis using ndNormalizeSong_ok by blast
qed

text \<open>The remixers of a song are among its artists, after those that it has, and no one is added who is there already.\<close>

lemma song_artists_with_remixers:
  "\<exists>own. s_artists (ndNormalizeSong item server) =
     own @ filter (\<lambda>r. rel_id r \<notin> set (map rel_id own)) (nullish_or (xa_remixers (collectArtists True item)) [])"
  by (auto simp: ndNormalizeSong_def ndGetArtists_def Let_def case_prod_beta)

text \<open>
  A flaw: of an album the remixers, who are not to be added, take the place of the artists when their role comes after
  that of the artists, since that is what the last branch does with a role that it does not expect.
\<close>

theorem album_remixers_replace_artists:
  assumes "ni_participants item = Some (before @ (''remixer'', remixers) # rest)"
    and "''artist'' \<notin> fst ` set rest" and "''remixer'' \<notin> fst ` set rest"
  shows "al_artists (ndNormalizeAlbum item server) = map np_artist remixers"
proof -
  have rest: "xa_artists (fold (addRole False) es s) = xa_artists s" if "''artist'' \<notin> fst ` set es" "''remixer'' \<notin> fst ` set es" for es s
    using that by (induction es arbitrary: s) (auto simp: addRole_def Let_def split: prod.split)
  have "xa_artists (collectArtists False item) = Some (map np_artist remixers)"
    using assms rest [of rest] by (simp add: collectArtists_def addRole_def)
  then show ?thesis by (simp add: ndNormalizeAlbum_def ndGetArtists_def Let_def case_prod_beta)
qed

definition exampleRemixed :: nd_album where
  "exampleRemixed = nd_item.extend
     \<lparr>ni_id = ''al'', ni_albumArtist = ''A'', ni_albumArtistId = ''a'', ni_artist = ''A'', ni_artistId = ''a'', ni_comment = None,
      ni_compilation = False, ni_createdAt = '''', ni_explicitStatus = None, ni_genres = None,
      ni_participants = Some [(''artist'', [\<lparr>np_artist = \<lparr>rel_id = ''a'', rel_name = ''A''\<rparr>, np_subRole = None\<rparr>]),
        (''remixer'', [\<lparr>np_artist = \<lparr>rel_id = ''r'', rel_name = ''R''\<rparr>, np_subRole = None\<rparr>])],
      ni_playCount = None, ni_playDate = None, ni_rating = None, ni_releaseDate = None, ni_size = 0, ni_starred = False,
      ni_tags = None, ni_updatedAt = ''''\<rparr>
     \<lparr>na_coverArtId = None, na_date = None, na_duration = None, na_mbzAlbumId = None, na_mbzAlbumType = None,
      na_mbzReleaseGroupId = None, na_minOriginalYear = None, na_minYear = None, na_name = '''', na_orderAlbumName = '''',
      na_originalDate = None, na_songCount = 0, na_songs = []\<rparr>"

lemma album_remixers_replace_artists_witness:
  "map rel_id (al_artists (ndNormalizeAlbum exampleRemixed None)) = [''r'']"
proof -
  let ?p = "\<lambda>k n. [\<lparr>np_artist = \<lparr>rel_id = k, rel_name = n\<rparr>, np_subRole = None\<rparr>]"
  have "ni_participants exampleRemixed = Some ([(''artist'', ?p ''a'' ''A'')] @ (''remixer'', ?p ''r'' ''R'') # [])"
    by (simp add: exampleRemixed_def nd_item.defs)
  from album_remixers_replace_artists [OF this, of None] show ?thesis by simp
qed

end
