(* ===== verification/NavidromeChanges.thy ===== *)
theory NavidromeChanges
  imports NavidromeNormalize QueueRestore JellyfinChanges
begin

text \<open>
  The requests by which a Navidrome server is changed through its own interface
  (\<^verbatim>\<open>api/navidrome/navidrome-controller.ts\<close>): playlists, images, stations, shares, and the queue that it keeps. The
  other changes are those of the adapter for Subsonic. The server is a state on which the requests are functions.
\<close>

section \<open>Requests\<close>

record nd_playlist_body =
  nb_comment :: "string option"
  nb_name :: "string option"
  nb_ownerId :: "string option"
  nb_public :: "bool option"
  nb_rules :: "string option"
  nb_sync :: "bool option"

record nd_station_body =
  nk_homePageUrl :: string
  nk_name :: string
  nk_streamUrl :: string

record nd_share =
  nh_description :: string
  nh_downloadable :: bool
  nh_expires :: int
  nh_resourceIds :: string
  nh_resourceType :: string

text \<open>The queue as it is saved and as it is answered.\<close>

record nd_save_queue =
  nq_current :: "jsnum option"
  nq_ids :: "string list"
  nq_position :: "rat option"

record nd_queue =
  nq_changedBy :: string
  nq_currentIndex :: "jsnum option"
  nq_items :: "nd_song list option"
  nq_positionMs :: rat
  nq_updatedAt :: string

text \<open>An image is sent with its address and the token; the answer to a request about an image is a text.\<close>

record 'v nd_api =
  ne_addToPlaylist :: "string \<Rightarrow> string list \<Rightarrow> 'v \<Rightarrow> bool \<times> 'v"
  ne_removeFromPlaylist :: "string \<Rightarrow> string list \<Rightarrow> 'v \<Rightarrow> bool \<times> 'v"
  ne_movePlaylistItem :: "string \<Rightarrow> string \<Rightarrow> string \<Rightarrow> 'v \<Rightarrow> bool \<times> 'v"
  ne_createPlaylist :: "nd_playlist_body \<Rightarrow> 'v \<Rightarrow> string reply \<times> 'v"
  ne_updatePlaylist :: "string \<Rightarrow> nd_playlist_body \<Rightarrow> 'v \<Rightarrow> bool \<times> 'v"
  ne_deletePlaylist :: "string \<Rightarrow> 'v \<Rightarrow> bool \<times> 'v"
  ne_getPlaylistSongList :: "string \<Rightarrow> bool option \<Rightarrow> 'v \<Rightarrow> (nd_song list \<times> nat) reply"
  ne_getPlaylistDetail :: "string \<Rightarrow> 'v \<Rightarrow> nd_playlist reply"
  ne_updateStation :: "string \<Rightarrow> nd_station_body \<Rightarrow> 'v \<Rightarrow> bool \<times> 'v"
  ne_deleteStation :: "string \<Rightarrow> 'v \<Rightarrow> bool \<times> 'v"
  ne_deleteImage :: "string \<Rightarrow> string \<Rightarrow> 'v \<Rightarrow> string reply \<times> 'v"
  ne_uploadImage :: "string \<Rightarrow> string option \<Rightarrow> 8 word list \<Rightarrow> 'v \<Rightarrow> string option reply \<times> 'v"
  ne_shareItem :: "nd_share \<Rightarrow> 'v \<Rightarrow> string reply \<times> 'v"
  ne_saveQueue :: "nd_save_queue \<Rightarrow> 'v \<Rightarrow> bool \<times> 'v"
  ne_getQueue :: "'v \<Rightarrow> nd_queue reply"

text \<open>The server of a call: its features, its id, its address and the token for its own interface.\<close>

record nd_client =
  nc_features :: "features option option"
  nc_serverId :: "string option"
  nc_url :: "string option"
  nc_credential :: "string option"
  nc_username :: "string option"

text \<open>Servers that keep missing files are asked to leave them out.\<close>

definition excludeMissing :: "nd_client \<Rightarrow> bool option" where
  "excludeMissing C = (if hasFeature (nc_features C) BFR then Some False else None)"

section \<open>Playlists\<close>

definition ndAddToPlaylist :: "'v nd_api \<Rightarrow> string \<Rightarrow> string list \<Rightarrow> 'v \<Rightarrow> (api_error + unit) \<times> 'v" where
  "ndAddToPlaylist A k songId v = demand ''Failed to add to playlist'' (ne_addToPlaylist A k songId v)"

definition ndRemoveFromPlaylist :: "'v nd_api \<Rightarrow> string \<Rightarrow> string list \<Rightarrow> 'v \<Rightarrow> (api_error + unit) \<times> 'v" where
  "ndRemoveFromPlaylist A k songId v = demand ''Failed to remove from playlist'' (ne_removeFromPlaylist A k songId v)"

definition ndMovePlaylistItem :: "'v nd_api \<Rightarrow> string \<Rightarrow> nat \<Rightarrow> nat \<Rightarrow> 'v \<Rightarrow> (api_error + unit) \<times> 'v" where
  "ndMovePlaylistItem A k startingIndex endingIndex v =
     demand ''Failed to move item in playlist''
       (ne_movePlaylistItem A k (decimal startingIndex) (decimal (endingIndex + 1)) v)"

definition ndCreatePlaylist :: "'v nd_api \<Rightarrow> nd_playlist_body \<Rightarrow> 'v \<Rightarrow> (api_error + string) \<times> 'v" where
  "ndCreatePlaylist A body v =
     (let (res, v') = ne_createPlaylist A body v in (reply_or ''Failed to create playlist'' res Inr, v'))"

text \<open>\<open>_custom\<close> is what its entries make of the body.\<close>

definition ndUpdatePlaylist ::
    "'v nd_api \<Rightarrow> string \<Rightarrow> nd_playlist_body \<Rightarrow> (nd_playlist_body \<Rightarrow> nd_playlist_body) \<Rightarrow> 'v \<Rightarrow> (api_error + unit) \<times> 'v" where
  "ndUpdatePlaylist A k body custom v =
     demand ''Failed to update playlist''
       (ne_updatePlaylist A k
         (custom (body\<lparr>nb_comment := Some (nullish_or (nb_comment body) ''''), nb_public := Some (nullish_or (nb_public body) False)\<rparr>)) v)"

definition ndDeletePlaylist :: "'v nd_api \<Rightarrow> string \<Rightarrow> 'v \<Rightarrow> (api_error + unit) \<times> 'v" where
  "ndDeletePlaylist A k v = demand ''Failed to delete playlist'' (ne_deletePlaylist A k v)"

definition ndClearPlaylist :: "'v nd_api \<Rightarrow> string \<Rightarrow> full_song list \<Rightarrow> 'v \<Rightarrow> (api_error + unit) \<times> 'v" where
  "ndClearPlaylist A k existingSongs v =
     (let ids = knownIds (map s_playlistItemId existingSongs)
      in if length ids > 0 then demand ''Failed to remove songs from playlist'' (ne_removeFromPlaylist A k ids v)
         else (Inr (), v))"

definition ndFillPlaylist :: "'v nd_api \<Rightarrow> string \<Rightarrow> string list \<Rightarrow> 'v \<Rightarrow> (api_error + unit) \<times> 'v" where
  "ndFillPlaylist A k songId v =
     (if length songId > 0 then demand ''Failed to add songs to playlist'' (ne_addToPlaylist A k songId v) else (Inr (), v))"

definition ndRefill :: "'v nd_api \<Rightarrow> string \<Rightarrow> full_song list \<Rightarrow> string list \<Rightarrow> 'v \<Rightarrow> (api_error + unit) \<times> 'v" where
  "ndRefill A k existingSongs songId v =
     (case ndClearPlaylist A k existingSongs v of
        (Inl e, v1) \<Rightarrow> (Inl e, v1)
      | (Inr _, v1) \<Rightarrow> ndFillPlaylist A k songId v1)"

definition ndReplacePlaylist ::
    "'v nd_api \<Rightarrow> nd_client \<Rightarrow> string \<Rightarrow> string list \<Rightarrow> nat \<Rightarrow> 'v \<Rightarrow> (string \<rightharpoonup> playlist_backup)
      \<Rightarrow> (api_error + unit) \<times> 'v \<times> (string \<rightharpoonup> playlist_backup)" where
  "ndReplacePlaylist A C k songId now v idb =
     (case ne_getPlaylistSongList A k (excludeMissing C) v of
        Refused \<Rightarrow> (Inl (Api ''Failed to fetch existing playlist songs''), v, idb)
      | Reply (entries, n) \<Rightarrow>
          (let existingSongs = map (\<lambda>item. ndNormalizeSong item (nc_serverId C)) entries
           in case ne_getPlaylistDetail A k v of
                Refused \<Rightarrow> (Inl (Api ''Failed to get playlist detail''), v, idb)
              | Reply detail \<Rightarrow>
                  let backup = \<lparr>bk_id = k, bk_name = pl_name (ndNormalizePlaylist detail (nc_serverId C)),
                        bk_songIds = map s_id existingSongs, bk_timestamp = now\<rparr>;
                      (r, v1) = ndRefill A k existingSongs songId v
                  in (r, v1, idb(backupKey k \<mapsto> backup))))"

definition ndGetPlaylistSongList :: "'v nd_api \<Rightarrow> nd_client \<Rightarrow> string \<Rightarrow> 'v \<Rightarrow> api_error + full_song page" where
  "ndGetPlaylistSongList A C k v =
     reply_or ''Failed to get playlist song list'' (ne_getPlaylistSongList A k (excludeMissing C) v) (\<lambda>(items, n).
       Inr \<lparr>pg_items = map (\<lambda>item. ndNormalizeSong item (nc_serverId C)) items, pg_startIndex = 0,
            pg_totalRecordCount = Some n\<rparr>)"

section \<open>Images, stations and shares\<close>

text \<open>The kinds of items that have images, as they occur in addresses.\<close>

definition ndDeleteImage :: "'v nd_api \<Rightarrow> string \<Rightarrow> string \<Rightarrow> string \<Rightarrow> 'v \<Rightarrow> (api_error + bool) \<times> 'v" where
  "ndDeleteImage A kind message k v =
     (let (res, v') = ne_deleteImage A kind k v
      in (reply_or message res (\<lambda>status. Inr (status = ''ok'')), v'))"

definition ndDeleteArtistImage :: "'v nd_api \<Rightarrow> string \<Rightarrow> 'v \<Rightarrow> (api_error + bool) \<times> 'v" where
  "ndDeleteArtistImage A k v = ndDeleteImage A ''artist'' ''Failed to delete artist image'' k v"

definition ndDeleteStationImage :: "'v nd_api \<Rightarrow> string \<Rightarrow> 'v \<Rightarrow> (api_error + bool) \<times> 'v" where
  "ndDeleteStationImage A k v = ndDeleteImage A ''radio'' ''Failed to delete internet radio station image'' k v"

definition ndDeletePlaylistImage :: "'v nd_api \<Rightarrow> string \<Rightarrow> 'v \<Rightarrow> (api_error + bool) \<times> 'v" where
  "ndDeletePlaylistImage A k v = ndDeleteImage A ''playlist'' ''Failed to delete playlist image'' k v"

definition ndUploadImage ::
    "'v nd_api \<Rightarrow> nd_client \<Rightarrow> string \<Rightarrow> string \<Rightarrow> string \<Rightarrow> 8 word list \<Rightarrow> 'v \<Rightarrow> (api_error + bool) \<times> 'v" where
  "ndUploadImage A C kind message k bytes v =
     (let serverUrl = map_option normalizeServerUrl (nc_url C)
      in if \<not> truthy serverUrl then (Inl (Api ''Server is required''), v)
         else
           let (res, v') = ne_uploadImage A (the serverUrl @ ''/api/'' @ kind @ ''/'' @ k @ ''/image'')
                 (if truthy (nc_credential C) then Some (''Bearer '' @ the (nc_credential C)) else None) bytes v
           in (reply_or message res (\<lambda>status. Inr (status = Some ''ok'')), v'))"

definition ndUploadArtistImage :: "'v nd_api \<Rightarrow> nd_client \<Rightarrow> string \<Rightarrow> 8 word list \<Rightarrow> 'v \<Rightarrow> (api_error + bool) \<times> 'v" where
  "ndUploadArtistImage A C k bytes v = ndUploadImage A C ''artist'' ''Failed to upload artist image'' k bytes v"

definition ndUploadStationImage :: "'v nd_api \<Rightarrow> nd_client \<Rightarrow> string \<Rightarrow> 8 word list \<Rightarrow> 'v \<Rightarrow> (api_error + bool) \<times> 'v" where
  "ndUploadStationImage A C k bytes v =
     ndUploadImage A C ''radio'' ''Failed to upload internet radio station image'' k bytes v"

definition ndUploadPlaylistImage :: "'v nd_api \<Rightarrow> nd_client \<Rightarrow> string \<Rightarrow> 8 word list \<Rightarrow> 'v \<Rightarrow> (api_error + bool) \<times> 'v" where
  "ndUploadPlaylistImage A C k bytes v = ndUploadImage A C ''playlist'' ''Failed to upload playlist image'' k bytes v"

definition ndUpdateStation :: "'v nd_api \<Rightarrow> string \<Rightarrow> string option \<Rightarrow> string \<Rightarrow> string \<Rightarrow> 'v \<Rightarrow> (api_error + unit) \<times> 'v" where
  "ndUpdateStation A k homepageUrl name streamUrl v =
     demand ''Failed to update internet radio station''
       (ne_updateStation A k \<lparr>nk_homePageUrl = nullish_or homepageUrl '''', nk_name = name, nk_streamUrl = streamUrl\<rparr> v)"

definition ndDeleteStation :: "'v nd_api \<Rightarrow> string \<Rightarrow> 'v \<Rightarrow> (api_error + unit) \<times> 'v" where
  "ndDeleteStation A k v = demand ''Failed to delete internet radio station'' (ne_deleteStation A k v)"

definition ndShareItem :: "'v nd_api \<Rightarrow> nd_share \<Rightarrow> 'v \<Rightarrow> (api_error + string) \<times> 'v" where
  "ndShareItem A body v = (let (res, v') = ne_shareItem A body v in (reply_or ''Failed to share item'' res Inr, v'))"

section \<open>The queue\<close>

text \<open>The interface of Subsonic is preferred for saving where it knows indexes.\<close>

definition ndSavePlayQueue ::
    "'v nd_api \<Rightarrow> 'v queue_api \<Rightarrow> nd_client \<Rightarrow> save_queue_query \<Rightarrow> 'v \<Rightarrow> (api_error + unit) \<times> 'v" where
  "ndSavePlayQueue N A C q v =
     (if hasFeatureWithVersion (nc_features C) SERVER_PLAY_QUEUE 2 \<and> \<not> hasFeatureWithVersion (nc_features C) SERVER_PLAY_QUEUE 1
      then demand ''Failed to save play queue''
        (ne_saveQueue N \<lparr>nq_current = vq_currentIndex q, nq_ids = vq_songs q, nq_position = vq_positionMs q\<rparr> v)
      else savePlayQueue A (nc_features C) q v)"

definition ndQueueResponse :: "nd_client \<Rightarrow> nd_queue \<Rightarrow> queue_response" where
  "ndQueueResponse C body =
     \<lparr>vr_changed = nq_updatedAt body, vr_changedBy = nq_changedBy body,
      vr_currentIndex = nullish_or (nq_currentIndex body) (Num 0),
      vr_entry = map (\<lambda>song. ndNormalizeSong song (nc_serverId C)) (nullish_or (nq_items body) []),
      vr_positionMs = nq_positionMs body, vr_username = nullish_or (nc_username C) ''''\<rparr>"

definition ndGetPlayQueue :: "'v nd_api \<Rightarrow> 'v queue_api \<Rightarrow> nd_client \<Rightarrow> 'v \<Rightarrow> api_error + queue_response" where
  "ndGetPlayQueue N A C v =
     (if hasFeatureWithVersion (nc_features C) SERVER_PLAY_QUEUE 2
      then reply_or ''Failed to get play queue'' (ne_getQueue N v) (\<lambda>body. Inr (ndQueueResponse C body))
      else getPlayQueue A (nc_features C) (nc_serverId C) v)"

section \<open>What the server does with a playlist\<close>

text \<open>
  The documented behaviour, with the entries of each playlist (their ids, which differ, and those of their songs) and
  the songs whose files are gone. A request without success changes nothing; removing takes away the entries with the
  ids that are sent, after which those that remain may be numbered again; adding appends; and a playlist is answered
  with its entries, without those that are gone if that is asked for.
\<close>

definition keeps_nd_playlists ::
    "'v nd_api \<Rightarrow> (string \<Rightarrow> bool) \<Rightarrow> ('v \<Rightarrow> string \<Rightarrow> (string \<times> string) list) \<Rightarrow> bool" where
  "keeps_nd_playlists A gone entriesOf \<longleftrightarrow>
     (\<forall>k ids v. let (ok, v') = ne_addToPlaylist A k ids v
        in if ok then changed_only k (entriesOf v) (entriesOf v') \<and> map snd (entriesOf v' k) = map snd (entriesOf v k) @ ids
           else entriesOf v' = entriesOf v)
     \<and> (\<forall>k ids v. let (ok, v') = ne_removeFromPlaylist A k ids v
        in if ok then changed_only k (entriesOf v) (entriesOf v')
                    \<and> map snd (entriesOf v' k) = map snd (filter (\<lambda>e. fst e \<notin> set ids) (entriesOf v k))
           else entriesOf v' = entriesOf v)
     \<and> (\<forall>k m v items n. ne_getPlaylistSongList A k m v = Reply (items, n) \<longrightarrow>
          map (\<lambda>item. (ni_id item, ns_mediaFileId item)) items =
            map (\<lambda>(e, s). (e, Some s)) (filter (\<lambda>e. m = Some False \<longrightarrow> \<not> gone (snd e)) (entriesOf v k)))
     \<and> (\<forall>k v. distinct (map fst (entriesOf v k)))"

text \<open>Which songs of a playlist are hidden from the client, and which are shown to it.\<close>

definition hiddenSongs :: "nd_client \<Rightarrow> (string \<Rightarrow> bool) \<Rightarrow> string list \<Rightarrow> string list" where
  "hiddenSongs C gone songs = filter (\<lambda>s. excludeMissing C = Some False \<and> gone s) songs"

definition shownSongs :: "nd_client \<Rightarrow> (string \<Rightarrow> bool) \<Rightarrow> string list \<Rightarrow> string list" where
  "shownSongs C gone songs = filter (\<lambda>s. excludeMissing C = Some False \<longrightarrow> \<not> gone s) songs"

lemma keeps_nd_add:
  assumes "keeps_nd_playlists A gone entriesOf" and "ndFillPlaylist A k ids v = (r, v')"
  shows "changed_only k (entriesOf v) (entriesOf v')
    \<and> map snd (entriesOf v' k) = (case r of Inl e \<Rightarrow> map snd (entriesOf v k) | Inr _ \<Rightarrow> map snd (entriesOf v k) @ ids)"
proof -
  have "let (ok, v') = ne_addToPlaylist A k ids v
    in if ok then changed_only k (entriesOf v) (entriesOf v') \<and> map snd (entriesOf v' k) = map snd (entriesOf v k) @ ids
       else entriesOf v' = entriesOf v"
    using assms(1) unfolding keeps_nd_playlists_def by blast
  with assms(2) show ?thesis
    by (cases "ne_addToPlaylist A k ids v") (auto simp: ndFillPlaylist_def demand_def changed_only_def split: if_splits)
qed

lemma shown_entries:
  assumes "map (\<lambda>item. (ni_id item, ns_mediaFileId item)) items = map (\<lambda>(e, s). (e, Some s)) es"
  shows "knownIds (map s_playlistItemId (map (\<lambda>item. ndNormalizeSong item server) items)) = map fst es"
    and "map s_id (map (\<lambda>item. ndNormalizeSong item server) items) = map snd es"
proof -
  have f: "s_playlistItemId (ndNormalizeSong item server) = (case ns_mediaFileId item of Some f \<Rightarrow> Some (ni_id item) | None \<Rightarrow> None)"
    "s_id (ndNormalizeSong item server) = (case ns_mediaFileId item of Some f \<Rightarrow> f | None \<Rightarrow> ni_id item)" for item
    by (simp_all add: ndNormalizeSong_def Let_def case_prod_beta split: option.split)
  show "knownIds (map s_playlistItemId (map (\<lambda>item. ndNormalizeSong item server) items)) = map fst es"
    "map s_id (map (\<lambda>item. ndNormalizeSong item server) items) = map snd es"
    using assms
  proof (induction items arbitrary: es)
    case (Cons item items)
    {
      case 1
      with Cons show ?case by (cases es) (auto simp: f knownIds_def)
    next
      case 2
      with Cons show ?case by (cases es) (auto simp: f)
    }
  qed (simp_all add: knownIds_def)
qed

lemma remaining_entries:
  "distinct (map fst es) \<Longrightarrow> filter (\<lambda>e. fst e \<notin> set (map fst (filter P es))) es = filter (\<lambda>e. \<not> P e) es"
proof -
  assume d: "distinct (map fst es)"
  have "e \<in> set es \<Longrightarrow> P e \<longleftrightarrow> fst e \<in> set (map fst (filter P es))" for e
    using d by (auto simp: distinct_map inj_on_def)
  then show ?thesis by (intro filter_cong) auto
qed

lemma keeps_nd_clear:
  assumes "keeps_nd_playlists A gone entriesOf" and "ne_getPlaylistSongList A k (excludeMissing C) v = Reply (items, n)"
    and "ndClearPlaylist A k (map (\<lambda>item. ndNormalizeSong item server) items) v = (r, v')"
  shows "changed_only k (entriesOf v) (entriesOf v')
    \<and> map snd (entriesOf v' k) =
        (case r of Inl e \<Rightarrow> map snd (entriesOf v k) | Inr _ \<Rightarrow> hiddenSongs C gone (map snd (entriesOf v k)))
    \<and> map s_id (map (\<lambda>item. ndNormalizeSong item server) items) = shownSongs C gone (map snd (entriesOf v k))"
proof -
  let ?P = "\<lambda>e. excludeMissing C = Some False \<longrightarrow> \<not> gone (snd e)"
  have got: "map (\<lambda>item. (ni_id item, ns_mediaFileId item)) items = map (\<lambda>(e, s). (e, Some s)) (filter ?P (entriesOf v k))"
    and d: "distinct (map fst (entriesOf v k))"
    and law: "let (ok, v') = ne_removeFromPlaylist A k ids v
      in if ok then changed_only k (entriesOf v) (entriesOf v')
                  \<and> map snd (entriesOf v' k) = map snd (filter (\<lambda>e. fst e \<notin> set ids) (entriesOf v k))
         else entriesOf v' = entriesOf v" for ids
    using assms(1,2) unfolding keeps_nd_playlists_def by blast+
  have hidden: "map snd (filter (\<lambda>e. \<not> ?P e) (entriesOf v k)) = hiddenSongs C gone (map snd (entriesOf v k))"
    "map snd (filter ?P (entriesOf v k)) = shownSongs C gone (map snd (entriesOf v k))"
    by (simp_all add: hiddenSongs_def shownSongs_def filter_map comp_def)
  note shown = shown_entries [OF got, of server]
  have "changed_only k (entriesOf v) (entriesOf v')
    \<and> map snd (entriesOf v' k) = (case r of Inl e \<Rightarrow> map snd (entriesOf v k) | Inr _ \<Rightarrow> hiddenSongs C gone (map snd (entriesOf v k)))"
  proof (cases "filter ?P (entriesOf v k) = []")
    case True
    then have "filter (\<lambda>e. \<not> ?P e) (entriesOf v k) = entriesOf v k" by (auto simp: filter_empty_conv filter_id_conv)
    with hidden True assms(3) shown show ?thesis by (auto simp: ndClearPlaylist_def changed_only_def)
  next
    case False
    with assms(3) shown have "demand ''Failed to remove songs from playlist''
        (ne_removeFromPlaylist A k (map fst (filter ?P (entriesOf v k))) v) = (r, v')"
      by (simp add: ndClearPlaylist_def Let_def)
    with law [of "map fst (filter ?P (entriesOf v k))"] remaining_entries [OF d, of ?P] hidden show ?thesis
      by (cases "ne_removeFromPlaylist A k (map fst (filter ?P (entriesOf v k))) v")
        (auto simp: demand_def changed_only_def split: if_splits)
  qed
  with shown hidden show ?thesis by simp
qed

lemma ndReplace_cases:
  assumes "ndReplacePlaylist A C k songs now v idb = (r, v', idb')"
  obtains e where "r = Inl e" "v' = v" "idb' = idb"
  | items n where "ne_getPlaylistSongList A k (excludeMissing C) v = Reply (items, n)"
      "ndRefill A k (map (\<lambda>item. ndNormalizeSong item (nc_serverId C)) items) songs v = (r, v')"
      "map_option bk_songIds (idb' (backupKey k)) = Some (map s_id (map (\<lambda>item. ndNormalizeSong item (nc_serverId C)) items))"
proof (cases "ne_getPlaylistSongList A k (excludeMissing C) v")
  case Refused
  with assms show ?thesis by (intro that(1)) (auto simp: ndReplacePlaylist_def)
next
  case got: (Reply res)
  obtain items n where res: "res = (items, n)" by (rule prod.exhaust)
  show ?thesis
  proof (cases "ne_getPlaylistDetail A k v")
    case Refused
    with assms got res show ?thesis by (intro that(1)) (auto simp: ndReplacePlaylist_def)
  next
    case (Reply detail)
    with assms got res show ?thesis
      by (intro that(2) [OF got [unfolded res]]) (auto simp: ndReplacePlaylist_def Let_def split: prod.splits)
  qed
qed

section \<open>Replacing a playlist\<close>

text \<open>
  When replacing reports success, the playlist has the new songs; but songs whose files are missing stay in front of
  them on servers that keep such files, because they are not shown to the client, and they are not in the backup either. No
  other playlist changed.
\<close>

theorem nd_replace_keeps_missing_songs:
  assumes "keeps_nd_playlists A gone entriesOf" and "ndReplacePlaylist A C k songs now v idb = (Inr (), v', idb')"
  shows "map snd (entriesOf v' k) = hiddenSongs C gone (map snd (entriesOf v k)) @ songs
    \<and> changed_only k (entriesOf v) (entriesOf v')
    \<and> map_option bk_songIds (idb' (backupKey k)) = Some (shownSongs C gone (map snd (entriesOf v k)))"
  using assms(2)
proof (cases rule: ndReplace_cases)
  case (2 items n)
  let ?shown = "map (\<lambda>item. ndNormalizeSong item (nc_serverId C)) items"
  from 2(2) obtain v1 where v1: "ndClearPlaylist A k ?shown v = (Inr (), v1)" "ndFillPlaylist A k songs v1 = (Inr (), v')"
    by (auto simp: ndRefill_def split: prod.splits sum.splits)
  from keeps_nd_clear [OF assms(1) 2(1) v1(1)] keeps_nd_add [OF assms(1) v1(2)] 2(3) show ?thesis
    by (auto simp: changed_only_def)
qed simp_all

text \<open>When it throws, either nothing changed, or what is gone from the playlist is in the backup.\<close>

theorem nd_failed_replace_loses_nothing:
  assumes "keeps_nd_playlists A gone entriesOf" and "ndReplacePlaylist A C k songs now v idb = (Inl e, v', idb')"
  shows "map snd (entriesOf v' k) = map snd (entriesOf v k)
    \<or> map snd (entriesOf v' k) = hiddenSongs C gone (map snd (entriesOf v k))
      \<and> map_option bk_songIds (idb' (backupKey k)) = Some (shownSongs C gone (map snd (entriesOf v k)))"
  using assms(2)
proof (cases rule: ndReplace_cases)
  case (2 items n)
  let ?shown = "map (\<lambda>item. ndNormalizeSong item (nc_serverId C)) items"
  obtain r1 v1 where clr: "ndClearPlaylist A k ?shown v = (r1, v1)" by (cases "ndClearPlaylist A k ?shown v")
  note cleared = keeps_nd_clear [OF assms(1) 2(1) clr]
  show ?thesis
  proof (cases r1)
    case (Inl x)
    with 2(2) clr cleared show ?thesis by (simp add: ndRefill_def)
  next
    case (Inr x)
    with 2(2) clr have "ndFillPlaylist A k songs v1 = (Inl e, v')" by (simp add: ndRefill_def)
    from keeps_nd_add [OF assms(1) this] cleared Inr 2(3) show ?thesis by simp
  qed
qed simp

section \<open>Saving and restoring the queue\<close>

text \<open>The two interfaces of the server know the same queue.\<close>

definition queue_is :: "nd_queue reply \<Rightarrow> jsnum option \<Rightarrow> string list \<Rightarrow> rat option \<Rightarrow> bool" where
  "queue_is res index ids position \<longleftrightarrow>
     (\<exists>body. res = Reply body \<and> nq_currentIndex body = index \<and> nq_positionMs body = nullish_or position 0
        \<and> map (\<lambda>item. (ni_id item, ns_mediaFileId item)) (nullish_or (nq_items body) []) = map (\<lambda>k. (k, None)) ids)"

definition shares_queue :: "'v nd_api \<Rightarrow> 'v queue_api \<Rightarrow> bool" where
  "shares_queue N A \<longleftrightarrow>
     (\<forall>q v v'. ne_saveQueue N q v = (True, v') \<longrightarrow> queue_is (ne_getQueue N v') (nq_current q) (nq_ids q) (nq_position q))
     \<and> (\<forall>index ids position v v'. qa_saveByIndex A index ids position v = (Reply (), v') \<longrightarrow>
          queue_is (ne_getQueue N v') index ids position)"

lemma queue_ids:
  "map (\<lambda>item. (ni_id item, ns_mediaFileId item)) items = map (\<lambda>k. (k, None)) ids \<Longrightarrow>
     map s_id (map (\<lambda>song. ndNormalizeSong song server) items) = ids"
proof (induction items arbitrary: ids)
  case (Cons item items)
  then show ?case by (cases ids) (auto simp: ndNormalizeSong_def Let_def case_prod_beta)
qed simp

text \<open>
  Whichever of its two interfaces the queue is saved through, reading it through Navidrome's own gives back the songs, the
  index and the position.
\<close>

theorem nd_saved_queue_is_restored:
  assumes "shares_queue N A" and "hasFeatureWithVersion (nc_features C) SERVER_PLAY_QUEUE 2"
    and "ndSavePlayQueue N A C q v = (Inr (), v')"
  shows "\<exists>r. ndGetPlayQueue N A C v' = Inr r \<and> map s_id (vr_entry r) = vq_songs q
    \<and> vr_currentIndex r = nullish_or (vq_currentIndex q) (Num 0) \<and> vr_positionMs r = nullish_or (vq_positionMs q) 0"
proof -
  have feature: "hasFeature (nc_features C) SERVER_PLAY_QUEUE"
    using assms(2) by (auto simp: hasFeature_def hasFeatureWithVersion_def split: option.splits)
  have "queue_is (ne_getQueue N v') (vq_currentIndex q) (vq_songs q) (vq_positionMs q)"
  proof (cases "hasFeatureWithVersion (nc_features C) SERVER_PLAY_QUEUE 1")
    case True
    with assms(3) feature have "qa_saveByIndex A (vq_currentIndex q) (vq_songs q) (vq_positionMs q) v = (Reply (), v')"
      by (simp add: ndSavePlayQueue_def savePlayQueue_def save_refused case_prod_beta prod_eq_iff)
    with assms(1) show ?thesis unfolding shares_queue_def by blast
  next
    case False
    let ?q = "\<lparr>nq_current = vq_currentIndex q, nq_ids = vq_songs q, nq_position = vq_positionMs q\<rparr>"
    from False assms(2,3) have "ne_saveQueue N ?q v = (True, v')"
      by (cases "ne_saveQueue N ?q v") (auto simp: ndSavePlayQueue_def demand_def split: if_splits)
    with assms(1) have "queue_is (ne_getQueue N v') (nq_current ?q) (nq_ids ?q) (nq_position ?q)"
      unfolding shares_queue_def by blast
    then show ?thesis by simp
  qed
  then obtain body where body: "ne_getQueue N v' = Reply body" "nq_currentIndex body = vq_currentIndex q"
    "nq_positionMs body = nullish_or (vq_positionMs q) 0"
    "map (\<lambda>item. (ni_id item, ns_mediaFileId item)) (nullish_or (nq_items body) []) = map (\<lambda>k. (k, None)) (vq_songs q)"
    unfolding queue_is_def by blast
  have "ndGetPlayQueue N A C v' = Inr (ndQueueResponse C body)"
    using assms(2) body(1) by (simp add: ndGetPlayQueue_def reply_or_def)
  then show ?thesis using body(2,3) queue_ids [OF body(4)] by (simp add: ndQueueResponse_def del: map_map)
qed

section \<open>Servers\<close>

text \<open>
  A server that numbers the entries of a playlist by their positions, has lost the file of the song with the id
  \<^verbatim>\<open>lost\<close>, and does not add to the playlist with the id \<^verbatim>\<open>locked\<close>. The requests that it does not need are refused.
\<close>

definition silentApi :: "'v nd_api" where
  "silentApi =
     \<lparr>ne_addToPlaylist = (\<lambda>k ids v. (False, v)), ne_removeFromPlaylist = (\<lambda>k ids v. (False, v)),
      ne_movePlaylistItem = (\<lambda>k i j v. (False, v)), ne_createPlaylist = (\<lambda>b v. (Refused, v)),
      ne_updatePlaylist = (\<lambda>k b v. (False, v)), ne_deletePlaylist = (\<lambda>k v. (False, v)),
      ne_getPlaylistSongList = (\<lambda>k m v. Refused), ne_getPlaylistDetail = (\<lambda>k v. Refused),
      ne_updateStation = (\<lambda>k b v. (False, v)), ne_deleteStation = (\<lambda>k v. (False, v)),
      ne_deleteImage = (\<lambda>t k v. (Refused, v)), ne_uploadImage = (\<lambda>u t b v. (Refused, v)),
      ne_shareItem = (\<lambda>b v. (Refused, v)), ne_saveQueue = (\<lambda>q v. (False, v)), ne_getQueue = (\<lambda>v. Refused)\<rparr>"

definition ndSongNamed :: "string \<Rightarrow> string option \<Rightarrow> nd_song" where
  "ndSongNamed k file = nd_item.extend
     \<lparr>ni_id = k, ni_albumArtist = '''', ni_albumArtistId = '''', ni_artist = '''', ni_artistId = '''', ni_comment = None,
      ni_compilation = False, ni_createdAt = '''', ni_explicitStatus = None, ni_genres = None, ni_participants = None,
      ni_playCount = None, ni_playDate = None, ni_rating = None, ni_releaseDate = None, ni_size = 0, ni_starred = False,
      ni_tags = None, ni_updatedAt = ''''\<rparr>
     \<lparr>ns_album = '''', ns_albumId = '''', ns_bitDepth = None, ns_bitRate = 0, ns_bpm = None, ns_channels = None,
      ns_discNumber = 1, ns_discSubtitle = None, ns_duration = 0, ns_libraryPath = None, ns_lyrics = None,
      ns_mbzReleaseTrackId = None, ns_mediaFileId = file, ns_orderTitle = '''', ns_path = '''', ns_rgAlbumGain = None,
      ns_rgAlbumPeak = None, ns_rgTrackGain = None, ns_rgTrackPeak = None, ns_sampleRate = None, ns_suffix = '''',
      ns_title = '''', ns_trackNumber = 1, ns_year = None\<rparr>"

definition positionEntries :: "(string \<Rightarrow> string list) \<Rightarrow> string \<Rightarrow> (string \<times> string) list" where
  "positionEntries v k = map (\<lambda>(i, s). (decimal i, s)) (enumerate 0 (v k))"

definition positionApi :: "(string \<Rightarrow> string list) nd_api" where
  "positionApi = silentApi
     \<lparr>ne_addToPlaylist := (\<lambda>k ids v. if k = ''locked'' then (False, v) else (True, v(k := v k @ ids))),
      ne_removeFromPlaylist := (\<lambda>k ids v. (True, v(k := map snd (filter (\<lambda>e. fst e \<notin> set ids) (positionEntries v k))))),
      ne_getPlaylistSongList := (\<lambda>k m v.
        let es = filter (\<lambda>e. m = Some False \<longrightarrow> snd e \<noteq> ''lost'') (positionEntries v k)
        in Reply (map (\<lambda>(i, s). ndSongNamed i (Some s)) es, length es)),
      ne_getPlaylistDetail := (\<lambda>k v. Reply \<lparr>nl_comment = '''', nl_duration = 0, nl_id = k, nl_name = k, nl_ownerId = '''',
        nl_ownerName = '''', nl_public = False, nl_rules = None, nl_size = 0, nl_songCount = 0, nl_sync = False,
        nl_updatedAt = None, nl_uploadedImage = None\<rparr>)\<rparr>"

definition exampleNavidrome :: nd_client where
  "exampleNavidrome =
     \<lparr>nc_features = Some (Some [BFR \<mapsto> [1], SERVER_PLAY_QUEUE \<mapsto> [2]]), nc_serverId = None, nc_url = None, nc_credential = None,
      nc_username = None\<rparr>"

lemma ndSongNamed_ids [simp]: "ni_id (ndSongNamed k f) = k" "ns_mediaFileId (ndSongNamed k f) = f"
  by (simp_all add: ndSongNamed_def nd_item.defs)

lemma songs_of_positions: "map snd (positionEntries v k) = v k"
proof -
  have "map snd (positionEntries v k) = map snd (enumerate 0 (v k))"
    unfolding positionEntries_def map_map comp_def case_prod_beta snd_conv ..
  then show ?thesis by simp
qed

lemma position_keeps: "keeps_nd_playlists positionApi (\<lambda>s. s = ''lost'') positionEntries"
proof -
  have "inj_on (\<lambda>i. decimal i) A" for A by (rule inj_onI) (rule decimal_inj)
  moreover have "map fst (positionEntries v k) = map decimal [0..<length (v k)]" for v k
  proof -
    have "map fst (positionEntries v k) = map decimal (map fst (enumerate 0 (v k)))"
      unfolding positionEntries_def map_map comp_def by (simp add: case_prod_beta)
    then show ?thesis by simp
  qed
  ultimately have d: "distinct (map fst (positionEntries v k))" for v k by (simp add: distinct_map)
  have other: "j \<noteq> k \<Longrightarrow> positionEntries (v(k := x)) j = positionEntries v j" for j k v x
    by (simp add: positionEntries_def)
  show ?thesis
    unfolding keeps_nd_playlists_def songs_of_positions
    using d by (auto simp: positionApi_def changed_only_def Let_def other)
qed

definition examplePlaylists :: "string \<Rightarrow> string list" where
  "examplePlaylists = (\<lambda>k. [])(''mix'' := [''a'', ''lost'', ''b''], ''locked'' := [''c'', ''lost''])"

lemma nd_replace_keeps_missing_songs_witness:
  "let (r, v', idb') = ndReplacePlaylist positionApi exampleNavidrome ''mix'' [''x''] 5 examplePlaylists (\<lambda>_. None)
   in r = Inr () \<and> v' ''mix'' = [''lost'', ''x''] \<and> map_option bk_songIds (idb' (backupKey ''mix'')) = Some [''a'', ''b'']"
proof -
  let ?run = "ndReplacePlaylist positionApi exampleNavidrome ''mix'' [''x''] 5 examplePlaylists (\<lambda>_. None)"
  obtain r v' idb' where run: "?run = (r, v', idb')" by (metis surj_pair)
  have "fst ?run = Inr ()" by code_simp
  with run have r: "r = Inr ()" by simp
  have "hiddenSongs exampleNavidrome (\<lambda>s. s = ''lost'') (examplePlaylists ''mix'') = [''lost'']"
    "shownSongs exampleNavidrome (\<lambda>s. s = ''lost'') (examplePlaylists ''mix'') = [''a'', ''b'']" by code_simp+
  with nd_replace_keeps_missing_songs [OF position_keeps run [unfolded r]] show ?thesis
    by (simp add: run r songs_of_positions)
qed

lemma nd_failed_replace_loses_nothing_witness:
  "let (r, v', idb') = ndReplacePlaylist positionApi exampleNavidrome ''locked'' [''x''] 5 examplePlaylists (\<lambda>_. None)
   in r \<noteq> Inr () \<and> (v' ''locked'' = [''c'', ''lost'']
     \<or> v' ''locked'' = [''lost''] \<and> map_option bk_songIds (idb' (backupKey ''locked'')) = Some [''c''])"
proof -
  let ?run = "ndReplacePlaylist positionApi exampleNavidrome ''locked'' [''x''] 5 examplePlaylists (\<lambda>_. None)"
  obtain r v' idb' where run: "?run = (r, v', idb')" by (metis surj_pair)
  have "case fst ?run of Inl e \<Rightarrow> True | Inr _ \<Rightarrow> False" by code_simp
  with run obtain e where r: "r = Inl e" by (auto split: sum.splits)
  have "hiddenSongs exampleNavidrome (\<lambda>s. s = ''lost'') (examplePlaylists ''locked'') = [''lost'']"
    "shownSongs exampleNavidrome (\<lambda>s. s = ''lost'') (examplePlaylists ''locked'') = [''c'']"
    "examplePlaylists ''locked'' = [''c'', ''lost'']" by code_simp+
  with nd_failed_replace_loses_nothing [OF position_keeps run [unfolded r]] show ?thesis
    by (simp add: run r songs_of_positions)
qed

text \<open>A server that keeps one queue.\<close>

definition oneQueueApi :: "nd_save_queue option nd_api" where
  "oneQueueApi = silentApi
     \<lparr>ne_saveQueue := (\<lambda>q v. (True, Some q)),
      ne_getQueue := (\<lambda>v. case v of None \<Rightarrow> Refused
        | Some q \<Rightarrow> Reply \<lparr>nq_changedBy = '''', nq_currentIndex = nq_current q,
            nq_items = Some (map (\<lambda>k. ndSongNamed k None) (nq_ids q)), nq_positionMs = nullish_or (nq_position q) 0,
            nq_updatedAt = ''''\<rparr>)\<rparr>"

definition oneQueueSubsonic :: "nd_save_queue option queue_api" where
  "oneQueueSubsonic =
     \<lparr>qa_saveByIndex = (\<lambda>index ids position v. (Reply (), Some \<lparr>nq_current = index, nq_ids = ids, nq_position = position\<rparr>)),
      qa_save = (\<lambda>current ids position v. (Refused, v)), qa_getByIndex = (\<lambda>v. Refused), qa_get = (\<lambda>v. Refused)\<rparr>"

lemma one_queue_shared: "shares_queue oneQueueApi oneQueueSubsonic"
  by (auto simp: shares_queue_def oneQueueApi_def oneQueueSubsonic_def queue_is_def)

definition exampleQueue :: save_queue_query where
  "exampleQueue = \<lparr>vq_currentIndex = Some (Num 1), vq_positionMs = Some 3000, vq_songs = [''a'', ''b'']\<rparr>"

lemma nd_saved_queue_is_restored_witness:
  "\<exists>r. ndGetPlayQueue oneQueueApi oneQueueSubsonic exampleNavidrome
      (snd (ndSavePlayQueue oneQueueApi oneQueueSubsonic exampleNavidrome exampleQueue None)) = Inr r
    \<and> map s_id (vr_entry r) = [''a'', ''b''] \<and> vr_currentIndex r = Num 1 \<and> vr_positionMs r = 3000"
proof -
  have f: "hasFeatureWithVersion (nc_features exampleNavidrome) SERVER_PLAY_QUEUE 2" by code_simp
  have "fst (ndSavePlayQueue oneQueueApi oneQueueSubsonic exampleNavidrome exampleQueue None) = Inr ()" by code_simp
  then have "ndSavePlayQueue oneQueueApi oneQueueSubsonic exampleNavidrome exampleQueue None =
      (Inr (), snd (ndSavePlayQueue oneQueueApi oneQueueSubsonic exampleNavidrome exampleQueue None))"
    by (metis prod.collapse)
  from nd_saved_queue_is_restored [OF one_queue_shared f this] show ?thesis by (simp add: exampleQueue_def)
qed

end
