(* ===== verification/NavidromeLists.thy ===== *)
theory NavidromeLists
  imports NavidromeChanges JellyfinLists
begin

text \<open>
  The lists, details and tags of Navidrome servers (\<^verbatim>\<open>api/navidrome/navidrome-controller.ts\<close>, with the maps of sort
  orders in \<^verbatim>\<open>shared/types/domain-types.ts\<close> and \<^verbatim>\<open>navidrome-types.ts\<close>). What the server answers to each request
  is an argument; like Jellyfin, the server filters, sorts and pages, but it is told where a page ends.
\<close>

section \<open>Sort orders\<close>

fun ndAlbumSort :: "AlbumListSort \<Rightarrow> string option" where
  "ndAlbumSort Album_ALBUM_ARTIST = Some ''album_artist''"
| "ndAlbumSort Album_ARTIST = Some ''artist''"
| "ndAlbumSort Album_DURATION = Some ''duration''"
| "ndAlbumSort Album_EXPLICIT_STATUS = Some ''explicitStatus''"
| "ndAlbumSort Album_FAVORITED = Some ''starred_at''"
| "ndAlbumSort Album_NAME = Some ''name''"
| "ndAlbumSort Album_PLAY_COUNT = Some ''play_count''"
| "ndAlbumSort Album_RANDOM = Some ''random''"
| "ndAlbumSort Album_RATING = Some ''rating''"
| "ndAlbumSort Album_RECENTLY_ADDED = Some ''recently_added''"
| "ndAlbumSort Album_RECENTLY_PLAYED = Some ''play_date''"
| "ndAlbumSort Album_RELEASE_DATE = Some ''max_year''"
| "ndAlbumSort Album_SONG_COUNT = Some ''songCount''"
| "ndAlbumSort Album_SORT_NAME = Some ''name''"
| "ndAlbumSort Album_YEAR = Some ''max_year''"
| "ndAlbumSort _ = None"

fun ndSongSort :: "SongListSort \<Rightarrow> string option" where
  "ndSongSort Song_ALBUM = Some ''album''"
| "ndSongSort Song_ALBUM_ARTIST = Some ''order_album_artist_name''"
| "ndSongSort Song_ARTIST = Some ''artist''"
| "ndSongSort Song_BPM = Some ''bpm''"
| "ndSongSort Song_CHANNELS = Some ''channels''"
| "ndSongSort Song_COMMENT = Some ''comment''"
| "ndSongSort Song_DURATION = Some ''duration''"
| "ndSongSort Song_EXPLICIT_STATUS = Some ''explicitStatus''"
| "ndSongSort Song_FAVORITED = Some ''starred_at''"
| "ndSongSort Song_GENRE = Some ''genre''"
| "ndSongSort Song_ID = Some ''id''"
| "ndSongSort Song_NAME = Some ''title''"
| "ndSongSort Song_PLAY_COUNT = Some ''playCount''"
| "ndSongSort Song_RANDOM = Some ''random''"
| "ndSongSort Song_RATING = Some ''rating''"
| "ndSongSort Song_RECENTLY_ADDED = Some ''createdAt''"
| "ndSongSort Song_RECENTLY_PLAYED = Some ''playDate''"
| "ndSongSort Song_RELEASE_DATE = None"
| "ndSongSort Song_SORT_NAME = Some ''title''"
| "ndSongSort Song_YEAR = Some ''year''"

fun ndArtistSort :: "AlbumArtistListSort \<Rightarrow> string option" where
  "ndArtistSort Artist_ALBUM_COUNT = Some ''albumCount''"
| "ndArtistSort Artist_FAVORITED = Some ''starred_at''"
| "ndArtistSort Artist_NAME = Some ''name''"
| "ndArtistSort Artist_PLAY_COUNT = Some ''playCount''"
| "ndArtistSort Artist_RATING = Some ''rating''"
| "ndArtistSort Artist_SONG_COUNT = Some ''songCount''"
| "ndArtistSort _ = None"

fun ndPlaylistSort :: "PlaylistListSort \<Rightarrow> string" where
  "ndPlaylistSort Playlist_DURATION = ''duration''"
| "ndPlaylistSort Playlist_NAME = ''name''"
| "ndPlaylistSort Playlist_OWNER = ''owner_name''"
| "ndPlaylistSort Playlist_PUBLIC = ''public''"
| "ndPlaylistSort Playlist_SONG_COUNT = ''songCount''"
| "ndPlaylistSort Playlist_UPDATED_AT = ''updatedAt''"

fun ndSortOrder :: "SortOrder \<Rightarrow> string" where
  "ndSortOrder ASC = ''ASC''"
| "ndSortOrder DESC = ''DESC''"

section \<open>Requests\<close>

text \<open>Old servers take one id where newer ones take several.\<close>

datatype nd_ids = One_id string | Many_ids "string list"

record nd_request =
  nx_end :: "int option"
  nx_order :: "string option"
  nx_sort :: "string option"
  nx_start :: "nat option"
  nx_album_artist_id :: "string list option"
  nx_album_id :: "string list option"
  nx_artist_id :: "nd_ids option"
  nx_artists_id :: "string list option"
  nx_compilation :: "bool option"
  nx_genre_id :: "nd_ids option"
  nx_has_rating :: "bool option"
  nx_library_id :: "string list option"
  nx_missing :: "bool option"
  nx_name :: "string option"
  nx_q :: "string option"
  nx_recently_played :: "bool option"
  nx_role :: "string option"
  nx_smart :: "bool option"
  nx_starred :: "bool option"
  nx_tag_name :: "string option"
  nx_tag_value :: "string option"
  nx_title :: "string option"
  nx_year :: "nat option"

definition noParameters :: nd_request where
  "noParameters = \<lparr>nx_end = None, nx_order = None, nx_sort = None, nx_start = None, nx_album_artist_id = None,
     nx_album_id = None, nx_artist_id = None, nx_artists_id = None, nx_compilation = None, nx_genre_id = None,
     nx_has_rating = None, nx_library_id = None, nx_missing = None, nx_name = None, nx_q = None, nx_recently_played = None,
     nx_role = None, nx_smart = None, nx_starred = None, nx_tag_name = None, nx_tag_value = None, nx_title = None,
     nx_year = None\<rparr>"

record nd_tag =
  ntg_albumCount :: "nat option"
  ntg_id :: string
  ntg_songCount :: "nat option"
  ntg_tagName :: string
  ntg_tagValue :: string

text \<open>Lists are answered with the header of their total, which counts as zero when it is missing.\<close>

record nd_server =
  nv_artists :: "nd_request \<Rightarrow> (nd_artist list \<times> nat) reply"
  nv_artist :: "string \<Rightarrow> nd_artist reply"
  nv_albums :: "nd_request \<Rightarrow> (nd_album list \<times> nat) reply"
  nv_album :: "string \<Rightarrow> nd_album reply"
  nv_songs :: "nd_request \<Rightarrow> (nd_song list \<times> nat) reply"
  nv_song :: "string \<Rightarrow> nd_song reply"
  nv_tags :: "nd_request \<Rightarrow> (nd_tag list \<times> nat) reply"
  nv_genres :: "nd_request \<Rightarrow> (nd_genre list \<times> nat) reply"
  nv_stations :: "nd_request \<Rightarrow> nd_station list reply"
  nv_playlists :: "nd_request \<Rightarrow> (nd_playlist list \<times> nat) reply"
  nv_playlist :: "string \<Rightarrow> nd_playlist reply"
  nv_users :: "nd_request \<Rightarrow> (nd_user list \<times> nat) reply"

text \<open>The query of a list as the client states it; \<open>_custom\<close> is what its entries make of the request.\<close>

record nd_query =
  ny_limit :: "int option"
  ny_musicFolderId :: "folder_ids option"
  ny_searchTerm :: "string option"
  ny_sortOrder :: SortOrder
  ny_startIndex :: nat
  ny_favorite :: "bool option"
  ny_custom :: "nd_request \<Rightarrow> nd_request"

record nd_album_query = nd_query +
  nyb_artistIds :: "string list option"
  nyb_compilation :: "bool option"
  nyb_genreIds :: "string list option"
  nyb_hasRating :: "bool option"
  nyb_isRecentlyPlayed :: "bool option"
  nyb_maxYear :: "nat option"
  nyb_minYear :: "nat option"
  nyb_sortBy :: AlbumListSort

record nd_song_query = nd_query +
  nys_albumArtistIds :: "string list option"
  nys_albumIds :: "string list option"
  nys_artistIds :: "string list option"
  nys_genreIds :: "string list option"
  nys_hasRating :: "bool option"
  nys_maxYear :: "nat option"
  nys_minYear :: "nat option"
  nys_sortBy :: SongListSort

record nd_artist_query = nd_query +
  nya_role :: "string option"
  nya_sortBy :: AlbumArtistListSort

definition ndLibraryId :: "folder_ids option \<Rightarrow> string list option" where
  "ndLibraryId musicFolderId =
     (case musicFolderId of
        None \<Rightarrow> None
      | Some (One_folder f) \<Rightarrow> if f = '''' then None else Some [f]
      | Some (Many_folders fs) \<Rightarrow> Some fs)"

text \<open>Zero is no limit, and counts as the default.\<close>

definition limitOr :: "int option \<Rightarrow> int \<Rightarrow> int" where
  "limitOr l other = (if nullish_or l 0 = 0 then other else the l)"

text \<open>What the requests for lists have in common.\<close>

definition ndPaged :: "'m nd_query_scheme \<Rightarrow> string option \<Rightarrow> nd_request" where
  "ndPaged q sortBy = noParameters
     \<lparr>nx_end := Some (int (ny_startIndex q) + limitOr (ny_limit q) 0), nx_order := Some (ndSortOrder (ny_sortOrder q)),
      nx_sort := sortBy, nx_start := Some (ny_startIndex q)\<rparr>"

text \<open>Missing files are left out at last, so that \<open>_custom\<close> has no say in it on servers that know of them.\<close>

definition withoutMissing :: "nd_client \<Rightarrow> nd_request \<Rightarrow> nd_request" where
  "withoutMissing C r = (case excludeMissing C of None \<Rightarrow> r | Some m \<Rightarrow> r\<lparr>nx_missing := Some m\<rparr>)"

definition ndYear :: "nat option \<Rightarrow> nat option \<Rightarrow> nat option" where
  "ndYear maxYear minYear = (if truthy_year maxYear then maxYear else minYear)"

definition ndPage :: "'m nd_query_scheme \<Rightarrow> ('a \<Rightarrow> 'b) \<Rightarrow> 'a list \<times> nat \<Rightarrow> 'b page" where
  "ndPage q f res =
     \<lparr>pg_items = map f (fst res), pg_startIndex = ny_startIndex q, pg_totalRecordCount = Some (snd res)\<rparr>"

definition ndSong :: "nd_client \<Rightarrow> nd_song \<Rightarrow> full_song" where
  "ndSong C item = ndNormalizeSong item (nc_serverId C)"

definition ndAlbum :: "nd_client \<Rightarrow> nd_album \<Rightarrow> album" where
  "ndAlbum C item = ndNormalizeAlbum item (nc_serverId C)"

definition ndArtist :: "nd_client \<Rightarrow> nd_artist \<Rightarrow> nd_artist_item" where
  "ndArtist C item = ndNormalizeAlbumArtist item [] (nc_serverId C)"

definition ndPlaylist :: "nd_client \<Rightarrow> nd_playlist \<Rightarrow> nd_playlist_item" where
  "ndPlaylist C item = ndNormalizePlaylist item (nc_serverId C)"

definition ndCountQuery :: "'m nd_query_scheme \<Rightarrow> 'm nd_query_scheme" where
  "ndCountQuery q = q\<lparr>ny_limit := Some 1, ny_startIndex := 0\<rparr>"

section \<open>Artists and albums\<close>

definition ndArtistRequest :: "'m nd_artist_query_scheme \<Rightarrow> nd_request" where
  "ndArtistRequest q = (ndPaged q (ndArtistSort (nya_sortBy q)))
     \<lparr>nx_library_id := ndLibraryId (ny_musicFolderId q), nx_name := ny_searchTerm q, nx_starred := ny_favorite q\<rparr>"

definition ndGetAlbumArtistList :: "nd_server \<Rightarrow> nd_client \<Rightarrow> 'm nd_artist_query_scheme \<Rightarrow> api_error + nd_artist_item page" where
  "ndGetAlbumArtistList S C q =
     reply_or ''Failed to get album artist list''
       (nv_artists S (withoutMissing C ((ny_custom q (ndArtistRequest q))
          \<lparr>nx_role := Some (if hasFeature (nc_features C) BFR then ''albumartist'' else '''')\<rparr>)))
       (\<lambda>res. Inr (ndPage q (ndArtist C) res))"

definition ndGetAlbumArtistListCount :: "nd_server \<Rightarrow> nd_client \<Rightarrow> 'm nd_artist_query_scheme \<Rightarrow> api_error + nat option" where
  "ndGetAlbumArtistListCount S C q = countOf (ndGetAlbumArtistList S C (ndCountQuery q))"

definition ndGetArtistList :: "nd_server \<Rightarrow> nd_client \<Rightarrow> 'm nd_artist_query_scheme \<Rightarrow> api_error + nd_artist_item page" where
  "ndGetArtistList S C q =
     reply_or ''Failed to get artist list''
       (nv_artists S (withoutMissing C (ny_custom q ((ndArtistRequest q)\<lparr>nx_role := text_or_null (nya_role q)\<rparr>))))
       (\<lambda>res. Inr (ndPage q (ndArtist C) res))"

definition ndGetArtistListCount :: "nd_server \<Rightarrow> nd_client \<Rightarrow> 'm nd_artist_query_scheme \<Rightarrow> api_error + nat option" where
  "ndGetArtistListCount S C q = countOf (ndGetArtistList S C (ndCountQuery q))"

text \<open>The id of the server of a call is that which the call names.\<close>

definition ndGetAlbumArtistDetail :: "nd_server \<Rightarrow> nd_client \<Rightarrow> string \<Rightarrow> api_error + nd_artist_item" where
  "ndGetAlbumArtistDetail S C k =
     reply_or ''Failed to get album artist detail'' (nv_artist S k) (\<lambda>res.
       if truthy (nc_serverId C) then Inr (ndArtist C res) else Inl (Api ''Server is required''))"

text \<open>What the interface of Subsonic tells of an artist: a biography, three sizes of an image and similar artists.\<close>

record ss_artistInfo =
  xi_biography :: "string option"
  xi_largeImageUrl :: "string option"
  xi_mediumImageUrl :: "string option"
  xi_smallImageUrl :: "string option"
  xi_similarArtist :: "similar_entry list option"

definition largestImage :: "string option \<Rightarrow> string option \<Rightarrow> string option \<Rightarrow> string option" where
  "largestImage large medium small = (if truthy large then large else if truthy medium then medium else text_or_null small)"

definition ndSimilarArtist :: "similar_entry \<Rightarrow> similar_artist" where
  "ndSimilarArtist entry =
     \<lparr>sm_id = se_id entry, sm_imageId = se_id entry, sm_name = se_name entry, sm_userFavorite = truthy (se_starred entry),
      sm_userRating = se_userRating entry\<rparr>"

definition ndGetAlbumArtistInfo ::
    "ss_artistInfo option reply \<Rightarrow> (string option \<times> string option \<times> similar_artist list option) option" where
  "ndGetAlbumArtistInfo res =
     (case res of
        Refused \<Rightarrow> None
      | Reply None \<Rightarrow> Some (None, None, None)
      | Reply (Some info) \<Rightarrow>
          Some (text_or_null (xi_biography info),
            largestImage (xi_largeImageUrl info) (xi_mediumImageUrl info) (xi_smallImageUrl info),
            map_option (map ndSimilarArtist) (xi_similarArtist info)))"

text \<open>Several genres and artists can be asked for on new servers, and otherwise the first is.\<close>

definition idsFor :: "nd_client \<Rightarrow> string list option \<Rightarrow> nd_ids option" where
  "idsFor C ids =
     (if hasFeature (nc_features C) BFR then map_option Many_ids ids else map_option One_id (Option.bind ids firstOf))"

definition ndAlbumRequest :: "nd_client \<Rightarrow> 'm nd_album_query_scheme \<Rightarrow> nd_request" where
  "ndAlbumRequest C q = withoutMissing C (ny_custom q ((ndPaged q (ndAlbumSort (nyb_sortBy q)))
     \<lparr>nx_artist_id := idsFor C (nyb_artistIds q), nx_compilation := nyb_compilation q,
      nx_genre_id := idsFor C (nyb_genreIds q), nx_has_rating := nyb_hasRating q,
      nx_library_id := ndLibraryId (ny_musicFolderId q), nx_name := ny_searchTerm q,
      nx_recently_played := nyb_isRecentlyPlayed q, nx_starred := ny_favorite q,
      nx_year := ndYear (nyb_maxYear q) (nyb_minYear q)\<rparr>))"

definition ndGetAlbumList :: "nd_server \<Rightarrow> nd_client \<Rightarrow> 'm nd_album_query_scheme \<Rightarrow> api_error + album page" where
  "ndGetAlbumList S C q =
     reply_or ''Failed to get album list'' (nv_albums S (ndAlbumRequest C q)) (\<lambda>res. Inr (ndPage q (ndAlbum C) res))"

definition ndGetAlbumListCount :: "nd_server \<Rightarrow> nd_client \<Rightarrow> 'm nd_album_query_scheme \<Rightarrow> api_error + nat option" where
  "ndGetAlbumListCount S C q = countOf (ndGetAlbumList S C (ndCountQuery q))"

text \<open>Both requests are made before either is looked at.\<close>

definition ndAlbumSongsRequest :: "nd_client \<Rightarrow> string \<Rightarrow> nd_request" where
  "ndAlbumSongsRequest C k = withoutMissing C (noParameters
     \<lparr>nx_end := Some 0, nx_order := Some ''ASC'', nx_sort := Some ''album'', nx_start := Some 0, nx_album_id := Some [k]\<rparr>)"

definition ndGetAlbumDetail :: "nd_server \<Rightarrow> nd_client \<Rightarrow> string \<Rightarrow> api_error + album" where
  "ndGetAlbumDetail S C k =
     reply_or ''Failed to get album detail'' (nv_album S k) (\<lambda>album0.
       reply_or ''Failed to get album detail'' (nv_songs S (ndAlbumSongsRequest C k)) (\<lambda>(songs, total0).
         Inr (ndAlbum C (album0\<lparr>na_songs := songs\<rparr>))))"

text \<open>The image and the notes of an album, from three sizes and the notes.\<close>

definition ndGetAlbumInfo ::
    "(string option \<times> string option \<times> string option \<times> string option) reply \<Rightarrow> api_error + string option \<times> string option" where
  "ndGetAlbumInfo res =
     reply_or ''Failed to get album info'' res (\<lambda>(large, medium, small, notes).
       Inr (largestImage large medium small, text_or_null notes))"

section \<open>Genres, stations, playlists and users\<close>

definition genreTagRequest :: "'m nd_query_scheme \<Rightarrow> nd_request" where
  "genreTagRequest q = (ndPaged q (Some ''tagValue''))
     \<lparr>nx_library_id := ndLibraryId (ny_musicFolderId q), nx_tag_name := Some ''genre'', nx_tag_value := ny_searchTerm q\<rparr>"

definition ndGenreOfTag :: "nd_tag \<Rightarrow> nd_genre" where
  "ndGenreOfTag g =
     \<lparr>ng_albumCount = ntg_albumCount g, ng_id = ntg_id g, ng_name = ntg_tagValue g, ng_songCount = ntg_songCount g\<rparr>"

definition ndGetGenreList :: "nd_server \<Rightarrow> nd_client \<Rightarrow> 'm nd_query_scheme \<Rightarrow> api_error + genre page" where
  "ndGetGenreList S C q =
     (if hasFeature (nc_features C) BFR then
        reply_or ''Failed to get genre list'' (nv_tags S (genreTagRequest q))
          (\<lambda>res. Inr (ndPage q (\<lambda>g. ndNormalizeGenre (ndGenreOfTag g) (nc_serverId C)) res))
      else
        reply_or ''Failed to get genre list''
          (nv_genres S ((ndPaged q (Some ''name''))
             \<lparr>nx_library_id := ndLibraryId (ny_musicFolderId q), nx_name := ny_searchTerm q\<rparr>))
          (\<lambda>res. Inr (ndPage q (\<lambda>g. ndNormalizeGenre g (nc_serverId C)) res)))"

definition ndGetInternetRadioStations :: "nd_server \<Rightarrow> api_error + nd_station_item list" where
  "ndGetInternetRadioStations S =
     reply_or ''Failed to get internet radio stations''
       (nv_stations S (noParameters\<lparr>nx_end := Some (-1), nx_order := Some ''ASC'', nx_sort := Some ''name'', nx_start := Some 0\<rparr>))
       (\<lambda>stations. Inr (map ndNormalizeStation stations))"

definition ndGetPlaylistDetail :: "nd_server \<Rightarrow> nd_client \<Rightarrow> string \<Rightarrow> api_error + nd_playlist_item" where
  "ndGetPlaylistDetail S C k =
     reply_or ''Failed to get playlist detail'' (nv_playlist S k) (\<lambda>res. Inr (ndPlaylist C res))"

definition ndGetPlaylistList ::
    "nd_server \<Rightarrow> nd_client \<Rightarrow> 'm nd_query_scheme \<Rightarrow> PlaylistListSort option \<Rightarrow> bool \<Rightarrow> api_error + nd_playlist_item page" where
  "ndGetPlaylistList S C q sortBy excludeSmartPlaylists =
     reply_or ''Failed to get playlist list''
       (nv_playlists S ((ndPaged q (map_option ndPlaylistSort sortBy))
          \<lparr>nx_q := ny_searchTerm q, nx_smart := (if excludeSmartPlaylists then Some False else None)\<rparr>))
       (\<lambda>res. Inr (ndPage q (ndPlaylist C) res))"

definition ndGetPlaylistListCount ::
    "nd_server \<Rightarrow> nd_client \<Rightarrow> 'm nd_query_scheme \<Rightarrow> PlaylistListSort option \<Rightarrow> bool \<Rightarrow> api_error + nat option" where
  "ndGetPlaylistListCount S C q sortBy excludeSmartPlaylists =
     countOf (ndGetPlaylistList S C (ndCountQuery q) sortBy excludeSmartPlaylists)"

definition ndGetUserList :: "nd_server \<Rightarrow> 'm nd_query_scheme \<Rightarrow> api_error + media_user page" where
  "ndGetUserList S q =
     reply_or ''Failed to get user list'' (nv_users S (ny_custom q (ndPaged q (Some ''name''))))
       (\<lambda>res. Inr (ndPage q ndNormalizeUser res))"

text \<open>A role is a text, or has a label beside its value.\<close>

datatype nd_role = Labelled_role string string | Plain_role string

definition NAVIDROME_ROLES :: "nd_role list" where
  "NAVIDROME_ROLES = Labelled_role ''all artists'' '''' # map Plain_role
     [''arranger'', ''artist'', ''composer'', ''conductor'', ''director'', ''djmixer'', ''engineer'', ''lyricist'', ''mixer'',
      ''performer'', ''producer'', ''remixer'']"

definition ndGetRoles :: "nd_client \<Rightarrow> nd_role list" where
  "ndGetRoles C = (if hasFeature (nc_features C) BFR then NAVIDROME_ROLES else [])"

text \<open>The answer to logging in, and what is kept of it: a credential for the interface of Subsonic, and the token.\<close>

record nd_login =
  nlo_id :: string
  nlo_isAdmin :: bool
  nlo_subsonicSalt :: string
  nlo_subsonicToken :: string
  nlo_token :: string
  nlo_username :: string

record nd_authentication =
  nau_credential :: string
  nau_isAdmin :: bool
  nau_ndCredential :: string
  nau_userId :: string
  nau_username :: string

definition ndAuthenticate ::
    "(string \<Rightarrow> string \<Rightarrow> string \<Rightarrow> nd_login reply) \<Rightarrow> string \<Rightarrow> auth_body \<Rightarrow> api_error + nd_authentication" where
  "ndAuthenticate request url body =
     reply_or ''Failed to authenticate'' (request (normalizeServerUrl url) (au_password body) (au_username body)) (\<lambda>res.
       Inr \<lparr>nau_credential = ''u='' @ au_username body @ ''&s='' @ nlo_subsonicSalt res @ ''&t='' @ nlo_subsonicToken res,
            nau_isAdmin = nlo_isAdmin res, nau_ndCredential = nlo_token res, nau_userId = nlo_id res,
            nau_username = nlo_username res\<rparr>)"

section \<open>Songs\<close>

text \<open>The artists are sent under a name that depends on the server.\<close>

definition getArtistSongKey :: "nd_client \<Rightarrow> string" where
  "getArtistSongKey C =
     (if hasFeature (nc_features C) TRACK_ALBUM_ARTIST_SEARCH then ''artists_id'' else ''album_artist_id'')"

definition withArtists :: "nd_client \<Rightarrow> string list option \<Rightarrow> nd_request \<Rightarrow> nd_request" where
  "withArtists C ids r =
     (if getArtistSongKey C = ''artists_id'' then r\<lparr>nx_artists_id := ids\<rparr> else r\<lparr>nx_album_artist_id := ids\<rparr>)"

definition ndSongRequest :: "nd_client \<Rightarrow> 'm nd_song_query_scheme \<Rightarrow> string list option \<Rightarrow> nd_request" where
  "ndSongRequest C q albumIdBatch =
     withoutMissing C (ny_custom q (withArtists C
       (case nys_artistIds q of None \<Rightarrow> nys_albumArtistIds q | Some ks \<Rightarrow> Some ks)
       ((ndPaged q (ndSongSort (nys_sortBy q)))
         \<lparr>nx_end := Some (int (ny_startIndex q) + limitOr (ny_limit q) (-1)),
          nx_album_id := (case albumIdBatch of None \<Rightarrow> nys_albumIds q | Some b \<Rightarrow> Some b),
          nx_genre_id := map_option Many_ids (nys_genreIds q),
          nx_has_rating := (if hasFeature (nc_features C) TRACK_YES_NO_RATING_FILTER then nys_hasRating q else None),
          nx_library_id := ndLibraryId (ny_musicFolderId q), nx_starred := ny_favorite q, nx_title := ny_searchTerm q,
          nx_year := ndYear (nys_maxYear q) (nys_minYear q)\<rparr>)))"

text \<open>All requests are made at once; if one is refused, there is no result.\<close>

primrec allReplies :: "string \<Rightarrow> 'a reply list \<Rightarrow> api_error + 'a list" where
  "allReplies message [] = Inr []"
| "allReplies message (r # rs) =
     reply_or message r (\<lambda>x. case allReplies message rs of Inl e \<Rightarrow> Inl e | Inr xs \<Rightarrow> Inr (x # xs))"

definition ALBUM_IDS_BATCH_SIZE :: nat where "ALBUM_IDS_BATCH_SIZE = 500"

definition ndGetSongList :: "nd_server \<Rightarrow> nd_client \<Rightarrow> 'm nd_song_query_scheme \<Rightarrow> api_error + full_song page" where
  "ndGetSongList S C q =
     (let albumIds = nullish_or (nys_albumIds q) []
      in if length albumIds > ALBUM_IDS_BATCH_SIZE then
           (case allReplies ''Failed to get song list''
                   (map (\<lambda>batch. nv_songs S (ndSongRequest C q (Some batch))) (chunk albumIds ALBUM_IDS_BATCH_SIZE)) of
              Inl e \<Rightarrow> Inl e
            | Inr results \<Rightarrow> Inr (ndPage q (ndSong C) (concat (map fst results), sum_list (map snd results))))
         else reply_or ''Failed to get song list'' (nv_songs S (ndSongRequest C q None)) (\<lambda>res. Inr (ndPage q (ndSong C) res)))"

definition ndGetSongListCount :: "nd_server \<Rightarrow> nd_client \<Rightarrow> 'm nd_song_query_scheme \<Rightarrow> api_error + nat option" where
  "ndGetSongListCount S C q = countOf (ndGetSongList S C (ndCountQuery q))"

definition ndGetSongDetail :: "nd_server \<Rightarrow> nd_client \<Rightarrow> string \<Rightarrow> api_error + full_song" where
  "ndGetSongDetail S C k = reply_or ''Failed to get song detail'' (nv_song S k) (\<lambda>res. Inr (ndSong C res))"

text \<open>The songs of an answer through the interface of Subsonic.\<close>

definition ndSubsonicSongs :: "nd_client \<Rightarrow> ss_song list option \<Rightarrow> full_song list" where
  "ndSubsonicSongs C songs = map (\<lambda>song. normalizeSong song (nc_serverId C) None (\<lambda>_. None)) (nullish_or songs [])"

definition ndGetSimilarSongs :: "nd_client \<Rightarrow> string \<Rightarrow> ss_song list option reply \<Rightarrow> api_error + full_song list" where
  "ndGetSimilarSongs C songId res =
     reply_or ''Failed to get similar songs'' res (\<lambda>songs.
       Inr (ndSubsonicSongs C (map_option (filter (\<lambda>song. ss_songId song \<noteq> Id_str songId)) songs)))"

definition ndGetAlbumRadio :: "nd_client \<Rightarrow> ss_song list option reply \<Rightarrow> api_error + full_song list" where
  "ndGetAlbumRadio C res = reply_or ''Failed to get album radio songs'' res (\<lambda>songs. Inr (ndSubsonicSongs C songs))"

definition ndGetArtistRadio :: "nd_client \<Rightarrow> ss_song list option reply \<Rightarrow> api_error + full_song list" where
  "ndGetArtistRadio C res = reply_or ''Failed to get artist radio songs'' res (\<lambda>songs. Inr (ndSubsonicSongs C songs))"

text \<open>The personal top songs are those of the artist that were played, sorted again on the client.\<close>

definition ndArtistSongsQuery :: "string \<Rightarrow> nd_song_query" where
  "ndArtistSongsQuery artistId =
     \<lparr>ny_limit = None, ny_musicFolderId = None, ny_searchTerm = None, ny_sortOrder = DESC, ny_startIndex = 0,
      ny_favorite = None, ny_custom = id, nys_albumArtistIds = None, nys_albumIds = None, nys_artistIds = Some [artistId],
      nys_genreIds = None, nys_hasRating = None, nys_maxYear = None, nys_minYear = None, nys_sortBy = Song_PLAY_COUNT\<rparr>"

definition ndPlayedSongs :: "full_song order_by \<Rightarrow> full_song list \<Rightarrow> full_song list" where
  "ndPlayedSongs orderSongs songs =
     orderSongs [\<lambda>v. Key_num (of_int (s_playCount v)), \<lambda>v. Key_text (s_albumId v), trackKey] [True, False, False]
       (filter (\<lambda>song. s_playCount song > 0) songs)"

definition ndGetTopSongs ::
    "nd_server \<Rightarrow> full_song order_by \<Rightarrow> nd_client \<Rightarrow> bool \<Rightarrow> string \<Rightarrow> ss_song list option reply \<Rightarrow> api_error + full_song page" where
  "ndGetTopSongs S orderSongs C personal artistId res =
     (if \<not> personal then
        reply_or ''Failed to get top songs'' res (\<lambda>songs. Inr (songPage (ndSubsonicSongs C songs)))
      else case ndGetSongList S C (ndArtistSongsQuery artistId) of
        Inl e \<Rightarrow> Inl e
      | Inr p \<Rightarrow> Inr (p\<lparr>pg_items := ndPlayedSongs orderSongs (pg_items p), pg_startIndex := 0\<rparr>))"

section \<open>Tags\<close>

definition EXCLUDED_TAGS :: "string list" where "EXCLUDED_TAGS = [''genre'']"

definition EXCLUDED_ALBUM_TAGS :: "string list" where
  "EXCLUDED_ALBUM_TAGS = [''asin'', ''barcode'', ''copyright'', ''encodedby'', ''isrc'', ''key'', ''language'',
     ''musicbrainz_workid'', ''script'', ''website'', ''work'']"

definition EXCLUDED_SONG_TAGS :: "string list" where "EXCLUDED_SONG_TAGS = [''disctotal'', ''tracktotal'']"

text \<open>The value of a tag that can be chosen, with its id.\<close>

record tag_option =
  to_id :: string
  to_name :: string

text \<open>The values by the names of the tags, in the order in which they come.\<close>

definition tagOption :: "nd_tag \<Rightarrow> tag_option" where
  "tagOption tag = \<lparr>to_id = ntg_id tag, to_name = ntg_tagValue tag\<rparr>"

definition addTag :: "nd_tag \<Rightarrow> tag_option list obj \<Rightarrow> tag_option list obj" where
  "addTag tag tagsToValues =
     (if ntg_tagName tag \<in> set EXCLUDED_TAGS then tagsToValues
      else AList.update (ntg_tagName tag) (nullish_or (map_of tagsToValues (ntg_tagName tag)) [] @ [tagOption tag]) tagsToValues)"

text \<open>
  The comparisons of the collators and the lower case are arguments; \<open>sort\<close> is stable. The values are compared
  with their numbers as numbers.
\<close>

definition ndTags ::
    "(string \<Rightarrow> string) \<Rightarrow> string comparator \<Rightarrow> string comparator \<Rightarrow> nd_tag list \<Rightarrow> tag_option list obj" where
  "ndTags lower numericCollator collator tags =
     Sorting_Algorithms.sort (key (\<lambda>g. lower (fst g)) collator)
       (map (\<lambda>(name, options). (name, Sorting_Algorithms.sort (key (\<lambda>v. lower (to_name v)) numericCollator) options))
         (fold addTag tags []))"

record nd_tag_list =
  tl_excludedAlbum :: "string list"
  tl_excludedSong :: "string list"
  tl_tags :: "tag_option list obj option"

definition ndGetTagList ::
    "nd_server \<Rightarrow> (string \<Rightarrow> string) \<Rightarrow> string comparator \<Rightarrow> string comparator \<Rightarrow> nd_client \<Rightarrow> api_error + nd_tag_list" where
  "ndGetTagList S lower numericCollator collator C =
     (if \<not> hasFeature (nc_features C) TAGS then Inr \<lparr>tl_excludedAlbum = [], tl_excludedSong = [], tl_tags = None\<rparr>
      else reply_or ''failed to get tags'' (nv_tags S noParameters) (\<lambda>(tags, total0).
        Inr \<lparr>tl_excludedAlbum = EXCLUDED_ALBUM_TAGS, tl_excludedSong = EXCLUDED_SONG_TAGS,
             tl_tags = Some (ndTags lower numericCollator collator tags)\<rparr>))"

section \<open>The groups of tags\<close>

text \<open>What a tag is shown with: the values of all tags of its name, but for the genre.\<close>

definition valuesOf :: "string \<Rightarrow> nd_tag list \<Rightarrow> tag_option list" where
  "valuesOf name tags = map tagOption (filter (\<lambda>t. ntg_tagName t = name) tags)"

lemma added_tags:
  assumes "distinct (obj_keys m)"
  shows "distinct (obj_keys (fold addTag tags m)) \<and>
    map_of (fold addTag tags m) name =
      (if name \<in> set EXCLUDED_TAGS \<or> valuesOf name tags = [] then map_of m name
       else Some (nullish_or (map_of m name) [] @ valuesOf name tags))"
  using assms
proof (induction tags arbitrary: m)
  case (Cons t tags)
  have d: "distinct (obj_keys (addTag t m))" using Cons.prems by (simp add: addTag_def distinct_update)
  have one: "map_of (addTag t m) name = (if name = ntg_tagName t \<and> name \<notin> set EXCLUDED_TAGS
      then Some (nullish_or (map_of m name) [] @ [tagOption t]) else map_of m name)"
    by (auto simp: addTag_def update_conv')
  show ?case using Cons.IH [OF d] one by (auto simp: valuesOf_def)
qed (simp add: valuesOf_def)

lemma map_of_mset:
  assumes "mset xs = mset ys" and "distinct (map fst ys)"
  shows "distinct (map fst xs)" and "map_of xs = map_of ys"
proof -
  have "mset (map fst xs) = mset (map fst ys)" using assms(1) by simp
  with assms(2) show d: "distinct (map fst xs)" using mset_eq_imp_distinct_iff by blast
  show "map_of xs = map_of ys" using map_of_inject_set [OF d assms(2)] mset_eq_setD [OF assms(1)] by blast
qed

text \<open>
  Every tag but the genre is in the one group with its name, together with all the others of this name and nothing
  else, and no group is empty; groups and their values are sorted by the comparisons that are given, and tags of one
  name and value stay in the order of the server.
\<close>

theorem nd_tags_grouped:
  "let groups = ndTags lower numericCollator collator tags; byName = key (\<lambda>g. lower (fst g)) collator;
       byValue = key (\<lambda>v. lower (to_name v)) numericCollator
   in distinct (obj_keys groups) \<and> Sorting_Algorithms.sorted byName groups
      \<and> map_of groups name =
          (if name = ''genre'' \<or> valuesOf name tags = [] then None
           else Some (Sorting_Algorithms.sort byValue (valuesOf name tags)))"
proof -
  let ?byName = "key (\<lambda>g. lower (fst g)) collator" and ?byValue = "key (\<lambda>v. lower (to_name v)) numericCollator"
  let ?grouped = "fold addTag tags []"
  let ?unsorted = "map (\<lambda>(name, options). (name, Sorting_Algorithms.sort ?byValue options)) ?grouped"
  have groups: "ndTags lower numericCollator collator tags = Sorting_Algorithms.sort ?byName ?unsorted"
    unfolding ndTags_def ..
  have grouped: "distinct (obj_keys ?grouped)"
    "map_of ?grouped name = (if name = ''genre'' \<or> valuesOf name tags = [] then None else Some (valuesOf name tags))"
    using added_tags [of "[]" tags name] by (auto simp: EXCLUDED_TAGS_def)
  have keys: "map fst ?unsorted = map fst ?grouped" unfolding map_map comp_def case_prod_beta fst_conv ..
  have same: "mset (Sorting_Algorithms.sort ?byName ?unsorted) = mset ?unsorted" by (rule mset_sort)
  have unsorted: "distinct (map fst ?unsorted)" unfolding keys by (rule grouped(1))
  note sorted_groups = map_of_mset [OF same unsorted]
  have "map_of ?unsorted name = map_option (Sorting_Algorithms.sort ?byValue) (map_of ?grouped name)"
    by (simp add: map_of_map)
  then have "map_of (Sorting_Algorithms.sort ?byName ?unsorted) name =
      (if name = ''genre'' \<or> valuesOf name tags = [] then None
       else Some (Sorting_Algorithms.sort ?byValue (valuesOf name tags)))"
    unfolding sorted_groups(2) grouped(2) by simp
  with sorted_groups(1) show ?thesis unfolding groups Let_def by (simp only: sorted_sort simp_thms)
qed

section \<open>Pages and their count\<close>

definition ndUnpaged :: "nd_request \<Rightarrow> nd_request" where
  "ndUnpaged r = r\<lparr>nx_end := None, nx_start := None\<rparr>"

text \<open>
  The documented paging: a request is answered with its part of the list of all that it selects, or with all of the list
  when it starts at the beginning and ends nowhere after it; and with the number of all.
\<close>

definition nd_answers_in_pages :: "(nd_request \<Rightarrow> ('a list \<times> nat) reply) \<Rightarrow> (nd_request \<Rightarrow> 'a list) \<Rightarrow> bool" where
  "nd_answers_in_pages fetch all \<longleftrightarrow>
     (\<forall>r s e. nx_start r = Some s \<longrightarrow> nx_end r = Some e \<longrightarrow> (int s < e \<or> s = 0) \<longrightarrow>
        fetch r = Reply (if int s < e then take (nat e - s) (drop s (all (ndUnpaged r))) else all (ndUnpaged r),
          length (all (ndUnpaged r))))"

lemma nd_answered:
  assumes "nd_answers_in_pages fetch all" and "nx_start r = Some s" and "nx_end r = Some e" and "int s < e \<or> s = 0"
  shows "fetch r = Reply (if int s < e then take (nat e - s) (drop s (all (ndUnpaged r))) else all (ndUnpaged r),
    length (all (ndUnpaged r)))"
  using assms unfolding nd_answers_in_pages_def by blast

lemma withoutMissing_paging [simp]:
  "nx_start (withoutMissing C r) = nx_start r" "nx_end (withoutMissing C r) = nx_end r"
  "ndUnpaged (withoutMissing C r) = withoutMissing C (ndUnpaged r)"
  "nx_album_id (withoutMissing C r) = nx_album_id r"
  "(withoutMissing C r)\<lparr>nx_album_id := x\<rparr> = withoutMissing C (r\<lparr>nx_album_id := x\<rparr>)"
  by (simp_all add: withoutMissing_def ndUnpaged_def split: option.split)

lemma withArtists_paging [simp]:
  "nx_start (withArtists C ids r) = nx_start r" "nx_end (withArtists C ids r) = nx_end r"
  "ndUnpaged (withArtists C ids r) = withArtists C ids (ndUnpaged r)"
  "nx_album_id (withArtists C ids r) = nx_album_id r"
  "(withArtists C ids r)\<lparr>nx_album_id := x\<rparr> = withArtists C ids (r\<lparr>nx_album_id := x\<rparr>)"
  by (simp_all add: withArtists_def ndUnpaged_def)

definition ndAlbumPage :: "nd_server \<Rightarrow> nd_client \<Rightarrow> nd_album_query \<Rightarrow> nat \<Rightarrow> nat \<Rightarrow> album list" where
  "ndAlbumPage S C q n i =
     (case ndGetAlbumList S C (q\<lparr>ny_limit := Some (int n), ny_startIndex := i * n\<rparr>) of Inl e \<Rightarrow> [] | Inr p \<Rightarrow> pg_items p)"

lemma ndAlbumRequest_paging:
  assumes "ny_custom q = id"
  shows "nx_start (ndAlbumRequest C (q\<lparr>ny_limit := l, ny_startIndex := s\<rparr>)) = Some s"
    and "nx_end (ndAlbumRequest C (q\<lparr>ny_limit := l, ny_startIndex := s\<rparr>)) = Some (int s + limitOr l 0)"
    and "ndUnpaged (ndAlbumRequest C (q\<lparr>ny_limit := l, ny_startIndex := s\<rparr>)) = ndUnpaged (ndAlbumRequest C q)"
  using assms by (simp_all add: ndAlbumRequest_def ndPaged_def noParameters_def) (simp add: ndUnpaged_def)

text \<open>
  The pages of the albums that a query selects are together the list of all of them, in its order and with none twice
  or left out; and their count is its length.
\<close>

theorem nd_album_pages_cover_list:
  assumes "nd_answers_in_pages (nv_albums S) all" and "ny_custom q = id" and "0 < n"
    and "length (all (ndUnpaged (ndAlbumRequest C q))) \<le> m * n"
  shows "concat (map (ndAlbumPage S C q n) [0..<m]) = map (ndAlbum C) (all (ndUnpaged (ndAlbumRequest C q)))
    \<and> ndGetAlbumListCount S C q = Inr (Some (length (all (ndUnpaged (ndAlbumRequest C q)))))"
proof -
  let ?all = "all (ndUnpaged (ndAlbumRequest C q))"
  note request = ndAlbumRequest_paging [OF assms(2)]
  have page: "ndAlbumPage S C q n i = map (ndAlbum C) (take n (drop (i * n) ?all))" for i
  proof -
    have "limitOr (Some (int n)) 0 = int n" using assms(3) by (simp add: limitOr_def)
    moreover from this assms(3) have "int (i * n) < int (i * n) + limitOr (Some (int n)) 0" by simp
    moreover have "nat (int (i * n) + int n) - i * n = n" by (simp add: nat_add_distrib nat_mult_distrib)
    ultimately show ?thesis
      using nd_answered [OF assms(1) request(1) request(2) [where s = "i * n" and l = "Some (int n)"]]
      by (simp add: ndAlbumPage_def ndGetAlbumList_def reply_or_def ndPage_def request(3))
  qed
  have "ndAlbumPage S C q n = (\<lambda>i. map (ndAlbum C) (take n (drop (i * n) ?all)))" by (rule ext) (rule page)
  then have "concat (map (ndAlbumPage S C q n) [0..<m]) = map (ndAlbum C) (concat (map (\<lambda>i. take n (drop (i * n) ?all)) [0..<m]))"
    by (simp add: map_concat comp_def)
  moreover have "ndGetAlbumListCount S C q = Inr (Some (length ?all))"
    using nd_answered [OF assms(1) request(1) request(2) [where s = 0 and l = "Some 1"]]
    by (simp add: ndGetAlbumListCount_def ndCountQuery_def countOf_def ndGetAlbumList_def limitOr_def reply_or_def ndPage_def
        request(3))
  ultimately show ?thesis using assms(4) by (simp add: concat_pages)
qed

section \<open>Songs of many albums\<close>

text \<open>A server that selects songs by the ids of their albums, from a list that the rest of the request determines.\<close>

definition songsIn :: "string list option \<Rightarrow> nd_song list \<Rightarrow> nd_song list" where
  "songsIn ids songs = (case ids of None \<Rightarrow> songs | Some ks \<Rightarrow> filter (\<lambda>s. ns_albumId s \<in> set ks) songs)"

definition selects_by_album :: "(nd_request \<Rightarrow> nd_song list) \<Rightarrow> (nd_request \<Rightarrow> nd_song list) \<Rightarrow> bool" where
  "selects_by_album all library \<longleftrightarrow> (\<forall>r. all r = songsIn (nx_album_id r) (library (r\<lparr>nx_album_id := None\<rparr>)))"

abbreviation anyAlbum :: "nd_client \<Rightarrow> 'm nd_song_query_scheme \<Rightarrow> nd_request" where
  "anyAlbum C q \<equiv> (ndUnpaged (ndSongRequest C q None))\<lparr>nx_album_id := None\<rparr>"

lemma ndSongRequest_fields:
  assumes "ny_custom q = id"
  shows "nx_start (ndSongRequest C q b) = Some (ny_startIndex q)"
    and "nx_end (ndSongRequest C q b) = Some (int (ny_startIndex q) + limitOr (ny_limit q) (-1))"
    and "nx_album_id (ndUnpaged (ndSongRequest C q b)) = (case b of None \<Rightarrow> nys_albumIds q | Some ks \<Rightarrow> Some ks)"
    and "(ndUnpaged (ndSongRequest C q b))\<lparr>nx_album_id := None\<rparr> = anyAlbum C q"
  using assms by (simp_all add: ndSongRequest_def ndPaged_def noParameters_def) (simp_all add: ndUnpaged_def)

lemma anyAlbum_count:
  assumes "ny_custom q = id"
  shows "anyAlbum C (ndCountQuery q) = anyAlbum C q"
  using assms
  by (cases "nys_artistIds q") (simp_all add: ndSongRequest_def ndCountQuery_def ndPaged_def noParameters_def, simp_all add: ndUnpaged_def)

text \<open>The part of a list that a request for songs is answered with.\<close>

definition songPart :: "'m nd_song_query_scheme \<Rightarrow> 'a list \<Rightarrow> 'a list" where
  "songPart q xs = (if limitOr (ny_limit q) (-1) > 0
     then take (nat (limitOr (ny_limit q) (-1))) (drop (ny_startIndex q) xs) else xs)"

definition pages_well :: "'m nd_song_query_scheme \<Rightarrow> bool" where
  "pages_well q \<longleftrightarrow> ny_custom q = id \<and> (limitOr (ny_limit q) (-1) > 0 \<or> ny_startIndex q = 0)"

lemma fetched_songs:
  assumes "nd_answers_in_pages (nv_songs S) all" and "selects_by_album all library" and "pages_well q"
    and "ids = (case b of None \<Rightarrow> nys_albumIds q | Some ks \<Rightarrow> Some ks)"
  shows "nv_songs S (ndSongRequest C q b) =
    Reply (songPart q (songsIn ids (library (anyAlbum C q))), length (songsIn ids (library (anyAlbum C q))))"
proof -
  have custom: "ny_custom q = id" using assms(3) by (simp add: pages_well_def)
  note fields = ndSongRequest_fields [OF custom]
  have "all (ndUnpaged (ndSongRequest C q b)) = songsIn ids (library (anyAlbum C q))"
    using assms(2) fields(3,4) [of C b] unfolding selects_by_album_def assms(4) by metis
  moreover have "int (ny_startIndex q) < int (ny_startIndex q) + limitOr (ny_limit q) (-1) \<or> ny_startIndex q = 0"
    using assms(3) by (auto simp: pages_well_def)
  ultimately show ?thesis
    using nd_answered [OF assms(1) fields(1) fields(2)] by (auto simp: songPart_def nat_add_distrib)
qed

lemma allReplies_map: "allReplies message (map (\<lambda>x. Reply (f x)) xs) = Inr (map f xs)"
  by (induction xs) (simp_all add: reply_or_def)

lemma batched_songs:
  assumes "nd_answers_in_pages (nv_songs S) all" and "selects_by_album all library" and "pages_well q"
  shows "allReplies message (map (\<lambda>batch. nv_songs S (ndSongRequest C q (Some batch))) batches) =
    Inr (map (\<lambda>b. (songPart q (songsIn (Some b) (library (anyAlbum C q))), length (songsIn (Some b) (library (anyAlbum C q))))) batches)"
proof -
  have "nv_songs S (ndSongRequest C q (Some b)) =
      Reply (songPart q (songsIn (Some b) (library (anyAlbum C q))), length (songsIn (Some b) (library (anyAlbum C q))))" for b
    by (rule fetched_songs [OF assms]) simp
  then have "(\<lambda>batch. nv_songs S (ndSongRequest C q (Some batch))) =
      (\<lambda>b. Reply (songPart q (songsIn (Some b) (library (anyAlbum C q))), length (songsIn (Some b) (library (anyAlbum C q)))))"
    by (rule ext)
  then show ?thesis by (simp only: allReplies_map)
qed

lemma songsIn_batches:
  assumes "distinct (concat batches)"
  shows "mset (concat (map (\<lambda>b. songsIn (Some b) xs) batches)) = mset (songsIn (Some (concat batches)) xs)"
  using assms
proof (induction batches)
  case (Cons b bs)
  then have "set b \<inter> set (concat bs) = {}" by auto
  then have "mset (filter (\<lambda>s. ns_albumId s \<in> set (b @ concat bs)) xs) =
      mset (filter (\<lambda>s. ns_albumId s \<in> set b) xs) + mset (filter (\<lambda>s. ns_albumId s \<in> set (concat bs)) xs)"
    by (induction xs) auto
  with Cons show ?case by (simp add: songsIn_def)
qed (simp add: songsIn_def)

lemma songsIn_batch_lengths:
  assumes "distinct (concat batches)"
  shows "sum_list (map (\<lambda>b. length (songsIn (Some b) xs)) batches) = length (songsIn (Some (concat batches)) xs)"
  using arg_cong [OF songsIn_batches [OF assms], of size] by (simp add: length_concat comp_def)

lemma ndGetSongList_at_once:
  assumes "nd_answers_in_pages (nv_songs S) all" and "selects_by_album all library" and "pages_well q"
    and "length (nullish_or (nys_albumIds q) []) \<le> 500"
  shows "ndGetSongList S C q = Inr (ndPage q (ndSong C)
    (songPart q (songsIn (nys_albumIds q) (library (anyAlbum C q))), length (songsIn (nys_albumIds q) (library (anyAlbum C q)))))"
  using assms(4) fetched_songs [OF assms(1-3), of "nys_albumIds q" None]
  by (simp add: ndGetSongList_def ALBUM_IDS_BATCH_SIZE_def reply_or_def)

lemma ndGetSongList_batched:
  assumes "nd_answers_in_pages (nv_songs S) all" and "selects_by_album all library" and "pages_well q"
    and "nys_albumIds q = Some ks" and "length ks > 500"
  shows "ndGetSongList S C q = Inr (ndPage q (ndSong C)
    (concat (map (\<lambda>b. songPart q (songsIn (Some b) (library (anyAlbum C q)))) (chunk ks 500)),
     sum_list (map (\<lambda>b. length (songsIn (Some b) (library (anyAlbum C q)))) (chunk ks 500))))"
  using assms(4,5) batched_songs [OF assms(1-3)]
  by (simp add: ndGetSongList_def ALBUM_IDS_BATCH_SIZE_def comp_def)

lemma ndSongCount:
  assumes "nd_answers_in_pages (nv_songs S) all" and "selects_by_album all library" and "ny_custom q = id"
    and "nys_albumIds q = Some ks" and "distinct ks"
  shows "ndGetSongListCount S C q = Inr (Some (length (songsIn (Some ks) (library (anyAlbum C q)))))"
proof -
  have well: "pages_well (ndCountQuery q)" using assms(3) by (simp add: pages_well_def limitOr_def ndCountQuery_def)
  have ids: "nys_albumIds (ndCountQuery q) = Some ks" using assms(4) by (simp add: ndCountQuery_def)
  note same = anyAlbum_count [OF assms(3), of C]
  show ?thesis
  proof (cases "length ks > 500")
    case True
    have d: "distinct (concat (chunk ks 500))" "concat (chunk ks 500) = ks" using assms(5) by (simp_all add: concat_chunk)
    show ?thesis
      unfolding ndGetSongListCount_def ndGetSongList_batched [OF assms(1,2) well ids True] same
        songsIn_batch_lengths [OF d(1)] d(2)
      by (simp add: countOf_def ndPage_def)
  next
    case False
    then have "length (nullish_or (nys_albumIds (ndCountQuery q)) []) \<le> 500" using ids by simp
    from ndGetSongList_at_once [OF assms(1,2) well this, of C] show ?thesis
      unfolding ndGetSongListCount_def same ids by (simp add: countOf_def ndPage_def)
  qed
qed

text \<open>The requests that the ids of the albums are spread over.\<close>

definition idBatches :: "string list \<Rightarrow> string list list" where
  "idBatches ks = (if length ks > 500 then chunk ks 500 else [ks])"

lemma idBatches_parts: "concat (idBatches ks) = ks" "list_all (\<lambda>b. length b \<le> 500) (idBatches ks)"
  by (auto simp: idBatches_def concat_chunk list_all_iff dest: chunk_bounds)

lemma ndGetSongList_batches:
  assumes "nd_answers_in_pages (nv_songs S) all" and "selects_by_album all library" and "pages_well q"
    and "nys_albumIds q = Some ks"
  shows "\<exists>p. ndGetSongList S C q = Inr p \<and> pg_items p = map (ndSong C)
    (concat (map (\<lambda>b. songPart q (songsIn (Some b) (library (anyAlbum C q)))) (idBatches ks)))"
proof (cases "length ks > 500")
  case True
  with ndGetSongList_batched [OF assms True, of C] show ?thesis by (simp add: ndPage_def idBatches_def)
next
  case False
  then have "length (nullish_or (nys_albumIds q) []) \<le> 500" using assms(4) by simp
  from ndGetSongList_at_once [OF assms(1-3) this, of C] False show ?thesis
    by (simp add: ndPage_def idBatches_def assms(4))
qed

lemma unlimited_batches:
  assumes "limitOr (ny_limit q) (-1) \<le> 0" and "distinct ks"
  shows "mset (concat (map (\<lambda>b. songPart q (songsIn (Some b) xs)) (idBatches ks))) = mset (songsIn (Some ks) xs)"
  using songsIn_batches [of "idBatches ks" xs] assms by (simp add: songPart_def idBatches_parts)

text \<open>
  C27: A query for the songs of some albums (with distinct ids, and without parameters that replace the others; with a
  limit, or else from the start) sends the ids in batches of at most 500, in their order, and answers the part it asks for
  of the songs of the first batch, then that of the second, and so on. Without a limit these are all songs of the albums,
  each once. The count is that of all songs of the albums, whatever the page: unlike Jellyfin's it is exact, since the
  totals that the server tells are added. The server is assumed to select songs by the ids of their albums and to answer
  in pages.
\<close>

theorem nd_songs_of_albums:
  assumes "nd_answers_in_pages (nv_songs S) all" and "selects_by_album all library"
    and "pages_well q" and "nys_albumIds q = Some ks" and "distinct ks"
  shows "concat (idBatches ks) = ks \<and> list_all (\<lambda>b. length b \<le> 500) (idBatches ks)
    \<and> (\<exists>p. ndGetSongList S C q = Inr p
      \<and> pg_items p = map (ndSong C)
          (concat (map (\<lambda>b. songPart q (songsIn (Some b) (library (anyAlbum C q)))) (idBatches ks)))
      \<and> (limitOr (ny_limit q) (-1) \<le> 0 \<longrightarrow>
          mset (pg_items p) = mset (map (ndSong C) (songsIn (Some ks) (library (anyAlbum C q))))))
    \<and> ndGetSongListCount S C q = Inr (Some (length (songsIn (Some ks) (library (anyAlbum C q)))))"
proof -
  have custom: "ny_custom q = id" using assms(3) by (simp add: pages_well_def)
  from ndGetSongList_batches [OF assms(1-4), of C] obtain p where p: "ndGetSongList S C q = Inr p"
    "pg_items p = map (ndSong C) (concat (map (\<lambda>b. songPart q (songsIn (Some b) (library (anyAlbum C q)))) (idBatches ks)))"
    by blast
  then show ?thesis
    using unlimited_batches [of q ks "library (anyAlbum C q)"] assms(5) ndSongCount [OF assms(1,2) custom assms(4,5), of C]
    by (simp add: idBatches_parts)
qed

text \<open>
  A flaw: of more than 500 albums every request is for the same page, so that a page has that part of the songs of each
  batch, and neither starts nor ends where it should.
\<close>

theorem nd_batches_are_paged_apart:
  assumes "nd_answers_in_pages (nv_songs S) all" and "selects_by_album all library"
    and "ny_custom q = id" and "ny_limit q = Some (int n)" and "0 < n"
    and "nys_albumIds q = Some ks" and "length ks > 500"
  shows "\<exists>p. ndGetSongList S C q = Inr p \<and> pg_items p = map (ndSong C)
    (concat (map (\<lambda>b. take n (drop (ny_startIndex q) (songsIn (Some b) (library (anyAlbum C q))))) (chunk ks 500)))"
proof -
  have "pages_well q" using assms(3-5) by (simp add: pages_well_def limitOr_def)
  from ndGetSongList_batched [OF assms(1,2) this assms(6,7), of C] assms(4,5) show ?thesis
    by (simp add: ndPage_def songPart_def limitOr_def)
qed

text \<open>
  A flaw of the personal top songs, as with Subsonic: the total counts the songs of the artist that were never played.
\<close>

lemma nd_top_songs_total:
  assumes "ordersBy cmp orderSongs" and "ndGetSongList S C (ndArtistSongsQuery artistId) = Inr p"
  shows "\<exists>t. ndGetTopSongs S orderSongs C True artistId res = Inr t
    \<and> mset (pg_items t) = filter_mset (\<lambda>song. s_playCount song > 0) (mset (pg_items p))
    \<and> pg_totalRecordCount t = pg_totalRecordCount p"
  using assms by (simp add: ndGetTopSongs_def ndPlayedSongs_def mset_ordersBy)

section \<open>Examples\<close>

definition inPages :: "nd_request \<Rightarrow> 'a list \<Rightarrow> ('a list \<times> nat) reply" where
  "inPages r xs =
     Reply (case (nx_start r, nx_end r) of
        (Some s, Some e) \<Rightarrow> if int s < e then take (nat e - s) (drop s xs) else xs
      | _ \<Rightarrow> xs, length xs)"

definition exampleNdAlbums :: "nd_album list" where
  "exampleNdAlbums = [exampleRemixed, exampleRemixed\<lparr>ni_id := ''bl''\<rparr>]"

definition exampleNdSongs :: "nd_song list" where
  "exampleNdSongs = [(ndSongNamed ''s'' None)\<lparr>ns_albumId := ''A''\<rparr>, (ndSongNamed ''t'' None)\<lparr>ns_albumId := ''A''\<rparr>,
     (ndSongNamed ''u'' None)\<lparr>ns_albumId := ''B''\<rparr>]"

definition exampleNdServer :: nd_server where
  "exampleNdServer =
     \<lparr>nv_artists = (\<lambda>r. Refused), nv_artist = (\<lambda>k. Refused), nv_albums = (\<lambda>r. inPages r exampleNdAlbums),
      nv_album = (\<lambda>k. Refused), nv_songs = (\<lambda>r. inPages r (songsIn (nx_album_id r) exampleNdSongs)),
      nv_song = (\<lambda>k. Refused), nv_tags = (\<lambda>r. Refused), nv_genres = (\<lambda>r. Refused), nv_stations = (\<lambda>r. Refused),
      nv_playlists = (\<lambda>r. Refused), nv_playlist = (\<lambda>k. Refused), nv_users = (\<lambda>r. Refused)\<rparr>"

definition exampleNdQuery :: nd_query where
  "exampleNdQuery = \<lparr>ny_limit = None, ny_musicFolderId = None, ny_searchTerm = None, ny_sortOrder = ASC, ny_startIndex = 0,
     ny_favorite = None, ny_custom = id\<rparr>"

definition exampleNdAlbumQuery :: nd_album_query where
  "exampleNdAlbumQuery = nd_query.extend exampleNdQuery
     \<lparr>nyb_artistIds = None, nyb_compilation = None, nyb_genreIds = None, nyb_hasRating = None, nyb_isRecentlyPlayed = None,
      nyb_maxYear = None, nyb_minYear = None, nyb_sortBy = Album_NAME\<rparr>"

definition exampleNdSongQuery :: "int option \<Rightarrow> string list \<Rightarrow> nd_song_query" where
  "exampleNdSongQuery limit0 ks = nd_query.extend (exampleNdQuery\<lparr>ny_limit := limit0\<rparr>)
     \<lparr>nys_albumArtistIds = None, nys_albumIds = Some ks, nys_artistIds = None, nys_genreIds = None, nys_hasRating = None,
      nys_maxYear = None, nys_minYear = None, nys_sortBy = Song_NAME\<rparr>"

lemma example_nd_queries [simp]:
  "ny_custom exampleNdAlbumQuery = id" "ny_custom (exampleNdSongQuery l ks) = id" "ny_limit (exampleNdSongQuery l ks) = l"
  "ny_startIndex (exampleNdSongQuery l ks) = 0" "nys_albumIds (exampleNdSongQuery l ks) = Some ks"
  by (simp_all add: exampleNdAlbumQuery_def exampleNdSongQuery_def exampleNdQuery_def nd_query.defs)

lemma example_nd_albums: "nd_answers_in_pages (nv_albums exampleNdServer) (\<lambda>r. exampleNdAlbums)"
  by (simp add: nd_answers_in_pages_def exampleNdServer_def inPages_def)

lemma example_nd_songs: "nd_answers_in_pages (nv_songs exampleNdServer) (\<lambda>r. songsIn (nx_album_id r) exampleNdSongs)"
  by (simp add: nd_answers_in_pages_def exampleNdServer_def inPages_def ndUnpaged_def)

lemma example_nd_selects: "selects_by_album (\<lambda>r. songsIn (nx_album_id r) exampleNdSongs) (\<lambda>r. exampleNdSongs)"
  by (simp add: selects_by_album_def)

lemma nd_album_pages_cover_list_witness:
  "map al_id (concat (map (ndAlbumPage exampleNdServer exampleNavidrome exampleNdAlbumQuery 1) [0..<2])) = [''al'', ''bl'']"
proof -
  have "concat (map (ndAlbumPage exampleNdServer exampleNavidrome exampleNdAlbumQuery 1) [0..<2]) =
      map (ndAlbum exampleNavidrome) exampleNdAlbums"
    by (rule nd_album_pages_cover_list [OF example_nd_albums, where q = exampleNdAlbumQuery and n = 1 and C = exampleNavidrome and m = 2, THEN conjunct1])
      (simp_all add: exampleNdAlbums_def)
  moreover have "map al_id (map (ndAlbum exampleNavidrome) exampleNdAlbums) = [''al'', ''bl'']" by code_simp
  ultimately show ?thesis by simp
qed

definition manyAlbums :: "string list" where
  "manyAlbums = ''A'' # ''B'' # map (\<lambda>n. replicate n (CHR ''x'')) [0..<600]"

lemma many_albums: "distinct manyAlbums" "length (idBatches manyAlbums) \<noteq> 1" "songsIn (Some manyAlbums) exampleNdSongs = exampleNdSongs"
proof -
  have "inj_on (\<lambda>n. replicate n (CHR ''x'')) A" for A by (rule inj_onI) (metis length_replicate)
  moreover have "replicate n (CHR ''x'') \<noteq> CHR ''A'' # r" "replicate n (CHR ''x'') \<noteq> CHR ''B'' # r" for n r
    by (cases n; simp)+
  ultimately show "distinct manyAlbums" by (auto simp: manyAlbums_def distinct_map) (metis)+
  have "length manyAlbums = 602" by (simp add: manyAlbums_def)
  moreover from this have "length (chunk manyAlbums 500) \<noteq> 1"
    by (subst chunk_step) (auto simp: chunk_step)
  ultimately show "length (idBatches manyAlbums) \<noteq> 1" by (simp add: idBatches_def)
  show "songsIn (Some manyAlbums) exampleNdSongs = exampleNdSongs"
    by (simp add: songsIn_def exampleNdSongs_def manyAlbums_def)
qed

lemma nd_songs_of_albums_witness:
  "(\<exists>p. ndGetSongList exampleNdServer exampleNavidrome (exampleNdSongQuery None manyAlbums) = Inr p
      \<and> mset (pg_items p) = mset (map (ndSong exampleNavidrome) exampleNdSongs))
    \<and> ndGetSongListCount exampleNdServer exampleNavidrome (exampleNdSongQuery None manyAlbums) = Inr (Some 3)"
proof -
  let ?q = "exampleNdSongQuery None manyAlbums"
  have q: "pages_well ?q" "nys_albumIds ?q = Some manyAlbums" "limitOr (ny_limit ?q) (-1) \<le> 0"
    by (simp_all add: pages_well_def limitOr_def)
  have three: "length exampleNdSongs = 3" by (simp add: exampleNdSongs_def)
  note found = nd_songs_of_albums [OF example_nd_songs example_nd_selects q(1,2) many_albums(1), of exampleNavidrome,
      unfolded many_albums(3) three, THEN conjunct2, THEN conjunct2]
  from found [THEN conjunct1] q(3) show ?thesis by (intro conjI found [THEN conjunct2]) blast
qed

lemma nd_batches_are_paged_apart_witness:
  "\<exists>p. ndGetSongList exampleNdServer exampleNavidrome (exampleNdSongQuery (Some 1) (replicate 500 ''A'' @ [''B''])) = Inr p
    \<and> map s_id (pg_items p) = [''s'', ''u'']"
proof -
  let ?ks = "replicate 500 ''A'' @ [''B'']"
  have "chunk ?ks 500 = [replicate 500 ''A'', [''B'']]" by (simp add: chunk_step)
  moreover have "songsIn (Some (replicate 500 ''A'')) exampleNdSongs = songsIn (Some [''A'']) exampleNdSongs"
    by (simp add: songsIn_def)
  ultimately have chunks: "concat (map (\<lambda>b. take 1 (drop 0 (songsIn (Some b) exampleNdSongs))) (chunk ?ks 500)) =
      take 1 (songsIn (Some [''A'']) exampleNdSongs) @ take 1 (songsIn (Some [''B'']) exampleNdSongs)" by simp
  have "map s_id (map (ndSong exampleNavidrome)
      (take 1 (songsIn (Some [''A'']) exampleNdSongs) @ take 1 (songsIn (Some [''B'']) exampleNdSongs))) = [''s'', ''u'']"
    by code_simp
  moreover have "\<exists>p. ndGetSongList exampleNdServer exampleNavidrome (exampleNdSongQuery (Some 1) ?ks) = Inr p
      \<and> pg_items p = map (ndSong exampleNavidrome)
        (concat (map (\<lambda>b. take 1 (drop (ny_startIndex (exampleNdSongQuery (Some 1) ?ks)) (songsIn (Some b) exampleNdSongs))) (chunk ?ks 500)))"
    by (rule nd_batches_are_paged_apart [OF example_nd_songs example_nd_selects]) simp_all
  ultimately show ?thesis using chunks by auto
qed

end
