(* ===== verification/RadioStations.thy ===== *)
theory RadioStations
  imports JellyfinLists
begin

text \<open>
  The radio stations that the client keeps itself for servers that have none (\<^verbatim>\<open>features/radio/store/radio-store.ts\<close>),
  and the endpoints of the adapter for Jellyfin that forward to them. An id is drawn for each new station; it is an
  argument.
\<close>

section \<open>The store\<close>

text \<open>An object from servers to objects from ids to stations.\<close>

type_synonym station_store = "radio_station obj obj"

text \<open>What is given of a station that is updated; its id is never.\<close>

record station_updates =
  tu_homepageUrl :: "string option option"
  tu_imageId :: "string option option"
  tu_imageUrl :: "string option option"
  tu_name :: "string option"
  tu_streamUrl :: "string option"

definition withUpdates :: "station_updates \<Rightarrow> radio_station \<Rightarrow> radio_station" where
  "withUpdates u station =
     station\<lparr>rs_homepageUrl := nullish_or (tu_homepageUrl u) (rs_homepageUrl station),
       rs_imageId := nullish_or (tu_imageId u) (rs_imageId station),
       rs_imageUrl := nullish_or (tu_imageUrl u) (rs_imageUrl station),
       rs_name := nullish_or (tu_name u) (rs_name station),
       rs_streamUrl := nullish_or (tu_streamUrl u) (rs_streamUrl station)\<rparr>"

definition createStation :: "string \<Rightarrow> string \<Rightarrow> radio_station \<Rightarrow> station_store \<Rightarrow> radio_station \<times> station_store" where
  "createStation k serverId station stations =
     (let newStation = station\<lparr>rs_id := k\<rparr>
      in (newStation, AList.update serverId (AList.update k newStation (nullish_or (map_of stations serverId) [])) stations))"

definition deleteStation :: "string \<Rightarrow> string \<Rightarrow> station_store \<Rightarrow> station_store" where
  "deleteStation serverId stationId stations =
     (case map_of stations serverId of
        None \<Rightarrow> stations
      | Some ofServer \<Rightarrow>
          let left = AList.delete stationId ofServer
          in if length (obj_keys left) = 0 then AList.delete serverId stations else AList.update serverId left stations)"

definition getStation :: "string \<Rightarrow> string \<Rightarrow> station_store \<Rightarrow> radio_station option" where
  "getStation serverId stationId stations = Option.bind (map_of stations serverId) (\<lambda>ofServer. map_of ofServer stationId)"

definition getStations :: "string \<Rightarrow> station_store \<Rightarrow> radio_station list" where
  "getStations serverId stations =
     (case map_of stations serverId of None \<Rightarrow> [] | Some ofServer \<Rightarrow> map snd ofServer)"

definition updateStation :: "string \<Rightarrow> string \<Rightarrow> station_updates \<Rightarrow> station_store \<Rightarrow> station_store" where
  "updateStation serverId stationId updates stations =
     (case Option.bind (map_of stations serverId) (\<lambda>ofServer. map_of ofServer stationId) of
        None \<Rightarrow> stations
      | Some station \<Rightarrow>
          AList.update serverId (AList.update stationId (withUpdates updates station) (the (map_of stations serverId))) stations)"

section \<open>The endpoints for Jellyfin\<close>

text \<open>What is sent of a station: its homepage, its name and its stream.\<close>

record jf_station_body =
  jsb_homepageUrl :: "string option"
  jsb_name :: string
  jsb_streamUrl :: string

definition needServerId :: "string option \<Rightarrow> (string \<Rightarrow> 'a) \<Rightarrow> api_error + 'a" where
  "needServerId serverId f = (if truthy serverId then Inr (f (the serverId)) else Inl (Api ''No serverId found''))"

definition jfCreateInternetRadioStation ::
    "string \<Rightarrow> string option \<Rightarrow> jf_station_body \<Rightarrow> station_store \<Rightarrow> api_error + station_store" where
  "jfCreateInternetRadioStation k serverId body stations =
     needServerId serverId (\<lambda>s. snd (createStation k s
       \<lparr>rs_homepageUrl = text_or_null (jsb_homepageUrl body), rs_id = '''', rs_imageId = None, rs_imageUrl = None,
        rs_name = jsb_name body, rs_streamUrl = jsb_streamUrl body\<rparr> stations))"

definition jfDeleteInternetRadioStation ::
    "string option \<Rightarrow> string \<Rightarrow> station_store \<Rightarrow> api_error + station_store" where
  "jfDeleteInternetRadioStation serverId stationId stations =
     needServerId serverId (\<lambda>s. deleteStation s stationId stations)"

definition jfGetInternetRadioStations :: "string option \<Rightarrow> station_store \<Rightarrow> api_error + radio_station list" where
  "jfGetInternetRadioStations serverId stations = needServerId serverId (\<lambda>s. getStations s stations)"

definition jfUpdateInternetRadioStation ::
    "string option \<Rightarrow> string \<Rightarrow> jf_station_body \<Rightarrow> station_store \<Rightarrow> api_error + station_store" where
  "jfUpdateInternetRadioStation serverId stationId body stations =
     needServerId serverId (\<lambda>s. updateStation s stationId
       \<lparr>tu_homepageUrl = Some (text_or_null (jsb_homepageUrl body)), tu_imageId = None, tu_imageUrl = None,
        tu_name = Some (jsb_name body), tu_streamUrl = Some (jsb_streamUrl body)\<rparr> stations)"

section \<open>The store is a map\<close>

datatype station_op = Create string string radio_station | Delete string string | Update string string station_updates

fun station_step :: "station_op \<Rightarrow> station_store \<Rightarrow> station_store" where
  "station_step (Create k s station) st = snd (createStation k s station st)"
| "station_step (Delete s k) st = deleteStation s k st"
| "station_step (Update s k u) st = updateStation s k u st"

text \<open>The specification: a map from servers and ids to stations.\<close>

type_synonym station_map = "string \<times> string \<rightharpoonup> radio_station"

fun station_spec :: "station_op \<Rightarrow> station_map \<Rightarrow> station_map" where
  "station_spec (Create k s station) m = m((s, k) \<mapsto> station\<lparr>rs_id := k\<rparr>)"
| "station_spec (Delete s k) m = m((s, k) := None)"
| "station_spec (Update s k u) m = m((s, k) := map_option (withUpdates u) (m (s, k)))"

definition stations_map :: "station_store \<Rightarrow> station_map" where
  "stations_map st = (\<lambda>(s, k). getStation s k st)"

text \<open>No server occurs twice or without a station, and a station is filed under its id.\<close>

definition server_ok :: "radio_station obj \<Rightarrow> bool" where
  "server_ok m \<longleftrightarrow> distinct (obj_keys m) \<and> list_all (\<lambda>e. rs_id (snd e) = fst e) m"

definition stations_ok :: "station_store \<Rightarrow> bool" where
  "stations_ok st \<longleftrightarrow> distinct (obj_keys st) \<and> list_all (\<lambda>e. snd e \<noteq> [] \<and> server_ok (snd e)) st"

lemma update_not_Nil [simp]: "AList.update k v m \<noteq> []"
  by (cases m) auto

lemma stations_ok_lookup: "stations_ok st \<Longrightarrow> map_of st s = Some m \<Longrightarrow> m \<noteq> [] \<and> server_ok m"
  by (auto simp: stations_ok_def list_all_iff dest!: map_of_SomeD)

lemma stations_ok_update: "stations_ok st \<Longrightarrow> server_ok m \<Longrightarrow> m \<noteq> [] \<Longrightarrow> stations_ok (AList.update s m st)"
  by (simp add: stations_ok_def distinct_update list_all_update)

lemma stations_ok_delete: "stations_ok st \<Longrightarrow> stations_ok (AList.delete s st)"
  by (simp add: stations_ok_def distinct_delete list_all_delete)

lemma server_ok_update: "server_ok m \<Longrightarrow> rs_id station = k \<Longrightarrow> server_ok (AList.update k station m)"
  by (simp add: server_ok_def distinct_update list_all_update)

lemma server_ok_delete: "server_ok m \<Longrightarrow> server_ok (AList.delete k m)"
  by (simp add: server_ok_def distinct_delete list_all_delete)

lemma station_step_ok:
  assumes ok: "stations_ok st"
  shows "stations_ok (station_step a st)"
proof (cases a)
  case (Create k s station)
  have "server_ok (nullish_or (map_of st s) [])"
    using stations_ok_lookup [OF ok, of s] by (cases "map_of st s") (auto simp: server_ok_def)
  then have "server_ok (AList.update k (station\<lparr>rs_id := k\<rparr>) (nullish_or (map_of st s) []))" by (simp add: server_ok_update)
  from stations_ok_update [OF ok this] Create show ?thesis by (simp add: createStation_def Let_def)
next
  case (Delete s k)
  then show ?thesis
    using stations_ok_lookup [OF ok, of s]
    by (auto simp: deleteStation_def Let_def ok server_ok_delete intro: stations_ok_update stations_ok_delete split: option.split)
next
  case (Update s k u)
  show ?thesis
  proof (cases "Option.bind (map_of st s) (\<lambda>m. map_of m k)")
    case (Some station)
    then obtain m where m: "map_of st s = Some m" "map_of m k = Some station" by (auto simp: bind_eq_Some_conv)
    from stations_ok_lookup [OF ok m(1)] have sm: "server_ok m" by simp
    with m(2) have "rs_id (withUpdates u station) = k"
      by (auto simp: withUpdates_def server_ok_def list_all_iff dest!: map_of_SomeD)
    with sm have "server_ok (AList.update k (withUpdates u station) m)" by (rule server_ok_update)
    from stations_ok_update [OF ok this] show ?thesis using Update Some m by (simp add: updateStation_def)
  qed (use ok Update in \<open>simp add: updateStation_def\<close>)
qed

interpretation radios: driven_component station_step stations_ok
  by unfold_locales (rule station_step_ok)

lemma getStation_simps:
  assumes "stations_ok st"
  shows "getStation s' k' (snd (createStation k s station st)) =
      (if s' = s \<and> k' = k then Some (station\<lparr>rs_id := k\<rparr>) else getStation s' k' st)"
    and "getStation s' k' (deleteStation s k st) = (if s' = s \<and> k' = k then None else getStation s' k' st)"
    and "getStation s' k' (updateStation s k u st) =
      (if s' = s \<and> k' = k then map_option (withUpdates u) (getStation s k st) else getStation s' k' st)"
proof -
  show "getStation s' k' (snd (createStation k s station st)) =
      (if s' = s \<and> k' = k then Some (station\<lparr>rs_id := k\<rparr>) else getStation s' k' st)"
    by (cases "map_of st s") (auto simp: getStation_def createStation_def Let_def update_conv')
  show "getStation s' k' (deleteStation s k st) = (if s' = s \<and> k' = k then None else getStation s' k' st)"
  proof (cases "map_of st s")
    case (Some m)
    have "AList.delete k m = [] \<Longrightarrow> map_of m k' = (if k' = k then map_of m k else None)"
      using delete_conv' [of k m] by (auto simp: fun_eq_iff split: if_splits)
    then show ?thesis using Some by (auto simp: getStation_def deleteStation_def Let_def update_conv' delete_conv')
  qed (auto simp: getStation_def deleteStation_def)
  show "getStation s' k' (updateStation s k u st) =
      (if s' = s \<and> k' = k then map_option (withUpdates u) (getStation s k st) else getStation s' k' st)"
    by (auto simp: getStation_def updateStation_def update_conv' bind_eq_Some_conv split: option.split)
qed

lemma station_step_refines: "stations_ok st \<Longrightarrow> stations_map (station_step a st) = station_spec a (stations_map st)"
  by (cases a) (auto simp: stations_map_def fun_eq_iff getStation_simps)

lemma listed_stations:
  assumes "stations_ok st"
  shows "set (getStations s st) = {station. stations_map st (s, rs_id station) = Some station}"
    and "distinct (map rs_id (getStations s st))"
proof -
  show "set (getStations s st) = {station. stations_map st (s, rs_id station) = Some station}"
  proof (cases "map_of st s")
    case (Some m)
    from stations_ok_lookup [OF assms Some] have ok: "server_ok m" by simp
    have "snd ` set m = {station. map_of m (rs_id station) = Some station}"
    proof (intro set_eqI iffI)
      fix x assume "x \<in> snd ` set m"
      then obtain k where k: "(k, x) \<in> set m" by auto
      with ok have "rs_id x = k" by (auto simp: server_ok_def list_all_iff)
      with k ok show "x \<in> {station. map_of m (rs_id station) = Some station}" by (simp add: server_ok_def)
    next
      fix x assume "x \<in> {station. map_of m (rs_id station) = Some station}"
      then have "(rs_id x, x) \<in> set m" by (simp add: map_of_SomeD)
      then show "x \<in> snd ` set m" by force
    qed
    then show ?thesis using Some by (simp add: getStations_def stations_map_def getStation_def)
  qed (simp add: getStations_def stations_map_def getStation_def)
  show "distinct (map rs_id (getStations s st))"
  proof (cases "map_of st s")
    case (Some m)
    from stations_ok_lookup [OF assms Some] have ok: "server_ok m" by simp
    then have "map rs_id (map snd m) = map fst m" by (simp add: server_ok_def list_all_iff)
    moreover have "getStations s st = map snd m" using Some by (simp add: getStations_def)
    ultimately show ?thesis using ok by (simp only: server_ok_def)
  qed (simp add: getStations_def)
qed

text \<open>
  The store is a map: whatever stations are created, updated and deleted, each station that is asked for is the one that
  a map from servers and ids would give, and the list of a server has each of its stations once.
\<close>

theorem stations_refine_map:
  "let st = fold station_step ops []; m = fold station_spec ops Map.empty
   in stations_map st = m \<and> set (getStations s st) = {station. m (s, rs_id station) = Some station}
      \<and> distinct (map rs_id (getStations s st))"
proof -
  have empty: "stations_ok []" "stations_map [] = Map.empty"
    by (simp add: stations_ok_def) (rule ext, auto simp: stations_map_def getStation_def)
  have ok: "stations_ok (fold station_step ops [])" by (rule radios.run_inv) (rule empty(1))
  have "stations_ok st \<Longrightarrow> stations_map (fold station_step ops st) = fold station_spec ops (stations_map st)" for st
    by (induction ops arbitrary: st) (simp_all add: station_step_ok station_step_refines)
  from this [OF empty(1)] listed_stations [OF ok] show ?thesis by (simp add: Let_def empty(2))
qed

text \<open>A station that the adapter for Jellyfin creates is found with what was sent under the id that was drawn.\<close>

lemma jf_created_station:
  assumes "stations_ok st" and "serverId = Some s" and "s \<noteq> ''''"
  shows "\<exists>st'. jfCreateInternetRadioStation k serverId body st = Inr st'
    \<and> map_option (\<lambda>x. (rs_name x, rs_streamUrl x)) (getStation s k st') = Some (jsb_name body, jsb_streamUrl body)"
  using assms by (simp add: jfCreateInternetRadioStation_def needServerId_def truthy_def getStation_simps)

end
