(* ===== verification/Servers.thy ===== *)
theory Servers
  imports JellyfinLists
begin

text \<open>
  The servers that the client knows and the one it is logged in to (\<^verbatim>\<open>store/auth.store.ts\<close>), and what happens when
  a session has expired (\<^verbatim>\<open>api/utils.ts\<close>).
\<close>

section \<open>The store\<close>

text \<open>
  A server with its credentials. An update of a server that is not in the list leaves an entry that has only what was
  updated, so that any property can be missing.
\<close>

record auth_server =
  as_credential :: "string option"
  as_features :: "features option"
  as_id :: "string option"
  as_isAdmin :: "bool option"
  as_musicFolderId :: "string list option"
  as_name :: "string option"
  as_ndCredential :: "string option"
  as_preferInstantMix :: "bool option"
  as_preferRemoteUrl :: "bool option"
  as_remoteUrl :: "string option"
  as_savePassword :: "bool option"
  as_type :: "ServerType option"
  as_url :: "string option"
  as_userId :: "string option"
  as_username :: "string option"
  as_version :: "string option"

definition noServer :: auth_server where
  "noServer = \<lparr>as_credential = None, as_features = None, as_id = None, as_isAdmin = None, as_musicFolderId = None,
     as_name = None, as_ndCredential = None, as_preferInstantMix = None, as_preferRemoteUrl = None, as_remoteUrl = None,
     as_savePassword = None, as_type = None, as_url = None, as_userId = None, as_username = None, as_version = None\<rparr>"

text \<open>A partial server is a list of the properties that it has, which may be undefined.\<close>

datatype server_field = Set_credential "string option" | Set_features "features option" | Set_id "string option"
  | Set_isAdmin "bool option" | Set_musicFolderId "string list option" | Set_name "string option"
  | Set_ndCredential "string option" | Set_preferInstantMix "bool option" | Set_preferRemoteUrl "bool option"
  | Set_remoteUrl "string option" | Set_savePassword "bool option" | Set_type "ServerType option" | Set_url "string option"
  | Set_userId "string option" | Set_username "string option" | Set_version "string option"

fun assign :: "server_field \<Rightarrow> auth_server \<Rightarrow> auth_server" where
  "assign (Set_credential x) s = s\<lparr>as_credential := x\<rparr>"
| "assign (Set_features y) s = s\<lparr>as_features := y\<rparr>"
| "assign (Set_id x) s = s\<lparr>as_id := x\<rparr>"
| "assign (Set_isAdmin b) s = s\<lparr>as_isAdmin := b\<rparr>"
| "assign (Set_musicFolderId ks) s = s\<lparr>as_musicFolderId := ks\<rparr>"
| "assign (Set_name x) s = s\<lparr>as_name := x\<rparr>"
| "assign (Set_ndCredential x) s = s\<lparr>as_ndCredential := x\<rparr>"
| "assign (Set_preferInstantMix b) s = s\<lparr>as_preferInstantMix := b\<rparr>"
| "assign (Set_preferRemoteUrl b) s = s\<lparr>as_preferRemoteUrl := b\<rparr>"
| "assign (Set_remoteUrl x) s = s\<lparr>as_remoteUrl := x\<rparr>"
| "assign (Set_savePassword b) s = s\<lparr>as_savePassword := b\<rparr>"
| "assign (Set_type t) s = s\<lparr>as_type := t\<rparr>"
| "assign (Set_url x) s = s\<lparr>as_url := x\<rparr>"
| "assign (Set_userId x) s = s\<lparr>as_userId := x\<rparr>"
| "assign (Set_username x) s = s\<lparr>as_username := x\<rparr>"
| "assign (Set_version x) s = s\<lparr>as_version := x\<rparr>"

fun namesFolders :: "server_field \<Rightarrow> bool" where
  "namesFolders (Set_musicFolderId ks) = True"
| "namesFolders _ = False"

record auth_state =
  at_currentServer :: "auth_server option"
  at_deviceId :: string
  at_serverList :: "auth_server obj"

definition initialAuth :: "string \<Rightarrow> auth_state" where
  "initialAuth deviceId = \<lparr>at_currentServer = None, at_deviceId = deviceId, at_serverList = []\<rparr>"

definition isCurrent :: "auth_state \<Rightarrow> string \<Rightarrow> bool" where
  "isCurrent st k \<longleftrightarrow> Option.bind (at_currentServer st) as_id = Some k"

definition addServer :: "auth_server \<Rightarrow> auth_state \<Rightarrow> auth_state" where
  "addServer args st = st\<lparr>at_serverList := AList.update (template (as_id args)) args (at_serverList st)\<rparr>"

definition deleteServer :: "string \<Rightarrow> auth_state \<Rightarrow> auth_state" where
  "deleteServer k st = st\<lparr>at_serverList := AList.delete k (at_serverList st),
     at_currentServer := (if isCurrent st k then None else at_currentServer st)\<rparr>"

definition getServer :: "string \<Rightarrow> auth_state \<Rightarrow> auth_server option" where
  "getServer k st = map_of (at_serverList st) k"

definition setCurrentServer :: "auth_server option \<Rightarrow> auth_state \<Rightarrow> auth_state" where
  "setCurrentServer server st = st\<lparr>at_currentServer := server\<rparr>"

definition setMusicFolderId :: "string list option \<Rightarrow> auth_state \<Rightarrow> auth_state" where
  "setMusicFolderId musicFolderId st =
     (case at_currentServer st of
        None \<Rightarrow> st
      | Some s \<Rightarrow>
          let serverId = template (as_id s)
          in st\<lparr>at_currentServer := Some (s\<lparr>as_musicFolderId := musicFolderId\<rparr>),
                at_serverList := (case map_of (at_serverList st) serverId of
                   None \<Rightarrow> at_serverList st
                 | Some entry \<Rightarrow> AList.update serverId (entry\<lparr>as_musicFolderId := musicFolderId\<rparr>) (at_serverList st))\<rparr>)"

text \<open>The folders that were chosen of the current server are kept, unless the update names them.\<close>

definition updatedServer :: "string \<Rightarrow> server_field list \<Rightarrow> auth_state \<Rightarrow> auth_server" where
  "updatedServer k args st =
     (let updated = fold assign args (nullish_or (map_of (at_serverList st) k) noServer);
          folders = Option.bind (at_currentServer st) as_musicFolderId
      in if isCurrent st k \<and> \<not> list_ex namesFolders args \<and> folders \<noteq> None
         then updated\<lparr>as_musicFolderId := folders\<rparr> else updated)"

definition updateServer :: "string \<Rightarrow> server_field list \<Rightarrow> auth_state \<Rightarrow> auth_state" where
  "updateServer k args st = st\<lparr>at_serverList := AList.update k (updatedServer k args st) (at_serverList st),
     at_currentServer := (if isCurrent st k then Some (updatedServer k args st) else at_currentServer st)\<rparr>"

section \<open>Selectors\<close>

definition useCurrentServerId :: "auth_state \<Rightarrow> string" where
  "useCurrentServerId st = (case at_currentServer st of None \<Rightarrow> '''' | Some s \<Rightarrow> template (as_id s))"

text \<open>The current server without its credentials.\<close>

definition useCurrentServer :: "auth_state \<Rightarrow> auth_server option" where
  "useCurrentServer st = map_option (\<lambda>s. s\<lparr>as_credential := None, as_ndCredential := None\<rparr>) (at_currentServer st)"

definition useIsAdmin :: "auth_state \<Rightarrow> bool \<times> string option" where
  "useIsAdmin st = (nullish_or (Option.bind (at_currentServer st) as_isAdmin) False, Option.bind (at_currentServer st) as_userId)"

definition getServerById :: "string option \<Rightarrow> auth_state \<Rightarrow> auth_server option" where
  "getServerById k st = (if \<not> truthy k then None else getServer (the k) st)"

record permissions =
  pm_editOwner :: bool
  pm_editPublic :: bool
  pm_createRadio :: bool
  pm_deleteRadio :: bool
  pm_editRadio :: bool
  pm_userId :: "string option"

definition usePermissions :: "auth_state \<Rightarrow> permissions" where
  "usePermissions st =
     (let (isAdmin, userId) = useIsAdmin st
      in \<lparr>pm_editOwner = isAdmin, pm_editPublic = isAdmin, pm_createRadio = True, pm_deleteRadio = isAdmin,
          pm_editRadio = isAdmin, pm_userId = userId\<rparr>)"

section \<open>A session that has expired\<close>

definition authenticationFailure :: "auth_server option \<Rightarrow> auth_state \<Rightarrow> auth_state" where
  "authenticationFailure currentServer st =
     (case currentServer of
        None \<Rightarrow> st
      | Some s \<Rightarrow> setCurrentServer None (updateServer (template (as_id s)) [Set_ndCredential None] st))"

section \<open>The list and the current server agree\<close>

text \<open>Every server is filed under its id, and the current one is the entry of the list.\<close>

definition filed_ok :: "auth_server obj \<Rightarrow> bool" where
  "filed_ok m \<longleftrightarrow> distinct (obj_keys m) \<and> list_all (\<lambda>e. as_id (snd e) = Some (fst e)) m"

definition servers_ok :: "auth_state \<Rightarrow> bool" where
  "servers_ok st \<longleftrightarrow> filed_ok (at_serverList st)
     \<and> (\<forall>s. at_currentServer st = Some s \<longrightarrow> (\<exists>k. as_id s = Some k \<and> map_of (at_serverList st) k = Some s))"

text \<open>
  What the user interface does: a new server gets an id of its own, an update is one of a server of the list, of whose id it
  can only say what it is (as the form for a server does), only a server of the list is made the current one, and a session
  expires while its server is listed.
\<close>

fun keepsId :: "string \<Rightarrow> server_field \<Rightarrow> bool" where
  "keepsId k (Set_id x) \<longleftrightarrow> x = Some k"
| "keepsId k _ \<longleftrightarrow> True"

datatype auth_event = Server_added auth_server | Server_deleted string | Server_selected string | Server_left
  | Folders_chosen "string list option" | Server_updated string "server_field list" | Session_expired string

fun auth_allowed :: "auth_event \<Rightarrow> auth_state \<Rightarrow> bool" where
  "auth_allowed (Server_added s) st \<longleftrightarrow> as_id s \<noteq> None \<and> getServer (template (as_id s)) st = None"
| "auth_allowed (Server_selected k) st \<longleftrightarrow> getServer k st \<noteq> None"
| "auth_allowed (Server_updated k args) st \<longleftrightarrow> getServer k st \<noteq> None \<and> list_all (keepsId k) args"
| "auth_allowed (Session_expired k) st \<longleftrightarrow> getServer k st \<noteq> None"
| "auth_allowed _ st \<longleftrightarrow> True"

fun auth_do :: "auth_event \<Rightarrow> auth_state \<Rightarrow> auth_state" where
  "auth_do (Server_added s) st = addServer s st"
| "auth_do (Server_deleted k) st = deleteServer k st"
| "auth_do (Server_selected k) st = setCurrentServer (getServer k st) st"
| "auth_do Server_left st = setCurrentServer None st"
| "auth_do (Folders_chosen ks) st = setMusicFolderId ks st"
| "auth_do (Server_updated k args) st = updateServer k args st"
| "auth_do (Session_expired k) st = authenticationFailure (getServer k st) st"

inductive auth_run :: "string \<Rightarrow> auth_event list \<Rightarrow> auth_state \<Rightarrow> bool" for deviceId where
  start: "auth_run deviceId [] (initialAuth deviceId)"
| step: "auth_run deviceId es st \<Longrightarrow> auth_allowed e st \<Longrightarrow> auth_run deviceId (es @ [e]) (auth_do e st)"

text \<open>
  What the events mean: one map of the servers and the id of the current one. Every property of a server has the value that
  was set last, when it was added, updated or, for the folders, chosen; and an expired session has no credential.
\<close>

type_synonym known_servers = "(string \<rightharpoonup> auth_server) \<times> string option"

fun known_step :: "auth_event \<Rightarrow> known_servers \<Rightarrow> known_servers" where
  "known_step (Server_added s) (m, c) = (m(template (as_id s) \<mapsto> s), c)"
| "known_step (Server_deleted k) (m, c) = (m(k := None), if c = Some k then None else c)"
| "known_step (Server_selected k) (m, c) = (m, Some k)"
| "known_step Server_left (m, c) = (m, None)"
| "known_step (Folders_chosen ks) (m, c) =
     ((case c of None \<Rightarrow> m | Some k \<Rightarrow> m(k := map_option (\<lambda>s. s\<lparr>as_musicFolderId := ks\<rparr>) (m k))), c)"
| "known_step (Server_updated k args) (m, c) = (m(k := map_option (fold assign args) (m k)), c)"
| "known_step (Session_expired k) (m, c) = (m(k := map_option (\<lambda>s. s\<lparr>as_ndCredential := None\<rparr>) (m k)), None)"

definition known :: "auth_event list \<Rightarrow> known_servers" where
  "known es = fold known_step es (Map.empty, None)"

lemma assign_id: "keepsId k f \<Longrightarrow> as_id s = Some k \<Longrightarrow> as_id (assign f s) = Some k"
  by (cases f) simp_all

lemma assigned_id: "list_all (keepsId k) fs \<Longrightarrow> as_id s = Some k \<Longrightarrow> as_id (fold assign fs s) = Some k"
  by (induction fs arbitrary: s) (simp_all add: assign_id)

lemma assigned_folders: "\<not> list_ex namesFolders fs \<Longrightarrow> as_musicFolderId (fold assign fs s) = as_musicFolderId s"
proof (induction fs arbitrary: s)
  case (Cons f fs)
  moreover have "\<not> namesFolders f \<Longrightarrow> as_musicFolderId (assign f s) = as_musicFolderId s" by (cases f) simp_all
  ultimately show ?case by simp
qed simp

lemma filed_ok_update: "filed_ok m \<Longrightarrow> as_id s = Some k \<Longrightarrow> filed_ok (AList.update k s m)"
  by (simp add: filed_ok_def distinct_update list_all_update)

lemma filed_ok_delete: "filed_ok m \<Longrightarrow> filed_ok (AList.delete k m)"
  by (simp add: filed_ok_def distinct_delete list_all_delete)

lemma filed_id: "servers_ok st \<Longrightarrow> map_of (at_serverList st) k = Some s \<Longrightarrow> as_id s = Some k"
  by (auto simp: servers_ok_def filed_ok_def list_all_iff dest!: map_of_SomeD)

lemma servers_okI:
  assumes "filed_ok (at_serverList st)"
    and "\<And>s. at_currentServer st = Some s \<Longrightarrow> \<exists>k. as_id s = Some k \<and> map_of (at_serverList st) k = Some s"
  shows "servers_ok st"
  using assms by (simp add: servers_ok_def)

lemma servers_ok_current:
  assumes "servers_ok st" and "at_currentServer st = Some s"
  obtains k where "as_id s = Some k" and "map_of (at_serverList st) k = Some s"
  using assms by (auto simp: servers_ok_def)

lemma filed: "servers_ok st \<Longrightarrow> filed_ok (at_serverList st)"
  by (simp add: servers_ok_def)

lemma updatedServer_id:
  assumes "servers_ok st" and "getServer k st \<noteq> None" and "list_all (keepsId k) args"
  shows "as_id (updatedServer k args st) = Some k"
  using assms filed_id [OF assms(1), of k]
  by (auto simp: updatedServer_def getServer_def Let_def assigned_id)

lemma updateServer_ok:
  assumes "servers_ok st" and "getServer k st \<noteq> None" and "list_all (keepsId k) args"
  shows "servers_ok (updateServer k args st)"
proof (rule servers_okI)
  note new = updatedServer_id [OF assms]
  show "filed_ok (at_serverList (updateServer k args st))"
    using filed [OF assms(1)] new by (simp add: updateServer_def filed_ok_update)
  fix s assume s: "at_currentServer (updateServer k args st) = Some s"
  show "\<exists>k'. as_id s = Some k' \<and> map_of (at_serverList (updateServer k args st)) k' = Some s"
  proof (cases "isCurrent st k")
    case True
    with s new show ?thesis by (simp add: updateServer_def update_conv')
  next
    case False
    with s have cur: "at_currentServer st = Some s" by (simp add: updateServer_def)
    from servers_ok_current [OF assms(1) this] obtain k' where k': "as_id s = Some k'" "map_of (at_serverList st) k' = Some s" .
    with False cur have "k' \<noteq> k" by (auto simp: isCurrent_def)
    with k' show ?thesis by (simp add: updateServer_def update_conv')
  qed
qed

lemma deleteServer_ok: "servers_ok st \<Longrightarrow> servers_ok (deleteServer k st)"
proof (rule servers_okI)
  assume ok: "servers_ok st"
  show "filed_ok (at_serverList (deleteServer k st))" using filed [OF ok] by (simp add: deleteServer_def filed_ok_delete)
  fix s assume s: "at_currentServer (deleteServer k st) = Some s"
  then have no: "\<not> isCurrent st k" and cur: "at_currentServer st = Some s" by (simp_all add: deleteServer_def split: if_splits)
  from servers_ok_current [OF ok cur] obtain k' where k': "as_id s = Some k'" "map_of (at_serverList st) k' = Some s" .
  with no cur have "k' \<noteq> k" by (auto simp: isCurrent_def)
  with k' show "\<exists>k'. as_id s = Some k' \<and> map_of (at_serverList (deleteServer k st)) k' = Some s"
    by (simp add: deleteServer_def delete_conv')
qed

lemma setMusicFolderId_ok: "servers_ok st \<Longrightarrow> servers_ok (setMusicFolderId ks st)"
proof (cases "at_currentServer st")
  case (Some s)
  assume ok: "servers_ok st"
  from servers_ok_current [OF ok Some] obtain k where k: "as_id s = Some k" "map_of (at_serverList st) k = Some s" .
  with Some have "setMusicFolderId ks st = st\<lparr>at_currentServer := Some (s\<lparr>as_musicFolderId := ks\<rparr>),
      at_serverList := AList.update k (s\<lparr>as_musicFolderId := ks\<rparr>) (at_serverList st)\<rparr>"
    by (simp add: setMusicFolderId_def template_def)
  with k(1) filed [OF ok] show ?thesis by (auto simp: servers_ok_def filed_ok_update update_conv')
qed (simp add: setMusicFolderId_def)

lemma addServer_ok:
  assumes "servers_ok st" and "as_id s = Some k" and "getServer k st = None"
  shows "servers_ok (addServer s st)"
proof (rule servers_okI)
  show "filed_ok (at_serverList (addServer s st))"
    using filed [OF assms(1)] assms(2) by (simp add: addServer_def template_def filed_ok_update)
  fix c assume "at_currentServer (addServer s st) = Some c"
  then have "at_currentServer st = Some c" by (simp add: addServer_def)
  from servers_ok_current [OF assms(1) this] obtain j where j: "as_id c = Some j" "map_of (at_serverList st) j = Some c" .
  with assms(3) have "j \<noteq> k" by (auto simp: getServer_def)
  with j assms(2) show "\<exists>k. as_id c = Some k \<and> map_of (at_serverList (addServer s st)) k = Some c"
    by (simp add: addServer_def template_def update_conv')
qed

lemma leave_ok: "servers_ok st \<Longrightarrow> servers_ok (setCurrentServer None st)"
  by (simp add: servers_ok_def setCurrentServer_def)

text \<open>A state that the events lead to is what they mean.\<close>

definition knows :: "auth_state \<Rightarrow> known_servers \<Rightarrow> bool" where
  "knows st mc \<longleftrightarrow> servers_ok st \<and> map_of (at_serverList st) = fst mc
     \<and> (case snd mc of None \<Rightarrow> at_currentServer st = None | Some k \<Rightarrow> fst mc k \<noteq> None \<and> at_currentServer st = fst mc k)"

lemma knows_current: "knows st (m, c) \<Longrightarrow> isCurrent st k \<longleftrightarrow> c = Some k"
  using filed_id [of st] by (cases c) (fastforce simp: knows_def isCurrent_def)+

lemma updatedServer_assigned:
  assumes "servers_ok st" and "map_of (at_serverList st) k = Some s"
  shows "updatedServer k args st = fold assign args s"
proof (cases "isCurrent st k \<and> \<not> list_ex namesFolders args")
  case True
  then obtain c where c: "at_currentServer st = Some c" "as_id c = Some k" by (auto simp: isCurrent_def bind_eq_Some_conv)
  from servers_ok_current [OF assms(1) c(1)] c(2) assms(2) have "c = s" by auto
  with True c(1) assigned_folders [of args s] assms(2) show ?thesis by (simp add: updatedServer_def Let_def)
qed (use assms(2) in \<open>auto simp: updatedServer_def Let_def\<close>)

lemma knows_update:
  assumes "knows st (m, c)" and "m k = Some s" and "list_all (keepsId k) args"
  shows "knows (updateServer k args st) (m(k \<mapsto> fold assign args s), c)"
proof -
  from assms(1) have ok: "servers_ok st" and m: "map_of (at_serverList st) = m" by (simp_all add: knows_def)
  have "servers_ok (updateServer k args st)" using updateServer_ok [OF ok _ assms(3)] assms(2) m by (simp add: getServer_def)
  moreover have "updatedServer k args st = fold assign args s" by (rule updatedServer_assigned [OF ok]) (simp add: m assms(2))
  moreover from this have "map_of (at_serverList (updateServer k args st)) = m(k \<mapsto> fold assign args s)"
    "at_currentServer (updateServer k args st) = (if c = Some k then Some (fold assign args s) else at_currentServer st)"
    by (simp_all add: updateServer_def update_conv' m knows_current [OF assms(1)])
  ultimately show ?thesis using assms(1) by (cases c) (auto simp: knows_def)
qed

lemma knows_folders:
  assumes "knows st (m, c)"
  shows "knows (setMusicFolderId ks st) (known_step (Folders_chosen ks) (m, c))"
proof (cases c)
  case None
  with assms show ?thesis by (simp add: knows_def setMusicFolderId_def)
next
  case (Some k)
  with assms obtain s where s: "m k = Some s" "at_currentServer st = Some s" "map_of (at_serverList st) = m" "servers_ok st"
    by (auto simp: knows_def)
  with filed_id [of st k s] have "as_id s = Some k" by simp
  with s have "setMusicFolderId ks st = st\<lparr>at_currentServer := Some (s\<lparr>as_musicFolderId := ks\<rparr>),
      at_serverList := AList.update k (s\<lparr>as_musicFolderId := ks\<rparr>) (at_serverList st)\<rparr>"
    by (simp add: setMusicFolderId_def template_def)
  with Some s setMusicFolderId_ok [OF s(4), of ks] show ?thesis by (simp add: knows_def update_conv')
qed

lemma knows_delete:
  assumes "knows st (m, c)"
  shows "knows (deleteServer k st) (known_step (Server_deleted k) (m, c))"
proof -
  have "servers_ok (deleteServer k st)" using assms deleteServer_ok by (simp add: knows_def)
  with assms knows_current [OF assms, of k] show ?thesis
    by (cases c) (auto simp: knows_def deleteServer_def delete_conv')
qed

lemma knows_add:
  assumes "knows st (m, c)" and "as_id s = Some k" and "getServer k st = None"
  shows "knows (addServer s st) (m(k \<mapsto> s), c)"
proof -
  have "servers_ok (addServer s st)" using assms addServer_ok by (simp add: knows_def)
  with assms show ?thesis by (cases c) (auto simp: knows_def addServer_def update_conv' template_def getServer_def)
qed

lemma knows_expire:
  assumes "knows st (m, c)" and "m k = Some s"
  shows "knows (authenticationFailure (Some s) st) (known_step (Session_expired k) (m, c))"
proof -
  from assms have "as_id s = Some k" using filed_id [of st k s] by (simp add: knows_def)
  then have f: "authenticationFailure (Some s) st = setCurrentServer None (updateServer k [Set_ndCredential None] st)"
    by (simp add: authenticationFailure_def template_def)
  from knows_update [OF assms, of "[Set_ndCredential None]"] have
    u: "knows (updateServer k [Set_ndCredential None] st) (m(k \<mapsto> s\<lparr>as_ndCredential := None\<rparr>), c)" by simp
  from u have "servers_ok (setCurrentServer None (updateServer k [Set_ndCredential None] st))" by (intro leave_ok) (simp add: knows_def)
  with u assms(2) show ?thesis unfolding f by (simp add: knows_def setCurrentServer_def)
qed

lemma knows_step:
  assumes "knows st mc" and "auth_allowed e st"
  shows "knows (auth_do e st) (known_step e mc)"
proof -
  obtain m c where mc: "mc = (m, c)" by (cases mc)
  note now = assms(1) [unfolded mc]
  from now have m: "getServer k st = m k" for k by (simp add: knows_def getServer_def)
  show ?thesis unfolding mc
  proof (cases e)
    case (Server_added s)
    with assms(2) obtain k where "as_id s = Some k" "getServer k st = None" by (auto simp: template_def)
    with knows_add [OF now this] Server_added show "knows (auth_do e st) (known_step e (m, c))" by (simp add: template_def)
  next
    case (Server_deleted k)
    with knows_delete [OF now] show "knows (auth_do e st) (known_step e (m, c))" by simp
  next
    case (Server_selected k)
    with assms(2) m obtain s where s: "m k = Some s" by auto
    with now filed_id [of st k s] have "as_id s = Some k" by (simp add: knows_def)
    with s now Server_selected m show "knows (auth_do e st) (known_step e (m, c))"
      by (auto simp: knows_def servers_ok_def setCurrentServer_def)
  next
    case Server_left
    with now leave_ok show "knows (auth_do e st) (known_step e (m, c))" by (auto simp: knows_def setCurrentServer_def servers_ok_def)
  next
    case (Folders_chosen ks)
    with knows_folders [OF now, of ks] show "knows (auth_do e st) (known_step e (m, c))" by simp
  next
    case (Server_updated k args)
    with assms(2) m obtain s where s: "m k = Some s" "list_all (keepsId k) args" by auto
    with knows_update [OF now s] Server_updated show "knows (auth_do e st) (known_step e (m, c))" by simp
  next
    case (Session_expired k)
    with assms(2) m obtain s where s: "m k = Some s" by auto
    with knows_expire [OF now s] Session_expired m show "knows (auth_do e st) (known_step e (m, c))" by simp
  qed
qed

text \<open>
  C40: Whatever servers are added, edited, selected, left and deleted, whatever folders are chosen and sessions expire: the list
  has exactly the servers that were added and not deleted, each under its id and with every property - credentials and folders
  among them - as it was set last, and the current server is the entry of the one that was selected last. An edit can
  name the id that the server has; a session expires while its server is listed (if it does later, the server is back:
  \<open>late_failure_revives_server\<close>).
\<close>

theorem servers_stay_in_sync:
  assumes "auth_run deviceId es st"
  shows "servers_ok st \<and> (\<forall>k. getServer k st = fst (known es) k)
    \<and> at_currentServer st = Option.bind (snd (known es)) (fst (known es))"
proof -
  from assms have "knows st (known es)"
  proof (induction rule: auth_run.induct)
    case start
    show ?case by (simp add: knows_def known_def servers_ok_def filed_ok_def initialAuth_def fun_eq_iff)
  next
    case (step es st e)
    from knows_step [OF step.IH step.hyps(2)] show ?case by (simp add: known_def)
  qed
  then show ?thesis by (auto simp: knows_def getServer_def split: option.splits)
qed

text \<open>An update that does not name the folders leaves those that were chosen of the current server.\<close>

lemma update_keeps_folders:
  assumes "at_currentServer st = Some s" and "as_id s = Some k" and "as_musicFolderId s = Some ks"
    and "\<not> list_ex namesFolders args"
  shows "Option.bind (at_currentServer (updateServer k args st)) as_musicFolderId = Some ks"
  using assms by (simp add: updateServer_def isCurrent_def updatedServer_def Let_def)

section \<open>Flaws\<close>

text \<open>
  A failure is reported a second after the last refusal, with the server that was current then. If that server has been
  deleted in the meantime, the update of its credential brings it back: with an entry that has neither id nor name nor
  address.
\<close>

theorem late_failure_revives_server:
  assumes "servers_ok st" and "as_id s = Some k"
  shows "getServer k (authenticationFailure (Some s) (deleteServer k st)) = Some noServer"
proof -
  have "map_of (AList.delete k (at_serverList st)) k = None" by (simp add: delete_conv')
  moreover have "\<not> isCurrent (deleteServer k st) k"
    by (auto simp: isCurrent_def deleteServer_def)
  ultimately show ?thesis using assms
    by (simp add: getServer_def authenticationFailure_def setCurrentServer_def updateServer_def template_def updatedServer_def
        deleteServer_def Let_def noServer_def update_conv')
qed

text \<open>If another server has been selected in the meantime, it is that one which is left.\<close>

lemma late_failure_leaves_other_server:
  "at_currentServer (authenticationFailure (Some s) (setCurrentServer (Some other) st)) = None"
  by (simp add: authenticationFailure_def setCurrentServer_def)

section \<open>Examples\<close>

definition exampleAuthServer :: "string \<Rightarrow> auth_server" where
  "exampleAuthServer k = noServer\<lparr>as_id := Some k, as_name := Some k, as_url := Some ''http://'', as_savePassword := Some True,
     as_username := Some ''me'', as_ndCredential := Some ''old''\<rparr>"

definition exampleAuth :: auth_state where
  "exampleAuth = setCurrentServer (Some (exampleAuthServer ''a'')) (addServer (exampleAuthServer ''a'') (initialAuth ''device''))"

definition exampleEvents :: "auth_event list" where
  "exampleEvents = [Server_added (exampleAuthServer ''a''), Server_selected ''a'', Folders_chosen (Some [''f'']),
     Server_updated ''a'' [Set_id (Some ''a''), Set_ndCredential (Some ''new'')]]"

lemma example_run:
  "auth_run ''device'' exampleEvents (fold auth_do exampleEvents (initialAuth ''device''))"
proof -
  let ?st = "\<lambda>n. fold auth_do (take n exampleEvents) (initialAuth ''device'')"
  have ok: "n < 4 \<Longrightarrow> auth_allowed (exampleEvents ! n) (?st n)" for n
  proof -
    have "auth_allowed (exampleEvents ! 0) (?st 0)" "auth_allowed (exampleEvents ! 1) (?st 1)"
      "auth_allowed (exampleEvents ! 2) (?st 2)" "auth_allowed (exampleEvents ! 3) (?st 3)" by code_simp+
    moreover assume "n < 4"
    then have "n \<in> {0, 1, 2, 3}" by auto
    ultimately show ?thesis by blast
  qed
  have four: "length exampleEvents = 4" by (simp add: exampleEvents_def)
  have "n \<le> 4 \<Longrightarrow> auth_run ''device'' (take n exampleEvents) (?st n)" for n
  proof (induction n)
    case 0
    show ?case by (simp add: auth_run.start)
  next
    case (Suc n)
    then have "take (Suc n) exampleEvents = take n exampleEvents @ [exampleEvents ! n]"
      using four by (simp add: take_Suc_conv_app_nth)
    with Suc ok [of n] auth_run.step show ?case by simp
  qed
  from this [of 4] four show ?thesis by simp
qed

lemma servers_stay_in_sync_witness:
  "let st = fold auth_do exampleEvents (initialAuth ''device'')
   in map_option (\<lambda>s. (as_ndCredential s, as_musicFolderId s)) (at_currentServer st) = Some (Some ''new'', Some [''f''])"
proof -
  have "map_option (\<lambda>s. (as_ndCredential s, as_musicFolderId s)) (Option.bind (snd (known exampleEvents)) (fst (known exampleEvents))) =
      Some (Some ''new'', Some [''f''])" by code_simp
  with servers_stay_in_sync [OF example_run] show ?thesis by (simp add: Let_def del: fold.simps)
qed

lemma late_failure_revives_server_witness:
  "getServer ''a'' (authenticationFailure (Some (exampleAuthServer ''a'')) (deleteServer ''a'' exampleAuth)) = Some noServer"
proof -
  have ok: "servers_ok exampleAuth"
    by (simp add: servers_ok_def filed_ok_def exampleAuth_def exampleAuthServer_def setCurrentServer_def addServer_def
        initialAuth_def template_def)
  show ?thesis by (rule late_failure_revives_server [OF ok]) (simp add: exampleAuthServer_def)
qed

end
