(* ===== verification/NavidromeAuth.thy ===== *)
theory NavidromeAuth
  imports Servers
begin

text \<open>
  Requests to Navidrome's own interface, whose token expires (\<^verbatim>\<open>api/navidrome/navidrome-api.ts\<close>): when one is refused
  and the password is kept, the client logs in again and repeats the request, while others wait. The requests share two
  flags, the debounced report of a failure, and the store of the servers. A step is what happens between two points at
  which a request awaits something; what it awaits is an argument of the step.
\<close>

section \<open>Addresses\<close>

text \<open>What \<open>qs.parse\<close> makes of the value of a parameter: a text, an array, or an object.\<close>

datatype qs_value = Qs_text string | Qs_array "string list" | Qs_object "string obj"

definition newParam :: "qs_value \<Rightarrow> qs_value" where
  "newParam v =
     (case v of Qs_object m \<Rightarrow> if ''0'' \<in> set (obj_keys m) then Qs_array (map snd m) else v | _ \<Rightarrow> v)"

text \<open>The path up to the first question mark, and the parameters up to the second; those that are undefined or null are left out.\<close>

definition parsePath :: "(string option \<Rightarrow> qs_value obj) \<Rightarrow> string \<Rightarrow> string \<times> qs_value obj" where
  "parsePath qsParse fullPath =
     (let parts = splitOn (CHR ''?'') fullPath;
          params = qsParse (if length parts > 1 then Some (parts ! 1) else None);
          newParams = map (\<lambda>(k, v). (k, newParam v)) params
      in (parts ! 0, filter (\<lambda>(k, v). v \<noteq> Qs_text ''undefined'' \<and> v \<noteq> Qs_text ''null'') newParams))"

text \<open>The address of a request, from that of the server or of the login; the header with the token.\<close>

definition requestUrl :: "url_server option \<Rightarrow> bool \<Rightarrow> string option \<Rightarrow> string \<Rightarrow> string" where
  "requestUrl server forceRemoteUrl url api =
     template (case server of
        None \<Rightarrow> url
      | Some s \<Rightarrow> (let serverUrl = getServerUrl (Some s) forceRemoteUrl in if truthy serverUrl then Some (the serverUrl @ ''/api'') else None))
     @ ''/'' @ api"

definition authHeader :: "string option \<Rightarrow> string option" where
  "authHeader token = (if truthy token then Some (''Bearer '' @ the token) else None)"

lemma newParam_object: "newParam v = Qs_object m \<Longrightarrow> ''0'' \<notin> set (obj_keys m)"
  by (cases v) (simp_all add: newParam_def split: if_splits)

text \<open>A parameter that is sent is neither undefined nor null, and a list that was sent by its positions is a list again.\<close>

lemma parsed_params:
  assumes "(k, v) \<in> set (snd (parsePath qsParse path))"
  shows "v \<noteq> Qs_text ''undefined'' \<and> v \<noteq> Qs_text ''null'' \<and> (\<forall>m. v = Qs_object m \<longrightarrow> ''0'' \<notin> set (obj_keys m))"
proof -
  from assms obtain v' where "v = newParam v'" "v \<noteq> Qs_text ''undefined''" "v \<noteq> Qs_text ''null''"
    by (auto simp: parsePath_def Let_def)
  then show ?thesis using newParam_object [of v'] by metis
qed

section \<open>Requests\<close>

text \<open>The refusal of the token, a failure of the network, any other failure, and the error that ends all others.\<close>

datatype call_error = Unauthorized | Network | Failed | TIMEOUT_ERROR

text \<open>
  Where a request is: before it is sent, with the number of times it has looked whether the delay is over; sent; asking
  for the password; waiting for another request that logs in; logging in; and at its end.
\<close>

datatype call_phase = Gate nat | Sent | Asking | Waiting nat | Logging | Ended "call_error option"

text \<open>
  The chains are the attempts to log in of which the request is a part, the innermost first, with the server that was
  current when they began: a request that is repeated is part of the chain that repeats it.
\<close>

record nd_call =
  rq_chains :: "auth_server list"
  rq_phase :: call_phase
  rq_token :: "string option"

text \<open>
  The shared state. \<open>nw_failing\<close> is the pending report of a failure with its last argument, \<open>nw_polls\<close> the number of
  timers by which \<open>waitForResult\<close> looks again and again; \<open>nw_desktop\<close> whether there are local settings.
\<close>

record nd_world =
  nw_auth :: auth_state
  nw_authSuccess :: bool
  nw_calls :: "nat \<Rightarrow> nd_call option"
  nw_desktop :: bool
  nw_failing :: "auth_server option option"
  nw_polls :: nat
  nw_shouldDelay :: bool

definition MAX_RETRIES :: nat where "MAX_RETRIES = 5"

definition setCall :: "nat \<Rightarrow> nd_call \<Rightarrow> nd_world \<Rightarrow> nd_world" where
  "setCall i c w = w\<lparr>nw_calls := (nw_calls w)(i \<mapsto> c)\<rparr>"

section \<open>The end of a request\<close>

text \<open>\<open>limitedFail\<close> is debounced: it is called once, with the last argument, when it has not been called for a second.\<close>

definition limitedFail :: "auth_server option \<Rightarrow> nd_world \<Rightarrow> nd_world" where
  "limitedFail server w = w\<lparr>nw_failing := Some server\<rparr>"

definition reportFailure :: "nd_world \<Rightarrow> nd_world" where
  "reportFailure w =
     (case nw_failing w of
        None \<Rightarrow> w
      | Some server \<Rightarrow> w\<lparr>nw_failing := None, nw_auth := authenticationFailure server (nw_auth w)\<rparr>)"

text \<open>What \<open>catch\<close> and \<open>finally\<close> of a chain do with the result of the request, which they pass on.\<close>

definition closeChain :: "call_error option \<Rightarrow> auth_server \<Rightarrow> nd_world \<Rightarrow> nd_world" where
  "closeChain e server w =
     (case e of
        None \<Rightarrow> w
      | Some TIMEOUT_ERROR \<Rightarrow> w
      | Some Network \<Rightarrow> w
      | Some _ \<Rightarrow> limitedFail (Some server) w)\<lparr>nw_shouldDelay := False\<rparr>"

definition settle :: "nat \<Rightarrow> nd_call \<Rightarrow> call_error option \<Rightarrow> nd_world \<Rightarrow> nd_world" where
  "settle i c e w = fold (closeChain e) (rq_chains c) (setCall i (c\<lparr>rq_phase := Ended e\<rparr>) w)"

section \<open>The steps\<close>

text \<open>A request takes its token from the server it is given before it waits.\<close>

definition beginCall :: "nat \<Rightarrow> auth_server option \<Rightarrow> nd_world \<Rightarrow> nd_world" where
  "beginCall i server w =
     (let c = \<lparr>rq_chains = [], rq_phase = (if nw_shouldDelay w then Gate 0 else Sent), rq_token = Option.bind server as_ndCredential\<rparr>
      in setCall i c (if nw_shouldDelay w then w\<lparr>nw_polls := Suc (nw_polls w)\<rparr> else w))"

text \<open>After a second a request that waits looks again; it goes on when the delay is over, and after the last time.\<close>

definition waitOver :: "nat \<Rightarrow> nd_world \<Rightarrow> bool" where
  "waitOver n w \<longleftrightarrow> n = MAX_RETRIES \<or> \<not> nw_shouldDelay w"

definition pollCall :: "nat \<Rightarrow> nd_call \<Rightarrow> nd_world \<Rightarrow> nd_world" where
  "pollCall i c w =
     (case rq_phase c of
        Gate n \<Rightarrow> setCall i (c\<lparr>rq_phase := (if waitOver (Suc n) w then Sent else Gate (Suc n))\<rparr>) w
      | Waiting n \<Rightarrow>
          if \<not> waitOver (Suc n) w then setCall i (c\<lparr>rq_phase := Waiting (Suc n)\<rparr>) w
          else if nw_authSuccess w then setCall i (c\<lparr>rq_phase := Sent\<rparr>) w
          else settle i c (Some Unauthorized) w
      | _ \<Rightarrow> w)"

text \<open>An answer with the header of a new token, or an error.\<close>

datatype nd_response = Answered "string option" | Erred call_error

definition onAnswer :: "string option \<Rightarrow> nd_world \<Rightarrow> nd_world" where
  "onAnswer header w =
     (let serverId = Option.bind (at_currentServer (nw_auth w)) as_id
      in (if truthy serverId \<and> truthy header
          then w\<lparr>nw_auth := updateServer (the serverId) [Set_ndCredential header] (nw_auth w)\<rparr> else w)
         \<lparr>nw_authSuccess := True\<rparr>)"

definition onUnauthorized :: "nat \<Rightarrow> nd_call \<Rightarrow> nd_world \<Rightarrow> nd_world" where
  "onUnauthorized i c w =
     (case at_currentServer (nw_auth w) of
        Some s \<Rightarrow>
          if nw_desktop w \<and> as_savePassword s = Some True
          then setCall i (c\<lparr>rq_chains := s # rq_chains c, rq_phase := Asking\<rparr>) w
          else settle i c (Some Unauthorized) (limitedFail (Some s) w)
      | None \<Rightarrow> settle i c (Some Unauthorized) (limitedFail None w))"

definition respondCall :: "nat \<Rightarrow> nd_response \<Rightarrow> nd_call \<Rightarrow> nd_world \<Rightarrow> nd_world" where
  "respondCall i r c w =
     (if rq_phase c \<noteq> Sent then w
      else case r of
        Answered header \<Rightarrow> settle i c None (onAnswer header w)
      | Erred Unauthorized \<Rightarrow> onUnauthorized i c w
      | Erred e \<Rightarrow> settle i c (Some e) w)"

text \<open>The password, or null, or a failure to read it; only the first two say that the login has not succeeded.\<close>

datatype password_reply = Password string | No_password | Password_failed

definition passwordCall :: "nat \<Rightarrow> password_reply \<Rightarrow> nd_call \<Rightarrow> nd_world \<Rightarrow> nd_world" where
  "passwordCall i p c w =
     (if rq_phase c \<noteq> Asking then w
      else case p of
        Password_failed \<Rightarrow> settle i c (Some Failed) w
      | No_password \<Rightarrow> settle i c (Some Unauthorized) (w\<lparr>nw_authSuccess := False\<rparr>)
      | Password _ \<Rightarrow>
          if nw_shouldDelay w
          then setCall i (c\<lparr>rq_phase := Waiting 0\<rparr>) (w\<lparr>nw_authSuccess := False, nw_polls := Suc (nw_polls w)\<rparr>)
          else setCall i (c\<lparr>rq_phase := Logging\<rparr>) (w\<lparr>nw_authSuccess := False, nw_shouldDelay := True\<rparr>))"

text \<open>A login is answered with a token, a salt and a token for the interface of Subsonic, or with a status, or fails.\<close>

datatype login_reply = Logged_in string string string | Login_status nat | Login_failed call_error

definition loggedIn :: "auth_server \<Rightarrow> string \<Rightarrow> string \<Rightarrow> string \<Rightarrow> auth_state \<Rightarrow> auth_state" where
  "loggedIn server token salt subsonicToken st =
     updateServer (template (as_id server))
       [Set_credential (Some (''u='' @ template (as_username server) @ ''&s='' @ salt @ ''&t='' @ subsonicToken)),
        Set_ndCredential (Some token)] st"

text \<open>Too many logins: the credentials are forgotten, and nothing more is reported.\<close>

definition rateLimited :: "auth_server \<Rightarrow> nd_world \<Rightarrow> nd_world" where
  "rateLimited server w = w\<lparr>nw_failing := None, nw_auth := setCurrentServer None
     (updateServer (template (as_id server)) [Set_credential None, Set_ndCredential None] (nw_auth w))\<rparr>"

definition loginCall :: "nat \<Rightarrow> login_reply \<Rightarrow> nd_call \<Rightarrow> nd_world \<Rightarrow> nd_world" where
  "loginCall i r c w =
     (if rq_phase c \<noteq> Logging then w
      else case r of
        Login_failed e \<Rightarrow> settle i c (Some e) w
      | Login_status status \<Rightarrow>
          if status = 429 then settle i c (Some TIMEOUT_ERROR) (rateLimited (hd (rq_chains c)) w)
          else settle i c (Some Failed) w
      | Logged_in token salt subsonicToken \<Rightarrow>
          setCall i (c\<lparr>rq_phase := Sent, rq_token := Some token\<rparr>)
            (w\<lparr>nw_auth := loggedIn (hd (rq_chains c)) token salt subsonicToken (nw_auth w), nw_authSuccess := True\<rparr>))"

text \<open>What can happen; the last is whatever else changes the store of the servers.\<close>

datatype nd_event = Begin nat "auth_server option" | Poll nat | Respond nat nd_response | Password_read nat password_reply
  | Login_answer nat login_reply | Report_failure | Store_changed auth_state

definition withCall :: "nat \<Rightarrow> (nd_call \<Rightarrow> nd_world \<Rightarrow> nd_world) \<Rightarrow> nd_world \<Rightarrow> nd_world" where
  "withCall i f w = (case nw_calls w i of None \<Rightarrow> w | Some c \<Rightarrow> f c w)"

fun nd_step :: "nd_event \<Rightarrow> nd_world \<Rightarrow> nd_world" where
  "nd_step (Begin i server) w = (if nw_calls w i = None then beginCall i server w else w)"
| "nd_step (Poll i) w = withCall i (pollCall i) w"
| "nd_step (Respond i r) w = withCall i (respondCall i r) w"
| "nd_step (Password_read i p) w = withCall i (passwordCall i p) w"
| "nd_step (Login_answer i r) w = withCall i (loginCall i r) w"
| "nd_step Report_failure w = reportFailure w"
| "nd_step (Store_changed st) w = w\<lparr>nw_auth := st\<rparr>"

definition nd_idle :: "bool \<Rightarrow> auth_state \<Rightarrow> nd_world" where
  "nd_idle desktop st = \<lparr>nw_auth = st, nw_authSuccess = True, nw_calls = (\<lambda>_. None), nw_desktop = desktop,
     nw_failing = None, nw_polls = 0, nw_shouldDelay = False\<rparr>"

section \<open>The delay does not outlast the requests\<close>

definition ended :: "nd_call \<Rightarrow> bool" where
  "ended c \<longleftrightarrow> (case rq_phase c of Ended e \<Rightarrow> True | _ \<Rightarrow> False)"

text \<open>
  A request is asking, waiting for a login or logging in only inside a chain, and looks at the delay before it is sent
  outside of any; and while there is a delay, some request that is not at its end is in a chain, which will end it.
\<close>

definition call_ok :: "nd_call \<Rightarrow> bool" where
  "call_ok c \<longleftrightarrow> (case rq_phase c of Asking \<Rightarrow> rq_chains c \<noteq> [] | Logging \<Rightarrow> rq_chains c \<noteq> []
     | Waiting n \<Rightarrow> rq_chains c \<noteq> [] \<and> n < MAX_RETRIES | Gate n \<Rightarrow> rq_chains c = [] \<and> n < MAX_RETRIES | _ \<Rightarrow> True)"

definition delayed_by :: "nd_world \<Rightarrow> nat \<Rightarrow> bool" where
  "delayed_by w i \<longleftrightarrow> (\<exists>c. nw_calls w i = Some c \<and> \<not> ended c \<and> rq_chains c \<noteq> [])"

definition nd_ok :: "nd_world \<Rightarrow> bool" where
  "nd_ok w \<longleftrightarrow> (\<forall>i c. nw_calls w i = Some c \<longrightarrow> call_ok c) \<and> (nw_shouldDelay w \<longrightarrow> (\<exists>i. delayed_by w i))"

lemma closeChain_simps [simp]:
  "nw_calls (closeChain e s w) = nw_calls w" "nw_shouldDelay (closeChain e s w) = False"
  by (auto simp: closeChain_def limitedFail_def split: option.split call_error.split)

lemma closeChains_simps [simp]:
  "nw_calls (fold (closeChain e) ss w) = nw_calls w"
  "nw_shouldDelay (fold (closeChain e) ss w) = (nw_shouldDelay w \<and> ss = [])"
  by (induction ss arbitrary: w) auto

lemma setCall_simps [simp]:
  "nw_calls (setCall i c w) = (nw_calls w)(i \<mapsto> c)" "nw_shouldDelay (setCall i c w) = nw_shouldDelay w"
  "nw_auth (setCall i c w) = nw_auth w" "nw_failing (setCall i c w) = nw_failing w"
  "nw_authSuccess (setCall i c w) = nw_authSuccess w" "nw_desktop (setCall i c w) = nw_desktop w"
  by (simp_all add: setCall_def)

lemma settle_simps [simp]:
  "nw_calls (settle i c e w) = (nw_calls w)(i \<mapsto> c\<lparr>rq_phase := Ended e\<rparr>)"
  "nw_shouldDelay (settle i c e w) = (nw_shouldDelay w \<and> rq_chains c = [])"
  by (simp_all add: settle_def)

text \<open>A request that ends leaves the rest as it is, but for the delay, which is over if it was in a chain.\<close>

lemma settle_ok:
  assumes "nd_ok w" and "nw_calls w i = Some c" and "nw_calls w' = nw_calls w" and "nw_shouldDelay w' = nw_shouldDelay w"
  shows "nd_ok (settle i c e w')"
proof -
  have "call_ok (c\<lparr>rq_phase := Ended e\<rparr>)" by (simp add: call_ok_def)
  moreover have "\<exists>j. delayed_by (settle i c e w') j" if "nw_shouldDelay (settle i c e w')"
  proof -
    from that assms(4) have d: "nw_shouldDelay w" "rq_chains c = []" by simp_all
    with assms(1) obtain j where j: "delayed_by w j" by (auto simp: nd_ok_def)
    with d(2) assms(2) have "j \<noteq> i" by (auto simp: delayed_by_def)
    with j assms(3) show ?thesis by (auto simp: delayed_by_def)
  qed
  ultimately show ?thesis using assms(1,3) by (auto simp: nd_ok_def)
qed

text \<open>A request that goes on stays in its chain.\<close>

lemma setCall_ok:
  assumes "nd_ok w" and "nw_calls w i = Some c" and "nw_calls w' = nw_calls w" and "call_ok c'" and "\<not> ended c'"
    and "rq_chains c \<noteq> [] \<longrightarrow> rq_chains c' \<noteq> []" and "nw_shouldDelay w' \<longrightarrow> nw_shouldDelay w \<or> rq_chains c' \<noteq> []"
  shows "nd_ok (setCall i c' w')"
proof -
  have "\<exists>j. delayed_by (setCall i c' w') j" if d: "nw_shouldDelay w'"
  proof (cases "rq_chains c' = []")
    case True
    with assms(7) d assms(1) obtain j where j: "delayed_by w j" by (auto simp: nd_ok_def)
    with True assms(2,6) have "j \<noteq> i" by (auto simp: delayed_by_def)
    with j assms(3) show ?thesis by (auto simp: delayed_by_def)
  qed (use assms(5) in \<open>auto simp: delayed_by_def\<close>)
  with assms(1,3,4) show ?thesis by (auto simp: nd_ok_def)
qed


lemma call_okD:
  "call_ok c \<Longrightarrow> rq_phase c = Asking \<Longrightarrow> rq_chains c \<noteq> []"
  "call_ok c \<Longrightarrow> rq_phase c = Logging \<Longrightarrow> rq_chains c \<noteq> []"
  "call_ok c \<Longrightarrow> rq_phase c = Waiting n \<Longrightarrow> rq_chains c \<noteq> [] \<and> n < MAX_RETRIES"
  "call_ok c \<Longrightarrow> rq_phase c = Gate n \<Longrightarrow> rq_chains c = [] \<and> n < MAX_RETRIES"
  by (simp_all add: call_ok_def)

lemma nd_okD: "nd_ok w \<Longrightarrow> nw_calls w i = Some c \<Longrightarrow> call_ok c"
  by (simp add: nd_ok_def)

lemma begin_ok:
  assumes "nd_ok w" and "nw_calls w i = None"
  shows "nd_ok (beginCall i server w)"
proof -
  let ?c = "\<lparr>rq_chains = [], rq_phase = (if nw_shouldDelay w then Gate 0 else Sent), rq_token = Option.bind server as_ndCredential\<rparr>"
  have "call_ok ?c" by (simp add: call_ok_def MAX_RETRIES_def)
  moreover have "delayed_by w j \<Longrightarrow> j \<noteq> i" for j using assms(2) by (auto simp: delayed_by_def)
  ultimately show ?thesis
    using assms(1) by (auto simp: nd_ok_def beginCall_def Let_def delayed_by_def split: if_splits)
qed

lemma poll_ok:
  assumes "nd_ok w" and "nw_calls w i = Some c"
  shows "nd_ok (pollCall i c w)"
proof (cases "rq_phase c")
  case (Gate n)
  with call_okD(4) [OF nd_okD [OF assms]] show ?thesis
    by (auto simp: pollCall_def waitOver_def call_ok_def ended_def intro!: setCall_ok [OF assms])
next
  case (Waiting n)
  with call_okD(3) [OF nd_okD [OF assms]] show ?thesis
    by (auto simp: pollCall_def waitOver_def call_ok_def ended_def intro!: setCall_ok [OF assms] settle_ok [OF assms])
qed (use assms in \<open>simp_all add: pollCall_def\<close>)

lemma answered_simps [simp]:
  "nw_calls (onAnswer h w) = nw_calls w" "nw_shouldDelay (onAnswer h w) = nw_shouldDelay w"
  "nw_calls (limitedFail s w) = nw_calls w" "nw_shouldDelay (limitedFail s w) = nw_shouldDelay w"
  "nw_calls (rateLimited s' w) = nw_calls w" "nw_shouldDelay (rateLimited s' w) = nw_shouldDelay w"
  by (simp_all add: onAnswer_def Let_def limitedFail_def rateLimited_def)

lemma unauthorized_ok:
  assumes "nd_ok w" and "nw_calls w i = Some c"
  shows "nd_ok (onUnauthorized i c w)"
  by (auto simp: onUnauthorized_def call_ok_def ended_def split: option.split
      intro!: setCall_ok [OF assms] settle_ok [OF assms])

lemma respond_ok:
  assumes "nd_ok w" and "nw_calls w i = Some c"
  shows "nd_ok (respondCall i r c w)"
  using assms by (auto simp: respondCall_def unauthorized_ok split: nd_response.split call_error.split intro!: settle_ok [OF assms])

lemma password_ok:
  assumes "nd_ok w" and "nw_calls w i = Some c"
  shows "nd_ok (passwordCall i p c w)"
  using assms call_okD(1) [OF nd_okD [OF assms]]
  by (auto simp: passwordCall_def call_ok_def ended_def MAX_RETRIES_def split: password_reply.split
      intro!: settle_ok [OF assms] setCall_ok [OF assms])

lemma login_ok:
  assumes "nd_ok w" and "nw_calls w i = Some c"
  shows "nd_ok (loginCall i r c w)"
  using assms call_okD(2) [OF nd_okD [OF assms]]
  by (auto simp: loginCall_def call_ok_def ended_def split: login_reply.split intro!: settle_ok [OF assms] setCall_ok [OF assms])

lemma nd_ok_cong: "nw_calls w' = nw_calls w \<Longrightarrow> nw_shouldDelay w' = nw_shouldDelay w \<Longrightarrow> nd_ok w' = nd_ok w"
  by (simp add: nd_ok_def delayed_by_def)

lemma nd_step_ok: "nd_ok w \<Longrightarrow> nd_ok (nd_step a w)"
proof (cases a)
  case Report_failure
  assume "nd_ok w"
  moreover have "nd_ok (reportFailure w) = nd_ok w" by (rule nd_ok_cong) (simp_all add: reportFailure_def split: option.split)
  ultimately show ?thesis using Report_failure by simp
next
  case (Store_changed st)
  assume "nd_ok w"
  moreover have "nd_ok (w\<lparr>nw_auth := st\<rparr>) = nd_ok w" by (rule nd_ok_cong) simp_all
  ultimately show ?thesis using Store_changed by simp
qed (auto simp: withCall_def begin_ok poll_ok respond_ok password_ok login_ok split: option.split)

interpretation requests: driven_component nd_step nd_ok
  by unfold_locales (rule nd_step_ok)

lemma idle_ok: "nd_ok (nd_idle desktop st)"
  by (simp add: nd_ok_def nd_idle_def)

text \<open>
  C35: Whatever requests are made and however their steps interleave, the delay is over when all of them are at their ends,
  so that no request waits for a login that nobody makes.
\<close>

theorem delay_ends_with_requests:
  assumes "w = fold nd_step events (nd_idle desktop st)" and "\<forall>i c. nw_calls w i = Some c \<longrightarrow> ended c"
  shows "\<not> nw_shouldDelay w"
proof -
  have "nd_ok w" unfolding assms(1) by (rule requests.run_inv) (rule idle_ok)
  with assms(2) show ?thesis by (auto simp: nd_ok_def delayed_by_def)
qed

section \<open>Waiting ends\<close>

definition waits :: "call_phase \<Rightarrow> nat option" where
  "waits p = (case p of Gate n \<Rightarrow> Some n | Waiting n \<Rightarrow> Some n | _ \<Rightarrow> None)"

definition waitingTime :: "nat \<Rightarrow> nd_world \<Rightarrow> nat option" where
  "waitingTime i w = Option.bind (nw_calls w i) (\<lambda>c. waits (rq_phase c))"

text \<open>The events of one request, and those that leave its wait as it is.\<close>

fun concerns :: "nat \<Rightarrow> nd_event \<Rightarrow> bool" where
  "concerns i (Begin j s) = (i = j)"
| "concerns i (Poll j) = (i = j)"
| "concerns i (Respond j r) = (i = j)"
| "concerns i (Password_read j p) = (i = j)"
| "concerns i (Login_answer j r) = (i = j)"
| "concerns i Report_failure = False"
| "concerns i (Store_changed st) = False"

lemma other_calls:
  assumes "\<not> concerns i a"
  shows "nw_calls (nd_step a w) i = nw_calls w i"
  using assms
  by (cases a) (auto simp: withCall_def beginCall_def Let_def pollCall_def respondCall_def onUnauthorized_def passwordCall_def
      loginCall_def reportFailure_def split: option.split call_phase.split nd_response.split call_error.split
      password_reply.split login_reply.split)

lemma poll_time:
  assumes "waitingTime i w = Some n"
  shows "waitingTime i (nd_step (Poll i) w) = (if waitOver (Suc n) w then None else Some (Suc n))"
proof -
  from assms obtain c where c: "nw_calls w i = Some c" "waits (rq_phase c) = Some n"
    by (auto simp: waitingTime_def bind_eq_Some_conv)
  then show ?thesis
    by (cases "rq_phase c") (auto simp: waitingTime_def waits_def withCall_def pollCall_def)
qed


lemma not_waiting_stays:
  assumes "waitingTime i w = None" and "concerns i a \<longrightarrow> a = Poll i"
  shows "waitingTime i (nd_step a w) = None"
proof (cases "concerns i a")
  case True
  with assms have a: "a = Poll i" by simp
  show ?thesis
  proof (cases "nw_calls w i")
    case (Some c)
    with assms(1) have "waits (rq_phase c) = None" by (simp add: waitingTime_def)
    then have "pollCall i c w = w" by (simp add: waits_def pollCall_def split: call_phase.splits)
    with Some a assms(1) show ?thesis by (simp add: withCall_def)
  qed (use a assms(1) in \<open>simp add: withCall_def\<close>)
qed (use assms(1) other_calls [of i a w] in \<open>simp add: waitingTime_def\<close>)

lemma not_waiting_run:
  assumes "waitingTime i w = None" and "\<forall>a \<in> set es. concerns i a \<longrightarrow> a = Poll i"
  shows "waitingTime i (fold nd_step es w) = None"
  using assms by (induction es arbitrary: w) (simp_all add: not_waiting_stays)

text \<open>
  A request that waits goes on or fails once it has looked five times at the latest, whatever the other requests do in
  the meantime.
\<close>

theorem waiting_ends:
  assumes "waitingTime i w = Some n" and "n < MAX_RETRIES"
    and "\<forall>a \<in> set es. concerns i a \<longrightarrow> a = Poll i" and "MAX_RETRIES \<le> n + count_list es (Poll i)"
  shows "waitingTime i (fold nd_step es w) = None"
  using assms
proof (induction es arbitrary: w n)
  case (Cons a es)
  show ?case
  proof (cases "concerns i a")
    case True
    with Cons.prems(3) have a: "a = Poll i" by simp
    show ?thesis
    proof (cases "waitOver (Suc n) w")
      case True
      with poll_time [OF Cons.prems(1)] a have "waitingTime i (nd_step a w) = None" by simp
      then have "waitingTime i (fold nd_step es (nd_step a w)) = None" by (rule not_waiting_run) (use Cons.prems(3) in auto)
      then show ?thesis by simp
    next
      case False
      with poll_time [OF Cons.prems(1)] a have t: "waitingTime i (nd_step a w) = Some (Suc n)" by simp
      from False Cons.prems(2) have less: "Suc n < MAX_RETRIES" by (auto simp: waitOver_def)
      have "waitingTime i (fold nd_step es (nd_step a w)) = None"
        by (rule Cons.IH [OF t less]) (use Cons.prems(3,4) a in auto)
      then show ?thesis by simp
    qed
  next
    case False
    then have t: "waitingTime i (nd_step a w) = Some n" and a: "a \<noteq> Poll i"
      using other_calls [OF False, of w] Cons.prems(1) by (auto simp: waitingTime_def simp del: nd_step.simps)
    have "waitingTime i (fold nd_step es (nd_step a w)) = None"
      by (rule Cons.IH [OF t Cons.prems(2)]) (use Cons.prems(3,4) a in auto)
    then show ?thesis by simp
  qed
qed simp

section \<open>Logging in again\<close>

text \<open>The token that the store has for the current server.\<close>

definition storedToken :: "nd_world \<Rightarrow> string option" where
  "storedToken w = Option.bind (at_currentServer (nw_auth w)) as_ndCredential"

lemma refused_asks:
  assumes "nw_calls w i = Some c" and "rq_phase c = Sent" and "nw_desktop w"
    and "at_currentServer (nw_auth w) = Some s" and "as_savePassword s = Some True"
  shows "nd_step (Respond i (Erred Unauthorized)) w = setCall i (c\<lparr>rq_chains := s # rq_chains c, rq_phase := Asking\<rparr>) w"
  using assms by (simp add: withCall_def respondCall_def onUnauthorized_def)

lemma password_logs_in:
  assumes "nw_calls w i = Some c" and "rq_phase c = Asking" and "\<not> nw_shouldDelay w"
  shows "nd_step (Password_read i (Password p)) w =
    setCall i (c\<lparr>rq_phase := Logging\<rparr>) (w\<lparr>nw_authSuccess := False, nw_shouldDelay := True\<rparr>)"
  using assms by (simp add: withCall_def passwordCall_def)

lemma login_repeats:
  assumes "nw_calls w i = Some c" and "rq_phase c = Logging"
  shows "nd_step (Login_answer i (Logged_in token salt t)) w = setCall i (c\<lparr>rq_phase := Sent, rq_token := Some token\<rparr>)
    (w\<lparr>nw_auth := loggedIn (hd (rq_chains c)) token salt t (nw_auth w), nw_authSuccess := True\<rparr>)"
  using assms by (simp add: withCall_def loginCall_def)

lemma answer_settles:
  assumes "nw_calls w i = Some c" and "rq_phase c = Sent"
  shows "nd_step (Respond i (Answered h)) w = settle i c None (onAnswer h w)"
  using assms by (simp add: withCall_def respondCall_def)

lemma loggedIn_token:
  assumes "at_currentServer st = Some s" and "as_id s = Some k"
  shows "Option.bind (at_currentServer (loggedIn s token salt t st)) as_ndCredential = Some token"
  using assms by (simp add: loggedIn_def updateServer_def isCurrent_def template_def updatedServer_def Let_def)

lemma loggedIn_server:
  assumes "servers_ok st" and "at_currentServer st = Some s"
  shows "\<exists>s'. at_currentServer (loggedIn s token salt t st) = Some s' \<and> as_savePassword s' = as_savePassword s"
proof -
  from servers_ok_current [OF assms] obtain k where "as_id s = Some k" "map_of (at_serverList st) k = Some s" .
  with assms(2) show ?thesis by (simp add: loggedIn_def updateServer_def isCurrent_def template_def updatedServer_def Let_def)
qed

text \<open>The run of a request that is refused and logs in.\<close>

definition loginRun :: "nat \<Rightarrow> string \<Rightarrow> string \<Rightarrow> string \<Rightarrow> string \<Rightarrow> nd_event list" where
  "loginRun i p token salt t =
     [Respond i (Erred Unauthorized), Password_read i (Password p), Login_answer i (Logged_in token salt t)]"

lemma login_run:
  assumes "nw_calls w i = Some c" and "rq_phase c = Sent" and "\<not> nw_shouldDelay w" and "nw_desktop w"
    and "at_currentServer (nw_auth w) = Some s" and "as_savePassword s = Some True"
  shows "fold nd_step (loginRun i p token salt t) w =
    w\<lparr>nw_calls := (nw_calls w)(i \<mapsto> c\<lparr>rq_chains := s # rq_chains c, rq_token := Some token\<rparr>),
      nw_auth := loggedIn s token salt t (nw_auth w), nw_authSuccess := True, nw_shouldDelay := True\<rparr>"
proof -
  let ?c1 = "c\<lparr>rq_chains := s # rq_chains c, rq_phase := Asking\<rparr>"
  let ?w1 = "setCall i ?c1 w"
  let ?w2 = "setCall i (?c1\<lparr>rq_phase := Logging\<rparr>) (?w1\<lparr>nw_authSuccess := False, nw_shouldDelay := True\<rparr>)"
  have 1: "nd_step (Respond i (Erred Unauthorized)) w = ?w1" by (rule refused_asks [OF assms(1,2,4,5,6)])
  have 2: "nd_step (Password_read i (Password p)) ?w1 = ?w2" by (rule password_logs_in) (simp_all add: assms(3))
  have 3: "nd_step (Login_answer i (Logged_in token salt t)) ?w2 =
      setCall i (?c1\<lparr>rq_phase := Sent, rq_token := Some token\<rparr>)
        (?w2\<lparr>nw_auth := loggedIn s token salt t (nw_auth w), nw_authSuccess := True\<rparr>)"
    using login_repeats [of ?w2 i "?c1\<lparr>rq_phase := Logging\<rparr>"] by simp
  have "?c1\<lparr>rq_phase := Sent, rq_token := Some token\<rparr> = c\<lparr>rq_chains := s # rq_chains c, rq_token := Some token\<rparr>"
    using assms(2) by simp
  then show ?thesis unfolding loginRun_def by (simp only: fold.simps comp_apply id_apply 1 2 3) (simp add: setCall_def)
qed

text \<open>Whether a refused request may log in by itself: on the desktop, with a server that is current and whose password is kept.\<close>

definition keepsPassword :: "nd_world \<Rightarrow> bool" where
  "keepsPassword w \<longleftrightarrow>
     nw_desktop w \<and> (case at_currentServer (nw_auth w) of None \<Rightarrow> False | Some s \<Rightarrow> as_savePassword s = Some True)"

lemma refused_reports:
  assumes "nw_calls w i = Some c" and "rq_phase c = Sent" and "\<not> keepsPassword w"
  shows "nd_step (Respond i (Erred Unauthorized)) w =
    settle i c (Some Unauthorized) (limitedFail (at_currentServer (nw_auth w)) w)"
  using assms by (auto simp: withCall_def respondCall_def onUnauthorized_def keepsPassword_def split: option.split)

lemma closed_chains_failing:
  "nw_failing (fold (closeChain None) ss x) = nw_failing x"
  "nw_failing (fold (closeChain (Some Unauthorized)) ss x) = (if ss = [] then nw_failing x else Some (Some (last ss)))"
  by (induction ss arbitrary: x) (simp_all add: closeChain_def limitedFail_def)

lemma first_refusal_reported:
  assumes "nw_calls w i = Some c" and "rq_phase c = Sent" and "\<not> keepsPassword w"
  shows "map_option rq_phase (nw_calls (nd_step (Respond i (Erred Unauthorized)) w) i) = Some (Ended (Some Unauthorized))
    \<and> nw_auth (nd_step (Respond i (Erred Unauthorized)) w) = nw_auth w
    \<and> (rq_chains c = [] \<longrightarrow> nw_failing (nd_step (Respond i (Erred Unauthorized)) w) = Some (at_currentServer (nw_auth w)))"
proof -
  have "nw_auth (fold (closeChain (Some Unauthorized)) ss x) = nw_auth x" for ss x
    by (induction ss arbitrary: x) (simp_all add: closeChain_def limitedFail_def)
  then show ?thesis
    unfolding refused_reports [OF assms] by (simp add: settle_def closed_chains_failing limitedFail_def)
qed

lemma refused_login_repeats:
  assumes "nw_calls w i = Some c" and "rq_phase c = Sent" and "keepsPassword w" and "\<not> nw_shouldDelay w"
    and "\<And>s. at_currentServer (nw_auth w) = Some s \<Longrightarrow> as_id s \<noteq> None"
    and "w1 = fold nd_step (loginRun i p token salt t) w" and "w2 = nd_step (Respond i (Answered None)) w1"
  shows "map_option rq_phase (nw_calls w1 i) = Some Sent \<and> Option.bind (nw_calls w1 i) rq_token = Some token
    \<and> storedToken w1 = Some token \<and> nw_shouldDelay w1
    \<and> map_option rq_phase (nw_calls w2 i) = Some (Ended None) \<and> \<not> nw_shouldDelay w2 \<and> nw_failing w2 = nw_failing w"
proof -
  from assms(3) obtain s where s: "nw_desktop w" "at_currentServer (nw_auth w) = Some s" "as_savePassword s = Some True"
    by (auto simp: keepsPassword_def split: option.splits)
  with assms(5) obtain k where k: "as_id s = Some k" by auto
  note run = login_run [OF assms(1,2,4) s, of p token salt t, folded assms(6)]
  let ?c = "c\<lparr>rq_chains := s # rq_chains c, rq_token := Some token\<rparr>"
  have "nw_calls w1 i = Some ?c" by (simp add: run)
  then have w2: "w2 = settle i ?c None (onAnswer None w1)" unfolding assms(7) by (rule answer_settles) (simp add: assms(2))
  show ?thesis
    using assms(2) unfolding w2 by (simp add: run storedToken_def loggedIn_token [OF s(2) k])
      (simp add: settle_def closed_chains_failing onAnswer_def truthy_def Let_def closeChain_def)
qed

lemma refused_asks_password:
  assumes "nw_calls w i = Some c" and "rq_phase c = Sent" and "keepsPassword w"
  shows "map_option rq_phase (nw_calls (nd_step (Respond i (Erred Unauthorized)) w) i) = Some Asking
    \<and> nw_failing (nd_step (Respond i (Erred Unauthorized)) w) = nw_failing w"
proof -
  from assms(3) obtain s where s: "nw_desktop w" "at_currentServer (nw_auth w) = Some s" "as_savePassword s = Some True"
    by (auto simp: keepsPassword_def split: option.splits)
  show ?thesis unfolding refused_asks [OF assms(1,2) s] by simp
qed


lemma password_waits:
  assumes "nw_calls w i = Some c" and "rq_phase c = Asking" and "nw_shouldDelay w"
  shows "nd_step (Password_read i (Password p)) w =
    setCall i (c\<lparr>rq_phase := Waiting 0\<rparr>) (w\<lparr>nw_authSuccess := False, nw_polls := Suc (nw_polls w)\<rparr>)"
  using assms by (simp add: withCall_def passwordCall_def)

lemma waiting_polls:
  assumes "nw_calls w i = Some (c\<lparr>rq_phase := Waiting 0\<rparr>)" and "nw_shouldDelay w" and "n < 5"
  shows "fold nd_step (replicate n (Poll i)) w = setCall i (c\<lparr>rq_phase := Waiting n\<rparr>) w"
  using assms(3)
proof (induction n)
  case 0
  with assms(1) show ?case by (simp add: setCall_def fun_upd_idem)
next
  case (Suc n)
  have "fold nd_step (replicate (Suc n) (Poll i)) w = nd_step (Poll i) (fold nd_step (replicate n (Poll i)) w)"
    by (simp add: replicate_append_same [symmetric] del: replicate.simps)
  also have "\<dots> = setCall i (c\<lparr>rq_phase := Waiting (Suc n)\<rparr>) w"
    using Suc assms(2) by (simp add: withCall_def pollCall_def waitOver_def MAX_RETRIES_def setCall_def)
  finally show ?case .
qed

lemma ended_polls:
  assumes "nw_calls w i = Some c" and "rq_phase c = Ended e"
  shows "fold nd_step (replicate n (Poll i)) w = w"
  using assms by (induction n) (simp_all add: withCall_def pollCall_def)

lemma waiting_fails:
  assumes "nw_calls w i = Some (c\<lparr>rq_phase := Waiting 0\<rparr>)" and "nw_shouldDelay w" and "\<not> nw_authSuccess w" and "5 \<le> n"
  shows "fold nd_step (replicate n (Poll i)) w =
    settle i (c\<lparr>rq_phase := Waiting 4\<rparr>) (Some Unauthorized) (setCall i (c\<lparr>rq_phase := Waiting 4\<rparr>) w)"
proof -
  let ?w4 = "setCall i (c\<lparr>rq_phase := Waiting 4\<rparr>) w"
  let ?w5 = "settle i (c\<lparr>rq_phase := Waiting 4\<rparr>) (Some Unauthorized) ?w4"
  have n: "replicate n (Poll i) = replicate 4 (Poll i) @ [Poll i] @ replicate (n - 5) (Poll i)"
    using assms(4) by (simp add: replicate_add [symmetric] replicate_Suc [symmetric] del: replicate.simps)
  have "nd_step (Poll i) ?w4 = ?w5"
    using assms(2,3) by (simp add: withCall_def pollCall_def waitOver_def MAX_RETRIES_def)
  moreover have "fold nd_step (replicate (n - 5) (Poll i)) ?w5 = ?w5"
    by (rule ended_polls [where c = "c\<lparr>rq_phase := Ended (Some Unauthorized)\<rparr>" and e = "Some Unauthorized"]) simp_all
  ultimately show ?thesis
    using waiting_polls [OF assms(1,2), of 4] unfolding n fold_append comp_apply by (simp del: nd_step.simps)
qed

text \<open>
  A token that is refused at once: the request waits for the login that it has made itself, until it has looked five
  times, and then fails; nothing else can end this wait but another request, and the failure is reported.
\<close>

theorem fresh_token_refused:
  assumes "nw_calls w i = Some c" and "rq_phase c = Sent" and "rq_chains c = []" and "\<not> nw_shouldDelay w" and "nw_desktop w"
    and "at_currentServer (nw_auth w) = Some s" and "servers_ok (nw_auth w)" and "as_savePassword s = Some True"
    and "w2 = fold nd_step (loginRun i p token salt t @ [Respond i (Erred Unauthorized), Password_read i (Password p')]
      @ replicate n (Poll i)) w"
  shows "map_option rq_phase (nw_calls w2 i) = Some (if n < 5 then Waiting n else Ended (Some Unauthorized))
    \<and> nw_shouldDelay w2 = (n < 5) \<and> nw_failing w2 = (if n < 5 then nw_failing w else Some (Some s))"
proof -
  define w1 where "w1 = fold nd_step (loginRun i p token salt t) w"
  note run = login_run [OF assms(1,2,4,5,6,8), of p token salt t, folded w1_def]
  let ?c = "c\<lparr>rq_chains := [s], rq_token := Some token\<rparr>"
  obtain s' where s': "at_currentServer (nw_auth w1) = Some s'" "as_savePassword s' = Some True"
    using loggedIn_server [OF assms(7,6), of token salt t] assms(8) by (auto simp: run)
  let ?ca = "?c\<lparr>rq_chains := [s', s], rq_phase := Asking\<rparr>"
  let ?wa = "setCall i ?ca w1"
  let ?wb = "setCall i (?ca\<lparr>rq_phase := Waiting 0\<rparr>) (?wa\<lparr>nw_authSuccess := False, nw_polls := Suc (nw_polls ?wa)\<rparr>)"
  have "nd_step (Respond i (Erred Unauthorized)) w1 = setCall i (?c\<lparr>rq_chains := s' # rq_chains ?c, rq_phase := Asking\<rparr>) w1"
    by (rule refused_asks) (use assms(2,3,5) s' in \<open>simp_all add: run\<close>)
  then have asks: "nd_step (Respond i (Erred Unauthorized)) w1 = ?wa" by simp
  have waiting: "nd_step (Password_read i (Password p')) ?wa = ?wb"
    by (rule password_waits) (simp_all add: run)
  have w2: "w2 = fold nd_step (replicate n (Poll i)) ?wb"
    unfolding assms(9) fold_append comp_apply w1_def [symmetric] by (simp only: fold.simps comp_apply id_apply asks waiting)
  have b: "nw_calls ?wb i = Some (?ca\<lparr>rq_phase := Waiting 0\<rparr>)" "nw_shouldDelay ?wb" "\<not> nw_authSuccess ?wb"
    "nw_failing ?wb = nw_failing w" by (simp_all add: run)
  show ?thesis
  proof (cases "n < 5")
    case True
    have "w2 = setCall i (?ca\<lparr>rq_phase := Waiting n\<rparr>) ?wb" unfolding w2 by (rule waiting_polls [OF b(1,2) True])
    with True b(2,4) show ?thesis by simp
  next
    case False
    then have "5 \<le> n" by simp
    have "w2 = settle i (?ca\<lparr>rq_phase := Waiting 4\<rparr>) (Some Unauthorized) (setCall i (?ca\<lparr>rq_phase := Waiting 4\<rparr>) ?wb)"
      unfolding w2 by (rule waiting_fails [OF b(1-3) \<open>5 \<le> n\<close>])
    with False show ?thesis by simp (simp add: settle_def closeChain_def limitedFail_def)
  qed
qed

section \<open>Flaws\<close>

definition loggingIn :: "nd_world \<Rightarrow> nat \<Rightarrow> bool" where
  "loggingIn w i \<longleftrightarrow> (case nw_calls w i of None \<Rightarrow> False | Some c \<Rightarrow> rq_phase c = Logging)"

text \<open>
  Logging in is meant to happen once, but a request that gives up waiting ends the delay although the login for which it
  has waited goes on: the next request that is refused logs in as well.
\<close>

definition exampleLogins :: "nd_event list" where
  "exampleLogins = map (\<lambda>i. Begin i (Some (exampleAuthServer ''a''))) [0, 1, 2]
     @ concat (map (\<lambda>i. [Respond i (Erred Unauthorized), Password_read i (Password ''pw'')]) [0, 1])
     @ replicate 5 (Poll 1) @ [Respond 2 (Erred Unauthorized), Password_read 2 (Password ''pw'')]"

theorem two_logins_at_once:
  "let w = fold nd_step exampleLogins (nd_idle True exampleAuth)
   in loggingIn w 0 \<and> loggingIn w 2 \<and> map_option rq_phase (nw_calls w 1) = Some (Ended (Some Unauthorized))"
  by code_simp

text \<open>
  A request that has waited for the login of another is sent again as it was, with the token that was refused: the
  token of the new session is only in the store.
\<close>

theorem waiting_request_keeps_old_token:
  assumes "nw_calls w i = Some c" and "rq_phase c = Waiting n" and "waitOver (Suc n) w" and "nw_authSuccess w"
  shows "map_option (\<lambda>c'. (rq_phase c', rq_token c')) (nw_calls (nd_step (Poll i) w) i) = Some (Sent, rq_token c)"
  using assms by (simp add: withCall_def pollCall_def)

section \<open>Examples\<close>

text \<open>One request that is sent, and two of which the second waits for the login of the first.\<close>

definition exampleSent :: nd_world where
  "exampleSent = nd_step (Begin 0 (Some (exampleAuthServer ''a''))) (nd_idle True exampleAuth)"

definition exampleWaiting :: nd_world where
  "exampleWaiting = fold nd_step (map (\<lambda>i. Begin i (Some (exampleAuthServer ''a''))) [0, 1]
     @ concat (map (\<lambda>i. [Respond i (Erred Unauthorized), Password_read i (Password ''pw'')]) [0, 1])) (nd_idle True exampleAuth)"

definition exampleSentCall :: nd_call where
  "exampleSentCall = \<lparr>rq_chains = [], rq_phase = Sent, rq_token = Some ''old''\<rparr>"

lemma example_sent [simp]:
  "nw_calls exampleSent 0 = Some exampleSentCall" "rq_phase exampleSentCall = Sent" "rq_chains exampleSentCall = []"
  "\<not> nw_shouldDelay exampleSent" "nw_desktop exampleSent" "nw_failing exampleSent = None" "nw_auth exampleSent = exampleAuth"
  "at_currentServer exampleAuth = Some (exampleAuthServer ''a'')" "as_id (exampleAuthServer k) = Some k"
  "as_savePassword (exampleAuthServer k) = Some True" "as_ndCredential (exampleAuthServer k) = Some ''old''"
  by (simp_all add: exampleSent_def exampleSentCall_def beginCall_def nd_idle_def exampleAuth_def exampleAuthServer_def
      setCurrentServer_def)

lemma delay_ends_with_requests_witness:
  "\<not> nw_shouldDelay (fold nd_step [Begin 0 None, Respond 0 (Answered None)] (nd_idle True exampleAuth))"
  by (rule delay_ends_with_requests [OF refl])
    (simp add: beginCall_def nd_idle_def withCall_def respondCall_def onAnswer_def Let_def ended_def truthy_def)

lemma waiting_ends_witness:
  "waitingTime 1 (fold nd_step (Poll 0 # replicate 5 (Poll 1)) exampleWaiting) = None"
proof -
  have "waitingTime 1 exampleWaiting = Some 0" by code_simp
  from waiting_ends [OF this, of "Poll 0 # replicate 5 (Poll 1)"] show ?thesis
    by (simp add: MAX_RETRIES_def del: fold.simps replicate.simps nd_step.simps) (simp add: numeral_eq_Suc)
qed


lemma fresh_token_refused_witness:
  "nw_failing (fold nd_step (loginRun 0 ''pw'' ''new'' ''salt'' ''t'' @ [Respond 0 (Erred Unauthorized),
     Password_read 0 (Password ''pw'')] @ replicate 5 (Poll 0)) exampleSent) = Some (Some (exampleAuthServer ''a''))"
proof -
  have ok: "servers_ok exampleAuth"
    by (simp add: servers_ok_def filed_ok_def exampleAuth_def exampleAuthServer_def setCurrentServer_def addServer_def
        initialAuth_def template_def)
  show ?thesis
    using fresh_token_refused [where w = exampleSent and i = 0 and c = exampleSentCall and s = "exampleAuthServer ''a''"
        and p = "''pw''" and token = "''new''" and salt = "''salt''" and t = "''t''" and p' = "''pw''" and n = 5,
        OF _ _ _ _ _ _ _ _ refl] ok
    by (simp del: fold.simps nd_step.simps fold_append)
qed

lemma waiting_request_keeps_old_token_witness:
  "let w = fold nd_step [Login_answer 0 (Logged_in ''new'' ''salt'' ''t''), Respond 0 (Answered None)] exampleWaiting
   in map_option (\<lambda>c'. (rq_phase c', rq_token c')) (nw_calls (nd_step (Poll 1) w) 1) = Some (Sent, Some ''old'')
      \<and> storedToken w = Some ''new''"
proof -
  let ?w = "fold nd_step [Login_answer 0 (Logged_in ''new'' ''salt'' ''t''), Respond 0 (Answered None)] exampleWaiting"
  have "waitOver 1 ?w" "nw_authSuccess ?w" "storedToken ?w = Some ''new''"
    "map_option (\<lambda>c. (rq_phase c, rq_token c)) (nw_calls ?w 1) = Some (Waiting 0, Some ''old'')" by code_simp+
  moreover from this obtain c where "nw_calls ?w 1 = Some c" "rq_phase c = Waiting 0" "rq_token c = Some ''old''" by auto
  ultimately show ?thesis using waiting_request_keeps_old_token [of ?w 1 c 0] by (simp add: Let_def del: fold.simps nd_step.simps)
qed

end
