(* ===== verification/EnvSettings.thy ===== *)
theory EnvSettings
  imports SubsonicNormalize JsArrays
begin

text \<open>
  Settings that are given by the environment, as texts in the global object (\<^verbatim>\<open>store/env-settings-overrides.ts\<close>): the table
  of the variables, how their texts are read, and the object of overrides that comes out of it.
\<close>

section \<open>Values\<close>

text \<open>What JSON can express; undefined is None.\<close>

datatype json = J_null | J_bool bool | J_num rat | J_text string | J_array "json list" | J_object "json obj"

text \<open>\<open>JSON.parse\<close>, which throws on a text that is not JSON, and the sanitizer of style sheets.\<close>

record env_lib =
  el_parse :: "string \<Rightarrow> json option"
  el_sanitizeCss :: "string \<Rightarrow> string"

section \<open>Numbers in texts\<close>

text \<open>The digits at the beginning of a text, and what follows them.\<close>

definition digitsOf :: "(char \<Rightarrow> bool) \<Rightarrow> string \<Rightarrow> string \<times> string" where
  "digitsOf p s = (takeWhile p s, dropWhile p s)"

text \<open>An exponent, at which a number ends.\<close>

definition signOf :: "string \<Rightarrow> int \<times> string" where
  "signOf s = (case s of [] \<Rightarrow> (1, []) | c # r \<Rightarrow> if c = CHR ''-'' then (-1, r) else if c = CHR ''+'' then (1, r) else (1, s))"

definition exponentOf :: "string \<Rightarrow> int option" where
  "exponentOf s =
     (case s of
        [] \<Rightarrow> Some 0
      | c # r \<Rightarrow>
          let (sign, ds) = signOf r
          in if (c = CHR ''e'' \<or> c = CHR ''E'') \<and> ds \<noteq> [] \<and> list_all isDigit ds then Some (sign * int (numberOf ds)) else None)"

definition tenTo :: "int \<Rightarrow> rat" where
  "tenTo e = (if e < 0 then 1 / 10 ^ nat (- e) else 10 ^ nat e)"

definition unsignedDecimal :: "string \<Rightarrow> rat option" where
  "unsignedDecimal s =
     (let (whole, r) = digitsOf isDigit s;
          (fraction0, r') = (case r of [] \<Rightarrow> ([], []) | c # t \<Rightarrow> if c = CHR ''.'' then digitsOf isDigit t else ([], r))
      in if whole = [] \<and> fraction0 = [] then None
         else map_option (\<lambda>e. of_nat (numberOf (whole @ fraction0)) * tenTo (e - int (length fraction0))) (exponentOf r'))"

text \<open>The digits of a number to another base, after a zero and its letter.\<close>

definition hexValue :: "char \<Rightarrow> nat option" where
  "hexValue c =
     (let n = of_char c :: nat
      in if 48 \<le> n \<and> n \<le> 57 then Some (n - 48)
         else if 97 \<le> n \<and> n \<le> 102 then Some (n - 87)
         else if 65 \<le> n \<and> n \<le> 70 then Some (n - 55) else None)"

definition based :: "nat \<Rightarrow> string \<Rightarrow> rat option" where
  "based base s =
     (if s \<noteq> [] \<and> list_all (\<lambda>c. case hexValue c of None \<Rightarrow> False | Some d \<Rightarrow> d < base) s
      then Some (of_nat (foldl (\<lambda>n c. base * n + nullish_or (hexValue c) 0) 0 s)) else None)"

text \<open>
  The number that a text denotes when \<open>Number\<close> reads it, before it is rounded to a double; a blank text is zero. \<open>Infinity\<close>
  is none, and a number from \<open>doubleRange\<close> on is rounded to it.
\<close>

definition jsNumber :: "string \<Rightarrow> rat option" where
  "jsNumber s =
     (let t = trim s; (sign, r) = signOf t
      in if t = [] then Some 0
         else if take 2 t \<in> {''0x'', ''0X''} then based 16 (drop 2 t)
         else if take 2 t \<in> {''0o'', ''0O''} then based 8 (drop 2 t)
         else if take 2 t \<in> {''0b'', ''0B''} then based 2 (drop 2 t)
         else map_option (\<lambda>x. of_int sign * x) (unsignedDecimal r))"

section \<open>Reading a variable\<close>

text \<open>The letters that matter are those of \<open>true\<close> and \<open>false\<close>; no letter beyond ASCII has one of them as its lower case.\<close>

definition asciiLower :: "string \<Rightarrow> string" where
  "asciiLower s = map (\<lambda>c. let n = of_char c :: nat in if 65 \<le> n \<and> n \<le> 90 then char_of (n + 32) else c) s"

definition parseBool :: "string option \<Rightarrow> bool option" where
  "parseBool s =
     (if \<not> truthy s then None
      else let lower = asciiLower (the s)
           in if lower = ''true'' \<or> lower = ''1'' then Some True
              else if lower = ''false'' \<or> lower = ''0'' then Some False else None)"

definition parseEnum :: "string option \<Rightarrow> string list \<Rightarrow> string option" where
  "parseEnum s allowed =
     (if \<not> truthy s then None else let v = trim (the s) in if v \<in> set allowed then Some v else None)"

definition doubleRange :: rat where "doubleRange = 2 ^ 1024 - 2 ^ 970"

definition isFinite :: "rat \<Rightarrow> bool" where "isFinite n \<longleftrightarrow> - doubleRange < n \<and> n < doubleRange"

definition parseNum :: "string option \<Rightarrow> rat option" where
  "parseNum s =
     (if \<not> truthy s then None
      else Option.bind (jsNumber (the s)) (\<lambda>n. if isFinite n then Some n else None))"

definition isUnsubstitutedPlaceholder :: "string \<Rightarrow> bool" where
  "isUnsubstitutedPlaceholder s \<longleftrightarrow> length s > 0 \<and> take 5 s = ''${FS_'' \<and> s \<noteq> [] \<and> last s = CHR ''}''"

section \<open>The transformations\<close>

text \<open>A colour: three numbers of one to three digits, with blanks around them.\<close>

definition rgbPart :: "char \<Rightarrow> string \<Rightarrow> string option" where
  "rgbPart sep s =
     (let (ds, r) = digitsOf isDigit (dropWhile isWhite s); t = dropWhile isWhite r
      in if 1 \<le> length ds \<and> length ds \<le> 3 \<and> t \<noteq> [] \<and> hd t = sep then Some (tl t) else None)"

definition isRgb :: "string \<Rightarrow> bool" where
  "isRgb s \<longleftrightarrow> take 4 s = ''rgb('' \<and>
     Option.bind (Option.bind (rgbPart (CHR '','') (drop 4 s)) (rgbPart (CHR '',''))) (rgbPart (CHR '')'')) = Some []"

definition accentOf :: "string \<Rightarrow> json option" where
  "accentOf s = (if isRgb s then Some (J_text s) else None)"

definition roundedBetween :: "int \<Rightarrow> string \<Rightarrow> json option" where
  "roundedBetween high s = map_option (\<lambda>n. J_num (of_int (min high (max 0 (floor (n + 1 / 2)))))) (parseNum (Some s))"

definition cssOf :: "env_lib \<Rightarrow> string \<Rightarrow> json option" where
  "cssOf L s = (if trim s = '''' then None else Some (J_text (el_sanitizeCss L (''<style>'' @ s))))"

definition systemFont :: "string \<Rightarrow> json option" where
  "systemFont s = Some (if s = '''' then J_null else J_text s)"

definition isValidPlayerFilterValue :: "json option \<Rightarrow> bool" where
  "isValidPlayerFilterValue value =
     (case value of
        Some (J_text s) \<Rightarrow> True
      | Some (J_num n) \<Rightarrow> True
      | Some (J_bool b) \<Rightarrow> True
      | Some (J_array vs) \<Rightarrow> list_all (\<lambda>v. case v of J_text s \<Rightarrow> True | J_num n \<Rightarrow> True | _ \<Rightarrow> False) vs
      | _ \<Rightarrow> False)"

definition textIn :: "string list \<Rightarrow> json option \<Rightarrow> bool" where
  "textIn allowed x = (case x of Some (J_text s) \<Rightarrow> s \<in> set allowed | _ \<Rightarrow> False)"

definition PLAYER_FILTER_FIELDS :: "string list" where
  "PLAYER_FILTER_FIELDS = [''albumArtist'', ''artist'', ''duration'', ''favorite'', ''genre'', ''name'', ''note'', ''path'',
     ''playCount'', ''rating'', ''year'']"

definition PLAYER_FILTER_OPERATORS :: "string list" where
  "PLAYER_FILTER_OPERATORS = [''after'', ''afterDate'', ''before'', ''beforeDate'', ''contains'', ''endsWith'', ''gt'', ''inTheLast'',
     ''inTheRange'', ''inTheRangeDate'', ''is'', ''isNot'', ''lt'', ''notContains'', ''notInTheLast'',
     ''regex'', ''startsWith'']"

definition APP_THEMES :: "string list" where
  "APP_THEMES = [''ayuDark'', ''ayuLight'', ''catppuccinLatte'', ''catppuccinMocha'', ''defaultDark'', ''defaultLight'',
     ''dracula'', ''everforestDark'', ''everforestLight'', ''githubDark'', ''githubLight'', ''glassyDark'',
     ''gruvboxDark'', ''gruvboxLight'', ''highContrastDark'', ''highContrastLight'', ''materialDark'',
     ''materialLight'', ''monokai'', ''nightOwl'', ''nord'', ''oneDark'', ''rosePine'', ''rosePineDawn'',
     ''rosePineMoon'', ''shadesOfPurple'', ''solarizedDark'', ''solarizedLight'', ''tokyoNight'',
     ''vscodeDarkPlus'', ''vscodeLightPlus'']"

definition DISCORD_DISPLAY_TYPES :: "string list" where
  "DISCORD_DISPLAY_TYPES = [''artist'', ''feishin'', ''song'']"

definition DISCORD_LINK_TYPES :: "string list" where
  "DISCORD_LINK_TYPES = [''last_fm'', ''musicbrainz'', ''musicbrainz_last_fm'', ''none'']"

definition LYRICS_ALIGNMENTS :: "string list" where
  "LYRICS_ALIGNMENTS = [''center'', ''left'', ''right'']"

definition FONT_TYPES :: "string list" where
  "FONT_TYPES = [''builtIn'', ''custom'', ''system'']"

definition HOME_FEATURE_STYLES :: "string list" where
  "HOME_FEATURE_STYLES = [''multiple'', ''single'']"

definition SIDE_QUEUE_TYPES :: "string list" where
  "SIDE_QUEUE_TYPES = [''sideDrawerQueue'', ''sideQueue'']"

definition SIDE_QUEUE_LAYOUTS :: "string list" where
  "SIDE_QUEUE_LAYOUTS = [''horizontal'', ''vertical'']"

definition SIDEBAR_PLAYLIST_FOLDER_VIEWS :: "string list" where
  "SIDEBAR_PLAYLIST_FOLDER_VIEWS = [''navigation'', ''single'', ''tree'']"

definition SIDEBAR_PLAYLIST_MODES :: "string list" where
  "SIDEBAR_PLAYLIST_MODES = [''compact'', ''expanded'']"

definition AUTO_DJ_MODES :: "string list" where
  "AUTO_DJ_MODES = [''albums'', ''songs'']"

definition AUTO_DJ_STRATEGIES :: "string list" where
  "AUTO_DJ_STRATEGIES = [''library_random'', ''similar'']"

definition isValidPlayerFilter :: "json \<Rightarrow> bool" where
  "isValidPlayerFilter item =
     (case item of
        J_object m \<Rightarrow>
          (case map_of m ''id'' of Some (J_text s) \<Rightarrow> True | _ \<Rightarrow> False)
          \<and> textIn PLAYER_FILTER_FIELDS (map_of m ''field'') \<and> textIn PLAYER_FILTER_OPERATORS (map_of m ''operator'')
          \<and> isValidPlayerFilterValue (map_of m ''value'')
          \<and> (case map_of m ''isEnabled'' of None \<Rightarrow> True | Some (J_bool b) \<Rightarrow> True | _ \<Rightarrow> False)
      | _ \<Rightarrow> False)"

definition parsePlaybackFiltersJson :: "env_lib \<Rightarrow> string \<Rightarrow> json option" where
  "parsePlaybackFiltersJson L raw =
     (if trim raw = '''' then None
      else case el_parse L (trim raw) of
        Some (J_array items) \<Rightarrow> if list_all isValidPlayerFilter items then Some (J_array items) else None
      | _ \<Rightarrow> None)"

section \<open>The table\<close>

datatype env_type = Env_bool | Env_enum | Env_num | Env_string

record env_spec =
  es_enumSet :: "string list option"
  es_key :: string
  es_path :: "string list"
  es_skipIfEmpty :: bool
  es_transform :: "(string \<Rightarrow> json option) option"
  es_type :: env_type

definition ofType :: "env_type \<Rightarrow> string \<Rightarrow> string list \<Rightarrow> env_spec" where
  "ofType t k path =
     \<lparr>es_enumSet = None, es_key = k, es_path = path, es_skipIfEmpty = False, es_transform = None, es_type = t\<rparr>"

definition ofEnum :: "string list \<Rightarrow> string \<Rightarrow> string list \<Rightarrow> env_spec" where
  "ofEnum allowed k path = (ofType Env_enum k path)\<lparr>es_enumSet := Some allowed\<rparr>"

definition notEmpty :: "string \<Rightarrow> string list \<Rightarrow> env_spec" where
  "notEmpty k path = (ofType Env_string k path)\<lparr>es_skipIfEmpty := True\<rparr>"

definition transformed :: "(string \<Rightarrow> json option) \<Rightarrow> string \<Rightarrow> string list \<Rightarrow> env_type \<Rightarrow> env_spec" where
  "transformed f k path t = (ofType t k path)\<lparr>es_transform := Some f\<rparr>"

definition appearanceSpecs :: "env_spec list" where
  "appearanceSpecs =
     [transformed accentOf ''FS_GENERAL_ACCENT'' [''general'', ''accent''] Env_string,
      ofType Env_bool ''FS_GENERAL_ALBUM_BACKGROUND'' [''general'', ''albumBackground''],
      ofType Env_num ''FS_GENERAL_ALBUM_BACKGROUND_BLUR'' [''general'', ''albumBackgroundBlur''],
      ofType Env_bool ''FS_GENERAL_ARTIST_BACKGROUND'' [''general'', ''artistBackground''],
      ofType Env_num ''FS_GENERAL_ARTIST_BACKGROUND_BLUR'' [''general'', ''artistBackgroundBlur''],
      ofType Env_bool ''FS_GENERAL_BLUR_EXPLICIT_IMAGES'' [''general'', ''blurExplicitImages''],
      ofType Env_bool ''FS_GENERAL_COMBINED_LYRICS_AND_VISUALIZER'' [''general'', ''combinedLyricsAndVisualizer''],
      ofType Env_bool ''FS_GENERAL_ENABLE_GRID_MULTI_SELECT'' [''general'', ''enableGridMultiSelect''],
      ofType Env_bool ''FS_GENERAL_FOLLOW_CURRENT_SONG'' [''general'', ''followCurrentSong''],
      ofType Env_bool ''FS_GENERAL_HOME_FEATURE'' [''general'', ''homeFeature''],
      ofEnum HOME_FEATURE_STYLES ''FS_GENERAL_HOME_FEATURE_STYLE'' [''general'', ''homeFeatureStyle''],
      notEmpty ''FS_GENERAL_LANGUAGE'' [''general'', ''language''],
      transformed (roundedBetween 9) ''FS_GENERAL_PRIMARY_SHADE'' [''general'', ''primaryShade''] Env_num,
      ofEnum APP_THEMES ''FS_GENERAL_THEME'' [''general'', ''theme''],
      ofEnum APP_THEMES ''FS_GENERAL_THEME_DARK'' [''general'', ''themeDark''],
      ofEnum APP_THEMES ''FS_GENERAL_THEME_LIGHT'' [''general'', ''themeLight''],
      ofType Env_bool ''FS_GENERAL_FOLLOW_SYSTEM_THEME'' [''general'', ''followSystemTheme''],
      ofType Env_string ''FS_GENERAL_PATH_REPLACE'' [''general'', ''pathReplace''],
      ofType Env_string ''FS_GENERAL_PATH_REPLACE_WITH'' [''general'', ''pathReplaceWith''],
      ofType Env_string ''FS_GENERAL_LASTFM_API_KEY'' [''general'', ''lastfmApiKey''],
      ofType Env_bool ''FS_GENERAL_LAST_FM'' [''general'', ''lastFM''],
      ofType Env_bool ''FS_GENERAL_LISTEN_BRAINZ'' [''general'', ''listenBrainz''],
      ofType Env_bool ''FS_GENERAL_MUSIC_BRAINZ'' [''general'', ''musicBrainz''],
      ofType Env_bool ''FS_GENERAL_QOBUZ'' [''general'', ''qobuz''],
      ofType Env_bool ''FS_GENERAL_SPOTIFY'' [''general'', ''spotify''],
      ofType Env_bool ''FS_GENERAL_SPOTIFY_NATIVE_APP'' [''general'', ''nativeSpotify''],
      ofType Env_bool ''FS_GENERAL_NATIVE_ASPECT_RATIO'' [''general'', ''nativeAspectRatio''],
      ofType Env_bool ''FS_GENERAL_PLAYERBAR_OPEN_DRAWER'' [''general'', ''playerbarOpenDrawer''],
      ofType Env_bool ''FS_GENERAL_EXTERNAL_LINKS'' [''general'', ''externalLinks'']]"

definition layoutSpecs :: "env_spec list" where
  "layoutSpecs =
     [ofType Env_bool ''FS_GENERAL_SHOW_LYRICS_IN_SIDEBAR'' [''general'', ''showLyricsInSidebar''],
      ofType Env_bool ''FS_GENERAL_SHOW_RATINGS'' [''general'', ''showRatings''],
      ofType Env_bool ''FS_GENERAL_SHOW_VISUALIZER_IN_SIDEBAR'' [''general'', ''showVisualizerInSidebar''],
      ofType Env_bool ''FS_GENERAL_SIDEBAR_COLLAPSED_NAVIGATION'' [''general'', ''sidebarCollapsedNavigation''],
      ofType Env_bool ''FS_GENERAL_SIDEBAR_COLLAPSE_SHARED'' [''general'', ''sidebarCollapseShared''],
      ofType Env_bool ''FS_GENERAL_SIDEBAR_PLAYLIST_FOLDERS'' [''general'', ''sidebarPlaylistFolders''],
      notEmpty ''FS_GENERAL_SIDEBAR_PLAYLIST_FOLDER_SEPARATOR'' [''general'', ''sidebarPlaylistFolderSeparator''],
      transformed (roundedBetween 64) ''FS_GENERAL_SIDEBAR_PLAYLIST_FOLDER_TREE_INDENT'' [''general'', ''sidebarPlaylistFolderTreeIndent''] Env_num,
      ofType Env_string ''FS_GENERAL_SIDEBAR_PLAYLIST_FOLDER_TREE_LINE_COLOR'' [''general'', ''sidebarPlaylistFolderTreeLineColor''],
      ofEnum SIDEBAR_PLAYLIST_FOLDER_VIEWS ''FS_GENERAL_SIDEBAR_PLAYLIST_FOLDER_VIEW'' [''general'', ''sidebarPlaylistFolderView''],
      ofType Env_bool ''FS_GENERAL_SIDEBAR_PLAYLIST_LIST'' [''general'', ''sidebarPlaylistList''],
      ofEnum SIDEBAR_PLAYLIST_MODES ''FS_GENERAL_SIDEBAR_PLAYLIST_MODE'' [''general'', ''sidebarPlaylistMode''],
      ofType Env_bool ''FS_GENERAL_SIDEBAR_PLAYLIST_SORTING'' [''general'', ''sidebarPlaylistSorting''],
      ofEnum SIDE_QUEUE_TYPES ''FS_GENERAL_SIDE_QUEUE_TYPE'' [''general'', ''sideQueueType''],
      ofEnum SIDE_QUEUE_LAYOUTS ''FS_GENERAL_SIDE_QUEUE_LAYOUT'' [''general'', ''sideQueueLayout''],
      ofType Env_bool ''FS_GENERAL_RESUME'' [''general'', ''resume''],
      ofType Env_bool ''FS_GENERAL_USE_THEME_ACCENT_COLOR'' [''general'', ''useThemeAccentColor''],
      ofType Env_bool ''FS_GENERAL_USE_THEME_PRIMARY_SHADE'' [''general'', ''useThemePrimaryShade''],
      ofType Env_num ''FS_GENERAL_ZOOM_FACTOR'' [''general'', ''zoomFactor'']]"

definition playbackSpecs :: "env_lib \<Rightarrow> env_spec list" where
  "playbackSpecs L =
     [ofType Env_bool ''FS_PLAYBACK_MEDIA_SESSION'' [''playback'', ''mediaSession''],
      ofType Env_bool ''FS_PLAYBACK_WEB_AUDIO'' [''playback'', ''webAudio''],
      ofType Env_bool ''FS_PLAYBACK_AUDIO_FADE_ON_STATUS_CHANGE'' [''playback'', ''audioFadeOnStatusChange''],
      ofType Env_bool ''FS_PLAYBACK_PRESERVE_PITCH'' [''playback'', ''preservePitch''],
      ofType Env_bool ''FS_PLAYBACK_SCROBBLE_ENABLED'' [''playback'', ''scrobble'', ''enabled''],
      ofType Env_bool ''FS_PLAYBACK_SCROBBLE_NOTIFY'' [''playback'', ''scrobble'', ''notify''],
      ofType Env_num ''FS_PLAYBACK_SCROBBLE_AT_DURATION'' [''playback'', ''scrobble'', ''scrobbleAtDuration''],
      ofType Env_num ''FS_PLAYBACK_SCROBBLE_AT_PERCENTAGE'' [''playback'', ''scrobble'', ''scrobbleAtPercentage''],
      ofType Env_bool ''FS_PLAYBACK_TRANSCODE_ENABLED'' [''playback'', ''transcode'', ''enabled''],
      notEmpty ''FS_PLAYBACK_TRANSCODE_FORMAT'' [''playback'', ''transcode'', ''format''],
      ofType Env_num ''FS_PLAYBACK_TRANSCODE_BITRATE'' [''playback'', ''transcode'', ''bitrate''],
      transformed (parsePlaybackFiltersJson L) ''FS_PLAYBACK_FILTERS'' [''playback'', ''filters''] Env_string]"

definition discordSpecs :: "env_spec list" where
  "discordSpecs =
     [ofType Env_bool ''FS_DISCORD_ENABLED'' [''discord'', ''enabled''],
      notEmpty ''FS_DISCORD_CLIENT_ID'' [''discord'', ''clientId''],
      ofEnum DISCORD_DISPLAY_TYPES ''FS_DISCORD_DISPLAY_TYPE'' [''discord'', ''displayType''],
      ofEnum DISCORD_LINK_TYPES ''FS_DISCORD_LINK_TYPE'' [''discord'', ''linkType''],
      ofType Env_bool ''FS_DISCORD_SHOW_AS_LISTENING'' [''discord'', ''showAsListening''],
      ofType Env_bool ''FS_DISCORD_SHOW_PAUSED'' [''discord'', ''showPaused''],
      ofType Env_bool ''FS_DISCORD_SHOW_SERVER_IMAGE'' [''discord'', ''showServerImage''],
      ofType Env_bool ''FS_DISCORD_SHOW_STATE_ICON'' [''discord'', ''showStateIcon'']]"

definition lyricsSpecs :: "env_spec list" where
  "lyricsSpecs =
     [ofType Env_bool ''FS_LYRICS_FETCH'' [''lyrics'', ''fetch''],
      ofType Env_bool ''FS_LYRICS_FOLLOW'' [''lyrics'', ''follow''],
      ofType Env_num ''FS_LYRICS_DELAY_MS'' [''lyrics'', ''delayMs''],
      ofType Env_bool ''FS_LYRICS_PREFER_LOCAL'' [''lyrics'', ''preferLocalLyrics''],
      ofType Env_bool ''FS_LYRICS_SHOW_MATCH'' [''lyrics'', ''showMatch''],
      ofType Env_bool ''FS_LYRICS_SHOW_PROVIDER'' [''lyrics'', ''showProvider''],
      ofType Env_bool ''FS_LYRICS_ENABLE_AUTO_TRANSLATION'' [''lyrics'', ''enableAutoTranslation''],
      ofType Env_string ''FS_LYRICS_TRANSLATION_API_KEY'' [''lyrics'', ''translationApiKey''],
      notEmpty ''FS_LYRICS_TRANSLATION_TARGET_LANGUAGE'' [''lyrics'', ''translationTargetLanguage''],
      ofEnum LYRICS_ALIGNMENTS ''FS_LYRICS_ALIGNMENT'' [''lyrics'', ''alignment'']]"

definition autoDjSpecs :: "env_spec list" where
  "autoDjSpecs =
     [ofEnum AUTO_DJ_STRATEGIES ''FS_AUTO_DJ_ALBUM_STRATEGY'' [''autoDJ'', ''albumStrategy''],
      ofType Env_bool ''FS_AUTO_DJ_ENABLED'' [''autoDJ'', ''enabled''],
      ofType Env_num ''FS_AUTO_DJ_ITEM_COUNT'' [''autoDJ'', ''itemCount''],
      ofEnum AUTO_DJ_MODES ''FS_AUTO_DJ_MODE'' [''autoDJ'', ''mode''],
      ofEnum AUTO_DJ_STRATEGIES ''FS_AUTO_DJ_SONG_STRATEGY'' [''autoDJ'', ''songStrategy''],
      ofType Env_num ''FS_AUTO_DJ_TIMING'' [''autoDJ'', ''timing'']]"

definition styleSpecs :: "env_lib \<Rightarrow> env_spec list" where
  "styleSpecs L =
     [transformed (cssOf L) ''FS_CSS_CONTENT'' [''css'', ''content''] Env_string,
      ofType Env_bool ''FS_CSS_ENABLED'' [''css'', ''enabled''],
      ofEnum FONT_TYPES ''FS_FONT_TYPE'' [''font'', ''type''],
      notEmpty ''FS_FONT_BUILT_IN'' [''font'', ''builtIn''],
      transformed systemFont ''FS_FONT_SYSTEM'' [''font'', ''system''] Env_string]"

definition ENV_SETTING_SPECS :: "env_lib \<Rightarrow> env_spec list" where
  "ENV_SETTING_SPECS L =
     appearanceSpecs @ layoutSpecs @ playbackSpecs L @ discordSpecs @ lyricsSpecs @ autoDjSpecs @ styleSpecs L"

lemmas env_specs = ENV_SETTING_SPECS_def appearanceSpecs_def layoutSpecs_def playbackSpecs_def discordSpecs_def lyricsSpecs_def autoDjSpecs_def styleSpecs_def

definition parseValue :: "string option \<Rightarrow> env_spec \<Rightarrow> json option" where
  "parseValue raw0 spec =
     (case raw0 of
        None \<Rightarrow> None
      | Some raw \<Rightarrow>
          (case es_transform spec of
             Some f \<Rightarrow> f raw
           | None \<Rightarrow>
               (case es_type spec of
                  Env_bool \<Rightarrow> map_option J_bool (parseBool (Some raw))
                | Env_enum \<Rightarrow> Option.bind (es_enumSet spec) (\<lambda>allowed. map_option J_text (parseEnum (Some raw) allowed))
                | Env_num \<Rightarrow> map_option J_num (parseNum (Some raw))
                | Env_string \<Rightarrow> if es_skipIfEmpty spec \<and> raw = '''' then None else Some (J_text raw))))"

section \<open>The overrides\<close>

text \<open>A value is put at a path of keys; what is on the way and is no object is replaced by one.\<close>

fun setAt :: "string list \<Rightarrow> json \<Rightarrow> json obj \<Rightarrow> json obj" where
  "setAt [] v m = m"
| "setAt [k] v m = AList.update k v m"
| "setAt (k # ks) v m = AList.update k (J_object (setAt ks v (case map_of m k of Some (J_object x) \<Rightarrow> x | _ \<Rightarrow> []))) m"

definition setAtPath :: "json obj \<Rightarrow> string list \<Rightarrow> json \<Rightarrow> json obj" where
  "setAtPath m path v = (if length path < 2 then m else setAt path v m)"

text \<open>The global object has texts and other values, which do not count.\<close>

definition envText :: "(string \<Rightarrow> string option) \<Rightarrow> string \<Rightarrow> string option" where
  "envText w k = (case w k of None \<Rightarrow> None | Some v \<Rightarrow> if isUnsubstitutedPlaceholder v then None else Some v)"

definition addOverride :: "(string \<Rightarrow> string option) \<Rightarrow> env_spec \<Rightarrow> json obj \<Rightarrow> json obj" where
  "addOverride w spec overrides =
     (case parseValue (envText w (es_key spec)) spec of None \<Rightarrow> overrides | Some v \<Rightarrow> setAtPath overrides (es_path spec) v)"

definition getEnvSettingsOverrides :: "env_lib \<Rightarrow> (string \<Rightarrow> string option) \<Rightarrow> json obj" where
  "getEnvSettingsOverrides L w = fold (addOverride w) (ENV_SETTING_SPECS L) []"

section \<open>Each variable sets what it names\<close>

fun getAt :: "string list \<Rightarrow> json obj \<Rightarrow> json option" where
  "getAt [] m = None"
| "getAt [k] m = map_of m k"
| "getAt (k # ks) m = (case map_of m k of Some (J_object x) \<Rightarrow> getAt ks x | _ \<Rightarrow> None)"

text \<open>Two paths of which neither leads through the other.\<close>

fun apart :: "string list \<Rightarrow> string list \<Rightarrow> bool" where
  "apart (a # as) (b # bs) \<longleftrightarrow> a \<noteq> b \<or> apart as bs"
| "apart _ _ \<longleftrightarrow> False"

lemma getAt_Cons: "ks \<noteq> [] \<Longrightarrow> getAt (k # ks) m = (case map_of m k of Some (J_object x) \<Rightarrow> getAt ks x | _ \<Rightarrow> None)"
  by (cases ks) (simp_all split: option.split json.split)

lemma setAt_Cons:
  "ks \<noteq> [] \<Longrightarrow> setAt (k # ks) v m = AList.update k (J_object (setAt ks v (case map_of m k of Some (J_object x) \<Rightarrow> x | _ \<Rightarrow> []))) m"
  by (cases ks) simp_all

lemma get_set_same: "p \<noteq> [] \<Longrightarrow> getAt p (setAt p v m) = Some v"
proof (induction p arbitrary: m)
  case (Cons k ks)
  then show ?case by (cases "ks = []") (simp_all add: getAt_Cons setAt_Cons update_conv')
qed simp

lemma getAt_empty: "getAt p [] = None"
  by (cases "(p, [] :: json obj)" rule: getAt.cases) simp_all

lemma apart_not_Nil: "apart p q \<Longrightarrow> p \<noteq> [] \<and> q \<noteq> []"
  by (cases "(p, q)" rule: apart.cases) simp_all

lemma apart_sym: "apart p q \<Longrightarrow> apart q p"
  by (induction p q rule: apart.induct) auto

lemma get_set_apart: "apart p q \<Longrightarrow> getAt p (setAt q v m) = getAt p m"
proof (induction p arbitrary: q m)
  case (Cons a as)
  then obtain b bs where q: "q = b # bs" using apart_not_Nil [OF Cons.prems] by (cases q) auto
  show ?case
  proof (cases "a = b")
    case False
    then show ?thesis unfolding q by (cases "as = []"; cases "bs = []") (simp_all add: getAt_Cons setAt_Cons update_conv')
  next
    case True
    with Cons.prems q have ab: "apart as bs" by simp
    have ih: "getAt as (setAt bs v x) = getAt as x" for x by (rule Cons.IH [OF ab])
    from apart_not_Nil [OF ab] True show ?thesis unfolding q
      by (simp add: getAt_Cons setAt_Cons update_conv' ih getAt_empty split: option.split json.split)
  qed
qed simp

definition override :: "(string \<Rightarrow> string option) \<Rightarrow> env_spec \<Rightarrow> json option" where
  "override w spec = parseValue (envText w (es_key spec)) spec"

lemma override_apart: "apart p (es_path spec) \<Longrightarrow> getAt p (addOverride w spec m) = getAt p m"
  by (simp add: addOverride_def setAtPath_def get_set_apart split: option.split)

lemma override_same: "2 \<le> length (es_path spec) \<Longrightarrow> getAt (es_path spec) (addOverride w spec m) =
    (case override w spec of None \<Rightarrow> getAt (es_path spec) m | Some v \<Rightarrow> Some v)"
  by (auto simp: addOverride_def override_def setAtPath_def split: option.split intro!: get_set_same)

lemma overrides_apart:
  "list_all (\<lambda>s. apart p (es_path s)) specs \<Longrightarrow> getAt p (fold (addOverride w) specs m) = getAt p m"
  by (induction specs arbitrary: m) (simp_all add: override_apart)

lemma overrides_same:
  assumes "sorted_wrt (\<lambda>s t. apart (es_path s) (es_path t)) specs" and "list_all (\<lambda>s. 2 \<le> length (es_path s)) specs"
    and "spec \<in> set specs"
  shows "getAt (es_path spec) (fold (addOverride w) specs m) =
    (case override w spec of None \<Rightarrow> getAt (es_path spec) m | Some v \<Rightarrow> Some v)"
  using assms
proof (induction specs arbitrary: m)
  case (Cons s specs)
  show ?case
  proof (cases "spec = s")
    case True
    with Cons.prems(1) have "list_all (\<lambda>t. apart (es_path spec) (es_path t)) specs" by (simp add: list_all_iff)
    with Cons.prems(2) True show ?thesis by (simp add: overrides_apart override_same split: option.split)
  next
    case False
    with Cons.prems have "apart (es_path spec) (es_path s)" "spec \<in> set specs" by (auto intro: apart_sym)
    with Cons show ?thesis by (simp add: override_apart split: option.split)
  qed
qed simp

lemma spec_paths: "sorted_wrt apart (map es_path (ENV_SETTING_SPECS L))"
proof -
  have "map es_path (ENV_SETTING_SPECS L) = map es_path (ENV_SETTING_SPECS \<lparr>el_parse = \<lambda>_. None, el_sanitizeCss = id\<rparr>)"
    by (simp add: env_specs ofType_def ofEnum_def notEmpty_def transformed_def)
  moreover have "sorted_wrt apart (map es_path (ENV_SETTING_SPECS \<lparr>el_parse = \<lambda>_. None, el_sanitizeCss = id\<rparr>))"
    by code_simp
  ultimately show ?thesis by simp
qed

lemma spec_lengths: "list_all (\<lambda>s. 2 \<le> length (es_path s)) (ENV_SETTING_SPECS L)"
  by (simp add: env_specs ofType_def ofEnum_def notEmpty_def transformed_def)

lemma overrides_of_spec:
  assumes "spec \<in> set (ENV_SETTING_SPECS L)"
  shows "getAt (es_path spec) (getEnvSettingsOverrides L w) = override w spec"
proof -
  have "sorted_wrt (\<lambda>s t. apart (es_path s) (es_path t)) (ENV_SETTING_SPECS L)"
    using spec_paths [of L] by (simp add: sorted_wrt_map)
  from overrides_same [OF this spec_lengths assms] show ?thesis
    by (simp add: getEnvSettingsOverrides_def getAt_empty split: option.split)
qed

text \<open>
  The name of a variable, from the path it sets: the keys, which have letters only, in capitals with the words apart; but
  for four variables, which are named otherwise.
\<close>

definition isCapital :: "char \<Rightarrow> bool" where
  "isCapital c \<longleftrightarrow> digit6 c \<and> \<not> digit5 c"

fun inCapitals :: "bool \<Rightarrow> string \<Rightarrow> string" where
  "inCapitals inWord [] = []"
| "inCapitals inWord (c # cs) =
     (if isCapital c \<and> inWord then ''_'' else [])
     @ [Char (digit0 c) (digit1 c) (digit2 c) (digit3 c) (digit4 c) (digit5 c \<and> \<not> digit6 c) (digit6 c) (digit7 c)]
     @ inCapitals (\<not> isCapital c) cs"

definition variableName :: "string list \<Rightarrow> string" where
  "variableName path = ''FS'' @ concat (map (\<lambda>k. CHR ''_'' # inCapitals False k) path)"

definition renamedVariables :: "(string \<times> string list) list" where
  "renamedVariables =
     [(''FS_GENERAL_SPOTIFY_NATIVE_APP'', [''general'', ''nativeSpotify'']),
      (''FS_PLAYBACK_SCROBBLE_AT_DURATION'', [''playback'', ''scrobble'', ''scrobbleAtDuration'']),
      (''FS_PLAYBACK_SCROBBLE_AT_PERCENTAGE'', [''playback'', ''scrobble'', ''scrobbleAtPercentage'']),
      (''FS_LYRICS_PREFER_LOCAL'', [''lyrics'', ''preferLocalLyrics''])]"

text \<open>What a text that is not a placeholder sets, variable by variable and, for all others, type by type.\<close>

definition finiteNumber :: "string \<Rightarrow> rat option" where
  "finiteNumber s = (if s = [] then None
     else case jsNumber s of None \<Rightarrow> None | Some n \<Rightarrow> if \<bar>n\<bar> < 2 ^ 1024 - 2 ^ 970 then Some n else None)"

definition wholeUpTo :: "int \<Rightarrow> string \<Rightarrow> json option" where
  "wholeUpTo high s = (case finiteNumber s of None \<Rightarrow> None
     | Some n \<Rightarrow> Some (J_num (of_int (min high (max 0 (floor (n + 1 / 2)))))))"

definition plainSetting :: "env_spec \<Rightarrow> string \<Rightarrow> json option" where
  "plainSetting spec s =
     (case es_type spec of
        Env_bool \<Rightarrow> if asciiLower s \<in> {''true'', ''1''} then Some (J_bool True)
          else if asciiLower s \<in> {''false'', ''0''} then Some (J_bool False) else None
      | Env_enum \<Rightarrow> if trim s \<in> set (nullish_or (es_enumSet spec) []) then Some (J_text (trim s)) else None
      | Env_num \<Rightarrow> map_option J_num (finiteNumber s)
      | Env_string \<Rightarrow> if es_skipIfEmpty spec \<and> s = [] then None else Some (J_text s))"

definition settingOf :: "env_lib \<Rightarrow> env_spec \<Rightarrow> string \<Rightarrow> json option" where
  "settingOf L spec s =
     (if es_key spec = ''FS_GENERAL_ACCENT'' then if isRgb s then Some (J_text s) else None
      else if es_key spec = ''FS_GENERAL_PRIMARY_SHADE'' then wholeUpTo 9 s
      else if es_key spec = ''FS_GENERAL_SIDEBAR_PLAYLIST_FOLDER_TREE_INDENT'' then wholeUpTo 64 s
      else if es_key spec = ''FS_PLAYBACK_FILTERS'' then parsePlaybackFiltersJson L s
      else if es_key spec = ''FS_CSS_CONTENT'' then
        if trim s = [] then None else Some (J_text (el_sanitizeCss L (''<style>'' @ s)))
      else if es_key spec = ''FS_FONT_SYSTEM'' then Some (if s = [] then J_null else J_text s)
      else plainSetting spec s)"

lemma parseNum_finite: "parseNum (Some s) = finiteNumber s"
  by (auto simp: parseNum_def finiteNumber_def truthy_def isFinite_def doubleRange_def abs_less_iff split: option.split)

lemma placeholder_form: "isUnsubstitutedPlaceholder s \<longleftrightarrow> (\<exists>r. s = ''${FS_'' @ r @ ''}'')"
proof
  assume p: "isUnsubstitutedPlaceholder s"
  then have s: "s = ''${FS_'' @ drop 5 s" using append_take_drop_id [of 5 s] by (simp add: isUnsubstitutedPlaceholder_def)
  have "drop 5 s \<noteq> []"
  proof
    assume "drop 5 s = []"
    with s have "last s = CHR ''_''" by (metis append_Nil2 last.simps list.distinct(1))
    with p show False by (simp add: isUnsubstitutedPlaceholder_def)
  qed
  moreover from this p s have "last (drop 5 s) = CHR ''}''" by (metis isUnsubstitutedPlaceholder_def last_appendR)
  ultimately have "drop 5 s = butlast (drop 5 s) @ ''}''" by (metis append_butlast_last_id)
  with s show "\<exists>r. s = ''${FS_'' @ r @ ''}''" by metis
next
  assume "\<exists>r. s = ''${FS_'' @ r @ ''}''"
  then show "isUnsubstitutedPlaceholder s" by (auto simp: isUnsubstitutedPlaceholder_def)
qed

lemma parseBool_cases:
  "map_option J_bool (parseBool (Some s)) =
    (if asciiLower s \<in> {''true'', ''1''} then Some (J_bool True)
     else if asciiLower s \<in> {''false'', ''0''} then Some (J_bool False) else None)"
  by (cases "s = []") (simp_all add: parseBool_def truthy_def Let_def asciiLower_def)

lemma parseEnum_cases:
  "[] \<notin> set allowed \<Longrightarrow> map_option J_text (parseEnum (Some s) allowed) =
    (if trim s \<in> set allowed then Some (J_text (trim s)) else None)"
  by (cases "s = []") (simp_all add: parseEnum_def truthy_def Let_def trim_def)

text \<open>The variables with a reading of their own are the six with a transformation.\<close>

definition plainSpec :: "env_spec \<Rightarrow> bool" where
  "plainSpec spec \<longleftrightarrow> es_transform spec = None \<and> es_key spec \<notin> {''FS_GENERAL_ACCENT'', ''FS_GENERAL_PRIMARY_SHADE'',
     ''FS_GENERAL_SIDEBAR_PLAYLIST_FOLDER_TREE_INDENT'', ''FS_PLAYBACK_FILTERS'', ''FS_CSS_CONTENT'', ''FS_FONT_SYSTEM''}
     \<and> [] \<notin> set (nullish_or (es_enumSet spec) []) \<and> (es_type spec = Env_enum \<longrightarrow> es_enumSet spec \<noteq> None)"

definition transformedSpecs :: "env_lib \<Rightarrow> env_spec list" where
  "transformedSpecs L =
     [transformed accentOf ''FS_GENERAL_ACCENT'' [''general'', ''accent''] Env_string,
      transformed (roundedBetween 9) ''FS_GENERAL_PRIMARY_SHADE'' [''general'', ''primaryShade''] Env_num,
      transformed (roundedBetween 64) ''FS_GENERAL_SIDEBAR_PLAYLIST_FOLDER_TREE_INDENT'' [''general'', ''sidebarPlaylistFolderTreeIndent''] Env_num,
      transformed (parsePlaybackFiltersJson L) ''FS_PLAYBACK_FILTERS'' [''playback'', ''filters''] Env_string,
      transformed (cssOf L) ''FS_CSS_CONTENT'' [''css'', ''content''] Env_string,
      transformed systemFont ''FS_FONT_SYSTEM'' [''font'', ''system''] Env_string]"

lemma spec_kinds: "list_all (\<lambda>spec. plainSpec spec \<or> spec \<in> set (transformedSpecs L)) (ENV_SETTING_SPECS L)"
  unfolding ENV_SETTING_SPECS_def list_all_append
  by (simp add: env_specs plainSpec_def transformedSpecs_def ofType_def ofEnum_def notEmpty_def transformed_def
      APP_THEMES_def HOME_FEATURE_STYLES_def SIDE_QUEUE_TYPES_def SIDE_QUEUE_LAYOUTS_def SIDEBAR_PLAYLIST_FOLDER_VIEWS_def
      SIDEBAR_PLAYLIST_MODES_def DISCORD_DISPLAY_TYPES_def DISCORD_LINK_TYPES_def LYRICS_ALIGNMENTS_def AUTO_DJ_MODES_def
      AUTO_DJ_STRATEGIES_def FONT_TYPES_def)

lemma plain_setting:
  assumes "plainSpec spec"
  shows "parseValue (Some s) spec = settingOf L spec s"
proof -
  have "settingOf L spec s = plainSetting spec s"
    unfolding settingOf_def using assms by (simp only: plainSpec_def insert_iff empty_iff de_Morgan_disj simp_thms if_False)
  moreover have "parseValue (Some s) spec = plainSetting spec s"
  proof (cases "es_type spec")
    case Env_bool
    with assms show ?thesis by (simp only: parseValue_def plainSetting_def plainSpec_def option.case env_type.case parseBool_cases)
  next
    case Env_enum
    with assms obtain allowed where "es_enumSet spec = Some allowed" "[] \<notin> set allowed" by (auto simp: plainSpec_def)
    with assms Env_enum show ?thesis by (simp add: parseValue_def plainSetting_def plainSpec_def parseEnum_cases)
  next
    case Env_num
    with assms show ?thesis by (simp add: parseValue_def plainSetting_def plainSpec_def parseNum_finite)
  next
    case Env_string
    with assms show ?thesis by (simp add: parseValue_def plainSetting_def plainSpec_def)
  qed
  ultimately show ?thesis by simp
qed

lemma roundedBetween_wholeUpTo: "roundedBetween high s = wholeUpTo high s"
  by (simp add: roundedBetween_def wholeUpTo_def parseNum_finite split: option.split)

lemma transformed_settings:
  "settingOf L (transformed f ''FS_GENERAL_ACCENT'' p t) s = accentOf s"
  "settingOf L (transformed f ''FS_GENERAL_PRIMARY_SHADE'' p t) s = roundedBetween 9 s"
  "settingOf L (transformed f ''FS_GENERAL_SIDEBAR_PLAYLIST_FOLDER_TREE_INDENT'' p t) s = roundedBetween 64 s"
  "settingOf L (transformed f ''FS_PLAYBACK_FILTERS'' p t) s = parsePlaybackFiltersJson L s"
  "settingOf L (transformed f ''FS_CSS_CONTENT'' p t) s = cssOf L s"
  "settingOf L (transformed f ''FS_FONT_SYSTEM'' p t) s = systemFont s"
  by (simp_all add: settingOf_def transformed_def ofType_def accentOf_def cssOf_def systemFont_def roundedBetween_wholeUpTo)

lemma transformed_setting:
  assumes "spec \<in> set (transformedSpecs L)"
  shows "parseValue (Some s) spec = settingOf L spec s"
proof -
  have read: "parseValue (Some s) (transformed f k p t) = f s" for f k p t by (simp add: parseValue_def transformed_def)
  from assms show ?thesis
    unfolding transformedSpecs_def list.set insert_iff empty_iff
    by (elim disjE FalseE) (simp_all only: read transformed_settings)
qed

definition rightlyNamed :: "env_spec \<Rightarrow> bool" where
  "rightlyNamed spec \<longleftrightarrow> es_key spec = variableName (es_path spec) \<or> (es_key spec, es_path spec) \<in> set renamedVariables"

lemma group_names:
  "list_all rightlyNamed appearanceSpecs" "list_all rightlyNamed layoutSpecs" "list_all rightlyNamed (playbackSpecs L)"
  "list_all rightlyNamed discordSpecs" "list_all rightlyNamed lyricsSpecs" "list_all rightlyNamed autoDjSpecs"
  "list_all rightlyNamed (styleSpecs L)"
  by code_simp+

lemma spec_names: "list_all rightlyNamed (ENV_SETTING_SPECS L)"
  by (simp add: ENV_SETTING_SPECS_def group_names)

text \<open>
  C31: Every variable sets the setting that it is named after, and no other variable does: the overrides have there what its
  text is read as, and nothing if it is missing, a placeholder that was not substituted, or not readable. Truth values are
  true, false, 1 and 0 in capitals or not; names are trimmed and one of those allowed; numbers are those that \<open>Number\<close> reads
  and that are finite; texts are taken as they are, some only if not empty. The accent has to be a colour, the shade is
  rounded and at most nine, the indentation at most 64, the filters have to be valid, a blank style sheet counts for
  nothing and another is sanitized, and no name of a font of the system means none.
\<close>

theorem each_variable_sets_its_path:
  "list_all (\<lambda>spec.
      rightlyNamed spec
      \<and> getAt (es_path spec) (getEnvSettingsOverrides L w) =
         (case w (es_key spec) of
            None \<Rightarrow> None
          | Some s \<Rightarrow> if \<exists>r. s = ''${FS_'' @ r @ ''}'' then None else settingOf L spec s))
     (ENV_SETTING_SPECS L)"
proof -
  have "getAt (es_path spec) (getEnvSettingsOverrides L w) = (case w (es_key spec) of None \<Rightarrow> None
      | Some s \<Rightarrow> if \<exists>r. s = ''${FS_'' @ r @ ''}'' then None else settingOf L spec s)"
    if "spec \<in> set (ENV_SETTING_SPECS L)" for spec
  proof -
    have "parseValue (Some s) spec = settingOf L spec s" for s
      using spec_kinds [of L] that plain_setting transformed_setting by (auto simp: list_all_iff)
    moreover have "parseValue None spec = None" by (simp add: parseValue_def)
    ultimately show ?thesis unfolding placeholder_form [symmetric]
      by (simp add: overrides_of_spec [OF that] override_def envText_def split: option.split)
  qed
  with spec_names [of L] show ?thesis by (simp add: list_all_iff)
qed

definition exampleEnvironment :: "string \<Rightarrow> string option" where
  "exampleEnvironment = map_of
     [(''FS_GENERAL_THEME'', '' nord ''), (''FS_GENERAL_SHOW_RATINGS'', ''TRUE''), (''FS_GENERAL_RESUME'', ''yes''),
      (''FS_GENERAL_LANGUAGE'', ''${FS_GENERAL_LANGUAGE}'')]"

theorem each_variable_sets_its_path_witness:
  "map (\<lambda>k. getAt [''general'', k] (getEnvSettingsOverrides \<lparr>el_parse = \<lambda>_. None, el_sanitizeCss = id\<rparr> exampleEnvironment))
     [''theme'', ''showRatings'', ''resume'', ''language'', ''lastFM''] =
   [Some (J_text ''nord''), Some (J_bool True), None, None, None]"
proof -
  let ?L = "\<lparr>el_parse = \<lambda>_. None, el_sanitizeCss = id\<rparr>"
  let ?expected = "\<lambda>spec. case exampleEnvironment (es_key spec) of None \<Rightarrow> None
    | Some s \<Rightarrow> if isUnsubstitutedPlaceholder s then None else settingOf ?L spec s"
  let ?specs = "[ofEnum APP_THEMES ''FS_GENERAL_THEME'' [''general'', ''theme''],
    ofType Env_bool ''FS_GENERAL_SHOW_RATINGS'' [''general'', ''showRatings''],
    ofType Env_bool ''FS_GENERAL_RESUME'' [''general'', ''resume''],
    notEmpty ''FS_GENERAL_LANGUAGE'' [''general'', ''language''],
    ofType Env_bool ''FS_GENERAL_LAST_FM'' [''general'', ''lastFM'']]"
  have "set ?specs \<subseteq> set (appearanceSpecs @ layoutSpecs)" by (simp add: appearanceSpecs_def layoutSpecs_def)
  then have "set ?specs \<subseteq> set (ENV_SETTING_SPECS ?L)" unfolding ENV_SETTING_SPECS_def by auto
  then have "map (\<lambda>spec. getAt (es_path spec) (getEnvSettingsOverrides ?L exampleEnvironment)) ?specs = map ?expected ?specs"
    using each_variable_sets_its_path [of ?L exampleEnvironment]
    unfolding list_all_iff placeholder_form by (intro map_cong [OF refl]) blast
  moreover have "map ?expected ?specs = [Some (J_text ''nord''), Some (J_bool True), None, None, None]"
    by code_simp
  ultimately show ?thesis by (simp add: ofType_def ofEnum_def notEmpty_def)
qed

section \<open>What is set is of its type\<close>

definition whole_between :: "int \<Rightarrow> json option \<Rightarrow> bool" where
  "whole_between high x = (case x of None \<Rightarrow> True | Some (J_num n) \<Rightarrow> (let i = floor n in n = of_int i \<and> 0 \<le> i \<and> i \<le> high) | _ \<Rightarrow> False)"

definition filters_ok :: "json option \<Rightarrow> bool" where
  "filters_ok x = (case x of None \<Rightarrow> True | Some (J_array items) \<Rightarrow> list_all isValidPlayerFilter items | _ \<Rightarrow> False)"

definition of_type :: "env_spec \<Rightarrow> json option \<Rightarrow> bool" where
  "of_type spec x =
     (case x of
        None \<Rightarrow> True
      | Some v \<Rightarrow>
          (case es_type spec of
             Env_bool \<Rightarrow> (case v of J_bool b \<Rightarrow> True | _ \<Rightarrow> False)
           | Env_num \<Rightarrow> (case v of J_num n \<Rightarrow> True | _ \<Rightarrow> False)
           | Env_enum \<Rightarrow> textIn (nullish_or (es_enumSet spec) []) x
           | Env_string \<Rightarrow> es_transform spec \<noteq> None \<or> (\<exists>s. v = J_text s)))"

lemma roundedBetween_whole: "0 \<le> high \<Longrightarrow> whole_between high (roundedBetween high s)"
  by (auto simp: whole_between_def roundedBetween_def Let_def split: option.split)

lemma filters_parsed: "filters_ok (parsePlaybackFiltersJson L s)"
  by (simp add: filters_ok_def parsePlaybackFiltersJson_def split: option.split json.split)

lemma parsed_type:
  assumes "es_type spec = Env_string \<or> es_transform spec = None"
  shows "of_type spec (parseValue raw spec)"
  using assms
  by (auto simp: of_type_def parseValue_def parseEnum_def textIn_def Let_def bind_eq_Some_conv
      split: option.split env_type.split)

lemma transformed_types:
  "list_all (\<lambda>spec. es_type spec = Env_string \<or> es_transform spec = None
     \<or> es_transform spec \<in> {Some (roundedBetween 9), Some (roundedBetween 64)} \<and> es_type spec = Env_num) (ENV_SETTING_SPECS L)"
  by (simp add: env_specs ofType_def ofEnum_def notEmpty_def transformed_def)

lemma rounded_type: "es_type spec = Env_num \<Longrightarrow> es_transform spec = Some (roundedBetween high) \<Longrightarrow> of_type spec (parseValue raw spec)"
  by (auto simp: of_type_def parseValue_def roundedBetween_def split: option.split)

lemma get_transformed:
  "transformed f k p t \<in> set (ENV_SETTING_SPECS L) \<Longrightarrow>
    getAt p (getEnvSettingsOverrides L w) = Option.bind (envText w k) f"
  using overrides_of_spec [of "transformed f k p t" L w]
  by (simp add: override_def parseValue_def transformed_def ofType_def split: option.splits)

lemma get_shade:
  "getAt [''general'', ''primaryShade''] (getEnvSettingsOverrides L w) =
    Option.bind (envText w ''FS_GENERAL_PRIMARY_SHADE'') (roundedBetween 9)"
  by (rule get_transformed [where t = Env_num]) (simp add: env_specs)

lemma get_indent:
  "getAt [''general'', ''sidebarPlaylistFolderTreeIndent''] (getEnvSettingsOverrides L w) =
    Option.bind (envText w ''FS_GENERAL_SIDEBAR_PLAYLIST_FOLDER_TREE_INDENT'') (roundedBetween 64)"
  by (rule get_transformed [where t = Env_num]) (simp add: env_specs)

lemma get_filters:
  "getAt [''playback'', ''filters''] (getEnvSettingsOverrides L w) =
    Option.bind (envText w ''FS_PLAYBACK_FILTERS'') (parsePlaybackFiltersJson L)"
  by (rule get_transformed [where t = Env_string]) (simp add: env_specs)

lemma nothing_ok: "whole_between high None" "filters_ok None"
  by (simp_all add: whole_between_def filters_ok_def)

lemma bind_holds: "P None \<Longrightarrow> (\<And>s. P (f s)) \<Longrightarrow> P (Option.bind x f)"
  by (cases x) simp_all

text \<open>
  Whatever the environment holds, what it sets is of the type of the setting: a truth value, a number, one of the names that
  are allowed, or a text; the shade is a whole number up to nine, the indentation one up to 64, and the filters of the
  player are valid ones.
\<close>

theorem env_values_well_typed:
  "list_all (\<lambda>spec. of_type spec (getAt (es_path spec) (getEnvSettingsOverrides L w))) (ENV_SETTING_SPECS L)
   \<and> whole_between 9 (getAt [''general'', ''primaryShade''] (getEnvSettingsOverrides L w))
   \<and> whole_between 64 (getAt [''general'', ''sidebarPlaylistFolderTreeIndent''] (getEnvSettingsOverrides L w))
   \<and> filters_ok (getAt [''playback'', ''filters''] (getEnvSettingsOverrides L w))"
proof -
  have "of_type spec (override w spec)" if "spec \<in> set (ENV_SETTING_SPECS L)" for spec
    using transformed_types [of L] that parsed_type [of spec] rounded_type [of spec]
    by (fastforce simp: list_all_iff override_def)
  then have "list_all (\<lambda>spec. of_type spec (getAt (es_path spec) (getEnvSettingsOverrides L w))) (ENV_SETTING_SPECS L)"
    by (simp add: list_all_iff overrides_of_spec)
  moreover have "whole_between 9 (getAt [''general'', ''primaryShade''] (getEnvSettingsOverrides L w))"
    unfolding get_shade by (rule bind_holds) (rule nothing_ok roundedBetween_whole; simp)+
  moreover have "whole_between 64 (getAt [''general'', ''sidebarPlaylistFolderTreeIndent''] (getEnvSettingsOverrides L w))"
    unfolding get_indent by (rule bind_holds) (rule nothing_ok roundedBetween_whole; simp)+
  moreover have "filters_ok (getAt [''playback'', ''filters''] (getEnvSettingsOverrides L w))"
    unfolding get_filters by (rule bind_holds) (rule nothing_ok filters_parsed)+
  ultimately show ?thesis by simp
qed

section \<open>Numbers\<close>

lemma digits_prefix: "list_all isDigit ds \<Longrightarrow> r = [] \<or> \<not> isDigit (hd r) \<Longrightarrow> digitsOf isDigit (ds @ r) = (ds, r)"
  by (induction ds) (auto simp: digitsOf_def takeWhile_eq_Nil_iff dropWhile_eq_self_iff)

text \<open>
  A number in decimal notation is read as what it denotes: with a sign or without, and with a fraction or without.
\<close>

lemma unsigned_read:
  assumes "list_all isDigit ds" and "ds \<noteq> []" and "list_all isDigit fs"
  shows "unsignedDecimal ds = Some (of_nat (numberOf ds))"
    and "unsignedDecimal (ds @ CHR ''.'' # fs) = Some (of_nat (numberOf (ds @ fs)) / 10 ^ length fs)"
proof -
  have dot: "\<not> isDigit CHR ''.''" by (simp add: isDigit_def)
  show "unsignedDecimal ds = Some (of_nat (numberOf ds))"
    using digits_prefix [OF assms(1), of "[]"] assms(2) by (simp add: unsignedDecimal_def exponentOf_def tenTo_def)
  show "unsignedDecimal (ds @ CHR ''.'' # fs) = Some (of_nat (numberOf (ds @ fs)) / 10 ^ length fs)"
    using digits_prefix [OF assms(1), of "CHR ''.'' # fs"] digits_prefix [OF assms(3), of "[]"] assms(2) dot
    by (simp add: unsignedDecimal_def exponentOf_def tenTo_def)
qed

lemma numberOf_digits: "numberOf (ds @ fs) = numberOf ds * 10 ^ length fs + numberOf fs"
proof (induction fs rule: rev_induct)
  case (snoc c fs)
  then show ?case using numberOf_append [of "ds @ fs" c] numberOf_append [of fs c] by (simp add: algebra_simps)
qed (simp add: numberOf_def)

definition numberChar :: "char \<Rightarrow> bool" where
  "numberChar c \<longleftrightarrow> isDigit c \<or> c = CHR ''.''"

lemma numberChar_not [simp]:
  assumes "numberChar c"
  shows "\<not> isWhite c" and "c \<noteq> CHR ''-''" and "c \<noteq> CHR ''+''" and "c \<notin> {CHR ''x'', CHR ''X'', CHR ''o'', CHR ''O'', CHR ''b'', CHR ''B''}"
  using assms by (auto simp: numberChar_def digit_not_white) (simp_all add: isDigit_def isWhite_def)

lemma not_based:
  assumes "list_all numberChar s"
  shows "take 2 (CHR ''-'' # s) \<notin> {''0x'', ''0X'', ''0o'', ''0O'', ''0b'', ''0B''}"
    and "take 2 s \<notin> {''0x'', ''0X'', ''0o'', ''0O'', ''0b'', ''0B''}"
proof -
  show "take 2 (CHR ''-'' # s) \<notin> {''0x'', ''0X'', ''0o'', ''0O'', ''0b'', ''0B''}" by simp
  show "take 2 s \<notin> {''0x'', ''0X'', ''0o'', ''0O'', ''0b'', ''0B''}"
  proof (cases s)
    case (Cons a r)
    show ?thesis
    proof (cases r)
      case (Cons b r')
      with \<open>s = a # r\<close> assms have "numberChar b" by simp
      from numberChar_not(4) [OF this] show ?thesis using Cons \<open>s = a # r\<close> by simp
    qed (use Cons in simp)
  qed simp
qed

lemma read_digits:
  assumes "list_all numberChar s" and "s \<noteq> []"
  shows "jsNumber s = unsignedDecimal s" and "jsNumber (CHR ''-'' # s) = map_option uminus (unsignedDecimal s)"
proof -
  have ends: "numberChar (hd s)" "numberChar (last s)" using assms by (simp_all add: list_all_iff)
  have "trim s = s" by (rule trim_id) (simp_all add: ends assms(2))
  moreover have "signOf s = (1, s)" using ends(1) assms(2) by (cases s) (simp_all add: signOf_def)
  ultimately show "jsNumber s = unsignedDecimal s"
    using not_based(2) [OF assms(1)] assms(2) by (cases "unsignedDecimal s") (simp_all add: jsNumber_def)
  have "\<not> isWhite CHR ''-''" by (simp add: isWhite_def)
  then have "trim (CHR ''-'' # s) = CHR ''-'' # s" by (intro trim_id) (simp_all add: ends assms(2))
  then show "jsNumber (CHR ''-'' # s) = map_option uminus (unsignedDecimal s)"
    by (cases "unsignedDecimal s") (simp_all add: jsNumber_def signOf_def)
qed

text \<open>
  Numbers are read as what they denote: in decimal notation without a sign, with one, and with a fraction of any number of
  digits.
\<close>

theorem numbers_are_read:
  "jsNumber (decimal n) = Some (of_nat n) \<and> jsNumber (''-'' @ decimal n) = Some (- of_nat n)
   \<and> jsNumber (decimal n @ ''.'' @ padZeros k (decimal m)) =
       Some (of_nat n + of_nat m / 10 ^ length (padZeros k (decimal m)))"
proof -
  have digits: "list_all numberChar (decimal n)" "list_all numberChar (decimal n @ CHR ''.'' # padZeros k (decimal m))"
    using decimal_digits [of n] padZeros_digits [of k m] by (auto simp: list_all_iff numberChar_def)
  show ?thesis
    using read_digits [OF digits(1)] read_digits [OF digits(2)]
      unsigned_read [OF decimal_digits [of n] decimal_ne padZeros_digits [of k m]]
    by (simp add: numberOf_digits numberOf_decimal numberOf_padZeros add_divide_distrib)
qed

end
