(* ===== verification/SettingsMigration.thy ===== *)
theory SettingsMigration
  imports EnvSettings "HOL-Library.Sublist"
begin

text \<open>
  Settings that were saved by an older version of the program, and what is done to them when they are read
  (\<^verbatim>\<open>store/settings.store.ts\<close>, \<open>migrate\<close>). Of the settings the record has what a migration reads or writes. Ids of columns and
  keys of lists are texts, as in what is saved. Drawn ids are a function of the number of the draw, and translations one
  of their keys.
\<close>

section \<open>What is saved\<close>

record sidebar_item =
  si_disabled :: bool
  si_id :: string
  si_label :: string
  si_route :: string

record sortable_item =
  so_disabled :: bool
  so_id :: string

record column_config =
  cc_align :: string
  cc_autoSize :: "bool option"
  cc_id :: string
  cc_isEnabled :: bool
  cc_pinned :: "string option"
  cc_width :: rat

record table_config =
  tb_columns :: "column_config list option"
  tb_enableHeader :: "bool option"

record list_config =
  lc_table :: "table_config option"

record auto_dj_config =
  ad_albumStrategy :: "string option"
  ad_enabled :: "bool option"
  ad_itemCount :: "rat option"
  ad_mode :: "string option"
  ad_songStrategy :: "string option"
  ad_timing :: "rat option"

record general_config =
  ge_artistBackground :: "bool option"
  ge_artistBackgroundBlur :: "rat option"
  ge_artistItems :: "sortable_item list option"
  ge_homeItems :: "sortable_item list option"
  ge_sideQueueLayout :: "string option"
  ge_sidebarItems :: "sidebar_item list option"

record saved_settings =
  ps_autoDJ :: "auto_dj_config option"
  ps_filters :: "json obj list option"
  ps_general :: general_config
  ps_lists :: "list_config obj"
  ps_lyrics :: "json option"
  ps_lyricsDisplay :: "json option"
  ps_mediaSession :: "bool option"
  ps_presets :: "json obj list option"
  ps_releaseChannel :: "string option"
  ps_windowBarStyle :: "string option"

text \<open>Those of the initial settings that a migration falls back to.\<close>

definition initialAutoDJ :: auto_dj_config where
  "initialAutoDJ = \<lparr>ad_albumStrategy = Some ''similar'', ad_enabled = Some False, ad_itemCount = Some 5, ad_mode = Some ''songs'',
     ad_songStrategy = Some ''similar'', ad_timing = Some 1\<rparr>"

text \<open>
  The result: settings, an object with nothing in it, or an error; reading or calling a property of what is undefined is
  one. A step gives None for an error.
\<close>

datatype migrated = Migrated saved_settings | Emptied | Type_error

type_synonym step = "saved_settings \<Rightarrow> saved_settings option"

definition guarded :: "bool \<Rightarrow> step \<Rightarrow> step" where
  "guarded b f st = (if b then f st else Some st)"

fun runSteps :: "step list \<Rightarrow> step" where
  "runSteps [] st = Some st"
| "runSteps (f # fs) st = Option.bind (f st) (runSteps fs)"

definition onGeneral :: "(general_config \<Rightarrow> general_config option) \<Rightarrow> step" where
  "onGeneral f st = map_option (\<lambda>g. st\<lparr>ps_general := g\<rparr>) (f (ps_general st))"

section \<open>Sidebar and home\<close>

definition pushSidebar :: "(string \<Rightarrow> string) \<Rightarrow> string \<Rightarrow> string \<Rightarrow> string \<Rightarrow> step" where
  "pushSidebar tr k label route = onGeneral (\<lambda>g. map_option
     (\<lambda>items. g\<lparr>ge_sidebarItems := Some (items @ [\<lparr>si_disabled = False, si_id = k, si_label = tr label, si_route = route\<rparr>])\<rparr>)
     (ge_sidebarItems g))"

definition dropFolders :: step where
  "dropFolders = onGeneral (\<lambda>g. map_option
     (\<lambda>items. g\<lparr>ge_sidebarItems := Some (filter (\<lambda>item. si_id item \<noteq> ''Folders'') items)\<rparr>) (ge_sidebarItems g))"

definition fromVersion8 :: "(string \<Rightarrow> string) \<Rightarrow> step" where
  "fromVersion8 tr st = Option.bind (dropFolders st) (pushSidebar tr ''Artists-all'' ''page.sidebar.artists'' ''/library/artists'')"

definition pushGenres :: step where
  "pushGenres = onGeneral (\<lambda>g. map_option
     (\<lambda>items. g\<lparr>ge_homeItems := Some (items @ [\<lparr>so_disabled = False, so_id = ''genres''\<rparr>])\<rparr>) (ge_homeItems g))"

text \<open>A setting that is missing, false, zero or empty is replaced by the initial one.\<close>

definition upToVersion9 :: "saved_settings \<Rightarrow> saved_settings" where
  "upToVersion9 st =
     (let g = ps_general st
      in st\<lparr>ps_releaseChannel := (if truthy (ps_releaseChannel st) then ps_releaseChannel st else Some ''latest''),
            ps_mediaSession := (if ps_mediaSession st = Some True then Some True else Some False),
            ps_general := g\<lparr>
              ge_artistBackgroundBlur := (if nullish_or (ge_artistBackgroundBlur g) 0 = 0 then Some 3 else ge_artistBackgroundBlur g),
              ge_artistBackground := Some True\<rparr>,
            ps_windowBarStyle := Some ''linux''\<rparr>)"

section \<open>Columns of tables\<close>

definition newColumn :: "string \<Rightarrow> string \<Rightarrow> string option \<Rightarrow> rat \<Rightarrow> column_config" where
  "newColumn align k pinned width =
     \<lparr>cc_align = align, cc_autoSize = Some False, cc_id = k, cc_isEnabled = False, cc_pinned = pinned, cc_width = width\<rparr>"

text \<open>The update of one list, if it is there, and of several one after the other.\<close>

definition onList :: "(list_config \<Rightarrow> list_config option) \<Rightarrow> string \<Rightarrow> step" where
  "onList f k st =
     (case map_of (ps_lists st) k of
        None \<Rightarrow> Some st
      | Some l \<Rightarrow> map_option (\<lambda>l'. st\<lparr>ps_lists := AList.update k l' (ps_lists st)\<rparr>) (f l))"

definition onLists :: "(list_config \<Rightarrow> list_config option) \<Rightarrow> string list \<Rightarrow> step" where
  "onLists f ks = runSteps (map (onList f) ks)"

definition setColumns :: "column_config list \<Rightarrow> list_config \<Rightarrow> list_config" where
  "setColumns cs l = l\<lparr>lc_table := map_option (\<lambda>t. t\<lparr>tb_columns := Some cs\<rparr>) (lc_table l)\<rparr>"

definition columnsOf :: "list_config \<Rightarrow> column_config list option" where
  "columnsOf l = Option.bind (lc_table l) tb_columns"

text \<open>Columns are pushed to a table that must be there; the keys of the last two lists are not those of any list.\<close>

definition pushColumns :: "column_config list \<Rightarrow> list_config \<Rightarrow> list_config option" where
  "pushColumns cs l = map_option (\<lambda>columns. setColumns (columns @ cs) l) (columnsOf l)"

definition addDepthAndRate :: step where
  "addDepthAndRate =
     onLists (pushColumns [newColumn ''center'' ''bitDepth'' None 100, newColumn ''center'' ''sampleRate'' None 100])
       [''song'', ''playlistSong'', ''queueSong'', ''albumDetail'', ''fullscreen'', ''sidequeue'']"

text \<open>A column that is not there is put after another, or to the end.\<close>

definition placeColumn :: "string option \<Rightarrow> column_config \<Rightarrow> column_config list \<Rightarrow> column_config list" where
  "placeColumn anchor c columns =
     (if list_ex (\<lambda>col. cc_id col = cc_id c) columns then columns
      else let i = (case anchor of None \<Rightarrow> -1 | Some k \<Rightarrow> findIndex (\<lambda>col. cc_id col = k) columns)
           in if 0 \<le> i then take (nat (i + 1)) columns @ [c] @ drop (nat (i + 1)) columns else columns @ [c])"

definition addColumn :: "string option \<Rightarrow> column_config \<Rightarrow> string list \<Rightarrow> step" where
  "addColumn anchor c = onLists (\<lambda>l. Some (case columnsOf l of None \<Rightarrow> l | Some columns \<Rightarrow> setColumns (placeColumn anchor c columns) l))"

definition songAndAlbumLists :: "string list" where
  "songAndAlbumLists = [''song'', ''album'', ''playlistSong'', ''queueSong'', ''albumDetail'', ''fullScreen'', ''sideQueue'']"

definition addTitleArtist :: step where
  "addTitleArtist = addColumn (Some ''titleCombined'') (newColumn ''start'' ''titleArtist'' None 300) songAndAlbumLists"

definition addComposer :: step where
  "addComposer = addColumn (Some ''artists'') (newColumn ''start'' ''composer'' None 300) songAndAlbumLists"

definition groupedLists :: "string list" where
  "groupedLists = [''song'', ''folder'', ''playlistSong'', ''albumArtistSong'', ''genreSong'', ''queueSong'', ''fullScreen'', ''sideQueue'']"

definition addAlbumGroup :: step where
  "addAlbumGroup = addColumn None (newColumn ''start'' ''albumGroup'' (Some ''left'') 200) groupedLists"

definition withHeader :: "list_config \<Rightarrow> list_config" where
  "withHeader l = l\<lparr>lc_table := map_option
     (\<lambda>t. t\<lparr>tb_enableHeader := (if tb_enableHeader t = None then Some True else tb_enableHeader t)\<rparr>) (lc_table l)\<rparr>"

definition addHeaders :: step where
  "addHeaders st = Some (st\<lparr>ps_lists := map (\<lambda>(k, l). (k, withHeader l)) (ps_lists st)\<rparr>)"

section \<open>Lyrics, filters, presets and others\<close>

definition releaseChannelBeta :: step where
  "releaseChannelBeta st = Some (st\<lparr>ps_releaseChannel := Some ''beta''\<rparr>)"

fun jsonTruthy :: "json \<Rightarrow> bool" where
  "jsonTruthy J_null = False"
| "jsonTruthy (J_bool b) = b"
| "jsonTruthy (J_num n) = (n \<noteq> 0)"
| "jsonTruthy (J_text s) = (s \<noteq> '''')"
| "jsonTruthy (J_array xs) = True"
| "jsonTruthy (J_object m) = True"

text \<open>What is found is used if it counts as true. What is read of lyrics is an object.\<close>

definition jsonOr :: "json option \<Rightarrow> json \<Rightarrow> json" where
  "jsonOr x y = (case x of None \<Rightarrow> y | Some v \<Rightarrow> if jsonTruthy v then v else y)"

definition objectOf :: "json option \<Rightarrow> json obj" where
  "objectOf x = (case x of Some (J_object m) \<Rightarrow> m | _ \<Rightarrow> [])"

definition DISPLAY_KEYS :: "string list" where
  "DISPLAY_KEYS = [''fontSize'', ''fontSizeUnsync'', ''gap'', ''gapUnsync'']"

definition displaySettings :: "json obj \<Rightarrow> json obj" where
  "displaySettings settings = map (\<lambda>k. (k, jsonOr (map_of settings k) (J_num 24))) DISPLAY_KEYS"

definition mainSettings :: "json obj \<Rightarrow> json obj" where
  "mainSettings settings = filter (\<lambda>(k, v). k \<notin> set DISPLAY_KEYS) settings"

definition assignAll :: "json obj \<Rightarrow> json obj \<Rightarrow> json obj" where
  "assignAll added m = fold (\<lambda>(k, v). AList.update k v) added m"

text \<open>The settings of the display are added to those that are there, which must be an object.\<close>

definition splitRecord :: "json obj \<Rightarrow> step" where
  "splitRecord old st =
     (let settings = objectOf (Some (jsonOr (map_of old ''default'') (J_object old)))
      in if ps_lyricsDisplay st = None \<or> ps_lyricsDisplay st = Some J_null then None
         else
           let shown = objectOf (map_of (objectOf (ps_lyricsDisplay st)) ''default'')
           in Some (st\<lparr>ps_lyrics := Some (J_object (mainSettings settings)),
                ps_lyricsDisplay := Some (J_object [(''default'', J_object (assignAll (displaySettings settings) shown))])\<rparr>))"

definition splitLyrics :: step where
  "splitLyrics st =
     (case ps_lyrics st of
        Some (J_object old) \<Rightarrow> if ''default'' \<in> set (obj_keys old) then splitRecord old st else Some st
      | _ \<Rightarrow> Some st)"

definition enableFilters :: step where
  "enableFilters st = Some (st\<lparr>ps_filters := map_option (map (AList.update ''isEnabled'' (J_bool True))) (ps_filters st)\<rparr>)"

fun namePresets :: "(nat \<Rightarrow> string) \<Rightarrow> nat \<Rightarrow> json obj list \<Rightarrow> json obj list" where
  "namePresets newId n [] = []"
| "namePresets newId n (p # ps) =
     (if jsonTruthy (nullish_or (map_of p ''id'') J_null) then p # namePresets newId n ps
      else AList.update ''id'' (J_text (newId n)) p # namePresets newId (Suc n) ps)"

definition addPresetIds :: "(nat \<Rightarrow> string) \<Rightarrow> step" where
  "addPresetIds newId st = Some (st\<lparr>ps_presets := map_option (namePresets newId 0) (ps_presets st)\<rparr>)"

definition addFavoriteSongs :: step where
  "addFavoriteSongs = onGeneral (\<lambda>g. case ge_artistItems g of
     None \<Rightarrow> None
   | Some items \<Rightarrow> Some (if list_ex (\<lambda>item. so_id item = ''favoriteSongs'') items then g
       else g\<lparr>ge_artistItems := Some (items @ [\<lparr>so_disabled = False, so_id = ''favoriteSongs''\<rparr>])\<rparr>))"

definition setSideQueueLayout :: step where
  "setSideQueueLayout = onGeneral (\<lambda>g. Some (if truthy (ge_sideQueueLayout g) then g
     else g\<lparr>ge_sideQueueLayout := Some ''horizontal''\<rparr>))"

definition normalizeAutoDjStrategy :: "string option \<Rightarrow> string" where
  "normalizeAutoDjStrategy stored =
     (if stored = Some ''library_random'' then ''library_random''
      else if stored \<in> {Some ''similar'', Some ''default'', Some ''similar_forward''} then ''similar''
      else the (ad_songStrategy initialAutoDJ))"

definition normalizeAutoDj :: step where
  "normalizeAutoDj st =
     (let dj = nullish_or (ps_autoDJ st) initialAutoDJ
      in Some (st\<lparr>ps_autoDJ := Some (dj\<lparr>
        ad_mode := (if ad_mode dj \<noteq> Some ''albums'' \<and> ad_mode dj \<noteq> Some ''songs'' then ad_mode initialAutoDJ else ad_mode dj),
        ad_songStrategy := Some (normalizeAutoDjStrategy (ad_songStrategy dj)),
        ad_albumStrategy := Some (normalizeAutoDjStrategy (ad_albumStrategy dj))\<rparr>)\<rparr>))"

section \<open>The migration\<close>

text \<open>The steps for settings of version 12 and later.\<close>

definition laterSteps :: "(string \<Rightarrow> string) \<Rightarrow> (nat \<Rightarrow> string) \<Rightarrow> nat \<Rightarrow> step list" where
  "laterSteps tr newId version =
     [guarded (version \<le> 12) (pushSidebar tr ''Folders'' ''page.sidebar.folders'' ''/library/folders''),
      guarded (version \<le> 13) pushGenres,
      guarded (version \<le> 14) addDepthAndRate,
      guarded (version \<le> 15) (pushSidebar tr ''Radio'' ''page.sidebar.radio'' ''/radio''),
      guarded (version = 16) releaseChannelBeta,
      guarded (version \<le> 17) splitLyrics,
      guarded (version \<le> 18) enableFilters,
      guarded (version \<le> 19) (addPresetIds newId),
      guarded (version \<le> 20) addTitleArtist,
      guarded (version \<le> 21) addComposer,
      guarded (version \<le> 22) addHeaders,
      guarded (version \<le> 23) addFavoriteSongs,
      guarded (version \<le> 26) addAlbumGroup,
      guarded (version \<le> 27) setSideQueueLayout,
      guarded (version < 28) normalizeAutoDj]"

definition orError :: "('a \<Rightarrow> migrated) \<Rightarrow> 'a option \<Rightarrow> migrated" where
  "orError f x = (case x of None \<Rightarrow> Type_error | Some y \<Rightarrow> f y)"

definition migrateSettings :: "(string \<Rightarrow> string) \<Rightarrow> (nat \<Rightarrow> string) \<Rightarrow> nat \<Rightarrow> saved_settings \<Rightarrow> migrated" where
  "migrateSettings tr newId version state =
     orError (\<lambda>st.
       if version \<le> 9 then Migrated (upToVersion9 st)
       else orError (\<lambda>st'.
         if version \<le> 11 then Emptied else orError Migrated (runSteps (laterSteps tr newId version) st'))
       (guarded (version \<le> 10) (pushSidebar tr ''Favorites'' ''page.sidebar.favorites'' ''/favorites'') st))
     (guarded (version = 8) (fromVersion8 tr) state)"

section \<open>Steps one after the other\<close>

definition keeps :: "(saved_settings \<Rightarrow> bool) \<Rightarrow> step \<Rightarrow> bool" where
  "keeps P f \<longleftrightarrow> (\<forall>st st'. P st \<longrightarrow> f st = Some st' \<longrightarrow> P st')"

definition establishes :: "(saved_settings \<Rightarrow> bool) \<Rightarrow> step \<Rightarrow> bool" where
  "establishes P f \<longleftrightarrow> (\<forall>st st'. f st = Some st' \<longrightarrow> P st')"

lemma runSteps_append: "runSteps (fs @ gs) st = Option.bind (runSteps fs st) (runSteps gs)"
proof (induction fs arbitrary: st)
  case (Cons f fs)
  then show ?case by (cases "f st") simp_all
qed simp

lemma guarded_simps [simp]: "guarded True f = f" "guarded False f = Some"
  by (simp_all add: guarded_def fun_eq_iff)

lemma keeps_Some [simp]: "keeps P Some"
  by (simp add: keeps_def)

lemma keeps_guarded: "keeps P f \<Longrightarrow> keeps P (guarded b f)"
  by (cases b) simp_all

lemma keeps_runSteps: "list_all (keeps P) fs \<Longrightarrow> keeps P (runSteps fs)"
proof (induction fs)
  case (Cons f fs)
  then have f: "keeps P f" and fs: "keeps P (runSteps fs)" by simp_all
  show ?case unfolding keeps_def
  proof (intro allI impI)
    fix st st' assume st: "P st" "runSteps (f # fs) st = Some st'"
    then obtain st1 where "f st = Some st1" "runSteps fs st1 = Some st'" by (auto simp: bind_eq_Some_conv)
    with st(1) f fs show "P st'" unfolding keeps_def by blast
  qed
qed (simp add: keeps_def)

lemma establishes_runSteps:
  assumes "establishes P f" and "list_all (keeps P) gs"
  shows "establishes P (runSteps (fs @ f # gs))"
  using keeps_runSteps [OF assms(2)] assms(1)
  unfolding establishes_def keeps_def runSteps_append by (auto simp: bind_eq_Some_conv)

text \<open>What a step leaves as it is.\<close>

definition leaves :: "(saved_settings \<Rightarrow> 'a) \<Rightarrow> step \<Rightarrow> bool" where
  "leaves g f \<longleftrightarrow> (\<forall>st st'. f st = Some st' \<longrightarrow> g st' = g st)"

lemma leaves_keeps: "leaves g f \<Longrightarrow> keeps (\<lambda>st. P (g st)) f"
  by (auto simp: leaves_def keeps_def)

lemma leaves_onGeneral: "(\<And>st x. g (st\<lparr>ps_general := x\<rparr>) = g st) \<Longrightarrow> leaves g (onGeneral f)"
  by (auto simp: leaves_def onGeneral_def)

lemma leaves_onLists: "(\<And>st x. g (st\<lparr>ps_lists := x\<rparr>) = g st) \<Longrightarrow> leaves g (onLists f ks)"
proof (induction ks)
  case (Cons k ks)
  from Cons have "leaves g (runSteps (map (onList f) ks))" by (simp add: onLists_def)
  moreover have "leaves g (onList f k)" using Cons.prems by (auto simp: leaves_def onList_def split: option.splits)
  ultimately show ?case by (auto simp: leaves_def onLists_def bind_eq_Some_conv)
qed (simp add: leaves_def onLists_def)

lemmas general_steps = pushSidebar_def pushGenres_def addFavoriteSongs_def setSideQueueLayout_def
lemmas list_steps = addDepthAndRate_def addTitleArtist_def addComposer_def addAlbumGroup_def addColumn_def
lemmas other_steps = releaseChannelBeta_def enableFilters_def addPresetIds_def addHeaders_def normalizeAutoDj_def

section \<open>Columns\<close>

definition columnsAt :: "string \<Rightarrow> saved_settings \<Rightarrow> column_config list option" where
  "columnsAt k st = Option.bind (map_of (ps_lists st) k) columnsOf"

definition hasColumn :: "string \<Rightarrow> column_config list option \<Rightarrow> bool" where
  "hasColumn k cs = (case cs of None \<Rightarrow> True | Some columns \<Rightarrow> k \<in> set (map cc_id columns))"

lemma columnsOf_set: "columnsOf l = Some cs \<Longrightarrow> columnsOf (setColumns cs' l) = Some cs'"
  by (auto simp: columnsOf_def setColumns_def bind_eq_Some_conv)

lemma columnsAt_onList:
  assumes "onList f k st = Some st'" and "\<And>l l'. f l = Some l' \<Longrightarrow> columnsOf l' = map_option h (columnsOf l)"
  shows "columnsAt k' st' = (if k' = k then map_option h (columnsAt k' st) else columnsAt k' st)"
  using assms by (auto simp: onList_def columnsAt_def update_conv' split: option.splits)

lemma columnsAt_onLists:
  assumes "distinct ks" and "onLists f ks st = Some st'" and "\<And>l l'. f l = Some l' \<Longrightarrow> columnsOf l' = map_option h (columnsOf l)"
  shows "columnsAt k st' = (if k \<in> set ks then map_option h (columnsAt k st) else columnsAt k st)"
  using assms(1,2)
proof (induction ks arbitrary: st)
  case (Cons k' ks)
  then obtain st1 where st1: "onList f k' st = Some st1" "onLists f ks st1 = Some st'"
    by (auto simp: onLists_def bind_eq_Some_conv)
  from Cons.IH [OF _ this(2)] columnsAt_onList [OF st1(1), where h = h and k' = k, OF assms(3)] Cons.prems(1)
  show ?case by auto
qed (simp add: onLists_def)

lemma columnsAt_addColumn:
  assumes "distinct ks" and "addColumn anchor c ks st = Some st'"
  shows "columnsAt k st' = (if k \<in> set ks then map_option (placeColumn anchor c) (columnsAt k st) else columnsAt k st)"
  using assms unfolding addColumn_def
  by (rule columnsAt_onLists) (auto simp: columnsOf_set split: option.splits)

lemma columnsAt_push:
  assumes "distinct ks" and "onLists (pushColumns new) ks st = Some st'"
  shows "columnsAt k st' = (if k \<in> set ks then map_option (\<lambda>cs. cs @ new) (columnsAt k st) else columnsAt k st)"
  using assms by (rule columnsAt_onLists) (auto simp: pushColumns_def columnsOf_set)

lemma columnsAt_headers: "addHeaders st = Some st' \<Longrightarrow> columnsAt k st' = columnsAt k st"
proof -
  assume "addHeaders st = Some st'"
  moreover have "map_of (map (\<lambda>(k, l). (k, withHeader l)) m) k = map_option withHeader (map_of m k)" for m
    by (induction m) auto
  moreover have "columnsOf (withHeader l) = columnsOf l" for l
    by (cases "lc_table l") (simp_all add: columnsOf_def withHeader_def)
  ultimately show ?thesis by (cases "map_of (ps_lists st) k") (auto simp: addHeaders_def columnsAt_def)
qed

text \<open>A column that is placed is there, and the others stay in their order.\<close>

lemma placeColumn_split: "\<exists>as bs. columns = as @ bs \<and> placeColumn anchor c columns =
    (if cc_id c \<in> set (map cc_id columns) then columns else as @ [c] @ bs)"
proof -
  define i where "i = (case anchor of None \<Rightarrow> -1 | Some k \<Rightarrow> findIndex (\<lambda>col. cc_id col = k) columns)"
  have "list_ex (\<lambda>col. cc_id col = cc_id c) columns \<longleftrightarrow> cc_id c \<in> set (map cc_id columns)" by (induction columns) auto
  then have "placeColumn anchor c columns = (if cc_id c \<in> set (map cc_id columns) then columns
      else if 0 \<le> i then take (nat (i + 1)) columns @ [c] @ drop (nat (i + 1)) columns else columns @ [c])"
    by (simp add: placeColumn_def Let_def i_def)
  moreover have "columns = take (nat (i + 1)) columns @ drop (nat (i + 1)) columns" by simp
  ultimately show ?thesis by (metis append_Nil2)
qed

lemma placeColumn_place:
  shows "subseq columns (placeColumn anchor c columns)"
    and "cc_id ` set (placeColumn anchor c columns) = insert (cc_id c) (cc_id ` set columns)"
    and "distinct (map cc_id columns) \<Longrightarrow> distinct (map cc_id (placeColumn anchor c columns))"
proof -
  obtain as bs where ab: "columns = as @ bs"
    "placeColumn anchor c columns = (if cc_id c \<in> set (map cc_id columns) then columns else as @ [c] @ bs)"
    using placeColumn_split by metis
  have "subseq (as @ bs) (as @ c # bs)" unfolding subseq_append' by (rule list_emb_Cons) simp
  with ab show "subseq columns (placeColumn anchor c columns)" by simp
  show "cc_id ` set (placeColumn anchor c columns) = insert (cc_id c) (cc_id ` set columns)"
    using ab by auto
  show "distinct (map cc_id columns) \<Longrightarrow> distinct (map cc_id (placeColumn anchor c columns))"
    using ab by auto
qed

lemma placeColumn_there: "cc_id c \<in> set (map cc_id columns) \<Longrightarrow> placeColumn anchor c columns = columns"
  using placeColumn_split [of columns anchor c] by auto

text \<open>The steps that leave all columns as they are.\<close>

lemma columns_left:
  "leaves (columnsAt k) (pushSidebar tr x label route)" "leaves (columnsAt k) pushGenres"
  "leaves (columnsAt k) addFavoriteSongs" "leaves (columnsAt k) setSideQueueLayout"
  "leaves (columnsAt k) releaseChannelBeta" "leaves (columnsAt k) splitLyrics" "leaves (columnsAt k) enableFilters"
  "leaves (columnsAt k) (addPresetIds newId)" "leaves (columnsAt k) addHeaders" "leaves (columnsAt k) normalizeAutoDj"
proof -
  show "leaves (columnsAt k) (pushSidebar tr x label route)" "leaves (columnsAt k) pushGenres"
    "leaves (columnsAt k) addFavoriteSongs" "leaves (columnsAt k) setSideQueueLayout"
    unfolding general_steps by (rule leaves_onGeneral; simp add: columnsAt_def)+
  show "leaves (columnsAt k) releaseChannelBeta" "leaves (columnsAt k) enableFilters"
    "leaves (columnsAt k) (addPresetIds newId)" "leaves (columnsAt k) normalizeAutoDj"
    by (auto simp: leaves_def other_steps columnsAt_def Let_def)
  show "leaves (columnsAt k) addHeaders" using columnsAt_headers by (simp add: leaves_def)
  have "leaves (columnsAt k) (splitRecord old)" for old
    by (auto simp: leaves_def splitRecord_def columnsAt_def Let_def split: if_splits)
  then show "leaves (columnsAt k) splitLyrics"
    by (auto simp: leaves_def splitLyrics_def split: option.splits json.splits if_splits)
qed

lemma distinct_lists [simp]: "distinct songAndAlbumLists" "distinct groupedLists"
  by (simp_all add: songAndAlbumLists_def groupedLists_def)

text \<open>A property of the columns of a list that placing a column keeps is kept by all steps but the one that pushes two.\<close>

lemma keeps_columns:
  assumes "\<And>anchor c cs. P (Some cs) \<Longrightarrow> P (Some (placeColumn anchor c cs))"
    and "version \<le> 14 \<Longrightarrow> keeps (\<lambda>st. P (columnsAt k st)) addDepthAndRate"
  shows "list_all (keeps (\<lambda>st. P (columnsAt k st))) (laterSteps tr newId version)"
proof -
  have place: "keeps (\<lambda>st. P (columnsAt k st)) (addColumn anchor c ks)" if "distinct ks" for anchor c ks
    unfolding keeps_def
  proof (intro allI impI)
    fix st st' assume "P (columnsAt k st)" "addColumn anchor c ks st = Some st'"
    with columnsAt_addColumn [OF that this(2), of k] assms(1) show "P (columnsAt k st')"
      by (cases "columnsAt k st") simp_all
  qed
  have "keeps (\<lambda>st. P (columnsAt k st)) (guarded (version \<le> 14) addDepthAndRate)"
    using assms(2) by (cases "version \<le> 14") simp_all
  then show ?thesis
    unfolding laterSteps_def addTitleArtist_def addComposer_def addAlbumGroup_def
    by (simp add: keeps_guarded place columns_left leaves_keeps [of "columnsAt k"])
qed

text \<open>The cases of the migration.\<close>

lemma orError_Migrated: "orError f x = Migrated y \<longleftrightarrow> (\<exists>z. x = Some z \<and> f z = Migrated y)"
  by (cases x) (simp_all add: orError_def)

lemma migrated_old:
  "migrateSettings tr newId v st = Migrated st' \<Longrightarrow> v \<le> 9 \<Longrightarrow>
    \<exists>s. guarded (v = 8) (fromVersion8 tr) st = Some s \<and> st' = upToVersion9 s"
  by (auto simp: migrateSettings_def orError_Migrated)

lemma migrated_new:
  assumes "migrateSettings tr newId v st = Migrated st'" and "\<not> v \<le> 9"
  shows "12 \<le> v \<and> runSteps (laterSteps tr newId v) st = Some st'"
proof (cases "v \<le> 11")
  case True
  with assms show ?thesis by (simp add: migrateSettings_def orError_Migrated)
next
  case False
  with assms show ?thesis by (simp add: migrateSettings_def orError_Migrated)
qed

lemma old_columns:
  assumes "guarded (v = 8) (fromVersion8 tr) st = Some s"
  shows "columnsAt k (upToVersion9 s) = columnsAt k st"
proof -
  have drop: "leaves (columnsAt k) dropFolders"
    unfolding dropFolders_def by (rule leaves_onGeneral) (simp add: columnsAt_def)
  have "columnsAt k s = columnsAt k st"
  proof (cases "v = 8")
    case True
    with assms obtain s1 where "dropFolders st = Some s1" "pushSidebar tr ''Artists-all'' ''page.sidebar.artists'' ''/library/artists'' s1 = Some s"
      by (auto simp: fromVersion8_def bind_eq_Some_conv)
    with drop columns_left(1) show ?thesis by (auto simp: leaves_def)
  qed (use assms in simp)
  then show ?thesis by (simp add: upToVersion9_def Let_def columnsAt_def)
qed

lemma columns_kept:
  assumes "migrateSettings tr newId version st = Migrated st'" and "columnsAt k st = Some cs" and "distinct (map cc_id cs)"
  shows "\<exists>cs'. columnsAt k st' = Some cs' \<and> subseq cs cs' \<and> (version \<in> {12..14} \<or> distinct (map cc_id cs'))"
proof (cases "version \<le> 9")
  case True
  with migrated_old [OF assms(1)] old_columns have "columnsAt k st' = columnsAt k st" by metis
  with assms(2,3) show ?thesis by simp
next
  case False
  define P where "P = (\<lambda>x. \<exists>cs'. x = Some cs' \<and> subseq cs cs' \<and> (version \<in> {12..14} \<or> distinct (map cc_id cs')))"
  from migrated_new [OF assms(1) False] have v: "12 \<le> version" and st': "runSteps (laterSteps tr newId version) st = Some st'" by simp_all
  have push: "keeps (\<lambda>st. P (columnsAt k st)) addDepthAndRate" if "version \<le> 14"
    unfolding keeps_def addDepthAndRate_def
  proof (intro allI impI)
    fix s s' assume "P (columnsAt k s)" and s': "onLists (pushColumns [newColumn ''center'' ''bitDepth'' None 100,
        newColumn ''center'' ''sampleRate'' None 100])
      [''song'', ''playlistSong'', ''queueSong'', ''albumDetail'', ''fullscreen'', ''sidequeue''] s = Some s'"
    moreover from this(1) obtain x where "columnsAt k s = Some x" "subseq cs x" by (auto simp: P_def)
    ultimately show "P (columnsAt k s')" using columnsAt_push [OF _ s', of k] that v
      by (simp add: P_def subseq_rev_drop_many)
  qed
  have place: "P (Some (placeColumn anchor c x))" if "P (Some x)" for anchor c x
  proof -
    from that have x: "subseq cs x" "version \<in> {12..14} \<or> distinct (map cc_id x)" by (simp_all add: P_def)
    from subseq_order.trans [OF x(1) placeColumn_place(1)] x(2) placeColumn_place(3) show ?thesis unfolding P_def by blast
  qed
  have "keeps (\<lambda>st. P (columnsAt k st)) (runSteps (laterSteps tr newId version))"
    by (rule keeps_runSteps, rule keeps_columns [of P, OF place push])
  moreover have "P (columnsAt k st)" using assms(2,3) by (simp add: P_def)
  ultimately have "P (columnsAt k st')" using st' unfolding keeps_def by blast
  then show ?thesis by (simp add: P_def)
qed


section \<open>Settings that are up to date\<close>

definition strategies :: "string option set" where
  "strategies = {Some ''similar'', Some ''library_random''}"

definition autoDj_ok :: "auto_dj_config option \<Rightarrow> bool" where
  "autoDj_ok x = (case x of None \<Rightarrow> False | Some dj \<Rightarrow> ad_mode dj \<in> {Some ''albums'', Some ''songs''}
     \<and> ad_songStrategy dj \<in> strategies \<and> ad_albumStrategy dj \<in> strategies)"

definition headers_ok :: "list_config obj \<Rightarrow> bool" where
  "headers_ok m = list_all (\<lambda>e. case lc_table (snd e) of None \<Rightarrow> True | Some t \<Rightarrow> tb_enableHeader t \<noteq> None) m"

definition favorites_ok :: "sortable_item list option \<Rightarrow> bool" where
  "favorites_ok x = (case x of None \<Rightarrow> False | Some items \<Rightarrow> list_ex (\<lambda>item. so_id item = ''favoriteSongs'') items)"

definition presets_ok :: "json obj list option \<Rightarrow> bool" where
  "presets_ok x = (case x of None \<Rightarrow> True | Some ps \<Rightarrow> list_all (\<lambda>p. jsonTruthy (nullish_or (map_of p ''id'') J_null)) ps)"

definition all_enabled :: "json obj list option \<Rightarrow> bool" where
  "all_enabled x = (case x of None \<Rightarrow> True | Some fs \<Rightarrow> list_all (\<lambda>f. map_of f ''isEnabled'' = Some (J_bool True)) fs)"

definition in_sidebar :: "string \<Rightarrow> general_config \<Rightarrow> bool" where
  "in_sidebar k g = (case ge_sidebarItems g of None \<Rightarrow> False | Some items \<Rightarrow> list_ex (\<lambda>item. si_id item = k) items)"

definition depthLists :: "string list" where
  "depthLists = [''song'', ''playlistSong'', ''queueSong'', ''albumDetail'']"

text \<open>
  What settings have that were saved with a version and have been migrated: of the lists that have a table, those of
  songs, of a playlist, of the queue and of an album have the columns of the bit depth and the sample rate; these, the one
  of albums, and those of the queue at the side and on the full screen have those of title and artist and of the composer;
  and those of songs, folders, a playlist, an artist's and a genre's songs and the three of the queue that of the albums.
\<close>

definition migratedFrom :: "nat \<Rightarrow> saved_settings \<Rightarrow> bool" where
  "migratedFrom version st \<longleftrightarrow>
     (version \<le> 12 \<longrightarrow> in_sidebar ''Folders'' (ps_general st)) \<and> (version \<le> 15 \<longrightarrow> in_sidebar ''Radio'' (ps_general st))
     \<and> (version \<le> 14 \<longrightarrow> list_all (\<lambda>k. hasColumn ''bitDepth'' (columnsAt k st) \<and> hasColumn ''sampleRate'' (columnsAt k st)) depthLists)
     \<and> (version \<le> 18 \<longrightarrow> all_enabled (ps_filters st)) \<and> (version \<le> 19 \<longrightarrow> presets_ok (ps_presets st))
     \<and> (version \<le> 20 \<longrightarrow> list_all (\<lambda>k. hasColumn ''titleArtist'' (columnsAt k st)) songAndAlbumLists)
     \<and> (version \<le> 21 \<longrightarrow> list_all (\<lambda>k. hasColumn ''composer'' (columnsAt k st)) songAndAlbumLists)
     \<and> (version \<le> 22 \<longrightarrow> headers_ok (ps_lists st))
     \<and> (version \<le> 23 \<longrightarrow> favorites_ok (ge_artistItems (ps_general st)))
     \<and> (version \<le> 26 \<longrightarrow> list_all (\<lambda>k. hasColumn ''albumGroup'' (columnsAt k st)) groupedLists)
     \<and> (version \<le> 27 \<longrightarrow> truthy (ge_sideQueueLayout (ps_general st)) \<and> autoDj_ok (ps_autoDJ st))"

lemma later_establishes:
  assumes "i < 15" and "establishes P (laterSteps tr newId v ! i)" and "list_all (keeps P) (drop (Suc i) (laterSteps tr newId v))"
  shows "establishes P (runSteps (laterSteps tr newId v))"
proof -
  have "i < length (laterSteps tr newId v)" using assms(1) by (simp add: laterSteps_def)
  from id_take_nth_drop [OF this] establishes_runSteps [OF assms(2,3)] show ?thesis by metis
qed

lemma has_column_kept:
  "list_all (keeps (\<lambda>st. hasColumn x (columnsAt k st))) (laterSteps tr newId v)"
proof (rule keeps_columns)
  fix anchor c cs assume "hasColumn x (Some cs)"
  then show "hasColumn x (Some (placeColumn anchor c cs))" by (simp add: hasColumn_def placeColumn_place(2))
next
  show "keeps (\<lambda>st. hasColumn x (columnsAt k st)) addDepthAndRate"
    unfolding keeps_def addDepthAndRate_def
  proof (intro allI impI)
    fix s s' assume "hasColumn x (columnsAt k s)" and s': "onLists (pushColumns [newColumn ''center'' ''bitDepth'' None 100,
        newColumn ''center'' ''sampleRate'' None 100])
      [''song'', ''playlistSong'', ''queueSong'', ''albumDetail'', ''fullscreen'', ''sidequeue''] s = Some s'"
    with columnsAt_push [OF _ s', of k] show "hasColumn x (columnsAt k s')"
      by (cases "columnsAt k s") (auto simp: hasColumn_def)
  qed
qed

lemma list_all_drop: "list_all P xs \<Longrightarrow> list_all P (drop n xs)"
  by (auto simp: list_all_iff dest: in_set_dropD)

lemma addColumn_establishes:
  "distinct ks \<Longrightarrow> k \<in> set ks \<Longrightarrow> establishes (\<lambda>st. hasColumn (cc_id c) (columnsAt k st)) (addColumn anchor c ks)"
  unfolding establishes_def
proof (intro allI impI)
  fix st st' assume "distinct ks" "k \<in> set ks" "addColumn anchor c ks st = Some st'"
  from columnsAt_addColumn [OF this(1,3), of k] this(2) show "hasColumn (cc_id c) (columnsAt k st')"
    by (cases "columnsAt k st") (simp_all add: hasColumn_def placeColumn_place(2))
qed

lemma columns_migrated:
  "v \<le> 20 \<Longrightarrow> k \<in> set songAndAlbumLists \<Longrightarrow>
    establishes (\<lambda>st. hasColumn ''titleArtist'' (columnsAt k st)) (runSteps (laterSteps tr newId v))"
  "v \<le> 21 \<Longrightarrow> k \<in> set songAndAlbumLists \<Longrightarrow>
    establishes (\<lambda>st. hasColumn ''composer'' (columnsAt k st)) (runSteps (laterSteps tr newId v))"
  "v \<le> 26 \<Longrightarrow> k \<in> set groupedLists \<Longrightarrow>
    establishes (\<lambda>st. hasColumn ''albumGroup'' (columnsAt k st)) (runSteps (laterSteps tr newId v))"
proof -
  assume "v \<le> 20" "k \<in> set songAndAlbumLists"
  then show "establishes (\<lambda>st. hasColumn ''titleArtist'' (columnsAt k st)) (runSteps (laterSteps tr newId v))"
    using addColumn_establishes [of songAndAlbumLists k "newColumn ''start'' ''titleArtist'' None 300"]
    by (intro later_establishes [where i = 8] list_all_drop has_column_kept)
      (simp_all add: laterSteps_def addTitleArtist_def newColumn_def)
next
  assume "v \<le> 21" "k \<in> set songAndAlbumLists"
  then show "establishes (\<lambda>st. hasColumn ''composer'' (columnsAt k st)) (runSteps (laterSteps tr newId v))"
    using addColumn_establishes [of songAndAlbumLists k "newColumn ''start'' ''composer'' None 300"]
    by (intro later_establishes [where i = 9] list_all_drop has_column_kept)
      (simp_all add: laterSteps_def addComposer_def newColumn_def)
next
  assume "v \<le> 26" "k \<in> set groupedLists"
  then show "establishes (\<lambda>st. hasColumn ''albumGroup'' (columnsAt k st)) (runSteps (laterSteps tr newId v))"
    using addColumn_establishes [of groupedLists k "newColumn ''start'' ''albumGroup'' (Some ''left'') 200"]
    by (intro later_establishes [where i = 12] list_all_drop has_column_kept)
      (simp_all add: laterSteps_def addAlbumGroup_def newColumn_def)
qed

text \<open>The other parts.\<close>

lemma leaves_other:
  "leaves ps_autoDJ setSideQueueLayout"
  "leaves ps_presets addTitleArtist" "leaves ps_presets addComposer" "leaves ps_presets addAlbumGroup" "leaves ps_presets addHeaders"
  "leaves ps_presets addFavoriteSongs" "leaves ps_presets setSideQueueLayout" "leaves ps_presets normalizeAutoDj"
  "leaves ps_general addAlbumGroup" "leaves ps_general normalizeAutoDj"
  "leaves ps_lists addFavoriteSongs" "leaves ps_lists setSideQueueLayout" "leaves ps_lists normalizeAutoDj"
proof -
  show "leaves ps_autoDJ setSideQueueLayout" "leaves ps_presets addFavoriteSongs" "leaves ps_presets setSideQueueLayout"
    "leaves ps_lists addFavoriteSongs" "leaves ps_lists setSideQueueLayout"
    unfolding general_steps by (rule leaves_onGeneral; simp)+
  show "leaves ps_presets addTitleArtist" "leaves ps_presets addComposer" "leaves ps_presets addAlbumGroup"
    "leaves ps_general addAlbumGroup"
    unfolding list_steps by (rule leaves_onLists; simp)+
  show "leaves ps_presets addHeaders" "leaves ps_presets normalizeAutoDj" "leaves ps_general normalizeAutoDj"
    "leaves ps_lists normalizeAutoDj"
    by (auto simp: leaves_def other_steps Let_def)
qed

lemma headers_kept: "keeps (\<lambda>st. headers_ok (ps_lists st)) addAlbumGroup"
proof -
  let ?P = "\<lambda>st. headers_ok (ps_lists st)"
  have one: "keeps ?P (onList (\<lambda>l. Some (case columnsOf l of None \<Rightarrow> l | Some cs \<Rightarrow> setColumns (f cs) l)) k)" for f k
    unfolding keeps_def
  proof (intro allI impI)
    fix st st' assume ok: "?P st" and st': "onList (\<lambda>l. Some (case columnsOf l of None \<Rightarrow> l | Some cs \<Rightarrow> setColumns (f cs) l)) k st = Some st'"
    show "?P st'"
    proof (cases "map_of (ps_lists st) k")
      case None
      with ok st' show ?thesis by (simp add: onList_def)
    next
      case (Some l)
      then have "(k, l) \<in> set (ps_lists st)" by (rule map_of_SomeD)
      with ok have l: "case lc_table l of None \<Rightarrow> True | Some t \<Rightarrow> tb_enableHeader t \<noteq> None"
        by (auto simp: headers_ok_def list_all_iff)
      let ?l = "case columnsOf l of None \<Rightarrow> l | Some cs \<Rightarrow> setColumns (f cs) l"
      from l have "case lc_table ?l of None \<Rightarrow> True | Some t \<Rightarrow> tb_enableHeader t \<noteq> None"
        by (cases "lc_table l") (auto simp: setColumns_def columnsOf_def split: option.splits)
      moreover from st' Some have "ps_lists st' = AList.update k ?l (ps_lists st)" by (auto simp: onList_def)
      ultimately show ?thesis using ok by (simp add: headers_ok_def list_all_update)
    qed
  qed
  show ?thesis unfolding addAlbumGroup_def addColumn_def onLists_def
    by (rule keeps_runSteps) (simp add: list_all_iff one)
qed

lemma withHeader_ok: "case lc_table (withHeader l) of None \<Rightarrow> True | Some t \<Rightarrow> tb_enableHeader t \<noteq> None"
  by (cases "lc_table l") (simp_all add: withHeader_def ex_bool_eq)

lemma headers_established: "establishes (\<lambda>st. headers_ok (ps_lists st)) addHeaders"
  using withHeader_ok by (auto simp: establishes_def addHeaders_def headers_ok_def list_all_iff)

lemma named_presets: "(\<And>n. newId n \<noteq> '''') \<Longrightarrow> presets_ok (Some (namePresets newId n ps))"
  by (induction newId n ps rule: namePresets.induct) (simp_all add: presets_ok_def update_conv')

lemma strategy_ok: "Some (normalizeAutoDjStrategy x) \<in> strategies"
  by (simp add: normalizeAutoDjStrategy_def strategies_def initialAutoDJ_def)

lemma others_migrated:
  "v \<le> 22 \<Longrightarrow> establishes (\<lambda>st. headers_ok (ps_lists st)) (runSteps (laterSteps tr newId v))"
  "v \<le> 23 \<Longrightarrow> establishes (\<lambda>st. favorites_ok (ge_artistItems (ps_general st))) (runSteps (laterSteps tr newId v))"
  "v \<le> 27 \<Longrightarrow> establishes (\<lambda>st. truthy (ge_sideQueueLayout (ps_general st))) (runSteps (laterSteps tr newId v))"
  "v \<le> 19 \<Longrightarrow> (\<And>n. newId n \<noteq> '''') \<Longrightarrow> establishes (\<lambda>st. presets_ok (ps_presets st)) (runSteps (laterSteps tr newId v))"
  "v < 28 \<Longrightarrow> establishes (\<lambda>st. autoDj_ok (ps_autoDJ st)) (runSteps (laterSteps tr newId v))"
proof -
  assume "v \<le> 22"
  then show "establishes (\<lambda>st. headers_ok (ps_lists st)) (runSteps (laterSteps tr newId v))"
    by (intro later_establishes [where i = 10])
      (simp_all add: laterSteps_def headers_established keeps_guarded headers_kept leaves_keeps [of ps_lists] leaves_other)
next
  assume "v \<le> 23"
  moreover have "establishes (\<lambda>st. favorites_ok (ge_artistItems (ps_general st))) addFavoriteSongs"
    by (auto simp: establishes_def addFavoriteSongs_def onGeneral_def favorites_ok_def split: option.splits if_splits)
  moreover have "keeps (\<lambda>st. favorites_ok (ge_artistItems (ps_general st))) setSideQueueLayout"
    by (auto simp: keeps_def setSideQueueLayout_def onGeneral_def)
  ultimately show "establishes (\<lambda>st. favorites_ok (ge_artistItems (ps_general st))) (runSteps (laterSteps tr newId v))"
    by (intro later_establishes [where i = 11])
      (simp_all add: laterSteps_def keeps_guarded leaves_keeps [of ps_general _ "\<lambda>g. favorites_ok (ge_artistItems g)"] leaves_other)
next
  assume "v \<le> 27"
  moreover have "establishes (\<lambda>st. truthy (ge_sideQueueLayout (ps_general st))) setSideQueueLayout"
    by (auto simp: establishes_def setSideQueueLayout_def onGeneral_def truthy_def)
  ultimately show "establishes (\<lambda>st. truthy (ge_sideQueueLayout (ps_general st))) (runSteps (laterSteps tr newId v))"
    by (intro later_establishes [where i = 13])
      (simp_all add: laterSteps_def keeps_guarded leaves_keeps [of ps_general _ "\<lambda>g. truthy (ge_sideQueueLayout g)"] leaves_other)
next
  assume "v \<le> 19" "\<And>n. newId n \<noteq> ''''"
  moreover from this(2) have "establishes (\<lambda>st. presets_ok (ps_presets st)) (addPresetIds newId)"
    using named_presets [of newId 0] by (auto simp: establishes_def addPresetIds_def presets_ok_def split: option.split)
  ultimately show "establishes (\<lambda>st. presets_ok (ps_presets st)) (runSteps (laterSteps tr newId v))"
    by (intro later_establishes [where i = 7])
      (simp_all add: laterSteps_def keeps_guarded leaves_keeps [of ps_presets] leaves_other)
next
  assume "v < 28"
  moreover have "establishes (\<lambda>st. autoDj_ok (ps_autoDJ st)) normalizeAutoDj"
    by (auto simp: establishes_def normalizeAutoDj_def Let_def autoDj_ok_def strategy_ok initialAutoDJ_def)
  ultimately show "establishes (\<lambda>st. autoDj_ok (ps_autoDJ st)) (runSteps (laterSteps tr newId v))"
    by (intro later_establishes [where i = 14]) (simp_all add: laterSteps_def)
qed

text \<open>The columns of the depth and the rate, the filters and the items of the sidebar.\<close>

lemma depth_established:
  assumes "k \<in> set depthLists" and "x \<in> {''bitDepth'', ''sampleRate''}"
  shows "establishes (\<lambda>st. hasColumn x (columnsAt k st)) addDepthAndRate"
  unfolding establishes_def addDepthAndRate_def
proof (intro allI impI)
  fix s s' assume "onLists (pushColumns [newColumn ''center'' ''bitDepth'' None 100, newColumn ''center'' ''sampleRate'' None 100])
      [''song'', ''playlistSong'', ''queueSong'', ''albumDetail'', ''fullscreen'', ''sidequeue''] s = Some s'"
  from columnsAt_push [OF _ this, of k] assms show "hasColumn x (columnsAt k s')"
    by (cases "columnsAt k s") (auto simp: hasColumn_def newColumn_def depthLists_def)
qed

lemma depth_migrated:
  assumes "v \<le> 14" and "k \<in> set depthLists" and "x \<in> {''bitDepth'', ''sampleRate''}"
  shows "establishes (\<lambda>st. hasColumn x (columnsAt k st)) (runSteps (laterSteps tr newId v))"
  using assms by (intro later_establishes [where i = 2] list_all_drop has_column_kept) (simp_all add: laterSteps_def depth_established)

lemma leaves_filters:
  "list_all (leaves ps_filters) (drop 7 (laterSteps tr newId v))"
proof -
  have "leaves ps_filters (onGeneral f)" for f by (rule leaves_onGeneral) simp
  moreover have "leaves ps_filters (onLists f ks)" for f ks by (rule leaves_onLists) simp
  moreover have "leaves ps_filters (guarded b f)" if "leaves ps_filters f" for b f using that by (cases b) (simp_all add: leaves_def)
  moreover have "leaves ps_filters (addPresetIds newId)" "leaves ps_filters addHeaders" "leaves ps_filters normalizeAutoDj"
    by (auto simp: leaves_def other_steps Let_def)
  ultimately show ?thesis
    by (simp add: laterSteps_def general_steps list_steps)
qed

lemma filters_migrated:
  assumes "v \<le> 18"
  shows "establishes (\<lambda>st. all_enabled (ps_filters st)) (runSteps (laterSteps tr newId v))"
proof (rule later_establishes [where i = 6])
  show "establishes (\<lambda>st. all_enabled (ps_filters st)) (laterSteps tr newId v ! 6)"
    using assms by (auto simp: laterSteps_def establishes_def enableFilters_def all_enabled_def list_all_iff update_conv'
        split: option.splits)
  show "list_all (keeps (\<lambda>st. all_enabled (ps_filters st))) (drop (Suc 6) (laterSteps tr newId v))"
    using leaves_filters [of tr newId v] by (auto simp: list_all_iff intro!: leaves_keeps [of ps_filters])
qed simp

lemma sidebar_pushed: "establishes (\<lambda>st. in_sidebar k (ps_general st)) (pushSidebar tr k label route)"
  by (auto simp: establishes_def pushSidebar_def onGeneral_def in_sidebar_def)

lemma sidebar_kept: "list_all (keeps (\<lambda>st. in_sidebar k (ps_general st))) (laterSteps tr newId v)"
proof -
  let ?P = "\<lambda>st. in_sidebar k (ps_general st)"
  have general: "keeps ?P (pushSidebar tr x label route)" "keeps ?P pushGenres" "keeps ?P addFavoriteSongs" "keeps ?P setSideQueueLayout"
    for x label route
    by (auto simp: keeps_def general_steps onGeneral_def in_sidebar_def split: option.splits if_splits)
  have lists: "keeps ?P (onLists f ks)" for f ks by (rule leaves_keeps [of ps_general]) (rule leaves_onLists, simp)
  have others: "keeps ?P releaseChannelBeta" "keeps ?P enableFilters" "keeps ?P (addPresetIds newId)" "keeps ?P addHeaders"
    "keeps ?P normalizeAutoDj"
    by (auto simp: keeps_def other_steps Let_def)
  have "keeps ?P splitLyrics"
    by (auto simp: keeps_def splitLyrics_def splitRecord_def Let_def split: option.splits json.splits if_splits)
  with general others show ?thesis by (simp add: laterSteps_def keeps_guarded list_steps lists)
qed

lemma sidebar_migrated:
  "v \<le> 12 \<Longrightarrow> establishes (\<lambda>st. in_sidebar ''Folders'' (ps_general st)) (runSteps (laterSteps tr newId v))"
  "v \<le> 15 \<Longrightarrow> establishes (\<lambda>st. in_sidebar ''Radio'' (ps_general st)) (runSteps (laterSteps tr newId v))"
proof -
  show "v \<le> 12 \<Longrightarrow> establishes (\<lambda>st. in_sidebar ''Folders'' (ps_general st)) (runSteps (laterSteps tr newId v))"
    by (intro later_establishes [where i = 0] list_all_drop sidebar_kept) (simp_all add: laterSteps_def sidebar_pushed)
  show "v \<le> 15 \<Longrightarrow> establishes (\<lambda>st. in_sidebar ''Radio'' (ps_general st)) (runSteps (laterSteps tr newId v))"
    by (intro later_establishes [where i = 3] list_all_drop sidebar_kept) (simp_all add: laterSteps_def sidebar_pushed)
qed

text \<open>
  C32: Settings of version 12 or a later one that the migration returns have what was added since that version
  (\<open>migratedFrom\<close>): the lists, where they have tables, the columns that are meant for them, the tables whether they have a
  header, the sidebar folders and radio, the filters are enabled, the presets have ids, the page of an artist favourite songs,
  the queue at the side a layout, and the auto DJ a mode and strategies that there are. (The lists of the queue at the side and
  on the full screen do not get bit depth and sample rate, since their keys are misspelt there.) New ids are not empty.
\<close>

theorem migrated_settings_are_up_to_date:
  assumes "12 \<le> version" and "\<And>n. newId n \<noteq> ''''" and "migrateSettings tr newId version st = Migrated st'"
  shows "migratedFrom version st'"
proof -
  have "runSteps (laterSteps tr newId version) st = Some st'" using migrated_new [OF assms(3)] assms(1) by simp
  then have to: "P st'" if "establishes P (runSteps (laterSteps tr newId version))" for P
    using that by (auto simp: establishes_def)
  show ?thesis unfolding migratedFrom_def list_all_iff
    by (intro conjI impI ballI to [OF sidebar_migrated(1)] to [OF sidebar_migrated(2)] to [OF depth_migrated] to [OF filters_migrated]
        to [OF columns_migrated(1)] to [OF columns_migrated(2)] to [OF columns_migrated(3)] to [OF others_migrated(1)]
        to [OF others_migrated(2)] to [OF others_migrated(3)] to [OF others_migrated(4)] to [OF others_migrated(5)])
      (use assms(2) in simp_all)
qed

section \<open>Settings that are up to date stay as they are\<close>

lemma update_same: "map_of m k = Some v \<Longrightarrow> AList.update k v m = m"
  by (induction m) auto

lemma runSteps_same: "list_all (\<lambda>f. f st = Some st) fs \<Longrightarrow> runSteps fs st = Some st"
  by (induction fs) simp_all

lemma setColumns_same: "columnsOf l = Some cs \<Longrightarrow> setColumns cs l = l"
  by (cases l; cases "lc_table l") (auto simp: columnsOf_def setColumns_def)

lemma addColumn_same:
  assumes "list_all (\<lambda>k. hasColumn (cc_id c) (columnsAt k st)) ks"
  shows "addColumn anchor c ks st = Some st"
proof -
  let ?f = "\<lambda>l. Some (case columnsOf l of None \<Rightarrow> l | Some cs \<Rightarrow> setColumns (placeColumn anchor c cs) l)"
  have "onList ?f k st = Some st" if "hasColumn (cc_id c) (columnsAt k st)" for k
  proof (cases "map_of (ps_lists st) k")
    case (Some l)
    have "?f l = Some l"
    proof (cases "columnsOf l")
      case cs: (Some cs)
      with Some that have "placeColumn anchor c cs = cs" by (intro placeColumn_there) (simp add: columnsAt_def hasColumn_def)
      with cs show ?thesis by (simp add: setColumns_same)
    qed simp
    with Some show ?thesis by (simp add: onList_def update_same)
  qed (simp add: onList_def)
  with assms show ?thesis unfolding addColumn_def onLists_def by (intro runSteps_same) (simp add: list_all_iff)
qed

lemma namePresets_same: "presets_ok (Some ps) \<Longrightarrow> namePresets newId n ps = ps"
  by (induction ps) (simp_all add: presets_ok_def)

lemma withHeader_same: "(case lc_table l of None \<Rightarrow> True | Some t \<Rightarrow> tb_enableHeader t \<noteq> None) \<Longrightarrow> withHeader l = l"
  by (cases l; cases "lc_table l") (auto simp: withHeader_def)

lemma headers_same: "headers_ok m \<Longrightarrow> map (\<lambda>(k, l). (k, withHeader l)) m = m"
  by (induction m) (auto simp: headers_ok_def withHeader_same)

lemma same_strategy: "x \<in> strategies \<Longrightarrow> Some (normalizeAutoDjStrategy x) = x"
  by (auto simp: strategies_def normalizeAutoDjStrategy_def)

lemma autoDj_same: "autoDj_ok (ps_autoDJ st) \<Longrightarrow> normalizeAutoDj st = Some st"
proof (cases "ps_autoDJ st")
  case (Some dj)
  assume "autoDj_ok (ps_autoDJ st)"
  with Some have dj: "ad_mode dj = Some ''albums'' \<or> ad_mode dj = Some ''songs''" "ad_songStrategy dj \<in> strategies"
    "ad_albumStrategy dj \<in> strategies" by (simp_all add: autoDj_ok_def)
  have mode: "(if ad_mode dj \<noteq> Some ''albums'' \<and> ad_mode dj \<noteq> Some ''songs'' then ad_mode initialAutoDJ else ad_mode dj) = ad_mode dj"
    using dj(1) by presburger
  have "normalizeAutoDj st = Some (st\<lparr>ps_autoDJ := Some dj\<rparr>)"
    unfolding normalizeAutoDj_def Let_def Some option.case nullish_or_def mode same_strategy [OF dj(2)] same_strategy [OF dj(3)]
    by simp
  with Some show ?thesis by simp
qed (simp add: autoDj_ok_def)

lemma other_same:
  "presets_ok (ps_presets st) \<Longrightarrow> addPresetIds newId st = Some st"
  "headers_ok (ps_lists st) \<Longrightarrow> addHeaders st = Some st"
  "favorites_ok (ge_artistItems (ps_general st)) \<Longrightarrow> addFavoriteSongs st = Some st"
  "truthy (ge_sideQueueLayout (ps_general st)) \<Longrightarrow> setSideQueueLayout st = Some st"
proof -
  show "presets_ok (ps_presets st) \<Longrightarrow> addPresetIds newId st = Some st"
    by (cases "ps_presets st") (simp_all add: addPresetIds_def namePresets_same)
  show "headers_ok (ps_lists st) \<Longrightarrow> addHeaders st = Some st"
    by (simp add: addHeaders_def headers_same)
  show "favorites_ok (ge_artistItems (ps_general st)) \<Longrightarrow> addFavoriteSongs st = Some st"
    by (auto simp: addFavoriteSongs_def onGeneral_def favorites_ok_def split: option.splits)
  show "truthy (ge_sideQueueLayout (ps_general st)) \<Longrightarrow> setSideQueueLayout st = Some st"
    by (simp add: setSideQueueLayout_def onGeneral_def)
qed

text \<open>Settings that are up to date are left as they are, so that migrating them again from version 19 on changes nothing.\<close>

theorem up_to_date_settings_stay:
  assumes "19 \<le> version" and "migratedFrom 19 st"
  shows "migrateSettings tr newId version st = Migrated st"
proof -
  note now = assms(2) [unfolded migratedFrom_def, simplified]
  have same: "guarded b f st = Some st" if "f st = Some st" for b f using that by (simp add: guarded_def)
  have "runSteps (laterSteps tr newId version) st = Some st"
    using assms(1) now unfolding laterSteps_def addTitleArtist_def addComposer_def addAlbumGroup_def
    by (intro runSteps_same) (simp add: same other_same autoDj_same addColumn_same newColumn_def)
  with assms(1) show ?thesis by (simp add: migrateSettings_def orError_def)
qed

section \<open>Flaws\<close>

lemma leaves_runSteps: "list_all (leaves g) fs \<Longrightarrow> leaves g (runSteps fs)"
proof (induction fs)
  case (Cons f fs)
  then have f: "leaves g f" and fs: "leaves g (runSteps fs)" by simp_all
  show ?case unfolding leaves_def
  proof (intro allI impI)
    fix st st' assume "runSteps (f # fs) st = Some st'"
    then obtain st1 where "f st = Some st1" "runSteps fs st1 = Some st'" by (auto simp: bind_eq_Some_conv)
    with f fs show "g st' = g st" unfolding leaves_def by metis
  qed
qed (simp add: leaves_def)

lemma leaves_guarded: "leaves g f \<Longrightarrow> leaves g (guarded b f)"
  by (cases b) (simp_all add: leaves_def)

lemma lyrics_left:
  "list_all (leaves (\<lambda>st. (ps_lyrics st, ps_lyricsDisplay st))) (take 5 (laterSteps tr newId v))"
proof -
  have "leaves (\<lambda>st. (ps_lyrics st, ps_lyricsDisplay st)) (onGeneral f)" for f by (rule leaves_onGeneral) simp
  moreover have "leaves (\<lambda>st. (ps_lyrics st, ps_lyricsDisplay st)) (onLists f ks)" for f ks by (rule leaves_onLists) simp
  moreover have "leaves (\<lambda>st. (ps_lyrics st, ps_lyricsDisplay st)) releaseChannelBeta"
    by (auto simp: leaves_def releaseChannelBeta_def)
  ultimately show ?thesis
    by (simp add: laterSteps_def leaves_guarded pushSidebar_def pushGenres_def addDepthAndRate_def)
qed

text \<open>
  C34: The settings of lyrics were a record of groups up to version 17, and those of their display did not exist. From version
  12 on the migration adds to the latter as if they did: it fails, so that settings of versions 12 to 17 with such a record are
  lost as a whole. (Those of version 9 and before are returned with the old record, and those of 10 and 11 are dropped anyway.)
\<close>

theorem old_lyrics_stop_migration:
  assumes "12 \<le> version" and "version \<le> 17" and "ps_lyrics st = Some (J_object old)" and "''default'' \<in> set (obj_keys old)"
    and "ps_lyricsDisplay st = None"
  shows "migrateSettings tr newId version st = Type_error"
proof -
  let ?L = "laterSteps tr newId version"
  have L: "?L = take 5 ?L @ splitLyrics # drop 6 ?L" using assms(2) by (simp add: laterSteps_def)
  have "Option.bind (runSteps (take 5 ?L) st) (runSteps (splitLyrics # drop 6 ?L)) = None"
  proof (cases "runSteps (take 5 ?L) st")
    case (Some s)
    with leaves_runSteps [OF lyrics_left] have "ps_lyrics s = ps_lyrics st" "ps_lyricsDisplay s = ps_lyricsDisplay st"
      unfolding leaves_def by blast+
    with assms(3-5) have "splitLyrics s = None" by (simp add: splitLyrics_def splitRecord_def Let_def)
    with Some show ?thesis by simp
  qed simp
  then have "runSteps ?L st = None" unfolding runSteps_append [symmetric] L [symmetric] .
  with assms(1) show ?thesis by (simp add: migrateSettings_def orError_def)
qed

text \<open>
  Up to version 9 none of the later steps is taken, although the settings are saved with the current version afterwards;
  and an artist background that had been switched off is on again. Settings of versions 10 and 11 are dropped.
\<close>

theorem oldest_settings_are_not_migrated:
  assumes "version \<le> 9" and "migrateSettings tr newId version st = Migrated st'"
  shows "ps_lists st' = ps_lists st \<and> ps_autoDJ st' = ps_autoDJ st \<and> ps_lyrics st' = ps_lyrics st
    \<and> ge_artistBackground (ps_general st') = Some True"
proof -
  from migrated_old [OF assms(2,1)] obtain s where s: "guarded (version = 8) (fromVersion8 tr) st = Some s" "st' = upToVersion9 s"
    by blast
  let ?g = "\<lambda>st. (ps_lists st, ps_autoDJ st, ps_lyrics st)"
  have "leaves ?g (onGeneral f)" for f by (rule leaves_onGeneral) simp
  then have "leaves ?g dropFolders" "leaves ?g (pushSidebar tr x label route)" for x label route
    by (simp_all add: dropFolders_def pushSidebar_def)
  with s(1) have "?g s = ?g st"
    by (auto simp: guarded_def fromVersion8_def leaves_def bind_eq_Some_conv split: if_splits)
  with s(2) show ?thesis by (simp add: upToVersion9_def Let_def)
qed

theorem settings_of_version_11_are_dropped:
  assumes "version \<in> {10, 11}"
  shows "migrateSettings tr newId version st \<in> {Emptied, Type_error}"
  using assms by (auto simp: migrateSettings_def orError_def guarded_def split: option.split)

section \<open>Examples\<close>

definition exampleSaved :: saved_settings where
  "exampleSaved =
     \<lparr>ps_autoDJ = None, ps_filters = Some [], 
      ps_general = \<lparr>ge_artistBackground = Some False, ge_artistBackgroundBlur = None, ge_artistItems = Some [], ge_homeItems = Some [],
        ge_sideQueueLayout = None, ge_sidebarItems = Some []\<rparr>,
      ps_lists = [(''song'', \<lparr>lc_table = Some \<lparr>tb_columns = Some [newColumn ''start'' ''titleCombined'' None 300,
        newColumn ''start'' ''artists'' None 300, newColumn ''start'' ''genres'' None 300], tb_enableHeader = None\<rparr>\<rparr>)],
      ps_lyrics = None, ps_lyricsDisplay = None, ps_mediaSession = None, ps_presets = Some [[]], ps_releaseChannel = None,
      ps_windowBarStyle = None\<rparr>"

definition exampleMigrated :: saved_settings where
  "exampleMigrated = (case migrateSettings id (\<lambda>n. ''preset'') 18 exampleSaved of Migrated st \<Rightarrow> st | _ \<Rightarrow> exampleSaved)"

lemma example_migrated: "migrateSettings id (\<lambda>n. ''preset'') 18 exampleSaved = Migrated exampleMigrated"
  by code_simp

lemma example_columns:
  "map_option (map cc_id) (columnsAt ''song'' exampleMigrated) =
    Some [''titleCombined'', ''titleArtist'', ''artists'', ''composer'', ''genres'', ''albumGroup'']"
  by code_simp


lemma migrated_settings_are_up_to_date_witness: "migratedFrom 18 exampleMigrated"
  by (rule migrated_settings_are_up_to_date [OF _ _ example_migrated]) simp_all

lemma up_to_date_settings_stay_witness: "migrateSettings id (\<lambda>n. ''preset'') 20 exampleMigrated = Migrated exampleMigrated"
  by (rule up_to_date_settings_stay) (simp, code_simp)

lemma old_lyrics_stop_migration_witness:
  "migrateSettings id (\<lambda>n. ''preset'') 17 (exampleSaved\<lparr>ps_lyrics := Some (J_object [(''default'', J_object [])])\<rparr>) = Type_error"
  by (rule old_lyrics_stop_migration [where old = "[(''default'', J_object [])]"]) (simp_all add: exampleSaved_def)

lemma oldest_settings_are_not_migrated_witness:
  "ps_autoDJ (upToVersion9 exampleSaved) = None \<and> ge_artistBackground (ps_general (upToVersion9 exampleSaved)) = Some True"
  using oldest_settings_are_not_migrated [of 9 id "\<lambda>n. ''preset''" exampleSaved "upToVersion9 exampleSaved"]
  by (simp add: migrateSettings_def orError_def) (simp add: exampleSaved_def)

lemma settings_of_version_11_are_dropped_witness: "migrateSettings id (\<lambda>n. ''preset'') 11 exampleSaved \<in> {Emptied, Type_error}"
  by (rule settings_of_version_11_are_dropped) simp

end
