(* ===== verification/RemoteServer.thy ===== *)
theory RemoteServer
  imports Lyrics PlayerTypes JsArrays
begin

text \<open>
  The remote control (\<^verbatim>\<open>main/features/core/remote/index.ts\<close>): a server that tells its clients over sockets what the player
  does, and hands their commands to the window. A step is one callback; what reaches it from outside is its argument. The
  other side of the sockets is \<^verbatim>\<open>remote/store/index.ts\<close>.
\<close>

section \<open>What is sent\<close>

text \<open>Of a song what the remote control reads or writes. A number that can be NaN is an option, and that is None.\<close>

record remote_song =
  rm_id :: string
  rm_imageUrl :: "string option"
  rm_serverId :: string
  rm_userFavorite :: bool
  rm_userRating :: "rat option"

record song_state =
  sg_position :: "rat option"
  sg_repeat :: "PlayerRepeat option"
  sg_shuffle :: "bool option"
  sg_song :: "remote_song option"
  sg_status :: "PlayerStatus option"
  sg_volume :: "rat option option"

definition noState :: song_state where
  "noState = \<lparr>sg_position = None, sg_repeat = None, sg_shuffle = None, sg_song = None, sg_status = None, sg_volume = None\<rparr>"

datatype client_event = Authenticate "string option" | Cl_favorite bool "string option" | Cl_next | Cl_pause | Cl_play
  | Cl_previous | Cl_proxy | Cl_rating "string option" "rat option" | Cl_repeat | Cl_shuffle | Cl_volume "rat option"
  | Cl_position rat | Cl_unknown string

datatype server_event = Sv_error string | Sv_favorite bool string | Sv_playback PlayerStatus | Sv_position rat | Sv_proxy string
  | Sv_rating "rat option" string | Sv_repeat PlayerRepeat | Sv_shuffle bool | Sv_song "remote_song option"
  | Sv_state song_state | Sv_volume "rat option"

datatype window_command = Request_favorite bool string string | Player_next | Player_pause | Player_play | Player_previous
  | Request_rating string "rat option" string | Toggle_repeat | Toggle_shuffle | Request_volume "rat option" | Request_position rat

datatype remote_effect = To_client nat server_event | To_window window_command | Close_client nat "nat option" | Fetch nat string
  | Mpris_volume "rat option" | Mpris_position rat | Ping nat | Terminate nat

section \<open>The server\<close>

text \<open>
  A socket: whether it has answered the last ping, has authenticated, is open, and has a timer that waits for its
  authentication. The sockets of the present server are listed; those of one that was replaced still have their callbacks.
\<close>

record remote_client =
  rc_alive :: bool
  rc_auth :: bool
  rc_open :: bool
  rc_timer :: bool

record remote_world =
  rw_clients :: "nat \<Rightarrow> remote_client option"
  rw_current :: "nat list"
  rw_mpris :: bool
  rw_out :: "remote_effect list"
  rw_password :: string
  rw_state :: song_state
  rw_up :: bool
  rw_username :: string

definition remoteEmit :: "remote_effect \<Rightarrow> remote_world \<Rightarrow> remote_world" where
  "remoteEmit x w = w\<lparr>rw_out := rw_out w @ [x]\<rparr>"

definition onClient :: "nat \<Rightarrow> (remote_client \<Rightarrow> remote_client) \<Rightarrow> remote_world \<Rightarrow> remote_world" where
  "onClient i f w = w\<lparr>rw_clients := (rw_clients w)(i := map_option f (rw_clients w i))\<rparr>"

definition hears :: "nat \<Rightarrow> remote_world \<Rightarrow> bool" where
  "hears i w \<longleftrightarrow> (case rw_clients w i of None \<Rightarrow> False | Some c \<Rightarrow> rc_open c \<and> rc_alive c \<and> rc_auth c)"

definition send :: "nat \<Rightarrow> server_event \<Rightarrow> remote_world \<Rightarrow> remote_world" where
  "send i ev w = (if hears i w then remoteEmit (To_client i ev) w else w)"

definition broadcast :: "server_event \<Rightarrow> remote_world \<Rightarrow> remote_world" where
  "broadcast ev w = (if rw_up w then fold (\<lambda>i. send i ev) (rw_current w) w else w)"

definition closeClient :: "nat option \<Rightarrow> nat \<Rightarrow> remote_world \<Rightarrow> remote_world" where
  "closeClient code i w = remoteEmit (Close_client i code) (onClient i (\<lambda>c. c\<lparr>rc_open := False\<rparr>) w)"

definition closeAll :: "nat \<Rightarrow> remote_world \<Rightarrow> remote_world" where
  "closeAll code w = (if rw_up w then fold (closeClient (Some code)) (rw_current w) w else w)"

definition shutdownServer :: "remote_world \<Rightarrow> remote_world" where
  "shutdownServer w = (closeAll 4000 w)\<lparr>rw_up := False, rw_current := []\<rparr>"

text \<open>A new server takes the place of the old one, whose sockets are neither closed nor told.\<close>

definition enableServer :: "remote_world \<Rightarrow> remote_world" where
  "enableServer w = w\<lparr>rw_up := True, rw_current := []\<rparr>"

section \<open>Credentials\<close>

text \<open>The name and the password are the first two parts of the decoded text; a password has no colon then.\<close>

definition credentialsMatch :: "string \<Rightarrow> string \<Rightarrow> string \<Rightarrow> bool" where
  "credentialsMatch username password credentials =
     (let parts = splitOn (CHR '':'') credentials
      in length parts \<ge> 2 \<and> parts ! 0 = username \<and> parts ! 1 = password)"

definition authorize :: "(string \<Rightarrow> string) \<Rightarrow> string \<Rightarrow> string \<Rightarrow> string option \<Rightarrow> bool" where
  "authorize decode username password header =
     (if username \<noteq> '''' \<or> password \<noteq> ''''
      then let parts = (case header of None \<Rightarrow> [] | Some h \<Rightarrow> splitOn (CHR '' '') h)
           in credentialsMatch username password (decode (if length parts > 1 then parts ! 1 else ''''))
      else True)"

text \<open>A header without a second part is an error, which is caught.\<close>

definition remoteAuthenticate :: "(string \<Rightarrow> string) \<Rightarrow> nat \<Rightarrow> string option \<Rightarrow> remote_world \<Rightarrow> remote_world" where
  "remoteAuthenticate decode i header w =
     (case header of
        None \<Rightarrow> w
      | Some h \<Rightarrow>
          let parts = splitOn (CHR '' '') h
          in if length parts < 2 then w
             else onClient i (\<lambda>c. c\<lparr>rc_timer := False\<rparr>)
               (if credentialsMatch (rw_username w) (rw_password w) (decode (parts ! 1))
                then onClient i (\<lambda>c. c\<lparr>rc_auth := True\<rparr>) w else closeClient None i w))"

section \<open>Commands of clients\<close>

definition clampVolume :: "rat option \<Rightarrow> rat option" where
  "clampVolume v = map_option (\<lambda>x. if x > 100 then 100 else if x < 0 then 0 else x) v"

text \<open>The address of the image without its size.\<close>

definition sizeParam :: "string \<Rightarrow> nat option" where
  "sizeParam s =
     (case find (\<lambda>p. take (length p) s = p) [''&size='', ''&width='', ''&height=''] of
        None \<Rightarrow> None
      | Some p \<Rightarrow> (let ds = takeWhile isDigit (drop (length p) s) in if ds = [] then None else Some (length p + length ds)))"

definition withoutSize :: "string \<Rightarrow> string" where
  "withoutSize url = replaceAll sizeParam '''' url"

definition currentSongIs :: "string option \<Rightarrow> remote_world \<Rightarrow> remote_song option" where
  "currentSongIs k w = (case sg_song (rw_state w) of None \<Rightarrow> None | Some s \<Rightarrow> if truthy k \<and> k = Some (rm_id s) then Some s else None)"

definition mprisDo :: "remote_effect \<Rightarrow> remote_world \<Rightarrow> remote_world" where
  "mprisDo x w = (if rw_mpris w then remoteEmit x w else w)"

definition onState :: "(song_state \<Rightarrow> song_state) \<Rightarrow> remote_world \<Rightarrow> remote_world" where
  "onState f w = w\<lparr>rw_state := f (rw_state w)\<rparr>"

definition remoteVolume :: "rat option \<Rightarrow> remote_world \<Rightarrow> remote_world" where
  "remoteVolume v w =
     (let x = clampVolume v
      in mprisDo (Mpris_volume (map_option (\<lambda>y. y / 100) x))
           (remoteEmit (To_window (Request_volume x)) (broadcast (Sv_volume x) (onState (sg_volume_update (\<lambda>_. Some x)) w))))"

fun handleEvent :: "nat \<Rightarrow> client_event \<Rightarrow> remote_world \<Rightarrow> remote_world" where
  "handleEvent i (Authenticate h) w = w"
| "handleEvent i (Cl_favorite b k) w =
     (case currentSongIs k w of None \<Rightarrow> w | Some s \<Rightarrow> remoteEmit (To_window (Request_favorite b (rm_id s) (rm_serverId s))) w)"
| "handleEvent i Cl_next w = remoteEmit (To_window Player_next) w"
| "handleEvent i Cl_pause w = remoteEmit (To_window Player_pause) w"
| "handleEvent i Cl_play w = remoteEmit (To_window Player_play) w"
| "handleEvent i Cl_previous w = remoteEmit (To_window Player_previous) w"
| "handleEvent i Cl_proxy w =
     (let url = map_option withoutSize (Option.bind (sg_song (rw_state w)) rm_imageUrl)
      in if truthy url then remoteEmit (Fetch i (the url)) w else w)"
| "handleEvent i (Cl_rating k r) w =
     (case currentSongIs k w of None \<Rightarrow> w | Some s \<Rightarrow> remoteEmit (To_window (Request_rating (rm_id s) r (rm_serverId s))) w)"
| "handleEvent i Cl_repeat w = remoteEmit (To_window Toggle_repeat) w"
| "handleEvent i Cl_shuffle w = remoteEmit (To_window Toggle_shuffle) w"
| "handleEvent i (Cl_volume v) w = remoteVolume v w"
| "handleEvent i (Cl_position p) w = remoteEmit (To_window (Request_position p)) (mprisDo (Mpris_position (p * 1000000)) w)"
| "handleEvent i (Cl_unknown e) w = w"

text \<open>A message that cannot be read is None.\<close>

definition onMessage :: "(string \<Rightarrow> string) \<Rightarrow> nat \<Rightarrow> client_event option \<Rightarrow> remote_world \<Rightarrow> remote_world" where
  "onMessage decode i m w =
     (case (m, rw_clients w i) of
        (Some ev, Some c) \<Rightarrow>
          if rc_auth c then handleEvent i ev w
          else (case ev of Authenticate h \<Rightarrow> remoteAuthenticate decode i h w | _ \<Rightarrow> w)
      | _ \<Rightarrow> w)"

definition onConnection :: "nat \<Rightarrow> remote_world \<Rightarrow> remote_world" where
  "onConnection i w =
     (let free = rw_username w = '''' \<and> rw_password w = '''';
          c = \<lparr>rc_alive = True, rc_auth = free, rc_open = True, rc_timer = \<not> free\<rparr>
      in remoteEmit (To_client i (Sv_state (rw_state w)))
           (w\<lparr>rw_clients := (rw_clients w)(i \<mapsto> c), rw_current := rw_current w @ [i]\<rparr>))"

definition authTimeout :: "nat \<Rightarrow> remote_world \<Rightarrow> remote_world" where
  "authTimeout i w =
     (case rw_clients w i of
        None \<Rightarrow> w
      | Some c \<Rightarrow>
          if \<not> rc_timer c then w
          else let w' = onClient i (\<lambda>c. c\<lparr>rc_timer := False\<rparr>) w in if rc_auth c then w' else closeClient None i w')"

text \<open>The image that was fetched, or why it was not.\<close>

definition proxyAnswer :: "nat \<Rightarrow> string + string \<Rightarrow> remote_world \<Rightarrow> remote_world" where
  "proxyAnswer i r w = send i (case r of Inl e \<Rightarrow> Sv_error e | Inr d \<Rightarrow> Sv_proxy d) w"

definition pingClient :: "nat \<Rightarrow> remote_world \<Rightarrow> remote_world" where
  "pingClient i w =
     (case rw_clients w i of
        None \<Rightarrow> w
      | Some c \<Rightarrow>
          if \<not> rc_alive c then remoteEmit (Terminate i) (onClient i (\<lambda>c. c\<lparr>rc_open := False\<rparr>) w)
          else remoteEmit (Ping i) (onClient i (\<lambda>c. c\<lparr>rc_alive := False\<rparr>) w))"

definition heartBeat :: "remote_world \<Rightarrow> remote_world" where
  "heartBeat w = (if rw_up w then fold pingClient (rw_current w) w else w)"

section \<open>What the window tells\<close>

definition onSong :: "(remote_song \<Rightarrow> remote_song) \<Rightarrow> remote_world \<Rightarrow> remote_world" where
  "onSong f = onState (\<lambda>s. s\<lparr>sg_song := map_option f (sg_song s)\<rparr>)"

definition remoteSongOf :: "string \<Rightarrow> string list \<Rightarrow> remote_world \<Rightarrow> string option" where
  "remoteSongOf serverId ids w =
     (case sg_song (rw_state w) of
        None \<Rightarrow> None
      | Some s \<Rightarrow> if rm_serverId s = serverId \<and> rm_id s \<in> set ids then Some (rm_id s) else None)"

definition updateFavorite :: "bool \<Rightarrow> string \<Rightarrow> string list \<Rightarrow> remote_world \<Rightarrow> remote_world" where
  "updateFavorite favorite serverId ids w =
     (case remoteSongOf serverId ids w of
        None \<Rightarrow> w
      | Some k \<Rightarrow> broadcast (Sv_favorite favorite k) (onSong (rm_userFavorite_update (\<lambda>_. favorite)) w))"

definition updateRating :: "rat option \<Rightarrow> string \<Rightarrow> string list \<Rightarrow> remote_world \<Rightarrow> remote_world" where
  "updateRating rating serverId ids w =
     (case remoteSongOf serverId ids w of
        None \<Rightarrow> w
      | Some k \<Rightarrow> broadcast (Sv_rating rating k) (onSong (rm_userRating_update (\<lambda>_. rating)) w))"

definition updateSong :: "remote_song option \<Rightarrow> string option \<Rightarrow> remote_world \<Rightarrow> remote_world" where
  "updateSong song0 imageUrl w =
     (let songChanged = map_option rm_id song0 \<noteq> map_option rm_id (sg_song (rw_state w));
          song = map_option (rm_imageUrl_update (\<lambda>_. if truthy imageUrl then imageUrl else None)) song0;
          w' = onState (sg_song_update (\<lambda>_. song)) w
      in if songChanged then broadcast (Sv_song song) w' else w')"

datatype remote_input = Connect nat | Auth_timeout nat | Message nat "client_event option" | Pong nat | Heartbeat | Gone nat
  | Proxy_answer nat "string + string"
  | Remote_enable bool | Remote_password string | Remote_settings bool string string | Remote_username string
  | Update_favorite bool string "string list" | Update_rating "rat option" string "string list" | Update_repeat PlayerRepeat
  | Update_shuffle bool | Update_playback PlayerStatus | Update_song "remote_song option" "string option" | Update_volume rat
  | Update_position rat

definition setEnabled :: "bool \<Rightarrow> remote_world \<Rightarrow> remote_world" where
  "setEnabled b w = (if b then enableServer w else shutdownServer w)"

text \<open>A socket that connects is a new one; one that is gone is no longer listed.\<close>

fun remote_step :: "(string \<Rightarrow> string) \<Rightarrow> remote_input \<Rightarrow> remote_world \<Rightarrow> remote_world" where
  "remote_step decode (Connect i) w = (if rw_up w \<and> rw_clients w i = None then onConnection i w else w)"
| "remote_step decode (Auth_timeout i) w = authTimeout i w"
| "remote_step decode (Message i m) w = onMessage decode i m w"
| "remote_step decode (Pong i) w = onClient i (\<lambda>c. c\<lparr>rc_alive := True\<rparr>) w"
| "remote_step decode Heartbeat w = heartBeat w"
| "remote_step decode (Gone i) w = onClient i (\<lambda>c. c\<lparr>rc_open := False\<rparr>) (w\<lparr>rw_current := filter (\<lambda>j. j \<noteq> i) (rw_current w)\<rparr>)"
| "remote_step decode (Proxy_answer i r) w = proxyAnswer i r w"
| "remote_step decode (Remote_enable b) w = setEnabled b w"
| "remote_step decode (Remote_password p) w = closeAll 4002 (w\<lparr>rw_password := p\<rparr>)"
| "remote_step decode (Remote_settings b u p) w = setEnabled b (w\<lparr>rw_username := u, rw_password := p\<rparr>)"
| "remote_step decode (Remote_username u) w = closeAll 4002 (w\<lparr>rw_username := u\<rparr>)"
| "remote_step decode (Update_favorite b s ids) w = updateFavorite b s ids w"
| "remote_step decode (Update_rating r s ids) w = updateRating r s ids w"
| "remote_step decode (Update_repeat r) w = broadcast (Sv_repeat r) (onState (sg_repeat_update (\<lambda>_. Some r)) w)"
| "remote_step decode (Update_shuffle b) w = broadcast (Sv_shuffle b) (onState (sg_shuffle_update (\<lambda>_. Some b)) w)"
| "remote_step decode (Update_playback p) w = broadcast (Sv_playback p) (onState (sg_status_update (\<lambda>_. Some p)) w)"
| "remote_step decode (Update_song s url) w = updateSong s url w"
| "remote_step decode (Update_volume v) w = broadcast (Sv_volume (Some v)) (onState (sg_volume_update (\<lambda>_. Some (Some v))) w)"
| "remote_step decode (Update_position p) w = broadcast (Sv_position p) (onState (sg_position_update (\<lambda>_. Some p)) w)"

definition remote_start :: "string \<Rightarrow> string \<Rightarrow> bool \<Rightarrow> remote_world" where
  "remote_start username password mpris = \<lparr>rw_clients = (\<lambda>_. None), rw_current = [], rw_mpris = mpris, rw_out = [],
     rw_password = password, rw_state = noState, rw_up = False, rw_username = username\<rparr>"

section \<open>The other side\<close>

text \<open>What a client makes of what it receives.\<close>

fun receive :: "server_event \<Rightarrow> song_state \<Rightarrow> song_state" where
  "receive (Sv_error e) s = s"
| "receive (Sv_favorite b k) s = s\<lparr>sg_song := map_option (\<lambda>x. if rm_id x = k then x\<lparr>rm_userFavorite := b\<rparr> else x) (sg_song s)\<rparr>"
| "receive (Sv_playback p) s = s\<lparr>sg_status := Some p\<rparr>"
| "receive (Sv_position p) s = s\<lparr>sg_position := Some p\<rparr>"
| "receive (Sv_proxy d) s = s\<lparr>sg_song := map_option (\<lambda>x. x\<lparr>rm_imageUrl := Some (''data:image/jpeg;base64,'' @ d)\<rparr>) (sg_song s)\<rparr>"
| "receive (Sv_rating r k) s = s\<lparr>sg_song := map_option (\<lambda>x. if rm_id x = k then x\<lparr>rm_userRating := r\<rparr> else x) (sg_song s)\<rparr>"
| "receive (Sv_repeat r) s = s\<lparr>sg_repeat := Some r\<rparr>"
| "receive (Sv_shuffle b) s = s\<lparr>sg_shuffle := Some b\<rparr>"
| "receive (Sv_song x) s = s\<lparr>sg_song := x\<rparr>"
| "receive (Sv_state t) s = t"
| "receive (Sv_volume v) s = s\<lparr>sg_volume := Some v\<rparr>"

section \<open>What the operations leave as it is\<close>

definition authOf :: "nat \<Rightarrow> remote_world \<Rightarrow> bool option" where
  "authOf i w = map_option rc_auth (rw_clients w i)"

lemma fold_same: "(\<And>x s. g (f x s) = g s) \<Longrightarrow> g (fold f xs s) = g s"
  by (induction xs arbitrary: s) simp_all

lemma remoteEmit_simps [simp]:
  "rw_clients (remoteEmit x w) = rw_clients w" "rw_current (remoteEmit x w) = rw_current w" "rw_state (remoteEmit x w) = rw_state w"
  "rw_up (remoteEmit x w) = rw_up w" "rw_out (remoteEmit x w) = rw_out w @ [x]" "rw_username (remoteEmit x w) = rw_username w"
  "rw_password (remoteEmit x w) = rw_password w"
  by (simp_all add: remoteEmit_def)

lemma onClient_simps [simp]:
  "rw_current (onClient i f w) = rw_current w" "rw_state (onClient i f w) = rw_state w" "rw_up (onClient i f w) = rw_up w"
  "rw_out (onClient i f w) = rw_out w" "rw_username (onClient i f w) = rw_username w" "rw_password (onClient i f w) = rw_password w"
  "rw_clients (onClient i f w) = (rw_clients w)(i := map_option f (rw_clients w i))"
  by (simp_all add: onClient_def)

lemma onState_simps [simp]:
  "rw_clients (onState g w) = rw_clients w" "rw_current (onState g w) = rw_current w" "rw_state (onState g w) = g (rw_state w)"
  "rw_up (onState g w) = rw_up w" "rw_out (onState g w) = rw_out w"
  by (simp_all add: onState_def)

lemma send_simps [simp]:
  "rw_clients (send i ev w) = rw_clients w" "rw_current (send i ev w) = rw_current w" "rw_state (send i ev w) = rw_state w"
  "rw_up (send i ev w) = rw_up w"
  by (simp_all add: send_def)

lemma broadcast_simps [simp]:
  "rw_clients (broadcast ev w) = rw_clients w" "rw_current (broadcast ev w) = rw_current w"
  "rw_state (broadcast ev w) = rw_state w" "rw_up (broadcast ev w) = rw_up w"
  by (simp_all add: broadcast_def fold_same [where g = rw_clients] fold_same [where g = rw_current]
      fold_same [where g = rw_state] fold_same [where g = rw_up])

lemma closeClient_simps [simp]:
  "rw_current (closeClient code i w) = rw_current w" "rw_state (closeClient code i w) = rw_state w" "rw_up (closeClient code i w) = rw_up w"
  "rw_out (closeClient code i w) = rw_out w @ [Close_client i code]"
  by (simp_all add: closeClient_def)

lemma mprisDo_simps [simp]:
  "rw_clients (mprisDo x w) = rw_clients w" "rw_current (mprisDo x w) = rw_current w" "rw_state (mprisDo x w) = rw_state w"
  "rw_up (mprisDo x w) = rw_up w"
  by (simp_all add: mprisDo_def)

lemma onSong_simps [simp]:
  "rw_clients (onSong g w) = rw_clients w" "rw_current (onSong g w) = rw_current w" "rw_up (onSong g w) = rw_up w"
  "rw_out (onSong g w) = rw_out w" "rw_state (onSong g w) = rw_state w\<lparr>sg_song := map_option g (sg_song (rw_state w))\<rparr>"
  by (simp_all add: onSong_def)

lemma pingClient_simps [simp]:
  "rw_current (pingClient i w) = rw_current w" "rw_state (pingClient i w) = rw_state w" "rw_up (pingClient i w) = rw_up w"
  by (simp_all add: pingClient_def split: option.split)

lemma closed_and_pinged [simp]:
  "rw_state (closeAll code w) = rw_state w" "rw_current (closeAll code w) = rw_current w" "rw_up (closeAll code w) = rw_up w"
  "rw_state (heartBeat w) = rw_state w" "rw_current (heartBeat w) = rw_current w" "rw_up (heartBeat w) = rw_up w"
  by (simp_all add: closeAll_def heartBeat_def fold_same [where g = rw_current] fold_same [where g = rw_state] fold_same [where g = rw_up])

lemma update_clients [simp]:
  "rw_clients (remoteVolume v w) = rw_clients w" "rw_clients (updateSong s url w) = rw_clients w"
  "rw_clients (updateFavorite b k ids w) = rw_clients w" "rw_clients (updateRating r k ids w) = rw_clients w"
  by (simp_all add: remoteVolume_def updateSong_def updateFavorite_def updateRating_def Let_def split: option.split)

lemma handled_clients [simp]: "rw_clients (handleEvent i ev w) = rw_clients w"
  by (cases ev) (simp_all add: Let_def split: option.split)

section \<open>Only clients with credentials have authenticated\<close>

text \<open>The step that lets a client in.\<close>

definition admitted :: "(string \<Rightarrow> string) \<Rightarrow> nat \<Rightarrow> remote_input \<Rightarrow> remote_world \<Rightarrow> bool" where
  "admitted decode i a w \<longleftrightarrow>
     (case a of
        Connect j \<Rightarrow> j = i \<and> rw_username w = '''' \<and> rw_password w = ''''
      | Message j (Some (Authenticate (Some h))) \<Rightarrow>
          j = i \<and> credentialsMatch (rw_username w) (rw_password w) (decode (splitOn (CHR '' '') h ! 1))
      | _ \<Rightarrow> False)"

lemma authOf_simps [simp]:
  "authOf i (remoteEmit x w) = authOf i w"
  "authOf i (closeClient code j w) = authOf i w"
  "authOf i (pingClient j w) = authOf i w"
  "authOf i (onClient j (\<lambda>c. c\<lparr>rc_alive := b\<rparr>) w) = authOf i w"
  "authOf i (onClient j (\<lambda>c. c\<lparr>rc_open := b\<rparr>) w) = authOf i w"
  "authOf i (onClient j (\<lambda>c. c\<lparr>rc_timer := b\<rparr>) w) = authOf i w"
  by (auto simp: authOf_def closeClient_def pingClient_def option.map_comp comp_def split: option.split)

lemma authOf_cong: "rw_clients w' = rw_clients w \<Longrightarrow> authOf i w' = authOf i w"
  by (simp add: authOf_def)

lemma authOf_all [simp]:
  "authOf i (closeAll code w) = authOf i w" "authOf i (heartBeat w) = authOf i w"
  by (simp_all add: closeAll_def heartBeat_def fold_same [where g = "authOf i"])

lemma authOf_enabled [simp]: "authOf i (setEnabled b w) = authOf i w"
proof -
  have "authOf i (w\<lparr>rw_up := x, rw_current := js\<rparr>) = authOf i w" for x js w by (simp add: authOf_def)
  then show ?thesis by (simp add: setEnabled_def enableServer_def shutdownServer_def)
qed

lemma authOf_updates [simp]:
  "authOf i (broadcast ev w) = authOf i w" "authOf i (onState f w) = authOf i w" "authOf i (proxyAnswer j r w) = authOf i w"
  "authOf i (updateFavorite b k ids w) = authOf i w" "authOf i (updateRating x k ids w) = authOf i w"
  "authOf i (updateSong s url w) = authOf i w"
  by (rule authOf_cong, simp add: proxyAnswer_def)+

lemma authOf_message:
  assumes "authOf i (onMessage decode j m w) = Some True" and "authOf i w \<noteq> Some True"
  shows "admitted decode i (Message j m) w"
proof (cases "(m, rw_clients w j)")
  case (Pair m' x)
  show ?thesis
  proof (cases "\<exists>h c. m = Some (Authenticate (Some h)) \<and> rw_clients w j = Some c \<and> \<not> rc_auth c")
    case True
    then obtain h c where hc: "m = Some (Authenticate (Some h))" "rw_clients w j = Some c" "\<not> rc_auth c" by blast
    let ?match = "credentialsMatch (rw_username w) (rw_password w) (decode (splitOn (CHR '' '') h ! 1))"
    have "authOf i (onClient j (\<lambda>c. c\<lparr>rc_auth := True\<rparr>) w) = Some True \<Longrightarrow> j = i"
      using assms(2) by (auto simp: authOf_def split: if_splits)
    with assms hc show ?thesis
      by (cases ?match) (auto simp: onMessage_def remoteAuthenticate_def admitted_def Let_def split: if_splits)
  next
    case False
    then have "rw_clients (onMessage decode j m w) = rw_clients w"
      by (auto simp: onMessage_def remoteAuthenticate_def split: option.split client_event.split)
    then show ?thesis using assms by (simp add: authOf_def)
  qed
qed

lemma authOf_step:
  assumes "authOf i (remote_step decode a w) = Some True" and "authOf i w \<noteq> Some True"
  shows "admitted decode i a w"
proof (cases a)
  case (Connect j)
  with assms show ?thesis by (auto simp: authOf_def onConnection_def admitted_def Let_def split: if_splits)
next
  case (Auth_timeout j)
  then have "authOf i (remote_step decode a w) = authOf i w" by (simp add: authTimeout_def Let_def split: option.split)
  with assms show ?thesis by simp
next
  case (Message j m)
  with assms authOf_message show ?thesis by simp
next
  case (Gone j)
  have "authOf i (w\<lparr>rw_current := js\<rparr>) = authOf i w" for js by (simp add: authOf_def)
  with Gone assms show ?thesis by simp
next
  case (Remote_password p)
  have "authOf i (w\<lparr>rw_password := p\<rparr>) = authOf i w" by (simp add: authOf_def)
  with Remote_password assms show ?thesis by simp
next
  case (Remote_username p)
  have "authOf i (w\<lparr>rw_username := p\<rparr>) = authOf i w" by (simp add: authOf_def)
  with Remote_username assms show ?thesis by simp
next
  case (Remote_settings b u p)
  have "authOf i (w\<lparr>rw_username := u, rw_password := p\<rparr>) = authOf i w" by (simp add: authOf_def)
  with Remote_settings assms show ?thesis by simp
qed (use assms in simp_all)

text \<open>
  C36: Whatever happens, a client that is let in has sent the name and the password that were set then, or has connected while
  neither was set.
\<close>

theorem authenticated_clients_had_credentials:
  assumes "rw_clients (fold (remote_step decode) inputs (remote_start username password mpris)) i = Some c" and "rc_auth c"
  shows "\<exists>n < length inputs. admitted decode i (inputs ! n)
    (fold (remote_step decode) (take n inputs) (remote_start username password mpris))"
proof -
  let ?w = "remote_start username password mpris"
  have "authOf i (fold (remote_step decode) inputs ?w) = Some True \<Longrightarrow>
      \<exists>n < length inputs. admitted decode i (inputs ! n) (fold (remote_step decode) (take n inputs) ?w)"
  proof (induction inputs rule: rev_induct)
    case Nil
    then show ?case by (simp add: authOf_def remote_start_def)
  next
    case (snoc a inputs)
    show ?case
    proof (cases "authOf i (fold (remote_step decode) inputs ?w) = Some True")
      case True
      from snoc.IH [OF this] obtain n where "n < length inputs"
        "admitted decode i (inputs ! n) (fold (remote_step decode) (take n inputs) ?w)" by blast
      then show ?thesis by (intro exI [of _ n]) (simp add: nth_append)
    next
      case False
      from authOf_step [OF _ this, of decode a] snoc.prems show ?thesis by (intro exI [of _ "length inputs"]) simp
    qed
  qed
  with assms show ?thesis by (simp add: authOf_def)
qed

text \<open>C37: A message of a client that has not authenticated tells the window nothing and changes nothing but the client.\<close>

theorem unauthenticated_messages_do_nothing:
  assumes "rw_clients w i = Some c" and "\<not> rc_auth c" and "w' = remote_step decode (Message i m) w"
  shows "rw_state w' = rw_state w \<and> rw_out w' \<in> {rw_out w, rw_out w @ [Close_client i None]}
    \<and> rw_clients w' = (rw_clients w)(i := rw_clients w' i)"
proof (cases "\<exists>h. m = Some (Authenticate (Some h))")
  case True
  then obtain h where h: "m = Some (Authenticate (Some h))" by blast
  let ?match = "credentialsMatch (rw_username w) (rw_password w) (decode (splitOn (CHR '' '') h ! 1))"
  have "w' = remoteAuthenticate decode i (Some h) w" unfolding assms(3) h using assms(1,2) by (simp add: onMessage_def)
  then show ?thesis
    by (cases "length (splitOn (CHR '' '') h) < 2"; cases ?match) (simp_all add: remoteAuthenticate_def closeClient_def)
next
  case False
  with assms(1,2) have "w' = w" unfolding assms(3)
    by (auto simp: onMessage_def remoteAuthenticate_def split: option.split client_event.split)
  then show ?thesis by simp
qed

section \<open>A client that listens shows the state\<close>

definition received :: "nat \<Rightarrow> remote_world \<Rightarrow> server_event list" where
  "received i w = List.map_filter (\<lambda>x. case x of To_client j ev \<Rightarrow> if j = i then Some ev else None | _ \<Rightarrow> None) (rw_out w)"

definition view :: "nat \<Rightarrow> remote_world \<Rightarrow> song_state" where
  "view i w = fold receive (received i w) noState"

text \<open>
  What of a song the two are compared on: its id alone, or also the server, the favourite and the rating, which the remote
  control shows; the image can differ, which the client asks for by itself.
\<close>

definition shown :: "bool \<Rightarrow> remote_song \<Rightarrow> remote_song" where
  "shown full x = (if full then x\<lparr>rm_imageUrl := None\<rparr>
     else x\<lparr>rm_imageUrl := None, rm_serverId := '''', rm_userFavorite := False, rm_userRating := None\<rparr>)"

definition agrees :: "bool \<Rightarrow> song_state \<Rightarrow> song_state \<Rightarrow> bool" where
  "agrees full v s \<longleftrightarrow> map_option (shown full) (sg_song v) = map_option (shown full) (sg_song s) \<and> sg_position v = sg_position s
     \<and> sg_repeat v = sg_repeat s \<and> sg_shuffle v = sg_shuffle s \<and> sg_status v = sg_status s \<and> sg_volume v = sg_volume s"

text \<open>An update of the song that names the one that is there already tells nothing new of it.\<close>

definition repeats :: "remote_song option \<Rightarrow> remote_world \<Rightarrow> bool" where
  "repeats song w \<longleftrightarrow> (map_option rm_id song = map_option rm_id (sg_song (rw_state w)) \<longrightarrow>
     map_option (shown True) song = map_option (shown True) (sg_song (rw_state w)))"

definition nothingNew :: "remote_input \<Rightarrow> remote_world \<Rightarrow> bool" where
  "nothingNew a w \<longleftrightarrow> (case a of Update_song song url \<Rightarrow> repeats song w | _ \<Rightarrow> True)"

lemma shown_simps [simp]:
  "shown full (x\<lparr>rm_imageUrl := u\<rparr>) = shown full x" "rm_id (shown full x) = rm_id x"
  "shown False x = shown False y \<longleftrightarrow> rm_id x = rm_id y"
  by (cases x; cases y; simp add: shown_def)+

lemma shown_image [simp]: "shown full (rm_imageUrl_update f x) = shown full x"
  by (cases x) (simp add: shown_def)

lemma shown_id: "shown full x = shown full y \<Longrightarrow> rm_id x = rm_id y"
  by (metis shown_simps(2))

lemma shown_changes:
  "shown full x = shown full y \<Longrightarrow> shown full (x\<lparr>rm_userFavorite := b\<rparr>) = shown full (y\<lparr>rm_userFavorite := b\<rparr>)"
  "shown full x = shown full y \<Longrightarrow> shown full (x\<lparr>rm_userRating := r\<rparr>) = shown full (y\<lparr>rm_userRating := r\<rparr>)"
  by (cases x; cases y; cases full; simp add: shown_def)+

definition listens :: "nat \<Rightarrow> remote_world \<Rightarrow> bool" where
  "listens i w \<longleftrightarrow> rw_up w \<and> i \<in> set (rw_current w) \<and> hears i w"

lemma hears_cong: "rw_clients w' = rw_clients w \<Longrightarrow> hears i w' = hears i w"
  by (simp add: hears_def)

lemma view_cong: "rw_out w' = rw_out w \<Longrightarrow> view i w' = view i w"
  by (simp add: view_def received_def)

lemma view_emit [simp]:
  "view i (remoteEmit (To_client j ev) w) = (if j = i then receive ev (view i w) else view i w)"
  "view i (remoteEmit (To_window x) w) = view i w" "view i (remoteEmit (Close_client j code) w) = view i w"
  "view i (remoteEmit (Fetch j url) w) = view i w" "view i (remoteEmit (Mpris_volume v) w) = view i w"
  "view i (remoteEmit (Mpris_position p) w) = view i w" "view i (remoteEmit (Ping j) w) = view i w" "view i (remoteEmit (Terminate j) w) = view i w"
  by (simp_all add: view_def received_def List.map_filter_def)

lemma view_frames [simp]:
  "view i (onClient j f w) = view i w" "view i (onState g w) = view i w" "view i (onSong h w) = view i w"
  by (rule view_cong, simp)+

lemma view_closed [simp]: "view i (closeClient code j w) = view i w" "view i (pingClient j w) = view i w"
  by (simp_all add: closeClient_def pingClient_def split: option.split)

lemma view_all [simp]: "view i (closeAll code w) = view i w" "view i (heartBeat w) = view i w"
  by (simp_all add: closeAll_def heartBeat_def fold_same [where g = "view i"])

lemma view_send: "view i (send j ev w) = (if j = i \<and> hears i w then receive ev (view i w) else view i w)"
  by (simp add: send_def)

lemma receive_twice: "receive ev (receive ev s) = receive ev s"
proof (cases ev)
  case (Sv_favorite b k)
  have "map_option (\<lambda>x. if rm_id x = k then x\<lparr>rm_userFavorite := b\<rparr> else x)
      (map_option (\<lambda>x. if rm_id x = k then x\<lparr>rm_userFavorite := b\<rparr> else x) y) =
    map_option (\<lambda>x. if rm_id x = k then x\<lparr>rm_userFavorite := b\<rparr> else x) y" for y :: "remote_song option"
    by (cases y) simp_all
  then show ?thesis unfolding Sv_favorite receive.simps by simp
next
  case (Sv_rating r k)
  have "map_option (\<lambda>x. if rm_id x = k then x\<lparr>rm_userRating := r\<rparr> else x)
      (map_option (\<lambda>x. if rm_id x = k then x\<lparr>rm_userRating := r\<rparr> else x) y) =
    map_option (\<lambda>x. if rm_id x = k then x\<lparr>rm_userRating := r\<rparr> else x) y" for y :: "remote_song option"
    by (cases y) simp_all
  then show ?thesis unfolding Sv_rating receive.simps by simp
next
  case (Sv_proxy d)
  have "map_option (rm_imageUrl_update (\<lambda>_. u)) (map_option (rm_imageUrl_update (\<lambda>_. u)) y) =
    map_option (rm_imageUrl_update (\<lambda>_. u)) y" for u and y :: "remote_song option" by (cases y) simp_all
  then show ?thesis unfolding Sv_proxy receive.simps by simp
qed simp_all

lemma view_broadcast:
  assumes "listens i w"
  shows "view i (broadcast ev w) = receive ev (view i w)"
proof -
  have "hears i w \<Longrightarrow> view i (fold (\<lambda>j. send j ev) js w) = (if i \<in> set js then receive ev (view i w) else view i w)" for js w
  proof (induction js arbitrary: w)
    case (Cons j js)
    have "hears i (send j ev w)" using Cons.prems hears_cong [of "send j ev w" w i] by simp
    note ih = Cons.IH [OF this]
    have sent: "view i (send j ev w) = (if j = i then receive ev (view i w) else view i w)" using Cons.prems by (simp add: view_send)
    have "fold (\<lambda>j. send j ev) (j # js) w = fold (\<lambda>j. send j ev) js (send j ev w)" by simp
    then show ?case using ih sent receive_twice by (cases "j = i"; cases "i \<in> set js") simp_all
  qed simp
  with assms show ?thesis by (simp add: listens_def broadcast_def)
qed

lemma listens_cong:
  "rw_clients w' = rw_clients w \<Longrightarrow> rw_up w' = rw_up w \<Longrightarrow> rw_current w' = rw_current w \<Longrightarrow> listens i w' = listens i w"
  by (simp add: listens_def hears_def)

text \<open>The updates: a change of the state is broadcast, and the client makes the same change.\<close>

lemma agrees_broadcast:
  assumes "listens i w" and "agrees full (receive ev (view i w)) (rw_state w)"
  shows "agrees full (view i (broadcast ev w)) (rw_state (broadcast ev w))"
  using assms by (simp add: view_broadcast)

lemma listens_state: "listens i (onState g w) = listens i w" "listens i (onSong h w) = listens i w"
  by (rule listens_cong; simp)+

lemma agrees_volume:
  assumes "listens i w" and "agrees full (view i w) (rw_state w)"
  shows "agrees full (view i (remoteVolume v w)) (rw_state (remoteVolume v w))"
proof -
  let ?w = "onState (sg_volume_update (\<lambda>_. Some (clampVolume v))) w"
  have "agrees full (view i (broadcast (Sv_volume (clampVolume v)) ?w)) (rw_state (broadcast (Sv_volume (clampVolume v)) ?w))"
    by (rule agrees_broadcast) (use assms in \<open>simp_all add: listens_state agrees_def\<close>)
  moreover have "view i (remoteVolume v w) = view i (broadcast (Sv_volume (clampVolume v)) ?w)"
    by (simp add: remoteVolume_def Let_def mprisDo_def)
  ultimately show ?thesis by (simp add: remoteVolume_def Let_def)
qed

lemma agrees_handled:
  assumes "listens i w" and "agrees full (view i w) (rw_state w)"
  shows "agrees full (view i (handleEvent j ev w)) (rw_state (handleEvent j ev w))"
proof (cases ev)
  case (Cl_volume v)
  with agrees_volume [OF assms] show ?thesis by simp
qed (use assms(2) in \<open>simp_all add: mprisDo_def Let_def split: option.split\<close>)

lemma agrees_message:
  assumes "listens i w" and "agrees full (view i w) (rw_state w)"
  shows "agrees full (view i (onMessage decode j m w)) (rw_state (onMessage decode j m w))"
proof -
  have "view i (remoteAuthenticate decode j h w) = view i w \<and> rw_state (remoteAuthenticate decode j h w) = rw_state w" for h
    by (simp add: remoteAuthenticate_def Let_def split: option.split)
  with agrees_handled [OF assms] assms(2) show ?thesis
    by (simp add: onMessage_def split: option.split client_event.split)
qed

lemma agrees_song:
  assumes "listens i w" and "agrees full (view i w) (rw_state w)" and "full \<Longrightarrow> repeats s w"
  shows "agrees full (view i (updateSong s url w)) (rw_state (updateSong s url w))"
proof -
  let ?s = "map_option (rm_imageUrl_update (\<lambda>_. if truthy url then url else None)) s"
  let ?w = "onState (sg_song_update (\<lambda>_. ?s)) w"
  have told: "agrees full (view i (broadcast (Sv_song ?s) ?w)) (rw_state (broadcast (Sv_song ?s) ?w))"
    by (rule agrees_broadcast) (use assms(1,2) in \<open>simp_all add: listens_state agrees_def\<close>)
  show ?thesis
  proof (cases "map_option rm_id s = map_option rm_id (sg_song (rw_state w))")
    case True
    have "map_option (shown full) s = map_option (shown full) (sg_song (rw_state w))"
    proof (cases full)
      case True
      with assms(3) \<open>map_option rm_id s = _\<close> show ?thesis by (simp add: repeats_def)
    next
      case False
      with True show ?thesis by (cases s; cases "sg_song (rw_state w)") simp_all
    qed
    with True assms(2) show ?thesis by (simp add: updateSong_def Let_def agrees_def option.map_comp comp_def)
  next
    case False
    with told show ?thesis by (simp add: updateSong_def Let_def)
  qed
qed

lemma shown_parts:
  assumes "map_option (shown full) x = Some (shown full s)"
  obtains y where "x = Some y" and "shown full y = shown full s" and "rm_id y = rm_id s"
proof (cases x)
  case (Some y)
  with assms have "shown full y = shown full s" by simp
  with Some that shown_id show thesis by blast
qed (use assms in simp)

lemma remoteSongOf_Some:
  assumes "remoteSongOf k ids w = Some x"
  obtains s where "sg_song (rw_state w) = Some s" and "x = rm_id s"
proof (cases "sg_song (rw_state w)")
  case None
  with assms show thesis by (simp add: remoteSongOf_def)
next
  case (Some s)
  with assms have "x = rm_id s" by (simp add: remoteSongOf_def split: if_splits)
  with Some that show thesis by blast
qed

lemma agrees_favorite:
  assumes "listens i w" and "agrees full (view i w) (rw_state w)"
  shows "agrees full (view i (updateFavorite b k ids w)) (rw_state (updateFavorite b k ids w))"
    and "agrees full (view i (updateRating r k ids w)) (rw_state (updateRating r k ids w))"
proof -
  show "agrees full (view i (updateFavorite b k ids w)) (rw_state (updateFavorite b k ids w))"
  proof (cases "remoteSongOf k ids w")
    case (Some x)
    from remoteSongOf_Some [OF this] obtain s where s: "sg_song (rw_state w) = Some s" "x = rm_id s" .
    with assms(2) have "map_option (shown full) (sg_song (view i w)) = Some (shown full s)" by (simp add: agrees_def)
    then obtain y where y: "sg_song (view i w) = Some y" "shown full y = shown full s" "rm_id y = rm_id s" by (rule shown_parts)
    have "agrees full (view i (broadcast (Sv_favorite b x) (onSong (rm_userFavorite_update (\<lambda>_. b)) w)))
        (rw_state (broadcast (Sv_favorite b x) (onSong (rm_userFavorite_update (\<lambda>_. b)) w)))"
      by (rule agrees_broadcast)
        (use assms s y in \<open>simp_all add: listens_state agrees_def shown_changes [OF y(2)]\<close>)
    with Some show ?thesis by (simp add: updateFavorite_def)
  qed (use assms(2) in \<open>simp add: updateFavorite_def\<close>)
  show "agrees full (view i (updateRating r k ids w)) (rw_state (updateRating r k ids w))"
  proof (cases "remoteSongOf k ids w")
    case (Some x)
    from remoteSongOf_Some [OF this] obtain s where s: "sg_song (rw_state w) = Some s" "x = rm_id s" .
    with assms(2) have "map_option (shown full) (sg_song (view i w)) = Some (shown full s)" by (simp add: agrees_def)
    then obtain y where y: "sg_song (view i w) = Some y" "shown full y = shown full s" "rm_id y = rm_id s" by (rule shown_parts)
    have "agrees full (view i (broadcast (Sv_rating r x) (onSong (rm_userRating_update (\<lambda>_. r)) w)))
        (rw_state (broadcast (Sv_rating r x) (onSong (rm_userRating_update (\<lambda>_. r)) w)))"
      by (rule agrees_broadcast)
        (use assms s y in \<open>simp_all add: listens_state agrees_def shown_changes [OF y(2)]\<close>)
    with Some show ?thesis by (simp add: updateRating_def)
  qed (use assms(2) in \<open>simp add: updateRating_def\<close>)
qed

text \<open>A client that listens before and after a step agrees with the state after it, if it did before.\<close>

lemma agrees_connect:
  assumes "listens i w" and "agrees full (view i w) (rw_state w)"
  shows "agrees full (view i (remote_step decode (Connect j) w)) (rw_state (remote_step decode (Connect j) w))"
proof (cases "rw_up w \<and> rw_clients w j = None")
  case True
  with assms(1) have "j \<noteq> i" by (auto simp: listens_def hears_def)
  moreover have "view i (w\<lparr>rw_clients := cs, rw_current := js\<rparr>) = view i w" for cs js by (rule view_cong) simp
  ultimately show ?thesis using True assms(2) by (simp add: onConnection_def Let_def)
next
  case False
  then have "remote_step decode (Connect j) w = w" by (simp only: remote_step.simps if_False)
  with assms(2) show ?thesis by (simp only:)
qed

lemma agrees_plain:
  assumes "view i w' = view i w" and "rw_state w' = rw_state w" and "agrees full (view i w) (rw_state w)"
  shows "agrees full (view i w') (rw_state w')"
  using assms by simp

lemma view_settings:
  "view i (setEnabled b w) = view i w" "rw_state (setEnabled b w) = rw_state w"
  "view i (w\<lparr>rw_username := u, rw_password := p\<rparr>) = view i w" "view i (w\<lparr>rw_password := p\<rparr>) = view i w"
  "view i (w\<lparr>rw_username := u\<rparr>) = view i w" "view i (w\<lparr>rw_current := js\<rparr>) = view i w"
proof -
  have "view i (w\<lparr>rw_up := x, rw_current := js\<rparr>) = view i w" for x js w by (rule view_cong) simp
  then show "view i (setEnabled b w) = view i w" by (simp add: setEnabled_def enableServer_def shutdownServer_def)
  show "rw_state (setEnabled b w) = rw_state w" by (simp add: setEnabled_def enableServer_def shutdownServer_def)
qed (rule view_cong, simp)+

lemma view_proxy: "listens i w \<Longrightarrow> agrees full (view i w) (rw_state w) \<Longrightarrow> agrees full (view i (proxyAnswer j r w)) (rw_state (proxyAnswer j r w))"
  by (cases r) (auto simp: proxyAnswer_def view_send agrees_def option.map_comp comp_def)

lemma agrees_step:
  assumes "listens i w" and "agrees full (view i w) (rw_state w)" and "full \<Longrightarrow> nothingNew a w"
  shows "agrees full (view i (remote_step decode a w)) (rw_state (remote_step decode a w))"
proof (cases a)
  case (Connect j)
  with agrees_connect [OF assms(1,2)] show ?thesis by simp
next
  case (Auth_timeout j)
  have "view i (authTimeout j w) = view i w \<and> rw_state (authTimeout j w) = rw_state w"
    by (simp add: authTimeout_def Let_def split: option.split)
  with Auth_timeout assms(2) show ?thesis by simp
next
  case (Message j m)
  with agrees_message [OF assms(1,2)] show ?thesis by simp
next
  case (Proxy_answer j r)
  with view_proxy [OF assms(1,2)] show ?thesis by simp
next
  case (Update_favorite b k ids)
  with agrees_favorite [OF assms(1,2)] show ?thesis by simp
next
  case (Update_rating r k ids)
  with agrees_favorite [OF assms(1,2)] show ?thesis by simp
next
  case (Update_song s url)
  with agrees_song [OF assms(1,2), of s url] assms(3) show ?thesis by (simp add: nothingNew_def)
next
  case (Update_repeat r)
  have "agrees full (view i (broadcast (Sv_repeat r) (onState (sg_repeat_update (\<lambda>_. Some r)) w)))
      (rw_state (broadcast (Sv_repeat r) (onState (sg_repeat_update (\<lambda>_. Some r)) w)))"
    by (rule agrees_broadcast) (use assms(1,2) in \<open>simp_all add: listens_state agrees_def\<close>)
  with Update_repeat show ?thesis by simp
next
  case (Update_shuffle b)
  have "agrees full (view i (broadcast (Sv_shuffle b) (onState (sg_shuffle_update (\<lambda>_. Some b)) w)))
      (rw_state (broadcast (Sv_shuffle b) (onState (sg_shuffle_update (\<lambda>_. Some b)) w)))"
    by (rule agrees_broadcast) (use assms(1,2) in \<open>simp_all add: listens_state agrees_def\<close>)
  with Update_shuffle show ?thesis by simp
next
  case (Update_playback p)
  have "agrees full (view i (broadcast (Sv_playback p) (onState (sg_status_update (\<lambda>_. Some p)) w)))
      (rw_state (broadcast (Sv_playback p) (onState (sg_status_update (\<lambda>_. Some p)) w)))"
    by (rule agrees_broadcast) (use assms(1,2) in \<open>simp_all add: listens_state agrees_def\<close>)
  with Update_playback show ?thesis by simp
next
  case (Update_volume v)
  have "agrees full (view i (broadcast (Sv_volume (Some v)) (onState (sg_volume_update (\<lambda>_. Some (Some v))) w)))
      (rw_state (broadcast (Sv_volume (Some v)) (onState (sg_volume_update (\<lambda>_. Some (Some v))) w)))"
    by (rule agrees_broadcast) (use assms(1,2) in \<open>simp_all add: listens_state agrees_def\<close>)
  with Update_volume show ?thesis by simp
next
  case (Update_position p)
  have "agrees full (view i (broadcast (Sv_position p) (onState (sg_position_update (\<lambda>_. Some p)) w)))
      (rw_state (broadcast (Sv_position p) (onState (sg_position_update (\<lambda>_. Some p)) w)))"
    by (rule agrees_broadcast) (use assms(1,2) in \<open>simp_all add: listens_state agrees_def\<close>)
  with Update_position show ?thesis by simp
qed (use assms(2) in \<open>simp_all add: view_settings\<close>)

lemma listening_agrees:
  assumes "rw_up w0" and "rw_clients w0 i = None" and "w1 = remote_step decode (Connect i) w0"
    and "\<forall>n \<le> length inputs. listens i (fold (remote_step decode) (take n inputs) w1)"
    and "full \<longrightarrow> (\<forall>n < length inputs. nothingNew (inputs ! n) (fold (remote_step decode) (take n inputs) w1))"
  shows "agrees full (view i (fold (remote_step decode) inputs w1)) (rw_state (fold (remote_step decode) inputs w1))"
  using assms(4,5)
proof (induction inputs rule: rev_induct)
  case Nil
  have "view i w1 = rw_state w0" using assms(1,2) unfolding assms(3) by (simp add: onConnection_def Let_def)
  moreover have "rw_state w1 = rw_state w0" using assms(1,2) unfolding assms(3) by (simp add: onConnection_def Let_def)
  ultimately show ?case by (simp add: agrees_def)
next
  case (snoc a inputs)
  have now: "listens i (fold (remote_step decode) inputs w1)" using snoc.prems(1) [rule_format, of "length inputs"] by simp
  have new: "full \<Longrightarrow> nothingNew a (fold (remote_step decode) inputs w1)"
    using snoc.prems(2) [rule_format, of "length inputs"] by simp
  have "\<forall>n \<le> length inputs. listens i (fold (remote_step decode) (take n inputs) w1)"
  proof (intro allI impI)
    fix n assume "n \<le> length inputs"
    with snoc.prems(1) [rule_format, of n] show "listens i (fold (remote_step decode) (take n inputs) w1)" by simp
  qed
  moreover have "full \<longrightarrow> (\<forall>n < length inputs. nothingNew (inputs ! n) (fold (remote_step decode) (take n inputs) w1))"
  proof (intro allI impI)
    fix n assume "full" "n < length inputs"
    with snoc.prems(2) [rule_format, of n] show "nothingNew (inputs ! n) (fold (remote_step decode) (take n inputs) w1)"
      by (simp add: nth_append)
  qed
  ultimately have "agrees full (view i (fold (remote_step decode) inputs w1)) (rw_state (fold (remote_step decode) inputs w1))"
    by (rule snoc.IH)
  from agrees_step [OF now this new] show ?case by simp
qed


section \<open>Flaws\<close>

text \<open>
  An update of the song with the id of the one that is there is not told to any client, although its favourite, its rating
  or even its server may be others.
\<close>

theorem same_song_is_not_told:
  assumes "sg_song (rw_state w) = Some s" and "rm_id x = rm_id s"
  shows "rw_out (updateSong (Some x) url w) = rw_out w
    \<and> map_option (shown True) (sg_song (rw_state (updateSong (Some x) url w))) = Some (shown True x)"
  using assms by (simp add: updateSong_def Let_def onState_def)

text \<open>
  The state, with the song that is playing, is sent to every socket that connects, before it has authenticated; what
  changes until then it is not told, and the state is not sent again.
\<close>

theorem state_is_sent_before_authentication:
  assumes "rw_up w" and "rw_clients w i = None" and "rw_username w \<noteq> '''' \<or> rw_password w \<noteq> ''''"
    and "w' = remote_step decode (Connect i) w"
  shows "view i w' = rw_state w \<and> \<not> hears i w'
    \<and> view i (remote_step decode (Message i (Some (Authenticate h))) w') = rw_state w"
proof -
  have w': "view i w' = rw_state w" "rw_clients w' i = Some \<lparr>rc_alive = True, rc_auth = False, rc_open = True, rc_timer = True\<rparr>"
    using assms(1-3) unfolding assms(4) by (auto simp: onConnection_def Let_def)
  have "view i (remoteAuthenticate decode i h w') = view i w'" by (simp add: remoteAuthenticate_def Let_def split: option.split)
  with w' show ?thesis by (simp add: hears_def onMessage_def)
qed

text \<open>What is sent between a ping and its answer does not reach the client, although its socket is open.\<close>

theorem updates_during_ping_are_missed:
  assumes "rw_up w" and "rw_current w = [i]" and "hears i w"
    and "w' = fold (remote_step decode) [Heartbeat, Update_volume v, Pong i] w"
  shows "view i w' = view i w \<and> sg_volume (rw_state w') = Some (Some v) \<and> hears i w'"
proof -
  obtain c where c: "rw_clients w i = Some c" "rc_open c" "rc_alive c" "rc_auth c"
    using assms(3) by (auto simp: hears_def split: option.splits)
  let ?wh = "heartBeat w"
  have wh: "?wh = remoteEmit (Ping i) (onClient i (\<lambda>c. c\<lparr>rc_alive := False\<rparr>) w)"
    using assms(1,2) c by (simp add: heartBeat_def pingClient_def)
  have deaf: "\<not> hears i (onState g ?wh)" for g using c by (simp add: wh hears_def)
  have "broadcast (Sv_volume (Some v)) (onState g ?wh) = onState g ?wh" for g
    using deaf [of g] assms(2) by (simp add: broadcast_def send_def wh)
  then have w': "w' = onClient i (\<lambda>c. c\<lparr>rc_alive := True\<rparr>) (onState (sg_volume_update (\<lambda>_. Some (Some v))) ?wh)"
    unfolding assms(4) by simp
  with c show ?thesis by (simp add: wh hears_def)
qed

text \<open>Clients that have authenticated keep their access when the credentials are replaced with the settings as a whole.\<close>

theorem old_clients_keep_access:
  assumes "rw_clients w i = Some c" and "rc_auth c"
    and "w' = fold (remote_step decode) [Remote_settings True username password, Message i (Some Cl_play)] w"
  shows "rw_out w' = rw_out w @ [To_window Player_play]"
  using assms(1,2) unfolding assms(3) by (simp add: setEnabled_def enableServer_def onMessage_def)

text \<open>A password with a colon is accepted from nobody.\<close>

lemma splitOn_free: "x \<in> set (splitOn c s) \<Longrightarrow> c \<notin> set x"
proof (induction s arbitrary: x)
  case (Cons d s)
  show ?case
  proof (cases "d = c")
    case False
    obtain p ps where p: "splitOn c s = p # ps" by (cases "splitOn c s") simp_all
    with Cons False show ?thesis by auto
  qed (use Cons in auto)
qed simp

theorem passwords_with_colon_are_refused:
  assumes "CHR '':'' \<in> set password"
  shows "\<not> authorize decode username password header"
proof -
  have "\<not> credentialsMatch username password s" for s
  proof
    assume "credentialsMatch username password s"
    then have "password \<in> set (splitOn (CHR '':'') s)" by (auto simp: credentialsMatch_def Let_def)
    with splitOn_free assms show False by blast
  qed
  moreover have "password \<noteq> ''''" using assms by auto
  ultimately show ?thesis by (simp add: authorize_def Let_def)
qed

section \<open>Examples\<close>

definition exampleRemote :: remote_world where
  "exampleRemote = remote_step id (Remote_enable True) (remote_start '''' '''' False)"

definition exampleGuarded :: remote_world where
  "exampleGuarded = remote_step id (Remote_enable True) (remote_start ''me'' ''pw'' False)"

lemma authenticated_clients_had_credentials_witness:
  "\<exists>n < 3. admitted id 0 ([Remote_enable True, Connect 0, Message 0 (Some (Authenticate (Some ''Basic me:pw'')))] ! n)
    (fold (remote_step id) (take n [Remote_enable True, Connect 0, Message 0 (Some (Authenticate (Some ''Basic me:pw'')))])
      (remote_start ''me'' ''pw'' False))"
proof -
  let ?es = "[Remote_enable True, Connect 0, Message 0 (Some (Authenticate (Some ''Basic me:pw'')))]"
  have "rw_clients (fold (remote_step id) ?es (remote_start ''me'' ''pw'' False)) 0 =
      Some \<lparr>rc_alive = True, rc_auth = True, rc_open = True, rc_timer = False\<rparr>" by code_simp
  from authenticated_clients_had_credentials [OF this] show ?thesis by (simp add: numeral_eq_Suc)
qed

lemma unauthenticated_messages_do_nothing_witness:
  "let w = remote_step id (Connect 0) exampleGuarded in rw_state (remote_step id (Message 0 (Some Cl_next)) w) = rw_state w"
proof -
  have "rw_clients (remote_step id (Connect 0) exampleGuarded) 0 =
      Some \<lparr>rc_alive = True, rc_auth = False, rc_open = True, rc_timer = True\<rparr>" by code_simp
  from unauthenticated_messages_do_nothing [OF this _ refl] show ?thesis by (simp add: Let_def)
qed

definition exampleRemoteSong :: remote_song where
  "exampleRemoteSong = \<lparr>rm_id = ''s1'', rm_imageUrl = None, rm_serverId = ''srv'', rm_userFavorite = False, rm_userRating = None\<rparr>"


lemma same_song_is_not_told_witness:
  "sg_song (view 0 (updateSong (Some (exampleRemoteSong\<lparr>rm_userRating := Some 5\<rparr>)) None
     (updateSong (Some exampleRemoteSong) None (remote_step id (Connect 0) exampleRemote)))) = Some exampleRemoteSong"
proof -
  let ?w = "updateSong (Some exampleRemoteSong) None (remote_step id (Connect 0) exampleRemote)"
  have w: "map_option rm_id (sg_song (rw_state ?w)) = Some ''s1''" "sg_song (view 0 ?w) = Some exampleRemoteSong" by code_simp+
  from w(1) obtain s where s: "sg_song (rw_state ?w) = Some s" "rm_id s = ''s1''" by auto
  have "rw_out (updateSong (Some (exampleRemoteSong\<lparr>rm_userRating := Some 5\<rparr>)) None ?w) = rw_out ?w"
    by (rule same_song_is_not_told [OF s(1), THEN conjunct1]) (simp add: s(2) exampleRemoteSong_def)
  from view_cong [OF this, of 0] w(2) show ?thesis by (simp only:)
qed

lemma state_is_sent_before_authentication_witness:
  "view 0 (remote_step id (Connect 0) exampleGuarded) = noState"
proof -
  have "rw_up exampleGuarded" "rw_clients exampleGuarded 0 = None" "rw_username exampleGuarded \<noteq> ''''"
    "rw_state exampleGuarded = noState"
    by (simp_all add: exampleGuarded_def remote_start_def setEnabled_def enableServer_def)
  with state_is_sent_before_authentication [OF this(1,2) _ refl, of id] show ?thesis by simp
qed

lemma updates_during_ping_are_missed_witness:
  "let w = fold (remote_step id) [Heartbeat, Update_volume 70, Pong 0] (remote_step id (Connect 0) exampleRemote)
   in sg_volume (view 0 w) = None \<and> sg_volume (rw_state w) = Some (Some 70)"
proof -
  let ?w = "remote_step id (Connect 0) exampleRemote"
  have w: "rw_up ?w" "rw_current ?w = [0]" "hears 0 ?w" "sg_volume (view 0 ?w) = None" by code_simp+
  from updates_during_ping_are_missed [OF w(1-3) refl, of id 70] w(4) show ?thesis unfolding Let_def by simp
qed

lemma old_clients_keep_access_witness:
  "rw_out (fold (remote_step id) [Remote_settings True ''new'' ''pw'', Message 0 (Some Cl_play)] (remote_step id (Connect 0) exampleRemote))
    = rw_out (remote_step id (Connect 0) exampleRemote) @ [To_window Player_play]"
proof -
  have "rw_clients (remote_step id (Connect 0) exampleRemote) 0 =
      Some \<lparr>rc_alive = True, rc_auth = True, rc_open = True, rc_timer = False\<rparr>" by code_simp
  from old_clients_keep_access [OF this _ refl] show ?thesis by simp
qed

lemma passwords_with_colon_are_refused_witness: "\<not> authorize id ''me'' ''a:b'' (Some ''Basic me:a:b'')"
  by (rule passwords_with_colon_are_refused) simp

end
