(* ===== verification/RemoteFiles.thy ===== *)
theory RemoteFiles
  imports RemoteServer EnvSettings
begin

text \<open>
  The files of the remote control (\<^verbatim>\<open>main/features/core/remote/index.ts\<close>): which encoding is chosen, the cache of
  compressed files, and the answers to requests. Reading files and compressing are arguments; a request is answered in
  one step.
\<close>

section \<open>Encodings\<close>

datatype remote_encoding = Enc_gzip | Enc_none | Enc_zlib

definition isWordChar :: "char \<Rightarrow> bool" where
  "isWordChar c \<longleftrightarrow> (let n = of_char c :: nat in 48 \<le> n \<and> n \<le> 57 \<or> 65 \<le> n \<and> n \<le> 90 \<or> 97 \<le> n \<and> n \<le> 122 \<or> n = 95)"

text \<open>A word that ends where a word can end; its beginning is that of a word, or anywhere.\<close>

definition wordAt :: "bool \<Rightarrow> string \<Rightarrow> string \<Rightarrow> nat \<Rightarrow> bool" where
  "wordAt begins word s i \<longleftrightarrow> take (length word) (drop i s) = word
     \<and> (begins \<longrightarrow> i = 0 \<or> \<not> isWordChar (s ! (i - 1)))
     \<and> (i + length word \<ge> length s \<or> \<not> isWordChar (s ! (i + length word)))"

definition hasWord :: "bool \<Rightarrow> string \<Rightarrow> string \<Rightarrow> bool" where
  "hasWord begins word s = list_ex (wordAt begins word s) [0..<length s]"

fun getEncoding :: "string list \<Rightarrow> remote_encoding" where
  "getEncoding [] = Enc_none"
| "getEncoding (code # codes) =
     (if hasWord True ''gzip'' code then Enc_gzip else if hasWord False ''bdeflate'' code then Enc_zlib else getEncoding codes)"

section \<open>Files\<close>

text \<open>An entry is filed under the name and the encoding, with the time at which the file was changed.\<close>

type_synonym file_cache = "string \<times> remote_encoding \<rightharpoonup> rat \<times> string"

record remote_request =
  rq_authorization :: "string option"
  rq_encodings :: "string list"
  rq_ifMatch :: "string option"
  rq_url :: string

record remote_response =
  rp_body :: "string option"
  rp_encoding :: remote_encoding
  rp_etag :: "rat option"
  rp_status :: nat
  rp_type :: string

text \<open>The time of a file, its content, and what compressing makes of it; each can fail.\<close>

record file_system =
  fs_stat :: "string \<Rightarrow> rat option"
  fs_read :: "string \<Rightarrow> string option"
  fs_compress :: "remote_encoding \<Rightarrow> string \<Rightarrow> string option"

definition mimeType :: "string \<Rightarrow> string" where
  "mimeType extension =
     (if extension = ''css'' then ''text/css'' else if extension = ''html'' then ''text/html; charset=UTF-8''
      else if extension = ''ico'' then ''image/x-icon'' else ''application/javascript'')"

definition plainResponse :: "nat \<Rightarrow> string \<Rightarrow> string option \<Rightarrow> remote_response" where
  "plainResponse status type body =
     \<lparr>rp_body = body, rp_encoding = Enc_none, rp_etag = None, rp_status = status, rp_type = type\<rparr>"

definition setOk :: "rat \<Rightarrow> string \<Rightarrow> remote_encoding \<Rightarrow> string option \<Rightarrow> remote_response" where
  "setOk mtime extension encoding data =
     \<lparr>rp_body = data, rp_encoding = encoding, rp_etag = Some mtime, rp_status = (if data = None then 304 else 200),
      rp_type = mimeType extension\<rparr>"

text \<open>The times that a request names.\<close>

definition namedTimes :: "string option \<Rightarrow> rat option list" where
  "namedTimes ifMatch =
     (if truthy ifMatch then map (\<lambda>x. jsNumber (filter (\<lambda>c. c \<noteq> CHR 0x22) x)) (splitOn (CHR '','') (the ifMatch)) else [])"

definition encoded :: "file_system \<Rightarrow> remote_encoding \<Rightarrow> string \<Rightarrow> string option" where
  "encoded F encoding content = (if encoding = Enc_none then Some content else fs_compress F encoding content)"

definition readAndStore ::
    "file_system \<Rightarrow> string \<Rightarrow> string \<Rightarrow> remote_encoding \<Rightarrow> rat \<Rightarrow> file_cache \<Rightarrow> remote_response \<times> file_cache" where
  "readAndStore F fileName extension encoding mtime cache =
     (case Option.bind (fs_read F fileName) (encoded F encoding) of
        None \<Rightarrow> (plainResponse 500 ''text/plain'' None, cache)
      | Some data \<Rightarrow> (setOk mtime extension encoding (Some data), cache((fileName, encoding) \<mapsto> (mtime, data))))"

definition serveFile ::
    "file_system \<Rightarrow> remote_request \<Rightarrow> string \<Rightarrow> string \<Rightarrow> file_cache \<Rightarrow> remote_response \<times> file_cache" where
  "serveFile F req file extension cache =
     (let fileName = file @ ''.'' @ extension
      in case fs_stat F fileName of
           None \<Rightarrow> (plainResponse 404 ''text/plain'' None, cache)
         | Some mtime \<Rightarrow>
             let encoding = getEncoding (rq_encodings req)
             in (case cache (fileName, encoding) of
                   None \<Rightarrow> readAndStore F fileName extension encoding mtime cache
                 | Some (time, data) \<Rightarrow>
                     if time \<noteq> mtime then readAndStore F fileName extension encoding mtime (cache((fileName, encoding) := None))
                     else if Some time \<in> set (namedTimes (rq_ifMatch req)) then (setOk time extension encoding None, cache)
                     else (setOk time extension encoding (Some data), cache)))"

section \<open>Requests\<close>

definition answerRequest ::
    "(string \<Rightarrow> string) \<Rightarrow> string \<Rightarrow> string \<Rightarrow> string \<Rightarrow> file_system \<Rightarrow> remote_request \<Rightarrow> file_cache \<Rightarrow> remote_response \<times> file_cache" where
  "answerRequest decode username password manifest F req cache =
     (if \<not> authorize decode username password (rq_authorization req)
      then (plainResponse 401 '''' (Some ''Authorization required''), cache)
      else if rq_url req = ''/'' then serveFile F req ''index'' ''html'' cache
      else if rq_url req = ''/credentials'' then (plainResponse 200 ''text/plain'' (rq_authorization req), cache)
      else if rq_url req = ''/favicon.ico'' then serveFile F req ''favicon'' ''ico'' cache
      else if rq_url req = ''/manifest.json'' then (plainResponse 200 ''application/json'' (Some manifest), cache)
      else if rq_url req = ''/remote.css'' then serveFile F req ''remote'' ''css'' cache
      else if rq_url req = ''/remote.js'' then serveFile F req ''remote'' ''js'' cache
      else if take 10 (rq_url req) = ''/worker.js'' then serveFile F req ''worker'' ''js'' cache
      else (plainResponse 404 ''text/plain'' (Some ''Not Found''), cache))"

section \<open>What is served is current\<close>

text \<open>What a file gives in an encoding, if it can be read and encoded.\<close>

definition encodedFile :: "file_system \<Rightarrow> string \<Rightarrow> remote_encoding \<Rightarrow> string option" where
  "encodedFile F f encoding = Option.bind (fs_read F f) (encoded F encoding)"

text \<open>
  Requests one after the other, with the files as they are at each: the state are the files so far, the last first, and
  the cache. An entry of the cache is what the file gave at a request at which it had the time of the entry.
\<close>

type_synonym file_request = "file_system \<times> remote_request \<times> string \<times> string"

definition file_step :: "file_request \<Rightarrow> file_system list \<times> file_cache \<Rightarrow> file_system list \<times> file_cache" where
  "file_step x hc =
     (case x of (F, req, file, extension) \<Rightarrow> (F # fst hc, snd (serveFile F req file extension (snd hc))))"

definition given :: "file_system list \<Rightarrow> string \<Rightarrow> remote_encoding \<Rightarrow> rat \<Rightarrow> string \<Rightarrow> bool" where
  "given Fs f encoding t data \<longleftrightarrow> list_ex (\<lambda>G. fs_stat G f = Some t \<and> encodedFile G f encoding = Some data) Fs"

definition cache_from :: "file_system list \<times> file_cache \<Rightarrow> bool" where
  "cache_from hc \<longleftrightarrow>
     (\<forall>f encoding t data. snd hc (f, encoding) = Some (t, data) \<longrightarrow> given (fst hc) f encoding t data)"

text \<open>The answer to a request for a file, in the encoding that the request lets choose.\<close>

definition answers_file ::
    "file_system \<Rightarrow> file_system list \<Rightarrow> remote_request \<Rightarrow> string \<Rightarrow> remote_encoding \<Rightarrow> remote_response \<Rightarrow> bool" where
  "answers_file F earlier req f encoding r \<longleftrightarrow>
     (case fs_stat F f of
        None \<Rightarrow> rp_status r = 404
      | Some t \<Rightarrow>
          rp_status r = 500 \<and> encodedFile F f encoding = None
          \<or> rp_etag r = Some t \<and> rp_encoding r = encoding
            \<and> (rp_status r = 304 \<and> rp_body r = None \<and> Some t \<in> set (namedTimes (rq_ifMatch req))
               \<or> rp_status r = 200 \<and> (\<exists>data. rp_body r = Some data \<and> given (F # earlier) f encoding t data)))"

lemma given_more: "given Fs f encoding t data \<Longrightarrow> given (F # Fs) f encoding t data"
  by (simp add: given_def)

lemma cache_from_more: "cache_from (Fs, cache) \<Longrightarrow> cache_from (F # Fs, cache)"
  by (auto simp: cache_from_def intro: given_more)

lemma readAndStore_current:
  assumes "fs_stat F f = Some t" and "cache_from (Fs, cache)" and "readAndStore F f extension encoding t cache = (r, cache')"
  shows "answers_file F Fs req f encoding r \<and> cache_from (F # Fs, cache')"
proof (cases "encodedFile F f encoding")
  case None
  with assms cache_from_more [OF assms(2)] show ?thesis
    by (auto simp: readAndStore_def encodedFile_def answers_file_def plainResponse_def)
next
  case (Some data)
  with assms(3) have r: "r = setOk t extension encoding (Some data)" "cache' = cache((f, encoding) \<mapsto> (t, data))"
    by (simp_all add: readAndStore_def encodedFile_def)
  have g: "given (F # Fs) f encoding t data" using assms(1) Some by (simp add: given_def)
  have "cache_from (F # Fs, cache')"
    using cache_from_more [OF assms(2), of F] g unfolding r(2) by (auto simp: cache_from_def)
  with g assms(1) show ?thesis unfolding r(1) by (simp add: answers_file_def setOk_def)
qed

lemma serveFile_current:
  assumes "cache_from (Fs, cache)" and "serveFile F req file extension cache = (r, cache')"
  shows "answers_file F Fs req (file @ ''.'' @ extension) (getEncoding (rq_encodings req)) r \<and> cache_from (F # Fs, cache')"
proof (cases "fs_stat F (file @ ''.'' @ extension)")
  case None
  with assms cache_from_more [OF assms(1)] show ?thesis by (auto simp: serveFile_def Let_def answers_file_def plainResponse_def)
next
  case (Some t)
  let ?f = "file @ ''.'' @ extension" and ?e = "getEncoding (rq_encodings req)"
  show ?thesis
  proof (cases "cache (?f, ?e)")
    case None
    with assms(2) Some have "readAndStore F ?f extension ?e t cache = (r, cache')" by (simp add: serveFile_def)
    from readAndStore_current [OF Some assms(1) this] show ?thesis .
  next
    case entry: (Some x)
    obtain time data where x: "x = (time, data)" by (cases x)
    show ?thesis
    proof (cases "time = t")
      case True
      with assms(1) entry x have g: "given (F # Fs) ?f ?e t data" by (auto simp: cache_from_def intro: given_more)
      show ?thesis
      proof (cases "Some t \<in> set (namedTimes (rq_ifMatch req))")
        case named: True
        with assms(2) True entry x Some have "r = setOk t extension ?e None" "cache' = cache"
          by (simp_all add: serveFile_def Let_def)
        with named Some cache_from_more [OF assms(1)] show ?thesis by (simp add: answers_file_def setOk_def)
      next
        case False
        with assms(2) True entry x Some have "r = setOk t extension ?e (Some data)" "cache' = cache"
          by (simp_all add: serveFile_def Let_def)
        with g Some cache_from_more [OF assms(1)] show ?thesis by (simp add: answers_file_def setOk_def)
      qed
    next
      case False
      with assms(2) Some entry x have "readAndStore F ?f extension ?e t (cache((?f, ?e) := None)) = (r, cache')"
        by (simp add: serveFile_def Let_def)
      moreover have "cache_from (Fs, cache((?f, ?e) := None))" using assms(1) by (auto simp: cache_from_def)
      ultimately show ?thesis using readAndStore_current [OF Some] by blast
    qed
  qed
qed

lemma file_step_ok: "cache_from hc \<Longrightarrow> cache_from (file_step x hc)"
  using serveFile_current [OF _ surjective_pairing] by (cases hc) (auto simp: file_step_def split: prod.split)

interpretation served: driven_component file_step cache_from
  by unfold_locales (rule file_step_ok)

lemma file_history: "fst (fold file_step xs hc) = rev (map fst xs) @ fst hc"
  by (induction xs arbitrary: hc) (auto simp: file_step_def split: prod.split)

lemma given_same:
  assumes "given (F # Fs) f encoding t data"
    and "\<And>G. G \<in> set Fs \<Longrightarrow> fs_stat G f = Some t \<Longrightarrow> encodedFile G f encoding = encodedFile F f encoding"
  shows "encodedFile F f encoding = Some data"
  using assms by (auto simp: given_def list_ex_iff)

text \<open>
  C39: The answer to a request for a file, after any requests and whatever the files were then. If the file is not there the
  status is 404, and 500 only if it can now not be read or encoded. Otherwise the answer bears the present time of the
  file and the encoding that the request lets choose, and it either confirms that the client has the file of that time,
  which the request named, or is what the file gave at this request or at an earlier one at which it had that time: so
  it is the present content if a file that changes gets another time as well.
\<close>

theorem served_files_are_current:
  assumes "(earlierFiles, cache) = fold file_step earlier ([], Map.empty)"
    and "serveFile F req file extension cache = (r, cache')"
    and "f = file @ ''.'' @ extension" and "encoding = getEncoding (rq_encodings req)"
  shows "answers_file F (rev (map fst earlier)) req f encoding r
    \<and> ((\<forall>G \<in> set (map fst earlier). fs_stat G f = fs_stat F f \<longrightarrow> encodedFile G f encoding = encodedFile F f encoding)
        \<longrightarrow> rp_status r = 200 \<longrightarrow> rp_body r = encodedFile F f encoding)"
proof -
  have "cache_from ([], Map.empty)" by (simp add: cache_from_def)
  then have "cache_from (earlierFiles, cache)" unfolding assms(1) by (rule served.run_inv)
  from serveFile_current [OF this assms(2), THEN conjunct1] have
    answer: "answers_file F earlierFiles req f encoding r" unfolding assms(3,4) .
  have files: "earlierFiles = rev (map fst earlier)"
    using file_history [of earlier "([], Map.empty)"] assms(1) [symmetric] by simp
  have "rp_body r = encodedFile F f encoding"
    if same: "\<forall>G \<in> set (map fst earlier). fs_stat G f = fs_stat F f \<longrightarrow> encodedFile G f encoding = encodedFile F f encoding"
      and ok: "rp_status r = 200"
  proof -
    from answer ok obtain t data where d: "fs_stat F f = Some t" "rp_body r = Some data" "given (F # earlierFiles) f encoding t data"
      by (auto simp: answers_file_def split: option.splits)
    from given_same [OF d(3)] same d(1) have "encodedFile F f encoding = Some data" by (auto simp: files)
    with d(2) show ?thesis by simp
  qed
  with answer files show ?thesis by blast
qed

text \<open>While a name or a password is set, a request without them gets nothing but the refusal.\<close>

theorem requests_without_credentials_are_refused:
  assumes "\<not> authorize decode username password (rq_authorization req)"
  shows "answerRequest decode username password manifest F req cache =
    (plainResponse 401 '''' (Some ''Authorization required''), cache)"
  using assms by (simp add: answerRequest_def)

section \<open>Flaws\<close>

text \<open>A file that was changed without another time, or while it was read, is served as it was.\<close>

theorem same_time_is_served_from_cache:
  assumes "fs_stat F f = Some t" and "f = file @ ''.'' @ extension"
    and "cache (f, getEncoding (rq_encodings req)) = Some (t, data)" and "rq_ifMatch req = None"
  shows "rp_body (fst (serveFile F req file extension cache)) = Some data"
  using assms by (simp add: serveFile_def Let_def namedTimes_def truthy_def setOk_def)

text \<open>
  The pattern for the second encoding looks for a word that begins with b, so that it is never chosen.
\<close>

lemma deflate_is_not_recognized:
  "getEncoding [''deflate''] = Enc_none \<and> getEncoding [''br, deflate''] = Enc_none \<and> getEncoding [''bdeflate''] = Enc_zlib
   \<and> getEncoding [''deflate, gzip''] = Enc_gzip"
  by code_simp

section \<open>Examples\<close>

definition exampleFiles :: "rat \<Rightarrow> file_system" where
  "exampleFiles t = \<lparr>fs_stat = (\<lambda>f. Some t), fs_read = (\<lambda>f. Some (if t = 1 then ''one'' else ''two'')), fs_compress = (\<lambda>e s. Some (rev s))\<rparr>"

definition exampleRequest :: remote_request where
  "exampleRequest = \<lparr>rq_authorization = None, rq_encodings = [''gzip''], rq_ifMatch = Some (CHR 0x22 # ''2'' @ [CHR 0x22]), rq_url = ''/''\<rparr>"

lemma served_files_are_current_witness:
  "rp_body (fst (serveFile (exampleFiles 3) exampleRequest ''index'' ''html''
     (snd (fold file_step [(exampleFiles 1, exampleRequest, ''index'', ''html'')] ([], Map.empty))))) = Some ''owt''"
proof -
  let ?earlier = "[(exampleFiles 1, exampleRequest, ''index'', ''html'')]"
  let ?hc = "fold file_step ?earlier ([], Map.empty)"
  let ?r = "fst (serveFile (exampleFiles 3) exampleRequest ''index'' ''html'' (snd ?hc))"
  have "rp_status ?r = 200" by code_simp
  moreover have "fs_stat (exampleFiles 1) f \<noteq> fs_stat (exampleFiles 3) f" for f by (simp add: exampleFiles_def)
  ultimately have "rp_body ?r = encodedFile (exampleFiles 3) ''index.html'' (getEncoding (rq_encodings exampleRequest))"
    using served_files_are_current [OF _ surjective_pairing refl refl, of "fst ?hc" "snd ?hc" ?earlier "exampleFiles 3" exampleRequest "''index''" "''html''"]
    by simp
  moreover have "encodedFile (exampleFiles 3) ''index.html'' (getEncoding (rq_encodings exampleRequest)) = Some ''owt''" by code_simp
  ultimately show ?thesis by simp
qed

lemma same_time_is_served_from_cache_witness:
  "rp_body (fst (serveFile (exampleFiles 1) (exampleRequest\<lparr>rq_ifMatch := None\<rparr>) ''index'' ''html''
     [(''index.html'', Enc_gzip) \<mapsto> (1, ''stale'')])) = Some ''stale''"
proof -
  have "getEncoding (rq_encodings (exampleRequest\<lparr>rq_ifMatch := None\<rparr>)) = Enc_gzip" by code_simp
  then show ?thesis by (intro same_time_is_served_from_cache [OF _ refl]) (simp_all add: exampleFiles_def)
qed

lemma requests_without_credentials_are_refused_witness:
  "rp_status (fst (answerRequest id ''me'' ''pw'' '''' (exampleFiles 1) exampleRequest Map.empty)) = 401"
proof -
  have "\<not> authorize id ''me'' ''pw'' (rq_authorization exampleRequest)" by code_simp
  from requests_without_credentials_are_refused [OF this] show ?thesis by (simp add: plainResponse_def)
qed

end
