(* ===== verification/ArtistAlbums.thy ===== *)
theory ArtistAlbums
  imports JellyfinLists "HOL-Library.Char_ord" "HOL-Library.List_Lexorder"
begin

text \<open>
  The albums on the page of an artist, grouped by the types of their release
  (\<^verbatim>\<open>features/artists/hooks/use-artist-albums-grouped.ts\<close>): the groups, which of them are shown, under which names, and
  in which order. The translations, the case of letters and the collation are arguments.
\<close>

section \<open>Groups\<close>

text \<open>The methods of strings that depend on Unicode, the collator, and the translation of a key, in upper case or not.\<close>

record release_lib =
  rl_lower :: "string \<Rightarrow> string"
  rl_compare :: "string \<Rightarrow> string \<Rightarrow> int"
  rl_translate :: "string \<Rightarrow> bool \<Rightarrow> string"

definition ARTIST_PRIMARY_TYPES :: "string list" where
  "ARTIST_PRIMARY_TYPES = [''album'', ''broadcast'', ''ep'', ''other'', ''single'']"

text \<open>A \<open>Set\<close> made of an array keeps the first of what is equal.\<close>

fun distinctFirst :: "'a list \<Rightarrow> 'a list" where
  "distinctFirst [] = []"
| "distinctFirst (x # xs) = x # filter (\<lambda>y. y \<noteq> x) (distinctFirst xs)"

definition getNormalizedReleaseTypes :: "release_lib \<Rightarrow> album \<Rightarrow> string list" where
  "getNormalizedReleaseTypes L album =
     (let rawReleaseTypes = al_releaseTypes album @ [nullish_or (al_releaseType album) ''''];
          normalizedReleaseTypes = filter (\<lambda>x. x \<noteq> '''') (map (\<lambda>type. rl_lower L (trim type)) rawReleaseTypes)
      in distinctFirst normalizedReleaseTypes)"

text \<open>
  What an empty object inherits: \<open>acc[key]\<close> is truthy for these names, but nothing can be pushed to it, so that a type
  error is thrown.
\<close>

definition inherited :: "string list" where
  "inherited = [''constructor'', ''__defineGetter__'', ''__defineSetter__'', ''hasOwnProperty'', ''__lookupGetter__'',
     ''__lookupSetter__'', ''isPrototypeOf'', ''propertyIsEnumerable'', ''toString'', ''valueOf'', ''__proto__'',
     ''toLocaleString'']"

definition pushTo :: "string \<Rightarrow> album \<Rightarrow> album list obj \<Rightarrow> album list obj option" where
  "pushTo k album acc =
     (case map_of acc k of
        Some albums \<Rightarrow> Some (AList.update k (albums @ [album]) acc)
      | None \<Rightarrow> if k \<in> set inherited then None else Some (AList.update k [album] acc))"

definition isAlbumArtist :: "string \<Rightarrow> album \<Rightarrow> bool" where
  "isAlbumArtist routeId album = (\<exists>artist \<in> set (al_albumArtists album). rel_id artist = routeId)"

definition sortedTypes :: "string list \<Rightarrow> string list" where
  "sortedTypes normalizedTypes =
     (let primaryTypes = sort_key (\<lambda>x. x) (filter (\<lambda>type. type \<in> set ARTIST_PRIMARY_TYPES) normalizedTypes);
          secondaryTypes = sort_key (\<lambda>x. x) (filter (\<lambda>type. type \<notin> set ARTIST_PRIMARY_TYPES) normalizedTypes)
      in primaryTypes @ secondaryTypes)"

text \<open>The group of an album by all of its types, and by the most important one.\<close>

definition allTypesKey :: "release_lib \<Rightarrow> string \<Rightarrow> album \<Rightarrow> string" where
  "allTypesKey L routeId album =
     (if \<not> isAlbumArtist routeId album then ''appears-on''
      else if al_isCompilation album = Some True then ''compilation''
      else let normalizedTypes = getNormalizedReleaseTypes L album
           in if length normalizedTypes > 0 then joinWith ''/'' (sortedTypes normalizedTypes) else ''album'')"

definition matchedType :: "string list \<Rightarrow> string" where
  "matchedType normalizedTypes =
     (if ''album'' \<in> set normalizedTypes then ''album''
      else if ''single'' \<in> set normalizedTypes then ''single''
      else if ''ep'' \<in> set normalizedTypes then ''ep''
      else if ''broadcast'' \<in> set normalizedTypes then ''broadcast''
      else if ''other'' \<in> set normalizedTypes then ''other''
      else if length normalizedTypes > 0 then normalizedTypes ! 0
      else ''album'')"

definition primaryKey :: "release_lib \<Rightarrow> string \<Rightarrow> album \<Rightarrow> string" where
  "primaryKey L routeId album =
     (if \<not> isAlbumArtist routeId album then ''appears-on'' else matchedType (getNormalizedReleaseTypes L album))"

datatype grouping_type = Group_all | Group_primary

definition groupKey :: "release_lib \<Rightarrow> string \<Rightarrow> grouping_type \<Rightarrow> album \<Rightarrow> string" where
  "groupKey L routeId groupingType =
     (if groupingType = Group_all then allTypesKey L routeId else primaryKey L routeId)"

fun groupInto :: "(album \<Rightarrow> string) \<Rightarrow> album list \<Rightarrow> album list obj \<Rightarrow> album list obj option" where
  "groupInto f [] acc = Some acc"
| "groupInto f (album # albums) acc = Option.bind (pushTo (f album) album acc) (groupInto f albums)"

definition groupAlbumsByReleaseType ::
    "release_lib \<Rightarrow> album list \<Rightarrow> string \<Rightarrow> grouping_type \<Rightarrow> album list obj option" where
  "groupAlbumsByReleaseType L albums routeId groupingType = groupInto (groupKey L routeId groupingType) albums []"

section \<open>The settings of the groups\<close>

definition releaseTypeToEnumMap :: "string obj" where
  "releaseTypeToEnumMap =
     [(''album'', ''releaseTypeAlbum''), (''appears-on'', ''appearsOn''), (''audiobook'', ''releaseTypeAudiobook''),
      (''audio drama'', ''releaseTypeAudioDrama''), (''broadcast'', ''releaseTypeBroadcast''),
      (''compilation'', ''releaseTypeCompilation''), (''demo'', ''releaseTypeDemo''), (''dj-mix'', ''releaseTypeDjMix''),
      (''ep'', ''releaseTypeEp''), (''field recording'', ''releaseTypeFieldRecording''),
      (''interview'', ''releaseTypeInterview''), (''live'', ''releaseTypeLive''),
      (''mixtape/street'', ''releaseTypeMixtapeStreet''), (''other'', ''releaseTypeOther''),
      (''remix'', ''releaseTypeRemix''), (''single'', ''releaseTypeSingle''),
      (''soundtrack'', ''releaseTypeSoundtrack''), (''spokenword'', ''releaseTypeSpokenWord'')]"

record release_item =
  ri_disabled :: bool
  ri_id :: string

definition enabledItems :: "release_item list \<Rightarrow> release_item list" where
  "enabledItems items = filter (\<lambda>item. \<not> ri_disabled item) items"

definition releaseTypeKey :: "string \<Rightarrow> string option" where
  "releaseTypeKey i = map_option fst (find (\<lambda>(k, e). e = i) releaseTypeToEnumMap)"

definition setPriority :: "release_item \<times> nat \<Rightarrow> (string \<rightharpoonup> nat) \<Rightarrow> (string \<rightharpoonup> nat)" where
  "setPriority x m = (case releaseTypeKey (ri_id (fst x)) of None \<Rightarrow> m | Some k \<Rightarrow> m(k \<mapsto> snd x))"

definition priorityMap :: "release_item list \<Rightarrow> (string \<rightharpoonup> nat)" where
  "priorityMap items = fold setPriority (List.zip (enabledItems items) [0..<length (enabledItems items)]) Map.empty"

definition priorityOf :: "release_item list \<Rightarrow> string \<Rightarrow> int" where
  "priorityOf items type = int (nullish_or (priorityMap items type) 999)"

definition getPriority :: "release_item list \<Rightarrow> string \<Rightarrow> int" where
  "getPriority items releaseType =
     (if CHR ''/'' \<in> set releaseType then
        let types = splitOn (CHR ''/'') releaseType;
            primaryTypes = filter (\<lambda>type. type \<in> set ARTIST_PRIMARY_TYPES) types
        in if length primaryTypes > 0 then priorityOf items (primaryTypes ! 0)
           else let priorities = filter (\<lambda>p. p \<noteq> 999) (map (priorityOf items) types)
                in if length priorities > 0 then Min (set priorities) else 999
      else priorityOf items releaseType)"

definition getSecondaryTypePriorityKey :: "release_item list \<Rightarrow> string \<Rightarrow> string" where
  "getSecondaryTypePriorityKey items releaseType =
     (if CHR ''/'' \<in> set releaseType then
        let types = splitOn (CHR ''/'') releaseType;
            secondaryTypes = filter (\<lambda>type. type \<notin> set ARTIST_PRIMARY_TYPES) types
        in if length secondaryTypes > 0 then
             let priorities = sort_key (\<lambda>x. x) (filter (\<lambda>p. p \<noteq> 999) (map (priorityOf items) secondaryTypes))
             in joinWith '','' (map (\<lambda>p. padZeros 3 (decimal (nat p))) priorities)
           else ''''
      else '''')"

text \<open>The map is an object too: what it inherits is truthy, and no setting.\<close>

definition typeEnabled :: "release_item list \<Rightarrow> string \<Rightarrow> bool" where
  "typeEnabled items type =
     (case map_of releaseTypeToEnumMap type of
        Some enumValue \<Rightarrow> enumValue \<in> ri_id ` set (enabledItems items)
      | None \<Rightarrow> type \<notin> set inherited)"

definition isReleaseTypeEnabled :: "release_item list \<Rightarrow> string \<Rightarrow> bool" where
  "isReleaseTypeEnabled items releaseType =
     (if CHR ''/'' \<in> set releaseType then list_ex (typeEnabled items) (splitOn (CHR ''/'') releaseType)
      else typeEnabled items releaseType)"

section \<open>Names\<close>

definition wordChar :: "char \<Rightarrow> bool" where
  "wordChar c = (let n = of_char c :: nat in 48 \<le> n \<and> n \<le> 57 \<or> 65 \<le> n \<and> n \<le> 90 \<or> 97 \<le> n \<and> n \<le> 122 \<or> n = 95)"

definition upperChar :: "char \<Rightarrow> char" where
  "upperChar c = (let n = of_char c :: nat in if 97 \<le> n \<and> n \<le> 122 then char_of (n - 32) else c)"

text \<open>What matches a word character and all the text after it up to white space.\<close>

function titleCase :: "release_lib \<Rightarrow> string \<Rightarrow> string" where
  "titleCase L [] = []"
| "titleCase L (c # cs) =
     (if wordChar c
      then upperChar c # rl_lower L (takeWhile (\<lambda>x. \<not> isWhite x) cs) @ titleCase L (dropWhile (\<lambda>x. \<not> isWhite x) cs)
      else c # titleCase L cs)"
  by pat_completeness auto
termination by (relation "measure (\<lambda>(L, s). length s)") (auto simp: less_Suc_eq_le length_dropWhile_le)

definition translationKeys :: "string obj" where
  "translationKeys =
     [(''album'', ''releaseType.primary.album''), (''appears-on'', ''page.albumArtistDetail.appearsOn''),
      (''audiobook'', ''releaseType.secondary.audiobook''), (''audio drama'', ''releaseType.secondary.audioDrama''),
      (''broadcast'', ''releaseType.primary.broadcast''), (''compilation'', ''releaseType.secondary.compilation''),
      (''demo'', ''releaseType.secondary.demo''), (''dj-mix'', ''releaseType.secondary.djMix''),
      (''ep'', ''releaseType.primary.ep''), (''field recording'', ''releaseType.secondary.fieldRecording''),
      (''interview'', ''releaseType.secondary.interview''), (''live'', ''releaseType.secondary.live''),
      (''mixtape/street'', ''releaseType.secondary.mixtape''), (''other'', ''releaseType.primary.other''),
      (''remix'', ''releaseType.secondary.remix''), (''single'', ''releaseType.primary.single''),
      (''soundtrack'', ''releaseType.secondary.soundtrack''), (''spokenword'', ''releaseType.secondary.spokenWord'')]"

definition getDisplayNameForType :: "release_lib \<Rightarrow> string \<Rightarrow> string" where
  "getDisplayNameForType L releaseType =
     (case map_of translationKeys releaseType of
        Some k \<Rightarrow> rl_translate L k (releaseType = ''ep'')
      | None \<Rightarrow> titleCase L releaseType)"

text \<open>A bullet between spaces, of which the bytes are those of UTF-8.\<close>

definition SEPARATOR_STRING :: string where
  "SEPARATOR_STRING = [CHR '' '', CHR 0xE2, CHR 0x80, CHR 0xA2, CHR '' '']"

definition displayNameOf :: "release_lib \<Rightarrow> string \<Rightarrow> string" where
  "displayNameOf L releaseType =
     (if CHR ''/'' \<in> set releaseType
      then joinWith SEPARATOR_STRING (map (getDisplayNameForType L) (splitOn (CHR ''/'') releaseType))
      else getDisplayNameForType L releaseType)"

section \<open>The order of the groups\<close>

record release_entry =
  re_albums :: "album list"
  re_displayName :: string
  re_releaseType :: string

definition compareEntries :: "release_lib \<Rightarrow> release_item list \<Rightarrow> release_entry \<Rightarrow> release_entry \<Rightarrow> int" where
  "compareEntries L items a b =
     (let priorityA = getPriority items (re_releaseType a);
          priorityB = getPriority items (re_releaseType b)
      in if priorityA \<noteq> priorityB then priorityA - priorityB
         else
           let isCombinedA = CHR ''/'' \<in> set (re_releaseType a);
               isCombinedB = CHR ''/'' \<in> set (re_releaseType b);
               secondaryKeyA = getSecondaryTypePriorityKey items (re_releaseType a);
               secondaryKeyB = getSecondaryTypePriorityKey items (re_releaseType b)
           in if isCombinedA \<and> isCombinedB \<and> secondaryKeyA \<noteq> '''' \<and> secondaryKeyB \<noteq> ''''
              then rl_compare L secondaryKeyA secondaryKeyB
              else rl_compare L (re_releaseType a) (re_releaseType b))"

text \<open>
  \<open>sort\<close> with a comparator: by insertion from the left, after what is not greater. Any stable sort gives this list
  when the comparator is consistent; otherwise the language leaves the order to the engine, and engines insert
  into short arrays.
\<close>

fun insertBy :: "('a \<Rightarrow> 'a \<Rightarrow> int) \<Rightarrow> 'a \<Rightarrow> 'a list \<Rightarrow> 'a list" where
  "insertBy f x [] = [x]"
| "insertBy f x (y # ys) = (if f y x \<le> 0 then y # insertBy f x ys else x # y # ys)"

definition sortBy :: "('a \<Rightarrow> 'a \<Rightarrow> int) \<Rightarrow> 'a list \<Rightarrow> 'a list" where
  "sortBy f xs = fold (insertBy f) xs []"

text \<open>The entries of an object: keys that are array indexes come first, in their order.\<close>

definition arrayIndex :: "string \<Rightarrow> bool" where
  "arrayIndex k =
     (k \<noteq> '''' \<and> list_all isDigit k \<and> (k = ''0'' \<or> hd k \<noteq> CHR ''0'') \<and> numberOf k < 2 ^ 32 - 1)"

definition objectEntries :: "'v obj \<Rightarrow> 'v obj" where
  "objectEntries m =
     sort_key (\<lambda>x. numberOf (fst x)) (filter (\<lambda>x. arrayIndex (fst x)) m) @ filter (\<lambda>x. \<not> arrayIndex (fst x)) m"

definition releaseTypeEntries ::
    "release_lib \<Rightarrow> release_item list \<Rightarrow> album list obj \<Rightarrow> release_entry list" where
  "releaseTypeEntries L items albumsByReleaseType =
     sortBy (compareEntries L items)
       (map (\<lambda>(releaseType, albums).
            \<lparr>re_albums = albums, re_displayName = displayNameOf L releaseType, re_releaseType = releaseType\<rparr>)
          (filter (\<lambda>x. isReleaseTypeEnabled items (fst x)) (objectEntries albumsByReleaseType)))"

definition getArtistAlbumsGrouped ::
    "release_lib \<Rightarrow> album list \<Rightarrow> string \<Rightarrow> grouping_type \<Rightarrow> release_item list \<Rightarrow>
     (album list \<times> release_entry list) option" where
  "getArtistAlbumsGrouped L albums routeId groupingType artistReleaseTypeItems =
     (case groupAlbumsByReleaseType L albums routeId groupingType of
        None \<Rightarrow> None
      | Some albumsByReleaseType \<Rightarrow>
          let entries = releaseTypeEntries L artistReleaseTypeItems albumsByReleaseType
          in Some (concat (map re_albums entries), entries))"

section \<open>What the groups hold\<close>

lemma pushTo_lookup:
  "pushTo k a acc = Some acc' \<Longrightarrow> map_of acc' x = (if x = k then Some (nullish_or (map_of acc k) [] @ [a]) else map_of acc x)"
  by (auto simp: pushTo_def update_conv' split: option.splits if_splits)

lemma pushTo_distinct: "pushTo k a acc = Some acc' \<Longrightarrow> distinct (obj_keys acc) \<Longrightarrow> distinct (obj_keys acc')"
  by (auto simp: pushTo_def distinct_update split: option.splits if_splits)

lemma groupInto_lookup:
  "groupInto f albums acc = Some g \<Longrightarrow>
   map_of g k = (if filter (\<lambda>a. f a = k) albums = [] then map_of acc k
                 else Some (nullish_or (map_of acc k) [] @ filter (\<lambda>a. f a = k) albums))"
proof (induction albums arbitrary: acc)
  case (Cons a albums)
  then obtain acc' where p: "pushTo (f a) a acc = Some acc'" and g: "groupInto f albums acc' = Some g"
    by (cases "pushTo (f a) a acc") auto
  show ?case by (simp add: Cons.IH [OF g] pushTo_lookup [OF p])
qed simp

lemma groupInto_distinct:
  "groupInto f albums acc = Some g \<Longrightarrow> distinct (obj_keys acc) \<Longrightarrow> distinct (obj_keys g)"
  by (induction albums arbitrary: acc) (auto split: bind_splits dest: pushTo_distinct)

text \<open>Grouping fails for names of what objects inherit, and only for these.\<close>

lemma groupInto_succeeds:
  assumes "\<And>a. a \<in> set albums \<Longrightarrow> f a \<notin> set inherited"
  shows "groupInto f albums acc \<noteq> None"
  using assms
proof (induction albums arbitrary: acc)
  case (Cons a albums)
  then have "f a \<notin> set inherited" by simp
  then obtain acc' where "pushTo (f a) a acc = Some acc'" by (cases "map_of acc (f a)") (auto simp: pushTo_def)
  with Cons show ?case by simp
qed simp

lemma groupInto_fails:
  assumes "a \<in> set albums" "f a \<in> set inherited" "map_of acc (f a) = None"
  shows "groupInto f albums acc = None"
  using assms
proof (induction albums arbitrary: acc)
  case (Cons b albums)
  show ?case
  proof (cases "f b = f a")
    case True
    with Cons.prems show ?thesis by (simp add: pushTo_def)
  next
    case False
    show ?thesis
    proof (cases "pushTo (f b) b acc")
      case (Some acc')
      have "map_of acc' (f a) = None" using False Cons.prems(3) by (simp add: pushTo_lookup [OF Some])
      moreover have "a \<in> set albums" using False Cons.prems(1) by auto
      ultimately show ?thesis using Cons.IH Cons.prems(2) Some by simp
    qed simp
  qed
qed simp

section \<open>Sorting\<close>

lemma insertBy_mset [simp]: "mset (insertBy f x xs) = {#x#} + mset xs"
  by (induction xs) auto

lemma fold_insertBy_mset: "mset (fold (insertBy f) xs acc) = mset xs + mset acc"
  by (induction xs arbitrary: acc) auto

lemma sortBy_mset [simp]: "mset (sortBy f xs) = mset xs"
  by (simp add: sortBy_def fold_insertBy_mset)

lemma sortBy_set [simp]: "set (sortBy f xs) = set xs"
  by (metis sortBy_mset set_mset_mset)

text \<open>A number that decides first when two differ in it is in order afterwards, whatever decides else.\<close>

lemma insertBy_sorted:
  assumes "\<And>x y. p x \<noteq> p y \<Longrightarrow> f x y = p x - p y" "linorder_class.sorted (map p xs)"
  shows "linorder_class.sorted (map p (insertBy f x xs))"
  using assms(2)
proof (induction xs)
  case (Cons y ys)
  show ?case
  proof (cases "f y x \<le> 0")
    case True
    then have le: "p y \<le> p x" using assms(1) [of y x] by (cases "p y = p x") auto
    have "set (insertBy f x ys) = insert x (set ys)" using insertBy_mset [of f x ys] by (metis add_mset_add_single set_mset_add_mset_insert set_mset_mset union_commute)
    then show ?thesis using True Cons le by auto
  next
    case False
    then have "p x \<le> p y" using assms(1) [of y x] by (cases "p y = p x") auto
    then show ?thesis using False Cons.prems by auto
  qed
qed simp

lemma sortBy_sorted:
  assumes "\<And>x y. p x \<noteq> p y \<Longrightarrow> f x y = p x - p y"
  shows "linorder_class.sorted (map p (sortBy f xs))"
proof -
  have "linorder_class.sorted (map p acc) \<Longrightarrow> linorder_class.sorted (map p (fold (insertBy f) xs acc))" for acc
    by (induction xs arbitrary: acc) (simp_all add: insertBy_sorted [of p f, OF assms])
  then show ?thesis by (simp add: sortBy_def)
qed

lemma objectEntries_mset [simp]: "mset (objectEntries m) = mset m"
  by (simp add: objectEntries_def multiset_partition [of "mset m" "\<lambda>x. arrayIndex (fst x)", symmetric])

lemma objectEntries_set [simp]: "set (objectEntries m) = set m"
  by (metis objectEntries_mset set_mset_mset)

section \<open>What is shown\<close>

lemma entries_mset:
  "mset (map (\<lambda>e. (re_releaseType e, re_albums e)) (releaseTypeEntries L items g)) =
   mset (filter (\<lambda>x. isReleaseTypeEnabled items (fst x)) g)"
proof -
  have "mset (map (\<lambda>e. (re_releaseType e, re_albums e)) (releaseTypeEntries L items g)) =
        image_mset (\<lambda>e. (re_releaseType e, re_albums e))
          (image_mset (\<lambda>(releaseType, albums). \<lparr>re_albums = albums, re_displayName = displayNameOf L releaseType,
              re_releaseType = releaseType\<rparr>) (filter_mset (\<lambda>x. isReleaseTypeEnabled items (fst x)) (mset g)))"
    by (simp add: releaseTypeEntries_def)
  also have "\<dots> = filter_mset (\<lambda>x. isReleaseTypeEnabled items (fst x)) (mset g)"
    by (simp add: image_mset.compositionality comp_def case_prod_beta)
  finally show ?thesis by simp
qed

lemma entries_names: "e \<in> set (releaseTypeEntries L items g) \<Longrightarrow> re_displayName e = displayNameOf L (re_releaseType e)"
  by (auto simp: releaseTypeEntries_def)

lemma grouped_lookup:
  assumes "groupAlbumsByReleaseType L albums routeId t = Some g"
  shows "map_of g k = (let xs = filter (\<lambda>a. groupKey L routeId t a = k) albums in if xs = [] then None else Some xs)"
    "distinct (obj_keys g)"
  using assms groupInto_lookup [of _ albums "[]" g k] groupInto_distinct [of _ albums "[]" g]
  by (auto simp: groupAlbumsByReleaseType_def Let_def)

lemma grouped_entries:
  assumes "groupAlbumsByReleaseType L albums routeId t = Some g"
  shows "(k, xs) \<in> set g \<longleftrightarrow> xs = filter (\<lambda>a. groupKey L routeId t a = k) albums \<and> xs \<noteq> []"
proof -
  have "(k, xs) \<in> set g \<longleftrightarrow> map_of g k = Some xs" using grouped_lookup(2) [OF assms] by simp
  then show ?thesis by (auto simp: grouped_lookup(1) [OF assms] Let_def)
qed

lemma filter_concat_group:
  assumes "distinct (map t es)" "\<And>e. e \<in> set es \<Longrightarrow> xs e = filter (\<lambda>a. f a = t e) as"
  shows "filter (\<lambda>a. f a = k) (concat (map xs es)) = (if k \<in> t ` set es then filter (\<lambda>a. f a = k) as else [])"
  using assms
proof (induction es)
  case (Cons e es)
  have e: "xs e = filter (\<lambda>a. f a = t e) as" and ih: "filter (\<lambda>a. f a = k) (concat (map xs es)) = (if k \<in> t ` set es then filter (\<lambda>a. f a = k) as else [])"
    using Cons by simp_all
  have both: "filter (\<lambda>a. f a = t e \<and> f a = k) as = (if t e = k then filter (\<lambda>a. f a = k) as else [])"
    by (auto intro: filter_False)
  show ?case
  proof (cases "t e = k")
    case True
    then have "k \<notin> t ` set es" using Cons.prems(1) by auto
    then show ?thesis using True by (simp add: e ih)
  next
    case False
    then have "filter (\<lambda>a. f a = t e \<and> f a = k) as = []" using both by simp
    then show ?thesis using False by (auto simp: e ih conj_commute)
  qed
qed simp

lemma group_entry:
  assumes g: "groupAlbumsByReleaseType L albums routeId t = Some g" and e: "e \<in> set (releaseTypeEntries L items g)"
  shows "re_albums e = filter (\<lambda>a. groupKey L routeId t a = re_releaseType e) albums" "re_albums e \<noteq> []"
    "isReleaseTypeEnabled items (re_releaseType e)"
proof -
  have "(re_releaseType e, re_albums e) \<in> set (map (\<lambda>e. (re_releaseType e, re_albums e)) (releaseTypeEntries L items g))"
    using e by auto
  also have "\<dots> = set (filter (\<lambda>x. isReleaseTypeEnabled items (fst x)) g)" using entries_mset by (rule mset_eq_setD)
  finally show "re_albums e = filter (\<lambda>a. groupKey L routeId t a = re_releaseType e) albums" "re_albums e \<noteq> []"
    "isReleaseTypeEnabled items (re_releaseType e)"
    using grouped_entries [OF g] by auto
qed

lemma grouped_keys:
  assumes g: "groupAlbumsByReleaseType L albums routeId t = Some g"
  shows "fst ` set g = groupKey L routeId t ` set albums"
proof -
  have "k \<in> fst ` set g \<longleftrightarrow> k \<in> groupKey L routeId t ` set albums" for k
  proof -
    have "k \<in> fst ` set g \<longleftrightarrow> map_of g k \<noteq> None" by (simp add: map_of_eq_None_iff)
    also have "\<dots> \<longleftrightarrow> filter (\<lambda>a. groupKey L routeId t a = k) albums \<noteq> []" by (simp add: grouped_lookup(1) [OF g] Let_def)
    also have "\<dots> \<longleftrightarrow> k \<in> groupKey L routeId t ` set albums" by (auto simp: filter_empty_conv)
    finally show ?thesis .
  qed
  then show ?thesis by blast
qed

lemma entry_types:
  assumes g: "groupAlbumsByReleaseType L albums routeId t = Some g"
  shows "distinct (map re_releaseType (releaseTypeEntries L items g))"
    "set (map re_releaseType (releaseTypeEntries L items g)) =
     {k \<in> groupKey L routeId t ` set albums. isReleaseTypeEnabled items k}"
proof -
  let ?h = "filter (\<lambda>x. isReleaseTypeEnabled items (fst x)) g"
  have m: "mset (map re_releaseType (releaseTypeEntries L items g)) = mset (map fst ?h)"
    using arg_cong [OF entries_mset, of "image_mset fst" L items g] by (simp add: image_mset.compositionality comp_def)
  have "distinct (map fst ?h)" using grouped_lookup(2) [OF g] by (simp add: distinct_map_filter)
  then show "distinct (map re_releaseType (releaseTypeEntries L items g))" using mset_eq_imp_distinct_iff [OF m] by simp
  have "fst ` set g = groupKey L routeId t ` set albums" by (rule grouped_keys [OF g])
  moreover have "set (map fst ?h) = {k \<in> fst ` set g. isReleaseTypeEnabled items k}" by auto
  ultimately show "set (map re_releaseType (releaseTypeEntries L items g)) =
     {k \<in> groupKey L routeId t ` set albums. isReleaseTypeEnabled items k}"
    using mset_eq_setD [OF m] by simp
qed

text \<open>The albums that are shown, in the order of the page.\<close>

lemma artist_albums_shown:
  assumes "getArtistAlbumsGrouped L albums routeId t items = Some (shown, entries)"
  shows "mset shown = mset (filter (\<lambda>a. isReleaseTypeEnabled items (groupKey L routeId t a)) albums)"
    "distinct (map re_releaseType entries)"
    "list_all (\<lambda>e. re_albums e = filter (\<lambda>a. groupKey L routeId t a = re_releaseType e) albums \<and> re_albums e \<noteq> []
       \<and> re_displayName e = displayNameOf L (re_releaseType e)) entries"
    "linorder_class.sorted (map (\<lambda>e. getPriority items (re_releaseType e)) entries)"
proof -
  obtain g where g: "groupAlbumsByReleaseType L albums routeId t = Some g"
    and r: "entries = releaseTypeEntries L items g" "shown = concat (map re_albums entries)"
    using assms by (auto simp: getArtistAlbumsGrouped_def Let_def split: option.splits)
  note types = entry_types [OF g, of items]
  show "distinct (map re_releaseType entries)" using types(1) r(1) by simp
  show "list_all (\<lambda>e. re_albums e = filter (\<lambda>a. groupKey L routeId t a = re_releaseType e) albums \<and> re_albums e \<noteq> []
       \<and> re_displayName e = displayNameOf L (re_releaseType e)) entries"
    using group_entry(1,2) [OF g] entries_names unfolding list_all_iff r(1) by blast
  show "linorder_class.sorted (map (\<lambda>e. getPriority items (re_releaseType e)) entries)"
    unfolding r(1) releaseTypeEntries_def by (rule sortBy_sorted) (simp add: compareEntries_def Let_def)
  have shown: "filter (\<lambda>a. groupKey L routeId t a = k) shown =
      (if k \<in> re_releaseType ` set entries then filter (\<lambda>a. groupKey L routeId t a = k) albums else [])" for k
    unfolding r(2) by (rule filter_concat_group) (use types(1) r(1) group_entry(1) [OF g] in auto)
  show "mset shown = mset (filter (\<lambda>a. isReleaseTypeEnabled items (groupKey L routeId t a)) albums)"
  proof (rule multiset_eqI)
    fix a
    let ?k = "groupKey L routeId t a"
    have inside: "count (mset xs) a = count (mset (filter (\<lambda>a. groupKey L routeId t a = ?k) xs)) a" for xs
      by simp
    have "count (mset shown) a = (if ?k \<in> re_releaseType ` set entries then count (mset albums) a else 0)"
      using inside [of shown] inside [of albums] by (simp add: shown)
    moreover have "re_releaseType ` set entries = {k \<in> groupKey L routeId t ` set albums. isReleaseTypeEnabled items k}"
      using types(2) r(1) by simp
    moreover have "count (mset albums) a \<noteq> 0 \<Longrightarrow> ?k \<in> groupKey L routeId t ` set albums" by (simp add: count_eq_zero_iff)
    ultimately show "count (mset shown) a = count (mset (filter (\<lambda>a. isReleaseTypeEnabled items (groupKey L routeId t a)) albums)) a"
      by auto
  qed
qed


section \<open>Types that make a group\<close>

lemma distinctFirst_set [simp]: "set (distinctFirst xs) = set xs"
  by (induction xs) auto

lemma distinctFirst_distinct [simp]: "distinct (distinctFirst xs)"
  by (induction xs) auto

lemma sortedTypes_set [simp]: "set (sortedTypes xs) = set xs"
  by (auto simp: sortedTypes_def)

lemma sort_unique: "set xs = set ys \<Longrightarrow> distinct xs \<Longrightarrow> distinct ys \<Longrightarrow> sort_key (\<lambda>x. x) xs = sort_key (\<lambda>x. x) (ys :: string list)"
  by (rule properties_for_sort) (simp_all add: set_eq_iff_mset_eq_distinct)

lemma sortedTypes_unique: "set xs = set ys \<Longrightarrow> distinct xs \<Longrightarrow> distinct ys \<Longrightarrow> sortedTypes xs = sortedTypes ys"
  unfolding sortedTypes_def Let_def by (intro arg_cong2 [of _ _ _ _ "(@)"] sort_unique) auto

definition releaseTypesOf :: "release_lib \<Rightarrow> album \<Rightarrow> string set" where
  "releaseTypesOf L album = set (getNormalizedReleaseTypes L album)"

text \<open>An album that is grouped by its types: it is the artist's, no compilation, and has types without slashes.\<close>

definition groupedByTypes :: "release_lib \<Rightarrow> string \<Rightarrow> album \<Rightarrow> bool" where
  "groupedByTypes L routeId album \<longleftrightarrow>
     isAlbumArtist routeId album \<and> al_isCompilation album \<noteq> Some True \<and> releaseTypesOf L album \<noteq> {}
     \<and> plain_for (CHR ''/'') (getNormalizedReleaseTypes L album)"

lemma allTypesKey_types:
  assumes "groupedByTypes L routeId a"
  shows "allTypesKey L routeId a = joinWith ''/'' (sortedTypes (getNormalizedReleaseTypes L a))"
    "splitOn (CHR ''/'') (allTypesKey L routeId a) = sortedTypes (getNormalizedReleaseTypes L a)"
proof -
  let ?ts = "sortedTypes (getNormalizedReleaseTypes L a)"
  show k: "allTypesKey L routeId a = joinWith ''/'' ?ts"
    using assms by (auto simp: allTypesKey_def groupedByTypes_def releaseTypesOf_def Let_def)
  have "?ts \<noteq> []" using assms sortedTypes_set [of "getNormalizedReleaseTypes L a"] by (auto simp: groupedByTypes_def releaseTypesOf_def simp del: sortedTypes_set)
  moreover have "plain_for (CHR ''/'') ?ts" using assms by (simp add: groupedByTypes_def plain_for_def)
  ultimately show "splitOn (CHR ''/'') (allTypesKey L routeId a) = ?ts" unfolding k by (rule split_join)
qed

text \<open>Two such albums are in one group just when they have the same types, in whatever order and however they are written.\<close>

theorem same_group_iff_same_types:
  assumes "groupedByTypes L routeId a" "groupedByTypes L routeId b"
  shows "groupKey L routeId Group_all a = groupKey L routeId Group_all b \<longleftrightarrow> releaseTypesOf L a = releaseTypesOf L b"
proof
  assume "groupKey L routeId Group_all a = groupKey L routeId Group_all b"
  then have "sortedTypes (getNormalizedReleaseTypes L a) = sortedTypes (getNormalizedReleaseTypes L b)"
    using allTypesKey_types(2) [OF assms(1)] allTypesKey_types(2) [OF assms(2)] by (simp add: groupKey_def)
  then show "releaseTypesOf L a = releaseTypesOf L b" unfolding releaseTypesOf_def by (metis sortedTypes_set)
next
  assume "releaseTypesOf L a = releaseTypesOf L b"
  then have "sortedTypes (getNormalizedReleaseTypes L a) = sortedTypes (getNormalizedReleaseTypes L b)"
    by (intro sortedTypes_unique) (simp_all add: releaseTypesOf_def getNormalizedReleaseTypes_def)
  then show "groupKey L routeId Group_all a = groupKey L routeId Group_all b"
    by (simp add: groupKey_def allTypesKey_types(1) [OF assms(1)] allTypesKey_types(1) [OF assms(2)])
qed

text \<open>The one type with a slash is taken apart wherever its group is looked up, so it is shown even when it is disabled.\<close>

lemma mixtapes_cannot_be_disabled: "isReleaseTypeEnabled items ''mixtape/street''" "getPriority items ''mixtape/street'' = 999"
proof -
  have parts: "splitOn (CHR ''/'') ''mixtape/street'' = [''mixtape'', ''street'']" by simp
  show "isReleaseTypeEnabled items ''mixtape/street''"
    by (simp add: isReleaseTypeEnabled_def typeEnabled_def releaseTypeToEnumMap_def inherited_def)
  have key: "releaseTypeKey i \<noteq> Some x" if "x \<notin> fst ` set releaseTypeToEnumMap" for i x
  proof
    assume "releaseTypeKey i = Some x"
    then obtain p where "find (\<lambda>(k, e). e = i) releaseTypeToEnumMap = Some p" "fst p = x" by (auto simp: releaseTypeKey_def)
    then have "p \<in> set releaseTypeToEnumMap" "fst p = x" by (auto simp: find_Some_iff in_set_conv_nth)
    then show False using that by blast
  qed
  have keep: "fold setPriority xs m x = m x" if "x \<notin> fst ` set releaseTypeToEnumMap" for xs m x
    using key [OF that] by (induction xs arbitrary: m) (auto simp: setPriority_def split: option.split)
  have "priorityOf items ''mixtape'' = 999" "priorityOf items ''street'' = 999"
    unfolding priorityOf_def priorityMap_def by (subst keep; simp add: releaseTypeToEnumMap_def)+
  then show "getPriority items ''mixtape/street'' = 999" by (simp add: getPriority_def ARTIST_PRIMARY_TYPES_def)
qed

text \<open>The name of what every object inherits, as a type, stops the page.\<close>

lemma inherited_type_throws:
  assumes "a \<in> set albums" "groupKey L routeId t a \<in> set inherited"
  shows "getArtistAlbumsGrouped L albums routeId t items = None"
proof -
  have "groupAlbumsByReleaseType L albums routeId t = None"
    unfolding groupAlbumsByReleaseType_def by (rule groupInto_fails [of a]) (use assms in simp_all)
  then show ?thesis by (simp add: getArtistAlbumsGrouped_def)
qed

lemma other_types_are_grouped:
  assumes "\<And>a. a \<in> set albums \<Longrightarrow> groupKey L routeId t a \<notin> set inherited"
  shows "getArtistAlbumsGrouped L albums routeId t items \<noteq> None"
proof -
  obtain g where "groupAlbumsByReleaseType L albums routeId t = Some g"
    using groupInto_succeeds [of albums "groupKey L routeId t" "[]"] assms
    unfolding groupAlbumsByReleaseType_def by fastforce
  then show ?thesis by (simp add: getArtistAlbumsGrouped_def Let_def)
qed

section \<open>Examples\<close>

definition exampleReleaseLib :: release_lib where
  "exampleReleaseLib = \<lparr>rl_lower = (\<lambda>x. x), rl_compare = (\<lambda>x y. if x = y then 0 else if x < y then - 1 else 1),
     rl_translate = (\<lambda>k up. k)\<rparr>"

definition exampleRelease :: "string \<Rightarrow> string list \<Rightarrow> album" where
  "exampleRelease i types =
     \<lparr>al_serverId = ''s'', al_serverType = NAVIDROME, al_itemType = ALBUM, al_albumArtistName = '''',
      al_albumArtists = [\<lparr>rel_id = ''r'', rel_name = ''''\<rparr>], al_artists = [], al_comment = None, al_createdAt = '''',
      al_duration = None, al_explicitStatus = None, al_genres = [], al_id = i, al_imageId = None, al_imageUrl = None,
      al_isCompilation = None, al_lastPlayedAt = None, al_mbzId = None, al_mbzReleaseGroupId = None, al_name = i,
      al_originalDate = None, al_originalYear = 0, al_participants = None, al_playCount = None, al_recordLabels = [],
      al_releaseDate = None, al_releaseType = None, al_releaseTypes = types, al_releaseYear = None, al_size = None,
      al_songCount = None, al_songs = [], al_sortName = i, al_tags = None, al_updatedAt = '''', al_userFavorite = False,
      al_userRating = None, al_version = None\<rparr>"

lemma exampleRelease_simps [simp]:
  "al_id (exampleRelease i types) = i" "al_releaseTypes (exampleRelease i types) = types"
  "al_releaseType (exampleRelease i types) = None" "al_isCompilation (exampleRelease i types) = None"
  "al_albumArtists (exampleRelease i types) = [\<lparr>rel_id = ''r'', rel_name = ''''\<rparr>]"
  by (simp_all add: exampleRelease_def)

definition exampleReleases :: "album list" where
  "exampleReleases = [exampleRelease ''1'' [''live'', ''album''], exampleRelease ''2'' [''ep''],
     exampleRelease ''3'' [''album'', '' live'']]"

definition exampleItems :: "release_item list" where
  "exampleItems = [\<lparr>ri_disabled = True, ri_id = ''releaseTypeEp''\<rparr>, \<lparr>ri_disabled = False, ri_id = ''releaseTypeAlbum''\<rparr>]"

lemma example_types:
  "getNormalizedReleaseTypes exampleReleaseLib (exampleRelease ''1'' [''live'', ''album'']) = [''live'', ''album'']"
  "getNormalizedReleaseTypes exampleReleaseLib (exampleRelease ''2'' [''ep'']) = [''ep'']"
  "getNormalizedReleaseTypes exampleReleaseLib (exampleRelease ''3'' [''album'', '' live'']) = [''album'', ''live'']"
  by (simp_all add: getNormalizedReleaseTypes_def exampleReleaseLib_def trim_def isWhite_def)

lemma example_keys:
  "groupKey exampleReleaseLib ''r'' Group_all (exampleRelease ''1'' [''live'', ''album'']) = ''album/live''"
  "groupKey exampleReleaseLib ''r'' Group_all (exampleRelease ''2'' [''ep'']) = ''ep''"
  "groupKey exampleReleaseLib ''r'' Group_all (exampleRelease ''3'' [''album'', '' live'']) = ''album/live''"
  by (simp_all add: groupKey_def allTypesKey_def isAlbumArtist_def Let_def example_types sortedTypes_def
      ARTIST_PRIMARY_TYPES_def)

lemma example_enabled:
  "isReleaseTypeEnabled exampleItems ''album/live''" "\<not> isReleaseTypeEnabled exampleItems ''ep''"
  by (simp_all add: isReleaseTypeEnabled_def typeEnabled_def releaseTypeToEnumMap_def exampleItems_def enabledItems_def)


lemma same_group_iff_same_types_witness:
  "groupKey exampleReleaseLib ''r'' Group_all (exampleRelease ''1'' [''live'', ''album'']) \<noteq>
   groupKey exampleReleaseLib ''r'' Group_all (exampleRelease ''2'' [''ep''])"
proof -
  have "groupedByTypes exampleReleaseLib ''r'' (exampleRelease ''1'' [''live'', ''album''])"
    "groupedByTypes exampleReleaseLib ''r'' (exampleRelease ''2'' [''ep''])"
    by (simp_all add: groupedByTypes_def isAlbumArtist_def releaseTypesOf_def example_types)
  from same_group_iff_same_types [OF this] show ?thesis by (simp add: releaseTypesOf_def example_types)
qed

text \<open>
  The order of the groups is no order: with live before demo in the settings, the group of live albums is before that of
  demos, which is before that of another type, which is before the first.
\<close>

lemma groups_in_a_circle:
  defines "items \<equiv> [\<lparr>ri_disabled = False, ri_id = ''releaseTypeAlbum''\<rparr>, \<lparr>ri_disabled = False, ri_id = ''releaseTypeLive''\<rparr>,
     \<lparr>ri_disabled = False, ri_id = ''releaseTypeDemo''\<rparr>]"
  defines "entry \<equiv> \<lambda>type. \<lparr>re_albums = [], re_displayName = '''', re_releaseType = type\<rparr>"
  shows "compareEntries exampleReleaseLib items (entry ''album/live'') (entry ''album/demo'') < 0"
    "compareEntries exampleReleaseLib items (entry ''album/demo'') (entry ''album/field'') < 0"
    "compareEntries exampleReleaseLib items (entry ''album/field'') (entry ''album/live'') < 0"
proof -
  have enabled: "enabledItems items = items" by (simp add: enabledItems_def items_def)
  have keys: "releaseTypeKey ''releaseTypeAlbum'' = Some ''album''" "releaseTypeKey ''releaseTypeLive'' = Some ''live''"
    "releaseTypeKey ''releaseTypeDemo'' = Some ''demo''"
    by (simp_all add: releaseTypeKey_def releaseTypeToEnumMap_def)
  have m: "priorityMap items = [''album'' \<mapsto> 0, ''live'' \<mapsto> 1, ''demo'' \<mapsto> 2]"
    unfolding priorityMap_def enabled by (simp add: items_def setPriority_def keys eval_nat_numeral)
  have p: "priorityOf items ''album'' = 0" "priorityOf items ''live'' = 1" "priorityOf items ''demo'' = 2"
    "priorityOf items ''field'' = 999"
    by (simp_all add: priorityOf_def m)
  have get: "getPriority items ''album/live'' = 0" "getPriority items ''album/demo'' = 0" "getPriority items ''album/field'' = 0"
    by (simp_all add: getPriority_def ARTIST_PRIMARY_TYPES_def p)
  have dec: "decimal (Suc 0) = ''1''" "decimal 2 = ''2''" by (simp_all add: decimal.simps digitOf_def char_of_def bit_0)
  have zeros: "replicate 2 CHR ''0'' = ''00''" by (simp add: numeral_2_eq_2)
  have sec: "getSecondaryTypePriorityKey items ''album/live'' = ''001''" "getSecondaryTypePriorityKey items ''album/demo'' = ''002''"
    "getSecondaryTypePriorityKey items ''album/field'' = ''''"
    by (simp_all add: getSecondaryTypePriorityKey_def ARTIST_PRIMARY_TYPES_def p padZeros_def dec zeros)
  show "compareEntries exampleReleaseLib items (entry ''album/live'') (entry ''album/demo'') < 0"
    "compareEntries exampleReleaseLib items (entry ''album/demo'') (entry ''album/field'') < 0"
    "compareEntries exampleReleaseLib items (entry ''album/field'') (entry ''album/live'') < 0"
    by (simp_all add: compareEntries_def entry_def get sec exampleReleaseLib_def less_char_def)
qed

end
