(* ===== verification/PlaylistDelete.thy ===== *)
theory PlaylistDelete
  imports PlayerTypes "HOL-Library.Sublist"
begin

text \<open>
  The optimistic update of the query cache when a playlist is deleted
  (\<^verbatim>\<open>features/playlists/mutations/playlist-optimistic-updates.ts\<close>), and how it is taken back when the request fails. The
  query client is a library: its operations are an argument, and \<open>keepsData\<close> states what is documented of
  them.
\<close>

section \<open>Cached data\<close>

record cached_playlist =
  kp_id :: string
  kp_rest :: string

text \<open>
  What is cached for a query, with the properties the updates look for. The rows of an infinite loader may be missing or
  have no id. What has none of the properties, as the data of the details and of the songs, is only the rest.
\<close>

record cached_row =
  kr_id :: "string option"
  kr_rest :: string

record cached_data =
  kd_items :: "cached_playlist list option"
  kd_totalRecordCount :: "nat option"
  kd_data :: "cached_row option list option"
  kd_rest :: string

record ('k, 'c) playlist_client =
  pc_parts :: "'k \<Rightarrow> string list"
  pc_queries :: "string list \<Rightarrow> 'c \<Rightarrow> ('k \<times> cached_data option) list"
  pc_data :: "'k \<Rightarrow> 'c \<Rightarrow> cached_data option"
  pc_set :: "'k \<Rightarrow> cached_data option \<Rightarrow> 'c \<Rightarrow> 'c"

section \<open>The keys\<close>

definition playlistDetailKey :: "string \<Rightarrow> string \<Rightarrow> string list" where
  "playlistDetailKey serverId i =
     (if i \<noteq> '''' then [serverId, ''playlists'', i, ''detail''] else [serverId, ''playlists'', ''detail''])"

definition playlistListKey :: "string \<Rightarrow> string list" where
  "playlistListKey serverId = [serverId, ''playlists'', ''list'']"

definition playlistLoaderKey :: "string \<Rightarrow> string list" where
  "playlistLoaderKey serverId = [serverId, ''item-list-infinite-loader'', ''playlist'']"

definition playlistSongsKey :: "string \<Rightarrow> string \<Rightarrow> string list" where
  "playlistSongsKey serverId i =
     (if i \<noteq> '''' then [serverId, ''playlists'', ''songList'', i] else [serverId, ''playlists'', ''songList''])"

section \<open>The updates\<close>

text \<open>Filtering what is no list is a type error (\<open>None\<close>); the outer option is that of errors.\<close>

definition withoutPlaylist :: "string \<Rightarrow> cached_data option \<Rightarrow> cached_data option option" where
  "withoutPlaylist playlistId prev =
     (case prev of
        None \<Rightarrow> Some None
      | Some d \<Rightarrow>
          (case kd_items d of
             None \<Rightarrow> None
           | Some items \<Rightarrow>
               let n = (case kd_totalRecordCount d of Some n \<Rightarrow> if n = 0 then length items else n | None \<Rightarrow> length items)
               in Some (Some (d\<lparr>kd_items := Some (filter (\<lambda>item. kp_id item \<noteq> playlistId) items),
                    kd_totalRecordCount := Some (n - 1)\<rparr>))))"

definition withoutRow :: "string \<Rightarrow> cached_data option \<Rightarrow> cached_data option option" where
  "withoutRow playlistId prev =
     (case prev of
        None \<Rightarrow> Some None
      | Some d \<Rightarrow>
          (case kd_data d of
             None \<Rightarrow> Some (Some d)
           | Some rows \<Rightarrow>
               Some (Some (d\<lparr>kd_data := Some (filter (\<lambda>row. case row of None \<Rightarrow> True
                   | Some r \<Rightarrow> \<not> truthy (kr_id r) \<or> kr_id r \<noteq> Some playlistId) rows)\<rparr>))))"

text \<open>Details and songs are to be toUndefined: what is set is undefined.\<close>

definition toUndefined :: "cached_data option \<Rightarrow> cached_data option option" where
  "toUndefined prev = Some None"

type_synonym 'k previous = "('k \<times> cached_data) list"

fun eachQuery ::
    "('k, 'c) playlist_client \<Rightarrow> (cached_data option \<Rightarrow> cached_data option option) \<Rightarrow> ('k \<times> cached_data option) list \<Rightarrow>
     'k previous \<times> 'c \<Rightarrow> ('k previous \<times> 'c) option" where
  "eachQuery cl u [] st = Some st"
| "eachQuery cl u ((queryKey, None) # qs) st = eachQuery cl u qs st"
| "eachQuery cl u ((queryKey, Some data) # qs) (previousQueries, c) =
     (case u (pc_data cl queryKey c) of
        None \<Rightarrow> None
      | Some d \<Rightarrow> eachQuery cl u qs (previousQueries @ [(queryKey, data)], pc_set cl queryKey d c))"

definition updateQueries ::
    "('k, 'c) playlist_client \<Rightarrow> string list \<Rightarrow> (cached_data option \<Rightarrow> cached_data option option) \<Rightarrow>
     'k previous \<times> 'c \<Rightarrow> ('k previous \<times> 'c) option" where
  "updateQueries cl base u st = eachQuery cl u (pc_queries cl base (snd st)) st"

definition applyDeletePlaylistOptimisticUpdates ::
    "('k, 'c) playlist_client \<Rightarrow> string \<Rightarrow> string \<Rightarrow> 'c \<Rightarrow> ('k previous \<times> 'c) option" where
  "applyDeletePlaylistOptimisticUpdates cl serverId playlistId c =
     Option.bind (updateQueries cl (playlistDetailKey serverId playlistId) toUndefined ([], c))
       (\<lambda>st. Option.bind (updateQueries cl (playlistListKey serverId) (withoutPlaylist playlistId) st)
         (\<lambda>st. Option.bind (updateQueries cl (playlistLoaderKey serverId) (withoutRow playlistId) st)
           (updateQueries cl (playlistSongsKey serverId playlistId) toUndefined)))"

definition restorePlaylistQueryData :: "('k, 'c) playlist_client \<Rightarrow> 'k previous \<Rightarrow> 'c \<Rightarrow> 'c" where
  "restorePlaylistQueryData cl previousQueries c = fold (\<lambda>(queryKey, data). pc_set cl queryKey (Some data)) previousQueries c"

section \<open>What the client promises\<close>

text \<open>
  \<open>getQueriesData\<close> finds the queries whose keys begin with the given parts, each once, with their data;
  \<open>setQueryData\<close> changes the data of its key only, and not at all when the new data is undefined.
\<close>

definition keepsData :: "('k, 'c) playlist_client \<Rightarrow> bool" where
  "keepsData cl \<longleftrightarrow>
     (\<forall>base c. distinct (map fst (pc_queries cl base c))
        \<and> (\<forall>(k, d) \<in> set (pc_queries cl base c). prefix base (pc_parts cl k) \<and> d = pc_data cl k c)
        \<and> (\<forall>k x. prefix base (pc_parts cl k) \<longrightarrow> pc_data cl k c = Some x \<longrightarrow> (k, Some x) \<in> set (pc_queries cl base c)))
     \<and> (\<forall>k k' d c. pc_data cl k' (pc_set cl k d c) = (if k' = k \<and> d \<noteq> None then d else pc_data cl k' c))"

lemma keepsData_laws:
  assumes "keepsData cl"
  shows "(k, d) \<in> set (pc_queries cl base c) \<Longrightarrow> prefix base (pc_parts cl k) \<and> d = pc_data cl k c"
    "prefix base (pc_parts cl k) \<Longrightarrow> pc_data cl k c = Some x \<Longrightarrow> (k, Some x) \<in> set (pc_queries cl base c)"
    "distinct (map fst (pc_queries cl base c))"
    "pc_data cl k' (pc_set cl k d c) = (if k' = k \<and> d \<noteq> None then d else pc_data cl k' c)"
  using assms unfolding keepsData_def by blast+

text \<open>What an update makes of data that is there.\<close>

definition updatedBy :: "(cached_data option \<Rightarrow> cached_data option option) \<Rightarrow> cached_data option \<Rightarrow> cached_data option" where
  "updatedBy u x = (case x of None \<Rightarrow> None | Some d \<Rightarrow> (case u (Some d) of Some (Some d') \<Rightarrow> Some d' | _ \<Rightarrow> Some d))"

lemma updatedBy_none [simp]: "updatedBy u None = None" by (simp add: updatedBy_def)

lemma updatedBy_undefined [simp]: "updatedBy toUndefined x = x"
  by (simp add: updatedBy_def toUndefined_def split: option.split)

lemma each_query:
  assumes laws: "keepsData cl" and "distinct (map fst qs)" "\<And>k d. (k, d) \<in> set qs \<Longrightarrow> d = pc_data cl k c"
    and "eachQuery cl u qs (prev, c) = Some (prev', c')"
  shows "set prev' = set prev \<union> {(k, d). (k, Some d) \<in> set qs}
    \<and> pc_data cl k c' = (if k \<in> fst ` set qs then updatedBy u (pc_data cl k c) else pc_data cl k c)"
  using assms(2-)
proof (induction qs arbitrary: prev c)
  case (Cons q qs)
  obtain k' x where q: "q = (k', x)" by (cases q)
  have x: "x = pc_data cl k' c" using Cons.prems(2) q by auto
  have rest: "k' \<notin> fst ` set qs" "distinct (map fst qs)" using Cons.prems(1) q by auto
  show ?case
  proof (cases x)
    case None
    have "eachQuery cl u qs (prev, c) = Some (prev', c')" using Cons.prems(3) q None by simp
    from Cons.IH [OF rest(2) _ this] Cons.prems(2) have "set prev' = set prev \<union> {(k, d). (k, Some d) \<in> set qs}
      \<and> pc_data cl k c' = (if k \<in> fst ` set qs then updatedBy u (pc_data cl k c) else pc_data cl k c)" by simp
    then show ?thesis using q None x by auto
  next
    case (Some d)
    obtain r where r: "u (Some d) = Some r" and e: "eachQuery cl u qs (prev @ [(k', d)], pc_set cl k' r c) = Some (prev', c')"
      using Cons.prems(3) q Some x by (auto split: option.splits)
    have same: "y = pc_data cl k (pc_set cl k' r c)" if "(k, y) \<in> set qs" for k y
      using that rest(1) Cons.prems(2) [of k y] by (force simp: keepsData_laws(4) [OF laws])
    have "pc_data cl k (pc_set cl k' r c) = (if k = k' then updatedBy u (pc_data cl k c) else pc_data cl k c)"
      using r Some x by (cases r) (auto simp: keepsData_laws(4) [OF laws] updatedBy_def)
    with Cons.IH [OF rest(2) same e] show ?thesis using q Some rest(1) by auto
  qed
qed simp

lemma update_queries:
  assumes laws: "keepsData cl" and "updateQueries cl base u (prev, c) = Some (prev', c')"
  shows "set prev' = set prev \<union> {(k, d). prefix base (pc_parts cl k) \<and> pc_data cl k c = Some d}"
    "pc_data cl k c' = (if prefix base (pc_parts cl k) then updatedBy u (pc_data cl k c) else pc_data cl k c)"
proof -
  have e: "eachQuery cl u (pc_queries cl base c) (prev, c) = Some (prev', c')" using assms(2) by (simp add: updateQueries_def)
  note each = each_query [OF laws keepsData_laws(3) [OF laws] _ e]
  have known: "d = pc_data cl k c" if "(k, d) \<in> set (pc_queries cl base c)" for k d using keepsData_laws(1) [OF laws that] by simp
  have "{(k, d). (k, Some d) \<in> set (pc_queries cl base c)} = {(k, d). prefix base (pc_parts cl k) \<and> pc_data cl k c = Some d}"
    using keepsData_laws(1,2) [OF laws] by fastforce
  then show "set prev' = set prev \<union> {(k, d). prefix base (pc_parts cl k) \<and> pc_data cl k c = Some d}"
    using each [OF known] by simp
  have "k \<in> fst ` set (pc_queries cl base c) \<longleftrightarrow> prefix base (pc_parts cl k)" if "pc_data cl k c = Some d" for d
    using keepsData_laws(1) [OF laws] keepsData_laws(2) [OF laws _ that] by force
  then show "pc_data cl k c' = (if prefix base (pc_parts cl k) then updatedBy u (pc_data cl k c) else pc_data cl k c)"
    using each [OF known, of k] by (cases "pc_data cl k c") auto
qed

lemma restored_data:
  assumes laws: "keepsData cl" and "\<And>k d. (k, d) \<in> set prev \<Longrightarrow> D k = Some d" "\<And>k. k \<notin> fst ` set prev \<Longrightarrow> pc_data cl k c = D k"
  shows "pc_data cl k (restorePlaylistQueryData cl prev c) = D k"
  using assms(2-) unfolding restorePlaylistQueryData_def
proof (induction prev arbitrary: c)
  case (Cons p prev)
  obtain k' d where p: "p = (k', d)" by (cases p)
  have "D k' = Some d" using Cons.prems(1) p by simp
  then have "pc_data cl x (pc_set cl k' (Some d) c) = D x" if "x \<notin> fst ` set prev" for x
    using that Cons.prems(2) [of x] p by (auto simp: keepsData_laws(4) [OF laws])
  with Cons.IH [of "pc_set cl k' (Some d) c"] Cons.prems(1) p show ?case by simp
qed simp

section \<open>Deleting and taking back\<close>

lemma prefixes_apart:
  "prefix (playlistListKey s) xs \<Longrightarrow> \<not> prefix (playlistLoaderKey s) xs"
  "prefix (playlistListKey s) xs \<Longrightarrow> \<not> prefix (playlistSongsKey s p) xs"
  "prefix (playlistLoaderKey s) xs \<Longrightarrow> \<not> prefix (playlistSongsKey s p) xs"
  by (auto simp: prefix_def playlistListKey_def playlistLoaderKey_def playlistSongsKey_def split: if_splits)

text \<open>What is cached afterwards: lists and loaders are filtered, and the rest is as it was.\<close>

definition deletedData :: "string \<Rightarrow> string \<Rightarrow> string list \<Rightarrow> cached_data option \<Rightarrow> cached_data option" where
  "deletedData serverId playlistId parts x =
     (if prefix (playlistListKey serverId) parts then updatedBy (withoutPlaylist playlistId) x
      else if prefix (playlistLoaderKey serverId) parts then updatedBy (withoutRow playlistId) x
      else x)"

lemma delete_steps:
  assumes laws: "keepsData cl" and "applyDeletePlaylistOptimisticUpdates cl s p c = Some (prev, c')"
  shows "pc_data cl k c' = deletedData s p (pc_parts cl k) (pc_data cl k c)"
    "(k, d) \<in> set prev \<Longrightarrow> pc_data cl k c = Some d"
    "k \<notin> fst ` set prev \<Longrightarrow> pc_data cl k c' = pc_data cl k c"
proof -
  obtain p1 c1 p2 c2 p3 c3 where
    u1: "updateQueries cl (playlistDetailKey s p) toUndefined ([], c) = Some (p1, c1)"
    and u2: "updateQueries cl (playlistListKey s) (withoutPlaylist p) (p1, c1) = Some (p2, c2)"
    and u3: "updateQueries cl (playlistLoaderKey s) (withoutRow p) (p2, c2) = Some (p3, c3)"
    and u4: "updateQueries cl (playlistSongsKey s p) toUndefined (p3, c3) = Some (prev, c')"
    using assms(2) unfolding applyDeletePlaylistOptimisticUpdates_def by (auto simp: bind_eq_Some_conv)
  note q1 = update_queries [OF laws u1] and q2 = update_queries [OF laws u2]
    and q3 = update_queries [OF laws u3] and q4 = update_queries [OF laws u4]
  have d1: "pc_data cl k c1 = pc_data cl k c" for k by (simp add: q1(2))
  have d4: "pc_data cl k c' = pc_data cl k c3" for k by (simp add: q4(2))
  show data: "pc_data cl k c' = deletedData s p (pc_parts cl k) (pc_data cl k c)"
    by (simp add: d4 q3(2) q2(2) d1 deletedData_def prefixes_apart)
  have d2: "pc_data cl k c2 = pc_data cl k c" if "\<not> prefix (playlistListKey s) (pc_parts cl k)" for k
    using that by (simp add: q2(2) d1)
  have d3: "pc_data cl k c3 = pc_data cl k c"
    if "\<not> prefix (playlistListKey s) (pc_parts cl k)" "\<not> prefix (playlistLoaderKey s) (pc_parts cl k)" for k
    using that by (simp add: q3(2) d2)
  show "pc_data cl k c = Some d" if "(k, d) \<in> set prev"
  proof -
    have "pc_data cl k c = Some d \<or> prefix (playlistLoaderKey s) (pc_parts cl k) \<and> pc_data cl k c2 = Some d
        \<or> prefix (playlistSongsKey s p) (pc_parts cl k) \<and> pc_data cl k c3 = Some d"
      using that unfolding q4(1) q3(1) q2(1) q1(1) by (auto simp: d1)
    then show ?thesis using d2 [of k] d3 [of k] prefixes_apart [of s "pc_parts cl k"] by metis
  qed
  show "pc_data cl k c' = pc_data cl k c" if out: "k \<notin> fst ` set prev"
  proof (cases "pc_data cl k c")
    case (Some d)
    have "\<not> prefix (playlistListKey s) (pc_parts cl k)"
    proof
      assume "prefix (playlistListKey s) (pc_parts cl k)"
      then have "(k, d) \<in> set prev" unfolding q4(1) q3(1) q2(1) using Some by (auto simp: d1)
      then show False using out by force
    qed
    moreover from this have "\<not> prefix (playlistLoaderKey s) (pc_parts cl k)"
      using d2 [of k] Some out unfolding q4(1) q3(1) by force
    ultimately show ?thesis by (simp add: d4 d3)
  qed (simp add: data deletedData_def)
qed

text \<open>
  A deleted playlist is in no list and under no row that is cached; all other data is as it was, that of the playlist
  itself and its songs too.
\<close>

theorem deleted_playlist_leaves_lists:
  assumes "keepsData cl" and "applyDeletePlaylistOptimisticUpdates cl s p c = Some (prev, c')"
    and "pc_data cl k c' = Some d'"
  shows "if prefix (playlistListKey s) (pc_parts cl k)
         then list_all (\<lambda>item. kp_id item \<noteq> p) (nullish_or (kd_items d') [])
         else if prefix (playlistLoaderKey s) (pc_parts cl k)
         then list_all (\<lambda>row. p = '''' \<or> map_option kr_id row \<noteq> Some (Some p)) (nullish_or (kd_data d') [])
         else pc_data cl k c = Some d'"
proof -
  have lists: "list_all (\<lambda>item. kp_id item \<noteq> p) (nullish_or (kd_items x) [])"
    if "updatedBy (withoutPlaylist p) y = Some x" for x y
    using that by (auto simp: updatedBy_def withoutPlaylist_def Let_def list_all_iff nullish_or_def split: option.splits)
  have rows: "list_all (\<lambda>row. p = '''' \<or> map_option kr_id row \<noteq> Some (Some p)) (nullish_or (kd_data x) [])"
    if "updatedBy (withoutRow p) y = Some x" for x y
    using that by (auto simp: updatedBy_def withoutRow_def list_all_iff nullish_or_def truthy_def split: option.splits)
  have e: "deletedData s p (pc_parts cl k) (pc_data cl k c) = Some d'"
    using assms(3) delete_steps(1) [OF assms(1,2)] by simp
  show ?thesis
  proof (cases "prefix (playlistListKey s) (pc_parts cl k)")
    case True
    then have "updatedBy (withoutPlaylist p) (pc_data cl k c) = Some d'" using e by (simp add: deletedData_def)
    from lists [OF this] show ?thesis using True by simp
  next
    case no_list: False
    show ?thesis
    proof (cases "prefix (playlistLoaderKey s) (pc_parts cl k)")
      case True
      then have "updatedBy (withoutRow p) (pc_data cl k c) = Some d'" using e no_list by (simp add: deletedData_def)
      from rows [OF this] show ?thesis using True no_list by simp
    next
      case False
      then show ?thesis using e no_list by (simp add: deletedData_def)
    qed
  qed
qed

text \<open>
  The rows of an infinite loader are cached under another name than the one the update looks at, so they stay.
\<close>

lemma loader_data_stays: "kd_data d = None \<Longrightarrow> updatedBy (withoutRow p) (Some d) = Some d"
  by (simp add: updatedBy_def withoutRow_def)

text \<open>The count goes down with every deletion, whether or not the playlist was on the page.\<close>

lemma deletion_counts:
  "kd_items d = Some items \<Longrightarrow> kd_totalRecordCount d = Some (Suc n) \<Longrightarrow>
   map_option kd_totalRecordCount (updatedBy (withoutPlaylist p) (Some d)) = Some (Some n)"
  by (simp add: updatedBy_def withoutPlaylist_def Let_def)

text \<open>When the request fails, restoring brings back every query as it was.\<close>

theorem failed_deletion_restores_cache:
  assumes laws: "keepsData cl" and "applyDeletePlaylistOptimisticUpdates cl s p c = Some (prev, c')"
  shows "pc_data cl k (restorePlaylistQueryData cl prev c') = pc_data cl k c"
  by (rule restored_data [OF laws]) (use delete_steps [OF assms] in auto)

section \<open>Examples\<close>

definition alistPlaylists :: "(string list, (string list \<times> cached_data) list) playlist_client" where
  "alistPlaylists = \<lparr>pc_parts = (\<lambda>k. k),
     pc_queries = (\<lambda>base c. map (\<lambda>k. (k, map_of c k)) (filter (\<lambda>k. take (length base) k = base) (remdups (map fst c)))),
     pc_data = (\<lambda>k c. map_of c k),
     pc_set = (\<lambda>k d c. case d of None \<Rightarrow> c | Some x \<Rightarrow> AList.update k x c)\<rparr>"

lemma take_prefix: "take (length base) k = base \<longleftrightarrow> prefix base k"
  by (metis append_eq_conv_conj prefix_def append_take_drop_id)

lemma alistPlaylists_keepsData: "keepsData alistPlaylists"
  unfolding keepsData_def
  by (force simp: alistPlaylists_def take_prefix update_conv' distinct_map inj_on_def comp_def map_of_eq_None_iff
      intro: map_of_SomeD split: option.splits)

definition cachedPlaylists :: "(string list \<times> cached_data) list" where
  "cachedPlaylists =
     [(playlistListKey ''s'', \<lparr>kd_items = Some [\<lparr>kp_id = ''p'', kp_rest = ''''\<rparr>, \<lparr>kp_id = ''q'', kp_rest = ''''\<rparr>],
        kd_totalRecordCount = Some 2, kd_data = None, kd_rest = ''''\<rparr>)]"

definition playlistsLeft :: "(string list \<times> cached_data) list" where
  "playlistsLeft =
     [(playlistListKey ''s'', \<lparr>kd_items = Some [\<lparr>kp_id = ''q'', kp_rest = ''''\<rparr>],
        kd_totalRecordCount = Some 1, kd_data = None, kd_rest = ''''\<rparr>)]"

lemma example_deletion:
  "applyDeletePlaylistOptimisticUpdates alistPlaylists ''s'' ''p'' cachedPlaylists = Some (cachedPlaylists, playlistsLeft)"
  by (simp add: applyDeletePlaylistOptimisticUpdates_def updateQueries_def alistPlaylists_def cachedPlaylists_def
      playlistsLeft_def playlistDetailKey_def playlistListKey_def playlistLoaderKey_def playlistSongsKey_def
      withoutPlaylist_def)

lemma deleted_playlist_leaves_lists_witness:
  "\<exists>d. pc_data alistPlaylists (playlistListKey ''s'') playlistsLeft = Some d
     \<and> list_all (\<lambda>item. kp_id item \<noteq> ''p'') (nullish_or (kd_items d) [])"
proof -
  have "pc_data alistPlaylists (playlistListKey ''s'') playlistsLeft = Some (snd (hd playlistsLeft))"
    by (simp add: alistPlaylists_def playlistsLeft_def)
  moreover from deleted_playlist_leaves_lists [OF alistPlaylists_keepsData example_deletion this]
  have "list_all (\<lambda>item. kp_id item \<noteq> ''p'') (nullish_or (kd_items (snd (hd playlistsLeft))) [])"
    by (simp add: alistPlaylists_def)
  ultimately show ?thesis by blast
qed

lemma failed_deletion_restores_cache_witness:
  "pc_data alistPlaylists (playlistListKey ''s'') (restorePlaylistQueryData alistPlaylists cachedPlaylists playlistsLeft) =
   pc_data alistPlaylists (playlistListKey ''s'') cachedPlaylists"
  by (rule failed_deletion_restores_cache [OF alistPlaylists_keepsData example_deletion])

end
