(* ===== verification/QueryParams.thy ===== *)
theory QueryParams
  imports EnvSettings
begin

text \<open>
  The filters of a list in the address of its page (\<^verbatim>\<open>utils/query-params.ts\<close>): reading and writing search parameters of
  several types. Numbers are whole here, as years, ratings and counts are; JSON is an argument.
\<close>

section \<open>Search parameters\<close>

text \<open>\<open>URLSearchParams\<close>: pairs in order, in which a name can be there more than once.\<close>

type_synonym search_params = "(string \<times> string) list"

definition paramValues :: "search_params \<Rightarrow> string \<Rightarrow> string list" where
  "paramValues ps k = map snd (filter (\<lambda>p. fst p = k) ps)"

definition paramValue :: "search_params \<Rightarrow> string \<Rightarrow> string option" where
  "paramValue ps k = map_of ps k"

definition deleteParam :: "string \<Rightarrow> search_params \<Rightarrow> search_params" where
  "deleteParam k ps = filter (\<lambda>p. fst p \<noteq> k) ps"

definition appendParam :: "string \<Rightarrow> string \<Rightarrow> search_params \<Rightarrow> search_params" where
  "appendParam k v ps = ps @ [(k, v)]"

text \<open>Setting replaces the first of a name and removes the others.\<close>

fun setParam :: "string \<Rightarrow> string \<Rightarrow> search_params \<Rightarrow> search_params" where
  "setParam k v [] = [(k, v)]"
| "setParam k v (p # ps) = (if fst p = k then (k, v) # deleteParam k ps else p # setParam k v ps)"

text \<open>What is sent to the server: letters, digits and \<open>*-._\<close> stay, a space becomes a plus, others bytes of UTF-8.\<close>

definition utf8 :: "char \<Rightarrow> nat list" where
  "utf8 c = (let n = of_char c in if n < 128 then [n] else [192 + n div 64, 128 + n mod 64])"

definition hexDigit :: "nat \<Rightarrow> char" where
  "hexDigit n = char_of (if n < 10 then 48 + n else 55 + n)"

definition staysEncoded :: "nat \<Rightarrow> bool" where
  "staysEncoded n \<longleftrightarrow> 48 \<le> n \<and> n \<le> 57 \<or> 65 \<le> n \<and> n \<le> 90 \<or> 97 \<le> n \<and> n \<le> 122 \<or> n \<in> {42, 45, 46, 95}"

definition encodeByte :: "nat \<Rightarrow> string" where
  "encodeByte n =
     (if n = 32 then ''+'' else if staysEncoded n then [char_of n]
      else [CHR ''%'', hexDigit (n div 16), hexDigit (n mod 16)])"

definition encodeText :: "string \<Rightarrow> string" where
  "encodeText s = concat (map encodeByte (concat (map utf8 s)))"

fun paramsText :: "search_params \<Rightarrow> string" where
  "paramsText [] = ''''"
| "paramsText [(k, v)] = encodeText k @ ''='' @ encodeText v"
| "paramsText ((k, v) # p # ps) = encodeText k @ ''='' @ encodeText v @ ''&'' @ paramsText (p # ps)"

section \<open>Reading\<close>

record json_lib =
  jl_parse :: "string \<Rightarrow> json option"
  jl_stringify :: "json obj \<Rightarrow> string"

definition parseArrayParam :: "search_params \<Rightarrow> string \<Rightarrow> string list option" where
  "parseArrayParam ps k = (let values = paramValues ps k in if length values > 0 then Some values else None)"

definition parseBooleanParam :: "search_params \<Rightarrow> string \<Rightarrow> bool option" where
  "parseBooleanParam ps k = (case paramValue ps k of None \<Rightarrow> None | Some x \<Rightarrow> Some (x = ''true''))"

text \<open>\<open>parseInt\<close>: white space, a sign, and the digits that follow.\<close>

definition parseDecimal :: "string \<Rightarrow> int option" where
  "parseDecimal s =
     (let t = dropWhile isWhite s;
          neg = (t \<noteq> '''' \<and> hd t = CHR ''-'');
          ds = takeWhile isDigit (if t \<noteq> '''' \<and> hd t \<in> {CHR ''-'', CHR ''+''} then tl t else t)
      in if ds = '''' then None else Some (if neg then - int (numberOf ds) else int (numberOf ds)))"

definition parseIntParam :: "search_params \<Rightarrow> string \<Rightarrow> int option" where
  "parseIntParam ps k = (case paramValue ps k of None \<Rightarrow> None | Some x \<Rightarrow> parseDecimal x)"

definition parseStringParam :: "search_params \<Rightarrow> string \<Rightarrow> string option" where
  "parseStringParam ps k = (case paramValue ps k of None \<Rightarrow> None | Some x \<Rightarrow> Some x)"

definition parseJsonParam :: "json_lib \<Rightarrow> search_params \<Rightarrow> string \<Rightarrow> json option" where
  "parseJsonParam J ps k = (case paramValue ps k of None \<Rightarrow> None | Some x \<Rightarrow> jl_parse J x)"

text \<open>The schema of custom filters is that of any object.\<close>

definition parseCustomFiltersParam :: "json_lib \<Rightarrow> search_params \<Rightarrow> string \<Rightarrow> json obj option" where
  "parseCustomFiltersParam J ps k = (case parseJsonParam J ps k of Some (J_object m) \<Rightarrow> Some m | _ \<Rightarrow> None)"

section \<open>Writing\<close>

datatype param_value = Pv_none | Pv_bool bool | Pv_number int | Pv_text string | Pv_array "string list" | Pv_object "json obj"

definition intText :: "int \<Rightarrow> string" where
  "intText n = (if n < 0 then CHR ''-'' # decimal (nat (- n)) else decimal (nat n))"

definition boolText :: "bool \<Rightarrow> string" where
  "boolText b = (if b then ''true'' else ''false'')"

definition appendAll :: "string \<Rightarrow> string list \<Rightarrow> search_params \<Rightarrow> search_params" where
  "appendAll k vs ps = fold (appendParam k) vs (deleteParam k ps)"

text \<open>An object that is set without JSON becomes what \<open>String\<close> makes of every object.\<close>

definition setSearchParam :: "search_params \<Rightarrow> string \<Rightarrow> param_value \<Rightarrow> search_params" where
  "setSearchParam ps k v =
     (case v of
        Pv_none \<Rightarrow> deleteParam k ps
      | Pv_array vs \<Rightarrow> appendAll k vs ps
      | Pv_bool b \<Rightarrow> setParam k (boolText b) ps
      | Pv_number n \<Rightarrow> setParam k (intText n) ps
      | Pv_text s \<Rightarrow> setParam k s ps
      | Pv_object m \<Rightarrow> setParam k ''[object Object]'' ps)"

definition setJsonSearchParam :: "json_lib \<Rightarrow> search_params \<Rightarrow> string \<Rightarrow> json obj option \<Rightarrow> search_params" where
  "setJsonSearchParam J ps k v = (case v of None \<Rightarrow> deleteParam k ps | Some m \<Rightarrow> setParam k (jl_stringify J m) ps)"

definition setOneParam :: "json_lib \<Rightarrow> string set \<Rightarrow> string \<times> param_value \<Rightarrow> search_params \<Rightarrow> search_params" where
  "setOneParam J jsonKeys p newParams =
     (let (k, v) = p
      in if v = Pv_none then deleteParam k newParams
         else if k \<in> jsonKeys
         then (case v of Pv_object m \<Rightarrow> setParam k (jl_stringify J m) newParams | _ \<Rightarrow> deleteParam k newParams)
         else (case v of
             Pv_array vs \<Rightarrow> appendAll k vs newParams
           | Pv_bool b \<Rightarrow> setParam k (boolText b) newParams
           | Pv_number n \<Rightarrow> setParam k (intText n) newParams
           | Pv_text s \<Rightarrow> setParam k s newParams
           | _ \<Rightarrow> setParam k ''[object Object]'' newParams))"

definition setMultipleSearchParams ::
    "json_lib \<Rightarrow> search_params \<Rightarrow> param_value obj \<Rightarrow> string set \<Rightarrow> search_params" where
  "setMultipleSearchParams J ps params jsonKeys = fold (setOneParam J jsonKeys) params ps"

definition PAGINATION_KEYS :: "string list" where
  "PAGINATION_KEYS = [''currentPage'', ''scrollOffset'']"

definition mergeFilter :: "json_lib \<Rightarrow> string \<times> param_value \<Rightarrow> search_params \<Rightarrow> search_params" where
  "mergeFilter J p ps =
     (let (k, v) = p
      in case v of
           Pv_none \<Rightarrow> ps
         | Pv_array vs \<Rightarrow> appendAll k vs ps
         | Pv_object m \<Rightarrow> setParam k (jl_stringify J m) ps
         | Pv_bool b \<Rightarrow> setParam k (boolText b) ps
         | Pv_number n \<Rightarrow> setParam k (intText n) ps
         | Pv_text s \<Rightarrow> setParam k s ps)"

definition filterParams :: "json_lib \<Rightarrow> search_params \<Rightarrow> param_value obj option \<Rightarrow> search_params" where
  "filterParams J ps customFilters =
     (let params = fold deleteParam PAGINATION_KEYS ps
      in case customFilters of None \<Rightarrow> params | Some fs \<Rightarrow> fold (mergeFilter J) fs params)"

definition getFilterQueryStringFromSearchParams :: "json_lib \<Rightarrow> search_params \<Rightarrow> param_value obj option \<Rightarrow> string" where
  "getFilterQueryStringFromSearchParams J ps customFilters = paramsText (filterParams J ps customFilters)"

section \<open>What is read after writing\<close>

lemma paramValue_hd: "paramValue ps k = (case paramValues ps k of [] \<Rightarrow> None | v # vs \<Rightarrow> Some v)"
  by (induction ps) (auto simp: paramValue_def paramValues_def)

lemma values_delete [simp]: "paramValues (deleteParam k ps) x = (if x = k then [] else paramValues ps x)"
  by (auto simp: paramValues_def deleteParam_def filter_empty_conv intro!: arg_cong [of _ _ "map snd"] filter_cong)

lemma values_append [simp]: "paramValues (appendParam k v ps) x = (if x = k then paramValues ps k @ [v] else paramValues ps x)"
  by (simp add: paramValues_def appendParam_def)

lemma values_set [simp]: "paramValues (setParam k v ps) x = (if x = k then [v] else paramValues ps x)"
proof (induction k v ps rule: setParam.induct)
  case (2 k v p ps)
  have cons: "paramValues (q # qs) x = (if fst q = x then snd q # paramValues qs x else paramValues qs x)" for q qs
    by (simp add: paramValues_def)
  show ?case using 2 by (cases "fst p = k") (auto simp del: split_paired_All simp: cons)
qed (simp add: paramValues_def)

lemma values_appendAll [simp]: "paramValues (appendAll k vs ps) x = (if x = k then vs else paramValues ps x)"
proof -
  have "paramValues (fold (appendParam k) vs qs) x = (if x = k then paramValues qs k @ vs else paramValues qs x)" for qs
    by (induction vs arbitrary: qs) auto
  then show ?thesis by (simp add: appendAll_def)
qed

text \<open>The texts that stand for a value.\<close>

definition textsOf :: "json_lib \<Rightarrow> bool \<Rightarrow> param_value \<Rightarrow> string list" where
  "textsOf J asJson v =
     (case v of
        Pv_none \<Rightarrow> []
      | Pv_object m \<Rightarrow> [if asJson then jl_stringify J m else ''[object Object]'']
      | Pv_array vs \<Rightarrow> if asJson then [] else vs
      | Pv_bool b \<Rightarrow> if asJson then [] else [boolText b]
      | Pv_number n \<Rightarrow> if asJson then [] else [intText n]
      | Pv_text s \<Rightarrow> if asJson then [] else [s])"

lemma values_setSearchParam:
  "paramValues (setSearchParam ps k v) x = (if x = k then textsOf J False v else paramValues ps x)"
  by (cases v) (simp_all add: setSearchParam_def textsOf_def)

lemma values_setOneParam:
  "paramValues (setOneParam J js (k, v) ps) x = (if x = k then textsOf J (k \<in> js) v else paramValues ps x)"
  by (cases v) (simp_all add: setOneParam_def textsOf_def)

lemma values_setMultiple:
  "distinct (obj_keys params) \<Longrightarrow>
   paramValues (setMultipleSearchParams J ps params js) x =
     (case map_of params x of None \<Rightarrow> paramValues ps x | Some v \<Rightarrow> textsOf J (x \<in> js) v)"
  unfolding setMultipleSearchParams_def
proof (induction params arbitrary: ps)
  case (Cons p params)
  obtain k v where p: "p = (k, v)" by (cases p)
  with Cons.prems have "map_of params k = None" by (simp add: map_of_eq_None_iff)
  with Cons p show ?case by (auto simp: values_setOneParam split: option.split)
qed simp

lemma values_merged:
  "distinct (obj_keys fs) \<Longrightarrow>
   paramValues (fold (mergeFilter J) fs ps) x =
     (case map_of fs x of
        None \<Rightarrow> paramValues ps x
      | Some v \<Rightarrow> if v = Pv_none then paramValues ps x
          else textsOf J (case v of Pv_object _ \<Rightarrow> True | _ \<Rightarrow> False) v)"
proof (induction fs arbitrary: ps)
  case (Cons p fs)
  obtain k v where p: "p = (k, v)" by (cases p)
  with Cons.prems have new: "map_of fs k = None" by (simp add: map_of_eq_None_iff)
  have "paramValues (mergeFilter J (k, v) ps) y = (if y = k \<and> v \<noteq> Pv_none
      then textsOf J (case v of Pv_object _ \<Rightarrow> True | _ \<Rightarrow> False) v else paramValues ps y)" for y
    by (cases v) (simp_all add: mergeFilter_def textsOf_def)
  with Cons p new show ?case by (auto split: option.split)
qed simp

lemma decimal_nonempty [simp]: "decimal n \<noteq> ''''"
  by (subst decimal.simps) simp

lemma param_digit_not_white: "isDigit c \<Longrightarrow> \<not> isWhite c"
  by (auto simp: isDigit_def isWhite_def)

lemma takeWhile_decimal [simp]: "takeWhile isDigit (decimal n) = decimal n"
  using decimal_digits [of n] by (simp add: list_all_iff)

lemma parseDecimal_intText: "parseDecimal (intText n) = Some n"
proof (cases "n < 0")
  case True
  have "\<not> isWhite CHR ''-''" by (simp add: isWhite_def)
  then show ?thesis using True by (simp add: parseDecimal_def intText_def Let_def numberOf_decimal)
next
  case False
  obtain c cs where d: "decimal (nat n) = c # cs" by (cases "decimal (nat n)") simp_all
  then have c: "isDigit c" using decimal_digits [of "nat n"] by simp
  have "\<not> isDigit CHR ''-''" "\<not> isDigit CHR ''+''" by (simp_all add: isDigit_def)
  then have sign: "c \<noteq> CHR ''-''" "c \<noteq> CHR ''+''" using c by auto
  have t: "takeWhile isDigit (c # cs) = c # cs" using takeWhile_decimal [of "nat n"] d by simp
  have "intText n = c # cs" using False d by (simp add: intText_def)
  then have "parseDecimal (intText n) = Some (int (numberOf (c # cs)))"
    using sign param_digit_not_white [OF c] by (simp add: parseDecimal_def Let_def t del: takeWhile.simps takeWhile_eq_all_conv)
  then show ?thesis using False numberOf_decimal [of "nat n"] d by simp
qed

text \<open>Reading by the type of a value.\<close>

definition readsBack :: "json_lib \<Rightarrow> bool \<Rightarrow> search_params \<Rightarrow> string \<Rightarrow> param_value \<Rightarrow> bool" where
  "readsBack J asJson ps k v =
     (case v of
        Pv_none \<Rightarrow> parseStringParam ps k = None
      | Pv_bool b \<Rightarrow> parseBooleanParam ps k = (if asJson then None else Some b)
      | Pv_number n \<Rightarrow> parseIntParam ps k = (if asJson then None else Some n)
      | Pv_text s \<Rightarrow> parseStringParam ps k = (if asJson then None else Some s)
      | Pv_array vs \<Rightarrow> parseArrayParam ps k = (if asJson \<or> vs = [] then None else Some vs)
      | Pv_object m \<Rightarrow> (if asJson then parseCustomFiltersParam J ps k = Some m
                       else parseStringParam ps k = Some ''[object Object]''))"

lemma reads_texts:
  assumes "\<And>m. v = Pv_object m \<Longrightarrow> jl_parse J (jl_stringify J m) = Some (J_object m)" "paramValues ps k = textsOf J asJson v"
  shows "readsBack J asJson ps k v"
  using assms
  by (cases v) (simp_all add: readsBack_def textsOf_def parseStringParam_def parseBooleanParam_def parseIntParam_def
      parseArrayParam_def parseCustomFiltersParam_def parseJsonParam_def paramValue_hd parseDecimal_intText boolText_def)

text \<open>
  Whatever was in the address, every value that is set is read back by the reader of its type, and no other parameter is
  touched; what is not an object is not kept where JSON is.
\<close>

theorem search_params_round_trip:
  assumes "\<And>k m. (k, Pv_object m) \<in> set params \<Longrightarrow> jl_parse J (jl_stringify J m) = Some (J_object m)" and "distinct (obj_keys params)"
  shows "(case map_of params k of
            None \<Rightarrow> paramValues (setMultipleSearchParams J ps params js) k = paramValues ps k
          | Some v \<Rightarrow> readsBack J (k \<in> js) (setMultipleSearchParams J ps params js) k v)"
proof (cases "map_of params k")
  case (Some v)
  have "jl_parse J (jl_stringify J m) = Some (J_object m)" if "v = Pv_object m" for m
    using assms(1) map_of_SomeD [OF Some] that by simp
  then have "readsBack J (k \<in> js) (setMultipleSearchParams J ps params js) k v"
    by (rule reads_texts) (simp_all add: values_setMultiple [OF assms(2)] Some)
  then show ?thesis using Some by simp
qed (simp add: values_setMultiple [OF assms(2)])

lemma search_param_round_trip:
  assumes "\<And>m. jl_parse J (jl_stringify J m) = Some (J_object m)"
  shows "readsBack J False (setSearchParam ps k v) k v"
    "x \<noteq> k \<Longrightarrow> paramValues (setSearchParam ps k v) x = paramValues ps x"
  by (auto intro: reads_texts [OF assms] simp: values_setSearchParam [of ps k v _ J])

text \<open>What the server is asked: no position in the list, the filters of the page, and else what the address says.\<close>

lemma filter_params:
  assumes "distinct (obj_keys fs)"
  shows "paramValues (filterParams J ps (Some fs)) k =
    (case map_of fs k of
       Some v \<Rightarrow> if v = Pv_none then (if k \<in> set PAGINATION_KEYS then [] else paramValues ps k)
         else textsOf J (case v of Pv_object _ \<Rightarrow> True | _ \<Rightarrow> False) v
     | None \<Rightarrow> if k \<in> set PAGINATION_KEYS then [] else paramValues ps k)"
  by (auto simp: filterParams_def Let_def PAGINATION_KEYS_def values_merged [OF assms] split: option.split)

section \<open>Examples\<close>

definition exampleFilters :: "json obj" where
  "exampleFilters = [(''compilation'', J_bool True)]"

text \<open>JSON as far as the example has it.\<close>

definition exampleJson :: json_lib where
  "exampleJson = \<lparr>jl_parse = (\<lambda>s. if s = ''{compilation}'' then Some (J_object exampleFilters) else None),
     jl_stringify = (\<lambda>m. if m = exampleFilters then ''{compilation}'' else ''null'')\<rparr>"

definition exampleParams :: "param_value obj" where
  "exampleParams = [(''_custom'', Pv_object exampleFilters), (''minYear'', Pv_number 1990), (''genreIds'', Pv_array [''a'', ''b'']),
     (''favorite'', Pv_none)]"

lemma search_params_round_trip_witness:
  "parseIntParam (setMultipleSearchParams exampleJson [(''favorite'', ''true''), (''minYear'', ''x'')] exampleParams {''_custom''}) ''minYear'' = Some 1990"
  using search_params_round_trip [where params = exampleParams and J = exampleJson and k = "''minYear''" and js = "{''_custom''}"
      and ps = "[(''favorite'', ''true''), (''minYear'', ''x'')]"]
  by (simp add: exampleParams_def exampleJson_def readsBack_def)

end
