(* ===== verification/Spec2Isabelle.thy ===== *)
theory Spec2Isabelle
  imports QueueStart AutoDj PlayerPersist WebPlayer SleepTimer ListControls ListLoader Scrobble Optimistic
    QueryBuilder Lyrics EventEmitter QueueRestore JellyfinLists NavidromeLists RadioStations NavidromeAuth SettingsMigration RemoteFiles
    ArtistAlbums PlaylistDelete QueryParams
begin

text \<open>
  A verification library for the core logic of the TypeScript client of this repository (the music
  player under \<^verbatim>\<open>src/feishin/src\<close>). File names below are relative to \<^verbatim>\<open>src/feishin/src/renderer\<close>,
  unless they begin with \<^verbatim>\<open>shared\<close>.

  \<^bold>\<open>The program.\<close> The player store (\<^verbatim>\<open>store/player.store.ts\<close>) holds the queue, as a list of unique ids
  with an object of songs and, under shuffle, a list of shuffled positions, and the state of the player: the
  index, the repeat and shuffle modes, which of the two web players is active. Its actions are
  called by the user interface, by the audio engines when a track ends, and by the radio store
  (\<^verbatim>\<open>features/radio/hooks/use-radio-player.ts\<close>); they write the timestamp store
  (\<^verbatim>\<open>store/timestamp.store.ts\<close>), call the radio store, and emit events. Subscriptions and selectors
  hand the current, next and previous song to the engines, to the user interface and to the scrobbling hook
  (\<^verbatim>\<open>features/player/hooks/use-scrobble.ts\<close>), which measures the listen time and reports plays to the server.
  The store is saved in an IndexedDB (\<^verbatim>\<open>store/utils.ts\<close>). The web player
  (\<^verbatim>\<open>features/player/audio-player/web-player.tsx\<close>, \<^verbatim>\<open>engine/web-player-engine.tsx\<close>) plays the queue with two audio
  elements that hand over to each other. Songs come into the queue through the player context
  (\<^verbatim>\<open>features/player/context/player-context.tsx\<close>), which fetches them, orders them and applies the filters of the
  settings, and from the auto DJ (\<^verbatim>\<open>features/player/hooks/use-auto-dj.ts\<close>, \<^verbatim>\<open>features/player/auto-dj\<close>), which
  extends a queue that is about to end. Item lists keep what is selected, expanded and dragged in stores of their own
  (\<^verbatim>\<open>components/item-list/helpers/item-list-state.ts\<close>, \<^verbatim>\<open>item-list-reducer-utils.ts\<close>); their rows are loaded
  by pages (\<^verbatim>\<open>item-list-infinite-loader.ts\<close>, \<^verbatim>\<open>item-list-paginated-loader.ts\<close>). When a
  favourite or a rating is set, the cached queries are rewritten at once and restored if the request
  fails (\<^verbatim>\<open>features/shared/mutations/favorite-optimistic-updates.ts\<close>, \<^verbatim>\<open>rating-optimistic-updates.ts\<close>).
  The servers are reached through adapters; the one for Subsonic (\<^verbatim>\<open>api/subsonic/subsonic-controller.ts\<close>) answers lists
  and counts, changes playlists and favourites, reports plays, and keeps the queue
  (\<^verbatim>\<open>features/player/hooks/use-queue-restore.ts\<close>); it normalises what the server sends
  (\<^verbatim>\<open>shared/api/subsonic/subsonic-normalize.ts\<close>) and sorts what the server cannot sort (\<^verbatim>\<open>shared/api/utils.ts\<close>).
  The one for Jellyfin (\<^verbatim>\<open>api/jellyfin/jellyfin-controller.ts\<close>, \<^verbatim>\<open>shared/api/jellyfin\<close>) has the same operations, but leaves
  selecting, sorting and paging to the server, and so does the one for Navidrome
  (\<^verbatim>\<open>api/navidrome/navidrome-controller.ts\<close>, \<^verbatim>\<open>shared/api/navidrome\<close>) with what its server does not have in common with
  Subsonic's. Its requests log in again when their token is refused (\<^verbatim>\<open>api/navidrome/navidrome-api.ts\<close>). The servers and
  the one that is current are in the store of \<^verbatim>\<open>store/auth.store.ts\<close>, and the radio stations of servers that have none in
  that of \<^verbatim>\<open>features/radio/store/radio-store.ts\<close>. Settings can be given by the environment
  (\<^verbatim>\<open>store/env-settings-overrides.ts\<close>), and those that an older version saved are migrated when they are read
  (\<^verbatim>\<open>store/settings.store.ts\<close>). The desktop program has a server for remote controls (\<^verbatim>\<open>main/features/core/remote/index.ts\<close>
  beside \<^verbatim>\<open>renderer\<close>, and \<^verbatim>\<open>remote/store/index.ts\<close> for the other side), which tells them over sockets what the player does.

  \<^bold>\<open>The theories.\<close>
  \<^item> \<open>Prelude\<close>: the JavaScript value domain the code computes with (an index is an integer or NaN, reads
    out of range give undefined, \<open>slice\<close> with any index, insertion-ordered objects), the theorem collections
    \<open>js_simps\<close>, \<open>store_inv\<close> and \<open>list_inv\<close>, and the locales of a component that is driven by
    operations: \<open>driven_component\<close> (an invariant that every operation keeps holds after every
    sequence of them) and \<open>versioned_component\<close> (its version counts the changes).
  \<^item> \<open>Shuffle\<close>: \<^verbatim>\<open>utils/shuffle.ts\<close>. It permutes the array, and every permutation comes up for some draws.
  \<^item> \<open>PlayerTypes\<close>: the enumerations of \<^verbatim>\<open>shared/types/types.ts\<close>, the songs of
    \<^verbatim>\<open>shared/types/domain-types.ts\<close>, the records of the store, and the world its actions change.
  \<^item> \<open>PlayerQueries\<close>: getters, selectors and subscriptions. \<open>PlayerQueue\<close>: adding to the queue, with the
    helpers. \<open>PlayerEdit\<close>: clearing, moving, restoring, shuffling, updates of queued songs. \<open>PlayerMedia\<close>:
    transport, seeking, settings, the radio's actions. One definition per function or action, in the order of the
    code.
  \<^item> \<open>PlayerStore\<close>: every operation keeps the store well formed. \<open>PlayerActions\<close>: the actions as one type with a
    step function, the initial world, and the interpretation of \<open>driven_component\<close>.
  \<^item> \<open>PlayOrder\<close>: the abstract specification of the player: the playback order (the ids in the order in
    which they are played), \<open>order_ok\<close> (the shuffled positions are a permutation of those of the queue), and the next
    and previous song of an order. \<open>Playback\<close>: the player data and the ends of tracks refine it.
    \<open>QueueOrder\<close>: adding and clearing as operations on the order. \<open>QueueCurrent\<close>: which operations keep the
    current song. \<open>QueueStart\<close>: the operations that start a song, and the invariant of all reachable worlds.
  \<^item> \<open>PlayerPersist\<close>: what is saved, the storage with writes that may fail, the migration, and starting from what
    was saved; interpretation of \<open>driven_component\<close>.
  \<^item> \<open>WebPlayer\<close>: the easing functions, the crossfade and gapless handlers, ends, fades, errors and replay gain,
    as a state machine over the world of the player and the two audio elements.
  \<^item> \<open>PlayerFilters\<close>: the player filters. \<open>QueueFetch\<close>: folders, the order of fetched songs, paged list queries, and
    the context's three ways to add to the queue. \<open>AutoDj\<close>: its collectors, its trigger and its listener.
  \<^item> \<open>ListLoader\<close>: the infinite and the paginated loader; interpretation of \<open>driven_component\<close>.
  \<^item> \<open>ItemList\<close>: the reducer, the external store with its cache and listeners, the operations and queries of the
    hook; interpretation of \<open>versioned_component\<close>. \<open>ListControls\<close>: what clicks, double clicks and
    the other controls of a row do (\<^verbatim>\<open>components/item-list/helpers/item-list-controls.ts\<close>).
  \<^item> \<open>SleepTimer\<close>: the store, the handlers and the effect of the sleep timer, over the world of the player
    (\<^verbatim>\<open>store/sleep-timer.store.ts\<close>, \<^verbatim>\<open>features/player/components/sleep-timer-button.tsx\<close>).
  \<^item> \<open>JsText\<close>: digits, white space and numbers in texts. \<open>QueryBuilder\<close>: the queries of smart playlists
    (\<^verbatim>\<open>features/playlists/utils.ts\<close>). \<open>Lyrics\<close>: reading synchronized lyrics, and which lyrics of a song are
    shown (\<^verbatim>\<open>features/lyrics/api/lyrics-api.ts\<close>).
  \<^item> \<open>EventEmitter\<close>: the emitter of the events (\<^verbatim>\<open>events/event-emitter.ts\<close>), with its arrays of callbacks in a heap.
  \<^item> \<open>MediaTypes\<close>: songs, albums, artists, playlists, folders and stations as the adapters deliver them.
    \<open>SubsonicNormalize\<close>: how they come out of the answers of a Subsonic server. \<open>ClientSort\<close>: the lists that are sorted
    by the client. \<open>SubsonicLists\<close>: the lists of the controller and their counts. \<open>ServerFeatures\<close>: what a server
    can do, by its version and its extensions, for the three kinds of servers. \<open>SubsonicChanges\<close>: playlists,
    favourites, ratings, stations and scrobbles, on a state of the server. \<open>SubsonicMedia\<close>: addresses, lyrics, folders,
    search, details and the songs of a playlist. \<open>QueueRestore\<close>: the queue kept on a server, and the position of the last
    session when the program starts.
  \<^item> \<open>JsArrays\<close>: joining, splitting and replacing text, chunks of arrays, and bytes as text. \<open>JellyfinNormalize\<close>,
    \<open>JellyfinChanges\<close> and \<open>JellyfinLists\<close>: the adapter for Jellyfin, in the same parts as that for Subsonic.
    \<open>NavidromeNormalize\<close>, \<open>NavidromeChanges\<close> and \<open>NavidromeLists\<close>: the adapter for Navidrome.
  \<^item> \<open>Servers\<close>: the store of the servers, and what happens when a session has expired. \<open>NavidromeAuth\<close>: requests to
    Navidrome as a state machine, in which they share two flags and wait for one another's login; interpretation of
    \<open>driven_component\<close>. \<open>RadioStations\<close>: the store of stations, and the endpoints for Jellyfin that forward to it;
    interpretation of \<open>driven_component\<close>. \<open>EnvSettings\<close>: the table of the variables of the environment, how their texts
    are read, and the object of overrides. \<open>SettingsMigration\<close>: the steps of the migration and their sequence.
  \<^item> \<open>RemoteServer\<close>: the sockets of the remote control, as a state machine over its clients, and what a client makes of
    what it receives. \<open>RemoteFiles\<close>: the requests for its files and their cache; interpretation of \<open>driven_component\<close>.
  \<^item> \<open>ArtistAlbums\<close>: the groups of albums on the page of an artist
    (\<^verbatim>\<open>features/artists/hooks/use-artist-albums-grouped.ts\<close>). \<open>PlaylistDelete\<close>: the update of the query cache when a
    playlist is deleted (\<^verbatim>\<open>features/playlists/mutations/playlist-optimistic-updates.ts\<close>). \<open>QueryParams\<close>: the filters
    of lists in the address of their page (\<^verbatim>\<open>utils/query-params.ts\<close>).
  \<^item> \<open>Scrobble\<close>: the handlers and the delayed callbacks of the hook, and its runs.
  \<^item> \<open>Optimistic\<close>: the updates of the query cache, at once and deferred, over a query client that is a
    parameter; \<open>client_ok\<close> states its documented behaviour, and \<open>alistClient\<close> shows that it can be had.

  \<^bold>\<open>How the code is rendered.\<close> Records of the code are records, enumerations datatypes, and an object with
  string keys is an association list in insertion order. Actions are functions on an explicit world. In
  an update of the store, a getter that is called through the draft still sees the store before the update,
  because it calls \<open>get()\<close>; the definitions say which store is read. Random numbers are a stream of
  fractions with 53 bits, unique ids a stream of strings; both are arguments of the world, so that statements
  hold for all draws and ids. Seconds, milliseconds and volumes are exact rationals that stand for the code's floating
  point numbers; rounding errors are not modelled, and the numbers are assumed to be finite. Volumes and easings of the web player are reals, its
  quotients have explicit infinities and NaN. Answers of servers are arguments, None for a rejected request. Reading a property
  of null or undefined is an explicit type error. Recursion is structural, except for the loops that may not end and run on fuel:
  the descent into folders, the pages of a list query, and the counts that ask for pages until one is not full (for
  a list of \<open>n\<close> songs, \<open>n div 5000 + 11\<close> requests are enough). What fuel is enough is part of their theorems, and so is that a
  folder that contains itself exhausts every fuel.

  \<^bold>\<open>What the lemmas show.\<close> Well-formedness: the displayed queue is the list of queued ids, after any
  sequence of operations. Playback: the announced next song is the one that plays, in every mode; a run
  of track ends walks through the order, in a circle or to its end. Queue operations: what each does to the
  order and to the current song. Several theorems state flaws of the code as it is: which index clearing and
  moving write under shuffle, where adding next inserts without shuffled positions, which song is announced
  when playing now, what position a submission carries, which cached data the deferred favourite update does not touch, the inverted exponential fade out.
  Persistence: a session survives a restart whatever writes failed before. Web player: volumes stay in
  bounds, crossfades hand over, fades end, retries are limited, replay gain does not clip. Fetching: loops end and collect
  everything. Auto DJ: what it adds is new and goes to the end of the order. Loaders: rows are those of the server.
  Lists: the four pairs of sets and maps agree, and the cache is never stale. Scrobbling: the listen time is bounded, and
  a play is submitted at most once and only when eligible. Sleep timer: each mode pauses the player when it
  should, and no flag is left without a timer. Controls: clicks refine operations on sets of rows. Smart playlists and
  lyrics: what is written is read back. Optimistic updates: restoring undoes
  updating for every key; what is marked. Subsonic: counts are exact and end, the pages of a list make up the
  list, and normalised items are well formed; replacing the songs of a playlist never loses songs, and songs are removed by the
  ids with which they are listed; a queue that was saved is restored, and the seek at the start happens at most once.
  Jellyfin: what is sent in chunks or asked for in batches has the effect of one request, pages make up the list, an image is
  decoded to itself; flaws are the counts of the songs of albums, and the names of folders, which are never found.
  Navidrome: the songs of any number of albums are found and counted, tags are grouped by their names, and the queue is
  restored through either interface; flaws are the pages of batches, the remixers of albums, and the songs with missing files,
  which replacing a playlist leaves in it.
  Servers: each is filed under its id, and the current one is that of the list; a failure that is reported late revives a
  server that has been deleted. Logging in again: a refused request is repeated with the new token, waiting ends after
  five looks, and the delay does not outlast the requests; flaws are two logins at once, and requests that are repeated
  with the old token. Stations: the store refines a map. Environment: each variable sets the setting that it is
  named after, to what its text is read as. Migration: what comes out has what was added since and then stays as it is, and no
  column is lost; flaws are the settings of old versions that are dropped, left as they were, or lost with an error.
  Remote control: only clients with credentials command the window, a client that listens shows the state of the player, and
  the files that are served are current if they change their time with their content; flaws are the state that is sent
  before the authentication, and the updates that are missed. Pages: the albums of an artist are shown once and under their
  types, a deleted playlist is in no cached list until its request fails, and the filters in an address are read as they were
  written.
  Emitter: it refines a map from events to lists of callbacks. Features: those of the versions that a server has reached.

  \<^bold>\<open>Not modelled.\<close> Rendering, React's scheduling and the subscription hooks that only return a field; the
  audio graph and elements, and the mpv process; throttling and cache times of the query client; lodash's merge, whose documented
  effect is a hypothesis; the server and the transport to it; the main process. Of the adapter for Subsonic, the schemas by which answers are checked and the profiles of
  codecs that are sent for a decision about transcoding. Of the requests to Navidrome, the contract with its
  schemas and axios itself. Of the settings store, the initial settings and the actions that
  set a field.
\<close>

end
